(* ===== verification/Prelude.thy ===== *)
theory Prelude
  imports Complex_Main "HOL-Library.Char_ord" "HOL-Library.List_Lexorder"
begin

text \<open>
  What every component shares: time stamps, the structured texts that stand for the
  program's f-strings, Python's string operations on \<^typ>\<open>string\<close>, the errors the code
  raises, and the two interfaces (\<open>verdict_shape\<close>, \<open>fenced_authority\<close>) that several
  components implement.

  Python's \<open>float\<close> time stamps and durations are rationals: every finite float is one, and
  the code only adds and compares them (the rounding of an addition is not modelled).
  A three-valued answer \<open>True\<close>/\<open>False\<close>/\<open>None\<close> is a \<^typ>\<open>bool option\<close>.
\<close>

type_synonym time = rat

type_synonym tri = "bool option"

abbreviation Yes :: tri where "Yes \<equiv> Some True"
abbreviation No :: tri where "No \<equiv> Some False"
abbreviation Unknown :: tri where "Unknown \<equiv> None"

text \<open>
  A text the program builds. \<open>Txt\<close> is a string it was given or spells exactly; \<open>Fmt t args\<close>
  is an f-string: \<open>t\<close> names the template, \<open>args\<close> are the interpolated values in the order
  they appear. A template always contains constant text, so it is never empty.
\<close>

datatype msg = Txt string | Num int | Sec rat | Tri tri | Fmt string "msg list"

fun truthy :: "msg \<Rightarrow> bool" where
  "truthy (Txt s) = (s \<noteq> [])"
| "truthy _ = True"

abbreviation empty_msg :: msg where "empty_msg \<equiv> Txt []"

text \<open>An optional text, as it appears inside an f-string.\<close>

fun opt_msg :: "string option \<Rightarrow> msg" where
  "opt_msg None = Fmt ''None'' []"
| "opt_msg (Some s) = Txt s"

lemma truthy_opt_msg: "truthy (opt_msg x) = (x \<noteq> Some [])"
  by (cases x) auto

datatype py_error = ValueError string | SystemExit int | ProbeTransportError string | OtherError string

text \<open>\<open>f"{type(exc).__name__}: {exc}"\<close>.\<close>

fun error_msg :: "py_error \<Rightarrow> msg" where
  "error_msg (ValueError t) = Fmt ''ValueError'' [Txt t]"
| "error_msg (SystemExit n) = Fmt ''SystemExit'' [Num n]"
| "error_msg (ProbeTransportError t) = Fmt ''ProbeTransportError'' [Txt t]"
| "error_msg (OtherError t) = Fmt ''Exception'' [Txt t]"

type_synonym 'a result = "py_error + 'a"

fun bind_result :: "'a result \<Rightarrow> ('a \<Rightarrow> 'b result) \<Rightarrow> 'b result" where
  "bind_result (Inl e) f = Inl e"
| "bind_result (Inr x) f = f x"

lemma bind_result_Inr_iff:
  "bind_result r f = Inr y \<longleftrightarrow> (\<exists>x. r = Inr x \<and> f x = Inr y)"
  by (cases r) auto

text \<open>A comprehension whose element may raise: the first that does decides.\<close>

fun map_result :: "('a \<Rightarrow> 'b result) \<Rightarrow> 'a list \<Rightarrow> 'b list result" where
  "map_result f [] = Inr []"
| "map_result f (x # xs) = bind_result (f x) (\<lambda>y. bind_result (map_result f xs) (\<lambda>ys. Inr (y # ys)))"

lemma map_result_Inr_iff: "map_result f xs = Inr ys \<longleftrightarrow> list_all2 (\<lambda>x y. f x = Inr y) xs ys"
  by (induction xs arbitrary: ys) (auto simp: bind_result_Inr_iff list_all2_Cons1)

text \<open>A computation on a state that may raise; the state keeps what was done before the raise.\<close>

type_synonym ('s, 'a) prog = "'s \<Rightarrow> 'a result \<times> 's"

definition ret :: "'a \<Rightarrow> ('s, 'a) prog" where
  "ret x s = (Inr x, s)"

definition raising :: "py_error \<Rightarrow> ('s, 'a) prog" where
  "raising e s = (Inl e, s)"

definition seq :: "('s, 'a) prog \<Rightarrow> ('a \<Rightarrow> ('s, 'b) prog) \<Rightarrow> ('s, 'b) prog" where
  "seq m f s = (case m s of (Inl e, s') \<Rightarrow> (Inl e, s') | (Inr x, s') \<Rightarrow> f x s')"

definition lift :: "'a result \<Rightarrow> ('s, 'a) prog" where
  "lift r s = (r, s)"

definition get_state :: "('s, 's) prog" where
  "get_state s = (Inr s, s)"

definition put_state :: "('s \<Rightarrow> 's) \<Rightarrow> ('s, unit) prog" where
  "put_state f s = (Inr (), f s)"

named_theorems prog \<comment> \<open>running a computation\<close>

lemmas [prog] = ret_def raising_def lift_def get_state_def put_state_def

lemma seq_Inr_iff:
  "seq m f s = (Inr y, s') \<longleftrightarrow> (\<exists>x s1. m s = (Inr x, s1) \<and> f x s1 = (Inr y, s'))"
  by (auto simp: seq_def split: prod.splits sum.splits)

lemma seq_Inr [prog]: "m s = (Inr x, s1) \<Longrightarrow> seq m f s = f x s1"
  by (simp add: seq_def)

lemma seq_Inl [prog]: "m s = (Inl e, s1) \<Longrightarrow> seq m f s = (Inl e, s1)"
  by (simp add: seq_def)

lemma seq_prog [prog]:
  "seq (ret x) f = f x" "seq (raising e) f = raising e"
  "seq (seq m f) g = seq m (\<lambda>x. seq (f x) g)"
  by (rule ext; simp add: seq_def ret_def raising_def split: prod.splits sum.splits)+

subsection \<open>What a computation leaves alone\<close>

text \<open>
  \<open>stays R m\<close>: from any state, \<open>m\<close> ends in one related to it by \<open>R\<close>, whether it returns or raises.
  \<open>R\<close> is a preorder, such as ``the source's files are the same'' or ``the clock was not set back''.
\<close>

definition preorder :: "('s \<Rightarrow> 's \<Rightarrow> bool) \<Rightarrow> bool" where
  "preorder R \<longleftrightarrow> (\<forall>x. R x x) \<and> (\<forall>x y z. R x y \<longrightarrow> R y z \<longrightarrow> R x z)"

definition stays :: "('s \<Rightarrow> 's \<Rightarrow> bool) \<Rightarrow> ('s, 'a) prog \<Rightarrow> bool" where
  "stays R m \<longleftrightarrow> (\<forall>s. R s (snd (m s)))"

text \<open>\<open>never err m\<close>: \<open>m\<close> does not raise \<open>err\<close>.\<close>

definition never :: "py_error \<Rightarrow> ('s, 'a) prog \<Rightarrow> bool" where
  "never err m \<longleftrightarrow> (\<forall>s. fst (m s) \<noteq> Inl err)"

named_theorems frame \<comment> \<open>computations that stay within a relation, or never raise an error\<close>

lemma staysD: "stays R m \<Longrightarrow> m s = (r, s') \<Longrightarrow> R s s'"
  by (metis stays_def snd_conv)

lemma neverD: "never err m \<Longrightarrow> m s = (r, s') \<Longrightarrow> r \<noteq> Inl err"
  by (metis never_def fst_conv)

lemma stays_seq [frame]:
  assumes "preorder R" and "stays R m" and "\<And>x. stays R (f x)"
  shows "stays R (seq m f)"
  unfolding stays_def
proof
  fix s
  obtain r s1 where m: "m s = (r, s1)" by fastforce
  have "R s s1" using staysD [OF assms(2) m] .
  moreover have "R s1 (snd (f x s1))" for x using assms(3) by (simp add: stays_def)
  ultimately show "R s (snd (seq m f s))"
    using assms(1) m by (cases r) (auto simp: seq_def preorder_def)
qed

lemma stays_simple [frame]:
  "preorder R \<Longrightarrow> stays R (ret x)" "preorder R \<Longrightarrow> stays R (raising err)"
  "preorder R \<Longrightarrow> stays R (lift q)" "preorder R \<Longrightarrow> stays R get_state"
  by (simp_all add: stays_def ret_def raising_def lift_def get_state_def preorder_def)

lemma stays_cases [frame]:
  "stays R m \<Longrightarrow> stays R m' \<Longrightarrow> stays R (if b then m else m')"
  "stays R n \<Longrightarrow> (\<And>x. stays R (f x)) \<Longrightarrow> stays R (case opt of None \<Rightarrow> n | Some x \<Rightarrow> f x)"
  "(\<And>x y. stays R (g x y)) \<Longrightarrow> stays R (case pair of (x, y) \<Rightarrow> g x y)"
  "stays R m \<Longrightarrow> stays R m' \<Longrightarrow> stays R (case b of True \<Rightarrow> m | False \<Rightarrow> m')"
  "stays R l \<Longrightarrow> (\<And>y ys. stays R (k y ys)) \<Longrightarrow> stays R (case xs of [] \<Rightarrow> l | y # ys \<Rightarrow> k y ys)"
  "(\<And>x. stays R (p x)) \<Longrightarrow> (\<And>y. stays R (q y)) \<Longrightarrow> stays R (case sm of Inl x \<Rightarrow> p x | Inr y \<Rightarrow> q y)"
  by (simp_all split: option.splits prod.splits bool.splits list.splits sum.splits)

lemma never_seq [frame]:
  assumes "never err m" and "\<And>x. never err (f x)"
  shows "never err (seq m f)"
  using assms by (auto simp: never_def seq_def split: prod.splits sum.splits) (metis fst_conv)+

lemma never_simple [frame]:
  "never err (ret x)" "err \<noteq> err' \<Longrightarrow> never err (raising err')" "q \<noteq> Inl err \<Longrightarrow> never err (lift q)"
  "never err get_state" "never err (put_state f)"
  by (simp_all add: never_def ret_def raising_def lift_def get_state_def put_state_def)

lemma never_cases [frame]:
  "never err m \<Longrightarrow> never err m' \<Longrightarrow> never err (if b then m else m')"
  "never err n \<Longrightarrow> (\<And>x. never err (f x)) \<Longrightarrow> never err (case opt of None \<Rightarrow> n | Some x \<Rightarrow> f x)"
  "(\<And>x y. never err (g x y)) \<Longrightarrow> never err (case pair of (x, y) \<Rightarrow> g x y)"
  by (simp_all split: option.splits prod.splits)

named_theorems py_string
  \<comment> \<open>evaluation of the string operations on literals\<close>

subsection \<open>Python's string operations\<close>

fun split_on :: "char \<Rightarrow> string \<Rightarrow> string list" where
  "split_on c [] = [[]]"
| "split_on c (x # xs) =
     (if x = c then [] # split_on c xs
      else (case split_on c xs of [] \<Rightarrow> [[x]] | p # ps \<Rightarrow> (x # p) # ps))"

fun join_with :: "string \<Rightarrow> string list \<Rightarrow> string" where
  "join_with sep [] = []"
| "join_with sep [x] = x"
| "join_with sep (x # y # ys) = x @ sep @ join_with sep (y # ys)"

definition is_space :: "char \<Rightarrow> bool" where
  "is_space c \<longleftrightarrow> c \<in> {CHR 0x20, CHR 0x09, CHR 0x0A, CHR 0x0B, CHR 0x0C, CHR 0x0D,
     CHR 0x1C, CHR 0x1D, CHR 0x1E, CHR 0x1F}"

definition strip :: "string \<Rightarrow> string" where
  "strip s = rev (dropWhile is_space (rev (dropWhile is_space s)))"

definition rstrip_char :: "char \<Rightarrow> string \<Rightarrow> string" where
  "rstrip_char c s = rev (dropWhile (\<lambda>x. x = c) (rev s))"

definition ends_with :: "string \<Rightarrow> string \<Rightarrow> bool" where
  "ends_with s suf \<longleftrightarrow> length suf \<le> length s \<and> drop (length s - length suf) s = suf"

definition starts_with :: "string \<Rightarrow> string \<Rightarrow> bool" where
  "starts_with s pre \<longleftrightarrow> take (length pre) s = pre"

text \<open>\<open>s.partition(sep)[2]\<close>: what follows the first occurrence of \<open>sep\<close>, or the empty string.\<close>

fun after_first :: "string \<Rightarrow> string \<Rightarrow> string" where
  "after_first sep [] = []"
| "after_first sep (x # xs) =
     (if starts_with (x # xs) sep then drop (length sep) (x # xs) else after_first sep xs)"

text \<open>\<open>s.rpartition(c)\<close> without the separator: head and tail around the last \<open>c\<close>.\<close>

definition rpartition :: "char \<Rightarrow> string \<Rightarrow> string \<times> string" where
  "rpartition c s =
     (if c \<in> set s
      then (rev (tl (dropWhile (\<lambda>x. x \<noteq> c) (rev s))), rev (takeWhile (\<lambda>x. x \<noteq> c) (rev s)))
      else ([], s))"

text \<open>\<open>s.rsplit("/", 1)[-1]\<close>.\<close>

definition basename :: "string \<Rightarrow> string" where
  "basename s = snd (rpartition (CHR ''/'') s)"

lemma nonempty_mem: "xs \<noteq> [] \<Longrightarrow> \<exists>x. x \<in> set xs"
  by (cases xs) auto

text \<open>\<open>dict.fromkeys(xs)\<close>: each element once, at its first position.\<close>

definition from_keys :: "'a list \<Rightarrow> 'a list" where
  "from_keys xs = rev (remdups (rev xs))"

lemma from_keys_simps [simp]: "set (from_keys xs) = set xs" "distinct (from_keys xs)"
  by (simp_all add: from_keys_def)

lemma from_keys_Nil [simp]: "from_keys xs = [] \<longleftrightarrow> xs = []"
  by (simp add: from_keys_def)

text \<open>\<open>s.isdigit()\<close> on ASCII text, and \<open>int(s)\<close> of such a text.\<close>

definition digit_char :: "char \<Rightarrow> bool" where
  "digit_char c \<longleftrightarrow> CHR ''0'' \<le> c \<and> c \<le> CHR ''9''"

definition is_digits :: "string \<Rightarrow> bool" where
  "is_digits s \<longleftrightarrow> s \<noteq> [] \<and> (\<forall>c \<in> set s. digit_char c)"

definition digit_step :: "int \<Rightarrow> char \<Rightarrow> int" where
  "digit_step n c = 10 * n + int (of_char c - of_char CHR ''0'')"

definition int_of_digits :: "string \<Rightarrow> int" where
  "int_of_digits s = foldl digit_step 0 s"

text \<open>\<open>_int_or_none\<close>, as several adapters spell it.\<close>

definition int_or_none :: "string \<Rightarrow> int option" where
  "int_or_none raw = (if is_digits (strip raw) then Some (int_of_digits (strip raw)) else None)"

lemma foldl_digits_nonneg: "0 \<le> n \<Longrightarrow> 0 \<le> foldl digit_step n s"
  by (induction s arbitrary: n) (auto simp: digit_step_def)

lemma int_or_none_nonneg: "int_or_none raw = Some n \<Longrightarrow> 0 \<le> n"
  by (auto simp: int_or_none_def int_of_digits_def intro: foldl_digits_nonneg split: if_splits)

lemma split_on_not_Nil [simp]: "split_on c s \<noteq> []"
  by (cases s) (auto split: list.splits)

lemma split_on_no_sep: "c \<notin> set s \<Longrightarrow> split_on c s = [s]"
  by (induction s) auto

lemma split_on_append: "c \<notin> set p \<Longrightarrow> split_on c (p @ c # s) = p # split_on c s"
  by (induction p) auto

lemma split_on_sep_free: "p \<in> set (split_on c s) \<Longrightarrow> c \<notin> set p"
  by (induction s arbitrary: p) (auto split: list.splits if_splits)

lemma join_with_split_on: "join_with [c] (split_on c s) = s"
proof (induction s)
  case Nil
  show ?case by simp
next
  case (Cons x s)
  obtain p ps where ps: "split_on c s = p # ps"
    by (cases "split_on c s") auto
  with Cons.IH show ?case
    by (cases ps) auto
qed

lemma join_with_append:
  "xs \<noteq> [] \<Longrightarrow> ys \<noteq> [] \<Longrightarrow> join_with sep (xs @ ys) = join_with sep xs @ sep @ join_with sep ys"
proof (induction sep xs rule: join_with.induct)
  case (2 sep x)
  then show ?case by (cases ys) auto
qed auto

lemma join_with_Cons: "ys \<noteq> [] \<Longrightarrow> join_with sep (x # ys) = x @ sep @ join_with sep ys"
  by (cases ys) auto

lemma join_with_free: "\<forall>l \<in> set ls. c \<notin> set l \<Longrightarrow> c \<notin> set sep \<Longrightarrow> c \<notin> set (join_with sep ls)"
  by (induction sep ls rule: join_with.induct) auto

lemma strip_idem: "strip s = s" if "s = [] \<or> (\<not> is_space (hd s) \<and> \<not> is_space (last s))"
proof (cases "s = []")
  case True
  then show ?thesis by (simp add: strip_def)
next
  case False
  with that have h: "\<not> is_space (hd s)" and l: "\<not> is_space (last s)" by auto
  have "dropWhile is_space s = s"
    using False h by (cases s) auto
  moreover have "dropWhile is_space (rev s) = rev s"
    using False l by (cases "rev s") (auto simp: hd_rev [symmetric])
  ultimately show ?thesis by (simp add: strip_def)
qed

lemma rpartition_no_sep: "c \<notin> set s \<Longrightarrow> rpartition c s = ([], s)"
  by (simp add: rpartition_def)

lemma rpartition_append:
  assumes "c \<notin> set t"
  shows "rpartition c (h @ c # t) = (h, t)"
proof -
  have "takeWhile (\<lambda>x. x \<noteq> c) (rev t @ c # rev h) = rev t"
    using assms by (subst takeWhile_append2) auto
  moreover have "dropWhile (\<lambda>x. x \<noteq> c) (rev t @ c # rev h) = c # rev h"
    using assms by (subst dropWhile_append2) auto
  ultimately show ?thesis by (simp add: rpartition_def)
qed

lemma basename_append: "CHR ''/'' \<notin> set t \<Longrightarrow> basename (h @ CHR ''/'' # t) = t"
  by (simp add: basename_def rpartition_append)

lemma basename_plain: "CHR ''/'' \<notin> set t \<Longrightarrow> basename t = t"
  by (simp add: basename_def rpartition_no_sep)

lemma ends_with_append [simp]: "ends_with (p @ s) s"
  by (simp add: ends_with_def)

lemma starts_with_append [simp]: "starts_with (p @ s) p"
  by (simp add: starts_with_def)

lemma rstrip_char_id: "s = [] \<or> last s \<noteq> c \<Longrightarrow> rstrip_char c s = s"
  by (cases "rev s") (auto simp: rstrip_char_def hd_rev [symmetric])

text \<open>Splitting at the separator what was joined with the separator and more.\<close>

lemma split_on_join:
  assumes "\<forall>x \<in> set xs. c \<notin> set x" and "xs \<noteq> []" and "c \<notin> set pad"
  shows "split_on c (join_with (c # pad) xs) = hd xs # map (\<lambda>x. pad @ x) (tl xs)"
  using assms
proof (induction xs rule: induct_list012)
  case (2 x)
  then show ?case by (simp add: split_on_no_sep)
next
  case (3 x y ys)
  have pad: "split_on c (pad @ s) = (pad @ hd (split_on c s)) # tl (split_on c s)" for s
    using 3(5) by (induction pad) (auto simp: split: list.splits)
  from 3 have "split_on c (join_with (c # pad) (y # ys)) = y # map (\<lambda>x. pad @ x) ys" by simp
  with 3 show ?case by (simp add: split_on_append pad)
qed simp

lemma strip_space: "strip (CHR '' '' # s) = strip s"
  by (simp add: strip_def is_space_def)

text \<open>
  \<open>after_first\<close> finds the separator behind a prefix that does not contain its first
  character.
\<close>

lemma after_first_skip:
  assumes "sep \<noteq> []" and "hd sep \<notin> set p"
  shows "after_first sep (p @ sep @ s) = s"
  using assms
proof (induction p)
  case Nil
  then show ?case by (cases sep) (auto simp: starts_with_def)
next
  case (Cons x p)
  then show ?case by (cases sep) (auto simp: starts_with_def)
qed

text \<open>
  \<open>str.splitlines\<close>: the length of the line break a text opens with, zero when it opens with
  none.
\<close>

definition line_break :: "string \<Rightarrow> nat" where
  "line_break s =
     (if starts_with s [CHR 0x0D, CHR 0x0A] then 2
      else if s \<noteq> [] \<and> hd s \<in> {CHR 0x0A, CHR 0x0B, CHR 0x0C, CHR 0x0D, CHR 0x1C, CHR 0x1D, CHR 0x1E}
        then 1
      else if starts_with s [CHR 0xC2, CHR 0x85] then 2
      else if starts_with s [CHR 0xE2, CHR 0x80, CHR 0xA8] \<or> starts_with s [CHR 0xE2, CHR 0x80, CHR 0xA9]
        then 3
      else 0)"

fun lines_from :: "string \<Rightarrow> string \<Rightarrow> string list" where
  "lines_from acc [] = (if acc = [] then [] else [rev acc])"
| "lines_from acc (x # xs) =
     (let n = line_break (x # xs) in
      if n = 0 then lines_from (x # acc) xs
      else rev acc # lines_from [] (drop (n - 1) xs))"

definition splitlines :: "string \<Rightarrow> string list" where
  "splitlines s = lines_from [] s"

lemma starts_with_length: "starts_with s t \<Longrightarrow> length t \<le> length s"
  by (metis starts_with_def length_take min.cobounded1 nat_le_linear take_all_iff)

lemma line_break_le: "line_break s \<le> length s"
proof (cases s)
  case Nil
  then show ?thesis by (simp add: line_break_def starts_with_def)
next
  case (Cons c cs)
  have choice: "(if A then 2 else if B then 1 else if C then 2 else if D then 3 else 0) \<le> n"
    if "A \<Longrightarrow> 2 \<le> n" "1 \<le> n" "C \<Longrightarrow> 2 \<le> n" "D \<Longrightarrow> 3 \<le> n" for A B C D and n :: nat
    using that by auto
  have two: "starts_with s [x, y] \<Longrightarrow> 2 \<le> length s" for x y using starts_with_length [of s "[x, y]"] by simp
  have three: "starts_with s [x, y, z] \<Longrightarrow> 3 \<le> length s" for x y z
    using starts_with_length [of s "[x, y, z]"] by simp
  have "1 \<le> length s" using Cons by simp
  then show ?thesis unfolding line_break_def by (intro choice) (use two three in blast)+
qed

lemma lines_from_infix: "l \<in> set (lines_from acc s) \<Longrightarrow> \<exists>a b. rev acc @ s = a @ l @ b"
proof (induction acc s rule: lines_from.induct)
  case (1 acc)
  then have "rev acc @ [] = [] @ l @ []" by (simp split: if_splits)
  then show ?case by blast
next
  case (2 acc x xs)
  show ?case
  proof (cases "line_break (x # xs) = 0")
    case True
    with 2 show ?thesis by auto
  next
    case False
    from 2 False consider "l = rev acc"
      | "l \<in> set (lines_from [] (drop (line_break (x # xs) - 1) xs))" by (auto simp: Let_def)
    then show ?thesis
    proof cases
      case 1
      then show ?thesis by (intro exI [of _ "[]"] exI [of _ "x # xs"]) simp
    next
      case 2
      with "2.IH"(2) [OF refl False] obtain a b
        where "drop (line_break (x # xs) - 1) xs = a @ l @ b" by auto
      then have "rev acc @ x # xs = (rev acc @ x # take (line_break (x # xs) - 1) xs @ a) @ l @ b"
        by (metis append.assoc append_Cons append_take_drop_id)
      then show ?thesis by blast
    qed
  qed
qed

lemma splitlines_infix: "l \<in> set (splitlines s) \<Longrightarrow> \<exists>a b. s = a @ l @ b"
  using lines_from_infix [of l "[]" s] by (simp add: splitlines_def)

definition breakless :: "string \<Rightarrow> bool" where
  "breakless l \<longleftrightarrow> (\<forall>k < length l. line_break (drop k l) = 0)"

lemma breakless_Cons: "breakless (x # xs) \<longleftrightarrow> line_break (x # xs) = 0 \<and> breakless xs"
  by (auto simp: breakless_def less_Suc_eq_0_disj)

lemma line_break_before_newline:
  assumes "line_break (x # xs) = 0"
  shows "line_break (x # xs @ CHR 0x0A # r) = 0"
proof -
  consider "xs = []" | y where "xs = [y]" | y z ys where "xs = y # z # ys"
    by (cases xs; cases "tl xs") auto
  then show ?thesis
    using assms by cases (auto simp: line_break_def starts_with_def split: if_splits)
qed

lemma lines_from_newline:
  "breakless l \<Longrightarrow> lines_from acc (l @ CHR 0x0A # r) = (rev acc @ l) # lines_from [] r"
proof (induction l arbitrary: acc)
  case Nil
  have "line_break (CHR 0x0A # r) = 1"
    by (simp add: line_break_def starts_with_def)
  then show ?case by simp
next
  case (Cons x l)
  then have "line_break (x # l @ CHR 0x0A # r) = 0" "breakless l"
    by (simp_all add: breakless_Cons line_break_before_newline)
  with Cons.IH [of "x # acc"] show ?case by simp
qed

lemma lines_from_last: "breakless l \<Longrightarrow> lines_from acc l = (if acc = [] \<and> l = [] then [] else [rev acc @ l])"
  by (induction l arbitrary: acc) (auto simp: breakless_Cons)

lemma splitlines_join:
  assumes "\<forall>l \<in> set ls. breakless l" and "ls \<noteq> [] \<longrightarrow> last ls \<noteq> []"
  shows "splitlines (join_with [CHR 0x0A] ls) = ls"
  using assms
proof (induction ls)
  case (Cons l ls)
  then show ?case
    by (cases "ls = []")
      (simp_all add: splitlines_def lines_from_last join_with_Cons lines_from_newline)
qed (simp add: splitlines_def)

lemmas [py_string] = rpartition_def basename_def ends_with_def starts_with_def rstrip_char_def
  strip_def is_space_def

subsection \<open>Decision values\<close>

text \<open>
  Every decision of the program is a frozen dataclass with a three-valued answer, a numeric
  code and a reason, whose \<open>__post_init__\<close> raises unless they agree. \<open>valid\<close> is that check;
  a component that returns such values proves it of every value it builds, so building one
  never raises.
\<close>

locale verdict_shape =
  fixes answer :: "'v \<Rightarrow> tri"
    and code :: "'v \<Rightarrow> int"
    and reason :: "'v \<Rightarrow> msg"
    and valid :: "'v \<Rightarrow> bool"
    and yes_codes :: "int set"
    and unknown_code :: int
  assumes valid_reason: "valid v \<Longrightarrow> truthy (reason v)"
    and valid_yes: "valid v \<Longrightarrow> answer v = Yes \<Longrightarrow> code v \<in> yes_codes"
    and valid_unknown: "valid v \<Longrightarrow> answer v = Unknown \<Longrightarrow> code v = unknown_code"
    and unknown_not_yes: "unknown_code \<notin> yes_codes"
begin

text \<open>The code alone tells a permission from an unanswered question.\<close>

lemma yes_not_unknown:
  assumes "valid v" and "valid w" and "answer v = Yes" and "code w = code v"
  shows "answer w \<noteq> Unknown"
  using assms valid_yes [of v] valid_unknown [of w] unknown_not_yes by auto

lemma refused_by_code:
  assumes "valid v" and "code v \<notin> yes_codes" and "code v \<noteq> unknown_code"
  shows "answer v = No"
  using assms valid_yes [of v] valid_unknown [of v] by (cases "answer v") auto

end

subsection \<open>Fenced write authority\<close>

text \<open>
  The interface of a fenced lock service: states evolve by operations, a state grants a
  credential or does not, and a credential carries a fence. The provider promises that the
  fence never moves backwards, that a granted credential carries the current fence, and that
  the authority changes hands only by raising the fence. The client's lemmas are about whole
  runs.
\<close>

locale fenced_authority =
  fixes step :: "'op \<Rightarrow> 's \<Rightarrow> 's"
    and grants :: "'s \<Rightarrow> 'query \<Rightarrow> 'cred \<Rightarrow> bool"
    and fence :: "'s \<Rightarrow> int"
    and cred_fence :: "'cred \<Rightarrow> int"
    and cred_owner :: "'cred \<Rightarrow> 'host"
    and owner :: "'s \<Rightarrow> 'host option"
    and inv :: "'s \<Rightarrow> bool"
  assumes inv_step: "inv s \<Longrightarrow> inv (step op s)"
    and fence_mono: "inv s \<Longrightarrow> fence s \<le> fence (step op s)"
    and grants_fence: "inv s \<Longrightarrow> grants s q c \<Longrightarrow> cred_fence c = fence s"
    and grants_owner: "inv s \<Longrightarrow> grants s q c \<Longrightarrow> owner s = Some (cred_owner c)"
    and owner_change: "inv s \<Longrightarrow> owner s = Some h \<Longrightarrow> owner (step op s) \<noteq> Some h
      \<Longrightarrow> fence s < fence (step op s)"
begin

lemma inv_fold: "inv s \<Longrightarrow> inv (fold step xs s)"
  by (induction xs arbitrary: s) (auto intro: inv_step)

lemma fence_fold_mono: "inv s \<Longrightarrow> fence s \<le> fence (fold step xs s)"
proof (induction xs arbitrary: s)
  case (Cons x xs)
  from Cons.prems have "fence s \<le> fence (step x s)" by (rule fence_mono)
  also have "\<dots> \<le> fence (fold step xs (step x s))"
    using Cons.prems by (intro Cons.IH inv_step)
  finally show ?case by simp
qed simp

lemma superseded_refused:
  assumes "inv s" and "cred_fence c < fence s"
  shows "\<not> grants (fold step xs s) q c"
proof
  assume g: "grants (fold step xs s) q c"
  have "cred_fence c = fence (fold step xs s)"
    using assms(1) g by (intro grants_fence inv_fold)
  with assms fence_fold_mono [of s xs] show False by simp
qed

lemma owner_fold_change:
  "inv s \<Longrightarrow> owner s = Some h \<Longrightarrow> owner (fold step xs s) \<noteq> Some h \<Longrightarrow> fence s < fence (fold step xs s)"
proof (induction xs arbitrary: s)
  case Nil
  then show ?case by simp
next
  case (Cons x xs)
  show ?case
  proof (cases "owner (step x s) = Some h")
    case True
    have "fence (step x s) < fence (fold step xs (step x s))"
      using Cons.prems True by (intro Cons.IH inv_step) auto
    with Cons.prems(1) fence_mono [of s x] show ?thesis by simp
  next
    case False
    with Cons.prems have "fence s < fence (step x s)" by (intro owner_change)
    moreover have "fence (step x s) \<le> fence (fold step xs (step x s))"
      using Cons.prems by (intro fence_fold_mono inv_step)
    ultimately show ?thesis by simp
  qed
qed

text \<open>Two owners that are ever granted, one after the other, hold different fences.\<close>

lemma fence_orders_owners:
  assumes "inv s" and "grants s q c" and "grants (fold step xs s) q' c'"
    and "cred_owner c \<noteq> cred_owner c'"
  shows "cred_fence c < cred_fence c'"
proof -
  have o: "owner s = Some (cred_owner c)"
    using assms by (intro grants_owner)
  have o': "owner (fold step xs s) = Some (cred_owner c')"
    using assms by (intro grants_owner inv_fold)
  have "fence s < fence (fold step xs s)"
    using assms(1,4) o o' by (intro owner_fold_change) auto
  moreover have "cred_fence c = fence s" using assms by (intro grants_fence)
  moreover have "cred_fence c' = fence (fold step xs s)" using assms by (intro grants_fence inv_fold)
  ultimately show ?thesis by simp
qed

end

subsection \<open>One-way journals\<close>

text \<open>
  The interface of a journaled procedure: a move only appends to the trail, a committed record
  stays committed and is never abandoned, and an abandoned record no longer moves. The
  coordinator's lemmas are about any number of moves.
\<close>

locale one_way_journal =
  fixes move :: "'r \<Rightarrow> 'r \<Rightarrow> bool"
    and trail :: "'r \<Rightarrow> 'e list"
    and committed :: "'r \<Rightarrow> bool"
    and abandoned :: "'r \<Rightarrow> bool"
    and sound :: "'r \<Rightarrow> bool"
  assumes sound_move: "move r r' \<Longrightarrow> sound r \<Longrightarrow> sound r'"
    and trail_move: "move r r' \<Longrightarrow> sound r \<Longrightarrow> \<exists>es. trail r' = trail r @ es"
    and committed_move: "move r r' \<Longrightarrow> sound r \<Longrightarrow> committed r \<Longrightarrow> committed r'"
    and committed_alive: "sound r \<Longrightarrow> committed r \<Longrightarrow> \<not> abandoned r"
    and abandoned_stays: "move r r' \<Longrightarrow> sound r \<Longrightarrow> abandoned r \<Longrightarrow> r' = r"
begin

lemma sound_moves: "move\<^sup>*\<^sup>* r r' \<Longrightarrow> sound r \<Longrightarrow> sound r'"
  by (induction rule: rtranclp_induct) (auto intro: sound_move)

lemma trail_moves: "move\<^sup>*\<^sup>* r r' \<Longrightarrow> sound r \<Longrightarrow> \<exists>es. trail r' = trail r @ es"
proof (induction rule: rtranclp_induct)
  case (step r' r'')
  then obtain es where "trail r' = trail r @ es" by blast
  moreover obtain fs where "trail r'' = trail r' @ fs"
    using step by (meson sound_moves trail_move)
  ultimately show ?case by auto
qed simp

lemma committed_moves: "move\<^sup>*\<^sup>* r r' \<Longrightarrow> sound r \<Longrightarrow> committed r \<Longrightarrow> committed r' \<and> \<not> abandoned r'"
proof (induction rule: rtranclp_induct)
  case base
  then show ?case using committed_alive by blast
next
  case (step r' r'')
  then have "sound r'" by (auto intro: sound_moves)
  with step have "committed r''" by (auto intro: committed_move)
  moreover have "sound r''" using step \<open>sound r'\<close> by (auto intro: sound_move)
  ultimately show ?case using committed_alive by blast
qed

lemma abandoned_moves: "move\<^sup>*\<^sup>* r r' \<Longrightarrow> sound r \<Longrightarrow> abandoned r \<Longrightarrow> r' = r"
  by (induction rule: rtranclp_induct) (auto dest: abandoned_stays)

end

end
