(* ===== verification/Lease.thy ===== *)
theory Lease
  imports Prelude
begin

text \<open>
  The write lease of \<open>_lifecycle/_relocate_lease.py\<close>: the record, its verdicts, the four
  operations (\<open>claim\<close>, \<open>renew\<close>, \<open>handoff\<close>, \<open>check_write\<close>) on every branch, and the shared
  store they act on. The store with its operations is a \<open>fenced_authority\<close>: a superseded
  writer is refused for ever, and two writers that were ever both allowed are ordered by
  their fences.
\<close>

subsection \<open>Codes and records\<close>

abbreviation LEASE_OK :: int where "LEASE_OK \<equiv> 200"
abbreviation LEASE_NOT_HELD :: int where "LEASE_NOT_HELD \<equiv> 404"
abbreviation LEASE_WRONG_TOKEN :: int where "LEASE_WRONG_TOKEN \<equiv> 403"
abbreviation LEASE_HELD_BY_OTHER :: int where "LEASE_HELD_BY_OTHER \<equiv> 409"
abbreviation LEASE_EXPIRED :: int where "LEASE_EXPIRED \<equiv> 410"
abbreviation LEASE_STALE_FENCE :: int where "LEASE_STALE_FENCE \<equiv> 412"
abbreviation LEASE_UNKNOWN :: int where "LEASE_UNKNOWN \<equiv> 503"

record lease =
  l_agent :: string
  l_holder :: string
  l_token :: string
  l_expires_at :: time
  l_fence :: int

text \<open>\<open>Lease.__post_init__\<close>: the first check that fails raises.\<close>

definition mk_lease :: "string \<Rightarrow> string \<Rightarrow> string \<Rightarrow> time \<Rightarrow> int \<Rightarrow> lease result" where
  "mk_lease agent holder token expires_at fence =
     (if agent = [] then Inl (ValueError ''Lease.agent must be non-empty'')
      else if holder = [] then Inl (ValueError ''Lease.holder must be non-empty'')
      else if token = [] then Inl (ValueError ''Lease.token must be non-empty'')
      else if fence < 0 then Inl (ValueError ''Lease.fence must be >= 0'')
      else Inr \<lparr>l_agent = agent, l_holder = holder, l_token = token,
                l_expires_at = expires_at, l_fence = fence\<rparr>)"

definition lease_ok :: "lease \<Rightarrow> bool" where
  "lease_ok l \<longleftrightarrow> l_agent l \<noteq> [] \<and> l_holder l \<noteq> [] \<and> l_token l \<noteq> [] \<and> 0 \<le> l_fence l"

definition is_expired :: "lease \<Rightarrow> time \<Rightarrow> bool" where
  "is_expired l now \<longleftrightarrow> l_expires_at l \<le> now"

record lease_verdict =
  lv_allowed :: tri
  lv_code :: int
  lv_reason :: msg
  lv_holder :: "string option"
  lv_fence :: "int option"
  lv_expires_at :: "time option"

text \<open>\<open>LeaseVerdict.__post_init__\<close>.\<close>

definition lease_verdict_ok :: "lease_verdict \<Rightarrow> bool" where
  "lease_verdict_ok v \<longleftrightarrow> truthy (lv_reason v) \<and>
     (lv_allowed v = Yes \<longrightarrow> lv_code v = LEASE_OK) \<and>
     (lv_allowed v = Unknown \<longrightarrow> lv_code v = LEASE_UNKNOWN)"

definition lease_yes :: "lease \<Rightarrow> msg \<Rightarrow> lease_verdict" where
  "lease_yes l why =
     \<lparr>lv_allowed = Yes, lv_code = LEASE_OK, lv_reason = why, lv_holder = Some (l_holder l),
      lv_fence = Some (l_fence l), lv_expires_at = Some (l_expires_at l)\<rparr>"

definition lease_no :: "int \<Rightarrow> msg \<Rightarrow> lease option \<Rightarrow> lease_verdict" where
  "lease_no c why lo =
     \<lparr>lv_allowed = No, lv_code = c, lv_reason = why, lv_holder = map_option l_holder lo,
      lv_fence = map_option l_fence lo, lv_expires_at = map_option l_expires_at lo\<rparr>"

definition lease_unknown :: "msg \<Rightarrow> lease_verdict" where
  "lease_unknown why =
     \<lparr>lv_allowed = Unknown, lv_code = LEASE_UNKNOWN, lv_reason = why, lv_holder = None,
      lv_fence = None, lv_expires_at = None\<rparr>"

subsection \<open>The operations\<close>

definition claim ::
  "lease option \<Rightarrow> string \<Rightarrow> string \<Rightarrow> string \<Rightarrow> time \<Rightarrow> time \<Rightarrow> bool
   \<Rightarrow> (lease option \<times> lease_verdict) result" where
  "claim lo agent holder token now ttl holder_absent =
     (case lo of
        None \<Rightarrow>
          bind_result (mk_lease agent holder token (now + ttl) 0)
            (\<lambda>g. Inr (Some g, lease_yes g
               (Fmt ''claimed'' [Txt agent, Txt holder, Fmt ''unheld'' []])))
      | Some l \<Rightarrow>
          if l_agent l \<noteq> agent then
            Inr (Some l, lease_unknown (Fmt ''lease describes another agent''
              [Txt (l_agent l), Txt agent]))
          else if \<not> is_expired l now \<and> l_holder l \<noteq> holder \<and> \<not> holder_absent then
            Inr (Some l, lease_no LEASE_HELD_BY_OTHER (Fmt ''held by other until''
              [Txt agent, Txt (l_holder l), Sec (l_expires_at l), Txt holder]) (Some l))
          else
            bind_result (mk_lease agent holder token (now + ttl) (l_fence l + 1))
              (\<lambda>g. Inr (Some g, lease_yes g (Fmt ''claimed'' [Txt agent, Txt holder,
                 (if is_expired l now then Fmt ''expired'' []
                  else if l_holder l = holder then Fmt ''already ours'' []
                  else Fmt ''observed not running'' [Txt (l_holder l)])]))))"

text \<open>
  The checks \<open>renew\<close> and \<open>handoff\<close> share, in the code's order: the record exists, the caller
  is its holder, presents its token and its fence, and the lease is live.
\<close>

definition held_by ::
  "lease \<Rightarrow> string \<Rightarrow> string \<Rightarrow> int \<Rightarrow> time \<Rightarrow> msg \<Rightarrow> lease_verdict option" where
  "held_by l holder token fence now why_expired =
     (if l_holder l \<noteq> holder then Some (lease_no LEASE_HELD_BY_OTHER
        (Fmt ''held by other'' [Txt (l_holder l), Txt holder]) (Some l))
      else if l_token l \<noteq> token then Some (lease_no LEASE_WRONG_TOKEN
        (Fmt ''token mismatch'' [Txt holder]) (Some l))
      else if l_fence l \<noteq> fence then Some (lease_no LEASE_STALE_FENCE
        (Fmt ''fence differs'' [Num fence, Num (l_fence l)]) (Some l))
      else if is_expired l now then Some (lease_no LEASE_EXPIRED why_expired (Some l))
      else None)"

text \<open>
  \<open>renew\<close> rebuilds the record with a later deadline; the record it starts from passed
  \<open>__post_init__\<close>, and so does the new one (\<open>renew_ok\<close>).
\<close>

definition renew ::
  "lease option \<Rightarrow> string \<Rightarrow> string \<Rightarrow> int \<Rightarrow> time \<Rightarrow> time \<Rightarrow> lease option \<times> lease_verdict" where
  "renew lo holder token fence now ttl =
     (case lo of
        None \<Rightarrow> (None, lease_no LEASE_NOT_HELD (Fmt ''no lease to renew'' [Txt holder]) None)
      | Some l \<Rightarrow>
          (case held_by l holder token fence now
                  (Fmt ''expired, re-claim it'' [Sec (l_expires_at l)]) of
             Some v \<Rightarrow> (Some l, v)
           | None \<Rightarrow>
               let extended = l\<lparr>l_expires_at := now + ttl\<rparr>
               in (Some extended, lease_yes extended
                    (Fmt ''renewed'' [Txt (l_agent l), Txt holder]))))"

definition handoff ::
  "lease option \<Rightarrow> string \<Rightarrow> string \<Rightarrow> int \<Rightarrow> string \<Rightarrow> string \<Rightarrow> time \<Rightarrow> time
   \<Rightarrow> (lease option \<times> lease_verdict) result" where
  "handoff lo from_holder token fence to_holder to_token now ttl =
     (case lo of
        None \<Rightarrow> Inr (None, lease_no LEASE_NOT_HELD
          (Fmt ''no lease to hand'' [Txt from_holder, Txt to_holder]) None)
      | Some l \<Rightarrow>
          (case held_by l from_holder token fence now
                  (Fmt ''expired, nothing to hand over'' [Sec (l_expires_at l)]) of
             Some v \<Rightarrow> Inr (Some l, v)
           | None \<Rightarrow>
               bind_result (mk_lease (l_agent l) to_holder to_token (now + ttl) (l_fence l + 1))
                 (\<lambda>m. Inr (Some m, lease_yes m (Fmt ''handed'' [Txt (l_agent l),
                    Txt from_holder, Txt to_holder, Num (l_fence m)])))))"

definition check_write ::
  "lease option \<Rightarrow> string \<Rightarrow> string \<Rightarrow> int \<Rightarrow> time \<Rightarrow> lease_verdict" where
  "check_write lo holder token fence now =
     (case lo of
        None \<Rightarrow> lease_unknown (Fmt ''no lease record'' [Txt holder])
      | Some l \<Rightarrow>
          if l_holder l \<noteq> holder then lease_no LEASE_HELD_BY_OTHER
            (Fmt ''held by other'' [Txt (l_holder l), Txt holder]) (Some l)
          else if l_token l \<noteq> token then lease_no LEASE_WRONG_TOKEN
            (Fmt ''token mismatch'' [Txt holder]) (Some l)
          else if fence < l_fence l then lease_no LEASE_STALE_FENCE
            (Fmt ''fence is behind'' [Num fence, Num (l_fence l)]) (Some l)
          else if l_fence l < fence then lease_no LEASE_STALE_FENCE
            (Fmt ''fence is ahead'' [Num fence, Num (l_fence l)]) (Some l)
          else if is_expired l now then lease_no LEASE_EXPIRED
            (Fmt ''expired, stop writing'' [Sec (l_expires_at l)]) (Some l)
          else lease_yes l (Fmt ''holds the lease'' [Txt (l_agent l), Txt holder, Num (l_fence l)]))"

subsection \<open>What each operation does\<close>

lemmas lease_defs = lease_yes_def lease_no_def lease_unknown_def mk_lease_def

lemma lease_answers [simp]:
  "lv_allowed (lease_yes l m) = Yes" "lv_code (lease_yes l m) = LEASE_OK"
  "lv_allowed (lease_no c m lo) = No" "lv_code (lease_no c m lo) = c"
  "lv_allowed (lease_unknown m) = Unknown" "lv_code (lease_unknown m) = LEASE_UNKNOWN"
  by (simp_all add: lease_defs)

lemma mk_lease_Inr_iff:
  "mk_lease a h t e f = Inr l \<longleftrightarrow>
     lease_ok l \<and> l = \<lparr>l_agent = a, l_holder = h, l_token = t, l_expires_at = e, l_fence = f\<rparr>"
  by (auto simp: mk_lease_def lease_ok_def)

lemma verdict_ok_intros [simp]:
  "truthy m \<Longrightarrow> lease_verdict_ok (lease_yes l m)"
  "truthy m \<Longrightarrow> lease_verdict_ok (lease_no c m lo)"
  "truthy m \<Longrightarrow> lease_verdict_ok (lease_unknown m)"
  by (simp_all add: lease_verdict_ok_def lease_defs)

lemma held_by_None_iff:
  "held_by l h t f now m = None \<longleftrightarrow>
     l_holder l = h \<and> l_token l = t \<and> l_fence l = f \<and> \<not> is_expired l now"
  by (auto simp: held_by_def)

lemma held_by_Some:
  "held_by l h t f now m = Some v \<Longrightarrow> truthy m \<Longrightarrow> lease_verdict_ok v \<and> lv_allowed v = No"
  by (auto simp: held_by_def split: if_splits)

lemma check_write_yes_iff:
  "lv_allowed (check_write lo h t f now) = Yes \<longleftrightarrow>
     (\<exists>l. lo = Some l \<and> l_holder l = h \<and> l_token l = t \<and> l_fence l = f \<and> \<not> is_expired l now)"
  by (auto simp: check_write_def split: option.splits)

lemma renew_cases:
  assumes "renew lo h t f now ttl = (lo', v)"
  obtains (refused) "lo' = lo" "lv_allowed v = No" "lease_verdict_ok v"
  | (extended) l where "lo = Some l" "lo' = Some (l\<lparr>l_expires_at := now + ttl\<rparr>)"
      "l_holder l = h" "l_token l = t" "l_fence l = f" "\<not> is_expired l now"
      "lv_allowed v = Yes" "lease_verdict_ok v"
  using assms
  by (auto simp: renew_def Let_def held_by_None_iff dest!: held_by_Some split: option.splits)

lemma handoff_cases:
  assumes "handoff lo h t f h' t' now ttl = Inr (lo', v)"
  obtains (refused) "lo' = lo" "lv_allowed v = No" "lease_verdict_ok v"
  | (moved) l m where "lo = Some l" "lo' = Some m" "lease_ok m"
      "l_holder l = h" "l_token l = t" "l_fence l = f" "\<not> is_expired l now"
      "m = \<lparr>l_agent = l_agent l, l_holder = h', l_token = t', l_expires_at = now + ttl,
            l_fence = l_fence l + 1\<rparr>"
      "lv_allowed v = Yes" "lease_verdict_ok v"
  using assms
  by (auto simp: handoff_def held_by_None_iff bind_result_Inr_iff mk_lease_Inr_iff
      dest!: held_by_Some split: option.splits)

lemma claim_cases:
  assumes "claim lo a h t now ttl absent = Inr (lo', v)"
  obtains (unanswered) l where "lo = Some l" "lo' = lo" "l_agent l \<noteq> a"
      "lv_allowed v = Unknown" "lease_verdict_ok v"
  | (refused) l where "lo = Some l" "lo' = lo" "l_agent l = a" "\<not> is_expired l now"
      "l_holder l \<noteq> h" "\<not> absent" "lv_allowed v = No" "lv_code v = LEASE_HELD_BY_OTHER"
      "lease_verdict_ok v"
  | (granted) g where "lo' = Some g" "lease_ok g"
      "g = \<lparr>l_agent = a, l_holder = h, l_token = t, l_expires_at = now + ttl,
            l_fence = (case lo of None \<Rightarrow> 0 | Some l \<Rightarrow> l_fence l + 1)\<rparr>"
      "\<And>l. lo = Some l \<Longrightarrow> l_agent l = a \<and> (is_expired l now \<or> l_holder l = h \<or> absent)"
      "lv_allowed v = Yes" "lease_verdict_ok v"
  using assms
  by (cases lo)
    (auto simp: claim_def bind_result_Inr_iff mk_lease_Inr_iff split: if_splits)

lemma claim_returns:
  assumes "case lo of None \<Rightarrow> True | Some l \<Rightarrow> lease_ok l" and "a \<noteq> []" and "h \<noteq> []" and "t \<noteq> []"
  shows "\<exists>lo' v. claim lo a h t now ttl absent = Inr (lo', v)"
  using assms by (cases lo) (simp_all add: claim_def mk_lease_def lease_ok_def)

subsection \<open>The shared store\<close>

text \<open>
  One agent's lease record in the shared store and the writers' requests to it. A request
  that raises leaves the record as it was.
\<close>

datatype lease_op =
    Claim (claimant_agent: string) (claimant: string) (claim_token: string) (claim_now: time)
      (claim_ttl: time) (claim_absent: bool)
  | Renew string string int time time
  | Handoff string string int string string time time

fun lease_step :: "lease_op \<Rightarrow> lease option \<Rightarrow> lease option" where
  "lease_step (Claim a h t now ttl absent) lo =
     (case claim lo a h t now ttl absent of Inl _ \<Rightarrow> lo | Inr (lo', _) \<Rightarrow> lo')"
| "lease_step (Renew h t f now ttl) lo = fst (renew lo h t f now ttl)"
| "lease_step (Handoff h t f h' t' now ttl) lo =
     (case handoff lo h t f h' t' now ttl of Inl _ \<Rightarrow> lo | Inr (lo', _) \<Rightarrow> lo')"

type_synonym credential = "string \<times> string \<times> int"

definition may_write :: "lease option \<Rightarrow> time \<Rightarrow> credential \<Rightarrow> bool" where
  "may_write lo now c =
     (lv_allowed (check_write lo (fst c) (fst (snd c)) (snd (snd c)) now) = Yes)"

definition store_fence :: "lease option \<Rightarrow> int" where
  "store_fence lo = (case lo of None \<Rightarrow> -1 | Some l \<Rightarrow> l_fence l)"

definition store_ok :: "lease option \<Rightarrow> bool" where
  "store_ok lo = (case lo of None \<Rightarrow> True | Some l \<Rightarrow> lease_ok l)"

lemmas store_defs = store_fence_def store_ok_def

lemma may_write_iff:
  "may_write lo now c \<longleftrightarrow>
     (\<exists>l. lo = Some l \<and> c = (l_holder l, l_token l, l_fence l) \<and> \<not> is_expired l now)"
  by (cases c) (auto simp: may_write_def check_write_yes_iff)

text \<open>A step keeps the record or replaces it; replacing the holder raises the fence.\<close>

lemma lease_step_cases:
  assumes "store_ok lo"
  obtains (kept) "lease_step op lo = lo"
  | (extended) l d where "lo = Some l" "lease_step op lo = Some (l\<lparr>l_expires_at := d\<rparr>)"
  | (raised) g where "lease_step op lo = Some g" "lease_ok g" "l_fence g = store_fence lo + 1"
proof (cases op)
  case (Claim a h t now ttl absent)
  show thesis
  proof (cases "claim lo a h t now ttl absent")
    case (Inr p)
    then obtain lo' v where c: "claim lo a h t now ttl absent = Inr (lo', v)" by (cases p) auto
    then have s: "lease_step op lo = lo'" by (simp add: Claim)
    from c show thesis
      by (cases rule: claim_cases) (use s kept raised in \<open>auto simp: store_defs split: option.splits\<close>)
  qed (use Claim kept in auto)
next
  case (Renew h t f now ttl)
  obtain lo' v where r: "renew lo h t f now ttl = (lo', v)" by fastforce
  then have s: "lease_step op lo = lo'" by (simp add: Renew)
  from r show thesis
    by (cases rule: renew_cases) (use s kept extended in auto)
next
  case (Handoff h t f h' t' now ttl)
  show thesis
  proof (cases "handoff lo h t f h' t' now ttl")
    case (Inr p)
    then obtain lo' v where c: "handoff lo h t f h' t' now ttl = Inr (lo', v)" by (cases p) auto
    then have s: "lease_step op lo = lo'" by (simp add: Handoff)
    from c show thesis
      by (cases rule: handoff_cases) (use s kept raised in \<open>auto simp: store_defs\<close>)
  qed (use Handoff kept in auto)
qed

lemma store_ok_step: "store_ok lo \<Longrightarrow> store_ok (lease_step op lo)"
  by (cases rule: lease_step_cases [of lo op]) (auto simp: store_defs lease_ok_def)

lemma store_fence_step:
  assumes "store_ok lo"
  shows "store_fence lo \<le> store_fence (lease_step op lo)"
    and "map_option l_holder lo = Some h \<Longrightarrow> map_option l_holder (lease_step op lo) \<noteq> Some h
      \<Longrightarrow> store_fence lo < store_fence (lease_step op lo)"
  using assms by (cases rule: lease_step_cases [of lo op]; auto simp: store_defs)+

interpretation lease_store: fenced_authority lease_step may_write store_fence "\<lambda>c. snd (snd c)" fst
  "map_option l_holder" store_ok
proof unfold_locales
  fix lo op c now h
  assume ok: "store_ok lo"
  show "store_ok (lease_step op lo)" by (rule store_ok_step) (rule ok)
  show "store_fence lo \<le> store_fence (lease_step op lo)" by (rule store_fence_step) (rule ok)
  show "may_write lo now c \<Longrightarrow> snd (snd c) = store_fence lo"
    by (auto simp: may_write_iff store_fence_def)
  show "may_write lo now c \<Longrightarrow> map_option l_holder lo = Some (fst c)"
    by (auto simp: may_write_iff)
  show "map_option l_holder lo = Some h \<Longrightarrow> map_option l_holder (lease_step op lo) \<noteq> Some h
      \<Longrightarrow> store_fence lo < store_fence (lease_step op lo)"
    by (rule store_fence_step) (rule ok)
qed

interpretation lease_decision: verdict_shape lv_allowed lv_code lv_reason lease_verdict_ok
  "{LEASE_OK}" LEASE_UNKNOWN
  by unfold_locales (auto simp: lease_verdict_ok_def)

subsection \<open>Properties\<close>

text \<open>
  C3: Fencing orders the writers. If a credential may write now, and after any sequence of
  claims, renewals and handoffs a credential of another holder may write, the second one's
  fence is strictly greater: no two hosts ever hold equally valid authority.
\<close>

theorem fence_orders_writers:
  assumes "store_ok lo" and "may_write lo now c" and "may_write (fold lease_step ops lo) now' c'"
    and "fst c \<noteq> fst c'"
  shows "snd (snd c) < snd (snd c')"
  using assms by (rule lease_store.fence_orders_owners)

text \<open>
  A superseded writer is locked out for ever: once the stored fence has passed a
  credential's fence, no sequence of operations, at any clock reading, lets it write again.
\<close>

theorem superseded_writer_refused:
  assumes "store_ok lo" and "snd (snd c) < store_fence lo"
  shows "\<not> may_write (fold lease_step ops lo) now c"
  using assms by (rule lease_store.superseded_refused)

text \<open>
  The handoff moves the authority in one step. A credential that may write hands the
  lease over; afterwards the target's new credential may write, at the next fence, and the
  old credential may not, whatever the clock reads.
\<close>

theorem handoff_swaps_authority:
  assumes "store_ok lo" and "may_write lo now (h, t, f)" and "h' \<noteq> []" and "t' \<noteq> []" and "0 < ttl"
  shows "\<exists>m v. handoff lo h t f h' t' now ttl = Inr (Some m, v) \<and> lv_allowed v = Yes \<and>
    may_write (Some m) now (h', t', f + 1) \<and> (\<forall>now'. \<not> may_write (Some m) now' (h, t, f))"
proof -
  from assms obtain l where l: "lo = Some l" "l_holder l = h" "l_token l = t" "l_fence l = f"
      "\<not> is_expired l now" and ok: "lease_ok l"
    by (auto simp: may_write_iff store_defs)
  then have "held_by l h t f now w = None" for w
    by (simp add: held_by_None_iff)
  with l ok assms show ?thesis
    by (auto simp: handoff_def mk_lease_def lease_ok_def may_write_iff is_expired_def)
qed

text \<open>
  When a claim is granted. A claim naming its agent, holder and token returns a verdict;
  it is granted exactly when there is no record, or the record is about this agent and is
  expired, already the claimant's, or of a holder observed absent; a granted claim stores the
  next fence and any other leaves the record untouched.
\<close>

theorem claim_grants_iff:
  assumes "store_ok lo" and "a \<noteq> []" and "h \<noteq> []" and "t \<noteq> []"
  shows "\<exists>lo' v. claim lo a h t now ttl absent = Inr (lo', v) \<and>
    (lv_allowed v = Yes \<longleftrightarrow> (case lo of None \<Rightarrow> True | Some l \<Rightarrow>
        l_agent l = a \<and> (is_expired l now \<or> l_holder l = h \<or> absent))) \<and>
    lo' = (if lv_allowed v = Yes
           then Some \<lparr>l_agent = a, l_holder = h, l_token = t, l_expires_at = now + ttl,
                      l_fence = store_fence lo + 1\<rparr>
           else lo)"
proof -
  obtain lo' v where c: "claim lo a h t now ttl absent = Inr (lo', v)"
    using assms claim_returns [of lo a h t now ttl absent] unfolding store_ok_def by blast
  then have "(lv_allowed v = Yes \<longleftrightarrow> (case lo of None \<Rightarrow> True | Some l \<Rightarrow>
        l_agent l = a \<and> (is_expired l now \<or> l_holder l = h \<or> absent))) \<and>
    lo' = (if lv_allowed v = Yes
           then Some \<lparr>l_agent = a, l_holder = h, l_token = t, l_expires_at = now + ttl,
                      l_fence = store_fence lo + 1\<rparr>
           else lo)"
    by (cases rule: claim_cases) (auto simp: store_fence_def split: option.splits)
  with c show ?thesis by blast
qed

text \<open>
  No lease operation builds a verdict its own constructor would reject: every verdict
  carries a reason, a permission carries code 200, and an unanswered question code 503.
\<close>

theorem lease_verdicts_valid:
  "(\<forall>lo' v. claim lo a h t now ttl absent = Inr (lo', v) \<longrightarrow> lease_verdict_ok v) \<and>
   lease_verdict_ok (snd (renew lo h t f now ttl)) \<and>
   (\<forall>lo' v. handoff lo h t f h' t' now ttl = Inr (lo', v) \<longrightarrow> lease_verdict_ok v) \<and>
   lease_verdict_ok (check_write lo h t f now)"
proof (intro conjI allI impI)
  show "\<And>lo' v. claim lo a h t now ttl absent = Inr (lo', v) \<Longrightarrow> lease_verdict_ok v"
    by (erule claim_cases) auto
  show "lease_verdict_ok (snd (renew lo h t f now ttl))"
    by (cases "renew lo h t f now ttl") (auto elim: renew_cases)
  show "\<And>lo' v. handoff lo h t f h' t' now ttl = Inr (lo', v) \<Longrightarrow> lease_verdict_ok v"
    by (erule handoff_cases) auto
  show "lease_verdict_ok (check_write lo h t f now)"
    by (auto simp: check_write_def split: option.splits)
qed

subsection \<open>Witnesses\<close>

definition demo_lease :: lease where
  "demo_lease = \<lparr>l_agent = ''figrecipe'', l_holder = ''nas'', l_token = ''t0'',
     l_expires_at = 100, l_fence = 0\<rparr>"

lemmas demo_simps = demo_lease_def store_defs lease_ok_def may_write_iff is_expired_def
  claim_def handoff_def held_by_def lease_defs

theorem fence_orders_writers_witness:
  "(0::int) < 1 \<and> may_write (Some demo_lease) 5 (''nas'', ''t0'', 0) \<and>
   may_write (fold lease_step [Handoff ''nas'' ''t0'' 0 ''gpu'' ''t1'' 6 50] (Some demo_lease)) 7
     (''gpu'', ''t1'', 1)"
proof -
  have w: "may_write (Some demo_lease) 5 (''nas'', ''t0'', 0)"
    by (simp add: demo_simps)
  have w': "may_write (fold lease_step [Handoff ''nas'' ''t0'' 0 ''gpu'' ''t1'' 6 50] (Some demo_lease)) 7
     (''gpu'', ''t1'', 1)"
    by (simp add: demo_simps)
  from fence_orders_writers [OF _ w w'] w w' show ?thesis
    by (simp add: demo_simps)
qed

theorem superseded_writer_refused_witness:
  "\<not> may_write (fold lease_step [Renew ''nas'' ''t0'' 0 5 100] (Some (demo_lease\<lparr>l_fence := 3\<rparr>))) 6
     (''nas'', ''t0'', 2)"
  by (rule superseded_writer_refused) (simp_all add: demo_simps)

theorem handoff_swaps_authority_witness:
  "\<exists>m v. handoff (Some demo_lease) ''nas'' ''t0'' 0 ''gpu'' ''t1'' 5 50 = Inr (Some m, v) \<and>
    lv_allowed v = Yes \<and> may_write (Some m) 5 (''gpu'', ''t1'', 0 + 1) \<and>
    (\<forall>now'. \<not> may_write (Some m) now' (''nas'', ''t0'', 0))"
  by (rule handoff_swaps_authority) (simp_all add: demo_simps)

theorem claim_grants_iff_witness:
  "\<exists>lo' v. claim (Some demo_lease) ''figrecipe'' ''gpu'' ''t1'' 5 50 False = Inr (lo', v) \<and>
    lv_allowed v \<noteq> Yes \<and> lo' = Some demo_lease"
  using claim_grants_iff [of "Some demo_lease" "''figrecipe''" "''gpu''" "''t1''" 5 50 False]
  by (simp add: demo_simps)

theorem lease_verdicts_valid_witness:
  "\<exists>lo' v. claim None ''figrecipe'' ''gpu'' ''t1'' 5 50 False = Inr (lo', v) \<and> lease_verdict_ok v"
proof -
  obtain lo' v where c: "claim None ''figrecipe'' ''gpu'' ''t1'' 5 50 False = Inr (lo', v)"
    by (simp add: claim_def mk_lease_def)
  with lease_verdicts_valid [of None] show ?thesis by blast
qed

end
