(* ===== verification/Lease_Readiness.thy ===== *)
theory Lease_Readiness
  imports Lease
begin

text \<open>
  \<open>_lifecycle/_relocate_lease_readiness.py\<close> and \<open>_relocate_lease_facts.py\<close>: the predicate the
  preflight asks before anything is stopped (could the handover run?) and the gathering of the
  facts it is asked about.
\<close>

definition handoff_readiness ::
  "lease option \<Rightarrow> string \<Rightarrow> time \<Rightarrow> tri \<Rightarrow> lease_verdict result" where
  "handoff_readiness lo from_holder now running =
     (if from_holder = [] then Inl (ValueError ''handoff_readiness needs the source holder'')
      else case lo of
        None \<Rightarrow> Inr \<lparr>lv_allowed = Yes, lv_code = LEASE_OK,
                     lv_reason = Fmt ''will be bootstrapped'' [Txt from_holder],
                     lv_holder = None, lv_fence = None, lv_expires_at = None\<rparr>
      | Some l \<Rightarrow>
          if l_holder l = from_holder then
            Inr (lease_yes l (Fmt ''source already holds'' [Txt (l_agent l), Txt from_holder,
              Num (l_fence l)]))
          else if is_expired l now then
            Inr (lease_yes l (Fmt ''expired, will be re-claimed'' [Txt (l_agent l),
              Txt (l_holder l), Sec (l_expires_at l), Txt from_holder]))
          else (case running of
              None \<Rightarrow> Inr (lease_unknown (Fmt ''holder not observed'' [Txt (l_agent l),
                Txt (l_holder l), Num (l_fence l), Txt (l_holder l)]))
            | Some True \<Rightarrow> Inr (lease_no LEASE_HELD_BY_OTHER (Fmt ''holder is running'' [Txt (l_agent l),
                Txt (l_holder l), Num (l_fence l), Txt (l_holder l), Txt from_holder]) (Some l))
            | Some False \<Rightarrow> Inr (lease_yes l (Fmt ''observed not running'' [Txt (l_agent l),
                Txt (l_holder l), Num (l_fence l), Txt (l_holder l), Txt from_holder]))))"

lemma readiness_valid: "handoff_readiness lo h now r = Inr v \<Longrightarrow> lease_verdict_ok v"
  by (auto simp: handoff_readiness_def lease_verdict_ok_def lease_defs
      split: option.splits bool.splits if_splits)

lemma readiness_yes_iff:
  "handoff_readiness lo h now r = Inr v \<Longrightarrow> lv_allowed v = Yes \<longleftrightarrow>
     (case lo of None \<Rightarrow> True
      | Some l \<Rightarrow> l_holder l = h \<or> is_expired l now \<or> r = No)"
  by (auto simp: handoff_readiness_def split: option.splits bool.splits if_splits)

lemma readiness_returns: "h \<noteq> [] \<Longrightarrow> \<exists>v. handoff_readiness lo h now r = Inr v"
  by (auto simp: handoff_readiness_def split: option.splits bool.splits)

subsection \<open>Gathering the facts\<close>

text \<open>
  \<open>LeaseFacts\<close> (\<open>_relocate_preflight_facts.py\<close>). \<open>lf_read\<close> false means the store was not read,
  which is not the same as reading that there is no record.
\<close>

record lease_facts =
  lf_read :: bool
  lf_lease :: "lease option"
  lf_recorded_holder_running :: tri
  lf_recorded_holder_evidence :: msg
  lf_store :: string
  lf_now :: "time option"

definition no_lease_facts :: lease_facts where
  "no_lease_facts = \<lparr>lf_read = False, lf_lease = None, lf_recorded_holder_running = None,
     lf_recorded_holder_evidence = empty_msg, lf_store = [], lf_now = None\<rparr>"

definition needs_observing :: "lease option \<Rightarrow> string \<Rightarrow> time \<Rightarrow> bool" where
  "needs_observing lo from_host now =
     (case lo of None \<Rightarrow> False
      | Some l \<Rightarrow>
          if from_host = [] then False
          else if l_holder l = from_host then False
          else \<not> is_expired l now)"

text \<open>
  \<open>load\<close> and \<open>observe\<close> are the code's injection seams: the store read and the liveness probe.
  Each may raise, which is its \<open>Inl\<close>; the text is the exception's.
\<close>

definition gather_lease_facts ::
  "string \<Rightarrow> string \<Rightarrow> time \<Rightarrow> string \<Rightarrow> (string \<Rightarrow> string + lease option)
   \<Rightarrow> (string \<Rightarrow> string \<Rightarrow> string + tri \<times> msg) \<Rightarrow> lease_facts" where
  "gather_lease_facts agent from_host moment store load observe =
     (case load agent of
        Inl e \<Rightarrow> no_lease_facts\<lparr>lf_store := store, lf_now := Some moment,
          lf_recorded_holder_evidence := Fmt ''store could not be read'' [Txt e]\<rparr>
      | Inr lo \<Rightarrow>
          if \<not> needs_observing lo from_host moment then
            no_lease_facts\<lparr>lf_read := True, lf_lease := lo, lf_store := store, lf_now := Some moment\<rparr>
          else
            (let holder = (case lo of None \<Rightarrow> [] | Some l \<Rightarrow> l_holder l);
                 seen = (case observe holder agent of
                    Inl e \<Rightarrow> (None, Fmt ''liveness probe raised'' [Txt holder, Txt e])
                  | Inr p \<Rightarrow> p)
             in no_lease_facts\<lparr>lf_read := True, lf_lease := lo,
                  lf_recorded_holder_running := fst seen,
                  lf_recorded_holder_evidence := snd seen,
                  lf_store := store, lf_now := Some moment\<rparr>))"

text \<open>A store that cannot be read is never reported as an empty one.\<close>

lemma unreadable_store_not_read:
  "load agent = Inl e \<Longrightarrow> \<not> lf_read (gather_lease_facts agent h now store load observe)"
  by (simp add: gather_lease_facts_def no_lease_facts_def)

text \<open>The observation is only spent where the readiness verdict depends on it.\<close>

lemma readiness_ignores_observation:
  "\<not> needs_observing lo h now \<Longrightarrow> h \<noteq> [] \<Longrightarrow>
     handoff_readiness lo h now r = handoff_readiness lo h now r'"
  by (auto simp: handoff_readiness_def needs_observing_def split: option.splits)

text \<open>
  The lease preflight measures before it decides. On the facts the coordinator gathers, the
  readiness verdict is a permission exactly when there is no record, the source holds it, it is
  expired, or its holder was looked at and is not running the agent; a probe that raised is
  never a permission.
\<close>

theorem gathered_readiness_iff:
  assumes "load agent = Inr lo" and "h \<noteq> []"
    and "handoff_readiness (lf_lease f) h now (lf_recorded_holder_running f) = Inr v"
    and "f = gather_lease_facts agent h now store load observe"
  shows "lv_allowed v = Yes \<longleftrightarrow> (case lo of None \<Rightarrow> True
    | Some l \<Rightarrow> l_holder l = h \<or> is_expired l now \<or> (\<exists>w. observe (l_holder l) agent = Inr (No, w)))"
proof -
  have "lf_lease f = lo"
    using assms(1,4) by (simp add: gather_lease_facts_def no_lease_facts_def Let_def)
  moreover have "l_holder l \<noteq> h \<Longrightarrow> \<not> is_expired l now \<Longrightarrow> lo = Some l \<Longrightarrow>
      (lf_recorded_holder_running f = No) = (\<exists>w. observe (l_holder l) agent = Inr (No, w))" for l
    using assms(1,2,4)
    by (auto simp: gather_lease_facts_def no_lease_facts_def needs_observing_def Let_def
        split: sum.splits)
  ultimately show ?thesis
    using readiness_yes_iff [OF assms(3)] by (cases lo) auto
qed

theorem gathered_readiness_iff_witness:
  "\<exists>v. handoff_readiness
      (lf_lease (gather_lease_facts ''figrecipe'' ''gpu'' 5 ''pg'' (\<lambda>_. Inr (Some demo_lease))
         (\<lambda>_ _. Inl ''timeout'')))
      ''gpu'' 5 None = Inr v \<and> lv_allowed v \<noteq> Yes"
proof -
  let ?f = "gather_lease_facts ''figrecipe'' ''gpu'' 5 ''pg'' (\<lambda>_. Inr (Some demo_lease))
         (\<lambda>_ _. Inl ''timeout'')"
  have r: "lf_recorded_holder_running ?f = None" "lf_lease ?f = Some demo_lease"
    by (simp_all add: gather_lease_facts_def no_lease_facts_def needs_observing_def demo_simps)
  obtain v where v: "handoff_readiness (lf_lease ?f) ''gpu'' 5 (lf_recorded_holder_running ?f) = Inr v"
    using readiness_returns [of "''gpu''"] by blast
  have "lv_allowed v \<noteq> Yes"
    using gathered_readiness_iff [OF _ _ v refl, of "Some demo_lease"] by (simp add: demo_simps)
  with v r show ?thesis by auto
qed

end
