(* ===== verification/Transport.thy ===== *)
theory Transport
  imports Prelude "HOL-Library.Multiset"
begin

text \<open>
  Carrying the transcript, as decisions: where it lands (\<open>_lifecycle/_relocate_transport_paths.py\<close>,
  \<open>_relocate_move_aside.py\<close>), what is carried and whether the copy may start
  (\<open>_relocate_transport.py\<close>), whether it arrived (\<open>_relocate_transport_verify.py\<close>), and the
  single-file carry with its read-back (\<open>_relocate_transcript.py\<close>).
\<close>

subsection \<open>Where it lands\<close>

text \<open>\<open>re.sub(r"-{3,}", "--", s)\<close>.\<close>

function collapse_dashes :: "string \<Rightarrow> string" where
  "collapse_dashes [] = []"
| "collapse_dashes (x # xs) =
     (if starts_with (x # xs) ''---''
      then ''--'' @ collapse_dashes (dropWhile (\<lambda>c. c = CHR ''-'') (x # xs))
      else x # collapse_dashes xs)"
  by pat_completeness auto
termination
proof (relation "measure length")
  fix x xs
  assume "starts_with (x # xs) ''---''"
  then have "x = CHR ''-''" by (simp add: starts_with_def)
  then show "(dropWhile (\<lambda>c. c = CHR ''-'') (x # xs), x # xs) \<in> measure length"
    using length_dropWhile_le [of "\<lambda>c. c = CHR ''-''" xs] by simp
qed simp_all

text \<open>\<open>encode_claude_project\<close> (\<open>_runners/_session_candidates.py\<close>).\<close>

definition encode_workdir :: "string \<Rightarrow> string" where
  "encode_workdir w = collapse_dashes
     (map (\<lambda>c. if c = CHR ''/'' \<or> c = CHR ''.'' then CHR ''-'' else c) w)"

abbreviation DIR_DERIVED :: int where "DIR_DERIVED \<equiv> 200"
abbreviation DIR_UNKNOWN :: int where "DIR_UNKNOWN \<equiv> 503"

record target_dir =
  td_path :: "string option"
  td_code :: int
  td_reason :: msg
  td_encoded :: "string option"
  td_matches_source :: tri
  td_hint :: msg

text \<open>\<open>TargetTranscriptDir.__post_init__\<close>.\<close>

definition target_dir_ok :: "target_dir \<Rightarrow> bool" where
  "target_dir_ok d \<longleftrightarrow> truthy (td_reason d) \<and>
     (td_path d \<noteq> None \<longrightarrow> td_code d = DIR_DERIVED) \<and>
     (td_path d = None \<longrightarrow> truthy (td_hint d))"

abbreviation present :: "string option \<Rightarrow> bool" where
  "present x \<equiv> x \<noteq> None \<and> x \<noteq> Some []"

definition derive_target_dir ::
  "string option \<Rightarrow> string option \<Rightarrow> string option \<Rightarrow> target_dir" where
  "derive_target_dir target_home target_resolved_workdir source_dir_name =
     (if \<not> present target_home then
        \<lparr>td_path = None, td_code = DIR_UNKNOWN, td_reason = Txt ''the target's $HOME was not observed'',
         td_encoded = None, td_matches_source = None, td_hint = Txt ''probe the target for its $HOME''\<rparr>
      else if \<not> present target_resolved_workdir then
        \<lparr>td_path = None, td_code = DIR_UNKNOWN,
         td_reason = Txt ''the target's RESOLVED workdir was not observed'',
         td_encoded = None, td_matches_source = None, td_hint = Txt ''probe the target for the workdir''\<rparr>
      else
       (let encoded = encode_workdir (the target_resolved_workdir);
            path = rstrip_char (CHR ''/'') (the target_home) @ ''/.claude/projects/'' @ encoded;
            matches = map_option (\<lambda>n. encoded = n) source_dir_name
        in \<lparr>td_path = Some path, td_code = DIR_DERIVED,
            td_reason = (if matches = No
              then Fmt ''the two hosts resolve this workdir differently''
                [Txt encoded, opt_msg source_dir_name]
              else Fmt ''the target's runner will read'' [Txt path]),
            td_encoded = Some encoded, td_matches_source = matches, td_hint = empty_msg\<rparr>))"

lemma derive_target_dir_valid: "target_dir_ok (derive_target_dir h w n)"
  by (simp add: derive_target_dir_def target_dir_ok_def Let_def)

lemma derive_target_dir_path:
  "td_path (derive_target_dir h w n) = Some p \<longleftrightarrow>
     (\<exists>home dir. h = Some home \<and> home \<noteq> [] \<and> w = Some dir \<and> dir \<noteq> [] \<and>
       p = rstrip_char (CHR ''/'') home @ ''/.claude/projects/'' @ encode_workdir dir)"
  by (cases h; cases w) (auto simp: derive_target_dir_def Let_def)

lemma set_collapse: "set (collapse_dashes s) \<subseteq> set s \<union> {CHR ''-''}"
proof (induction s rule: collapse_dashes.induct)
  case (2 x xs)
  show ?case
  proof (cases "starts_with (x # xs) ''---''")
    case True
    define r where "r = dropWhile (\<lambda>c. c = CHR ''-'') (x # xs)"
    have "set r \<subseteq> set (x # xs)" unfolding r_def by (meson set_dropWhileD subsetI)
    moreover have "set (collapse_dashes r) \<subseteq> set r \<union> {CHR ''-''}"
      using "2.IH"(1) [OF True] unfolding r_def .
    moreover have "collapse_dashes (x # xs) = ''--'' @ collapse_dashes r"
      using True unfolding r_def by (simp only: collapse_dashes.simps if_True)
    ultimately show ?thesis by auto
  next
    case False
    with "2.IH"(2) [OF False] show ?thesis by auto
  qed
qed simp

lemma encode_workdir_flat: "CHR ''/'' \<notin> set (encode_workdir w)" "CHR ''.'' \<notin> set (encode_workdir w)"
  using set_collapse [of "map (\<lambda>c. if c = CHR ''/'' \<or> c = CHR ''.'' then CHR ''-'' else c) w"]
  by (auto simp: encode_workdir_def)

text \<open>No run of three dashes is left.\<close>

definition triple_free :: "string \<Rightarrow> bool" where
  "triple_free s \<longleftrightarrow> (\<forall>k. \<not> starts_with (drop k s) ''---'')"

lemma triple_free_Cons: "triple_free (x # xs) \<longleftrightarrow> \<not> starts_with (x # xs) ''---'' \<and> triple_free xs"
  unfolding triple_free_def by (metis drop0 drop_Suc_Cons not0_implies_Suc)

lemma hd_collapse: "hd (collapse_dashes (x # xs)) = x"
  by (auto simp: starts_with_def)

lemma collapse_Nil: "collapse_dashes s = [] \<longleftrightarrow> s = []"
  by (cases s) auto

lemma collapse_starts:
  "starts_with (collapse_dashes s) [CHR ''-'', CHR ''-''] \<Longrightarrow> starts_with s [CHR ''-'', CHR ''-'']"
proof (cases s)
  case (Cons x xs)
  assume a: "starts_with (collapse_dashes s) [CHR ''-'', CHR ''-'']"
  show ?thesis
  proof (cases xs)
    case Nil
    with a Cons show ?thesis by (auto simp: starts_with_def)
  next
    case (Cons y ys)
    with a \<open>s = x # xs\<close> hd_collapse [of y ys] collapse_Nil [of "y # ys"] show ?thesis
      by (cases "collapse_dashes (y # ys)") (auto simp: starts_with_def split: if_splits)
  qed
qed (simp add: starts_with_def)

lemma triple_free_collapse: "triple_free (collapse_dashes s)"
proof (induction s rule: collapse_dashes.induct)
  case 1
  show ?case by (simp add: triple_free_def starts_with_def)
next
  case (2 x xs)
  show ?case
  proof (cases "starts_with (x # xs) ''---''")
    case True
    let ?r = "dropWhile (\<lambda>c. c = CHR ''-'') (x # xs)"
    have "?r = [] \<or> hd (collapse_dashes ?r) \<noteq> CHR ''-''"
      using hd_dropWhile [of "\<lambda>c. c = CHR ''-''" "x # xs"] hd_collapse by (cases ?r) auto
    then have "triple_free (CHR ''-'' # CHR ''-'' # collapse_dashes ?r)"
      using "2.IH"(1) [OF True] collapse_Nil [of ?r]
      by (cases "collapse_dashes ?r") (auto simp: triple_free_Cons starts_with_def)
    with True show ?thesis by (simp only: collapse_dashes.simps if_True) simp
  next
    case False
    have "\<not> starts_with (x # collapse_dashes xs) ''---''"
    proof
      assume "starts_with (x # collapse_dashes xs) ''---''"
      then have "x = CHR ''-''" "starts_with (collapse_dashes xs) [CHR ''-'', CHR ''-'']"
        by (auto simp: starts_with_def)
      with collapse_starts [of xs] False show False by (simp add: starts_with_def)
    qed
    with False "2.IH"(2) [OF False] show ?thesis by (simp add: triple_free_Cons)
  qed
qed

subsection \<open>Moving aside\<close>

text \<open>\<open>move_aside_destination\<close>.\<close>

definition move_aside_destination :: "string \<Rightarrow> string \<Rightarrow> string result" where
  "move_aside_destination directory stamp =
     (let trimmed = rstrip_char (CHR ''/'') directory;
          (parent, name) = rpartition (CHR ''/'') trimmed
      in if name = [] \<or> parent = [] then Inl (ValueError ''move_aside_destination cannot displace'')
         else Inr (parent @ ''/.old/'' @ stamp @ ''/'' @ name))"

subsection \<open>What is carried\<close>

abbreviation TRANSCRIPT_SUFFIX :: string where "TRANSCRIPT_SUFFIX \<equiv> ''.jsonl''"
abbreviation MEMORY_DIRNAME :: string where "MEMORY_DIRNAME \<equiv> ''memory''"

definition CREDENTIAL_BASENAMES :: "string list" where
  "CREDENTIAL_BASENAMES = [''.credentials.json'', ''credentials.json'', ''.credentials.json.bak'']"

definition is_transferable :: "string \<Rightarrow> bool" where
  "is_transferable name =
     (let base = basename name in
      if base \<in> set CREDENTIAL_BASENAMES then False
      else ends_with base TRANSCRIPT_SUFFIX \<and> length base > length TRANSCRIPT_SUFFIX)"

definition is_carried_directory :: "string \<Rightarrow> bool" where
  "is_carried_directory name \<longleftrightarrow> basename name = MEMORY_DIRNAME"

definition refusal_for :: "string \<Rightarrow> msg" where
  "refusal_for name =
     (if basename name \<in> set CREDENTIAL_BASENAMES then Txt ''a credential is never carried''
      else Txt ''the allowlist carries conversation transcripts and memory/; this is neither'')"

text \<open>The loop of \<open>select_transferable\<close>: transcripts, directories and refusals, in order.\<close>

fun select_transferable :: "string list \<Rightarrow> string list \<times> string list \<times> (string \<times> msg) list" where
  "select_transferable [] = ([], [], [])"
| "select_transferable (name # names) =
     (let (transcripts, directories, refused) = select_transferable names in
      if is_transferable name then (name # transcripts, directories, refused)
      else if is_carried_directory name then (transcripts, name # directories, refused)
      else (transcripts, directories, (name, refusal_for name) # refused))"

lemma select_transferable_filters:
  "select_transferable names =
     (filter is_transferable names,
      filter (\<lambda>n. \<not> is_transferable n \<and> is_carried_directory n) names,
      map (\<lambda>n. (n, refusal_for n)) (filter (\<lambda>n. \<not> is_transferable n \<and> \<not> is_carried_directory n) names))"
  by (induction names) auto

lemma carried_not_credential:
  "is_transferable n \<Longrightarrow> basename n \<notin> set CREDENTIAL_BASENAMES"
  "is_carried_directory n \<Longrightarrow> basename n \<notin> set CREDENTIAL_BASENAMES"
  by (auto simp: is_transferable_def is_carried_directory_def CREDENTIAL_BASENAMES_def Let_def
      split: if_splits)

subsection \<open>Whether the copy may start\<close>

abbreviation TP_READY :: int where "TP_READY \<equiv> 200"
abbreviation TP_NOTHING_TO_CARRY :: int where "TP_NOTHING_TO_CARRY \<equiv> 204"
abbreviation TP_SOURCE_RUNNING :: int where "TP_SOURCE_RUNNING \<equiv> 409"
abbreviation TP_UNKNOWN :: int where "TP_UNKNOWN \<equiv> 503"

record move_aside =
  ma_required :: tri
  ma_destination :: "string option"
  ma_reason :: msg

definition move_aside_ok :: "move_aside \<Rightarrow> bool" where
  "move_aside_ok m \<longleftrightarrow> truthy (ma_reason m) \<and> (ma_required m = Yes \<longrightarrow> present (ma_destination m))"

record transport_plan =
  tp_proceed :: tri
  tp_code :: int
  tp_reason :: msg
  tp_files :: "string list"
  tp_directories :: "string list"
  tp_refused :: "(string \<times> msg) list"
  tp_move_aside :: "move_aside option"
  tp_hint :: msg

text \<open>\<open>TransportPlan.__post_init__\<close>, with that of its \<open>MoveAside\<close>.\<close>

definition transport_plan_ok :: "transport_plan \<Rightarrow> bool" where
  "transport_plan_ok p \<longleftrightarrow> truthy (tp_reason p) \<and>
     (tp_proceed p = Yes \<longrightarrow> tp_code p = TP_READY \<and> tp_files p \<noteq> []) \<and>
     (tp_proceed p \<noteq> Yes \<longrightarrow> truthy (tp_hint p)) \<and>
     (case tp_move_aside p of None \<Rightarrow> True | Some m \<Rightarrow> move_aside_ok m)"

definition plan_stop :: "tri \<Rightarrow> int \<Rightarrow> string \<Rightarrow> string \<Rightarrow> transport_plan" where
  "plan_stop k c r h = \<lparr>tp_proceed = k, tp_code = c, tp_reason = Txt r, tp_files = [],
     tp_directories = [], tp_refused = [], tp_move_aside = None, tp_hint = Txt h\<rparr>"

definition plan_transport ::
  "tri \<Rightarrow> string list option \<Rightarrow> tri \<Rightarrow> string option \<Rightarrow> string \<Rightarrow> transport_plan result" where
  "plan_transport source_running source_files target_dir_exists target_dir stamp =
     (if source_running = Unknown then
        Inr (plan_stop Unknown TP_UNKNOWN ''whether the source agent is still running was not observed''
          ''ask the source host before copying'')
      else if source_running = Yes then
        Inr (plan_stop No TP_SOURCE_RUNNING ''the source agent is still running''
          ''stop the source and verify it stopped, then re-run'')
      else if \<not> present target_dir then
        Inr (plan_stop Unknown TP_UNKNOWN ''the target-side destination directory was not derived''
          ''derive it from the TARGET's resolved workdir'')
      else (case source_files of
        None \<Rightarrow> Inr (plan_stop Unknown TP_UNKNOWN ''the source's transcript directory was not listed''
          ''list the source project directory before copying'')
      | Some names \<Rightarrow>
         (let (carried, directories, refused) = select_transferable names in
          if carried = [] then
            Inr ((plan_stop No TP_NOTHING_TO_CARRY
                ''the source project directory holds no conversation transcript to move''
                ''confirm this is right before continuing'')
              \<lparr>tp_directories := directories, tp_refused := refused\<rparr>)
          else if target_dir_exists = Unknown then
            Inr ((plan_stop Unknown TP_UNKNOWN
                ''whether the target already holds a transcript directory was not observed''
                ''check the destination before writing to it'')
              \<lparr>tp_files := carried, tp_directories := directories, tp_refused := refused\<rparr>)
          else bind_result
            (if target_dir_exists = Yes then
               bind_result (move_aside_destination (the target_dir) stamp) (\<lambda>dest.
                 Inr \<lparr>ma_required = Yes, ma_destination = Some dest,
                   ma_reason = Txt ''the target already holds a transcript directory for this agent''\<rparr>)
             else Inr \<lparr>ma_required = No, ma_destination = None,
                   ma_reason = Txt ''the destination is empty; nothing to preserve''\<rparr>)
            (\<lambda>move. Inr \<lparr>tp_proceed = Yes, tp_code = TP_READY,
               tp_reason = Fmt ''to copy into; source is stopped''
                 [Num (int (length carried)), Fmt ''/, '' (map Txt directories), Txt (the target_dir)],
               tp_files = carried, tp_directories = directories, tp_refused = refused,
               tp_move_aside = Some move, tp_hint = empty_msg\<rparr>))))"

lemma move_aside_destination_Inr:
  "move_aside_destination d st = Inr x \<Longrightarrow>
     \<exists>parent name. parent \<noteq> [] \<and> name \<noteq> [] \<and>
       rpartition (CHR ''/'') (rstrip_char (CHR ''/'') d) = (parent, name) \<and>
       x = parent @ ''/.old/'' @ st @ ''/'' @ name"
  by (auto simp: move_aside_destination_def Let_def split: prod.splits if_splits)

lemma plan_transport_valid: "plan_transport run files ex dir st = Inr p \<Longrightarrow> transport_plan_ok p"
  by (auto simp: plan_transport_def plan_stop_def transport_plan_ok_def move_aside_ok_def Let_def
      bind_result_Inr_iff dest!: move_aside_destination_Inr split: option.splits prod.splits if_splits)

text \<open>When a plan proceeds, and with what.\<close>

lemma plan_transport_proceeds:
  assumes "plan_transport run files ex dir st = Inr p"
  shows "tp_proceed p = Yes \<longleftrightarrow> run = No \<and> present dir \<and> ex \<noteq> Unknown \<and>
    (\<exists>names. files = Some names \<and> filter is_transferable names \<noteq> [])"
  using assms
  by (auto simp: plan_transport_def plan_stop_def Let_def bind_result_Inr_iff
      select_transferable_filters split: option.splits if_splits)

lemma plan_transport_contents:
  assumes "plan_transport run files ex dir st = Inr p" and "tp_proceed p = Yes"
    and "files = Some names"
  shows "(tp_files p, tp_directories p, tp_refused p) = select_transferable names"
    and "\<exists>m. tp_move_aside p = Some m \<and> ma_required m = ex \<and>
      (ex = Yes \<longrightarrow> (\<exists>d. ma_destination m = Some d \<and> move_aside_destination (the dir) st = Inr d))"
  using assms
  by (auto simp: plan_transport_def plan_stop_def Let_def bind_result_Inr_iff
      split: option.splits if_splits prod.splits)

subsection \<open>Whether it arrived\<close>

abbreviation AR_ARRIVED :: int where "AR_ARRIVED \<equiv> 200"
abbreviation AR_MISSING_ON_TARGET :: int where "AR_MISSING_ON_TARGET \<equiv> 404"
abbreviation AR_TRUNCATED :: int where "AR_TRUNCATED \<equiv> 422"
abbreviation AR_TARGET_LARGER :: int where "AR_TARGET_LARGER \<equiv> 409"
abbreviation AR_UNKNOWN :: int where "AR_UNKNOWN \<equiv> 503"

record transcript_file =
  tf_name :: string
  tf_byte_count :: "int option"
  tf_line_count :: "int option"

definition mk_transcript_file :: "string \<Rightarrow> int option \<Rightarrow> int option \<Rightarrow> transcript_file result" where
  "mk_transcript_file name b l =
     (if name = [] then Inl (ValueError ''TranscriptFile.name must be non-empty'')
      else Inr \<lparr>tf_name = name, tf_byte_count = b, tf_line_count = l\<rparr>)"

definition measured :: "transcript_file \<Rightarrow> bool" where
  "measured f \<longleftrightarrow> tf_byte_count f \<noteq> None \<and> tf_line_count f \<noteq> None"

record arrival_verdict =
  av_arrived :: tri
  av_code :: int
  av_reason :: msg
  av_mismatches :: "msg list"
  av_verified :: "string list"
  av_hint :: msg

text \<open>\<open>ArrivalVerdict.__post_init__\<close>.\<close>

definition arrival_verdict_ok :: "arrival_verdict \<Rightarrow> bool" where
  "arrival_verdict_ok v \<longleftrightarrow> truthy (av_reason v) \<and>
     (av_arrived v = Yes \<longrightarrow> av_code v = AR_ARRIVED \<and> av_mismatches v = []) \<and>
     (av_arrived v \<noteq> Yes \<longrightarrow> truthy (av_hint v))"

abbreviation bytes_of :: "transcript_file \<Rightarrow> int" where "bytes_of f \<equiv> the (tf_byte_count f)"
abbreviation lines_of :: "transcript_file \<Rightarrow> int" where "lines_of f \<equiv> the (tf_line_count f)"

definition counts_line :: "transcript_file \<Rightarrow> transcript_file \<Rightarrow> msg" where
  "counts_line src tgt = Fmt ''sent bytes / lines, target holds''
     [Num (bytes_of src), Num (lines_of src), Num (bytes_of tgt), Num (lines_of tgt)]"

definition short_line :: "transcript_file \<Rightarrow> transcript_file \<Rightarrow> msg" where
  "short_line src tgt = Fmt ''arrived SHORT'' [Txt (tf_name src), counts_line src tgt,
     Num (bytes_of tgt - bytes_of src), Num (lines_of tgt - lines_of src)]"

definition larger_line :: "transcript_file \<Rightarrow> transcript_file \<Rightarrow> msg" where
  "larger_line src tgt = Fmt ''the target holds MORE'' [Txt (tf_name src), counts_line src tgt,
     Num (bytes_of tgt - bytes_of src), Num (lines_of tgt - lines_of src),
     if tf_line_count tgt = tf_line_count src then Fmt ''on the SAME line count'' [] else empty_msg]"

text \<open>The lists \<open>verify_arrival\<close> fills, and one turn of its loop.\<close>

record comparison =
  cm_mismatches :: "msg list"
  cm_verified :: "string list"
  cm_unmeasured :: "msg list"
  cm_absent :: "string list"
  cm_short :: "string list"
  cm_larger :: "string list"

definition compare_one ::
  "(string \<Rightarrow> transcript_file option) \<Rightarrow> transcript_file \<Rightarrow> comparison \<Rightarrow> comparison" where
  "compare_one by_name src c =
     (if \<not> measured src then
        c\<lparr>cm_unmeasured := cm_unmeasured c @ [Fmt ''not measured on the source'' [Txt (tf_name src)]]\<rparr>
      else (case by_name (tf_name src) of
        None \<Rightarrow> c\<lparr>cm_absent := cm_absent c @ [tf_name src],
                  cm_mismatches := cm_mismatches c @ [Fmt ''absent on the target'' [Txt (tf_name src)]]\<rparr>
      | Some tgt \<Rightarrow>
          if \<not> measured tgt then
            c\<lparr>cm_unmeasured := cm_unmeasured c @ [Fmt ''not measured on the target'' [Txt (tf_name src)]]\<rparr>
          else if tf_byte_count tgt = tf_byte_count src \<and> tf_line_count tgt = tf_line_count src then
            c\<lparr>cm_verified := cm_verified c @ [tf_name src]\<rparr>
          else if bytes_of tgt < bytes_of src \<or> lines_of tgt < lines_of src then
            c\<lparr>cm_short := cm_short c @ [tf_name src],
              cm_mismatches := cm_mismatches c @ [short_line src tgt]\<rparr>
          else
            c\<lparr>cm_larger := cm_larger c @ [tf_name src],
              cm_mismatches := cm_mismatches c @ [larger_line src tgt]\<rparr>))"

definition arrival_refusal :: "comparison \<Rightarrow> arrival_verdict" where
  "arrival_refusal c =
     (if cm_short c \<noteq> [] then
        \<lparr>av_arrived = No, av_code = AR_TRUNCATED,
         av_reason = Fmt ''file(s) arrived SHORT'' [Num (int (length (cm_short c)))],
         av_mismatches = cm_mismatches c, av_verified = cm_verified c,
         av_hint = Txt ''do NOT continue the relocation; move the partial copy aside''\<rparr>
      else if cm_absent c \<noteq> [] then
        \<lparr>av_arrived = No, av_code = AR_MISSING_ON_TARGET,
         av_reason = Txt ''the target's copy does not match what was sent'',
         av_mismatches = cm_mismatches c, av_verified = cm_verified c,
         av_hint = Txt ''do NOT continue the relocation; check that the copy command ran''\<rparr>
      else
        \<lparr>av_arrived = No, av_code = AR_TARGET_LARGER,
         av_reason = Fmt ''the target holds MORE than was sent'' [Num (int (length (cm_larger c)))],
         av_mismatches = cm_mismatches c, av_verified = cm_verified c,
         av_hint = Txt ''do NOT continue the relocation; the source changed''\<rparr>)"

definition no_comparison :: comparison where
  "no_comparison = \<lparr>cm_mismatches = [], cm_verified = [], cm_unmeasured = [], cm_absent = [],
     cm_short = [], cm_larger = []\<rparr>"

text \<open>\<open>{f.name: f for f in landed}\<close>: the last file of a name wins.\<close>

definition landed_by_name :: "transcript_file list \<Rightarrow> string \<Rightarrow> transcript_file option" where
  "landed_by_name landed = map_of (rev (map (\<lambda>f. (tf_name f, f)) landed))"

definition verify_arrival :: "transcript_file list \<Rightarrow> transcript_file list \<Rightarrow> arrival_verdict" where
  "verify_arrival sent landed =
     (if sent = [] then
        \<lparr>av_arrived = Unknown, av_code = AR_UNKNOWN, av_reason = Txt ''nothing was recorded as sent'',
         av_mismatches = [], av_verified = [], av_hint = Txt ''snapshot the source files before the copy''\<rparr>
      else
       (let c = fold (compare_one (landed_by_name landed)) sent no_comparison in
        if cm_unmeasured c \<noteq> [] then
          \<lparr>av_arrived = Unknown, av_code = AR_UNKNOWN,
           av_reason = Fmt ''the copy could not be confirmed'' (cm_unmeasured c),
           av_mismatches = cm_mismatches c, av_verified = cm_verified c,
           av_hint = Txt ''count bytes and lines on BOTH sides''\<rparr>
        else if cm_mismatches c \<noteq> [] then arrival_refusal c
        else
          \<lparr>av_arrived = Yes, av_code = AR_ARRIVED,
           av_reason = Fmt ''transcript(s) verified on the target'' [Num (int (length (cm_verified c)))],
           av_mismatches = [], av_verified = cm_verified c, av_hint = empty_msg\<rparr>))"

text \<open>
  The specification: what happened to one file, and what the run as a whole may be called.
\<close>

datatype fate = Unmeasured | Verified | Absent | Short | Larger

definition fate_of :: "(string \<Rightarrow> transcript_file option) \<Rightarrow> transcript_file \<Rightarrow> fate" where
  "fate_of by_name src =
     (if \<not> measured src then Unmeasured
      else case by_name (tf_name src) of
        None \<Rightarrow> Absent
      | Some tgt \<Rightarrow>
          if \<not> measured tgt then Unmeasured
          else if tf_byte_count tgt = tf_byte_count src \<and> tf_line_count tgt = tf_line_count src then Verified
          else if bytes_of tgt < bytes_of src \<or> lines_of tgt < lines_of src then Short
          else Larger)"

definition named_as :: "(string \<Rightarrow> transcript_file option) \<Rightarrow> fate \<Rightarrow> transcript_file list \<Rightarrow> string list" where
  "named_as m k fs = map tf_name (filter (\<lambda>f. fate_of m f = k) fs)"

lemma named_as_Nil: "named_as m k fs = [] \<longleftrightarrow> (\<forall>f \<in> set fs. fate_of m f \<noteq> k)"
  by (auto simp: named_as_def filter_empty_conv)

lemma compare_one_fate:
  "cm_verified (compare_one m f c) = cm_verified c @ named_as m Verified [f]"
  "cm_absent (compare_one m f c) = cm_absent c @ named_as m Absent [f]"
  "cm_short (compare_one m f c) = cm_short c @ named_as m Short [f]"
  "cm_larger (compare_one m f c) = cm_larger c @ named_as m Larger [f]"
  "cm_unmeasured (compare_one m f c) \<noteq> [] \<longleftrightarrow> cm_unmeasured c \<noteq> [] \<or> fate_of m f = Unmeasured"
  "cm_mismatches (compare_one m f c) \<noteq> [] \<longleftrightarrow>
     cm_mismatches c \<noteq> [] \<or> fate_of m f \<in> {Absent, Short, Larger}"
  by (auto simp: compare_one_def fate_of_def named_as_def split: option.splits)

lemma compare_all:
  "cm_verified (fold (compare_one m) fs c) = cm_verified c @ named_as m Verified fs"
  "cm_absent (fold (compare_one m) fs c) = cm_absent c @ named_as m Absent fs"
  "cm_short (fold (compare_one m) fs c) = cm_short c @ named_as m Short fs"
  "cm_larger (fold (compare_one m) fs c) = cm_larger c @ named_as m Larger fs"
  "cm_unmeasured (fold (compare_one m) fs c) \<noteq> [] \<longleftrightarrow>
     cm_unmeasured c \<noteq> [] \<or> (\<exists>f \<in> set fs. fate_of m f = Unmeasured)"
  "cm_mismatches (fold (compare_one m) fs c) \<noteq> [] \<longleftrightarrow>
     cm_mismatches c \<noteq> [] \<or> (\<exists>f \<in> set fs. fate_of m f \<in> {Absent, Short, Larger})"
proof (induction fs arbitrary: c)
  case (Cons f fs)
  {
    case 1
    show ?case using Cons(1)[of "compare_one m f c"] by (simp add: compare_one_fate named_as_def)
  next
    case 2
    show ?case using Cons(2)[of "compare_one m f c"] by (simp add: compare_one_fate named_as_def)
  next
    case 3
    show ?case using Cons(3)[of "compare_one m f c"] by (simp add: compare_one_fate named_as_def)
  next
    case 4
    show ?case using Cons(4)[of "compare_one m f c"] by (simp add: compare_one_fate named_as_def)
  next
    case 5
    show ?case using Cons(5)[of "compare_one m f c"] by (auto simp: compare_one_fate(5))
  next
    case 6
    show ?case using Cons(6)[of "compare_one m f c"] by (auto simp: compare_one_fate(6))
  }
qed (simp_all add: named_as_def)

text \<open>The rank of an outcome: what cannot be measured outranks a short copy, and so on.\<close>

definition arrival_code :: "fate set \<Rightarrow> int" where
  "arrival_code ks =
     (if ks = {} \<or> Unmeasured \<in> ks then AR_UNKNOWN
      else if Short \<in> ks then AR_TRUNCATED
      else if Absent \<in> ks then AR_MISSING_ON_TARGET
      else if Larger \<in> ks then AR_TARGET_LARGER
      else AR_ARRIVED)"

definition fates :: "transcript_file list \<Rightarrow> transcript_file list \<Rightarrow> fate set" where
  "fates sent landed = fate_of (landed_by_name landed) ` set sent"

lemma in_fates: "k \<in> fates sent landed \<longleftrightarrow> (\<exists>f \<in> set sent. fate_of (landed_by_name landed) f = k)"
  by (auto simp: fates_def)

lemma named_fates: "named_as (landed_by_name landed) k sent \<noteq> [] \<longleftrightarrow> k \<in> fates sent landed"
  by (auto simp: in_fates named_as_Nil)

lemma all_verified: "Unmeasured \<notin> ks \<Longrightarrow> Short \<notin> ks \<Longrightarrow> Absent \<notin> ks \<Longrightarrow> Larger \<notin> ks \<Longrightarrow> ks \<subseteq> {Verified}"
  using fate.exhaust by blast

lemma verify_arrival_code: "av_code (verify_arrival sent landed) = arrival_code (fates sent landed)"
proof -
  let ?m = "landed_by_name landed" and ?ks = "fates sent landed"
  let ?c = "fold (compare_one ?m) sent no_comparison"
  have l: "cm_unmeasured ?c \<noteq> [] \<longleftrightarrow> Unmeasured \<in> ?ks"
    "cm_mismatches ?c \<noteq> [] \<longleftrightarrow> Absent \<in> ?ks \<or> Short \<in> ?ks \<or> Larger \<in> ?ks"
    "cm_short ?c \<noteq> [] \<longleftrightarrow> Short \<in> ?ks" "cm_absent ?c \<noteq> [] \<longleftrightarrow> Absent \<in> ?ks"
    by (auto simp: compare_all no_comparison_def named_fates [symmetric] in_fates named_as_Nil)
  show ?thesis
  proof (cases "sent = []")
    case True
    then show ?thesis by (simp add: verify_arrival_def arrival_code_def fates_def)
  next
    case False
    then have "?ks \<noteq> {}" by (simp add: fates_def)
    with False l show ?thesis
      by (simp add: verify_arrival_def arrival_code_def arrival_refusal_def Let_def)
  qed
qed

lemma verify_arrival_valid: "arrival_verdict_ok (verify_arrival sent landed)"
  by (simp add: verify_arrival_def arrival_verdict_ok_def arrival_refusal_def Let_def)

lemma verify_arrival_answer:
  "av_arrived (verify_arrival sent landed) = Yes \<longleftrightarrow> av_code (verify_arrival sent landed) = AR_ARRIVED"
  "av_arrived (verify_arrival sent landed) = Unknown \<longleftrightarrow> av_code (verify_arrival sent landed) = AR_UNKNOWN"
  by (simp_all add: verify_arrival_def arrival_refusal_def Let_def)

lemma verify_arrival_yes:
  "av_arrived (verify_arrival sent landed) = Yes \<longleftrightarrow> sent \<noteq> [] \<and>
     (\<forall>f \<in> set sent. measured f \<and> (\<exists>g. landed_by_name landed (tf_name f) = Some g \<and>
        tf_byte_count g = tf_byte_count f \<and> tf_line_count g = tf_line_count f))"
proof -
  have v: "fate_of m f = Verified \<longleftrightarrow> measured f \<and> (\<exists>g. m (tf_name f) = Some g \<and>
      tf_byte_count g = tf_byte_count f \<and> tf_line_count g = tf_line_count f)" for m f
    by (auto simp: fate_of_def measured_def split: option.splits)
  have "av_arrived (verify_arrival sent landed) = Yes \<longleftrightarrow>
      fates sent landed \<noteq> {} \<and> fates sent landed \<subseteq> {Verified}"
    unfolding verify_arrival_answer verify_arrival_code
    using all_verified [of "fates sent landed"] by (auto simp: arrival_code_def)
  then show ?thesis by (auto simp: v fates_def)
qed

interpretation arrival_decision: verdict_shape
  "av_arrived \<circ> case_prod verify_arrival" "av_code \<circ> case_prod verify_arrival"
  "av_reason \<circ> case_prod verify_arrival" "\<lambda>_. True" "{AR_ARRIVED}" AR_UNKNOWN
proof
  fix x :: "transcript_file list \<times> transcript_file list"
  show "truthy ((av_reason \<circ> case_prod verify_arrival) x)"
    using verify_arrival_valid by (simp add: arrival_verdict_ok_def split: prod.splits)
qed (auto simp: verify_arrival_answer)

subsection \<open>Carrying one file\<close>

abbreviation CO_CARRIED :: int where "CO_CARRIED \<equiv> 200"
abbreviation CO_NOTHING_TO_CARRY :: int where "CO_NOTHING_TO_CARRY \<equiv> 204"
abbreviation CO_MISMATCH :: int where "CO_MISMATCH \<equiv> 409"
abbreviation CO_SOURCE_UNREADABLE :: int where "CO_SOURCE_UNREADABLE \<equiv> 410"
abbreviation CO_UNVERIFIABLE :: int where "CO_UNVERIFIABLE \<equiv> 503"

record carry_outcome =
  co_carried :: tri
  co_code :: int
  co_reason :: msg
  co_source_digest :: "string option"
  co_target_digest :: "string option"
  co_byte_count :: "int option"

text \<open>\<open>CarryOutcome.__post_init__\<close>.\<close>

definition carry_outcome_ok :: "carry_outcome \<Rightarrow> bool" where
  "carry_outcome_ok c \<longleftrightarrow> truthy (co_reason c) \<and>
     (co_carried c = Yes \<longrightarrow> co_code c = CO_CARRIED \<and> present (co_target_digest c) \<and>
        co_source_digest c = co_target_digest c)"

text \<open>
  \<open>read_source\<close>, \<open>send\<close> and \<open>read_back\<close> are the callables the caller injects; each may raise.
  \<open>digest\<close> is SHA-256 of the standard library.
\<close>

definition carry_transcript ::
  "(string \<Rightarrow> string) \<Rightarrow> tri \<Rightarrow> ('s, string) prog \<Rightarrow> (string \<Rightarrow> ('s, unit) prog) \<Rightarrow> ('s, string) prog
     \<Rightarrow> 's \<Rightarrow> carry_outcome \<times> 's" where
  "carry_transcript digest carry read_source send read_back s =
     (case carry of
        None \<Rightarrow> (\<lparr>co_carried = Unknown, co_code = CO_UNVERIFIABLE,
          co_reason = Txt ''the carry decision itself was unknown'',
          co_source_digest = None, co_target_digest = None, co_byte_count = None\<rparr>, s)
      | Some False \<Rightarrow> (\<lparr>co_carried = No, co_code = CO_NOTHING_TO_CARRY,
          co_reason = Txt ''the plan declined to carry the transcript'',
          co_source_digest = None, co_target_digest = None, co_byte_count = None\<rparr>, s)
      | Some True \<Rightarrow>
     (case read_source s of
        (Inl e, s1) \<Rightarrow> (\<lparr>co_carried = No, co_code = CO_SOURCE_UNREADABLE,
          co_reason = Fmt ''the source transcript could not be read'' [error_msg e],
          co_source_digest = None, co_target_digest = None, co_byte_count = None\<rparr>, s1)
      | (Inr payload, s1) \<Rightarrow>
     (case send payload s1 of
        (Inl e, s2) \<Rightarrow> (\<lparr>co_carried = Unknown, co_code = CO_UNVERIFIABLE,
          co_reason = Fmt ''the copy failed; the target may hold a partial transcript'' [error_msg e],
          co_source_digest = Some (digest payload), co_target_digest = None,
          co_byte_count = Some (int (length payload))\<rparr>, s2)
      | (Inr _, s2) \<Rightarrow>
     (case read_back s2 of
        (Inl e, s3) \<Rightarrow> (\<lparr>co_carried = Unknown, co_code = CO_UNVERIFIABLE,
          co_reason = Fmt ''the copy could not be read back from the target'' [error_msg e],
          co_source_digest = Some (digest payload), co_target_digest = None,
          co_byte_count = Some (int (length payload))\<rparr>, s3)
      | (Inr landed, s3) \<Rightarrow>
          if digest landed \<noteq> digest payload then
            (\<lparr>co_carried = No, co_code = CO_MISMATCH,
              co_reason = Fmt ''the target's copy does not match the source''
                [Num (int (length landed)), Num (int (length payload))],
              co_source_digest = Some (digest payload), co_target_digest = Some (digest landed),
              co_byte_count = Some (int (length payload))\<rparr>, s3)
          else
            (\<lparr>co_carried = Yes, co_code = CO_CARRIED,
              co_reason = Fmt ''transcript verified on the target'' [Num (int (length payload))],
              co_source_digest = Some (digest payload), co_target_digest = Some (digest landed),
              co_byte_count = Some (int (length payload))\<rparr>, s3)))))"

lemma carry_transcript_yes:
  "co_carried (fst (carry_transcript digest k rd snd_it rb s)) = Yes \<longleftrightarrow> k = Yes \<and>
     (\<exists>payload s1 s2 landed s3. rd s = (Inr payload, s1) \<and> snd_it payload s1 = (Inr (), s2) \<and>
        rb s2 = (Inr landed, s3) \<and> digest landed = digest payload)"
  by (auto simp: carry_transcript_def split: option.splits bool.splits prod.splits sum.splits)

lemma carry_transcript_valid:
  "(\<And>b. digest b \<noteq> []) \<Longrightarrow> carry_outcome_ok (fst (carry_transcript digest k rd snd_it rb s))"
  by (simp add: carry_transcript_def carry_outcome_ok_def
      split: option.splits bool.splits prod.splits sum.splits)

subsection \<open>Properties\<close>

text \<open>
  C33: Arrival is called only on matching counts. The verdict is a yes exactly when something was
  sent and every file sent was measured and is held by the target under its name with the same
  byte and line count; otherwise its code is decided by the worst thing that happened to any
  file: unmeasured before short, short before absent, absent before larger. The verdict always
  passes its constructor's checks.
\<close>

theorem arrival_confirmed_iff:
  "(av_arrived (verify_arrival sent landed) = Yes \<longleftrightarrow> sent \<noteq> [] \<and>
     (\<forall>f \<in> set sent. measured f \<and> (\<exists>g. landed_by_name landed (tf_name f) = Some g \<and>
        tf_byte_count g = tf_byte_count f \<and> tf_line_count g = tf_line_count f))) \<and>
   av_code (verify_arrival sent landed) = arrival_code (fates sent landed) \<and>
   arrival_verdict_ok (verify_arrival sent landed)"
  by (intro conjI verify_arrival_yes verify_arrival_code verify_arrival_valid)

text \<open>
  C34: A copy starts only from a stopped source, and carries no secret. A plan that proceeds means
  the source was observed stopped, its directory listed and the destination measured; every
  listed name is accounted for exactly once, as a transcript, as the memory directory or as a
  refusal; nothing carried has the name of a credential; and an existing destination is moved
  aside first.
\<close>

theorem transport_plan_sound:
  assumes "plan_transport running files exists_there target stamp = Inr p" and "tp_proceed p = Yes"
  shows "running = No \<and> exists_there \<noteq> Unknown \<and>
    (\<exists>names. files = Some names \<and> tp_files p \<noteq> [] \<and>
       mset names = mset (tp_files p) + mset (tp_directories p) + mset (map fst (tp_refused p))) \<and>
    (\<forall>n \<in> set (tp_files p) \<union> set (tp_directories p). basename n \<notin> set CREDENTIAL_BASENAMES) \<and>
    (exists_there = Yes \<longrightarrow> (\<exists>m d. tp_move_aside p = Some m \<and> ma_required m = Yes \<and>
       ma_destination m = Some d \<and> move_aside_destination (the target) stamp = Inr d))"
proof -
  from assms obtain names where r: "running = No" "exists_there \<noteq> Unknown"
    and n: "files = Some names" "filter is_transferable names \<noteq> []"
    using plan_transport_proceeds [OF assms(1)] by blast
  note c = plan_transport_contents [OF assms n(1)]
  from c(1) have f: "tp_files p = filter is_transferable names"
    "tp_directories p = filter (\<lambda>n. \<not> is_transferable n \<and> is_carried_directory n) names"
    "map fst (tp_refused p) = filter (\<lambda>n. \<not> is_transferable n \<and> \<not> is_carried_directory n) names"
    by (auto simp: select_transferable_filters o_def)
  have "mset names = mset (tp_files p) + mset (tp_directories p) + mset (map fst (tp_refused p))"
    unfolding f by (induction names) auto
  moreover have "\<forall>n \<in> set (tp_files p) \<union> set (tp_directories p). basename n \<notin> set CREDENTIAL_BASENAMES"
    unfolding f using carried_not_credential by auto
  ultimately show ?thesis using r n f(1) c(2) by auto
qed

text \<open>
  What is displaced keeps its name and its parent, and never lands on itself. For a
  directory given with any number of trailing slashes, the destination is a different path, ends
  in the same name and lies under a stamped directory of the parent's .old; with no parent or no
  name there is an error instead.
\<close>

theorem move_aside_keeps_name:
  assumes "CHR ''/'' \<notin> set name" and "rstrip_char (CHR ''/'') directory = parent @ ''/'' @ name"
  shows "if name = [] \<or> parent = [] then \<exists>e. move_aside_destination directory stamp = Inl e
    else \<exists>d. move_aside_destination directory stamp = Inr d \<and> d \<noteq> parent @ ''/'' @ name \<and>
      basename d = name \<and> starts_with d (parent @ ''/.old/'' @ stamp @ ''/'')"
proof -
  have r: "rpartition (CHR ''/'') (rstrip_char (CHR ''/'') directory) = (parent, name)"
    using assms by (simp add: rpartition_append)
  have "basename ((parent @ ''/.old/'' @ stamp) @ CHR ''/'' # name) = name"
    using assms(1) by (rule basename_append)
  then have "basename (parent @ ''/.old/'' @ stamp @ ''/'' @ name) = name" by simp
  moreover have "starts_with ((parent @ ''/.old/'' @ stamp @ ''/'') @ name) (parent @ ''/.old/'' @ stamp @ ''/'')"
    by (rule starts_with_append)
  ultimately show ?thesis
    using r by (auto simp: move_aside_destination_def Let_def dest: arg_cong [where f = length])
qed

text \<open>
  The transcript directory is one name under the projects directory of the given home, the
  encoding of the resolved workdir: it holds no slash and no dot and no run of three dashes, so
  the path's last component is that encoding. The answer compares it to the source's name
  when there is one, and is a refusal only when the home or the workdir is missing.
\<close>

theorem target_dir_derivation:
  "target_dir_ok (derive_target_dir home workdir source_name) \<and>
   (td_path (derive_target_dir home workdir source_name) = None \<longleftrightarrow> \<not> present home \<or> \<not> present workdir) \<and>
   (\<forall>p. td_path (derive_target_dir home workdir source_name) = Some p \<longrightarrow>
      basename p = encode_workdir (the workdir) \<and> triple_free (basename p) \<and> CHR ''.'' \<notin> set (basename p) \<and>
      td_matches_source (derive_target_dir home workdir source_name)
        = map_option (\<lambda>n. basename p = n) source_name)"
proof (intro conjI allI impI)
  show "target_dir_ok (derive_target_dir home workdir source_name)"
    by (rule derive_target_dir_valid)
  show "td_path (derive_target_dir home workdir source_name) = None \<longleftrightarrow> \<not> present home \<or> \<not> present workdir"
    by (simp add: derive_target_dir_def Let_def)
  fix p assume p: "td_path (derive_target_dir home workdir source_name) = Some p"
  then obtain h w where hw: "home = Some h" "workdir = Some w" "h \<noteq> []" "w \<noteq> []"
    and path: "p = rstrip_char (CHR ''/'') h @ ''/.claude/projects/'' @ encode_workdir w"
    unfolding derive_target_dir_path by blast
  have "basename ((rstrip_char (CHR ''/'') h @ ''/.claude/projects'') @ CHR ''/'' # encode_workdir w)
      = encode_workdir w"
    by (rule basename_append) (rule encode_workdir_flat)
  with path have b: "basename p = encode_workdir w" by simp
  then show "basename p = encode_workdir (the workdir)" using hw by simp
  show "triple_free (basename p)" unfolding b encode_workdir_def by (rule triple_free_collapse)
  show "CHR ''.'' \<notin> set (basename p)" unfolding b by (rule encode_workdir_flat)
  show "td_matches_source (derive_target_dir home workdir source_name)
      = map_option (\<lambda>n. basename p = n) source_name"
    unfolding b using hw by (simp add: derive_target_dir_def Let_def)
qed

text \<open>
  A carried file is one read back with the digest it was sent with. The outcome is a yes
  exactly when carrying was decided and reading, sending and reading back all worked and the two
  digests agree; a decision not to carry, or an unknown one, touches nothing; and every outcome
  passes its constructor's checks.
\<close>

theorem carried_only_if_read_back:
  assumes "\<And>b. digest b \<noteq> []"
  shows "(co_carried (fst (carry_transcript digest k rd send rb s)) = Yes \<longleftrightarrow> k = Yes \<and>
     (\<exists>payload s1 s2 landed s3. rd s = (Inr payload, s1) \<and> send payload s1 = (Inr (), s2) \<and>
        rb s2 = (Inr landed, s3) \<and> digest landed = digest payload)) \<and>
     (k \<noteq> Yes \<longrightarrow> snd (carry_transcript digest k rd send rb s) = s) \<and>
     carry_outcome_ok (fst (carry_transcript digest k rd send rb s))"
proof (intro conjI carry_transcript_yes carry_transcript_valid assms impI)
  show "snd (carry_transcript digest k rd send rb s) = s" if "k \<noteq> Yes"
    using that by (auto simp: carry_transcript_def split: option.splits bool.splits)
qed

subsection \<open>Witnesses\<close>

theorem arrival_confirmed_iff_witness:
  "av_arrived (verify_arrival [\<lparr>tf_name = ''a'', tf_byte_count = Some 9, tf_line_count = Some 1\<rparr>]
     [\<lparr>tf_name = ''a'', tf_byte_count = Some 9, tf_line_count = Some 1\<rparr>]) = Yes"
  by (rule iffD2 [OF conjunct1 [OF arrival_confirmed_iff]]) (simp add: measured_def landed_by_name_def)

theorem transport_plan_sound_witness:
  "\<exists>p m. plan_transport No (Some [''a.jsonl'', ''memory'', ''.credentials.json'', ''x'']) Yes
      (Some ''/h/p'') ''t1'' = Inr p \<and> tp_proceed p = Yes \<and> tp_move_aside p = Some m \<and>
      move_aside_destination ''/h/p'' ''t1'' = Inr (the (ma_destination m))"
proof -
  obtain p where p: "plan_transport No (Some [''a.jsonl'', ''memory'', ''.credentials.json'', ''x'']) Yes
      (Some ''/h/p'') ''t1'' = Inr p" and y: "tp_proceed p = Yes"
    by (simp add: plan_transport_def Let_def is_transferable_def is_carried_directory_def
        CREDENTIAL_BASENAMES_def py_string move_aside_destination_def)
  from transport_plan_sound [OF p y] p y show ?thesis by auto
qed

theorem move_aside_keeps_name_witness:
  "\<exists>d. move_aside_destination ''/h/p//'' ''t1'' = Inr d \<and> basename d = ''p''"
  using move_aside_keeps_name [of "''p''" "''/h/p//''" "''/h''" "''t1''"]
  by (auto simp: rstrip_char_def)

theorem target_dir_derivation_witness:
  "\<exists>p. td_path (derive_target_dir (Some ''/home/u/'') (Some ''/w/.x'') None) = Some p \<and>
     basename p = encode_workdir ''/w/.x''"
  using target_dir_derivation [of "Some ''/home/u/''" "Some ''/w/.x''" None]
  by (auto simp del: collapse_dashes.simps)

theorem carried_only_if_read_back_witness:
  "co_carried (fst (carry_transcript (\<lambda>b. CHR ''h'' # b) Yes (\<lambda>s. (Inr ''abc'', s))
     (\<lambda>b s. (Inr (), b)) (\<lambda>s. (Inr s, s)) [])) = Yes"
  using carried_only_if_read_back [of "\<lambda>b. CHR ''h'' # b" Yes "\<lambda>s. (Inr ''abc'', s)"
      "\<lambda>b s. (Inr (), b)" "\<lambda>s. (Inr s, s)" "[]"] by simp

end
