(* ===== verification/Session_Choice.thy ===== *)
theory Session_Choice
  imports Transport
begin

text \<open>
  Which conversation the target resumes (\<open>_lifecycle/_relocate_session_choice.py\<close>): the one the
  runtime's own marker names, else the only one carried, else the newest, and never a guess.
\<close>

abbreviation SC_CHOSEN :: int where "SC_CHOSEN \<equiv> 200"
abbreviation SC_AMBIGUOUS :: int where "SC_AMBIGUOUS \<equiv> 300"
abbreviation SC_NO_CANDIDATES :: int where "SC_NO_CANDIDATES \<equiv> 404"
abbreviation SC_MARKER_NOT_CARRIED :: int where "SC_MARKER_NOT_CARRIED \<equiv> 409"
abbreviation SC_UNKNOWN :: int where "SC_UNKNOWN \<equiv> 503"

definition session_id_for :: "string \<Rightarrow> string" where
  "session_id_for name =
     (let base = basename name in
      if ends_with base TRANSCRIPT_SUFFIX then take (length base - length TRANSCRIPT_SUFFIX) base
      else base)"

definition transcript_name_for :: "string \<Rightarrow> string" where
  "transcript_name_for session = session @ TRANSCRIPT_SUFFIX"

record session_choice =
  sc_session :: "string option"
  sc_code :: int
  sc_reason :: msg
  sc_chosen_by :: string
  sc_candidates :: "string list"
  sc_hint :: msg

text \<open>\<open>SessionChoice.__post_init__\<close>.\<close>

definition session_choice_ok :: "session_choice \<Rightarrow> bool" where
  "session_choice_ok c \<longleftrightarrow> truthy (sc_reason c) \<and>
     (sc_session c \<noteq> None \<longrightarrow> sc_code c = SC_CHOSEN \<and> sc_chosen_by c \<noteq> []) \<and>
     (sc_session c = None \<longrightarrow> truthy (sc_hint c))"

definition chosen :: "string \<Rightarrow> msg \<Rightarrow> string \<Rightarrow> string list \<Rightarrow> session_choice" where
  "chosen session reason by names = \<lparr>sc_session = Some session, sc_code = SC_CHOSEN,
     sc_reason = reason, sc_chosen_by = by, sc_candidates = names, sc_hint = empty_msg\<rparr>"

definition not_chosen :: "int \<Rightarrow> msg \<Rightarrow> string list \<Rightarrow> string \<Rightarrow> session_choice" where
  "not_chosen code reason names hint = \<lparr>sc_session = None, sc_code = code, sc_reason = reason,
     sc_chosen_by = [], sc_candidates = names, sc_hint = Txt hint\<rparr>"

definition listed :: "string list \<Rightarrow> msg" where
  "listed names = (if names = [] then Txt ''(none)'' else Fmt '', '' (map Txt names))"

text \<open>
  \<open>mtimes\<close> gives the modification time of a name, \<open>None\<close> when it was not measured or is absent
  from the mapping. \<open>marker\<close> is \<open>None\<close> when the marker was not read and \<open>Some []\<close> when there is none.
\<close>

definition choose_session ::
  "string \<Rightarrow> string list \<Rightarrow> string option \<Rightarrow> (string \<Rightarrow> int option) \<Rightarrow> session_choice" where
  "choose_session agent carried marker mtimes =
     (if carried = [] then
        not_chosen SC_NO_CANDIDATES (Fmt ''no transcript was selected'' [Txt agent]) []
          ''check the source's project directory and the workdir encoding before moving''
      else if present marker then
        (let m = the marker; wanted = transcript_name_for m in
         if wanted \<in> set carried then
           chosen m (Fmt ''marker names session'' [Txt agent, Txt m, Txt wanted, Num (int (length carried))])
             ''the source's runtime session marker'' carried
         else
           not_chosen SC_MARKER_NOT_CARRIED
             (Fmt ''marker names session, transcript NOT carried'' [Txt agent, Txt m, Txt wanted, listed carried])
             carried ''the runtime and the transport disagree'')
      else if length carried = 1 then
        chosen (session_id_for (hd carried)) (Fmt ''is the only transcript being carried'' [Txt (hd carried)])
          ''the only carried transcript'' carried
      else if marker = None then
        not_chosen SC_UNKNOWN (Fmt ''marker was not read'' [Txt agent, Num (int (length carried)), listed carried])
          carried ''read runtime/<agent>/session_id on the source before deciding''
      else
       (let unmeasured = sort (filter (\<lambda>n. mtimes n = None) (remdups carried)) in
        if unmeasured \<noteq> [] then
          not_chosen SC_UNKNOWN (Fmt ''modification time was not measured'' [Txt agent, listed unmeasured])
            carried ''measure the mtimes on the source and try again''
        else
         (let newest = Max (set (map (\<lambda>n. the (mtimes n)) carried));
              tied = sort (filter (\<lambda>n. mtimes n = Some newest) (remdups carried)) in
          if 1 < length tied then
            not_chosen SC_AMBIGUOUS (Fmt ''share the newest modification time''
              [Txt agent, Num (int (length tied)), Num newest, listed tied])
              carried ''seed runtime/<agent>/session_id on the source''
          else
            chosen (session_id_for (hd tied)) (Fmt ''is the most recently modified''
              [Txt agent, Txt (hd tied), Num (int (length carried))])
              ''the most recently modified carried transcript'' carried)))"

lemma choose_session_valid: "session_choice_ok (choose_session agent carried marker mtimes)"
  by (simp add: choose_session_def session_choice_ok_def chosen_def not_chosen_def Let_def)

lemma session_name_roundtrip:
  "CHR ''/'' \<notin> set s \<Longrightarrow> session_id_for (transcript_name_for s) = s"
  by (simp add: session_id_for_def transcript_name_for_def basename_plain Let_def)

lemma transcript_name_roundtrip:
  assumes "CHR ''/'' \<notin> set n" and "is_transferable n"
  shows "transcript_name_for (session_id_for n) = n"
proof -
  have e: "ends_with n TRANSCRIPT_SUFFIX"
    using assms by (auto simp: is_transferable_def basename_plain Let_def split: if_splits)
  then have "take (length n - length TRANSCRIPT_SUFFIX) n @ TRANSCRIPT_SUFFIX = n"
    unfolding ends_with_def by (metis append_take_drop_id)
  with e assms(1) show ?thesis
    by (simp add: session_id_for_def transcript_name_for_def basename_plain Let_def)
qed

text \<open>The unique newest of the carried transcripts, when all of them were measured.\<close>

definition newest_of :: "(string \<Rightarrow> int option) \<Rightarrow> string list \<Rightarrow> string \<Rightarrow> bool" where
  "newest_of mtimes names n \<longleftrightarrow> n \<in> set names \<and> (\<forall>m \<in> set names. mtimes m \<noteq> None) \<and>
     (\<forall>m \<in> set names. m \<noteq> n \<longrightarrow> the (mtimes m) < the (mtimes n))"

lemma sort_Nil_iff: "sort xs = [] \<longleftrightarrow> xs = []"
  by (metis length_0_conv length_sort)

lemma tied_singleton:
  assumes "names \<noteq> []" and "\<forall>m \<in> set names. mtimes m \<noteq> None"
    and "tied = sort (filter (\<lambda>n. mtimes n = Some (Max (set (map (\<lambda>n. the (mtimes n)) names)))) (remdups names))"
  shows "\<not> 1 < length tied \<longleftrightarrow> (\<exists>n. newest_of mtimes names n)"
    and "\<not> 1 < length tied \<Longrightarrow> newest_of mtimes names (hd tied)"
proof -
  let ?t = "\<lambda>n. the (mtimes n)" and ?M = "Max (set (map (\<lambda>n. the (mtimes n)) names))"
  have "?M \<in> ?t ` set names" using assms(1) Max_in [of "?t ` set names"] by simp
  then obtain n where n: "n \<in> set names" "?t n = ?M" by auto
  have le: "?t m \<le> ?M" if "m \<in> set names" for m using that by simp
  have st: "set tied = {m \<in> set names. ?t m = ?M}" and dt: "distinct tied"
    using assms(2,3) by force+
  have ne: "tied \<noteq> []" using n st by auto
  show new: "newest_of mtimes names (hd tied)" if one: "\<not> 1 < length tied"
  proof -
    obtain x where x: "tied = [x]" using one ne by (cases tied; cases "tl tied") auto
    have mem: "m \<in> set names \<and> ?t m = ?M \<longleftrightarrow> m = x" for m
      using st unfolding x by (simp add: set_eq_iff)
    have "?t m < ?t x" if "m \<in> set names" "m \<noteq> x" for m
      using le [OF that(1)] mem [of m] mem [of x] that by (metis order_le_less)
    with mem [of x] assms(2) show ?thesis unfolding newest_of_def x list.sel by blast
  qed
  show "\<not> 1 < length tied \<longleftrightarrow> (\<exists>n. newest_of mtimes names n)"
  proof
    assume "\<exists>n. newest_of mtimes names n"
    then obtain k where k: "newest_of mtimes names k" ..
    have "set tied \<subseteq> {k}"
    proof
      fix m assume m: "m \<in> set tied"
      show "m \<in> {k}"
      proof (rule ccontr)
        assume "m \<notin> {k}"
        with k m st have "?t m < ?t k" by (auto simp: newest_of_def)
        moreover have "?t k \<le> ?M" using k le by (auto simp: newest_of_def)
        ultimately show False using m st by auto
      qed
    qed
    then have "card (set tied) \<le> 1" using card_mono [of "{k}"] by fastforce
    with dt show "\<not> 1 < length tied" by (simp add: distinct_card)
  qed (use new in blast)
qed

lemma newest_unique: "newest_of mtimes names n \<Longrightarrow> newest_of mtimes names n' \<Longrightarrow> n' = n"
  unfolding newest_of_def by (metis order_less_asym)

lemma choose_session_iff:
  "sc_session (choose_session agent carried marker mtimes) = Some s \<longleftrightarrow>
     (if present marker then marker = Some s \<and> transcript_name_for s \<in> set carried
      else if length carried = 1 then s = session_id_for (hd carried)
      else marker = Some [] \<and> (\<exists>n. newest_of mtimes carried n \<and> s = session_id_for n))"
proof -
  let ?M = "Max (set (map (\<lambda>n. the (mtimes n)) carried))"
  define tied where "tied = sort (filter (\<lambda>n. mtimes n = Some ?M) (remdups carried))"
  consider "carried = []" | "carried \<noteq> []" "present marker" | "carried \<noteq> []" "\<not> present marker" "length carried = 1"
    | "carried \<noteq> []" "marker = None" "length carried \<noteq> 1"
    | "carried \<noteq> []" "marker = Some []" "length carried \<noteq> 1" "\<exists>n \<in> set carried. mtimes n = None"
    | (timed) "carried \<noteq> []" "marker = Some []" "length carried \<noteq> 1" "\<forall>n \<in> set carried. mtimes n \<noteq> None"
    by (cases marker) fastforce+
  then show "sc_session (choose_session agent carried marker mtimes) = Some s \<longleftrightarrow>
     (if present marker then marker = Some s \<and> transcript_name_for s \<in> set carried
      else if length carried = 1 then s = session_id_for (hd carried)
      else marker = Some [] \<and> (\<exists>n. newest_of mtimes carried n \<and> s = session_id_for n))"
  proof cases
    case timed
    note t = tied_singleton [OF timed(1,4) tied_def]
    have u: "sort (filter (\<lambda>n. mtimes n = None) (remdups carried)) = []"
      using timed(4) by (simp add: filter_empty_conv flip: length_0_conv)
    have "sc_session (choose_session agent carried marker mtimes)
        = (if 1 < length tied then None else Some (session_id_for (hd tied)))"
      using timed(1,2,3) by (simp add: choose_session_def u Let_def tied_def chosen_def not_chosen_def)
    moreover have "(\<exists>n. newest_of mtimes carried n \<and> s = session_id_for n) \<longleftrightarrow>
        \<not> 1 < length tied \<and> s = session_id_for (hd tied)"
      using t newest_unique by metis
    ultimately show ?thesis using timed(2,3) by auto
  qed (auto simp: choose_session_def not_chosen_def chosen_def newest_of_def Let_def filter_empty_conv
      sort_Nil_iff)
qed

subsection \<open>Properties\<close>

text \<open>
  The session resumed is never a guess. It is the one the marker names, when its transcript
  is among those carried; without a marker, the only one carried, or, when the marker is known to
  be absent, the one strictly newer than all the others with every time measured. In every other
  case no session is chosen, and the answer, either way, passes its constructor's checks.
\<close>

theorem session_never_guessed:
  "session_choice_ok (choose_session agent carried marker mtimes) \<and>
   (sc_session (choose_session agent carried marker mtimes) = Some s \<longleftrightarrow>
     (if present marker then marker = Some s \<and> transcript_name_for s \<in> set carried
      else if length carried = 1 then s = session_id_for (hd carried)
      else marker = Some [] \<and> (\<exists>n. newest_of mtimes carried n \<and> s = session_id_for n)))"
  by (intro conjI choose_session_valid choose_session_iff)

text \<open>
  A session and its transcript's file name determine each other, so the session a choice
  names is the one whose file was carried. A name that is chosen without a marker is one of the
  carried transcripts.
\<close>

theorem chosen_session_is_carried:
  assumes "\<forall>n \<in> set carried. is_transferable n \<and> CHR ''/'' \<notin> set n"
    and "sc_session (choose_session agent carried marker mtimes) = Some s"
  shows "transcript_name_for s \<in> set carried \<and> (CHR ''/'' \<notin> set s \<longrightarrow> session_id_for (transcript_name_for s) = s)"
proof -
  have "transcript_name_for s \<in> set carried"
  proof (cases "present marker")
    case True
    with assms(2) show ?thesis by (simp add: choose_session_iff)
  next
    case False
    then have "\<exists>n \<in> set carried. s = session_id_for n"
      using assms(2) by (cases "length carried = 1")
        (auto simp: choose_session_iff newest_of_def length_Suc_conv split: if_splits)
    then obtain n where "n \<in> set carried" and "s = session_id_for n" by blast
    then show ?thesis using assms(1) by (simp add: transcript_name_roundtrip)
  qed
  then show ?thesis by (simp add: session_name_roundtrip)
qed

subsection \<open>Witnesses\<close>

theorem chosen_session_is_carried_witness:
  "\<exists>s. sc_session (choose_session ''lead'' [''a.jsonl'', ''b.jsonl''] (Some ''b'') (\<lambda>_. None)) = Some s \<and>
     transcript_name_for s \<in> set [''a.jsonl'', ''b.jsonl'']"
proof -
  have c: "sc_session (choose_session ''lead'' [''a.jsonl'', ''b.jsonl''] (Some ''b'') (\<lambda>_. None)) = Some ''b''"
    by (simp add: choose_session_iff transcript_name_for_def)
  have "\<forall>n \<in> set [''a.jsonl'', ''b.jsonl'']. is_transferable n \<and> CHR ''/'' \<notin> set n"
    by (simp add: is_transferable_def basename_plain CREDENTIAL_BASENAMES_def ends_with_def)
  from chosen_session_is_carried [OF this c] c show ?thesis by blast
qed

theorem session_never_guessed_witness:
  "sc_session (choose_session ''lead'' [''a.jsonl'', ''b.jsonl''] None (\<lambda>_. Some 1)) \<noteq> Some ''a''"
  using session_never_guessed [of "''lead''" "[''a.jsonl'', ''b.jsonl'']" None "\<lambda>_. Some 1" "''a''"] by simp

end
