(* ===== verification/Binds.thy ===== *)
theory Binds
  imports Prelude
begin

text \<open>
  What a missing bind source is, from the shape of its path alone
  (\<open>_lifecycle/_relocate_bind_kind.py\<close>).
\<close>

abbreviation ACTION_PROVISION :: string where "ACTION_PROVISION \<equiv> ''provision on the target''"
abbreviation ACTION_CARRY :: string where "ACTION_CARRY \<equiv> ''must travel with the agent''"
abbreviation ACTION_DECIDE :: string where "ACTION_DECIDE \<equiv> ''decide: provision or carry''"

abbreviation KIND_CREDENTIAL :: string where "KIND_CREDENTIAL \<equiv> ''credential''"
abbreviation KIND_AGENT_LOCAL :: string where "KIND_AGENT_LOCAL \<equiv> ''agent-local''"
abbreviation KIND_HOST_INFRA :: string where "KIND_HOST_INFRA \<equiv> ''host-infra''"
abbreviation KIND_UNCLASSIFIED :: string where "KIND_UNCLASSIFIED \<equiv> ''unclassified''"

definition CREDENTIAL_COMPONENTS :: "string list" where
  "CREDENTIAL_COMPONENTS = [''.ssh'', ''.gnupg'', ''.aws'', ''.azure'', ''.docker'', ''accounts'',
     ''gh'', ''secrets'']"

definition CREDENTIAL_NAMES :: "string list" where
  "CREDENTIAL_NAMES = [''.credentials.json'', ''credentials.json'', ''.pgpass'', ''.netrc'',
     ''.env'', ''.envrc'', ''id_rsa'', ''id_ed25519'']"

definition INFRA_ROOTS :: "string list" where
  "INFRA_ROOTS = [''data'', ''gpfs'', ''mnt'', ''media'', ''scratch'', ''nfs'', ''net'', ''srv'',
     ''share'', ''shared'', ''opt'', ''usr'', ''var'', ''etc'', ''proc'', ''sys'', ''dev'', ''run'']"

definition AGENT_DATA_COMPONENTS :: "string list" where
  "AGENT_DATA_COMPONENTS = [''dataset'', ''datasets'']"

record bind_path =
  bp_path :: string
  bp_kind :: string
  bp_action :: string
  bp_because :: msg
  bp_fix :: msg

definition path_parts :: "string \<Rightarrow> string list" where
  "path_parts p = filter (\<lambda>x. x \<noteq> [] \<and> x \<noteq> ''.'') (split_on (CHR ''/'') (strip p))"

definition is_under :: "string \<Rightarrow> string \<Rightarrow> bool" where
  "is_under path base =
     (if base = [] then False
      else let p = path_parts path; r = path_parts base in
        length r \<le> length p \<and> take (length r) p = r)"

definition is_beside :: "string \<Rightarrow> string \<Rightarrow> bool" where
  "is_beside path workdir =
     (let parent = join_with ''/'' (butlast (path_parts workdir)) in
      if parent = [] then False
      else is_under path (''/'' @ parent) \<and> \<not> is_under path workdir)"

definition classify_bind :: "string \<Rightarrow> string \<Rightarrow> string \<Rightarrow> bind_path" where
  "classify_bind path workdir from_host =
     (let whence = (if from_host = [] then ''the source'' else from_host);
          parts = path_parts path;
          name = (if parts = [] then [] else last parts) in
      if name \<in> set CREDENTIAL_NAMES \<or> set parts \<inter> set CREDENTIAL_COMPONENTS \<noteq> {} then
        \<lparr>bp_path = path, bp_kind = KIND_CREDENTIAL, bp_action = ACTION_PROVISION,
         bp_because = Txt ''the path names key material'',
         bp_fix = Fmt ''provision the TARGET's own copy, do NOT copy it'' [Txt path, Txt whence]\<rparr>
      else if set parts \<inter> set AGENT_DATA_COMPONENTS \<noteq> {} then
        \<lparr>bp_path = path, bp_kind = KIND_AGENT_LOCAL, bp_action = ACTION_CARRY,
         bp_because = Txt ''the path holds a dataset directory'',
         bp_fix = Fmt ''move to the target with the agent'' [Txt path]\<rparr>
      else if workdir \<noteq> [] \<and> (is_under path workdir \<or> is_beside path workdir) then
        \<lparr>bp_path = path, bp_kind = KIND_AGENT_LOCAL, bp_action = ACTION_CARRY,
         bp_because = Fmt ''the path sits relative to the agent's own workdir''
           [Txt (if is_under path workdir then ''under'' else ''beside''), Txt workdir],
         bp_fix = Fmt ''move to the target with the agent, or clone it'' [Txt path, Txt whence]\<rparr>
      else if parts \<noteq> [] \<and> hd parts \<in> set INFRA_ROOTS then
        \<lparr>bp_path = path, bp_kind = KIND_HOST_INFRA, bp_action = ACTION_PROVISION,
         bp_because = Fmt ''a filesystem the host provides'' [Txt (hd parts)],
         bp_fix = Fmt ''provision or mount on the target'' [Txt path]\<rparr>
      else
        \<lparr>bp_path = path, bp_kind = KIND_UNCLASSIFIED, bp_action = ACTION_DECIDE,
         bp_because = Txt ''the path's shape does not say'',
         bp_fix = Fmt ''look and decide'' [Txt path, Txt whence]\<rparr>)"

definition classify_binds :: "string list \<Rightarrow> string \<Rightarrow> string \<Rightarrow> bind_path list" where
  "classify_binds paths workdir from_host = map (\<lambda>p. classify_bind p workdir from_host) paths"

definition BIND_ACTIONS :: "string list" where
  "BIND_ACTIONS = [ACTION_PROVISION, ACTION_CARRY, ACTION_DECIDE]"

definition group_by_action :: "bind_path list \<Rightarrow> (string \<times> bind_path list) list" where
  "group_by_action classified =
     filter (\<lambda>(a, members). members \<noteq> [])
       (map (\<lambda>a. (a, filter (\<lambda>b. bp_action b = a) classified)) BIND_ACTIONS)"

lemma classify_bind_path [simp]: "bp_path (classify_bind p w h) = p"
  by (simp add: classify_bind_def Let_def)

lemma classify_bind_action: "bp_action (classify_bind p w h) \<in> set BIND_ACTIONS"
  by (simp add: classify_bind_def BIND_ACTIONS_def Let_def)

lemma distinct_BIND_ACTIONS: "distinct BIND_ACTIONS"
  by (simp add: BIND_ACTIONS_def)

lemma path_parts_free: "x \<in> set (path_parts p) \<Longrightarrow> CHR ''/'' \<notin> set x"
  by (auto simp: path_parts_def dest: split_on_sep_free)

text \<open>
  Grouping over a list of distinct keys loses nothing and repeats nothing: the plan, which
  groups its items the same way, uses this too.
\<close>

lemma mem_groups_iff:
  assumes "\<forall>x \<in> set xs. key x \<in> set ks"
  shows "x \<in> set (concat (map snd (filter (\<lambda>(a, ms). ms \<noteq> [])
    (map (\<lambda>a. (a, filter (\<lambda>b. key b = a) xs)) ks)))) \<longleftrightarrow> x \<in> set xs"
  using assms by (force simp: filter_empty_conv)

lemma length_groups:
  assumes "distinct ks"
  shows "length (concat (map snd (filter (\<lambda>(a, ms). ms \<noteq> [])
    (map (\<lambda>a. (a, filter (\<lambda>b. key b = a) xs)) ks)))) = length (filter (\<lambda>b. key b \<in> set ks) xs)"
  using assms
proof (induction ks)
  case (Cons k ks)
  have "length (filter (\<lambda>b. key b \<in> set (k # ks)) xs)
      = length (filter (\<lambda>b. key b = k) xs) + length (filter (\<lambda>b. key b \<in> set ks) xs)"
    using Cons.prems by (induction xs) auto
  with Cons show ?case by simp
qed simp

subsection \<open>Properties\<close>

text \<open>
  A path that names key material is never classified as something that travels with the
  agent: whatever the workdir is and wherever the path lies, it is to be provisioned on the
  target, while the agent's own material outside such places is to be carried.
\<close>

theorem credentials_never_travel:
  "bp_action (classify_bind path workdir from_host) = ACTION_CARRY \<longleftrightarrow>
     (path_parts path \<noteq> [] \<longrightarrow> last (path_parts path) \<notin> set CREDENTIAL_NAMES) \<and>
     set (path_parts path) \<inter> set CREDENTIAL_COMPONENTS = {} \<and>
     (set (path_parts path) \<inter> set AGENT_DATA_COMPONENTS \<noteq> {} \<or>
       workdir \<noteq> [] \<and> (is_under path workdir \<or> is_beside path workdir))"
proof -
  have "[] \<notin> set CREDENTIAL_NAMES" by (simp add: CREDENTIAL_NAMES_def)
  then show ?thesis by (auto simp: classify_bind_def Let_def)
qed

text \<open>
  Grouping the classified paths by what to do about them loses none and repeats none: the
  groups together hold each path once, every member of a group calls for that group's action, and
  no group is empty.
\<close>

theorem grouping_is_a_partition:
  "set (concat (map snd (group_by_action (classify_binds paths workdir from_host))))
     = set (classify_binds paths workdir from_host) \<and>
   length (concat (map snd (group_by_action (classify_binds paths workdir from_host)))) = length paths \<and>
   (\<forall>(a, ms) \<in> set (group_by_action (classify_binds paths workdir from_host)).
      ms \<noteq> [] \<and> (\<forall>b \<in> set ms. bp_action b = a))"
proof (intro conjI)
  let ?bs = "classify_binds paths workdir from_host"
  have all: "\<forall>b \<in> set ?bs. bp_action b \<in> set BIND_ACTIONS"
    using classify_bind_action by (auto simp: classify_binds_def)
  show "set (concat (map snd (group_by_action ?bs))) = set ?bs"
    unfolding group_by_action_def using mem_groups_iff [OF all] by blast
  have "filter (\<lambda>b. bp_action b \<in> set BIND_ACTIONS) ?bs = ?bs"
    using all by (simp add: filter_id_conv)
  then show "length (concat (map snd (group_by_action ?bs))) = length paths"
    unfolding group_by_action_def using length_groups [OF distinct_BIND_ACTIONS, of bp_action ?bs]
    by (simp add: classify_binds_def)
  show "\<forall>(a, ms) \<in> set (group_by_action ?bs). ms \<noteq> [] \<and> (\<forall>b \<in> set ms. bp_action b = a)"
    by (auto simp: group_by_action_def)
qed

theorem credentials_never_travel_witness:
  "bp_action (classify_bind ''/home/u/work/accounts/x'' ''/home/u/work'' ''nas'') \<noteq> ACTION_CARRY"
  using credentials_never_travel [of "''/home/u/work/accounts/x''" "''/home/u/work''" "''nas''"]
  by (simp add: path_parts_def py_string CREDENTIAL_COMPONENTS_def)

theorem grouping_is_a_partition_witness:
  "length (concat (map snd (group_by_action (classify_binds [''/data/a'', ''/x''] [] [])))) = 2"
  using grouping_is_a_partition [of "[''/data/a'', ''/x'']" "[]" "[]"] by simp

end
