(* ===== verification/Source_Work.thy ===== *)
theory Source_Work
  imports Prelude
begin

text \<open>
  What a relocation would leave behind: the work found in a repository on the source
  (\<open>_lifecycle/_relocate_source_scan.py\<close>) and the record of where to go back to
  (\<open>_relocate_origin.py\<close>).
\<close>

record repo_work =
  rw_path :: string
  rw_branch :: string
  rw_uncommitted :: "int option"
  rw_unpushed :: "int option"

text \<open>\<open>RepoWork.__post_init__\<close>.\<close>

definition mk_repo_work :: "string \<Rightarrow> string \<Rightarrow> int option \<Rightarrow> int option \<Rightarrow> repo_work result" where
  "mk_repo_work path branch uncommitted unpushed =
     (if path = [] then Inl (ValueError ''RepoWork.path must be non-empty'')
      else if (case uncommitted of None \<Rightarrow> False | Some n \<Rightarrow> n < 0)
        then Inl (ValueError ''RepoWork.uncommitted must be >= 0 or None'')
      else if (case unpushed of None \<Rightarrow> False | Some n \<Rightarrow> n < 0)
        then Inl (ValueError ''RepoWork.unpushed must be >= 0 or None'')
      else Inr \<lparr>rw_path = path, rw_branch = branch, rw_uncommitted = uncommitted,
        rw_unpushed = unpushed\<rparr>)"

text \<open>\<open>bool(count)\<close> of a count that may be \<open>None\<close>.\<close>

definition counted :: "int option \<Rightarrow> bool" where
  "counted n = (case n of None \<Rightarrow> False | Some k \<Rightarrow> k \<noteq> 0)"

definition has_work :: "repo_work \<Rightarrow> tri" where
  "has_work r =
     (if rw_uncommitted r = None \<and> rw_unpushed r = None then None
      else Some (counted (rw_uncommitted r) \<or> counted (rw_unpushed r)))"

subsection \<open>Scanning the source\<close>

record command_result =
  cr_stdout :: string
  cr_stderr :: string
  cr_exit_code :: int

definition cr_ok :: "command_result \<Rightarrow> bool" where
  "cr_ok r \<longleftrightarrow> cr_exit_code r = 0"

text \<open>\<open>runner\<close> is git, asked three questions about one repository.\<close>

text \<open>The commits of HEAD its upstream branch does not have.\<close>

abbreviation UPSTREAM_RANGE :: string where "UPSTREAM_RANGE \<equiv> ''@'' @ ''{u}..HEAD''"

definition scan_repo :: "(string list \<Rightarrow> command_result) \<Rightarrow> string \<Rightarrow> repo_work result" where
  "scan_repo runner path =
     (if path = [] then Inl (ValueError ''scan_repo needs a repo path'')
      else
       (let branch_run = runner [''git'', ''-C'', path, ''rev-parse'', ''--abbrev-ref'', ''HEAD''];
            branch = (if cr_ok branch_run then strip (cr_stdout branch_run) else []);
            status_run = runner [''git'', ''-C'', path, ''status'', ''--porcelain''];
            uncommitted = (if cr_ok status_run
              then Some (int (length (filter (\<lambda>ln. strip ln \<noteq> []) (splitlines (cr_stdout status_run)))))
              else None);
            ahead_run = runner [''git'', ''-C'', path, ''rev-list'', ''--count'', UPSTREAM_RANGE];
            unpushed = (if cr_ok ahead_run then int_or_none (cr_stdout ahead_run) else None)
        in mk_repo_work path branch uncommitted unpushed))"

definition scan_source :: "(string list \<Rightarrow> command_result) \<Rightarrow> string list \<Rightarrow> repo_work list result" where
  "scan_source runner paths =
     foldr (\<lambda>p rest. bind_result (scan_repo runner p) (\<lambda>r. bind_result rest (\<lambda>rs. Inr (r # rs)))) paths (Inr [])"

lemma scan_repo_returns:
  assumes "path \<noteq> []"
  shows "\<exists>r. scan_repo runner path = Inr r \<and> rw_path r = path \<and>
    rw_uncommitted r = (let run = runner [''git'', ''-C'', path, ''status'', ''--porcelain''] in
      if cr_ok run then Some (int (length (filter (\<lambda>ln. strip ln \<noteq> []) (splitlines (cr_stdout run)))))
      else None) \<and>
    rw_unpushed r = (let run = runner [''git'', ''-C'', path, ''rev-list'', ''--count'', UPSTREAM_RANGE] in
      if cr_ok run then int_or_none (cr_stdout run) else None)"
  using assms by (auto simp: scan_repo_def mk_repo_work_def Let_def split: option.splits
      dest: int_or_none_nonneg)

subsection \<open>The way back\<close>

record origin_record =
  or_agent :: string
  or_from_host :: string
  or_to_host :: string
  or_at :: time
  or_workdir :: string
  or_state_dir :: string
  or_session_uuid :: string
  or_transcript_path :: string
  or_transcript_carried :: tri
  or_repos :: "repo_work list"
  or_notes :: "string list"

text \<open>\<open>OriginRecord.__post_init__\<close>.\<close>

definition origin_record_ok :: "origin_record \<Rightarrow> bool" where
  "origin_record_ok r \<longleftrightarrow> or_agent r \<noteq> [] \<and> or_from_host r \<noteq> [] \<and> or_to_host r \<noteq> [] \<and>
     or_from_host r \<noteq> or_to_host r \<and>
     (or_workdir r \<noteq> [] \<or> or_state_dir r \<noteq> [] \<or> or_transcript_path r \<noteq> [] \<or> or_repos r \<noteq> [])"

definition repos_with_work :: "origin_record \<Rightarrow> repo_work list" where
  "repos_with_work r = filter (\<lambda>w. has_work w = Yes) (or_repos r)"

definition repos_unmeasured :: "origin_record \<Rightarrow> repo_work list" where
  "repos_unmeasured r = filter (\<lambda>w. has_work w = None) (or_repos r)"

text \<open>One line per repository with work: its path, its branch and the counts that are not zero.\<close>

definition counts_of :: "string \<Rightarrow> string \<Rightarrow> repo_work \<Rightarrow> msg list" where
  "counts_of un ahead w =
     (if counted (rw_uncommitted w) then [Fmt un [Num (the (rw_uncommitted w))]] else []) @
     (if counted (rw_unpushed w) then [Fmt ahead [Num (the (rw_unpushed w))]] else [])"

definition work_line :: "string \<Rightarrow> string \<Rightarrow> string \<Rightarrow> repo_work \<Rightarrow> msg" where
  "work_line form un ahead w = Fmt form [Txt (rw_path w),
     (if rw_branch w \<noteq> [] then Fmt '' on '' [Txt (rw_branch w)] else empty_msg),
     Fmt '', '' (counts_of un ahead w)]"

definition recovery_lines :: "origin_record \<Rightarrow> msg list" where
  "recovery_lines r =
     [Fmt ''ORIGIN'' [Txt (or_agent r), Txt (or_from_host r), Txt (or_to_host r), Sec (or_at r)],
      Fmt ''  ssh'' [Txt (or_from_host r)]]
     @ (if or_workdir r \<noteq> [] then [Fmt ''  workdir'' [Txt (or_workdir r)]] else [])
     @ (if or_state_dir r \<noteq> [] then [Fmt ''  state dir'' [Txt (or_state_dir r)]] else [])
     @ (if or_session_uuid r \<noteq> [] then [Fmt ''  session'' [Txt (or_session_uuid r)]] else [])
     @ (if or_transcript_path r \<noteq> [] then
          [Fmt ''  transcript'' [Txt (or_transcript_path r),
             (case or_transcript_carried r of
                Some True \<Rightarrow> Txt ''verified on the target''
              | Some False \<Rightarrow> Txt ''NOT carried''
              | None \<Rightarrow> Txt ''UNKNOWN whether it arrived'')]] else [])
     @ (if repos_with_work r \<noteq> [] then
          Txt ''  UNSAVED WORK left on the source:''
            # map (work_line ''    '' ''uncommitted'' ''unpushed'') (repos_with_work r) else [])
     @ (if repos_unmeasured r \<noteq> [] then
          Txt ''  NOT MEASURED (go and look)''
            # map (\<lambda>w. Fmt ''    '' [Txt (rw_path w)]) (repos_unmeasured r) else [])
     @ map (\<lambda>n. Fmt ''  note'' [Txt n]) (or_notes r)"

subsection \<open>Properties\<close>

text \<open>
  A recovery record names the machine to go back to and every repository that may hold work:
  one line with its counts for a repository known to hold some, one line under NOT MEASURED for a
  repository nothing is known of, so only repositories read as clean are left out.
\<close>

theorem recovery_names_all_work:
  "Fmt ''  ssh'' [Txt (or_from_host r)] \<in> set (recovery_lines r) \<and>
   (\<forall>w \<in> set (or_repos r).
      (has_work w = Yes \<longrightarrow> work_line ''    '' ''uncommitted'' ''unpushed'' w \<in> set (recovery_lines r) \<and>
         counts_of ''uncommitted'' ''unpushed'' w \<noteq> []) \<and>
      (has_work w = None \<longrightarrow> Fmt ''    '' [Txt (rw_path w)] \<in> set (recovery_lines r) \<and>
         rw_uncommitted w = None \<and> rw_unpushed w = None))"
proof (intro conjI ballI impI)
  show "Fmt ''  ssh'' [Txt (or_from_host r)] \<in> set (recovery_lines r)"
    by (simp add: recovery_lines_def)
  fix w assume w: "w \<in> set (or_repos r)"
  show "work_line ''    '' ''uncommitted'' ''unpushed'' w \<in> set (recovery_lines r)" if "has_work w = Yes"
  proof -
    have "w \<in> set (repos_with_work r)" using w that by (simp add: repos_with_work_def)
    moreover from this have "repos_with_work r \<noteq> []" by auto
    ultimately show ?thesis by (simp add: recovery_lines_def)
  qed
  show "counts_of ''uncommitted'' ''unpushed'' w \<noteq> []" if "has_work w = Yes"
    using that by (auto simp: has_work_def counts_of_def split: if_splits)
  show "Fmt ''    '' [Txt (rw_path w)] \<in> set (recovery_lines r)" if "has_work w = None"
  proof -
    have "w \<in> set (repos_unmeasured r)" using w that by (simp add: repos_unmeasured_def)
    moreover from this have "repos_unmeasured r \<noteq> []" by auto
    ultimately show ?thesis by (simp add: recovery_lines_def)
  qed
  show "rw_uncommitted w = None" "rw_unpushed w = None" if "has_work w = None"
    using that by (auto simp: has_work_def split: if_splits)
qed

subsection \<open>Witnesses\<close>

theorem recovery_names_all_work_witness:
  "Fmt ''    '' [Txt ''/p''] \<in> set (recovery_lines \<lparr>or_agent = ''lead'', or_from_host = ''nas'',
     or_to_host = ''gpu'', or_at = 0, or_workdir = [], or_state_dir = [], or_session_uuid = [],
     or_transcript_path = [], or_transcript_carried = None,
     or_repos = [\<lparr>rw_path = ''/p'', rw_branch = [], rw_uncommitted = None, rw_unpushed = None\<rparr>],
     or_notes = []\<rparr>)"
  using recovery_names_all_work [of "\<lparr>or_agent = ''lead'', or_from_host = ''nas'',
     or_to_host = ''gpu'', or_at = 0, or_workdir = [], or_state_dir = [], or_session_uuid = [],
     or_transcript_path = [], or_transcript_carried = None,
     or_repos = [\<lparr>rw_path = ''/p'', rw_branch = [], rw_uncommitted = None, rw_unpushed = None\<rparr>],
     or_notes = []\<rparr>"] by (simp add: has_work_def)

end
