(* ===== verification/Checks.thy ===== *)
theory Checks
  imports Lease_Readiness Session_Choice Binds Source_Work
begin

text \<open>
  The seventeen questions a relocation must answer before anything is stopped
  (\<open>_lifecycle/_relocate_checks.py\<close>, \<open>_relocate_checks_late.py\<close>, \<open>_relocate_checks_sac.py\<close>,
  \<open>_relocate_checks_spec.py\<close>), over the observed facts of \<open>_relocate_preflight_facts.py\<close>. A fact
  that was not observed is \<open>None\<close>.
\<close>

record check =
  ck_name :: string
  ck_ok :: tri
  ck_detail :: msg
  ck_hint :: msg

text \<open>\<open>Check.__post_init__\<close>.\<close>

definition check_ok :: "check \<Rightarrow> bool" where
  "check_ok c \<longleftrightarrow> ck_name c \<noteq> [] \<and> truthy (ck_detail c) \<and> (ck_ok c \<noteq> Yes \<longrightarrow> truthy (ck_hint c))"

abbreviation passes :: "string \<Rightarrow> msg \<Rightarrow> check" where
  "passes n d \<equiv> \<lparr>ck_name = n, ck_ok = Yes, ck_detail = d, ck_hint = empty_msg\<rparr>"

abbreviation fails :: "string \<Rightarrow> msg \<Rightarrow> msg \<Rightarrow> check" where
  "fails n d h \<equiv> \<lparr>ck_name = n, ck_ok = No, ck_detail = d, ck_hint = h\<rparr>"

abbreviation unanswered :: "string \<Rightarrow> msg \<Rightarrow> msg \<Rightarrow> check" where
  "unanswered n d h \<equiv> \<lparr>ck_name = n, ck_ok = Unknown, ck_detail = d, ck_hint = h\<rparr>"

subsection \<open>The facts\<close>

text \<open>\<open>SpecSourceDrift\<close>; its constructor wants a non-empty state.\<close>

record spec_source_drift =
  sd_state :: string
  sd_behind :: int
  sd_ahead :: int
  sd_repo :: string
  sd_upstream :: string
  sd_dirty :: "int option"

record target_facts =
  fa_reachable :: tri
  fa_image_present :: tri
  fa_missing_bind_sources :: "string list option"
  fa_card_store_url :: "string option"
  fa_card_store_reachable :: tri
  fa_credential_expires_in_s :: "time option"
  fa_credential_refresh_token_present :: tri
  fa_supported_runtimes :: "string list option"
  fa_rejected_spec_keys :: "string list option"
  fa_ports_in_use :: "int list option"
  fa_hub_reachable_from_target :: tri
  fa_missing_workdir_paths :: "string list option"
  fa_target_resolved_groups :: "string list option"
  fa_sac_on_path :: tri
  fa_sac_resolved_path :: "string option"
  fa_sac_usable_path :: "string option"
  fa_preamble_declared :: tri
  fa_spec_source_drift :: "spec_source_drift option"

record source_facts =
  so_repos :: "repo_work list option"
  so_transcripts :: "(string \<times> int option) list option"
  so_session_marker :: "string option"

definition no_source_facts :: source_facts where
  "no_source_facts = \<lparr>so_repos = None, so_transcripts = None, so_session_marker = None\<rparr>"

subsection \<open>The target\<close>

abbreviation CHECK_REACHABLE :: string where "CHECK_REACHABLE \<equiv> ''target_reachable''"
abbreviation CHECK_IMAGE :: string where "CHECK_IMAGE \<equiv> ''image_present''"
abbreviation CHECK_BINDS :: string where "CHECK_BINDS \<equiv> ''binds_exist_on_target''"
abbreviation CHECK_CARD_STORE :: string where "CHECK_CARD_STORE \<equiv> ''card_store_reachable''"
abbreviation CHECK_CREDENTIALS :: string where "CHECK_CREDENTIALS \<equiv> ''credentials_valid''"
abbreviation CHECK_RUNTIME :: string where "CHECK_RUNTIME \<equiv> ''runtime_supported''"
abbreviation CHECK_SCHEMA :: string where "CHECK_SCHEMA \<equiv> ''spec_schema_accepted''"
abbreviation CHECK_PORTS :: string where "CHECK_PORTS \<equiv> ''ports_free''"
abbreviation CHECK_HUB_FROM_TARGET :: string where "CHECK_HUB_FROM_TARGET \<equiv> ''hub_reachable_from_target''"
abbreviation CHECK_SOURCE_WORK :: string where "CHECK_SOURCE_WORK \<equiv> ''source_work_committed''"
abbreviation CHECK_SESSION :: string where "CHECK_SESSION \<equiv> ''session_resolvable''"
abbreviation CHECK_LEASE :: string where "CHECK_LEASE \<equiv> ''lease_holdable''"
abbreviation CHECK_TARGET_START :: string where "CHECK_TARGET_START \<equiv> ''target_start_accepts''"
abbreviation CHECK_SAC_PRESENT :: string where "CHECK_SAC_PRESENT \<equiv> ''sac_present_on_target''"
abbreviation CHECK_WORKDIR :: string where "CHECK_WORKDIR \<equiv> ''workdir_exists_on_target''"
abbreviation CHECK_CARD_STORE_DSN :: string where "CHECK_CARD_STORE_DSN \<equiv> ''card_store_dsn_correct''"
abbreviation CHECK_GROUPS :: string where "CHECK_GROUPS \<equiv> ''groups_resolvable_on_target''"

definition unobserved :: "string \<Rightarrow> string \<Rightarrow> check" where
  "unobserved name what = unanswered name (Fmt ''was not observed on the target'' [Txt what])
     (Txt ''run the probe that supplies this fact before deciding'')"

definition check_reachable :: "target_facts \<Rightarrow> string \<Rightarrow> check" where
  "check_reachable f to_host =
     (case fa_reachable f of
        None \<Rightarrow> unobserved CHECK_REACHABLE ''reachability''
      | Some False \<Rightarrow> fails CHECK_REACHABLE (Fmt ''did not answer'' [Txt to_host])
          (Fmt ''check ssh/network'' [Txt to_host])
      | Some True \<Rightarrow> passes CHECK_REACHABLE (Fmt ''answered'' [Txt to_host]))"

definition check_image :: "target_facts \<Rightarrow> string \<Rightarrow> check" where
  "check_image f to_host =
     (case fa_image_present f of
        None \<Rightarrow> unobserved CHECK_IMAGE ''the agent image''
      | Some False \<Rightarrow> fails CHECK_IMAGE (Fmt ''the agent's image is absent'' [Txt to_host])
          (Fmt ''build or copy the SIF'' [Txt to_host])
      | Some True \<Rightarrow> passes CHECK_IMAGE (Txt ''image present''))"

text \<open>The detail is kept letter for letter: the plan parses the paths back out of it.\<close>

definition binds_detail :: "string \<Rightarrow> string list \<Rightarrow> string" where
  "binds_detail to_host missing = ''bind sources absent on '' @ to_host @ '': '' @ join_with '', '' missing"

definition check_binds :: "target_facts \<Rightarrow> string \<Rightarrow> string \<Rightarrow> string \<Rightarrow> check" where
  "check_binds f to_host workdir from_host =
     (case fa_missing_bind_sources f of
        None \<Rightarrow> unobserved CHECK_BINDS ''bind sources''
      | Some [] \<Rightarrow> passes CHECK_BINDS (Txt ''every bind source exists on the target'')
      | Some (p # ps) \<Rightarrow> fails CHECK_BINDS (Txt (binds_detail to_host (p # ps)))
          (Fmt ''these are not one problem'' (map (\<lambda>(action, members).
             Fmt '': '' (Txt action # map (\<lambda>b. Txt (bp_path b)) members))
             (group_by_action (classify_binds (p # ps) workdir from_host)))))"

definition check_card_store :: "target_facts \<Rightarrow> string \<Rightarrow> check" where
  "check_card_store f to_host =
     (case fa_card_store_reachable f of
        None \<Rightarrow> unobserved CHECK_CARD_STORE ''the card store''
      | Some False \<Rightarrow> fails CHECK_CARD_STORE
          (Fmt ''card store not reachable'' [Txt (if present (fa_card_store_url f)
             then the (fa_card_store_url f) else ''(no url recorded)''), Txt to_host])
          (Txt ''set SCITEX_CARDS_DB to the target's own store before relocating'')
      | Some True \<Rightarrow> passes CHECK_CARD_STORE (Fmt ''card store reachable'' [Txt to_host]))"

definition check_credentials :: "target_facts \<Rightarrow> check" where
  "check_credentials f =
     (case (fa_credential_expires_in_s f, fa_credential_refresh_token_present f) of
        (Some secs, Some token) \<Rightarrow>
          if secs \<le> 0 then fails CHECK_CREDENTIALS (Fmt ''target credential expired'' [Sec (abs secs)])
            (Txt ''refresh or replace the target-local credential'')
          else if \<not> token then fails CHECK_CREDENTIALS
            (Txt ''target credential has an empty refreshToken'')
            (Txt ''replace it'')
          else passes CHECK_CREDENTIALS (Fmt ''credential valid for'' [Sec secs])
      | _ \<Rightarrow> unobserved CHECK_CREDENTIALS ''credential validity'')"

definition check_runtime :: "target_facts \<Rightarrow> string \<Rightarrow> check" where
  "check_runtime f runtime =
     (case fa_supported_runtimes f of
        None \<Rightarrow> unobserved CHECK_RUNTIME ''supported runtimes''
      | Some supported \<Rightarrow>
          if runtime \<notin> set supported then fails CHECK_RUNTIME
            (Fmt ''target does not support runtime'' [Txt runtime,
               (if supported = [] then Txt ''(none reported)'' else Fmt '', '' (map Txt supported))])
            (Txt ''either upgrade sac on the target or set the spec's runtime to one it accepts'')
          else passes CHECK_RUNTIME (Fmt ''runtime supported'' [Txt runtime]))"

definition check_schema :: "target_facts \<Rightarrow> check" where
  "check_schema f =
     (case fa_rejected_spec_keys f of
        None \<Rightarrow> unobserved CHECK_SCHEMA ''spec-schema acceptance''
      | Some [] \<Rightarrow> passes CHECK_SCHEMA (Txt ''target's validator accepts the spec'')
      | Some keys \<Rightarrow> fails CHECK_SCHEMA (Fmt ''target's validator rejects spec key(s)'' (map Txt keys))
          (Txt ''remove those keys for the target, or upgrade its sac''))"

definition check_ports :: "target_facts \<Rightarrow> int list \<Rightarrow> check" where
  "check_ports f required_ports =
     (case fa_ports_in_use f of
        None \<Rightarrow> unobserved CHECK_PORTS ''port availability''
      | Some used \<Rightarrow>
          (let clashes = filter (\<lambda>p. p \<in> set used) required_ports in
           if clashes \<noteq> [] then fails CHECK_PORTS
             (Fmt ''port(s) already in use on the target'' (map Num clashes))
             (Txt ''free them or reassign the agent's ports in the spec before relocating'')
           else passes CHECK_PORTS (Txt ''required ports are free on the target'')))"

definition check_hub_from_target :: "target_facts \<Rightarrow> string \<Rightarrow> check" where
  "check_hub_from_target f to_host =
     (case fa_hub_reachable_from_target f of
        None \<Rightarrow> unobserved CHECK_HUB_FROM_TARGET ''hub reachability FROM the target''
      | Some False \<Rightarrow> fails CHECK_HUB_FROM_TARGET (Fmt ''the hub is not reachable from'' [Txt to_host])
          (Txt ''check what the hub's services bind to'')
      | Some True \<Rightarrow> passes CHECK_HUB_FROM_TARGET (Fmt ''hub reachable from'' [Txt to_host]))"

definition check_workdir :: "target_facts \<Rightarrow> string \<Rightarrow> check" where
  "check_workdir f to_host =
     (case fa_missing_workdir_paths f of
        None \<Rightarrow> unanswered CHECK_WORKDIR (Fmt ''whether the workdir exists was not observed'' [Txt to_host])
          (Fmt ''test it before deciding'' [Txt to_host])
      | Some [] \<Rightarrow> passes CHECK_WORKDIR (Fmt ''the agent's workdir exists'' [Txt to_host])
      | Some missing \<Rightarrow> fails CHECK_WORKDIR
          (Fmt ''the agent's workdir does not exist'' (Txt to_host # map Txt missing))
          (Fmt ''create it before relocating'' [Txt to_host]))"

definition check_target_groups :: "target_facts \<Rightarrow> string list \<Rightarrow> string \<Rightarrow> check" where
  "check_target_groups f declared to_host =
     (if declared = [] then passes CHECK_GROUPS (Txt ''the spec declares no groups'')
      else (case fa_target_resolved_groups f of
        None \<Rightarrow> unanswered CHECK_GROUPS
          (Fmt ''whether the target resolves the groups was not observed'' (Txt to_host # map Txt declared))
          (Txt ''ask the target's own sac to resolve them before relocating'')
      | Some [] \<Rightarrow> unanswered CHECK_GROUPS
          (Fmt ''the target resolved NO groups'' (Txt to_host # map Txt declared))
          (Fmt ''upgrade sac and re-run'' [Txt to_host])
      | Some resolved \<Rightarrow>
         (let absent = filter (\<lambda>g. g \<notin> set resolved) declared in
          if absent \<noteq> [] then fails CHECK_GROUPS
            (Fmt ''does not recognise'' [Txt to_host, Fmt '', '' (map Txt (sort resolved)), Fmt '', '' (map Txt absent)])
            (Fmt ''the target answered, and the answer is no'' [Txt to_host])
          else passes CHECK_GROUPS (Fmt ''resolves every declared group'' (Txt to_host # map Txt declared)))))"

subsection \<open>The card store's address\<close>

text \<open>
  \<open>urllib.parse.urlparse(url).port\<close>, with the \<open>ValueError\<close> it raises for a bad port or unbalanced
  brackets as \<open>None\<close>, which is what \<open>_port_of\<close> makes of it. The address is printable ASCII (the
  library strips control characters first), and what stands between brackets is not checked.
\<close>

definition scheme_char :: "char \<Rightarrow> bool" where
  "scheme_char c \<longleftrightarrow> (CHR ''a'' \<le> c \<and> c \<le> CHR ''z'') \<or> (CHR ''A'' \<le> c \<and> c \<le> CHR ''Z'') \<or>
     digit_char c \<or> c = CHR ''+'' \<or> c = CHR ''-'' \<or> c = CHR ''.''"

definition without_scheme :: "string \<Rightarrow> string" where
  "without_scheme url =
     (let scheme = takeWhile (\<lambda>c. c \<noteq> CHR '':'') url in
      if CHR '':'' \<in> set url \<and> scheme \<noteq> [] \<and> (\<forall>c \<in> set scheme. scheme_char c) \<and>
         \<not> digit_char (hd scheme) \<and> hd scheme \<notin> {CHR ''+'', CHR ''-'', CHR ''.''}
      then drop (length scheme + 1) url else url)"

definition netloc_of :: "string \<Rightarrow> string" where
  "netloc_of url =
     (let rest = without_scheme url in
      if starts_with rest ''//'' then takeWhile (\<lambda>c. c \<notin> {CHR ''/'', CHR ''?'', CHR ''#''}) (drop 2 rest)
      else [])"

definition port_text :: "string \<Rightarrow> string" where
  "port_text netloc =
     (let hostinfo = snd (rpartition (CHR ''@'') netloc) in
      if CHR ''['' \<in> set hostinfo then after_first '':'' (after_first '']'' (after_first ''['' hostinfo))
      else after_first '':'' hostinfo)"

definition port_of :: "string \<Rightarrow> int option" where
  "port_of url =
     (let netloc = netloc_of url; port = port_text netloc in
      if (CHR ''['' \<in> set netloc) \<noteq> (CHR '']'' \<in> set netloc) then None
      else if is_digits port \<and> int_of_digits port \<le> 65535 then Some (int_of_digits port)
      else None)"

abbreviation WRONG_CARD_STORE_PORT :: int where "WRONG_CARD_STORE_PORT \<equiv> 5432"
abbreviation FLEET_CARD_STORE_PORT :: int where "FLEET_CARD_STORE_PORT \<equiv> 55432"

definition check_card_store_dsn :: "target_facts \<Rightarrow> check" where
  "check_card_store_dsn f =
     (case fa_card_store_url f of
        None \<Rightarrow> unanswered CHECK_CARD_STORE_DSN
          (Txt ''the card-store DSN this agent would use was not established'')
          (Fmt ''declare SCITEX_CARDS_DB for this agent'' [Num FLEET_CARD_STORE_PORT])
      | Some url \<Rightarrow>
         (case port_of url of
            None \<Rightarrow> fails CHECK_CARD_STORE_DSN (Fmt ''the card-store DSN names no port'' [Txt url])
              (Fmt ''give it a port explicitly'' [Num FLEET_CARD_STORE_PORT])
          | Some port \<Rightarrow>
              if port = WRONG_CARD_STORE_PORT then fails CHECK_CARD_STORE_DSN
                (Fmt ''the card-store DSN names the wrong port'' [Num port, Txt url])
                (Fmt ''change it'' [Num FLEET_CARD_STORE_PORT])
              else if port \<noteq> FLEET_CARD_STORE_PORT then passes CHECK_CARD_STORE_DSN
                (Fmt ''the card-store DSN names another port than the fleet's'' [Num port])
              else passes CHECK_CARD_STORE_DSN
                (Fmt ''the card-store DSN names the fleet's port'' [Num port])))"

subsection \<open>sac on the target\<close>

definition sac_path_hint :: "target_facts \<Rightarrow> string \<Rightarrow> msg" where
  "sac_path_hint f to_host =
     (let found = (if present (fa_sac_resolved_path f) then the (fa_sac_resolved_path f)
        else ''the path it was found at'') in
      if fa_preamble_declared f = Yes then
        Fmt ''do NOT add an env_preamble; fix the one declared'' [Txt to_host, Txt found]
      else if fa_preamble_declared f = Unknown then
        Fmt ''check whether the host declares an env_preamble'' [Txt to_host, Txt found]
      else Fmt ''add an env_preamble exporting its directory'' [Txt to_host, Txt found])"

definition check_sac_present :: "target_facts \<Rightarrow> string \<Rightarrow> check" where
  "check_sac_present f to_host =
     (if present (fa_sac_usable_path f) then passes CHECK_SAC_PRESENT
        (Fmt ''sac is reachable under the relocation's own PATH'' [Txt to_host,
          Txt (the (fa_sac_usable_path f)),
          (if fa_preamble_declared f = Yes \<and> fa_sac_on_path f \<noteq> Yes
           then Txt '' (via the peer's env_preamble)'' else empty_msg)])
      else if fa_sac_on_path f = Yes then passes CHECK_SAC_PRESENT
        (Fmt ''sac is on the non-interactive ssh PATH'' [Txt to_host,
          (if present (fa_sac_resolved_path f) then Txt (the (fa_sac_resolved_path f)) else empty_msg)])
      else if fa_sac_usable_path f = None \<and> fa_sac_on_path f = Unknown then
        unobserved CHECK_SAC_PRESENT ''whether sac is on the target's ssh PATH''
      else if fa_sac_usable_path f = None \<and> fa_preamble_declared f = Yes then
        unanswered CHECK_SAC_PRESENT (Fmt ''the effect of the env_preamble was not measured'' [Txt to_host])
          (Fmt ''measure the PATH the relocation actually uses'' [Txt to_host])
      else if fa_sac_resolved_path f = None then
        unanswered CHECK_SAC_PRESENT (Fmt ''whether sac is installed at all was not established'' [Txt to_host])
          (Fmt ''look for it directly'' [Txt to_host])
      else if fa_sac_resolved_path f = Some [] then
        fails CHECK_SAC_PRESENT (Fmt ''sac is NOT INSTALLED'' [Txt to_host])
          (Fmt ''install sac'' [Txt to_host])
      else
        fails CHECK_SAC_PRESENT (Fmt ''sac IS INSTALLED and is not reachable''
          [Txt to_host, Txt (the (fa_sac_resolved_path f))]) (sac_path_hint f to_host))"

abbreviation stale_state :: "string \<Rightarrow> bool" where
  "stale_state st \<equiv> st = ''behind'' \<or> st = ''diverged''"

definition check_target_start :: "target_facts \<Rightarrow> string \<Rightarrow> string \<Rightarrow> check" where
  "check_target_start f to_host agent =
     (case fa_spec_source_drift f of
        None \<Rightarrow> unanswered CHECK_TARGET_START
          (Fmt ''was not asked whether its own sac would start'' [Txt to_host, Txt agent])
          (Fmt ''ask it'' [Txt to_host])
      | Some d \<Rightarrow>
         (let repo = (if sd_repo d = [] then ''<the target's spec-source repo>'' else sd_repo d);
              dirty = (case sd_dirty d of None \<Rightarrow> empty_msg | Some n \<Rightarrow> Fmt '' modified file(s)'' [Num n]) in
          if \<not> stale_state (sd_state d) then passes CHECK_TARGET_START
            (Fmt ''the start-time drift guard would not refuse''
              [Txt to_host, Txt (sd_state d), Txt (sd_upstream d), dirty])
          else fails CHECK_TARGET_START
            (Fmt ''sac would REFUSE to start'' [Txt to_host, Txt agent, Txt (sd_state d),
               Num (sd_behind d), Num (sd_ahead d),
               Txt (if sd_upstream d = [] then ''upstream'' else sd_upstream d), dirty, Txt repo])
            (Fmt ''fix it before relocating, not after'' [Txt to_host, Txt repo,
               (if counted (sd_dirty d) then Fmt ''modified file(s), commit or stash them''
                  [Num (the (sd_dirty d))] else empty_msg)])))"

subsection \<open>The source\<close>

text \<open>\<open>dict(source.transcripts)\<close>: the last entry of a name wins.\<close>

definition check_session_resolvable :: "source_facts \<Rightarrow> string \<Rightarrow> check" where
  "check_session_resolvable so agent =
     (case so_transcripts so of
        None \<Rightarrow> unanswered CHECK_SESSION (Fmt ''the transcripts were not listed'' [Txt agent])
          (Txt ''list the source's project directory before deciding'')
      | Some ts \<Rightarrow>
         (let choice = choose_session agent (map fst ts) (so_session_marker so)
             (\<lambda>n. case map_of (rev ts) n of None \<Rightarrow> None | Some t \<Rightarrow> t) in
          case sc_session choice of
            Some session \<Rightarrow> passes CHECK_SESSION (Fmt ''session would travel''
              [Txt session, Txt (sc_chosen_by choice), Num (int (length (sc_candidates choice)))])
          | None \<Rightarrow> \<lparr>ck_name = CHECK_SESSION,
              ck_ok = (if sc_code choice = SC_UNKNOWN then Unknown else No),
              ck_detail = Fmt ''(code)'' [sc_reason choice, Num (sc_code choice)],
              ck_hint = sc_hint choice\<rparr>))"

definition check_source_work :: "source_facts \<Rightarrow> string \<Rightarrow> check" where
  "check_source_work so from_host =
     (let whence = (if from_host = [] then ''the source'' else from_host) in
      case so_repos so of
        None \<Rightarrow> unanswered CHECK_SOURCE_WORK (Fmt ''un-saved work was not looked for'' [Txt whence])
          (Fmt ''scan the agent's repos'' [Txt whence])
      | Some repos \<Rightarrow>
         (let unmeasured = filter (\<lambda>r. has_work r = None) repos;
              dirty = filter (\<lambda>r. has_work r = Yes) repos in
          if unmeasured \<noteq> [] then unanswered CHECK_SOURCE_WORK
            (Fmt ''un-saved work was not measured for'' (Txt whence # map (\<lambda>r. Txt (rw_path r)) unmeasured))
            (Txt ''run git status and a count in each and record the numbers'')
          else if dirty \<noteq> [] then fails CHECK_SOURCE_WORK
            (Fmt ''un-saved work'' (Txt whence
               # map (work_line ''{path}{branch}: '' ''uncommitted file(s)'' ''unpushed commit(s)'') dirty))
            (Txt ''commit and push it, or stash it deliberately, before moving'')
          else passes CHECK_SOURCE_WORK
            (Fmt ''every repo scanned is committed and pushed'' [Txt whence, Num (int (length repos))])))"

definition check_lease_holdable :: "lease_facts \<Rightarrow> string \<Rightarrow> string \<Rightarrow> check result" where
  "check_lease_holdable f from_host agent =
     (let whence = (if from_host = [] then ''the source'' else from_host) in
      if \<not> lf_read f then Inr (unanswered CHECK_LEASE (Txt ''the lease store was not read'')
        (Txt ''read the agent's record before deciding''))
      else if from_host = [] then Inr (unanswered CHECK_LEASE (Txt ''the host being LEFT is not known'')
        (Txt ''resolve the source host first''))
      else (case lf_now f of
        None \<Rightarrow> Inr (unanswered CHECK_LEASE (Fmt ''the lease row was read with no clock'' [Txt agent])
          (Txt ''supply the moment the store was read''))
      | Some now \<Rightarrow>
          bind_result (handoff_readiness (lf_lease f) from_host now (lf_recorded_holder_running f))
           (\<lambda>v. let store = (if lf_store f = [] then empty_msg else Fmt '' (store)'' [Txt (lf_store f)]);
                    seen = (if truthy (lf_recorded_holder_evidence f)
                      then Fmt '' Observed'' [lf_recorded_holder_evidence f] else empty_msg) in
              Inr (case lv_allowed v of
                Some True \<Rightarrow> passes CHECK_LEASE (Fmt ''{reason}{store}'' [lv_reason v, store])
              | None \<Rightarrow> unanswered CHECK_LEASE (Fmt ''{reason}{store}'' [lv_reason v, store])
                  (Fmt ''look at the holder before moving'' [opt_msg (lv_holder v), Txt agent, Txt whence])
              | Some False \<Rightarrow> fails CHECK_LEASE (Fmt ''{reason}{store}.{seen}'' [lv_reason v, store, seen])
                  (Fmt ''this is the split-brain the lease exists to catch''
                    [opt_msg (lv_holder v), Txt agent])))))"

subsection \<open>What each check wants\<close>

named_theorems checks_def
lemmas [checks_def] = check_reachable_def check_image_def check_binds_def check_card_store_def
  check_credentials_def check_runtime_def check_schema_def check_ports_def check_hub_from_target_def
  check_workdir_def check_target_groups_def check_card_store_dsn_def check_sac_present_def
  check_target_start_def check_session_resolvable_def check_source_work_def unobserved_def

definition card_store_port_ok :: "string option \<Rightarrow> bool" where
  "card_store_port_ok url \<longleftrightarrow> (\<exists>u p. url = Some u \<and> port_of u = Some p \<and> p \<noteq> WRONG_CARD_STORE_PORT)"

lemma sac_path_hint_truthy [simp]: "truthy (sac_path_hint f h)"
  by (simp add: sac_path_hint_def Let_def)

lemma check_name:
  "ck_name (check_reachable f h) = CHECK_REACHABLE" "ck_name (check_image f h) = CHECK_IMAGE"
  "ck_name (check_binds f h w s) = CHECK_BINDS" "ck_name (check_card_store f h) = CHECK_CARD_STORE"
  "ck_name (check_credentials f) = CHECK_CREDENTIALS" "ck_name (check_runtime f rt) = CHECK_RUNTIME"
  "ck_name (check_schema f) = CHECK_SCHEMA" "ck_name (check_ports f ps) = CHECK_PORTS"
  "ck_name (check_hub_from_target f h) = CHECK_HUB_FROM_TARGET" "ck_name (check_workdir f h) = CHECK_WORKDIR"
  "ck_name (check_target_groups f gs h) = CHECK_GROUPS" "ck_name (check_card_store_dsn f) = CHECK_CARD_STORE_DSN"
  "ck_name (check_sac_present f h) = CHECK_SAC_PRESENT" "ck_name (check_target_start f h a) = CHECK_TARGET_START"
  "ck_name (check_session_resolvable so a) = CHECK_SESSION" "ck_name (check_source_work so s) = CHECK_SOURCE_WORK"
  by (simp_all add: checks_def Let_def split: option.splits bool.splits list.splits prod.splits)

lemma check_valid:
  "check_ok (check_reachable f h)" "check_ok (check_image f h)"
  "check_ok (check_binds f h w s)" "check_ok (check_card_store f h)"
  "check_ok (check_credentials f)" "check_ok (check_runtime f rt)"
  "check_ok (check_schema f)" "check_ok (check_ports f ps)"
  "check_ok (check_hub_from_target f h)" "check_ok (check_workdir f h)"
  "check_ok (check_target_groups f gs h)" "check_ok (check_card_store_dsn f)"
  "check_ok (check_sac_present f h)" "check_ok (check_target_start f h a)"
  "check_ok (check_source_work so s)"
  by (simp_all add: checks_def check_ok_def binds_detail_def Let_def
      split: option.splits bool.splits list.splits prod.splits)

lemma check_session_valid: "check_ok (check_session_resolvable so a)"
proof (cases "so_transcripts so")
  case (Some ts)
  let ?c = "choose_session a (map fst ts) (so_session_marker so)
    (\<lambda>n. case map_of (rev ts) n of None \<Rightarrow> None | Some t \<Rightarrow> t)"
  have "session_choice_ok ?c" by (rule choose_session_valid)
  then show ?thesis using Some
    by (cases "sc_session ?c") (simp_all add: check_session_resolvable_def check_ok_def session_choice_ok_def Let_def)
qed (simp add: check_session_resolvable_def check_ok_def)

lemma check_lease_returns:
  "\<exists>c. check_lease_holdable f s a = Inr c \<and> ck_name c = CHECK_LEASE \<and> check_ok c \<and>
     (ck_ok c = Yes \<longleftrightarrow> lf_read f \<and> s \<noteq> [] \<and> (\<exists>now. lf_now f = Some now \<and>
        (case lf_lease f of None \<Rightarrow> True
         | Some l \<Rightarrow> l_holder l = s \<or> is_expired l now \<or> lf_recorded_holder_running f = No)))"
proof (cases "lf_read f \<and> s \<noteq> [] \<and> lf_now f \<noteq> None")
  case True
  then obtain now where now: "lf_now f = Some now" by blast
  obtain v where v: "handoff_readiness (lf_lease f) s now (lf_recorded_holder_running f) = Inr v"
    using readiness_returns True by blast
  have "truthy (lv_reason v)" using readiness_valid [OF v] by (simp add: lease_verdict_ok_def)
  with True now v readiness_yes_iff [OF v] show ?thesis
    by (cases "lv_allowed v = Unknown"; cases "lv_allowed v = Yes")
      (auto simp: check_lease_holdable_def check_ok_def Let_def split: option.splits bool.splits)
next
  case False
  then show ?thesis
    by (auto simp: check_lease_holdable_def check_ok_def Let_def split: option.splits)
qed

lemma check_passes:
  "ck_ok (check_reachable f h) = Yes \<longleftrightarrow> fa_reachable f = Yes"
  "ck_ok (check_image f h) = Yes \<longleftrightarrow> fa_image_present f = Yes"
  "ck_ok (check_binds f h w s) = Yes \<longleftrightarrow> fa_missing_bind_sources f = Some []"
  "ck_ok (check_card_store f h) = Yes \<longleftrightarrow> fa_card_store_reachable f = Yes"
  "ck_ok (check_credentials f) = Yes \<longleftrightarrow> (\<exists>secs. fa_credential_expires_in_s f = Some secs \<and> 0 < secs) \<and>
     fa_credential_refresh_token_present f = Yes"
  "ck_ok (check_runtime f rt) = Yes \<longleftrightarrow> (\<exists>rts. fa_supported_runtimes f = Some rts \<and> rt \<in> set rts)"
  "ck_ok (check_schema f) = Yes \<longleftrightarrow> fa_rejected_spec_keys f = Some []"
  "ck_ok (check_ports f ps) = Yes \<longleftrightarrow> (\<exists>used. fa_ports_in_use f = Some used \<and> set ps \<inter> set used = {})"
  "ck_ok (check_hub_from_target f h) = Yes \<longleftrightarrow> fa_hub_reachable_from_target f = Yes"
  "ck_ok (check_workdir f h) = Yes \<longleftrightarrow> fa_missing_workdir_paths f = Some []"
  "ck_ok (check_target_groups f gs h) = Yes \<longleftrightarrow> gs = [] \<or>
     (\<exists>rs. fa_target_resolved_groups f = Some rs \<and> set gs \<subseteq> set rs)"
  "ck_ok (check_card_store_dsn f) = Yes \<longleftrightarrow> card_store_port_ok (fa_card_store_url f)"
  "ck_ok (check_sac_present f h) = Yes \<longleftrightarrow> present (fa_sac_usable_path f) \<or> fa_sac_on_path f = Yes"
  "ck_ok (check_target_start f h a) = Yes \<longleftrightarrow>
     (\<exists>d. fa_spec_source_drift f = Some d \<and> \<not> stale_state (sd_state d))"
  "ck_ok (check_source_work so s) = Yes \<longleftrightarrow>
     (\<exists>rs. so_repos so = Some rs \<and> (\<forall>r \<in> set rs. has_work r = No))"
proof -
  show "ck_ok (check_source_work so s) = Yes \<longleftrightarrow>
     (\<exists>rs. so_repos so = Some rs \<and> (\<forall>r \<in> set rs. has_work r = No))"
    by (cases "so_repos so") (force simp: check_source_work_def Let_def filter_empty_conv)+
qed (auto simp: checks_def card_store_port_ok_def Let_def filter_empty_conv
      split: option.splits bool.splits list.splits prod.splits)

lemma check_session_passes:
  "ck_ok (check_session_resolvable so a) = Yes \<longleftrightarrow>
     (\<exists>ts s. so_transcripts so = Some ts \<and>
        sc_session (choose_session a (map fst ts) (so_session_marker so)
          (\<lambda>n. case map_of (rev ts) n of None \<Rightarrow> None | Some t \<Rightarrow> t)) = Some s)"
  by (auto simp: check_session_resolvable_def Let_def split: option.splits)

end
