(* ===== verification/Preflight.thy ===== *)
theory Preflight
  imports Checks
begin

text \<open>
  The preflight as a whole: its report and the verdict on it (\<open>_lifecycle/_relocate_preflight.py\<close>,
  \<open>_relocate_preflight_facts.py\<close>), and the plan that says what to do about a report
  (\<open>_relocate_plan.py\<close>).
\<close>

record preflight_report =
  pr_agent :: string
  pr_to_host :: string
  pr_checks :: "check list"

definition mk_report :: "string \<Rightarrow> string \<Rightarrow> check list \<Rightarrow> preflight_report result" where
  "mk_report agent to_host checks =
     (if agent = [] then Inl (ValueError ''PreflightReport.agent must be non-empty'')
      else if to_host = [] then Inl (ValueError ''PreflightReport.to_host must be non-empty'')
      else Inr \<lparr>pr_agent = agent, pr_to_host = to_host, pr_checks = checks\<rparr>)"

definition report_failed :: "preflight_report \<Rightarrow> check list" where
  "report_failed r = filter (\<lambda>c. ck_ok c = No) (pr_checks r)"

definition report_unknown :: "preflight_report \<Rightarrow> check list" where
  "report_unknown r = filter (\<lambda>c. ck_ok c = Unknown) (pr_checks r)"

definition report_ok :: "preflight_report \<Rightarrow> tri" where
  "report_ok r =
     (if report_failed r \<noteq> [] then No else if report_unknown r \<noteq> [] then Unknown else Yes)"

abbreviation UNKNOWN_BLOCKS_RELOCATION :: bool where "UNKNOWN_BLOCKS_RELOCATION \<equiv> True"

definition report_blocks :: "preflight_report \<Rightarrow> bool" where
  "report_blocks r =
     (if report_failed r \<noteq> [] then True else report_unknown r \<noteq> [] \<and> UNKNOWN_BLOCKS_RELOCATION)"

definition blocking_reasons :: "preflight_report \<Rightarrow> msg list" where
  "blocking_reasons r = map (\<lambda>c. Fmt ''{name}: {detail} -> {hint}'' [Txt (ck_name c), ck_detail c, ck_hint c])
     (report_failed r @ report_unknown r)"

definition preflight ::
  "string \<Rightarrow> string \<Rightarrow> target_facts \<Rightarrow> string \<Rightarrow> int list \<Rightarrow> source_facts option \<Rightarrow> string \<Rightarrow>
   lease_facts option \<Rightarrow> string \<Rightarrow> string list \<Rightarrow> preflight_report result" where
  "preflight agent to_host f runtime required_ports source from_host lease workdir declared_groups =
     (let so = (case source of None \<Rightarrow> no_source_facts | Some so \<Rightarrow> so);
          le = (case lease of None \<Rightarrow> no_lease_facts | Some le \<Rightarrow> le) in
      bind_result (check_lease_holdable le from_host agent) (\<lambda>lease_check.
        mk_report agent to_host
          [check_reachable f to_host,
           check_image f to_host,
           check_binds f to_host workdir from_host,
           check_workdir f to_host,
           check_card_store_dsn f,
           check_card_store f to_host,
           check_credentials f,
           check_runtime f runtime,
           check_schema f,
           check_ports f required_ports,
           check_target_groups f declared_groups to_host,
           check_hub_from_target f to_host,
           check_sac_present f to_host,
           check_target_start f to_host agent,
           check_source_work so from_host,
           check_session_resolvable so agent,
           lease_check]))"

lemma report_ok_iff: "report_ok r = Yes \<longleftrightarrow> (\<forall>c \<in> set (pr_checks r). ck_ok c = Yes)"
proof -
  have "ck_ok c = Yes \<longleftrightarrow> \<not> (ck_ok c = No \<or> ck_ok c = Unknown)" for c
    by (cases "ck_ok c") auto
  then show ?thesis
    by (simp only: report_ok_def report_failed_def report_unknown_def filter_empty_conv split: if_split) auto
qed

lemma blocking_reasons_iff: "blocking_reasons r = [] \<longleftrightarrow> report_ok r = Yes"
  by (simp add: blocking_reasons_def report_ok_def)

lemma report_blocks_iff: "report_blocks r \<longleftrightarrow> report_ok r \<noteq> Yes"
  by (simp add: report_blocks_def report_ok_def)

text \<open>What a preflight that passes has established, fact by fact.\<close>

definition target_ready :: "target_facts \<Rightarrow> string \<Rightarrow> int list \<Rightarrow> string list \<Rightarrow> bool" where
  "target_ready f runtime ports groups \<longleftrightarrow>
     fa_reachable f = Yes \<and> fa_image_present f = Yes \<and> fa_missing_bind_sources f = Some [] \<and>
     fa_missing_workdir_paths f = Some [] \<and> card_store_port_ok (fa_card_store_url f) \<and>
     fa_card_store_reachable f = Yes \<and>
     (\<exists>secs. fa_credential_expires_in_s f = Some secs \<and> 0 < secs) \<and>
     fa_credential_refresh_token_present f = Yes \<and>
     (\<exists>rts. fa_supported_runtimes f = Some rts \<and> runtime \<in> set rts) \<and>
     fa_rejected_spec_keys f = Some [] \<and>
     (\<exists>used. fa_ports_in_use f = Some used \<and> set ports \<inter> set used = {}) \<and>
     (groups = [] \<or> (\<exists>rs. fa_target_resolved_groups f = Some rs \<and> set groups \<subseteq> set rs)) \<and>
     fa_hub_reachable_from_target f = Yes \<and>
     (present (fa_sac_usable_path f) \<or> fa_sac_on_path f = Yes) \<and>
     (\<exists>d. fa_spec_source_drift f = Some d \<and> \<not> stale_state (sd_state d))"

text \<open>
  A repository without work found: one of its two counts was measured, and neither is above zero. A count
  that was not measured beside one that was is taken for zero.
\<close>

definition nothing_counted :: "repo_work \<Rightarrow> bool" where
  "nothing_counted r \<longleftrightarrow> (rw_uncommitted r \<noteq> None \<or> rw_unpushed r \<noteq> None) \<and>
     rw_uncommitted r \<in> {None, Some 0} \<and> rw_unpushed r \<in> {None, Some 0}"

lemma nothing_counted_iff: "nothing_counted r \<longleftrightarrow> has_work r = No"
  by (auto simp: nothing_counted_def has_work_def counted_def split: option.splits)

definition source_ready :: "source_facts \<Rightarrow> string \<Rightarrow> bool" where
  "source_ready so agent \<longleftrightarrow>
     (\<exists>rs. so_repos so = Some rs \<and> (\<forall>r \<in> set rs. nothing_counted r)) \<and>
     (\<exists>ts s. so_transcripts so = Some ts \<and>
        sc_session (choose_session agent (map fst ts) (so_session_marker so)
          (\<lambda>n. case map_of (rev ts) n of None \<Rightarrow> None | Some t \<Rightarrow> t)) = Some s)"

definition lease_ready :: "lease_facts \<Rightarrow> string \<Rightarrow> bool" where
  "lease_ready f from_host \<longleftrightarrow> lf_read f \<and> from_host \<noteq> [] \<and> (\<exists>now. lf_now f = Some now \<and>
     (case lf_lease f of None \<Rightarrow> True
      | Some l \<Rightarrow> l_holder l = from_host \<or> is_expired l now \<or> lf_recorded_holder_running f = No))"

lemma preflight_report:
  assumes "agent \<noteq> []" and "to_host \<noteq> []"
  shows "\<exists>r. preflight agent to_host f runtime ports source from_host lease workdir groups = Inr r \<and>
    pr_agent r = agent \<and> pr_to_host r = to_host \<and>
    (\<forall>c \<in> set (pr_checks r). check_ok c) \<and> distinct (map ck_name (pr_checks r)) \<and>
    length (pr_checks r) = 17 \<and>
    (report_ok r = Yes \<longleftrightarrow> target_ready f runtime ports groups \<and>
       source_ready (case source of None \<Rightarrow> no_source_facts | Some so \<Rightarrow> so) agent \<and>
       lease_ready (case lease of None \<Rightarrow> no_lease_facts | Some le \<Rightarrow> le) from_host)"
proof -
  let ?so = "case source of None \<Rightarrow> no_source_facts | Some so \<Rightarrow> so"
  let ?le = "case lease of None \<Rightarrow> no_lease_facts | Some le \<Rightarrow> le"
  obtain lc where lc: "check_lease_holdable ?le from_host agent = Inr lc" "ck_name lc = CHECK_LEASE"
    "check_ok lc" "ck_ok lc = Yes \<longleftrightarrow> lease_ready ?le from_host"
    using check_lease_returns unfolding lease_ready_def by blast
  let ?cs = "[check_reachable f to_host, check_image f to_host, check_binds f to_host workdir from_host,
    check_workdir f to_host, check_card_store_dsn f, check_card_store f to_host, check_credentials f,
    check_runtime f runtime, check_schema f, check_ports f ports, check_target_groups f groups to_host,
    check_hub_from_target f to_host, check_sac_present f to_host, check_target_start f to_host agent,
    check_source_work ?so from_host, check_session_resolvable ?so agent, lc]"
  let ?r = "\<lparr>pr_agent = agent, pr_to_host = to_host, pr_checks = ?cs\<rparr>"
  have "preflight agent to_host f runtime ports source from_host lease workdir groups = Inr ?r"
    using assms lc(1) by (simp add: preflight_def mk_report_def Let_def)
  moreover have "\<forall>c \<in> set ?cs. check_ok c"
    using lc(3) by (simp add: check_valid check_session_valid)
  moreover have "distinct (map ck_name ?cs)"
    using lc(2) by (simp add: check_name)
  moreover have "report_ok ?r = Yes \<longleftrightarrow> target_ready f runtime ports groups \<and> source_ready ?so agent \<and>
      lease_ready ?le from_host"
    using lc(4) by (simp add: report_ok_iff check_passes check_session_passes target_ready_def nothing_counted_iff
        source_ready_def nothing_counted_iff conj_ac)
  ultimately show ?thesis by (intro exI [of _ ?r]) simp
qed

subsection \<open>The plan\<close>

abbreviation ACTION_SPEC :: string where "ACTION_SPEC \<equiv> ''correct the spec''"
abbreviation ACTION_MEASURE :: string where "ACTION_MEASURE \<equiv> ''go and measure''"

definition ACTION_ORDER :: "string list" where
  "ACTION_ORDER = [ACTION_PROVISION, ACTION_CARRY, ACTION_SPEC, ACTION_DECIDE, ACTION_MEASURE]"

definition CHECK_FACTS :: "(string \<times> string list) list" where
  "CHECK_FACTS =
    [(CHECK_REACHABLE, [''reachable'']),
     (CHECK_IMAGE, [''image_present'']),
     (CHECK_BINDS, [''missing_bind_sources'']),
     (CHECK_WORKDIR, [''missing_workdir_paths'']),
     (CHECK_CARD_STORE_DSN, [''card_store_url'']),
     (CHECK_CARD_STORE, [''card_store_reachable'', ''card_store_url'']),
     (CHECK_CREDENTIALS, [''credential_expires_in_s'', ''credential_refresh_token_present'']),
     (CHECK_RUNTIME, [''supported_runtimes'']),
     (CHECK_SCHEMA, [''rejected_spec_keys'']),
     (CHECK_PORTS, [''ports_in_use'']),
     (CHECK_GROUPS, [''target_resolved_groups'']),
     (CHECK_HUB_FROM_TARGET, [''hub_reachable_from_target'']),
     (CHECK_SAC_PRESENT, [''sac_usable_path'', ''sac_on_path'', ''sac_resolved_path'']),
     (CHECK_TARGET_START, [''spec_source_drift'']),
     (CHECK_SOURCE_WORK, [''source_repos'']),
     (CHECK_SESSION, [''source_transcripts'']),
     (CHECK_LEASE, [''lease''])]"

definition FAIL_ACTION :: "(string \<times> string) list" where
  "FAIL_ACTION =
    [(CHECK_REACHABLE, ACTION_PROVISION), (CHECK_IMAGE, ACTION_PROVISION),
     (CHECK_WORKDIR, ACTION_PROVISION), (CHECK_CARD_STORE, ACTION_PROVISION),
     (CHECK_CREDENTIALS, ACTION_PROVISION), (CHECK_PORTS, ACTION_PROVISION),
     (CHECK_HUB_FROM_TARGET, ACTION_PROVISION), (CHECK_SAC_PRESENT, ACTION_PROVISION),
     (CHECK_TARGET_START, ACTION_PROVISION), (CHECK_CARD_STORE_DSN, ACTION_SPEC),
     (CHECK_RUNTIME, ACTION_SPEC), (CHECK_SCHEMA, ACTION_SPEC), (CHECK_GROUPS, ACTION_SPEC),
     (CHECK_SOURCE_WORK, ACTION_CARRY), (CHECK_SESSION, ACTION_CARRY),
     (CHECK_LEASE, ACTION_PROVISION)]"

definition SOURCE_CHECKS :: "string list" where
  "SOURCE_CHECKS = [CHECK_SOURCE_WORK, CHECK_SESSION, CHECK_LEASE]"

record plan_item =
  pi_action :: string
  pi_check :: string
  pi_verdict :: string
  pi_what :: msg
  pi_where :: string
  pi_fix :: msg

record root_cause =
  rc_reason :: string
  rc_checks :: "string list"

record plan =
  pl_causes :: "root_cause list"
  pl_items :: "plan_item list"

definition plan_empty :: "plan \<Rightarrow> bool" where
  "plan_empty p \<longleftrightarrow> pl_causes p = [] \<and> pl_items p = []"

definition plan_by_action :: "plan \<Rightarrow> (string \<times> plan_item list) list" where
  "plan_by_action p = filter (\<lambda>(a, members). members \<noteq> [])
     (map (\<lambda>a. (a, filter (\<lambda>i. pi_action i = a) (pl_items p))) ACTION_ORDER)"

text \<open>
  \<open>why_for_check\<close>: the error of the probe named like the check, else the first error among the
  facts it rests on; an empty error text counts as none.
\<close>

definition error_for :: "(string \<times> string) list \<Rightarrow> string \<Rightarrow> string" where
  "error_for errors k = (case map_of errors k of None \<Rightarrow> [] | Some e \<Rightarrow> e)"

definition why_for_check :: "string \<Rightarrow> (string \<times> string) list \<Rightarrow> string" where
  "why_for_check name errors =
     (if error_for errors name \<noteq> [] then error_for errors name
      else case filter (\<lambda>e. e \<noteq> []) (map (error_for errors)
          (case map_of CHECK_FACTS name of None \<Rightarrow> [] | Some fs \<Rightarrow> fs)) of
        [] \<Rightarrow> [] | e # _ \<Rightarrow> e)"

text \<open>\<open>_paths_from_detail\<close>: what follows the first colon and space, split at commas.\<close>

definition paths_from_detail :: "string \<Rightarrow> string list" where
  "paths_from_detail detail =
     filter (\<lambda>p. p \<noteq> []) (map strip (split_on (CHR '','') (after_first '': '' detail)))"

fun detail_text :: "msg \<Rightarrow> string" where
  "detail_text (Txt s) = s"
| "detail_text _ = []"

definition bind_items :: "check \<Rightarrow> string \<Rightarrow> string \<Rightarrow> string \<Rightarrow> plan_item list" where
  "bind_items c workdir from_host to_host =
     (let classified = classify_binds (paths_from_detail (detail_text (ck_detail c))) workdir from_host in
      concat (map (\<lambda>a. map (\<lambda>b. \<lparr>pi_action = a, pi_check = ck_name c, pi_verdict = ''FAIL'',
          pi_what = Fmt ''{path} ({kind}): {because}'' [Txt (bp_path b), Txt (bp_kind b), bp_because b],
          pi_where = to_host, pi_fix = bp_fix b\<rparr>)
        (filter (\<lambda>b. bp_action b = a) classified)) BIND_ACTIONS))"

definition item_where :: "string \<Rightarrow> string \<Rightarrow> string \<Rightarrow> string" where
  "item_where name from_host to_host =
     (if name \<in> set SOURCE_CHECKS then (if from_host \<noteq> [] then from_host else to_host) else to_host)"

definition failed_items :: "string \<Rightarrow> string \<Rightarrow> string \<Rightarrow> check \<Rightarrow> plan_item list" where
  "failed_items workdir from_host to_host c =
     (if ck_name c = CHECK_BINDS then bind_items c workdir from_host to_host
      else [\<lparr>pi_action = (case map_of FAIL_ACTION (ck_name c) of None \<Rightarrow> ACTION_DECIDE | Some a \<Rightarrow> a),
             pi_check = ck_name c, pi_verdict = ''FAIL'', pi_what = ck_detail c,
             pi_where = item_where (ck_name c) from_host to_host, pi_fix = ck_hint c\<rparr>])"

text \<open>\<open>by_reason\<close>: the unmeasured checks with a known error, grouped by it in order of appearance.\<close>

definition by_reason :: "(string \<times> string) list \<Rightarrow> check list \<Rightarrow> (string \<times> check list) list" where
  "by_reason errors cs =
     map (\<lambda>reason. (reason, filter (\<lambda>c. why_for_check (ck_name c) errors = reason) cs))
       (from_keys (filter (\<lambda>e. e \<noteq> []) (map (\<lambda>c. why_for_check (ck_name c) errors) cs)))"

definition root_causes :: "(string \<times> string) list \<Rightarrow> check list \<Rightarrow> root_cause list" where
  "root_causes errors cs =
     map (\<lambda>(reason, members). \<lparr>rc_reason = reason, rc_checks = map ck_name members\<rparr>)
       (filter (\<lambda>(reason, members). 1 < length members) (by_reason errors cs))"

definition measure_item :: "(string \<times> string) list \<Rightarrow> string \<Rightarrow> string \<Rightarrow> check \<Rightarrow> plan_item" where
  "measure_item errors from_host to_host c =
     (let reason = why_for_check (ck_name c) errors in
      \<lparr>pi_action = ACTION_MEASURE, pi_check = ck_name c, pi_verdict = ''UNKNOWN'',
       pi_what = (if reason = [] then ck_detail c
         else Fmt ''{detail} (probe error)'' [ck_detail c, Txt reason]),
       pi_where = item_where (ck_name c) from_host to_host, pi_fix = ck_hint c\<rparr>)"

definition build_plan ::
  "preflight_report \<Rightarrow> (string \<times> string) list \<Rightarrow> string \<Rightarrow> string \<Rightarrow> plan" where
  "build_plan report errors workdir from_host =
     (let to_host = pr_to_host report;
          causes = root_causes errors (report_unknown report);
          swallowed = concat (map rc_checks causes)
      in \<lparr>pl_causes = causes,
          pl_items = concat (map (failed_items workdir from_host to_host) (report_failed report))
            @ map (measure_item errors from_host to_host)
                (filter (\<lambda>c. ck_name c \<notin> set swallowed) (report_unknown report))\<rparr>)"

subsection \<open>Reading the paths back\<close>

text \<open>A path the report's text can carry: no comma and no blank at either end.\<close>

definition plain_path :: "string \<Rightarrow> bool" where
  "plain_path p \<longleftrightarrow> p \<noteq> [] \<and> CHR '','' \<notin> set p \<and> strip p = p"

lemma paths_roundtrip:
  assumes "\<forall>p \<in> set ps. plain_path p" and "ps \<noteq> []" and "CHR '':'' \<notin> set to_host"
  shows "paths_from_detail (binds_detail to_host ps) = ps"
proof -
  have "after_first '': '' ((''bind sources absent on '' @ to_host) @ '': '' @ join_with '', '' ps)
      = join_with '', '' ps"
    using assms(3) by (intro after_first_skip) auto
  then have "after_first '': '' (binds_detail to_host ps) = join_with '', '' ps"
    by (simp add: binds_detail_def)
  moreover have "split_on (CHR '','') (join_with '', '' ps) = hd ps # map (\<lambda>x. '' '' @ x) (tl ps)"
    using assms(1,2) by (intro split_on_join) (auto simp: plain_path_def)
  moreover have "map strip (hd ps # map (\<lambda>x. '' '' @ x) (tl ps)) = map strip ps"
    using assms(2) by (cases ps) (simp_all add: strip_space)
  moreover have "map strip ps = ps" "filter (\<lambda>p. p \<noteq> []) ps = ps"
    using assms(1) by (auto simp: plain_path_def intro: map_idI filter_True)
  ultimately show ?thesis by (simp add: paths_from_detail_def)
qed

lemma bind_items_paths:
  assumes "ck_detail c = Txt (binds_detail to_host ps)"
    and "\<forall>p \<in> set ps. plain_path p" and "ps \<noteq> []" and "CHR '':'' \<notin> set to_host"
  shows "set (bind_items c workdir from_host to_host) =
    (\<lambda>p. let b = classify_bind p workdir from_host in
      \<lparr>pi_action = bp_action b, pi_check = ck_name c, pi_verdict = ''FAIL'',
       pi_what = Fmt ''{path} ({kind}): {because}'' [Txt p, Txt (bp_kind b), bp_because b],
       pi_where = to_host, pi_fix = bp_fix b\<rparr>) ` set ps"
  using paths_roundtrip [OF assms(2-4)] assms(1) classify_bind_action
  by (fastforce simp: bind_items_def classify_binds_def Let_def image_iff)

subsection \<open>The plan is about the report\<close>

lemma from_keys_map_unique: "reason \<in> set (from_keys xs) \<longleftrightarrow> reason \<in> set xs"
  by simp

lemma in_root_causes:
  "n \<in> set (concat (map rc_checks (root_causes errors cs))) \<Longrightarrow> n \<in> ck_name ` set cs"
  by (auto simp: root_causes_def by_reason_def)

text \<open>Every check a plan is built from is addressed: by an item of its own or by a root cause.\<close>

definition addressed :: "plan \<Rightarrow> string \<Rightarrow> bool" where
  "addressed p name \<longleftrightarrow> name \<in> pi_check ` set (pl_items p) \<or>
     name \<in> set (concat (map rc_checks (pl_causes p)))"

lemma failed_items_check: "i \<in> set (failed_items w s h c) \<Longrightarrow> pi_check i = ck_name c"
  by (auto simp: failed_items_def bind_items_def Let_def split: if_splits)

lemma failed_items_nonempty:
  assumes "ck_name c = CHECK_BINDS \<longrightarrow> paths_from_detail (detail_text (ck_detail c)) \<noteq> []"
  shows "failed_items w s h c \<noteq> []"
proof (cases "ck_name c = CHECK_BINDS")
  case True
  with assms obtain p where "p \<in> set (paths_from_detail (detail_text (ck_detail c)))"
    using True nonempty_mem by blast
  then have "classify_bind p w s \<in> set (classify_binds (paths_from_detail (detail_text (ck_detail c))) w s)"
    by (simp add: classify_binds_def)
  with classify_bind_action [of p w s] show ?thesis
    using True by (auto simp: failed_items_def bind_items_def Let_def filter_empty_conv)
qed (simp add: failed_items_def)

lemma build_plan_parts:
  "pl_causes (build_plan r errors w s) = root_causes errors (report_unknown r)"
  "set (pl_items (build_plan r errors w s)) =
     (\<Union>c \<in> set (report_failed r). set (failed_items w s (pr_to_host r) c)) \<union>
     measure_item errors s (pr_to_host r) ` {c \<in> set (report_unknown r).
        ck_name c \<notin> set (concat (map rc_checks (root_causes errors (report_unknown r))))}"
  by (simp_all only: build_plan_def Let_def plan.simps set_append set_concat set_map set_filter image_image)

lemma measure_item_check [simp]: "pi_check (measure_item errors s h c) = ck_name c"
  by (simp add: measure_item_def Let_def)

lemma plan_addresses:
  assumes "\<forall>c \<in> set (report_failed r). ck_name c = CHECK_BINDS \<longrightarrow>
    paths_from_detail (detail_text (ck_detail c)) \<noteq> []"
  shows "addressed (build_plan r errors w s) name \<longleftrightarrow>
    name \<in> ck_name ` set (report_failed r) \<or> name \<in> ck_name ` set (report_unknown r)"
proof -
  let ?items = "set (pl_items (build_plan r errors w s))"
  let ?sw = "set (concat (map rc_checks (root_causes errors (report_unknown r))))"
  have f: "pi_check ` set (failed_items w s (pr_to_host r) c) = {ck_name c}"
    if "c \<in> set (report_failed r)" for c
  proof -
    have "failed_items w s (pr_to_host r) c \<noteq> []" using assms that by (intro failed_items_nonempty) blast
    then show ?thesis using nonempty_mem failed_items_check by (fastforce simp: image_iff)
  qed
  have "pi_check ` ?items = ck_name ` set (report_failed r) \<union> {n \<in> ck_name ` set (report_unknown r). n \<notin> ?sw}"
    unfolding build_plan_parts image_Un image_UN image_image measure_item_check using f by auto
  moreover have "?sw \<subseteq> ck_name ` set (report_unknown r)" using in_root_causes by blast
  ultimately show ?thesis unfolding addressed_def build_plan_parts(1) by blast
qed

lemma addressed_nothing:
  assumes "\<forall>c \<in> set (pl_causes p). rc_checks c \<noteq> []"
  shows "plan_empty p \<longleftrightarrow> (\<forall>n. \<not> addressed p n)"
proof
  assume none: "\<forall>n. \<not> addressed p n"
  then have "pl_items p = []" using nonempty_mem [of "pl_items p"] by (auto simp: addressed_def)
  moreover have "pl_causes p = []"
  proof (rule ccontr)
    assume "pl_causes p \<noteq> []"
    then obtain c where "c \<in> set (pl_causes p)" using nonempty_mem by blast
    moreover from this assms obtain n where "n \<in> set (rc_checks c)" using nonempty_mem by blast
    ultimately show False using none by (auto simp: addressed_def)
  qed
  ultimately show "plan_empty p" by (simp add: plan_empty_def)
qed (auto simp: plan_empty_def addressed_def)

lemma root_causes_nonempty: "c \<in> set (root_causes errors cs) \<Longrightarrow> 1 < length (rc_checks c)"
  by (auto simp: root_causes_def)

lemma preflight_binds_detail:
  assumes "preflight agent to_host f runtime ports source from_host lease workdir groups = Inr r"
    and "c \<in> set (report_failed r)" and "ck_name c = CHECK_BINDS"
  shows "\<exists>ps. fa_missing_bind_sources f = Some ps \<and> ps \<noteq> [] \<and> ck_detail c = Txt (binds_detail to_host ps)"
proof -
  have h: "agent \<noteq> []" "to_host \<noteq> []" and b: "check_binds f to_host workdir from_host \<in> set (pr_checks r)"
    using assms(1) by (auto simp: preflight_def mk_report_def Let_def bind_result_Inr_iff split: if_splits)
  have d: "distinct (map ck_name (pr_checks r))"
    using preflight_report [OF h, of f runtime ports source from_host lease workdir groups] assms(1) by auto
  have c: "c \<in> set (pr_checks r)" "ck_ok c = No" using assms(2) by (auto simp: report_failed_def)
  have "c = check_binds f to_host workdir from_host"
    using d b c(1) assms(3) by (simp add: distinct_map inj_on_def check_name)
  with c(2) show ?thesis
    by (auto simp: check_binds_def unobserved_def split: option.splits list.splits)
qed

lemma plan_actions:
  assumes "i \<in> set (pl_items (build_plan r errors w s))"
  shows "pi_action i \<in> set ACTION_ORDER"
proof -
  have "map_of FAIL_ACTION n = Some a \<Longrightarrow> a \<in> set ACTION_ORDER" for n a
    by (drule map_of_SomeD) (auto simp: FAIL_ACTION_def ACTION_ORDER_def)
  moreover have "set BIND_ACTIONS \<subseteq> set ACTION_ORDER" "ACTION_DECIDE \<in> set ACTION_ORDER"
    "ACTION_MEASURE \<in> set ACTION_ORDER"
    by (simp_all add: BIND_ACTIONS_def ACTION_ORDER_def)
  ultimately have "i \<in> set (failed_items w s h c) \<Longrightarrow> pi_action i \<in> set ACTION_ORDER" for h c
    by (auto simp: failed_items_def bind_items_def Let_def split: if_splits option.splits)
  with assms \<open>ACTION_MEASURE \<in> set ACTION_ORDER\<close> show ?thesis
    unfolding build_plan_parts by (auto simp: measure_item_def Let_def)
qed

subsection \<open>Properties\<close>

text \<open>
  C32: What the preflight lets through. With the agent and the target named it always returns a
  report of seventeen checks with distinct names, each of which its own constructor accepts; and
  it does not block exactly when the target, the source and the lease are ready. The target: reachable;
  the image there; no bind source and no path of the working directory missing; a card store address
  with a port that is not the known wrong one, and the store reachable; a credential with time left and a
  refresh token; the runtime supported; no key of the spec rejected; no wanted port in use; the
  wanted groups, if any, resolved; the hub reachable from there; a usable path of \<open>sac\<close>, or \<open>sac\<close> on the search
  path; a spec source that is not stale. The source: the repositories were scanned and in each one of
  the two counts of unsaved work was measured and neither is above zero, so a count that was not
  measured beside one that was lets the repository pass (\<open>unpushed_branch_passes\<close>); and a session to
  resume can be chosen. The lease: read, with the time, and unheld, the named source's, expired, or of a
  holder seen not running. It blocks
  exactly when there is a reason to tell.
\<close>

theorem preflight_decides:
  assumes "agent \<noteq> []" and "to_host \<noteq> []"
  shows "\<exists>r. preflight agent to_host f runtime ports source from_host lease workdir groups = Inr r \<and>
    length (pr_checks r) = 17 \<and> distinct (map ck_name (pr_checks r)) \<and>
    (\<forall>c \<in> set (pr_checks r). check_ok c) \<and>
    (\<not> report_blocks r \<longleftrightarrow> target_ready f runtime ports groups \<and>
       source_ready (case source of None \<Rightarrow> no_source_facts | Some so \<Rightarrow> so) agent \<and>
       lease_ready (case lease of None \<Rightarrow> no_lease_facts | Some le \<Rightarrow> le) from_host) \<and>
    (report_blocks r \<longleftrightarrow> blocking_reasons r \<noteq> [])"
proof -
  obtain r where "preflight agent to_host f runtime ports source from_host lease workdir groups = Inr r"
    "length (pr_checks r) = 17" "distinct (map ck_name (pr_checks r))" "\<forall>c \<in> set (pr_checks r). check_ok c"
    "report_ok r = Yes \<longleftrightarrow> target_ready f runtime ports groups \<and>
       source_ready (case source of None \<Rightarrow> no_source_facts | Some so \<Rightarrow> so) agent \<and>
       lease_ready (case lease of None \<Rightarrow> no_lease_facts | Some le \<Rightarrow> le) from_host"
    using preflight_report [OF assms] by blast
  moreover from this have "\<not> report_blocks r \<longleftrightarrow> target_ready f runtime ports groups \<and>
       source_ready (case source of None \<Rightarrow> no_source_facts | Some so \<Rightarrow> so) agent \<and>
       lease_ready (case lease of None \<Rightarrow> no_lease_facts | Some le \<Rightarrow> le) from_host"
    unfolding report_blocks_iff by blast
  moreover have "report_blocks r \<longleftrightarrow> blocking_reasons r \<noteq> []"
    by (simp add: report_blocks_iff blocking_reasons_iff)
  ultimately show ?thesis by blast
qed

text \<open>
  The plan is complete and says nothing else. Built from a preflight's report, it addresses
  exactly the checks that did not pass, each by an item of its own or as part of a root cause of
  at least two; it is empty exactly when the report passes; and listing it by action shows every
  item.
\<close>

theorem plan_is_about_the_report:
  assumes "preflight agent to_host f runtime ports source from_host lease workdir groups = Inr r"
    and "\<And>ps. fa_missing_bind_sources f = Some ps \<Longrightarrow> \<forall>p \<in> set ps. plain_path p"
    and "CHR '':'' \<notin> set to_host"
  shows "(\<forall>name. addressed (build_plan r errors w s) name \<longleftrightarrow>
      (\<exists>c \<in> set (pr_checks r). ck_name c = name \<and> ck_ok c \<noteq> Yes)) \<and>
    (plan_empty (build_plan r errors w s) \<longleftrightarrow> report_ok r = Yes) \<and>
    (\<forall>c \<in> set (pl_causes (build_plan r errors w s)). 1 < length (rc_checks c)) \<and>
    set (concat (map snd (plan_by_action (build_plan r errors w s)))) = set (pl_items (build_plan r errors w s))"
proof -
  let ?p = "build_plan r errors w s"
  have "\<forall>c \<in> set (report_failed r). ck_name c = CHECK_BINDS \<longrightarrow>
      paths_from_detail (detail_text (ck_detail c)) \<noteq> []"
    using preflight_binds_detail [OF assms(1)] assms(2,3) paths_roundtrip by fastforce
  note a = plan_addresses [OF this, of errors w s]
  have np: "ck_ok c \<noteq> Yes \<longleftrightarrow> ck_ok c = No \<or> ck_ok c = Unknown" for c :: check
    by (cases "ck_ok c") auto
  have addr: "addressed ?p name \<longleftrightarrow> (\<exists>c \<in> set (pr_checks r). ck_name c = name \<and> ck_ok c \<noteq> Yes)" for name
    unfolding a np report_failed_def report_unknown_def set_filter by blast
  have c: "\<forall>c \<in> set (pl_causes ?p). 1 < length (rc_checks c)"
    using root_causes_nonempty unfolding build_plan_parts by blast
  then have ne: "\<forall>c \<in> set (pl_causes ?p). rc_checks c \<noteq> []" by fastforce
  have "plan_empty ?p \<longleftrightarrow> report_ok r = Yes"
    unfolding addressed_nothing [OF ne] addr report_ok_iff by blast
  moreover have "set (concat (map snd (plan_by_action ?p))) = set (pl_items ?p)"
    unfolding plan_by_action_def using mem_groups_iff [of "pl_items ?p" pi_action] plan_actions by blast
  ultimately show ?thesis using addr c by blast
qed

text \<open>
  The plan names exactly the bind sources that are missing. It reads the paths back out of
  the text of the report, and for paths without commas or surrounding blanks and a host name
  without a colon that gives one item per missing path, with the action its shape calls for.
\<close>

theorem plan_reads_binds_back:
  assumes "fa_missing_bind_sources f = Some ps" and "ps \<noteq> []" and "\<forall>p \<in> set ps. plain_path p"
    and "CHR '':'' \<notin> set to_host"
  shows "paths_from_detail (detail_text (ck_detail (check_binds f to_host workdir from_host))) = ps \<and>
    set (map pi_action (bind_items (check_binds f to_host workdir from_host) w s to_host))
      = (\<lambda>p. bp_action (classify_bind p w s)) ` set ps"
proof -
  obtain q qs where ps: "ps = q # qs" using assms(2) by (cases ps) auto
  have d: "ck_detail (check_binds f to_host workdir from_host) = Txt (binds_detail to_host ps)"
    using assms(1) ps by (simp add: check_binds_def)
  show ?thesis
    using paths_roundtrip [OF assms(3,2,4)] bind_items_paths [OF d assms(3,2,4), of w s]
    by (simp add: d image_image Let_def)
qed

text \<open>
  A branch that was never pushed passes as pushed. For a repository whose tree is clean and
  whose branch has no upstream, the count of unpushed commits fails and is left unmeasured by the
  scan, and yet the check of the source's work passes and its text calls the repository
  committed and pushed.
\<close>

theorem unpushed_branch_passes:
  assumes "path \<noteq> []"
    and "runner [''git'', ''-C'', path, ''status'', ''--porcelain''] = \<lparr>cr_stdout = [], cr_stderr = [], cr_exit_code = 0\<rparr>"
    and "cr_exit_code (runner [''git'', ''-C'', path, ''rev-list'', ''--count'', UPSTREAM_RANGE]) \<noteq> 0"
  shows "\<exists>r. scan_source runner [path] = Inr [r] \<and> rw_unpushed r = None \<and>
    check_source_work (no_source_facts\<lparr>so_repos := Some [r]\<rparr>) from_host =
      passes CHECK_SOURCE_WORK (Fmt ''every repo scanned is committed and pushed''
        [Txt (if from_host = [] then ''the source'' else from_host), Num 1])"
proof -
  obtain r where r: "scan_repo runner path = Inr r" and u: "rw_uncommitted r = Some 0" "rw_unpushed r = None"
    using scan_repo_returns [OF assms(1), of runner] assms(2,3)
    by (auto simp: cr_ok_def splitlines_def)
  then show ?thesis
    by (intro exI [of _ r]) (simp add: scan_source_def check_source_work_def has_work_def counted_def Let_def)
qed

subsection \<open>Witnesses\<close>

definition demo_facts :: target_facts where
  "demo_facts = \<lparr>fa_reachable = Yes, fa_image_present = Yes, fa_missing_bind_sources = Some [''/data/x''],
     fa_card_store_url = None, fa_card_store_reachable = Unknown, fa_credential_expires_in_s = None,
     fa_credential_refresh_token_present = Unknown, fa_supported_runtimes = None,
     fa_rejected_spec_keys = None, fa_ports_in_use = None, fa_hub_reachable_from_target = Unknown,
     fa_missing_workdir_paths = None, fa_target_resolved_groups = None, fa_sac_on_path = Unknown,
     fa_sac_resolved_path = None, fa_sac_usable_path = None, fa_preamble_declared = Unknown,
     fa_spec_source_drift = None\<rparr>"

lemma demo_plain: "fa_missing_bind_sources demo_facts = Some ps \<Longrightarrow> \<forall>p \<in> set ps. plain_path p"
  by (auto simp: demo_facts_def plain_path_def strip_def is_space_def)

theorem preflight_decides_witness:
  "\<exists>r. preflight ''lead'' ''gpu'' demo_facts ''tui'' [] None ''nas'' None [] [] = Inr r \<and> report_blocks r"
  using preflight_decides [of "''lead''" "''gpu''" demo_facts "''tui''" "[]" None "''nas''" None "[]" "[]"]
  by (auto simp: target_ready_def demo_facts_def)

theorem plan_is_about_the_report_witness:
  "\<exists>r. preflight ''lead'' ''gpu'' demo_facts ''tui'' [] None ''nas'' None [] [] = Inr r \<and>
     \<not> plan_empty (build_plan r [] [] ''nas'')"
proof -
  obtain r where r: "preflight ''lead'' ''gpu'' demo_facts ''tui'' [] None ''nas'' None [] [] = Inr r"
    and n: "report_ok r \<noteq> Yes"
    using preflight_report [of "''lead''" "''gpu''" demo_facts "''tui''" "[]" None "''nas''" None "[]" "[]"]
    by (auto simp: target_ready_def demo_facts_def)
  have "CHR '':'' \<notin> set ''gpu''" by simp
  from plan_is_about_the_report [OF r demo_plain this, of "[]" "[]" "''nas''"] r n show ?thesis by blast
qed

theorem plan_reads_binds_back_witness:
  "paths_from_detail (detail_text (ck_detail (check_binds demo_facts ''gpu'' [] []))) = [''/data/x'']"
proof -
  have f: "fa_missing_bind_sources demo_facts = Some [''/data/x'']" by (simp add: demo_facts_def)
  show ?thesis
    by (rule plan_reads_binds_back [OF f _ demo_plain [OF f], THEN conjunct1]) simp_all
qed

theorem unpushed_branch_passes_witness:
  "\<exists>r. scan_source (\<lambda>argv. if argv = [''git'', ''-C'', ''/p'', ''status'', ''--porcelain'']
        then \<lparr>cr_stdout = [], cr_stderr = [], cr_exit_code = 0\<rparr>
        else \<lparr>cr_stdout = [], cr_stderr = ''no upstream'', cr_exit_code = 128\<rparr>) [''/p''] = Inr [r] \<and>
     ck_ok (check_source_work (no_source_facts\<lparr>so_repos := Some [r]\<rparr>) ''nas'') = Yes"
  using unpushed_branch_passes [of "''/p''" "\<lambda>argv. if argv = [''git'', ''-C'', ''/p'', ''status'', ''--porcelain'']
        then \<lparr>cr_stdout = [], cr_stderr = [], cr_exit_code = 0\<rparr>
        else \<lparr>cr_stdout = [], cr_stderr = ''no upstream'', cr_exit_code = 128\<rparr>" "''nas''"]
  by auto

end
