(* ===== verification/Residency.thy ===== *)
theory Residency
  imports Prelude
begin

text \<open>
  Where an agent lives and has lived: the history and its one update (\<open>_lifecycle/_residency.py\<close>),
  the rule that answers from it (\<open>_relocate_host_record.py\<close>), and the line between declared and
  observed fields (\<open>_relocate_records.py\<close>).
\<close>

record stay =
  st_host :: string
  st_from_ts :: time
  st_to_ts :: "time option"

text \<open>\<open>Residency.__post_init__\<close>.\<close>

definition mk_stay :: "string \<Rightarrow> time \<Rightarrow> time option \<Rightarrow> stay result" where
  "mk_stay host from_ts to_ts =
     (if host = [] then Inl (ValueError ''Residency.host must be non-empty'')
      else if (case to_ts of None \<Rightarrow> False | Some t \<Rightarrow> t < from_ts)
        then Inl (ValueError ''Residency ends before it starts'')
      else Inr \<lparr>st_host = host, st_from_ts = from_ts, st_to_ts = to_ts\<rparr>)"

definition stay_ok :: "stay \<Rightarrow> bool" where
  "stay_ok s \<longleftrightarrow> st_host s \<noteq> [] \<and> (case st_to_ts s of None \<Rightarrow> True | Some t \<Rightarrow> st_from_ts s \<le> t)"

definition is_open :: "stay \<Rightarrow> bool" where
  "is_open s \<longleftrightarrow> st_to_ts s = None"

definition covers :: "stay \<Rightarrow> time \<Rightarrow> bool" where
  "covers s when =
     (if when < st_from_ts s then False
      else case st_to_ts s of None \<Rightarrow> True | Some t \<Rightarrow> when < t)"

text \<open>\<open>replace\<close> builds a new \<open>Residency\<close>, so the constructor's checks run on the closed stay too.\<close>

definition open_residency :: "stay list \<Rightarrow> string \<Rightarrow> time \<Rightarrow> stay list result" where
  "open_residency history host now =
     (if host = [] then Inl (ValueError ''cannot open a residency with no host'')
      else if history = [] then bind_result (mk_stay host now None) (\<lambda>s. Inr [s])
      else
       (let latest = last history in
        case st_to_ts latest of
          None \<Rightarrow>
            if st_host latest = host then Inr history
            else if now < st_from_ts latest then Inl (ValueError ''cannot move: the current stay began later'')
            else bind_result (mk_stay (st_host latest) (st_from_ts latest) (Some now)) (\<lambda>closed.
                 bind_result (mk_stay host now None) (\<lambda>s. Inr (butlast history @ [closed, s])))
        | Some to_ts \<Rightarrow>
            if now < (if to_ts \<noteq> 0 then to_ts else st_from_ts latest)
            then Inl (ValueError ''cannot open a stay: it precedes the end of the previous stay'')
            else bind_result (mk_stay host now None) (\<lambda>s. Inr (history @ [s]))))"

definition current_host :: "stay list \<Rightarrow> string option" where
  "current_host history =
     (if history = [] then None
      else if is_open (last history) then Some (st_host (last history)) else None)"

fun host_at :: "stay list \<Rightarrow> time \<Rightarrow> string option" where
  "host_at [] when = None"
| "host_at (s # history) when = (if covers s when then Some (st_host s) else host_at history when)"

subsection \<open>One place at a time\<close>

text \<open>
  A sound history: stays in order, none overlapping the next, only the last one open. Time stamps
  are positive, as seconds since the epoch are.
\<close>

fun history_ok :: "stay list \<Rightarrow> bool" where
  "history_ok [] = True"
| "history_ok [s] = (stay_ok s \<and> 0 < st_from_ts s)"
| "history_ok (s # t # history) =
     (stay_ok s \<and> 0 < st_from_ts s \<and>
      (case st_to_ts s of None \<Rightarrow> False | Some e \<Rightarrow> e \<le> st_from_ts t) \<and> history_ok (t # history))"

lemma history_ok_appendI:
  assumes "history_ok (hs @ [l])" and "st_to_ts l = Some e" and "stay_ok s" and "0 < st_from_ts s" and "e \<le> st_from_ts s"
  shows "history_ok (hs @ [l, s])"
  using assms by (induction hs rule: history_ok.induct) auto

lemma history_ok_last: "history_ok (hs @ [l]) \<Longrightarrow> stay_ok l \<and> 0 < st_from_ts l"
  by (induction hs rule: history_ok.induct) (auto split: option.splits)

lemma history_ok_replace:
  assumes "history_ok (hs @ [l])" and "stay_ok l'" and "st_from_ts l' = st_from_ts l"
  shows "history_ok (hs @ [l'])"
  using assms by (induction hs rule: history_ok.induct) (auto split: option.splits)

lemma history_ok_closed: "history_ok (hs @ [l]) \<Longrightarrow> s \<in> set hs \<Longrightarrow> \<not> is_open s"
  by (induction hs rule: history_ok.induct) (auto simp: is_open_def split: option.splits)

lemma history_ok_before: "history_ok (hs @ [l]) \<Longrightarrow> s \<in> set hs \<Longrightarrow> \<exists>e. st_to_ts s = Some e \<and> e \<le> st_from_ts l"
proof (induction hs arbitrary: s rule: history_ok.induct)
  case (2 h)
  then show ?case by (auto split: option.splits)
next
  case (3 h t hs)
  then obtain e where e: "st_to_ts h = Some e" "e \<le> st_from_ts t" and ok: "history_ok ((t # hs) @ [l])"
    by (auto split: option.splits)
  have "st_from_ts t \<le> st_from_ts l"
  proof -
    obtain e' where "st_to_ts t = Some e'" "e' \<le> st_from_ts l" using "3.IH" [OF ok, of t] by auto
    moreover have "stay_ok t" using ok by (cases hs) auto
    ultimately show ?thesis by (auto simp: stay_ok_def)
  qed
  with e "3.IH" [OF ok, of s] "3.prems"(2) show ?case by auto
qed simp

lemma host_at_append:
  "(\<And>s. s \<in> set hs \<Longrightarrow> \<not> covers s when) \<Longrightarrow> host_at (hs @ rest) when = host_at rest when"
  by (induction hs) auto

lemma host_at_prefix: "\<not> covers l when \<Longrightarrow> host_at (hs @ [l]) when = host_at hs when"
  by (induction hs) auto

text \<open>The three ways a move is recorded.\<close>

lemma open_residency_cases:
  assumes "open_residency history host now = Inr h'"
  obtains (first) "history = []" "h' = [\<lparr>st_host = host, st_from_ts = now, st_to_ts = None\<rparr>]" "host \<noteq> []"
  | (same) hs l where "history = hs @ [l]" "is_open l" "st_host l = host" "h' = history" "host \<noteq> []"
  | (moved) hs l where "history = hs @ [l]" "is_open l" "st_host l \<noteq> host" "st_from_ts l \<le> now" "host \<noteq> []"
      "h' = hs @ [l\<lparr>st_to_ts := Some now\<rparr>, \<lparr>st_host = host, st_from_ts = now, st_to_ts = None\<rparr>]"
  | (reopened) hs l e where "history = hs @ [l]" "st_to_ts l = Some e"
      "(if e \<noteq> 0 then e else st_from_ts l) \<le> now" "host \<noteq> []"
      "h' = history @ [\<lparr>st_host = host, st_from_ts = now, st_to_ts = None\<rparr>]"
proof (cases "history = []")
  case True
  with assms that(1) show ?thesis
    by (auto simp: open_residency_def mk_stay_def split: if_splits)
next
  case False
  then obtain hs l where hl: "history = hs @ [l]" by (metis append_butlast_last_id)
  show ?thesis
  proof (cases "st_to_ts l")
    case None
    then show ?thesis
      using assms hl that(2) [OF hl] that(3) [OF hl]
      by (cases l) (auto simp: open_residency_def mk_stay_def is_open_def not_less Let_def split: if_splits)
  next
    case (Some e)
    then show ?thesis
      using assms hl that(4) [OF hl]
      by (auto simp: open_residency_def mk_stay_def not_less Let_def split: if_splits)
  qed
qed

lemma open_residency_ok:
  assumes "open_residency history host now = Inr h'" and "history_ok history" and "0 < now"
  shows "history_ok h'"
  using assms(1)
proof (cases rule: open_residency_cases)
  case (moved hs l)
  have "stay_ok (l\<lparr>st_to_ts := Some now\<rparr>)"
    using moved assms(2) history_ok_last by (auto simp: stay_ok_def)
  then have "history_ok (hs @ [l\<lparr>st_to_ts := Some now\<rparr>])"
    using moved assms(2) history_ok_replace by auto
  with moved assms(3) show ?thesis by (auto intro: history_ok_appendI simp: stay_ok_def)
next
  case (reopened hs l e)
  have "e \<le> now"
    using reopened history_ok_last [of hs l] assms(2) by (auto simp: stay_ok_def split: if_splits)
  with reopened assms show ?thesis by (auto intro: history_ok_appendI simp: stay_ok_def)
qed (use assms in \<open>auto simp: stay_ok_def\<close>)

lemma open_residency_current:
  "open_residency history host now = Inr h' \<Longrightarrow> current_host h' = Some host"
  by (erule open_residency_cases) (auto simp: current_host_def is_open_def)

text \<open>Attribution: what the history answered before the move it answers after, and from then on the new host.\<close>

lemma open_residency_attribution:
  assumes "open_residency history host now = Inr h'" and "history_ok history"
  shows "when < now \<Longrightarrow> host_at h' when = host_at history when"
    and "now \<le> when \<Longrightarrow> current_host history \<noteq> Some host \<Longrightarrow> host_at h' when = Some host"
proof -
  show "host_at h' when = host_at history when" if w: "when < now"
    using assms(1)
  proof (cases rule: open_residency_cases)
    case (moved hs l)
    have "covers (l\<lparr>st_to_ts := Some now\<rparr>) when = covers l when"
      using moved w by (auto simp: covers_def is_open_def)
    moreover have "host_at (hs @ [l\<lparr>st_to_ts := Some now\<rparr>, \<lparr>st_host = host, st_from_ts = now, st_to_ts = None\<rparr>]) when
        = host_at (hs @ [l\<lparr>st_to_ts := Some now\<rparr>]) when"
      using w host_at_prefix [of "\<lparr>st_host = host, st_from_ts = now, st_to_ts = None\<rparr>" "when"
        "hs @ [l\<lparr>st_to_ts := Some now\<rparr>]"] by (simp add: covers_def)
    moreover have "host_at (hs @ [l\<lparr>st_to_ts := Some now\<rparr>]) when = host_at (hs @ [l]) when"
      using calculation(1) by (induction hs) auto
    ultimately show ?thesis using moved by simp
  next
    case (reopened hs l e)
    then show ?thesis
      using w host_at_prefix [of "\<lparr>st_host = host, st_from_ts = now, st_to_ts = None\<rparr>" "when" "hs @ [l]"]
      by (simp add: covers_def)
  qed (use w in \<open>auto simp: covers_def\<close>)
  show "host_at h' when = Some host" if w: "now \<le> when" and "current_host history \<noteq> Some host"
    using assms(1)
  proof (cases rule: open_residency_cases)
    case (same hs l)
    with that(2) show ?thesis by (simp add: current_host_def)
  next
    case (moved hs l)
    have "\<not> covers s when" if s: "s \<in> set (hs @ [l\<lparr>st_to_ts := Some now\<rparr>])" for s
      using s w moved history_ok_before [of hs l s] assms(2) by (auto simp: covers_def)
    then have "host_at ((hs @ [l\<lparr>st_to_ts := Some now\<rparr>]) @ [\<lparr>st_host = host, st_from_ts = now, st_to_ts = None\<rparr>]) when
        = Some host" using w by (subst host_at_append) (auto simp: covers_def)
    with moved show ?thesis by simp
  next
    case (reopened hs l e)
    have ok: "history_ok (hs @ [l])" using reopened assms(2) by simp
    have "e \<le> now"
      using reopened history_ok_last [OF ok] by (auto simp: stay_ok_def split: if_splits)
    moreover have "st_from_ts l \<le> e" using history_ok_last [OF ok] reopened by (simp add: stay_ok_def)
    ultimately have "\<not> covers s when" if s: "s \<in> set (hs @ [l])" for s
      using s w reopened history_ok_before [OF ok, of s] by (auto simp: covers_def)
    then show ?thesis
      using reopened w by (simp add: host_at_append [of "hs @ [l]", simplified]) (auto simp: covers_def host_at_append)
  qed (use w in \<open>auto simp: covers_def\<close>)
qed

subsection \<open>The host, observed\<close>

abbreviation HOST_FROM_DB :: int where "HOST_FROM_DB \<equiv> 200"
abbreviation HOST_SEEDED_FROM_SPEC :: int where "HOST_SEEDED_FROM_SPEC \<equiv> 201"
abbreviation HOST_UNKNOWN :: int where "HOST_UNKNOWN \<equiv> 503"

record host_answer =
  ha_host :: "string option"
  ha_code :: int
  ha_reason :: msg
  ha_seeded_from_spec :: bool
  ha_history :: "stay list"

text \<open>\<open>HostAnswer.__post_init__\<close>.\<close>

definition host_answer_ok :: "host_answer \<Rightarrow> bool" where
  "host_answer_ok a \<longleftrightarrow> truthy (ha_reason a) \<and>
     (ha_host a = None \<longrightarrow> ha_code a = HOST_UNKNOWN) \<and>
     (case ha_host a of None \<Rightarrow> True | Some h \<Rightarrow> strip h \<noteq> []) \<and>
     (ha_seeded_from_spec a \<longrightarrow> ha_code a = HOST_SEEDED_FROM_SPEC)"

definition stripped :: "string option \<Rightarrow> string" where
  "stripped x = strip (case x of None \<Rightarrow> [] | Some s \<Rightarrow> s)"

text \<open>\<open>if known\<close> is false for an empty host too, which no residency has.\<close>

definition resolve_host :: "stay list \<Rightarrow> string option \<Rightarrow> time option \<Rightarrow> host_answer result" where
  "resolve_host history legacy_spec_host now =
     (case current_host history of
        Some (c # cs) \<Rightarrow> Inr \<lparr>ha_host = Some (c # cs), ha_code = HOST_FROM_DB,
          ha_reason = Fmt ''the state db has an open residency'' [Txt (c # cs)],
          ha_seeded_from_spec = False, ha_history = history\<rparr>
      | _ \<Rightarrow>
         (let candidate = stripped legacy_spec_host in
          if candidate = [] then
            Inr \<lparr>ha_host = None, ha_code = HOST_UNKNOWN,
              ha_reason = Txt ''where it runs is genuinely unknown'',
              ha_seeded_from_spec = False, ha_history = history\<rparr>
          else (case now of
            None \<Rightarrow> Inr \<lparr>ha_host = None, ha_code = HOST_UNKNOWN,
              ha_reason = Fmt ''no timestamp was supplied to open a residency with'' [Txt candidate],
              ha_seeded_from_spec = False, ha_history = history\<rparr>
          | Some t \<Rightarrow> bind_result (open_residency history candidate t) (\<lambda>h.
              Inr \<lparr>ha_host = Some candidate, ha_code = HOST_SEEDED_FROM_SPEC,
                ha_reason = Fmt ''seeded from the spec's legacy host: field'' [Txt candidate],
                ha_seeded_from_spec = True, ha_history = h\<rparr>))))"

definition record_move :: "stay list \<Rightarrow> string \<Rightarrow> time \<Rightarrow> stay list result" where
  "record_move history to_host now =
     (if strip to_host = [] then Inl (ValueError ''record_move needs the host the agent moved TO'')
      else open_residency history (strip to_host) now)"

definition legacy_spec_host_notice :: "string option \<Rightarrow> string option \<Rightarrow> msg" where
  "legacy_spec_host_notice spec_host db_host =
     (let stale = stripped spec_host in
      if stale = [] then empty_msg
      else (case db_host of
        Some (c # cs) \<Rightarrow>
          if stale \<noteq> c # cs then Fmt ''IGNORED, the state db is authoritative'' [Txt stale, Txt (c # cs)]
          else Fmt ''ignored, the db agrees'' [Txt stale, Txt (c # cs)]
      | _ \<Rightarrow> Fmt ''will SEED the db once'' [Txt stale]))"

lemma dropWhile_idem: "dropWhile P (dropWhile P s) = dropWhile P s"
  by (induction s) auto

lemma dropWhile_rev_keeps: "s = [] \<or> \<not> P (hd s) \<Longrightarrow> dropWhile P (rev (dropWhile P (rev s))) = rev (dropWhile P (rev s))"
proof (cases "dropWhile P (rev s)")
  case (Cons x xs)
  assume h: "s = [] \<or> \<not> P (hd s)"
  let ?d = "dropWhile P (rev s)"
  have "last ?d = last (rev s)"
    using Cons by (metis append_is_Nil_conv last_appendR list.distinct(1) takeWhile_dropWhile_id)
  with Cons have "hd (rev ?d) = hd s"
    by (metis hd_rev last_rev list.distinct(1) rev_is_Nil_conv rev_rev_ident)
  moreover have "s \<noteq> []" using Cons by auto
  ultimately show ?thesis using h Cons by (cases "rev ?d") auto
next
  case Nil
  show ?thesis unfolding Nil by simp
qed

lemma strip_strip [simp]: "strip (strip s) = strip s"
proof -
  let ?l = "dropWhile is_space s"
  have "?l = [] \<or> \<not> is_space (hd ?l)" by (metis hd_dropWhile)
  then have "dropWhile is_space (rev (dropWhile is_space (rev ?l))) = rev (dropWhile is_space (rev ?l))"
    by (rule dropWhile_rev_keeps)
  then show ?thesis by (simp add: strip_def dropWhile_idem)
qed

lemma current_host_in: "current_host history = Some h \<Longrightarrow> \<exists>s \<in> set history. st_host s = h \<and> is_open s"
  by (auto simp: current_host_def intro!: bexI [of _ "last history"] split: if_splits)

lemma resolve_host_valid:
  assumes "resolve_host history spec now = Inr a"
    and "\<And>h. current_host history = Some h \<Longrightarrow> h \<noteq> [] \<Longrightarrow> strip h \<noteq> []"
  shows "host_answer_ok a"
  using assms
  by (auto simp: resolve_host_def host_answer_ok_def Let_def bind_result_Inr_iff stripped_def
      split: option.splits list.splits if_splits)

subsection \<open>Declared and observed\<close>

definition SPEC_FIELDS :: "string list" where
  "SPEC_FIELDS = [''runtime'', ''image'', ''binds'', ''raw_args'', ''env'', ''a2a_port'',
     ''cardinality'', ''model'', ''repo'', ''workdir'', ''labels'', ''role'']"

definition STATE_FIELDS :: "string list" where
  "STATE_FIELDS = [''agent'', ''host'', ''host_seeded_from_spec'', ''from_host'', ''to_host'',
     ''phase'', ''steps'', ''started_at'', ''finished_at'', ''lease_holder'', ''lease_fence'',
     ''handshake_proven'', ''handshake_observed_by'', ''source_stopped_verified'',
     ''standby_left_running'', ''transcript_carried'', ''origin'', ''residency'',
     ''migration_retained'', ''outcome_code'', ''outcome_reason'']"

definition classify_field :: "string \<Rightarrow> string result" where
  "classify_field name =
     (if name \<in> set SPEC_FIELDS \<and> name \<in> set STATE_FIELDS then Inl (ValueError ''is declared in BOTH'')
      else if name \<in> set SPEC_FIELDS then Inr ''spec''
      else if name \<in> set STATE_FIELDS then Inr ''state''
      else Inl (ValueError ''is in neither SPEC_FIELDS nor STATE_FIELDS''))"

text \<open>
  Keyword arguments: names with their values, of any type \<open>'v\<close>. The comprehension in \<open>_partition\<close>
  calls \<open>classify_field\<close> on each name in turn, so an unlisted name raises from there.
\<close>

fun wrong_fields :: "string list \<Rightarrow> string \<Rightarrow> string list result" where
  "wrong_fields [] want = Inr []"
| "wrong_fields (k # ks) want =
     bind_result (classify_field k) (\<lambda>c.
     bind_result (wrong_fields ks want) (\<lambda>rest. Inr (if c \<noteq> want then k # rest else rest)))"

definition partition_fields :: "(string \<times> 'v) list \<Rightarrow> string \<Rightarrow> (string \<times> 'v) list result" where
  "partition_fields values want =
     bind_result (wrong_fields (map fst values) want) (\<lambda>wrong.
       if wrong \<noteq> [] then Inl (ValueError ''refusing to write'') else Inr values)"

definition spec_patch :: "(string \<times> 'v) list \<Rightarrow> (string \<times> 'v) list result" where
  "spec_patch values =
     (if values = [] then Inl (ValueError ''spec_patch() with no fields writes nothing'')
      else partition_fields values ''spec'')"

text \<open>\<open>falsy\<close> is Python's truth test of a value, negated.\<close>

definition state_record :: "('v \<Rightarrow> bool) \<Rightarrow> (string \<times> 'v) list \<Rightarrow> (string \<times> 'v) list result" where
  "state_record falsy values =
     bind_result (partition_fields values ''state'') (\<lambda>row.
       if filter (\<lambda>k. case map_of row k of None \<Rightarrow> True | Some v \<Rightarrow> falsy v)
            [''agent'', ''from_host'', ''to_host''] \<noteq> []
       then Inl (ValueError ''a relocation state row must name'') else Inr row)"

lemma fields_disjoint: "set SPEC_FIELDS \<inter> set STATE_FIELDS = {}"
  by (simp add: SPEC_FIELDS_def STATE_FIELDS_def)

lemma classify_field_iff:
  "classify_field n = Inr ''spec'' \<longleftrightarrow> n \<in> set SPEC_FIELDS"
  "classify_field n = Inr ''state'' \<longleftrightarrow> n \<in> set STATE_FIELDS"
  using fields_disjoint by (auto simp: classify_field_def)

lemma wrong_fields_none: "wrong_fields ks w = Inr [] \<longleftrightarrow> (\<forall>k \<in> set ks. classify_field k = Inr w)"
  by (induction ks) (auto simp: bind_result_Inr_iff split: if_splits)

lemma partition_fields_iff:
  "partition_fields values w = Inr row \<longleftrightarrow> row = values \<and> (\<forall>(k, v) \<in> set values. classify_field k = Inr w)"
proof -
  have "partition_fields values w = Inr row \<longleftrightarrow> row = values \<and> wrong_fields (map fst values) w = Inr []"
    by (auto simp: partition_fields_def bind_result_Inr_iff split: if_splits)
  then show ?thesis by (auto simp: wrong_fields_none)
qed

subsection \<open>Properties\<close>

text \<open>
  C39: An agent lives in one place at a time, and a row's time stamp says where it was written.
  Recording a move on a sound history gives a sound history whose current host is the
  destination and in which at most the last stay is open; every moment before the move is
  attributed as it was, and every later one to the destination.
\<close>

theorem residency_one_place:
  assumes "open_residency history host now = Inr h'" and "history_ok history" and "0 < now"
  shows "history_ok h' \<and> current_host h' = Some host \<and> (\<forall>s \<in> set (butlast h'). \<not> is_open s) \<and>
    (\<forall>when < now. host_at h' when = host_at history when) \<and>
    (current_host history \<noteq> Some host \<longrightarrow> (\<forall>when \<ge> now. host_at h' when = Some host))"
proof -
  have ok: "history_ok h'" using open_residency_ok [OF assms] .
  have ne: "h' \<noteq> []" using open_residency_current [OF assms(1)] by (auto simp: current_host_def)
  then have "\<forall>s \<in> set (butlast h'). \<not> is_open s"
    using ok history_ok_closed [of "butlast h'" "last h'"] by simp
  with ok open_residency_current [OF assms(1)] open_residency_attribution [OF assms(1,2)]
  show ?thesis by blast
qed

text \<open>
  A move is refused only when it cannot be told truthfully: with no host named, or dated
  before the stay it would end or follow. Recording a move that already happened changes nothing.
\<close>

theorem residency_refusals:
  assumes "history_ok history"
  shows "((\<exists>h'. open_residency history host now = Inr h') \<longleftrightarrow> host \<noteq> [] \<and>
      (history = [] \<or> current_host history = Some host \<or>
       (case st_to_ts (last history) of None \<Rightarrow> st_from_ts (last history) | Some e \<Rightarrow> e) \<le> now)) \<and>
    (host \<noteq> [] \<longrightarrow> current_host history = Some host \<longrightarrow> open_residency history host now = Inr history)"
proof (cases "history = []")
  case True
  then show ?thesis by (auto simp: open_residency_def mk_stay_def current_host_def)
next
  case False
  then obtain hs l where h: "history = hs @ [l]" by (metis append_butlast_last_id)
  have l: "stay_ok l" "0 < st_from_ts l" using assms h history_ok_last by auto
  then show ?thesis
    using h by (cases "st_to_ts l")
      (auto simp: open_residency_def mk_stay_def current_host_def is_open_def stay_ok_def Let_def
        not_less split: if_splits)
qed

text \<open>
  Nothing observed is written to the spec and nothing declared to the state. The two kinds
  of fields are disjoint; a patch of the spec is accepted exactly when it is not empty and all
  its fields are declared ones, a state row exactly when all are observed ones and it says who
  moved and between which hosts; and what is accepted is written unchanged.
\<close>

theorem records_separated:
  "set SPEC_FIELDS \<inter> set STATE_FIELDS = {} \<and>
   (spec_patch values = Inr row \<longleftrightarrow> row = values \<and> values \<noteq> [] \<and> fst ` set values \<subseteq> set SPEC_FIELDS) \<and>
   (state_record falsy values = Inr row \<longleftrightarrow> row = values \<and> fst ` set values \<subseteq> set STATE_FIELDS \<and>
      (\<forall>k \<in> {''agent'', ''from_host'', ''to_host''}. \<exists>v. map_of values k = Some v \<and> \<not> falsy v))"
proof (intro conjI fields_disjoint)
  show "spec_patch values = Inr row \<longleftrightarrow> row = values \<and> values \<noteq> [] \<and> fst ` set values \<subseteq> set SPEC_FIELDS"
    by (auto simp: spec_patch_def partition_fields_iff classify_field_iff split_beta)
  have "state_record falsy values = Inr row \<longleftrightarrow> row = values \<and> fst ` set values \<subseteq> set STATE_FIELDS \<and>
      (\<forall>k \<in> set [''agent'', ''from_host'', ''to_host'']. \<not> (case map_of values k of None \<Rightarrow> True | Some v \<Rightarrow> falsy v))"
    unfolding state_record_def bind_result_Inr_iff partition_fields_iff
    by (auto simp: classify_field_iff split_beta split: if_splits)
  then show "state_record falsy values = Inr row \<longleftrightarrow> row = values \<and> fst ` set values \<subseteq> set STATE_FIELDS \<and>
      (\<forall>k \<in> {''agent'', ''from_host'', ''to_host''}. \<exists>v. map_of values k = Some v \<and> \<not> falsy v)"
    by (simp split: option.splits)
qed

subsection \<open>Witnesses\<close>

theorem residency_one_place_witness:
  "\<exists>h'. open_residency [\<lparr>st_host = ''nas'', st_from_ts = 5, st_to_ts = None\<rparr>] ''gpu'' 9 = Inr h' \<and>
     host_at h' 7 = Some ''nas'' \<and> host_at h' 9 = Some ''gpu''"
proof -
  let ?h = "[\<lparr>st_host = ''nas'', st_from_ts = 5, st_to_ts = None\<rparr>]"
  obtain h' where h': "open_residency ?h ''gpu'' 9 = Inr h'"
    by (simp add: open_residency_def mk_stay_def Let_def)
  have "history_ok ?h" by (simp add: stay_ok_def)
  from residency_one_place [OF h' this] h' show ?thesis
    by (auto simp: current_host_def is_open_def covers_def)
qed

theorem residency_refusals_witness:
  "\<nexists>h'. open_residency [\<lparr>st_host = ''nas'', st_from_ts = 5, st_to_ts = None\<rparr>] ''gpu'' 4 = Inr h'"
  using residency_refusals [of "[\<lparr>st_host = ''nas'', st_from_ts = 5, st_to_ts = None\<rparr>]" "''gpu''" 4]
  by (simp add: stay_ok_def current_host_def is_open_def)

theorem records_separated_witness:
  "spec_patch [(''host'', 1::nat)] \<noteq> Inr [(''host'', 1)]"
  using records_separated [of "[(''host'', 1::nat)]" "[(''host'', 1)]" "\<lambda>_. False"]
  by (simp add: SPEC_FIELDS_def)

end
