(* ===== verification/Phases.thy ===== *)
theory Phases
  imports Prelude
begin

text \<open>
  The journaled phases of a relocation (\<open>_lifecycle/_relocate_phases.py\<close>): the ordered tuple
  \<open>PHASES\<close>, the journal record, and the two transitions \<open>advance\<close> and \<open>abort\<close>. The journals
  reachable from \<open>begin\<close> are exactly the unbroken prefixes of \<open>PHASES\<close>, with an abort possible
  only before the handover.
\<close>

subsection \<open>Phases and their order\<close>

text \<open>
  The code's phases are strings. The nine it names are the first nine constructors;
  \<open>Unlisted s\<close> is any other string a caller may pass.
\<close>

datatype phase = PREFLIGHT | SOURCE_DRAIN | SOURCE_STOP | TRANSPORT | TARGET_STANDBY
  | HANDSHAKE | HANDOVER | DONE | ABORTED | Unlisted string

definition PHASES :: "phase list" where
  "PHASES = [PREFLIGHT, SOURCE_DRAIN, SOURCE_STOP, TRANSPORT, TARGET_STANDBY, HANDSHAKE,
     HANDOVER, DONE]"

text \<open>\<open>PHASES.index(p)\<close>, which raises for a string that is not in the tuple.\<close>

definition phase_index :: "phase \<Rightarrow> nat result" where
  "phase_index p =
     (if p \<in> set PHASES then Inr (length (takeWhile (\<lambda>q. q \<noteq> p) PHASES))
      else Inl (ValueError ''tuple.index(x): x not in tuple''))"

text \<open>The same index where the phase is known to be listed.\<close>

definition rank :: "phase \<Rightarrow> nat" where
  "rank p = length (takeWhile (\<lambda>q. q \<noteq> p) PHASES)"

lemma rank_simps [simp]:
  "rank PREFLIGHT = 0" "rank SOURCE_DRAIN = 1" "rank SOURCE_STOP = 2" "rank TRANSPORT = 3"
  "rank TARGET_STANDBY = 4" "rank HANDSHAKE = 5" "rank HANDOVER = 6" "rank DONE = 7"
  by (simp_all add: rank_def PHASES_def)

lemma phase_index_listed [simp]: "p \<in> set PHASES \<Longrightarrow> phase_index p = Inr (rank p)"
  by (simp add: phase_index_def rank_def)

lemma in_PHASES_iff:
  "p \<in> set PHASES \<longleftrightarrow> p \<in> {PREFLIGHT, SOURCE_DRAIN, SOURCE_STOP, TRANSPORT, TARGET_STANDBY,
     HANDSHAKE, HANDOVER, DONE}"
  by (auto simp: PHASES_def)

lemma length_PHASES [simp]: "length PHASES = 8"
  by (simp add: PHASES_def)

lemma distinct_PHASES: "distinct PHASES"
  by (simp add: PHASES_def)

lemma rank_nth: "n < 8 \<Longrightarrow> rank (PHASES ! n) = n"
proof -
  assume "n < 8"
  then have "n \<in> {0, 1, 2, 3, 4, 5, 6, 7}" by auto
  then show ?thesis by (auto simp: PHASES_def)
qed

lemma nth_rank: "p \<in> set PHASES \<Longrightarrow> PHASES ! rank p = p"
  by (auto simp: in_PHASES_iff) (simp_all add: PHASES_def)

lemma rank_less: "p \<in> set PHASES \<Longrightarrow> rank p < 8"
  by (auto simp: in_PHASES_iff)

lemma rank_inj: "p \<in> set PHASES \<Longrightarrow> q \<in> set PHASES \<Longrightarrow> rank p = rank q \<longleftrightarrow> p = q"
  using nth_rank by metis

subsection \<open>Verdicts and the journal\<close>

abbreviation PHASE_OK :: int where "PHASE_OK \<equiv> 200"
abbreviation PHASE_ALREADY_THERE :: int where "PHASE_ALREADY_THERE \<equiv> 208"
abbreviation PHASE_SKIPS :: int where "PHASE_SKIPS \<equiv> 400"
abbreviation PHASE_UNKNOWN_PHASE :: int where "PHASE_UNKNOWN_PHASE \<equiv> 404"
abbreviation PHASE_BACKWARD :: int where "PHASE_BACKWARD \<equiv> 409"
abbreviation PHASE_PAST_NO_RETURN :: int where "PHASE_PAST_NO_RETURN \<equiv> 410"
abbreviation PHASE_TERMINAL :: int where "PHASE_TERMINAL \<equiv> 423"
abbreviation PHASE_UNKNOWN :: int where "PHASE_UNKNOWN \<equiv> 503"

record phase_verdict =
  pv_allowed :: tri
  pv_code :: int
  pv_reason :: msg

text \<open>\<open>PhaseVerdict.__post_init__\<close>.\<close>

definition phase_verdict_ok :: "phase_verdict \<Rightarrow> bool" where
  "phase_verdict_ok v \<longleftrightarrow> truthy (pv_reason v) \<and>
     (pv_allowed v = Yes \<longrightarrow> pv_code v \<in> {PHASE_OK, PHASE_ALREADY_THERE}) \<and>
     (pv_allowed v = Unknown \<longrightarrow> pv_code v = PHASE_UNKNOWN)"

abbreviation phase_yes :: "int \<Rightarrow> msg \<Rightarrow> phase_verdict" where
  "phase_yes c why \<equiv> \<lparr>pv_allowed = Yes, pv_code = c, pv_reason = why\<rparr>"

abbreviation phase_no :: "int \<Rightarrow> msg \<Rightarrow> phase_verdict" where
  "phase_no c why \<equiv> \<lparr>pv_allowed = No, pv_code = c, pv_reason = why\<rparr>"

interpretation phase_decision: verdict_shape pv_allowed pv_code pv_reason phase_verdict_ok
  "{PHASE_OK, PHASE_ALREADY_THERE}" PHASE_UNKNOWN
  by unfold_locales (auto simp: phase_verdict_ok_def)

record journal_step =
  st_phase :: phase
  st_at :: time
  st_detail :: msg

record relocation =
  r_agent :: string
  r_from_host :: string
  r_to_host :: string
  r_phase :: phase
  r_steps :: "journal_step list"

text \<open>\<open>Relocation.__post_init__\<close>.\<close>

definition relocation_ok :: "relocation \<Rightarrow> bool" where
  "relocation_ok r \<longleftrightarrow> r_agent r \<noteq> [] \<and> r_from_host r \<noteq> [] \<and> r_to_host r \<noteq> [] \<and>
     r_from_host r \<noteq> r_to_host r \<and> (r_phase r \<in> set PHASES \<or> r_phase r = ABORTED) \<and>
     r_steps r \<noteq> []"

definition is_terminal :: "relocation \<Rightarrow> bool" where
  "is_terminal r \<longleftrightarrow> r_phase r = DONE \<or> r_phase r = ABORTED"

definition is_past_no_return :: "relocation \<Rightarrow> bool" where
  "is_past_no_return r \<longleftrightarrow> r_phase r \<noteq> ABORTED \<and> rank HANDOVER \<le> rank (r_phase r)"

definition leaves_source_stopped :: "relocation \<Rightarrow> bool result" where
  "leaves_source_stopped r =
     (let p = (if r_phase r = ABORTED
               then (let prior = filter (\<lambda>q. q \<noteq> ABORTED) (map st_phase (r_steps r))
                     in if prior = [] then PREFLIGHT else last prior)
               else r_phase r)
      in bind_result (phase_index p) (\<lambda>i. Inr (rank SOURCE_STOP \<le> i)))"

subsection \<open>Opening, resuming, advancing and aborting\<close>

definition begin_relocation :: "string \<Rightarrow> string \<Rightarrow> string \<Rightarrow> time \<Rightarrow> msg \<Rightarrow> relocation result" where
  "begin_relocation agent from_host to_host now detail =
     (let r = \<lparr>r_agent = agent, r_from_host = from_host, r_to_host = to_host, r_phase = PREFLIGHT,
               r_steps = [\<lparr>st_phase = PREFLIGHT, st_at = now,
                 st_detail = (if truthy detail then detail else Fmt ''relocation opened'' [])\<rparr>]\<rparr>
      in if relocation_ok r then Inr r else Inl (ValueError ''Relocation''))"

definition resume_from :: "relocation \<Rightarrow> phase option" where
  "resume_from r = (if is_terminal r then None else Some (PHASES ! (rank (r_phase r) + 1)))"

definition journal :: "relocation \<Rightarrow> phase \<Rightarrow> time \<Rightarrow> msg \<Rightarrow> relocation" where
  "journal r p now detail = r\<lparr>r_phase := p,
     r_steps := r_steps r @ [\<lparr>st_phase = p, st_at = now, st_detail = detail\<rparr>]\<rparr>"

fun phase_name :: "phase \<Rightarrow> msg" where
  "phase_name (Unlisted s) = Txt s"
| "phase_name PREFLIGHT = Txt ''preflight''"
| "phase_name SOURCE_DRAIN = Txt ''source_drain''"
| "phase_name SOURCE_STOP = Txt ''source_stop''"
| "phase_name TRANSPORT = Txt ''transport''"
| "phase_name TARGET_STANDBY = Txt ''target_standby''"
| "phase_name HANDSHAKE = Txt ''handshake''"
| "phase_name HANDOVER = Txt ''handover''"
| "phase_name DONE = Txt ''done''"
| "phase_name ABORTED = Txt ''aborted''"

definition advance :: "relocation \<Rightarrow> phase \<Rightarrow> time \<Rightarrow> msg \<Rightarrow> relocation \<times> phase_verdict" where
  "advance r to_phase now detail =
     (if to_phase \<notin> set PHASES then
        (r, phase_no PHASE_UNKNOWN_PHASE (Fmt ''not a phase'' [phase_name to_phase]))
      else if is_terminal r then
        (r, phase_no PHASE_TERMINAL (Fmt ''already terminal'' [Txt (r_agent r), phase_name (r_phase r)]))
      else
        (let here = rank (r_phase r); there = rank to_phase in
         if there = here then
           (r, phase_yes PHASE_ALREADY_THERE (Fmt ''already at'' [phase_name to_phase]))
         else if there < here then
           (r, phase_no PHASE_BACKWARD (Fmt ''cannot go back''
              [phase_name (r_phase r), phase_name to_phase]))
         else if here + 1 < there then
           (r, phase_no PHASE_SKIPS (Fmt ''cannot jump''
              [phase_name (r_phase r), phase_name to_phase, phase_name (PHASES ! (here + 1))]))
         else
           (journal r to_phase now detail, phase_yes PHASE_OK (Fmt ''advanced''
              [Txt (r_agent r), phase_name (r_phase r), phase_name to_phase]))))"

definition abort :: "relocation \<Rightarrow> time \<Rightarrow> msg \<Rightarrow> (relocation \<times> phase_verdict) result" where
  "abort r now why =
     (if \<not> truthy why then
        Inr (r, phase_no PHASE_SKIPS (Fmt ''an abort must state why'' []))
      else if r_phase r = ABORTED then
        Inr (r, phase_yes PHASE_ALREADY_THERE (Fmt ''already aborted'' []))
      else if r_phase r = DONE then
        Inr (r, phase_no PHASE_TERMINAL (Fmt ''completed, nothing to abort'' [Txt (r_agent r)]))
      else if is_past_no_return r then
        Inr (r, phase_no PHASE_PAST_NO_RETURN (Fmt ''cannot abort past the handover''
          [phase_name (r_phase r), Txt (r_to_host r)]))
      else
        bind_result (leaves_source_stopped r) (\<lambda>source_down.
          Inr (journal r ABORTED now why, phase_yes PHASE_OK (Fmt ''aborted at''
            [Txt (r_agent r), phase_name (r_phase r), why,
             (if source_down then Fmt ''is stopped, start it there''
                [Txt (r_agent r), Txt (r_from_host r)]
              else empty_msg)]))))"

subsection \<open>What the transitions do\<close>

lemma is_past_no_return_iff:
  "relocation_ok r \<Longrightarrow> is_past_no_return r \<longleftrightarrow> r_phase r = HANDOVER \<or> r_phase r = DONE"
  by (auto simp: is_past_no_return_def relocation_ok_def in_PHASES_iff)

lemma leaves_source_stopped_listed:
  "r_phase r \<in> set PHASES \<Longrightarrow>
     leaves_source_stopped r = Inr (rank SOURCE_STOP \<le> rank (r_phase r))"
  by (auto simp: leaves_source_stopped_def in_PHASES_iff Let_def)

lemma journal_fields [simp]:
  "r_phase (journal r p now d) = p" "r_agent (journal r p now d) = r_agent r"
  "r_from_host (journal r p now d) = r_from_host r" "r_to_host (journal r p now d) = r_to_host r"
  "r_steps (journal r p now d) = r_steps r @ [\<lparr>st_phase = p, st_at = now, st_detail = d\<rparr>]"
  by (simp_all add: journal_def)

lemma journal_ok: "relocation_ok r \<Longrightarrow> p \<in> set PHASES \<or> p = ABORTED \<Longrightarrow> relocation_ok (journal r p now d)"
  by (auto simp: relocation_ok_def)

lemma advance_cases:
  assumes "advance r p now d = (r', v)"
  obtains (refused) "r' = r" "pv_allowed v = No"
      "p \<notin> set PHASES \<or> is_terminal r \<or> rank p < rank (r_phase r) \<or> rank (r_phase r) + 1 < rank p"
  | (already) "r' = r" "pv_allowed v = Yes" "p \<in> set PHASES" "\<not> is_terminal r" "rank p = rank (r_phase r)"
  | (moved) "r' = journal r p now d" "pv_allowed v = Yes" "p \<in> set PHASES" "\<not> is_terminal r"
      "rank p = rank (r_phase r) + 1"
  using assms by (auto simp: advance_def Let_def split: if_splits)

lemma abort_returns: "relocation_ok r \<Longrightarrow> \<exists>r' v. abort r now why = Inr (r', v)"
  by (auto simp: abort_def relocation_ok_def leaves_source_stopped_listed)

lemma abort_cases:
  assumes "abort r now why = Inr (r', v)" and "relocation_ok r"
  obtains (refused) "r' = r" "pv_allowed v = No" "\<not> truthy why \<or> is_past_no_return r"
  | (already) "r' = r" "pv_allowed v = Yes" "r_phase r = ABORTED" "truthy why"
  | (aborted) "r' = journal r ABORTED now why" "pv_allowed v = Yes" "truthy why"
      "r_phase r \<noteq> ABORTED" "r_phase r \<noteq> DONE" "\<not> is_past_no_return r"
  using assms
  by (auto simp: abort_def bind_result_Inr_iff is_past_no_return_iff split: if_splits)

text \<open>Every refused transition leaves the journal exactly as it was.\<close>

lemma refused_untouched:
  "pv_allowed (snd (advance r p now d)) \<noteq> Yes \<Longrightarrow> fst (advance r p now d) = r"
  by (auto simp: advance_def Let_def)

lemma advance_valid: "phase_verdict_ok (snd (advance r p now d))"
  by (auto simp: advance_def phase_verdict_ok_def Let_def)

lemma abort_valid: "abort r now why = Inr (r', v) \<Longrightarrow> phase_verdict_ok v"
  by (auto simp: abort_def phase_verdict_ok_def bind_result_Inr_iff split: if_splits)

text \<open>The next phase in order, and what resuming and advancing do with it.\<close>

lemma resume_from_iff:
  "relocation_ok r \<Longrightarrow> resume_from r = Some p \<longleftrightarrow>
     \<not> is_terminal r \<and> p \<in> set PHASES \<and> rank p = rank (r_phase r) + 1"
proof -
  assume ok: "relocation_ok r"
  have "PHASES ! Suc n = p \<longleftrightarrow> p \<in> set PHASES \<and> rank p = Suc n" if "n < 7" for n
    using that rank_nth [of "Suc n"] nth_rank [of p] nth_mem [of "Suc n" PHASES] by auto
  moreover have "\<not> is_terminal r \<Longrightarrow> rank (r_phase r) < 7"
    using ok by (auto simp: is_terminal_def relocation_ok_def in_PHASES_iff)
  ultimately show ?thesis by (auto simp: resume_from_def)
qed

lemma advance_resume:
  assumes "relocation_ok r" and "resume_from r = Some p"
  shows "fst (advance r p now d) = journal r p now d"
    and "pv_allowed (snd (advance r p now d)) = Yes"
    and "pv_code (snd (advance r p now d)) = PHASE_OK"
  using assms by (simp_all add: resume_from_iff advance_def Let_def)

lemma resume_listed: "relocation_ok r \<Longrightarrow> resume_from r = Some p \<Longrightarrow> r_phase r \<in> set PHASES"
  by (auto simp: resume_from_def is_terminal_def relocation_ok_def split: if_splits)

lemma resume_from_DONE: "r_phase r \<in> set PHASES \<Longrightarrow> resume_from r = None \<longleftrightarrow> r_phase r = DONE"
  by (auto simp: resume_from_def is_terminal_def PHASES_def)

lemma drop_resume:
  assumes "relocation_ok r" and "r_phase r \<in> set PHASES"
  shows "drop (Suc (rank (r_phase r))) PHASES =
    (case resume_from r of None \<Rightarrow> [] | Some p \<Rightarrow> p # drop (Suc (rank p)) PHASES)"
  using assms(2) by (auto simp: in_PHASES_iff resume_from_def is_terminal_def) (simp_all add: PHASES_def)

subsection \<open>Journals as a transition system\<close>

inductive reloc_move :: "relocation \<Rightarrow> relocation \<Rightarrow> bool" where
  advanced: "advance r p now d = (r', v) \<Longrightarrow> reloc_move r r'"
| aborted: "abort r now why = Inr (r', v) \<Longrightarrow> reloc_move r r'"

inductive reloc_reachable :: "relocation \<Rightarrow> bool" where
  opened: "begin_relocation a f t now d = Inr r \<Longrightarrow> reloc_reachable r"
| moved: "reloc_reachable r \<Longrightarrow> reloc_move r r' \<Longrightarrow> reloc_reachable r'"

text \<open>
  The shape of a journal: its recorded phases are the first \<open>n + 1\<close> of \<open>PHASES\<close>, and it stands
  at the last of them; or it stopped there, before the handover, and was aborted.
\<close>

definition journal_shape :: "relocation \<Rightarrow> bool" where
  "journal_shape r \<longleftrightarrow> list_ex (\<lambda>n.
     (r_phase r = PHASES ! n \<and> map st_phase (r_steps r) = take (Suc n) PHASES) \<or>
     (n < rank HANDOVER \<and> r_phase r = ABORTED \<and>
      map st_phase (r_steps r) = take (Suc n) PHASES @ [ABORTED])) [0..<8]"

lemma bounded_cases:
  "(\<exists>n < 8. A n \<or> n < (6::nat) \<and> B n) \<longleftrightarrow> (\<exists>n < 8. A n) \<or> (\<exists>n < 6. B n)"
proof -
  have "\<exists>n < 8. A n \<or> n < 6 \<and> B n" if "n < 6" "B n" for n
    using that by (intro exI [of _ n]) simp
  then show ?thesis by blast
qed

lemma journal_shape_iff:
  "journal_shape r \<longleftrightarrow>
     (\<exists>n < 8. r_phase r = PHASES ! n \<and> map st_phase (r_steps r) = take (Suc n) PHASES) \<or>
     (\<exists>n < 6. r_phase r = ABORTED \<and> map st_phase (r_steps r) = take (Suc n) PHASES @ [ABORTED])"
  using bounded_cases [of "\<lambda>n. r_phase r = PHASES ! n \<and> map st_phase (r_steps r) = take (Suc n) PHASES"
    "\<lambda>n. r_phase r = ABORTED \<and> map st_phase (r_steps r) = take (Suc n) PHASES @ [ABORTED]"]
  by (simp add: journal_shape_def list_ex_iff Bex_def)

lemma reloc_move_cases:
  assumes "reloc_move r r'" and "relocation_ok r"
  obtains (kept) "r' = r"
  | (forward) p now d where "r' = journal r p now d" "p \<in> set PHASES" "\<not> is_terminal r"
      "rank p = rank (r_phase r) + 1"
  | (stopped) now why where "r' = journal r ABORTED now why" "r_phase r \<noteq> ABORTED" "r_phase r \<noteq> DONE"
      "\<not> is_past_no_return r"
  using assms(1)
proof cases
  case (advanced p now d v)
  then show thesis
    by (cases rule: advance_cases) (use kept forward in simp_all)
next
  case (aborted now why v)
  then show thesis
    using assms(2) by (cases rule: abort_cases) (use kept stopped in simp_all)
qed

lemma reloc_move_ok: "reloc_move r r' \<Longrightarrow> relocation_ok r \<Longrightarrow> relocation_ok r'"
  by (erule reloc_move_cases) (auto intro: journal_ok)

lemma listed_or_aborted:
  "relocation_ok r \<Longrightarrow> r_phase r \<noteq> ABORTED \<Longrightarrow> r_phase r \<in> set PHASES"
  by (auto simp: relocation_ok_def)

lemma journal_shape_move:
  assumes "reloc_move r r'" and "relocation_ok r" and "journal_shape r"
  shows "journal_shape r'"
  using assms(1,2)
proof (cases rule: reloc_move_cases)
  case kept
  with assms show ?thesis by simp
next
  case (forward p now d)
  then have "r_phase r \<noteq> ABORTED" by (auto simp: is_terminal_def)
  then obtain n where n: "n < 8" "r_phase r = PHASES ! n" "map st_phase (r_steps r) = take (Suc n) PHASES"
    using assms(3) by (auto simp: journal_shape_iff)
  then have p: "rank p = Suc n" using forward by (simp add: rank_nth)
  then have "Suc n < 8" "p = PHASES ! Suc n"
    using forward rank_less [of p] nth_rank [of p] by simp_all
  then have "r_phase r' = PHASES ! Suc n \<and> map st_phase (r_steps r') = take (Suc (Suc n)) PHASES"
    using forward n by (simp add: take_Suc_conv_app_nth)
  with \<open>Suc n < 8\<close> show ?thesis unfolding journal_shape_iff by blast
next
  case (stopped now why)
  then obtain n where n: "n < 8" "r_phase r = PHASES ! n" "map st_phase (r_steps r) = take (Suc n) PHASES"
    using assms(3) by (auto simp: journal_shape_iff)
  then have "n < 6"
    using stopped by (auto simp: is_past_no_return_def rank_nth)
  moreover have "r_phase r' = ABORTED \<and> map st_phase (r_steps r') = take (Suc n) PHASES @ [ABORTED]"
    using stopped n by simp
  ultimately show ?thesis unfolding journal_shape_iff by blast
qed

lemma begin_shape: "begin_relocation a f t now d = Inr r \<Longrightarrow> relocation_ok r \<and> journal_shape r"
  by (auto simp: begin_relocation_def Let_def journal_shape_iff PHASES_def split: if_splits)

lemma reachable_sound: "reloc_reachable r \<Longrightarrow> relocation_ok r \<and> journal_shape r"
proof (induction rule: reloc_reachable.induct)
  case (opened a f t now d r)
  then show ?case by (rule begin_shape)
next
  case (moved r r')
  then show ?case by (blast intro: reloc_move_ok journal_shape_move)
qed

interpretation relocation_journal: one_way_journal reloc_move r_steps is_past_no_return
  "\<lambda>r. r_phase r = ABORTED" relocation_ok
proof unfold_locales
  fix r r'
  assume mv: "reloc_move r r'" and ok: "relocation_ok r"
  show "relocation_ok r'" by (rule reloc_move_ok) (rule mv ok)+
  show "\<exists>es. r_steps r' = r_steps r @ es"
    using mv ok by (cases rule: reloc_move_cases) auto
  show "is_past_no_return r'" if "is_past_no_return r"
    using mv ok that by (cases rule: reloc_move_cases) (auto simp: is_past_no_return_def in_PHASES_iff)
  show "r' = r" if "r_phase r = ABORTED"
    using mv ok that by (cases rule: reloc_move_cases) (auto simp: is_terminal_def)
qed (auto simp: is_past_no_return_def)

subsection \<open>Properties\<close>

text \<open>
  Every journal that can arise records an unbroken prefix of the phases. From opening a
  relocation, through any advances and aborts (refused or not), the recorded phases are the
  first ones of the order with none skipped or repeated, the current phase is the last
  recorded one, and an abort is recorded only before the handover.
\<close>

theorem reachable_journal_shape:
  assumes "reloc_reachable r"
  shows "journal_shape r"
  using reachable_sound [OF assms] by simp

text \<open>
  C13: Nothing is undone past the handover. Once the handover is recorded, no sequence of
  advances and aborts ends in an aborted relocation, takes it back before the handover or
  drops a recorded step.
\<close>

theorem handover_is_irrevocable:
  assumes "reloc_move\<^sup>*\<^sup>* r r'" and "relocation_ok r" and "is_past_no_return r"
  shows "is_past_no_return r' \<and> r_phase r' \<noteq> ABORTED \<and> (\<exists>es. r_steps r' = r_steps r @ es)"
  using relocation_journal.committed_moves [OF assms]
    relocation_journal.trail_moves [OF assms(1,2)] by simp

text \<open>
  Which transitions are allowed. Advancing succeeds exactly to the phase the journal is
  at, where it appends nothing, or to the phase that resuming names, where it appends one step;
  every other request is refused and leaves the journal as it was.
\<close>

theorem advance_allowed_iff:
  assumes "relocation_ok r" and "advance r p now d = (r', v)"
  shows "(pv_allowed v = Yes \<longleftrightarrow> (\<not> is_terminal r \<and> p = r_phase r) \<or> resume_from r = Some p) \<and>
    r' = (if resume_from r = Some p then journal r p now d else r)"
  using assms(2)
proof (cases rule: advance_cases)
  case refused
  then have "resume_from r \<noteq> Some p" and "is_terminal r \<or> p \<noteq> r_phase r"
    using assms(1) by (auto simp: resume_from_iff is_terminal_def dest: listed_or_aborted)
  with refused show ?thesis by simp
next
  case already
  then have "r_phase r \<in> set PHASES" using assms(1) by (auto simp: is_terminal_def dest: listed_or_aborted)
  with already have "p = r_phase r" by (simp add: rank_inj)
  with already show ?thesis using assms(1) by (simp add: resume_from_iff)
next
  case moved
  then have "resume_from r = Some p" using assms(1) by (simp add: resume_from_iff)
  with moved show ?thesis by simp
qed

subsection \<open>Witnesses\<close>

definition demo_relocation :: relocation where
  "demo_relocation = \<lparr>r_agent = ''figrecipe'', r_from_host = ''nas'', r_to_host = ''gpu'',
     r_phase = PREFLIGHT, r_steps = [\<lparr>st_phase = PREFLIGHT, st_at = 1, st_detail = Txt ''go''\<rparr>]\<rparr>"

lemma demo_opened: "begin_relocation ''figrecipe'' ''nas'' ''gpu'' 1 (Txt ''go'') = Inr demo_relocation"
  by (simp add: begin_relocation_def demo_relocation_def relocation_ok_def in_PHASES_iff)

lemma demo_ok: "relocation_ok demo_relocation"
  by (simp add: demo_relocation_def relocation_ok_def in_PHASES_iff)

theorem reachable_journal_shape_witness:
  "journal_shape (journal demo_relocation ABORTED 2 (Txt ''why''))"
proof (rule reachable_journal_shape)
  have "reloc_move demo_relocation (journal demo_relocation ABORTED 2 (Txt ''why''))"
    by (rule reloc_move.aborted [where now = 2 and why = "Txt ''why''"])
      (simp add: abort_def demo_relocation_def is_past_no_return_def leaves_source_stopped_def in_PHASES_iff)
  then show "reloc_reachable (journal demo_relocation ABORTED 2 (Txt ''why''))"
    by (rule reloc_reachable.moved [OF reloc_reachable.opened [OF demo_opened]])
qed

theorem handover_is_irrevocable_witness:
  "\<exists>r'. reloc_move (demo_relocation\<lparr>r_phase := HANDOVER\<rparr>) r' \<and> r_phase r' \<noteq> ABORTED"
proof -
  let ?r = "demo_relocation\<lparr>r_phase := HANDOVER\<rparr>"
  obtain r' v where a: "abort ?r 9 (Txt ''undo'') = Inr (r', v)"
    by (simp add: abort_def is_past_no_return_def)
  then have m: "reloc_move ?r r'" by (rule reloc_move.aborted)
  have "relocation_ok ?r" "is_past_no_return ?r"
    by (simp_all add: demo_relocation_def relocation_ok_def is_past_no_return_def in_PHASES_iff)
  with handover_is_irrevocable [OF r_into_rtranclp [of reloc_move, OF m]] m show ?thesis by blast
qed

theorem advance_allowed_iff_witness:
  "pv_allowed (snd (advance demo_relocation HANDOVER 2 (Txt ''skip''))) \<noteq> Yes"
  using advance_allowed_iff [OF demo_ok prod.collapse [symmetric], of HANDOVER 2 "Txt ''skip''"]
  by (simp add: demo_relocation_def resume_from_def is_terminal_def PHASES_def)

end
