(* ===== verification/Execute.thy ===== *)
theory Execute
  imports Phases
begin

text \<open>
  The driver of a relocation (\<open>_lifecycle/_relocate_execute.py\<close>): it runs one effect per phase,
  journals each success, aborts on anything but a yes before the handover and stops without
  undoing after it. The effects are parameters: functions on a state \<open>'s\<close> that stands for the
  two hosts and the stores; the clock reads the same state.
\<close>

abbreviation EXEC_COMPLETED :: int where "EXEC_COMPLETED \<equiv> 200"
abbreviation EXEC_ABORTED :: int where "EXEC_ABORTED \<equiv> 409"
abbreviation EXEC_PAST_NO_RETURN :: int where "EXEC_PAST_NO_RETURN \<equiv> 410"
abbreviation EXEC_JOURNAL_REFUSED :: int where "EXEC_JOURNAL_REFUSED \<equiv> 412"
abbreviation EXEC_UNKNOWN :: int where "EXEC_UNKNOWN \<equiv> 503"

record step_result =
  sr_ok :: tri
  sr_detail :: msg
  sr_hint :: msg
  sr_attempted :: bool

text \<open>\<open>StepResult.__post_init__\<close>.\<close>

definition step_result_ok :: "step_result \<Rightarrow> bool" where
  "step_result_ok r \<longleftrightarrow> truthy (sr_detail r) \<and> (sr_ok r \<noteq> Yes \<longrightarrow> truthy (sr_hint r))"

abbreviation step_yes :: "msg \<Rightarrow> step_result" where
  "step_yes d \<equiv> \<lparr>sr_ok = Yes, sr_detail = d, sr_hint = empty_msg, sr_attempted = True\<rparr>"

abbreviation step_not :: "tri \<Rightarrow> msg \<Rightarrow> msg \<Rightarrow> step_result" where
  "step_not k d h \<equiv> \<lparr>sr_ok = k, sr_detail = d, sr_hint = h, sr_attempted = True\<rparr>"

text \<open>A step that never tried: \<open>attempted=False\<close>.\<close>

abbreviation step_untried :: "msg \<Rightarrow> msg \<Rightarrow> step_result" where
  "step_untried d h \<equiv> \<lparr>sr_ok = Unknown, sr_detail = d, sr_hint = h, sr_attempted = False\<rparr>"

text \<open>
  An effect answers, or raises: most of them reach a host through ssh, which raises
  \<open>ProbeTransportError\<close> on a timeout. Nothing in the driver catches it.
\<close>

type_synonym 's effect = "('s, step_result) prog"
type_synonym 's clock = "'s \<Rightarrow> time \<times> 's"

record 's phase_effects =
  pe_start_target_standby :: "'s effect option"
  pe_handshake :: "'s effect option"
  pe_drain_source :: "'s effect option"
  pe_hand_over_lease :: "'s effect option"
  pe_stop_source :: "'s effect option"
  pe_transport_transcript :: "'s effect option"
  pe_finish :: "'s effect option"

fun for_phase :: "'s phase_effects \<Rightarrow> phase \<Rightarrow> 's effect option" where
  "for_phase e SOURCE_DRAIN = pe_drain_source e"
| "for_phase e SOURCE_STOP = pe_stop_source e"
| "for_phase e TRANSPORT = pe_transport_transcript e"
| "for_phase e TARGET_STANDBY = pe_start_target_standby e"
| "for_phase e HANDSHAKE = pe_handshake e"
| "for_phase e HANDOVER = pe_hand_over_lease e"
| "for_phase e DONE = pe_finish e"
| "for_phase e _ = None"

record outcome =
  eo_completed :: tri
  eo_code :: int
  eo_reason :: msg
  eo_relocation :: relocation
  eo_stopped_at :: "phase option"
  eo_hint :: msg
  eo_standby_left_running :: bool
  eo_source_left_stopped :: bool
  eo_log :: "msg list"

text \<open>\<open>ExecuteOutcome.__post_init__\<close>.\<close>

definition outcome_ok :: "outcome \<Rightarrow> bool" where
  "outcome_ok out \<longleftrightarrow> truthy (eo_reason out) \<and>
     (eo_completed out = Yes \<longrightarrow> eo_code out = EXEC_COMPLETED) \<and>
     (eo_completed out \<noteq> Yes \<longrightarrow> truthy (eo_hint out))"

definition missing_effects :: "'s phase_effects \<Rightarrow> phase list" where
  "missing_effects e = filter (\<lambda>p. p \<noteq> PREFLIGHT \<and> for_phase e p = None) PHASES"

definition standby_running :: "phase \<Rightarrow> phase \<Rightarrow> bool \<Rightarrow> bool \<Rightarrow> bool result" where
  "standby_running last_done failing unknown attempted =
     (if failing = TARGET_STANDBY then Inr (unknown \<and> attempted)
      else bind_result (phase_index last_done) (\<lambda>i. Inr (rank TARGET_STANDBY \<le> i)))"

subsection \<open>The loop\<close>

definition stop_past_no_return ::
  "phase \<Rightarrow> step_result \<Rightarrow> relocation \<Rightarrow> msg list \<Rightarrow> outcome result" where
  "stop_past_no_return p res current logs =
     bind_result (leaves_source_stopped current) (\<lambda>down. Inr
       \<lparr>eo_completed = (if sr_ok res = Unknown then Unknown else No),
        eo_code = (if sr_ok res = Unknown then EXEC_UNKNOWN else EXEC_PAST_NO_RETURN),
        eo_reason = Fmt ''did not complete after the lease moved''
          [phase_name p, Txt (r_to_host current), sr_detail res],
        eo_relocation = current, eo_stopped_at = Some p,
        eo_hint = Fmt ''cannot be rolled back, finish forward''
          [sr_hint res, Txt (r_to_host current), Txt (r_from_host current)],
        eo_standby_left_running = False, eo_source_left_stopped = down, eo_log = logs\<rparr>)"

definition aborted_outcome ::
  "phase \<Rightarrow> step_result \<Rightarrow> relocation \<Rightarrow> relocation \<Rightarrow> bool \<Rightarrow> bool \<Rightarrow> msg list \<Rightarrow> outcome" where
  "aborted_outcome p res current recorded left_running source_down logs =
     \<lparr>eo_completed = (if sr_ok res = Unknown then Unknown else No),
      eo_code = (if sr_ok res = Unknown then EXEC_UNKNOWN else EXEC_ABORTED),
      eo_reason = Fmt ''did not complete'' [phase_name p, sr_detail res],
      eo_relocation = recorded, eo_stopped_at = Some p,
      eo_hint = Fmt ''nothing was handed over; the lease is still with the source''
        [sr_hint res, Txt (r_from_host current),
         (if source_down then Fmt ''agent is stopped'' [Txt (r_agent current), Txt (r_from_host current)]
          else empty_msg),
         (if left_running then Fmt ''standby still running'' [Txt (r_to_host current)]
          else empty_msg)],
      eo_standby_left_running = left_running, eo_source_left_stopped = source_down,
      eo_log = logs\<rparr>"

definition stop_and_abort ::
  "phase \<Rightarrow> step_result \<Rightarrow> relocation \<Rightarrow> time \<Rightarrow> msg list \<Rightarrow> outcome result" where
  "stop_and_abort p res current t logs =
     bind_result (abort current t (Fmt '': '' [phase_name p, sr_detail res])) (\<lambda>(stopped, v).
     bind_result (standby_running (r_phase current) p (sr_ok res = Unknown) (sr_attempted res))
       (\<lambda>left_running.
     bind_result (leaves_source_stopped current) (\<lambda>source_down.
       Inr (aborted_outcome p res current (if pv_allowed v = Yes then stopped else current)
         left_running source_down logs))))"

fun execute_loop ::
  "phase list \<Rightarrow> 's phase_effects \<Rightarrow> 's clock \<Rightarrow> relocation \<Rightarrow> msg list \<Rightarrow> 's
   \<Rightarrow> outcome result \<times> 's" where
  "execute_loop [] eff now current logs s =
     (Inr \<lparr>eo_completed = Yes, eo_code = EXEC_COMPLETED,
       eo_reason = Fmt ''every phase recorded'' [Txt (r_agent current), Txt (r_from_host current),
         Txt (r_to_host current), phase_name DONE],
       eo_relocation = current, eo_stopped_at = None, eo_hint = empty_msg,
       eo_standby_left_running = False, eo_source_left_stopped = False, eo_log = logs\<rparr>, s)"
| "execute_loop (p # ps) eff now current logs s =
     (case for_phase eff p of
        None \<Rightarrow> (Inl (ValueError ''AssertionError''), s)
      | Some effect \<Rightarrow>
     (case effect s of
        (Inl e, s1) \<Rightarrow> (Inl e, s1)
      | (Inr res, s1) \<Rightarrow>
          (let logs' = logs @ [Fmt '': '' [phase_name p, sr_detail res]] in
           if sr_ok res \<noteq> Yes then
             (if is_past_no_return current then (stop_past_no_return p res current logs', s1)
              else (let (t, s2) = now s1 in (stop_and_abort p res current t logs', s2)))
           else
             (let (t, s2) = now s1; (current', v) = advance current p t (sr_detail res) in
              if pv_allowed v \<noteq> Yes then
                (Inr \<lparr>eo_completed = No, eo_code = EXEC_JOURNAL_REFUSED,
                  eo_reason = Fmt ''the phase journal refused''
                    [phase_name (r_phase current'), phase_name p, pv_reason v],
                  eo_relocation = current', eo_stopped_at = Some p,
                  eo_hint = Fmt ''read the journal before re-running'' [],
                  eo_standby_left_running = False, eo_source_left_stopped = False,
                  eo_log = logs'\<rparr>, s2)
              else execute_loop ps eff now current' logs' s2))))"

definition execute ::
  "relocation \<Rightarrow> 's phase_effects \<Rightarrow> 's clock \<Rightarrow> 's \<Rightarrow> outcome result \<times> 's" where
  "execute r eff now s =
     (if missing_effects eff \<noteq> [] then (Inl (ValueError ''refusing to execute: no effect supplied''), s)
      else case phase_index (r_phase r) of
        Inl e \<Rightarrow> (Inl e, s)
      | Inr i \<Rightarrow> execute_loop (drop (i + 1) PHASES) eff now r [] s)"

declare execute_loop.simps [simp del]

subsection \<open>The driver as a relation\<close>

text \<open>
  What the loop promises, one rule per way a phase can end. The facts about the driver are
  proved by induction over this relation; \<open>execute_drives\<close> says the code implements it and
  \<open>execute_returns\<close> that it always ends in one of the four ways.
\<close>

inductive drives :: "'s phase_effects \<Rightarrow> 's clock \<Rightarrow> relocation \<Rightarrow> 's \<Rightarrow> outcome \<Rightarrow> 's \<Rightarrow> bool"
  for eff now where
  finished: "r_phase r = DONE \<Longrightarrow> eo_completed out = Yes \<Longrightarrow> eo_relocation out = r \<Longrightarrow>
    eo_stopped_at out = None \<Longrightarrow> outcome_ok out \<Longrightarrow> drives eff now r s out s"
| stuck: "resume_from r = Some p \<Longrightarrow> for_phase eff p = Some e \<Longrightarrow> e s = (Inr res, s1) \<Longrightarrow>
    sr_ok res \<noteq> Yes \<Longrightarrow> is_past_no_return r \<Longrightarrow>
    stop_past_no_return p res r logs = Inr out \<Longrightarrow> drives eff now r s out s1"
| abandoned: "resume_from r = Some p \<Longrightarrow> for_phase eff p = Some e \<Longrightarrow> e s = (Inr res, s1) \<Longrightarrow>
    sr_ok res \<noteq> Yes \<Longrightarrow> \<not> is_past_no_return r \<Longrightarrow> now s1 = (t, s2) \<Longrightarrow>
    stop_and_abort p res r t logs = Inr out \<Longrightarrow> drives eff now r s out s2"
| stepped: "resume_from r = Some p \<Longrightarrow> for_phase eff p = Some e \<Longrightarrow> e s = (Inr res, s1) \<Longrightarrow>
    sr_ok res = Yes \<Longrightarrow> now s1 = (t, s2) \<Longrightarrow>
    drives eff now (journal r p t (sr_detail res)) s2 out s' \<Longrightarrow> drives eff now r s out s'"

lemma no_missing_effect:
  "missing_effects eff = [] \<Longrightarrow> p \<in> set PHASES \<Longrightarrow> p \<noteq> PREFLIGHT \<Longrightarrow> \<exists>e. for_phase eff p = Some e"
  by (auto simp: missing_effects_def filter_empty_conv)

lemma resume_not_PREFLIGHT: "relocation_ok r \<Longrightarrow> resume_from r = Some p \<Longrightarrow> p \<noteq> PREFLIGHT"
  by (auto simp: resume_from_iff)

lemma loop_step:
  assumes "relocation_ok r" and "resume_from r = Some p" and "for_phase eff p = Some e"
    and "e s = (Inr res, s1)"
  shows "execute_loop (p # ps) eff now r logs s =
    (let logs' = logs @ [Fmt '': '' [phase_name p, sr_detail res]] in
     if sr_ok res \<noteq> Yes then
       (if is_past_no_return r then (stop_past_no_return p res r logs', s1)
        else (let (t, s2) = now s1 in (stop_and_abort p res r t logs', s2)))
     else (let (t, s2) = now s1 in
       execute_loop ps eff now (journal r p t (sr_detail res)) logs' s2))"
  using assms advance_resume [OF assms(1,2)]
  by (simp add: execute_loop.simps Let_def case_prod_beta)

lemma loop_drives:
  assumes "execute_loop (drop (Suc (rank (r_phase r))) PHASES) eff now r logs s = (Inr out, s')"
    and "relocation_ok r" and "r_phase r \<in> set PHASES"
  shows "drives eff now r s out s'"
  using assms
proof (induction "8 - rank (r_phase r)" arbitrary: r logs s rule: less_induct)
  case less
  show ?case
  proof (cases "resume_from r")
    case None
    with less.prems have "r_phase r = DONE" by (simp add: resume_from_DONE)
    with less.prems show ?thesis
      by (auto simp: execute_loop.simps PHASES_def outcome_ok_def intro!: drives.finished)
  next
    case (Some p)
    note ok = less.prems(2)
    have run: "execute_loop (p # drop (Suc (rank p)) PHASES) eff now r logs s = (Inr out, s')"
      using less.prems Some by (simp add: drop_resume)
    then obtain e where e: "for_phase eff p = Some e"
      by (auto simp: execute_loop.simps split: option.splits)
    obtain res s1 where es: "e s = (Inr res, s1)"
      using run e by (auto simp: execute_loop.simps split: prod.splits sum.splits)
    obtain t s2 where ts: "now s1 = (t, s2)" by fastforce
    note run' = run [unfolded loop_step [OF ok Some e es], unfolded Let_def ts prod.case]
    consider (stuck) "sr_ok res \<noteq> Yes" "is_past_no_return r"
      | (abandoned) "sr_ok res \<noteq> Yes" "\<not> is_past_no_return r" | (stepped) "sr_ok res = Yes" by blast
    then show ?thesis
    proof cases
      case stuck
      with run' obtain logs' where "stop_past_no_return p res r logs' = Inr out" and "s1 = s'"
        by auto
      with drives.stuck [OF Some e es stuck] show ?thesis by blast
    next
      case abandoned
      with run' obtain logs' where "stop_and_abort p res r t logs' = Inr out" and "s2 = s'"
        by auto
      with drives.abandoned [where now = now, OF Some e es abandoned ts] show ?thesis by blast
    next
      case stepped
      have p: "p \<in> set PHASES" "rank p = rank (r_phase r) + 1"
        using Some ok by (simp_all add: resume_from_iff)
      note p = p rank_less [OF p(1)]
      have "drives eff now (journal r p t (sr_detail res)) s2 out s'"
        using run' stepped p ok by (intro less.hyps) (auto simp: journal_ok)
      then show ?thesis by (rule drives.stepped [where now = now, OF Some e es stepped ts])
    qed
  qed
qed

lemma execute_drives:
  assumes "execute r eff now s = (Inr out, s')" and "relocation_ok r"
  shows "drives eff now r s out s'" and "r_phase r \<in> set PHASES" and "missing_effects eff = []"
proof -
  from assms(1) have l: "r_phase r \<in> set PHASES"
    by (auto simp: execute_def phase_index_def split: if_splits)
  then show "r_phase r \<in> set PHASES" .
  from assms(1) show "missing_effects eff = []" by (simp add: execute_def split: if_splits)
  from assms(1) l have "execute_loop (drop (Suc (rank (r_phase r))) PHASES) eff now r [] s = (Inr out, s')"
    by (simp add: execute_def split: if_splits)
  then show "drives eff now r s out s'"
    using assms(2) l by (rule loop_drives)
qed

subsection \<open>The loop always ends\<close>

lemma stop_past_no_return_returns:
  "r_phase r \<in> set PHASES \<Longrightarrow> \<exists>out. stop_past_no_return p res r logs = Inr out"
  by (simp add: stop_past_no_return_def leaves_source_stopped_listed)

lemma stop_past_no_return_out:
  assumes "stop_past_no_return p res r logs = Inr out" and "r_phase r \<in> set PHASES"
  shows "eo_relocation out = r"
    and "eo_completed out = (if sr_ok res = Unknown then Unknown else No)"
    and "outcome_ok out" and "eo_stopped_at out = Some p"
    and "eo_source_left_stopped out = (2 \<le> rank (r_phase r))"
    and "eo_code out = (if sr_ok res = Unknown then EXEC_UNKNOWN else EXEC_PAST_NO_RETURN)"
  using assms
  by (auto simp: stop_past_no_return_def leaves_source_stopped_listed outcome_ok_def split: if_splits)

lemma abort_before_handover:
  assumes "r_phase r \<in> set PHASES" and "\<not> is_past_no_return r" and "truthy why"
  shows "\<exists>v. abort r t why = Inr (journal r ABORTED t why, v) \<and> pv_allowed v = Yes"
proof -
  have "r_phase r \<noteq> ABORTED" "r_phase r \<noteq> DONE"
    using assms by (auto simp: in_PHASES_iff is_past_no_return_def)
  with assms show ?thesis by (simp add: abort_def leaves_source_stopped_listed)
qed

lemma standby_running_listed:
  "r_phase r \<in> set PHASES \<Longrightarrow> standby_running (r_phase r) p u a =
     Inr (if p = TARGET_STANDBY then u \<and> a else 4 \<le> rank (r_phase r))"
  by (simp add: standby_running_def)

lemma stop_and_abort_returns:
  assumes "r_phase r \<in> set PHASES" and "\<not> is_past_no_return r"
  shows "\<exists>out. stop_and_abort p res r t logs = Inr out"
  using abort_before_handover [OF assms, of "Fmt '': '' [phase_name p, sr_detail res]" t] assms(1)
  by (auto simp: stop_and_abort_def leaves_source_stopped_listed standby_running_listed)

lemma stop_and_abort_out:
  assumes "stop_and_abort p res r t logs = Inr out"
    and "r_phase r \<in> set PHASES" and "\<not> is_past_no_return r"
  shows "eo_relocation out = journal r ABORTED t (Fmt '': '' [phase_name p, sr_detail res])"
    and "eo_completed out = (if sr_ok res = Unknown then Unknown else No)"
    and "outcome_ok out" and "eo_stopped_at out = Some p"
    and "eo_source_left_stopped out = (2 \<le> rank (r_phase r))"
    and "eo_standby_left_running out =
      (if p = TARGET_STANDBY then sr_ok res = Unknown \<and> sr_attempted res else 4 \<le> rank (r_phase r))"
    and "eo_code out = (if sr_ok res = Unknown then EXEC_UNKNOWN else EXEC_ABORTED)"
proof -
  let ?r = "journal r ABORTED t (Fmt '': '' [phase_name p, sr_detail res])"
  obtain v where a: "abort r t (Fmt '': '' [phase_name p, sr_detail res]) = Inr (?r, v)"
      and v: "pv_allowed v = Yes"
    using abort_before_handover [OF assms(2,3), of "Fmt '': '' [phase_name p, sr_detail res]" t] by auto
  have out: "out = aborted_outcome p res r ?r
      (if p = TARGET_STANDBY then sr_ok res = Unknown \<and> sr_attempted res else 4 \<le> rank (r_phase r))
      (2 \<le> rank (r_phase r)) logs"
    using assms(1) by (simp add: stop_and_abort_def a v leaves_source_stopped_listed [OF assms(2)]
        standby_running_listed [OF assms(2)])
  show "eo_relocation out = ?r" "eo_completed out = (if sr_ok res = Unknown then Unknown else No)"
    "eo_stopped_at out = Some p" "eo_source_left_stopped out = (2 \<le> rank (r_phase r))"
    "eo_standby_left_running out =
      (if p = TARGET_STANDBY then sr_ok res = Unknown \<and> sr_attempted res else 4 \<le> rank (r_phase r))"
    "eo_code out = (if sr_ok res = Unknown then EXEC_UNKNOWN else EXEC_ABORTED)"
    by (simp_all only: out aborted_outcome_def outcome.simps)
  show "outcome_ok out"
    by (simp add: out aborted_outcome_def outcome_ok_def)
qed

text \<open>The error is one an effect raised, and the state is the one it left.\<close>

definition raised_by :: "'s phase_effects \<Rightarrow> py_error \<Rightarrow> 's \<Rightarrow> bool" where
  "raised_by eff err s' \<longleftrightarrow> (\<exists>p effect s. for_phase eff p = Some effect \<and> effect s = (Inl err, s'))"

lemma loop_returns:
  assumes "relocation_ok r" and "r_phase r \<in> set PHASES" and "missing_effects eff = []"
    and "execute_loop (drop (Suc (rank (r_phase r))) PHASES) eff now r logs s = (Inl err, s')"
  shows "raised_by eff err s'"
  using assms(1,2,4)
proof (induction "8 - rank (r_phase r)" arbitrary: r logs s rule: less_induct)
  case less
  show ?case
  proof (cases "resume_from r")
    case None
    with less.prems show ?thesis by (simp add: drop_resume execute_loop.simps)
  next
    case (Some p)
    note ok = less.prems(1)
    have p: "p \<in> set PHASES" "rank p = rank (r_phase r) + 1"
      using Some ok by (simp_all add: resume_from_iff)
    note p = p rank_less [OF p(1)]
    obtain e where e: "for_phase eff p = Some e"
      using no_missing_effect [OF assms(3) p(1)] resume_not_PREFLIGHT [OF ok Some] by blast
    from less.prems Some have run: "execute_loop (p # drop (Suc (rank p)) PHASES) eff now r logs s = (Inl err, s')"
      by (simp add: drop_resume)
    show ?thesis
    proof (cases "e s")
      case (Pair x s1)
      show ?thesis
      proof (cases x)
        case (Inl err')
        with run e Pair have "e s = (Inl err, s')" by (simp add: execute_loop.simps)
        with e show ?thesis unfolding raised_by_def by blast
      next
        case (Inr res)
        obtain t s2 where ts: "now s1 = (t, s2)" by fastforce
        let ?logs = "logs @ [Fmt '': '' [phase_name p, sr_detail res]]"
        have "execute_loop (drop (Suc (rank p)) PHASES) eff now (journal r p t (sr_detail res)) ?logs s2 = (Inl err, s')"
          using run [unfolded loop_step [OF ok Some e Pair [unfolded Inr]], unfolded Let_def ts prod.case]
            stop_past_no_return_returns [OF less.prems(2), of p res ?logs]
            stop_and_abort_returns [OF less.prems(2), of p res t ?logs] by (auto split: if_splits)
        then show ?thesis
          using less.hyps [of "journal r p t (sr_detail res)"] ok p by (simp add: journal_ok)
      qed
    qed
  qed
qed

subsection \<open>Consequences\<close>

lemma stop_and_abort_move:
  assumes "stop_and_abort p res r t logs = Inr out" and "r_phase r \<in> set PHASES"
    and "\<not> is_past_no_return r"
  shows "reloc_move r (eo_relocation out)"
  using abort_before_handover [OF assms(2,3), of "Fmt '': '' [phase_name p, sr_detail res]" t]
    stop_and_abort_out(1) [OF assms] by (auto intro: reloc_move.aborted)

lemma drives_moves:
  "drives eff now r s out s' \<Longrightarrow> relocation_ok r \<Longrightarrow> reloc_move\<^sup>*\<^sup>* r (eo_relocation out)"
proof (induction rule: drives.induct)
  case (stuck r p e s res s1 logs out)
  then show ?case by (simp add: stop_past_no_return_out(1) resume_listed)
next
  case (abandoned r p e s res s1 t s2 logs out)
  then show ?case by (blast intro: stop_and_abort_move resume_listed)
next
  case (stepped r p e s res s1 t s2 out s')
  have p: "p \<in> set PHASES" using stepped by (simp add: resume_from_iff)
  have "reloc_move r (journal r p t (sr_detail res))"
    using advance_resume(1) [OF stepped.prems stepped.hyps(1)]
    by (metis reloc_move.advanced prod.collapse)
  moreover have "reloc_move\<^sup>*\<^sup>* (journal r p t (sr_detail res)) (eo_relocation out)"
    using stepped p by (intro stepped.IH journal_ok) auto
  ultimately show ?case by (rule converse_rtranclp_into_rtranclp)
qed simp

text \<open>How a run ends, by the phase it stopped at.\<close>

definition ends_as :: "relocation \<Rightarrow> outcome \<Rightarrow> bool" where
  "ends_as r out \<longleftrightarrow> (case eo_stopped_at out of
     None \<Rightarrow> eo_completed out = Yes \<and> r_phase (eo_relocation out) = DONE
   | Some p \<Rightarrow> eo_completed out \<noteq> Yes \<and> p \<in> set PHASES \<and> rank (r_phase r) < rank p \<and>
       (if p = DONE then r_phase (eo_relocation out) = HANDOVER
        else r_phase (eo_relocation out) = ABORTED))"

lemma drives_ends:
  "drives eff now r s out s' \<Longrightarrow> relocation_ok r \<Longrightarrow> ends_as r out \<and> outcome_ok out"
proof (induction rule: drives.induct)
  case (stuck r p e s res s1 logs out)
  note l = resume_listed [OF stuck.prems stuck.hyps(1)]
  have "r_phase r = HANDOVER" "p = DONE"
    using stuck l by (auto simp: resume_from_iff is_past_no_return_iff is_terminal_def in_PHASES_iff)
  with stuck stop_past_no_return_out [OF stuck.hyps(6) l] show ?case
    by (auto simp: ends_as_def in_PHASES_iff)
next
  case (abandoned r p e s res s1 t s2 logs out)
  note l = resume_listed [OF abandoned.prems abandoned.hyps(1)]
  have "p \<noteq> DONE" "p \<in> set PHASES" "rank (r_phase r) < rank p"
    using abandoned l by (auto simp: resume_from_iff is_past_no_return_def is_terminal_def)
  with abandoned stop_and_abort_out [OF abandoned.hyps(7) l abandoned.hyps(5)] show ?case
    by (auto simp: ends_as_def)
next
  case (stepped r p e s res s1 t s2 out s')
  then show ?case
    by (auto simp: ends_as_def resume_from_iff journal_ok split: option.splits)
qed (simp add: ends_as_def)

text \<open>
  A run that completes ended with the last effect. \<open>I p s\<close> is an invariant of the run: it holds of
  the state when phase \<open>p\<close> has been recorded, if every effect that says yes hands it on.
\<close>

lemma drives_completed:
  assumes "drives eff now r s out s'" and "eo_completed out = Yes" and "relocation_ok r" and "r_phase r \<noteq> DONE"
    and "I (r_phase r) s"
    and "\<And>p0 p e s res s1 t s2. p \<in> set PHASES \<Longrightarrow> rank p = rank p0 + 1 \<Longrightarrow> p \<noteq> DONE \<Longrightarrow>
      for_phase eff p = Some e \<Longrightarrow> e s = (Inr res, s1) \<Longrightarrow> sr_ok res = Yes \<Longrightarrow> now s1 = (t, s2) \<Longrightarrow>
      I p0 s \<Longrightarrow> I p s2"
  shows "\<exists>p0 e s1 res s2. rank p0 + 1 = rank DONE \<and> I p0 s1 \<and> for_phase eff DONE = Some e \<and>
    e s1 = (Inr res, s2) \<and> sr_ok res = Yes \<and> snd (now s2) = s'"
  using assms(1-5)
proof (induction rule: drives.induct)
  case (stuck r p e s res s1 logs out)
  from stop_past_no_return_out(2) [OF stuck.hyps(6) resume_listed [OF stuck.prems(2) stuck.hyps(1)]] stuck.prems(1)
  show ?case by (simp split: if_splits)
next
  case (abandoned r p e s res s1 t s2 logs out)
  from stop_and_abort_out(2) [OF abandoned.hyps(7) resume_listed [OF abandoned.prems(2) abandoned.hyps(1)]
      abandoned.hyps(5)] abandoned.prems(1)
  show ?case by (simp split: if_splits)
next
  case (stepped r p e s res s1 t s2 out s')
  have p: "p \<in> set PHASES" "rank p = rank (r_phase r) + 1"
    using stepped.hyps(1) stepped.prems(2) by (simp_all add: resume_from_iff)
  show ?case
  proof (cases "p = DONE")
    case True
    have fin: "r_phase (journal r p t (sr_detail res)) = DONE" by (simp add: True)
    from stepped.hyps(6) have "s2 = s'"
      by (cases rule: drives.cases) (use fin in \<open>auto simp: is_terminal_def resume_from_def\<close>)
    then show ?thesis
      using stepped.hyps(2-5) stepped.prems(4) p True by (intro exI [of _ "r_phase r"]) auto
  next
    case False
    have "I p s2" using assms(6) [OF p False stepped.hyps(2-5) stepped.prems(4)] .
    then show ?thesis using stepped.IH stepped.prems(1,2) p False
      by (simp add: journal_fields journal_ok)
  qed
qed simp

text \<open>
  A run that stops at a phase called no effect of a later phase: whatever the effects up to
  that phase and the clock keep, the run keeps.
\<close>

lemma drives_frame:
  assumes "drives eff now r s out s'" and "relocation_ok r" and "eo_stopped_at out = Some q"
    and "\<And>p e s. for_phase eff p = Some e \<Longrightarrow> p \<in> set PHASES \<Longrightarrow> rank p \<le> rank q \<Longrightarrow> Q s \<Longrightarrow> Q (snd (e s))"
    and "\<And>s. Q s \<Longrightarrow> Q (snd (now s))" and "Q s"
  shows "Q s'"
  using assms
proof (induction rule: drives.induct)
  case (stuck r p e s res s1 logs out)
  then have "p = q"
    using stop_past_no_return_out(4) [OF stuck.hyps(6) resume_listed [OF stuck.prems(1) stuck.hyps(1)]]
    by simp
  moreover have "p \<in> set PHASES" using stuck by (simp add: resume_from_iff)
  ultimately have "Q (snd (e s))" using stuck.prems(3) [OF stuck.hyps(2)] stuck.prems(5) by simp
  with stuck.hyps(3) show ?case by simp
next
  case (abandoned r p e s res s1 t s2 logs out)
  then have "p = q"
    using stop_and_abort_out(4) [OF abandoned.hyps(7)
      resume_listed [OF abandoned.prems(1) abandoned.hyps(1)] abandoned.hyps(5)]
    by simp
  moreover have "p \<in> set PHASES" using abandoned by (simp add: resume_from_iff)
  ultimately have "Q (snd (e s))" using abandoned.prems(3) [OF abandoned.hyps(2)] abandoned.prems(5) by simp
  then have "Q (snd (now s1))" using abandoned.prems(4) abandoned.hyps(3) by simp
  with abandoned.hyps(6) show ?case by simp
next
  case (stepped r p e s res s1 t s2 out s')
  have p: "p \<in> set PHASES" using stepped by (simp add: resume_from_iff)
  have ok: "relocation_ok (journal r p t (sr_detail res))" using stepped p by (simp add: journal_ok)
  have "rank p < rank q"
    using drives_ends [OF stepped.hyps(6) ok] stepped.prems(2) by (simp add: ends_as_def)
  then have "Q (snd (e s))" using stepped.prems(3) [OF stepped.hyps(2) p] stepped.prems(5) by simp
  then have "Q (snd (now s1))" using stepped.prems(4) stepped.hyps(3) by simp
  then have "Q s2" using stepped.hyps(5) by simp
  with ok stepped.prems(2-4) show ?case by (intro stepped.IH)
qed simp

subsection \<open>Properties\<close>

text \<open>
  C2: A run ends with a resumable record or with an effect's own exception. Started on any sound journal,
  with any effects and any clock, the driver ends. When it returns, every effect was supplied, the journal
  it was given was not aborted, the outcome passes its own constructor's checks, and it is classified by
  where it stopped: it completed, and the journal is at DONE; or it stopped at DONE, after the lease
  moved, and the journal stands at the handover; or it stopped at an earlier phase beyond the one it
  resumed from, and the journal is aborted. When it raises, either it refused before the first effect,
  because one was not supplied or the journal was aborted, or the exception is one an effect raised,
  and nothing was done after that effect.
\<close>

theorem execute_ends:
  assumes "relocation_ok r"
  shows "case execute r eff now s of
      (Inr out, s') \<Rightarrow> missing_effects eff = [] \<and> r_phase r \<noteq> ABORTED \<and> outcome_ok out \<and> ends_as r out
    | (Inl err, s') \<Rightarrow> (missing_effects eff \<noteq> [] \<or> r_phase r = ABORTED) \<and> s' = s \<or> raised_by eff err s'"
proof (cases "execute r eff now s")
  case (Pair x s')
  show ?thesis
  proof (cases x)
    case (Inr out)
    with Pair have e: "execute r eff now s = (Inr out, s')" by simp
    from execute_drives [OF e assms] drives_ends [OF execute_drives(1) [OF e assms] assms] Pair Inr
    show ?thesis by (auto simp: PHASES_def)
  next
    case (Inl err)
    have listed: "r_phase r \<in> set PHASES \<longleftrightarrow> r_phase r \<noteq> ABORTED"
      using assms by (auto simp: relocation_ok_def PHASES_def)
    show ?thesis
    proof (cases "missing_effects eff = [] \<and> r_phase r \<noteq> ABORTED")
      case True
      with Pair Inl listed have "execute_loop (drop (Suc (rank (r_phase r))) PHASES) eff now r [] s = (Inl err, s')"
        by (simp add: execute_def)
      with loop_returns [OF assms] True listed Pair Inl show ?thesis by auto
    next
      case False
      with Pair Inl listed show ?thesis by (auto simp: execute_def phase_index_def split: if_splits)
    qed
  qed
qed

text \<open>
  A stopped run touched nothing beyond the phase it stopped at. Any fact about the hosts and
  stores that the effects up to that phase and the clock keep is true after the run: a run
  stopped before the handover, in particular, called neither the handover effect nor the one
  that records residency and retires the source.
\<close>

theorem stopped_run_frame:
  assumes "execute r eff now s = (Inr out, s')" and "relocation_ok r" and "eo_stopped_at out = Some q"
    and "\<And>p e s. for_phase eff p = Some e \<Longrightarrow> p \<in> set PHASES \<Longrightarrow> rank p \<le> rank q \<Longrightarrow> Q s \<Longrightarrow> Q (snd (e s))"
    and "\<And>s. Q s \<Longrightarrow> Q (snd (now s))" and "Q s"
  shows "Q s'"
  using execute_drives(1) [OF assms(1,2)] assms(2-6) by (rule drives_frame)

text \<open>
  The driver changes the journal only by the moves of the phase machine. Whatever the
  effects answer, the relocation it returns is reached from the one it was given by advances and
  aborts, so its steps extend the given ones and a relocation past the handover is not aborted.
\<close>

theorem execute_only_moves:
  assumes "execute r eff now s = (Inr out, s')" and "relocation_ok r"
  shows "reloc_move\<^sup>*\<^sup>* r (eo_relocation out) \<and> (\<exists>es. r_steps (eo_relocation out) = r_steps r @ es) \<and>
    (is_past_no_return r \<longrightarrow> r_phase (eo_relocation out) \<noteq> ABORTED)"
proof -
  have m: "reloc_move\<^sup>*\<^sup>* r (eo_relocation out)"
    using drives_moves [OF execute_drives(1) [OF assms] assms(2)] .
  with relocation_journal.trail_moves [OF m assms(2)]
    relocation_journal.committed_moves [OF m assms(2)] show ?thesis by blast
qed

subsection \<open>Witnesses\<close>

text \<open>
  A state that counts the effects run; every effect succeeds but the handover, whose answer is
  unknown.
\<close>

definition demo_effect :: "tri \<Rightarrow> (nat \<times> bool) effect option" where
  "demo_effect k = Some (\<lambda>(n, handed). (Inr (step_not k (Txt ''did'') (Txt ''look'')), (Suc n, handed)))"

definition demo_effects :: "tri \<Rightarrow> (nat \<times> bool) phase_effects" where
  "demo_effects k = \<lparr>pe_start_target_standby = demo_effect Yes, pe_handshake = demo_effect k,
     pe_drain_source = demo_effect Yes,
     pe_hand_over_lease = Some (\<lambda>(n, handed). (Inr (step_yes (Txt ''handed'')), (Suc n, True))),
     pe_stop_source = demo_effect Yes, pe_transport_transcript = demo_effect Yes,
     pe_finish = demo_effect Yes\<rparr>"

definition demo_clock :: "(nat \<times> bool) clock" where
  "demo_clock s = (of_nat (fst s), s)"

lemma demo_no_missing: "missing_effects (demo_effects k) = []"
  by (simp add: missing_effects_def PHASES_def demo_effects_def demo_effect_def)

lemma demo_stops_at_handshake:
  "\<exists>out s'. execute demo_relocation (demo_effects Unknown) demo_clock (0, False) = (Inr out, s') \<and>
     eo_stopped_at out = Some HANDSHAKE"
  unfolding execute_def demo_no_missing
  by (simp add: demo_relocation_def PHASES_def phase_index_def execute_loop.simps demo_effects_def demo_effect_def demo_clock_def Let_def advance_def
      is_terminal_def is_past_no_return_def stop_and_abort_def abort_def leaves_source_stopped_def
      standby_running_def aborted_outcome_def rank_def journal_def)
    (rule exI [of _ False], simp)

theorem stopped_run_frame_witness:
  "\<exists>out s'. execute demo_relocation (demo_effects Unknown) demo_clock (0, False) = (Inr out, s') \<and>
     eo_stopped_at out = Some HANDSHAKE \<and> \<not> snd s'"
proof -
  obtain out s' where e: "execute demo_relocation (demo_effects Unknown) demo_clock (0, False) = (Inr out, s')"
    and q: "eo_stopped_at out = Some HANDSHAKE"
    using demo_stops_at_handshake by blast
  have "\<not> snd s'"
  proof (rule stopped_run_frame [OF e demo_ok q])
    fix p f and s :: "nat \<times> bool"
    assume "for_phase (demo_effects Unknown) p = Some f" "p \<in> set PHASES" "rank p \<le> rank HANDSHAKE" "\<not> snd s"
    then show "\<not> snd (snd (f s))"
      by (cases s) (auto simp: in_PHASES_iff demo_effects_def demo_effect_def)
  qed (simp_all add: demo_clock_def)
  with e q show ?thesis by blast
qed

theorem execute_only_moves_witness:
  "\<exists>out s'. execute demo_relocation (demo_effects Unknown) demo_clock (0, False) = (Inr out, s') \<and>
     reloc_move\<^sup>*\<^sup>* demo_relocation (eo_relocation out)"
proof -
  obtain out s' where e: "execute demo_relocation (demo_effects Unknown) demo_clock (0, False) = (Inr out, s')"
    using demo_stops_at_handshake by blast
  with execute_only_moves [OF e demo_ok] show ?thesis by blast
qed

end
