(* ===== verification/Hosts.thy ===== *)
theory Hosts
  imports Execute Session_Choice "HOL-Library.Product_Lexorder"
begin

text \<open>
  Talking to the two hosts: \<open>_relocate_shell.py\<close>, \<open>_relocate_probe_ssh.py\<close>,
  \<open>_relocate_liveness.py\<close>, \<open>_relocate_target_ssh.py\<close> and \<open>_relocate_transport_ssh.py\<close>.

  What runs on a host is outside the program: the command broker, \<open>ssh\<close>, the shell and the files
  there are the parameter \<open>en_exec\<close> of the record \<open>env\<close>, a function on the world \<open>'w\<close>. A shell
  script is a value of \<open>script\<close>: one constructor per script the code spells, holding the values
  it interpolates (each quoted by \<open>shlex.quote\<close>). What the code does with the answer is modelled
  as it is written: the marked lines of the output, read with Python's string operations.
\<close>

subsection \<open>Shells, scripts and command lines\<close>

record shell =
  sh_host :: string
  sh_is_local :: bool
  sh_preamble :: string
  sh_timeout :: time

record remote_run =
  rr_stdout :: string
  rr_stderr :: string
  rr_exit_code :: int

datatype script =
    Running_Script string string            \<comment> \<open>does tmux have one of these two sessions\<close>
  | Stop_Script string                      \<comment> \<open>\<open>sac agents stop\<close>\<close>
  | Home_Script | Hostname_Script
  | Readlink_Script string
  | List_Script string                      \<comment> \<open>\<open>ls -A\<close> of a directory\<close>
  | Tree_Script string                      \<comment> \<open>every file under a directory, with its size\<close>
  | Sample_Script string                    \<comment> \<open>name, size, mtime of each transcript\<close>
  | Measure_Script string "string list"     \<comment> \<open>\<open>wc -c\<close> and \<open>wc -l\<close> of the named files\<close>
  | Snapshot_Script string "string list"    \<comment> \<open>bytes and lines up to the last newline\<close>
  | Mkdir_Script string
  | Move_Script string string               \<comment> \<open>\<open>mv\<close> a directory to a new place\<close>
  | Read_Marker_Script string
  | Write_Marker_Script string string
  | Write_Text_Script string msg
  | Start_Script string string              \<comment> \<open>\<open>sac agents start --resume --no-redispatch\<close>\<close>
  | Send_Script string string               \<comment> \<open>\<open>sac agents send\<close>\<close>
  | Search_Script string string             \<comment> \<open>\<open>grep -F\<close> over the transcripts\<close>
  | Land_Script string string string        \<comment> \<open>\<open>cat >\<close> a landing file, then name it\<close>
  | Untar_Script string
  | Join_Script "arg list"                  \<comment> \<open>\<open>shlex.join\<close> of an argument list\<close>
and arg =
    Word string | Number int
  | Body string script                      \<comment> \<open>a script behind its preamble\<close>
  | Pipe "(arg list \<times> arg list) list"       \<comment> \<open>producers piped into consumers, one after the other\<close>

text \<open>\<open>Shell.__post_init__\<close> and \<open>Shell.script\<close>.\<close>

definition mk_shell :: "string \<Rightarrow> bool \<Rightarrow> string \<Rightarrow> time \<Rightarrow> shell result" where
  "mk_shell host is_local preamble timeout =
     (if host = [] then Inl (ValueError ''Shell.host must be non-empty'')
      else Inr \<lparr>sh_host = host, sh_is_local = is_local, sh_preamble = preamble, sh_timeout = timeout\<rparr>)"

definition shell_script :: "shell \<Rightarrow> script \<Rightarrow> arg" where
  "shell_script sh body = Body (sh_preamble sh) body"

subsection \<open>The environment\<close>

text \<open>
  The broker's answer to one command: \<open>None\<close> when it is not the documented dictionary, and in it
  no exit code when the one it carries is not an integer.
\<close>

record host_body =
  hb_timed_out :: bool
  hb_exit_code :: "int option"
  hb_stdout :: string
  hb_stderr :: string

text \<open>What the registry of peers says of one host (\<open>PeerSpec\<close>): ssh name, jump chain, preamble.\<close>

record peer =
  pe_ssh :: string
  pe_chain :: "string list"
  pe_preamble :: string

text \<open>The rows of the three stores, as \<open>_state/relocation_pg.py\<close> lays them out.\<close>

record lease_row =
  lr_agent :: string
  lr_holder :: string
  lr_token :: "string option"
  lr_fence :: int
  lr_expires_at :: time
  lr_updated_at :: time

record residency_row =
  rs_agent :: string
  rs_host :: string
  rs_from_ts :: time
  rs_to_ts :: "time option"
  rs_seeded :: int
  rs_note :: "string option"

text \<open>A stored journal; \<open>jr_steps\<close> is \<open>None\<close> when its JSON text does not parse.\<close>

record journal_row =
  jr_agent :: string
  jr_attempt :: int
  jr_from_host :: string
  jr_to_host :: string
  jr_phase :: phase
  jr_steps :: "journal_step list option"
  jr_started_at :: time
  jr_updated_at :: time

text \<open>
  Everything the adapters are handed and cannot be read here: the broker, the clock, sleeping,
  random tokens, the registry of peers and the record store of \<open>scitex_dev.store\<close>. A batch
  commits its rows together, or none; \<open>rows\<close> come with their store stamps.
\<close>

record 'w env =
  en_exec :: "arg list \<Rightarrow> time \<Rightarrow> ('w, host_body option) prog"
  en_now :: "'w \<Rightarrow> time \<times> 'w"
  en_sleep :: "time \<Rightarrow> 'w \<Rightarrow> 'w"
  en_token_hex :: "nat \<Rightarrow> 'w \<Rightarrow> string \<times> 'w"
  en_peer :: "string \<Rightarrow> peer option"
  en_get_lease :: "string \<Rightarrow> ('w, lease_row option) prog"
  en_put_lease :: "lease_row \<Rightarrow> ('w, unit) prog"
  en_residency_rows :: "('w, (residency_row \<times> int) list) prog"
  en_put_residency :: "residency_row list \<Rightarrow> ('w, unit) prog"
  en_journal_rows :: "('w, journal_row list) prog"
  en_put_journal :: "journal_row \<Rightarrow> ('w, unit) prog"

definition now_of :: "'w env \<Rightarrow> ('w, time) prog" where
  "now_of e w = (case en_now e w of (t, w') \<Rightarrow> (Inr t, w'))"

definition sleep_for :: "'w env \<Rightarrow> time \<Rightarrow> ('w, unit) prog" where
  "sleep_for e d w = (Inr (), en_sleep e d w)"

definition token_of :: "'w env \<Rightarrow> nat \<Rightarrow> ('w, string) prog" where
  "token_of e n w = (case en_token_hex e n w of (t, w') \<Rightarrow> (Inr t, w'))"

subsection \<open>Running a command\<close>

text \<open>
  \<open>except Exception\<close> turns whatever the broker raises into a \<open>ProbeTransportError\<close>;
  \<open>SystemExit\<close> is not an \<open>Exception\<close>. (The extra fields of the error of
  \<open>_transport_error\<close>, the HTTP status and its kind, are not kept.)
\<close>

fun transport_error :: "string \<Rightarrow> py_error \<Rightarrow> py_error" where
  "transport_error what (SystemExit n) = SystemExit n"
| "transport_error what _ = ProbeTransportError what"

definition read_body :: "host_body option \<Rightarrow> remote_run result" where
  "read_body body =
     (case body of
        None \<Rightarrow> Inl (ProbeTransportError ''not the documented body'')
      | Some b \<Rightarrow>
          (if hb_timed_out b then Inl (ProbeTransportError ''timed out'')
           else (case hb_exit_code b of
             None \<Rightarrow> Inl (ProbeTransportError ''no integer exit_code'')
           | Some code \<Rightarrow> Inr \<lparr>rr_stdout = hb_stdout b, rr_stderr = hb_stderr b, rr_exit_code = code\<rparr>)))"

definition run_argv_on_host :: "'w env \<Rightarrow> arg list \<Rightarrow> time \<Rightarrow> ('w, remote_run) prog" where
  "run_argv_on_host e argv timeout w =
     (case en_exec e argv timeout w of
        (Inl err, w') \<Rightarrow> (Inl (transport_error ''could not run the command'' err), w')
      | (Inr body, w') \<Rightarrow> (read_body body, w'))"

definition build_probe_argv :: "'w env \<Rightarrow> string \<Rightarrow> arg \<Rightarrow> arg list result" where
  "build_probe_argv e host script =
     (if host = [] then Inl (ValueError ''build_probe_argv: host must be non-empty'')
      else
       (let target = (case en_peer e host of
              None \<Rightarrow> host | Some p \<Rightarrow> if pe_ssh p = [] then host else pe_ssh p);
            chain = (case en_peer e host of None \<Rightarrow> [] | Some p \<Rightarrow> pe_chain p)
        in Inr ([Word ''ssh''] @
             (if chain = [] then [] else [Word ''-J'', Word (join_with '','' chain)]) @
             [Word ''-o'', Word ''BatchMode=yes'', Word ''-o'', Word ''ConnectTimeout=10'',
              Word ''-o'', Word ''StrictHostKeyChecking=accept-new'', Word target, script])))"

definition run_probe_script :: "'w env \<Rightarrow> string \<Rightarrow> arg \<Rightarrow> time \<Rightarrow> ('w, remote_run) prog" where
  "run_probe_script e host script timeout =
     seq (lift (build_probe_argv e host script)) (\<lambda>argv w.
       (case en_exec e argv timeout w of
          (Inl err, w') \<Rightarrow> (Inl (transport_error ''could not run the probe'' err), w')
        | (Inr body, w') \<Rightarrow> (read_body body, w')))"

text \<open>\<open>Shell.run\<close>, with its own timeout unless one is given.\<close>

definition run_for :: "'w env \<Rightarrow> shell \<Rightarrow> script \<Rightarrow> time \<Rightarrow> ('w, remote_run) prog" where
  "run_for e sh body wait =
     (if \<not> sh_is_local sh then run_probe_script e (sh_host sh) (shell_script sh body) wait
      else run_argv_on_host e [Word ''sh'', Word ''-c'', shell_script sh body] wait)"

abbreviation run_script :: "'w env \<Rightarrow> shell \<Rightarrow> script \<Rightarrow> ('w, remote_run) prog" where
  "run_script e sh body \<equiv> run_for e sh body (sh_timeout sh)"

definition peer_preamble :: "'w env \<Rightarrow> string \<Rightarrow> string" where
  "peer_preamble e host = (case en_peer e host of None \<Rightarrow> [] | Some p \<Rightarrow> pe_preamble p)"

abbreviation SHELL_TIMEOUT_S :: time where "SHELL_TIMEOUT_S \<equiv> 120"

definition shell_for :: "'w env \<Rightarrow> string \<Rightarrow> string option \<Rightarrow> shell result" where
  "shell_for e host local_host =
     (let is_local = present local_host \<and> local_host = Some host in
      mk_shell host is_local (if is_local then [] else peer_preamble e host) SHELL_TIMEOUT_S)"

definition marked :: "remote_run \<Rightarrow> string \<Rightarrow> string list" where
  "marked run mark = map (\<lambda>ln. strip (drop (length mark) ln))
     (filter (\<lambda>ln. starts_with ln mark) (splitlines (rr_stdout run)))"

definition one_marked :: "remote_run \<Rightarrow> string \<Rightarrow> string option" where
  "one_marked run mark = (case marked run mark of [] \<Rightarrow> None | v # _ \<Rightarrow> Some v)"

text \<open>\<open>x or None\<close> on an optional string.\<close>

definition or_none :: "string option \<Rightarrow> string option" where
  "or_none x = (if present x then x else None)"

definition resolved_path :: "'w env \<Rightarrow> shell \<Rightarrow> string \<Rightarrow> ('w, string option) prog" where
  "resolved_path e sh path =
     (if path = [] then ret None
      else seq (run_script e sh (Readlink_Script path)) (\<lambda>run. ret (or_none (one_marked run ''TX-PATH=''))))"

subsection \<open>Is the agent running there\<close>

abbreviation LEGACY_TUI_PREFIX :: string where "LEGACY_TUI_PREFIX \<equiv> ''tui-''"

definition candidate_session_names :: "string \<Rightarrow> (string \<times> string) result" where
  "candidate_session_names agent =
     (if agent = [] then Inl (ValueError ''agent name must be non-empty'')
      else
       (let legacy = (if starts_with agent LEGACY_TUI_PREFIX then agent else LEGACY_TUI_PREFIX @ agent)
        in if legacy = agent then Inr (agent, LEGACY_TUI_PREFIX @ agent) else Inr (agent, legacy)))"

definition exact_target :: "string \<Rightarrow> string" where
  "exact_target name =
     (if name = [] then name
      else if hd name \<in> {CHR ''='', CHR 0x24, CHR 0x40, CHR ''%''} then name
      else if CHR '':'' \<in> set name then ''='' @ name
      else ''='' @ name @ '':'')"

definition interpret_liveness ::
  "string list \<Rightarrow> string \<Rightarrow> string \<Rightarrow> int \<Rightarrow> string \<Rightarrow> tri \<times> msg" where
  "interpret_liveness answers host session code stderr =
     (let answer = (case answers of [] \<Rightarrow> [] | a # _ \<Rightarrow> a) in
      if answer = ''yes'' then (Yes, Fmt ''tmux has the session'' [Txt host, Txt session])
      else if answer = ''no'' then (No, Fmt ''tmux answered and has NO session'' [Txt host, Txt session])
      else if answer = ''no-server'' then (No, Fmt ''no tmux server is running'' [Txt host])
      else if answer = ''no-tmux'' then (Unknown, Fmt ''tmux is not installed'' [Txt host])
      else (Unknown, Fmt ''the liveness probe produced no answer''
             [Txt host, Num code, Txt (take 160 (strip stderr))]))"

definition observe_running :: "'w env \<Rightarrow> shell \<Rightarrow> string \<Rightarrow> ('w, tri \<times> msg) prog" where
  "observe_running e sh agent =
     seq (lift (candidate_session_names agent)) (\<lambda>(bare, legacy).
     seq (run_script e sh (Running_Script (exact_target bare) (exact_target legacy))) (\<lambda>run.
       ret (interpret_liveness (marked run ''TX-RUN='') (sh_host sh) bare
              (rr_exit_code run) (rr_stderr run))))"

subsection \<open>Questions to a host\<close>

definition target_home :: "'w env \<Rightarrow> shell \<Rightarrow> ('w, string option) prog" where
  "target_home e sh = seq (run_script e sh Home_Script) (\<lambda>run.
     ret (or_none (map_option (rstrip_char (CHR ''/'')) (one_marked run ''TX-HOME=''))))"

definition target_hostname :: "'w env \<Rightarrow> shell \<Rightarrow> ('w, string option) prog" where
  "target_hostname e sh = seq (run_script e sh Hostname_Script) (\<lambda>run.
     ret (or_none (map_option strip (one_marked run ''TX-HOSTNAME=''))))"

text \<open>The sort of a tree listing: by name, and by size among equal names.\<close>

definition TAB :: char where "TAB = CHR 0x09"

definition tree_entry :: "string \<Rightarrow> (string \<times> int option) list" where
  "tree_entry raw =
     (let name = strip (takeWhile (\<lambda>c. c \<noteq> TAB) raw);
          size = tl (dropWhile (\<lambda>c. c \<noteq> TAB) raw)
      in if name = [] then [] else [(name, int_or_none size)])"

text \<open>
  \<open>tuple(sorted(out))\<close>. Two entries with the same name, one of them without a size, make Python
  raise a \<open>TypeError\<close> when it comes to compare the sizes.
\<close>

definition tree_clash :: "(string \<times> int option) list \<Rightarrow> bool" where
  "tree_clash es = list_ex (\<lambda>(i, j). i < j \<and> fst (es ! i) = fst (es ! j) \<and>
      snd (es ! i) \<noteq> snd (es ! j) \<and> (snd (es ! i) = None \<or> snd (es ! j) = None))
    (List.product [0..<length es] [0..<length es])"

definition list_tree :: "'w env \<Rightarrow> shell \<Rightarrow> string \<Rightarrow> ('w, (string \<times> int option) list option) prog" where
  "list_tree e sh directory = seq (run_script e sh (Tree_Script directory)) (\<lambda>run.
     (case one_marked run ''TX-HOME='' of
        None \<Rightarrow> ret None
      | Some state \<Rightarrow>
          (if state = ''no'' then ret (Some [])
           else
            (let out = concat (map tree_entry (marked run ''TX-TREE='')) in
             if tree_clash out then raising (OtherError ''TypeError'')
             else ret (Some (sort_key (\<lambda>(n, k). (n, case k of None \<Rightarrow> -1 | Some v \<Rightarrow> v)) out))))))"

abbreviation SID_ABSENT :: string where "SID_ABSENT \<equiv> ''(absent)''"

definition read_session_marker :: "'w env \<Rightarrow> shell \<Rightarrow> string \<Rightarrow> ('w, string option) prog" where
  "read_session_marker e sh state_dir = seq (run_script e sh (Read_Marker_Script state_dir)) (\<lambda>run.
     ret (or_none (map_option strip (one_marked run ''TX-SID=''))))"

definition write_session_marker :: "'w env \<Rightarrow> shell \<Rightarrow> string \<Rightarrow> string \<Rightarrow> ('w, string option) prog" where
  "write_session_marker e sh state_dir uuid =
     (if uuid = [] then raising (ValueError ''write_session_marker needs the session id'')
      else seq (run_script e sh (Write_Marker_Script state_dir uuid)) (\<lambda>run.
        ret (or_none (map_option strip (one_marked run ''TX-SID='')))))"

definition write_text_file :: "'w env \<Rightarrow> shell \<Rightarrow> string \<Rightarrow> msg \<Rightarrow> ('w, int option) prog" where
  "write_text_file e sh path text = seq (run_script e sh (Write_Text_Script path text)) (\<lambda>run.
     ret (case one_marked run ''TX-SID='' of None \<Rightarrow> None | Some v \<Rightarrow> int_or_none v))"

abbreviation START_TIMEOUT_S :: time where "START_TIMEOUT_S \<equiv> 600"
abbreviation DELIVER_TIMEOUT_S :: time where "DELIVER_TIMEOUT_S \<equiv> 180"

definition start_standby :: "'w env \<Rightarrow> shell \<Rightarrow> string \<Rightarrow> string \<Rightarrow> ('w, remote_run) prog" where
  "start_standby e sh agent uuid =
     (if uuid = [] then raising (ValueError ''start_standby needs the carried session id'')
      else run_for e sh (Start_Script agent uuid) START_TIMEOUT_S)"

definition deliver_prompt :: "'w env \<Rightarrow> shell \<Rightarrow> string \<Rightarrow> string \<Rightarrow> ('w, remote_run) prog" where
  "deliver_prompt e sh agent prompt = run_for e sh (Send_Script agent prompt) DELIVER_TIMEOUT_S"

definition search_transcripts :: "'w env \<Rightarrow> shell \<Rightarrow> string \<Rightarrow> string \<Rightarrow> ('w, string list option) prog" where
  "search_transcripts e sh directory needle = seq (run_script e sh (Search_Script directory needle)) (\<lambda>run.
     ret (case one_marked run ''TX-HOME='' of
            None \<Rightarrow> None
          | Some state \<Rightarrow> Some (if state = ''nodir'' then [] else marked run ''TX-MATCH='')))"

subsection \<open>Transcripts on a host\<close>

definition list_transcript_dir :: "'w env \<Rightarrow> shell \<Rightarrow> string \<Rightarrow> ('w, string list option) prog" where
  "list_transcript_dir e sh directory = seq (run_script e sh (List_Script directory)) (\<lambda>run.
     ret (case one_marked run ''TX-DIR='' of
            None \<Rightarrow> None
          | Some there \<Rightarrow> Some (if there = ''no'' then [] else marked run ''TX-ENTRY='')))"

text \<open>One line of a measurement; the constructor of \<open>TranscriptFile\<close> may raise on a file it is handed.\<close>

definition measurement :: "string \<Rightarrow> transcript_file list result" where
  "measurement raw =
     (let parts = split_on TAB raw;
          name = strip (parts ! 0);
          field = (\<lambda>i. if i < length parts then int_or_none (parts ! i) else int_or_none [])
      in if name = [] then Inr []
         else bind_result (mk_transcript_file name (field 1) (field 2)) (\<lambda>f. Inr [f]))"

definition parse_measurements :: "remote_run \<Rightarrow> transcript_file list result" where
  "parse_measurements run = foldr (\<lambda>raw rest. bind_result (measurement raw) (\<lambda>f.
     bind_result rest (\<lambda>fs. Inr (f @ fs)))) (marked run ''TX-FILE='') (Inr [])"

definition measure_transcripts ::
  "'w env \<Rightarrow> shell \<Rightarrow> string \<Rightarrow> string list \<Rightarrow> ('w, transcript_file list) prog" where
  "measure_transcripts e sh directory names =
     (if names = [] then ret []
      else seq (run_script e sh (Measure_Script directory names)) (\<lambda>run. lift (parse_measurements run)))"

definition snapshot_transcripts ::
  "'w env \<Rightarrow> shell \<Rightarrow> string \<Rightarrow> string list \<Rightarrow> ('w, transcript_file list) prog" where
  "snapshot_transcripts e sh directory names =
     (if names = [] then ret []
      else seq (run_script e sh (Snapshot_Script directory names)) (\<lambda>run. lift (parse_measurements run)))"

definition ensure_dir :: "'w env \<Rightarrow> shell \<Rightarrow> string \<Rightarrow> ('w, tri) prog" where
  "ensure_dir e sh directory = seq (run_script e sh (Mkdir_Script directory)) (\<lambda>run.
     ret (map_option (\<lambda>answer. answer = ''yes'') (one_marked run ''TX-DIR='')))"

definition move_dir_aside :: "'w env \<Rightarrow> shell \<Rightarrow> string \<Rightarrow> string \<Rightarrow> ('w, tri) prog" where
  "move_dir_aside e sh directory destination =
     (if destination = [] then raising (ValueError ''move_dir_aside needs somewhere to move it TO'')
      else seq (run_script e sh (Move_Script directory destination)) (\<lambda>run.
        ret (map_option (\<lambda>answer. answer \<in> {''yes'', ''vacuous''}) (one_marked run ''TX-MOVED=''))))"

definition bare_name :: "string \<Rightarrow> bool" where
  "bare_name n \<longleftrightarrow> CHR ''/'' \<notin> set n \<and> n \<notin> {[], ''.'', ''..''}"

definition refuse_bad_snapshots :: "transcript_file list \<Rightarrow> unit result" where
  "refuse_bad_snapshots files =
     (if files = [] then Inl (ValueError ''build_copy_argv refuses an empty file list'')
      else if \<not> list_all (\<lambda>f. bare_name (tf_name f)) files
        then Inl (ValueError ''build_copy_argv takes bare file names'')
      else if list_ex (\<lambda>f. tf_name f \<in> set CREDENTIAL_BASENAMES) files
        then Inl (ValueError ''build_copy_argv refuses to carry a credential'')
      else if list_ex (\<lambda>f. case tf_byte_count f of None \<Rightarrow> True | Some n \<Rightarrow> n < 0) files
        then Inl (ValueError ''build_copy_argv refuses to carry with no recorded byte offset'')
      else Inr ())"

text \<open>One stage of the copy: the first \<open>n\<close> bytes of a file, piped into its landing place.\<close>

definition copy_stage ::
  "'w env \<Rightarrow> shell \<Rightarrow> string \<Rightarrow> shell \<Rightarrow> string \<Rightarrow> transcript_file \<Rightarrow> (arg list \<times> arg list) result" where
  "copy_stage e src source_dir tgt target_dir f =
     (let n = (case tf_byte_count f of None \<Rightarrow> 0 | Some n \<Rightarrow> n);
          read = [Word ''head'', Word ''-c'', Number n, Word ''--'',
            Word (rstrip_char (CHR ''/'') source_dir @ ''/'' @ tf_name f)];
          landing = rstrip_char (CHR ''/'') target_dir @ ''/'' @ tf_name f
      in bind_result (if sh_is_local src then Inr read
           else build_probe_argv e (sh_host src) (shell_script src (Join_Script read))) (\<lambda>produce.
         bind_result (build_probe_argv e (sh_host tgt)
             (shell_script tgt (Land_Script target_dir landing (tf_name f)))) (\<lambda>consume.
         Inr (produce, consume))))"

fun copy_stages ::
  "'w env \<Rightarrow> shell \<Rightarrow> string \<Rightarrow> shell \<Rightarrow> string \<Rightarrow> transcript_file list \<Rightarrow> (arg list \<times> arg list) list result" where
  "copy_stages e src source_dir tgt target_dir [] = Inr []"
| "copy_stages e src source_dir tgt target_dir (f # fs) =
     bind_result (copy_stage e src source_dir tgt target_dir f) (\<lambda>st.
     bind_result (copy_stages e src source_dir tgt target_dir fs) (\<lambda>sts. Inr (st # sts)))"

definition build_copy_argv ::
  "'w env \<Rightarrow> shell \<Rightarrow> string \<Rightarrow> shell \<Rightarrow> string \<Rightarrow> transcript_file list \<Rightarrow> arg list result" where
  "build_copy_argv e src source_dir tgt target_dir files =
     bind_result (refuse_bad_snapshots files) (\<lambda>_.
     bind_result (copy_stages e src source_dir tgt target_dir files) (\<lambda>stages.
       Inr [Word ''bash'', Word ''-c'', Pipe stages]))"

definition build_tree_copy_argv ::
  "'w env \<Rightarrow> shell \<Rightarrow> string \<Rightarrow> shell \<Rightarrow> string \<Rightarrow> string list \<Rightarrow> arg list result" where
  "build_tree_copy_argv e src source_dir tgt target_dir names =
     (if names = [] then Inl (ValueError ''build_tree_copy_argv refuses an empty list'')
      else if \<not> list_all bare_name names then Inl (ValueError ''build_tree_copy_argv takes bare entry names'')
      else if list_ex (\<lambda>n. n \<in> set CREDENTIAL_BASENAMES) names
        then Inl (ValueError ''build_tree_copy_argv refuses to carry a credential'')
      else
       (let tar = [Word ''tar'', Word ''-C'', Word source_dir, Word ''-cf'', Word ''-'', Word ''--''] @ map Word names
        in bind_result (if sh_is_local src then Inr tar
             else build_probe_argv e (sh_host src) (shell_script src (Join_Script tar))) (\<lambda>produce.
           bind_result (build_probe_argv e (sh_host tgt) (shell_script tgt (Untar_Script target_dir))) (\<lambda>consume.
             Inr [Word ''bash'', Word ''-c'', Pipe [(produce, consume)]]))))"

abbreviation COPY_TIMEOUT_S :: time where "COPY_TIMEOUT_S \<equiv> 900"

definition copy_tree ::
  "'w env \<Rightarrow> shell \<Rightarrow> string \<Rightarrow> shell \<Rightarrow> string \<Rightarrow> string list \<Rightarrow> ('w, remote_run) prog" where
  "copy_tree e src source_dir tgt target_dir names =
     seq (lift (build_tree_copy_argv e src source_dir tgt target_dir names)) (\<lambda>argv.
       run_argv_on_host e argv COPY_TIMEOUT_S)"

definition copy_transcripts ::
  "'w env \<Rightarrow> shell \<Rightarrow> string \<Rightarrow> shell \<Rightarrow> string \<Rightarrow> transcript_file list \<Rightarrow> ('w, remote_run) prog" where
  "copy_transcripts e src source_dir tgt target_dir files =
     seq (lift (build_copy_argv e src source_dir tgt target_dir files)) (\<lambda>argv.
       run_argv_on_host e argv COPY_TIMEOUT_S)"

subsection \<open>Frames\<close>

text \<open>The command line a script is run with on a host.\<close>

definition command_of :: "'w env \<Rightarrow> shell \<Rightarrow> script \<Rightarrow> arg list result" where
  "command_of e sh body =
     (if \<not> sh_is_local sh then build_probe_argv e (sh_host sh) (shell_script sh body)
      else Inr [Word ''sh'', Word ''-c'', shell_script sh body])"

text \<open>\<open>keeps R e sh body\<close>: running the script on that host stays in \<open>R\<close>.\<close>

definition keeps :: "('w \<Rightarrow> 'w \<Rightarrow> bool) \<Rightarrow> 'w env \<Rightarrow> shell \<Rightarrow> script \<Rightarrow> bool" where
  "keeps R e sh body \<longleftrightarrow> (\<forall>argv t. command_of e sh body = Inr argv \<longrightarrow> stays R (en_exec e argv t))"

lemma run_for_cases:
  assumes "run_for e sh body t w = (r, w')"
  obtains (refused) err where "command_of e sh body = Inl err" "r = Inl err" "w' = w"
    | (raised) argv err what where "command_of e sh body = Inr argv" "en_exec e argv t w = (Inl err, w')"
        "r = Inl (transport_error what err)"
    | (answered) argv b where "command_of e sh body = Inr argv" "en_exec e argv t w = (Inr b, w')"
        "r = read_body b"
  using assms
  by (cases "build_probe_argv e (sh_host sh) (shell_script sh body)")
    (auto simp: run_for_def run_argv_on_host_def run_probe_script_def seq_def lift_def command_of_def
      split: if_splits prod.splits sum.splits)

lemma stays_run_for [frame]:
  assumes "preorder R" and "keeps R e sh body"
  shows "stays R (run_for e sh body t)"
  unfolding stays_def
proof
  fix w
  obtain r w' where run: "run_for e sh body t w = (r, w')" by fastforce
  then have "R w w'"
  proof (cases rule: run_for_cases)
    case refused
    with assms(1) show ?thesis by (simp add: preorder_def)
  qed (use assms(2) in \<open>auto simp: keeps_def dest: staysD\<close>)
  then show "R w (snd (run_for e sh body t w))" by (simp add: run)
qed

lemma run_for_raises:
  assumes "fst (run_for e sh body t w) = Inl err"
  shows "(\<exists>m. err = ProbeTransportError m) \<or> (\<exists>n. err = SystemExit n) \<or> (\<exists>m. err = ValueError m)"
proof -
  obtain r w' where run: "run_for e sh body t w = (r, w')" by fastforce
  with assms have r: "r = Inl err" by simp
  from run show ?thesis
  proof (cases rule: run_for_cases)
    case refused
    with r show ?thesis
      by (auto simp: command_of_def build_probe_argv_def Let_def split: if_splits)
  next
    case (raised argv err' what)
    with r show ?thesis by (cases err') auto
  next
    case (answered argv b)
    with r show ?thesis by (auto simp: read_body_def split: option.splits if_splits)
  qed
qed

lemma never_run_for [frame]: "never (OtherError m) (run_for e sh body t)"
  unfolding never_def by (auto dest!: run_for_raises)

text \<open>The questions run one script each.\<close>

lemmas question_defs = resolved_path_def target_home_def target_hostname_def list_tree_def
  read_session_marker_def write_session_marker_def write_text_file_def start_standby_def
  deliver_prompt_def search_transcripts_def list_transcript_dir_def measure_transcripts_def
  snapshot_transcripts_def ensure_dir_def move_dir_aside_def observe_running_def

lemma stays_questions [frame]:
  assumes "preorder R"
  shows "keeps R e sh (Readlink_Script p) \<Longrightarrow> stays R (resolved_path e sh p)"
    and "keeps R e sh Home_Script \<Longrightarrow> stays R (target_home e sh)"
    and "keeps R e sh Hostname_Script \<Longrightarrow> stays R (target_hostname e sh)"
    and "keeps R e sh (Tree_Script d) \<Longrightarrow> stays R (list_tree e sh d)"
    and "keeps R e sh (Read_Marker_Script d) \<Longrightarrow> stays R (read_session_marker e sh d)"
    and "keeps R e sh (Write_Marker_Script d u) \<Longrightarrow> stays R (write_session_marker e sh d u)"
    and "keeps R e sh (Write_Text_Script p x) \<Longrightarrow> stays R (write_text_file e sh p x)"
    and "keeps R e sh (Start_Script a u) \<Longrightarrow> stays R (start_standby e sh a u)"
    and "keeps R e sh (Send_Script a q) \<Longrightarrow> stays R (deliver_prompt e sh a q)"
    and "keeps R e sh (Search_Script d n) \<Longrightarrow> stays R (search_transcripts e sh d n)"
    and "keeps R e sh (List_Script d) \<Longrightarrow> stays R (list_transcript_dir e sh d)"
    and "keeps R e sh (Measure_Script d ns) \<Longrightarrow> stays R (measure_transcripts e sh d ns)"
    and "keeps R e sh (Snapshot_Script d ns) \<Longrightarrow> stays R (snapshot_transcripts e sh d ns)"
    and "keeps R e sh (Mkdir_Script d) \<Longrightarrow> stays R (ensure_dir e sh d)"
    and "keeps R e sh (Move_Script d d') \<Longrightarrow> stays R (move_dir_aside e sh d d')"
    and "(\<And>b l. keeps R e sh (Running_Script b l)) \<Longrightarrow> stays R (observe_running e sh a)"
  using assms by (auto simp: question_defs Let_def split: option.splits intro!: frame)

end
