(* ===== verification/Quiescence.thy ===== *)
theory Quiescence
  imports Hosts
begin

text \<open>
  Waiting for the source's transcripts to stop changing after a stop (\<open>_relocate_quiescence.py\<close>).
  The code's \<open>while True\<close> has no bound of its own: what ends it is the clock passing a deadline
  while it sleeps. Here it runs on fuel, and \<open>quiescence_ends\<close> shows that fifteen rounds are
  enough when sleeping makes the clock advance.
\<close>

abbreviation QUIESCENCE_INTERVAL_S :: time where "QUIESCENCE_INTERVAL_S \<equiv> 2"
abbreviation QUIESCENCE_TIMEOUT_S :: time where "QUIESCENCE_TIMEOUT_S \<equiv> 30"

record file_state =
  fs_name :: string
  fs_byte_count :: "int option"
  fs_mtime :: "string option"

record quiescence =
  qu_settled :: tri
  qu_detail :: msg
  qu_hint :: msg

text \<open>\<open>Quiescence.__post_init__\<close>.\<close>

definition quiescence_ok :: "quiescence \<Rightarrow> bool" where
  "quiescence_ok q \<longleftrightarrow> truthy (qu_detail q) \<and> (qu_settled q \<noteq> Yes \<longrightarrow> truthy (qu_hint q))"

definition sample_line :: "string \<Rightarrow> file_state list" where
  "sample_line raw =
     (let parts = split_on TAB raw;
          name = strip (parts ! 0);
          mtime = (if 2 < length parts then strip (parts ! 2) else [])
      in if name = [] then []
         else [\<lparr>fs_name = name,
                fs_byte_count = (if 1 < length parts then int_or_none (parts ! 1) else int_or_none []),
                fs_mtime = (if mtime = [] then None else Some mtime)\<rparr>])"

definition sample_transcripts :: "'w env \<Rightarrow> shell \<Rightarrow> string \<Rightarrow> ('w, file_state list option) prog" where
  "sample_transcripts e sh directory = seq (run_script e sh (Sample_Script directory)) (\<lambda>run.
     ret (case one_marked run ''TX-QDIR='' of
            None \<Rightarrow> None
          | Some _ \<Rightarrow> Some (sort_key fs_name (concat (map sample_line (marked run ''TX-QUIET=''))))))"

text \<open>The last state of each name, as a dictionary comprehension keeps it.\<close>

definition by_name :: "file_state list \<Rightarrow> string \<Rightarrow> file_state option" where
  "by_name sample = map_of (rev (map (\<lambda>f. (fs_name f, f)) sample))"

definition opt_num :: "int option \<Rightarrow> msg" where
  "opt_num x = (case x of None \<Rightarrow> Fmt ''None'' [] | Some n \<Rightarrow> Num n)"

definition describe_change :: "file_state list \<Rightarrow> file_state list \<Rightarrow> msg" where
  "describe_change earlier after =
     (let was = map fs_name earlier; new = map fs_name after;
          names = (\<lambda>p. sort (remdups (filter p (was @ new))));
          note = (\<lambda>n. (let old = the (by_name earlier n); cur = the (by_name after n) in
            if fs_byte_count old \<noteq> fs_byte_count cur then
              [Fmt ''went from'' [Txt n, opt_num (fs_byte_count old), opt_num (fs_byte_count cur),
                 Num ((case fs_byte_count cur of None \<Rightarrow> 0 | Some k \<Rightarrow> k) -
                      (case fs_byte_count old of None \<Rightarrow> 0 | Some k \<Rightarrow> k))]]
            else if fs_mtime old \<noteq> fs_mtime cur then
              [Fmt ''was rewritten in place at the same size'' [Txt n, opt_msg (fs_mtime old), opt_msg (fs_mtime cur)]]
            else []))
      in Fmt ''; ''
        (map (\<lambda>n. Fmt ''appeared'' [Txt n]) (names (\<lambda>n. n \<in> set new \<and> n \<notin> set was)) @
         map (\<lambda>n. Fmt ''disappeared'' [Txt n]) (names (\<lambda>n. n \<in> set was \<and> n \<notin> set new)) @
         concat (map note (names (\<lambda>n. n \<in> set was \<and> n \<in> set new)))))"

definition unmeasured :: "file_state list \<Rightarrow> string list" where
  "unmeasured sample = map fs_name (filter (\<lambda>f. fs_byte_count f = None) sample)"

definition mtime_note :: "file_state list \<Rightarrow> msg" where
  "mtime_note sample =
     (let blind = map fs_name (filter (\<lambda>f. fs_mtime f = None) sample)
      in if blind = [] then empty_msg else Fmt ''size only for'' (map Txt blind))"

definition not_measured :: "string \<Rightarrow> msg \<Rightarrow> quiescence" where
  "not_measured directory why =
     \<lparr>qu_settled = Unknown,
      qu_detail = Fmt ''has stopped changing was not measured'' [Txt directory, why],
      qu_hint = Fmt ''read the source's transcript directory before copying'' []\<rparr>"

definition settled :: "string \<Rightarrow> file_state list \<Rightarrow> quiescence" where
  "settled directory sample =
     \<lparr>qu_settled = Yes,
      qu_detail = Fmt ''read identically twice''
        [Num (int (length sample)), Txt directory, Sec QUIESCENCE_INTERVAL_S, mtime_note sample],
      qu_hint = empty_msg\<rparr>"

definition still_changing :: "string \<Rightarrow> msg \<Rightarrow> quiescence" where
  "still_changing directory changed =
     \<lparr>qu_settled = Unknown,
      qu_detail = Fmt ''was STILL CHANGING at the deadline'' [Txt directory, Sec QUIESCENCE_TIMEOUT_S, changed],
      qu_hint = Fmt ''something is still writing to the transcript'' []\<rparr>"

abbreviation OUT_OF_FUEL :: py_error where "OUT_OF_FUEL \<equiv> OtherError ''out of fuel''"

fun await_loop :: "nat \<Rightarrow> 'w env \<Rightarrow> shell \<Rightarrow> string \<Rightarrow> time \<Rightarrow> file_state list \<Rightarrow> ('w, quiescence) prog" where
  "await_loop 0 e sh directory deadline first = raising OUT_OF_FUEL"
| "await_loop (Suc n) e sh directory deadline first =
     seq (sleep_for e QUIESCENCE_INTERVAL_S) (\<lambda>_.
     seq (sample_transcripts e sh directory) (\<lambda>reading.
     (case reading of
        None \<Rightarrow> ret (not_measured directory (Fmt ''a follow-up reading gave no answer'' []))
      | Some second \<Rightarrow>
          (if unmeasured second \<noteq> []
             then ret (not_measured directory (Fmt ''no byte count for'' (map Txt (unmeasured second))))
           else if second = first then ret (settled directory second)
           else seq (now_of e) (\<lambda>t.
             if deadline \<le> t then ret (still_changing directory (describe_change first second))
             else await_loop n e sh directory deadline second)))))"

definition QUIESCENCE_ROUNDS :: nat where "QUIESCENCE_ROUNDS = 15"

definition await_quiescence :: "'w env \<Rightarrow> shell \<Rightarrow> string \<Rightarrow> ('w, quiescence) prog" where
  "await_quiescence e sh directory =
     seq (sample_transcripts e sh directory) (\<lambda>reading.
     (case reading of
        None \<Rightarrow> ret (not_measured directory (Fmt ''the sampling script gave no answer'' []))
      | Some first \<Rightarrow>
          (if unmeasured first \<noteq> []
             then ret (not_measured directory (Fmt ''no byte count for'' (map Txt (unmeasured first))))
           else seq (now_of e) (\<lambda>t.
             await_loop QUIESCENCE_ROUNDS e sh directory (t + QUIESCENCE_TIMEOUT_S) first))))"

subsection \<open>The wait ends\<close>

text \<open>
  What is relied on of \<open>time.time\<close> and \<open>time.sleep\<close>: in the world after a command the clock reads
  no earlier than before it, reading it does not set it back, and sleeping moves it on. \<open>clock w\<close>
  is the time the world \<open>w\<close> would read.
\<close>

definition clock_advances :: "'w env \<Rightarrow> ('w \<Rightarrow> time) \<Rightarrow> bool" where
  "clock_advances e clock \<longleftrightarrow>
     (\<forall>w. fst (en_now e w) = clock w \<and> clock w \<le> clock (snd (en_now e w))) \<and>
     (\<forall>d w. clock w + d \<le> clock (en_sleep e d w)) \<and>
     (\<forall>argv t w. clock w \<le> clock (snd (en_exec e argv t w)))"

lemma clock_preorder: "preorder (\<lambda>w w'. clock w \<le> (clock w' :: time))"
  by (auto simp: preorder_def)

lemma sample_clock:
  assumes "clock_advances e clock"
  shows "stays (\<lambda>w w'. clock w \<le> clock w') (sample_transcripts e sh directory)"
proof -
  have "keeps (\<lambda>w w'. clock w \<le> clock w') e sh body" for body
    using assms by (simp add: keeps_def clock_advances_def stays_def)
  then show ?thesis unfolding sample_transcripts_def by (intro frame clock_preorder)
qed

lemma sample_fuel: "never OUT_OF_FUEL (sample_transcripts e sh directory)"
  unfolding sample_transcripts_def by (intro frame)

lemma await_loop_fuel:
  assumes "clock_advances e clock" and "deadline \<le> clock w + of_nat n * QUIESCENCE_INTERVAL_S" and "0 < n"
  shows "fst (await_loop n e sh directory deadline first w) \<noteq> Inl OUT_OF_FUEL"
  using assms(2,3)
proof (induction n arbitrary: first w)
  case (Suc n)
  let ?w = "en_sleep e QUIESCENCE_INTERVAL_S w"
  obtain r w1 where s: "sample_transcripts e sh directory ?w = (r, w1)" by fastforce
  have fuel: "r \<noteq> Inl OUT_OF_FUEL" using neverD [OF sample_fuel s] .
  have c: "clock w + QUIESCENCE_INTERVAL_S \<le> clock w1" "clock w1 \<le> clock (snd (en_now e w1))"
      "fst (en_now e w1) = clock w1"
    using assms(1) staysD [OF sample_clock [OF assms(1)] s]
    by (auto simp: clock_advances_def intro: order_trans)
  have "fst (await_loop n e sh directory deadline f (snd (en_now e w1))) \<noteq> Inl OUT_OF_FUEL"
    if "\<not> deadline \<le> clock w1" for f
  proof (rule Suc.IH)
    show "deadline \<le> clock (snd (en_now e w1)) + of_nat n * QUIESCENCE_INTERVAL_S"
      using c Suc.prems(1) by (simp add: algebra_simps)
    show "0 < n" using c Suc.prems(1) that by (cases n) auto
  qed
  with s fuel c(3) show ?case
    by (auto simp: seq_def sleep_for_def now_of_def ret_def split: sum.splits option.splits prod.splits)
qed simp

lemma await_quiescence_fuel:
  assumes "clock_advances e clock"
  shows "fst (await_quiescence e sh directory w) \<noteq> Inl OUT_OF_FUEL"
proof -
  obtain r w1 where s: "sample_transcripts e sh directory w = (r, w1)" by fastforce
  have "r \<noteq> Inl OUT_OF_FUEL" using neverD [OF sample_fuel s] .
  moreover have "fst (await_loop QUIESCENCE_ROUNDS e sh directory
      (fst (en_now e w1) + QUIESCENCE_TIMEOUT_S) f (snd (en_now e w1))) \<noteq> Inl OUT_OF_FUEL" for f
    using assms by (intro await_loop_fuel [OF assms])
      (auto simp: clock_advances_def QUIESCENCE_ROUNDS_def)
  ultimately show ?thesis using s
    by (auto simp: await_quiescence_def seq_def now_of_def ret_def
        split: sum.splits option.splits prod.splits)
qed

subsection \<open>What a settled answer means\<close>

definition reading_at :: "'w env \<Rightarrow> shell \<Rightarrow> string \<Rightarrow> file_state list \<Rightarrow> 'w \<Rightarrow> 'w \<Rightarrow> bool" where
  "reading_at e sh directory x w w' \<longleftrightarrow>
     sample_transcripts e sh directory w = (Inr (Some x), w') \<and> unmeasured x = []"

lemma await_loop_settled:
  assumes "clock_advances e clock" and "await_loop n e sh directory deadline first w = (Inr q, w')"
    and "reading_at e sh directory first a a'" and "clock a' \<le> clock w"
  shows "quiescence_ok q \<and> qu_settled q \<noteq> No \<and>
    (qu_settled q = Yes \<longrightarrow> (\<exists>x a a' b. reading_at e sh directory x a a' \<and>
       clock a' + QUIESCENCE_INTERVAL_S \<le> clock b \<and> reading_at e sh directory x b w'))"
  using assms(2-4)
proof (induction n arbitrary: first w a a')
  case (Suc n)
  let ?w = "en_sleep e QUIESCENCE_INTERVAL_S w"
  have slept: "clock a' + QUIESCENCE_INTERVAL_S \<le> clock ?w"
    using assms(1) Suc.prems(3) unfolding clock_advances_def by (meson add_right_mono order_trans)
  obtain reading w1 where s: "sample_transcripts e sh directory ?w = (Inr reading, w1)"
    using Suc.prems(1) by (auto simp: seq_def sleep_for_def split: prod.splits sum.splits)
  note run = Suc.prems(1) [unfolded await_loop.simps seq_def sleep_for_def now_of_def, simplified, simplified s, simplified]
  show ?case
  proof (cases reading)
    case None
    with run show ?thesis by (auto simp: ret_def quiescence_ok_def not_measured_def)
  next
    case (Some second)
    have next_read: "reading_at e sh directory second ?w w1" if "unmeasured second = []"
      using s Some that by (simp add: reading_at_def)
    have c: "clock w1 \<le> clock (snd (en_now e w1))" using assms(1) by (simp add: clock_advances_def)
    consider (blind) "unmeasured second \<noteq> []" | (same) "unmeasured second = []" "second = first"
      | (late) "unmeasured second = []" "second \<noteq> first" "deadline \<le> fst (en_now e w1)"
      | (again) "unmeasured second = []" "second \<noteq> first" "\<not> deadline \<le> fst (en_now e w1)" by blast
    then show ?thesis
    proof cases
      case blind
      with run Some show ?thesis by (auto simp: ret_def quiescence_ok_def not_measured_def)
    next
      case same
      with run Some have "q = settled directory second" and "w' = w1" by (auto simp: ret_def)
      moreover have "reading_at e sh directory second ?w w1" using same next_read by simp
      ultimately show ?thesis using Suc.prems(2) slept same
        by (auto simp: quiescence_ok_def settled_def)
    next
      case late
      with run Some show ?thesis
        by (auto simp: ret_def quiescence_ok_def still_changing_def split: prod.splits)
    next
      case again
      then have "await_loop n e sh directory deadline second (snd (en_now e w1)) = (Inr q, w')"
        using run Some by (auto split: prod.splits)
      then show ?thesis using Suc.IH next_read [OF again(1)] c by blast
    qed
  qed
qed (simp add: raising_def)

lemma await_quiescence_settled:
  assumes "clock_advances e clock" and "await_quiescence e sh directory w = (Inr q, w')"
  shows "quiescence_ok q \<and> qu_settled q \<noteq> No \<and>
    (qu_settled q = Yes \<longrightarrow> (\<exists>x a a' b. reading_at e sh directory x a a' \<and>
       clock a' + QUIESCENCE_INTERVAL_S \<le> clock b \<and> reading_at e sh directory x b w'))"
proof -
  obtain reading w1 where s: "sample_transcripts e sh directory w = (Inr reading, w1)"
    using assms(2) by (auto simp: await_quiescence_def seq_def split: prod.splits sum.splits)
  note run = assms(2) [unfolded await_quiescence_def seq_def now_of_def, simplified, simplified s, simplified]
  have c: "clock w1 \<le> clock (snd (en_now e w1))" using assms(1) by (simp add: clock_advances_def)
  show ?thesis
  proof (cases "\<exists>first. reading = Some first \<and> unmeasured first = []")
    case True
    then obtain first where f: "reading = Some first" "unmeasured first = []" by blast
    then have "await_loop QUIESCENCE_ROUNDS e sh directory (fst (en_now e w1) + QUIESCENCE_TIMEOUT_S)
        first (snd (en_now e w1)) = (Inr q, w')"
      using run by (auto split: prod.splits)
    moreover have "reading_at e sh directory first w w1" using s f by (simp add: reading_at_def)
    ultimately show ?thesis using await_loop_settled [OF assms(1)] c by blast
  next
    case False
    with run show ?thesis
      by (auto simp: ret_def quiescence_ok_def not_measured_def split: option.splits if_splits)
  qed
qed

subsection \<open>Properties\<close>

text \<open>
  The wait for the source to fall silent ends, and a settled answer was read twice. When
  sleeping moves the clock, the fuel never runs out: the wait returns an answer or the error of a
  command. The answer passes its constructor's checks, is never a no, and is a yes only when the
  last reading of the directory equals an earlier one, every file measured in both, with at
  least the interval between them.
\<close>

theorem quiescence_ends:
  assumes "clock_advances e clock"
  shows "fst (await_quiescence e sh directory w) \<noteq> Inl OUT_OF_FUEL \<and>
    (\<forall>q w'. await_quiescence e sh directory w = (Inr q, w') \<longrightarrow>
       quiescence_ok q \<and> qu_settled q \<noteq> No \<and>
       (qu_settled q = Yes \<longrightarrow> (\<exists>x a a' b. reading_at e sh directory x a a' \<and>
          clock a' + QUIESCENCE_INTERVAL_S \<le> clock b \<and> reading_at e sh directory x b w')))"
  using await_quiescence_fuel [OF assms] await_quiescence_settled [OF assms] by blast

text \<open>A world that is only its clock, and a broker whose hosts answer nothing and take no time.\<close>

definition silent_env :: "time env" where
  "silent_env = \<lparr>en_exec = (\<lambda>argv t w. (Inr None, w)), en_now = (\<lambda>w. (w, w)), en_sleep = (\<lambda>d w. w + d),
     en_token_hex = (\<lambda>n w. (replicate n (CHR ''0''), w)), en_peer = (\<lambda>h. None),
     en_get_lease = (\<lambda>a w. (Inr None, w)), en_put_lease = (\<lambda>r w. (Inr (), w)),
     en_residency_rows = (\<lambda>w. (Inr [], w)), en_put_residency = (\<lambda>r w. (Inr (), w)),
     en_journal_rows = (\<lambda>w. (Inr [], w)), en_put_journal = (\<lambda>r w. (Inr (), w))\<rparr>"

theorem quiescence_ends_witness:
  "fst (await_quiescence silent_env
     \<lparr>sh_host = ''a'', sh_is_local = True, sh_preamble = [], sh_timeout = 120\<rparr> ''/d'' 0) \<noteq> Inl OUT_OF_FUEL"
proof -
  have "clock_advances silent_env (\<lambda>w. w)" by (simp add: clock_advances_def silent_env_def)
  then show ?thesis by (rule conjunct1 [OF quiescence_ends])
qed

end
