(* ===== verification/Spec_Reads.thy ===== *)
theory Spec_Reads
  imports Transport
begin

text \<open>
  Reading an agent's spec: \<open>_relocate_spec_reads.py\<close> and \<open>_relocate_transcript_home.py\<close>, and the
  workdir read of \<open>_relocate_effects_transport.py\<close>. A parsed YAML document is a value of \<open>yaml\<close>;
  a mapping is an association list with distinct keys, of which only the string keys are kept.
  \<open>YScalar t s\<close> is any other scalar (a number, a date): its truth value and its \<open>str()\<close>.
\<close>

datatype yaml =
    YNull | YBool bool | YScalar bool string | YStr string
  | YList "yaml list" | YDict "(string \<times> yaml) list"

type_synonym spec = "(string \<times> yaml) list"

text \<open>\<open>d.get(k)\<close>: an absent key reads as \<open>None\<close>.\<close>

definition field :: "spec \<Rightarrow> string \<Rightarrow> yaml" where
  "field d k = (case map_of d k of None \<Rightarrow> YNull | Some v \<Rightarrow> v)"

fun as_dict :: "yaml \<Rightarrow> spec option" where
  "as_dict (YDict d) = Some d"
| "as_dict _ = None"

fun as_list :: "yaml \<Rightarrow> yaml list option" where
  "as_list (YList xs) = Some xs"
| "as_list _ = None"

fun as_str :: "yaml \<Rightarrow> string option" where
  "as_str (YStr s) = Some s"
| "as_str _ = None"

text \<open>The strings of a list, in order: \<open>[b for b in xs if isinstance(b, str)]\<close>.\<close>

definition strings :: "yaml list \<Rightarrow> string list" where
  "strings xs = concat (map (\<lambda>x. case as_str x of None \<Rightarrow> [] | Some s \<Rightarrow> [s]) xs)"

fun yaml_truthy :: "yaml \<Rightarrow> bool" where
  "yaml_truthy YNull = False"
| "yaml_truthy (YBool b) = b"
| "yaml_truthy (YScalar t _) = t"
| "yaml_truthy (YStr s) = (s \<noteq> [])"
| "yaml_truthy (YList xs) = (xs \<noteq> [])"
| "yaml_truthy (YDict d) = (d \<noteq> [])"

text \<open>
  \<open>str(v)\<close>; inside a list or mapping it is \<open>repr\<close>, which quotes strings (of the escapes only those
  of ASCII text are written out).
\<close>

definition hex_digit :: "nat \<Rightarrow> char" where
  "hex_digit n = (''0123456789abcdef'' ! n)"

definition repr_char :: "char \<Rightarrow> char \<Rightarrow> string" where
  "repr_char q c =
     (if c = q then [CHR 0x5C, c] else if c = CHR 0x5C then [c, c]
      else if c = CHR 0x0A then [CHR 0x5C, CHR ''n''] else if c = CHR 0x0D then [CHR 0x5C, CHR ''r'']
      else if c = CHR 0x09 then [CHR 0x5C, CHR ''t'']
      else if c < CHR 0x20 \<or> c = CHR 0x7F
        then [CHR 0x5C, CHR ''x'', hex_digit (of_char c div 16), hex_digit (of_char c mod 16)]
      else [c])"

definition repr_string :: "string \<Rightarrow> string" where
  "repr_string s =
     (let q = (if CHR 0x27 \<in> set s \<and> CHR 0x22 \<notin> set s then CHR 0x22 else CHR 0x27)
      in [q] @ concat (map (repr_char q) s) @ [q])"

fun yaml_repr :: "yaml \<Rightarrow> string" where
  "yaml_repr YNull = ''None''"
| "yaml_repr (YBool b) = (if b then ''True'' else ''False'')"
| "yaml_repr (YScalar _ s) = s"
| "yaml_repr (YStr s) = repr_string s"
| "yaml_repr (YList xs) = ''['' @ join_with '', '' (map yaml_repr xs) @ '']''"
| "yaml_repr (YDict d) = ''{'' @ join_with '', '' (map (\<lambda>(k, v). repr_string k @ '': '' @ yaml_repr v) d) @ ''}''"

fun yaml_str :: "yaml \<Rightarrow> string" where
  "yaml_str (YStr s) = s"
| "yaml_str v = yaml_repr v"

subsection \<open>The spec's fields\<close>

definition spec_body :: "spec \<Rightarrow> spec" where
  "spec_body spec = (case as_dict (field spec ''spec'') of None \<Rightarrow> spec | Some inner \<Rightarrow> inner)"

definition apptainer_section :: "spec \<Rightarrow> spec" where
  "apptainer_section spec = (case as_dict (field (spec_body spec) ''apptainer'') of None \<Rightarrow> [] | Some a \<Rightarrow> a)"

definition card_store_url_from_spec :: "spec \<Rightarrow> string" where
  "card_store_url_from_spec spec =
     (let app = apptainer_section spec;
          typed = (case as_dict (field app ''env'') of
            None \<Rightarrow> []
          | Some env \<Rightarrow> (case as_str (field env ''SCITEX_CARDS_DB'') of None \<Rightarrow> [] | Some v \<Rightarrow> v));
          raw = (case as_list (field app ''raw_args'') of None \<Rightarrow> [] | Some xs \<Rightarrow> strings xs)
      in if typed \<noteq> [] then typed
         else (case filter (\<lambda>s. starts_with s ''SCITEX_CARDS_DB='') raw of
                 [] \<Rightarrow> []
               | item # _ \<Rightarrow> after_first ''='' item))"

text \<open>\<open>b.split(":", 1)[0]\<close>.\<close>

definition before_colon :: "string \<Rightarrow> string" where
  "before_colon b = takeWhile (\<lambda>c. c \<noteq> CHR '':'') b"

definition spec_binds :: "spec \<Rightarrow> string list" where
  "spec_binds spec = (case as_list (field (apptainer_section spec) ''binds'') of
     None \<Rightarrow> [] | Some xs \<Rightarrow> strings xs)"

definition bind_sources_from_spec :: "spec \<Rightarrow> string list" where
  "bind_sources_from_spec spec = filter (\<lambda>b. b \<noteq> []) (map before_colon (spec_binds spec))"

definition credential_paths_from_spec :: "spec \<Rightarrow> string list" where
  "credential_paths_from_spec spec =
     (case as_dict (field (spec_body spec) ''claude'') of
        None \<Rightarrow> []
      | Some claude \<Rightarrow>
          from_keys
            ((case as_str (field claude ''credentials_file'') of
                None \<Rightarrow> [] | Some s \<Rightarrow> filter (\<lambda>p. p \<noteq> []) [strip s]) @
             (case as_list (field claude ''credentials_files'') of
                None \<Rightarrow> [] | Some xs \<Rightarrow> filter (\<lambda>p. p \<noteq> []) (map strip (strings xs)))))"

definition workdirs_from_spec :: "spec \<Rightarrow> string list" where
  "workdirs_from_spec spec = (case as_str (field (spec_body spec) ''workdir'') of
     None \<Rightarrow> [] | Some w \<Rightarrow> filter (\<lambda>p. p \<noteq> []) [strip w])"

definition group_labels_from_spec :: "spec \<Rightarrow> spec" where
  "group_labels_from_spec spec = (case as_dict (field spec ''metadata'') of
     None \<Rightarrow> []
   | Some meta \<Rightarrow> (case as_dict (field meta ''labels'') of None \<Rightarrow> [] | Some labels \<Rightarrow> labels))"

definition declared_groups_from_spec :: "spec \<Rightarrow> string list" where
  "declared_groups_from_spec spec =
     (let labels = group_labels_from_spec spec;
          single = (case as_str (field labels ''group'') of None \<Rightarrow> [] | Some g \<Rightarrow> [g]);
          listed = (case field labels ''groups'' of YStr g \<Rightarrow> [g] | YList xs \<Rightarrow> strings xs | _ \<Rightarrow> [])
      in from_keys (filter (\<lambda>g. g \<noteq> []) (map strip (single @ listed))))"

text \<open>\<open>TransportEffects._workdir\<close>: unlike \<open>workdirs_from_spec\<close>, any truthy value, through \<open>str\<close>.\<close>

definition workdir_of :: "spec \<Rightarrow> string" where
  "workdir_of spec =
     (let w = field (spec_body spec) ''workdir'' in
      strip (if yaml_truthy w then yaml_str w else []))"

subsection \<open>Where the transcript lands on the host\<close>

abbreviation TH_FROM_BIND :: int where "TH_FROM_BIND \<equiv> 200"
abbreviation TH_FROM_OVERLAY :: int where "TH_FROM_OVERLAY \<equiv> 201"
abbreviation TH_UNCONTAINED :: int where "TH_UNCONTAINED \<equiv> 202"
abbreviation TH_UNKNOWN :: int where "TH_UNKNOWN \<equiv> 503"

abbreviation CONTAINER_HOME :: string where "CONTAINER_HOME \<equiv> ''/home/agent''"

definition HOME_SUFFIXES :: "(string \<times> string) list" where
  "HOME_SUFFIXES = [(CONTAINER_HOME @ ''/.claude/projects'', ''/.claude/projects''),
     (CONTAINER_HOME @ ''/.claude'', ''/.claude''), (CONTAINER_HOME, [])]"

record transcript_home =
  th_path :: "string option"
  th_code :: int
  th_reason :: msg
  th_hint :: msg

text \<open>\<open>TranscriptHome.__post_init__\<close>.\<close>

definition transcript_home_ok :: "transcript_home \<Rightarrow> bool" where
  "transcript_home_ok h \<longleftrightarrow> truthy (th_reason h) \<and>
     (th_path h = None \<longrightarrow> th_code h = TH_UNKNOWN \<and> truthy (th_hint h))"

text \<open>
  One entry of the bind list, read against the container's home: not about it, about it with the
  host-side home it implies, or contradicting itself.
\<close>

datatype bind_reading = Elsewhere | Home_At string | Mismatch string string

definition read_bind :: "string \<Rightarrow> bind_reading" where
  "read_bind entry =
     (let parts = split_on (CHR '':'') entry in
      if length parts < 2 then Elsewhere
      else
       (let host_side = strip (parts ! 0); container_side = strip (parts ! 1) in
        if host_side = [] \<or> container_side = [] then Elsewhere
        else (case map_of HOME_SUFFIXES (rstrip_char (CHR ''/'') container_side) of
          None \<Rightarrow> Elsewhere
        | Some suffix \<Rightarrow>
            (let h = rstrip_char (CHR ''/'') host_side in
             if suffix \<noteq> [] \<and> \<not> ends_with h suffix
               then Mismatch (rstrip_char (CHR ''/'') container_side) suffix
             else Home_At (rstrip_char (CHR ''/'') (take (length h - length suffix) h))))))"

text \<open>The loop over the binds: a mismatch returns at once, and the last home found is kept.\<close>

fun scan_binds :: "string list \<Rightarrow> (string \<times> string) option \<Rightarrow> transcript_home + (string \<times> string) option" where
  "scan_binds [] found = Inr found"
| "scan_binds (entry # rest) found =
     (case read_bind entry of
        Elsewhere \<Rightarrow> scan_binds rest found
      | Home_At home \<Rightarrow> scan_binds rest (Some (home, entry))
      | Mismatch container suffix \<Rightarrow> Inl
          \<lparr>th_path = None, th_code = TH_UNKNOWN,
           th_reason = Fmt ''bind maps onto the home with the wrong host side'' [Txt entry, Txt container, Txt suffix],
           th_hint = Fmt ''fix the bind or say explicitly where the transcript lands'' []\<rparr>)"

fun overlay_arg :: "string list \<Rightarrow> string" where
  "overlay_arg (a # b # rest) =
     (if a = ''--overlay'' then rstrip_char (CHR ''/'') (strip b) else overlay_arg (b # rest))"
| "overlay_arg _ = []"

definition overlay_dir :: "spec \<Rightarrow> string" where
  "overlay_dir spec =
     (let app = apptainer_section spec;
          typed = (case as_str (field app ''overlay'') of None \<Rightarrow> [] | Some t \<Rightarrow> strip t)
      in if typed \<noteq> [] then rstrip_char (CHR ''/'') typed
         else (case as_list (field app ''raw_args'') of None \<Rightarrow> [] | Some xs \<Rightarrow> overlay_arg (strings xs)))"

text \<open>\<open>s.lower()\<close> on ASCII text.\<close>

definition lower :: "string \<Rightarrow> string" where
  "lower s = map (\<lambda>c. if CHR ''A'' \<le> c \<and> c \<le> CHR ''Z'' then char_of (of_char c + 32 :: nat) else c) s"

definition runtime_of :: "spec \<Rightarrow> string" where
  "runtime_of spec =
     (let r = field (spec_body spec) ''runtime'' in lower (strip (if yaml_truthy r then yaml_str r else [])))"

definition transcript_home_from_spec :: "spec \<Rightarrow> string option \<Rightarrow> transcript_home" where
  "transcript_home_from_spec spec ssh_home =
     (case scan_binds (spec_binds spec) None of
        Inl refused \<Rightarrow> refused
      | Inr (Some (home, entry)) \<Rightarrow>
          \<lparr>th_path = Some home, th_code = TH_FROM_BIND,
           th_reason = Fmt ''the spec binds'' [Txt entry, Txt home], th_hint = empty_msg\<rparr>
      | Inr None \<Rightarrow>
          (if overlay_dir spec \<noteq> [] then
             (let home = overlay_dir spec @ ''/upper'' @ CONTAINER_HOME in
              \<lparr>th_path = Some home, th_code = TH_FROM_OVERLAY,
               th_reason = Fmt ''no bind covers the container's home'' [Txt home], th_hint = empty_msg\<rparr>)
           else if runtime_of spec \<in> {[], ''none'', ''local''} \<and> spec_binds spec = [] then
             (if present ssh_home then
                \<lparr>th_path = Some (rstrip_char (CHR ''/'') (the ssh_home)), th_code = TH_UNCONTAINED,
                 th_reason = Fmt ''no container in this spec'' [opt_msg ssh_home], th_hint = empty_msg\<rparr>
              else
                \<lparr>th_path = None, th_code = TH_UNKNOWN,
                 th_reason = Fmt ''no container in this spec and the host's $HOME was not observed'' [],
                 th_hint = Fmt ''probe the host for $HOME'' []\<rparr>)
           else
             \<lparr>th_path = None, th_code = TH_UNKNOWN,
              th_reason = Fmt ''neither a bind covering the container's home nor an --overlay'' [],
              th_hint = Fmt ''add the bind the agent actually uses'' []\<rparr>))"

lemma scan_binds_Inr:
  "scan_binds bs found = Inr f \<longleftrightarrow> (\<forall>b \<in> set bs. \<forall>c x. read_bind b \<noteq> Mismatch c x) \<and>
     f = foldl (\<lambda>f b. case read_bind b of Home_At h \<Rightarrow> Some (h, b) | _ \<Rightarrow> f) found bs"
  by (induction bs arbitrary: found) (auto split: bind_reading.splits)

lemma scan_binds_Inl:
  "scan_binds bs found = Inl h \<Longrightarrow> th_path h = None \<and> transcript_home_ok h"
  by (induction bs arbitrary: found) (auto simp: transcript_home_ok_def split: bind_reading.splits)

lemma transcript_home_valid: "transcript_home_ok (transcript_home_from_spec spec ssh_home)"
  by (auto simp: transcript_home_from_spec_def transcript_home_ok_def Let_def
      dest: scan_binds_Inl split: sum.splits option.splits)

text \<open>The last of the binds that are about the home, if there is one.\<close>

lemma last_home_bind:
  "foldl (\<lambda>f b. case read_bind b of Home_At h \<Rightarrow> Some (h, b) | _ \<Rightarrow> f) None bs = Some (home, entry) \<Longrightarrow>
   \<exists>before later. bs = before @ entry # later \<and> read_bind entry = Home_At home \<and>
     (\<forall>b \<in> set later. \<forall>h. read_bind b \<noteq> Home_At h)"
proof (induction bs rule: rev_induct)
  case (snoc b bs)
  show ?case
  proof (cases "read_bind b")
    case (Home_At h)
    with snoc.prems show ?thesis by (intro exI [of _ bs] exI [of _ "[]"]) simp
  next
    case Elsewhere
    with snoc obtain before later where "bs = before @ entry # later" and
      "read_bind entry = Home_At home" and "\<forall>b \<in> set later. \<forall>h. read_bind b \<noteq> Home_At h" by auto
    with Elsewhere show ?thesis by (intro exI [of _ before] exI [of _ "later @ [b]"]) auto
  next
    case (Mismatch c x)
    with snoc obtain before later where "bs = before @ entry # later" and
      "read_bind entry = Home_At home" and "\<forall>b \<in> set later. \<forall>h. read_bind b \<noteq> Home_At h" by auto
    with Mismatch show ?thesis by (intro exI [of _ before] exI [of _ "later @ [b]"]) auto
  qed
qed simp

lemma ends_with_split: "ends_with s x \<longleftrightarrow> s = take (length s - length x) s @ x"
proof
  assume "ends_with s x"
  then show "s = take (length s - length x) s @ x"
    using append_take_drop_id [of "length s - length x" s] by (simp add: ends_with_def)
next
  assume "s = take (length s - length x) s @ x"
  then show "ends_with s x" using ends_with_append [of "take (length s - length x) s" x] by simp
qed

lemma rstrip_char_split: "\<exists>n. s = rstrip_char c s @ replicate n c"
proof -
  have "s = rev (dropWhile (\<lambda>x. x = c) (rev s)) @ rev (takeWhile (\<lambda>x. x = c) (rev s))"
    by (metis rev_append rev_rev_ident takeWhile_dropWhile_id)
  moreover have "rev (takeWhile (\<lambda>x. x = c) (rev s)) = replicate (length (takeWhile (\<lambda>x. x = c) (rev s))) c"
    by (intro replicate_eqI) (auto dest: set_takeWhileD)
  ultimately show ?thesis by (auto simp: rstrip_char_def intro: exI)
qed

lemma read_bind_home:
  assumes "read_bind entry = Home_At home"
  obtains suffix n where "(CONTAINER_HOME @ suffix, suffix) \<in> set HOME_SUFFIXES"
    and "rstrip_char (CHR ''/'') (strip (split_on (CHR '':'') entry ! 1)) = CONTAINER_HOME @ suffix"
    and "rstrip_char (CHR ''/'') (strip (split_on (CHR '':'') entry ! 0)) = home @ replicate n (CHR ''/'') @ suffix"
proof -
  define h where "h = rstrip_char (CHR ''/'') (strip (split_on (CHR '':'') entry ! 0))"
  define c where "c = rstrip_char (CHR ''/'') (strip (split_on (CHR '':'') entry ! 1))"
  obtain suffix where x: "map_of HOME_SUFFIXES c = Some suffix" and e: "suffix = [] \<or> ends_with h suffix"
    and home: "home = rstrip_char (CHR ''/'') (take (length h - length suffix) h)"
    using assms by (auto simp: read_bind_def Let_def h_def c_def split: if_splits option.splits)
  have m: "(c, suffix) \<in> set HOME_SUFFIXES" using x by (rule map_of_SomeD)
  then have "c = CONTAINER_HOME @ suffix" by (auto simp: HOME_SUFFIXES_def)
  moreover have "h = take (length h - length suffix) h @ suffix"
    using e by (auto simp: ends_with_split)
  moreover obtain n where "take (length h - length suffix) h = home @ replicate n (CHR ''/'')"
    using rstrip_char_split [of "take (length h - length suffix) h" "CHR ''/''"] home by auto
  ultimately show ?thesis using that [of suffix n] m unfolding h_def c_def by auto
qed

subsection \<open>Properties\<close>

text \<open>
  The directory an agent's conversation is written to is read off the bind that decides it.
  When the answer comes from a bind, no bind contradicts itself, the deciding one is the last
  that covers the container's home, and the host path it maps onto that part of the home is the
  answer followed by the same part; a contradiction is an unknown answer with a hint, never a guess.
\<close>

theorem transcript_home_is_the_bound_one:
  "transcript_home_ok (transcript_home_from_spec spec ssh_home) \<and>
   (th_code (transcript_home_from_spec spec ssh_home) = TH_FROM_BIND \<longrightarrow>
     (\<exists>home before entry later suffix n. th_path (transcript_home_from_spec spec ssh_home) = Some home \<and>
       spec_binds spec = before @ entry # later \<and>
       (\<forall>b \<in> set later. read_bind b = Elsewhere) \<and>
       rstrip_char (CHR ''/'') (strip (split_on (CHR '':'') entry ! 1)) = CONTAINER_HOME @ suffix \<and>
       rstrip_char (CHR ''/'') (strip (split_on (CHR '':'') entry ! 0))
         = home @ replicate n (CHR ''/'') @ suffix)) \<and>
   (\<forall>b \<in> set (spec_binds spec). \<forall>c x. read_bind b = Mismatch c x \<longrightarrow>
      th_path (transcript_home_from_spec spec ssh_home) = None)"
proof (intro conjI impI ballI allI)
  show "transcript_home_ok (transcript_home_from_spec spec ssh_home)" by (rule transcript_home_valid)
next
  fix b c x assume "b \<in> set (spec_binds spec)" and "read_bind b = Mismatch c x"
  then have "\<nexists>f. scan_binds (spec_binds spec) None = Inr f" by (auto simp: scan_binds_Inr)
  then obtain h where "scan_binds (spec_binds spec) None = Inl h"
    by (cases "scan_binds (spec_binds spec) None") auto
  then show "th_path (transcript_home_from_spec spec ssh_home) = None"
    using scan_binds_Inl [of "spec_binds spec" None h] by (simp add: transcript_home_from_spec_def)
next
  assume "th_code (transcript_home_from_spec spec ssh_home) = TH_FROM_BIND"
  then obtain home entry where s: "scan_binds (spec_binds spec) None = Inr (Some (home, entry))"
    and p: "th_path (transcript_home_from_spec spec ssh_home) = Some home"
    using scan_binds_Inl [of "spec_binds spec" None]
    by (auto simp: transcript_home_from_spec_def transcript_home_ok_def Let_def
        split: sum.splits option.splits if_splits)
  note last = s [unfolded scan_binds_Inr]
  obtain before later where b: "spec_binds spec = before @ entry # later" "read_bind entry = Home_At home"
    "\<forall>b \<in> set later. \<forall>h. read_bind b \<noteq> Home_At h"
    using last_home_bind [of "spec_binds spec" home entry] last by auto
  have "\<forall>b \<in> set later. read_bind b = Elsewhere"
    using last b by (metis Un_iff bind_reading.exhaust list.set_intros(2) set_append)
  with b p read_bind_home [OF b(2)] show "\<exists>home before entry later suffix n.
      th_path (transcript_home_from_spec spec ssh_home) = Some home \<and>
      spec_binds spec = before @ entry # later \<and> (\<forall>b \<in> set later. read_bind b = Elsewhere) \<and>
      rstrip_char (CHR ''/'') (strip (split_on (CHR '':'') entry ! 1)) = CONTAINER_HOME @ suffix \<and>
      rstrip_char (CHR ''/'') (strip (split_on (CHR '':'') entry ! 0))
        = home @ replicate n (CHR ''/'') @ suffix"
    by metis
qed

theorem transcript_home_is_the_bound_one_witness:
  "\<exists>home. th_path (transcript_home_from_spec
     [(''spec'', YDict [(''apptainer'', YDict [(''binds'', YList [YStr ''/d/h/.claude/:/home/agent/.claude'']) ])])]
     None) = Some home \<and> (\<exists>suffix n. ''/d/h/.claude'' = home @ replicate n (CHR ''/'') @ suffix)"
proof -
  let ?s = "[(''spec'', YDict [(''apptainer'', YDict [(''binds'', YList [YStr ''/d/h/.claude/:/home/agent/.claude''])])])]"
  have b: "spec_binds ?s = [''/d/h/.claude/:/home/agent/.claude'']"
    by (simp add: spec_binds_def apptainer_section_def spec_body_def field_def strings_def)
  have c: "th_code (transcript_home_from_spec ?s None) = TH_FROM_BIND"
    by (simp add: transcript_home_from_spec_def b read_bind_def HOME_SUFFIXES_def strip_def is_space_def
        rstrip_char_def ends_with_def Let_def)
  obtain home before entry later suffix n where p: "th_path (transcript_home_from_spec ?s None) = Some home"
    and e: "spec_binds ?s = before @ entry # later"
    and h: "rstrip_char (CHR ''/'') (strip (split_on (CHR '':'') entry ! 0)) = home @ replicate n (CHR ''/'') @ suffix"
    using transcript_home_is_the_bound_one [of ?s None] c by blast
  have "entry = ''/d/h/.claude/:/home/agent/.claude''"
    using e unfolding b by (cases before) simp_all
  then have "rstrip_char (CHR ''/'') (strip (split_on (CHR '':'') entry ! 0)) = ''/d/h/.claude''"
    by (simp add: strip_def is_space_def rstrip_char_def)
  with p h show ?thesis by metis
qed

end
