(* ===== verification/Store.thy ===== *)
theory Store
  imports Hosts Lease Residency "HOL-Library.Multiset"
begin

text \<open>
  The durable records of a relocation (\<open>_state/relocation_pg.py\<close>): where an agent has lived, who
  holds its lease, and the journals of its relocations. The record store itself
  (\<open>scitex_dev.store\<close>) is outside the program: its operations are fields of \<open>env\<close>, and what is
  relied on of them is stated by \<open>lease_table\<close>, \<open>residency_table\<close> and \<open>journal_table\<close>. The store
  keeps the last row put under each identity; a row carries a stamp that grows with every write.
\<close>

subsection \<open>Residencies\<close>

definition stays_of :: "(residency_row \<times> int) list \<Rightarrow> string \<Rightarrow> residency_row list" where
  "stays_of rows agent =
     map fst (sort_key (\<lambda>(r, h). (rs_from_ts r, h)) (filter (\<lambda>(r, h). rs_agent r = agent) rows))"

text \<open>What \<open>record_residency\<close> puts: the current stay closed, and the new one.\<close>

definition new_stay :: "string \<Rightarrow> string \<Rightarrow> time \<Rightarrow> bool \<Rightarrow> string \<Rightarrow> residency_row" where
  "new_stay agent host ts seeded note =
     \<lparr>rs_agent = agent, rs_host = host, rs_from_ts = ts, rs_to_ts = None,
      rs_seeded = (if seeded then 1 else 0), rs_note = (if note = [] then None else Some note)\<rparr>"

definition stay_writes ::
  "residency_row list \<Rightarrow> string \<Rightarrow> string \<Rightarrow> time \<Rightarrow> bool \<Rightarrow> string \<Rightarrow> residency_row list option" where
  "stay_writes rows agent host ts seeded note =
     (let open_stays = filter (\<lambda>r. rs_to_ts r = None) rows;
          current = (if open_stays = [] then None else Some (last open_stays))
      in if (case current of None \<Rightarrow> False | Some c \<Rightarrow> rs_host c = host) then None
         else Some ((case current of None \<Rightarrow> [] | Some c \<Rightarrow> [c\<lparr>rs_to_ts := Some ts\<rparr>]) @
           [new_stay agent host ts seeded note]))"

definition record_residency ::
  "'w env \<Rightarrow> string \<Rightarrow> string \<Rightarrow> time option \<Rightarrow> bool \<Rightarrow> string \<Rightarrow> ('w, bool) prog" where
  "record_residency e agent host now seeded note =
     (if strip agent = [] then raising (ValueError ''record_residency needs the agent name'')
      else if strip host = [] then raising (ValueError ''record_residency needs the host'')
      else
        seq (case now of Some t \<Rightarrow> ret t | None \<Rightarrow> now_of e) (\<lambda>ts.
        seq (en_residency_rows e) (\<lambda>rows.
          (case stay_writes (stays_of rows (strip agent)) (strip agent) (strip host) ts seeded note of
             None \<Rightarrow> ret False
           | Some writes \<Rightarrow> seq (en_put_residency e writes) (\<lambda>_. ret True)))))"

definition row_stay :: "residency_row \<Rightarrow> stay result" where
  "row_stay r = mk_stay (rs_host r) (rs_from_ts r) (rs_to_ts r)"

definition read_residency_history :: "'w env \<Rightarrow> string \<Rightarrow> ('w, stay list) prog" where
  "read_residency_history e agent =
     seq (en_residency_rows e) (\<lambda>rows. lift (map_result row_stay (stays_of rows agent)))"

definition current_residency :: "'w env \<Rightarrow> string \<Rightarrow> ('w, string option) prog" where
  "current_residency e agent = seq (read_residency_history e agent) (\<lambda>history. ret (current_host history))"

subsection \<open>Leases\<close>

definition lease_row_of :: "lease \<Rightarrow> time \<Rightarrow> lease_row" where
  "lease_row_of l t =
     \<lparr>lr_agent = l_agent l, lr_holder = l_holder l, lr_token = Some (l_token l), lr_fence = l_fence l,
      lr_expires_at = l_expires_at l, lr_updated_at = t\<rparr>"

definition save_lease :: "'w env \<Rightarrow> lease \<Rightarrow> ('w, unit) prog" where
  "save_lease e l = seq (now_of e) (\<lambda>t. en_put_lease e (lease_row_of l t))"

definition lease_of_row :: "string \<Rightarrow> lease_row option \<Rightarrow> lease option result" where
  "lease_of_row agent row =
     (case row of
        None \<Rightarrow> Inr None
      | Some r \<Rightarrow>
          (case lr_token r of
             None \<Rightarrow> Inr None
           | Some token \<Rightarrow>
               (if strip token = [] then Inr None
                else bind_result (mk_lease agent (lr_holder r) token (lr_expires_at r) (lr_fence r))
                  (\<lambda>l. Inr (Some l)))))"

definition load_lease :: "'w env \<Rightarrow> string \<Rightarrow> ('w, lease option) prog" where
  "load_lease e agent = seq (en_get_lease e agent) (\<lambda>row. lift (lease_of_row agent row))"

subsection \<open>Journals\<close>

definition attempts :: "journal_row list \<Rightarrow> string \<Rightarrow> journal_row list" where
  "attempts rows agent = sort_key jr_attempt (filter (\<lambda>r. jr_agent r = agent) rows)"

definition journal_row_of :: "relocation \<Rightarrow> int \<Rightarrow> time \<Rightarrow> journal_row" where
  "journal_row_of r attempt t =
     \<lparr>jr_agent = r_agent r, jr_attempt = attempt, jr_from_host = r_from_host r, jr_to_host = r_to_host r,
      jr_phase = r_phase r, jr_steps = Some (r_steps r), jr_started_at = st_at (hd (r_steps r)),
      jr_updated_at = t\<rparr>"

text \<open>The attempt a journal is stored under: its own if it was stored before, else the next one.\<close>

definition attempt_for :: "journal_row list \<Rightarrow> time \<Rightarrow> int" where
  "attempt_for existing started_at =
     (case filter (\<lambda>r. jr_started_at r = started_at) existing of
        r # _ \<Rightarrow> jr_attempt r
      | [] \<Rightarrow> 1 + (if existing = [] then 0 else Max (set (map jr_attempt existing))))"

definition save_journal :: "'w env \<Rightarrow> relocation \<Rightarrow> ('w, int) prog" where
  "save_journal e r =
     seq (en_journal_rows e) (\<lambda>rows.
       (let attempt = attempt_for (attempts rows (r_agent r)) (st_at (hd (r_steps r))) in
        seq (now_of e) (\<lambda>t. seq (en_put_journal e (journal_row_of r attempt t)) (\<lambda>_. ret attempt))))"

text \<open>A row that does not parse, or describes no relocation, reads as none.\<close>

definition relocation_of_row :: "string \<Rightarrow> journal_row \<Rightarrow> relocation option" where
  "relocation_of_row agent row =
     (case jr_steps row of
        None \<Rightarrow> None
      | Some steps \<Rightarrow>
          (let r = \<lparr>r_agent = agent, r_from_host = jr_from_host row, r_to_host = jr_to_host row,
                    r_phase = jr_phase row, r_steps = steps\<rparr>
           in if relocation_ok r then Some r else None))"

definition load_journal_attempts :: "'w env \<Rightarrow> string \<Rightarrow> ('w, (int \<times> relocation) list) prog" where
  "load_journal_attempts e agent = seq (en_journal_rows e) (\<lambda>rows.
     ret (concat (map (\<lambda>row. case relocation_of_row agent row of
         None \<Rightarrow> [] | Some r \<Rightarrow> [(jr_attempt row, r)]) (attempts rows agent))))"

definition load_journal :: "'w env \<Rightarrow> string \<Rightarrow> ('w, relocation option) prog" where
  "load_journal e agent = seq (en_journal_rows e) (\<lambda>rows.
     ret (if attempts rows agent = [] then None
          else relocation_of_row agent (last (attempts rows agent))))"

subsection \<open>What is relied on of the store\<close>

text \<open>\<open>tbl w\<close> is the table the world \<open>w\<close> holds. An operation that raises leaves it as it was.\<close>

definition lease_table :: "'w env \<Rightarrow> ('w \<Rightarrow> string \<Rightarrow> lease_row option) \<Rightarrow> bool" where
  "lease_table e tbl \<longleftrightarrow>
     (\<forall>a w x w'. en_get_lease e a w = (x, w') \<longrightarrow> tbl w' = tbl w \<and> (\<forall>row. x = Inr row \<longrightarrow> row = tbl w a)) \<and>
     (\<forall>r w x w'. en_put_lease e r w = (x, w') \<longrightarrow>
        tbl w' = (case x of Inl _ \<Rightarrow> tbl w | Inr _ \<Rightarrow> (tbl w)(lr_agent r \<mapsto> r)))"

text \<open>The identity of a row, and what putting one does to a table: it replaces the row of its identity.\<close>

definition residency_id :: "residency_row \<Rightarrow> string \<times> string \<times> time" where
  "residency_id r = (rs_agent r, rs_host r, rs_from_ts r)"

definition upsert ::
  "(residency_row \<times> int) multiset \<Rightarrow> residency_row \<Rightarrow> (residency_row \<times> int) multiset \<Rightarrow> bool" where
  "upsert T r T' \<longleftrightarrow> (\<exists>h. (\<forall>(q, k) \<in># T. k < h) \<and>
     T' = add_mset (r, h) (filter_mset (\<lambda>(q, k). residency_id q \<noteq> residency_id r) T))"

fun upserts ::
  "(residency_row \<times> int) multiset \<Rightarrow> residency_row list \<Rightarrow> (residency_row \<times> int) multiset \<Rightarrow> bool" where
  "upserts T [] T' \<longleftrightarrow> T' = T"
| "upserts T (r # rs) T' \<longleftrightarrow> (\<exists>T1. upsert T r T1 \<and> upserts T1 rs T')"

text \<open>No two rows of a table share their identity or their stamp.\<close>

definition rows_distinct :: "(residency_row \<times> int) multiset \<Rightarrow> bool" where
  "rows_distinct T \<longleftrightarrow> (\<forall>x. count T x \<le> 1) \<and>
     (\<forall>x \<in># T. \<forall>y \<in># T. residency_id (fst x) = residency_id (fst y) \<or> snd x = snd y \<longrightarrow> x = y)"

definition residency_table :: "'w env \<Rightarrow> ('w \<Rightarrow> (residency_row \<times> int) multiset) \<Rightarrow> bool" where
  "residency_table e tbl \<longleftrightarrow>
     (\<forall>w x w'. en_residency_rows e w = (x, w') \<longrightarrow>
        tbl w' = tbl w \<and> (\<forall>rows. x = Inr rows \<longrightarrow> mset rows = tbl w)) \<and>
     (\<forall>rs w x w'. en_put_residency e rs w = (x, w') \<longrightarrow>
        (case x of Inl _ \<Rightarrow> tbl w' = tbl w | Inr _ \<Rightarrow> upserts (tbl w) rs (tbl w')))"

definition journal_table :: "'w env \<Rightarrow> ('w \<Rightarrow> journal_row multiset) \<Rightarrow> bool" where
  "journal_table e tbl \<longleftrightarrow>
     (\<forall>w x w'. en_journal_rows e w = (x, w') \<longrightarrow>
        tbl w' = tbl w \<and> (\<forall>rows. x = Inr rows \<longrightarrow> mset rows = tbl w)) \<and>
     (\<forall>r w x w'. en_put_journal e r w = (x, w') \<longrightarrow>
        tbl w' = (case x of Inl _ \<Rightarrow> tbl w
          | Inr _ \<Rightarrow> add_mset r (filter_mset (\<lambda>q. (jr_agent q, jr_attempt q) \<noteq> (jr_agent r, jr_attempt r)) (tbl w)))) \<and>
     (\<forall>w. tbl (snd (en_now e w)) = tbl w)"

subsection \<open>The residency rows refine the history\<close>

text \<open>
  A table seen by one agent: its rows in the order the code sorts them in. \<open>seen\<close> determines
  the list, whatever order the store hands the rows out in.
\<close>

definition row_key :: "residency_row \<times> int \<Rightarrow> time \<times> int" where
  "row_key = (\<lambda>(r, h). (rs_from_ts r, h))"

definition seen :: "(residency_row \<times> int) multiset \<Rightarrow> string \<Rightarrow> (residency_row \<times> int) list \<Rightarrow> bool" where
  "seen T agent S \<longleftrightarrow> mset S = filter_mset (\<lambda>(r, h). rs_agent r = agent) T \<and> sorted (map row_key S)"

lemma rows_distinct_inj:
  assumes "rows_distinct T" and "x \<in># T" and "y \<in># T" and "residency_id (fst x) = residency_id (fst y) \<or> snd x = snd y"
  shows "x = y"
  using assms unfolding rows_distinct_def by blast

lemma rows_distinct_count:
  assumes "rows_distinct T" and "T = add_mset x U" shows "x \<notin># U"
proof -
  have "count T x \<le> 1" using assms(1) unfolding rows_distinct_def by blast
  then show ?thesis by (simp add: assms(2) not_in_iff)
qed

lemma upsert_distinct:
  assumes "rows_distinct T" and "upsert T r T'"
  shows "rows_distinct T'"
proof -
  obtain h where h: "\<forall>(q, k) \<in># T. k < h"
    and T': "T' = add_mset (r, h) (filter_mset (\<lambda>(q, k). residency_id q \<noteq> residency_id r) T)"
    using assms(2) by (auto simp: upsert_def)
  have old: "(q, k) \<in># T \<Longrightarrow> k \<noteq> h" for q k using h by auto
  then have "(r, h) \<notin># T" by blast
  then show ?thesis using assms(1) old unfolding rows_distinct_def T'
    by (auto simp: not_in_iff)
qed

lemma stays_of_seen:
  assumes "mset rows = T" and "rows_distinct T" and "seen T agent S"
  shows "stays_of rows agent = map fst S"
proof -
  let ?xs = "filter (\<lambda>(r, h). rs_agent r = agent) rows"
  have "sort_key row_key ?xs = S"
  proof (rule sort_key_inj_key_eq)
    show "mset ?xs = mset S" using assms by (auto simp: seen_def)
    show "inj_on row_key (set ?xs)"
      using assms(1,2) rows_distinct_inj [of T] by (auto simp: inj_on_def row_key_def)
    show "sorted (map row_key S)" using assms(3) by (simp add: seen_def)
  qed
  then show ?thesis by (simp add: stays_of_def row_key_def)
qed

lemma seen_stays:
  assumes "mset rows = T" and "rows_distinct T"
  obtains S where "seen T agent S" and "stays_of rows agent = map fst S"
proof -
  let ?S = "sort_key row_key (filter (\<lambda>(r, h). rs_agent r = agent) rows)"
  have "seen T agent ?S" using assms(1) by (auto simp: seen_def)
  with that stays_of_seen [OF assms] show ?thesis by blast
qed

text \<open>Putting a row of a new identity, begun after all others, appends it.\<close>

lemma seen_append:
  assumes "seen T agent S" and "upsert T r T'" and "rs_agent r = agent"
    and "\<And>q k. (q, k) \<in> set S \<Longrightarrow> rs_from_ts q < rs_from_ts r"
  shows "\<exists>h. seen T' agent (S @ [(r, h)])"
proof -
  obtain h where T': "T' = add_mset (r, h) (filter_mset (\<lambda>(q, k). residency_id q \<noteq> residency_id r) T)"
    using assms(2) by (auto simp: upsert_def)
  have m: "mset S = filter_mset (\<lambda>(q, k). rs_agent q = agent) T" using assms(1) by (simp add: seen_def)
  have "(q, k) \<in># T \<Longrightarrow> rs_agent q = agent \<Longrightarrow> residency_id q \<noteq> residency_id r" for q k
  proof -
    assume "(q, k) \<in># T" and "rs_agent q = agent"
    then have "(q, k) \<in># mset S" by (simp add: m)
    then show "residency_id q \<noteq> residency_id r" using assms(4) [of q k] by (auto simp: residency_id_def)
  qed
  then have "filter_mset (\<lambda>(q, k). rs_agent q = agent) T' = add_mset (r, h) (mset S)"
    using assms(3) by (auto simp: T' m filter_filter_mset intro!: filter_mset_cong)
  moreover have "sorted (map row_key (S @ [(r, h)]))"
    using assms(1,4) by (auto simp: seen_def sorted_append row_key_def less_eq_prod_def)
  ultimately show ?thesis by (auto simp: seen_def)
qed

text \<open>Putting the last row again with another end replaces it.\<close>

lemma seen_replace:
  assumes "seen T agent (B @ [(c, k)])" and "rows_distinct T" and "upsert T c' T'"
    and "residency_id c' = residency_id c"
  shows "\<exists>h. seen T' agent (B @ [(c', h)])"
proof -
  obtain h where h: "\<forall>(q, k) \<in># T. k < h"
    and T': "T' = add_mset (c', h) (filter_mset (\<lambda>(q, k). residency_id q \<noteq> residency_id c') T)"
    using assms(3) by (auto simp: upsert_def)
  have m: "filter_mset (\<lambda>(q, k). rs_agent q = agent) T = add_mset (c, k) (mset B)"
    using assms(1) by (simp add: seen_def)
  have same: "rs_agent c' = rs_agent c" "rs_from_ts c' = rs_from_ts c" "rs_agent c = agent"
    using assms(4) arg_cong [OF m, of set_mset] by (auto simp: residency_id_def)
  have ck: "(c, k) \<in># T" using arg_cong [OF m, of "\<lambda>M. (c, k) \<in># M"] by simp
  have inB: "b \<in># T" "b \<noteq> (c, k)" if "b \<in># mset B" for b
  proof -
    show "b \<in># T" using arg_cong [OF m, of "\<lambda>M. b \<in># M"] that by simp
    have "T = add_mset (c, k) (mset B + filter_mset (\<lambda>(q, k). rs_agent q \<noteq> agent) T)"
      using m multiset_partition [of T "\<lambda>(q, k). rs_agent q = agent"]
      by (simp add: case_prod_unfold)
    from rows_distinct_count [OF assms(2) this] that show "b \<noteq> (c, k)" by auto
  qed
  have "filter_mset (\<lambda>(q, k). rs_agent q = agent) T'
      = add_mset (c', h) (filter_mset (\<lambda>(q, k). residency_id q \<noteq> residency_id c') (add_mset (c, k) (mset B)))"
    using same by (simp add: T' m [symmetric] filter_filter_mset case_prod_unfold conj_commute)
  also have "filter_mset (\<lambda>(q, k). residency_id q \<noteq> residency_id c') (add_mset (c, k) (mset B)) = mset B"
  proof -
    have "residency_id (fst b) \<noteq> residency_id c'" if "b \<in># mset B" for b
      using inB [OF that] rows_distinct_inj [OF assms(2) inB(1) [OF that] ck] assms(4) by auto
    then show ?thesis using assms(4) by (auto simp: filter_mset_eq_conv)
  qed
  finally have "mset (B @ [(c', h)]) = filter_mset (\<lambda>(q, k). rs_agent q = agent) T'" by simp
  moreover have "sorted (map row_key (B @ [(c', h)]))"
  proof -
    have "row_key b \<le> (rs_from_ts c', h)" if "b \<in> set B" for b
    proof -
      have "snd b < h" using h inB(1) [of b] that by auto
      moreover have "row_key b \<le> row_key (c, k)"
        using assms(1) that by (auto simp: seen_def sorted_append)
      ultimately show ?thesis using same by (auto simp: row_key_def less_eq_prod_def split: prod.splits)
    qed
    then show ?thesis using assms(1) by (auto simp: seen_def sorted_append row_key_def)
  qed
  ultimately show ?thesis by (auto simp: seen_def)
qed

lemma row_stay_Inr: "row_stay r = Inr s \<longleftrightarrow> s = \<lparr>st_host = rs_host r, st_from_ts = rs_from_ts r, st_to_ts = rs_to_ts r\<rparr>
    \<and> rs_host r \<noteq> [] \<and> (case rs_to_ts r of None \<Rightarrow> True | Some t \<Rightarrow> rs_from_ts r \<le> t)"
  by (auto simp: row_stay_def mk_stay_def split: option.splits)

lemma list_all2_member: "list_all2 P xs ys \<Longrightarrow> x \<in> set xs \<Longrightarrow> \<exists>y \<in> set ys. P x y"
  by (induction rule: list_all2_induct) auto

lemma open_only_last:
  assumes "history_ok hist" and "list_all2 (\<lambda>r s. row_stay r = Inr s) rs hist"
  shows "filter (\<lambda>r. rs_to_ts r = None) rs =
    (if hist \<noteq> [] \<and> is_open (last hist) then [last rs] else [])"
proof (cases hist rule: rev_cases)
  case (snoc hs l)
  then obtain qs q where rs: "rs = qs @ [q]" "list_all2 (\<lambda>r s. row_stay r = Inr s) qs hs" "row_stay q = Inr l"
    using assms(2) by (auto simp: list_all2_append2 list_all2_Cons2)
  have "rs_to_ts r \<noteq> None" if r: "r \<in> set qs" for r
  proof -
    obtain s where "s \<in> set hs" "row_stay r = Inr s"
      using list_all2_member [OF rs(2) r] by blast
    then show ?thesis using history_ok_closed [of hs l s] assms(1) snoc
      by (auto simp: row_stay_Inr is_open_def)
  qed
  with snoc rs show ?thesis by (auto simp: filter_empty_conv row_stay_Inr is_open_def)
qed (use assms(2) in auto)

text \<open>What a move writes: nothing when the agent already lives there.\<close>

lemma stay_writes_history:
  assumes "history_ok hist" and "list_all2 (\<lambda>r s. row_stay r = Inr s) rs hist"
  shows "stay_writes rs agent host now seeded note =
    (if current_host hist = Some host then None
     else Some ((if hist \<noteq> [] \<and> is_open (last hist) then [(last rs)\<lparr>rs_to_ts := Some now\<rparr>] else []) @
       [new_stay agent host now seeded note]))"
proof (cases hist rule: rev_cases)
  case (snoc hs l)
  then obtain qs q where "rs = qs @ [q]" "row_stay q = Inr l"
    using assms(2) by (auto simp: list_all2_append2 list_all2_Cons2)
  with snoc show ?thesis unfolding stay_writes_def open_only_last [OF assms] current_host_def
    by (auto simp: row_stay_Inr)
qed (use assms(2) in \<open>simp add: stay_writes_def current_host_def\<close>)

lemma record_residency_writes:
  assumes "record_residency e agent host (Some now) seeded note w = (Inr moved, w')" and "strip agent = agent"
  obtains rows w1 where "en_residency_rows e w = (Inr rows, w1)" and "strip host \<noteq> []"
    and "(case stay_writes (stays_of rows agent) agent (strip host) now seeded note of
        None \<Rightarrow> \<not> moved \<and> w' = w1
      | Some writes \<Rightarrow> moved \<and> en_put_residency e writes w1 = (Inr (), w'))"
  using assms
  by (auto simp: record_residency_def seq_def ret_def raising_def split: if_splits option.splits
      prod.splits sum.splits)

text \<open>One move, as the store records it and as the history does.\<close>

lemma record_residency_step:
  assumes "residency_table e tbl" and dist: "rows_distinct (tbl w)" and S: "seen (tbl w) agent S"
    and hist: "list_all2 (\<lambda>r s. row_stay r = Inr s) (map fst S) hist" and ok: "history_ok hist"
    and ag: "strip agent = agent"
    and before: "\<forall>s \<in> set hist. st_from_ts s < now \<and> (case st_to_ts s of None \<Rightarrow> True | Some t \<Rightarrow> t \<le> now)"
    and run: "record_residency e agent host (Some now) seeded note w = (Inr moved, w')"
  shows "\<exists>S' hist'. seen (tbl w') agent S' \<and> list_all2 (\<lambda>r s. row_stay r = Inr s) (map fst S') hist' \<and>
    open_residency hist (strip host) now = Inr hist' \<and> (moved \<longleftrightarrow> hist' \<noteq> hist)"
proof -
  obtain rows w1 where rows: "en_residency_rows e w = (Inr rows, w1)" and host: "strip host \<noteq> []"
    and writes: "(case stay_writes (stays_of rows agent) agent (strip host) now seeded note of
        None \<Rightarrow> \<not> moved \<and> w' = w1
      | Some writes \<Rightarrow> moved \<and> en_put_residency e writes w1 = (Inr (), w'))"
    using record_residency_writes [OF run ag] by metis
  have t1: "mset rows = tbl w" "tbl w1 = tbl w"
    using assms(1) rows unfolding residency_table_def by blast+
  have stays: "stays_of rows agent = map fst S" using stays_of_seen [OF t1(1) dist S] .
  note writes = writes [unfolded stays stay_writes_history [OF ok hist]]
  let ?new = "new_stay agent (strip host) now seeded note"
  let ?stay = "\<lparr>st_host = strip host, st_from_ts = now, st_to_ts = None\<rparr>"
  have new: "row_stay ?new = Inr ?stay" "rs_agent ?new = agent" "rs_from_ts ?new = now"
    using host by (simp_all add: row_stay_Inr new_stay_def)
  have late: "rs_from_ts q < now" if "(q, k) \<in> set S" for q k
  proof -
    have "q \<in> set (map fst S)" using that by force
    from list_all2_member [OF hist this] obtain s where "s \<in> set hist" "row_stay q = Inr s" by blast
    with before show ?thesis by (auto simp: row_stay_Inr)
  qed
  have put: "upserts (tbl w) ws (tbl w')" if "en_put_residency e ws w1 = (Inr (), w')" for ws
  proof -
    have "case Inr () :: unit result of Inl _ \<Rightarrow> tbl w' = tbl w1 | Inr _ \<Rightarrow> upserts (tbl w1) ws (tbl w')"
      using assms(1) that unfolding residency_table_def by blast
    then show ?thesis using t1 by simp
  qed
  consider (stays) "current_host hist = Some (strip host)"
    | (moves) hs l where "hist = hs @ [l]" "is_open l" "st_host l \<noteq> strip host"
    | (opens) "hist = [] \<or> \<not> is_open (last hist)"
    by (cases hist rule: rev_cases; cases "is_open (last hist)"; auto simp: current_host_def)
  then show ?thesis
  proof cases
    case stays
    then have "hist \<noteq> []" "is_open (last hist)" "st_host (last hist) = strip host"
      by (auto simp: current_host_def split: if_splits)
    then have "open_residency hist (strip host) now = Inr hist"
      using host by (auto simp: open_residency_def is_open_def)
    moreover have "\<not> moved" "w' = w1" using writes stays by auto
    ultimately show ?thesis using S hist t1(2) by auto
  next
    case opens
    then have c: "current_host hist \<noteq> Some (strip host)" by (auto simp: current_host_def)
    with writes opens have m: "moved" and p: "en_put_residency e [?new] w1 = (Inr (), w')" by auto
    obtain T where "upsert (tbl w) ?new (tbl w')" using put [OF p] by auto
    from seen_append [OF S this new(2)] obtain h where "seen (tbl w') agent (S @ [(?new, h)])"
      using late new(3) by auto
    moreover have "list_all2 (\<lambda>r s. row_stay r = Inr s) (map fst (S @ [(?new, h)])) (hist @ [?stay])"
      using hist new(1) by (simp add: list_all2_appendI)
    moreover have "open_residency hist (strip host) now = Inr (hist @ [?stay])"
    proof (cases hist rule: rev_cases)
      case (snoc hs l)
      with opens obtain t where "st_to_ts l = Some t" "t \<le> now" "st_from_ts l < now"
        using before by (auto simp: is_open_def)
      with snoc host show ?thesis by (auto simp: open_residency_def mk_stay_def)
    qed (use host in \<open>simp add: open_residency_def mk_stay_def\<close>)
    ultimately show ?thesis using m by blast
  next
    case moves
    then have c: "current_host hist \<noteq> Some (strip host)" by (auto simp: current_host_def)
    obtain B q k where SB: "S = B @ [(q, k)]" and B: "list_all2 (\<lambda>r s. row_stay r = Inr s) (map fst B) hs"
      and q: "row_stay q = Inr l"
      using hist moves(1) by (auto simp: list_all2_append2 list_all2_Cons2 map_eq_append_conv)
    let ?closed = "q\<lparr>rs_to_ts := Some now\<rparr>"
    from c writes moves SB have m: "moved" and p: "en_put_residency e [?closed, ?new] w1 = (Inr (), w')" by auto
    obtain T where T: "upsert (tbl w) ?closed T" "upsert T ?new (tbl w')" using put [OF p] by auto
    have id: "residency_id ?closed = residency_id q" by (simp add: residency_id_def)
    obtain h where h: "seen T agent (B @ [(?closed, h)])"
      using seen_replace [OF S [unfolded SB] dist T(1) id] by blast
    have "\<exists>h'. seen (tbl w') agent ((B @ [(?closed, h)]) @ [(?new, h')])"
      by (rule seen_append [OF h T(2) new(2)]) (use late late [of q k] new(3) SB in auto)
    then obtain h' where "seen (tbl w') agent ((B @ [(?closed, h)]) @ [(?new, h')])" by blast
    moreover have "list_all2 (\<lambda>r s. row_stay r = Inr s) (map fst ((B @ [(?closed, h)]) @ [(?new, h')]))
        (hs @ [l\<lparr>st_to_ts := Some now\<rparr>, ?stay])"
      using B q new(1) late [of q k] SB by (auto simp: list_all2_append row_stay_Inr intro!: list_all2_appendI)
    moreover have "open_residency hist (strip host) now = Inr (hs @ [l\<lparr>st_to_ts := Some now\<rparr>, ?stay])"
      using moves host late [of q k] SB q by (auto simp: open_residency_def mk_stay_def is_open_def row_stay_Inr)
    ultimately show ?thesis using m moves(1) by blast
  qed
qed

lemma upserts_distinct: "upserts T rs T' \<Longrightarrow> rows_distinct T \<Longrightarrow> rows_distinct T'"
  by (induction T rs T' rule: upserts.induct) (auto dest: upsert_distinct)

lemma record_residency_distinct:
  assumes "residency_table e tbl" and "rows_distinct (tbl w)"
    and "record_residency e agent host (Some now) seeded note w = (r, w')"
  shows "rows_distinct (tbl w')"
proof -
  have rows: "tbl w1 = tbl w0" if "en_residency_rows e w0 = (x, w1)" for x w0 w1
    using assms(1) that unfolding residency_table_def by blast
  have put: "rows_distinct (tbl w1)" if "en_put_residency e ws w0 = (x, w1)" "rows_distinct (tbl w0)" for ws x w0 w1
  proof -
    have "case x of Inl _ \<Rightarrow> tbl w1 = tbl w0 | Inr _ \<Rightarrow> upserts (tbl w0) ws (tbl w1)"
      using assms(1) that(1) unfolding residency_table_def by blast
    with that(2) show ?thesis by (cases x) (auto dest: upserts_distinct)
  qed
  show ?thesis using assms(2,3)
    by (auto simp: record_residency_def seq_def ret_def raising_def dest: rows dest!: put
        split: if_splits option.splits prod.splits sum.splits)
qed

lemma read_history_seen:
  assumes "residency_table e tbl" and "rows_distinct (tbl w)"
    and "read_residency_history e agent w = (Inr hist, w')"
  obtains S where "seen (tbl w) agent S" and "list_all2 (\<lambda>r s. row_stay r = Inr s) (map fst S) hist"
    and "tbl w' = tbl w"
proof -
  obtain rows where rows: "en_residency_rows e w = (Inr rows, w')"
    and h: "map_result row_stay (stays_of rows agent) = Inr hist"
    using assms(3) by (auto simp: read_residency_history_def seq_def lift_def split: prod.splits sum.splits)
  have t: "mset rows = tbl w" "tbl w' = tbl w"
    using assms(1) rows unfolding residency_table_def by blast+
  with assms(2) obtain S where "seen (tbl w) agent S" "stays_of rows agent = map fst S"
    using seen_stays [of rows "tbl w" agent] by blast
  with that h t(2) show ?thesis by (simp add: map_result_Inr_iff)
qed

lemma seen_history:
  assumes "residency_table e tbl" and "rows_distinct (tbl w)" and "seen (tbl w) agent S"
    and "read_residency_history e agent w = (Inr hist, w')"
  shows "list_all2 (\<lambda>r s. row_stay r = Inr s) (map fst S) hist"
proof -
  obtain rows where rows: "en_residency_rows e w = (Inr rows, w')"
    and h: "map_result row_stay (stays_of rows agent) = Inr hist"
    using assms(4) by (auto simp: read_residency_history_def seq_def lift_def split: prod.splits sum.splits)
  have "mset rows = tbl w" using assms(1) rows unfolding residency_table_def by blast
  from stays_of_seen [OF this assms(2,3)] h show ?thesis by (simp add: map_result_Inr_iff)
qed

lemma sorted_key_last: "sorted (map f xs) \<Longrightarrow> x \<in> set xs \<Longrightarrow> f x \<le> f (last xs)"
  by (induction xs rule: rev_induct) (auto simp: sorted_append)

lemma stays_unique:
  "list_all2 (\<lambda>r s. row_stay r = Inr s) rs h \<Longrightarrow> list_all2 (\<lambda>r s. row_stay r = Inr s) rs h' \<Longrightarrow> h = h'"
  by (simp add: map_result_Inr_iff [symmetric])

subsection \<open>Properties\<close>

text \<open>
  C35: The store records moves as the history does, going forward. On a table that reads back what was
  written and whose rows have distinct keys, for an agent whose name carries no outer blanks and whose
  stored history is sound, every stay of it begun before now and ended by now, a recording that
  returns and a reading that returns after it give what open_residency makes of the history that was
  there, whatever order the store hands its rows out in; and the answer says whether anything
  changed. A move dated before the current stay began breaks the history instead
  (\<open>backdated_move_breaks_history\<close>).
\<close>

theorem residency_store_refines:
  assumes "residency_table e tbl" and "rows_distinct (tbl w)" and "strip agent = agent"
    and "read_residency_history e agent w = (Inr hist, w1)" and "history_ok hist"
    and "\<forall>s \<in> set hist. st_from_ts s < now \<and> (case st_to_ts s of None \<Rightarrow> True | Some t \<Rightarrow> t \<le> now)"
    and "record_residency e agent host (Some now) seeded note w1 = (Inr moved, w2)"
    and "read_residency_history e agent w2 = (Inr hist', w3)"
  shows "open_residency hist (strip host) now = Inr hist' \<and> (moved \<longleftrightarrow> hist' \<noteq> hist)"
proof -
  obtain S where S: "seen (tbl w1) agent S" "list_all2 (\<lambda>r s. row_stay r = Inr s) (map fst S) hist"
    and t: "tbl w1 = tbl w"
    using read_history_seen [OF assms(1,2,4)] by metis
  note d = assms(2) [folded t]
  obtain S' h where S': "seen (tbl w2) agent S'" "list_all2 (\<lambda>r s. row_stay r = Inr s) (map fst S') h"
    "open_residency hist (strip host) now = Inr h" "moved \<longleftrightarrow> h \<noteq> hist"
    using record_residency_step [OF assms(1) d S assms(5,3,6,7)] by blast
  have "rows_distinct (tbl w2)" using record_residency_distinct [OF assms(1) d assms(7)] .
  from stays_unique [OF S'(2) seen_history [OF assms(1) this S'(1) assms(8)]] S' show ?thesis by simp
qed

lemma backdated_write:
  assumes "residency_table e tbl" and "rows_distinct (tbl w)" and "strip agent = agent"
    and "read_residency_history e agent w = (Inr hist, w1)" and "history_ok hist"
    and "current_host hist = Some old" and "old \<noteq> strip host" and "now < st_from_ts (last hist)"
    and "record_residency e agent host (Some now) seeded note w1 = (Inr moved, w2)"
  obtains q j where "moved" and "strip host \<noteq> []" and "rs_agent q = agent" and "row_stay q = Inr (last hist)"
    and "(q\<lparr>rs_to_ts := Some now\<rparr>, j) \<in># tbl w2" and "rows_distinct (tbl w2)"
proof -
  obtain S where S: "seen (tbl w1) agent S" "list_all2 (\<lambda>r s. row_stay r = Inr s) (map fst S) hist"
    and t: "tbl w1 = tbl w"
    using read_history_seen [OF assms(1,2,4)] by metis
  note d = assms(2) [folded t]
  obtain hs l where h: "hist = hs @ [l]" "is_open l" "st_host l \<noteq> strip host"
    using assms(6,7) by (cases hist rule: rev_cases) (auto simp: current_host_def split: if_splits)
  then obtain B q k where SB: "S = B @ [(q, k)]" and q: "row_stay q = Inr l"
    using S(2) by (auto simp: list_all2_append2 list_all2_Cons2 map_eq_append_conv)
  have qT: "(q, k) \<in># tbl w1" "rs_agent q = agent"
    using arg_cong [of _ _ "\<lambda>M. (q, k) \<in># M", OF conjunct1 [OF S(1) [unfolded seen_def]]] SB by simp_all
  obtain rows u where rows: "en_residency_rows e w1 = (Inr rows, u)" and host: "strip host \<noteq> []"
    and writes: "(case stay_writes (stays_of rows agent) agent (strip host) now seeded note of
        None \<Rightarrow> \<not> moved \<and> w2 = u
      | Some writes \<Rightarrow> moved \<and> en_put_residency e writes u = (Inr (), w2))"
    using record_residency_writes [OF assms(9,3)] by metis
  have u: "mset rows = tbl w1" "tbl u = tbl w1" using assms(1) rows unfolding residency_table_def by blast+
  let ?new = "new_stay agent (strip host) now seeded note" and ?closed = "q\<lparr>rs_to_ts := Some now\<rparr>"
  have m: "moved" and p: "en_put_residency e [?closed, ?new] u = (Inr (), w2)"
    using writes h SB unfolding stays_of_seen [OF u(1) d S(1)] stay_writes_history [OF assms(5) S(2)]
    by (auto simp: current_host_def)
  have "case Inr () :: unit result of Inl _ \<Rightarrow> tbl w2 = tbl u | Inr _ \<Rightarrow> upserts (tbl u) [?closed, ?new] (tbl w2)"
    using assms(1) p unfolding residency_table_def by blast
  then obtain T where T: "upsert (tbl w1) ?closed T" "upsert T ?new (tbl w2)" using u(2) by auto
  obtain j where "(?closed, j) \<in># T" using T(1) by (auto simp: upsert_def)
  moreover have "residency_id ?closed \<noteq> residency_id ?new"
    using h(3) q by (auto simp: residency_id_def new_stay_def row_stay_Inr)
  ultimately have "(?closed, j) \<in># tbl w2" using T(2) by (auto simp: upsert_def)
  then show thesis
    using that [OF m host qT(2)] q h(1) record_residency_distinct [OF assms(1) d assms(9)] by simp
qed

lemma closed_before_opened_unreadable:
  assumes "residency_table e tbl" and "rows_distinct (tbl w)" and "rs_agent q = agent" and "row_stay q = Inr l"
    and "now < st_from_ts l" and "(q\<lparr>rs_to_ts := Some now\<rparr>, j) \<in># tbl w"
  shows "\<nexists>hist. fst (read_residency_history e agent w) = Inr hist"
proof
  let ?closed = "q\<lparr>rs_to_ts := Some now\<rparr>"
  assume "\<exists>hist. fst (read_residency_history e agent w) = Inr hist"
  then obtain hist w3 where r: "read_residency_history e agent w = (Inr hist, w3)" by (metis prod.collapse)
  obtain S where S: "seen (tbl w) agent S" "list_all2 (\<lambda>r s. row_stay r = Inr s) (map fst S) hist"
    using read_history_seen [OF assms(1,2) r] by metis
  have "(?closed, j) \<in> set S"
    using assms(3,6) arg_cong [OF conjunct1 [OF S(1) [unfolded seen_def]], of set_mset] by auto
  then have "?closed \<in> set (map fst S)" by force
  from list_all2_member [OF S(2) this] show False using assms(4,5) by (auto simp: row_stay_Inr)
qed

text \<open>
  The store takes a move that the history refuses, and loses the history by it. When the
  agent lives elsewhere since after the given time, open_residency refuses the move, while
  record_residency writes it and says so; from then on reading the agent's history raises.
\<close>

theorem backdated_move_breaks_history:
  assumes "residency_table e tbl" and "rows_distinct (tbl w)" and "strip agent = agent"
    and "read_residency_history e agent w = (Inr hist, w1)" and "history_ok hist"
    and "current_host hist = Some old" and "old \<noteq> strip host" and "now < st_from_ts (last hist)"
    and "record_residency e agent host (Some now) seeded note w1 = (Inr moved, w2)"
  shows "moved \<and> (\<exists>err. open_residency hist (strip host) now = Inl err) \<and>
    (\<nexists>hist'. fst (read_residency_history e agent w2) = Inr hist')"
proof -
  obtain q j where m: "moved" and host: "strip host \<noteq> []" and q: "rs_agent q = agent" "row_stay q = Inr (last hist)"
    and j: "(q\<lparr>rs_to_ts := Some now\<rparr>, j) \<in># tbl w2" and d: "rows_distinct (tbl w2)"
    using backdated_write [OF assms] by blast
  have "\<nexists>hist'. fst (read_residency_history e agent w2) = Inr hist'"
    using closed_before_opened_unreadable [OF assms(1) d q assms(8) j] .
  moreover have "\<exists>err. open_residency hist (strip host) now = Inl err"
    using assms(6-8) host
    by (cases hist rule: rev_cases) (auto simp: open_residency_def is_open_def current_host_def split: if_splits)
  ultimately show ?thesis using m by blast
qed

lemma lease_survives:
  assumes "lease_table e tbl" and "lease_ok l" and "strip (l_token l) \<noteq> []"
    and "save_lease e l w = (Inr (), w1)" and "load_lease e (l_agent l) w1 = (Inr m, w2)"
  shows "m = Some l"
proof -
  obtain t u where "en_put_lease e (lease_row_of l t) u = (Inr (), w1)"
    using assms(4) by (auto simp: save_lease_def seq_def now_of_def split: prod.splits)
  then have "tbl w1 (l_agent l) = Some (lease_row_of l t)"
    using assms(1) unfolding lease_table_def by (fastforce simp: lease_row_of_def)
  moreover obtain row where "en_get_lease e (l_agent l) w1 = (Inr row, w2)" "lease_of_row (l_agent l) row = Inr m"
    using assms(5) by (auto simp: load_lease_def seq_def lift_def split: prod.splits sum.splits)
  moreover have "row = tbl w1 (l_agent l)" using assms(1) calculation(2) unfolding lease_table_def by blast
  ultimately show ?thesis
    using assms(2,3) by (auto simp: lease_of_row_def lease_row_of_def mk_lease_def lease_ok_def)
qed

lemma save_journal_table:
  assumes "journal_table e jtbl" and "save_journal e r v = (Inr n, v1)"
  obtains rows t where "mset rows = jtbl v"
    and "n = attempt_for (attempts rows (r_agent r)) (st_at (hd (r_steps r)))"
    and "jtbl v1 = add_mset (journal_row_of r n t)
        (filter_mset (\<lambda>x. (jr_agent x, jr_attempt x) \<noteq> (r_agent r, n)) (jtbl v))"
proof -
  obtain rows u u' t where rows: "en_journal_rows e v = (Inr rows, u)" and clock: "en_now e u = (t, u')"
    and n: "n = attempt_for (attempts rows (r_agent r)) (st_at (hd (r_steps r)))"
    and put0: "en_put_journal e (journal_row_of r n t) u' = (Inr (), v1)"
    using assms(2) by (auto simp: save_journal_def seq_def ret_def now_of_def Let_def split: prod.splits sum.splits)
  have "jtbl (snd (en_now e u)) = jtbl u" using assms(1) unfolding journal_table_def by blast
  with clock have u': "jtbl u' = jtbl u" by simp
  have tu: "mset rows = jtbl v" "jtbl u = jtbl v" using assms(1) rows unfolding journal_table_def by blast+
  have "jtbl v1 = add_mset (journal_row_of r n t)
      (filter_mset (\<lambda>x. (jr_agent x, jr_attempt x) \<noteq> (r_agent r, n)) (jtbl v))"
    using put0 u' assms(1) tu unfolding journal_table_def by (fastforce simp: journal_row_of_def)
  with tu(1) n show thesis by (rule that)
qed

lemma attempts_mem: "mset rows = T \<Longrightarrow> x \<in> set (attempts rows agent) \<longleftrightarrow> x \<in># T \<and> jr_agent x = agent"
  by (auto simp: attempts_def dest: arg_cong [of _ _ set_mset])

lemma fresh_attempt_is_latest:
  assumes "mset rows = T" and "\<forall>x \<in># T. jr_agent x = agent \<longrightarrow> jr_started_at x \<noteq> started"
    and "x \<in># T" and "jr_agent x = agent"
  shows "jr_attempt x < attempt_for (attempts rows agent) started"
proof -
  note mem = attempts_mem [OF assms(1), of _ agent]
  have "filter (\<lambda>x. jr_started_at x = started) (attempts rows agent) = []"
    using assms(2) mem by (auto simp: filter_empty_conv)
  moreover have "jr_attempt x \<le> Max (set (map jr_attempt (attempts rows agent)))"
    using assms(3,4) mem [of x] by (intro Max_ge) auto
  moreover have "attempts rows agent \<noteq> []" using assms(3,4) mem [of x] by auto
  ultimately show ?thesis by (simp add: attempt_for_def)
qed

lemma latest_journal_loads:
  assumes "journal_table e jtbl" and "relocation_ok r"
    and T: "jtbl v1 = add_mset (journal_row_of r n t)
        (filter_mset (\<lambda>x. (jr_agent x, jr_attempt x) \<noteq> (r_agent r, n)) T)"
    and last: "\<forall>x \<in># T. jr_agent x = r_agent r \<longrightarrow> jr_attempt x \<le> n"
    and "load_journal e (r_agent r) v1 = (Inr q, v2)"
  shows "q = Some r"
proof -
  obtain rows where rows: "en_journal_rows e v1 = (Inr rows, v2)" "mset rows = jtbl v1"
    and q: "q = (if attempts rows (r_agent r) = [] then None
      else relocation_of_row (r_agent r) (List.last (attempts rows (r_agent r))))"
    using assms(1,5) unfolding journal_table_def
    by (fastforce simp: load_journal_def seq_def ret_def split: prod.splits sum.splits)
  let ?A = "attempts rows (r_agent r)"
  have A: "x \<in> set ?A \<longleftrightarrow> x = journal_row_of r n t \<or>
      (x \<in># T \<and> jr_agent x = r_agent r \<and> jr_attempt x \<noteq> n)" for x
    using attempts_mem [OF rows(2), of x "r_agent r"] unfolding T by (auto simp: journal_row_of_def)
  then have ne: "?A \<noteq> []" by (metis list.set(1) empty_iff)
  have srt: "sorted (map jr_attempt ?A)" by (simp add: attempts_def)
  have "journal_row_of r n t \<in> set ?A" using A by blast
  from sorted_key_last [OF srt this] have "n \<le> jr_attempt (List.last ?A)"
    by (simp add: journal_row_of_def)
  with last A [of "List.last ?A"] ne have "List.last ?A = journal_row_of r n t"
    by (metis last_in_set order_antisym)
  then show ?thesis using ne assms(2) unfolding q
    by (cases r) (simp add: relocation_of_row_def journal_row_of_def Let_def)
qed

text \<open>
  A lease and a journal survive the store. A lease with a token, saved and read back under its
  agent, is the same lease; a relocation's journal, saved and loaded, is the same relocation as
  long as no later attempt is stored, and a journal not stored before is stored as the latest
  attempt.
\<close>

theorem records_survive_the_store:
  assumes "lease_table e tbl" and "lease_ok l" and "strip (l_token l) \<noteq> []"
    and "save_lease e l w = (Inr (), w1)" and "load_lease e (l_agent l) w1 = (Inr m, w2)"
    and "journal_table e jtbl" and "relocation_ok r"
    and "save_journal e r v = (Inr n, v1)" and "load_journal e (r_agent r) v1 = (Inr q, v2)"
  shows "m = Some l \<and>
    ((\<forall>x \<in># jtbl v. jr_agent x = r_agent r \<longrightarrow> jr_started_at x \<noteq> st_at (hd (r_steps r))) \<longrightarrow>
       (\<forall>x \<in># jtbl v. jr_agent x = r_agent r \<longrightarrow> jr_attempt x < n)) \<and>
    ((\<forall>x \<in># jtbl v. jr_agent x = r_agent r \<longrightarrow> jr_attempt x \<le> n) \<longrightarrow> q = Some r)"
proof -
  obtain rows t where rows: "mset rows = jtbl v"
    and n: "n = attempt_for (attempts rows (r_agent r)) (st_at (hd (r_steps r)))"
    and T: "jtbl v1 = add_mset (journal_row_of r n t)
        (filter_mset (\<lambda>x. (jr_agent x, jr_attempt x) \<noteq> (r_agent r, n)) (jtbl v))"
    by (rule save_journal_table [OF assms(6,8)])
  have "m = Some l" using lease_survives [OF assms(1-5)] .
  moreover have "jr_attempt x < n"
    if "\<forall>x \<in># jtbl v. jr_agent x = r_agent r \<longrightarrow> jr_started_at x \<noteq> st_at (hd (r_steps r))"
      "x \<in># jtbl v" "jr_agent x = r_agent r" for x
    unfolding n using fresh_attempt_is_latest [OF rows that] .
  moreover have "q = Some r" if "\<forall>x \<in># jtbl v. jr_agent x = r_agent r \<longrightarrow> jr_attempt x \<le> n"
    using latest_journal_loads [OF assms(6,7) T that assms(9)] .
  ultimately show ?thesis by blast
qed

subsection \<open>A store\<close>

text \<open>A store held in memory, by which the hypotheses above can be met: its world is its three tables.\<close>

record mem_store =
  ms_leases :: "string \<Rightarrow> lease_row option"
  ms_stays :: "(residency_row \<times> int) list"
  ms_journals :: "journal_row list"

definition mem_put_stay :: "residency_row \<Rightarrow> (residency_row \<times> int) list \<Rightarrow> (residency_row \<times> int) list" where
  "mem_put_stay r rows = (r, 1 + foldr max (map snd rows) 0) #
     filter (\<lambda>(q, k). residency_id q \<noteq> residency_id r) rows"

definition mem_env :: "mem_store env" where
  "mem_env = \<lparr>en_exec = (\<lambda>argv t w. (Inr None, w)), en_now = (\<lambda>w. (0, w)), en_sleep = (\<lambda>d w. w),
     en_token_hex = (\<lambda>n w. (replicate n (CHR ''0''), w)), en_peer = (\<lambda>h. None),
     en_get_lease = (\<lambda>a w. (Inr (ms_leases w a), w)),
     en_put_lease = (\<lambda>r w. (Inr (), w\<lparr>ms_leases := (ms_leases w)(lr_agent r \<mapsto> r)\<rparr>)),
     en_residency_rows = (\<lambda>w. (Inr (ms_stays w), w)),
     en_put_residency = (\<lambda>rs w. (Inr (), w\<lparr>ms_stays := fold mem_put_stay rs (ms_stays w)\<rparr>)),
     en_journal_rows = (\<lambda>w. (Inr (ms_journals w), w)),
     en_put_journal = (\<lambda>r w. (Inr (), w\<lparr>ms_journals := r # filter (\<lambda>q. (jr_agent q, jr_attempt q)
        \<noteq> (jr_agent r, jr_attempt r)) (ms_journals w)\<rparr>))\<rparr>"

lemma mem_lease_table: "lease_table mem_env ms_leases"
  by (simp add: lease_table_def mem_env_def)

lemma mem_journal_table: "journal_table mem_env (\<lambda>w. mset (ms_journals w))"
  by (simp add: journal_table_def mem_env_def)

lemma mem_upsert: "upsert (mset rows) r (mset (mem_put_stay r rows))"
proof -
  have "k < 1 + foldr max (map snd rows) 0" if "(q, k) \<in> set rows" for q k
    using that by (induction rows) auto
  then show ?thesis unfolding upsert_def mem_put_stay_def
    by (intro exI [of _ "1 + foldr max (map snd rows) 0"]) auto
qed

lemma mem_upserts: "upserts (mset rows) rs (mset (fold mem_put_stay rs rows))"
  by (induction rs arbitrary: rows) (auto intro: mem_upsert)

lemma mem_residency_table: "residency_table mem_env (\<lambda>w. mset (ms_stays w))"
  by (simp add: residency_table_def mem_env_def mem_upserts)

theorem residency_store_refines_witness:
  "open_residency [\<lparr>st_host = ''a'', st_from_ts = 5, st_to_ts = None\<rparr>] ''b'' 9
     = Inr [\<lparr>st_host = ''a'', st_from_ts = 5, st_to_ts = Some 9\<rparr>, \<lparr>st_host = ''b'', st_from_ts = 9, st_to_ts = None\<rparr>]"
proof -
  let ?r = "\<lparr>rs_agent = ''x'', rs_host = ''a'', rs_from_ts = 5, rs_to_ts = None, rs_seeded = 0, rs_note = None\<rparr>"
  let ?w = "\<lparr>ms_leases = Map.empty, ms_stays = [(?r, 1)], ms_journals = []\<rparr>"
  let ?h = "[\<lparr>st_host = ''a'', st_from_ts = 5, st_to_ts = None\<rparr>]"
  let ?w' = "?w\<lparr>ms_stays := [(new_stay ''x'' ''b'' 9 False [], 3), (?r\<lparr>rs_to_ts := Some 9\<rparr>, 2)]\<rparr>"
  note ev = read_residency_history_def record_residency_def stays_of_def seq_def ret_def lift_def mem_env_def
    row_stay_def mk_stay_def stay_writes_def strip_def is_space_def new_stay_def mem_put_stay_def residency_id_def
  have "rows_distinct (mset (ms_stays ?w))" by (simp add: rows_distinct_def)
  moreover have "read_residency_history mem_env ''x'' ?w = (Inr ?h, ?w)" by (simp add: ev)
  moreover have "record_residency mem_env ''x'' ''b'' (Some 9) False [] ?w = (Inr True, ?w')" by (simp add: ev)
  moreover have "read_residency_history mem_env ''x'' ?w' = (Inr [\<lparr>st_host = ''a'', st_from_ts = 5, st_to_ts = Some 9\<rparr>,
      \<lparr>st_host = ''b'', st_from_ts = 9, st_to_ts = None\<rparr>], ?w')" by (simp add: ev)
  ultimately show ?thesis
    using residency_store_refines [OF mem_residency_table, of ?w "''x''" ?h ?w 9 "''b''"]
    by (simp add: strip_def is_space_def stay_ok_def)
qed

theorem backdated_move_breaks_history_witness:
  "\<exists>w w'. record_residency mem_env ''x'' ''b'' (Some 3) False [] w = (Inr True, w') \<and>
     (\<nexists>hist. fst (read_residency_history mem_env ''x'' w') = Inr hist)"
proof -
  let ?r = "\<lparr>rs_agent = ''x'', rs_host = ''a'', rs_from_ts = 5, rs_to_ts = None, rs_seeded = 0, rs_note = None\<rparr>"
  let ?w = "\<lparr>ms_leases = Map.empty, ms_stays = [(?r, 1)], ms_journals = []\<rparr>"
  let ?h = "[\<lparr>st_host = ''a'', st_from_ts = 5, st_to_ts = None\<rparr>]"
  note ev = read_residency_history_def record_residency_def stays_of_def seq_def ret_def lift_def mem_env_def
    row_stay_def mk_stay_def stay_writes_def strip_def is_space_def new_stay_def mem_put_stay_def residency_id_def
  have "rows_distinct (mset (ms_stays ?w))" by (simp add: rows_distinct_def)
  moreover have "read_residency_history mem_env ''x'' ?w = (Inr ?h, ?w)" by (simp add: ev)
  moreover obtain w' where r: "record_residency mem_env ''x'' ''b'' (Some 3) False [] ?w = (Inr True, w')"
    by (simp add: ev)
  ultimately have "\<nexists>hist. fst (read_residency_history mem_env ''x'' w') = Inr hist"
    using backdated_move_breaks_history [OF mem_residency_table, of ?w "''x''" ?h ?w "''a''" "''b''" 3 False "[]" True w']
    by (simp add: strip_def is_space_def stay_ok_def current_host_def is_open_def)
  with r show ?thesis by blast
qed

theorem records_survive_the_store_witness:
  "\<exists>w1 w2. save_lease mem_env \<lparr>l_agent = ''x'', l_holder = ''a'', l_token = ''t'', l_expires_at = 5, l_fence = 3\<rparr>
       \<lparr>ms_leases = Map.empty, ms_stays = [], ms_journals = []\<rparr> = (Inr (), w1) \<and>
     load_lease mem_env ''x'' w1 = (Inr (Some \<lparr>l_agent = ''x'', l_holder = ''a'', l_token = ''t'', l_expires_at = 5, l_fence = 3\<rparr>), w2)"
proof -
  let ?l = "\<lparr>l_agent = ''x'', l_holder = ''a'', l_token = ''t'', l_expires_at = 5, l_fence = 3\<rparr>"
  let ?w = "\<lparr>ms_leases = Map.empty, ms_stays = [], ms_journals = []\<rparr>"
  let ?r = "\<lparr>r_agent = ''x'', r_from_host = ''a'', r_to_host = ''b'', r_phase = PREFLIGHT,
    r_steps = [\<lparr>st_phase = PREFLIGHT, st_at = 0, st_detail = empty_msg\<rparr>]\<rparr>"
  note ev = seq_def ret_def lift_def mem_env_def now_of_def
  obtain w1 m w2 where s: "save_lease mem_env ?l ?w = (Inr (), w1)" and l: "load_lease mem_env (l_agent ?l) w1 = (Inr m, w2)"
    by (simp add: save_lease_def load_lease_def lease_of_row_def lease_row_of_def mk_lease_def strip_def is_space_def ev)
  obtain n v1 where j: "save_journal mem_env ?r ?w = (Inr n, v1)" by (simp add: save_journal_def ev Let_def)
  obtain q v2 where k: "load_journal mem_env (r_agent ?r) v1 = (Inr q, v2)" by (simp add: load_journal_def ev)
  have ok: "relocation_ok ?r" by (simp add: relocation_ok_def PHASES_def)
  have "m = Some ?l"
    using records_survive_the_store [OF mem_lease_table _ _ s l mem_journal_table ok j k]
    by (simp add: lease_ok_def strip_def is_space_def)
  with s l show ?thesis by auto
qed

end
