(* ===== verification/Adapters.thy ===== *)
theory Adapters
  imports Quiescence Spec_Reads Store
begin

text \<open>
  What the adapters of a relocation share (\<open>RelocateAdapters\<close>, \<open>_relocate_effects.py\<close>) and the
  effects on the source: draining, stopping, and waiting for silence
  (\<open>_relocate_effects_source.py\<close>). The attributes that are set once are the record
  \<open>relocate_config\<close>; those the effects write, with the world they run in, are the state
  \<open>adapters\<close>. The list of log lines is only printed and is not modelled.
\<close>

record relocate_config =
  rc_agent :: string
  rc_spec :: spec
  rc_from_host :: string
  rc_to_host :: string
  rc_source :: shell
  rc_target :: shell
  rc_stamp :: string
  rc_local_host :: string
  rc_spec_path :: string

record 'w adapters =
  ad_world :: 'w
  ad_source_dir :: string
  ad_target_dir :: string
  ad_carried :: "string list"
  ad_sent :: "transcript_file list"
  ad_landed :: "transcript_file list"
  ad_arrival_confirmed :: tri
  ad_handshake_confirmed :: tri
  ad_session_uuid :: string
  ad_target_ssh_home :: string
  ad_target_spec_path :: string
  ad_target_state_dir :: string
  ad_standby_started :: bool
  ad_lease_fence :: "int option"

text \<open>The adapters as \<open>adapters_for\<close> builds them: nothing carried, nothing confirmed.\<close>

definition fresh_adapters :: "'w \<Rightarrow> 'w adapters" where
  "fresh_adapters w = \<lparr>ad_world = w, ad_source_dir = [], ad_target_dir = [], ad_carried = [],
     ad_sent = [], ad_landed = [], ad_arrival_confirmed = Unknown, ad_handshake_confirmed = Unknown,
     ad_session_uuid = [], ad_target_ssh_home = [], ad_target_spec_path = [], ad_target_state_dir = [],
     ad_standby_started = False, ad_lease_fence = None\<rparr>"

type_synonym ('w, 'a) adapter = "('w adapters, 'a) prog"

text \<open>A step on the world, with the attributes unchanged.\<close>

definition on_world :: "('w, 'a) prog \<Rightarrow> ('w, 'a) adapter" where
  "on_world m s = (case m (ad_world s) of (r, w) \<Rightarrow> (r, s\<lparr>ad_world := w\<rparr>))"

text \<open>A refusal is the step result an effect returns early; \<open>None\<close> lets it go on.\<close>

definition unless_refused :: "('w, step_result option) adapter \<Rightarrow> ('w, step_result) adapter \<Rightarrow> ('w, step_result) adapter" where
  "unless_refused m rest = seq m (\<lambda>refused. case refused of Some res \<Rightarrow> ret res | None \<Rightarrow> rest)"

subsection \<open>The transcript directory on the source\<close>

text \<open>\<open>source_transcript_dir\<close>: path, encoded name and the reason there is, or is not, one.\<close>

definition source_transcript_dir ::
  "'w env \<Rightarrow> relocate_config \<Rightarrow> ('w, string option \<times> string option \<times> msg) adapter" where
  "source_transcript_dir e c =
     (let home = transcript_home_from_spec (rc_spec c) None; workdir = workdir_of (rc_spec c) in
      case th_path home of
        None \<Rightarrow> ret (None, None, Fmt ''reason and hint'' [th_reason home, th_hint home])
      | Some _ \<Rightarrow>
          (if workdir = [] then ret (None, None, Fmt ''the spec declares no workdir'' [])
           else seq (on_world (resolved_path e (rc_source c) workdir)) (\<lambda>src.
             (if \<not> present src then
                ret (None, None, Fmt ''the SOURCE's resolved workdir was not observed'' [Txt workdir])
              else
               (let d = derive_target_dir (th_path home) src None
                in ret (td_path d, td_encoded d, td_reason d))))))"

subsection \<open>Drain and stop\<close>

definition drain_source :: "'w env \<Rightarrow> relocate_config \<Rightarrow> ('w, step_result) adapter" where
  "drain_source e c =
     seq (on_world (observe_running e (rc_source c) (rc_agent c))) (\<lambda>(running, why).
       ret (case running of
         Some False \<Rightarrow> step_yes (Fmt ''nothing to drain'' [why])
       | None \<Rightarrow> step_not Unknown
           (Fmt ''whether it runs was not measured'' [Txt (rc_agent c), Txt (rc_from_host c), why])
           (Fmt ''measure liveness on the source before draining'' [])
       | Some True \<Rightarrow> step_untried
           (Fmt ''is RUNNING and there is no drain adapter'' [Txt (rc_agent c), Txt (rc_from_host c)])
           (Fmt ''drain it by hand, then re-run'' [])))"

text \<open>\<open>_quiesced\<close>: a stop counts once the transcripts of the stopped process have fallen silent.\<close>

definition quiesced :: "'w env \<Rightarrow> relocate_config \<Rightarrow> msg \<Rightarrow> ('w, step_result) adapter" where
  "quiesced e c stopped_why =
     seq (source_transcript_dir e c) (\<lambda>(directory, _, why).
       (case directory of
          None \<Rightarrow> ret (step_not Unknown
            (Fmt ''is stopped and its transcript directory could not be derived''
              [Txt (rc_agent c), Txt (rc_from_host c), stopped_why, why])
            (Fmt ''fix the derivation and re-run'' []))
        | Some dir \<Rightarrow>
            seq (on_world (await_quiescence e (rc_source c) dir)) (\<lambda>q.
              ret (if qu_settled q \<noteq> Yes then
                     step_not Unknown (Fmt ''is stopped, but''
                       [Txt (rc_agent c), Txt (rc_from_host c), stopped_why, qu_detail q]) (qu_hint q)
                   else step_yes (Fmt ''; '' [stopped_why, qu_detail q])))))"

definition stop_source :: "'w env \<Rightarrow> relocate_config \<Rightarrow> ('w, step_result) adapter" where
  "stop_source e c =
     seq (on_world (observe_running e (rc_source c) (rc_agent c))) (\<lambda>(running, why).
       (case running of
          Some False \<Rightarrow> quiesced e c (Fmt ''already stopped'' [why])
        | None \<Rightarrow> ret (step_not Unknown
            (Fmt ''could not tell whether it runs'' [Txt (rc_agent c), Txt (rc_from_host c), why])
            (Fmt ''measure it before copying'' []))
        | Some True \<Rightarrow>
            seq (on_world (run_script e (rc_source c) (Stop_Script (rc_agent c)))) (\<lambda>_.
            seq (on_world (observe_running e (rc_source c) (rc_agent c))) (\<lambda>(after, after_why).
              (case after of
                 Some False \<Rightarrow> quiesced e c (Fmt ''stopped and verified'' [after_why])
               | None \<Rightarrow> ret (step_not Unknown
                   (Fmt ''the stop was issued and the result was not observable'' [after_why])
                   (Fmt ''re-observe liveness on the source'' []))
               | Some True \<Rightarrow> ret (step_not No
                   (Fmt ''the stop was issued and it is STILL running'' [Txt (rc_agent c), Txt (rc_from_host c)])
                   (Fmt ''stop it by hand and confirm, then re-run'' [])))))))"

subsection \<open>Reasoning about effects\<close>

text \<open>
  \<open>yields P m\<close>: whatever state \<open>m\<close> starts in, the answer it returns satisfies \<open>P\<close>. Together with
  \<open>stays\<close> (what a computation leaves alone) these are the judgements the effects are verified with.
\<close>

definition yields :: "('a \<Rightarrow> bool) \<Rightarrow> ('s, 'a) prog \<Rightarrow> bool" where
  "yields P m \<longleftrightarrow> (\<forall>s x s'. m s = (Inr x, s') \<longrightarrow> P x)"

lemma yieldsD: "yields P m \<Longrightarrow> m s = (Inr x, s') \<Longrightarrow> P x"
  unfolding yields_def by blast

named_theorems vc \<comment> \<open>verification conditions of an effect\<close>

lemma yields_simple [vc]:
  "P x \<Longrightarrow> yields P (ret x)" "yields P (raising err)" "(\<And>x. q = Inr x \<Longrightarrow> P x) \<Longrightarrow> yields P (lift q)"
  by (simp_all add: yields_def ret_def raising_def lift_def)

lemma yields_cases [vc]:
  "(b \<Longrightarrow> yields P m) \<Longrightarrow> (\<not> b \<Longrightarrow> yields P m') \<Longrightarrow> yields P (if b then m else m')"
  "(opt = None \<Longrightarrow> yields P n) \<Longrightarrow> (\<And>x. opt = Some x \<Longrightarrow> yields P (f x)) \<Longrightarrow>
     yields P (case opt of None \<Rightarrow> n | Some x \<Rightarrow> f x)"
  "(\<And>x y. pair = (x, y) \<Longrightarrow> yields P (g x y)) \<Longrightarrow> yields P (case pair of (x, y) \<Rightarrow> g x y)"
  "(v \<Longrightarrow> yields P t) \<Longrightarrow> (\<not> v \<Longrightarrow> yields P u) \<Longrightarrow> yields P (case v of True \<Rightarrow> t | False \<Rightarrow> u)"
  "(xs = [] \<Longrightarrow> yields P l) \<Longrightarrow> (\<And>y ys. xs = y # ys \<Longrightarrow> yields P (k y ys)) \<Longrightarrow>
     yields P (case xs of [] \<Rightarrow> l | y # ys \<Rightarrow> k y ys)"
  by (auto split: option.splits prod.splits bool.splits list.splits)

text \<open>
  A first step whose answers are known to satisfy \<open>Q\<close> (\<open>yields_seq\<close>), one that is a call of the
  model's functions (\<open>yields_lift\<close>), and any other (\<open>yields_any\<close>).
\<close>

lemma yields_seq: "yields Q m \<Longrightarrow> (\<And>x. Q x \<Longrightarrow> yields P (f x)) \<Longrightarrow> yields P (seq m f)"
  unfolding yields_def seq_Inr_iff by blast

lemma yields_lift: "(\<And>x. q = Inr x \<Longrightarrow> yields P (f x)) \<Longrightarrow> yields P (seq (lift q) f)"
  unfolding yields_def seq_Inr_iff lift_def by blast

lemma yields_any: "(\<And>x. yields P (f x)) \<Longrightarrow> yields P (seq m f)"
  unfolding yields_def seq_Inr_iff by blast

abbreviation refused_only :: "(step_result \<Rightarrow> bool) \<Rightarrow> step_result option \<Rightarrow> bool" where
  "refused_only P r \<equiv> (case r of None \<Rightarrow> True | Some res \<Rightarrow> P res)"

lemma yields_unless_refused [vc]:
  "yields (refused_only P) m \<Longrightarrow> yields P rest \<Longrightarrow> yields P (unless_refused m rest)"
  unfolding unless_refused_def
  by (rule yields_seq, assumption) (auto simp: yields_def ret_def split: option.splits)

lemma yields_on_world: "yields P m \<Longrightarrow> yields P (on_world m)"
  by (auto simp: yields_def on_world_def split: prod.splits)

lemma on_world_Inr: "on_world m s = (Inr x, s') \<longleftrightarrow> (\<exists>w. m (ad_world s) = (Inr x, w) \<and> s' = s\<lparr>ad_world := w\<rparr>)"
  by (auto simp: on_world_def split: prod.splits)

text \<open>A relation on worlds, seen on the state of the adapters.\<close>

definition world_rel :: "('w \<Rightarrow> 'w \<Rightarrow> bool) \<Rightarrow> 'w adapters \<Rightarrow> 'w adapters \<Rightarrow> bool" where
  "world_rel R s s' \<longleftrightarrow> R (ad_world s) (ad_world s')"

lemma stays_on_world [frame]:
  assumes "stays R m" shows "stays (world_rel R) (on_world m)"
  using assms by (auto simp: stays_def on_world_def world_rel_def split: prod.splits) (metis snd_conv)

lemma preorder_world [frame]: "preorder R \<Longrightarrow> preorder (world_rel R)"
  by (auto simp: preorder_def world_rel_def)

lemma stays_put_world [frame]:
  "preorder R \<Longrightarrow> (\<And>s. ad_world (f s) = ad_world s) \<Longrightarrow> stays (world_rel R) (put_state f)"
  by (simp add: stays_def put_state_def world_rel_def preorder_def)

lemma stays_fields:
  assumes "\<And>s w. Q s (s\<lparr>ad_world := w\<rparr>)" shows "stays Q (on_world m)"
  using assms by (auto simp: stays_def on_world_def split: prod.splits)

lemma never_on_world [frame]: "never err m \<Longrightarrow> never err (on_world m)"
  by (auto simp: never_def on_world_def split: prod.splits) (metis fst_conv)

lemma stays_put: "(\<And>s. Q s (f s)) \<Longrightarrow> stays Q (put_state f)"
  by (simp add: stays_def put_state_def)

lemma stays_unless_refused [frame]:
  "preorder Q \<Longrightarrow> stays Q m \<Longrightarrow> stays Q rest \<Longrightarrow> stays Q (unless_refused m rest)"
  unfolding unless_refused_def by (auto intro!: frame split: option.splits)

subsection \<open>Every answer of the effects on the source is well formed\<close>

lemma await_loop_valid: "yields quiescence_ok (await_loop n e sh d t first)"
  by (induction n arbitrary: first)
    (auto intro!: vc yields_any simp: quiescence_ok_def not_measured_def settled_def still_changing_def)

lemma await_quiescence_valid: "yields quiescence_ok (await_quiescence e sh d)"
  unfolding await_quiescence_def
  by (auto intro!: vc yields_any await_loop_valid simp: quiescence_ok_def not_measured_def)

lemma drain_source_valid: "yields step_result_ok (drain_source e c)"
  unfolding drain_source_def by (auto intro!: vc yields_any simp: step_result_ok_def split: option.splits bool.splits)

lemma quiesced_valid: "yields step_result_ok (quiesced e c why)"
  unfolding quiesced_def
  by (intro vc yields_any yields_seq [OF yields_on_world [OF await_quiescence_valid]])
    (auto simp: step_result_ok_def quiescence_ok_def)

lemma stop_source_valid: "yields step_result_ok (stop_source e c)"
  unfolding stop_source_def by (intro vc yields_any quiesced_valid) (auto simp: step_result_ok_def)

subsection \<open>What a relocation may touch before it finishes\<close>

text \<open>The scripts that only look.\<close>

fun looks_only :: "script \<Rightarrow> bool" where
  "looks_only (Running_Script _ _) = True"
| "looks_only Home_Script = True"
| "looks_only Hostname_Script = True"
| "looks_only (Readlink_Script _) = True"
| "looks_only (List_Script _) = True"
| "looks_only (Tree_Script _) = True"
| "looks_only (Sample_Script _) = True"
| "looks_only (Measure_Script _ _) = True"
| "looks_only (Snapshot_Script _ _) = True"
| "looks_only (Read_Marker_Script _) = True"
| "looks_only (Search_Script _ _) = True"
| "looks_only _ = False"

text \<open>
  \<open>R\<close> is kept by the passing of time and by these commands: looking at the source, \<open>sac agents stop\<close>
  of the agent there, any script on the target, and the copies from the one to the other. An
  example is ``the source's files are the same, but for what the agent writes until it stops''.
\<close>

definition tame :: "('w \<Rightarrow> 'w \<Rightarrow> bool) \<Rightarrow> 'w env \<Rightarrow> relocate_config \<Rightarrow> bool" where
  "tame R e c \<longleftrightarrow> preorder R \<and>
     (\<forall>w. R w (snd (en_now e w))) \<and> (\<forall>d w. R w (en_sleep e d w)) \<and> (\<forall>n w. R w (snd (en_token_hex e n w))) \<and>
     (\<forall>body. looks_only body \<or> body = Stop_Script (rc_agent c) \<longrightarrow> keeps R e (rc_source c) body) \<and>
     (\<forall>body. keeps R e (rc_target c) body) \<and>
     (\<forall>d d' fs argv t. build_copy_argv e (rc_source c) d (rc_target c) d' fs = Inr argv \<longrightarrow> stays R (en_exec e argv t)) \<and>
     (\<forall>d d' ns argv t. build_tree_copy_argv e (rc_source c) d (rc_target c) d' ns = Inr argv \<longrightarrow> stays R (en_exec e argv t))"

lemma tame_preorder: "tame R e c \<Longrightarrow> preorder R"
  by (simp add: tame_def)

lemma tameD [frame]:
  assumes "tame R e c"
  shows "stays R (now_of e)" and "stays R (sleep_for e d)" and "stays R (token_of e n)"
    and "looks_only body \<Longrightarrow> keeps R e (rc_source c) body" and "keeps R e (rc_source c) (Stop_Script (rc_agent c))"
    and "keeps R e (rc_target c) body"
  using assms by (auto simp: tame_def stays_def now_of_def sleep_for_def token_of_def split: prod.splits)
    (metis snd_conv)+

lemma stays_run_argv: "preorder R \<Longrightarrow> stays R (en_exec e argv t) \<Longrightarrow> stays R (run_argv_on_host e argv t)"
  by (auto simp: stays_def run_argv_on_host_def split: prod.splits sum.splits) (metis snd_conv)+

lemma stays_copies [frame]:
  assumes "tame R e c"
  shows "stays R (copy_transcripts e (rc_source c) d (rc_target c) d' fs)"
    and "stays R (copy_tree e (rc_source c) d (rc_target c) d' ns)"
proof -
  have "stays R (seq (lift q) (\<lambda>argv. run_argv_on_host e argv t))"
    if "\<And>argv. q = Inr argv \<Longrightarrow> stays R (en_exec e argv t)" for q t
  proof (cases q)
    case (Inl err)
    with tame_preorder [OF assms] show ?thesis by (simp add: stays_def seq_def lift_def preorder_def)
  next
    case (Inr argv)
    have "stays R (run_argv_on_host e argv t)"
      by (rule stays_run_argv [OF tame_preorder [OF assms] that [OF Inr]])
    with Inr show ?thesis by (simp add: stays_def seq_def lift_def)
  qed
  note copy = this
  have f: "build_copy_argv e (rc_source c) d (rc_target c) d' fs = Inr argv \<Longrightarrow> stays R (en_exec e argv t)"
    and t: "build_tree_copy_argv e (rc_source c) d (rc_target c) d' ns = Inr argv \<Longrightarrow> stays R (en_exec e argv t)"
    for argv t
    using assms unfolding tame_def by blast+
  show "stays R (copy_transcripts e (rc_source c) d (rc_target c) d' fs)"
    unfolding copy_transcripts_def by (rule copy [OF f])
  show "stays R (copy_tree e (rc_source c) d (rc_target c) d' ns)"
    unfolding copy_tree_def by (rule copy [OF t])
qed

lemma stays_source_dir [frame]: "tame R e c \<Longrightarrow> stays (world_rel R) (source_transcript_dir e c)"
  unfolding source_transcript_dir_def Let_def by (frule tame_preorder) (auto intro!: frame)

lemma stays_sample [frame]: "preorder R \<Longrightarrow> keeps R e sh (Sample_Script d) \<Longrightarrow> stays R (sample_transcripts e sh d)"
  unfolding sample_transcripts_def by (intro frame)

lemma stays_await [frame]: "tame R e c \<Longrightarrow> stays R (await_quiescence e (rc_source c) d)"
proof -
  assume t: "tame R e c"
  have "stays R (await_loop n e (rc_source c) d deadline first)" for n deadline first
    using t tame_preorder [OF t] by (induction n arbitrary: first) (auto intro!: frame)
  with t tame_preorder [OF t] show ?thesis unfolding await_quiescence_def by (auto intro!: frame)
qed

lemma stays_drain [frame]: "tame R e c \<Longrightarrow> stays (world_rel R) (drain_source e c)"
  unfolding drain_source_def by (frule tame_preorder) (auto intro!: frame)

lemma stays_stop [frame]: "tame R e c \<Longrightarrow> stays (world_rel R) (stop_source e c)"
  unfolding stop_source_def quiesced_def by (frule tame_preorder) (auto intro!: frame)

end
