(* ===== verification/Adapters_Transport.thy ===== *)
theory Adapters_Transport
  imports Adapters
begin

text \<open>
  Carrying the transcripts: \<open>TransportEffects\<close> of \<open>_relocate_effects_transport.py\<close> and the record it
  leaves beside them (\<open>_relocate_provenance.py\<close>).
\<close>

subsection \<open>The record of where an agent came from\<close>

abbreviation PROVENANCE_FILENAME :: string where "PROVENANCE_FILENAME \<equiv> ''RELOCATED-FROM.md''"

definition count_msg :: "int option \<Rightarrow> msg" where
  "count_msg n = (case n of None \<Rightarrow> Fmt ''None'' [] | Some k \<Rightarrow> Num k)"

abbreviation blank :: msg where "blank \<equiv> empty_msg"

text \<open>The lines of the document, in order; \<open>write_text_file\<close> is handed them joined.\<close>

definition provenance_lines ::
  "string \<Rightarrow> string \<Rightarrow> string \<Rightarrow> string \<Rightarrow> string \<Rightarrow> time \<Rightarrow> string \<Rightarrow> transcript_file list \<Rightarrow>
   string list \<Rightarrow> (string \<times> msg) list \<Rightarrow> string \<Rightarrow> msg list" where
  "provenance_lines agent from_host source_dir to_host target_dir when session transcripts
     directories refused displaced_to =
     [Fmt ''# was relocated here'' [Txt agent], blank,
      Fmt ''This agent moved'' [Txt from_host, Txt to_host, Sec when], Fmt ''(unix )'' [Sec when], blank,
      Txt ''## Where it came from'', blank,
      Fmt ''- source host'' [Txt from_host], Fmt ''- source path'' [Txt source_dir],
      Fmt ''- this path'' [Txt target_dir]] @
     (if session \<noteq> [] then [Fmt ''- session resumed'' [Txt session]] else []) @
     [blank, Txt ''NOTHING WAS DELETED ON THE SOURCE.'', blank, Txt ''## What was carried'', blank] @
     (if transcripts \<noteq> [] then
        [Txt ''Transcripts (bytes / lines as carried):'', blank] @
        map (\<lambda>f. Fmt ''- bytes / lines'' [Txt (tf_name f), count_msg (tf_byte_count f), count_msg (tf_line_count f)]) transcripts @
        [blank, Txt ''Each transcript was carried up to the byte offset of its LAST COMPLETE LINE'', blank]
      else []) @
     (if directories \<noteq> [] then
        [Txt ''Directories, carried whole:'', blank] @ map (\<lambda>n. Fmt ''- /'' [Txt n]) directories @ [blank]
      else []) @
     (if transcripts = [] \<and> directories = [] then [Txt ''Nothing. That is worth reading twice.'', blank] else []) @
     [Txt ''## What was NOT carried'', blank] @
     (if refused \<noteq> [] then
        [Txt ''These were seen in the source directory and deliberately left there:'', blank] @
        map (\<lambda>(n, why). Fmt ''- '' [Txt n, why]) refused
      else [Txt ''Nothing was refused: every entry in the source directory travelled.'']) @
     [blank] @
     (if displaced_to \<noteq> [] then
        [Txt ''## What was already here'', blank, Txt ''It was MOVED ASIDE'', blank,
         Fmt ''- '' [Txt displaced_to], blank, Txt ''merging it is a deliberate act'', blank]
      else [])"

subsection \<open>The two directories\<close>

definition resolve_dirs ::
  "'w env \<Rightarrow> relocate_config \<Rightarrow> ('w, string option \<times> string option \<times> msg) adapter" where
  "resolve_dirs e c =
     seq (source_transcript_dir e c) (\<lambda>(source_dir, encoded, why).
       (case source_dir of
          None \<Rightarrow> ret (None, None, why)
        | Some src \<Rightarrow>
            seq (on_world (resolved_path e (rc_target c) (workdir_of (rc_spec c)))) (\<lambda>there.
              (let d = derive_target_dir (th_path (transcript_home_from_spec (rc_spec c) None)) there encoded
               in ret (if td_path d = None then (None, None, Fmt ''reason and hint'' [td_reason d, td_hint d])
                       else (Some src, td_path d, td_reason d))))))"

subsection \<open>The steps of the transport\<close>

definition prepare_destination ::
  "'w env \<Rightarrow> relocate_config \<Rightarrow> transport_plan \<Rightarrow> string \<Rightarrow> ('w, step_result option) adapter" where
  "prepare_destination e c p target_dir =
     seq (case tp_move_aside p of
            Some m \<Rightarrow>
              (if ma_required m = Yes then
                 seq (on_world (move_dir_aside e (rc_target c) target_dir
                     (case ma_destination m of None \<Rightarrow> [] | Some d \<Rightarrow> d))) (\<lambda>moved.
                   ret (if moved = Yes then None
                     else Some (step_not moved
                       (Fmt ''already holds and could not be moved aside''
                         [Txt (rc_to_host c), Txt target_dir, opt_msg (ma_destination m)])
                       (Fmt ''move it aside by hand and re-run'' []))))
               else ret None)
          | None \<Rightarrow> ret None) (\<lambda>refused.
     (case refused of
        Some r \<Rightarrow> ret (Some r)
      | None \<Rightarrow>
          seq (on_world (ensure_dir e (rc_target c) target_dir)) (\<lambda>made.
            ret (if made = Yes then None
              else Some (step_not made
                (Fmt ''the destination could not be created'' [Txt target_dir, Txt (rc_to_host c)])
                (Fmt ''check write permission, then re-run'' []))))))"

text \<open>\<open>_snapshot\<close>: every file to carry must have a recorded offset.\<close>

definition take_snapshot ::
  "'w env \<Rightarrow> relocate_config \<Rightarrow> string \<Rightarrow> string list \<Rightarrow> ('w, step_result option) adapter" where
  "take_snapshot e c source_dir names =
     seq (on_world (snapshot_transcripts e (rc_source c) source_dir names)) (\<lambda>files.
     seq (put_state (\<lambda>s. s\<lparr>ad_sent := files\<rparr>)) (\<lambda>_.
       (let missing = filter (\<lambda>n. n \<notin> tf_name ` set (filter measured files)) names in
        ret (if missing = [] then None
          else Some (step_not Unknown
            (Fmt ''no snapshot offset could be taken'' (Txt (rc_from_host c) # map Txt missing))
            (Fmt ''read the source's transcript directory again before copying'' []))))))"

text \<open>
  \<open>f.mtime.lstrip("-").isdigit()\<close> and \<open>int(f.mtime)\<close>, which takes one sign only: more than one dash
  before the digits passes the test and raises.
\<close>

definition mtime_of :: "file_state \<Rightarrow> (string \<times> int) list result" where
  "mtime_of f =
     (case fs_mtime f of
        None \<Rightarrow> Inr []
      | Some m \<Rightarrow>
          (let digits = dropWhile (\<lambda>ch. ch = CHR ''-'') m; dashes = length m - length digits in
           if \<not> is_digits digits then Inr []
           else if dashes = 0 then Inr [(fs_name f, int_of_digits digits)]
           else if dashes = 1 then Inr [(fs_name f, - int_of_digits digits)]
           else Inl (ValueError ''invalid literal for int() with base 10'')))"

definition state_dir_in :: "string \<Rightarrow> string \<Rightarrow> string" where
  "state_dir_in home agent = home @ ''/.scitex/agent-container/runtime/'' @ agent"

text \<open>The session marker of the source: unread, absent (\<open>Some []\<close>) or there.\<close>

definition source_marker :: "'w env \<Rightarrow> relocate_config \<Rightarrow> ('w, string option) adapter" where
  "source_marker e c =
     seq (on_world (target_home e (rc_source c))) (\<lambda>home.
       (case home of
          None \<Rightarrow> ret None
        | Some h \<Rightarrow>
            seq (on_world (read_session_marker e (rc_source c) (state_dir_in h (rc_agent c)))) (\<lambda>raw.
              ret (map_option (\<lambda>v. if v = SID_ABSENT then [] else v) raw))))"

definition choose_carried_session ::
  "'w env \<Rightarrow> relocate_config \<Rightarrow> string \<Rightarrow> string list \<Rightarrow> ('w, step_result option) adapter" where
  "choose_carried_session e c source_dir carried =
     seq (source_marker e c) (\<lambda>marker.
     seq (on_world (sample_transcripts e (rc_source c) source_dir)) (\<lambda>sample.
     seq (lift (map_result mtime_of (case sample of None \<Rightarrow> [] | Some fs \<Rightarrow> fs))) (\<lambda>times.
       (let choice = choose_session (rc_agent c) carried marker (map_of (rev (concat times))) in
        (case sc_session choice of
           None \<Rightarrow> ret (Some (step_not (if sc_code choice = SC_UNKNOWN then Unknown else No)
             (Fmt ''the session to resume could not be chosen'' [Num (sc_code choice), sc_reason choice])
             (sc_hint choice)))
         | Some session \<Rightarrow> seq (put_state (\<lambda>s. s\<lparr>ad_session_uuid := session\<rparr>)) (\<lambda>_. ret None))))))"

text \<open>The listings of the source's directories, before the copy.\<close>

fun list_trees :: "'w env \<Rightarrow> shell \<Rightarrow> string \<Rightarrow> string list \<Rightarrow> ('w, (string \<times> (string \<times> int option) list option) list) prog" where
  "list_trees e sh dir [] = ret []"
| "list_trees e sh dir (n # ns) =
     seq (list_tree e sh (dir @ ''/'' @ n)) (\<lambda>t.
     seq (list_trees e sh dir ns) (\<lambda>ts. ret ((n, t) # ts)))"

fun compare_trees ::
  "'w env \<Rightarrow> relocate_config \<Rightarrow> string \<Rightarrow> (string \<times> (string \<times> int option) list option) list \<Rightarrow> string list
   \<Rightarrow> ('w, step_result option) adapter" where
  "compare_trees e c target_dir prior [] = ret None"
| "compare_trees e c target_dir prior (n # ns) =
     seq (on_world (list_tree e (rc_target c) (target_dir @ ''/'' @ n))) (\<lambda>there.
       (case (case map_of (rev prior) n of None \<Rightarrow> None | Some t \<Rightarrow> t, there) of
          (Some here, Some landed) \<Rightarrow>
            (if landed \<noteq> here then
               (let missing = sort (remdups (filter (\<lambda>x. x \<notin> fst ` set landed) (map fst here)))
                in ret (Some (step_not No
                     (Fmt ''/ does not match the source'' [Txt n, Txt (rc_to_host c), Num (int (length missing)),
                       Fmt ''list'' (map Txt (take 5 missing))])
                     (Fmt ''re-run the transport'' []))))
             else compare_trees e c target_dir prior ns)
        | (here, _) \<Rightarrow> ret (Some (step_not Unknown
            (Fmt ''/ was copied and could not be listed''
              [Txt n, (if here = None then Txt ''the source'' else Txt (rc_to_host c))])
            (Fmt ''list it on both hosts and compare'' [])))))"

definition carry_directories ::
  "'w env \<Rightarrow> relocate_config \<Rightarrow> string \<Rightarrow> string \<Rightarrow> string list \<Rightarrow> ('w, step_result option) adapter" where
  "carry_directories e c source_dir target_dir names =
     (if names = [] then ret None
      else
        seq (on_world (list_trees e (rc_source c) source_dir names)) (\<lambda>prior.
        seq (on_world (copy_tree e (rc_source c) source_dir (rc_target c) target_dir names)) (\<lambda>_.
          compare_trees e c target_dir prior names)))"

definition write_provenance ::
  "'w env \<Rightarrow> relocate_config \<Rightarrow> transport_plan \<Rightarrow> string \<Rightarrow> string \<Rightarrow> ('w, unit) adapter" where
  "write_provenance e c p source_dir target_dir =
     seq (on_world (now_of e)) (\<lambda>when.
     seq get_state (\<lambda>s.
       (let displaced = (case tp_move_aside p of
              Some m \<Rightarrow> (if ma_required m = Yes then (case ma_destination m of None \<Rightarrow> [] | Some d \<Rightarrow> d) else [])
            | None \<Rightarrow> []);
            text = Fmt ''joined by newlines'' (provenance_lines (rc_agent c) (rc_from_host c) source_dir
              (rc_to_host c) target_dir when (ad_session_uuid s) (ad_sent s) (tp_directories p)
              (tp_refused p) displaced)
        in seq (on_world (write_text_file e (rc_target c) (target_dir @ ''/'' @ PROVENANCE_FILENAME) text))
             (\<lambda>_. ret ()))))"

text \<open>The copy itself, and the verdict on what is on the target afterwards.\<close>

definition copy_and_verify ::
  "'w env \<Rightarrow> relocate_config \<Rightarrow> string \<Rightarrow> string \<Rightarrow> string list \<Rightarrow> ('w, arrival_verdict) adapter" where
  "copy_and_verify e c source_dir target_dir files =
     seq get_state (\<lambda>s.
     seq (on_world (copy_transcripts e (rc_source c) source_dir (rc_target c) target_dir (ad_sent s))) (\<lambda>_.
     seq (on_world (measure_transcripts e (rc_target c) target_dir files)) (\<lambda>landed.
       (let verdict = verify_arrival (ad_sent s) landed in
        seq (put_state (\<lambda>s. s\<lparr>ad_landed := landed, ad_arrival_confirmed := av_arrived verdict\<rparr>)) (\<lambda>_.
          ret verdict)))))"

definition carry_planned ::
  "'w env \<Rightarrow> relocate_config \<Rightarrow> transport_plan \<Rightarrow> string \<Rightarrow> string \<Rightarrow> ('w, step_result) adapter" where
  "carry_planned e c p source_dir target_dir =
     seq (put_state (\<lambda>s. s\<lparr>ad_carried := tp_files p\<rparr>)) (\<lambda>_.
     unless_refused (choose_carried_session e c source_dir (tp_files p))
     (unless_refused (prepare_destination e c p target_dir)
     (unless_refused (take_snapshot e c source_dir (tp_files p))
     (seq (copy_and_verify e c source_dir target_dir (tp_files p)) (\<lambda>verdict.
       (if av_arrived verdict \<noteq> Yes then
          ret (step_not (av_arrived verdict)
            (Fmt ''arrival not confirmed'' [Num (av_code verdict), av_reason verdict]) (av_hint verdict))
        else unless_refused (carry_directories e c source_dir target_dir (tp_directories p))
          (seq (write_provenance e c p source_dir target_dir) (\<lambda>_.
            ret (step_yes (Fmt ''carried'' ([av_reason verdict] @
              map (\<lambda>d. Fmt ''/'' [Txt d]) (tp_directories p) @
              [Txt (rc_from_host c), Txt source_dir, Txt (rc_to_host c), Txt target_dir])))))))))))"

definition transport :: "'w env \<Rightarrow> relocate_config \<Rightarrow> ('w, step_result) adapter" where
  "transport e c =
     seq (resolve_dirs e c) (\<lambda>(source_dir, target_dir, why).
       (case (source_dir, target_dir) of
          (Some src, Some tgt) \<Rightarrow>
            seq (put_state (\<lambda>s. s\<lparr>ad_source_dir := src, ad_target_dir := tgt\<rparr>)) (\<lambda>_.
            seq (on_world (list_transcript_dir e (rc_source c) src)) (\<lambda>listing.
            seq (on_world (observe_running e (rc_source c) (rc_agent c))) (\<lambda>(running, _).
            seq (on_world (list_transcript_dir e (rc_target c) tgt)) (\<lambda>there.
            seq (lift (plan_transport running listing (map_option (\<lambda>l. l \<noteq> []) there) (Some tgt) (rc_stamp c))) (\<lambda>p.
              (if tp_proceed p \<noteq> Yes then
                 ret (step_not (tp_proceed p) (Fmt ''transport refused'' [Num (tp_code p), tp_reason p]) (tp_hint p))
               else carry_planned e c p src tgt))))))
        | _ \<Rightarrow> ret (step_not Unknown
            (Fmt ''the transcript directories could not be derived'' [why])
            (Fmt ''measure the target's resolved workdir'' []))))"

subsection \<open>Every answer is well formed\<close>

lemma prepare_destination_valid: "yields (refused_only step_result_ok) (prepare_destination e c p tgt)"
  unfolding prepare_destination_def
  by (rule yields_seq [where Q = "refused_only step_result_ok"])
    (auto intro!: vc yields_any simp: step_result_ok_def split: option.splits if_splits)

lemma take_snapshot_valid: "yields (refused_only step_result_ok) (take_snapshot e c src names)"
  unfolding take_snapshot_def Let_def by (intro vc yields_any) (auto simp: step_result_ok_def)

lemma choose_carried_session_valid: "yields (refused_only step_result_ok) (choose_carried_session e c src names)"
  unfolding choose_carried_session_def Let_def
  using choose_session_valid by (auto intro!: vc yields_any simp: step_result_ok_def session_choice_ok_def)

lemma compare_trees_valid: "yields (refused_only step_result_ok) (compare_trees e c tgt before names)"
  by (induction names)
    (auto intro!: vc yields_any simp: step_result_ok_def Let_def split: option.split)

lemma carry_directories_valid: "yields (refused_only step_result_ok) (carry_directories e c src tgt names)"
  unfolding carry_directories_def by (intro vc yields_any compare_trees_valid) simp

lemma copy_and_verify_valid: "yields arrival_verdict_ok (copy_and_verify e c src tgt names)"
  unfolding copy_and_verify_def Let_def by (intro vc yields_any verify_arrival_valid)

lemma carry_planned_valid: "yields step_result_ok (carry_planned e c p src tgt)"
  unfolding carry_planned_def
  by (intro yields_any vc yields_seq [OF copy_and_verify_valid] choose_carried_session_valid
      prepare_destination_valid take_snapshot_valid carry_directories_valid)
    (auto simp: step_result_ok_def arrival_verdict_ok_def)

lemma plan_transport_says:
  "plan_transport r fs x d st = Inr p \<Longrightarrow> tp_proceed p \<noteq> Yes \<longrightarrow> truthy (tp_hint p)"
  using plan_transport_valid [of r fs x d st p] by (auto simp: transport_plan_ok_def)

lemma transport_valid: "yields step_result_ok (transport e c)"
  unfolding transport_def
  by (intro yields_lift yields_any vc carry_planned_valid)
    (auto simp: step_result_ok_def dest!: plan_transport_says)

subsection \<open>What the transport may touch\<close>

lemma stays_list_trees [frame]: "tame R e c \<Longrightarrow> stays R (list_trees e (rc_source c) d ns)"
proof -
  assume t: "tame R e c"
  with tame_preorder [OF t] show ?thesis by (induction ns) (auto intro!: frame)
qed

lemma stays_compare_trees [frame]: "tame R e c \<Longrightarrow> stays (world_rel R) (compare_trees e c d before ns)"
proof -
  assume t: "tame R e c"
  with tame_preorder [OF t] show ?thesis by (induction ns) (auto intro!: frame simp: Let_def split: option.split)
qed

lemma stays_transport_steps [frame]:
  assumes t: "tame R e c"
  shows "stays (world_rel R) (prepare_destination e c p d)"
    and "stays (world_rel R) (take_snapshot e c d ns)"
    and "stays (world_rel R) (choose_carried_session e c d ns)"
    and "stays (world_rel R) (carry_directories e c d d' ns)"
    and "stays (world_rel R) (write_provenance e c p d d')"
    and "stays (world_rel R) (copy_and_verify e c d d' ns)"
  using t tame_preorder [OF t]
  unfolding prepare_destination_def take_snapshot_def choose_carried_session_def source_marker_def
    carry_directories_def write_provenance_def copy_and_verify_def Let_def
  by (auto intro!: frame)

lemma stays_transport [frame]: "tame R e c \<Longrightarrow> stays (world_rel R) (transport e c)"
  unfolding transport_def carry_planned_def resolve_dirs_def Let_def by (frule tame_preorder) (auto intro!: frame)

end
