(* ===== verification/Handshake.thy ===== *)
theory Handshake
  imports Prelude
begin

text \<open>
  The proof of work the target owes before it is handed anything: the gate
  (\<open>_lifecycle/_relocate_handshake.py\<close>), the parser that reads the target's answer out of a
  transcript which also holds the question (\<open>_relocate_reply.py\<close>), and the brief that asks it
  (\<open>_relocate_arrival.py\<close>). Texts are UTF-8 byte strings.
\<close>

subsection \<open>The gate\<close>

abbreviation HS_OK :: int where "HS_OK \<equiv> 200"
abbreviation HS_NOT_ACCEPTED :: int where "HS_NOT_ACCEPTED \<equiv> 502"
abbreviation HS_NO_REPLY :: int where "HS_NO_REPLY \<equiv> 504"
abbreviation HS_NONCE_MISMATCH :: int where "HS_NONCE_MISMATCH \<equiv> 409"
abbreviation HS_WORK_NOT_PROVEN :: int where "HS_WORK_NOT_PROVEN \<equiv> 422"
abbreviation HS_UNKNOWN :: int where "HS_UNKNOWN \<equiv> 503"

record handshake_facts =
  hf_challenge_accepted :: tri
  hf_reply_observed :: tri
  hf_observed_by :: msg
  hf_reply_nonce :: "string option"
  hf_reply_answer :: "string option"

record handshake_verdict =
  hv_proven :: tri
  hv_code :: int
  hv_reason :: msg
  hv_hint :: msg

text \<open>\<open>HandshakeVerdict.__post_init__\<close>.\<close>

definition handshake_verdict_ok :: "handshake_verdict \<Rightarrow> bool" where
  "handshake_verdict_ok v \<longleftrightarrow> truthy (hv_reason v) \<and>
     (hv_proven v = Yes \<longrightarrow> hv_code v = HS_OK) \<and>
     (hv_proven v = Unknown \<longrightarrow> hv_code v = HS_UNKNOWN) \<and>
     (hv_proven v \<noteq> Yes \<longrightarrow> truthy (hv_hint v))"

definition handshake_unknown :: "string \<Rightarrow> string \<Rightarrow> handshake_verdict" where
  "handshake_unknown what hint = \<lparr>hv_proven = Unknown, hv_code = HS_UNKNOWN,
     hv_reason = Fmt ''was not observed'' [Txt what], hv_hint = Txt hint\<rparr>"

abbreviation handshake_no :: "int \<Rightarrow> msg \<Rightarrow> msg \<Rightarrow> handshake_verdict" where
  "handshake_no c r h \<equiv> \<lparr>hv_proven = No, hv_code = c, hv_reason = r, hv_hint = h\<rparr>"

definition evaluate_handshake ::
  "handshake_facts \<Rightarrow> string \<Rightarrow> string \<Rightarrow> handshake_verdict result" where
  "evaluate_handshake f nonce expected_answer =
     (if nonce = [] then Inl (ValueError ''evaluate_handshake needs a non-empty nonce'')
      else if expected_answer = [] then
        Inl (ValueError ''evaluate_handshake needs a non-empty expected_answer'')
      else case hf_challenge_accepted f of
        None \<Rightarrow> Inr (handshake_unknown ''whether the target accepted the challenge''
          ''re-send the challenge'')
      | Some False \<Rightarrow> Inr (handshake_no HS_NOT_ACCEPTED
          (Txt ''the target did not accept the challenge'') (Txt ''check the sidecar''))
      | Some True \<Rightarrow>
     (case hf_reply_observed f of
        None \<Rightarrow> Inr (handshake_unknown ''whether a reply came back'' ''watch the source side'')
      | Some False \<Rightarrow> Inr (handshake_no HS_NO_REPLY
          (Fmt ''no reply was observed by'' [if truthy (hf_observed_by f) then hf_observed_by f
             else Txt ''(nobody named)''])
          (Txt ''do NOT hand over the lease''))
      | Some True \<Rightarrow>
     (case hf_reply_nonce f of
        None \<Rightarrow> Inr (handshake_unknown ''the correlation token in the reply'' ''read the nonce'')
      | Some n \<Rightarrow>
     (if n \<noteq> nonce then Inr (handshake_no HS_NONCE_MISMATCH
          (Fmt ''the reply carries nonce'' [Txt n, Txt nonce]) (Txt ''drain the stale replies''))
      else (case hf_reply_answer f of
        None \<Rightarrow> Inr (handshake_unknown ''the answer to the proof-of-work question''
          ''read the answer'')
      | Some a \<Rightarrow>
      if a \<noteq> expected_answer then Inr (handshake_no HS_WORK_NOT_PROVEN
          (Fmt ''replied, where a working loop had to reply'' [Txt a, Txt expected_answer])
          (Txt ''check the credentials and tools of the target''))
      else Inr \<lparr>hv_proven = Yes, hv_code = HS_OK,
          hv_reason = Fmt ''round trip complete'' [if truthy (hf_observed_by f)
             then hf_observed_by f else Txt ''(nobody named)'', Txt nonce],
          hv_hint = empty_msg\<rparr>)))))"

lemma handshake_valid: "evaluate_handshake f n x = Inr v \<Longrightarrow> handshake_verdict_ok v"
  by (auto simp: evaluate_handshake_def handshake_unknown_def handshake_verdict_ok_def
      split: option.splits bool.splits if_splits)

lemma handshake_proven_iff:
  "evaluate_handshake f n x = Inr v \<Longrightarrow> hv_proven v = Yes \<longleftrightarrow>
     hf_challenge_accepted f = Yes \<and> hf_reply_observed f = Yes \<and>
     hf_reply_nonce f = Some n \<and> hf_reply_answer f = Some x"
  by (auto simp: evaluate_handshake_def handshake_unknown_def
      split: option.splits bool.splits if_splits)

lemma handshake_returns:
  "n \<noteq> [] \<Longrightarrow> x \<noteq> [] \<Longrightarrow> \<exists>v. evaluate_handshake f n x = Inr v"
  by (auto simp: evaluate_handshake_def split: option.splits bool.splits)

interpretation handshake_gate: verdict_shape hv_proven hv_code hv_reason handshake_verdict_ok
  "{HS_OK}" HS_UNKNOWN
  by unfold_locales (auto simp: handshake_verdict_ok_def)

subsection \<open>Reading the reply\<close>

text \<open>\<open>sub in s\<close>, and the text behind the first occurrence of \<open>sub\<close>.\<close>

fun find_after :: "string \<Rightarrow> string \<Rightarrow> string option" where
  "find_after sub [] = (if sub = [] then Some [] else None)"
| "find_after sub (x # xs) =
     (if starts_with (x # xs) sub then Some (drop (length sub) (x # xs)) else find_after sub xs)"

definition contains :: "string \<Rightarrow> string \<Rightarrow> bool" where
  "contains sub s \<longleftrightarrow> find_after sub s \<noteq> None"

abbreviation ANSWER_MARK :: string where "ANSWER_MARK \<equiv> ''answer=''"

definition value_char :: "char \<Rightarrow> bool" where
  "value_char c \<longleftrightarrow> c \<notin> {CHR 0x22, CHR 0x5C, CHR 0x0A, CHR 0x0D, CHR 0x09, CHR 0x20, CHR 0x2C}"

lemma find_after_Some: "find_after sub s = Some r \<Longrightarrow> \<exists>p. s = p @ sub @ r"
proof (induction s)
  case (Cons x s)
  show ?case
  proof (cases "starts_with (x # s) sub")
    case True
    then have "x # s = sub @ drop (length sub) (x # s)"
      unfolding starts_with_def by (metis append_take_drop_id)
    with Cons.prems True show ?thesis by (intro exI [of _ "[]"]) simp
  next
    case False
    with Cons obtain p where "s = p @ sub @ r" by auto
    then show ?thesis by (intro exI [of _ "x # p"]) simp
  qed
qed (simp split: if_splits)

lemma find_after_length: "find_after sub s = Some r \<Longrightarrow> sub \<noteq> [] \<Longrightarrow> length r < length s"
  by (drule find_after_Some) auto

text \<open>
  The answers of one line: each \<open>answer=\<close> is followed by a value up to a terminator, and the
  search goes on behind the value.
\<close>

function answer_values :: "string \<Rightarrow> string list" where
  "answer_values region =
     (case find_after ANSWER_MARK region of
        None \<Rightarrow> []
      | Some rest \<Rightarrow> takeWhile value_char rest
          # answer_values (dropWhile value_char rest))"
  by pat_completeness auto
termination
proof (relation "measure length")
  fix region rest
  assume "find_after ANSWER_MARK region = Some rest"
  then have "length rest < length region" by (rule find_after_length) simp
  then show "(dropWhile value_char rest, region) \<in> measure length"
    using length_dropWhile_le [of value_char rest] by simp
qed simp

declare answer_values.simps [simp del]

record reply_reading =
  rd_nonce_seen :: bool
  rd_answer :: "string option"
  rd_candidates :: "string list"
  rd_placeholders_ignored :: nat

text \<open>\<open>value.startswith("<")\<close>: the challenge's own template, not an answer.\<close>

definition is_placeholder :: "string \<Rightarrow> bool" where
  "is_placeholder v \<longleftrightarrow> starts_with v ''<''"

definition read_reply :: "string \<Rightarrow> string \<Rightarrow> reply_reading result" where
  "read_reply text nonce =
     (if nonce = [] then Inl (ValueError ''read_reply needs a non-empty nonce'')
      else
       (let regions = filter (contains nonce) (splitlines text);
            values = concat (map answer_values regions);
            candidates = filter (\<lambda>v. \<not> is_placeholder v \<and> v \<noteq> []) values
        in if text = [] \<or> regions = [] then
             Inr \<lparr>rd_nonce_seen = False, rd_answer = None, rd_candidates = [],
               rd_placeholders_ignored = 0\<rparr>
           else
             Inr \<lparr>rd_nonce_seen = True,
               rd_answer = (if candidates = [] then None else Some (last candidates)),
               rd_candidates = from_keys candidates,
               rd_placeholders_ignored = length (filter is_placeholder values)\<rparr>))"

subsection \<open>Where a reading comes from\<close>

lemma answer_values_infix:
  "v \<in> set (answer_values s) \<Longrightarrow> \<exists>a b. s = a @ ANSWER_MARK @ v @ b"
proof (induction s rule: answer_values.induct)
  case (1 region)
  then obtain rest where f: "find_after ANSWER_MARK region = Some rest"
    by (cases "find_after ANSWER_MARK region") (simp_all add: answer_values.simps [of region])
  then obtain p where p: "region = p @ ANSWER_MARK @ rest"
    by (blast dest: find_after_Some)
  have r: "rest = takeWhile value_char rest @ dropWhile value_char rest"
    by simp
  from 1 f consider "v = takeWhile value_char rest"
    | "v \<in> set (answer_values (dropWhile value_char rest))"
    by (auto simp: answer_values.simps [of region])
  then show ?case
  proof cases
    case 1
    with p r show ?thesis by metis
  next
    case 2
    with "1.IH" [OF f] obtain a b
      where "dropWhile value_char rest = a @ ANSWER_MARK @ v @ b" by blast
    with r have "rest = takeWhile value_char rest @ a @ ANSWER_MARK @ v @ b" by simp
    with p have "region = (p @ ANSWER_MARK @ takeWhile value_char rest @ a)
        @ ANSWER_MARK @ v @ b" by simp
    then show ?thesis by blast
  qed
qed

lemma answer_values_chars: "v \<in> set (answer_values s) \<Longrightarrow> c \<in> set v \<Longrightarrow> value_char c"
proof (induction s rule: answer_values.induct)
  case (1 region)
  then show ?case
    by (cases "find_after ANSWER_MARK region")
      (auto simp: answer_values.simps [of region] dest: set_takeWhileD)
qed

text \<open>The four ways a line of the text supports a reading.\<close>

lemma read_reply_answer:
  assumes "read_reply text nonce = Inr r" and "rd_answer r = Some v"
  obtains l where "l \<in> set (splitlines text)" and "contains nonce l"
    and "v \<in> set (answer_values l)" and "v \<noteq> []" and "\<not> is_placeholder v" and "rd_nonce_seen r"
proof -
  let ?vs = "filter (\<lambda>v. \<not> is_placeholder v \<and> v \<noteq> [])
    (concat (map answer_values (filter (contains nonce) (splitlines text))))"
  from assms have "?vs \<noteq> []" "v = last ?vs" "rd_nonce_seen r"
    by (auto simp: read_reply_def Let_def split: if_splits)
  then have "v \<in> set ?vs" using last_in_set by blast
  with \<open>rd_nonce_seen r\<close> that show ?thesis by auto
qed

subsection \<open>The brief\<close>

text \<open>
  \<open>build_arrival_brief\<close>, line by line: what precedes the question, the question with its
  placeholder, and what follows.
\<close>

definition em_dash :: string where
  "em_dash = [CHR 0xE2, CHR 0x80, CHR 0x94]"

definition brief_head :: "string \<Rightarrow> string \<Rightarrow> string \<Rightarrow> string \<Rightarrow> string \<Rightarrow> string list" where
  "brief_head agent from_host to_host resume_session_id handover_doc =
     [''You are '' @ agent @ '', and you have RELOCATED from '' @ from_host @ '' to '' @ to_host
        @ ''.'',
      [],
      ''You are the same agent '' @ em_dash @ '' same identity, same cards, same work in''
        @ '' flight. Only the machine underneath you changed.'',
      [],
      ''YOUR MEMORY WAS CARRIED.'',
      ''  - This session resumes transcript '' @ resume_session_id @ '', copied from '' @ from_host
        @ '' and verified on '' @ to_host @ '' by byte and line count before you were started.'',
      ''  - So the conversation above this message happened on '' @ from_host @ ''.''
        @ '' Anything it says about paths, ports, mounts, peers or running processes''
        @ '' describes '' @ from_host @ '' and may not hold here. Re-check before you''
        @ '' rely on it; do not assume a path that existed there exists here.'',
      ''  - '' @ from_host @ '' has been stopped. You are the only instance of '' @ agent @ ''.'',
      [],
      ''WHERE YOUR STATE IS:'',
      ''  - Handover document: '' @ handover_doc,
      ''  - The scitex-todo card board is authoritative for what is in flight '' @ em_dash
        @ '' read your card slice before resuming work, not the transcript's memory of it.'',
      [],
      ''REPLY NOW, in this exact shape '' @ em_dash @ '' this reply is the handshake that''
        @ '' completes the relocation, and until it is observed the move does not proceed:'']"

definition brief_ask :: "string \<Rightarrow> string \<Rightarrow> string list" where
  "brief_ask nonce question =
     [''  nonce='' @ nonce,
      ''  answer=<your answer to: '' @ question @ ''>'']"

definition brief_tail :: "string list" where
  "brief_tail =
     [[],
      ''Answer it by actually looking on this host. An echoed or guessed answer fails the''
        @ '' check, and it fails it in the useful direction: it is how we catch an agent''
        @ '' whose loop runs but whose tools cannot reach anything.'']"

definition build_arrival_brief ::
  "string \<Rightarrow> string \<Rightarrow> string \<Rightarrow> string \<Rightarrow> string \<Rightarrow> string \<Rightarrow> string \<Rightarrow> string result" where
  "build_arrival_brief agent from_host to_host resume_session_id nonce question handover_doc =
     (if agent = [] then Inl (ValueError ''needs the agent name'')
      else if from_host = [] \<or> to_host = [] then
        Inl (ValueError ''needs both the source and target host'')
      else if from_host = to_host then Inl (ValueError ''to itself is not a relocation'')
      else if resume_session_id = [] then Inl (ValueError ''needs the resumed session id'')
      else if nonce = [] then Inl (ValueError ''needs a nonce'')
      else if question = [] then Inl (ValueError ''needs a proof-of-work question'')
      else Inr (join_with [CHR 0x0A]
        (brief_head agent from_host to_host resume_session_id handover_doc
         @ brief_ask nonce question @ brief_tail)))"

subsection \<open>The question does not answer itself\<close>

text \<open>
  A text that gives no answer: every equals sign in it stands behind another letter than the last
  one of \<open>answer\<close>, or opens a placeholder. Such texts put together are such a text.
\<close>

definition gives_none :: "string \<Rightarrow> bool" where
  "gives_none s \<longleftrightarrow> (\<forall>a w. s = a @ CHR ''='' # w \<longrightarrow>
     (a \<noteq> [] \<and> last a \<noteq> CHR ''r'') \<or> (w \<noteq> [] \<and> hd w = CHR ''<''))"

lemma gives_none_free: "CHR ''='' \<notin> set s \<Longrightarrow> gives_none s"
  by (auto simp: gives_none_def)

lemma gives_none_marks: "gives_none ''nonce=''" "gives_none ''answer=<''"
  by (auto simp: gives_none_def Cons_eq_append_conv)

lemma gives_none_append:
  assumes "gives_none s" and "gives_none t"
  shows "gives_none (s @ t)"
  unfolding gives_none_def
proof (intro allI impI)
  fix a w
  assume "s @ t = a @ CHR ''='' # w"
  then consider w' where "s = a @ CHR ''='' # w'" "w = w' @ t" | a' where "t = a' @ CHR ''='' # w" "a = s @ a'"
    by (auto simp: append_eq_append_conv2 append_eq_Cons_conv Cons_eq_append_conv)
  then show "a \<noteq> [] \<and> last a \<noteq> CHR ''r'' \<or> w \<noteq> [] \<and> hd w = CHR ''<''"
  proof cases
    case 1
    with assms(1) have "a \<noteq> [] \<and> last a \<noteq> CHR ''r'' \<or> w' \<noteq> [] \<and> hd w' = CHR ''<''"
      unfolding gives_none_def by blast
    with 1 show ?thesis by auto
  next
    case 2
    with assms(2) have "a' \<noteq> [] \<and> last a' \<noteq> CHR ''r'' \<or> w \<noteq> [] \<and> hd w = CHR ''<''"
      unfolding gives_none_def by blast
    with 2 show ?thesis by auto
  qed
qed

lemma gives_none_concat: "\<forall>p \<in> set ps. gives_none p \<Longrightarrow> gives_none (concat ps)"
  by (induction ps) (simp_all add: gives_none_append gives_none_free)

lemma gives_none_reading:
  assumes "gives_none text"
  shows "read_reply text nonce = Inr r \<Longrightarrow> rd_answer r = None"
proof (rule ccontr)
  assume r: "read_reply text nonce = Inr r" and "rd_answer r \<noteq> None"
  then obtain v where v: "rd_answer r = Some v" by blast
  obtain l where l: "l \<in> set (splitlines text)" and lv: "v \<in> set (answer_values l)"
    and real: "v \<noteq> []" "\<not> is_placeholder v"
    by (rule read_reply_answer [OF r v])
  obtain a b where "text = a @ l @ b" using splitlines_infix [OF l] by blast
  moreover obtain a' b' where "l = a' @ ANSWER_MARK @ v @ b'"
    using answer_values_infix [OF lv] by blast
  ultimately have "text = (a @ a' @ ''answer'') @ CHR ''='' # v @ b' @ b" by simp
  with assms have "hd (v @ b' @ b) = CHR ''<''" unfolding gives_none_def by fastforce
  with real show False by (cases v) (auto simp: is_placeholder_def starts_with_def)
qed

text \<open>
  How a text is written into a transcript: character by character, as itself or escaped. The
  two characters the parser keys on stand for themselves and nothing else is written with an
  equals sign, which holds of a raw text and of a JSON string.
\<close>

definition encoding :: "(char \<Rightarrow> string) \<Rightarrow> bool" where
  "encoding f \<longleftrightarrow> (\<forall>c. c \<noteq> CHR ''='' \<longrightarrow> CHR ''='' \<notin> set (f c)) \<and>
     (\<forall>c \<in> set ''nonce=answer<''. f c = [c])"

definition json_escape :: "char \<Rightarrow> string" where
  "json_escape c = (if c = CHR 0x0A then [CHR 0x5C, CHR ''n'']
     else if c = CHR 0x22 \<or> c = CHR 0x5C then [CHR 0x5C, c] else [c])"

lemma encoding_json [simp]: "encoding json_escape"
  by (auto simp: encoding_def json_escape_def)

lemma encoding_raw [simp]: "encoding (\<lambda>c. [c])"
  by (simp add: encoding_def)

lemma encoding_free: "encoding f \<Longrightarrow> CHR ''='' \<notin> set s \<Longrightarrow> CHR ''='' \<notin> set (concat (map f s))"
proof -
  assume f: "encoding f" and s: "CHR ''='' \<notin> set s"
  from f have "\<forall>c. c \<noteq> CHR ''='' \<longrightarrow> CHR ''='' \<notin> set (f c)"
    unfolding encoding_def by (rule conjunct1)
  then have "CHR ''='' \<notin> set (f c)" if "c \<in> set s" for c
    using s that by (cases "c = CHR ''=''") simp_all
  then show ?thesis by simp
qed

lemma brief_head_free:
  assumes "CHR ''='' \<notin> set agent \<union> set h \<union> set h' \<union> set sid \<union> set doc"
  shows "\<forall>l \<in> set (brief_head agent h h' sid doc). CHR ''='' \<notin> set l"
  using assms unfolding brief_head_def em_dash_def by (simp only: list.set ball_simps) simp

lemma brief_tail_free: "\<forall>l \<in> set brief_tail. CHR ''='' \<notin> set l"
  unfolding brief_tail_def by simp

lemma brief_shape:
  assumes "build_arrival_brief agent h h' sid nonce q doc = Inr brief"
    and "CHR ''='' \<notin> set agent \<union> set h \<union> set h' \<union> set sid \<union> set nonce \<union> set q \<union> set doc"
  obtains x y z where "brief = x @ ''nonce='' @ y @ ''answer='' @ CHR ''<'' # z"
    and "CHR ''='' \<notin> set x \<union> set y \<union> set z"
proof -
  let ?j = "join_with [CHR 0x0A]"
  let ?x = "?j (brief_head agent h h' sid doc) @ [CHR 0x0A] @ ''  ''"
  let ?y = "nonce @ [CHR 0x0A] @ ''  ''"
  let ?z = "''your answer to: '' @ q @ ''>'' @ [CHR 0x0A] @ ?j brief_tail"
  have n: "brief_head agent h h' sid doc \<noteq> []" "brief_tail \<noteq> []"
    by (simp_all add: brief_head_def brief_tail_def)
  have "brief = ?x @ ''nonce='' @ ?y @ ''answer='' @ CHR ''<'' # ?z"
    using assms(1) n
    by (auto simp: build_arrival_brief_def join_with_append join_with_Cons brief_ask_def split: if_splits)
  moreover have "CHR ''='' \<notin> set (?j (brief_head agent h h' sid doc))"
    using assms(2) by (intro join_with_free brief_head_free) simp_all
  then have "CHR ''='' \<notin> set ?x" by simp
  moreover have "CHR ''='' \<notin> set ?y" using assms(2) by simp
  moreover have "CHR ''='' \<notin> set ?z"
    using assms(2) join_with_free [OF brief_tail_free, of "[CHR 0x0A]"] by simp
  ultimately show ?thesis by (intro that [of ?x ?y ?z]) simp_all
qed

lemma brief_gives_none:
  assumes "build_arrival_brief agent h h' sid nonce q doc = Inr brief"
    and "CHR ''='' \<notin> set agent \<union> set h \<union> set h' \<union> set sid \<union> set nonce \<union> set q \<union> set doc"
    and "encoding f"
  shows "gives_none (concat (map f brief))"
proof -
  let ?e = "\<lambda>s. concat (map f s)"
  obtain x y z where b: "brief = x @ ''nonce='' @ y @ ''answer='' @ CHR ''<'' # z"
    and free: "CHR ''='' \<notin> set x \<union> set y \<union> set z"
    by (rule brief_shape [OF assms(1,2)])
  have "f c = [c]" if "c \<in> set ''nonce=answer<''" for c
    using assms(3) that by (auto simp: encoding_def)
  with b have "?e brief = ?e x @ ''nonce='' @ ?e y @ ''answer=<'' @ ?e z" by simp
  moreover have "gives_none (?e x @ ''nonce='' @ ?e y @ ''answer=<'' @ ?e z)"
    using free assms(3)
    by (intro gives_none_append gives_none_marks gives_none_free encoding_free) simp_all
  ultimately show ?thesis by simp
qed

subsection \<open>An answer given is an answer read\<close>

lemma starts_with_terminator:
  "t \<notin> set m \<Longrightarrow> starts_with (p @ t # r) m = starts_with p m"
proof (induction m arbitrary: p)
  case (Cons a m)
  then show ?case by (cases p) (auto simp: starts_with_def)
qed (simp add: starts_with_def)

lemma find_after_terminator:
  assumes "t \<notin> set m" and "m \<noteq> []"
  shows "find_after m (p @ t # r) =
    (case find_after m p of Some q \<Rightarrow> Some (q @ t # r) | None \<Rightarrow> find_after m r)"
proof (induction p)
  case Nil
  have "\<not> starts_with (t # r) m"
    using assms by (cases m) (auto simp: starts_with_def)
  with assms(2) show ?case by simp
next
  case (Cons x p)
  have "starts_with (x # p @ t # r) m = starts_with (x # p) m"
    using starts_with_terminator [OF assms(1), of "x # p" r] by simp
  moreover have "drop (length m) ((x # p) @ t # r) = drop (length m) (x # p) @ t # r"
    if "starts_with (x # p) m"
    using starts_with_length [OF that] by (simp only: drop_append diff_is_0_eq [THEN iffD2] drop_0)
  ultimately show ?case using Cons by simp
qed

lemma answer_values_terminator:
  assumes "\<not> value_char t"
  shows "answer_values (p @ t # r) = answer_values p @ answer_values r"
proof (induction p rule: answer_values.induct)
  case (1 p)
  have t: "t \<notin> set ANSWER_MARK" using assms by (auto simp: value_char_def)
  show ?case
  proof (cases "find_after ANSWER_MARK p")
    case None
    with find_after_terminator [OF t, of p r] show ?thesis
      by (simp add: answer_values.simps [of "p @ t # r"] answer_values.simps [of p]
          answer_values.simps [of r])
  next
    case (Some q)
    have "takeWhile value_char (q @ t # r) = takeWhile value_char q"
      using assms by (induction q) auto
    moreover have "dropWhile value_char (q @ t # r) = dropWhile value_char q @ t # r"
      using assms by (induction q) auto
    ultimately show ?thesis
      using find_after_terminator [OF t, of p r] Some "1.IH" [OF Some]
      by (simp add: answer_values.simps [of "p @ t # r"] answer_values.simps [of p])
  qed
qed

lemma find_after_free: "CHR ''='' \<notin> set u \<Longrightarrow> find_after ANSWER_MARK u = None"
proof (rule ccontr)
  assume u: "CHR ''='' \<notin> set u" and "find_after ANSWER_MARK u \<noteq> None"
  then obtain r where "find_after ANSWER_MARK u = Some r" by blast
  from find_after_Some [OF this] u show False by auto
qed

lemma find_after_behind: "CHR ''='' \<notin> set u \<Longrightarrow> find_after ANSWER_MARK (u @ ANSWER_MARK @ r) = Some r"
proof (induction u)
  case (Cons x u)
  have "take n u \<noteq> ''nswer=''" for n
    using in_set_takeD [of "CHR ''=''" n u] Cons.prems by auto
  then have "\<not> starts_with (x # u @ ANSWER_MARK @ r) ANSWER_MARK"
  proof -
    assume short: "\<And>n. take n u \<noteq> ''nswer=''"
    show ?thesis
    proof
    assume "starts_with (x # u @ ANSWER_MARK @ r) ANSWER_MARK"
    then have "starts_with ((x # u) @ ANSWER_MARK @ r) ''answer=''" by simp
    with Cons.prems short show False
      by (auto simp: starts_with_def take_Cons' take_append split: if_splits)
    qed
  qed
  with Cons show ?case by simp
qed (simp add: starts_with_def)

lemma answer_values_given:
  assumes "\<forall>c \<in> set v. value_char c" and "\<not> value_char t" and "\<not> value_char t'" and "CHR ''='' \<notin> set u"
  shows "answer_values (p @ t # u @ ANSWER_MARK @ v @ t' # q) = answer_values p @ v # answer_values q"
proof -
  have "takeWhile value_char (v @ t' # q) = v" "dropWhile value_char (v @ t' # q) = t' # q"
    using assms by (auto simp: takeWhile_append2 dropWhile_append2)
  with find_after_behind [OF assms(4), of "v @ t' # q"]
  have "answer_values (u @ ANSWER_MARK @ v @ t' # q) = v # answer_values (t' # q)"
    by (simp only: answer_values.simps [of "u @ ANSWER_MARK @ v @ t' # q"] option.case)
  moreover have "answer_values (t' # q) = answer_values q"
    using answer_values_terminator [OF assms(3), of "[]" q] by (simp add: answer_values.simps [of "[]"])
  ultimately show ?thesis by (simp only: answer_values_terminator [OF assms(2)])
qed

text \<open>
  The last line carries the nonce and one real answer, with no equals sign between the answer's
  mark and the last terminator before it: whatever the earlier lines hold, that answer is the
  reading.
\<close>

lemma reply_is_read:
  assumes "\<forall>l \<in> set ls. breakless l" and "breakless l"
    and "l = p @ t # u @ ANSWER_MARK @ v @ t' # q" and "answer_values q = []"
    and "\<not> value_char t" and "\<not> value_char t'" and "\<forall>c \<in> set v. value_char c" and "CHR ''='' \<notin> set u"
    and "v \<noteq> []" and "\<not> is_placeholder v" and "contains nonce l" and "nonce \<noteq> []"
  shows "\<exists>r. read_reply (join_with [CHR 0x0A] (ls @ [l])) nonce = Inr r \<and>
    rd_answer r = Some v \<and> rd_nonce_seen r"
proof -
  let ?t = "join_with [CHR 0x0A] (ls @ [l])"
  have sp: "splitlines ?t = ls @ [l]"
    using assms(1,2,3) by (intro splitlines_join) auto
  then have "?t \<noteq> []" by (auto simp: splitlines_def)
  moreover have "answer_values l = answer_values p @ [v]"
    using answer_values_given [OF assms(7,5,6,8)] assms(3,4) by simp
  ultimately show ?thesis
    using sp assms(9-12) by (simp add: read_reply_def Let_def)
qed

text \<open>
  The reply in the shape the brief asks for: what the agent says first, then the nonce and, on a
  line of its own, the answer. In a transcript it is the string of one JSON record, its line
  break two characters of that record's line.
\<close>

definition reply_as_asked :: "string \<Rightarrow> string \<Rightarrow> string \<Rightarrow> string \<Rightarrow> string" where
  "reply_as_asked said nonce indent v =
     said @ ''nonce='' @ nonce @ [CHR 0x0A] @ indent @ ''answer='' @ v"

lemma contains_infix: "contains s (a @ s @ b)"
proof -
  have "find_after s (a @ s @ b) \<noteq> None"
  proof (induction a)
    case Nil
    have "starts_with (s @ b) s" by (simp add: starts_with_def)
    then show ?case by (cases "s @ b") auto
  next
    case (Cons x a)
    then show ?case by simp
  qed
  then show ?thesis by (simp add: contains_def)
qed

lemma escaped_reply:
  assumes "encoding f" and "f (CHR 0x0A) = [CHR 0x5C, CHR ''n'']" and "\<forall>c \<in> set (nonce @ v). f c = [c]"
    and "CHR ''='' \<notin> set indent"
  obtains p u where "concat (map f (reply_as_asked said nonce indent v)) = (p @ nonce) @ CHR 0x5C # u @ ANSWER_MARK @ v"
    and "CHR ''='' \<notin> set u"
proof -
  let ?e = "\<lambda>s. concat (map f s)"
  have m: "?e ''nonce='' = ''nonce=''" "?e ''answer='' = ''answer=''"
    using assms(1) by (auto simp: encoding_def)
  have plain: "?e s = s" if "\<forall>c \<in> set s. f c = [c]" for s
    using that by (induction s) simp_all
  have "?e (reply_as_asked said nonce indent v)
      = ((?e said @ ''nonce='') @ nonce) @ CHR 0x5C # (''n'' @ ?e indent) @ ANSWER_MARK @ v"
    using assms(2,3) plain [of nonce] plain [of v] m by (simp add: reply_as_asked_def)
  moreover have "CHR ''='' \<notin> set (''n'' @ ?e indent)"
    using encoding_free [OF assms(1,4)] by simp
  ultimately show ?thesis by (rule that)
qed

text \<open>
  Raw, on two lines, the same reply is not read: only the lines that hold the nonce are searched,
  and the answer is on the next one.
\<close>

lemma raw_reply_is_unread:
  assumes "breakless nonce" and "breakless v" and "nonce \<noteq> []" and "CHR ''='' \<notin> set nonce"
    and "\<not> contains nonce (''answer='' @ v)"
  shows "\<exists>r. read_reply (reply_as_asked [] nonce [] v) nonce = Inr r \<and> rd_nonce_seen r \<and> rd_answer r = None"
proof -
  let ?ls = "[''nonce='' @ nonce, ''answer='' @ v]"
  have t: "reply_as_asked [] nonce [] v = join_with [CHR 0x0A] ?ls"
    by (simp add: reply_as_asked_def)
  have b: "breakless (''nonce='' @ nonce)" "breakless (''answer='' @ v)"
    using assms(1,2) by (simp_all add: breakless_Cons line_break_def starts_with_def)
  have "splitlines (join_with [CHR 0x0A] ([''nonce='' @ nonce] @ [''answer='' @ v])) = [''nonce='' @ nonce] @ [''answer='' @ v]"
    using b by (intro splitlines_join) auto
  then have sp: "splitlines (reply_as_asked [] nonce [] v) = ?ls" by (simp only: t append.simps)
  have "find_after ANSWER_MARK (''nonce='' @ nonce) = None"
    using find_after_free [OF assms(4)] by (simp add: starts_with_def)
  then have "answer_values (''nonce='' @ nonce) = []" by (simp add: answer_values.simps)
  moreover have "contains nonce (''nonce='' @ nonce)" using contains_infix [of nonce "''nonce=''" "[]"] by simp
  moreover have "reply_as_asked [] nonce [] v \<noteq> []" by (simp add: reply_as_asked_def)
  ultimately show ?thesis using sp assms(3,5) by (simp add: read_reply_def Let_def)
qed

subsection \<open>Properties\<close>

text \<open>
  C38: The question does not answer itself. The brief necessarily ends up in the transcript the
  answer is looked for in. Take any text put together from copies of the brief, each written raw or
  as an escaped JSON string, and from other pieces, none with an equals sign first or behind an \<open>r\<close>:
  reading it finds no answer. Two conditions: no value put into the brief, the question among them,
  contains an equals sign (a question that spells \<open>answer=x\<close> would be read as one); and an encoding
  writes the letters of the marks, the equals sign and \<open><\<close> as themselves, and nothing else with
  an equals sign (one that writes \<open><\<close> as an entity is none).
\<close>

theorem challenge_never_answers:
  assumes "build_arrival_brief agent from_host to_host sid nonce question doc = Inr brief"
    and "CHR ''='' \<notin> set agent \<union> set from_host \<union> set to_host \<union> set sid \<union> set nonce \<union>
      set question \<union> set doc"
    and "\<forall>piece \<in> set pieces. gives_none piece \<or> (\<exists>f. encoding f \<and> piece = concat (map f brief))"
  shows "\<exists>r. read_reply (concat pieces) nonce = Inr r \<and> rd_answer r = None"
proof -
  have "nonce \<noteq> []" using assms(1) by (auto simp: build_arrival_brief_def split: if_splits)
  then obtain r where "read_reply (concat pieces) nonce = Inr r"
    by (fastforce simp: read_reply_def Let_def)
  moreover have "gives_none (concat pieces)"
    using assms(3) brief_gives_none [OF assms(1,2)] by (intro gives_none_concat) blast
  ultimately show ?thesis using gives_none_reading by blast
qed

text \<open>
  C37: An answer given is an answer read, and only the right one passes. The last line of the
  transcript is the record of a reply in the shape the brief asks for, nonce and answer on two lines
  of one JSON string: then that answer is what is read, whatever the agent said before it in the
  record and whatever earlier lines hold, and the gate is passed exactly when it is the answer
  measured independently. The conditions: the answer is not empty, has no space, comma, quote,
  backslash, tab or line break, does not start with \<open><\<close> and closes the string; nothing
  behind it in the record is another answer; the string leaves nonce and answer as they are, writes
  the line break as \<open>\n\<close> and no other character with an equals sign. A reply that stands in the text
  raw, on two lines, is not read (\<open>raw_reply_is_unread\<close>).
\<close>

theorem reply_proves_work:
  assumes "encoding f" and "f (CHR 0x0A) = [CHR 0x5C, CHR ''n'']" and "\<forall>c \<in> set (nonce @ v). f c = [c]"
    and "line = pre @ concat (map f (reply_as_asked said nonce indent v)) @ CHR 0x22 # post"
    and "\<forall>l \<in> set (ls @ [line]). breakless l"
    and "set indent \<subseteq> {CHR '' ''}" and "answer_values post = []"
    and "\<forall>c \<in> set v. value_char c" and "v \<noteq> []" and "\<not> is_placeholder v"
    and "nonce \<noteq> []" and "expected \<noteq> []"
  shows "\<exists>r verdict. read_reply (join_with [CHR 0x0A] (ls @ [line])) nonce = Inr r \<and>
    evaluate_handshake \<lparr>hf_challenge_accepted = Yes, hf_reply_observed = Yes, hf_observed_by = who,
      hf_reply_nonce = (if rd_nonce_seen r then Some nonce else None),
      hf_reply_answer = rd_answer r\<rparr> nonce expected = Inr verdict \<and>
    rd_answer r = Some v \<and> (hv_proven verdict = Yes \<longleftrightarrow> v = expected)"
proof -
  have "CHR ''='' \<notin> set indent" using assms(6) by auto
  then obtain p u where e: "concat (map f (reply_as_asked said nonce indent v))
      = (p @ nonce) @ CHR 0x5C # u @ ANSWER_MARK @ v" and u: "CHR ''='' \<notin> set u"
    by (rule escaped_reply [OF assms(1-3)])
  have shape: "line = (pre @ p @ nonce) @ CHR 0x5C # u @ ANSWER_MARK @ v @ CHR 0x22 # post"
    unfolding assms(4) e by simp
  moreover have "contains nonce line"
    using contains_infix [of nonce "pre @ p"] shape by simp
  ultimately obtain r where r: "read_reply (join_with [CHR 0x0A] (ls @ [line])) nonce = Inr r"
    "rd_answer r = Some v" "rd_nonce_seen r"
    using reply_is_read [of ls line "pre @ p @ nonce" "CHR 0x5C" u v "CHR 0x22" post nonce] assms(5,7-11) u
    by (auto simp: value_char_def)
  let ?f = "\<lparr>hf_challenge_accepted = Yes, hf_reply_observed = Yes, hf_observed_by = who,
    hf_reply_nonce = Some nonce, hf_reply_answer = Some v\<rparr>"
  obtain d where d: "evaluate_handshake ?f nonce expected = Inr d"
    using handshake_returns [OF assms(11,12)] by blast
  with handshake_proven_iff [OF d] r show ?thesis by auto
qed

text \<open>
  The gate is passed only by a complete round trip, and never builds a verdict its own
  constructor rejects: the challenge accepted, a reply observed, this challenge's nonce in it and
  the expected answer; anything unobserved or different is not a pass.
\<close>

theorem handshake_gate_sound:
  assumes "nonce \<noteq> []" and "expected \<noteq> []"
  shows "\<exists>v. evaluate_handshake f nonce expected = Inr v \<and> handshake_verdict_ok v \<and>
    (hv_proven v = Yes \<longleftrightarrow> f = \<lparr>hf_challenge_accepted = Yes, hf_reply_observed = Yes,
       hf_observed_by = hf_observed_by f, hf_reply_nonce = Some nonce,
       hf_reply_answer = Some expected\<rparr>)"
proof -
  obtain v where v: "evaluate_handshake f nonce expected = Inr v"
    using handshake_returns [OF assms] by blast
  have "hv_proven v = Yes \<longleftrightarrow> f = \<lparr>hf_challenge_accepted = Yes, hf_reply_observed = Yes,
       hf_observed_by = hf_observed_by f, hf_reply_nonce = Some nonce,
       hf_reply_answer = Some expected\<rparr>"
    unfolding handshake_proven_iff [OF v] by (cases f) auto
  with v handshake_valid [OF v] show ?thesis by blast
qed

subsection \<open>Witnesses\<close>

theorem challenge_never_answers_witness:
  "case build_arrival_brief ''lead'' ''nas'' ''gpu'' ''s1'' ''ab12'' ''hostname?'' ''doc'' of
     Inl _ \<Rightarrow> False
   | Inr brief \<Rightarrow> \<exists>r. read_reply (concat [''{'', concat (map json_escape brief), ''} token=x '',
         concat (map (\<lambda>c. [c]) brief)]) ''ab12'' = Inr r \<and> rd_answer r = None"
proof -
  obtain brief where b: "build_arrival_brief ''lead'' ''nas'' ''gpu'' ''s1'' ''ab12'' ''hostname?'' ''doc'' = Inr brief"
    by (simp add: build_arrival_brief_def)
  have "gives_none ''} token=x ''" by (auto simp: gives_none_def Cons_eq_append_conv)
  moreover have "gives_none ''{''" by (rule gives_none_free) simp
  ultimately show ?thesis
    unfolding b sum.case
    by (intro challenge_never_answers [OF b]) (auto intro: encoding_json encoding_raw)
qed

definition demo_record :: string where
  "demo_record = [CHR 0x22] @ concat (map json_escape (reply_as_asked ''Here. '' ''ab12'' ''  '' ''gpu'')) @ CHR 0x22 # ''}''"

lemma demo_record_facts: "breakless demo_record" "breakless ''nonce=ab12 answer=<x>''" "answer_values ''}'' = []"
  by (simp_all add: demo_record_def reply_as_asked_def json_escape_def breakless_Cons line_break_def starts_with_def
      answer_values.simps [of "''}''"]) (simp_all add: breakless_def)

theorem reply_proves_work_witness:
  "\<exists>r d. read_reply (join_with [CHR 0x0A] ([''nonce=ab12 answer=<x>''] @ [demo_record])) ''ab12'' = Inr r \<and>
    evaluate_handshake \<lparr>hf_challenge_accepted = Yes, hf_reply_observed = Yes, hf_observed_by = empty_msg,
      hf_reply_nonce = (if rd_nonce_seen r then Some ''ab12'' else None),
      hf_reply_answer = rd_answer r\<rparr> ''ab12'' ''gpu'' = Inr d \<and>
    rd_answer r = Some ''gpu'' \<and> (hv_proven d = Yes \<longleftrightarrow> ''gpu'' = ''gpu'')"
  by (rule reply_proves_work [OF encoding_json _ _ demo_record_def])
    (simp_all add: demo_record_facts value_char_def is_placeholder_def starts_with_def json_escape_def)

theorem handshake_gate_sound_witness:
  "\<exists>v. evaluate_handshake \<lparr>hf_challenge_accepted = Yes, hf_reply_observed = Yes,
      hf_observed_by = empty_msg, hf_reply_nonce = Some ''n'', hf_reply_answer = None\<rparr> ''n'' ''gpu'' = Inr v \<and>
    hv_proven v \<noteq> Yes"
  using handshake_gate_sound [of "''n''" "''gpu''" "\<lparr>hf_challenge_accepted = Yes,
    hf_reply_observed = Yes, hf_observed_by = empty_msg, hf_reply_nonce = Some ''n'', hf_reply_answer = None\<rparr>"]
  by auto

end
