(* ===== verification/Adapters_Target.thy ===== *)
theory Adapters_Target
  imports Adapters Handshake
begin

text \<open>
  Bringing the agent up on the target: \<open>StandbyEffects\<close> (\<open>_relocate_effects_standby.py\<close>), which
  carries the spec, seeds the session marker and starts a standby, and \<open>HandshakeEffects\<close>
  (\<open>_relocate_effects_handshake.py\<close>), which asks it to prove it can work.
\<close>

subsection \<open>The standby\<close>

text \<open>\<open>_home\<close>: the target's home, asked for once.\<close>

definition home_there :: "'w env \<Rightarrow> relocate_config \<Rightarrow> ('w, string option) adapter" where
  "home_there e c =
     seq get_state (\<lambda>s.
       (if ad_target_ssh_home s \<noteq> [] then ret (Some (ad_target_ssh_home s))
        else seq (on_world (target_home e (rc_target c))) (\<lambda>h.
          seq (put_state (\<lambda>s. s\<lparr>ad_target_ssh_home := (case h of None \<Rightarrow> [] | Some x \<Rightarrow> x)\<rparr>)) (\<lambda>_.
            ret (or_none h)))))"

text \<open>\<open>spec_path.rpartition("/")\<close> twice: the directory of agents, the agent's entry in it, the file.\<close>

definition split_spec_path :: "string \<Rightarrow> string \<times> string \<times> string \<times> string" where
  "split_spec_path path =
     (let (spec_dir, name) = rpartition (CHR ''/'') path; (agents_dir, entry) = rpartition (CHR ''/'') spec_dir
      in (spec_dir, agents_dir, entry, name))"

definition tree_names :: "(string \<times> int option) list \<Rightarrow> string list" where
  "tree_names tree = sort (remdups (map fst tree))"

definition tree_mismatch :: "relocate_config \<Rightarrow> (string \<times> int option) list \<Rightarrow> (string \<times> int option) list \<Rightarrow> step_result" where
  "tree_mismatch c src tgt =
     (let missing = filter (\<lambda>p. p \<notin> fst ` set tgt) (tree_names src);
          differing = sort (map fst (filter (\<lambda>(p, k). p \<in> fst ` set tgt \<and> map_of (rev tgt) p \<noteq> Some k) src))
      in step_not No
          (Fmt ''the spec directory does not match the source'' [Txt (rc_to_host c),
            Num (int (length missing)), Fmt ''list'' (map Txt (take 5 missing)),
            Num (int (length differing)), Fmt ''list'' (map Txt (take 5 differing))])
          (Fmt ''re-run the copy'' []))"

text \<open>\<open>_carry_spec\<close>, from the move aside of what is already there to the comparison of the trees.\<close>

definition copy_spec ::
  "'w env \<Rightarrow> relocate_config \<Rightarrow> string \<Rightarrow> string \<Rightarrow> string \<Rightarrow> string \<Rightarrow> string \<Rightarrow>
   (string \<times> int option) list \<Rightarrow> ('w, step_result option) adapter" where
  "copy_spec e c agents_dir entry name target_parent target_dir source_tree =
     seq (lift (move_aside_destination target_dir (rc_stamp c))) (\<lambda>aside.
     seq (on_world (move_dir_aside e (rc_target c) target_dir aside)) (\<lambda>moved.
       (if moved \<noteq> Yes then
          ret (Some (step_not moved
            (Fmt ''already holds and it could not be moved aside'' [Txt (rc_to_host c), Txt target_dir, Txt aside])
            (Fmt ''move it aside by hand and re-run'' [])))
        else seq (on_world (ensure_dir e (rc_target c) target_parent)) (\<lambda>made.
          (if made \<noteq> Yes then
             ret (Some (step_not Unknown
               (Fmt ''the agents directory could not be created'' [Txt target_parent, Txt (rc_to_host c)])
               (Fmt ''check write permission'' [])))
           else
             seq (on_world (copy_tree e (rc_source c) agents_dir (rc_target c) target_parent [entry])) (\<lambda>_.
             seq (on_world (list_tree e (rc_target c) target_dir)) (\<lambda>there.
               (case there of
                  None \<Rightarrow> ret (Some (step_not Unknown
                    (Fmt ''the carried spec directory could not be listed'' [Txt (rc_to_host c)])
                    (Fmt ''list it on the target'' [])))
                | Some target_tree \<Rightarrow>
                    (if target_tree \<noteq> source_tree then ret (Some (tree_mismatch c source_tree target_tree))
                     else seq (put_state (\<lambda>s. s\<lparr>ad_target_spec_path := target_dir @ ''/'' @ name\<rparr>))
                       (\<lambda>_. ret None))))))))))"

definition carry_spec :: "'w env \<Rightarrow> relocate_config \<Rightarrow> string \<Rightarrow> ('w, step_result option) adapter" where
  "carry_spec e c home =
     (let (spec_dir, agents_dir, entry, name) = split_spec_path (rc_spec_path c);
          target_parent = home @ ''/.scitex/agent-container/agents'';
          target_dir = target_parent @ ''/'' @ entry
      in if rc_spec_path c = [] then
           ret (Some (step_untried (Fmt ''the source-side spec file was not supplied to the adapters'' [])
             (Fmt ''pass spec_path into adapters_for'' [])))
         else if name \<noteq> ''spec.yaml'' then
           ret (Some (step_not No (Fmt ''the source spec is named'' [Txt name])
             (Fmt ''rename the source spec to spec.yaml'' [])))
         else if entry \<noteq> rc_agent c then
           ret (Some (step_not No (Fmt ''the source spec lives in a directory named'' [Txt entry, Txt (rc_agent c)])
             (Fmt ''rename the spec directory to match the agent'' [])))
         else
           seq (on_world (list_tree e (rc_source c) spec_dir)) (\<lambda>tree.
             (case tree of
                None \<Rightarrow> ret (Some (step_not Unknown
                  (Fmt ''the source spec directory could not be listed'' [Txt spec_dir])
                  (Fmt ''check the path exists'' [])))
              | Some [] \<Rightarrow> ret (Some (step_not No
                  (Fmt ''the source spec directory holds no files'' [Txt spec_dir])
                  (Fmt ''check the path exists'' [])))
              | Some source_tree \<Rightarrow>
                  (let secrets_found = filter (\<lambda>p. basename p \<in> set CREDENTIAL_BASENAMES) (map fst source_tree) in
                   if secrets_found \<noteq> [] then
                     ret (Some (step_not No
                       (Fmt ''the spec directory holds a credential'' (map Txt secrets_found))
                       (Fmt ''move the credential out of the spec directory'' [])))
                   else copy_spec e c agents_dir entry name target_parent target_dir source_tree))))"

definition seed_marker :: "'w env \<Rightarrow> relocate_config \<Rightarrow> string \<Rightarrow> ('w, step_result option) adapter" where
  "seed_marker e c home =
     (let state_dir = home @ ''/.scitex/agent-container/runtime/'' @ rc_agent c in
      seq (put_state (\<lambda>s. s\<lparr>ad_target_state_dir := state_dir\<rparr>)) (\<lambda>_.
      seq get_state (\<lambda>s.
      seq (on_world (read_session_marker e (rc_target c) state_dir)) (\<lambda>existing.
        (case existing of
           None \<Rightarrow> ret (Some (step_not Unknown
             (Fmt ''whether it already holds a session marker was not measured'' [Txt (rc_to_host c)])
             (Fmt ''measure it before seeding'' [])))
         | Some marker \<Rightarrow>
             (if marker = ad_session_uuid s then ret None
              else if marker \<noteq> SID_ABSENT then
                ret (Some (step_not No
                  (Fmt ''already holds another session marker''
                    [Txt (rc_to_host c), Txt marker, Txt (ad_session_uuid s)])
                  (Fmt ''move session_id aside by hand'' [Txt state_dir])))
              else seq (on_world (write_session_marker e (rc_target c) state_dir (ad_session_uuid s))) (\<lambda>wrote.
                ret (case wrote of
                    None \<Rightarrow> Some (step_not Unknown
                      (Fmt ''the session marker was written and could not be read back'' [Txt state_dir])
                      (Fmt ''read it on the target'' []))
                  | Some w \<Rightarrow>
                      (if w \<noteq> ad_session_uuid s then
                         Some (step_not No (Fmt ''the marker reads otherwise after writing''
                             [Txt state_dir, Txt w, Txt (ad_session_uuid s)])
                           (Fmt ''something else is writing that file'' []))
                       else None)))))))))"

definition boot_standby :: "'w env \<Rightarrow> relocate_config \<Rightarrow> ('w, step_result) adapter" where
  "boot_standby e c =
     seq get_state (\<lambda>s.
     seq (on_world (start_standby e (rc_target c) (rc_agent c) (ad_session_uuid s))) (\<lambda>_.
     seq (on_world (observe_running e (rc_target c) (rc_agent c))) (\<lambda>(running, why).
     seq (on_world (observe_running e (rc_source c) (rc_agent c))) (\<lambda>(source_running, source_why).
       (if source_running = Yes then
          ret (step_not No
            (Fmt ''the start was issued and it is running on the source''
              [Txt (rc_to_host c), Txt (rc_agent c), Tri running, Txt (rc_from_host c), source_why])
            (Fmt ''stop it on the source and re-run'' [Txt (rc_from_host c)]))
        else
          (case running of
             None \<Rightarrow> ret (step_not Unknown
               (Fmt ''the start was issued and the result was not observable'' [Txt (rc_to_host c), why])
               (Fmt ''observe liveness on the target before handing anything over'' []))
           | Some False \<Rightarrow> ret (step_not No
               (Fmt ''the start was issued and it is NOT running'' [Txt (rc_agent c), Txt (rc_to_host c), why])
               (Fmt ''read the start output above'' []))
           | Some True \<Rightarrow>
               seq (put_state (\<lambda>s. s\<lparr>ad_standby_started := True\<rparr>)) (\<lambda>_.
                 ret (step_yes (Fmt ''is running as a STANDBY (no lease)''
                   [Txt (rc_agent c), Txt (rc_to_host c), why, Txt (ad_session_uuid s)])))))))))"

definition start_target_standby :: "'w env \<Rightarrow> relocate_config \<Rightarrow> ('w, step_result) adapter" where
  "start_target_standby e c =
     seq get_state (\<lambda>s.
       (if ad_session_uuid s = [] then
          ret (step_untried (Fmt ''the carried session id is not known'' []) (Fmt ''re-run the transport'' []))
        else seq (home_there e c) (\<lambda>home.
          (case home of
             None \<Rightarrow> ret (step_not Unknown
               (Fmt ''did not answer with its $HOME'' [Txt (rc_to_host c)])
               (Fmt ''check ssh to the target'' []))
           | Some h \<Rightarrow>
               unless_refused (carry_spec e c h)
               (unless_refused (seed_marker e c h) (boot_standby e c))))))"

subsection \<open>The handshake\<close>

definition HANDSHAKE_QUESTION :: string where
  "HANDSHAKE_QUESTION = ''run `hostname` on the machine you are on now and report it verbatim''"

definition DEFAULT_HANDOVER_DOC :: string where
  "DEFAULT_HANDOVER_DOC = ''~/.scitex/agent-container/runtime/relocation-plan-20260811.md''"

abbreviation REPLY_ATTEMPTS :: nat where "REPLY_ATTEMPTS \<equiv> 30"
abbreviation REPLY_INTERVAL_S :: time where "REPLY_INTERVAL_S \<equiv> 10"

text \<open>\<open>_deliver\<close>: a delivery that could not run is not observed; \<open>except Exception\<close> lets \<open>SystemExit\<close> by.\<close>

definition deliver :: "'w env \<Rightarrow> relocate_config \<Rightarrow> string \<Rightarrow> ('w, tri) prog" where
  "deliver e c brief w =
     (case deliver_prompt e (rc_target c) (rc_agent c) brief w of
        (Inl (SystemExit n), w') \<Rightarrow> (Inl (SystemExit n), w')
      | (Inl _, w') \<Rightarrow> (Inr Unknown, w')
      | (Inr run, w') \<Rightarrow> (Inr (Some (rr_exit_code run = 0)), w'))"

text \<open>
  The looks at the target's transcripts: \<open>n\<close> are left, \<open>first\<close> is the one before which nothing is
  slept. The answer is what was observed, the nonce if it was seen and the reply.
\<close>

fun look_for_reply ::
  "nat \<Rightarrow> bool \<Rightarrow> bool \<Rightarrow> 'w env \<Rightarrow> relocate_config \<Rightarrow> string \<Rightarrow> string \<Rightarrow>
   ('w, tri \<times> string option \<times> string option) prog" where
  "look_for_reply 0 first searched e c dir nonce = ret (if searched then No else Unknown, None, None)"
| "look_for_reply (Suc n) first searched e c dir nonce =
     seq (if first then ret () else sleep_for e REPLY_INTERVAL_S) (\<lambda>_.
     seq (search_transcripts e (rc_target c) dir nonce) (\<lambda>found.
       (case found of
          None \<Rightarrow> look_for_reply n False searched e c dir nonce
        | Some ls \<Rightarrow>
            seq (lift (read_reply (join_with [CHR 0x0A] ls) nonce)) (\<lambda>r.
              (if present (rd_answer r) then
                 ret (Yes, (if rd_nonce_seen r then Some nonce else None), rd_answer r)
               else look_for_reply n False True e c dir nonce)))))"

definition observer :: "relocate_config \<Rightarrow> msg" where
  "observer c = Fmt ''the coordinator, reading the transcript over ssh''
     [Txt (rc_from_host c), Txt (rc_agent c), Txt (rc_to_host c)]"

definition handshake :: "'w env \<Rightarrow> relocate_config \<Rightarrow> ('w, step_result) adapter" where
  "handshake e c =
     seq get_state (\<lambda>s.
       (if ad_session_uuid s = [] \<or> ad_target_dir s = [] then
          ret (step_untried
            (Fmt ''the carried session id or the target transcript directory is not known'' [])
            (Fmt ''re-run from the transport phase'' []))
        else seq (on_world (target_hostname e (rc_target c))) (\<lambda>hostname.
          (case hostname of
             None \<Rightarrow> ret (step_untried (Fmt ''did not answer `hostname`'' [Txt (rc_to_host c)])
               (Fmt ''measure it on the target'' []))
           | Some expected \<Rightarrow>
               seq (on_world (token_of e 8)) (\<lambda>nonce.
               seq (lift (build_arrival_brief (rc_agent c) (rc_from_host c) (rc_to_host c)
                   (ad_session_uuid s) nonce HANDSHAKE_QUESTION DEFAULT_HANDOVER_DOC)) (\<lambda>brief.
               seq (on_world (deliver e c brief)) (\<lambda>accepted.
               seq (if accepted = Yes then
                      seq (on_world (look_for_reply REPLY_ATTEMPTS True False e c (ad_target_dir s) nonce))
                        (\<lambda>(observed, seen, answer).
                          ret \<lparr>hf_challenge_accepted = Yes, hf_reply_observed = observed,
                            hf_observed_by = observer c, hf_reply_nonce = seen, hf_reply_answer = answer\<rparr>)
                    else ret \<lparr>hf_challenge_accepted = accepted, hf_reply_observed = Unknown,
                            hf_observed_by = empty_msg, hf_reply_nonce = None, hf_reply_answer = None\<rparr>) (\<lambda>facts.
               seq (lift (evaluate_handshake facts nonce expected)) (\<lambda>verdict.
               seq (put_state (\<lambda>s. s\<lparr>ad_handshake_confirmed := hv_proven verdict\<rparr>)) (\<lambda>_.
                 ret (if hv_proven verdict = Yes then step_yes (hv_reason verdict)
                      else step_not (hv_proven verdict)
                        (Fmt ''handshake not proven'' [Num (hv_code verdict), hv_reason verdict])
                        (hv_hint verdict))))))))))))"

subsection \<open>Every answer is well formed\<close>

lemma copy_spec_valid: "yields (refused_only step_result_ok) (copy_spec e c ad en nm tp td tree)"
  unfolding copy_spec_def by (intro vc yields_any) (auto simp: step_result_ok_def tree_mismatch_def Let_def)

lemma carry_spec_valid: "yields (refused_only step_result_ok) (carry_spec e c home)"
  unfolding carry_spec_def Let_def
  by (intro vc yields_any copy_spec_valid) (auto simp: step_result_ok_def)

lemma seed_marker_valid: "yields (refused_only step_result_ok) (seed_marker e c home)"
  unfolding seed_marker_def Let_def
  by (intro vc yields_any) (auto simp: step_result_ok_def split: option.split)

lemma boot_standby_valid: "yields step_result_ok (boot_standby e c)"
  unfolding boot_standby_def by (intro vc yields_any) (auto simp: step_result_ok_def)

lemma start_target_standby_valid: "yields step_result_ok (start_target_standby e c)"
  unfolding start_target_standby_def
  by (intro yields_any vc carry_spec_valid seed_marker_valid boot_standby_valid) (auto simp: step_result_ok_def)

lemma handshake_says:
  "evaluate_handshake f n x = Inr v \<Longrightarrow> truthy (hv_reason v) \<and> (hv_proven v \<noteq> Yes \<longrightarrow> truthy (hv_hint v))"
  by (auto dest: handshake_valid simp: handshake_verdict_ok_def)

lemma handshake_effect_valid: "yields step_result_ok (handshake e c)"
  unfolding handshake_def
  by (intro yields_lift yields_any vc) (auto simp: step_result_ok_def dest!: handshake_says)

subsection \<open>What the effects on the target may touch\<close>

lemma stays_standby_steps [frame]:
  assumes t: "tame R e c"
  shows "stays (world_rel R) (home_there e c)"
    and "stays (world_rel R) (carry_spec e c h)"
    and "stays (world_rel R) (seed_marker e c h)"
    and "stays (world_rel R) (boot_standby e c)"
  using t tame_preorder [OF t]
  unfolding home_there_def carry_spec_def copy_spec_def seed_marker_def boot_standby_def Let_def
  by (auto intro!: frame)

lemma stays_standby [frame]: "tame R e c \<Longrightarrow> stays (world_rel R) (start_target_standby e c)"
  unfolding start_target_standby_def by (frule tame_preorder) (auto intro!: frame)

lemma stays_deliver [frame]: "tame R e c \<Longrightarrow> stays R (deliver e c brief)"
proof -
  assume t: "tame R e c"
  then have "stays R (deliver_prompt e (rc_target c) (rc_agent c) brief)"
    using tame_preorder [OF t] by (auto intro!: frame)
  then show ?thesis unfolding stays_def deliver_def
    by (auto split: prod.splits sum.splits py_error.splits) (metis snd_conv)+
qed

lemma stays_look [frame]: "tame R e c \<Longrightarrow> stays R (look_for_reply n first searched e c d nonce)"
proof -
  assume t: "tame R e c"
  with tame_preorder [OF t] show ?thesis by (induction n arbitrary: first searched) (auto intro!: frame)
qed

lemma stays_handshake [frame]: "tame R e c \<Longrightarrow> stays (world_rel R) (handshake e c)"
  unfolding handshake_def by (frule tame_preorder) (auto intro!: frame)

end
