(* ===== verification/Adapters_Handover.thy ===== *)
theory Adapters_Handover
  imports Adapters_Transport Adapters_Target Lease_Readiness
begin

text \<open>
  The last two effects and the assembly: \<open>HandoverEffects\<close> (\<open>_relocate_effects_handover.py\<close>), which
  moves the lease and is the point of no return, \<open>RelocateAdapters.finish\<close>, \<open>build_effects\<close> and
  \<open>adapters_for\<close> (\<open>_relocate_effects.py\<close>).
\<close>

abbreviation LEASE_TTL_S :: time where "LEASE_TTL_S \<equiv> 86400"

subsection \<open>The handover\<close>

text \<open>\<open>_recorded_holder_running\<close>: looked at only when a live lease names another host.\<close>

definition recorded_holder_running ::
  "'w env \<Rightarrow> relocate_config \<Rightarrow> lease option \<Rightarrow> time \<Rightarrow> ('w, tri) prog" where
  "recorded_holder_running e c held now =
     (case held of
        None \<Rightarrow> ret Unknown
      | Some l \<Rightarrow>
          (if l_holder l = rc_from_host c \<or> is_expired l now then ret Unknown
           else seq (lift (shell_for e (l_holder l) (or_none (Some (rc_local_host c))))) (\<lambda>sh.
             seq (observe_running e sh (rc_agent c)) (\<lambda>(running, _). ret running))))"

text \<open>
  \<open>_holder_to_hand_from\<close>: the lease the source can hand over, claimed first when the row does not
  name the source; or the refusal.
\<close>

definition holder_to_hand_from ::
  "'w env \<Rightarrow> relocate_config \<Rightarrow> time \<Rightarrow> ('w, step_result + lease \<times> msg) prog" where
  "holder_to_hand_from e c now =
     seq (load_lease e (rc_agent c)) (\<lambda>held.
     seq (recorded_holder_running e c held now) (\<lambda>running.
     seq (lift (handoff_readiness held (rc_from_host c) now running)) (\<lambda>ready.
       (if lv_allowed ready \<noteq> Yes then
          ret (Inl (step_not (lv_allowed ready) (lv_reason ready)
            (if lv_allowed ready = Unknown then Fmt ''look at the holder'' [opt_msg (lv_holder ready), Txt (rc_agent c)]
             else Fmt ''settle which host owns this identity before re-running'' [])))
        else if (case held of None \<Rightarrow> False | Some l \<Rightarrow> l_holder l = rc_from_host c) then
          ret (Inr (the held, empty_msg))
        else
         (let was_expired = (case held of None \<Rightarrow> False | Some l \<Rightarrow> is_expired l now);
              superseded = (held \<noteq> None \<and> \<not> was_expired)
          in seq (token_of e 16) (\<lambda>token.
             seq (lift (claim held (rc_agent c) (rc_from_host c) token now LEASE_TTL_S superseded)) (\<lambda>(granted, verdict).
               (if lv_allowed verdict \<noteq> Yes \<or> granted = None then
                  ret (Inl (step_not No
                    (Fmt ''the source's lease could not be claimed''
                      [(if held \<noteq> None then Txt ''re-claimed'' else Txt ''bootstrapped''), lv_reason verdict])
                    (Fmt ''nothing was handed over'' [])))
                else
                  seq (save_lease e (the granted)) (\<lambda>_. ret (Inr (the granted,
                    (if superseded then Fmt ''a past handover was re-claimed''
                         [Txt (l_holder (the held)), Num (l_fence (the held)), Txt (rc_agent c), Num (l_fence (the granted))]
                     else if was_expired then Fmt ''an EXPIRED lease was re-claimed''
                         [Txt (l_holder (the held)), Num (l_fence (the granted))]
                     else Fmt ''the lease was BOOTSTRAPPED'' [Num (l_fence (the granted))]))))))))))))"

definition hand_over_lease :: "'w env \<Rightarrow> relocate_config \<Rightarrow> ('w, step_result) adapter" where
  "hand_over_lease e c =
     seq (on_world (now_of e)) (\<lambda>now.
     seq (on_world (holder_to_hand_from e c now)) (\<lambda>found.
       (case found of
          Inl refusal \<Rightarrow> ret refusal
        | Inr (held, note) \<Rightarrow>
            seq (on_world (token_of e 16)) (\<lambda>token.
            seq (lift (handoff (Some held) (rc_from_host c) (l_token held) (l_fence held) (rc_to_host c)
                token now LEASE_TTL_S)) (\<lambda>(moved, verdict).
              (if lv_allowed verdict \<noteq> Yes \<or> moved = None then
                 ret (step_not No (Fmt ''the lease did not move'' [lv_reason verdict])
                   (Fmt ''nothing was handed over and the source is still the owner of record'' []))
               else
                 seq (on_world (save_lease e (the moved))) (\<lambda>_.
                 seq (on_world (load_lease e (rc_agent c))) (\<lambda>confirmed.
                   (case confirmed of
                      None \<Rightarrow> ret (step_not Unknown
                        (Fmt ''the lease was written and could not be read back'' [])
                        (Fmt ''read relocation_leases before doing anything else'' []))
                    | Some l \<Rightarrow>
                        (if l_holder l \<noteq> rc_to_host c \<or> l_fence l \<noteq> l_fence (the moved) then
                           ret (step_not No
                             (Fmt ''after the handoff the stored lease reads otherwise''
                               [Txt (l_holder l), Num (l_fence l), Txt (rc_to_host c), Num (l_fence (the moved))])
                             (Fmt ''something else wrote that row'' []))
                         else
                           seq (put_state (\<lambda>s. s\<lparr>ad_lease_fence := Some (l_fence l)\<rparr>)) (\<lambda>_.
                             ret (step_yes (Fmt ''the lease moved''
                               [Txt (rc_from_host c), Txt (rc_to_host c), Num (l_fence l), note])))))))))))))"

subsection \<open>The finish\<close>

text \<open>\<open>_one_owner_check\<close>: running on the target, and not on the source.\<close>

definition one_owner_check :: "'w env \<Rightarrow> relocate_config \<Rightarrow> ('w, step_result option) adapter" where
  "one_owner_check e c =
     seq (on_world (observe_running e (rc_target c) (rc_agent c))) (\<lambda>(target_up, target_why).
     seq (on_world (observe_running e (rc_source c) (rc_agent c))) (\<lambda>(source_up, source_why).
       ret (if source_up = Yes then
              Some (step_not No
                (Fmt ''refusing to record residency: running on BOTH''
                  [Txt (rc_agent c), Txt (rc_from_host c), Txt (rc_to_host c), source_why])
                (Fmt ''stop it on the source'' [Txt (rc_from_host c)]))
            else if target_up \<noteq> Yes then
              Some (step_not target_up
                (Fmt ''refusing to record residency: not confirmed running''
                  [Txt (rc_agent c), Txt (rc_to_host c), target_why])
                (Fmt ''start it on the target and confirm'' [Txt (rc_to_host c)]))
            else None)))"

definition record_and_retire :: "'w env \<Rightarrow> relocate_config \<Rightarrow> ('w, step_result) adapter" where
  "record_and_retire e c =
     seq (on_world (now_of e)) (\<lambda>now.
     seq (on_world (record_residency e (rc_agent c) (rc_to_host c) (Some now) False
         (''relocated from '' @ rc_from_host c))) (\<lambda>_.
     seq get_state (\<lambda>s.
     seq (lift (move_aside_destination (ad_source_dir s) (rc_stamp c))) (\<lambda>retired.
     seq (on_world (move_dir_aside e (rc_source c) (ad_source_dir s) retired)) (\<lambda>moved.
       ret (if moved = Yes then
              step_yes (Fmt ''residency recorded; the source's transcript was moved aside''
                [Txt (rc_to_host c), Txt retired])
            else step_not moved
              (Fmt ''residency recorded, and the source's transcript could not be moved aside''
                [Txt (rc_to_host c), Txt (ad_source_dir s)])
              (Fmt ''move it aside by hand'' [])))))))"

definition finish :: "'w env \<Rightarrow> relocate_config \<Rightarrow> ('w, step_result) adapter" where
  "finish e c =
     seq get_state (\<lambda>s.
       (if ad_arrival_confirmed s \<noteq> Yes then
          ret (step_not No
            (Fmt ''refusing to retire the source: arrival was not confirmed'' [Tri (ad_arrival_confirmed s)])
            (Fmt ''re-run the transport and confirm by byte and line count first'' []))
        else if ad_handshake_confirmed s \<noteq> Yes then
          ret (step_not No
            (Fmt ''refusing to retire the source: the target never proved it can work''
              [Tri (ad_handshake_confirmed s)])
            (Fmt ''complete the handshake first'' []))
        else unless_refused (one_owner_check e c) (record_and_retire e c)))"

subsection \<open>The effects of a relocation\<close>

definition build_effects :: "'w env \<Rightarrow> relocate_config \<Rightarrow> 'w adapters phase_effects" where
  "build_effects e c =
     \<lparr>pe_start_target_standby = Some (start_target_standby e c), pe_handshake = Some (handshake e c),
      pe_drain_source = Some (drain_source e c), pe_hand_over_lease = Some (hand_over_lease e c),
      pe_stop_source = Some (stop_source e c), pe_transport_transcript = Some (transport e c),
      pe_finish = Some (finish e c)\<rparr>"

text \<open>\<open>adapters_for\<close>; the stamp is handed in (the code formats the current time when it is not given).\<close>

definition adapters_for ::
  "'w env \<Rightarrow> string \<Rightarrow> spec \<Rightarrow> string \<Rightarrow> string \<Rightarrow> string option \<Rightarrow> string \<Rightarrow> string \<Rightarrow> relocate_config result" where
  "adapters_for e agent spec from_host to_host local_host spec_path stamp =
     bind_result (shell_for e from_host local_host) (\<lambda>source.
     bind_result (shell_for e to_host local_host) (\<lambda>target.
       Inr \<lparr>rc_agent = agent, rc_spec = spec, rc_from_host = from_host, rc_to_host = to_host,
         rc_source = source, rc_target = target, rc_stamp = stamp,
         rc_local_host = (case local_host of None \<Rightarrow> [] | Some h \<Rightarrow> h), rc_spec_path = spec_path\<rparr>))"

subsection \<open>Every answer is well formed\<close>

lemma holder_to_hand_from_valid:
  "yields (\<lambda>x. case x of Inl res \<Rightarrow> step_result_ok res | Inr _ \<Rightarrow> True) (holder_to_hand_from e c now)"
  unfolding holder_to_hand_from_def Let_def
  by (intro yields_lift yields_any vc)
    (auto simp: step_result_ok_def lease_verdict_ok_def dest!: readiness_valid split: prod.split)

lemma hand_over_lease_valid: "yields step_result_ok (hand_over_lease e c)"
  unfolding hand_over_lease_def
  by (rule yields_any, rule yields_seq [OF yields_on_world [OF holder_to_hand_from_valid]])
    (auto intro!: yields_any vc simp: step_result_ok_def split: sum.split)

lemma one_owner_check_valid: "yields (refused_only step_result_ok) (one_owner_check e c)"
  unfolding one_owner_check_def by (intro vc yields_any) (auto simp: step_result_ok_def)

lemma finish_valid: "yields step_result_ok (finish e c)"
  unfolding finish_def record_and_retire_def
  by (intro yields_any vc one_owner_check_valid) (auto simp: step_result_ok_def)

subsection \<open>What the handover may touch\<close>

text \<open>\<open>R\<close> is also kept by the lease table and by looking at whatever host a lease names.\<close>

definition lease_tame :: "('w \<Rightarrow> 'w \<Rightarrow> bool) \<Rightarrow> 'w env \<Rightarrow> bool" where
  "lease_tame R e \<longleftrightarrow> (\<forall>a. stays R (en_get_lease e a)) \<and> (\<forall>r. stays R (en_put_lease e r)) \<and>
     (\<forall>sh a b. keeps R e sh (Running_Script a b))"

lemma lease_tameD [frame]:
  assumes "lease_tame R e"
  shows "stays R (en_get_lease e a)" and "stays R (en_put_lease e r)" and "keeps R e sh (Running_Script x y)"
  using assms by (auto simp: lease_tame_def)

lemma stays_holder:
  assumes t: "tame R e c" and l: "lease_tame R e"
  shows "stays R (holder_to_hand_from e c now)"
proof -
  note p = tame_preorder [OF t]
  have "stays R (load_lease e a)" and s: "stays R (save_lease e x)" for a x
    using t l p unfolding load_lease_def save_lease_def by (auto intro!: frame)
  moreover have "stays R (recorded_holder_running e c held now)" for held
    using t l p unfolding recorded_holder_running_def by (auto intro!: frame)
  ultimately show ?thesis using t l p unfolding holder_to_hand_from_def Let_def
    by (auto intro!: frame)
qed

lemma stays_handover [frame]:
  assumes t: "tame R e c" and l: "lease_tame R e"
  shows "stays (world_rel R) (hand_over_lease e c)"
proof -
  note p = tame_preorder [OF t]
  have "stays R (load_lease e a)" and s: "stays R (save_lease e x)" for a x
    using t l p unfolding load_lease_def save_lease_def by (auto intro!: frame)
  with t p stays_holder [OF t l] show ?thesis unfolding hand_over_lease_def
    by (auto intro!: frame)
qed

end
