(* ===== verification/Evidence.thy ===== *)
theory Evidence
  imports Adapters_Handover
begin

text \<open>
  What it takes for an effect to say yes (\<open>_relocate_effects*.py\<close>): the observations behind it, as
  calls on the two hosts and the stores, each made on the world the one before left. A completed
  run is read as the \<open>story\<close> of these observations, from the world the command was given.
\<close>

subsection \<open>Worlds reached by calls\<close>

inductive env_call :: "'w env \<Rightarrow> 'w \<Rightarrow> 'w \<Rightarrow> bool" for e where
  "env_call e w (snd (en_exec e argv t w))"
| "env_call e w (snd (en_now e w))"
| "env_call e w (en_sleep e d w)"
| "env_call e w (snd (en_token_hex e n w))"
| "env_call e w (snd (en_get_lease e a w))"
| "env_call e w (snd (en_put_lease e l w))"
| "env_call e w (snd (en_residency_rows e w))"
| "env_call e w (snd (en_put_residency e rs w))"
| "env_call e w (snd (en_journal_rows e w))"
| "env_call e w (snd (en_put_journal e j w))"

abbreviation reach :: "'w env \<Rightarrow> 'w \<Rightarrow> 'w \<Rightarrow> bool" where
  "reach e \<equiv> (env_call e)\<^sup>*\<^sup>*"

lemma preorder_steps [frame]: "preorder R\<^sup>*\<^sup>*"
  by (auto simp: preorder_def)

lemma stays_env_call [frame]:
  "stays (reach e) (en_exec e argv t)" "stays (reach e) (en_get_lease e a)" "stays (reach e) (en_put_lease e l)"
  "stays (reach e) (en_residency_rows e)" "stays (reach e) (en_put_residency e rs)"
  "stays (reach e) (en_journal_rows e)" "stays (reach e) (en_put_journal e j)"
  by (auto simp: stays_def intro: r_into_rtranclp env_call.intros)

lemma tame_reach: "tame (reach e) e c" and lease_tame_reach: "lease_tame (reach e) e"
  unfolding tame_def lease_tame_def keeps_def
  by (auto intro: frame r_into_rtranclp env_call.intros)

lemmas reached = tame_reach lease_tame_reach preorder_steps

lemma stays_store_calls [frame]:
  "stays (reach e) (now_of e)" "stays (reach e) (token_of e k)"
  "stays (reach e) (load_journal e a)" "stays (reach e) (save_journal e r)"
  "stays (reach e) (load_lease e a)" "stays (reach e) (save_lease e l)"
  "stays (reach e) (record_residency e a h t b why)"
  using tameD(1,3) [OF tame_reach] unfolding load_journal_def save_journal_def load_lease_def save_lease_def
    record_residency_def Let_def by (auto intro!: frame tame_reach split: option.splits)

lemma reachedD: "stays (world_rel (reach e)) m \<Longrightarrow> m s = (r, s') \<Longrightarrow> reach e (ad_world s) (ad_world s')"
  by (drule staysD) (simp_all add: world_rel_def)

subsection \<open>Stories\<close>

text \<open>
  \<open>story e Ts w w'\<close>: from \<open>w\<close> to \<open>w'\<close> by calls, on the way and in this order a stretch that is each of
  \<open>Ts\<close>.
\<close>

fun story :: "'w env \<Rightarrow> ('w \<Rightarrow> 'w \<Rightarrow> bool) list \<Rightarrow> 'w \<Rightarrow> 'w \<Rightarrow> bool" where
  "story e [] w w' \<longleftrightarrow> reach e w w'"
| "story e (T # Ts) w w' \<longleftrightarrow> (\<exists>a b. reach e w a \<and> T a b \<and> story e Ts b w')"

lemma story_on: "story e Ts w a \<Longrightarrow> reach e a b \<Longrightarrow> story e Ts w b"
  by (induction Ts arbitrary: w) (simp, force)

lemma story_before: "reach e w0 w \<Longrightarrow> story e Ts w w' \<Longrightarrow> story e Ts w0 w'"
  by (cases Ts) (auto intro: rtranclp_trans)

lemma story_add: "story e Ts w a \<Longrightarrow> reach e a b \<Longrightarrow> T b b' \<Longrightarrow> reach e b' w' \<Longrightarrow> story e (Ts @ [T]) w w'"
proof (induction Ts arbitrary: w)
  case Nil
  then show ?case by (auto intro: rtranclp_trans)
next
  case (Cons S Ts)
  then obtain x y where "reach e w x" "S x y" "story e Ts y a" by auto
  with Cons.IH [OF this(3)] Cons.prems show ?case by auto
qed

subsection \<open>What an effect leaves of the adapters\<close>

definition same :: "('s \<Rightarrow> 'a) \<Rightarrow> 's \<Rightarrow> 's \<Rightarrow> bool" where
  "same f s s' \<longleftrightarrow> f s' = f s"

lemma same_frame [frame]:
  "preorder (same f)"
  "(\<And>s. f (g s) = f s) \<Longrightarrow> stays (same f) (put_state g)"
  by (simp_all add: preorder_def same_def stays_def put_state_def)

lemma same_on_world [frame]:
  "(\<And>s w. f (s\<lparr>ad_world := w\<rparr>) = f s) \<Longrightarrow> stays (same f) (on_world m)"
  by (rule stays_fields) (simp add: same_def)

lemma sameD: "stays (same f) m \<Longrightarrow> m s = (r, s') \<Longrightarrow> f s' = f s"
  by (drule staysD) (simp_all add: same_def)

text \<open>The directories and the arrival a later effect relies on.\<close>

definition arrival_of :: "'w adapters \<Rightarrow> string \<times> string \<times> tri" where
  "arrival_of s = (ad_source_dir s, ad_target_dir s, ad_arrival_confirmed s)"

definition dirs_of :: "'w adapters \<Rightarrow> string \<times> string" where
  "dirs_of s = (ad_source_dir s, ad_target_dir s)"

lemma dirs_kept_in_transport:
  "stays (same dirs_of) (choose_carried_session e c d ns)" "stays (same dirs_of) (prepare_destination e c p d)"
  "stays (same dirs_of) (carry_directories e c d d' ns)" "stays (same dirs_of) (write_provenance e c p d d')"
proof -
  show "stays (same dirs_of) (choose_carried_session e c d ns)"
    unfolding choose_carried_session_def source_marker_def Let_def by (auto intro!: frame simp: dirs_of_def)
  show "stays (same dirs_of) (prepare_destination e c p d)"
    unfolding prepare_destination_def by (auto intro!: frame simp: dirs_of_def)
  have "stays (same dirs_of) (compare_trees e c d before ns)" for d before
    by (induction ns) (auto intro!: frame simp: dirs_of_def Let_def split: option.split)
  then show "stays (same dirs_of) (carry_directories e c d d' ns)"
    unfolding carry_directories_def by (auto intro!: frame simp: dirs_of_def)
  show "stays (same dirs_of) (write_provenance e c p d d')"
    unfolding write_provenance_def Let_def by (auto intro!: frame simp: dirs_of_def)
qed

lemma arrival_kept:
  "stays (same arrival_of) (start_target_standby e c)" "stays (same arrival_of) (handshake e c)"
  "stays (same arrival_of) (hand_over_lease e c)"
  unfolding start_target_standby_def home_there_def carry_spec_def copy_spec_def seed_marker_def
    boot_standby_def handshake_def hand_over_lease_def Let_def
  by (auto intro!: frame simp: arrival_of_def)

subsection \<open>The transport\<close>

abbreviation refuses :: "('s, step_result option) prog \<Rightarrow> bool" where
  "refuses m \<equiv> yields (refused_only (\<lambda>res. sr_ok res \<noteq> Yes)) m"

lemma unless_refused_yes:
  assumes "unless_refused m rest s = (Inr res, s')" and "sr_ok res = Yes" and "refuses m"
  obtains s1 where "m s = (Inr None, s1)" "rest s1 = (Inr res, s')"
proof -
  from assms(1) obtain r s1 where m: "m s = (Inr r, s1)"
    and rest: "(case r of Some res \<Rightarrow> ret res | None \<Rightarrow> rest) s1 = (Inr res, s')"
    unfolding unless_refused_def seq_Inr_iff by blast
  show thesis
    using yieldsD [OF assms(3) m] rest assms(2) m by (intro that [of s1]) (auto simp: ret_def split: option.splits)
qed

lemma transport_steps_refuse:
  "refuses (prepare_destination e c p d)" "refuses (take_snapshot e c d ns)"
  "refuses (choose_carried_session e c d ns)" "refuses (compare_trees e c d before ns)"
  "refuses (carry_directories e c d d' ns)"
proof -
  show "refuses (prepare_destination e c p d)"
    unfolding prepare_destination_def
    by (rule yields_seq [where Q = "refused_only (\<lambda>res. sr_ok res \<noteq> Yes)"]) (auto intro!: vc yields_any)
  show "refuses (take_snapshot e c d ns)" and "refuses (choose_carried_session e c d ns)"
    unfolding take_snapshot_def choose_carried_session_def Let_def by (auto intro!: vc yields_any)
  show t: "refuses (compare_trees e c d before ns)" for d before
    by (induction ns) (auto intro!: vc yields_any simp: Let_def split: option.split)
  show "refuses (carry_directories e c d d' ns)"
    unfolding carry_directories_def by (auto intro!: vc yields_any t)
qed

text \<open>
  What a transport that says yes has seen. The directories were resolved; the plan was made of the
  source's listing, of a source seen stopped; then every file of the plan was measured on the source,
  copied, and measured on the target, one call after the other, and the measures are those of an
  arrival.
\<close>

definition planned_from :: "'w env \<Rightarrow> relocate_config \<Rightarrow> string \<Rightarrow> string \<Rightarrow> transport_plan \<Rightarrow> 'w \<Rightarrow> 'w \<Rightarrow> bool" where
  "planned_from e c src tgt p w w' \<longleftrightarrow> (\<exists>s s1 why listing w1 running y w2 there.
     ad_world s = w \<and> resolve_dirs e c s = (Inr (Some src, Some tgt, why), s1) \<and>
     list_transcript_dir e (rc_source c) src (ad_world s1) = (Inr listing, w1) \<and>
     observe_running e (rc_source c) (rc_agent c) w1 = (Inr (running, y), w2) \<and>
     list_transcript_dir e (rc_target c) tgt w2 = (Inr there, w') \<and>
     plan_transport running listing (map_option (\<lambda>l. l \<noteq> []) there) (Some tgt) (rc_stamp c) = Inr p \<and>
     tp_proceed p = Yes)"

definition measured_alike :: "'w env \<Rightarrow> relocate_config \<Rightarrow> string \<Rightarrow> string \<Rightarrow> string list \<Rightarrow> 'w \<Rightarrow> 'w \<Rightarrow> bool" where
  "measured_alike e c src tgt names w w' \<longleftrightarrow> (\<exists>sent w1 copied w2 landed.
     snapshot_transcripts e (rc_source c) src names w = (Inr sent, w1) \<and>
     set names \<subseteq> tf_name ` set (filter measured sent) \<and>
     copy_transcripts e (rc_source c) src (rc_target c) tgt sent w1 = (Inr copied, w2) \<and>
     measure_transcripts e (rc_target c) tgt names w2 = (Inr landed, w') \<and>
     av_arrived (verify_arrival sent landed) = Yes)"

definition transport_trail :: "'w env \<Rightarrow> relocate_config \<Rightarrow> string \<Rightarrow> string \<Rightarrow> 'w \<Rightarrow> 'w \<Rightarrow> bool" where
  "transport_trail e c src tgt w w' \<longleftrightarrow> (\<exists>p a b.
     planned_from e c src tgt p w a \<and> reach e a b \<and> measured_alike e c src tgt (tp_files p) b w')"

lemma snapshot_taken:
  assumes "take_snapshot e c d ns s = (Inr None, s')"
  shows "\<exists>files w. snapshot_transcripts e (rc_source c) d ns (ad_world s) = (Inr files, w) \<and>
    set ns \<subseteq> tf_name ` set (filter measured files) \<and> s' = s\<lparr>ad_world := w, ad_sent := files\<rparr>"
  using assms
  by (auto simp: take_snapshot_def seq_Inr_iff on_world_Inr put_state_def ret_def Let_def filter_empty_conv
      split: if_splits)

lemma copied_and_verified:
  assumes "copy_and_verify e c d d' ns s = (Inr v, s')" and "av_arrived v = Yes"
  shows "\<exists>copied w2 landed w'. copy_transcripts e (rc_source c) d (rc_target c) d' (ad_sent s) (ad_world s) = (Inr copied, w2) \<and>
    measure_transcripts e (rc_target c) d' ns w2 = (Inr landed, w') \<and>
    av_arrived (verify_arrival (ad_sent s) landed) = Yes \<and> ad_world s' = w' \<and> dirs_of s' = dirs_of s"
  using assms
  by (auto simp: copy_and_verify_def seq_Inr_iff on_world_Inr put_state_def get_state_def ret_def Let_def dirs_of_def)

lemma carry_planned_yes:
  assumes "carry_planned e c p d d' s = (Inr res, s')" and "sr_ok res = Yes"
  shows "\<exists>a b. reach e (ad_world s) a \<and> measured_alike e c d d' (tp_files p) a b \<and> reach e b (ad_world s') \<and>
    dirs_of s' = dirs_of s"
proof -
  let ?s = "s\<lparr>ad_carried := tp_files p\<rparr>"
  note R = reachedD
  note frames = stays_transport_steps [OF tame_reach]
  let ?told = "\<lambda>v. seq (write_provenance e c p d d') (\<lambda>_. ret (step_yes (Fmt ''carried'' ([av_reason v] @
      map (\<lambda>d. Fmt ''/'' [Txt d]) (tp_directories p) @ [Txt (rc_from_host c), Txt d, Txt (rc_to_host c), Txt d']))))"
  let ?landed = "\<lambda>v. unless_refused (carry_directories e c d d' (tp_directories p)) (?told v)"
  let ?copied = "seq (copy_and_verify e c d d' (tp_files p)) (\<lambda>v. (if av_arrived v \<noteq> Yes then
      ret (step_not (av_arrived v) (Fmt ''arrival not confirmed'' [Num (av_code v), av_reason v]) (av_hint v))
    else ?landed v))"
  let ?snapped = "unless_refused (take_snapshot e c d (tp_files p)) ?copied"
  let ?prepared = "unless_refused (prepare_destination e c p d') ?snapped"
  from assms(1) have run: "unless_refused (choose_carried_session e c d (tp_files p)) ?prepared ?s = (Inr res, s')"
    by (simp add: carry_planned_def seq_Inr_iff put_state_def)
  from unless_refused_yes [OF run assms(2) transport_steps_refuse(3)] obtain s1 where
    1: "choose_carried_session e c d (tp_files p) ?s = (Inr None, s1)" and run1: "?prepared s1 = (Inr res, s')" .
  from unless_refused_yes [OF run1 assms(2) transport_steps_refuse(1)] obtain s2 where
    2: "prepare_destination e c p d' s1 = (Inr None, s2)" and run2: "?snapped s2 = (Inr res, s')" .
  from unless_refused_yes [OF run2 assms(2) transport_steps_refuse(2)] obtain s3 where
    3: "take_snapshot e c d (tp_files p) s2 = (Inr None, s3)" and run3: "?copied s3 = (Inr res, s')" .
  from run3 assms(2) obtain v s4 where 4: "copy_and_verify e c d d' (tp_files p) s3 = (Inr v, s4)" "av_arrived v = Yes"
    and run4: "?landed v s4 = (Inr res, s')"
    unfolding seq_Inr_iff by (auto simp: ret_def split: if_splits)
  from unless_refused_yes [OF run4 assms(2) transport_steps_refuse(5)] obtain s5 where
    5: "carry_directories e c d d' (tp_directories p) s4 = (Inr None, s5)" and run5: "?told v s5 = (Inr res, s')" .
  from run5 obtain x where 6: "write_provenance e c p d d' s5 = (Inr x, s')" by (auto simp: seq_Inr_iff ret_def)
  obtain files w where snap: "snapshot_transcripts e (rc_source c) d (tp_files p) (ad_world s2) = (Inr files, w)"
    "set (tp_files p) \<subseteq> tf_name ` set (filter measured files)" "s3 = s2\<lparr>ad_world := w, ad_sent := files\<rparr>"
    using snapshot_taken [OF 3] by blast
  with copied_and_verified [OF 4] have "measured_alike e c d d' (tp_files p) (ad_world s2) (ad_world s4)"
    and d4: "dirs_of s4 = dirs_of s2" unfolding measured_alike_def by (auto simp: dirs_of_def)
  moreover have "reach e (ad_world s) (ad_world s2)"
    using R [OF frames(3) 1] R [OF frames(1) 2] by simp
  moreover have "reach e (ad_world s4) (ad_world s')" using R [OF frames(4) 5] R [OF frames(5) 6] by simp
  moreover have "dirs_of s' = dirs_of s"
    using sameD [OF dirs_kept_in_transport(1) 1] sameD [OF dirs_kept_in_transport(2) 2]
      sameD [OF dirs_kept_in_transport(3) 5] sameD [OF dirs_kept_in_transport(4) 6] d4 by (simp add: dirs_of_def)
  ultimately show ?thesis by blast
qed

lemma transport_yes:
  assumes "transport e c s = (Inr res, s')" and "sr_ok res = Yes"
  shows "\<exists>b. transport_trail e c (ad_source_dir s') (ad_target_dir s') (ad_world s) b \<and> reach e b (ad_world s')"
proof -
  from assms(1) obtain src0 tgt0 why s1 where dirs: "resolve_dirs e c s = (Inr (src0, tgt0, why), s1)"
    by (auto simp: transport_def seq_Inr_iff)
  with assms obtain src tgt where st: "src0 = Some src" "tgt0 = Some tgt"
    by (auto simp: transport_def seq_Inr_iff ret_def split: option.splits)
  let ?s = "\<lambda>w. s1\<lparr>ad_source_dir := src, ad_target_dir := tgt, ad_world := w\<rparr>"
  from assms dirs st obtain listing w1 running y w2 there w3 p where
      plan: "list_transcript_dir e (rc_source c) src (ad_world s1) = (Inr listing, w1)"
        "observe_running e (rc_source c) (rc_agent c) w1 = (Inr (running, y), w2)"
        "list_transcript_dir e (rc_target c) tgt w2 = (Inr there, w3)"
        "plan_transport running listing (map_option (\<lambda>l. l \<noteq> []) there) (Some tgt) (rc_stamp c) = Inr p"
        "tp_proceed p = Yes"
    and run: "carry_planned e c p src tgt (?s w3) = (Inr res, s')"
    by (auto simp: transport_def seq_Inr_iff on_world_Inr put_state_def lift_def ret_def split: if_splits)
  from plan dirs st have "planned_from e c src tgt p (ad_world s) w3" unfolding planned_from_def by blast
  with carry_planned_yes [OF run assms(2)] show ?thesis
    by (auto simp: transport_trail_def dirs_of_def)
qed

lemma other_effects_reach:
  "stays (world_rel (reach e)) (drain_source e c)" "stays (world_rel (reach e)) (stop_source e c)"
  "stays (world_rel (reach e)) (transport e c)" "stays (world_rel (reach e)) (start_target_standby e c)"
  "stays (world_rel (reach e)) (handshake e c)" "stays (world_rel (reach e)) (hand_over_lease e c)"
  by (auto intro!: frame reached)

subsection \<open>The handshake\<close>

text \<open>
  What a handshake that says yes has seen: the name the target answers with, measured apart from the
  agent; the brief with a new nonce accepted; and, in a transcript of the directory the conversation
  was carried to, that nonce and that name.
\<close>

definition handshake_trail :: "'w env \<Rightarrow> relocate_config \<Rightarrow> string \<Rightarrow> 'w \<Rightarrow> 'w \<Rightarrow> bool" where
  "handshake_trail e c tgt w w' \<longleftrightarrow> (\<exists>name w1 nonce w2 sid brief w3.
     target_hostname e (rc_target c) w = (Inr (Some name), w1) \<and>
     token_of e 8 w1 = (Inr nonce, w2) \<and>
     build_arrival_brief (rc_agent c) (rc_from_host c) (rc_to_host c) sid nonce HANDSHAKE_QUESTION
       DEFAULT_HANDOVER_DOC = Inr brief \<and>
     deliver e c brief w2 = (Inr Yes, w3) \<and>
     look_for_reply REPLY_ATTEMPTS True False e c tgt nonce w3 = (Inr (Yes, Some nonce, Some name), w'))"

lemma handshake_yes:
  assumes "handshake e c s = (Inr res, s')" and "sr_ok res = Yes"
  shows "handshake_trail e c (ad_target_dir s) (ad_world s) (ad_world s')"
proof -
  have there: "\<not> (ad_session_uuid s = [] \<or> ad_target_dir s = [])"
    using assms by (auto simp: handshake_def seq_Inr_iff get_state_def ret_def)
  let ?asked = "\<lambda>nonce accepted. (if accepted = Yes then
      seq (on_world (look_for_reply REPLY_ATTEMPTS True False e c (ad_target_dir s) nonce)) (\<lambda>(observed, seen, answer).
        ret \<lparr>hf_challenge_accepted = Yes, hf_reply_observed = observed, hf_observed_by = observer c,
          hf_reply_nonce = seen, hf_reply_answer = answer\<rparr>)
    else ret \<lparr>hf_challenge_accepted = accepted, hf_reply_observed = Unknown, hf_observed_by = empty_msg,
        hf_reply_nonce = None, hf_reply_answer = None\<rparr>)"
  from assms(1) there obtain hostname w1 where host: "target_hostname e (rc_target c) (ad_world s) = (Inr hostname, w1)"
    by (auto simp: handshake_def seq_Inr_iff get_state_def on_world_Inr)
  with assms there obtain name where name: "hostname = Some name"
    by (cases hostname) (auto simp: handshake_def seq_Inr_iff get_state_def on_world_Inr ret_def)
  from assms(1) there host name obtain nonce w2 brief accepted w3 facts s4 verdict where
      nonce: "token_of e 8 w1 = (Inr nonce, w2)"
    and brief: "build_arrival_brief (rc_agent c) (rc_from_host c) (rc_to_host c) (ad_session_uuid s) nonce
      HANDSHAKE_QUESTION DEFAULT_HANDOVER_DOC = Inr brief"
    and sent: "deliver e c brief w2 = (Inr accepted, w3)"
    and asked: "?asked nonce accepted (s\<lparr>ad_world := w3\<rparr>) = (Inr facts, s4)"
    and verdict: "evaluate_handshake facts nonce name = Inr verdict"
    and res: "res = (if hv_proven verdict = Yes then step_yes (hv_reason verdict)
      else step_not (hv_proven verdict) (Fmt ''handshake not proven'' [Num (hv_code verdict), hv_reason verdict])
        (hv_hint verdict))" and s': "s' = s4\<lparr>ad_handshake_confirmed := hv_proven verdict\<rparr>"
    apply (simp add: handshake_def seq_Inr_iff get_state_def on_world_Inr put_state_def lift_def ret_def)
    apply (elim exE conjE)
    subgoal premises p for x s1 w xa xb s1a w' f s4 v
      by (rule that [of x w xa xb w' f s4 v]) (use p(2-) in simp_all)
    done
  from res assms(2) have "hv_proven verdict = Yes" by (auto split: if_splits)
  with handshake_proven_iff [OF verdict] have facts: "hf_challenge_accepted facts = Yes" "hf_reply_observed facts = Yes"
    "hf_reply_nonce facts = Some nonce" "hf_reply_answer facts = Some name" by auto
  have "accepted = Yes"
    using asked facts(1) by (auto simp: seq_Inr_iff ret_def split: if_splits)
  with asked facts have "look_for_reply REPLY_ATTEMPTS True False e c (ad_target_dir s) nonce w3
      = (Inr (Yes, Some nonce, Some name), ad_world s4)"
    by (auto simp: seq_Inr_iff on_world_Inr ret_def)
  with host name nonce brief sent \<open>accepted = Yes\<close> s' show ?thesis unfolding handshake_trail_def by auto
qed

subsection \<open>The handover\<close>

text \<open>
  What a handover that says yes has done: the stored lease was read; the source's lease that it gave
  up was the stored one, or was claimed from the stored one and stored; the lease it was exchanged for was
  stored for the target, one fence higher; and that is what the store then read.
\<close>

definition given_up :: "'w env \<Rightarrow> relocate_config \<Rightarrow> time \<Rightarrow> lease \<Rightarrow> 'w \<Rightarrow> 'w \<Rightarrow> bool" where
  "given_up e c t held w w' \<longleftrightarrow> l_holder held = rc_from_host c \<and> (\<exists>stored w1.
     load_lease e (rc_agent c) w = (Inr stored, w1) \<and>
     (stored = Some held \<and> reach e w1 w' \<or>
      (\<exists>token gone verdict w2. claim stored (rc_agent c) (rc_from_host c) token t LEASE_TTL_S gone = Inr (Some held, verdict) \<and>
         lv_allowed verdict = Yes \<and> reach e w1 w2 \<and> save_lease e held w2 = (Inr (), w'))))"

definition handover_trail :: "'w env \<Rightarrow> relocate_config \<Rightarrow> 'w \<Rightarrow> 'w \<Rightarrow> bool" where
  "handover_trail e c w w' \<longleftrightarrow> (\<exists>t w1 held w2 token w3 moved verdict w4 l.
     now_of e w = (Inr t, w1) \<and> given_up e c t held w1 w2 \<and> token_of e 16 w2 = (Inr token, w3) \<and>
     handoff (Some held) (rc_from_host c) (l_token held) (l_fence held) (rc_to_host c) token t LEASE_TTL_S
       = Inr (Some moved, verdict) \<and> lv_allowed verdict = Yes \<and>
     save_lease e moved w3 = (Inr (), w4) \<and> load_lease e (rc_agent c) w4 = (Inr (Some l), w') \<and>
     l_holder l = rc_to_host c \<and> l_fence l = l_fence moved \<and> l_fence moved = l_fence held + 1)"

lemma handoff_moves:
  "handoff (Some held) h t f h' t' now ttl = Inr (Some m, v) \<Longrightarrow> lv_allowed v = Yes \<Longrightarrow>
     l_holder held = h \<and> l_holder m = h' \<and> l_fence m = l_fence held + 1"
  by (erule handoff_cases) auto

lemma holder_to_hand_from_refuses:
  "yields (\<lambda>x. case x of Inl res \<Rightarrow> sr_ok res \<noteq> Yes | Inr _ \<Rightarrow> True) (holder_to_hand_from e c now)"
  unfolding holder_to_hand_from_def Let_def
  by (intro yields_lift yields_any vc) (auto split: prod.split)

lemma holder_given_up:
  assumes "holder_to_hand_from e c t w = (Inr (Inr (held, note)), w')" and "l_holder held = rc_from_host c"
  shows "given_up e c t held w w'"
proof -
  from assms(1) obtain stored w1 running w2 ready where load: "load_lease e (rc_agent c) w = (Inr stored, w1)"
    and run: "recorded_holder_running e c stored t w1 = (Inr running, w2)"
    and ready: "handoff_readiness stored (rc_from_host c) t running = Inr ready"
    by (auto simp: holder_to_hand_from_def seq_Inr_iff lift_def)
  have yes: "lv_allowed ready = Yes" using assms(1) load run ready
    by (auto simp: holder_to_hand_from_def seq_Inr_iff lift_def ret_def split: if_splits)
  have "stays (reach e) (recorded_holder_running e c stored t)"
    unfolding recorded_holder_running_def by (auto intro!: frame lease_tame_reach)
  from staysD [OF this run] have r: "reach e w1 w2" .
  show ?thesis
  proof (cases "case stored of None \<Rightarrow> False | Some l \<Rightarrow> l_holder l = rc_from_host c")
    case True
    then have "stored = Some held" "w2 = w'" using assms(1) load run ready yes
      by (auto simp: holder_to_hand_from_def seq_Inr_iff lift_def ret_def split: option.splits)
    with load r assms(2) show ?thesis by (auto simp: given_up_def)
  next
    case False
    let ?expired = "case stored of None \<Rightarrow> False | Some l \<Rightarrow> is_expired l t"
    from False assms(1) load run ready yes obtain token w3 granted verdict where
        token: "token_of e 16 w2 = (Inr token, w3)"
      and claim: "claim stored (rc_agent c) (rc_from_host c) token t LEASE_TTL_S (stored \<noteq> None \<and> \<not> ?expired)
        = Inr (granted, verdict)"
      and rest: "lv_allowed verdict = Yes" "granted = Some held" "save_lease e held w3 = (Inr (), w')"
      by (auto simp: holder_to_hand_from_def seq_Inr_iff lift_def ret_def Let_def split: if_splits)
    have "reach e w2 w3" by (rule staysD [where R = "reach e" and m = "token_of e 16", OF _ token]) (rule frame)
    with r have "reach e w1 w3" by simp
    with load claim rest assms(2) show ?thesis unfolding given_up_def by blast
  qed
qed

lemma handover_yes:
  assumes "hand_over_lease e c s = (Inr res, s')" and "sr_ok res = Yes"
  shows "handover_trail e c (ad_world s) (ad_world s')"
proof -
  from assms(1) obtain t w1 found w2 where at: "now_of e (ad_world s) = (Inr t, w1)"
    and found: "holder_to_hand_from e c t w1 = (Inr found, w2)"
    by (auto simp: hand_over_lease_def seq_Inr_iff on_world_Inr)
  obtain held detail where held: "found = Inr (held, detail)"
    using yieldsD [OF holder_to_hand_from_refuses found] assms at found
    by (cases found) (auto simp: hand_over_lease_def seq_Inr_iff on_world_Inr ret_def)
  from assms at found held obtain token w3 moved verdict u w4 l where
      token: "token_of e 16 w2 = (Inr token, w3)"
    and off: "handoff (Some held) (rc_from_host c) (l_token held) (l_fence held) (rc_to_host c) token t LEASE_TTL_S
        = Inr (Some moved, verdict)" "lv_allowed verdict = Yes"
    and saved: "save_lease e moved w3 = (Inr (), w4)" and read: "load_lease e (rc_agent c) w4 = (Inr (Some l), ad_world s')"
    and l: "l_holder l = rc_to_host c" "l_fence l = l_fence moved"
    by (auto simp: hand_over_lease_def seq_Inr_iff on_world_Inr put_state_def lift_def ret_def split: if_splits option.splits)
  from handoff_moves [OF off] have m: "l_holder held = rc_from_host c" "l_fence moved = l_fence held + 1" by auto
  from at holder_given_up [OF found [unfolded held] m(1)] token off saved read l m(2)
  show ?thesis unfolding handover_trail_def by blast
qed

subsection \<open>The finish\<close>

text \<open>
  The world as the finish leaves it, from \<open>w\<close>: the agent was seen running on the target, then not
  seen running on the source, its new residency was recorded and the source's transcripts were
  moved aside.
\<close>

definition finish_trail :: "'w env \<Rightarrow> relocate_config \<Rightarrow> string \<Rightarrow> 'w \<Rightarrow> 'w \<Rightarrow> bool" where
  "finish_trail e c source_dir w w' \<longleftrightarrow> (\<exists>why w1 up why' w2 t w3 new w4 aside.
     observe_running e (rc_target c) (rc_agent c) w = (Inr (Yes, why), w1) \<and>
     observe_running e (rc_source c) (rc_agent c) w1 = (Inr (up, why'), w2) \<and> up \<noteq> Yes \<and>
     now_of e w2 = (Inr t, w3) \<and>
     record_residency e (rc_agent c) (rc_to_host c) (Some t) False (''relocated from '' @ rc_from_host c) w3
       = (Inr new, w4) \<and>
     move_aside_destination source_dir (rc_stamp c) = Inr aside \<and>
     move_dir_aside e (rc_source c) source_dir aside w4 = (Inr Yes, w'))"

lemma one_owner_passes:
  assumes "one_owner_check e c s = (Inr None, s1)"
  shows "\<exists>why w1 up why' w2. observe_running e (rc_target c) (rc_agent c) (ad_world s) = (Inr (Yes, why), w1) \<and>
    observe_running e (rc_source c) (rc_agent c) w1 = (Inr (up, why'), w2) \<and> up \<noteq> Yes \<and> s1 = s\<lparr>ad_world := w2\<rparr>"
  using assms by (simp add: one_owner_check_def seq_Inr_iff on_world_Inr ret_def)
    (fastforce simp: seq_Inr_iff on_world_Inr split: if_splits)

lemma one_owner_refuses: "refuses (one_owner_check e c)"
  unfolding one_owner_check_def by (intro vc yields_any) auto

lemma record_and_retire_yes:
  assumes "record_and_retire e c s = (Inr res, s')" and "sr_ok res = Yes"
  shows "\<exists>t w3 new w4 aside w'. now_of e (ad_world s) = (Inr t, w3) \<and>
    record_residency e (rc_agent c) (rc_to_host c) (Some t) False (''relocated from '' @ rc_from_host c) w3
      = (Inr new, w4) \<and>
    move_aside_destination (ad_source_dir s) (rc_stamp c) = Inr aside \<and>
    move_dir_aside e (rc_source c) (ad_source_dir s) aside w4 = (Inr Yes, w') \<and> s' = s\<lparr>ad_world := w'\<rparr>"
  using assms
  by (auto simp: record_and_retire_def seq_Inr_iff on_world_Inr ret_def get_state_def lift_def split: if_splits)

lemma finish_yes:
  assumes "finish e c s = (Inr res, s')" and "sr_ok res = Yes"
  shows "ad_arrival_confirmed s = Yes" and "ad_handshake_confirmed s = Yes"
    and "finish_trail e c (ad_source_dir s) (ad_world s) (ad_world s')"
    and "s' = s\<lparr>ad_world := ad_world s'\<rparr>"
proof -
  have c: "ad_arrival_confirmed s = Yes \<and> ad_handshake_confirmed s = Yes"
    using assms by (auto simp: finish_def get_state_def seq_def ret_def split: if_splits)
  then show "ad_arrival_confirmed s = Yes" "ad_handshake_confirmed s = Yes" by auto
  from c assms(1) have run: "unless_refused (one_owner_check e c) (record_and_retire e c) s = (Inr res, s')"
    by (simp add: finish_def get_state_def seq_def)
  then obtain o1 s1 where one: "one_owner_check e c s = (Inr o1, s1)"
    and rest: "(case o1 of None \<Rightarrow> record_and_retire e c | Some r \<Rightarrow> ret r) s1 = (Inr res, s')"
    unfolding unless_refused_def seq_Inr_iff by blast
  have none: "o1 = None"
    using yieldsD [OF one_owner_refuses one] rest assms(2) by (auto simp: ret_def split: option.splits)
  with one_owner_passes one obtain why w1 up why' w2
    where t: "observe_running e (rc_target c) (rc_agent c) (ad_world s) = (Inr (Yes, why), w1)"
      "observe_running e (rc_source c) (rc_agent c) w1 = (Inr (up, why'), w2)" "up \<noteq> Yes"
    and s1: "s1 = s\<lparr>ad_world := w2\<rparr>" by blast
  from rest none have "record_and_retire e c s1 = (Inr res, s')" by simp
  from record_and_retire_yes [OF this assms(2)] s1 obtain now w3 new w4 aside w' where
      r: "now_of e w2 = (Inr now, w3)"
      "record_residency e (rc_agent c) (rc_to_host c) (Some now) False (''relocated from '' @ rc_from_host c) w3
         = (Inr new, w4)"
      "move_aside_destination (ad_source_dir s) (rc_stamp c) = Inr aside"
      "move_dir_aside e (rc_source c) (ad_source_dir s) aside w4 = (Inr Yes, w')" "s' = s\<lparr>ad_world := w'\<rparr>"
    by auto
  then show "s' = s\<lparr>ad_world := ad_world s'\<rparr>" by simp
  from t r show "finish_trail e c (ad_source_dir s) (ad_world s) (ad_world s')"
    unfolding finish_trail_def by fastforce
qed

end
