(* ===== verification/Run.thy ===== *)
theory Run
  imports Evidence
begin

text \<open>
  One \<open>sac agents relocate --no-dry-run\<close>, after its preflight (\<open>cli_pkg/_relocate_run.py\<close>): the
  stored journal is resumed or a new one opened, the driver runs the adapters' effects, and the
  journal is stored again. Printing is not modelled. \<open>local_host\<close> is what \<open>_local_host\<close> answers or raises;
  \<open>stamp\<close> is the formatted time at which the adapters are built.
\<close>

abbreviation EXIT_INCOMPLETE :: int where "EXIT_INCOMPLETE \<equiv> 5"
abbreviation EXIT_UNMEASURED :: int where "EXIT_UNMEASURED \<equiv> 6"

text \<open>\<open>except Exception\<close>: a name that cannot be resolved is the empty name.\<close>

fun safe_local :: "string result \<Rightarrow> string result" where
  "safe_local (Inr name) = Inr name"
| "safe_local (Inl (SystemExit n)) = Inl (SystemExit n)"
| "safe_local (Inl _) = Inr []"

definition adapters_clock :: "'w env \<Rightarrow> 'w adapters clock" where
  "adapters_clock e s = (case en_now e (ad_world s) of (t, w) \<Rightarrow> (t, s\<lparr>ad_world := w\<rparr>))"

text \<open>\<open>execute(relocation, effects=build_effects(adapters), now=time.time)\<close> on newly built adapters.\<close>

definition execute_with :: "'w env \<Rightarrow> relocate_config \<Rightarrow> relocation \<Rightarrow> ('w, outcome) prog" where
  "execute_with e c r w =
     (case execute r (build_effects e c) (adapters_clock e) (fresh_adapters w) of
        (out, s) \<Rightarrow> (out, ad_world s))"

definition open_new ::
  "'w env \<Rightarrow> string result \<Rightarrow> string \<Rightarrow> string \<Rightarrow> string \<Rightarrow> ('w, relocation) prog" where
  "open_new e local_host agent from_host to_host =
     seq (now_of e) (\<lambda>t.
     seq (lift (safe_local local_host)) (\<lambda>here.
     seq (lift (begin_relocation agent from_host to_host t
         (Fmt ''opened by sac agents relocate --no-dry-run on'' [Txt here]))) (\<lambda>r.
     seq (save_journal e r) (\<lambda>_. ret r))))"

definition open_or_resume ::
  "'w env \<Rightarrow> string result \<Rightarrow> string \<Rightarrow> string \<Rightarrow> string \<Rightarrow> relocation option \<Rightarrow> ('w, relocation) prog" where
  "open_or_resume e local_host agent from_host to_host stored =
     (case stored of
        Some r \<Rightarrow> (if \<not> is_terminal r then ret r else open_new e local_host agent from_host to_host)
      | None \<Rightarrow> open_new e local_host agent from_host to_host)"

definition run_relocation ::
  "'w env \<Rightarrow> string result \<Rightarrow> string \<Rightarrow> string \<Rightarrow> spec \<Rightarrow> string \<Rightarrow> string \<Rightarrow> string \<Rightarrow> ('w, outcome) prog" where
  "run_relocation e local_host stamp agent spec from_host to_host spec_path =
     seq (load_journal e agent) (\<lambda>stored.
       (if (case stored of None \<Rightarrow> False | Some r \<Rightarrow> r_to_host r \<noteq> to_host)
        then raising (SystemExit EXIT_INCOMPLETE)
        else
          seq (open_or_resume e local_host agent from_host to_host stored) (\<lambda>r.
          seq (lift (safe_local local_host)) (\<lambda>here.
          seq (lift (adapters_for e agent spec from_host to_host (Some here) spec_path stamp)) (\<lambda>c.
          seq (execute_with e c r) (\<lambda>out.
          seq (save_journal e (eo_relocation out)) (\<lambda>_.
            ret out)))))))"

definition exit_code_for :: "outcome \<Rightarrow> int" where
  "exit_code_for out =
     (if eo_completed out = Yes \<and> eo_code out = EXEC_COMPLETED then 0
      else if eo_completed out = Unknown then EXIT_UNMEASURED else EXIT_INCOMPLETE)"

subsection \<open>What a run is read from\<close>

lemma adapters_clock_world:
  "adapters_clock e s = (t, s') \<Longrightarrow> now_of e (ad_world s) = (Inr t, ad_world s') \<and> s' = s\<lparr>ad_world := ad_world s'\<rparr>"
  by (auto simp: adapters_clock_def now_of_def split: prod.splits)

lemma clock_keeps: "adapters_clock e s = (t, s') \<Longrightarrow> arrival_of s' = arrival_of s \<and> dirs_of s' = dirs_of s"
  by (auto simp: adapters_clock_def arrival_of_def dirs_of_def split: prod.splits)

lemma clock_reaches: "adapters_clock e s = (t, s') \<Longrightarrow> reach e (ad_world s) (ad_world s')"
  by (auto simp: adapters_clock_def split: prod.splits) (metis env_call.intros(2) r_into_rtranclp snd_conv)

lemma effects_for_phase: "for_phase (build_effects e c) p = Some f \<longleftrightarrow>
   (p = SOURCE_DRAIN \<and> f = drain_source e c \<or> p = SOURCE_STOP \<and> f = stop_source e c \<or>
    p = TRANSPORT \<and> f = transport e c \<or> p = TARGET_STANDBY \<and> f = start_target_standby e c \<or>
    p = HANDSHAKE \<and> f = handshake e c \<or> p = HANDOVER \<and> f = hand_over_lease e c \<or>
    p = DONE \<and> f = finish e c)"
  by (cases p) (auto simp: build_effects_def)

lemma rank_numbers [simp]: "p \<in> set PHASES \<Longrightarrow> p \<noteq> DONE \<Longrightarrow> rank p \<le> 6"
  by (auto simp: in_PHASES_iff)


subsection \<open>What a completed run shows\<close>

text \<open>What has been observed once a phase is recorded, for the two directories the transport settled on.\<close>

definition trails :: "'w env \<Rightarrow> relocate_config \<Rightarrow> string \<times> string \<Rightarrow> phase \<Rightarrow> ('w \<Rightarrow> 'w \<Rightarrow> bool) list" where
  "trails e c dirs p =
     (if rank TRANSPORT \<le> rank p then [transport_trail e c (fst dirs) (snd dirs)] else []) @
     (if rank HANDSHAKE \<le> rank p then [handshake_trail e c (snd dirs)] else []) @
     (if rank HANDOVER \<le> rank p then [handover_trail e c] else [])"

definition shown_at :: "'w env \<Rightarrow> relocate_config \<Rightarrow> 'w \<Rightarrow> phase \<Rightarrow> 'w adapters \<Rightarrow> bool" where
  "shown_at e c w0 p s \<longleftrightarrow> story e (trails e c (dirs_of s) p) w0 (ad_world s)"

lemma dirs_of_arrival: "arrival_of s' = arrival_of s \<Longrightarrow> dirs_of s' = dirs_of s"
  by (simp add: arrival_of_def dirs_of_def)

lemma shown_step:
  assumes p: "p \<in> set PHASES" "rank p = rank p0 + 1" "p \<noteq> DONE"
    and f: "for_phase (build_effects e c) p = Some f" and run: "f s = (Inr res, s1)"
    and yes: "sr_ok res = Yes" and clock: "adapters_clock e s1 = (t, s2)" and I: "shown_at e c w0 p0 s"
  shows "shown_at e c w0 p s2"
proof -
  have d: "dirs_of s2 = dirs_of s1" using clock_keeps [OF clock] by simp
  note ranks = p(2) [symmetric] and on = clock_reaches [OF clock]
  have same: "arrival_of s1 = arrival_of s" if "stays (same arrival_of) f" using sameD [OF that run] .
  have went: "reach e (ad_world s) (ad_world s2)" if "stays (world_rel (reach e)) f"
    using reachedD [OF that run] on by simp
  consider "p = SOURCE_DRAIN \<or> p = SOURCE_STOP" "stays (world_rel (reach e)) f" | "p = TRANSPORT" "f = transport e c"
    | "p = TARGET_STANDBY" "f = start_target_standby e c" | "p = HANDSHAKE" "f = handshake e c"
    | "p = HANDOVER" "f = hand_over_lease e c"
    using f p(3) other_effects_reach by (auto simp: effects_for_phase)
  then show ?thesis
  proof cases
    case 1
    with I ranks went [OF 1(2)] show ?thesis
      by (auto simp: shown_at_def trails_def intro: rtranclp_trans)
  next
    case 2
    with transport_yes [OF run [unfolded 2(2)] yes] obtain b where
      "transport_trail e c (ad_source_dir s1) (ad_target_dir s1) (ad_world s) b" "reach e b (ad_world s1)" by blast
    with I ranks 2 on d show ?thesis
      by (auto simp: shown_at_def trails_def dirs_of_def intro: rtranclp_trans)
  next
    case 3
    with I ranks went [OF other_effects_reach(4) [of e c, folded 3(2)]]
      dirs_of_arrival [OF same [OF arrival_kept(1) [of e c, folded 3(2)]]] d show ?thesis
      by (auto simp: shown_at_def trails_def intro: rtranclp_trans)
  next
    case 4
    have "dirs_of s1 = dirs_of s" by (rule dirs_of_arrival [OF same]) (simp add: 4 arrival_kept)
    with I ranks 4 on d handshake_yes [OF run [unfolded 4(2)] yes] show ?thesis
      by (auto simp: shown_at_def trails_def dirs_of_def)
  next
    case 5
    have "dirs_of s1 = dirs_of s" by (rule dirs_of_arrival [OF same]) (simp add: 5 arrival_kept)
    then have "trails e c (dirs_of s2) p = trails e c (dirs_of s) p0 @ [handover_trail e c]"
      using ranks d by (simp add: trails_def 5)
    with story_add [where T = "handover_trail e c", OF I [unfolded shown_at_def] rtranclp.rtrancl_refl
      handover_yes [OF run [unfolded 5(2)] yes] on]
    show ?thesis by (simp add: shown_at_def)
  qed
qed

lemma completed_finish:
  assumes "execute r (build_effects e c) (adapters_clock e) s = (Inr out, s')" and "eo_completed out = Yes"
    and "relocation_ok r" and "r_phase r \<noteq> DONE" and "I (r_phase r) s"
    and "\<And>p0 p f s res s1 t s2. p \<in> set PHASES \<Longrightarrow> rank p = rank p0 + 1 \<Longrightarrow> p \<noteq> DONE \<Longrightarrow>
      for_phase (build_effects e c) p = Some f \<Longrightarrow> f s = (Inr res, s1) \<Longrightarrow> sr_ok res = Yes \<Longrightarrow>
      adapters_clock e s1 = (t, s2) \<Longrightarrow> I p0 s \<Longrightarrow> I p s2"
  shows "\<exists>p0 s1 res s2 t'. rank p0 + 1 = rank DONE \<and> I p0 s1 \<and> finish e c s1 = (Inr res, s2) \<and>
    sr_ok res = Yes \<and> adapters_clock e s2 = (t', s')"
proof -
  have "\<exists>p0 f s1 res s2. rank p0 + 1 = rank DONE \<and> I p0 s1 \<and> for_phase (build_effects e c) DONE = Some f \<and>
      f s1 = (Inr res, s2) \<and> sr_ok res = Yes \<and> snd (adapters_clock e s2) = s'"
    using execute_drives(1) [OF assms(1,3)] assms(2-5) by (rule drives_completed) (rule assms(6))
  then show ?thesis unfolding effects_for_phase by (metis phase.distinct prod.collapse)
qed

text \<open>What a completed run of the effects, started before the transport, has behind it.\<close>

definition whole_story :: "'w env \<Rightarrow> relocate_config \<Rightarrow> string \<Rightarrow> string \<Rightarrow> ('w \<Rightarrow> 'w \<Rightarrow> bool) list" where
  "whole_story e c src tgt =
     [transport_trail e c src tgt, handshake_trail e c tgt, handover_trail e c, finish_trail e c src]"

lemma completed_run_is_evidenced:
  assumes "execute r (build_effects e c) (adapters_clock e) s = (Inr out, s')" and "eo_completed out = Yes"
    and "relocation_ok r" and "rank (r_phase r) < rank TRANSPORT"
  shows "\<exists>src tgt. story e (whole_story e c src tgt) (ad_world s) (ad_world s')"
proof -
  have "r_phase r \<noteq> DONE" and "shown_at e c (ad_world s) (r_phase r) s"
    using assms(4) by (auto simp: shown_at_def trails_def)
  with assms(1-3) have "\<exists>p0 s1 res s2 t'. rank p0 + 1 = rank DONE \<and> shown_at e c (ad_world s) p0 s1 \<and>
      finish e c s1 = (Inr res, s2) \<and> sr_ok res = Yes \<and> adapters_clock e s2 = (t', s')"
    by (rule completed_finish) (rule shown_step)
  then obtain p0 s1 res s2 t' where I: "rank p0 = 6" "shown_at e c (ad_world s) p0 s1"
    and fin: "finish e c s1 = (Inr res, s2)" "sr_ok res = Yes" and t': "adapters_clock e s2 = (t', s')" by auto
  from I have "story e (trails e c (dirs_of s1) p0 @ [finish_trail e c (ad_source_dir s1)]) (ad_world s) (ad_world s')"
    unfolding shown_at_def using finish_yes(3) [OF fin] clock_reaches [OF t'] by (blast intro: story_add)
  moreover have "trails e c (dirs_of s1) p0 @ [finish_trail e c (ad_source_dir s1)]
      = whole_story e c (ad_source_dir s1) (ad_target_dir s1)"
    using I(1) by (simp add: trails_def whole_story_def dirs_of_def)
  ultimately show ?thesis by auto
qed

text \<open>Newly built adapters hold no arrival, and no effect after the transport confirms one.\<close>

lemma resumed_incomplete:
  assumes "execute r (build_effects e c) (adapters_clock e) (fresh_adapters w) = (Inr out, s')"
    and "relocation_ok r" and "rank TRANSPORT \<le> rank (r_phase r)" and "r_phase r \<noteq> DONE"
  shows "eo_completed out \<noteq> Yes"
proof
  assume fin: "eo_completed out = Yes"
  let ?I = "\<lambda>p s. rank TRANSPORT \<le> rank p \<and> ad_arrival_confirmed s = Unknown"
  have step: "?I p s2"
    if "p \<in> set PHASES" "rank p = rank p0 + 1" "p \<noteq> DONE" "for_phase (build_effects e c) p = Some f"
      "f s = (Inr res, s1)" "sr_ok res = Yes" "adapters_clock e s1 = (t, s2)" "?I p0 s"
    for p0 p f s res s1 t s2
  proof -
    have "p = TARGET_STANDBY \<or> p = HANDSHAKE \<or> p = HANDOVER"
      using that(1-3,8) by (auto simp: in_PHASES_iff)
    then have "stays (same arrival_of) f"
      using that(4) arrival_kept [of e c] by (auto simp: effects_for_phase)
    then have "arrival_of s1 = arrival_of s" using that(5) by (auto simp: same_def dest!: staysD)
    with clock_keeps [OF that(7)] that(2,8) show ?thesis by (simp add: arrival_of_def)
  qed
  have "?I (r_phase r) (fresh_adapters w)" using assms(3) by (simp add: fresh_adapters_def)
  with assms(1) fin assms(2,4) have "\<exists>p0 s1 res s2 t'. rank p0 + 1 = rank DONE \<and> ?I p0 s1 \<and>
      finish e c s1 = (Inr res, s2) \<and> sr_ok res = Yes \<and> adapters_clock e s2 = (t', s')"
    by (rule completed_finish [where I = ?I]) (rule step)
  then show False using finish_yes(1) by fastforce
qed


text \<open>
  A run resumed at or after the transport cannot complete. The adapters are built anew and
  remember no arrival, the later effects keep it so, and the last one refuses to retire the
  source without it: whatever the hosts answer, no outcome is a completion.
\<close>

theorem resumed_run_never_completes:
  assumes "execute r (build_effects e c) (adapters_clock e) (fresh_adapters w) = (Inr out, s')"
    and "relocation_ok r" and "rank TRANSPORT \<le> rank (r_phase r)" and "r_phase r \<noteq> DONE"
  shows "eo_completed out \<noteq> Yes"
  using assms by (rule resumed_incomplete)

subsection \<open>The command\<close>

lemma load_journal_ok:
  assumes "load_journal e agent w = (Inr (Some r), w')" shows "relocation_ok r"
  using assms
  by (auto simp: load_journal_def relocation_of_row_def Let_def seq_Inr_iff ret_def split: option.splits if_splits)

lemma open_new_ok:
  assumes "open_new e local_host agent from_host to_host w = (Inr r, w')"
  shows "relocation_ok r" and "r_phase r = PREFLIGHT"
  using assms
  by (auto simp: open_new_def seq_Inr_iff lift_def ret_def begin_relocation_def Let_def split: if_splits)

lemma open_or_resume_ok:
  assumes "open_or_resume e local_host agent from_host to_host stored w = (Inr r, w')"
    and "\<And>r. stored = Some r \<Longrightarrow> relocation_ok r"
  shows "relocation_ok r" and "\<not> is_terminal r"
  using assms open_new_ok [of e local_host agent from_host to_host w r w']
  by (auto simp: open_or_resume_def ret_def is_terminal_def split: option.splits if_splits)

lemma execute_with_Inr:
  "execute_with e c r w = (Inr out, w') \<longleftrightarrow> (\<exists>s'. ad_world s' = w' \<and>
     execute r (build_effects e c) (adapters_clock e) (fresh_adapters w) = (Inr out, s'))"
  by (auto simp: execute_with_def split: prod.splits)

text \<open>
  C1: Exit code 0 is earned. If the command returns an outcome whose exit code is 0, then between the
  world it was given and the world it left, for the named agent and the two named hosts and in this
  order: the source's directory was listed, the agent there looked for and a plan made that says
  proceed; every file of the plan was measured on the source, copied and measured on the target, and
  the measures are those of an arrival; the target gave its name, accepted the brief with a new nonce,
  and a transcript of the carried directory showed that nonce and that name; the source's lease, the
  stored one or one claimed from it, was exchanged for one of the target that is a fence higher and was read
  back; the agent was seen running on the target and not seen running on the source, its residency was
  recorded and the source's transcripts were moved aside. Last, the outcome's journal was stored.
\<close>

theorem exit_zero_is_earned:
  assumes "run_relocation e local_host stamp agent spec from_host to_host spec_path w = (Inr out, w')"
    and "exit_code_for out = 0"
  shows "\<exists>here c src tgt w1 n. safe_local local_host = Inr here \<and>
    adapters_for e agent spec from_host to_host (Some here) spec_path stamp = Inr c \<and>
    story e [transport_trail e c src tgt, handshake_trail e c tgt, handover_trail e c, finish_trail e c src] w w1 \<and>
    save_journal e (eo_relocation out) w1 = (Inr n, w')"
proof -
  from assms(2) have fin: "eo_completed out = Yes" by (simp add: exit_code_for_def split: if_splits)
  from assms(1) obtain stored w0 r wr here s' n where
      load: "load_journal e agent w = (Inr stored, w0)"
    and r: "open_or_resume e local_host agent from_host to_host stored w0 = (Inr r, wr)"
    and here: "safe_local local_host = Inr here"
    and c: "\<exists>c. adapters_for e agent spec from_host to_host (Some here) spec_path stamp = Inr c \<and>
      execute r (build_effects e c) (adapters_clock e) (fresh_adapters wr) = (Inr out, s')"
    and save: "save_journal e (eo_relocation out) (ad_world s') = (Inr n, w')"
    by (auto simp: run_relocation_def seq_Inr_iff lift_def ret_def raising_def execute_with_Inr split: if_splits)
  from c obtain c where c: "adapters_for e agent spec from_host to_host (Some here) spec_path stamp = Inr c"
    and run: "execute r (build_effects e c) (adapters_clock e) (fresh_adapters wr) = (Inr out, s')" by blast
  have "relocation_ok q" if "stored = Some q" for q using load that by (auto intro: load_journal_ok)
  with open_or_resume_ok [OF r] have ok: "relocation_ok r" "\<not> is_terminal r" by auto
  have "rank (r_phase r) < rank TRANSPORT"
    using resumed_incomplete [OF run ok(1)] ok(2) fin by (meson is_terminal_def not_le)
  from completed_run_is_evidenced [OF run fin ok(1) this] obtain src tgt where
    told: "story e (whole_story e c src tgt) wr (ad_world s')" by (auto simp: fresh_adapters_def)
  have "stays (reach e) (open_or_resume e local_host agent from_host to_host stored)"
    unfolding open_or_resume_def open_new_def by (auto intro!: frame)
  from staysD [OF stays_store_calls(3) load] staysD [OF this r] have "reach e w wr" by simp
  from story_before [OF this told] here c save show ?thesis unfolding whole_story_def by blast
qed

text \<open>
  A run toward another destination is refused before anything is touched. If the stored
  journal of the agent names another target, even a relocation that ended long ago, the command
  exits with code 5: only the journal was read.
\<close>

theorem other_destination_refused:
  assumes "load_journal e agent w = (Inr (Some r), w')" and "r_to_host r \<noteq> to_host"
  shows "run_relocation e local_host stamp agent spec from_host to_host spec_path w = (Inl (SystemExit EXIT_INCOMPLETE), w')"
  using assms by (simp add: run_relocation_def seq_Inr raising_def)

subsection \<open>What a stopped run left alone\<close>

text \<open>
  What a run that stops at \<open>q\<close> keeps: any relation between worlds that is kept by the passing of time,
  looking at the source and stopping the agent there, any script on the target and the copies
  from the one to the other; and, if it stopped at the handover, by the lease table.
\<close>

lemma stopped_run_keeps:
  assumes "execute r (build_effects e c) (adapters_clock e) s = (Inr out, s')" and "relocation_ok r"
    and "eo_stopped_at out = Some q" and "q \<noteq> DONE" and "tame R e c"
    and "q = HANDOVER \<Longrightarrow> lease_tame R e"
  shows "R (ad_world s) (ad_world s')"
proof -
  note p = tame_preorder [OF assms(5)]
  have stays: "stays (world_rel R) f"
    if f: "for_phase (build_effects e c) p = Some f" and "p \<in> set PHASES" and "rank p \<le> rank q" for p f
  proof -
    have "q \<in> set PHASES"
      using drives_ends [OF execute_drives(1) [OF assms(1,2)] assms(2)] assms(3)
      by (auto simp: ends_as_def)
    with that assms(4) have "p \<noteq> DONE" "p = HANDOVER \<Longrightarrow> q = HANDOVER" by (auto simp: in_PHASES_iff)
    with f assms(5,6) show ?thesis by (auto simp: effects_for_phase intro: frame)
  qed
  have trans: "R x y \<Longrightarrow> R y z \<Longrightarrow> R x z" for x y z using p unfolding preorder_def by blast
  show ?thesis
  proof (rule drives_frame [where Q = "\<lambda>t. R (ad_world s) (ad_world t)",
      OF execute_drives(1) [OF assms(1,2)] assms(2,3)], goal_cases)
    case (1 p f t)
    with stays [of p f] show ?case by (auto simp: stays_def world_rel_def intro: trans)
  next
    case (2 t)
    moreover have "R (ad_world t) (snd (en_now e (ad_world t)))" using assms(5) by (simp add: tame_def)
    ultimately show ?case by (auto simp: adapters_clock_def intro: trans split: prod.splits)
  next
    case 3
    show ?case using p by (simp add: preorder_def)
  qed
qed


text \<open>
  The calls a relocation makes before it finishes. There is no script on the source but those that only
  look and the stop of the agent, no call on the residency table and none on the journal.
\<close>

inductive quiet_call :: "'w env \<Rightarrow> relocate_config \<Rightarrow> bool \<Rightarrow> 'w \<Rightarrow> 'w \<Rightarrow> bool" for e c leases where
  told_time: "quiet_call e c leases w (snd (en_now e w))"
| slept: "quiet_call e c leases w (en_sleep e d w)"
| token_made: "quiet_call e c leases w (snd (en_token_hex e n w))"
| source_looked_at: "looks_only body \<Longrightarrow> command_of e (rc_source c) body = Inr argv \<Longrightarrow>
    quiet_call e c leases w (snd (en_exec e argv t w))"
| source_stopped: "command_of e (rc_source c) (Stop_Script (rc_agent c)) = Inr argv \<Longrightarrow>
    quiet_call e c leases w (snd (en_exec e argv t w))"
| on_target: "command_of e (rc_target c) body = Inr argv \<Longrightarrow> quiet_call e c leases w (snd (en_exec e argv t w))"
| files_copied: "build_copy_argv e (rc_source c) d (rc_target c) d' fs = Inr argv \<Longrightarrow>
    quiet_call e c leases w (snd (en_exec e argv t w))"
| tree_copied: "build_tree_copy_argv e (rc_source c) d (rc_target c) d' ns = Inr argv \<Longrightarrow>
    quiet_call e c leases w (snd (en_exec e argv t w))"
| lease_read: "leases \<Longrightarrow> quiet_call e c leases w (snd (en_get_lease e a w))"
| lease_put: "leases \<Longrightarrow> quiet_call e c leases w (snd (en_put_lease e l w))"
| holder_looked_at: "leases \<Longrightarrow> command_of e sh (Running_Script x y) = Inr argv \<Longrightarrow>
    quiet_call e c leases w (snd (en_exec e argv t w))"

lemma tame_quiet: "tame (quiet_call e c leases)\<^sup>*\<^sup>* e c"
  unfolding tame_def keeps_def stays_def
  by (auto intro: frame r_into_rtranclp quiet_call.intros)

lemma lease_tame_quiet: "lease_tame (quiet_call e c True)\<^sup>*\<^sup>* e"
  unfolding lease_tame_def keeps_def stays_def
  by (auto intro: r_into_rtranclp quiet_call.intros)

text \<open>
  C12: A run of the effects that stops at a phase before the last one left the source alone. The
  world after it is reached from the world before it by these calls only: asking the time, sleeping and
  drawing tokens, scripts on the source that only look and the stop of the agent there, scripts on the
  target, and the copies from the one to the other; and, if it stopped at the handover, reading and
  writing leases and looking at the host a lease names. No script moved a transcript on the source and
  no residency was recorded.
\<close>

theorem stopped_run_left_the_source:
  assumes "execute r (build_effects e c) (adapters_clock e) s = (Inr out, s')" and "relocation_ok r"
    and "eo_stopped_at out = Some q" and "q \<noteq> DONE"
  shows "(quiet_call e c (q = HANDOVER))\<^sup>*\<^sup>* (ad_world s) (ad_world s')"
  by (rule stopped_run_keeps [OF assms tame_quiet]) (simp add: lease_tame_quiet)

text \<open>
  Every effect answers in good form: whatever the hosts and stores answer, a step result an
  effect returns passes its own constructor's checks, so a refusal always says what to do next.
\<close>

theorem effects_answer_well:
  assumes "for_phase (build_effects e c) p = Some f" and "f s = (Inr res, s')"
  shows "step_result_ok res"
proof -
  from assms(1) have "yields step_result_ok f"
    by (auto simp: effects_for_phase drain_source_valid stop_source_valid transport_valid start_target_standby_valid
        handshake_effect_valid hand_over_lease_valid finish_valid)
  with assms(2) show ?thesis by (rule yieldsD [rotated])
qed

subsection \<open>The lease and the owner\<close>

lemma load_lease_ok:
  assumes "load_lease e a w = (Inr (Some l), w')" shows "lease_ok l"
proof -
  obtain row where "lease_of_row a row = Inr (Some l)"
    using assms by (auto simp: load_lease_def seq_Inr_iff lift_def)
  then show ?thesis
    by (auto simp: lease_of_row_def bind_result_Inr_iff mk_lease_Inr_iff split: option.splits if_splits)
qed

lemma handover_outbids:
  assumes "handover_trail e c w w'"
  shows "\<exists>t w1 stored w2 w3 held w4 l. now_of e w = (Inr t, w1) \<and> load_lease e (rc_agent c) w1 = (Inr stored, w2) \<and>
    given_up e c t held w1 w3 \<and> l_holder held = rc_from_host c \<and>
    load_lease e (rc_agent c) w4 = (Inr (Some l), w') \<and> l_holder l = rc_to_host c \<and> l_fence l = l_fence held + 1 \<and>
    (\<forall>old \<in> set_option stored. l_fence old < l_fence l) \<and> lease_ok l"
proof -
  from assms obtain t w1 held w3 w4 l where h: "now_of e w = (Inr t, w1)" "given_up e c t held w1 w3"
      "load_lease e (rc_agent c) w4 = (Inr (Some l), w')" "l_holder l = rc_to_host c" "l_fence l = l_fence held + 1"
    unfolding handover_trail_def by auto
  from h(2) obtain stored w2 where s: "load_lease e (rc_agent c) w1 = (Inr stored, w2)" "l_holder held = rc_from_host c"
    and origin: "stored = Some held \<or> (\<exists>token gone verdict. claim stored (rc_agent c) (rc_from_host c) token t LEASE_TTL_S gone
       = Inr (Some held, verdict) \<and> lv_allowed verdict = Yes)"
    unfolding given_up_def by blast
  have "l_fence old \<le> l_fence held" if "stored = Some old" for old
    using origin that by (auto elim!: claim_cases)
  with h s load_lease_ok [OF h(3)] show ?thesis
    by (intro exI conjI) (assumption | fastforce)+
qed

text \<open>
  C4: Once the handover has said yes the source is locked out for good. Between the world it started in
  and the world it left, the stored lease was read, the source's lease was that one or one claimed from it
  and stored, and the lease of the target that was stored and read back is a fence above both. Under
  any sequence of claims, renewals and handoffs that follows, no credential with a lower fence than the
  one read back may write, whatever its token and whatever the clock reads.
\<close>

theorem handover_fences_source:
  assumes "hand_over_lease e c s = (Inr res, s')" and "sr_ok res = Yes"
  shows "\<exists>t w1 stored w2 w3 held w4 l. now_of e (ad_world s) = (Inr t, w1) \<and>
    load_lease e (rc_agent c) w1 = (Inr stored, w2) \<and> given_up e c t held w1 w3 \<and>
    load_lease e (rc_agent c) w4 = (Inr (Some l), ad_world s') \<and> l_holder l = rc_to_host c \<and>
    l_fence l = l_fence held + 1 \<and> (\<forall>old \<in> set_option stored. l_fence old < l_fence l) \<and>
    (\<forall>f < l_fence l. \<forall>ops now host token. \<not> may_write (fold lease_step ops (Some l)) now (host, token, f))"
proof -
  from handover_outbids [OF handover_yes [OF assms]] obtain t w1 stored w2 w3 held w4 l where
    h: "now_of e (ad_world s) = (Inr t, w1)" "load_lease e (rc_agent c) w1 = (Inr stored, w2)"
      "given_up e c t held w1 w3" "load_lease e (rc_agent c) w4 = (Inr (Some l), ad_world s')"
      "l_holder l = rc_to_host c" "l_fence l = l_fence held + 1" "\<forall>old \<in> set_option stored. l_fence old < l_fence l"
      "lease_ok l" by blast
  have "\<not> may_write (fold lease_step ops (Some l)) now (host, token, f)" if "f < l_fence l" for f ops now host token
    using h(8) that by (intro lease_store.superseded_refused) (simp_all add: store_defs)
  with h show ?thesis by blast
qed

text \<open>
  The source's own lease, once expired, cannot be handed over. The readiness verdict lets it
  through, since an expired lease binds nobody, and the handoff that follows refuses it because
  it is expired: the relocation stops at its handover, and re-running it does not help.
\<close>

theorem expired_lease_is_not_handed_over:
  assumes "now_of e (ad_world s) = (Inr t, w)" and "load_lease e (rc_agent c) w = (Inr (Some l), w1)"
    and "l_holder l = rc_from_host c" and "is_expired l t" and "rc_from_host c \<noteq> []"
  shows "(\<exists>v. handoff_readiness (Some l) (rc_from_host c) t Unknown = Inr v \<and> lv_allowed v = Yes) \<and>
    (\<exists>res s'. hand_over_lease e c s = (Inr res, s') \<and> sr_ok res = No)"
proof -
  obtain v where v: "handoff_readiness (Some l) (rc_from_host c) t Unknown = Inr v"
    using readiness_returns [OF assms(5)] by blast
  then have yes: "lv_allowed v = Yes" using readiness_yes_iff [OF v] assms(3) by simp
  have "recorded_holder_running e c (Some l) t w1 = (Inr Unknown, w1)"
    using assms(3) by (simp add: recorded_holder_running_def ret_def)
  then have found: "holder_to_hand_from e c t w = (Inr (Inr (l, empty_msg)), w1)"
    using v yes assms(2,3) by (simp add: holder_to_hand_from_def seq_def lift_def ret_def)
  obtain token w2 where "en_token_hex e 16 w1 = (token, w2)" by fastforce
  then have "token_of e 16 w1 = (Inr token, w2)" by (simp add: token_of_def)
  moreover obtain x where "handoff (Some l) (rc_from_host c) (l_token l) (l_fence l) (rc_to_host c) token t LEASE_TTL_S
      = Inr x" "lv_allowed (snd x) = No"
    using assms(3,4) by (simp add: handoff_def held_by_def)
  ultimately show ?thesis using v yes found assms(1)
    by (cases x) (auto simp: hand_over_lease_def seq_def on_world_def lift_def ret_def)
qed

text \<open>
  The last look at the two hosts asks for a running target and a source that is not seen
  running: it lets the relocation finish exactly then. A source whose liveness could not be
  measured is let through.
\<close>

theorem one_owner_check_passes_iff:
  assumes "observe_running e (rc_target c) (rc_agent c) (ad_world s) = (Inr (up, why), w1)"
    and "observe_running e (rc_source c) (rc_agent c) w1 = (Inr (still, why'), w2)"
  shows "one_owner_check e c s = (Inr None, s\<lparr>ad_world := w2\<rparr>) \<longleftrightarrow> up = Yes \<and> still \<noteq> Yes"
  using assms by (simp add: one_owner_check_def seq_def on_world_def ret_def)

end
