(* ===== verification/Run_Demo.thy ===== *)
theory Run_Demo
  imports Run
begin

text \<open>
  A relocation evaluated from end to end: the world is a store and whether the agent runs on the target,
  and every command the adapters send is answered as the scripts under
  \<open>_relocate_*_ssh.py\<close> would print it. It shows that the properties of \<open>Run\<close> are not about runs
  that do not exist, and it is their witness.
\<close>

subsection \<open>The two hosts\<close>

definition demo_spec :: spec where
  "demo_spec = [(''spec'', YDict [(''workdir'', YStr ''/w''),
     (''apptainer'', YDict [(''binds'', YList [YStr ''/d/.claude:/home/agent/.claude''])])])]"

definition sampled :: string where "sampled = ''s.jsonl'' @ [CHR 0x09] @ ''5'' @ [CHR 0x09] @ ''9''"
definition counted :: string where "counted = ''s.jsonl'' @ [CHR 0x09] @ ''5'' @ [CHR 0x09] @ ''1''"
definition entry_line :: string where "entry_line = ''spec.yaml'' @ [CHR 0x09] @ ''3''"

fun demo_source :: "script \<Rightarrow> string" where
  "demo_source (Running_Script _ _) = ''TX-RUN=no''"
| "demo_source (Readlink_Script p) = ''TX-PATH='' @ p"
| "demo_source (Sample_Script _) = ''TX-QDIR=yes'' @ [CHR 0x0A] @ ''TX-QUIET='' @ sampled"
| "demo_source (List_Script _) = ''TX-DIR=yes'' @ [CHR 0x0A] @ ''TX-ENTRY=s.jsonl''"
| "demo_source Home_Script = ''TX-HOME=/h''"
| "demo_source (Read_Marker_Script _) = ''TX-SID='' @ SID_ABSENT"
| "demo_source (Snapshot_Script _ _) = ''TX-FILE='' @ counted"
| "demo_source (Tree_Script _) = ''TX-HOME=yes'' @ [CHR 0x0A] @ ''TX-TREE='' @ entry_line"
| "demo_source _ = ''TX-MOVED=yes''"

fun demo_target :: "bool \<Rightarrow> script \<Rightarrow> string" where
  "demo_target up (Running_Script _ _) = (if up then ''TX-RUN=yes'' else ''TX-RUN=no'')"
| "demo_target up (Readlink_Script p) = ''TX-PATH='' @ p"
| "demo_target up (List_Script _) = ''TX-DIR=no''"
| "demo_target up (Mkdir_Script _) = ''TX-DIR=yes''"
| "demo_target up (Measure_Script _ _) = ''TX-FILE='' @ counted"
| "demo_target up Home_Script = ''TX-HOME=/h''"
| "demo_target up (Tree_Script _) = ''TX-HOME=yes'' @ [CHR 0x0A] @ ''TX-TREE='' @ entry_line"
| "demo_target up (Read_Marker_Script _) = ''TX-SID='' @ SID_ABSENT"
| "demo_target up (Write_Marker_Script _ uuid) = ''TX-SID='' @ uuid"
| "demo_target up Hostname_Script = ''TX-HOSTNAME=b''"
| "demo_target up (Search_Script _ nonce) = ''TX-HOME=yes'' @ [CHR 0x0A] @ ''TX-MATCH=nonce='' @ nonce @ '', answer=b ok''"
| "demo_target up _ = ''TX-MOVED=yes''"

fun demo_body :: "arg list \<Rightarrow> script option" where
  "demo_body [] = None"
| "demo_body [Body _ body] = Some body"
| "demo_body (_ # args) = demo_body args"

type_synonym demo_world = "mem_store \<times> bool"

definition demo_answer :: "string \<Rightarrow> host_body option" where
  "demo_answer out = Some \<lparr>hb_timed_out = False, hb_exit_code = Some 0, hb_stdout = out, hb_stderr = []\<rparr>"

definition demo_exec :: "arg list \<Rightarrow> time \<Rightarrow> (demo_world, host_body option) prog" where
  "demo_exec argv t w = (case (argv, demo_body argv) of
     (Word p # _, Some body) \<Rightarrow>
       (if p = ''sh'' then (Inr (demo_answer (demo_source body)), w)
        else (Inr (demo_answer (demo_target (snd w) body)), (fst w, snd w \<or> (case body of Start_Script _ _ \<Rightarrow> True | _ \<Rightarrow> False))))
   | _ \<Rightarrow> (Inr (demo_answer []), w))"

definition demo_run_env :: "demo_world env" where
  "demo_run_env = \<lparr>en_exec = demo_exec, en_now = (\<lambda>w. (100, w)), en_sleep = (\<lambda>d w. w),
     en_token_hex = (\<lambda>n w. (''zz'', w)), en_peer = (\<lambda>h. None),
     en_get_lease = (\<lambda>a w. (Inr (ms_leases (fst w) a), w)),
     en_put_lease = (\<lambda>r w. (Inr (), ((fst w)\<lparr>ms_leases := (ms_leases (fst w))(lr_agent r \<mapsto> r)\<rparr>, snd w))),
     en_residency_rows = (\<lambda>w. (Inr (ms_stays (fst w)), w)),
     en_put_residency = (\<lambda>rs w. (Inr (), ((fst w)\<lparr>ms_stays := fold mem_put_stay rs (ms_stays (fst w))\<rparr>, snd w))),
     en_journal_rows = (\<lambda>w. (Inr (ms_journals (fst w)), w)),
     en_put_journal = (\<lambda>r w. (Inr (), ((fst w)\<lparr>ms_journals := r # filter (\<lambda>q. (jr_agent q, jr_attempt q)
        \<noteq> (jr_agent r, jr_attempt r)) (ms_journals (fst w))\<rparr>, snd w)))\<rparr>"


subsection \<open>Running a computation by rewriting\<close>

definition demo_a :: shell where
  "demo_a = \<lparr>sh_host = ''a'', sh_is_local = True, sh_preamble = [], sh_timeout = SHELL_TIMEOUT_S\<rparr>"

definition demo_b :: shell where
  "demo_b = \<lparr>sh_host = ''b'', sh_is_local = False, sh_preamble = [], sh_timeout = SHELL_TIMEOUT_S\<rparr>"

definition demo_config :: relocate_config where
  "demo_config = \<lparr>rc_agent = ''x'', rc_spec = demo_spec, rc_from_host = ''a'', rc_to_host = ''b'',
     rc_source = demo_a, rc_target = demo_b, rc_stamp = ''t'', rc_local_host = ''a'',
     rc_spec_path = ''/g/x/spec.yaml''\<rparr>"

lemma demo_config_simps [simp]:
  "rc_agent demo_config = ''x''" "rc_spec demo_config = demo_spec" "rc_from_host demo_config = ''a''"
  "rc_to_host demo_config = ''b''" "rc_source demo_config = demo_a" "rc_target demo_config = demo_b"
  "rc_stamp demo_config = ''t''" "rc_local_host demo_config = ''a''" "rc_spec_path demo_config = ''/g/x/spec.yaml''"
  "sh_host demo_a = ''a''" "sh_host demo_b = ''b''" "sh_is_local demo_a" "\<not> sh_is_local demo_b"
  by (simp_all add: demo_config_def demo_a_def demo_b_def)

definition then_run :: "(py_error + 'a) \<times> 's \<Rightarrow> ('a \<Rightarrow> ('s, 'b) prog) \<Rightarrow> (py_error + 'b) \<times> 's" where
  "then_run r f = (case r of (Inl e, s) \<Rightarrow> (Inl e, s) | (Inr x, s) \<Rightarrow> f x s)"

definition world_run :: "(py_error + 'a) \<times> 'w \<Rightarrow> 'w adapters \<Rightarrow> (py_error + 'a) \<times> 'w adapters" where
  "world_run r s = (case r of (x, w) \<Rightarrow> (x, s\<lparr>ad_world := w\<rparr>))"

lemma run_rules:
  "seq m f s = then_run (m s) f" "then_run (Inr x, s) f = f x s" "then_run (Inl err, s) f = (Inl err, s)"
  "ret x s = (Inr x, s)" "lift q s = (q, s)" "get_state s = (Inr s, s)" "put_state g s = (Inr (), g s)"
  "on_world n a = world_run (n (ad_world a)) a" "world_run (z, w) a = (z, a\<lparr>ad_world := w\<rparr>)"
  by (simp_all add: seq_def then_run_def on_world_def world_run_def prog)

lemma run_cong: "r = r' \<Longrightarrow> then_run r f = then_run r' f" by simp
lemma seq_lazy: "s = s' \<Longrightarrow> seq m f s = seq m f s'" by simp

lemma demo_source_run:
  "run_for demo_run_env demo_a body t w =
    (Inr \<lparr>rr_stdout = demo_source body, rr_stderr = [], rr_exit_code = 0\<rparr>, w)"
  by (simp add: run_for_def demo_a_def shell_script_def run_argv_on_host_def demo_run_env_def demo_exec_def demo_answer_def read_body_def)

lemma demo_target_run:
  "run_for demo_run_env demo_b body t w =
    (Inr \<lparr>rr_stdout = demo_target (snd w) body, rr_stderr = [], rr_exit_code = 0\<rparr>,
     (fst w, snd w \<or> (case body of Start_Script _ _ \<Rightarrow> True | _ \<Rightarrow> False)))"
  by (simp add: run_for_def demo_b_def shell_script_def run_probe_script_def build_probe_argv_def seq_def lift_def
     demo_run_env_def demo_exec_def demo_answer_def read_body_def)

definition said :: "string \<Rightarrow> remote_run" where
  "said out = \<lparr>rr_stdout = out, rr_stderr = [], rr_exit_code = 0\<rparr>"

lemma demo_runs:
  "run_for demo_run_env demo_a body t w = (Inr (said (demo_source body)), w)"
  "run_for demo_run_env demo_b body t w = (Inr (said (demo_target (snd w) body)),
     (fst w, snd w \<or> (case body of Start_Script _ _ \<Rightarrow> True | _ \<Rightarrow> False)))"
  by (simp_all add: said_def demo_source_run demo_target_run)

lemma demo_marks:
  "marked (said ''TX-RUN=no'') ''TX-RUN='' = [''no'']"
  "marked (said ''TX-RUN=yes'') ''TX-RUN='' = [''yes'']"
  "marked (said ''TX-PATH=/w'') ''TX-PATH='' = [''/w'']"
  "marked (said (demo_source (Sample_Script d))) ''TX-QDIR='' = [''yes'']"
  "marked (said (demo_source (Sample_Script d))) ''TX-QUIET='' = [sampled]"
  "marked (said (demo_source (List_Script d))) ''TX-DIR='' = [''yes'']"
  "marked (said (demo_source (List_Script d))) ''TX-ENTRY='' = [''s.jsonl'']"
  "marked (said ''TX-HOME=/h'') ''TX-HOME='' = [''/h'']"
  "marked (said ''TX-SID=(absent)'') ''TX-SID='' = [SID_ABSENT]"
  "marked (said ''TX-SID=s'') ''TX-SID='' = [''s'']"
  "marked (said (demo_source (Snapshot_Script d ns))) ''TX-FILE='' = [counted]"
  "marked (said (demo_source (Tree_Script d))) ''TX-HOME='' = [''yes'']"
  "marked (said (demo_source (Tree_Script d))) ''TX-TREE='' = [entry_line]"
  "marked (said ''TX-MOVED=yes'') ''TX-MOVED='' = [''yes'']"
  "marked (said ''TX-DIR=no'') ''TX-DIR='' = [''no'']"
  "marked (said ''TX-MOVED=yes'') ''TX-SID='' = []"
  "marked (said ''TX-DIR=yes'') ''TX-DIR='' = [''yes'']"
  "marked (said ''TX-HOSTNAME=b'') ''TX-HOSTNAME='' = [''b'']"
  "marked (said (demo_target u (Search_Script d ''zz''))) ''TX-HOME='' = [''yes'']"
  "marked (said (demo_target u (Search_Script d ''zz''))) ''TX-MATCH='' = [''nonce=zz, answer=b ok'']"
  by code_simp+

lemma demo_same:
  "demo_target u (Measure_Script d ns) = demo_source (Snapshot_Script d ns)"
  "demo_target u (Tree_Script d) = demo_source (Tree_Script d)"
  by simp_all

declare demo_source.simps(3,4,7,8) [simp del] demo_target.simps(5,7,11) [simp del]

lemmas eval = run_rules demo_runs demo_marks one_marked_def or_none_def strip_def is_space_def rstrip_char_def
lemma quick_home: "transcript_home_from_spec demo_spec None = 
   \<lparr>th_path = Some ''/d'', th_code = TH_FROM_BIND, th_reason = Fmt ''the spec binds'' [Txt ''/d/.claude:/home/agent/.claude'', Txt ''/d''], th_hint = empty_msg\<rparr>"
  by code_simp
lemma quick_workdir: "workdir_of demo_spec = ''/w''" by code_simp

lemma demo_lines:
  "sample_line sampled = [\<lparr>fs_name = ''s.jsonl'', fs_byte_count = Some 5, fs_mtime = Some ''9''\<rparr>]"
  "measurement counted = Inr [\<lparr>tf_name = ''s.jsonl'', tf_byte_count = Some 5, tf_line_count = Some 1\<rparr>]"
  "tree_entry entry_line = [(''spec.yaml'', Some 3)]"
  by code_simp+

lemma demo_asks:
  "observe_running demo_run_env demo_a ''x'' w = (Inr (No, Fmt ''tmux answered and has NO session'' [Txt ''a'', Txt ''x'']), w)"
  "observe_running demo_run_env demo_b ''x'' w = (Inr (if snd w then Yes else No, Fmt (if snd w then ''tmux has the session'' else ''tmux answered and has NO session'') [Txt ''b'', Txt ''x'']), w)"
  "resolved_path demo_run_env demo_a ''/w'' w = (Inr (Some ''/w''), w)"
  "resolved_path demo_run_env demo_b ''/w'' w = (Inr (Some ''/w''), w)"
  "sample_transcripts demo_run_env demo_a d w = (Inr (Some [\<lparr>fs_name = ''s.jsonl'', fs_byte_count = Some 5, fs_mtime = Some ''9''\<rparr>]), w)"
  "list_transcript_dir demo_run_env demo_a d w = (Inr (Some [''s.jsonl'']), w)"
  "list_transcript_dir demo_run_env demo_b d w = (Inr (Some []), w)"
  "target_home demo_run_env demo_a w = (Inr (Some ''/h''), w)"
  "target_home demo_run_env demo_b w = (Inr (Some ''/h''), w)"
  "read_session_marker demo_run_env demo_a d w = (Inr (Some SID_ABSENT), w)"
  "read_session_marker demo_run_env demo_b d w = (Inr (Some SID_ABSENT), w)"
  "write_session_marker demo_run_env demo_b d ''s'' w = (Inr (Some ''s''), w)"
  "snapshot_transcripts demo_run_env demo_a d [''s.jsonl''] w = (Inr [\<lparr>tf_name = ''s.jsonl'', tf_byte_count = Some 5, tf_line_count = Some 1\<rparr>], w)"
  "measure_transcripts demo_run_env demo_b d [''s.jsonl''] w = (Inr [\<lparr>tf_name = ''s.jsonl'', tf_byte_count = Some 5, tf_line_count = Some 1\<rparr>], w)"
  "list_tree demo_run_env demo_a d w = (Inr (Some [(''spec.yaml'', Some 3)]), w)"
  "list_tree demo_run_env demo_b d w = (Inr (Some [(''spec.yaml'', Some 3)]), w)"
  "ensure_dir demo_run_env demo_b d w = (Inr Yes, w)"
  "d' \<noteq> [] \<Longrightarrow> move_dir_aside demo_run_env demo_a d d' w = (Inr Yes, w)"
  "d' \<noteq> [] \<Longrightarrow> move_dir_aside demo_run_env demo_b d d' w = (Inr Yes, w)"
  "target_hostname demo_run_env demo_b w = (Inr (Some ''b''), w)"
  "search_transcripts demo_run_env demo_b d ''zz'' w = (Inr (Some [''nonce=zz, answer=b ok'']), w)"
  by (simp_all add: observe_running_def candidate_session_names_def starts_with_def interpret_liveness_def resolved_path_def
      sample_transcripts_def list_transcript_dir_def target_home_def read_session_marker_def write_session_marker_def
      snapshot_transcripts_def measure_transcripts_def list_tree_def ensure_dir_def move_dir_aside_def target_hostname_def
      search_transcripts_def parse_measurements_def demo_lines demo_same tree_clash_def eval cong: seq_lazy run_cong)

lemma demo_time:
  "now_of demo_run_env w = (Inr 100, w)" "sleep_for demo_run_env d w = (Inr (), w)"
  "token_of demo_run_env n w = (Inr ''zz'', w)"
  by (simp_all add: now_of_def sleep_for_def token_of_def demo_run_env_def)

lemma demo_drain: "\<exists>m. drain_source demo_run_env demo_config s = (Inr (step_yes m), s)"
  by (simp add: drain_source_def run_rules demo_asks cong: seq_lazy run_cong)

lemma demo_dir: "source_transcript_dir demo_run_env demo_config s = 
   (Inr (Some ''/d/.claude/projects/-w'', Some ''-w'', Fmt ''the target's runner will read'' [Txt ''/d/.claude/projects/-w'']), s)"
proof -
  have "derive_target_dir (Some ''/d'') (Some ''/w'') None = \<lparr>td_path = Some ''/d/.claude/projects/-w'', td_code = DIR_DERIVED,
    td_reason = Fmt ''the target's runner will read'' [Txt ''/d/.claude/projects/-w''],
    td_encoded = Some ''-w'', td_matches_source = None, td_hint = empty_msg\<rparr>" by code_simp
  then show ?thesis
    by (simp add: source_transcript_dir_def quick_home quick_workdir run_rules demo_asks Let_def cong: seq_lazy run_cong)
qed

lemma demo_quiet: "\<exists>m. await_quiescence demo_run_env demo_a d w = (Inr \<lparr>qu_settled = Yes, qu_detail = m, qu_hint = empty_msg\<rparr>, w)"
  by (simp add: await_quiescence_def QUIESCENCE_ROUNDS_def numeral_eq_Suc run_rules demo_asks demo_time unmeasured_def settled_def cong: seq_lazy run_cong)

lemma demo_stop: "\<exists>m. stop_source demo_run_env demo_config s = (Inr (step_yes m), s)"
proof -
  obtain m where q: "await_quiescence demo_run_env demo_a ''/d/.claude/projects/-w'' (ad_world s) = (Inr \<lparr>qu_settled = Yes, qu_detail = m, qu_hint = empty_msg\<rparr>, ad_world s)"
    using demo_quiet by blast
  then show ?thesis
    by (simp add: stop_source_def quiesced_def run_rules demo_asks demo_dir cong: seq_lazy run_cong)
qed


lemma demo_plan: "\<exists>r. plan_transport No (Some [''s.jsonl'']) No (Some ''/d/.claude/projects/-w'') ''t'' = Inr
   \<lparr>tp_proceed = Yes, tp_code = TP_READY, tp_reason = r, tp_files = [''s.jsonl''], tp_directories = [], tp_refused = [],
     tp_move_aside = Some \<lparr>ma_required = No, ma_destination = None, ma_reason = Txt ''the destination is empty; nothing to preserve''\<rparr>, tp_hint = empty_msg\<rparr>"
proof -
  have "select_transferable [''s.jsonl''] = ([''s.jsonl''], [], [])" by code_simp
  then show ?thesis by (simp add: plan_transport_def)
qed

lemma demo_choice: "sc_session (choose_session ''x'' [''s.jsonl''] (Some []) t) = Some ''s''"
proof -
  have "session_id_for ''s.jsonl'' = ''s''" by code_simp
  then show ?thesis by (simp add: choose_session_def chosen_def)
qed

abbreviation demo_file :: transcript_file where
  "demo_file \<equiv> \<lparr>tf_name = ''s.jsonl'', tf_byte_count = Some 5, tf_line_count = Some 1\<rparr>"

lemma demo_verify: "av_arrived (verify_arrival [demo_file] [demo_file]) = Yes"
  by code_simp

lemma demo_copy: "copy_transcripts demo_run_env demo_a d demo_b d' [demo_file] w = (Inr (said []), w)"
  by (simp add: copy_transcripts_def build_copy_argv_def refuse_bad_snapshots_def bare_name_def CREDENTIAL_BASENAMES_def copy_stage_def
    build_probe_argv_def demo_run_env_def Let_def run_rules run_argv_on_host_def demo_exec_def demo_answer_def read_body_def said_def cong: seq_lazy run_cong)

lemma demo_write: "write_text_file demo_run_env demo_b p t w = (Inr None, w)"
  by (simp add: write_text_file_def eval cong: seq_lazy run_cong)

lemma demo_mtime: "mtime_of \<lparr>fs_name = ''s.jsonl'', fs_byte_count = Some 5, fs_mtime = Some ''9''\<rparr> = Inr [(''s.jsonl'', 9)]"
  by code_simp

lemmas steps = run_rules demo_asks demo_time

lemma demo_carried: "choose_carried_session demo_run_env demo_config d [''s.jsonl''] s = (Inr None, s\<lparr>ad_session_uuid := ''s''\<rparr>)"
  by (simp add: choose_carried_session_def source_marker_def state_dir_in_def steps demo_mtime demo_choice cong: seq_lazy run_cong)

lemma demo_snapshot: "take_snapshot demo_run_env demo_config d [''s.jsonl''] s = (Inr None, s\<lparr>ad_sent := [demo_file]\<rparr>)"
proof -
  have "measured demo_file" and "''s.jsonl'' \<in> tf_name ` {demo_file}" by (simp_all add: measured_def)
  then show ?thesis by (simp add: take_snapshot_def steps cong: seq_lazy run_cong)
qed

lemma demo_transport:
  "\<exists>m s'. transport demo_run_env demo_config s = (Inr (step_yes m), s') \<and> ad_world s' = ad_world s \<and>
     ad_session_uuid s' = ''s'' \<and> ad_source_dir s' = ''/d/.claude/projects/-w'' \<and> ad_target_dir s' = ''/d/.claude/projects/-w'' \<and>
     ad_arrival_confirmed s' = Yes \<and> ad_target_ssh_home s' = ad_target_ssh_home s"
proof -
  obtain r where p: "plan_transport No (Some [''s.jsonl'']) No (Some ''/d/.claude/projects/-w'') ''t'' = Inr
   \<lparr>tp_proceed = Yes, tp_code = TP_READY, tp_reason = r, tp_files = [''s.jsonl''], tp_directories = [], tp_refused = [],
     tp_move_aside = Some \<lparr>ma_required = No, ma_destination = None, ma_reason = Txt ''the destination is empty; nothing to preserve''\<rparr>, tp_hint = empty_msg\<rparr>"
    using demo_plan by blast
  have d: "derive_target_dir (Some ''/d'') (Some ''/w'') (Some ''-w'') = \<lparr>td_path = Some ''/d/.claude/projects/-w'', td_code = DIR_DERIVED,
    td_reason = Fmt ''the target's runner will read'' [Txt ''/d/.claude/projects/-w''],
    td_encoded = Some ''-w'', td_matches_source = Some True, td_hint = empty_msg\<rparr>" by code_simp
  show ?thesis
    by (simp add: transport_def resolve_dirs_def demo_dir quick_home quick_workdir d p steps carry_planned_def unless_refused_def
       demo_carried prepare_destination_def demo_snapshot copy_and_verify_def demo_copy demo_verify
       carry_directories_def write_provenance_def demo_write Let_def cong: seq_lazy run_cong)
qed

lemma demo_spec_tree:
  "split_spec_path ''/g/x/spec.yaml'' = (''/g/x'', ''/g'', ''x'', ''spec.yaml'')"
  "basename ''spec.yaml'' \<notin> set CREDENTIAL_BASENAMES"
  by code_simp+

lemma demo_tree_copy: "copy_tree demo_run_env demo_a ''/g'' demo_b d [''x''] w = (Inr (said []), w)"
  by (simp add: copy_tree_def build_tree_copy_argv_def bare_name_def CREDENTIAL_BASENAMES_def
    build_probe_argv_def demo_run_env_def Let_def run_rules run_argv_on_host_def demo_exec_def demo_answer_def read_body_def said_def cong: seq_lazy run_cong)

lemma demo_standby:
  assumes "ad_session_uuid s = ''s''" and "ad_target_ssh_home s = []"
  shows "\<exists>m s'. start_target_standby demo_run_env demo_config s = (Inr (step_yes m), s') \<and>
     ad_world s' = (fst (ad_world s), True) \<and> ad_session_uuid s' = ''s'' \<and> ad_target_dir s' = ad_target_dir s \<and>
     ad_source_dir s' = ad_source_dir s \<and> ad_arrival_confirmed s' = ad_arrival_confirmed s"
proof -
  have "move_aside_destination ''/h/.scitex/agent-container/agents/x'' ''t'' =
      Inr ''/h/.scitex/agent-container/agents/.old/t/x''" by code_simp
  then obtain a where a: "move_aside_destination ''/h/.scitex/agent-container/agents/x'' ''t'' = Inr a" "a \<noteq> []" by blast
  show ?thesis
    by (simp add: start_target_standby_def assms home_there_def steps or_none_def carry_spec_def demo_spec_tree copy_spec_def a
      demo_tree_copy unless_refused_def seed_marker_def boot_standby_def start_standby_def demo_runs Let_def
      cong: seq_lazy run_cong)
qed

lemma demo_reply: "\<exists>r. read_reply ''nonce=zz, answer=b ok'' ''zz'' = Inr r \<and> rd_nonce_seen r \<and> rd_answer r = Some ''b''"
proof -
  have "read_reply ''nonce=zz, answer=b ok'' ''zz'' = Inr \<lparr>rd_nonce_seen = True, rd_answer = Some ''b'', rd_candidates = [''b''], rd_placeholders_ignored = 0\<rparr>"
    by code_simp
  then show ?thesis by simp
qed

lemma demo_handshake:
  assumes "ad_session_uuid s = ''s''" and "ad_target_dir s \<noteq> []"
  shows "\<exists>m s'. handshake demo_run_env demo_config s = (Inr (step_yes m), s') \<and>
     ad_world s' = ad_world s \<and> ad_handshake_confirmed s' = Yes \<and>
     ad_source_dir s' = ad_source_dir s \<and> ad_arrival_confirmed s' = ad_arrival_confirmed s"
proof -
  obtain r where r: "read_reply ''nonce=zz, answer=b ok'' ''zz'' = Inr r" "rd_nonce_seen r" "rd_answer r = Some ''b''"
    using demo_reply by blast
  have look: "look_for_reply REPLY_ATTEMPTS True False demo_run_env demo_config d ''zz'' w = (Inr (Yes, Some ''zz'', Some ''b''), w)" for d w
    by (simp add: numeral_eq_Suc steps r cong: seq_lazy run_cong)
  have deliver: "deliver demo_run_env demo_config brief w = (Inr Yes, w)" for brief w
    by (simp add: deliver_def deliver_prompt_def demo_runs said_def)
  have brief: "\<exists>b. build_arrival_brief ''x'' ''a'' ''b'' ''s'' ''zz'' HANDSHAKE_QUESTION DEFAULT_HANDOVER_DOC = Inr b"
    by (simp add: build_arrival_brief_def HANDSHAKE_QUESTION_def)
  then obtain b where b: "build_arrival_brief ''x'' ''a'' ''b'' ''s'' ''zz'' HANDSHAKE_QUESTION DEFAULT_HANDOVER_DOC = Inr b" by blast
  show ?thesis
    by (simp add: handshake_def assms steps b deliver look evaluate_handshake_def cong: seq_lazy run_cong)
qed

lemma demo_handover:
  assumes "ad_world s = (st, up)" and "ms_leases st ''x'' = None"
  shows "\<exists>m s' ls. hand_over_lease demo_run_env demo_config s = (Inr (step_yes m), s') \<and>
     ad_world s' = (st\<lparr>ms_leases := ls\<rparr>, up) \<and> ad_handshake_confirmed s' = ad_handshake_confirmed s \<and>
     ad_source_dir s' = ad_source_dir s \<and> ad_arrival_confirmed s' = ad_arrival_confirmed s"
proof -
  have get: "en_get_lease demo_run_env a w = (Inr (ms_leases (fst w) a), w)" for a w by (simp add: demo_run_env_def)
  have put: "en_put_lease demo_run_env r w = (Inr (), ((fst w)\<lparr>ms_leases := (ms_leases (fst w))(lr_agent r \<mapsto> r)\<rparr>, snd w))" for r w
    by (simp add: demo_run_env_def)
  show ?thesis
    by (simp add: hand_over_lease_def holder_to_hand_from_def load_lease_def save_lease_def recorded_holder_running_def
      get put assms steps lease_of_row_def lease_row_of_def handoff_readiness_def lease_defs claim_def handoff_def held_by_def mk_lease_def is_expired_def
      strip_def is_space_def Let_def cong: seq_lazy run_cong)
      (rule exI, rule refl)
qed

lemma demo_finish:
  assumes "ad_world s = (st, True)" and "ms_stays st = []" and "ad_arrival_confirmed s = Yes" and "ad_handshake_confirmed s = Yes"
    and "ad_source_dir s = ''/d/.claude/projects/-w''"
  shows "\<exists>m s' rs. finish demo_run_env demo_config s = (Inr (step_yes m), s') \<and> ad_world s' = (st\<lparr>ms_stays := rs\<rparr>, True)"
proof -
  have get: "en_residency_rows demo_run_env w = (Inr (ms_stays (fst w)), w)" for w by (simp add: demo_run_env_def)
  have put: "en_put_residency demo_run_env rs w = (Inr (), ((fst w)\<lparr>ms_stays := fold mem_put_stay rs (ms_stays (fst w))\<rparr>, snd w))" for rs w
    by (simp add: demo_run_env_def)
  have aside: "move_aside_destination ''/d/.claude/projects/-w'' ''t'' = Inr ''/d/.claude/projects/.old/t/-w''" by code_simp
  show ?thesis
    by (simp add: finish_def one_owner_check_def unless_refused_def record_and_retire_def record_residency_def stay_writes_def stays_of_def
      get put assms aside steps strip_def is_space_def Let_def cong: seq_lazy run_cong)
      (rule exI, rule refl)
qed
subsection \<open>The whole run\<close>

definition goes_through :: "(outcome \<Rightarrow> bool) \<Rightarrow> phase list \<Rightarrow> phase \<Rightarrow> demo_world adapters \<Rightarrow> bool" where
  "goes_through Q ps p s \<longleftrightarrow> (\<forall>r logs. relocation_ok r \<longrightarrow> r_phase r = p \<longrightarrow>
     (\<exists>out s'. execute_loop ps (build_effects demo_run_env demo_config) (adapters_clock demo_run_env) r logs s = (Inr out, s') \<and>
        Q out))"

abbreviation completes :: "outcome \<Rightarrow> bool" where
  "completes out \<equiv> eo_completed out = Yes \<and> eo_code out = EXEC_COMPLETED"

lemma rank_ABORTED: "rank ABORTED = 8"
  by (simp add: rank_def PHASES_def)

lemma effect_of:
  "for_phase (build_effects e c) SOURCE_DRAIN = Some (drain_source e c)"
  "for_phase (build_effects e c) SOURCE_STOP = Some (stop_source e c)"
  "for_phase (build_effects e c) TRANSPORT = Some (transport e c)"
  "for_phase (build_effects e c) TARGET_STANDBY = Some (start_target_standby e c)"
  "for_phase (build_effects e c) HANDSHAKE = Some (handshake e c)"
  "for_phase (build_effects e c) HANDOVER = Some (hand_over_lease e c)"
  "for_phase (build_effects e c) DONE = Some (finish e c)"
  by (simp_all add: build_effects_def)

lemma goes_through_end: "goes_through completes [] p s"
  by (simp add: goes_through_def execute_loop.simps)

lemma goes_through_step:
  assumes "for_phase (build_effects demo_run_env demo_config) q = Some f" and "f s = (Inr (step_yes m), s1)"
    and "q \<in> set PHASES" and "rank q = rank p + 1" and "goes_through Q ps q s1"
  shows "goes_through Q (q # ps) p s"
  unfolding goes_through_def
proof (intro allI impI)
  fix r logs assume r: "relocation_ok r" "r_phase r = p"
  have "resume_from r = Some q" using assms(3,4) r rank_less [OF assms(3)]
    by (auto simp: resume_from_iff is_terminal_def in_PHASES_iff relocation_ok_def rank_ABORTED)
  from loop_step [OF r(1) this assms(1,2)]
  have run: "execute_loop (q # ps) (build_effects demo_run_env demo_config) (adapters_clock demo_run_env) r logs s =
    execute_loop ps (build_effects demo_run_env demo_config) (adapters_clock demo_run_env) (journal r q 100 m)
      (logs @ [Fmt '': '' [phase_name q, m]]) s1"
    by (simp add: adapters_clock_def demo_run_env_def)
  have "relocation_ok (journal r q 100 m)" "r_phase (journal r q 100 m) = q" using r assms(3) by (simp_all add: journal_ok)
  with assms(5) show "\<exists>out s'. execute_loop (q # ps) (build_effects demo_run_env demo_config) (adapters_clock demo_run_env) r logs s = (Inr out, s') \<and> Q out"
    unfolding run goes_through_def by blast
qed

lemma goes_through_stop:
  assumes "for_phase (build_effects demo_run_env demo_config) q = Some f" and "f s = (Inr res, s1)" and "sr_ok res \<noteq> Yes"
    and "q \<in> set PHASES" and "rank q = rank p + 1" and "p \<noteq> HANDOVER"
  shows "goes_through (\<lambda>out. eo_stopped_at out = Some q) (q # ps) p s"
  unfolding goes_through_def
proof (intro allI impI)
  fix r logs assume r: "relocation_ok r" "r_phase r = p"
  have listed: "r_phase r \<in> set PHASES" "\<not> is_past_no_return r"
    using assms(4-6) r rank_less [OF assms(4)]
    by (auto simp: is_past_no_return_def in_PHASES_iff relocation_ok_def rank_ABORTED)
  have "resume_from r = Some q" using assms(4,5) r rank_less [OF assms(4)]
    by (auto simp: resume_from_iff is_terminal_def in_PHASES_iff relocation_ok_def rank_ABORTED)
  note step = loop_step [OF r(1) this assms(1,2)]
  obtain t s2 where "adapters_clock demo_run_env s1 = (t, s2)" by fastforce
  moreover obtain out where out: "stop_and_abort q res r t (logs @ [Fmt '': '' [phase_name q, sr_detail res]]) = Inr out"
    using stop_and_abort_returns [OF listed] by blast
  moreover have "eo_stopped_at out = Some q" by (rule stop_and_abort_out(4) [OF out listed])
  ultimately show "\<exists>out s'. execute_loop (q # ps) (build_effects demo_run_env demo_config) (adapters_clock demo_run_env) r logs s
      = (Inr out, s') \<and> eo_stopped_at out = Some q"
    using step assms(3) listed(2) by simp
qed

lemma demo_reaches_handover:
  obtains m1 m2 m3 m4 m5 s3 s4 s5 where
    "drain_source demo_run_env demo_config (fresh_adapters (st, False)) = (Inr (step_yes m1), fresh_adapters (st, False))"
    "stop_source demo_run_env demo_config (fresh_adapters (st, False)) = (Inr (step_yes m2), fresh_adapters (st, False))"
    "transport demo_run_env demo_config (fresh_adapters (st, False)) = (Inr (step_yes m3), s3)"
    "start_target_standby demo_run_env demo_config s3 = (Inr (step_yes m4), s4)"
    "handshake demo_run_env demo_config s4 = (Inr (step_yes m5), s5)" "ad_world s5 = (st, True)"
    "ad_source_dir s5 = ''/d/.claude/projects/-w''" "ad_arrival_confirmed s5 = Yes" "ad_handshake_confirmed s5 = Yes"
proof -
  let ?s = "fresh_adapters (st, False)"
  obtain m1 where 1: "drain_source demo_run_env demo_config ?s = (Inr (step_yes m1), ?s)" using demo_drain by blast
  obtain m2 where 2: "stop_source demo_run_env demo_config ?s = (Inr (step_yes m2), ?s)" using demo_stop by blast
  obtain m3 s3 where 3: "transport demo_run_env demo_config ?s = (Inr (step_yes m3), s3)" "ad_world s3 = (st, False)"
     "ad_session_uuid s3 = ''s''" "ad_source_dir s3 = ''/d/.claude/projects/-w''" "ad_target_dir s3 = ''/d/.claude/projects/-w''"
     "ad_arrival_confirmed s3 = Yes" "ad_target_ssh_home s3 = []"
    using demo_transport [of ?s] by (auto simp: fresh_adapters_def)
  obtain m4 s4 where 4: "start_target_standby demo_run_env demo_config s3 = (Inr (step_yes m4), s4)" "ad_world s4 = (st, True)"
     "ad_session_uuid s4 = ''s''" "ad_source_dir s4 = ''/d/.claude/projects/-w''" "ad_target_dir s4 = ''/d/.claude/projects/-w''"
     "ad_arrival_confirmed s4 = Yes"
    using demo_standby [OF 3(3,7)] 3 by auto
  obtain m5 s5 where "handshake demo_run_env demo_config s4 = (Inr (step_yes m5), s5)" "ad_world s5 = (st, True)"
     "ad_source_dir s5 = ''/d/.claude/projects/-w''" "ad_arrival_confirmed s5 = Yes" "ad_handshake_confirmed s5 = Yes"
    using demo_handshake [of s4] 4 by auto
  with 1 2 3(1) 4(1) show thesis by (rule that)
qed

lemma demo_goes_through:
  assumes "ms_leases st ''x'' = None" and "ms_stays st = []"
  shows "goes_through completes [SOURCE_DRAIN, SOURCE_STOP, TRANSPORT, TARGET_STANDBY, HANDSHAKE, HANDOVER, DONE] PREFLIGHT
    (fresh_adapters (st, False))"
proof -
  obtain m1 m2 m3 m4 m5 s3 s4 s5 where
    run: "drain_source demo_run_env demo_config (fresh_adapters (st, False)) = (Inr (step_yes m1), fresh_adapters (st, False))"
    "stop_source demo_run_env demo_config (fresh_adapters (st, False)) = (Inr (step_yes m2), fresh_adapters (st, False))"
    "transport demo_run_env demo_config (fresh_adapters (st, False)) = (Inr (step_yes m3), s3)"
    "start_target_standby demo_run_env demo_config s3 = (Inr (step_yes m4), s4)"
    "handshake demo_run_env demo_config s4 = (Inr (step_yes m5), s5)"
    and 5: "ad_world s5 = (st, True)" "ad_source_dir s5 = ''/d/.claude/projects/-w''" "ad_arrival_confirmed s5 = Yes"
      "ad_handshake_confirmed s5 = Yes" by (rule demo_reaches_handover)
  obtain m6 s6 ls where 6: "hand_over_lease demo_run_env demo_config s5 = (Inr (step_yes m6), s6)" "ad_world s6 = (st\<lparr>ms_leases := ls\<rparr>, True)"
     "ad_source_dir s6 = ''/d/.claude/projects/-w''" "ad_arrival_confirmed s6 = Yes" "ad_handshake_confirmed s6 = Yes"
    using demo_handover [OF 5(1) assms(1)] 5 by auto
  obtain m7 s7 where 7: "finish demo_run_env demo_config s6 = (Inr (step_yes m7), s7)"
    using demo_finish [OF 6(2)] 6 assms(2) by auto
  show ?thesis
    by (rule goes_through_step, rule effect_of, rule run 6(1) 7, simp add: in_PHASES_iff, simp)+
      (rule goes_through_end)
qed

text \<open>With the source's own lease in the store, expired, the run gets as far as the handover.\<close>

definition demo_expired :: lease where
  "demo_expired = \<lparr>l_agent = ''x'', l_holder = ''a'', l_token = ''t0'', l_expires_at = 50, l_fence = 3\<rparr>"

definition demo_late :: demo_world where
  "demo_late = (\<lparr>ms_leases = [''x'' \<mapsto> lease_row_of demo_expired 0], ms_stays = [], ms_journals = []\<rparr>, False)"

lemma demo_late_lease: "load_lease demo_run_env ''x'' (fst demo_late, up) = (Inr (Some demo_expired), (fst demo_late, up))"
  by (simp add: load_lease_def demo_run_env_def seq_def lift_def lease_of_row_def lease_row_of_def mk_lease_def
      strip_def is_space_def demo_late_def demo_expired_def)

lemma demo_late_refused:
  assumes "ad_world s = (fst demo_late, up)"
  shows "\<exists>res s'. hand_over_lease demo_run_env demo_config s = (Inr res, s') \<and> sr_ok res = No"
proof -
  have now: "now_of demo_run_env (ad_world s) = (Inr 100, (fst demo_late, up))" by (simp add: demo_time assms)
  from expired_lease_is_not_handed_over [OF now, of demo_config demo_expired "(fst demo_late, up)"] demo_late_lease
  show ?thesis by (simp add: demo_expired_def is_expired_def)
qed

lemma demo_stops_at_handover:
  "goes_through (\<lambda>out. eo_stopped_at out = Some HANDOVER)
     [SOURCE_DRAIN, SOURCE_STOP, TRANSPORT, TARGET_STANDBY, HANDSHAKE, HANDOVER, DONE] PREFLIGHT (fresh_adapters demo_late)"
proof -
  obtain m1 m2 m3 m4 m5 s3 s4 s5 where
    run: "drain_source demo_run_env demo_config (fresh_adapters (fst demo_late, False)) = (Inr (step_yes m1), fresh_adapters (fst demo_late, False))"
    "stop_source demo_run_env demo_config (fresh_adapters (fst demo_late, False)) = (Inr (step_yes m2), fresh_adapters (fst demo_late, False))"
    "transport demo_run_env demo_config (fresh_adapters (fst demo_late, False)) = (Inr (step_yes m3), s3)"
    "start_target_standby demo_run_env demo_config s3 = (Inr (step_yes m4), s4)"
    "handshake demo_run_env demo_config s4 = (Inr (step_yes m5), s5)" and 5: "ad_world s5 = (fst demo_late, True)"
    by (rule demo_reaches_handover)
  obtain res s6 where 6: "hand_over_lease demo_run_env demo_config s5 = (Inr res, s6)" "sr_ok res = No"
    using demo_late_refused [OF 5] by blast
  have late: "demo_late = (fst demo_late, False)" by (simp add: demo_late_def)
  show ?thesis
    apply (subst late)
    by (rule goes_through_step, rule effect_of, rule run, simp add: in_PHASES_iff, simp)+
      (rule goes_through_stop, rule effect_of, rule 6(1), simp_all add: 6(2) in_PHASES_iff)
qed

definition demo_start :: demo_world where
  "demo_start = (\<lparr>ms_leases = Map.empty, ms_stays = [], ms_journals = []\<rparr>, False)"

lemma demo_completes: "\<exists>out w. run_relocation demo_run_env (Inr ''a'') ''t'' ''x'' demo_spec ''a'' ''b'' ''/g/x/spec.yaml'' demo_start = (Inr out, w) \<and> exit_code_for out = 0"
proof -
  have rows: "en_journal_rows demo_run_env w = (Inr (ms_journals (fst w)), w)" for w by (simp add: demo_run_env_def)
  have put: "en_put_journal demo_run_env r w = (Inr (), ((fst w)\<lparr>ms_journals := r # filter (\<lambda>q. (jr_agent q, jr_attempt q)
        \<noteq> (jr_agent r, jr_attempt r)) (ms_journals (fst w))\<rparr>, snd w))" for r w by (simp add: demo_run_env_def)
  have save: "\<exists>n st'. save_journal demo_run_env r w = (Inr n, (st', snd w)) \<and> ms_leases st' = ms_leases (fst w) \<and> ms_stays st' = ms_stays (fst w)" for r w
    by (simp add: save_journal_def rows put steps Let_def cong: seq_lazy run_cong)
  have load: "load_journal demo_run_env ''x'' demo_start = (Inr None, demo_start)"
    by (simp add: load_journal_def rows steps demo_start_def attempts_def cong: seq_lazy run_cong)
  have cfg: "adapters_for demo_run_env ''x'' demo_spec ''a'' ''b'' (Some ''a'') ''/g/x/spec.yaml'' ''t'' = Inr demo_config"
    by (simp add: adapters_for_def shell_for_def mk_shell_def peer_preamble_def demo_run_env_def demo_config_def demo_a_def demo_b_def)
  obtain r where r: "begin_relocation ''x'' ''a'' ''b'' 100 (Fmt ''opened by sac agents relocate --no-dry-run on'' [Txt ''a'']) = Inr r" "relocation_ok r" "r_phase r = PREFLIGHT"
    by (simp add: begin_relocation_def relocation_ok_def PHASES_def)
  obtain n st where s1: "save_journal demo_run_env r demo_start = (Inr n, (st, False))" "ms_leases st ''x'' = None" "ms_stays st = []"
    using save [of r demo_start] by (auto simp: demo_start_def)
  have "missing_effects (build_effects demo_run_env demo_config) = []"
    by (simp add: missing_effects_def PHASES_def build_effects_def)
  with demo_goes_through [OF s1(2,3)] r obtain out s' where
    x: "execute r (build_effects demo_run_env demo_config) (adapters_clock demo_run_env) (fresh_adapters (st, False)) = (Inr out, s')"
    and c: "eo_completed out = Yes" "eo_code out = EXEC_COMPLETED"
    by (fastforce simp: goes_through_def execute_def PHASES_def phase_index_def)
  obtain n' w' where s2: "save_journal demo_run_env (eo_relocation out) (ad_world s') = (Inr n', w')"
    using save by blast
  show ?thesis
    by (simp add: run_relocation_def load open_or_resume_def open_new_def steps r s1 cfg execute_with_def x s2 exit_code_for_def c cong: seq_lazy run_cong)
qed


subsection \<open>Witnesses\<close>

theorem exit_zero_is_earned_witness:
  "\<exists>out w' c src tgt w1. run_relocation demo_run_env (Inr ''a'') ''t'' ''x'' demo_spec ''a'' ''b''
      ''/g/x/spec.yaml'' demo_start = (Inr out, w') \<and> exit_code_for out = 0 \<and> story demo_run_env
      [transport_trail demo_run_env c src tgt, handshake_trail demo_run_env c tgt, handover_trail demo_run_env c,
       finish_trail demo_run_env c src] demo_start w1"
proof -
  obtain out w' where run: "run_relocation demo_run_env (Inr ''a'') ''t'' ''x'' demo_spec ''a'' ''b''
      ''/g/x/spec.yaml'' demo_start = (Inr out, w')" and zero: "exit_code_for out = 0"
    using demo_completes by blast
  from exit_zero_is_earned [OF run zero] run zero show ?thesis by blast
qed

text \<open>Both hosts answer every command with nothing at all.\<close>

definition mute_env :: "demo_world env" where
  "mute_env = demo_run_env\<lparr>en_exec := (\<lambda>argv t w. (Inr (demo_answer []), w))\<rparr>"

definition demo_relocation :: "phase \<Rightarrow> relocation" where
  "demo_relocation p = \<lparr>r_agent = ''x'', r_from_host = ''a'', r_to_host = ''b'', r_phase = p,
     r_steps = [\<lparr>st_phase = p, st_at = 0, st_detail = Fmt ''opened'' []\<rparr>]\<rparr>"

lemma demo_relocation_ok: "p \<in> set PHASES \<Longrightarrow> relocation_ok (demo_relocation p)"
  by (simp add: relocation_ok_def demo_relocation_def)

lemma mute_runs:
  "run_for mute_env demo_a body t w = (Inr (said []), w)" "run_for mute_env demo_b body t w = (Inr (said []), w)"
  by (simp_all add: run_for_def demo_a_def demo_b_def shell_script_def run_argv_on_host_def run_probe_script_def
      build_probe_argv_def seq_def lift_def mute_env_def demo_run_env_def demo_answer_def read_body_def said_def)

lemma mute_marks: "marked (said []) m = []"
  by (simp add: marked_def said_def splitlines_def)

lemma mute_observe:
  "\<exists>m. observe_running mute_env demo_a ''x'' w = (Inr (Unknown, m), w)"
  "\<exists>m. observe_running mute_env demo_b ''x'' w = (Inr (Unknown, m), w)"
  by (simp_all add: observe_running_def candidate_session_names_def starts_with_def interpret_liveness_def mute_marks
      mute_runs run_rules cong: seq_lazy run_cong)

lemma mute_missing: "missing_effects (build_effects e c) = []"
  by (simp add: missing_effects_def PHASES_def build_effects_def)

text \<open>A run whose first effect does not say yes stops there.\<close>

lemma first_step_stops:
  assumes "relocation_ok r" and "resume_from r = Some p" and "\<not> is_past_no_return r"
    and "for_phase (build_effects e c) p = Some f" and "f s = (Inr res, s1)" and "sr_ok res \<noteq> Yes"
  shows "\<exists>out s'. execute r (build_effects e c) (adapters_clock e) s = (Inr out, s') \<and> eo_stopped_at out = Some p"
proof -
  obtain t s2 where now: "adapters_clock e s1 = (t, s2)" by fastforce
  have listed: "r_phase r \<in> set PHASES" using assms(1,2) by (auto simp: resume_from_iff relocation_ok_def is_terminal_def)
  then have drop: "drop (Suc (rank (r_phase r))) PHASES = p # drop (Suc (rank p)) PHASES"
    using drop_resume [OF assms(1) listed] assms(2) by simp
  obtain out where out: "stop_and_abort p res r t [Fmt '': '' [phase_name p, sr_detail res]] = Inr out"
    using stop_and_abort_returns [OF listed assms(3)] by blast
  then have "eo_stopped_at out = Some p" by (rule stop_and_abort_out(4) [OF _ listed assms(3)])
  then show ?thesis
    using loop_step [OF assms(1,2,4,5), of "drop (Suc (rank p)) PHASES" "adapters_clock e" "[]"] assms(3,6) out now
    by (simp add: execute_def mute_missing listed drop)
qed

lemma demo_resumes:
  "relocation_ok (demo_relocation PREFLIGHT)" "resume_from (demo_relocation PREFLIGHT) = Some SOURCE_DRAIN"
  "\<not> is_past_no_return (demo_relocation PREFLIGHT)" "relocation_ok (demo_relocation TRANSPORT)"
  "resume_from (demo_relocation TRANSPORT) = Some TARGET_STANDBY" "\<not> is_past_no_return (demo_relocation TRANSPORT)"
  "relocation_ok (demo_relocation DONE)"
  by (simp_all add: relocation_ok_def demo_relocation_def resume_from_def is_terminal_def is_past_no_return_def PHASES_def)

lemma demo_executes:
  assumes "goes_through Q [SOURCE_DRAIN, SOURCE_STOP, TRANSPORT, TARGET_STANDBY, HANDSHAKE, HANDOVER, DONE] PREFLIGHT s"
  shows "\<exists>out s'. execute (demo_relocation PREFLIGHT) (build_effects demo_run_env demo_config)
    (adapters_clock demo_run_env) s = (Inr out, s') \<and> Q out"
proof -
  have "r_phase (demo_relocation PREFLIGHT) = PREFLIGHT" by (simp add: demo_relocation_def)
  with assms demo_resumes(1) show ?thesis
    by (fastforce simp: goes_through_def execute_def mute_missing PHASES_def phase_index_def)
qed

lemma mute_drain:
  "\<exists>a b. drain_source mute_env demo_config s = (Inr (step_not Unknown a b), s)"
proof -
  obtain m where "observe_running mute_env demo_a ''x'' (ad_world s) = (Inr (Unknown, m), ad_world s)"
    using mute_observe(1) by blast
  then show ?thesis by (simp add: drain_source_def run_rules)
qed

theorem execute_ends_witness:
  "\<exists>out s'. execute (demo_relocation PREFLIGHT) (build_effects demo_run_env demo_config) (adapters_clock demo_run_env)
     (fresh_adapters demo_start) = (Inr out, s') \<and> eo_completed out = Yes \<and> outcome_ok out \<and>
     r_phase (eo_relocation out) = DONE"
proof -
  have "goes_through completes [SOURCE_DRAIN, SOURCE_STOP, TRANSPORT, TARGET_STANDBY, HANDSHAKE, HANDOVER, DONE] PREFLIGHT
      (fresh_adapters demo_start)"
    unfolding demo_start_def by (rule demo_goes_through) simp_all
  from demo_executes [OF this] obtain out s' where
    run: "execute (demo_relocation PREFLIGHT) (build_effects demo_run_env demo_config) (adapters_clock demo_run_env)
     (fresh_adapters demo_start) = (Inr out, s')" and yes: "eo_completed out = Yes" by blast
  from execute_ends [OF demo_resumes(1), where eff = "build_effects demo_run_env demo_config"
      and now = "adapters_clock demo_run_env" and s = "fresh_adapters demo_start"] run yes
  show ?thesis by (auto simp: ends_as_def split: option.splits)
qed

theorem stopped_run_left_the_source_witness:
  "\<exists>out s'. execute (demo_relocation PREFLIGHT) (build_effects demo_run_env demo_config) (adapters_clock demo_run_env)
     (fresh_adapters demo_late) = (Inr out, s') \<and> eo_stopped_at out = Some HANDOVER \<and>
     (quiet_call demo_run_env demo_config True)\<^sup>*\<^sup>* demo_late (ad_world s')"
proof -
  from demo_executes [OF demo_stops_at_handover] obtain out s' where
    run: "execute (demo_relocation PREFLIGHT) (build_effects demo_run_env demo_config) (adapters_clock demo_run_env)
     (fresh_adapters demo_late) = (Inr out, s')" and stop: "eo_stopped_at out = Some HANDOVER" by blast
  from stopped_run_left_the_source [OF run demo_resumes(1) stop] run stop
  show ?thesis by (auto simp: fresh_adapters_def)
qed

theorem resumed_run_never_completes_witness:
  "\<exists>out s'. execute (demo_relocation TRANSPORT) (build_effects demo_run_env demo_config) (adapters_clock demo_run_env)
     (fresh_adapters demo_start) = (Inr out, s') \<and> eo_completed out \<noteq> Yes"
proof -
  have "\<exists>a b. start_target_standby demo_run_env demo_config (fresh_adapters demo_start)
      = (Inr (step_untried a b), fresh_adapters demo_start)"
    by (simp add: start_target_standby_def fresh_adapters_def run_rules)
  then obtain a b where "start_target_standby demo_run_env demo_config (fresh_adapters demo_start)
      = (Inr (step_untried a b), fresh_adapters demo_start)" by blast
  from first_step_stops [OF demo_resumes(4-6) effect_of(4) this] obtain out s' where
      run: "execute (demo_relocation TRANSPORT) (build_effects demo_run_env demo_config) (adapters_clock demo_run_env)
        (fresh_adapters demo_start) = (Inr out, s')" by auto
  from resumed_run_never_completes [OF run demo_resumes(4)] run show ?thesis by (simp add: demo_relocation_def)
qed

theorem effects_answer_well_witness:
  "\<exists>res s'. drain_source mute_env demo_config (fresh_adapters demo_start) = (Inr res, s') \<and> sr_ok res = Unknown \<and>
     truthy (sr_hint res)"
proof -
  obtain a b where d: "drain_source mute_env demo_config (fresh_adapters demo_start)
      = (Inr (step_not Unknown a b), fresh_adapters demo_start)" using mute_drain by blast
  from effects_answer_well [OF effect_of(1) d] d show ?thesis by (simp add: step_result_ok_def)
qed

theorem other_destination_refused_witness:
  "\<exists>w. fst (load_journal demo_run_env ''x'' w) = Inr (Some (demo_relocation DONE)) \<and>
     run_relocation demo_run_env (Inr ''a'') ''t'' ''x'' demo_spec ''b'' ''c'' ''/g/x/spec.yaml'' w
       = (Inl (SystemExit 5), w)"
proof -
  let ?w = "(\<lparr>ms_leases = Map.empty, ms_stays = [], ms_journals = [journal_row_of (demo_relocation DONE) 1 0]\<rparr>, False)"
  have l: "load_journal demo_run_env ''x'' ?w = (Inr (Some (demo_relocation DONE)), ?w)"
    using demo_resumes(7)
    by (simp add: load_journal_def demo_run_env_def attempts_def relocation_of_row_def journal_row_of_def
        demo_relocation_def seq_def ret_def)
  have "r_to_host (demo_relocation DONE) \<noteq> ''c''" by (simp add: demo_relocation_def)
  from other_destination_refused [OF l this] l show ?thesis by (intro exI [of _ ?w]) simp
qed

theorem handover_fences_source_witness:
  "\<exists>res s' w l. hand_over_lease demo_run_env demo_config (fresh_adapters demo_start) = (Inr res, s') \<and>
     load_lease demo_run_env ''x'' w = (Inr (Some l), ad_world s') \<and> l_holder l = ''b'' \<and> 0 < l_fence l \<and>
     \<not> may_write (fold lease_step [] (Some l)) 100 (''a'', ''zz'', 0)"
proof -
  obtain m s' where h: "hand_over_lease demo_run_env demo_config (fresh_adapters demo_start) = (Inr (step_yes m), s')"
    using demo_handover [of "fresh_adapters demo_start" "fst demo_start" False]
    by (auto simp: fresh_adapters_def demo_start_def)
  from handover_fences_source [OF h] obtain t w1 held w3 w4 l where
    l: "load_lease demo_run_env ''x'' w4 = (Inr (Some l), ad_world s')" "l_holder l = ''b''"
      "l_fence l = l_fence held + 1" "given_up demo_run_env demo_config t held w1 w3"
      "\<forall>f < l_fence l. \<forall>ops now host token. \<not> may_write (fold lease_step ops (Some l)) now (host, token, f)" by auto
  have "0 \<le> l_fence held" using l(4) by (auto simp: given_up_def lease_ok_def elim!: claim_cases dest!: load_lease_ok)
  with l(3) have "0 < l_fence l" by simp
  with l h show ?thesis by blast
qed

theorem expired_lease_is_not_handed_over_witness:
  "\<exists>res s'. fst (load_lease demo_run_env ''x'' demo_late) = Inr (Some demo_expired) \<and>
    hand_over_lease demo_run_env demo_config (fresh_adapters demo_late) = (Inr res, s') \<and> sr_ok res = No"
proof -
  have late: "demo_late = (fst demo_late, False)" by (simp add: demo_late_def)
  have "now_of demo_run_env (ad_world (fresh_adapters demo_late)) = (Inr 100, demo_late)"
    by (simp add: demo_time fresh_adapters_def)
  moreover have l: "load_lease demo_run_env ''x'' demo_late = (Inr (Some demo_expired), demo_late)"
    using demo_late_lease [of False] late by simp
  ultimately obtain res s' where
      "hand_over_lease demo_run_env demo_config (fresh_adapters demo_late) = (Inr res, s')" "sr_ok res = No"
    using expired_lease_is_not_handed_over [of demo_run_env "fresh_adapters demo_late" 100 demo_late demo_config demo_expired demo_late]
    by (auto simp: is_expired_def demo_expired_def)
  with l show ?thesis by simp
qed

text \<open>The source answers nothing, the target answers as it should.\<close>

definition half_env :: "demo_world env" where
  "half_env = demo_run_env\<lparr>en_exec := (\<lambda>argv t w.
     if hd argv = Word ''sh'' then (Inr (demo_answer []), w) else demo_exec argv t w)\<rparr>"

theorem one_owner_check_passes_iff_witness:
  "\<exists>why. observe_running half_env demo_a ''x'' (fst demo_start, True) = (Inr (Unknown, why), (fst demo_start, True)) \<and>
    fst (one_owner_check half_env demo_config (fresh_adapters (fst demo_start, True))) = Inr None"
proof -
  have runs: "run_for half_env demo_a body t w = (Inr (said []), w)"
    "run_for half_env demo_b body t w = run_for demo_run_env demo_b body t w" for body t w
    by (simp_all add: run_for_def demo_a_def demo_b_def shell_script_def run_argv_on_host_def run_probe_script_def
        build_probe_argv_def seq_def lift_def half_env_def demo_run_env_def demo_answer_def read_body_def said_def)
  obtain why where source: "observe_running half_env demo_a ''x'' w = (Inr (Unknown, why), w)" for w
    by (simp add: observe_running_def candidate_session_names_def starts_with_def interpret_liveness_def mute_marks
        runs run_rules cong: seq_lazy run_cong)
  have "observe_running half_env demo_b ''x'' w = observe_running demo_run_env demo_b ''x'' w" for w
    by (simp add: observe_running_def candidate_session_names_def starts_with_def runs run_rules cong: seq_lazy run_cong)
  then obtain why' where target: "observe_running half_env demo_b ''x'' (fst demo_start, True) = (Inr (Yes, why'), (fst demo_start, True))"
    by (simp add: demo_asks)
  have w: "ad_world (fresh_adapters (fst demo_start, True)) = (fst demo_start, True)" by (simp add: fresh_adapters_def)
  have "one_owner_check half_env demo_config (fresh_adapters (fst demo_start, True)) =
      (Inr None, (fresh_adapters (fst demo_start, True))\<lparr>ad_world := (fst demo_start, True)\<rparr>)"
    using one_owner_check_passes_iff [of half_env demo_config "fresh_adapters (fst demo_start, True)" Yes why'
        "(fst demo_start, True)" Unknown why "(fst demo_start, True)"] source target w by simp
  with source show ?thesis by simp
qed

end
