(* ===== verification/Placement.thy ===== *)
theory Placement
  imports Prelude
begin

text \<open>
  Which machine an agent runs on: \<open>cli_pkg/lifecycle/_host_identity.py\<close> (is a host name this
  machine, a peer, or nothing we know), \<open>_host_chain.py\<close> (the reduction of \<open>spec.host\<close>, a name
  or a fallback chain, to one route), \<open>_host_routing.py\<close> (what the lifecycle verbs make of the
  route) and the singleton guard of \<open>_common.py\<close>.

  \<open>spec.host\<close> is a \<open>pin option\<close>: \<open>Host\<close> the plain string, \<open>Chain\<close> the list. The peer table is a
  predicate, because all this code asks of it is \<open>host in peers\<close>. A reachability oracle is a
  function from a host name to the string it answers, or to the error it raises; the production
  one memoizes its answers, so within one walk it is a function. The texts of the refusals are
  represented by what they are built from.
\<close>

subsection \<open>Classifying one name: \<open>_host_identity.py\<close>\<close>

datatype placement = Local_Placement | Remote_Placement | Unknown_Placement

definition classify_dispatch_host ::
    "string option \<Rightarrow> string \<Rightarrow> (string \<Rightarrow> bool) \<Rightarrow> string list \<Rightarrow> placement \<times> string option" where
  "classify_dispatch_host target current peers local_names =
     (case target of
        None \<Rightarrow> (Local_Placement, None)
      | Some h \<Rightarrow>
          if h = current \<or> h \<in> set local_names then (Local_Placement, None)
          else if peers h then (Remote_Placement, Some h)
          else (Unknown_Placement, None))"

definition resolve_dispatch_peer ::
    "string option \<Rightarrow> string \<Rightarrow> (string \<Rightarrow> bool) \<Rightarrow> string list \<Rightarrow> string option" where
  "resolve_dispatch_peer target current peers local_names =
     snd (classify_dispatch_host target current peers local_names)"

subsection \<open>Reducing a chain: \<open>_host_chain.py\<close>\<close>

datatype reachability = Reachable | Unreachable | Unsure | Not_Probed

record host_candidate =
  hc_host :: string
  hc_placement :: placement
  hc_reachability :: reachability

definition candidate_rejected :: "host_candidate \<Rightarrow> bool" where
  "candidate_rejected c \<longleftrightarrow> hc_placement c = Unknown_Placement \<or> hc_reachability c = Unreachable"

definition describe_candidate :: "host_candidate \<Rightarrow> msg" where
  "describe_candidate c =
     (if hc_placement c = Unknown_Placement then Fmt ''unknown_host'' [Txt (hc_host c)]
      else if hc_placement c = Local_Placement then Fmt ''local'' [Txt (hc_host c)]
      else if hc_reachability c = Unreachable then Fmt ''unreachable'' [Txt (hc_host c)]
      else if hc_reachability c = Reachable then Fmt ''reachable'' [Txt (hc_host c)]
      else Fmt ''unknown_reachability'' [Txt (hc_host c)])"

datatype route_kind = Local | Remote | Unroutable

record chain_route =
  cr_kind :: route_kind
  cr_peer :: "string option"
  cr_host :: "string option"
  cr_candidates :: "host_candidate list"

datatype pin = Host string | Chain "string list"

definition chain_hosts :: "pin option \<Rightarrow> string list" where
  "chain_hosts spec_host =
     (case spec_host of
        None \<Rightarrow> []
      | Some (Host h) \<Rightarrow> (if h \<noteq> [] then [h] else [])
      | Some (Chain hs) \<Rightarrow> filter (\<lambda>h. h \<noteq> []) hs)"

definition is_remote_placement :: "pin option \<Rightarrow> string \<Rightarrow> bool" where
  "is_remote_placement spec_host current \<longleftrightarrow>
     chain_hosts spec_host \<noteq> [] \<and> current \<notin> set (chain_hosts spec_host)"

type_synonym host_oracle = "string \<Rightarrow> string result"

definition probe :: "host_oracle option \<Rightarrow> string \<Rightarrow> reachability" where
  "probe orac host =
     (case orac of
        None \<Rightarrow> Unsure
      | Some ask \<Rightarrow>
          (case ask host of
             Inl _ \<Rightarrow> Unsure
           | Inr v \<Rightarrow>
               if v = ''reachable'' then Reachable
               else if v = ''unreachable'' then Unreachable
               else Unsure))"

fun walk_chain ::
    "(string \<Rightarrow> bool) \<Rightarrow> string list \<Rightarrow> host_oracle option \<Rightarrow> string \<Rightarrow> host_candidate list \<Rightarrow> string list
     \<Rightarrow> chain_route" where
  "walk_chain peers local_names orac current examined [] =
     \<lparr>cr_kind = Unroutable, cr_peer = None, cr_host = None, cr_candidates = examined\<rparr>"
| "walk_chain peers local_names orac current examined (host # hosts) =
     (case classify_dispatch_host (Some host) current peers local_names of
        (Local_Placement, _) \<Rightarrow>
          \<lparr>cr_kind = Local, cr_peer = None, cr_host = Some host,
           cr_candidates = examined @
             [\<lparr>hc_host = host, hc_placement = Local_Placement, hc_reachability = Not_Probed\<rparr>]\<rparr>
      | (Remote_Placement, Some p) \<Rightarrow>
          (let verdict = probe orac host;
               examined' = examined @
                 [\<lparr>hc_host = host, hc_placement = Remote_Placement, hc_reachability = verdict\<rparr>] in
           if verdict \<noteq> Unreachable then
             \<lparr>cr_kind = Remote, cr_peer = Some p, cr_host = Some host, cr_candidates = examined'\<rparr>
           else walk_chain peers local_names orac current examined' hosts)
      | _ \<Rightarrow>
          walk_chain peers local_names orac current
            (examined @
              [\<lparr>hc_host = host, hc_placement = Unknown_Placement, hc_reachability = Not_Probed\<rparr>])
            hosts)"

definition resolve_host_chain ::
    "pin option \<Rightarrow> string \<Rightarrow> (string \<Rightarrow> bool) \<Rightarrow> string list \<Rightarrow> host_oracle option \<Rightarrow> chain_route" where
  "resolve_host_chain spec_host current peers local_names reach =
     (let hosts = chain_hosts spec_host in
      if hosts = [] then \<lparr>cr_kind = Local, cr_peer = None, cr_host = None, cr_candidates = []\<rparr>
      else
        walk_chain peers local_names
          (case spec_host of Some (Host _) \<Rightarrow> None | _ \<Rightarrow> reach) current [] hosts)"

text \<open>
  \<open>_ssh_probe\<close>: building the command line may raise, running it may raise or give no exit code.
\<close>

definition ssh_probe :: "(string \<Rightarrow> string list result) \<Rightarrow> (string list \<Rightarrow> int option result) \<Rightarrow> string \<Rightarrow> string" where
  "ssh_probe build_argv run host =
     (case build_argv host of
        Inl _ \<Rightarrow> ''unknown''
      | Inr argv \<Rightarrow>
          (case run argv of
             Inl _ \<Rightarrow> ''unknown''
           | Inr None \<Rightarrow> ''unknown''
           | Inr (Some rc) \<Rightarrow> if rc = 0 then ''reachable'' else ''unreachable''))"

definition ssh_reachability_oracle ::
    "(string \<Rightarrow> string list result) \<Rightarrow> (string list \<Rightarrow> int option result) \<Rightarrow> host_oracle" where
  "ssh_reachability_oracle build_argv run host = Inr (ssh_probe build_argv run host)"

subsection \<open>What the verbs make of a route: \<open>_host_routing.py\<close>\<close>

definition route_to_legacy_kind :: "chain_route \<Rightarrow> placement \<times> string option" where
  "route_to_legacy_kind route =
     (case cr_kind route of
        Unroutable \<Rightarrow> (Unknown_Placement, None)
      | Local \<Rightarrow> (Local_Placement, cr_peer route)
      | Remote \<Rightarrow> (Remote_Placement, cr_peer route))"

definition classify_spec_host_route ::
    "pin option \<Rightarrow> string \<Rightarrow> (string \<Rightarrow> bool) \<Rightarrow> string list \<Rightarrow> host_oracle option \<Rightarrow> placement \<times> string option" where
  "classify_spec_host_route spec_host current peers local_names reach =
     route_to_legacy_kind (resolve_host_chain spec_host current peers local_names reach)"

text \<open>
  \<open>UnknownSpecHostError\<close> with the text of \<open>format_route_error\<close>: the one for a single name, or the
  one that accounts for every candidate of a chain.
\<close>

datatype route_error =
    Unknown_Spec_Host string string             \<comment> \<open>the agent and the name\<close>
  | Unroutable_Chain string "msg list"          \<comment> \<open>the agent and a line per candidate\<close>

definition format_route_error :: "string \<Rightarrow> pin option \<Rightarrow> chain_route \<Rightarrow> route_error" where
  "format_route_error name spec_host route =
     (case spec_host of
        Some (Host h) \<Rightarrow> Unknown_Spec_Host name h
      | _ \<Rightarrow> Unroutable_Chain name (map describe_candidate (cr_candidates route)))"

text \<open>A list is probed over ssh unless the caller brought an oracle.\<close>

definition chain_oracle :: "pin option \<Rightarrow> host_oracle \<Rightarrow> host_oracle option \<Rightarrow> host_oracle option" where
  "chain_oracle spec_host ssh reach =
     (case (reach, spec_host) of
        (None, Some (Chain _)) \<Rightarrow> Some ssh
      | _ \<Rightarrow> reach)"

definition resolve_start_dispatch_peer ::
    "string \<Rightarrow> pin option \<Rightarrow> string \<Rightarrow> (string \<Rightarrow> bool) \<Rightarrow> string list \<Rightarrow> host_oracle \<Rightarrow> host_oracle option
     \<Rightarrow> route_error + string option" where
  "resolve_start_dispatch_peer name spec_host current peers local_names ssh reach =
     (let route = resolve_host_chain spec_host current peers local_names (chain_oracle spec_host ssh reach) in
      if cr_kind route = Unroutable then Inl (format_route_error name spec_host route)
      else
        (case route_to_legacy_kind route of
           (Remote_Placement, p) \<Rightarrow> Inr p
         | _ \<Rightarrow> Inr None))"

text \<open>\<open>has_active_row\<close>: the active rows of the registry as (name, host), or the read's error.\<close>

definition has_active_row :: "(string \<times> string) list result \<Rightarrow> string \<Rightarrow> bool" where
  "has_active_row rows name =
     (case rows of Inl _ \<Rightarrow> False | Inr rs \<Rightarrow> (\<exists>r \<in> set rs. fst r = name))"

text \<open>
  \<open>resolve_spec_host_peer\<close>: a spec that does not load leaves the verb local; the host name may
  not resolve, and then only the other spellings of this machine count.
\<close>

definition resolve_spec_host_peer ::
    "string \<Rightarrow> pin option result \<Rightarrow> string result \<Rightarrow> (string \<Rightarrow> bool) \<Rightarrow> (string \<Rightarrow> string list) \<Rightarrow> host_oracle
     \<Rightarrow> host_oracle option \<Rightarrow> route_error + string option" where
  "resolve_spec_host_peer name loaded hostname peers local_host_names ssh reach =
     (case loaded of
        Inl _ \<Rightarrow> Inr None
      | Inr spec_host \<Rightarrow>
          (let current = (case hostname of Inl _ \<Rightarrow> [] | Inr h \<Rightarrow> h) in
           resolve_start_dispatch_peer name spec_host current peers (local_host_names current) ssh reach))"

definition spec_host_fallback_peer ::
    "(string \<times> string) list result \<Rightarrow> string \<Rightarrow> pin option result \<Rightarrow> string result \<Rightarrow> (string \<Rightarrow> bool)
     \<Rightarrow> (string \<Rightarrow> string list) \<Rightarrow> host_oracle \<Rightarrow> host_oracle option \<Rightarrow> route_error + string option" where
  "spec_host_fallback_peer rows name loaded hostname peers local_host_names ssh reach =
     (if has_active_row rows name then Inr None
      else resolve_spec_host_peer name loaded hostname peers local_host_names ssh reach)"

subsection \<open>The singleton guard: \<open>_common.py\<close>\<close>

record placement_config =
  pc_name :: string
  pc_hosts :: "string list"
  pc_host :: "pin option"
  pc_singleton :: bool
  pc_preferred :: "string option"
  pc_fallbacks :: "string list"

text \<open>\<open>spec.host\<close> counts when it is truthy: a non-empty string or a non-empty list.\<close>

definition pinned :: "pin option \<Rightarrow> bool" where
  "pinned spec_host = (case spec_host of None \<Rightarrow> False | Some (Host h) \<Rightarrow> h \<noteq> [] | Some (Chain hs) \<Rightarrow> hs \<noteq> [])"

definition preferred_of :: "placement_config \<Rightarrow> string option" where
  "preferred_of c = (case pc_preferred c of Some [] \<Rightarrow> None | p \<Rightarrow> p)"

definition bound_hosts :: "placement_config \<Rightarrow> string list" where
  "bound_hosts c =
     (if pc_hosts c \<noteq> [] then []
      else if pinned (pc_host c) then chain_hosts (pc_host c)
      else if \<not> pc_singleton c then []
      else (case preferred_of c of None \<Rightarrow> [] | Some h \<Rightarrow> [h]))"

definition registry_active_on :: "(string \<times> string) list result \<Rightarrow> string \<Rightarrow> string \<Rightarrow> bool" where
  "registry_active_on rows name host =
     (case rows of Inl _ \<Rightarrow> False | Inr rs \<Rightarrow> (name, host) \<in> set rs)"

text \<open>The entries of \<open>spec.host\<close> as written, empty names included.\<close>

fun pin_entries :: "pin \<Rightarrow> string list" where
  "pin_entries (Host h) = [h]"
| "pin_entries (Chain hs) = hs"

definition singleton_skip_reason :: "placement_config \<Rightarrow> string \<Rightarrow> string list \<Rightarrow> msg option" where
  "singleton_skip_reason c hostname local_names =
     (let here = (\<lambda>h. h = hostname \<or> h \<in> set local_names) in
      if pc_hosts c \<noteq> [] then None
      else if pinned (pc_host c) then
        (let chain = pin_entries (the (pc_host c)) in
         if list_ex here chain then None
         else Some (Fmt ''singleton_prefers'' [Txt (hd chain), Txt hostname, Fmt ''fallbacks'' (map Txt (tl chain))]))
      else if \<not> pc_singleton c then None
      else
        (case preferred_of c of
           None \<Rightarrow> None
         | Some h \<Rightarrow>
             if here h then None
             else Some (Fmt ''singleton_pinned'' [Txt h, Txt hostname, Fmt ''fallbacks'' (map Txt (pc_fallbacks c))])))"

definition resolve_singleton_skip ::
    "placement_config \<Rightarrow> string \<Rightarrow> bool \<Rightarrow> (string \<Rightarrow> string \<Rightarrow> bool) \<Rightarrow> string list \<Rightarrow> msg option" where
  "resolve_singleton_skip c hostname no_redispatch live_on local_names =
     (if no_redispatch then None
      else
        (case singleton_skip_reason c hostname local_names of
           None \<Rightarrow> None
         | Some reason \<Rightarrow>
             if bound_hosts c = [] then Some reason
             else if \<not> list_ex (live_on (pc_name c)) (bound_hosts c) then None
             else Some reason))"

subsection \<open>The chain resolver\<close>

text \<open>
  The reference: every name of the chain is judged on its own, and the first that no evidence
  rejects decides. What was examined is what was rejected and the one that won.
\<close>

definition candidate_for :: "string \<Rightarrow> (string \<Rightarrow> bool) \<Rightarrow> string list \<Rightarrow> host_oracle option \<Rightarrow> string \<Rightarrow> host_candidate" where
  "candidate_for current peers local_names orac h =
     (if h = current \<or> h \<in> set local_names then
        \<lparr>hc_host = h, hc_placement = Local_Placement, hc_reachability = Not_Probed\<rparr>
      else if peers h then
        \<lparr>hc_host = h, hc_placement = Remote_Placement, hc_reachability = probe orac h\<rparr>
      else \<lparr>hc_host = h, hc_placement = Unknown_Placement, hc_reachability = Not_Probed\<rparr>)"

definition route_of_candidates :: "host_candidate list \<Rightarrow> chain_route" where
  "route_of_candidates cs =
     (let rejected = takeWhile candidate_rejected cs in
      case dropWhile candidate_rejected cs of
        [] \<Rightarrow> \<lparr>cr_kind = Unroutable, cr_peer = None, cr_host = None, cr_candidates = rejected\<rparr>
      | c # _ \<Rightarrow>
          \<lparr>cr_kind = (if hc_placement c = Local_Placement then Local else Remote),
           cr_peer = (if hc_placement c = Local_Placement then None else Some (hc_host c)),
           cr_host = Some (hc_host c),
           cr_candidates = rejected @ [c]\<rparr>)"

definition examined_first :: "host_candidate list \<Rightarrow> chain_route \<Rightarrow> chain_route" where
  "examined_first pre route = route\<lparr>cr_candidates := pre @ cr_candidates route\<rparr>"

lemma examined_first_append: "examined_first pre (examined_first cs route) = examined_first (pre @ cs) route"
  by (simp add: examined_first_def)

lemma route_of_candidates_Cons:
  "route_of_candidates (c # cs) =
     (if candidate_rejected c then examined_first [c] (route_of_candidates cs)
      else
        \<lparr>cr_kind = (if hc_placement c = Local_Placement then Local else Remote),
         cr_peer = (if hc_placement c = Local_Placement then None else Some (hc_host c)),
         cr_host = Some (hc_host c), cr_candidates = [c]\<rparr>)"
  by (cases "dropWhile candidate_rejected cs")
    (simp_all add: route_of_candidates_def examined_first_def Let_def del: dropWhile_eq_Nil_conv)

lemma walk_chain_step:
  "walk_chain peers local_names orac current pre (h # hosts) =
     (let c = candidate_for current peers local_names orac h in
      if candidate_rejected c then walk_chain peers local_names orac current (pre @ [c]) hosts
      else examined_first pre (route_of_candidates [c]))"
  by (simp add: classify_dispatch_host_def candidate_for_def candidate_rejected_def examined_first_def
      route_of_candidates_Cons Let_def)

lemma walk_chain_route:
  "walk_chain peers local_names orac current pre hosts =
     examined_first pre (route_of_candidates (map (candidate_for current peers local_names orac) hosts))"
proof (induction hosts arbitrary: pre)
  case Nil
  show ?case by (simp add: route_of_candidates_def examined_first_def)
next
  case (Cons h hosts)
  then show ?case
    by (simp add: walk_chain_step Let_def route_of_candidates_Cons examined_first_append del: walk_chain.simps)
qed

lemma examined_first_Nil: "examined_first [] route = route"
  by (simp add: examined_first_def)

text \<open>
  C36: the chain resolver computes the reference: an absent pin is local; otherwise each name of
  the chain is judged on its own and the first that no evidence rejects is the route, local when
  it names this machine and remote to that peer when it does not; the trail holds exactly the
  rejected names before it and the winner, and the route is unroutable only when every name was
  rejected. A plain string is never probed.
\<close>

theorem chain_takes_first_unrejected:
  "resolve_host_chain spec_host current peers local_names reach =
     (if chain_hosts spec_host = [] then
        \<lparr>cr_kind = Local, cr_peer = None, cr_host = None, cr_candidates = []\<rparr>
      else route_of_candidates
        (map (candidate_for current peers local_names
            (case spec_host of Some (Host _) \<Rightarrow> None | _ \<Rightarrow> reach)) (chain_hosts spec_host)))"
  by (simp add: resolve_host_chain_def walk_chain_route examined_first_Nil)

lemma unsure_probe: "probe None h = Unsure"
  by (simp add: probe_def)

lemma resolve_route:
  "chain_hosts spec_host \<noteq> [] \<Longrightarrow> resolve_host_chain spec_host current peers local_names reach =
     route_of_candidates
        (map (candidate_for current peers local_names
            (case spec_host of Some (Host _) \<Rightarrow> None | _ \<Rightarrow> reach)) (chain_hosts spec_host))"
  by (simp add: resolve_host_chain_def walk_chain_route examined_first_Nil)

text \<open>
  Without an oracle a chain is not reduced to its first entry: an entry that names no machine is
  passed over.
\<close>

theorem chain_skips_unknown_head:
  assumes "h \<noteq> []" and "h \<noteq> current" and "h \<notin> set local_names" and "\<not> peers h"
    and "p \<noteq> []" and "p \<noteq> current" and "p \<notin> set local_names" and "peers p"
  shows "classify_dispatch_host (Some h) current peers local_names = (Unknown_Placement, None)
    \<and> classify_spec_host_route (Some (Chain [h, p])) current peers local_names None = (Remote_Placement, Some p)"
  using assms
  by (simp add: classify_dispatch_host_def classify_spec_host_route_def resolve_route chain_hosts_def
      route_of_candidates_def candidate_for_def candidate_rejected_def unsure_probe route_to_legacy_kind_def)

text \<open>
  A chain that names this machine behind a peer is dispatched to the peer, and the preflight of
  \<open>--resume\<close>, which asks \<open>is_remote_placement\<close>, takes it for local.
\<close>

theorem preflight_misjudges_chain:
  assumes "p \<noteq> []" and "p \<noteq> current" and "p \<notin> set local_names" and "peers p" and "current \<noteq> []"
    and "\<And>ask. reach = Some ask \<Longrightarrow> ask p \<noteq> Inr ''unreachable''"
  shows "\<not> is_remote_placement (Some (Chain [p, current])) current
    \<and> cr_kind (resolve_host_chain (Some (Chain [p, current])) current peers local_names reach) = Remote"
proof -
  have "probe reach p \<noteq> Unreachable"
    using assms(6) by (auto simp: probe_def split: option.splits sum.splits)
  then show ?thesis
    using assms
    by (simp add: is_remote_placement_def resolve_route chain_hosts_def route_of_candidates_def candidate_for_def
        candidate_rejected_def)
qed

text \<open>
  For a plain string the peer-table-free question and the resolver agree: the placement is remote
  exactly when the resolver does not keep it here.
\<close>

theorem string_placement_agrees:
  "is_remote_placement (Some (Host h)) current \<longleftrightarrow>
     cr_kind (resolve_host_chain (Some (Host h)) current peers [] reach) \<noteq> Local"
  by (simp add: is_remote_placement_def resolve_host_chain_def chain_hosts_def classify_dispatch_host_def
      probe_def Let_def)

text \<open>A dispatch is never to this machine, and never to a host a probe found down.\<close>

lemma route_peer:
  assumes "cr_peer (resolve_host_chain spec_host current peers local_names reach) = Some p"
  shows "p \<noteq> current \<and> p \<notin> set local_names \<and> peers p
    \<and> (\<forall>hs. spec_host = Some (Chain hs) \<longrightarrow> p \<in> set hs \<and> probe reach p \<noteq> Unreachable)"
proof -
  let ?orac = "case spec_host of Some (Host _) \<Rightarrow> None | _ \<Rightarrow> reach"
  let ?cs = "map (candidate_for current peers local_names ?orac) (chain_hosts spec_host)"
  have nonempty: "chain_hosts spec_host \<noteq> []" using assms by (auto simp: resolve_host_chain_def)
  with assms have peer: "cr_peer (route_of_candidates ?cs) = Some p" by (simp add: resolve_route)
  obtain c cs where d: "dropWhile candidate_rejected ?cs = c # cs"
    using peer by (cases "dropWhile candidate_rejected ?cs") (simp_all add: route_of_candidates_def)
  have "c \<in> set ?cs" "\<not> candidate_rejected c"
    using d by (metis list.set_intros(1) set_dropWhileD, metis dropWhile_eq_Cons_conv)
  moreover from this obtain h where h: "h \<in> set (chain_hosts spec_host)"
    "c = candidate_for current peers local_names ?orac h" by auto
  moreover have "hc_placement c \<noteq> Local_Placement" "p = hc_host c"
    using peer d by (simp_all add: route_of_candidates_def split: if_splits)
  ultimately have "h = p" "p \<noteq> current" "p \<notin> set local_names" "peers p" "probe ?orac p \<noteq> Unreachable"
    by (auto simp: candidate_for_def candidate_rejected_def split: if_splits)
  with h(1) show ?thesis by (auto simp: chain_hosts_def)
qed

text \<open>
  The singleton guard skips only an agent that is not bound to this machine; when it is bound to
  hosts at all, one of them has it running.
\<close>

theorem skip_leaves_agent_running:
  assumes "resolve_singleton_skip c hostname no_redispatch live_on local_names = Some reason"
  shows "\<not> no_redispatch \<and> hostname \<notin> set (bound_hosts c) \<and> set local_names \<inter> set (bound_hosts c) = {}
    \<and> (bound_hosts c = [] \<or> (\<exists>h \<in> set (bound_hosts c). live_on (pc_name c) h))"
  using assms
  by (auto simp: resolve_singleton_skip_def singleton_skip_reason_def bound_hosts_def chain_hosts_def pinned_def
      list_ex_iff Let_def split: if_splits option.splits pin.splits)

end
