(* ===== verification/Reconcile_Rule.thy ===== *)
theory Reconcile_Rule
  imports Placement
begin

text \<open>
  The fleet reconciler's decision about one agent: \<open>_reconcile/_rule.py\<close>, with what it is handed:
  the tmux reading of \<open>_lifecycle/_verdict_tmux.py\<close>, the session names of
  \<open>runtimes/_tui_session_names.py\<close> and the pin of \<open>_reconcile/_pass.py\<close>.
\<close>

subsection \<open>The rule\<close>

definition MANAGED_POLICIES :: "string list" where
  "MANAGED_POLICIES = [''always'', ''on-failure'']"

definition DELIBERATE_EXIT_REASONS :: "string list" where
  "DELIBERATE_EXIT_REASONS = [''stopped'', ''deleted'']"

definition UNEXPECTED_EXIT_REASONS :: "string list" where
  "UNEXPECTED_EXIT_REASONS = [''pid_absent_at_sweep'', ''crashed'', ''reboot-swept'']"

definition BOOKKEEPING_EXIT_REASONS :: "string list" where
  "BOOKKEEPING_EXIT_REASONS = [''superseded'', ''stale-cleared'']"

datatype fate =
    Not_Managed | Fine | Blind | Skipped | Restart
  | Would_Restart | Restarted | Failed | Over_Budget | Cooling_Down | Capped | Budget_Unknown
  | Fleet_Blackout | Unobserved

record decision =
  de_verdict :: fate
  de_reason :: string
  de_detail :: msg

definition mk_decision :: "fate \<Rightarrow> string \<Rightarrow> msg list \<Rightarrow> decision" where
  "mk_decision v reason args = \<lparr>de_verdict = v, de_reason = reason, de_detail = Fmt reason args\<rparr>"

text \<open>The columns of the latest \<open>instances\<close> row that the rule reads.\<close>

record instance_row =
  in_remote :: bool
  in_host :: "string option"
  in_ended_at :: "string option"
  in_exit_reason :: "string option"

definition exit_reason_in :: "string option \<Rightarrow> string list \<Rightarrow> bool" where
  "exit_reason_in reason rs = (case reason of None \<Rightarrow> False | Some r \<Rightarrow> r \<in> set rs)"

definition truthy_opt :: "string option \<Rightarrow> bool" where
  "truthy_opt s = (case s of None \<Rightarrow> False | Some t \<Rightarrow> t \<noteq> [])"

definition decide_fate ::
    "string \<Rightarrow> string \<Rightarrow> tri \<Rightarrow> tri \<Rightarrow> instance_row option \<Rightarrow> string option \<Rightarrow> tri \<Rightarrow> decision" where
  "decide_fate name policy probe_ran session_present row local_host declared_host_is_local =
     (if policy \<notin> set MANAGED_POLICIES then mk_decision Not_Managed ''policy-never'' [Txt policy, Txt name]
      else if declared_host_is_local = No then mk_decision Skipped ''pinned-elsewhere'' [Txt name]
      else if probe_ran = Unknown then mk_decision Blind ''could-not-look'' [Txt name]
      else if session_present = Yes then mk_decision Fine ''session-alive'' [Txt name]
      else
        (case row of
           None \<Rightarrow> mk_decision Skipped ''never-started'' [Txt name]
         | Some r \<Rightarrow>
             if in_remote r then mk_decision Skipped ''remote'' [Txt name]
             else if truthy_opt local_host \<and> truthy_opt (in_host r) \<and> in_host r \<noteq> local_host
               then mk_decision Skipped ''other-host'' [Txt name, opt_msg (in_host r), opt_msg local_host]
             else if in_ended_at r = None then mk_decision Restart ''ghost-active-row'' [Txt name]
             else if exit_reason_in (in_exit_reason r) DELIBERATE_EXIT_REASONS
               then mk_decision Skipped ''deliberate'' [Txt name, opt_msg (in_exit_reason r)]
             else if exit_reason_in (in_exit_reason r) UNEXPECTED_EXIT_REASONS
               then mk_decision Restart ''died-unexpectedly'' [Txt name, opt_msg (in_exit_reason r)]
             else if exit_reason_in (in_exit_reason r) BOOKKEEPING_EXIT_REASONS
               then mk_decision Skipped ''bookkeeping'' [Txt name, opt_msg (in_exit_reason r)]
             else mk_decision Skipped ''unrecognised-exit-reason'' [Txt name, opt_msg (in_exit_reason r)]))"

subsection \<open>Session names: \<open>_tui_session_names.py\<close>\<close>

definition LEGACY_TUI_PREFIX :: string where
  "LEGACY_TUI_PREFIX = ''tui-''"

definition canonical_session_name :: "string \<Rightarrow> string result" where
  "canonical_session_name agent =
     (if agent = [] then Inl (ValueError ''agent name must be non-empty'') else Inr agent)"

definition legacy_session_name :: "string \<Rightarrow> string result" where
  "legacy_session_name agent =
     (if agent = [] then Inl (ValueError ''agent name must be non-empty'') else Inr (LEGACY_TUI_PREFIX @ agent))"

definition candidate_session_names :: "string \<Rightarrow> (string \<times> string) result" where
  "candidate_session_names agent =
     (if agent = [] then Inl (ValueError ''agent name must be non-empty'')
      else
        (let legacy = (if starts_with agent LEGACY_TUI_PREFIX then agent else LEGACY_TUI_PREFIX @ agent) in
         if legacy = agent then Inr (agent, LEGACY_TUI_PREFIX @ agent) else Inr (agent, legacy)))"

definition resolve_live_session :: "string \<Rightarrow> string list option \<Rightarrow> string result" where
  "resolve_live_session agent sessions =
     bind_result (candidate_session_names agent) (\<lambda>(bare, legacy).
       case sessions of
         None \<Rightarrow> Inr bare
       | Some live \<Rightarrow>
           if bare \<in> set live then Inr bare
           else if legacy \<in> set live then Inr legacy
           else Inr bare)"

definition session_present_in :: "string \<Rightarrow> string list option \<Rightarrow> tri result" where
  "session_present_in agent sessions =
     (case sessions of
        None \<Rightarrow> Inr Unknown
      | Some live \<Rightarrow>
          bind_result (candidate_session_names agent)
            (\<lambda>(bare, legacy). Inr (Some (bare \<in> set live \<or> legacy \<in> set live))))"

definition agent_of_session :: "string \<Rightarrow> string" where
  "agent_of_session session =
     (if starts_with session LEGACY_TUI_PREFIX then drop (length LEGACY_TUI_PREFIX) session else session)"

definition session_aliases :: "string \<Rightarrow> string list" where
  "session_aliases session_name =
     (if starts_with session_name LEGACY_TUI_PREFIX then [] else [LEGACY_TUI_PREFIX @ session_name])"

definition session_and_aliases :: "string \<Rightarrow> string list" where
  "session_and_aliases session_name = session_name # session_aliases session_name"

definition resolve_against_snapshot :: "string \<Rightarrow> string list option \<Rightarrow> tri" where
  "resolve_against_snapshot session_name snapshot =
     (case snapshot of
        None \<Rightarrow> Unknown
      | Some live \<Rightarrow>
          Some (session_name \<in> set live \<or> list_ex (\<lambda>a. a \<in> set live) (session_aliases session_name)))"

subsection \<open>The tmux reading: \<open>_verdict_tmux.py\<close> and \<open>_tmux_probe.py\<close>\<close>

text \<open>
  \<open>_list_sessions_field\<close>: what came of \<open>tmux list-sessions\<close> (\<open>None\<close> when it could not be run or
  timed out), read into the live sessions and whether there is a server. A line is a name, a tab
  and an integer; the others are dropped. \<open>stderr\<close> is compared in lower case.
\<close>

record tmux_run =
  tm_exit_code :: int
  tm_stdout :: string
  tm_stderr :: string

definition lower_char :: "char \<Rightarrow> char" where
  "lower_char c =
     (if CHR ''A'' \<le> c \<and> c \<le> CHR ''Z'' then char_of ((of_char c :: nat) + 32) else c)"

fun is_infix :: "string \<Rightarrow> string \<Rightarrow> bool" where
  "is_infix needle [] = (needle = [])"
| "is_infix needle (c # cs) = (starts_with (c # cs) needle \<or> is_infix needle cs)"

definition is_no_server :: "string \<Rightarrow> bool" where
  "is_no_server stderr =
     (let low = map lower_char stderr in
      list_ex (\<lambda>marker. is_infix marker low) [''no server running'', ''no such file or directory''])"

text \<open>\<open>int(raw.strip())\<close> on an ASCII text without underscores: an optional sign and digits.\<close>

definition parse_int :: "string \<Rightarrow> int option" where
  "parse_int raw =
     (let s = strip raw in
      case s of
        [] \<Rightarrow> None
      | c # cs \<Rightarrow>
          if c = CHR ''-'' then (if is_digits cs then Some (- int_of_digits cs) else None)
          else if c = CHR ''+'' then (if is_digits cs then Some (int_of_digits cs) else None)
          else if is_digits s then Some (int_of_digits s) else None)"

definition session_line :: "string \<Rightarrow> (string \<times> int) option" where
  "session_line line =
     (let name = takeWhile (\<lambda>c. c \<noteq> CHR 0x09) line; rest = dropWhile (\<lambda>c. c \<noteq> CHR 0x09) line in
      if rest = [] \<or> name = [] then None
      else (case parse_int (tl rest) of None \<Rightarrow> None | Some n \<Rightarrow> Some (name, n)))"

definition list_sessions_field :: "tmux_run option \<Rightarrow> (string \<times> int) list option \<times> tri" where
  "list_sessions_field run =
     (case run of
        None \<Rightarrow> (None, Unknown)
      | Some r \<Rightarrow>
          if tm_exit_code r \<noteq> 0 then (if is_no_server (tm_stderr r) then (Some [], No) else (None, Unknown))
          else (Some (List.map_filter session_line (splitlines (tm_stdout r))), Yes))"

definition list_sessions_activity :: "tmux_run option \<Rightarrow> string list option" where
  "list_sessions_activity run = map_option (map fst) (fst (list_sessions_field run))"

text \<open>\<open>_observed_snapshot\<close>: an empty fleet seen from inside a container is no observation.\<close>

definition observed_snapshot :: "string list option result \<Rightarrow> bool \<Rightarrow> string list option" where
  "observed_snapshot snapshot in_sif =
     (case snapshot of
        Inl _ \<Rightarrow> None
      | Inr None \<Rightarrow> None
      | Inr (Some live) \<Rightarrow> if live = [] \<and> in_sif then None else Some live)"

definition tmux_session_observation ::
    "string \<Rightarrow> string list \<Rightarrow> string list option result \<Rightarrow> bool \<Rightarrow> tri \<times> tri" where
  "tmux_session_observation session_name aliases snapshot in_sif =
     (case observed_snapshot snapshot in_sif of
        None \<Rightarrow> (Unknown, Unknown)
      | Some live \<Rightarrow>
          if session_name \<in> set live then (Yes, Yes)
          else (Yes, Some (list_ex (\<lambda>a. a \<in> set live) aliases)))"

text \<open>\<open>session_name_for_config\<close>: the agent's name, also when the runtime's helper raises.\<close>

definition session_name_for_config :: "string \<Rightarrow> string" where
  "session_name_for_config name = (case canonical_session_name name of Inl _ \<Rightarrow> name | Inr s \<Rightarrow> s)"

definition observe_session :: "string \<Rightarrow> string list option result \<Rightarrow> bool \<Rightarrow> tri \<times> tri" where
  "observe_session name snapshot in_sif =
     (let session = session_name_for_config name in
      tmux_session_observation session (session_aliases session) snapshot in_sif)"

subsection \<open>The pin, as the pass resolves it\<close>

text \<open>
  \<open>_declared_host_is_local\<close>: the route is asked without the other spellings of this machine and
  without an oracle.
\<close>

definition declared_host_is_local :: "pin option \<Rightarrow> string \<Rightarrow> (string \<Rightarrow> bool) \<Rightarrow> tri" where
  "declared_host_is_local spec_host here peers =
     (if \<not> pinned spec_host then Unknown
      else Some (fst (classify_spec_host_route spec_host here peers [] None) = Local_Placement))"

subsection \<open>What the rule decides\<close>

text \<open>
  A corpse sac promised to restart: the policy is managed, the pin does not name another host,
  the reading was taken and shows no session, and the last row is of a local agent that either
  never recorded an end or ended with a reason that means nobody asked for it.
\<close>

definition is_corpse ::
    "string \<Rightarrow> tri \<Rightarrow> tri \<Rightarrow> instance_row option \<Rightarrow> string option \<Rightarrow> tri \<Rightarrow> bool" where
  "is_corpse policy probe_ran session_present row local_host declared \<longleftrightarrow>
     policy \<in> set MANAGED_POLICIES \<and> declared \<noteq> No \<and> probe_ran \<noteq> Unknown \<and> session_present \<noteq> Yes
     \<and> (case row of
          None \<Rightarrow> False
        | Some r \<Rightarrow>
            \<not> in_remote r
            \<and> (truthy_opt local_host \<longrightarrow> truthy_opt (in_host r) \<longrightarrow> in_host r = local_host)
            \<and> (in_ended_at r = None \<or> exit_reason_in (in_exit_reason r) UNEXPECTED_EXIT_REASONS))"

lemma reasons_disjoint:
  "exit_reason_in r UNEXPECTED_EXIT_REASONS \<Longrightarrow> \<not> exit_reason_in r DELIBERATE_EXIT_REASONS"
  by (auto simp: exit_reason_in_def UNEXPECTED_EXIT_REASONS_def DELIBERATE_EXIT_REASONS_def split: option.splits)

lemma decide_restart_iff:
  "de_verdict (decide_fate name policy probe_ran session_present row local_host declared) = Restart \<longleftrightarrow>
     is_corpse policy probe_ran session_present row local_host declared"
  by (auto simp: decide_fate_def is_corpse_def mk_decision_def dest: reasons_disjoint split: option.splits)

lemma decide_verdict_range:
  "de_verdict (decide_fate name policy probe_ran session_present row local_host declared)
     \<in> {Not_Managed, Fine, Blind, Skipped, Restart}"
  by (auto simp: decide_fate_def mk_decision_def split: option.splits)

text \<open>
  A pin that names neither this machine nor a peer cannot be routed, and the pass reads it as
  pinned elsewhere, not as an unknown: whatever died under it stays down.
\<close>

theorem unroutable_pin_strands_agent:
  assumes "h \<noteq> []" and "h \<noteq> here" and "\<not> peers h" and "policy \<in> set MANAGED_POLICIES"
  shows "fst (classify_spec_host_route (Some (Host h)) here peers [] None) = Unknown_Placement
    \<and> de_reason (decide_fate name policy probe_ran present row local_host
        (declared_host_is_local (Some (Host h)) here peers)) = ''pinned-elsewhere''"
  using assms
  by (simp add: declared_host_is_local_def pinned_def classify_spec_host_route_def route_to_legacy_kind_def
      resolve_route chain_hosts_def route_of_candidates_def candidate_for_def candidate_rejected_def
      decide_fate_def mk_decision_def)

text \<open>The two session lookups agree on an agent whose name carries no legacy prefix.\<close>

theorem session_lookups_agree:
  assumes "agent \<noteq> []" and "\<not> starts_with agent LEGACY_TUI_PREFIX"
  shows "session_present_in agent sessions = Inr (resolve_against_snapshot agent sessions)
    \<and> agent_of_session agent = agent \<and> agent_of_session (LEGACY_TUI_PREFIX @ agent) = agent"
  using assms
  by (simp add: session_present_in_def resolve_against_snapshot_def candidate_session_names_def Let_def
      session_aliases_def agent_of_session_def split: option.splits)

end
