(* ===== verification/Reconcile_Budget.thy ===== *)
theory Reconcile_Budget
  imports Reconcile_Rule
begin

text \<open>
  The reconciler's memory of the restarts it made and the limits it keeps:
  \<open>_reconcile/_budget.py\<close>.

  The history file is part of the state: what a read of it finds. A write replaces it whole, or
  raises and leaves it as it was; whether the disk takes a write is the environment's \<open>re_write\<close>.
\<close>

subsection \<open>JSON values and the file\<close>

datatype json =
    JNull | JBool bool | JInt int | JFloat rat | JStr string | JList "json list"
  | JObj "(string \<times> json) list"

datatype history_file =
    Missing                   \<comment> \<open>\<open>FileNotFoundError\<close>\<close>
  | Forbidden                 \<comment> \<open>\<open>PermissionError\<close>\<close>
  | Unreachable_File          \<comment> \<open>another \<open>OSError\<close>\<close>
  | Undecodable               \<comment> \<open>bytes that are not UTF-8: \<open>read_text\<close> raises \<open>UnicodeDecodeError\<close>\<close>
  | Unparsable                \<comment> \<open>\<open>json.loads\<close> raises \<open>ValueError\<close>\<close>
  | Holding json

record 'w node =
  nd_history :: history_file
  nd_world :: 'w

record 'w restart_env =
  re_write :: "'w \<Rightarrow> bool \<times> 'w"
  re_restart :: "string \<Rightarrow> ('w, bool) prog"

definition write_history :: "'w restart_env \<Rightarrow> json \<Rightarrow> (('w, 'z) node_scheme, unit) prog" where
  "write_history e value s =
     (case re_write e (nd_world s) of
        (True, w) \<Rightarrow> (Inr (), s\<lparr>nd_history := Holding value, nd_world := w\<rparr>)
      | (False, w) \<Rightarrow> (Inl (OtherError ''OSError''), s\<lparr>nd_world := w\<rparr>))"

subsection \<open>Reading and writing the history\<close>

type_synonym history = "(string \<times> time list) list"

datatype history_state = History_Ok | First_Run | Denied | Unreadable

record history_read =
  hr_state :: history_state
  hr_history :: history
  hr_detail :: msg

definition enforceable :: "history_read \<Rightarrow> bool" where
  "enforceable r \<longleftrightarrow> hr_state r = History_Ok \<or> hr_state r = First_Run"

definition prove_writable :: "'w restart_env \<Rightarrow> (('w, 'z) node_scheme, history_read) prog" where
  "prove_writable e s =
     (case write_history e (JObj []) s of
        (Inl _, s') \<Rightarrow>
          (Inr \<lparr>hr_state = Denied, hr_history = [], hr_detail = Fmt ''cannot_be_created'' []\<rparr>, s')
      | (Inr _, s') \<Rightarrow>
          (Inr \<lparr>hr_state = First_Run, hr_history = [], hr_detail = empty_msg\<rparr>, s'))"

text \<open>\<open>float(t)\<close>: an integer beyond the largest float raises \<open>OverflowError\<close>.\<close>

definition float_of :: "json \<Rightarrow> time result" where
  "float_of j =
     (case j of
        JBool b \<Rightarrow> Inr (if b then 1 else 0)
      | JInt i \<Rightarrow> if \<bar>i\<bar> < 2 ^ 1024 - 2 ^ 970 then Inr (of_int i) else Inl (OtherError ''OverflowError'')
      | JFloat x \<Rightarrow> Inr x
      | _ \<Rightarrow> Inl (OtherError ''TypeError''))"

definition is_number :: "json \<Rightarrow> bool" where
  "is_number j = (case j of JBool _ \<Rightarrow> True | JInt _ \<Rightarrow> True | JFloat _ \<Rightarrow> True | _ \<Rightarrow> False)"

fun read_entries :: "(string \<times> json) list \<Rightarrow> history result" where
  "read_entries [] = Inr []"
| "read_entries ((name, JList stamps) # rest) =
     bind_result (map_result float_of (filter is_number stamps)) (\<lambda>ts.
       bind_result (read_entries rest) (\<lambda>h. Inr ((name, ts) # h)))"
| "read_entries ((name, _) # rest) = read_entries rest"

definition unreadable :: "string \<Rightarrow> history_read" where
  "unreadable t = \<lparr>hr_state = Unreadable, hr_history = [], hr_detail = Fmt t []\<rparr>"

definition read_history :: "'w restart_env \<Rightarrow> (('w, 'z) node_scheme, history_read) prog" where
  "read_history e s =
     (case nd_history s of
        Missing \<Rightarrow> prove_writable e s
      | Forbidden \<Rightarrow>
          (Inr \<lparr>hr_state = Denied, hr_history = [], hr_detail = Fmt ''cannot_read'' []\<rparr>, s)
      | Unreachable_File \<Rightarrow> (Inr (unreadable ''cannot_read''), s)
      | Undecodable \<Rightarrow> (Inl (ValueError ''UnicodeDecodeError''), s)
      | Unparsable \<Rightarrow> (Inr (unreadable ''not_parseable''), s)
      | Holding (JObj entries) \<Rightarrow>
          (bind_result (read_entries entries)
             (\<lambda>h. Inr \<lparr>hr_state = History_Ok, hr_history = h, hr_detail = empty_msg\<rparr>), s)
      | Holding _ \<Rightarrow> (Inr (unreadable ''not_an_object''), s))"

definition load_history :: "'w restart_env \<Rightarrow> (('w, 'z) node_scheme, history) prog" where
  "load_history e = seq (read_history e) (\<lambda>r. ret (hr_history r))"

definition WINDOW_S :: time where "WINDOW_S = 3600"
definition DEBOUNCE_S :: time where "DEBOUNCE_S = 1800"
definition MAX_RESTARTS_PER_AGENT_PER_HOUR :: nat where "MAX_RESTARTS_PER_AGENT_PER_HOUR = 2"
definition DEFAULT_PASS_CAP :: int where "DEFAULT_PASS_CAP = 10"

definition prune_history :: "time \<Rightarrow> history \<Rightarrow> history" where
  "prune_history now h =
     filter (\<lambda>(_, ts). ts \<noteq> [])
       (map (\<lambda>(name, ts). (name, sort (filter (\<lambda>t. now - t < WINDOW_S) ts))) h)"

text \<open>\<open>json.dumps(..., sort_keys=True)\<close> of a history.\<close>

definition json_of_history :: "history \<Rightarrow> json" where
  "json_of_history h = JObj (map (\<lambda>(name, ts). (name, JList (map JFloat ts))) (sort_key fst h))"

definition save_history :: "'w restart_env \<Rightarrow> history \<Rightarrow> time \<Rightarrow> (('w, 'z) node_scheme, unit) prog" where
  "save_history e h now = write_history e (json_of_history (prune_history now h))"

subsection \<open>The budget\<close>

record budget =
  bu_history :: history
  bu_pass_cap :: int
  bu_spent :: int

record budget_check =
  bc_allowed :: bool
  bc_reason :: string
  bc_detail :: msg

definition stamps_of :: "history \<Rightarrow> string \<Rightarrow> time list" where
  "stamps_of h name = (case map_of h name of None \<Rightarrow> [] | Some ts \<Rightarrow> ts)"

definition recent_stamps :: "history \<Rightarrow> string \<Rightarrow> time \<Rightarrow> time list" where
  "recent_stamps h name now = filter (\<lambda>t. now - t < WINDOW_S) (stamps_of h name)"

text \<open>\<open>max(xs)\<close> of a non-empty list, and \<open>int(x)\<close>, which truncates towards zero.\<close>

fun latest :: "time list \<Rightarrow> time" where
  "latest [] = 0"
| "latest [t] = t"
| "latest (t # ts) = max t (latest ts)"

definition whole_seconds :: "time \<Rightarrow> int" where
  "whole_seconds x = (if 0 \<le> x then \<lfloor>x\<rfloor> else \<lceil>x\<rceil>)"

definition budget_check :: "budget \<Rightarrow> string \<Rightarrow> time \<Rightarrow> budget_check" where
  "budget_check b name now =
     (let recent = recent_stamps (bu_history b) name now in
      if recent \<noteq> [] \<and> now - latest recent < DEBOUNCE_S then
        \<lparr>bc_allowed = False, bc_reason = ''debounce'',
         bc_detail = Fmt ''debounce'' [Num (whole_seconds (now - latest recent))]\<rparr>
      else if MAX_RESTARTS_PER_AGENT_PER_HOUR \<le> length recent then
        \<lparr>bc_allowed = False, bc_reason = ''over-budget'',
         bc_detail = Fmt ''over_budget'' [Num (int (length recent))]\<rparr>
      else if bu_pass_cap b \<le> bu_spent b then
        \<lparr>bc_allowed = False, bc_reason = ''pass-cap'',
         bc_detail = Fmt ''pass_cap'' [Num (bu_spent b), Num (bu_pass_cap b)]\<rparr>
      else \<lparr>bc_allowed = True, bc_reason = ''within-budget'', bc_detail = empty_msg\<rparr>)"

text \<open>\<open>history.setdefault(name, []).append(now)\<close>.\<close>

fun append_stamp :: "history \<Rightarrow> string \<Rightarrow> time \<Rightarrow> history" where
  "append_stamp [] name now = [(name, [now])]"
| "append_stamp ((n, ts) # h) name now =
     (if n = name then (n, ts @ [now]) # h else (n, ts) # append_stamp h name now)"

definition budget_record :: "budget \<Rightarrow> string \<Rightarrow> time \<Rightarrow> budget" where
  "budget_record b name now =
     b\<lparr>bu_history := append_stamp (bu_history b) name now, bu_spent := bu_spent b + 1\<rparr>"

subsection \<open>What the memory keeps\<close>

lemma stamps_append: "stamps_of (append_stamp h name now) n = stamps_of h n @ (if n = name then [now] else [])"
  by (induction h name now rule: append_stamp.induct) (auto simp: stamps_of_def split: if_splits option.splits)

lemma keys_append: "fst ` set (append_stamp h name now) = insert name (fst ` set h)"
  by (induction h name now rule: append_stamp.induct) auto

lemma distinct_append: "distinct (map fst h) \<Longrightarrow> distinct (map fst (append_stamp h name now))"
proof (induction h name now rule: append_stamp.induct)
  case (2 n ts h name now)
  then show ?case using keys_append [of h name now] by auto
qed simp

lemma keys_prune: "n \<in> fst ` set (prune_history now h) \<Longrightarrow> n \<in> fst ` set h"
  by (force simp: prune_history_def)

lemma prune_Cons:
  "prune_history now ((n, ts) # h) =
     (let ss = sort (filter (\<lambda>t. now - t < WINDOW_S) ts) in
      if ss = [] then prune_history now h else (n, ss) # prune_history now h)"
  by (simp add: prune_history_def Let_def)

lemma map_of_prune:
  "distinct (map fst h) \<Longrightarrow> map_of (prune_history now h) n =
     (case map_of h n of None \<Rightarrow> None
      | Some ts \<Rightarrow> (let ss = sort (filter (\<lambda>t. now - t < WINDOW_S) ts) in if ss = [] then None else Some ss))"
proof (induction h)
  case (Cons p h)
  obtain m ts where p: "p = (m, ts)" by fastforce
  have "map_of (prune_history now h) m = None" using Cons.prems p keys_prune [of m now h]
    by (auto simp: map_of_eq_None_iff)
  then show ?case using Cons p by (auto simp: prune_Cons Let_def)
qed (simp add: prune_history_def)

lemma stamps_prune:
  assumes "distinct (map fst h)"
  shows "stamps_of (prune_history now h) n = sort (filter (\<lambda>t. now - t < WINDOW_S) (stamps_of h n))"
  by (auto simp: stamps_of_def map_of_prune [OF assms] Let_def split: option.splits)

lemma distinct_prune: "distinct (map fst h) \<Longrightarrow> distinct (map fst (prune_history now h))"
proof (induction h)
  case (Cons p h)
  then show ?case using keys_prune [of "fst p" now h] by (cases p) (auto simp: prune_Cons Let_def)
qed (simp add: prune_history_def)

lemma distinct_sorted: "distinct (map fst h) \<Longrightarrow> distinct (map fst (sort_key fst h))"
  using distinct_map [of fst "sort_key fst h"] distinct_map [of fst h] by simp

lemma stamps_sort: "distinct (map fst h) \<Longrightarrow> stamps_of (sort_key fst h) n = stamps_of h n"
  using map_of_eqI [of "sort_key fst h" h] map_of_inject_set [OF distinct_sorted, of h h]
  by (simp add: stamps_of_def)

lemma read_written: "read_entries (map (\<lambda>(name, ts). (name, JList (map JFloat ts))) h) = Inr h"
proof -
  have "map_result float_of (filter is_number (map JFloat ts)) = Inr ts" for ts
    by (induction ts) (simp_all add: float_of_def is_number_def)
  then show ?thesis by (induction h) auto
qed

text \<open>What is written is read back, with the stamps the window keeps.\<close>

lemma read_saved:
  assumes "nd_history s = Holding (json_of_history h)"
  shows "read_history e s =
    (Inr \<lparr>hr_state = History_Ok, hr_history = sort_key fst h, hr_detail = empty_msg\<rparr>, s)"
  using assms by (simp add: read_history_def json_of_history_def read_written)

lemma latest_in: "ts \<noteq> [] \<Longrightarrow> latest ts \<in> set ts"
  by (induction ts rule: latest.induct) (auto simp: max_def)

lemma latest_ge: "t \<in> set ts \<Longrightarrow> t \<le> latest ts"
  by (induction ts rule: latest.induct) (auto simp: max_def)

text \<open>A restart that is allowed comes at least the debounce after every other.\<close>

lemma allowed_iff:
  "bc_allowed (budget_check b name now) \<longleftrightarrow>
     (\<forall>t \<in> set (stamps_of (bu_history b) name). DEBOUNCE_S \<le> now - t)
     \<and> length (recent_stamps (bu_history b) name now) < MAX_RESTARTS_PER_AGENT_PER_HOUR
     \<and> bu_spent b < bu_pass_cap b"
proof -
  let ?recent = "recent_stamps (bu_history b) name now"
  have "?recent \<noteq> [] \<and> now - latest ?recent < DEBOUNCE_S \<longleftrightarrow>
      (\<exists>t \<in> set (stamps_of (bu_history b) name). now - t < DEBOUNCE_S)"
  proof
    assume "\<exists>t \<in> set (stamps_of (bu_history b) name). now - t < DEBOUNCE_S"
    then obtain t where t: "t \<in> set ?recent" "now - t < DEBOUNCE_S"
      by (auto simp: recent_stamps_def WINDOW_S_def DEBOUNCE_S_def)
    with latest_ge [OF t(1)] show "?recent \<noteq> [] \<and> now - latest ?recent < DEBOUNCE_S" by auto
  next
    assume "?recent \<noteq> [] \<and> now - latest ?recent < DEBOUNCE_S"
    then show "\<exists>t \<in> set (stamps_of (bu_history b) name). now - t < DEBOUNCE_S"
      using latest_in [of ?recent] by (auto simp: recent_stamps_def)
  qed
  then show ?thesis by (auto simp: budget_check_def Let_def not_less not_le)
qed

subsection \<open>A memory that keeps attempts apart\<close>

text \<open>
  The interface of a limiter with a memory: an attempt is noted, the memory may be tidied, and an
  attempt is allowed only at a distance of \<open>gap\<close> from every one remembered. The client's lemmas
  are about the log of all attempts ever made, which the memory need not hold in full.
\<close>

definition remembers :: "('h \<Rightarrow> 'k \<Rightarrow> time list) \<Rightarrow> time \<Rightarrow> 'h \<Rightarrow> time \<Rightarrow> ('k \<times> time) list \<Rightarrow> bool" where
  "remembers stamps gap h now trail \<longleftrightarrow>
     (\<forall>k t. (k, t) \<in> set trail \<longrightarrow> now - t < gap \<longrightarrow> t \<in> set (stamps h k))"

locale spacing_limiter =
  fixes stamps :: "'h \<Rightarrow> 'k \<Rightarrow> time list"
    and jot :: "'h \<Rightarrow> 'k \<Rightarrow> time \<Rightarrow> 'h"
    and tidy :: "time \<Rightarrow> 'h \<Rightarrow> 'h"
    and allows :: "'h \<Rightarrow> 'k \<Rightarrow> time \<Rightarrow> bool"
    and wf :: "'h \<Rightarrow> bool"
    and gap :: time
  assumes wf_jot: "wf h \<Longrightarrow> wf (jot h k t)"
    and wf_tidy: "wf h \<Longrightarrow> wf (tidy now h)"
    and jotted: "set (stamps (jot h k t) k') = (if k' = k then insert t (set (stamps h k)) else set (stamps h k'))"
    and tidied: "wf h \<Longrightarrow> t \<in> set (stamps h k) \<Longrightarrow> now - t < gap \<Longrightarrow> t \<in> set (stamps (tidy now h) k)"
    and allowed_apart: "allows h k now \<Longrightarrow> t \<in> set (stamps h k) \<Longrightarrow> gap \<le> now - t"
begin

lemma remembers_jot: "remembers stamps gap h now trail \<Longrightarrow> remembers stamps gap (jot h k t) now (trail @ [(k, t)])"
  by (auto simp: remembers_def jotted)

lemma remembers_tidy:
  "wf h \<Longrightarrow> remembers stamps gap h now trail \<Longrightarrow> remembers stamps gap (tidy now h) now trail"
  by (auto simp: remembers_def tidied)

lemma remembers_later:
  "remembers stamps gap h now trail \<Longrightarrow> now \<le> now' \<Longrightarrow> remembers stamps gap h now' trail"
  by (force simp: remembers_def)

lemma allowed_far: "remembers stamps gap h now trail \<Longrightarrow> allows h k now \<Longrightarrow> (k, t) \<in> set trail \<Longrightarrow> gap \<le> now - t"
  by (metis allowed_apart not_less remembers_def)

end

definition debounced :: "history \<Rightarrow> string \<Rightarrow> time \<Rightarrow> bool" where
  "debounced h name now \<longleftrightarrow> (\<forall>t \<in> set (stamps_of h name). DEBOUNCE_S \<le> now - t)"

definition dict :: "history \<Rightarrow> bool" where
  "dict h \<longleftrightarrow> distinct (map fst h)"

interpretation restarts: spacing_limiter stamps_of append_stamp
  "\<lambda>now h. sort_key fst (prune_history now h)" debounced dict DEBOUNCE_S
  by unfold_locales
    (auto simp: dict_def distinct_append distinct_sorted distinct_prune stamps_append stamps_sort
      stamps_prune debounced_def WINDOW_S_def DEBOUNCE_S_def)

text \<open>
  Attempts of one agent that are the debounce apart: two of them never fall into one window
  without the later one being inside the debounce, so the hourly count does not decide.
\<close>

definition apart :: "time list \<Rightarrow> bool" where
  "apart ts \<longleftrightarrow> sorted_wrt (\<lambda>s t. s + DEBOUNCE_S \<le> t) ts"

definition spaced :: "history \<Rightarrow> time \<Rightarrow> bool" where
  "spaced h now \<longleftrightarrow> (\<forall>n. apart (stamps_of h n) \<and> (\<forall>t \<in> set (stamps_of h n). t \<le> now))"

lemma apart_filter: "apart ts \<Longrightarrow> apart (filter P ts)"
  by (simp add: apart_def sorted_wrt_filter)

lemma apart_sorted: "apart ts \<Longrightarrow> sorted ts"
  by (induction ts) (force simp: apart_def DEBOUNCE_S_def)+

lemma spaced_tidy: "dict h \<Longrightarrow> spaced h now \<Longrightarrow> spaced (sort_key fst (prune_history now h)) now"
  by (auto simp: spaced_def dict_def stamps_sort distinct_prune stamps_prune apart_filter
      apart_sorted sorted_sort_id sorted_wrt_filter)

lemma spaced_later: "spaced h now \<Longrightarrow> now \<le> now' \<Longrightarrow> spaced h now'"
  by (force simp: spaced_def)

lemma spaced_append:
  "spaced h now \<Longrightarrow> debounced h name now \<Longrightarrow> spaced (append_stamp h name now) now"
  by (force simp: spaced_def debounced_def stamps_append apart_def sorted_wrt_append)

lemma spaced_few:
  assumes "spaced h now" and "debounced h name now"
  shows "length (recent_stamps h name now) < MAX_RESTARTS_PER_AGENT_PER_HOUR"
proof (rule ccontr)
  assume "\<not> ?thesis"
  then obtain a b ts where r: "recent_stamps h name now = a # b # ts"
    by (cases "recent_stamps h name now"; cases "tl (recent_stamps h name now)")
      (auto simp: MAX_RESTARTS_PER_AGENT_PER_HOUR_def)
  have "apart (a # b # ts)"
    using assms(1) apart_filter by (metis r recent_stamps_def spaced_def)
  then have "a + DEBOUNCE_S \<le> b" by (simp add: apart_def)
  moreover have "now - a < WINDOW_S" "b \<in> set (stamps_of h name)"
    using arg_cong [OF r, of set] by (auto simp: recent_stamps_def)
  ultimately show False
    using assms(2) by (auto simp: debounced_def WINDOW_S_def DEBOUNCE_S_def)
qed

lemma spaced_allowed:
  "spaced (bu_history b) now \<Longrightarrow>
     bc_allowed (budget_check b name now) \<longleftrightarrow> debounced (bu_history b) name now \<and> bu_spent b < bu_pass_cap b"
  using spaced_few [of "bu_history b" now name] by (auto simp: allowed_iff debounced_def)

lemma never_over_budget:
  assumes "spaced (bu_history b) now"
  shows "bc_reason (budget_check b name now) \<noteq> ''over-budget''"
proof
  let ?recent = "recent_stamps (bu_history b) name now"
  assume r: "bc_reason (budget_check b name now) = ''over-budget''"
  then have few: "\<not> length ?recent < MAX_RESTARTS_PER_AGENT_PER_HOUR"
    and no: "\<not> (?recent \<noteq> [] \<and> now - latest ?recent < DEBOUNCE_S)"
    by (auto simp: budget_check_def Let_def split: if_splits)
  have "DEBOUNCE_S \<le> now - t" if t: "t \<in> set (stamps_of (bu_history b) name)" for t
  proof (rule ccontr)
    assume n: "\<not> DEBOUNCE_S \<le> now - t"
    then have "t \<in> set ?recent" using t by (auto simp: recent_stamps_def WINDOW_S_def DEBOUNCE_S_def)
    with latest_ge [OF this] no n show False by auto
  qed
  then have "debounced (bu_history b) name now" by (simp add: debounced_def)
  with spaced_few [OF assms] few show False by blast
qed

end
