(* ===== verification/Reconcile_Pass.thy ===== *)
theory Reconcile_Pass
  imports Reconcile_Budget
begin

text \<open>
  One pass of the fleet reconciler: the fleet-wide gate of \<open>_reconcile/_blackout.py\<close>, the restarts
  of \<open>_perform.py\<close>, the sweep of \<open>_pass.py\<close>, the verdicts \<open>_alarm.py\<close> records, and the second
  caller of the same budget, \<open>_autostart.py\<close>.

  The state is the history file and the world (\<open>'w node\<close>), extended during a pass by the budget
  read from it. \<open>except Exception\<close> does not catch \<open>SystemExit\<close>. Lines printed to a stream are not
  modelled.
\<close>

subsection \<open>\<open>except Exception\<close>\<close>

fun is_exit :: "py_error \<Rightarrow> bool" where
  "is_exit (SystemExit _) = True"
| "is_exit _ = False"

definition except_exception :: "('s, 'a) prog \<Rightarrow> ('s, 'a result) prog" where
  "except_exception m s =
     (case m s of
        (Inr x, s') \<Rightarrow> (Inr (Inr x), s')
      | (Inl err, s') \<Rightarrow> if is_exit err then (Inl err, s') else (Inr (Inl err), s'))"

subsection \<open>One event or many deaths: \<open>_blackout.py\<close>\<close>

definition FLEET_BLACKOUT_MIN_RESTARTS :: nat where
  "FLEET_BLACKOUT_MIN_RESTARTS = 2"

definition is_fleet_blackout :: "tri \<Rightarrow> nat \<Rightarrow> nat \<Rightarrow> bool" where
  "is_fleet_blackout server_present restart_count min_restarts =
     (if server_present \<noteq> No then False else min_restarts \<le> restart_count)"

definition blackout_detail :: "nat \<Rightarrow> string list \<Rightarrow> msg" where
  "blackout_detail n names =
     Fmt ''fleet_blackout'' [Num (int n), Fmt ''withheld'' (map Txt (take 10 names)), Num (int (length names - 10))]"

subsection \<open>Spending: \<open>_perform.py\<close>\<close>

record agent_report =
  ar_name :: string
  ar_verdict :: fate
  ar_reason :: string
  ar_detail :: msg
  ar_policy :: string

definition mk_report :: "string \<Rightarrow> fate \<Rightarrow> string \<Rightarrow> msg \<Rightarrow> string \<Rightarrow> agent_report" where
  "mk_report name v reason detail policy =
     \<lparr>ar_name = name, ar_verdict = v, ar_reason = reason, ar_detail = detail, ar_policy = policy\<rparr>"

record 'w sweep = "'w node" +
  sw_budget :: "budget option"

definition SPENT :: "fate list" where
  "SPENT = [Restarted, Failed]"

definition budget_verdict :: "string \<Rightarrow> fate option" where
  "budget_verdict reason =
     (if reason = ''debounce'' then Some Cooling_Down
      else if reason = ''over-budget'' then Some Over_Budget
      else if reason = ''pass-cap'' then Some Capped
      else None)"

definition call_restart :: "'w restart_env \<Rightarrow> string \<Rightarrow> (('w, 'z) node_scheme, bool) prog" where
  "call_restart e name s =
     (case re_restart e name (nd_world s) of (r, w) \<Rightarrow> (r, s\<lparr>nd_world := w\<rparr>))"

definition record_restart :: "string \<Rightarrow> time \<Rightarrow> ('w sweep, unit) prog" where
  "record_restart name now =
     put_state (\<lambda>s. s\<lparr>sw_budget := map_option (\<lambda>b. budget_record b name now) (sw_budget s)\<rparr>)"

definition perform ::
    "'w restart_env \<Rightarrow> string \<Rightarrow> decision \<Rightarrow> bool \<Rightarrow> time \<Rightarrow> msg \<Rightarrow> ('w sweep, agent_report) prog" where
  "perform e name d apply_it now budget_detail =
     seq get_state (\<lambda>s.
       case sw_budget s of
         None \<Rightarrow>
           ret (mk_report name Budget_Unknown ''budget-unreadable''
             (Fmt ''not_restarted'' [de_detail d, budget_detail]) [])
       | Some b \<Rightarrow>
           (let check = budget_check b name now in
            if \<not> bc_allowed check then
              (case budget_verdict (bc_reason check) of
                 None \<Rightarrow> raising (OtherError ''KeyError'')
               | Some v \<Rightarrow>
                   ret (mk_report name v (bc_reason check) (Fmt ''not_restarted'' [de_detail d, bc_detail check]) []))
            else if \<not> apply_it then
              ret (mk_report name Would_Restart (de_reason d) (Fmt ''would_restart'' [de_detail d]) [])
            else
              seq (except_exception (call_restart e name)) (\<lambda>r.
                seq (record_restart name now) (\<lambda>_.
                  case r of
                    Inl err \<Rightarrow>
                      ret (mk_report name Failed ''restart-raised''
                        (Fmt ''restart_failed'' [de_detail d, error_msg err]) [])
                  | Inr ok \<Rightarrow>
                      if ok then ret (mk_report name Restarted (de_reason d) (de_detail d) [])
                      else ret (mk_report name Failed ''restart-returned-false''
                        (Fmt ''still_down'' [de_detail d]) []))))
       )"

definition halt_restarts :: "budget \<Rightarrow> budget" where
  "halt_restarts b = b\<lparr>bu_spent := bu_pass_cap b\<rparr>"

text \<open>The history is persisted after each spent restart; when it cannot be, none is authorised any more.\<close>

definition persist_or_halt :: "'w restart_env \<Rightarrow> time \<Rightarrow> ('w sweep, unit) prog" where
  "persist_or_halt e now s =
     (case sw_budget s of
        None \<Rightarrow> (Inr (), s)
      | Some b \<Rightarrow>
          (case save_history e (bu_history b) now s of
             (Inr _, s') \<Rightarrow> (Inr (), s')
           | (Inl _, s') \<Rightarrow> (Inr (), s'\<lparr>sw_budget := Some (halt_restarts b)\<rparr>)))"

type_synonym pending = "string \<times> decision \<times> string"

fun perform_all ::
    "'w restart_env \<Rightarrow> bool \<Rightarrow> time \<Rightarrow> msg \<Rightarrow> pending list \<Rightarrow> ('w sweep, agent_report list) prog" where
  "perform_all e apply_it now budget_detail [] = ret []"
| "perform_all e apply_it now budget_detail ((name, d, policy) # rest) =
     seq (perform e name d apply_it now budget_detail) (\<lambda>report.
       seq (if apply_it \<and> ar_verdict report \<in> set SPENT then persist_or_halt e now else ret ()) (\<lambda>_.
         seq (perform_all e apply_it now budget_detail rest) (\<lambda>reports. ret (report # reports))))"

definition resolve_pending ::
    "'w restart_env \<Rightarrow> pending list \<Rightarrow> tri \<Rightarrow> bool \<Rightarrow> time \<Rightarrow> msg \<Rightarrow> ('w sweep, agent_report list) prog" where
  "resolve_pending e pending server_present apply_it now budget_detail =
     (if is_fleet_blackout server_present (length pending) FLEET_BLACKOUT_MIN_RESTARTS then
        (let detail = blackout_detail (length pending) (map fst pending) in
         ret (map (\<lambda>(name, d, policy).
           mk_report name Fleet_Blackout ''fleet-blackout'' (Fmt ''not_restarted'' [de_detail d, detail]) policy)
           pending))
      else perform_all e apply_it now budget_detail pending)"

subsection \<open>The sweep: \<open>_pass.py\<close>\<close>

record fleet_config =
  fc_name :: string
  fc_policy :: string
  fc_host :: "pin option"

text \<open>
  What a pass is given: its options, the directories of the registry with the configuration each
  spec loads to (\<open>None\<close> when there is no registry), the rows of the store, the tmux readings, the
  names of this machine and the peers.
\<close>

record pass_input =
  pi_apply :: bool
  pi_limit :: int
  pi_now :: time
  pi_specs :: "(string \<times> fleet_config result) list option"
  pi_row :: "string \<Rightarrow> instance_row option result"
  pi_snapshot :: "string list option result"
  pi_in_sif :: bool
  pi_server_present :: tri
  pi_local_host :: string
  pi_here :: string
  pi_peers :: "string \<Rightarrow> bool"

definition fleet_specs :: "pass_input \<Rightarrow> (string \<times> fleet_config result) list" where
  "fleet_specs i =
     (case pi_specs i of
        None \<Rightarrow> []
      | Some ds \<Rightarrow> filter (\<lambda>d. \<not> starts_with (fst d) ''_'') (sort_key fst ds))"

definition spec_report :: "string \<Rightarrow> py_error \<Rightarrow> agent_report" where
  "spec_report dir err = mk_report dir Blind ''spec-unreadable'' (Fmt ''spec_unreadable'' [Txt dir, error_msg err]) []"

definition decide_one :: "pass_input \<Rightarrow> fleet_config \<Rightarrow> decision result" where
  "decide_one i c =
     (let (ran, present) = observe_session (fc_name c) (pi_snapshot i) (pi_in_sif i) in
      bind_result (if fc_policy c \<in> set MANAGED_POLICIES then pi_row i (fc_name c) else Inr None) (\<lambda>row.
        Inr (decide_fate (fc_name c) (fc_policy c) ran present row (Some (pi_local_host i))
          (declared_host_is_local (fc_host c) (pi_here i) (pi_peers i)))))"

fun decide_fleet ::
    "pass_input \<Rightarrow> (string \<times> fleet_config result) list \<Rightarrow> (agent_report list \<times> pending list) result" where
  "decide_fleet i [] = Inr ([], [])"
| "decide_fleet i ((dir, Inl err) # rest) =
     (if is_exit err then Inl err
      else bind_result (decide_fleet i rest) (\<lambda>(reports, pending). Inr (spec_report dir err # reports, pending)))"
| "decide_fleet i ((dir, Inr c) # rest) =
     bind_result (decide_one i c) (\<lambda>d.
       bind_result (decide_fleet i rest) (\<lambda>(reports, pending).
         if de_verdict d \<noteq> Restart then
           Inr (mk_report (fc_name c) (de_verdict d) (de_reason d) (de_detail d) (fc_policy c) # reports, pending)
         else Inr (reports, (fc_name c, d, fc_policy c) # pending)))"

record pass_outcome =
  po_reports :: "agent_report list"
  po_applied :: bool

definition of_verdicts :: "pass_outcome \<Rightarrow> fate list \<Rightarrow> agent_report list" where
  "of_verdicts out vs = filter (\<lambda>r. ar_verdict r \<in> set vs) (po_reports out)"

definition pass_exit_code :: "pass_outcome \<Rightarrow> int" where
  "pass_exit_code out =
     (if of_verdicts out [Blind, Budget_Unknown, Fleet_Blackout] \<noteq> [] then 2
      else if of_verdicts out [Failed, Over_Budget, Cooling_Down, Capped, Would_Restart] \<noteq> [] then 1
      else 0)"

definition ALL_FATES :: "fate list" where
  "ALL_FATES = [Not_Managed, Fine, Blind, Skipped, Restart, Would_Restart, Restarted, Failed, Over_Budget,
     Cooling_Down, Capped, Budget_Unknown, Fleet_Blackout, Unobserved]"

definition pass_counts :: "pass_outcome \<Rightarrow> (fate \<times> nat) list" where
  "pass_counts out =
     filter (\<lambda>(_, n). n \<noteq> 0) (map (\<lambda>v. (v, length (of_verdicts out [v]))) ALL_FATES)"

definition open_budget :: "'w restart_env \<Rightarrow> int \<Rightarrow> ('w sweep, history_read) prog" where
  "open_budget e limit =
     seq (read_history e) (\<lambda>r.
       seq (put_state (\<lambda>s. s\<lparr>sw_budget :=
           if enforceable r then Some \<lparr>bu_history = hr_history r, bu_pass_cap = limit, bu_spent = 0\<rparr>
           else None\<rparr>)) (\<lambda>_. ret r))"

definition final_prune :: "'w restart_env \<Rightarrow> time \<Rightarrow> ('w sweep, unit) prog" where
  "final_prune e now s =
     (case sw_budget s of
        None \<Rightarrow> (Inr (), s)
      | Some b \<Rightarrow> (Inr (), snd (save_history e (bu_history b) now s)))"

definition reconcile_pass :: "'w restart_env \<Rightarrow> pass_input \<Rightarrow> ('w sweep, pass_outcome) prog" where
  "reconcile_pass e i =
     seq (open_budget e (pi_limit i)) (\<lambda>r.
       seq (lift (decide_fleet i (fleet_specs i))) (\<lambda>(reports, pending).
         seq (resolve_pending e pending (pi_server_present i) (pi_apply i) (pi_now i) (hr_detail r)) (\<lambda>acted.
           seq (if pi_apply i then final_prune e (pi_now i) else ret ()) (\<lambda>_.
             ret \<lparr>po_reports = reports @ acted, po_applied = pi_apply i\<rparr>))))"

subsection \<open>What is recorded of an agent: \<open>_alarm.py\<close>\<close>

datatype subject_state = Degraded | Healthy

definition verdict_for :: "agent_report \<Rightarrow> (string \<times> subject_state \<times> fate \<times> msg) option" where
  "verdict_for r =
     (if ar_verdict r \<in> {Failed, Over_Budget} then
        Some (ar_name r, Degraded, ar_verdict r, Fmt ''down'' [Txt (ar_name r), ar_detail r])
      else if ar_verdict r \<in> {Fine, Restarted} then
        Some (ar_name r, Healthy, ar_verdict r, Fmt ''up'' [Txt (ar_name r), ar_detail r])
      else None)"

definition recorded_verdicts :: "agent_report list \<Rightarrow> (string \<times> subject_state \<times> fate \<times> msg) list" where
  "recorded_verdicts reports = List.map_filter verdict_for reports"

subsection \<open>A message to a stopped agent: \<open>_autostart.py\<close>\<close>

definition default_record ::
    "'w restart_env \<Rightarrow> string \<Rightarrow> time \<Rightarrow> (('w, 'z) node_scheme, unit) prog" where
  "default_record e name now =
     seq (load_history e) (\<lambda>h. save_history e (append_stamp h name now) now)"

definition maybe_autostart_for_send ::
    "'w restart_env \<Rightarrow> string \<Rightarrow> string result \<Rightarrow> instance_row option result \<Rightarrow> time
     \<Rightarrow> (('w, 'z) node_scheme, bool \<times> msg) prog" where
  "maybe_autostart_for_send e name policy_read row_read now =
     seq (except_exception (lift policy_read)) (\<lambda>p. case p of
       Inl err \<Rightarrow> ret (False, Fmt ''could_not_read_policy'' [error_msg err])
     | Inr policy \<Rightarrow>
         if policy \<notin> set MANAGED_POLICIES then ret (False, Fmt ''not_managed'' [Txt policy])
         else seq (except_exception (lift row_read)) (\<lambda>rr. case rr of
           Inl err \<Rightarrow> ret (False, Fmt ''could_not_read_row'' [error_msg err])
         | Inr row \<Rightarrow>
             (let exit_reason = (case row of None \<Rightarrow> None | Some r \<Rightarrow> in_exit_reason r) in
              if exit_reason_in exit_reason DELIBERATE_EXIT_REASONS then
                ret (False, Fmt ''deliberate'' [opt_msg exit_reason])
              else seq (load_history e) (\<lambda>h.
                (let check = budget_check \<lparr>bu_history = h, bu_pass_cap = DEFAULT_PASS_CAP, bu_spent = 0\<rparr> name now in
                 if \<not> bc_allowed check then
                   ret (False, Fmt ''budget_declined'' [Txt (bc_reason check), bc_detail check])
                 else seq (except_exception (call_restart e name)) (\<lambda>r. case r of
                   Inl err \<Rightarrow> ret (False, Fmt ''raised'' [error_msg err])
                 | Inr ok \<Rightarrow>
                     if \<not> ok then ret (False, Fmt ''reported_failure'' [])
                     else seq (except_exception (default_record e name now)) (\<lambda>d. case d of
                       Inl err \<Rightarrow> ret (True, Fmt ''record_failed'' [error_msg err])
                     | Inr _ \<Rightarrow> ret (True, Fmt ''auto_started'' []))))))))"

end
