(* ===== verification/Reconcile.thy ===== *)
theory Reconcile
  imports Reconcile_Pass
begin

text \<open>
  What the reconciler guarantees: the lemmas about one restart and one pass, the runs of passes
  over one history file, and the properties of both.
\<close>

subsection \<open>One restart\<close>

lemma budget_verdict_refusal:
  "\<not> bc_allowed (budget_check b name now) \<Longrightarrow>
     \<exists>v. budget_verdict (bc_reason (budget_check b name now)) = Some v \<and> v \<in> {Cooling_Down, Over_Budget, Capped}"
  by (auto simp: budget_check_def budget_verdict_def Let_def not_less split: if_splits)

lemma over_budget_reason:
  "budget_verdict (bc_reason (budget_check b name now)) = Some Over_Budget \<Longrightarrow>
     bc_reason (budget_check b name now) = ''over-budget''"
  by (auto simp: budget_verdict_def split: if_splits)

definition spent_report :: "agent_report \<Rightarrow> bool" where
  "spent_report r \<longleftrightarrow> ar_verdict r \<in> set SPENT"

lemma spent_fates: "spent_report r \<longleftrightarrow> ar_verdict r = Restarted \<or> ar_verdict r = Failed"
  by (auto simp: spent_report_def SPENT_def)

text \<open>Nothing is done when the memory is unreadable, the budget refuses or the run is dry.\<close>

lemma perform_quiet:
  assumes "\<And>b. sw_budget s = Some b \<Longrightarrow> bc_allowed (budget_check b name now) \<Longrightarrow> \<not> apply_it"
  obtains rep where "perform e name d apply_it now bd s = (Inr rep, s)" and "\<not> spent_report rep"
    and "ar_verdict rep = Over_Budget \<Longrightarrow>
      (\<exists>b. sw_budget s = Some b \<and> bc_reason (budget_check b name now) = ''over-budget'')"
    and "ar_verdict rep \<in> {Budget_Unknown, Cooling_Down, Over_Budget, Capped, Would_Restart}"
proof (cases "sw_budget s")
  case None
  then show thesis
    by (intro that) (auto simp: perform_def prog mk_report_def spent_fates)
next
  case (Some b)
  show thesis
  proof (cases "bc_allowed (budget_check b name now)")
    case True
    with Some assms show thesis
      by (intro that) (auto simp: perform_def prog mk_report_def spent_fates)
  next
    case False
    from budget_verdict_refusal [OF this] obtain v
      where v: "budget_verdict (bc_reason (budget_check b name now)) = Some v"
        "v \<in> {Cooling_Down, Over_Budget, Capped}" by blast
    with False Some show thesis
      by (intro that) (auto simp: perform_def prog mk_report_def spent_fates Let_def dest: over_budget_reason)
  qed
qed

text \<open>Otherwise the restart is called once; unless it exits the process, it is recorded.\<close>

lemma perform_call:
  assumes "sw_budget s = Some b" and "bc_allowed (budget_check b name now)"
    and "re_restart e name (nd_world s) = (r, w)"
  shows "\<exists>rep. perform e name d True now bd s =
      (case r of
         Inl err \<Rightarrow> if is_exit err then (Inl err, s\<lparr>nd_world := w\<rparr>)
           else (Inr rep, s\<lparr>nd_world := w, sw_budget := Some (budget_record b name now)\<rparr>)
       | Inr ok \<Rightarrow> (Inr rep, s\<lparr>nd_world := w, sw_budget := Some (budget_record b name now)\<rparr>))
    \<and> ar_name rep = name \<and> spent_report rep \<and> (r = Inr True \<longrightarrow> ar_verdict rep = Restarted)"
  using assms exI [of "\<lambda>rep. ar_name rep = name \<and> spent_report rep"
      "mk_report name Failed [] empty_msg []"]
  by (cases r)
    (auto simp: perform_def seq_def get_state_def except_exception_def call_restart_def record_restart_def
      put_state_def ret_def mk_report_def spent_fates Let_def split: bool.splits)

lemma perform_verdict:
  assumes "perform e name d apply_it now bd s = (Inr rep, s')"
  shows "ar_verdict rep \<in> {Budget_Unknown, Cooling_Down, Over_Budget, Capped, Would_Restart, Restarted, Failed}"
proof (cases "\<exists>b. sw_budget s = Some b \<and> bc_allowed (budget_check b name now) \<and> apply_it")
  case True
  then obtain b where b: "sw_budget s = Some b" "bc_allowed (budget_check b name now)" "apply_it" by blast
  obtain r w where r: "re_restart e name (nd_world s) = (r, w)" by fastforce
  from perform_call [OF b(1,2) r, of d bd] b(3) assms show ?thesis
    by (cases r) (auto simp: spent_fates split: if_splits)
next
  case False
  then obtain rep' where "perform e name d apply_it now bd s = (Inr rep', s)"
    "ar_verdict rep' \<in> {Budget_Unknown, Cooling_Down, Over_Budget, Capped, Would_Restart}"
    by (auto intro: perform_quiet [of s name now apply_it e d bd])
  with assms show ?thesis by auto
qed

lemma persist_world:
  obtains w' f' b' where "persist_or_halt e now s = (Inr (), s\<lparr>nd_world := w', nd_history := f', sw_budget := b'\<rparr>)"
    and "sw_budget s = None \<Longrightarrow> b' = None"
    and "\<And>b. sw_budget s = Some b \<Longrightarrow> b' = Some b \<or> b' = Some (halt_restarts b)"
    and "w' = nd_world s \<or> w' = snd (re_write e (nd_world s))"
proof (cases "sw_budget s")
  case None
  then show thesis using that [where w' = "nd_world s" and f' = "nd_history s" and b' = None]
    by (simp add: persist_or_halt_def)
next
  case (Some b)
  obtain ok w' where w: "re_write e (nd_world s) = (ok, w')" by fastforce
  show thesis
  proof (cases ok)
    case True
    then show thesis using Some w
        that [where w' = w' and f' = "Holding (json_of_history (prune_history now (bu_history b)))"
          and b' = "Some b"]
      by (simp add: persist_or_halt_def save_history_def write_history_def)
  next
    case False
    then show thesis using Some w that [where w' = w' and f' = "nd_history s" and b' = "Some (halt_restarts b)"]
      by (simp add: persist_or_halt_def save_history_def write_history_def)
  qed
qed

subsection \<open>Which restarts a pass calls\<close>

text \<open>The same environment, with every call of the restart written down before it is made.\<close>

definition logging :: "'w restart_env \<Rightarrow> (string list \<times> 'w) restart_env" where
  "logging e =
     \<lparr>re_write = (\<lambda>(calls, w). case re_write e w of (ok, w') \<Rightarrow> (ok, (calls, w'))),
      re_restart = (\<lambda>name (calls, w). case re_restart e name w of (r, w') \<Rightarrow> (r, (calls @ [name], w')))\<rparr>"

lemma logging_write: "fst (snd (re_write (logging e) w)) = fst w"
  by (cases w) (simp add: logging_def split: prod.splits)

lemma logging_restart:
  "re_restart (logging e) name w = (r, w') \<Longrightarrow> fst w' = fst w @ [name]"
  by (cases w) (auto simp: logging_def split: prod.splits)

abbreviation calls_of :: "(string list \<times> 'w, 'z) node_scheme \<Rightarrow> string list" where
  "calls_of s \<equiv> fst (nd_world s)"

definition allowance :: "'w sweep \<Rightarrow> int" where
  "allowance s = (case sw_budget s of None \<Rightarrow> 0 | Some b \<Rightarrow> max 0 (bu_pass_cap b - bu_spent b))"

lemma persist_calls:
  assumes "persist_or_halt (logging e) now s = (r, s')"
  shows "r = Inr () \<and> calls_of s' = calls_of s \<and> allowance s' \<le> allowance s"
proof -
  obtain w' f' b' where p: "persist_or_halt (logging e) now s = (Inr (), s\<lparr>nd_world := w', nd_history := f', sw_budget := b'\<rparr>)"
    and b: "sw_budget s = None \<Longrightarrow> b' = None" "\<And>b. sw_budget s = Some b \<Longrightarrow> b' = Some b \<or> b' = Some (halt_restarts b)"
    and w: "w' = nd_world s \<or> w' = snd (re_write (logging e) (nd_world s))"
    by (rule persist_world [of "logging e" now s]) (rule that)
  have "fst w' = calls_of s" using w logging_write by metis
  moreover have "(case b' of None \<Rightarrow> 0 | Some b \<Rightarrow> max 0 (bu_pass_cap b - bu_spent b)) \<le> allowance s"
    using b by (cases "sw_budget s") (auto simp: allowance_def halt_restarts_def)
  ultimately show ?thesis using assms p by (auto simp: allowance_def)
qed

lemma perform_calls:
  assumes "perform (logging e) name d apply_it now bd s = (r, s')"
  shows "(calls_of s' = calls_of s \<and> allowance s' = allowance s \<and> (\<exists>rep. r = Inr rep \<and> \<not> spent_report rep))
    \<or> (calls_of s' = calls_of s @ [name] \<and> apply_it \<and> 0 < allowance s
       \<and> (\<forall>rep. r = Inr rep \<longrightarrow> ar_name rep = name \<and> spent_report rep \<and> allowance s' = allowance s - 1))"
proof (cases "\<exists>b. sw_budget s = Some b \<and> bc_allowed (budget_check b name now) \<and> apply_it")
  case True
  then obtain b where b: "sw_budget s = Some b" "bc_allowed (budget_check b name now)" "apply_it" by blast
  obtain q w where q: "re_restart (logging e) name (nd_world s) = (q, w)" by (metis surj_pair)
  have "bu_spent b < bu_pass_cap b" using b(2) by (simp add: allowed_iff)
  with perform_call [OF b(1,2) q, of d bd] b(1,3) assms logging_restart [OF q] show ?thesis
    by (cases q) (auto simp: allowance_def budget_record_def split: if_splits)
next
  case False
  then obtain rep where "perform (logging e) name d apply_it now bd s = (Inr rep, s)" "\<not> spent_report rep"
    by (auto intro: perform_quiet [of s name now apply_it "logging e" d bd])
  with assms show ?thesis by auto
qed

lemma perform_all_calls:
  assumes "perform_all (logging e) apply_it now bd pend s = (r, s')"
  shows "\<exists>ns. calls_of s' = calls_of s @ ns \<and> set ns \<subseteq> fst ` set pend \<and> (ns \<noteq> [] \<longrightarrow> apply_it)
    \<and> int (length ns) \<le> allowance s
    \<and> (\<forall>rs. r = Inr rs \<longrightarrow> ns = map ar_name (filter spent_report rs))"
  using assms
proof (induction pend arbitrary: s r s')
  case Nil
  then show ?case by (auto simp: ret_def allowance_def split: option.splits)
next
  case (Cons p pend)
  obtain name d policy where p: "p = (name, d, policy)" by (cases p) auto
  obtain q s1 where q: "perform (logging e) name d apply_it now bd s = (q, s1)" by fastforce
  show ?case
  proof (cases q)
    case (Inl err)
    with Cons.prems p q have "r = Inl err" "s' = s1" by (simp_all add: seq_def)
    with perform_calls [OF q] Inl p show ?thesis
      by (intro exI [of _ "[name]"]) auto
  next
    case (Inr rep)
    obtain u s2 where u: "(if apply_it \<and> ar_verdict rep \<in> set SPENT then persist_or_halt (logging e) now else ret ()) s1
        = (u, s2)" by fastforce
    have s2: "u = Inr () \<and> calls_of s2 = calls_of s1 \<and> allowance s2 \<le> allowance s1"
      using u persist_calls [of e now s1 u s2] by (simp add: ret_def split: if_splits)
    obtain t s3 where t: "perform_all (logging e) apply_it now bd pend s2 = (t, s3)" by fastforce
    from Cons.IH [OF t] obtain ns where ns: "calls_of s3 = calls_of s2 @ ns" "set ns \<subseteq> fst ` set pend"
      "ns \<noteq> [] \<longrightarrow> apply_it" "int (length ns) \<le> allowance s2"
      "\<forall>rs. t = Inr rs \<longrightarrow> ns = map ar_name (filter spent_report rs)" by blast
    have r: "s' = s3" "r = (case t of Inl err \<Rightarrow> Inl err | Inr rs \<Rightarrow> Inr (rep # rs))"
      using Cons.prems p q u t s2 Inr by (auto simp: seq_def ret_def split: sum.splits)
    from perform_calls [OF q] show ?thesis
    proof (elim disjE conjE)
      assume "calls_of s1 = calls_of s" "allowance s1 = allowance s" "\<exists>rep. q = Inr rep \<and> \<not> spent_report rep"
      with ns s2 r p Inr show ?thesis by (intro exI [of _ ns]) (auto split: sum.splits)
    next
      assume "calls_of s1 = calls_of s @ [name]" "apply_it" "0 < allowance s"
        "\<forall>rep. q = Inr rep \<longrightarrow> ar_name rep = name \<and> spent_report rep \<and> allowance s1 = allowance s - 1"
      with ns s2 r p Inr show ?thesis by (intro exI [of _ "name # ns"]) (auto split: sum.splits)
    qed
  qed
qed

subsection \<open>The agents a pass decides to restart\<close>

definition loaded_configs :: "pass_input \<Rightarrow> fleet_config list" where
  "loaded_configs i = List.map_filter (\<lambda>(_, r). case r of Inl _ \<Rightarrow> None | Inr c \<Rightarrow> Some c) (fleet_specs i)"

definition fleet_corpse :: "pass_input \<Rightarrow> fleet_config \<Rightarrow> bool" where
  "fleet_corpse i c \<longleftrightarrow>
     (case pi_row i (fc_name c) of
        Inl _ \<Rightarrow> False
      | Inr row \<Rightarrow>
          (let (ran, present) = observe_session (fc_name c) (pi_snapshot i) (pi_in_sif i) in
           is_corpse (fc_policy c) ran present row (Some (pi_local_host i))
             (declared_host_is_local (fc_host c) (pi_here i) (pi_peers i))))"

definition corpse_names :: "pass_input \<Rightarrow> string list" where
  "corpse_names i = map fc_name (filter (fleet_corpse i) (loaded_configs i))"

lemma decide_one_corpse:
  assumes "decide_one i c = Inr d"
  shows "de_verdict d = Restart \<longleftrightarrow> fleet_corpse i c"
    and "de_verdict d \<in> {Not_Managed, Fine, Blind, Skipped, Restart}"
proof -
  obtain ran present where o: "observe_session (fc_name c) (pi_snapshot i) (pi_in_sif i) = (ran, present)"
    by fastforce
  have m [simp]: "fc_policy c \<notin> set MANAGED_POLICIES \<Longrightarrow> \<not> is_corpse (fc_policy c) ran present row lh dh" for row lh dh
    by (simp add: is_corpse_def)
  have never: "\<not> is_corpse policy p q None lh dh" for policy p q lh dh by (simp add: is_corpse_def)
  show "de_verdict d = Restart \<longleftrightarrow> fleet_corpse i c"
    using assms o
    by (auto simp: decide_one_def fleet_corpse_def bind_result_Inr_iff decide_restart_iff never split: if_splits sum.splits)
  obtain row where "d = decide_fate (fc_name c) (fc_policy c) ran present row (Some (pi_local_host i))
      (declared_host_is_local (fc_host c) (pi_here i) (pi_peers i))"
    using assms o by (auto simp: decide_one_def bind_result_Inr_iff)
  then show "de_verdict d \<in> {Not_Managed, Fine, Blind, Skipped, Restart}"
    by (simp only: decide_verdict_range)
qed

definition configs_in :: "(string \<times> fleet_config result) list \<Rightarrow> fleet_config list" where
  "configs_in specs = List.map_filter (\<lambda>(_, r). case r of Inl _ \<Rightarrow> None | Inr c \<Rightarrow> Some c) specs"

lemma decide_fleet_result:
  assumes "decide_fleet i specs = Inr (reports, pending)"
  shows "map fst pending = map fc_name (filter (fleet_corpse i) (configs_in specs))
    \<and> (\<forall>r \<in> set reports. ar_verdict r \<in> {Not_Managed, Fine, Blind, Skipped})"
  using assms
proof (induction i specs arbitrary: reports pending rule: decide_fleet.induct)
  case (3 i dir c rest)
  then obtain d rs ps where d: "decide_one i c = Inr d" and r: "decide_fleet i rest = Inr (rs, ps)"
    and eq: "(if de_verdict d \<noteq> Restart then
           Inr (mk_report (fc_name c) (de_verdict d) (de_reason d) (de_detail d) (fc_policy c) # rs, ps)
         else Inr (rs, (fc_name c, d, fc_policy c) # ps)) = (Inr (reports, pending) :: (agent_report list \<times> pending list) result)"
    by (auto simp: bind_result_Inr_iff)
  from "3.IH" [OF r] eq decide_one_corpse [OF d] show ?case
    by (auto simp: configs_in_def map_filter_simps mk_report_def split: if_splits)
qed (auto simp: configs_in_def map_filter_simps bind_result_Inr_iff spec_report_def mk_report_def split: if_splits)

lemma decided_corpses:
  "decide_fleet i (fleet_specs i) = Inr (reports, pending) \<Longrightarrow> map fst pending = corpse_names i"
  using decide_fleet_result [of i "fleet_specs i"] by (simp add: corpse_names_def loaded_configs_def configs_in_def)

subsection \<open>The calls of one pass\<close>

text \<open>The restarts a history file remembers, when it can be read.\<close>

definition memory :: "history_file \<Rightarrow> history option" where
  "memory f =
     (case f of
        Missing \<Rightarrow> Some []
      | Holding (JObj entries) \<Rightarrow> (case read_entries entries of Inl _ \<Rightarrow> None | Inr h \<Rightarrow> Some h)
      | _ \<Rightarrow> None)"

lemma read_history_forgets:
  assumes "memory (nd_history s) = None"
  shows "snd (read_history e s) = s
    \<and> (\<forall>hr. fst (read_history e s) = Inr hr \<longrightarrow> \<not> enforceable hr)"
  using assms
  by (auto simp: memory_def read_history_def unreadable_def enforceable_def
      split: history_file.splits json.splits sum.splits)

lemma read_history_world:
  "nd_world (snd (read_history e s)) = nd_world s
     \<or> nd_world (snd (read_history e s)) = snd (re_write e (nd_world s))"
  by (auto simp: read_history_def prove_writable_def write_history_def
      split: history_file.splits json.splits prod.splits bool.splits)

lemma open_budget_read:
  "open_budget e limit s =
     (case read_history e s of
        (Inl err, s1) \<Rightarrow> (Inl err, s1)
      | (Inr hr, s1) \<Rightarrow> (Inr hr, s1\<lparr>sw_budget :=
          if enforceable hr then Some \<lparr>bu_history = hr_history hr, bu_pass_cap = limit, bu_spent = 0\<rparr> else None\<rparr>))"
  by (simp add: open_budget_def seq_def put_state_def ret_def split: prod.splits sum.splits)

lemma open_budget_calls:
  assumes "open_budget (logging e) limit s = (r, s')"
  shows "calls_of s' = calls_of s
    \<and> (\<forall>hr. r = Inr hr \<longrightarrow> allowance s' \<le> (if memory (nd_history s) = None then 0 else max 0 limit))"
proof -
  obtain q s1 where q: "read_history (logging e) s = (q, s1)" by (metis surj_pair)
  have "calls_of s1 = calls_of s"
    using read_history_world [of "logging e" s] q logging_write by (metis snd_conv)
  then show ?thesis
    using assms q read_history_forgets [of s "logging e"]
    by (cases q) (auto simp: open_budget_read allowance_def)
qed

lemma final_prune_calls:
  "final_prune (logging e) now s = (r, s') \<Longrightarrow> r = Inr () \<and> calls_of s' = calls_of s"
  using logging_write [of e "nd_world s"]
  by (auto simp: final_prune_def save_history_def write_history_def split: option.splits prod.splits bool.splits)

definition blackout :: "pass_input \<Rightarrow> bool" where
  "blackout i \<longleftrightarrow> is_fleet_blackout (pi_server_present i) (length (corpse_names i)) FLEET_BLACKOUT_MIN_RESTARTS"

lemma resolve_pending_calls:
  assumes "resolve_pending (logging e) pend (pi_server_present i) apply_it now bd s = (r, s')"
    and "map fst pend = corpse_names i"
  shows "\<exists>ns. calls_of s' = calls_of s @ ns \<and> set ns \<subseteq> set (corpse_names i) \<and> (ns \<noteq> [] \<longrightarrow> apply_it \<and> \<not> blackout i)
    \<and> int (length ns) \<le> allowance s
    \<and> (\<forall>rs. r = Inr rs \<longrightarrow> ns = map ar_name (filter spent_report rs))"
proof (cases "blackout i")
  case True
  moreover have "length pend = length (corpse_names i)" using assms(2) by (metis length_map)
  moreover have "0 \<le> allowance s" by (simp add: allowance_def split: option.splits)
  ultimately show ?thesis
    using assms(1)
    by (auto simp: resolve_pending_def blackout_def Let_def ret_def mk_report_def spent_fates filter_empty_conv)
next
  case False
  moreover have "length pend = length (corpse_names i)" using assms(2) by (metis length_map)
  ultimately have "perform_all (logging e) apply_it now bd pend s = (r, s')"
    using assms(1) by (simp add: resolve_pending_def blackout_def)
  from perform_all_calls [OF this] False assms(2) show ?thesis by (metis set_map)
qed

lemma reconcile_pass_calls:
  assumes "reconcile_pass (logging e) i s = (r, s')"
  shows "\<exists>ns. calls_of s' = calls_of s @ ns \<and> set ns \<subseteq> set (corpse_names i)
    \<and> int (length ns) \<le> max 0 (pi_limit i)
    \<and> (ns \<noteq> [] \<longrightarrow> pi_apply i \<and> \<not> blackout i \<and> memory (nd_history s) \<noteq> None)
    \<and> (\<forall>out. r = Inr out \<longrightarrow> ns = map ar_name (filter spent_report (po_reports out)))"
proof -
  obtain q s1 where q: "open_budget (logging e) (pi_limit i) s = (q, s1)" by (metis surj_pair)
  note o = open_budget_calls [OF q]
  show ?thesis
  proof (cases "\<exists>hr reports pend. q = Inr hr \<and> decide_fleet i (fleet_specs i) = Inr (reports, pend)")
    case False
    then have "s' = s1 \<and> (\<exists>err. r = Inl err)"
      using assms q by (cases q; cases "decide_fleet i (fleet_specs i)")
        (auto simp: reconcile_pass_def seq_def lift_def)
    with o show ?thesis by auto
  next
    case True
    then obtain hr reports pend where hr: "q = Inr hr" and d: "decide_fleet i (fleet_specs i) = Inr (reports, pend)"
      by blast
    obtain t s2 where t: "resolve_pending (logging e) pend (pi_server_present i) (pi_apply i) (pi_now i) (hr_detail hr) s1
        = (t, s2)" by (metis surj_pair)
    from resolve_pending_calls [OF t decided_corpses [OF d]] obtain ns where
      ns: "calls_of s2 = calls_of s1 @ ns" "set ns \<subseteq> set (corpse_names i)" "ns \<noteq> [] \<longrightarrow> pi_apply i \<and> \<not> blackout i"
        "int (length ns) \<le> allowance s1" "\<forall>rs. t = Inr rs \<longrightarrow> ns = map ar_name (filter spent_report rs)" by blast
    have none: "filter spent_report reports = []"
      using decide_fleet_result [OF d] by (auto simp: filter_empty_conv spent_fates)
    obtain u s3 where u: "(if pi_apply i then final_prune (logging e) (pi_now i) else ret ()) s2 = (u, s3)"
      by (metis surj_pair)
    have s3: "u = Inr ()" "calls_of s3 = calls_of s2"
      using u final_prune_calls [of e "pi_now i" s2 u s3] by (auto simp: ret_def split: if_splits)
    have "calls_of s' = calls_of s2 \<and> (\<forall>out. r = Inr out \<longrightarrow> (\<exists>rs. t = Inr rs \<and> po_reports out = reports @ rs))"
      using assms q hr d t u s3 by (cases t) (auto simp: reconcile_pass_def seq_def lift_def ret_def)
    moreover have "memory (nd_history s) = None \<Longrightarrow> ns = []" using o hr ns(4) by (cases ns) auto
    ultimately show ?thesis using o ns hr none by (intro exI [of _ ns]) (auto split: if_splits)
  qed
qed

subsection \<open>Runs of passes\<close>

text \<open>
  The passes of a schedule, one after the other on one history file: what each reported, with its
  time. A pass that raises reports nothing.
\<close>

definition pass_reports :: "pass_input \<Rightarrow> pass_outcome result \<Rightarrow> (time \<times> agent_report) list" where
  "pass_reports i r = (case r of Inl _ \<Rightarrow> [] | Inr out \<Rightarrow> map (Pair (pi_now i)) (po_reports out))"

fun run_passes :: "'w restart_env \<Rightarrow> pass_input list \<Rightarrow> 'w sweep \<Rightarrow> (time \<times> agent_report) list \<times> 'w sweep" where
  "run_passes e [] s = ([], s)"
| "run_passes e (i # is) s =
     (case reconcile_pass e i s of (r, s1) \<Rightarrow>
        (case run_passes e is s1 of (reports, s2) \<Rightarrow> (pass_reports i r @ reports, s2)))"

definition restarts_of :: "(time \<times> agent_report) list \<Rightarrow> (string \<times> time) list" where
  "restarts_of reports = map (\<lambda>(t, r). (ar_name r, t)) (filter (\<lambda>(_, r). spent_report r) reports)"

text \<open>The environment of a healthy host: every write lands, and no restart exits the process.\<close>

definition writes_land :: "'w restart_env \<Rightarrow> bool" where
  "writes_land e \<longleftrightarrow> (\<forall>w. fst (re_write e w))"

definition restarts_return :: "'w restart_env \<Rightarrow> bool" where
  "restarts_return e \<longleftrightarrow> (\<forall>name w err w'. re_restart e name w = (Inl err, w') \<longrightarrow> \<not> is_exit err)"

text \<open>
  \<open>holds sp h now trail\<close>: the memory \<open>h\<close> has every attempt of \<open>trail\<close> that still counts at \<open>now\<close>;
  with \<open>sp\<close> also: the attempts it has of each agent are the debounce apart and in the past.
\<close>

definition holds :: "bool \<Rightarrow> history \<Rightarrow> time \<Rightarrow> (string \<times> time) list \<Rightarrow> bool" where
  "holds sp h now trail \<longleftrightarrow>
     dict h \<and> remembers stamps_of DEBOUNCE_S h now trail \<and> (sp \<longrightarrow> spaced h now)"

definition trail_apart :: "(string \<times> time) list \<Rightarrow> bool" where
  "trail_apart trail \<longleftrightarrow> sorted_wrt (\<lambda>(n, t) (m, u). n = m \<longrightarrow> t + DEBOUNCE_S \<le> u) trail"

lemma holds_append:
  "holds sp h now trail \<Longrightarrow> debounced h name now \<Longrightarrow> holds sp (append_stamp h name now) now (trail @ [(name, now)])"
  by (auto simp: holds_def restarts.wf_jot spaced_append intro: restarts.remembers_jot)

lemma holds_tidy: "holds sp h now trail \<Longrightarrow> holds sp (sort_key fst (prune_history now h)) now trail"
  by (auto simp: holds_def restarts.wf_tidy spaced_tidy intro: restarts.remembers_tidy)

lemma holds_later: "holds sp h now trail \<Longrightarrow> now \<le> now' \<Longrightarrow> holds sp h now' trail"
  by (auto simp: holds_def intro: restarts.remembers_later spaced_later)

lemma trail_apart_append:
  "trail_apart trail \<Longrightarrow> holds sp h now trail \<Longrightarrow> debounced h name now \<Longrightarrow> trail_apart (trail @ [(name, now)])"
  by (auto simp: trail_apart_def sorted_wrt_append holds_def dest!: restarts.allowed_far)

lemma memory_written: "memory (Holding (json_of_history h)) = Some (sort_key fst h)"
  by (simp add: memory_def json_of_history_def read_written)

text \<open>The state between two restarts of a pass: file and budget both hold the trail.\<close>

definition mid_pass :: "bool \<Rightarrow> time \<Rightarrow> (string \<times> time) list \<Rightarrow> 'w sweep \<Rightarrow> bool" where
  "mid_pass sp now trail s \<longleftrightarrow>
     trail_apart trail
     \<and> (\<exists>b. sw_budget s = Some b \<and> holds sp (bu_history b) now trail)
     \<and> (\<exists>h. memory (nd_history s) = Some h \<and> holds sp h now trail)"

lemma persist_mid_pass:
  assumes "writes_land e" and "trail_apart trail" and "sw_budget s = Some b" and "holds sp (bu_history b) now trail"
  shows "\<exists>s'. persist_or_halt e now s = (Inr (), s') \<and> mid_pass sp now trail s' \<and> sw_budget s' = Some b"
proof -
  obtain w' where "re_write e (nd_world s) = (True, w')"
    using assms(1) by (metis prod.collapse writes_land_def)
  with assms holds_tidy [OF assms(4)] show ?thesis
    by (auto simp: persist_or_halt_def save_history_def write_history_def mid_pass_def memory_written)
qed

lemma perform_mid_pass:
  assumes e: "writes_land e" "restarts_return e" and mid: "mid_pass sp now trail s"
    and p: "perform e name d apply_it now bd s = (r, s1)"
  shows "\<exists>rep u s2. r = Inr rep
    \<and> (if apply_it \<and> ar_verdict rep \<in> set SPENT then persist_or_halt e now else ret ()) s1 = (Inr u, s2)
    \<and> mid_pass sp now (trail @ (if spent_report rep then [(ar_name rep, now)] else [])) s2
    \<and> (sp \<longrightarrow> ar_verdict rep \<noteq> Over_Budget)"
proof -
  from mid obtain b where b: "sw_budget s = Some b" "holds sp (bu_history b) now trail" and ap: "trail_apart trail"
    by (auto simp: mid_pass_def)
  show ?thesis
  proof (cases "bc_allowed (budget_check b name now) \<and> apply_it")
    case True
    obtain q w where q: "re_restart e name (nd_world s) = (q, w)" by (metis surj_pair)
    have "\<not> (\<exists>err. q = Inl err \<and> is_exit err)" using e(2) q by (auto simp: restarts_return_def)
    with perform_call [OF b(1) _ q, where now = now and d = d and bd = bd] p True obtain rep where rep: "r = Inr rep" "ar_name rep = name"
      "spent_report rep" "s1 = s\<lparr>nd_world := w, sw_budget := Some (budget_record b name now)\<rparr>"
      by (cases q) (auto split: if_splits)
    have far: "debounced (bu_history b) name now" using True by (simp add: allowed_iff debounced_def)
    have "trail_apart (trail @ [(name, now)])" "holds sp (append_stamp (bu_history b) name now) now (trail @ [(name, now)])"
      using trail_apart_append [OF ap b(2) far] holds_append [OF b(2) far] .
    then obtain s2 where "persist_or_halt e now s1 = (Inr (), s2)" "mid_pass sp now (trail @ [(name, now)]) s2"
      using persist_mid_pass [OF e(1), of "trail @ [(name, now)]" s1 "budget_record b name now" sp now] rep(4)
      by (auto simp: budget_record_def)
    then show ?thesis using rep True by (auto simp: spent_report_def) (auto simp: SPENT_def)
  next
    case False
    then obtain rep where rep: "perform e name d apply_it now bd s = (Inr rep, s)" "\<not> spent_report rep"
      "ar_verdict rep = Over_Budget \<Longrightarrow> \<exists>b. sw_budget s = Some b \<and> bc_reason (budget_check b name now) = ''over-budget''"
      using b(1) by (auto intro: perform_quiet [of s name now apply_it e d bd])
    have "sp \<longrightarrow> ar_verdict rep \<noteq> Over_Budget"
      using rep(3) b never_over_budget [of b now name] by (auto simp: holds_def)
    with rep p mid show ?thesis by (auto simp: spent_report_def ret_def)
  qed
qed

definition attempts :: "time \<Rightarrow> agent_report list \<Rightarrow> (string \<times> time) list" where
  "attempts now rs = map (\<lambda>r. (ar_name r, now)) (filter spent_report rs)"

lemma perform_all_mid_pass:
  assumes e: "writes_land e" "restarts_return e" and "mid_pass sp now trail s"
  shows "\<exists>rs s'. perform_all e apply_it now bd pend s = (Inr rs, s') \<and> mid_pass sp now (trail @ attempts now rs) s'
    \<and> (sp \<longrightarrow> (\<forall>r \<in> set rs. ar_verdict r \<noteq> Over_Budget))"
  using assms(3)
proof (induction pend arbitrary: s trail)
  case Nil
  then show ?case by (simp add: ret_def attempts_def)
next
  case (Cons p pend)
  obtain name d policy where p: "p = (name, d, policy)" by (cases p) auto
  obtain r s1 where r: "perform e name d apply_it now bd s = (r, s1)" by (metis surj_pair)
  from perform_mid_pass [OF e Cons.prems r] obtain rep u s2 where rep: "r = Inr rep"
    "(if apply_it \<and> ar_verdict rep \<in> set SPENT then persist_or_halt e now else ret ()) s1 = (Inr u, s2)"
    "mid_pass sp now (trail @ (if spent_report rep then [(ar_name rep, now)] else [])) s2"
    "sp \<longrightarrow> ar_verdict rep \<noteq> Over_Budget" by blast
  from Cons.IH [OF rep(3)] obtain rs s' where rs: "perform_all e apply_it now bd pend s2 = (Inr rs, s')"
    "mid_pass sp now ((trail @ (if spent_report rep then [(ar_name rep, now)] else [])) @ attempts now rs) s'"
    "sp \<longrightarrow> (\<forall>r \<in> set rs. ar_verdict r \<noteq> Over_Budget)" by blast
  have "perform_all e apply_it now bd (p # pend) s = (Inr (rep # rs), s')"
    using p r rep rs by (simp add: seq_def ret_def)
  moreover have "attempts now (rep # rs) = (if spent_report rep then [(ar_name rep, now)] else []) @ attempts now rs"
    by (simp add: attempts_def)
  ultimately show ?case using rs rep(4) by (intro exI [of _ "rep # rs"] exI [of _ s']) auto
qed

subsection \<open>A whole pass\<close>

lemma perform_all_blind:
  "sw_budget s = None \<Longrightarrow>
     \<exists>rs. perform_all e apply_it now bd pend s = (Inr rs, s) \<and> (\<forall>r \<in> set rs. ar_verdict r = Budget_Unknown)"
proof (induction pend)
  case (Cons p pend)
  then obtain rs where "perform_all e apply_it now bd pend s = (Inr rs, s)" "\<forall>r \<in> set rs. ar_verdict r = Budget_Unknown"
    by blast
  moreover obtain name d policy where "p = (name, d, policy)" by (cases p) auto
  ultimately show ?case using Cons.prems
    by (auto simp: perform_def seq_def get_state_def ret_def mk_report_def SPENT_def)
qed (simp add: ret_def)

lemma memory_Some_iff:
  "memory f = Some h \<longleftrightarrow> (f = Missing \<and> h = []) \<or> (\<exists>es. f = Holding (JObj es) \<and> read_entries es = Inr h)"
  by (auto simp: memory_def split: history_file.splits json.splits sum.splits)

lemma open_budget_memory:
  assumes "writes_land e" and "memory (nd_history s) = Some h"
  shows "\<exists>hr s1. open_budget e limit s = (Inr hr, s1) \<and> enforceable hr
    \<and> sw_budget s1 = Some \<lparr>bu_history = h, bu_pass_cap = limit, bu_spent = 0\<rparr> \<and> memory (nd_history s1) = Some h"
proof -
  obtain w' where w: "re_write e (nd_world s) = (True, w')"
    using assms(1) by (metis prod.collapse writes_land_def)
  consider "nd_history s = Missing" "h = []" | es where "nd_history s = Holding (JObj es)" "read_entries es = Inr h"
    using assms(2) by (auto simp: memory_Some_iff)
  then show ?thesis using w
    by cases (simp_all add: memory_def open_budget_read read_history_def prove_writable_def write_history_def enforceable_def)
qed

lemma open_budget_blind:
  assumes "memory (nd_history s) = None" and "open_budget e limit s = (r, s1)"
  shows "nd_history s1 = nd_history s \<and> (\<forall>hr. r = Inr hr \<longrightarrow> sw_budget s1 = None)"
  using assms read_history_forgets [OF assms(1), of e]
  by (cases "read_history e s") (auto simp: open_budget_read split: sum.splits)

lemma final_prune_mid_pass:
  assumes "writes_land e" and "mid_pass sp now trail s" and "final_prune e now s = (r, s')"
  shows "r = Inr () \<and> mid_pass sp now trail s'"
proof -
  from assms(2) obtain b where b: "sw_budget s = Some b" "holds sp (bu_history b) now trail" "trail_apart trail"
    by (auto simp: mid_pass_def)
  obtain w' where "re_write e (nd_world s) = (True, w')"
    using assms(1) by (metis prod.collapse writes_land_def)
  with b assms(3) holds_tidy [OF b(2)] show ?thesis
    by (auto simp: final_prune_def save_history_def write_history_def mid_pass_def memory_written)
qed

text \<open>What the file knows of the restarts made so far.\<close>

definition file_keeps :: "bool \<Rightarrow> time \<Rightarrow> (string \<times> time) list \<Rightarrow> history_file \<Rightarrow> bool" where
  "file_keeps sp now trail f \<longleftrightarrow>
     trail_apart trail \<and> (case memory f of None \<Rightarrow> trail = [] | Some h \<Rightarrow> holds sp h now trail)"

lemma file_keeps_later: "file_keeps sp now trail f \<Longrightarrow> now \<le> now' \<Longrightarrow> file_keeps sp now' trail f"
  by (auto simp: file_keeps_def intro: holds_later split: option.splits)

lemma mid_pass_keeps: "mid_pass sp now trail s \<Longrightarrow> file_keeps sp now trail (nd_history s)"
  by (auto simp: mid_pass_def file_keeps_def)

definition not_over :: "(time \<times> agent_report) list \<Rightarrow> bool" where
  "not_over reports \<longleftrightarrow> (\<forall>(_, r) \<in> set reports. ar_verdict r \<noteq> Over_Budget)"

lemma resolve_pending_blackout:
  "is_fleet_blackout server (length pend) FLEET_BLACKOUT_MIN_RESTARTS \<Longrightarrow>
     \<exists>rs. resolve_pending e pend server apply_it now bd s = (Inr rs, s) \<and> (\<forall>r \<in> set rs. ar_verdict r = Fleet_Blackout)"
  by (auto simp: resolve_pending_def Let_def ret_def mk_report_def)

lemma resolve_pending_mid_pass:
  assumes "writes_land e" "restarts_return e" and "mid_pass sp now trail s"
  shows "\<exists>rs s'. resolve_pending e pend server apply_it now bd s = (Inr rs, s')
    \<and> mid_pass sp now (trail @ attempts now rs) s' \<and> (sp \<longrightarrow> (\<forall>r \<in> set rs. ar_verdict r \<noteq> Over_Budget))"
proof (cases "is_fleet_blackout server (length pend) FLEET_BLACKOUT_MIN_RESTARTS")
  case True
  with resolve_pending_blackout [OF True, of e apply_it now bd s] assms(3) show ?thesis
    by (auto simp: attempts_def spent_fates intro!: exI [of _ s])
next
  case False
  then show ?thesis using perform_all_mid_pass [OF assms, of apply_it bd pend] by (simp add: resolve_pending_def)
qed

lemma restarts_of_pass:
  "restarts_of (pass_reports i (Inr out)) = attempts (pi_now i) (po_reports out)"
  by (simp add: restarts_of_def pass_reports_def attempts_def filter_map comp_def)

lemma not_over_pass:
  "not_over (pass_reports i (Inr out)) \<longleftrightarrow> (\<forall>r \<in> set (po_reports out). ar_verdict r \<noteq> Over_Budget)"
  by (simp add: not_over_def pass_reports_def)

lemma reconcile_pass_keeps:
  assumes e: "writes_land e" "restarts_return e" and keeps: "file_keeps sp (pi_now i) trail (nd_history s)"
    and p: "reconcile_pass e i s = (r, s')"
  shows "file_keeps sp (pi_now i) (trail @ restarts_of (pass_reports i r)) (nd_history s')
    \<and> (sp \<longrightarrow> not_over (pass_reports i r))"
proof -
  obtain q s1 where q: "open_budget e (pi_limit i) s = (q, s1)" by (metis surj_pair)
  have opened: "file_keeps sp (pi_now i) trail (nd_history s1)"
    "memory (nd_history s) \<noteq> None \<Longrightarrow> mid_pass sp (pi_now i) trail s1"
    "memory (nd_history s) = None \<Longrightarrow> q = Inr hr \<Longrightarrow> sw_budget s1 = None" for hr
    using keeps open_budget_blind [OF _ q] open_budget_memory [OF e(1), of s _ "pi_limit i"] q
    by (auto simp: file_keeps_def mid_pass_def split: option.splits)
  show ?thesis
  proof (cases "\<exists>hr reports pend. q = Inr hr \<and> decide_fleet i (fleet_specs i) = Inr (reports, pend)")
    case False
    then have "s' = s1 \<and> (\<exists>err. r = Inl err)"
      using p q by (cases q; cases "decide_fleet i (fleet_specs i)") (auto simp: reconcile_pass_def seq_def lift_def)
    with opened(1) show ?thesis by (auto simp: pass_reports_def restarts_of_def not_over_def)
  next
    case True
    then obtain hr reports pend where hr: "q = Inr hr" and d: "decide_fleet i (fleet_specs i) = Inr (reports, pend)"
      by blast
    have quiet: "attempts (pi_now i) reports = []" "\<forall>r \<in> set reports. ar_verdict r \<noteq> Over_Budget"
      using decide_fleet_result [OF d] by (auto simp: attempts_def filter_empty_conv spent_fates)
    show ?thesis
    proof (cases "memory (nd_history s)")
      case None
      note blind = opened(3) [OF None hr]
      obtain rs where rs: "resolve_pending e pend (pi_server_present i) (pi_apply i) (pi_now i) (hr_detail hr) s1 = (Inr rs, s1)"
        "\<forall>r \<in> set rs. ar_verdict r \<in> {Budget_Unknown, Fleet_Blackout}"
        using perform_all_blind [OF blind, of e "pi_apply i" "pi_now i" "hr_detail hr" pend]
          resolve_pending_blackout [of "pi_server_present i" pend e "pi_apply i" "pi_now i" "hr_detail hr" s1]
        by (cases "is_fleet_blackout (pi_server_present i) (length pend) FLEET_BLACKOUT_MIN_RESTARTS")
          (auto simp: resolve_pending_def)
      have "r = Inr \<lparr>po_reports = reports @ rs, po_applied = pi_apply i\<rparr> \<and> s' = s1"
        using p q hr d rs blind by (auto simp: reconcile_pass_def seq_def lift_def ret_def final_prune_def split: if_splits)
      moreover have "attempts (pi_now i) (reports @ rs) = []" "\<forall>r \<in> set (reports @ rs). ar_verdict r \<noteq> Over_Budget"
        using quiet rs(2) by (auto simp: attempts_def filter_empty_conv spent_fates)
      ultimately show ?thesis using opened(1) by (auto simp: restarts_of_pass not_over_pass)
    next
      case (Some h)
      then have mid: "mid_pass sp (pi_now i) trail s1" using opened(2) by simp
      obtain rs s2 where rs: "resolve_pending e pend (pi_server_present i) (pi_apply i) (pi_now i) (hr_detail hr) s1 = (Inr rs, s2)"
        "mid_pass sp (pi_now i) (trail @ attempts (pi_now i) rs) s2" "sp \<longrightarrow> (\<forall>r \<in> set rs. ar_verdict r \<noteq> Over_Budget)"
        using resolve_pending_mid_pass [OF e mid, of pend "pi_server_present i" "pi_apply i" "hr_detail hr"] by blast
      obtain u s3 where u: "(if pi_apply i then final_prune e (pi_now i) else ret ()) s2 = (u, s3)" by (metis surj_pair)
      then have s3: "u = Inr () \<and> mid_pass sp (pi_now i) (trail @ attempts (pi_now i) rs) s3"
        using final_prune_mid_pass [OF e(1) rs(2), of u s3] rs(2) by (auto simp: ret_def split: if_splits)
      have "r = Inr \<lparr>po_reports = reports @ rs, po_applied = pi_apply i\<rparr> \<and> s' = s3"
        using p q hr d rs(1) u s3 by (auto simp: reconcile_pass_def seq_def lift_def ret_def)
      moreover have "attempts (pi_now i) (reports @ rs) = attempts (pi_now i) rs" using quiet by (simp add: attempts_def)
      ultimately show ?thesis using s3 quiet rs(3)
        by (auto simp: restarts_of_pass mid_pass_keeps not_over_pass)
    qed
  qed
qed

lemma restarts_of_append: "restarts_of (xs @ ys) = restarts_of xs @ restarts_of ys"
  by (simp add: restarts_of_def)

lemma run_passes_keeps:
  assumes "writes_land e" "restarts_return e"
    and "sorted (now # map pi_now is)" and "file_keeps sp now trail (nd_history s)"
    and "run_passes e is s = (reports, s')"
  shows "trail_apart (trail @ restarts_of reports) \<and> (sp \<longrightarrow> not_over reports)"
  using assms(3-5)
proof (induction "is" arbitrary: now trail s reports s')
  case Nil
  then show ?case by (auto simp: file_keeps_def restarts_of_def not_over_def)
next
  case (Cons i "is")
  obtain r s1 where r: "reconcile_pass e i s = (r, s1)" by (metis surj_pair)
  obtain rest s2 where rest: "run_passes e is s1 = (rest, s2)" by (metis surj_pair)
  have "file_keeps sp (pi_now i) trail (nd_history s)"
    using Cons.prems(1,2) file_keeps_later by simp
  from reconcile_pass_keeps [OF assms(1,2) this r]
  have k: "file_keeps sp (pi_now i) (trail @ restarts_of (pass_reports i r)) (nd_history s1)"
    "sp \<longrightarrow> not_over (pass_reports i r)" by auto
  have "sorted (pi_now i # map pi_now is)" using Cons.prems(1) by simp
  from Cons.IH [OF this k(1) rest] k(2) Cons.prems(3) r rest show ?case
    by (auto simp: restarts_of_append not_over_def)
qed

end
