(* ===== verification/Reconcile_Claims.thy ===== *)
theory Reconcile_Claims
  imports Reconcile
begin

text \<open>
  The properties of the reconciler: what a pass may restart and does restart, how often, what its
  exit code says, and what the second caller of the budget does not keep. Each has a witness on a
  small fleet.
\<close>

subsection \<open>Lemmas\<close>

lemma restarts_in_window:
  assumes "trail_apart trail"
  shows "length (filter (\<lambda>(m, u). m = n \<and> t \<le> u \<and> u < t + WINDOW_S) trail) \<le> MAX_RESTARTS_PER_AGENT_PER_HOUR"
proof (rule ccontr)
  let ?P = "\<lambda>(m, u). m = n \<and> t \<le> u \<and> u < t + WINDOW_S"
  assume "\<not> ?thesis"
  then obtain a b c ts where f: "filter ?P trail = a # b # c # ts"
    by (cases "filter ?P trail"; cases "tl (filter ?P trail)"; cases "tl (tl (filter ?P trail))")
      (auto simp: MAX_RESTARTS_PER_AGENT_PER_HOUR_def)
  have in3: "{a, b, c} \<subseteq> set (filter ?P trail)" using f by simp
  then have m: "fst a = n \<and> t \<le> snd a" "fst b = n" "fst c = n \<and> snd c < t + WINDOW_S" by auto
  have "sorted_wrt (\<lambda>(n, t) (m, u). n = m \<longrightarrow> t + DEBOUNCE_S \<le> u) (a # b # c # ts)"
    using assms sorted_wrt_filter unfolding trail_apart_def by (metis (no_types, lifting) f)
  then have "snd a + DEBOUNCE_S \<le> snd b \<and> snd b + DEBOUNCE_S \<le> snd c"
    using m by (cases a; cases b; cases c) auto
  with m show False by (simp add: WINDOW_S_def DEBOUNCE_S_def)
qed

lemma logging_healthy:
  "writes_land e \<Longrightarrow> writes_land (logging e)" "restarts_return e \<Longrightarrow> restarts_return (logging e)"
  unfolding writes_land_def restarts_return_def logging_def
  by (auto split: prod.splits) (metis fst_conv)

lemma perform_names:
  assumes "perform e name d apply_it now bd s = (Inr rep, s')"
  shows "ar_name rep = name"
proof (cases "\<exists>b. sw_budget s = Some b \<and> bc_allowed (budget_check b name now) \<and> apply_it")
  case True
  then obtain b where b: "sw_budget s = Some b" "bc_allowed (budget_check b name now)" "apply_it" by blast
  obtain r w where r: "re_restart e name (nd_world s) = (r, w)" by fastforce
  from perform_call [OF b(1,2) r, of d bd] b(3) assms show ?thesis
    by (cases r) (auto split: if_splits)
next
  case False
  then show ?thesis
    using assms by (cases "sw_budget s")
      (auto simp: perform_def seq_def get_state_def ret_def raising_def mk_report_def Let_def split: option.splits if_splits)
qed

lemma perform_all_reports:
  "perform_all e apply_it now bd pend s = (Inr rs, s') \<Longrightarrow> map ar_name rs = map fst pend
    \<and> (\<forall>r \<in> set rs. ar_verdict r \<in>
        {Budget_Unknown, Cooling_Down, Over_Budget, Capped, Would_Restart, Restarted, Failed})"
proof (induction pend arbitrary: s rs)
  case (Cons p pend)
  obtain name d policy where p: "p = (name, d, policy)" by (cases p) auto
  with Cons.prems obtain rep s1 u s2 rest where r: "perform e name d apply_it now bd s = (Inr rep, s1)"
    and "(if apply_it \<and> ar_verdict rep \<in> set SPENT then persist_or_halt e now else ret ()) s1 = (Inr u, s2)"
    and rest: "perform_all e apply_it now bd pend s2 = (Inr rest, s')" and rs: "rs = rep # rest"
    by (auto simp: seq_Inr_iff ret_def)
  from Cons.IH [OF rest] perform_names [OF r] perform_verdict [OF r] show ?case using p rs by auto
qed (simp add: ret_def)

lemma resolve_pending_reports:
  assumes "resolve_pending e pend server apply_it now bd s = (Inr rs, s')"
  shows "map ar_name rs = map fst pend
    \<and> (\<forall>r \<in> set rs. ar_verdict r \<in>
        {Fleet_Blackout, Budget_Unknown, Cooling_Down, Over_Budget, Capped, Would_Restart, Restarted, Failed})"
proof (cases "is_fleet_blackout server (length pend) FLEET_BLACKOUT_MIN_RESTARTS")
  case True
  then show ?thesis
    using assms by (auto simp: resolve_pending_def Let_def ret_def mk_report_def comp_def split_def)
next
  case False
  then have "perform_all e apply_it now bd pend s = (Inr rs, s')" using assms by (simp add: resolve_pending_def)
  from perform_all_reports [OF this] show ?thesis by blast
qed

lemma reconcile_pass_reports:
  assumes "reconcile_pass e i s = (Inr out, s')"
  obtains reports pending acted where "decide_fleet i (fleet_specs i) = Inr (reports, pending)"
    and "po_reports out = reports @ acted" and "map ar_name acted = corpse_names i"
    and "\<forall>r \<in> set acted. ar_verdict r \<in>
        {Fleet_Blackout, Budget_Unknown, Cooling_Down, Over_Budget, Capped, Would_Restart, Restarted, Failed}"
proof -
  obtain q s1 where q: "open_budget e (pi_limit i) s = (q, s1)" by (metis surj_pair)
  with assms obtain hr reports pending where hr: "q = Inr hr"
    and d: "decide_fleet i (fleet_specs i) = Inr (reports, pending)"
    by (cases q; cases "decide_fleet i (fleet_specs i)") (auto simp: reconcile_pass_def seq_def lift_def)
  obtain t s2 where t: "resolve_pending e pending (pi_server_present i) (pi_apply i) (pi_now i) (hr_detail hr) s1
      = (t, s2)" by (metis surj_pair)
  obtain u s3 where u: "(if pi_apply i then final_prune e (pi_now i) else ret ()) s2 = (u, s3)" by (metis surj_pair)
  obtain rs where rs: "t = Inr rs" "po_reports out = reports @ rs"
    using assms q hr d t u by (cases t; cases u) (auto simp: reconcile_pass_def seq_def lift_def ret_def)
  with resolve_pending_reports [of e pending _ _ _ _ s1 rs s2] t decided_corpses [OF d] d show thesis
    by (intro that [of reports pending rs]) auto
qed

lemma unreadable_spec_reported:
  assumes "decide_fleet i specs = Inr (reports, pending)" and "(dir, Inl err) \<in> set specs"
  shows "\<exists>r \<in> set reports. ar_verdict r = Blind"
  using assms
proof (induction i specs arbitrary: reports pending rule: decide_fleet.induct)
  case (2 i dir' err' rest)
  then show ?case
    by (cases "is_exit err'") (auto simp: bind_result_Inr_iff spec_report_def mk_report_def)
next
  case (3 i dir' c rest)
  then obtain d where "decide_one i c = Inr d" by (auto simp: bind_result_Inr_iff)
  moreover obtain rs ps where r: "decide_fleet i rest = Inr (rs, ps)" using "3.prems" by (auto simp: bind_result_Inr_iff)
  ultimately have "set rs \<subseteq> set reports" using "3.prems" by (auto split: if_splits)
  with "3.IH" [OF r] "3.prems"(2) show ?case by auto
qed simp

lemma persist_keeps_budget:
  assumes "writes_land e"
  shows "\<exists>s'. persist_or_halt e now s = (Inr (), s') \<and> sw_budget s' = sw_budget s"
proof -
  obtain w' where "re_write e (nd_world s) = (True, w')"
    using assms by (metis prod.collapse writes_land_def)
  then show ?thesis
    by (auto simp: persist_or_halt_def save_history_def write_history_def split: option.splits)
qed

lemma debounced_append: "m \<noteq> n \<Longrightarrow> debounced (append_stamp h n now) m now = debounced h m now"
  by (simp add: debounced_def stamps_append)

lemma perform_all_restarts:
  assumes e: "writes_land e" "restarts_return e"
    and "sw_budget s = Some b" and "spaced (bu_history b) now" and "distinct (map fst pend)"
    and "\<forall>n \<in> fst ` set pend. debounced (bu_history b) n now"
    and "bu_spent b + int (length pend) \<le> bu_pass_cap b"
  shows "\<exists>rs s'. perform_all e True now bd pend s = (Inr rs, s') \<and> map ar_name (filter spent_report rs) = map fst pend"
  using assms(3-)
proof (induction pend arbitrary: s b)
  case Nil
  then show ?case by (simp add: ret_def)
next
  case (Cons p pend)
  obtain name d policy where p: "p = (name, d, policy)" by (cases p) auto
  obtain q w where q: "re_restart e name (nd_world s) = (q, w)" by (metis surj_pair)
  have far: "debounced (bu_history b) name now" and "bu_spent b < bu_pass_cap b" using Cons.prems p by auto
  then have ok: "bc_allowed (budget_check b name now)" using Cons.prems(2) by (simp add: spaced_allowed)
  have "\<not> (\<exists>err. q = Inl err \<and> is_exit err)" using e(2) q by (auto simp: restarts_return_def)
  with perform_call [OF Cons.prems(1) ok q, of d bd] obtain rep s1 where rep:
    "perform e name d True now bd s = (Inr rep, s1)" "ar_name rep = name" "spent_report rep"
    "sw_budget s1 = Some (budget_record b name now)"
    by (cases q) (auto split: if_splits)
  obtain s2 where s2: "persist_or_halt e now s1 = (Inr (), s2)" "sw_budget s2 = Some (budget_record b name now)"
    using persist_keeps_budget [OF e(1), of now s1] rep(4) by auto
  have "spaced (bu_history (budget_record b name now)) now"
    using spaced_append [OF Cons.prems(2) far] by (simp add: budget_record_def)
  moreover have "\<forall>n \<in> fst ` set pend. debounced (bu_history (budget_record b name now)) n now"
  proof
    fix n
    assume n: "n \<in> fst ` set pend"
    then have "n \<noteq> name" using Cons.prems(3) p by auto
    moreover have "debounced (bu_history b) n now" using Cons.prems(4) n by auto
    ultimately show "debounced (bu_history (budget_record b name now)) n now"
      by (simp add: budget_record_def debounced_append)
  qed
  ultimately obtain rs s' where rs: "perform_all e True now bd pend s2 = (Inr rs, s')"
    "map ar_name (filter spent_report rs) = map fst pend"
    using Cons.IH [OF s2(2)] Cons.prems(3,5) p by (auto simp: budget_record_def)
  have "perform_all e True now bd (p # pend) s = (Inr (rep # rs), s')"
    using p rep s2 rs by (simp add: seq_def ret_def spent_report_def)
  with rep rs p show ?case by auto
qed

lemma pass_restarts_all:
  assumes e: "writes_land e" "restarts_return e"
    and "memory (nd_history s) = Some h" and "spaced h (pi_now i)"
    and "decide_fleet i (fleet_specs i) = Inr (reports, pending)"
    and "pi_apply i" and "\<not> blackout i" and "distinct (corpse_names i)"
    and "\<forall>n \<in> set (corpse_names i). debounced h n (pi_now i)"
    and "int (length (corpse_names i)) \<le> pi_limit i"
  shows "\<exists>out s'. reconcile_pass e i s = (Inr out, s') \<and> map ar_name (filter spent_report (po_reports out)) = corpse_names i"
proof -
  note names = decided_corpses [OF assms(5)]
  have len: "length pending = length (corpse_names i)" using names by (metis length_map)
  obtain hr s1 where s1: "open_budget e (pi_limit i) s = (Inr hr, s1)"
    "sw_budget s1 = Some \<lparr>bu_history = h, bu_pass_cap = pi_limit i, bu_spent = 0\<rparr>"
    using open_budget_memory [OF e(1) assms(3)] by blast
  have "\<forall>n \<in> fst ` set pending. debounced h n (pi_now i)" using assms(9) names by (metis set_map)
  with perform_all_restarts [OF e s1(2), of "pi_now i" pending "hr_detail hr"] assms(4,8,10) names len
  obtain rs s2 where rs: "perform_all e True (pi_now i) (hr_detail hr) pending s1 = (Inr rs, s2)"
    "map ar_name (filter spent_report rs) = corpse_names i" by auto
  obtain u s3 where u: "final_prune e (pi_now i) s2 = (u, s3)" by (metis surj_pair)
  moreover have "u = Inr ()" using u by (auto simp: final_prune_def split: option.splits)
  moreover have "filter spent_report reports = []"
    using decide_fleet_result [OF assms(5)] by (auto simp: filter_empty_conv spent_fates)
  ultimately show ?thesis
    using s1(1) assms(5,6,7) rs len
    by (simp add: reconcile_pass_def seq_def lift_def ret_def resolve_pending_def blackout_def)
qed

subsection \<open>Properties of a pass\<close>

text \<open>
  C5: whatever a pass is given and however it ends, the restarts it calls are of corpses: agents
  whose spec asks to be kept running and is not pinned elsewhere, whose session a reading that
  could see the fleet does not show, and whose last row is local and either never recorded an end
  or ended without being asked to. It calls at most its limit, none when dry, when the tmux server
  is gone under two or more corpses, or when it cannot read its own memory; and the calls it makes
  are the ones its report lists as restarted or failed.
\<close>

theorem pass_restarts_only_corpses:
  assumes "reconcile_pass (logging e) i s = (r, s')"
  shows "\<exists>names. calls_of s' = calls_of s @ names
    \<and> (\<forall>n \<in> set names. \<exists>c \<in> set (loaded_configs i). fc_name c = n \<and> fleet_corpse i c)
    \<and> int (length names) \<le> max 0 (pi_limit i)
    \<and> (names \<noteq> [] \<longrightarrow> pi_apply i \<and> \<not> blackout i \<and> memory (nd_history s) \<noteq> None)
    \<and> (\<forall>out. r = Inr out \<longrightarrow> names = map ar_name (filter spent_report (po_reports out)))"
proof -
  from reconcile_pass_calls [OF assms] obtain names where
    "calls_of s' = calls_of s @ names" "set names \<subseteq> set (corpse_names i)" "int (length names) \<le> max 0 (pi_limit i)"
    "names \<noteq> [] \<longrightarrow> pi_apply i \<and> \<not> blackout i \<and> memory (nd_history s) \<noteq> None"
    "\<forall>out. r = Inr out \<longrightarrow> names = map ar_name (filter spent_report (po_reports out))" by blast
  then show ?thesis by (intro exI [of _ names]) (auto simp: corpse_names_def)
qed

text \<open>
  C6: on a host where every write of the history lands and no restart exits the process (an
  ordinary exception of one is caught and counted), over any schedule of
  passes with a clock that is not set back and from any unreadable history, or any readable one with
  one entry per agent, two restarts of one agent are at least the debounce apart, and no hour holds
  more than two of them. (A write that fails leaves no stamp, and an exit leaves the pass before the
  stamp is taken: then the next pass may restart again at once.)
\<close>

theorem restarts_are_spaced:
  assumes "writes_land e" and "restarts_return e" and "sorted (map pi_now schedule)"
    and "\<And>h. memory (nd_history s) = Some h \<Longrightarrow> dict h"
    and "run_passes e schedule s = (reports, s')"
  shows "sorted_wrt (\<lambda>(n, t) (m, u). n = m \<longrightarrow> t + DEBOUNCE_S \<le> u) (restarts_of reports)
    \<and> length (filter (\<lambda>(m, u). m = n \<and> t \<le> u \<and> u < t + WINDOW_S) (restarts_of reports))
      \<le> MAX_RESTARTS_PER_AGENT_PER_HOUR"
proof -
  define now where "now = (case schedule of [] \<Rightarrow> 0 | i # _ \<Rightarrow> pi_now i)"
  have "sorted (now # map pi_now schedule)" using assms(3) by (cases schedule) (auto simp: now_def)
  moreover have "file_keeps False now [] (nd_history s)"
    using assms(4) by (auto simp: file_keeps_def holds_def remembers_def trail_apart_def split: option.splits)
  ultimately have "trail_apart (restarts_of reports)"
    using run_passes_keeps [OF assms(1,2) _ _ assms(5), of now False "[]"] by simp
  then show ?thesis using restarts_in_window by (simp add: trail_apart_def)
qed

text \<open>
  the hourly limit never decides. From a history whose stamps of each agent are the debounce
  apart and in the past (the missing file of a first run is one), over any schedule of passes
  with a clock that is not set back, no report ever has the verdict OVER-BUDGET: the debounce
  refuses first, so an agent that keeps dying is restarted every half hour for ever and the
  verdict that calls a human is not reached.
\<close>

theorem over_budget_is_never_reached:
  assumes "writes_land e" and "restarts_return e" and "sorted (now # map pi_now schedule)"
    and "\<And>h. memory (nd_history s) = Some h \<Longrightarrow> dict h \<and> spaced h now"
    and "run_passes e schedule s = (reports, s')" and "(t, r) \<in> set reports"
  shows "ar_verdict r \<noteq> Over_Budget"
proof -
  have "file_keeps True now [] (nd_history s)"
    using assms(4) by (auto simp: file_keeps_def holds_def remembers_def trail_apart_def split: option.splits)
  then have "not_over reports" using run_passes_keeps [OF assms(1-3) _ assms(5)] by blast
  with assms(6) show ?thesis by (auto simp: not_over_def)
qed

text \<open>
  C14: a pass recovers the fleet. On a host where every write of the history lands and no restart exits
  the process (an ordinary exception of one is caught), when the pass applies, its memory is readable and its stamps of each agent are the debounce
  apart and not in the future, judging the rows raises nothing, the tmux server is not gone, and the
  corpses are no more than its limit, have different names and were not restarted within the
  debounce, it returns and has called the restart of every one of them, once, in the order of the
  registry. (From a memory with stamps closer together the hourly limit could refuse one.)
\<close>

theorem pass_recovers_fleet:
  assumes "writes_land e" and "restarts_return e"
    and "memory (nd_history s) = Some h" and "spaced h (pi_now i)"
    and "decide_fleet i (fleet_specs i) = Inr (reports, pending)"
    and "pi_apply i" and "\<not> blackout i" and "distinct (corpse_names i)"
    and "\<forall>n \<in> set (corpse_names i). debounced h n (pi_now i)"
    and "int (length (corpse_names i)) \<le> pi_limit i"
  shows "\<exists>out s'. reconcile_pass (logging e) i s = (Inr out, s') \<and> calls_of s' = calls_of s @ corpse_names i"
proof -
  obtain out s' where out: "reconcile_pass (logging e) i s = (Inr out, s')"
    "map ar_name (filter spent_report (po_reports out)) = corpse_names i"
    using pass_restarts_all [OF logging_healthy(1) logging_healthy(2)] assms by blast
  from reconcile_pass_calls [OF out(1)] out(2) have "calls_of s' = calls_of s @ corpse_names i" by auto
  with out(1) show ?thesis by blast
qed

text \<open>
  exit code 0 means the fleet was seen and is up: every spec of the registry loaded, and
  every corpse has a report that says it was restarted.
\<close>

theorem exit_zero_means_recovered:
  assumes "reconcile_pass e i s = (Inr out, s')" and "pass_exit_code out = 0"
  shows "(\<forall>n \<in> set (corpse_names i). \<exists>r \<in> set (po_reports out). ar_name r = n \<and> ar_verdict r = Restarted)
    \<and> (\<forall>(dir, c) \<in> set (fleet_specs i). \<exists>c'. c = Inr c')"
proof -
  from reconcile_pass_reports [OF assms(1)] obtain reports pending acted where
    d: "decide_fleet i (fleet_specs i) = Inr (reports, pending)" and o: "po_reports out = reports @ acted"
    and names: "map ar_name acted = corpse_names i"
    and v: "\<forall>r \<in> set acted. ar_verdict r \<in>
        {Fleet_Blackout, Budget_Unknown, Cooling_Down, Over_Budget, Capped, Would_Restart, Restarted, Failed}" by blast
  have clean: "\<forall>r \<in> set (po_reports out). ar_verdict r \<notin>
      {Blind, Budget_Unknown, Fleet_Blackout, Failed, Over_Budget, Cooling_Down, Capped, Would_Restart}"
    using assms(2) by (auto simp: pass_exit_code_def of_verdicts_def filter_empty_conv split: if_splits)
  have "\<forall>r \<in> set acted. ar_verdict r = Restarted" using v clean o by fastforce
  then have "\<forall>n \<in> set (corpse_names i). \<exists>r \<in> set (po_reports out). ar_name r = n \<and> ar_verdict r = Restarted"
    using names o by (metis (no_types, lifting) Un_iff imageE list.set_map set_append)
  moreover have "\<exists>c'. c = Inr c'" if "(dir, c) \<in> set (fleet_specs i)" for dir c
  proof (cases c)
    case (Inl err)
    with unreadable_spec_reported [OF d] that obtain r where "r \<in> set reports" "ar_verdict r = Blind" by blast
    with clean o show ?thesis by auto
  qed auto
  ultimately show ?thesis by auto
qed

subsection \<open>The memory\<close>

text \<open>
  C40: what a save leaves in the file is a readable memory of the right shape: one entry per
  agent, in the order of the names, none empty, each sorted and inside the rolling hour; and it
  holds, for every agent, exactly the stamps of that hour it was given.
\<close>

theorem saved_history_reads_back:
  assumes "dict h" and "save_history e h now s = (Inr (), s')"
  shows "\<exists>h'. memory (nd_history s') = Some h' \<and> dict h' \<and> sorted (map fst h')
    \<and> (\<forall>(n, ts) \<in> set h'. ts \<noteq> [] \<and> sorted ts \<and> (\<forall>t \<in> set ts. now - t < WINDOW_S))
    \<and> (\<forall>n. stamps_of h' n = sort (recent_stamps h n now))"
proof -
  let ?h = "sort_key fst (prune_history now h)"
  have "nd_history s' = Holding (json_of_history (prune_history now h))"
    using assms(2) by (auto simp: save_history_def write_history_def split: prod.splits bool.splits)
  then have "memory (nd_history s') = Some ?h" by (simp add: memory_written)
  moreover have "dict ?h" using assms(1) by (simp add: restarts.wf_tidy)
  moreover have "stamps_of ?h n = sort (recent_stamps h n now)" for n
    using assms(1) by (simp add: dict_def stamps_sort distinct_prune stamps_prune recent_stamps_def)
  moreover have "\<forall>(n, ts) \<in> set ?h. ts \<noteq> [] \<and> sorted ts \<and> (\<forall>t \<in> set ts. now - t < WINDOW_S)"
    by (auto simp: prune_history_def)
  ultimately show ?thesis by auto
qed

subsection \<open>A message to a stopped agent\<close>

text \<open>What the state is after a number of messages at one moment.\<close>

fun after_sends ::
    "'w restart_env \<Rightarrow> string \<Rightarrow> string result \<Rightarrow> instance_row option result \<Rightarrow> time \<Rightarrow> nat \<Rightarrow> 'w node \<Rightarrow> 'w node" where
  "after_sends e name policy row now 0 s = s"
| "after_sends e name policy row now (Suc k) s =
     after_sends e name policy row now k (snd (maybe_autostart_for_send e name policy row now s))"

lemma load_history_memory:
  assumes "writes_land e" and "memory (nd_history s) = Some h"
  shows "\<exists>s1. load_history e s = (Inr h, s1) \<and> memory (nd_history s1) = Some h
    \<and> (nd_world s1 = nd_world s \<or> nd_world s1 = snd (re_write e (nd_world s)))"
proof -
  obtain w' where w: "re_write e (nd_world s) = (True, w')"
    using assms(1) by (metis prod.collapse writes_land_def)
  consider "nd_history s = Missing" "h = []" | es where "nd_history s = Holding (JObj es)" "read_entries es = Inr h"
    using assms(2) by (auto simp: memory_Some_iff)
  then show ?thesis using w
    by cases (simp_all add: memory_def load_history_def seq_def ret_def read_history_def prove_writable_def write_history_def)
qed

lemma failed_autostart:
  assumes "writes_land e" and "memory (nd_history s) = Some h"
    and "\<And>w. fst (re_restart e name w) = Inr False \<or> (\<exists>err. fst (re_restart e name w) = Inl err \<and> \<not> is_exit err)"
    and "policy \<in> set MANAGED_POLICIES"
    and "\<not> exit_reason_in (case row of None \<Rightarrow> None | Some r \<Rightarrow> in_exit_reason r) DELIBERATE_EXIT_REASONS"
    and "bc_allowed (budget_check \<lparr>bu_history = h, bu_pass_cap = DEFAULT_PASS_CAP, bu_spent = 0\<rparr> name now)"
    and "maybe_autostart_for_send (logging e) name (Inr policy) (Inr row) now s = (r, s')"
  shows "calls_of s' = calls_of s @ [name] \<and> memory (nd_history s') = Some h \<and> (\<exists>m. r = Inr (False, m))"
proof -
  obtain s1 where s1: "load_history (logging e) s = (Inr h, s1)" "memory (nd_history s1) = Some h"
    "calls_of s1 = calls_of s"
    using load_history_memory [OF logging_healthy(1) [OF assms(1)] assms(2)] logging_write by metis
  obtain q w where q: "re_restart (logging e) name (nd_world s1) = (q, w)" by (metis surj_pair)
  have "q = fst (re_restart e name (snd (nd_world s1)))"
    using q by (cases "nd_world s1") (auto simp: logging_def split: prod.splits)
  then consider "q = Inr False" | err where "q = Inl err" "\<not> is_exit err"
    using assms(3) [of "snd (nd_world s1)"] by auto
  then show ?thesis
    using assms(4-7) s1 logging_restart [OF q] q
    by cases (auto simp: maybe_autostart_for_send_def except_exception_def seq_def lift_def ret_def call_restart_def Let_def)
qed

text \<open>
  a start that fails is not remembered. Whenever the budget lets one message start a stopped
  agent and every attempt fails (returns false or raises), any number of messages at that moment
  start it that many times, and the memory is the same after them: neither the debounce nor the
  hourly limit applies to an agent that does not come up.
\<close>

theorem failed_autostarts_are_not_limited:
  assumes "writes_land e" and "memory (nd_history s) = Some h"
    and "\<And>w. fst (re_restart e name w) = Inr False \<or> (\<exists>err. fst (re_restart e name w) = Inl err \<and> \<not> is_exit err)"
    and "policy \<in> set MANAGED_POLICIES"
    and "\<not> exit_reason_in (case row of None \<Rightarrow> None | Some r \<Rightarrow> in_exit_reason r) DELIBERATE_EXIT_REASONS"
    and "bc_allowed (budget_check \<lparr>bu_history = h, bu_pass_cap = DEFAULT_PASS_CAP, bu_spent = 0\<rparr> name now)"
  shows "calls_of (after_sends (logging e) name (Inr policy) (Inr row) now k s) = calls_of s @ replicate k name
    \<and> memory (nd_history (after_sends (logging e) name (Inr policy) (Inr row) now k s)) = Some h"
  using assms(2)
proof (induction k arbitrary: s)
  case 0
  then show ?case by simp
next
  case (Suc k)
  let ?s1 = "snd (maybe_autostart_for_send (logging e) name (Inr policy) (Inr row) now s)"
  have "calls_of ?s1 = calls_of s @ [name]" "memory (nd_history ?s1) = Some h"
    using failed_autostart [OF assms(1) Suc.prems assms(3-6)] by (metis prod.collapse)+
  with Suc.IH [of ?s1] show ?case by simp
qed

lemma load_calls: "load_history (logging e) s = (r, s') \<Longrightarrow> calls_of s' = calls_of s"
  using read_history_world [of "logging e" s] logging_write [of e "nd_world s"]
  by (cases "read_history (logging e) s"; cases "fst (read_history (logging e) s)")
    (auto simp: load_history_def seq_def ret_def)

lemma save_calls: "save_history (logging e) h now s = (r, s') \<Longrightarrow> calls_of s' = calls_of s"
  using logging_write [of e "nd_world s"]
  by (cases "re_write (logging e) (nd_world s)"; cases "fst (re_write (logging e) (nd_world s))")
    (auto simp: save_history_def write_history_def)

lemma default_record_calls: "default_record (logging e) name now s = (r, s') \<Longrightarrow> calls_of s' = calls_of s"
  by (cases "load_history (logging e) s"; cases "fst (load_history (logging e) s)")
    (auto simp: default_record_def seq_def dest!: load_calls save_calls)

text \<open>
  With a history that may not be read, a pass restarts nothing; a message starts the agent as if
  nothing had ever been restarted.
\<close>

theorem denied_history_starts_on_send:
  assumes "nd_history s = Forbidden" and "policy \<in> set MANAGED_POLICIES"
    and "\<not> exit_reason_in (case row of None \<Rightarrow> None | Some r \<Rightarrow> in_exit_reason r) DELIBERATE_EXIT_REASONS"
  shows "calls_of (snd (maybe_autostart_for_send (logging e) name (Inr policy) (Inr row) now s)) = calls_of s @ [name]"
proof -
  have ok: "bc_allowed (budget_check \<lparr>bu_history = [], bu_pass_cap = DEFAULT_PASS_CAP, bu_spent = 0\<rparr> name now)"
    by (simp add: budget_check_def recent_stamps_def stamps_of_def MAX_RESTARTS_PER_AGENT_PER_HOUR_def DEFAULT_PASS_CAP_def)
  have load: "load_history (logging e) s = (Inr [], s)"
    using assms(1) by (simp add: load_history_def seq_def ret_def read_history_def)
  obtain q w where q: "re_restart (logging e) name (nd_world s) = (q, w)" by (metis surj_pair)
  have log: "fst w = calls_of s @ [name]" using logging_restart [OF q] .
  obtain t s2 where t: "default_record (logging e) name now (s\<lparr>nd_world := w\<rparr>) = (t, s2)" by (metis surj_pair)
  have "calls_of s2 = fst w" using default_record_calls [OF t] by simp
  then show ?thesis
    using assms(2,3) load ok q log t
    by (cases q; cases t; cases "is_exit (projl q)"; cases "is_exit (projl t)"; cases "projr q")
      (simp_all add: maybe_autostart_for_send_def except_exception_def seq_def lift_def ret_def call_restart_def Let_def)
qed

end
