(* ===== verification/Reconcile_Demo.thy ===== *)
theory Reconcile_Demo
  imports Reconcile_Claims
begin

text \<open>
  A small fleet, evaluated in the kernel: two agents, one of them managed and dead, and three
  passes over a missing history. The witnesses of the properties of \<open>Reconcile_Claims\<close> and of the
  chain resolver.
\<close>

subsection \<open>The fleet\<close>

definition demo_restarter :: "unit restart_env" where
  "demo_restarter = \<lparr>re_write = Pair True, re_restart = (\<lambda>_ w. (Inr True, w))\<rparr>"

definition failing_restarter :: "unit restart_env" where
  "failing_restarter = \<lparr>re_write = Pair True, re_restart = (\<lambda>_ w. (Inr False, w))\<rparr>"

definition demo_pass :: "time \<Rightarrow> pass_input" where
  "demo_pass now =
     \<lparr>pi_apply = True, pi_limit = 10, pi_now = now,
      pi_specs = Some [(''b'', Inr \<lparr>fc_name = ''b'', fc_policy = ''never'', fc_host = None\<rparr>),
        (''a'', Inr \<lparr>fc_name = ''a'', fc_policy = ''always'', fc_host = None\<rparr>)],
      pi_row = (\<lambda>_. Inr (Some \<lparr>in_remote = False, in_host = Some ''h'', in_ended_at = None, in_exit_reason = None\<rparr>)),
      pi_snapshot = Inr (Some [''c'']), pi_in_sif = False, pi_server_present = Yes,
      pi_local_host = ''h'', pi_here = ''h'', pi_peers = (\<lambda>_. False)\<rparr>"

definition demo_node :: "'w \<Rightarrow> 'w sweep" where
  "demo_node w = \<lparr>nd_history = Missing, nd_world = w, sw_budget = None\<rparr>"

definition demo_send_node :: "(string list \<times> unit) node" where
  "demo_send_node = \<lparr>nd_history = Missing, nd_world = ([], ())\<rparr>"

definition demo_schedule :: "pass_input list" where
  "demo_schedule = [demo_pass 5, demo_pass 10, demo_pass 2000]"

lemma demo_healthy: "writes_land demo_restarter" "restarts_return demo_restarter" "writes_land failing_restarter"
  by (simp_all add: writes_land_def restarts_return_def demo_restarter_def failing_restarter_def)

lemma demo_memory: "memory (nd_history (demo_node w)) = Some []"
  by (simp add: demo_node_def memory_def)

lemma empty_spaced: "dict []" "spaced [] now" "debounced [] n now"
  by (simp_all add: dict_def spaced_def stamps_of_def apart_def debounced_def)

lemma demo_corpses: "corpse_names (demo_pass 5) = [''a'']"
  by code_simp

lemma demo_decided:
  "decide_fleet (demo_pass 5) (fleet_specs (demo_pass 5)) =
     Inr ([mk_report ''b'' Not_Managed ''policy-never'' (Fmt ''policy-never'' [Txt ''never'', Txt ''b'']) ''never''],
       [(''a'', mk_decision Restart ''ghost-active-row'' [Txt ''a''], ''always'')])"
  by code_simp

lemma demo_run:
  "restarts_of (fst (run_passes demo_restarter demo_schedule (demo_node ()))) = [(''a'', 5), (''a'', 2000)]"
  by code_simp

lemma demo_cooling:
  "map (ar_verdict \<circ> snd) (fst (run_passes demo_restarter demo_schedule (demo_node ()))) =
     [Not_Managed, Restarted, Not_Managed, Cooling_Down, Not_Managed, Restarted]"
  by code_simp

lemma demo_sorted: "sorted (0 # map pi_now demo_schedule)"
  by (simp add: demo_schedule_def demo_pass_def)

lemma demo_outcome:
  "map_sum id pass_exit_code (fst (reconcile_pass demo_restarter (demo_pass 5) (demo_node ()))) = Inr 0"
  by code_simp

subsection \<open>The witnesses\<close>

theorem pass_restarts_only_corpses_witness:
  "calls_of (snd (reconcile_pass (logging demo_restarter) (demo_pass 5) (demo_node ([], ())))) = [''a'']
   \<and> (\<exists>c \<in> set (loaded_configs (demo_pass 5)). fc_name c = ''a'' \<and> fleet_corpse (demo_pass 5) c)"
proof -
  have "calls_of (snd (reconcile_pass (logging demo_restarter) (demo_pass 5) (demo_node ([], ())))) = [''a'']"
    by code_simp
  moreover have "calls_of (demo_node ([], ())) = []" by (simp add: demo_node_def)
  ultimately show ?thesis
    using pass_restarts_only_corpses [OF prod.collapse [symmetric], of demo_restarter "demo_pass 5" "demo_node ([], ())"]
    by auto
qed

theorem restarts_are_spaced_witness:
  "sorted_wrt (\<lambda>(n, t) (m, u). n = m \<longrightarrow> t + DEBOUNCE_S \<le> u) [(''a'', 5), (''a'', 2000)]
   \<and> restarts_of (fst (run_passes demo_restarter demo_schedule (demo_node ()))) = [(''a'', 5), (''a'', 2000)]"
  using restarts_are_spaced [OF demo_healthy(1,2) _ _ prod.collapse [symmetric],
      where schedule = demo_schedule and s = "demo_node ()"] demo_sorted
  by (simp add: demo_run demo_memory empty_spaced)

theorem over_budget_is_never_reached_witness:
  "Over_Budget \<notin> (\<lambda>p. ar_verdict (snd p)) ` set (fst (run_passes demo_restarter demo_schedule (demo_node ())))"
proof
  assume "Over_Budget \<in> (\<lambda>p. ar_verdict (snd p)) ` set (fst (run_passes demo_restarter demo_schedule (demo_node ())))"
  then obtain t r where "(t, r) \<in> set (fst (run_passes demo_restarter demo_schedule (demo_node ())))"
    and over: "ar_verdict r = Over_Budget" by auto
  from over_budget_is_never_reached [OF demo_healthy(1,2) demo_sorted _ prod.collapse [symmetric] this(1)] over
  show False by (simp add: demo_memory empty_spaced)
qed

theorem pass_recovers_fleet_witness:
  "\<exists>out s'. reconcile_pass (logging demo_restarter) (demo_pass 5) (demo_node ([], ())) = (Inr out, s') \<and> calls_of s' = [''a'']"
proof -
  have "pi_apply (demo_pass 5)" "\<not> blackout (demo_pass 5)" "pi_limit (demo_pass 5) = 10"
    by (simp_all add: blackout_def is_fleet_blackout_def demo_pass_def)
  then show ?thesis
    using pass_recovers_fleet [OF demo_healthy(1,2) demo_memory [of "([], ())"] empty_spaced(2) demo_decided]
    by (auto simp: demo_corpses empty_spaced demo_node_def)
qed

theorem exit_zero_means_recovered_witness:
  "\<exists>out s'. reconcile_pass demo_restarter (demo_pass 5) (demo_node ()) = (Inr out, s')
     \<and> (\<exists>r \<in> set (po_reports out). ar_name r = ''a'' \<and> ar_verdict r = Restarted)"
proof -
  obtain out s' where "reconcile_pass demo_restarter (demo_pass 5) (demo_node ()) = (Inr out, s')"
    "pass_exit_code out = 0"
    using demo_outcome
    by (cases "reconcile_pass demo_restarter (demo_pass 5) (demo_node ())";
        cases "fst (reconcile_pass demo_restarter (demo_pass 5) (demo_node ()))") auto
  with exit_zero_means_recovered [OF this] demo_corpses show ?thesis by auto
qed

theorem saved_history_reads_back_witness:
  "\<exists>h'. memory (nd_history (snd (save_history demo_restarter [(''b'', [1, 4000]), (''a'', [4100])] 4200 (demo_node ())))) = Some h'
     \<and> sorted (map fst h') \<and> stamps_of h' ''b'' = [4000]"
proof -
  have "fst (save_history demo_restarter [(''b'', [1, 4000]), (''a'', [4100])] 4200 (demo_node ())) = Inr ()"
    by code_simp
  then obtain s' where s': "save_history demo_restarter [(''b'', [1, 4000]), (''a'', [4100])] 4200 (demo_node ()) = (Inr (), s')"
    by (metis prod.collapse)
  have "dict [(''b'', [1, 4000]), (''a'', [4100])]" by (simp add: dict_def)
  moreover have "sort (recent_stamps [(''b'', [1, 4000]), (''a'', [4100])] ''b'' 4200) = [4000]"
    by (simp add: recent_stamps_def stamps_of_def WINDOW_S_def)
  ultimately show ?thesis using saved_history_reads_back [OF _ s'] s' by (metis snd_conv)
qed

theorem failed_autostarts_are_not_limited_witness:
  "calls_of (after_sends (logging failing_restarter) ''a'' (Inr ''always'') (Inr None) 5 4 demo_send_node)
     = [''a'', ''a'', ''a'', ''a'']"
proof -
  have "memory (nd_history demo_send_node) = Some []" by (simp add: demo_send_node_def memory_def)
  moreover have "bc_allowed (budget_check \<lparr>bu_history = [], bu_pass_cap = DEFAULT_PASS_CAP, bu_spent = 0\<rparr> ''a'' 5)"
    by code_simp
  ultimately have "calls_of (after_sends (logging failing_restarter) ''a'' (Inr ''always'') (Inr None) 5 4 demo_send_node)
      = calls_of demo_send_node @ replicate 4 ''a''"
    using failed_autostarts_are_not_limited [OF demo_healthy(3), of demo_send_node "[]" "''a''" "''always''" None 5 4]
    by (simp add: failing_restarter_def MANAGED_POLICIES_def exit_reason_in_def)
  then show ?thesis by (simp add: demo_send_node_def eval_nat_numeral)
qed

end
