(* ===== verification/Pane_Text.thy ===== *)
theory Pane_Text
  imports Prelude
begin

text \<open>
  Screen text. A captured tmux pane is a Python \<open>str\<close>: a list of code points, with the prompt
  glyphs, box drawing and typographic quotes the interfaces paint. The components that read panes
  work on such lists (\<open>utext\<close>); this theory has the \<open>str\<close> methods they use and the matchers their
  regular expressions are written with. A literal of the source is \<open>u ''...''\<close> when it is ASCII.

  \<open>lower\<close> maps the ASCII letters and the two other characters whose lower case contains an ASCII
  letter (U+0130 and U+212A) and leaves every other character alone. The modules search a
  lowered pane only for patterns made of ASCII characters and of U+00B7, which no
  character is mapped to, so the answer of each search is the program's.
\<close>

type_synonym utext = "int list"

definition u :: "string \<Rightarrow> utext" where
  "u s = map of_char s"

subsection \<open>Characters\<close>

text \<open>\<open>str.isspace\<close> on one character, which is also what \<open>\s\<close> matches.\<close>

definition t_space :: "int \<Rightarrow> bool" where
  "t_space c \<longleftrightarrow>
     (9 \<le> c \<and> c \<le> 13) \<or> (28 \<le> c \<and> c \<le> 32) \<or> c = 0x85 \<or> c = 0xA0 \<or> c = 0x1680
     \<or> (0x2000 \<le> c \<and> c \<le> 0x200A) \<or> c = 0x2028 \<or> c = 0x2029 \<or> c = 0x202F \<or> c = 0x205F
     \<or> c = 0x3000"

text \<open>The line boundaries of \<open>str.splitlines\<close> that are one character long.\<close>

definition t_newline :: "int \<Rightarrow> bool" where
  "t_newline c \<longleftrightarrow>
     (10 \<le> c \<and> c \<le> 13) \<or> (28 \<le> c \<and> c \<le> 30) \<or> c = 0x85 \<or> c = 0x2028 \<or> c = 0x2029"

text \<open>The zero of every block of ten characters that \<open>\d\<close> matches (Unicode 14, Python 3.11).\<close>

definition digit_zeros :: "int list" where
  "digit_zeros =
     [48, 1632, 1776, 1984, 2406, 2534, 2662, 2790, 2918, 3046, 3174, 3302, 3430, 3558, 3664,
      3792, 3872, 4160, 4240, 6112, 6160, 6470, 6608, 6784, 6800, 6992, 7088, 7232, 7248, 42528,
      43216, 43264, 43472, 43504, 43600, 44016, 65296, 66720, 68912, 69734, 69872, 69942, 70096,
      70384, 70736, 70864, 71248, 71360, 71472, 71904, 72016, 72784, 73040, 73120, 92768, 92864,
      93008, 120782, 120792, 120802, 120812, 120822, 123200, 123632, 125264, 130032]"

definition t_digit :: "int \<Rightarrow> bool" where
  "t_digit c \<longleftrightarrow> list_ex (\<lambda>z. z \<le> c \<and> c < z + 10) digit_zeros"

definition lower_cp :: "int \<Rightarrow> utext" where
  "lower_cp c =
     (if 65 \<le> c \<and> c \<le> 90 then [c + 32]
      else if c = 0x130 then [105, 0x307]
      else if c = 0x212A then [107]
      else [c])"

definition lower :: "utext \<Rightarrow> utext" where
  "lower s = concat (map lower_cp s)"

lemma lower_append [simp]: "lower (s @ t) = lower s @ lower t"
  by (simp add: lower_def)

lemma lower_Nil [simp]: "lower [] = []"
  by (simp add: lower_def)

subsection \<open>Searching\<close>

definition begins :: "'a list \<Rightarrow> 'a list \<Rightarrow> bool" where
  "begins s p \<longleftrightarrow> take (length p) s = p"

lemma begins_iff: "begins s p \<longleftrightarrow> (\<exists>t. s = p @ t)"
  by (metis append_eq_conv_conj append_take_drop_id begins_def)

text \<open>\<open>needle in s\<close>.\<close>

fun holds :: "'a list \<Rightarrow> 'a list \<Rightarrow> bool" where
  "holds p [] \<longleftrightarrow> p = []"
| "holds p (x # xs) \<longleftrightarrow> begins (x # xs) p \<or> holds p xs"

lemma holds_iff: "holds p s \<longleftrightarrow> (\<exists>a b. s = a @ p @ b)"
proof (induction s)
  case (Cons x xs)
  have "(\<exists>a b. x # xs = a @ p @ b) \<longleftrightarrow> (\<exists>b. x # xs = p @ b) \<or> (\<exists>a b. xs = a @ p @ b)"
    by (metis append_Cons append_Nil list.inject neq_Nil_conv)
  with Cons.IH show ?case by (simp add: begins_iff)
qed simp

lemma holds_Nil [simp]: "holds [] s"
  by (cases s) (auto simp: begins_def)

lemma holdsI: "holds p (a @ p @ b)"
  by (auto simp: holds_iff)

lemma holds_trans: "holds p s \<Longrightarrow> holds s t \<Longrightarrow> holds p t"
  by (metis append.assoc holds_iff)

text \<open>\<open>s.count(needle)\<close>: occurrences that do not overlap, from the left.\<close>

fun occurrences :: "'a list \<Rightarrow> 'a list \<Rightarrow> nat" where
  "occurrences p [] = (if p = [] then 1 else 0)"
| "occurrences p (x # xs) =
     (if p = [] then Suc (occurrences p xs)
      else if begins (x # xs) p then Suc (occurrences p (drop (length p - 1) xs))
      else occurrences p xs)"

lemma occurrences_holds: "p \<noteq> [] \<Longrightarrow> 0 < occurrences p s \<longleftrightarrow> holds p s"
  by (induction p s rule: occurrences.induct) auto

subsection \<open>Lines and white space\<close>

fun rows_from :: "utext \<Rightarrow> utext \<Rightarrow> utext list" where
  "rows_from acc [] = (if acc = [] then [] else [rev acc])"
| "rows_from acc (x # xs) =
     (if x = 13 \<and> begins xs [10] then rev acc # rows_from [] (tl xs)
      else if t_newline x then rev acc # rows_from [] xs
      else rows_from (x # acc) xs)"

text \<open>\<open>str.splitlines\<close>.\<close>

definition pane_rows :: "utext \<Rightarrow> utext list" where
  "pane_rows s = rows_from [] s"

definition join_rows :: "utext list \<Rightarrow> utext" where
  "join_rows rs = (case rs of [] \<Rightarrow> [] | r # rs \<Rightarrow> r @ concat (map (\<lambda>x. 10 # x) rs))"

definition strip_with :: "(int \<Rightarrow> bool) \<Rightarrow> utext \<Rightarrow> utext" where
  "strip_with P s = rev (dropWhile P (rev (dropWhile P s)))"

definition t_strip :: "utext \<Rightarrow> utext" where
  "t_strip s = strip_with t_space s"

definition t_rstrip :: "utext \<Rightarrow> utext" where
  "t_rstrip s = rev (dropWhile t_space (rev s))"

definition last_n :: "nat \<Rightarrow> 'a list \<Rightarrow> 'a list" where
  "last_n n xs = drop (length xs - n) xs"

lemma rows_from_no_newline: "\<forall>c \<in> set s. \<not> t_newline c \<Longrightarrow>
    rows_from acc s = (if acc = [] \<and> s = [] then [] else [rev acc @ s])"
  by (induction s arbitrary: acc) (auto simp: t_newline_def)

lemma rows_from_row: "\<forall>c \<in> set r. \<not> t_newline c \<Longrightarrow>
    rows_from acc (r @ 10 # s) = (rev acc @ r) # rows_from [] s"
  by (induction r arbitrary: acc) (auto simp: t_newline_def)

lemma join_rows_Cons: "join_rows (r # r' # rs) = r @ 10 # join_rows (r' # rs)"
  by (simp add: join_rows_def)

lemma pane_rows_join:
  assumes "\<forall>r \<in> set rs. \<forall>c \<in> set r. \<not> t_newline c" and "rs = [] \<or> last rs \<noteq> []"
  shows "pane_rows (join_rows rs) = rs"
  using assms
proof (induction rs rule: induct_list012)
  case 1
  show ?case by (simp add: pane_rows_def join_rows_def)
next
  case (2 r)
  then show ?case by (simp add: pane_rows_def join_rows_def rows_from_no_newline)
next
  case (3 r r' rs)
  have "pane_rows (join_rows (r # r' # rs)) = r # pane_rows (join_rows (r' # rs))"
    using 3(3) by (simp add: pane_rows_def join_rows_Cons rows_from_row)
  with 3 show ?case by simp
qed

lemma rows_have_no_newline:
  "r \<in> set (rows_from acc s) \<Longrightarrow> \<forall>c \<in> set acc. \<not> t_newline c \<Longrightarrow> c \<in> set r \<Longrightarrow> \<not> t_newline c"
proof (induction acc s rule: rows_from.induct)
  case (1 acc)
  then show ?case by (simp split: if_splits)
next
  case (2 acc x xs)
  show ?case
  proof (cases "(x = 13 \<and> begins xs [10]) \<or> t_newline x")
    case True
    with 2 show ?thesis by (force split: if_splits)
  next
    case False
    with 2 show ?thesis by (auto split: if_splits)
  qed
qed

subsection \<open>Matchers\<close>

text \<open>
  A regular expression as a function from a place in the text (the character before it, if any,
  and what follows) to every place where a match that starts there can end. The code only asks
  whether there is a match, so the order of the places does not matter.
\<close>

type_synonym place = "int option \<times> utext"
type_synonym matcher = "place \<Rightarrow> place list"

fun m_char :: "(int \<Rightarrow> bool) \<Rightarrow> matcher" where
  "m_char P (before_it, []) = []"
| "m_char P (before_it, x # xs) = (if P x then [(Some x, xs)] else [])"

definition m_then :: "matcher \<Rightarrow> matcher \<Rightarrow> matcher" where
  "m_then r q p = concat (map q (r p))"

definition m_or :: "matcher \<Rightarrow> matcher \<Rightarrow> matcher" where
  "m_or r q p = r p @ q p"

definition m_empty :: matcher where
  "m_empty p = [p]"

fun m_many_from :: "(int \<Rightarrow> bool) \<Rightarrow> int option \<Rightarrow> utext \<Rightarrow> place list" where
  "m_many_from P b [] = [(b, [])]"
| "m_many_from P b (x # xs) = (b, x # xs) # (if P x then m_many_from P (Some x) xs else [])"

definition m_many :: "(int \<Rightarrow> bool) \<Rightarrow> matcher" where
  "m_many P p = m_many_from P (fst p) (snd p)"

definition m_some :: "(int \<Rightarrow> bool) \<Rightarrow> matcher" where
  "m_some P = m_then (m_char P) (m_many P)"

definition m_lit :: "utext \<Rightarrow> matcher" where
  "m_lit w = foldr (\<lambda>c. m_then (m_char (\<lambda>x. x = c))) w m_empty"

definition m_any_of :: "utext list \<Rightarrow> matcher" where
  "m_any_of ws p = concat (map (\<lambda>w. m_lit w p) ws)"

text \<open>\<open>^\<close> under \<open>re.MULTILINE\<close>, and \<open>\b\<close> for a table of the word characters.\<close>

definition m_line_start :: matcher where
  "m_line_start p = (if fst p = None \<or> fst p = Some 10 then [p] else [])"

definition m_boundary :: "(int \<Rightarrow> bool) \<Rightarrow> matcher" where
  "m_boundary word p =
     (if (case fst p of None \<Rightarrow> False | Some c \<Rightarrow> word c)
         \<noteq> (case snd p of [] \<Rightarrow> False | c # cs \<Rightarrow> word c)
      then [p] else [])"

text \<open>\<open>re.match\<close> and \<open>re.search\<close>, as answers.\<close>

definition m_match :: "matcher \<Rightarrow> utext \<Rightarrow> bool" where
  "m_match r s \<longleftrightarrow> r (None, s) \<noteq> []"

fun m_search_from :: "matcher \<Rightarrow> int option \<Rightarrow> utext \<Rightarrow> bool" where
  "m_search_from r b [] \<longleftrightarrow> r (b, []) \<noteq> []"
| "m_search_from r b (x # xs) \<longleftrightarrow> r (b, x # xs) \<noteq> [] \<or> m_search_from r (Some x) xs"

definition m_search :: "matcher \<Rightarrow> utext \<Rightarrow> bool" where
  "m_search r s \<longleftrightarrow> m_search_from r None s"

text \<open>Where a matcher that starts at a place can end, as concatenations.\<close>

lemma m_char_iff: "(b, t) \<in> set (m_char P (a, s)) \<longleftrightarrow> (\<exists>x. P x \<and> s = x # t \<and> b = Some x)"
  by (cases s) auto

lemma m_then_iff: "q \<in> set (m_then r1 r2 p) \<longleftrightarrow> (\<exists>m \<in> set (r1 p). q \<in> set (r2 m))"
  by (auto simp: m_then_def)

lemma m_many_from_iff:
  "(\<exists>b. (b, t) \<in> set (m_many_from P a s)) \<longleftrightarrow> (\<exists>w. s = w @ t \<and> (\<forall>x \<in> set w. P x))"
proof (induction s arbitrary: a)
  case (Cons x xs)
  have "(\<exists>w. x # xs = w @ t \<and> (\<forall>y \<in> set w. P y))
      \<longleftrightarrow> t = x # xs \<or> (P x \<and> (\<exists>w. xs = w @ t \<and> (\<forall>y \<in> set w. P y)))"
    by (auto simp: Cons_eq_append_conv)
  with Cons.IH show ?case by auto
qed auto

lemma m_many_iff:
  "(\<exists>b. (b, t) \<in> set (m_many P (a, s))) \<longleftrightarrow> (\<exists>w. s = w @ t \<and> (\<forall>x \<in> set w. P x))"
  by (simp add: m_many_def m_many_from_iff)

lemma m_search_from_iff:
  "m_search_from r b s \<longleftrightarrow> (\<exists>w t. s = w @ t \<and> r (last (b # map Some w), t) \<noteq> [])"
proof (induction s arbitrary: b)
  case (Cons x xs)
  have "(\<exists>w t. x # xs = w @ t \<and> r (last (b # map Some w), t) \<noteq> [])
      \<longleftrightarrow> r (b, x # xs) \<noteq> [] \<or> (\<exists>w t. xs = w @ t \<and> r (last (Some x # map Some w), t) \<noteq> [])"
    (is "?L \<longleftrightarrow> ?N \<or> ?R")
  proof
    assume ?L
    then obtain w t where wt: "x # xs = w @ t" "r (last (b # map Some w), t) \<noteq> []" by blast
    show "?N \<or> ?R"
    proof (cases w)
      case Nil
      with wt show ?thesis by simp
    next
      case (Cons c w')
      with wt have "xs = w' @ t \<and> r (last (Some x # map Some w'), t) \<noteq> []" by (cases w') auto
      then show ?thesis by blast
    qed
  next
    assume "?N \<or> ?R"
    then show ?L
    proof
      assume ?N
      then have "x # xs = [] @ x # xs \<and> r (last (b # map Some []), x # xs) \<noteq> []" by simp
      then show ?L by blast
    next
      assume ?R
      then obtain w t where "xs = w @ t" "r (last (Some x # map Some w), t) \<noteq> []" by blast
      then have "x # xs = (x # w) @ t \<and> r (last (b # map Some (x # w)), t) \<noteq> []" by simp
      then show ?L by blast
    qed
  qed
  with Cons.IH show ?case by simp
qed simp

end
