(* ===== verification/Prompts.thy ===== *)
theory Prompts
  imports Pane_Text
begin

text \<open>
  What a pane shows: the prompts of \<open>runtimes/prompts.py\<close> with the keys that answer them, the
  Codex screens nobody may answer without review, and the busy marker and nonce echo of
  \<open>_lifecycle/liveness_probe.py\<close>. Every detector is a function of the captured text.
\<close>

subsection \<open>Busy panes and nonce echoes\<close>

definition DEFAULT_BUSY_MARKERS :: "utext list" where
  "DEFAULT_BUSY_MARKERS =
     [u ''Working'' @ [0x2026], u ''Ruminating'' @ [0x2026], u ''Thinking'' @ [0x2026],
      u ''Pondering'', u ''esc to interrupt'', u ''Ctrl+C to interrupt'']"

definition BUSY_TAIL_CHARS :: nat where
  "BUSY_TAIL_CHARS = 2000"

definition pane_has_nonce_echo :: "utext \<Rightarrow> utext \<Rightarrow> nat \<Rightarrow> bool" where
  "pane_has_nonce_echo pane nonce min_occurrences \<longleftrightarrow>
     pane \<noteq> [] \<and> nonce \<noteq> [] \<and> min_occurrences \<le> occurrences nonce pane"

definition pane_is_busy :: "utext \<Rightarrow> bool" where
  "pane_is_busy pane \<longleftrightarrow>
     pane \<noteq> [] \<and> list_ex (\<lambda>marker. holds marker (last_n BUSY_TAIL_CHARS pane)) DEFAULT_BUSY_MARKERS"

datatype probe_state = Probe_Pending | Probe_Alive | Probe_Busy | Probe_Silent

definition classify_probe :: "utext \<Rightarrow> utext \<Rightarrow> bool \<Rightarrow> nat \<Rightarrow> probe_state" where
  "classify_probe pane nonce is_timeout min_occurrences =
     (if pane_has_nonce_echo pane nonce min_occurrences then Probe_Alive
      else if is_timeout then (if pane_is_busy pane then Probe_Busy else Probe_Silent)
      else Probe_Pending)"

subsection \<open>The prompts of the first interface\<close>

definition detect_bypass_permissions :: "utext \<Rightarrow> bool" where
  "detect_bypass_permissions content \<longleftrightarrow>
     holds (u ''Bypass Permissions'') content \<and> holds (u ''2. Yes, I accept'') content
     \<and> holds (u ''Enter to confirm'') content"

definition detect_dev_channels :: "utext \<Rightarrow> bool" where
  "detect_dev_channels content \<longleftrightarrow>
     holds (u ''1. I am using this for local development'') content
     \<and> holds (u ''Enter to confirm'') content"

definition has_esc_cancel_modal :: "utext \<Rightarrow> bool" where
  "has_esc_cancel_modal content \<longleftrightarrow>
     holds (u ''esc to cancel'') (lower content) \<or> holds (u ''escape to cancel'') (lower content)
     \<or> detect_dev_channels content"

definition detect_thinking_effort :: "utext \<Rightarrow> bool" where
  "detect_thinking_effort content \<longleftrightarrow>
     holds (u ''Medium'') content
     \<and> (holds (u ''thinking'') (lower content) \<or> holds (u ''effort'') (lower content))
     \<and> holds (u ''Enter to confirm'') content"

definition detect_skip_permissions_yn :: "utext \<Rightarrow> bool" where
  "detect_skip_permissions_yn content \<longleftrightarrow>
     (holds (u ''skip-permissions'') content \<or> holds (u ''Trust'') content)
     \<and> \<not> holds (u ''Enter to confirm'') content
     \<and> (holds (u ''y/n'') (lower content) \<or> holds (u ''type'') (lower content))"

definition detect_mcp_json_edit :: "utext \<Rightarrow> bool" where
  "detect_mcp_json_edit content \<longleftrightarrow>
     holds (u ''.mcp.json'') content \<and> holds (u ''Enter to confirm'') content
     \<and> (holds (u ''1. Yes'') content \<or> holds (u ''1. Proceed'') content
        \<or> holds (u ''1. Allow'') content)"

definition detect_press_enter_continue :: "utext \<Rightarrow> bool" where
  "detect_press_enter_continue content =
     (let last = join_rows (last_n 5 (filter (\<lambda>line. t_strip line \<noteq> []) (pane_rows content)));
          has_enter_cue = holds (u ''Press Enter to continue'') last \<or> holds (u ''press Enter'') last
            \<or> holds (u ''Hit Enter'') last;
          is_active = holds (u ''Working'' @ [0x2026]) last \<or> holds (u ''Ruminating'' @ [0x2026]) last;
          has_radio = holds (u ''Enter to confirm'') last \<or> holds (u ''1. '') last
      in has_enter_cue \<and> \<not> is_active \<and> \<not> has_radio)"

definition detect_file_trust :: "utext \<Rightarrow> bool" where
  "detect_file_trust content \<longleftrightarrow>
     holds (u ''trust'') (lower content) \<and> holds (u ''folder'') (lower content)
     \<and> (holds (u ''y/n'') (lower content) \<or> holds (u ''yes'') (lower content))
     \<and> \<not> holds (u ''Enter to confirm'') content"

definition detect_file_trust_radio :: "utext \<Rightarrow> bool" where
  "detect_file_trust_radio content \<longleftrightarrow>
     holds (u ''1. Yes, I trust this folder'') content \<and> holds (u ''2. No, exit'') content
     \<and> holds (u ''Enter to confirm'') content"

definition detect_external_imports :: "utext \<Rightarrow> bool" where
  "detect_external_imports content \<longleftrightarrow>
     holds (u ''Allow external CLAUDE.md file imports'') content
     \<and> holds (u ''1. Yes, allow external imports'') content
     \<and> holds (u ''Enter to confirm'') content"

definition detect_login_method :: "utext \<Rightarrow> bool" where
  "detect_login_method content \<longleftrightarrow>
     holds (u ''Select login method:'') content
     \<and> holds (u ''Claude account with subscription'') content
     \<and> holds (u ''Anthropic Console account'') content"

definition detect_theme_selection :: "utext \<Rightarrow> bool" where
  "detect_theme_selection content \<longleftrightarrow>
     holds (u ''Choose the text style'') content \<and> holds (u ''1. Auto (match terminal)'') content"

text \<open>The prompt glyph, blanks, then text: \<open>re.search\<close> of the glyph, blanks and one non-space.\<close>

definition CLAUDE_MARKER :: int where
  "CLAUDE_MARKER = 0x276F"

definition compose_prompt :: matcher where
  "compose_prompt =
     m_then (m_lit [CLAUDE_MARKER])
       (m_then (m_some (\<lambda>c. c = 32 \<or> c = 9 \<or> c = 0xA0)) (m_char (\<lambda>c. \<not> t_space c)))"

definition detect_compose_pending_unsent :: "utext \<Rightarrow> bool" where
  "detect_compose_pending_unsent content \<longleftrightarrow> m_search compose_prompt content"

definition detect_resume_session :: "utext \<Rightarrow> bool" where
  "detect_resume_session content \<longleftrightarrow>
     holds (u ''Resume full session as-is'') content \<and> holds (u ''Resume from summary'') content
     \<and> holds (u ''Enter to confirm'') content"

definition detect_hermes_contributor_tier :: "utext \<Rightarrow> bool" where
  "detect_hermes_contributor_tier content \<longleftrightarrow>
     holds (u ''CONTRIBUTOR TIER'') content
     \<and> holds (u ''Use this model for this invocation? [y/N]'') content"

subsection \<open>The Codex screens\<close>

definition detect_codex_dir_trust :: "utext \<Rightarrow> bool" where
  "detect_codex_dir_trust content \<longleftrightarrow>
     (holds (u ''Do you trust the contents of this directory'') content
      \<and> holds (u ''1. Yes, continue'') content)
     \<or> (holds (u ''Trust this folder?'') content \<and> holds (u ''1. Trust and continue'') content)"

definition detect_codex_hooks_review :: "utext \<Rightarrow> bool" where
  "detect_codex_hooks_review content \<longleftrightarrow>
     holds (u ''Hooks need review'') content \<and> holds (u ''2. Trust all and continue'') content"

definition CODEX_COMPOSER_MARKERS :: "int list" where
  "CODEX_COMPOSER_MARKERS = [0x203A, 0xBB]"

definition CODEX_TAIL_ROWS :: nat where
  "CODEX_TAIL_ROWS = 8"

definition codex_footer :: matcher where
  "codex_footer =
     m_then m_line_start (m_then (m_many t_space) (m_then (m_some (\<lambda>c. \<not> t_space c))
       (m_then (m_lit [32])
         (m_then (m_any_of [u ''default'', u ''minimal'', u ''low'', u ''medium'', u ''high'',
                            u ''xhigh'', u ''max'', u ''ultra''])
           (m_then (m_or m_empty (m_then (m_lit [32]) (m_any_of [u ''fast'', u ''ultrafast''])))
             (m_lit ([32, 0xB7, 32, 0x2F])))))))"

definition REMOTE_COMPACT_HARDCAP_PREFIX :: utext where
  "REMOTE_COMPACT_HARDCAP_PREFIX =
     u ''error running remote compact task: you've hit your usage limit. visit https://''"

definition has_composer_marker :: "utext \<Rightarrow> bool" where
  "has_composer_marker row \<longleftrightarrow> list_ex (\<lambda>m. m \<in> set row) CODEX_COMPOSER_MARKERS"

text \<open>\<open>"...".strip(chars)\<close> with the box drawing characters the code lists.\<close>

definition box_chars :: "int list" where
  "box_chars = [0x2502, 0x2503, 0x256D, 0x256E, 0x2570, 0x256F, 0x250C, 0x2510, 0x2514, 0x2518,
                0x2500, 0x26A0, 0x21, 32]"

definition plain_quotes :: "utext \<Rightarrow> utext" where
  "plain_quotes s = map (\<lambda>c. if c = 0x2019 then 39 else c) s"

definition limit_heading :: "utext \<Rightarrow> bool" where
  "limit_heading heading \<longleftrightarrow> begins heading (u ''you've hit your usage limit'')"

record usage_scan =
  us_fenced :: "utext option"
  us_input_indent :: "nat option"
  us_blocked :: bool

definition fence_row :: "utext \<Rightarrow> bool" where
  "fence_row text \<longleftrightarrow> begins text (u ''```'') \<or> begins text (u ''~~~'')"

definition native_row :: "utext \<Rightarrow> bool" where
  "native_row text \<longleftrightarrow> begins text [0x25A0, 32] \<or> begins text [0x2022, 32]"

definition native_limit :: "utext \<Rightarrow> bool" where
  "native_limit text =
     (let heading = lower (plain_quotes (drop 2 text)) in
      begins text [0x25A0] \<and> (limit_heading heading \<or> begins heading REMOTE_COMPACT_HARDCAP_PREFIX))"

definition boxed_limit :: "utext \<Rightarrow> bool" where
  "boxed_limit text \<longleftrightarrow>
     limit_heading (lower (plain_quotes (strip_with (\<lambda>c. c \<in> set box_chars) text)))"

definition toggle_fence :: "utext option \<Rightarrow> utext \<Rightarrow> utext option" where
  "toggle_fence fenced marker =
     (case fenced of None \<Rightarrow> Some marker | Some f \<Rightarrow> if marker = f then None else Some f)"

text \<open>One round of the loop over the rows.\<close>

definition usage_step :: "usage_scan \<Rightarrow> utext \<Rightarrow> usage_scan" where
  "usage_step s row =
     (let text = t_strip row;
          indent = length row - length (dropWhile (\<lambda>c. c = 32 \<or> c = 9) row)
      in if fence_row text then s\<lparr>us_fenced := toggle_fence (us_fenced s) (take 3 text)\<rparr>
      else if us_fenced s \<noteq> None \<or> begins text (u ''>'') then s
      else if list_ex (\<lambda>m. begins text [m]) CODEX_COMPOSER_MARKERS then s\<lparr>us_input_indent := Some indent\<rparr>
      else if (case us_input_indent s of None \<Rightarrow> False | Some i \<Rightarrow> i < indent) then s
      else if native_row text then s\<lparr>us_blocked := native_limit text\<rparr>
      else if boxed_limit text then s\<lparr>us_blocked := True\<rparr>
      else s)"

definition usage_start :: usage_scan where
  "usage_start = \<lparr>us_fenced = None, us_input_indent = None, us_blocked = False\<rparr>"

definition codex_usage_limit_pane :: "utext \<Rightarrow> bool" where
  "codex_usage_limit_pane content = us_blocked (foldl usage_step usage_start (pane_rows content))"

text \<open>The rows from the last one with a composer marker on, if there is one.\<close>

fun rows_from_last :: "(utext \<Rightarrow> bool) \<Rightarrow> utext list \<Rightarrow> utext list option" where
  "rows_from_last P [] = None"
| "rows_from_last P (r # rs) =
     (case rows_from_last P rs of
        Some tail \<Rightarrow> Some tail
      | None \<Rightarrow> if P r then Some (r # rs) else None)"

definition codex_controls :: "utext list" where
  "codex_controls =
     [u ''trust all and continue'', u ''continue without trusting'', u ''press enter to confirm'',
      u ''enter continue '' @ [0xB7] @ u '' esc'', u ''1. trust and continue'', u ''1. yes, continue'']"

definition codex_headings :: "(string \<times> utext list) list" where
  "codex_headings =
     [(''codex-hooks-review'', [u ''hooks need review'']),
      (''codex-dir-trust'', [u ''trust this folder?'', u ''do you trust the contents of this directory'']),
      (''codex-auth-required'',
         [u ''sign in to codex'', u ''log in to codex'', u ''authentication required'',
          u ''continue with chatgpt'']),
      (''codex-rate-limit'',
         [u ''usage limit reached'', u ''rate limit exceeded'', u ''too many requests''])]"

definition heading_of_row :: "utext \<Rightarrow> utext" where
  "heading_of_row row = lower (strip_with (\<lambda>c. c \<in> set (9 # 0x2022 # box_chars)) row)"

definition heading_name :: "utext \<Rightarrow> string option" where
  "heading_name row =
     map_option fst (find (\<lambda>(name, prefixes). list_ex (begins (heading_of_row row)) prefixes) codex_headings)"

fun first_heading :: "utext list \<Rightarrow> string option" where
  "first_heading [] = None"
| "first_heading (r # rs) = (case heading_name r of Some n \<Rightarrow> Some n | None \<Rightarrow> first_heading rs)"

definition composer_is_live :: "utext list \<Rightarrow> bool" where
  "composer_is_live rows =
     (case rows_from_last has_composer_marker rows of
        None \<Rightarrow> False
      | Some tail \<Rightarrow>
          m_search codex_footer (join_rows tail)
          \<and> \<not> list_ex (\<lambda>control. holds control (lower (join_rows tail))) codex_controls)"

definition codex_blocking_modal :: "utext \<Rightarrow> string option" where
  "codex_blocking_modal content =
     (if codex_usage_limit_pane content then Some ''codex-usage-limit''
      else if composer_is_live (pane_rows content) then None
      else first_heading (pane_rows content))"

definition LIVE_WINDOW_LINES :: nat where
  "LIVE_WINDOW_LINES = 15"

definition recent_tail :: "utext \<Rightarrow> utext" where
  "recent_tail content =
     join_rows (last_n LIVE_WINDOW_LINES (filter (\<lambda>row. t_strip row \<noteq> []) (pane_rows content)))"

definition detect_codex_done :: "utext \<Rightarrow> bool" where
  "detect_codex_done content =
     (let live = recent_tail content;
          tail = join_rows (last_n CODEX_TAIL_ROWS (pane_rows (t_rstrip content)))
      in if codex_blocking_modal content \<noteq> None then False
      else if detect_codex_dir_trust live \<or> detect_codex_hooks_review live then False
      else if holds (u ''Press enter to continue'') live \<or> holds (u ''Press enter to confirm'') live then False
      else if holds (u ''OpenAI Codex (v'') content \<and> holds (u ''permissions:'') content then True
      else has_composer_marker tail \<and> m_search codex_footer tail)"

definition is_ready :: "utext \<Rightarrow> bool" where
  "is_ready content =
     (if codex_blocking_modal content \<noteq> None then False
      else if holds (u ''bypass permissions'') content \<and> \<not> holds (u ''Enter to confirm'') content then True
      else detect_codex_done content)"

end
