(* ===== verification/Screen_Env.thy ===== *)
theory Screen_Env
  imports Prompts "HOL-Library.Sublist"
begin

text \<open>
  What the loops that drive a terminal interface call: capture the pane, press a key, paste a text,
  ask whether the session exists, read the clock, sleep. Those are function arguments in the
  source, and their answers depend on everything that happened before. So the state of a model is
  the history of the calls, the latest first, and an environment answers each call from the
  history. Every statement is for every environment.

  A loop of the source is \<open>run_loop n body\<close>: \<open>n\<close> bounds the rounds, \<open>None\<close> is a loop that has not
  ended after them. The locale \<open>deadline_loop\<close> shows that a loop which sleeps in every round and
  looks at its deadline does end, and every loop of these components is an instance of it.
\<close>

datatype event =
    Captured "utext option" | Pressed string | Pasted utext | Existed bool
  | Read_Clock time | Slept time
  | Listed_Sessions "string list option" | Read_Session_Id "string option" | Sent_Sdk utext tri

type_synonym history = "event list"

record screen_env =
  at_capture :: "history \<Rightarrow> utext option"
  at_clock :: "history \<Rightarrow> time"
  at_exists :: "history \<Rightarrow> bool"

definition capture :: "screen_env \<Rightarrow> history \<Rightarrow> utext option \<times> history" where
  "capture env h = (at_capture env h, Captured (at_capture env h) # h)"

text \<open>\<open>capture(...) or ""\<close>: what a caller reads that takes no capture for an empty screen.\<close>

definition pane_text :: "utext option \<Rightarrow> utext" where
  "pane_text p = (case p of None \<Rightarrow> [] | Some t \<Rightarrow> t)"

definition look :: "screen_env \<Rightarrow> history \<Rightarrow> utext \<times> history" where
  "look env h = (pane_text (at_capture env h), Captured (at_capture env h) # h)"

definition press :: "string \<Rightarrow> history \<Rightarrow> history" where
  "press key h = Pressed key # h"

definition press_all :: "string list \<Rightarrow> history \<Rightarrow> history" where
  "press_all keys h = map Pressed (rev keys) @ h"

definition paste :: "utext \<Rightarrow> history \<Rightarrow> history" where
  "paste t h = Pasted t # h"

definition clock :: "screen_env \<Rightarrow> history \<Rightarrow> time \<times> history" where
  "clock env h = (at_clock env h, Read_Clock (at_clock env h) # h)"

definition sleep :: "time \<Rightarrow> history \<Rightarrow> history" where
  "sleep d h = Slept d # h"

text \<open>\<open>if poll_s > 0: sleep_fn(poll_s)\<close>.\<close>

definition nap :: "time \<Rightarrow> history \<Rightarrow> history" where
  "nap d h = (if 0 < d then sleep d h else h)"

definition session_exists :: "screen_env \<Rightarrow> history \<Rightarrow> bool \<times> history" where
  "session_exists env h = (at_exists env h, Existed (at_exists env h) # h)"

text \<open>What the latest capture of a history showed.\<close>

fun last_seen :: "history \<Rightarrow> utext" where
  "last_seen [] = []"
| "last_seen (e # h) = (case e of Captured p \<Rightarrow> pane_text p | _ \<Rightarrow> last_seen h)"

lemma last_seen_simps [simp]:
  "last_seen (press k h) = last_seen h" "last_seen (sleep d h) = last_seen h"
  "last_seen (nap d h) = last_seen h" "last_seen (snd (clock env h)) = last_seen h"
  "last_seen (snd (look env h)) = fst (look env h)" "last_seen (paste t h) = last_seen h"
  "last_seen (snd (session_exists env h)) = last_seen h"
  by (simp_all add: press_def sleep_def nap_def clock_def look_def paste_def session_exists_def)

lemma clock_looks [simp]: "fst (clock env h) = at_clock env h" "fst (look env h) = pane_text (at_capture env h)"
  by (simp_all add: clock_def look_def)

abbreviation ticked :: "screen_env \<Rightarrow> history \<Rightarrow> history" where
  "ticked env h \<equiv> snd (clock env h)"

abbreviation looked :: "screen_env \<Rightarrow> history \<Rightarrow> history" where
  "looked env h \<equiv> snd (look env h)"

abbreviation screen :: "screen_env \<Rightarrow> history \<Rightarrow> utext" where
  "screen env h \<equiv> pane_text (at_capture env h)"

subsection \<open>The clock\<close>

text \<open>
  \<open>time.monotonic\<close> never goes back, and \<open>time.sleep(d)\<close> lets at least \<open>d\<close> pass.
\<close>

definition clock_runs :: "screen_env \<Rightarrow> bool" where
  "clock_runs env \<longleftrightarrow>
     (\<forall>h e. at_clock env h + (case e of Slept d \<Rightarrow> d | _ \<Rightarrow> 0) \<le> at_clock env (e # h))"

named_theorems ticking \<comment> \<open>the clock after a call is not before it\<close>

lemma clock_runsD:
  "clock_runs env \<Longrightarrow> at_clock env h + (case e of Slept d \<Rightarrow> d | _ \<Rightarrow> 0) \<le> at_clock env (e # h)"
  by (simp add: clock_runs_def)

lemma clock_step: "clock_runs env \<Longrightarrow> \<forall>d. e \<noteq> Slept d \<Longrightarrow> at_clock env h \<le> at_clock env (e # h)"
  using clock_runsD [of env h e] by (cases e) auto

lemma ticking_steps [ticking]:
  assumes "clock_runs env"
  shows "at_clock env h \<le> at_clock env (snd (capture env h))"
    "at_clock env h \<le> at_clock env (snd (look env h))"
    "at_clock env h \<le> at_clock env (press k h)"
    "at_clock env h \<le> at_clock env (paste t h)"
    "at_clock env h \<le> at_clock env (snd (clock env h))"
    "at_clock env h \<le> at_clock env (snd (session_exists env h))"
    "at_clock env h + d \<le> at_clock env (sleep d h)"
    "0 < d \<Longrightarrow> at_clock env h + d \<le> at_clock env (nap d h)"
    "at_clock env h \<le> at_clock env (nap d h)"
proof -
  show sleep: "at_clock env h + d \<le> at_clock env (sleep d h)" for d
    using clock_runsD [OF assms, of h "Slept d"] by (simp add: sleep_def)
  show "0 < d \<Longrightarrow> at_clock env h + d \<le> at_clock env (nap d h)"
    using sleep [of d] by (simp add: nap_def)
  show "at_clock env h \<le> at_clock env (nap d h)"
    using sleep [of d] by (auto simp: nap_def)
qed (use clock_step [OF assms] in \<open>simp_all add: capture_def look_def press_def paste_def clock_def session_exists_def\<close>)

subsection \<open>Loops\<close>

fun run_loop :: "nat \<Rightarrow> ('s \<Rightarrow> 'r + 's) \<Rightarrow> 's \<Rightarrow> 'r option" where
  "run_loop 0 body s = None"
| "run_loop (Suc n) body s = (case body s of Inl r \<Rightarrow> Some r | Inr s' \<Rightarrow> run_loop n body s')"

lemma run_loop_more: "run_loop n body s = Some r \<Longrightarrow> n \<le> m \<Longrightarrow> run_loop m body s = Some r"
proof (induction n arbitrary: m s)
  case (Suc n)
  then obtain m' where "m = Suc m'" by (metis Suc_le_D)
  with Suc show ?case by (auto split: sum.splits)
qed simp

text \<open>
  What holds at the start of a loop and is kept by every round holds of what the round that ends
  it started from.
\<close>

lemma run_loop_invariant:
  assumes "run_loop n body s = Some r" and "P s"
    and "\<And>s s'. P s \<Longrightarrow> body s = Inr s' \<Longrightarrow> P s'"
    and "\<And>s r. P s \<Longrightarrow> body s = Inl r \<Longrightarrow> Q r"
  shows "Q r"
  using assms(1,2)
proof (induction n arbitrary: s)
  case (Suc n)
  then show ?case using assms(3,4) by (auto split: sum.splits)
qed simp

locale deadline_loop =
  fixes ok :: "'s \<Rightarrow> bool"
    and body :: "'s \<Rightarrow> 'r + 's"
    and time_of :: "'s \<Rightarrow> rat"
    and deadline :: rat
    and period :: rat
  assumes period_pos: "ok s \<Longrightarrow> 0 < period"
    and progress: "ok s \<Longrightarrow> body s = Inr s' \<Longrightarrow> ok s' \<and> time_of s + period \<le> time_of s'"
    and stops: "ok s \<Longrightarrow> deadline \<le> time_of s \<Longrightarrow> body s \<noteq> Inr s'"
begin

lemma ends_within:
  assumes "ok s" and "deadline \<le> time_of s + of_nat n * period"
  shows "run_loop (Suc n) body s \<noteq> None"
  using assms
proof (induction n arbitrary: s)
  case 0
  then show ?case using stops [of s] by (cases "body s") auto
next
  case (Suc n)
  show ?case
  proof (cases "body s")
    case (Inr s')
    with progress [OF Suc.prems(1)] have s': "ok s'" "time_of s + period \<le> time_of s'" by auto
    have "deadline \<le> time_of s' + of_nat n * period"
      using Suc.prems(2) s'(2) by (simp add: algebra_simps)
    with Suc.IH [OF s'(1)] Inr show ?thesis by simp
  qed simp
qed

lemma ends:
  assumes "ok s" and "(deadline - time_of s) / period \<le> of_nat n"
  shows "\<exists>r. run_loop (Suc n) body s = Some r"
proof -
  have "deadline - time_of s \<le> of_nat n * period"
    using assms period_pos [OF assms(1)] by (simp add: pos_divide_le_eq)
  then have "deadline \<le> time_of s + of_nat n * period" by simp
  with ends_within [OF assms(1)] show ?thesis by blast
qed

end

text \<open>How many rounds a wait of \<open>wait\<close> seconds in steps of \<open>period\<close> seconds takes at most.\<close>

definition rounds :: "rat \<Rightarrow> rat \<Rightarrow> nat" where
  "rounds wait period = Suc (nat \<lceil>wait / period\<rceil>)"

lemma rounds_enough: "wait / period \<le> of_nat (nat \<lceil>wait / period\<rceil>)"
  by (rule of_nat_ceiling)

subsection \<open>Which keys a history presses, and what was on the screen\<close>

fun keys_ok :: "(string \<Rightarrow> utext \<Rightarrow> bool) \<Rightarrow> history \<Rightarrow> bool" where
  "keys_ok P [] \<longleftrightarrow> True"
| "keys_ok P (e # h) \<longleftrightarrow> (case e of Pressed k \<Rightarrow> P k (last_seen h) | _ \<Rightarrow> True) \<and> keys_ok P h"

fun presses :: "string \<Rightarrow> history \<Rightarrow> nat" where
  "presses k [] = 0"
| "presses k (e # h) = (if e = Pressed k then 1 else 0) + presses k h"

named_theorems keyless \<comment> \<open>calls that press nothing\<close>

lemma keys_ok_simps [keyless]:
  "keys_ok P (sleep d h) = keys_ok P h" "keys_ok P (nap d h) = keys_ok P h"
  "keys_ok P (snd (clock env h)) = keys_ok P h" "keys_ok P (snd (look env h)) = keys_ok P h"
  "keys_ok P (snd (capture env h)) = keys_ok P h" "keys_ok P (paste t h) = keys_ok P h"
  "keys_ok P (snd (session_exists env h)) = keys_ok P h"
  "keys_ok P (press k h) = (P k (last_seen h) \<and> keys_ok P h)"
  by (simp_all add: press_def sleep_def nap_def clock_def look_def paste_def capture_def session_exists_def)

lemma presses_simps [keyless]:
  "presses k (sleep d h) = presses k h" "presses k (nap d h) = presses k h"
  "presses k (snd (clock env h)) = presses k h" "presses k (snd (look env h)) = presses k h"
  "presses k (snd (capture env h)) = presses k h" "presses k (paste t h) = presses k h"
  "presses k (snd (session_exists env h)) = presses k h"
  "presses k (press k' h) = (if k' = k then 1 else 0) + presses k h"
  by (simp_all add: press_def sleep_def nap_def clock_def look_def paste_def capture_def session_exists_def)

end
