(* ===== verification/Delivery.thy ===== *)
theory Delivery
  imports Reconcile_Rule Screen_Env
begin

text \<open>
  A verified send, its vocabulary: the signal table (\<open>_delivery/_spec.py\<close>), what is known of one
  send (\<open>_state.py\<close>), the fold of the signals into a verdict (\<open>_assess.py\<close>), the route
  (\<open>_route.py\<close>) and the token (\<open>_token.py\<close>). The prose fields of the table (\<open>reads\<close>, \<open>why\<close>) are
  not carried. A signal is a constructor here and an attribute name there; the errors for an
  attribute that does not exist are those of \<open>delivery_spec_for\<close>.
\<close>

subsection \<open>The signal table\<close>

datatype signal =
    Route_Resolved | Payload_Delivered | Payload_Submitted
  | Pane_Readable | Target_Busy_Before | Login_Banner_Before

fun signal_name :: "signal \<Rightarrow> string" where
  "signal_name Route_Resolved = ''is_route_resolved''"
| "signal_name Payload_Delivered = ''is_payload_delivered''"
| "signal_name Payload_Submitted = ''is_payload_submitted''"
| "signal_name Pane_Readable = ''is_pane_readable''"
| "signal_name Target_Busy_Before = ''is_target_busy_before''"
| "signal_name Login_Banner_Before = ''is_login_banner_before''"

datatype observation = Direct | Inferred

record signal_spec =
  sp_signal :: signal
  sp_healthy :: bool
  sp_load_bearing :: bool
  sp_decisive :: bool
  sp_observation :: observation
  sp_evidence :: "string list"

definition mk_spec :: "signal \<Rightarrow> bool \<Rightarrow> bool \<Rightarrow> observation \<Rightarrow> string list \<Rightarrow> signal_spec" where
  "mk_spec s healthy load_bearing obs evidence =
     \<lparr>sp_signal = s, sp_healthy = healthy, sp_load_bearing = load_bearing, sp_decisive = False,
      sp_observation = obs, sp_evidence = evidence\<rparr>"

definition DELIVERY_SIGNALS :: "signal_spec list" where
  "DELIVERY_SIGNALS =
     [mk_spec Route_Resolved True True Direct [''tmux_sessions'', ''session_id_path''],
      mk_spec Payload_Delivered True True Inferred [''pane_after_paste'', ''send_detail''],
      mk_spec Payload_Submitted True True Inferred [''pane_after_submit''],
      mk_spec Pane_Readable True False Direct [''pane_before'', ''pane_after_paste''],
      mk_spec Target_Busy_Before False False Direct [''pane_before''],
      mk_spec Login_Banner_Before False False Direct [''pane_before'']]"

fun validate_from :: "string list \<Rightarrow> signal_spec list \<Rightarrow> unit result" where
  "validate_from seen [] = Inr ()"
| "validate_from seen (sp # sps) =
     (if signal_name (sp_signal sp) \<in> set seen then Inl (ValueError ''duplicate delivery signal'')
      else if sp_decisive sp \<and> \<not> sp_load_bearing sp
      then Inl (ValueError ''decisive but not load-bearing'')
      else if sp_decisive sp \<and> sp_observation sp \<noteq> Direct
      then Inl (ValueError ''decisive requires direct observation'')
      else validate_from (signal_name (sp_signal sp) # seen) sps)"

definition validate_delivery_specs :: "signal_spec list \<Rightarrow> unit result" where
  "validate_delivery_specs sps = validate_from [] sps"

definition delivery_spec_for :: "string \<Rightarrow> signal_spec result" where
  "delivery_spec_for name =
     (case find (\<lambda>sp. signal_name (sp_signal sp) = name) DELIVERY_SIGNALS of
        Some sp \<Rightarrow> Inr sp
      | None \<Rightarrow> Inl (OtherError ''KeyError: unknown delivery signal''))"

definition delivery_load_bearing :: "signal_spec list" where
  "delivery_load_bearing = filter sp_load_bearing DELIVERY_SIGNALS"

subsection \<open>What is known of a send\<close>

datatype evidence = Ev_Msg msg | Ev_Pane utext

record delivery_state =
  ds_agent :: string
  ds_strategy :: string
  ds_token :: string
  ds_route_resolved :: tri
  ds_payload_delivered :: tri
  ds_payload_submitted :: tri
  ds_pane_readable :: tri
  ds_target_busy_before :: tri
  ds_login_banner_before :: tri
  ds_reasons :: "signal \<Rightarrow> msg option"
  ds_raw :: "string \<Rightarrow> evidence option"
  ds_observed_at :: "time option"
  ds_elapsed :: "time option"
  ds_observer :: string

fun signal_of :: "delivery_state \<Rightarrow> signal \<Rightarrow> tri" where
  "signal_of st Route_Resolved = ds_route_resolved st"
| "signal_of st Payload_Delivered = ds_payload_delivered st"
| "signal_of st Payload_Submitted = ds_payload_submitted st"
| "signal_of st Pane_Readable = ds_pane_readable st"
| "signal_of st Target_Busy_Before = ds_target_busy_before st"
| "signal_of st Login_Banner_Before = ds_login_banner_before st"

fun set_signal :: "signal \<Rightarrow> tri \<Rightarrow> delivery_state \<Rightarrow> delivery_state" where
  "set_signal Route_Resolved v st = st\<lparr>ds_route_resolved := v\<rparr>"
| "set_signal Payload_Delivered v st = st\<lparr>ds_payload_delivered := v\<rparr>"
| "set_signal Payload_Submitted v st = st\<lparr>ds_payload_submitted := v\<rparr>"
| "set_signal Pane_Readable v st = st\<lparr>ds_pane_readable := v\<rparr>"
| "set_signal Target_Busy_Before v st = st\<lparr>ds_target_busy_before := v\<rparr>"
| "set_signal Login_Banner_Before v st = st\<lparr>ds_login_banner_before := v\<rparr>"

text \<open>A state in which nothing has been read.\<close>

definition fresh_state :: "string \<Rightarrow> delivery_state" where
  "fresh_state agent =
     \<lparr>ds_agent = agent, ds_strategy = [], ds_token = [],
      ds_route_resolved = Unknown, ds_payload_delivered = Unknown, ds_payload_submitted = Unknown,
      ds_pane_readable = Unknown, ds_target_busy_before = Unknown, ds_login_banner_before = Unknown,
      ds_reasons = (\<lambda>_. None), ds_raw = (\<lambda>_. None), ds_observed_at = None, ds_elapsed = None,
      ds_observer = []\<rparr>"

definition unknown_state :: "string \<Rightarrow> msg \<Rightarrow> delivery_state" where
  "unknown_state agent reason = (fresh_state agent)\<lparr>ds_reasons := (\<lambda>_. Some reason)\<rparr>"

definition with_signal ::
    "signal \<Rightarrow> tri \<Rightarrow> msg \<Rightarrow> (string \<times> evidence) list \<Rightarrow> delivery_state \<Rightarrow> delivery_state" where
  "with_signal s v reason raw st =
     (set_signal s v st)
       \<lparr>ds_reasons := (if truthy reason then (ds_reasons st)(s := Some reason) else ds_reasons st),
        ds_raw := ds_raw st ++ map_of (rev raw)\<rparr>"

definition reason_for :: "delivery_state \<Rightarrow> signal \<Rightarrow> msg" where
  "reason_for st s = (case ds_reasons st s of None \<Rightarrow> empty_msg | Some m \<Rightarrow> m)"

lemma signal_of_set [simp]: "signal_of (set_signal s v st) s' = (if s' = s then v else signal_of st s')"
  by (cases s; cases s') auto

lemma signal_of_with_signal [simp]:
  "signal_of (with_signal s v reason raw st) s' = (if s' = s then v else signal_of st s')"
proof -
  have "signal_of (st'\<lparr>ds_reasons := r, ds_raw := w\<rparr>) s' = signal_of st' s'" for st' r w by (cases s') auto
  then show ?thesis by (simp add: with_signal_def)
qed

lemma signal_of_other_fields [simp]:
  "signal_of (st\<lparr>ds_strategy := x\<rparr>) s = signal_of st s" "signal_of (st\<lparr>ds_elapsed := t\<rparr>) s = signal_of st s"
  "signal_of (st\<lparr>ds_token := x\<rparr>) s = signal_of st s" "signal_of (st\<lparr>ds_observed_at := t\<rparr>) s = signal_of st s"
  "signal_of (st\<lparr>ds_observer := x\<rparr>) s = signal_of st s"
  by (cases s; simp)+

lemma signal_of_fresh [simp]: "signal_of (fresh_state agent) s = Unknown"
  by (cases s) (simp_all add: fresh_state_def)

lemma agent_kept [simp]:
  "ds_agent (with_signal s v reason raw st) = ds_agent st" "ds_strategy (with_signal s v reason raw st) = ds_strategy st"
  by (cases s; simp add: with_signal_def)+

subsection \<open>The fold\<close>

record assessment =
  as_agent :: string
  as_verdict :: tri
  as_deciding :: "signal list"
  as_unresolved :: "signal list"
  as_reason :: msg

definition refutes :: "delivery_state \<Rightarrow> signal_spec \<Rightarrow> bool" where
  "refutes st sp =
     (case signal_of st (sp_signal sp) of None \<Rightarrow> False | Some v \<Rightarrow> v \<noteq> sp_healthy sp)"

definition reason_or :: "delivery_state \<Rightarrow> string \<Rightarrow> signal \<Rightarrow> msg" where
  "reason_or st fallback s =
     Fmt ''signal: reason''
       [Txt (signal_name s), if truthy (reason_for st s) then reason_for st s else Txt fallback]"

definition assess_delivery :: "delivery_state \<Rightarrow> assessment" where
  "assess_delivery st =
     (let unresolved = map sp_signal (filter (\<lambda>sp. signal_of st (sp_signal sp) = None) delivery_load_bearing);
          refuting = map sp_signal (filter (refutes st) delivery_load_bearing)
      in if unresolved \<noteq> [] then
        \<lparr>as_agent = ds_agent st, as_verdict = Unknown, as_deciding = unresolved, as_unresolved = unresolved,
         as_reason = Fmt ''could not determine''
           (Num (int (length unresolved)) # map (reason_or st ''no reason recorded'') unresolved)\<rparr>
      else if refuting \<noteq> [] then
        \<lparr>as_agent = ds_agent st, as_verdict = No, as_deciding = refuting, as_unresolved = [],
         as_reason = Fmt ''refuted''
           (Num (int (length refuting)) # map (reason_or st ''observed at its unhealthy value'') refuting)\<rparr>
      else
        \<lparr>as_agent = ds_agent st, as_verdict = Yes, as_deciding = map sp_signal delivery_load_bearing,
         as_unresolved = [],
         as_reason = Fmt ''delivered and submitted'' (map (\<lambda>sp. Txt (signal_name (sp_signal sp))) delivery_load_bearing)\<rparr>)"

definition EXIT_DELIVERED :: int where "EXIT_DELIVERED = 0"
definition EXIT_REFUTED :: int where "EXIT_REFUTED = 1"
definition EXIT_UNKNOWN :: int where "EXIT_UNKNOWN = 2"
definition EXIT_NO_ROUTE :: int where "EXIT_NO_ROUTE = 3"
definition EXIT_UNSUBMITTED :: int where "EXIT_UNSUBMITTED = 4"

definition exit_code :: "assessment \<Rightarrow> int" where
  "exit_code a =
     (if as_verdict a = Yes then EXIT_DELIVERED
      else if as_verdict a = Unknown then EXIT_UNKNOWN
      else if Route_Resolved \<in> set (as_deciding a) then EXIT_NO_ROUTE
      else if Payload_Submitted \<in> set (as_deciding a) then EXIT_UNSUBMITTED
      else EXIT_REFUTED)"

lemmas EXIT_defs = EXIT_DELIVERED_def EXIT_REFUTED_def EXIT_UNKNOWN_def EXIT_NO_ROUTE_def EXIT_UNSUBMITTED_def

lemma load_bearing_table:
  "delivery_load_bearing =
     [mk_spec Route_Resolved True True Direct [''tmux_sessions'', ''session_id_path''],
      mk_spec Payload_Delivered True True Inferred [''pane_after_paste'', ''send_detail''],
      mk_spec Payload_Submitted True True Inferred [''pane_after_submit'']]"
  by (simp add: delivery_load_bearing_def DELIVERY_SIGNALS_def mk_spec_def)

text \<open>The two filters of the fold over the table's three load-bearing rows.\<close>

lemma unresolved_signals:
  "map sp_signal (filter (\<lambda>sp. signal_of st (sp_signal sp) = None) delivery_load_bearing) =
     filter (\<lambda>s. signal_of st s = Unknown) [Route_Resolved, Payload_Delivered, Payload_Submitted]"
  by (simp add: load_bearing_table mk_spec_def)

lemma refuting_signals:
  "map sp_signal (filter (refutes st) delivery_load_bearing) =
     filter (\<lambda>s. signal_of st s = No) [Route_Resolved, Payload_Delivered, Payload_Submitted]"
  by (simp add: load_bearing_table mk_spec_def refutes_def split: option.splits)

text \<open>The verdict and the exit code as a table over the three signals.\<close>

lemma assess_fields:
  fixes st
  defines "unread \<equiv> filter (\<lambda>s. signal_of st s = Unknown) [Route_Resolved, Payload_Delivered, Payload_Submitted]"
    and "refuting \<equiv> filter (\<lambda>s. signal_of st s = No) [Route_Resolved, Payload_Delivered, Payload_Submitted]"
  shows "as_verdict (assess_delivery st) = (if unread \<noteq> [] then Unknown else if refuting \<noteq> [] then No else Yes)"
    "as_unresolved (assess_delivery st) = unread"
    "unread = [] \<Longrightarrow> refuting \<noteq> [] \<Longrightarrow> as_deciding (assess_delivery st) = refuting"
  by (simp_all only: assess_delivery_def Let_def unresolved_signals refuting_signals unread_def [symmetric]
      refuting_def [symmetric]) simp_all

lemma signal_trichotomy: "signal_of st s = Unknown \<or> signal_of st s = No \<or> signal_of st s = Yes"
  by (metis (full_types) not_None_eq)

lemma assess_delivery_verdict:
  "as_verdict (assess_delivery st) =
     (if ds_route_resolved st = Unknown \<or> ds_payload_delivered st = Unknown \<or> ds_payload_submitted st = Unknown
      then Unknown
      else Some (ds_route_resolved st = Yes \<and> ds_payload_delivered st = Yes \<and> ds_payload_submitted st = Yes))"
  using signal_trichotomy [of st Route_Resolved] signal_trichotomy [of st Payload_Delivered]
    signal_trichotomy [of st Payload_Submitted]
  unfolding assess_fields(1) by auto

lemma assess_delivery_unresolved:
  "set (as_unresolved (assess_delivery st)) =
     {s \<in> {Route_Resolved, Payload_Delivered, Payload_Submitted}. signal_of st s = Unknown}"
  unfolding assess_fields(2) by auto

lemma assess_delivery_exit:
  "exit_code (assess_delivery st) =
     (case as_verdict (assess_delivery st) of
        None \<Rightarrow> EXIT_UNKNOWN
      | Some True \<Rightarrow> EXIT_DELIVERED
      | Some False \<Rightarrow>
          if ds_route_resolved st = No then EXIT_NO_ROUTE
          else if ds_payload_submitted st = No then EXIT_UNSUBMITTED
          else EXIT_REFUTED)"
proof -
  have "as_deciding (assess_delivery st) = filter (\<lambda>s. signal_of st s = No) [Route_Resolved, Payload_Delivered, Payload_Submitted]"
    if "as_verdict (assess_delivery st) = No"
    using that assess_fields(3) [of st] unfolding assess_fields(1) by (metis option.distinct(1) option.inject)
  then show ?thesis
    by (cases "as_verdict (assess_delivery st)" rule: option.exhaust) (auto simp: exit_code_def split: bool.splits)
qed

subsection \<open>The route\<close>

definition STRATEGY_SDK :: string where "STRATEGY_SDK = ''sdk''"
definition STRATEGY_TUI :: string where "STRATEGY_TUI = ''tui''"

record route =
  rt_strategy :: string
  rt_session :: string
  rt_resolved :: tri
  rt_reason :: msg
  rt_sessions_raw :: msg

definition mk_route :: "string \<Rightarrow> string \<Rightarrow> tri \<Rightarrow> msg \<Rightarrow> msg \<Rightarrow> route" where
  "mk_route strategy session resolved reason raw =
     \<lparr>rt_strategy = strategy, rt_session = session, rt_resolved = resolved, rt_reason = reason,
      rt_sessions_raw = raw\<rparr>"

text \<open>\<open>out.stdout.split()\<close> on ASCII white space, sorted; \<open>None\<close> for a call that failed.\<close>

fun words_from :: "string \<Rightarrow> string \<Rightarrow> string list" where
  "words_from acc [] = (if acc = [] then [] else [rev acc])"
| "words_from acc (c # cs) =
     (if is_space c then (if acc = [] then words_from [] cs else rev acc # words_from [] cs)
      else words_from (c # acc) cs)"

definition list_tmux_sessions :: "(int \<times> string) option \<Rightarrow> string list option" where
  "list_tmux_sessions out =
     (case out of
        None \<Rightarrow> None
      | Some (returncode, stdout) \<Rightarrow> if returncode \<noteq> 0 then None else Some (sort (words_from [] stdout)))"

text \<open>\<open>_route.py\<close> with the answers of its two questions; \<open>None\<close> when a question is not asked.\<close>

definition wanted_session :: "string \<Rightarrow> string \<Rightarrow> string list \<Rightarrow> string" where
  "wanted_session bare legacy sessions =
     (if bare \<in> set sessions then bare else if legacy \<in> set sessions then legacy else bare)"

definition tui_route :: "string \<Rightarrow> string list option \<Rightarrow> route result" where
  "tui_route agent sessions =
     bind_result (candidate_session_names agent) (\<lambda>(bare, legacy).
       case sessions of
         None \<Rightarrow> Inr (mk_route STRATEGY_TUI bare Unknown (Fmt ''sessions unreadable'' [Txt bare]) empty_msg)
       | Some [] \<Rightarrow> Inr (mk_route STRATEGY_TUI bare Unknown (Fmt ''sessions empty'' [Txt bare]) empty_msg)
       | Some ss \<Rightarrow>
           let wanted = wanted_session bare legacy ss;
               raw = Fmt ''lines'' (map Txt ss);
               n = Num (int (length ss))
           in Inr (if wanted \<in> set ss
                   then mk_route STRATEGY_TUI wanted Yes (Fmt ''present in session list'' [Txt wanted, n]) raw
                   else mk_route STRATEGY_TUI wanted No (Fmt ''not among the sessions'' [Txt wanted, n]) raw))"

record delivery_env =
  dl_screen :: screen_env
  at_sessions :: "history \<Rightarrow> string list option"
  at_session_id :: "history \<Rightarrow> string option"
  at_sdk :: "utext \<Rightarrow> history \<Rightarrow> tri \<times> msg"
  at_token :: "history \<Rightarrow> string"
  at_wall_clock :: "history \<Rightarrow> time"

definition ask_sessions :: "delivery_env \<Rightarrow> history \<Rightarrow> string list option \<times> history" where
  "ask_sessions env h = (at_sessions env h, Listed_Sessions (at_sessions env h) # h)"

definition ask_session_id :: "delivery_env \<Rightarrow> history \<Rightarrow> string option \<times> history" where
  "ask_session_id env h = (at_session_id env h, Read_Session_Id (at_session_id env h) # h)"

definition resolve_route :: "delivery_env \<Rightarrow> string \<Rightarrow> string \<Rightarrow> history \<Rightarrow> route result \<times> history" where
  "resolve_route env agent strategy h =
     (if strategy = ''auto'' \<or> strategy = STRATEGY_SDK then
        (let (session_id, h1) = ask_session_id env h in
         if truthy_opt session_id
         then (Inr (mk_route STRATEGY_SDK [] Yes (Fmt ''session_id found'' [Txt agent]) empty_msg), h1)
         else if strategy = STRATEGY_SDK
         then (Inr (mk_route STRATEGY_SDK [] No (Fmt ''no recorded session_id'' [Txt agent]) empty_msg), h1)
         else (let (sessions, h2) = ask_sessions env h1 in (tui_route agent sessions, h2)))
      else (let (sessions, h1) = ask_sessions env h in (tui_route agent sessions, h1)))"

text \<open>Absence is concluded only from a list that shows other sessions.\<close>

lemma tui_route_resolved:
  "rt_resolved r = v \<Longrightarrow> tui_route agent (Some (s # ss)) = Inr r \<Longrightarrow>
   candidate_session_names agent = Inr (bare, legacy) \<Longrightarrow>
   v = Some (bare \<in> set (s # ss) \<or> legacy \<in> set (s # ss)) \<and> rt_strategy r = STRATEGY_TUI
   \<and> rt_session r = wanted_session bare legacy (s # ss)"
  by (simp add: tui_route_def Let_def mk_route_def split: if_split_asm)
    (auto simp: wanted_session_def split: if_splits)

lemma tui_route_unresolved:
  "tui_route agent None = Inr r \<Longrightarrow> rt_resolved r = Unknown"
  "tui_route agent (Some []) = Inr r \<Longrightarrow> rt_resolved r = Unknown"
  by (auto simp: tui_route_def bind_result_Inr_iff mk_route_def)

lemma tui_route_names: "tui_route agent sessions = Inr r \<Longrightarrow> \<exists>bare legacy. candidate_session_names agent = Inr (bare, legacy)"
  by (auto simp: tui_route_def bind_result_Inr_iff)

lemma tui_route_No:
  assumes "tui_route agent sessions = Inr r" and "rt_resolved r = No"
  shows "\<exists>s ss bare legacy. sessions = Some (s # ss) \<and> candidate_session_names agent = Inr (bare, legacy)
    \<and> bare \<notin> set (s # ss) \<and> legacy \<notin> set (s # ss)"
proof -
  obtain bare legacy where n: "candidate_session_names agent = Inr (bare, legacy)"
    using tui_route_names [OF assms(1)] by blast
  obtain s ss where ss: "sessions = Some (s # ss)"
    using assms tui_route_unresolved [of agent r] by (cases sessions; cases "the sessions") auto
  from tui_route_resolved [OF assms(2) assms(1) [unfolded ss] n] n ss show ?thesis by blast
qed

lemma tui_route_Yes:
  assumes "tui_route agent sessions = Inr r" and "rt_resolved r = Yes"
  shows "\<exists>ss. sessions = Some ss \<and> rt_session r \<in> set ss \<and> rt_strategy r = STRATEGY_TUI"
proof -
  obtain bare legacy where n: "candidate_session_names agent = Inr (bare, legacy)"
    using tui_route_names [OF assms(1)] by blast
  obtain s ss where ss: "sessions = Some (s # ss)"
    using assms tui_route_unresolved [of agent r] by (cases sessions; cases "the sessions") auto
  from tui_route_resolved [OF assms(2) assms(1) [unfolded ss] n]
  have "rt_session r \<in> set (s # ss)" "rt_strategy r = STRATEGY_TUI"
    by (auto simp: wanted_session_def)
  with ss show ?thesis by blast
qed

subsection \<open>The token\<close>

definition token_char :: "int \<Rightarrow> bool" where
  "token_char c \<longleftrightarrow> (48 \<le> c \<and> c \<le> 57) \<or> (97 \<le> c \<and> c \<le> 122)"

definition format_payload :: "utext \<Rightarrow> string \<Rightarrow> utext" where
  "format_payload message token = u ''[sac-deliver:'' @ u token @ u ''] '' @ message"

definition flatten_pane :: "utext \<Rightarrow> utext" where
  "flatten_pane pane = filter token_char (lower pane)"

definition pane_contains_token :: "utext option \<Rightarrow> string \<Rightarrow> tri" where
  "pane_contains_token pane token =
     (case pane of None \<Rightarrow> Unknown | Some p \<Rightarrow> Some (pane_has_nonce_echo (flatten_pane p) (u token) 1))"

lemma flatten_append [simp]: "flatten_pane (s @ t) = flatten_pane s @ flatten_pane t"
  by (simp add: flatten_pane_def)

lemma contains_token_iff:
  "pane_contains_token (Some p) token = Yes \<longleftrightarrow> token \<noteq> [] \<and> holds (u token) (flatten_pane p)"
proof -
  have "u token = [] \<longleftrightarrow> token = []" by (simp add: u_def)
  moreover have "holds (u token) [] \<longleftrightarrow> u token = []" by simp
  ultimately show ?thesis
    using occurrences_holds [of "u token" "flatten_pane p"]
    by (auto simp: pane_contains_token_def pane_has_nonce_echo_def)
qed

lemma flatten_id: "\<forall>c \<in> set t. token_char c \<Longrightarrow> flatten_pane t = t"
  by (induction t) (auto simp: flatten_pane_def lower_def lower_cp_def token_char_def)

lemma token_survives_rendering:
  assumes "flatten_pane rendered = u token" and "token \<noteq> []"
  shows "pane_contains_token (Some (before_it @ rendered @ after_it)) token = Yes"
  using assms by (simp add: contains_token_iff holdsI)

end
