(* ===== verification/Compose.thy ===== *)
theory Compose
  imports Prompts Screen_Env
begin

text \<open>
  The compose box of a terminal interface: \<open>runtimes/_tui_compose.py\<close>. \<open>clear_compose_buffer\<close>
  empties a box that holds stale text, \<open>verify_submit_by_advancement\<close> presses Enter only into a
  pane that waits for it and reports success only on evidence. The snapshot a failure writes to
  the log is not modelled; the phases the code names appear only in that log line.
\<close>

subsection \<open>Reading the box\<close>

definition compose_pending_live :: "utext \<Rightarrow> bool" where
  "compose_pending_live pane =
     (case rows_from_last (\<lambda>row. CLAUDE_MARKER \<in> set row) (pane_rows pane) of
        Some (row # _) \<Rightarrow> m_search compose_prompt row
      | _ \<Rightarrow> False)"

definition squeeze :: "utext \<Rightarrow> utext" where
  "squeeze t = filter (\<lambda>c. \<not> t_space c) t"

definition FRAGMENT_TAIL_CHARS :: nat where
  "FRAGMENT_TAIL_CHARS = 60"

definition fragment_tail :: "utext \<Rightarrow> utext" where
  "fragment_tail t = last_n FRAGMENT_TAIL_CHARS (squeeze t)"

definition any_compose_marker :: "utext \<Rightarrow> bool" where
  "any_compose_marker row \<longleftrightarrow> CLAUDE_MARKER \<in> set row \<or> has_composer_marker row"

definition composer_holds_fragment :: "utext \<Rightarrow> utext \<Rightarrow> bool" where
  "composer_holds_fragment pane fragment =
     (if squeeze fragment = [] then False
      else
        (case rows_from_last any_compose_marker (pane_rows pane) of
           Some rows \<Rightarrow> holds (squeeze fragment) (squeeze (concat rows))
         | None \<Rightarrow> holds (squeeze fragment) (squeeze pane)))"

definition pane_is_input_idle :: "utext \<Rightarrow> bool" where
  "pane_is_input_idle pane \<longleftrightarrow> \<not> pane_is_busy pane \<and> (is_ready pane \<or> compose_pending_live pane)"

definition pane_tail :: "utext \<Rightarrow> nat \<Rightarrow> utext" where
  "pane_tail pane n = join_rows (last_n n (filter (\<lambda>row. t_strip row \<noteq> []) (pane_rows pane)))"

definition is_fresh_boot_welcome_screen :: "utext \<Rightarrow> bool" where
  "is_fresh_boot_welcome_screen pane \<longleftrightarrow>
     holds (u ''Claude Code v'') (pane_tail pane 14) \<and> \<not> holds (u ''Welcome back'') (pane_tail pane 14)"

text \<open>\<open>[Pasted Content N chars]\<close>: the first one, and its number.\<close>

definition digit_value :: "int \<Rightarrow> int" where
  "digit_value c = (case find (\<lambda>z. z \<le> c \<and> c < z + 10) digit_zeros of None \<Rightarrow> 0 | Some z \<Rightarrow> c - z)"

definition paste_size_here :: "utext \<Rightarrow> int option" where
  "paste_size_here t =
     (let rest = drop (length (u ''[Pasted Content '')) t; ds = takeWhile t_digit rest in
      if begins t (u ''[Pasted Content '') \<and> ds \<noteq> [] \<and> begins (drop (length ds) rest) (u '' chars]'')
      then Some (foldl (\<lambda>n c. 10 * n + digit_value c) 0 ds) else None)"

fun paste_size :: "utext \<Rightarrow> int option" where
  "paste_size [] = None"
| "paste_size (c # cs) =
     (case paste_size_here (c # cs) of Some n \<Rightarrow> Some n | None \<Rightarrow> paste_size cs)"

subsection \<open>What the verifier knows\<close>

record submit_opts =
  so_fragment :: "utext option"
  so_max_resends :: nat
  so_poll_s :: time
  so_appear_timeout_s :: time
  so_idle_wait_s :: time
  so_escape_before_enter :: bool
  so_escape_settle_s :: time
  so_proof_stable_s :: time
  so_require_proof :: bool

definition so_tail :: "submit_opts \<Rightarrow> utext" where
  "so_tail opts = fragment_tail (pane_text (so_fragment opts))"

definition modal_blocked :: "utext \<Rightarrow> bool" where
  "modal_blocked pane \<longleftrightarrow> codex_blocking_modal pane \<noteq> None"

definition fragment_in_transcript :: "submit_opts \<Rightarrow> utext \<Rightarrow> bool" where
  "fragment_in_transcript opts pane \<longleftrightarrow>
     so_tail opts \<noteq> [] \<and> \<not> modal_blocked pane \<and> holds (so_tail opts) (squeeze pane)
     \<and> \<not> composer_holds_fragment pane (so_tail opts)"

definition folded_paste_pending :: "submit_opts \<Rightarrow> utext \<Rightarrow> bool" where
  "folded_paste_pending opts pane =
     (case rows_from_last has_composer_marker (pane_rows pane) of
        None \<Rightarrow> False
      | Some rows \<Rightarrow>
          (case paste_size (join_rows rows) of
             None \<Rightarrow> False
           | Some n \<Rightarrow>
               pane_text (so_fragment opts) \<noteq> [] \<and> n = int (length (pane_text (so_fragment opts)))))"

definition submit_pending :: "submit_opts \<Rightarrow> utext \<Rightarrow> bool" where
  "submit_pending opts pane =
     (if compose_pending_live pane then True
      else if CLAUDE_MARKER \<in> set pane then False
      else if composer_holds_fragment pane (so_tail opts) then True
      else folded_paste_pending opts pane)"

definition input_idle :: "submit_opts \<Rightarrow> utext \<Rightarrow> bool" where
  "input_idle opts pane =
     (if modal_blocked pane then False
      else if pane_is_input_idle pane then True
      else submit_pending opts pane \<and> \<not> pane_is_busy pane)"

text \<open>The state in which the recovery gesture is made, and re-proved after its settle.\<close>

definition escape_safe :: "submit_opts \<Rightarrow> utext \<Rightarrow> bool" where
  "escape_safe opts pane \<longleftrightarrow>
     submit_pending opts pane \<and> compose_pending_live pane \<and> input_idle opts pane \<and> is_ready pane
     \<and> \<not> has_esc_cancel_modal pane"

subsection \<open>The three waits of the verifier\<close>

datatype appeared = App_Blocked | App_Pending | App_Never utext

definition appear_body ::
    "screen_env \<Rightarrow> submit_opts \<Rightarrow> time \<Rightarrow> utext \<times> history \<Rightarrow> (appeared \<times> history) + (utext \<times> history)" where
  "appear_body env opts deadline s =
     (case s of (prev, h) \<Rightarrow>
        let (t, h1) = clock env h in
        if \<not> t < deadline then Inl (App_Never prev, h1)
        else
          (let (pane, h2) = look env h1 in
           if modal_blocked pane then Inl (App_Blocked, h2)
           else if submit_pending opts pane then Inl (App_Pending, h2)
           else Inr (pane, nap (so_poll_s opts) h2)))"

datatype idled = Idle_Return bool | Idle_Pane utext | Idle_Never

definition idle_body ::
    "screen_env \<Rightarrow> submit_opts \<Rightarrow> time \<Rightarrow> history \<Rightarrow> (idled \<times> history) + history" where
  "idle_body env opts deadline h =
     (let (t, h1) = clock env h in
      if \<not> t < deadline then Inl (Idle_Never, h1)
      else
        (let (pane, h2) = look env h1 in
         if modal_blocked pane then Inl (Idle_Return False, h2)
         else if \<not> submit_pending opts pane
         then Inl (Idle_Return (if \<not> so_require_proof opts then True else fragment_in_transcript opts pane), h2)
         else if input_idle opts pane then Inl (Idle_Pane pane, h2)
         else Inr (nap (so_poll_s opts) h2)))"

text \<open>The rounds after Enter; \<open>None\<close> for a wait that proves nothing.\<close>

type_synonym proof_state = "time option \<times> nat \<times> history"

definition proof_body ::
    "screen_env \<Rightarrow> submit_opts \<Rightarrow> time \<Rightarrow> utext \<Rightarrow> proof_state \<Rightarrow> (bool option \<times> history) + proof_state" where
  "proof_body env opts deadline pane_before s =
     (case s of (clear_since, clear_seen, h) \<Rightarrow>
        let (pane, h1) = look env (nap (so_poll_s opts) h) in
        if modal_blocked pane then Inl (Some False, h1)
        else if fragment_in_transcript opts pane then Inl (Some True, h1)
        else if \<not> pane_is_busy pane_before \<and> pane_is_busy pane then Inl (Some True, h1)
        else if \<not> submit_pending opts pane then
          (if \<not> so_require_proof opts then Inl (Some True, h1)
           else
             (let (now, h2) = clock env h1;
                  since = (case clear_since of None \<Rightarrow> now | Some t \<Rightarrow> t);
                  seen = Suc clear_seen
              in if 2 \<le> seen \<and> so_proof_stable_s opts \<le> now - since then Inl (Some True, h2)
              else
                (let (t, h3) = clock env h2 in
                 if deadline \<le> t then Inl (None, h3) else Inr (Some since, seen, h3))))
        else
          (let (t, h2) = clock env h1 in
           if deadline \<le> t then Inl (None, h2) else Inr (None, 0, h2)))"

subsection \<open>One attempt\<close>

text \<open>The recovery gesture: the pane Enter is pressed on, or none when the attempt is given up.\<close>

definition escape_step :: "screen_env \<Rightarrow> submit_opts \<Rightarrow> utext \<Rightarrow> history \<Rightarrow> utext option \<times> history" where
  "escape_step env opts pane h =
     (if \<not> (so_escape_before_enter opts \<and> compose_pending_live pane) then (Some pane, h)
      else if has_esc_cancel_modal pane then (None, h)
      else if \<not> is_ready pane then (Some pane, h)
      else
        (let (pane', h1) = look env (nap (so_escape_settle_s opts) (press ''Escape'' h)) in
         (if escape_safe opts pane' then Some pane' else None, h1)))"

definition settle_time_of :: "submit_opts \<Rightarrow> nat \<Rightarrow> time" where
  "settle_time_of opts attempt =
     (let settle = so_poll_s opts * (1 + of_nat attempt) in
      if so_require_proof opts then max settle (so_proof_stable_s opts) else settle)"

definition proof_window :: "submit_opts \<Rightarrow> nat \<Rightarrow> time" where
  "proof_window opts attempt =
     settle_time_of opts attempt + max (so_poll_s opts) (so_proof_stable_s opts * (1 / 4))"

definition attempt_submit ::
    "nat \<Rightarrow> screen_env \<Rightarrow> submit_opts \<Rightarrow> nat \<Rightarrow> history \<Rightarrow> (bool option \<times> history) option" where
  "attempt_submit fuel env opts attempt h =
     (let (t, h1) = clock env h in
      case run_loop fuel (idle_body env opts (t + so_idle_wait_s opts)) h1 of
        None \<Rightarrow> None
      | Some (Idle_Return b, h2) \<Rightarrow> Some (Some b, h2)
      | Some (Idle_Never, h2) \<Rightarrow> Some (None, h2)
      | Some (Idle_Pane pane, h2) \<Rightarrow>
          (case escape_step env opts pane h2 of
             (None, h3) \<Rightarrow> Some (None, h3)
           | (Some pane_before, h3) \<Rightarrow>
               let (t2, h4) = clock env (press ''Enter'' h3) in
               run_loop fuel (proof_body env opts (t2 + proof_window opts attempt) pane_before)
                 (None, 0, h4)))"

fun attempts_submit ::
    "nat \<Rightarrow> screen_env \<Rightarrow> submit_opts \<Rightarrow> nat list \<Rightarrow> history \<Rightarrow> (bool \<times> history) option" where
  "attempts_submit fuel env opts [] h = Some (False, snd (look env h))"
| "attempts_submit fuel env opts (n # ns) h =
     (case attempt_submit fuel env opts n h of
        None \<Rightarrow> None
      | Some (Some b, h1) \<Rightarrow> Some (b, h1)
      | Some (None, h1) \<Rightarrow> attempts_submit fuel env opts ns h1)"

definition verify_submit_by_advancement ::
    "nat \<Rightarrow> screen_env \<Rightarrow> submit_opts \<Rightarrow> history \<Rightarrow> (bool \<times> history) option" where
  "verify_submit_by_advancement fuel env opts h =
     (let (t, h1) = clock env h in
      case run_loop fuel (appear_body env opts (t + so_appear_timeout_s opts)) ([], h1) of
        None \<Rightarrow> None
      | Some (App_Blocked, h2) \<Rightarrow> Some (False, h2)
      | Some (App_Never prev, h2) \<Rightarrow>
          Some (if \<not> so_require_proof opts then True else fragment_in_transcript opts prev, h2)
      | Some (App_Pending, h2) \<Rightarrow> attempts_submit fuel env opts [0..<so_max_resends opts] h2)"

subsection \<open>Clearing a stale box\<close>

definition modal_up :: "utext \<Rightarrow> bool" where
  "modal_up pane \<longleftrightarrow> has_esc_cancel_modal pane \<or> modal_blocked pane"

definition welcome_body ::
    "screen_env \<Rightarrow> time \<Rightarrow> time \<Rightarrow> utext \<times> history \<Rightarrow> (utext \<times> history) + (utext \<times> history)" where
  "welcome_body env poll_s deadline s =
     (case s of (pane, h) \<Rightarrow>
        if \<not> is_fresh_boot_welcome_screen pane then Inl (pane, h)
        else
          (let (t, h1) = clock env h in
           if \<not> t < deadline then Inl (pane, h1) else Inr (look env (nap poll_s h1))))"

definition wait_for_welcome_screen_to_clear ::
    "nat \<Rightarrow> screen_env \<Rightarrow> time \<Rightarrow> time \<Rightarrow> history \<Rightarrow> (utext \<times> history) option" where
  "wait_for_welcome_screen_to_clear fuel env max_wait_s poll_s h =
     (let (t, h1) = clock env h in
      run_loop fuel (welcome_body env poll_s (t + max_wait_s)) (look env h1))"

definition COMPOSE_CLEAR_KEYS :: "string list" where
  "COMPOSE_CLEAR_KEYS = [''Escape'', ''Escape'']"

fun clear_attempts :: "nat \<Rightarrow> screen_env \<Rightarrow> time \<Rightarrow> history \<Rightarrow> bool \<times> history" where
  "clear_attempts 0 env poll_s h = (False, h)"
| "clear_attempts (Suc n) env poll_s h =
     (let (current, h1) = look env h in
      if modal_up current then (False, h1)
      else if is_fresh_boot_welcome_screen current then clear_attempts n env poll_s (nap poll_s h1)
      else
        (let (pane, h2) = look env (nap poll_s (press_all COMPOSE_CLEAR_KEYS h1)) in
         if \<not> compose_pending_live pane then (True, h2) else clear_attempts n env poll_s h2))"

definition clear_compose_buffer ::
    "nat \<Rightarrow> screen_env \<Rightarrow> nat \<Rightarrow> time \<Rightarrow> time \<Rightarrow> history \<Rightarrow> (bool \<times> history) option" where
  "clear_compose_buffer fuel env max_attempts poll_s welcome_wait_s h =
     (let (pane, h1) = look env h in
      if modal_up pane then Some (False, h1)
      else
        (case (if is_fresh_boot_welcome_screen pane
               then wait_for_welcome_screen_to_clear fuel env welcome_wait_s poll_s h1
               else Some (pane, h1)) of
           None \<Rightarrow> None
         | Some (pane', h2) \<Rightarrow>
             if \<not> compose_pending_live pane' then Some (True, h2)
             else Some (clear_attempts max_attempts env poll_s h2)))"

end
