(* ===== verification/Compose_Facts.thy ===== *)
theory Compose_Facts
  imports Compose
begin

text \<open>
  What the submit verifier guarantees: on which panes it presses a key and how often, what a
  reported success rests on, and that it returns; and that clearing a box never presses Escape
  while a modal is up.
\<close>

subsection \<open>The three waits, equation by equation\<close>

lemma appear_body_eq:
  "appear_body env opts d (prev, h) =
     (let pane = screen env (ticked env h); h2 = looked env (ticked env h) in
      if \<not> at_clock env h < d then Inl (App_Never prev, ticked env h)
      else if modal_blocked pane then Inl (App_Blocked, h2)
      else if submit_pending opts pane then Inl (App_Pending, h2)
      else Inr (pane, nap (so_poll_s opts) h2))"
  by (simp add: appear_body_def Let_def split_beta)

lemma idle_body_eq:
  "idle_body env opts d h =
     (let pane = screen env (ticked env h); h2 = looked env (ticked env h) in
      if \<not> at_clock env h < d then Inl (Idle_Never, ticked env h)
      else if modal_blocked pane then Inl (Idle_Return False, h2)
      else if \<not> submit_pending opts pane
      then Inl (Idle_Return (if \<not> so_require_proof opts then True else fragment_in_transcript opts pane), h2)
      else if input_idle opts pane then Inl (Idle_Pane pane, h2)
      else Inr (nap (so_poll_s opts) h2))"
  by (simp add: idle_body_def Let_def split_beta)

lemma proof_body_eq:
  "proof_body env opts d pane_before (since, seen, h) =
     (let h0 = nap (so_poll_s opts) h; pane = screen env h0; h1 = looked env h0;
          t1 = at_clock env h1; t2 = at_clock env (ticked env h1);
          since' = (case since of None \<Rightarrow> t1 | Some t \<Rightarrow> t) in
      if modal_blocked pane then Inl (Some False, h1)
      else if fragment_in_transcript opts pane then Inl (Some True, h1)
      else if \<not> pane_is_busy pane_before \<and> pane_is_busy pane then Inl (Some True, h1)
      else if \<not> submit_pending opts pane then
        (if \<not> so_require_proof opts then Inl (Some True, h1)
         else if 2 \<le> Suc seen \<and> so_proof_stable_s opts \<le> t1 - since' then Inl (Some True, ticked env h1)
         else if d \<le> t2 then Inl (None, ticked env (ticked env h1))
         else Inr (Some since', Suc seen, ticked env (ticked env h1)))
      else if d \<le> t1 then Inl (None, ticked env h1)
      else Inr (None, 0, ticked env h1))"
  by (cases since) (simp_all add: proof_body_def Let_def split_beta cong: if_cong)

subsection \<open>The waits end\<close>

lemma clock_le_looked: "clock_runs env \<Longrightarrow> at_clock env h \<le> at_clock env (looked env (ticked env h))"
  using ticking_steps [of env] by (meson order_trans)

lemma napped_later:
  assumes "clock_runs env" and "0 < p"
  shows "at_clock env h + p \<le> at_clock env (nap p (looked env (ticked env h)))"
  using clock_le_looked [OF assms(1), of h] ticking_steps(8) [OF assms, of "looked env (ticked env h)"]
  by linarith

interpretation appear: deadline_loop "\<lambda>_. clock_runs env \<and> 0 < so_poll_s opts" "appear_body env opts d"
    "\<lambda>s. at_clock env (snd s)" d "so_poll_s opts"
  for env opts d
proof
  show "\<And>s s'. clock_runs env \<and> 0 < so_poll_s opts \<Longrightarrow> appear_body env opts d s = Inr s' \<Longrightarrow>
      (clock_runs env \<and> 0 < so_poll_s opts) \<and> at_clock env (snd s) + so_poll_s opts \<le> at_clock env (snd s')"
    by (auto simp: appear_body_eq Let_def napped_later split: if_splits)
  show "\<And>s s'. clock_runs env \<and> 0 < so_poll_s opts \<Longrightarrow> d \<le> at_clock env (snd s) \<Longrightarrow>
      appear_body env opts d s \<noteq> Inr s'"
    by (auto simp: appear_body_eq Let_def)
qed simp

interpretation idle: deadline_loop "\<lambda>_. clock_runs env \<and> 0 < so_poll_s opts" "idle_body env opts d"
    "at_clock env" d "so_poll_s opts"
  for env opts d
proof
  show "\<And>s s'. clock_runs env \<and> 0 < so_poll_s opts \<Longrightarrow> idle_body env opts d s = Inr s' \<Longrightarrow>
      (clock_runs env \<and> 0 < so_poll_s opts) \<and> at_clock env s + so_poll_s opts \<le> at_clock env s'"
    by (auto simp: idle_body_eq Let_def napped_later split: if_splits)
  show "\<And>s s'. clock_runs env \<and> 0 < so_poll_s opts \<Longrightarrow> d \<le> at_clock env s \<Longrightarrow> idle_body env opts d s \<noteq> Inr s'"
    by (auto simp: idle_body_eq Let_def)
qed simp

lemma proof_body_Inr:
  assumes "clock_runs env" and "0 < so_poll_s opts" and "proof_body env opts d pb (since, seen, h) = Inr (since', seen', h')"
  shows "at_clock env h < d" "at_clock env h + so_poll_s opts \<le> at_clock env h'"
proof -
  let ?h0 = "nap (so_poll_s opts) h"
  let ?h1 = "looked env ?h0"
  note t = ticking_steps [OF assms(1)]
  have h0: "at_clock env h + so_poll_s opts \<le> at_clock env ?h0" by (rule t) (rule assms(2))
  have h1: "at_clock env ?h0 \<le> at_clock env ?h1" and h2: "at_clock env ?h1 \<le> at_clock env (ticked env ?h1)"
    and h3: "at_clock env (ticked env ?h1) \<le> at_clock env (ticked env (ticked env ?h1))" by (rule t)+
  from assms(3) have "(h' = ticked env ?h1 \<and> at_clock env ?h1 < d)
      \<or> (h' = ticked env (ticked env ?h1) \<and> at_clock env (ticked env ?h1) < d)"
    by (auto simp: proof_body_eq Let_def not_le split: if_splits)
  then show "at_clock env h < d" "at_clock env h + so_poll_s opts \<le> at_clock env h'"
    using h0 h1 h2 h3 assms(2) by auto
qed

interpretation submit_proof: deadline_loop "\<lambda>_. clock_runs env \<and> 0 < so_poll_s opts"
    "proof_body env opts d pb" "\<lambda>s. at_clock env (snd (snd s))" d "so_poll_s opts"
  for env opts d pb
proof
  show "\<And>s s'. clock_runs env \<and> 0 < so_poll_s opts \<Longrightarrow> proof_body env opts d pb s = Inr s' \<Longrightarrow>
      (clock_runs env \<and> 0 < so_poll_s opts)
      \<and> at_clock env (snd (snd s)) + so_poll_s opts \<le> at_clock env (snd (snd s'))"
    using proof_body_Inr(2) by (metis prod.collapse)
  show "\<And>s s'. clock_runs env \<and> 0 < so_poll_s opts \<Longrightarrow> d \<le> at_clock env (snd (snd s)) \<Longrightarrow>
      proof_body env opts d pb s \<noteq> Inr s'"
    using proof_body_Inr(1) by (metis not_le prod.collapse)
qed simp

lemma wait_ends:
  fixes p :: rat
  assumes "clock_runs env" and "0 < p" and "rounds w p \<le> fuel"
    and "\<And>n. (at_clock env h + w - at_clock env (ticked env h)) / p \<le> of_nat n \<Longrightarrow> \<exists>r. run_loop (Suc n) body s = Some r"
  shows "\<exists>r. run_loop fuel body s = Some r"
proof -
  have "(at_clock env h + w - at_clock env (ticked env h)) / p \<le> w / p"
    using ticking_steps(5) [OF assms(1), of h] assms(2) by (intro divide_right_mono) auto
  with rounds_enough [of w p]
  have "(at_clock env h + w - at_clock env (ticked env h)) / p \<le> of_nat (nat \<lceil>w / p\<rceil>)" by linarith
  from assms(4) [OF this] obtain r where "run_loop (rounds w p) body s = Some r"
    unfolding rounds_def by blast
  from run_loop_more [OF this assms(3)] show ?thesis by blast
qed

text \<open>The window of an attempt grows with its number, so the last one bounds them all.\<close>

lemma proof_window_mono:
  assumes "0 \<le> so_poll_s opts" and "i \<le> j"
  shows "proof_window opts i \<le> proof_window opts j"
proof -
  have "so_poll_s opts * (1 + of_nat i) \<le> so_poll_s opts * (1 + of_nat j)"
    using assms by (intro mult_left_mono) auto
  then show ?thesis by (auto simp: proof_window_def settle_time_of_def Let_def)
qed

lemma rounds_mono: "0 < p \<Longrightarrow> v \<le> w \<Longrightarrow> rounds v p \<le> rounds w p"
  by (auto simp: rounds_def intro!: nat_mono ceiling_mono divide_right_mono)

definition submit_fuel :: "submit_opts \<Rightarrow> nat" where
  "submit_fuel opts =
     max (rounds (so_appear_timeout_s opts) (so_poll_s opts))
       (max (rounds (so_idle_wait_s opts) (so_poll_s opts))
          (rounds (proof_window opts (so_max_resends opts)) (so_poll_s opts)))"

lemma attempt_submit_ends:
  assumes "clock_runs env" and "0 < so_poll_s opts" and "submit_fuel opts \<le> fuel" and "i < so_max_resends opts"
  shows "\<exists>r. attempt_submit fuel env opts i h = Some r"
proof -
  note c = assms(1,2)
  have fuel: "rounds (so_idle_wait_s opts) (so_poll_s opts) \<le> fuel"
    "rounds (proof_window opts i) (so_poll_s opts) \<le> fuel"
    using assms(3,4) proof_window_mono [of opts i "so_max_resends opts"]
      rounds_mono [OF c(2), of "proof_window opts i" "proof_window opts (so_max_resends opts)"] c(2)
    by (auto simp: submit_fuel_def)
  let ?idle = "idle_body env opts (at_clock env h + so_idle_wait_s opts)"
  have "\<exists>r. run_loop fuel ?idle (ticked env h) = Some r"
  proof (rule wait_ends [OF c fuel(1), where h = h])
    show "(at_clock env h + so_idle_wait_s opts - at_clock env (ticked env h)) / so_poll_s opts \<le> of_nat n \<Longrightarrow>
        \<exists>r. run_loop (Suc n) ?idle (ticked env h) = Some r" for n
      by (rule idle.ends) (use c in simp_all)
  qed
  then obtain q h2 where q: "run_loop fuel ?idle (ticked env h) = Some (q, h2)"
    by (metis surj_pair)
  have proving: "\<exists>r. run_loop fuel (proof_body env opts (at_clock env h3 + proof_window opts i) pb) (None, 0, ticked env h3) = Some r"
    for h3 pb
  proof (rule wait_ends [OF c fuel(2), where h = h3])
    show "(at_clock env h3 + proof_window opts i - at_clock env (ticked env h3)) / so_poll_s opts \<le> of_nat n \<Longrightarrow>
        \<exists>r. run_loop (Suc n) (proof_body env opts (at_clock env h3 + proof_window opts i) pb) (None, 0, ticked env h3) = Some r" for n
      by (rule submit_proof.ends) (use c in simp_all)
  qed
  show ?thesis
  proof (cases q)
    case (Idle_Pane pane)
    obtain pb h3 where "escape_step env opts pane h2 = (pb, h3)" by (cases "escape_step env opts pane h2")
    with q Idle_Pane proving [of "press ''Enter'' h3"] show ?thesis
      by (cases pb) (simp_all add: attempt_submit_def split_beta del: split_paired_Ex)
  next
    case (Idle_Return b)
    with q have "attempt_submit fuel env opts i h = Some (Some b, h2)" by (simp add: attempt_submit_def split_beta)
    then show ?thesis by blast
  next
    case Idle_Never
    with q have "attempt_submit fuel env opts i h = Some (None, h2)" by (simp add: attempt_submit_def split_beta)
    then show ?thesis by blast
  qed
qed

lemma attempts_submit_end:
  assumes "clock_runs env" and "0 < so_poll_s opts" and "submit_fuel opts \<le> fuel"
    and "\<forall>i \<in> set ns. i < so_max_resends opts"
  shows "\<exists>r. attempts_submit fuel env opts ns h = Some r"
  using assms(4)
proof (induction ns arbitrary: h)
  case (Cons i ns)
  obtain q h1 where "attempt_submit fuel env opts i h = Some (q, h1)"
    using attempt_submit_ends [OF assms(1-3)] Cons.prems by (metis list.set_intros(1) surj_pair)
  with Cons show ?case by (auto split: option.splits)
qed (simp del: split_paired_Ex)

lemma verify_submit_ends:
  assumes "clock_runs env" and "0 < so_poll_s opts" and "submit_fuel opts \<le> fuel"
  shows "\<exists>r. verify_submit_by_advancement fuel env opts h = Some r"
proof -
  have fuel: "rounds (so_appear_timeout_s opts) (so_poll_s opts) \<le> fuel"
    using assms(3) by (simp add: submit_fuel_def)
  let ?s = "([], ticked env h) :: utext \<times> history"
  have "\<exists>r. run_loop fuel (appear_body env opts (at_clock env h + so_appear_timeout_s opts)) ?s = Some r"
    by (rule wait_ends [OF assms(1,2) fuel, where h = h]) (use appear.ends assms(1,2) in auto)
  then obtain q h2 where q: "run_loop fuel (appear_body env opts (at_clock env h + so_appear_timeout_s opts)) ?s = Some (q, h2)"
    by (metis surj_pair)
  have "\<exists>r. attempts_submit fuel env opts [0..<so_max_resends opts] h2 = Some r"
    by (rule attempts_submit_end [OF assms]) simp
  with q show ?thesis
    by (cases q) (simp_all add: verify_submit_by_advancement_def split_beta del: split_paired_Ex)
qed

subsection \<open>On which panes a key is pressed\<close>

text \<open>What a key needs of the pane the latest capture showed.\<close>

definition submit_key :: "submit_opts \<Rightarrow> string \<Rightarrow> utext \<Rightarrow> bool" where
  "submit_key opts key pane \<longleftrightarrow>
     submit_pending opts pane \<and> input_idle opts pane \<and>
     (key = ''Enter'' \<or>
      key = ''Escape'' \<and> compose_pending_live pane \<and> is_ready pane \<and> \<not> has_esc_cancel_modal pane)"

lemma input_idle_not_busy: "input_idle opts pane \<Longrightarrow> \<not> pane_is_busy pane \<and> codex_blocking_modal pane = None"
  by (auto simp: input_idle_def pane_is_input_idle_def modal_blocked_def split: if_splits)

text \<open>The waits press nothing.\<close>

lemma appear_keyless:
  assumes "run_loop fuel (appear_body env opts d) s = Some (q, h')"
  shows "keys_ok P h' = keys_ok P (snd s)" "presses k h' = presses k (snd s)"
    "q = App_Never prev \<Longrightarrow> fst s = [] \<Longrightarrow> prev = [] \<or> prev = last_seen h'"
proof -
  have "keys_ok P (snd (q, h')) = keys_ok P (snd s)"
    by (rule run_loop_invariant [OF assms, where P = "\<lambda>t. keys_ok P (snd t) = keys_ok P (snd s)"])
      (auto simp: appear_body_eq Let_def keyless split: if_splits)
  then show "keys_ok P h' = keys_ok P (snd s)" by simp
  have "presses k (snd (q, h')) = presses k (snd s)"
    by (rule run_loop_invariant [OF assms, where P = "\<lambda>t. presses k (snd t) = presses k (snd s)"])
      (auto simp: appear_body_eq Let_def keyless split: if_splits)
  then show "presses k h' = presses k (snd s)" by simp
  show "prev = [] \<or> prev = last_seen h'" if "q = App_Never prev" "fst s = []"
  proof -
    have "case fst (q, h') of App_Never prev \<Rightarrow> prev = [] \<or> prev = last_seen (snd (q, h')) | _ \<Rightarrow> True"
      by (rule run_loop_invariant [OF assms, where P = "\<lambda>t. fst t = [] \<or> fst t = last_seen (snd t)"])
        (use that in \<open>auto simp: appear_body_eq Let_def split: if_splits\<close>)
    with that show ?thesis by simp
  qed
qed

definition idle_result :: "submit_opts \<Rightarrow> idled \<Rightarrow> utext \<Rightarrow> bool" where
  "idle_result opts q pane =
     (case q of
        Idle_Return b \<Rightarrow> b \<longrightarrow> so_require_proof opts \<longrightarrow> fragment_in_transcript opts pane
      | Idle_Pane p \<Rightarrow> p = pane \<and> submit_pending opts pane \<and> input_idle opts pane
      | Idle_Never \<Rightarrow> True)"

lemma idle_keyless:
  assumes "run_loop fuel (idle_body env opts d) h = Some (q, h')"
  shows "keys_ok P h' = keys_ok P h" "presses k h' = presses k h" "idle_result opts q (last_seen h')"
proof -
  have "keys_ok P (snd (q, h')) = keys_ok P h"
    by (rule run_loop_invariant [OF assms, where P = "\<lambda>t. keys_ok P t = keys_ok P h"])
      (auto simp: idle_body_eq Let_def keyless split: if_splits)
  then show "keys_ok P h' = keys_ok P h" by simp
  have "presses k (snd (q, h')) = presses k h"
    by (rule run_loop_invariant [OF assms, where P = "\<lambda>t. presses k t = presses k h"])
      (auto simp: idle_body_eq Let_def keyless split: if_splits)
  then show "presses k h' = presses k h" by simp
  have "idle_result opts (fst (q, h')) (last_seen (snd (q, h')))"
    by (rule run_loop_invariant [OF assms, where P = "\<lambda>_. True"])
      (auto simp: idle_body_eq idle_result_def Let_def split: if_splits)
  then show "idle_result opts q (last_seen h')" by simp
qed

text \<open>Captures in a row, the latest first, that show nothing pending, since the last key.\<close>

fun clear_frames :: "submit_opts \<Rightarrow> history \<Rightarrow> nat" where
  "clear_frames opts [] = 0"
| "clear_frames opts (e # h) =
     (case e of
        Captured p \<Rightarrow> if submit_pending opts (pane_text p) then 0 else Suc (clear_frames opts h)
      | Pressed k \<Rightarrow> 0
      | _ \<Rightarrow> clear_frames opts h)"

lemma clear_frames_simps [simp]:
  "clear_frames opts (nap p h) = clear_frames opts h" "clear_frames opts (ticked env h) = clear_frames opts h"
  "clear_frames opts (looked env h) = (if submit_pending opts (screen env h) then 0 else Suc (clear_frames opts h))"
  by (simp_all add: nap_def sleep_def clock_def look_def)

text \<open>What a reported success rests on when proof is required.\<close>

definition submit_evidence :: "submit_opts \<Rightarrow> history \<Rightarrow> bool" where
  "submit_evidence opts h \<longleftrightarrow>
     fragment_in_transcript opts (last_seen h) \<or> pane_is_busy (last_seen h) \<or> 2 \<le> clear_frames opts h"

lemma proof_keyless:
  assumes "run_loop fuel (proof_body env opts d pb) (None, 0, h) = Some (q, h')"
  shows "keys_ok P h' = keys_ok P h" "presses k h' = presses k h"
    "q = Some True \<Longrightarrow> so_require_proof opts \<Longrightarrow> submit_evidence opts h'"
proof -
  have "keys_ok P (snd (q, h')) = keys_ok P h"
    by (rule run_loop_invariant [OF assms, where P = "\<lambda>t. keys_ok P (snd (snd t)) = keys_ok P h"])
      (auto simp: proof_body_eq Let_def keyless split: if_splits)
  then show "keys_ok P h' = keys_ok P h" by simp
  have "presses k (snd (q, h')) = presses k h"
    by (rule run_loop_invariant [OF assms, where P = "\<lambda>t. presses k (snd (snd t)) = presses k h"])
      (auto simp: proof_body_eq Let_def keyless split: if_splits)
  then show "presses k h' = presses k h" by simp
  have "fst (q, h') = Some True \<longrightarrow> so_require_proof opts \<longrightarrow> submit_evidence opts (snd (q, h'))"
    by (rule run_loop_invariant [OF assms, where P = "\<lambda>t. fst (snd t) \<le> clear_frames opts (snd (snd t))"])
      (auto simp: proof_body_eq submit_evidence_def Let_def split: if_splits)
  then show "q = Some True \<Longrightarrow> so_require_proof opts \<Longrightarrow> submit_evidence opts h'" by simp
qed

text \<open>The recovery gesture.\<close>

lemma escape_step_keeps:
  assumes "escape_step env opts pane h = (q, h')" and "pane = last_seen h"
    and "submit_pending opts pane" and "input_idle opts pane"
  shows "keys_ok (submit_key opts) h' = keys_ok (submit_key opts) h"
    "q = Some p \<Longrightarrow> p = last_seen h' \<and> submit_pending opts p \<and> input_idle opts p"
    "presses ''Enter'' h' = presses ''Enter'' h" "presses ''Escape'' h' \<le> Suc (presses ''Escape'' h)"
  using assms
  by (auto simp: escape_step_def Let_def split_beta keyless submit_key_def escape_safe_def split: if_splits)

text \<open>An attempt presses at most one Enter and one Escape, each where it may.\<close>

lemma attempt_keeps:
  assumes "attempt_submit fuel env opts i h = Some (q, h')"
  shows "keys_ok (submit_key opts) h' = keys_ok (submit_key opts) h"
    "presses ''Enter'' h' \<le> Suc (presses ''Enter'' h)" "presses ''Escape'' h' \<le> Suc (presses ''Escape'' h)"
    "q = Some True \<Longrightarrow> so_require_proof opts \<Longrightarrow> submit_evidence opts h'"
proof -
  let ?idle = "idle_body env opts (at_clock env h + so_idle_wait_s opts)"
  obtain r h2 where r: "run_loop fuel ?idle (ticked env h) = Some (r, h2)"
    using assms by (auto simp: attempt_submit_def split_beta split: option.splits)
  note idle = idle_keyless [OF r]
  have i: "keys_ok P h2 = keys_ok P h" "presses k h2 = presses k h" for P k
    using idle(1,2) by (simp_all add: keyless)
  have goal: "keys_ok (submit_key opts) h' = keys_ok (submit_key opts) h
      \<and> presses ''Enter'' h' \<le> Suc (presses ''Enter'' h) \<and> presses ''Escape'' h' \<le> Suc (presses ''Escape'' h)
      \<and> (q = Some True \<longrightarrow> so_require_proof opts \<longrightarrow> submit_evidence opts h')"
  proof (cases r)
    case (Idle_Pane pane)
    with idle(3) have pane: "pane = last_seen h2" "submit_pending opts pane" "input_idle opts pane"
      by (auto simp: idle_result_def)
    obtain pb h3 where e: "escape_step env opts pane h2 = (pb, h3)" by (cases "escape_step env opts pane h2")
    note e = this escape_step_keeps [OF this pane]
    show ?thesis
    proof (cases pb)
      case None
      with assms r Idle_Pane e(1) have "q = None" "h' = h3" by (auto simp: attempt_submit_def split_beta)
      with e i show ?thesis by simp
    next
      case (Some p)
      let ?d = "at_clock env (press ''Enter'' h3) + proof_window opts i"
      from assms r Idle_Pane e(1) Some
      have run: "run_loop fuel (proof_body env opts ?d p) (None, 0, ticked env (press ''Enter'' h3)) = Some (q, h')"
        by (simp add: attempt_submit_def split_beta)
      note pk = proof_keyless [OF run]
      have "submit_key opts ''Enter'' (last_seen h3)" using e(3) [OF Some] by (auto simp: submit_key_def)
      with pk e i show ?thesis by (simp add: keyless)
    qed
  next
    case (Idle_Return b)
    with assms r idle(3) have "q = Some b" "h' = h2" "b \<longrightarrow> so_require_proof opts \<longrightarrow> fragment_in_transcript opts (last_seen h2)"
      by (auto simp: attempt_submit_def split_beta idle_result_def)
    with i show ?thesis by (simp add: submit_evidence_def)
  next
    case Idle_Never
    with assms r have "q = None" "h' = h2" by (auto simp: attempt_submit_def split_beta)
    with i show ?thesis by simp
  qed
  then show "keys_ok (submit_key opts) h' = keys_ok (submit_key opts) h"
    "presses ''Enter'' h' \<le> Suc (presses ''Enter'' h)" "presses ''Escape'' h' \<le> Suc (presses ''Escape'' h)"
    "q = Some True \<Longrightarrow> so_require_proof opts \<Longrightarrow> submit_evidence opts h'" by blast+
qed

lemma attempts_keep:
  assumes "attempts_submit fuel env opts ns h = Some (b, h')"
  shows "keys_ok (submit_key opts) h' = keys_ok (submit_key opts) h
    \<and> presses ''Enter'' h' \<le> length ns + presses ''Enter'' h
    \<and> presses ''Escape'' h' \<le> length ns + presses ''Escape'' h
    \<and> (b \<longrightarrow> so_require_proof opts \<longrightarrow> submit_evidence opts h')"
  using assms
proof (induction ns arbitrary: h)
  case Nil
  then show ?case by (auto simp: keyless)
next
  case (Cons i ns)
  obtain q h1 where a: "attempt_submit fuel env opts i h = Some (q, h1)"
    using Cons.prems by (auto split: option.splits)
  note k = attempt_keeps [OF a]
  show ?case
  proof (cases q)
    case None
    with Cons.prems a have "attempts_submit fuel env opts ns h1 = Some (b, h')" by simp
    from Cons.IH [OF this] k show ?thesis by auto
  next
    case (Some b')
    with Cons.prems a have "b = b'" "h' = h1" by simp_all
    with k Some show ?thesis by auto
  qed
qed

lemma verify_submit_keeps:
  assumes "verify_submit_by_advancement fuel env opts h = Some (b, h')"
  shows "keys_ok (submit_key opts) h' = keys_ok (submit_key opts) h
    \<and> presses ''Enter'' h' \<le> so_max_resends opts + presses ''Enter'' h
    \<and> presses ''Escape'' h' \<le> so_max_resends opts + presses ''Escape'' h"
proof -
  obtain q h2 where r: "run_loop fuel (appear_body env opts (at_clock env h + so_appear_timeout_s opts)) ([], ticked env h) = Some (q, h2)"
    using assms by (auto simp: verify_submit_by_advancement_def split_beta split: option.splits)
  have a: "keys_ok P h2 = keys_ok P h" "presses k h2 = presses k h" for P k
    using appear_keyless(1,2) [OF r] by (simp_all add: keyless)
  show ?thesis
  proof (cases q)
    case App_Pending
    with assms r have "attempts_submit fuel env opts [0..<so_max_resends opts] h2 = Some (b, h')"
      by (simp add: verify_submit_by_advancement_def split_beta)
    from attempts_keep [OF this] a show ?thesis by simp
  qed (use assms r a in \<open>auto simp: verify_submit_by_advancement_def split_beta\<close>)
qed

lemma verify_submit_evidence:
  assumes "verify_submit_by_advancement fuel env opts h = Some (True, h')" and "so_require_proof opts"
  shows "submit_evidence opts h'"
proof -
  obtain q h2 where r: "run_loop fuel (appear_body env opts (at_clock env h + so_appear_timeout_s opts)) ([], ticked env h) = Some (q, h2)"
    using assms by (auto simp: verify_submit_by_advancement_def split_beta split: option.splits)
  show ?thesis
  proof (cases q)
    case App_Pending
    with assms r have "attempts_submit fuel env opts [0..<so_max_resends opts] h2 = Some (True, h')"
      by (simp add: verify_submit_by_advancement_def split_beta)
    from attempts_keep [OF this] assms(2) show ?thesis by simp
  next
    case (App_Never prev)
    with assms r have f: "fragment_in_transcript opts prev" and h: "h' = h2"
      by (auto simp: verify_submit_by_advancement_def split_beta)
    from f have "prev \<noteq> []" by (auto simp: fragment_in_transcript_def squeeze_def)
    with appear_keyless(3) [OF r App_Never] have "prev = last_seen h2" by simp
    with f h show ?thesis by (simp add: submit_evidence_def)
  qed (use assms r in \<open>auto simp: verify_submit_by_advancement_def split_beta\<close>)
qed

subsection \<open>Clearing a stale box\<close>

definition clear_key :: "string \<Rightarrow> utext \<Rightarrow> bool" where
  "clear_key key pane \<longleftrightarrow>
     key = ''Escape'' \<and> \<not> has_esc_cancel_modal pane \<and> codex_blocking_modal pane = None
     \<and> \<not> is_fresh_boot_welcome_screen pane"

lemma keys_ok_escapes:
  "keys_ok clear_key (press_all COMPOSE_CLEAR_KEYS h) \<longleftrightarrow> clear_key ''Escape'' (last_seen h) \<and> keys_ok clear_key h"
  by (auto simp: press_all_def COMPOSE_CLEAR_KEYS_def)

lemma presses_escapes: "presses ''Escape'' (press_all COMPOSE_CLEAR_KEYS h) = 2 + presses ''Escape'' h"
  by (simp add: press_all_def COMPOSE_CLEAR_KEYS_def)

lemma clear_attempts_keep:
  assumes "clear_attempts n env p h = (b, h')" and "keys_ok clear_key h"
  shows "keys_ok clear_key h' \<and> presses ''Escape'' h' \<le> 2 * n + presses ''Escape'' h
    \<and> (b \<longrightarrow> \<not> compose_pending_live (last_seen h'))"
  using assms
proof (induction n arbitrary: h)
  case (Suc n)
  let ?h1 = "looked env h"
  let ?h2 = "looked env (nap p (press_all COMPOSE_CLEAR_KEYS ?h1))"
  consider (modal) "modal_up (screen env h)"
    | (greeted) "\<not> modal_up (screen env h)" "is_fresh_boot_welcome_screen (screen env h)"
    | (clear) "\<not> modal_up (screen env h)" "\<not> is_fresh_boot_welcome_screen (screen env h)" by blast
  then show ?case
  proof cases
    case modal
    with Suc.prems show ?thesis by (auto simp: Let_def split_beta keyless)
  next
    case greeted
    with Suc.prems have "clear_attempts n env p (nap p ?h1) = (b, h')" by (simp add: Let_def split_beta)
    from Suc.IH [OF this] Suc.prems(2) show ?thesis by (simp add: keyless)
  next
    case clear
    then have "clear_key ''Escape'' (last_seen ?h1)"
      by (auto simp: clear_key_def modal_up_def modal_blocked_def)
    with Suc.prems(2) have h2: "keys_ok clear_key ?h2" by (simp add: keyless keys_ok_escapes)
    have esc: "presses ''Escape'' ?h2 = 2 + presses ''Escape'' h" by (simp add: keyless presses_escapes)
    show ?thesis
    proof (cases "compose_pending_live (last_seen ?h2)")
      case True
      with clear Suc.prems have "clear_attempts n env p ?h2 = (b, h')" by (simp add: Let_def split_beta)
      from Suc.IH [OF this h2] esc show ?thesis by simp
    next
      case False
      with clear Suc.prems have "h' = ?h2" by (simp add: Let_def split_beta)
      with False h2 esc show ?thesis by simp
    qed
  qed
qed simp

lemma welcome_body_eq:
  "welcome_body env p d (pane, h) =
     (if \<not> is_fresh_boot_welcome_screen pane then Inl (pane, h)
      else if \<not> at_clock env h < d then Inl (pane, ticked env h)
      else Inr (screen env (nap p (ticked env h)), looked env (nap p (ticked env h))))"
  by (simp add: welcome_body_def Let_def split_beta prod_eq_iff)

interpretation greeting: deadline_loop "\<lambda>_. clock_runs env \<and> 0 < p" "welcome_body env p d"
    "\<lambda>s. at_clock env (snd s)" d p
  for env p d
proof
  have later: "at_clock env h + p \<le> at_clock env (looked env (nap p (ticked env h)))"
    if "clock_runs env" "0 < p" for h
  proof -
    note t = ticking_steps [OF that(1)]
    have "at_clock env h \<le> at_clock env (ticked env h)" by (rule t)
    moreover have "at_clock env (ticked env h) + p \<le> at_clock env (nap p (ticked env h))"
      by (rule t) (rule that(2))
    moreover have "at_clock env (nap p (ticked env h)) \<le> at_clock env (looked env (nap p (ticked env h)))"
      by (rule t)
    ultimately show ?thesis by linarith
  qed
  show "\<And>s s'. clock_runs env \<and> 0 < p \<Longrightarrow> welcome_body env p d s = Inr s' \<Longrightarrow>
      (clock_runs env \<and> 0 < p) \<and> at_clock env (snd s) + p \<le> at_clock env (snd s')"
    by (auto simp: welcome_body_eq later split: if_splits)
  show "\<And>s s'. clock_runs env \<and> 0 < p \<Longrightarrow> d \<le> at_clock env (snd s) \<Longrightarrow> welcome_body env p d s \<noteq> Inr s'"
    by (auto simp: welcome_body_eq split: if_splits)
qed simp

lemma welcome_keeps:
  assumes "wait_for_welcome_screen_to_clear fuel env w p h = Some (pane, h')"
  shows "keys_ok P h' = keys_ok P h" "presses k h' = presses k h" "pane = last_seen h'"
proof -
  let ?s = "look env (ticked env h)"
  have run: "run_loop fuel (welcome_body env p (at_clock env h + w)) (screen env (ticked env h), looked env (ticked env h)) = Some (pane, h')"
    using assms by (simp add: wait_for_welcome_screen_to_clear_def split_beta look_def)
  have "keys_ok P (snd (pane, h')) = keys_ok P h"
    by (rule run_loop_invariant [OF run, where P = "\<lambda>t. keys_ok P (snd t) = keys_ok P h"])
      (auto simp: welcome_body_eq keyless split: if_splits)
  then show "keys_ok P h' = keys_ok P h" by simp
  have "presses k (snd (pane, h')) = presses k h"
    by (rule run_loop_invariant [OF run, where P = "\<lambda>t. presses k (snd t) = presses k h"])
      (auto simp: welcome_body_eq keyless split: if_splits)
  then show "presses k h' = presses k h" by simp
  have "fst (pane, h') = last_seen (snd (pane, h'))"
    by (rule run_loop_invariant [OF run, where P = "\<lambda>t. fst t = last_seen (snd t)"])
      (auto simp: welcome_body_eq split: if_splits)
  then show "pane = last_seen h'" by simp
qed

definition welcome_wait :: "nat \<Rightarrow> screen_env \<Rightarrow> time \<Rightarrow> time \<Rightarrow> history \<Rightarrow> (utext \<times> history) option" where
  "welcome_wait fuel env w p h =
     (if is_fresh_boot_welcome_screen (screen env h)
      then wait_for_welcome_screen_to_clear fuel env w p (looked env h)
      else Some (screen env h, looked env h))"

lemma clear_compose_eq:
  "clear_compose_buffer fuel env n p w h =
     (if modal_up (screen env h) then Some (False, looked env h)
      else
        (case welcome_wait fuel env w p h of
           None \<Rightarrow> None
         | Some q \<Rightarrow>
             if \<not> compose_pending_live (fst q) then Some (True, snd q)
             else Some (clear_attempts n env p (snd q))))"
  by (simp add: clear_compose_buffer_def welcome_wait_def Let_def split_beta cong: if_cong option.case_cong)

lemma clear_compose_keeps:
  assumes "clear_compose_buffer fuel env n p w h = Some (b, h')" and "keys_ok clear_key h"
  shows "keys_ok clear_key h' \<and> presses ''Escape'' h' \<le> 2 * n + presses ''Escape'' h
    \<and> (b \<longrightarrow> \<not> compose_pending_live (last_seen h'))"
proof (cases "modal_up (screen env h)")
  case True
  with assms have "b = False" "h' = looked env h" by (simp_all add: clear_compose_eq)
  with assms(2) show ?thesis by (simp add: keyless)
next
  case False
  with assms(1) obtain pane h2 where q: "welcome_wait fuel env w p h = Some (pane, h2)"
    by (auto simp: clear_compose_eq split: option.splits)
  have h2: "pane = last_seen h2" "keys_ok clear_key h2" "presses ''Escape'' h2 = presses ''Escape'' h"
    using q welcome_keeps [of fuel env w p "looked env h" pane h2] assms(2)
    by (auto simp: welcome_wait_def keyless split: if_splits)
  show ?thesis
  proof (cases "compose_pending_live pane")
    case True
    with assms(1) False q have "clear_attempts n env p h2 = (b, h')"
      by (simp add: clear_compose_eq)
    from clear_attempts_keep [OF this h2(2)] h2(3) show ?thesis by simp
  next
    case pending: False
    with assms(1) False q have "h' = h2" by (simp add: clear_compose_eq)
    with pending h2 show ?thesis by simp
  qed
qed

lemma clear_compose_ends:
  assumes "clock_runs env" and "0 < p" and "rounds w p \<le> fuel"
  shows "\<exists>r. clear_compose_buffer fuel env n p w h = Some r"
proof -
  have "\<exists>r. wait_for_welcome_screen_to_clear fuel env w p h1 = Some r" for h1
  proof -
    let ?d = "at_clock env h1 + w"
    have later: "at_clock env h1 \<le> at_clock env (looked env (ticked env h1))"
      by (rule clock_le_looked [OF assms(1)])
    then have "(?d - at_clock env (looked env (ticked env h1))) / p \<le> w / p"
      using assms(2) by (intro divide_right_mono) auto
    with rounds_enough [of w p]
    have "(?d - at_clock env (snd (look env (ticked env h1)))) / p \<le> of_nat (nat \<lceil>w / p\<rceil>)" by linarith
    from greeting.ends [OF conjI [OF assms(1,2)] this]
    obtain r where "run_loop (rounds w p) (welcome_body env p ?d) (look env (ticked env h1)) = Some r"
      unfolding rounds_def by blast
    from run_loop_more [OF this assms(3)] show ?thesis
      by (simp add: wait_for_welcome_screen_to_clear_def split_beta)
  qed
  then have "\<exists>q. welcome_wait fuel env w p h = Some q"
    by (simp add: welcome_wait_def del: split_paired_Ex)
  then obtain q where "welcome_wait fuel env w p h = Some q" by blast
  then show ?thesis by (simp add: clear_compose_eq del: split_paired_Ex)
qed

end
