(* ===== verification/Prompt_Handlers.thy ===== *)
theory Prompt_Handlers
  imports Prompts
begin

text \<open>
  The two registries of prompt handlers, \<open>runtimes/prompts.py\<close> and \<open>_runners/_tmux/prompts.py\<close>:
  which detector is asked first, which keys answer it, and what is never answered. The second
  module repeats the detectors of the first word by word (and calls the first for the Codex
  screens), so both registries are lists over the detectors of \<open>Prompts\<close>. Sending a key is an
  element of the list of keys a function returns.
\<close>

record prompt_handler =
  ph_name :: string
  ph_detect :: "utext \<Rightarrow> bool"
  ph_keys :: "string list"
  ph_priority :: int

definition mk_handler :: "string \<Rightarrow> (utext \<Rightarrow> bool) \<Rightarrow> string list \<Rightarrow> int \<Rightarrow> prompt_handler" where
  "mk_handler n d ks p = \<lparr>ph_name = n, ph_detect = d, ph_keys = ks, ph_priority = p\<rparr>"

definition PROMPT_HANDLERS :: "prompt_handler list" where
  "PROMPT_HANDLERS =
     [mk_handler ''hermes-contributor-tier'' detect_hermes_contributor_tier [''y'', ''Enter''] 1,
      mk_handler ''codex-dir-trust'' detect_codex_dir_trust [] 1,
      mk_handler ''codex-hooks-review'' detect_codex_hooks_review [] 1,
      mk_handler ''bypass-permissions'' detect_bypass_permissions [''2'', ''Enter''] 1,
      mk_handler ''resume-session'' detect_resume_session [''2'', ''Enter''] 1,
      mk_handler ''dev-channels'' detect_dev_channels [''1'', ''Enter''] 2,
      mk_handler ''thinking-effort'' detect_thinking_effort [''1'', ''Enter''] 3,
      mk_handler ''mcp-json-edit'' detect_mcp_json_edit [''1'', ''Enter''] 4,
      mk_handler ''skip-permissions-yn'' detect_skip_permissions_yn [''y'', ''Enter''] 5,
      mk_handler ''press-enter-continue'' detect_press_enter_continue [''Enter''] 6,
      mk_handler ''file-trust'' detect_file_trust [''y'', ''Enter''] 7,
      mk_handler ''file-trust-radio'' detect_file_trust_radio [''1'', ''Enter''] 8,
      mk_handler ''theme-selection'' detect_theme_selection [''1'', ''Enter''] 9,
      mk_handler ''login-method'' detect_login_method [''2'', ''Enter''] 10,
      mk_handler ''compose-pending-unsent'' detect_compose_pending_unsent [''Enter''] 11,
      mk_handler ''external-imports'' detect_external_imports [''1'', ''Enter''] 12]"

text \<open>\<open>sorted(handlers, key=priority)\<close> is stable, as \<open>sort_key\<close> is.\<close>

definition by_priority :: "prompt_handler list \<Rightarrow> prompt_handler list" where
  "by_priority hs = sort_key ph_priority hs"

definition register_prompt :: "prompt_handler list \<Rightarrow> prompt_handler \<Rightarrow> prompt_handler list" where
  "register_prompt hs h = by_priority (hs @ [h])"

text \<open>The first handler, by priority, that is not excluded and recognises the text.\<close>

definition first_match :: "prompt_handler list \<Rightarrow> string list \<Rightarrow> utext \<Rightarrow> prompt_handler option" where
  "first_match hs accepted content =
     find (\<lambda>h. ph_name h \<notin> set accepted \<and> ph_detect h content) (by_priority hs)"

definition detect_and_respond :: "utext \<Rightarrow> string list \<Rightarrow> string option \<times> string list" where
  "detect_and_respond content accepted =
     (case codex_blocking_modal content of
        Some blocked \<Rightarrow> (Some blocked, [])
      | None \<Rightarrow>
          (case first_match PROMPT_HANDLERS accepted (recent_tail content) of
             None \<Rightarrow> (None, [])
           | Some h \<Rightarrow> (Some (ph_name h), ph_keys h)))"

definition detect_prompt :: "utext \<Rightarrow> string option" where
  "detect_prompt content =
     (case codex_blocking_modal content of
        Some blocked \<Rightarrow> Some blocked
      | None \<Rightarrow> map_option ph_name (first_match PROMPT_HANDLERS [] (recent_tail content)))"

definition REVIEWED_PROMPTS :: "string list" where
  "REVIEWED_PROMPTS =
     [''codex-hooks-review'', ''codex-dir-trust'', ''codex-auth-required'', ''codex-usage-limit'',
      ''codex-rate-limit'']"

definition respond_modal :: "string \<Rightarrow> bool \<times> string list" where
  "respond_modal name =
     (if name \<in> set REVIEWED_PROMPTS then (False, [])
      else
        (case find (\<lambda>h. ph_name h = name) PROMPT_HANDLERS of
           Some h \<Rightarrow> (True, ph_keys h)
         | None \<Rightarrow> (False, [])))"

subsection \<open>The watchdog's registry\<close>

definition normalize_tui_whitespace :: "utext \<Rightarrow> utext" where
  "normalize_tui_whitespace text =
     map (\<lambda>c. if c = 0xA0 \<or> (0x2000 \<le> c \<and> c \<le> 0x200B) \<or> c = 0x202F \<or> c = 0x205F \<or> c = 0x3000
              then 32 else c) text"

definition detect_operator_question :: "utext \<Rightarrow> bool" where
  "detect_operator_question content =
     (let c = normalize_tui_whitespace content in
      holds (u ''Enter to select'') c \<and> (holds (u ''to navigate'') c \<or> holds (u ''add notes'') c)
      \<and> \<not> holds (u ''Enter to confirm'') c)"

definition TMUX_PROMPT_HANDLERS :: "prompt_handler list" where
  "TMUX_PROMPT_HANDLERS =
     by_priority
       [mk_handler ''bypass-permissions'' detect_bypass_permissions [''2'', ''Enter''] 1,
        mk_handler ''dev-channels'' detect_dev_channels [''1'', ''Enter''] 2,
        mk_handler ''thinking-effort'' detect_thinking_effort [''1'', ''Enter''] 3,
        mk_handler ''mcp-json-edit'' detect_mcp_json_edit [''1'', ''Enter''] 4,
        mk_handler ''skip-permissions-yn'' detect_skip_permissions_yn [''y'', ''Enter''] 5,
        mk_handler ''press-enter-continue'' detect_press_enter_continue [''Enter''] 6,
        mk_handler ''file-trust'' detect_file_trust [''y'', ''Enter''] 7,
        mk_handler ''codex-dir-trust'' detect_codex_dir_trust [] 1,
        mk_handler ''codex-hooks-review'' detect_codex_hooks_review [] 1,
        mk_handler ''file-trust-radio'' detect_file_trust_radio [''1'', ''Enter''] 8,
        mk_handler ''theme-selection'' detect_theme_selection [''1'', ''Enter''] 9,
        mk_handler ''login-method'' detect_login_method [''2'', ''Enter''] 10,
        mk_handler ''compose-pending-unsent'' detect_compose_pending_unsent [''Enter''] 11,
        mk_handler ''external-imports'' detect_external_imports [''1'', ''Enter''] 12,
        mk_handler ''operator-question'' detect_operator_question [] 0]"

definition tmux_detect_and_respond :: "utext \<Rightarrow> string list \<Rightarrow> string option \<times> string list" where
  "tmux_detect_and_respond content accepted =
     (case codex_blocking_modal content of
        Some blocked \<Rightarrow> (Some blocked, [])
      | None \<Rightarrow>
          (case first_match TMUX_PROMPT_HANDLERS accepted content of
             None \<Rightarrow> (None, [])
           | Some h \<Rightarrow> (Some (ph_name h), ph_keys h)))"

text \<open>
  \<open>prompt_line_index\<close>: the last row whose stripped text starts with the prompt glyph.
\<close>

fun last_index_from :: "(utext \<Rightarrow> bool) \<Rightarrow> nat \<Rightarrow> utext list \<Rightarrow> nat option" where
  "last_index_from P i [] = None"
| "last_index_from P i (r # rs) =
     (case last_index_from P (Suc i) rs of
        Some j \<Rightarrow> Some j
      | None \<Rightarrow> if P r then Some i else None)"

definition prompt_line_index :: "utext \<Rightarrow> nat option" where
  "prompt_line_index content =
     last_index_from (\<lambda>line. begins (t_strip line) [CLAUDE_MARKER]) 0 (pane_rows content)"

subsection \<open>The first handler that matches\<close>

lemma find_Some_in: "find P xs = Some x \<Longrightarrow> x \<in> set xs \<and> P x"
  by (induction xs) (auto split: if_splits)

lemma first_match_Some:
  assumes "first_match hs accepted content = Some h"
  shows "h \<in> set hs" "ph_name h \<notin> set accepted" "ph_detect h content"
  using find_Some_in [OF assms [unfolded first_match_def]] by (auto simp: by_priority_def)

lemma find_least:
  "sorted (map f xs) \<Longrightarrow> find P xs = Some x \<Longrightarrow> y \<in> set xs \<Longrightarrow> P y \<Longrightarrow> f x \<le> f y"
  by (induction xs) (auto split: if_splits)

lemma first_match_least:
  assumes "first_match hs accepted content = Some h"
    and "h' \<in> set hs" and "ph_name h' \<notin> set accepted" and "ph_detect h' content"
  shows "ph_priority h \<le> ph_priority h'"
proof -
  have "sorted (map ph_priority (by_priority hs))" by (simp add: by_priority_def)
  from find_least [OF this assms(1) [unfolded first_match_def]] assms(2-)
  show ?thesis by (simp add: by_priority_def)
qed

lemma first_match_None_iff:
  "first_match hs accepted content = None \<longleftrightarrow>
     (\<forall>h \<in> set hs. ph_name h \<in> set accepted \<or> \<not> ph_detect h content)"
  by (auto simp: first_match_def find_None_iff by_priority_def)

text \<open>A name whose handlers have no keys gets no keys.\<close>

lemma reviewed_handlers_keyless:
  "list_all (\<lambda>h. ph_name h \<in> set REVIEWED_PROMPTS \<longrightarrow> ph_keys h = []) PROMPT_HANDLERS"
  by code_simp

lemma reviewed_handlers_have_no_keys:
  "h \<in> set PROMPT_HANDLERS \<Longrightarrow> ph_name h \<in> set REVIEWED_PROMPTS \<Longrightarrow> ph_keys h = []"
  using reviewed_handlers_keyless by (simp only: list_all_iff)

lemma headings_reviewed: "list_all (\<lambda>(name, ps). name \<in> set REVIEWED_PROMPTS) codex_headings"
  by code_simp

lemma usage_limit_reviewed: "''codex-usage-limit'' \<in> set REVIEWED_PROMPTS"
  by code_simp


lemma blocking_modal_is_reviewed:
  "codex_blocking_modal content = Some name \<Longrightarrow> name \<in> set REVIEWED_PROMPTS"
proof -
  have heading: "heading_name row = Some n \<Longrightarrow> n \<in> set REVIEWED_PROMPTS" for row n
    using headings_reviewed by (auto simp: heading_name_def list_all_iff dest!: find_Some_in)
  have "first_heading rows = Some n \<Longrightarrow> n \<in> set REVIEWED_PROMPTS" for rows n
    by (induction rows) (auto split: option.splits dest: heading)
  moreover assume "codex_blocking_modal content = Some name"
  ultimately show ?thesis
    using usage_limit_reviewed by (auto simp: codex_blocking_modal_def split: if_splits)
qed

lemma reviewed_prompt_gets_no_keys:
  "detect_and_respond content accepted = (Some name, keys) \<Longrightarrow> name \<in> set REVIEWED_PROMPTS \<Longrightarrow> keys = []"
  by (auto simp: detect_and_respond_def split: option.splits
      dest: first_match_Some(1) reviewed_handlers_have_no_keys)

lemma detect_agrees: "detect_prompt content = fst (detect_and_respond content [])"
  by (auto simp: detect_prompt_def detect_and_respond_def split: option.splits)

lemma respond_modal_reviewed: "name \<in> set REVIEWED_PROMPTS \<Longrightarrow> respond_modal name = (False, [])"
  by (simp add: respond_modal_def)

text \<open>Names are unique, so answering by name and answering by match send the same keys.\<close>

lemma PROMPT_HANDLERS_names: "distinct (map ph_name PROMPT_HANDLERS)"
  by code_simp

lemma find_by_name:
  "distinct (map f xs) \<Longrightarrow> x \<in> set xs \<Longrightarrow> find (\<lambda>y. f y = f x) xs = Some x"
  by (induction xs) (auto simp: image_iff)

lemma respond_modal_of_match:
  assumes "h \<in> set PROMPT_HANDLERS" and "ph_name h \<notin> set REVIEWED_PROMPTS"
  shows "respond_modal (ph_name h) = (True, ph_keys h)"
  using assms find_by_name [OF PROMPT_HANDLERS_names assms(1)] by (simp add: respond_modal_def)

lemma modal_keys_agree:
  assumes "detect_prompt content = Some name" and "codex_blocking_modal content = None"
  shows "snd (respond_modal name) = snd (detect_and_respond content [])"
proof -
  from assms obtain h where m: "first_match PROMPT_HANDLERS [] (recent_tail content) = Some h"
    and n: "name = ph_name h"
    by (auto simp: detect_prompt_def)
  note h = first_match_Some(1) [OF m]
  show ?thesis
  proof (cases "name \<in> set REVIEWED_PROMPTS")
    case True
    with n h m assms(2) show ?thesis
      by (simp add: respond_modal_reviewed detect_and_respond_def reviewed_handlers_have_no_keys)
  next
    case False
    with n h m assms(2) show ?thesis
      by (simp add: respond_modal_of_match detect_and_respond_def)
  qed
qed

text \<open>
  The question dialog is looked for before every handler that presses a key.
\<close>

lemma operator_question_in: "mk_handler ''operator-question'' detect_operator_question [] 0 \<in> set TMUX_PROMPT_HANDLERS"
  unfolding TMUX_PROMPT_HANDLERS_def by_priority_def set_sort by (simp only: list.set insert_iff simp_thms)

lemma tmux_priority_zero: "list_all (\<lambda>h. ph_priority h \<le> 0 \<longrightarrow> ph_keys h = []) TMUX_PROMPT_HANDLERS"
  by code_simp

lemma operator_question_not_answered:
  assumes "detect_operator_question content" and "''operator-question'' \<notin> set accepted"
  shows "snd (tmux_detect_and_respond content accepted) = []"
proof (cases "first_match TMUX_PROMPT_HANDLERS accepted content")
  case (Some h)
  from first_match_least [OF Some operator_question_in] assms
  have "ph_priority h \<le> 0" by (simp add: mk_handler_def)
  with first_match_Some(1) [OF Some] tmux_priority_zero have "ph_keys h = []"
    by (simp add: list_all_iff)
  with Some show ?thesis by (simp add: tmux_detect_and_respond_def split: option.splits)
qed (simp add: tmux_detect_and_respond_def split: option.splits)

end
