(* ===== verification/Auth_Banner.thy ===== *)
theory Auth_Banner
  imports Prompt_Handlers
begin

text \<open>
  The login banner above the prompt: \<open>_runners/_tmux/auth_status.py\<close>. A banner counts when it
  opens one of the last six rows of conversation above the last prompt row; an agent is stuck when
  two captures show the same banner at the same distance from the prompt.

  Two patterns of the module use \<open>\b\<close>, which needs Unicode's table of word characters. The table
  is a parameter \<open>word\<close> of the definitions.
\<close>

definition TAIL_LINES :: nat where
  "TAIL_LINES = 6"

definition MARKERS :: "int list" where
  "MARKERS = [32, 9, 0xA0, 0x23BF, 0x273B, 0x25CF, 0xB7, 0x2502, 0x2503, 0x2500, 0x23FA, 0x2514,
              0x256D, 0x3E, 0x276F, 0x27, 0x22, 0x60, 0x7C, 0x2A, 0x2D]"

definition AUTH_STARTS :: "string list" where
  "AUTH_STARTS =
     [''Not logged in'', ''Login expired'', ''Session expired'', ''Please run /login'',
      ''Please re-run /login'', ''Invalid API key'', ''Invalid authentication credentials'',
      ''OAuth token has expired'', ''OAuth token expired'', ''Authentication failed'',
      ''Credit balance is too low'']"

definition api_auth :: "(int \<Rightarrow> bool) \<Rightarrow> matcher" where
  "api_auth word =
     m_then (m_lit (u ''API Error:'')) (m_then (m_many t_space)
       (m_then (m_any_of [u ''401'', u ''403'']) (m_boundary word)))"

definition separator_row :: "utext \<Rightarrow> bool" where
  "separator_row s \<longleftrightarrow> s \<noteq> [] \<and> list_all (\<lambda>c. (0x2500 \<le> c \<and> c \<le> 0x257F) \<or> t_space c) s"

definition spaced_numbers :: "utext \<Rightarrow> utext \<Rightarrow> matcher" where
  "spaced_numbers a b =
     m_then (m_lit (u ''('')) (m_then (m_many t_space) (m_then (m_some t_digit) (m_then (m_lit a)
       (m_then (m_many t_space) (m_then (m_some t_digit) (m_lit b))))))"

definition volatile_patterns :: "(int \<Rightarrow> bool) \<Rightarrow> matcher list" where
  "volatile_patterns word =
     [m_then (m_any_of [u ''Usage'', u ''Context'']) (m_char t_space),
      m_then (m_lit (u ''ctx:'')) (m_then (m_many t_space) (m_then (m_some t_digit) (m_lit (u ''%'')))),
      m_then (m_boundary word) (m_then (m_some t_digit) (m_then (m_lit (u ''h:''))
        (m_then (m_many t_space) (m_then (m_some t_digit) (m_lit (u ''%'')))))),
      spaced_numbers (u ''h'') (u ''m''),
      spaced_numbers (u ''m'') (u ''s''),
      m_then (m_lit (u ''('')) (m_then (m_many t_space) (m_then (m_some t_digit)
        (m_then (m_lit (u ''s'')) (m_boundary word)))),
      m_then (m_boundary word) (m_then (m_lit (u ''for '')) (m_then (m_some t_digit)
        (m_then (m_lit (u ''s'')) (m_boundary word)))),
      m_lit (u ''esc to interrupt''),
      m_then (m_lit (u ''ctrl+'')) (m_char (\<lambda>c. 97 \<le> c \<and> c \<le> 122)),
      m_any_of [u ''Running scheduled task'', u ''tokens)'', u ''Tip:'', u ''bypass permissions'']]"

definition strip_markers :: "utext \<Rightarrow> utext" where
  "strip_markers line = t_rstrip (dropWhile (\<lambda>c. c \<in> set MARKERS) line)"

definition banner_kind :: "(int \<Rightarrow> bool) \<Rightarrow> utext \<Rightarrow> string option" where
  "banner_kind word line =
     (let s = strip_markers (normalize_tui_whitespace line) in
      case find (\<lambda>phrase. begins s (normalize_tui_whitespace (u phrase))) AUTH_STARTS of
        Some phrase \<Rightarrow> Some phrase
      | None \<Rightarrow> if m_match (api_auth word) s then Some ''API Error: 4xx'' else None)"

definition is_chrome :: "(int \<Rightarrow> bool) \<Rightarrow> utext \<Rightarrow> bool" where
  "is_chrome word line =
     (let s = t_strip line in
      s = [] \<or> separator_row s \<or> list_ex (\<lambda>r. m_search r line) (volatile_patterns word))"

record auth_probe =
  ap_prompt_found :: bool
  ap_present :: bool
  ap_distance :: "nat option"
  ap_banner :: "string option"

definition no_probe :: "bool \<Rightarrow> auth_probe" where
  "no_probe found = \<lparr>ap_prompt_found = found, ap_present = False, ap_distance = None, ap_banner = None\<rparr>"

text \<open>The rows of conversation above the prompt row, with their indices.\<close>

definition conversation :: "(int \<Rightarrow> bool) \<Rightarrow> nat \<Rightarrow> utext list \<Rightarrow> (nat \<times> utext) list" where
  "conversation word p rows = filter (\<lambda>(i, row). \<not> is_chrome word row) (enumerate 0 (take p rows))"

definition probe_pane :: "(int \<Rightarrow> bool) \<Rightarrow> utext \<Rightarrow> auth_probe" where
  "probe_pane word pane =
     (case prompt_line_index pane of
        None \<Rightarrow> no_probe False
      | Some p \<Rightarrow>
          (let convo = conversation word p (pane_rows pane) in
           case find (\<lambda>(i, row). banner_kind word row \<noteq> None) (rev (last_n TAIL_LINES convo)) of
             None \<Rightarrow> no_probe True
           | Some (k, row) \<Rightarrow>
               \<lparr>ap_prompt_found = True, ap_present = True,
                ap_distance = Some (length (filter (\<lambda>(j, _). k < j) convo)),
                ap_banner = banner_kind word row\<rparr>))"

text \<open>The state a probe leaves for the next one.\<close>

record probe_memory =
  pm_present :: bool
  pm_distance :: "nat option"
  pm_banner :: "string option"

definition probe_to_state :: "auth_probe \<Rightarrow> probe_memory" where
  "probe_to_state p = \<lparr>pm_present = ap_present p, pm_distance = ap_distance p, pm_banner = ap_banner p\<rparr>"

definition is_stuck :: "auth_probe \<Rightarrow> probe_memory option \<Rightarrow> bool" where
  "is_stuck p prev =
     (if \<not> ap_present p \<or> ap_distance p = None then False
      else
        (case prev of
           None \<Rightarrow> False
         | Some m \<Rightarrow> pm_present m \<and> pm_distance m = ap_distance p \<and> pm_banner m = ap_banner p))"

definition evaluate_pane :: "(int \<Rightarrow> bool) \<Rightarrow> utext option \<Rightarrow> probe_memory option \<Rightarrow> auth_probe \<times> bool" where
  "evaluate_pane word pane prev =
     (case pane of
        None \<Rightarrow> (no_probe False, False)
      | Some t \<Rightarrow> (probe_pane word t, is_stuck (probe_pane word t) prev))"

subsection \<open>What a probe rests on\<close>

lemma find_rev_last_n:
  assumes "find P (rev (last_n n xs)) = Some x"
  shows "x \<in> set xs" "P x" "length (filter (\<lambda>y. \<not> P y) (takeWhile (\<lambda>y. y \<noteq> x) (rev xs))) < n"
proof -
  have r: "rev (last_n n xs) = take n (rev xs)" by (simp add: last_n_def take_rev)
  from assms r have f: "find P (take n (rev xs)) = Some x" by simp
  from find_Some_in [OF f] show "P x" by simp
  from find_Some_in [OF f] show "x \<in> set xs" by (auto dest: in_set_takeD)
  have "find P (take n ys) = Some x \<Longrightarrow> length (takeWhile (\<lambda>y. y \<noteq> x) ys) < n" for ys
  proof (induction ys arbitrary: n)
    case (Cons y ys)
    show ?case
    proof (cases n)
      case 0
      with Cons.prems show ?thesis by simp
    next
      case (Suc m)
      with Cons.prems Cons.IH [of m] show ?thesis by (cases "P y") auto
    qed
  qed simp
  from this [OF f] show "length (filter (\<lambda>y. \<not> P y) (takeWhile (\<lambda>y. y \<noteq> x) (rev xs))) < n"
    by (meson length_filter_le order_le_less_trans)
qed

lemma probe_present:
  assumes "ap_present (probe_pane word pane)"
  obtains p i row where "prompt_line_index pane = Some p"
    and "(i, row) \<in> set (conversation word p (pane_rows pane))" and "banner_kind word row \<noteq> None"
    and "ap_banner (probe_pane word pane) = banner_kind word row"
    and "ap_distance (probe_pane word pane)
      = Some (length (filter (\<lambda>(j, _). i < j) (conversation word p (pane_rows pane))))"
proof -
  from assms obtain p where p: "prompt_line_index pane = Some p"
    by (auto simp: probe_pane_def no_probe_def split: option.splits)
  let ?c = "conversation word p (pane_rows pane)"
  from assms p obtain i row where f: "find (\<lambda>(i, row). banner_kind word row \<noteq> None) (rev (last_n TAIL_LINES ?c)) = Some (i, row)"
    by (auto simp: probe_pane_def no_probe_def Let_def split: option.splits)
  from find_rev_last_n(1,2) [OF f] p f show thesis
    by (intro that [of p i row]) (auto simp: probe_pane_def Let_def)
qed

lemma stuck_iff:
  "is_stuck p (Some m) \<longleftrightarrow>
     ap_present p \<and> ap_distance p \<noteq> None \<and> m = probe_to_state p"
  by (cases m) (auto simp: is_stuck_def probe_to_state_def)

end
