(* ===== verification/Delivery_Send.thy ===== *)
theory Delivery_Send
  imports Delivery Compose_Facts Auth_Banner
begin

text \<open>
  One send: the two strategies (\<open>_delivery/_sdk_strategy.py\<close>, \<open>_tui_strategy.py\<close>) and the
  entry that chooses between them (\<open>_deliver.py\<close>). A send through the agent's endpoint returns one
  answer; a send through its pane pastes the payload, watches for the token and submits. What the
  exchange library makes of a reply (\<open>StatusCode.from_dict\<close>, \<open>is_exchange_id\<close>) is part of the
  reply.
\<close>

subsection \<open>The answer of the agent's own endpoint\<close>

record status_code =
  sc_kind :: string
  sc_code :: int
  sc_final :: bool
  sc_message :: string

record send_result =
  sr_status :: string
  sr_error :: "string option"
  sr_status_code :: "status_code option"
  sr_exchange_id :: string
  sr_is_exchange_id :: bool
  sr_receipt :: "(string \<times> tri) option"
  sr_poll_hint :: "string option"

definition pending_exchange_detail :: "send_result \<Rightarrow> msg option" where
  "pending_exchange_detail r =
     (case sr_status_code r of
        None \<Rightarrow> None
      | Some st \<Rightarrow>
          if sc_kind st = ''http'' \<and> sc_code st = 202 \<and> \<not> sc_final st \<and> sr_is_exchange_id r
             \<and> sr_receipt r = Some (''pending'', No)
          then Some (Fmt ''exchange pending''
                 [Txt (sr_exchange_id r),
                  if truthy_opt (sr_poll_hint r) then Fmt ''poll with'' [opt_msg (sr_poll_hint r)]
                  else Fmt ''peer guidance'' [Txt (sc_message st)]])
          else None)"

definition default_sdk_send :: "py_error + send_result \<Rightarrow> tri \<times> msg" where
  "default_sdk_send reply =
     (case reply of
        Inl e \<Rightarrow> (Unknown, Fmt ''send_to_agent raised'' [error_msg e])
      | Inr r \<Rightarrow>
          if sr_status r = ''ok'' then (Yes, Fmt ''completed the turn'' [])
          else if sr_status r \<in> {''error'', ''creds-expired''}
          then (No, Fmt ''refused the turn''
                  [Txt (sr_status r), if truthy_opt (sr_error r) then opt_msg (sr_error r) else Txt ''no detail''])
          else if sr_status r = ''timeout'' then (Unknown, Fmt ''timed out waiting'' [])
          else
            (case pending_exchange_detail r of
               Some detail \<Rightarrow> (Unknown, detail)
             | None \<Rightarrow>
                 if sr_status r = ''dispatched'' then (Unknown, Fmt ''dispatched without delivering'' [])
                 else (Unknown, Fmt ''unrecognised status'' [Txt (sr_status r)])))"

definition deliver_via_sdk :: "delivery_env \<Rightarrow> utext \<Rightarrow> delivery_state \<Rightarrow> history \<Rightarrow> delivery_state \<times> history" where
  "deliver_via_sdk env payload st h =
     (let (ok, detail) = at_sdk env payload h;
          submission = Fmt (if ok = Yes then ''a completed turn proves submission''
                            else ''does not prove submission'') [detail]
      in (with_signal Payload_Submitted ok submission []
            (with_signal Payload_Delivered ok detail [(''send_detail'', Ev_Msg detail)] st),
          Sent_Sdk payload ok # h))"

subsection \<open>The capture tap\<close>

record capture_tap =
  ct_unreadable :: nat
  ct_readable :: nat
  ct_last_readable :: utext

definition new_tap :: capture_tap where
  "new_tap = \<lparr>ct_unreadable = 0, ct_readable = 0, ct_last_readable = []\<rparr>"

definition tap_read :: "utext option \<Rightarrow> capture_tap \<Rightarrow> capture_tap" where
  "tap_read pane tap =
     (case pane of
        None \<Rightarrow> tap\<lparr>ct_unreadable := Suc (ct_unreadable tap)\<rparr>
      | Some p \<Rightarrow> tap\<lparr>ct_readable := Suc (ct_readable tap), ct_last_readable := p\<rparr>)"

text \<open>The tap after the captures since a point \<open>h0\<close> of the history.\<close>

fun tap_of :: "history \<Rightarrow> capture_tap" where
  "tap_of [] = new_tap"
| "tap_of (e # h) = (case e of Captured p \<Rightarrow> tap_read p (tap_of h) | _ \<Rightarrow> tap_of h)"

definition since :: "history \<Rightarrow> history \<Rightarrow> history" where
  "since h0 h = take (length h - length h0) h"

subsection \<open>The pane before the send\<close>

definition observe_pane_before :: "(int \<Rightarrow> bool) \<Rightarrow> utext option \<Rightarrow> delivery_state \<Rightarrow> delivery_state" where
  "observe_pane_before word pane st =
     (case pane of
        None \<Rightarrow>
          with_signal Login_Banner_Before Unknown (Txt ''not read'') []
            (with_signal Target_Busy_Before Unknown (Txt ''not read'') []
              (with_signal Pane_Readable No (Txt ''pre-send capture failed'') [] st))
      | Some p \<Rightarrow>
          let banner = ap_present (fst (evaluate_pane word (Some p) None)) in
          with_signal Login_Banner_Before (Some banner)
            (Txt (if banner then ''uncorroborated auth banner'' else ''no auth banner'')) []
            (with_signal Target_Busy_Before (Some (pane_is_busy p))
              (Txt (if pane_is_busy p then ''busy'' else ''not busy'')) []
              (with_signal Pane_Readable Yes (Txt ''captured'') [(''pane_before'', Ev_Pane p)] st)))"

subsection \<open>Watching for the token\<close>

type_synonym arrival = "tri \<times> utext"

definition arrival_body ::
    "screen_env \<Rightarrow> string \<Rightarrow> time \<Rightarrow> time \<Rightarrow> utext \<times> history \<Rightarrow> ((bool \<times> utext) \<times> history) + (utext \<times> history)" where
  "arrival_body env token poll_s deadline s =
     (case s of (prev, h) \<Rightarrow>
        let (pane, h1) = capture env h;
            latest = (case pane of None \<Rightarrow> prev | Some p \<Rightarrow> p)
        in if pane_contains_token pane token = Yes then Inl ((True, latest), h1)
        else
          (let (t, h2) = clock env h1 in
           if deadline \<le> t then Inl ((False, latest), h2) else Inr (latest, nap poll_s h2)))"

text \<open>Its answer, what it says of it, and the last readable pane.\<close>

definition watch_for_arrival ::
    "nat \<Rightarrow> screen_env \<Rightarrow> string \<Rightarrow> time \<Rightarrow> time \<Rightarrow> history \<Rightarrow> ((tri \<times> msg \<times> utext) \<times> history) option" where
  "watch_for_arrival fuel env token timeout_s poll_s h0 =
     (let (t, h1) = clock env h0 in
      case run_loop fuel (arrival_body env token poll_s (t + timeout_s)) ([], h1) of
        None \<Rightarrow> None
      | Some ((found, latest), h) \<Rightarrow>
          let readable = ct_readable (tap_of (since h0 h)) in
          Some ((if found then (Yes, Fmt ''token found'' [Txt token], latest)
                 else if readable = 0 then (Unknown, Fmt ''pane never readable'' [Sec timeout_s], latest)
                 else (No, Fmt ''token did not appear'' [Txt token, Num (int readable), Sec timeout_s], latest)), h))"

subsection \<open>What the submit says\<close>

definition submission_signal :: "bool \<Rightarrow> nat \<Rightarrow> nat \<Rightarrow> nat \<Rightarrow> string \<Rightarrow> tri \<times> msg" where
  "submission_signal submitted readable_during blind_during max_resends session =
     (if readable_during = 0 then (Unknown, Fmt ''no readable capture'' [Num (int blind_during), Tri (Some submitted)])
      else if submitted then (Yes, Fmt ''the turn was submitted'' [])
      else if blind_during \<noteq> 0 then (Unknown, Fmt ''partly blind window'' [Num (int blind_during)])
      else (No, Fmt ''still sitting unsent'' [Num (int max_resends), Txt session]))"

record deliver_opts =
  dv_arrival_timeout_s :: time
  dv_idle_wait_s :: time
  dv_max_resends :: nat
  dv_poll_s :: time

definition default_deliver_opts :: deliver_opts where
  "default_deliver_opts =
     \<lparr>dv_arrival_timeout_s = 30, dv_idle_wait_s = 60, dv_max_resends = 8, dv_poll_s = 6 / 10\<rparr>"

text \<open>The options \<open>deliver_via_tui\<close> hands to the submit verifier; the rest are its defaults.\<close>

definition submit_opts_of :: "deliver_opts \<Rightarrow> string \<Rightarrow> submit_opts" where
  "submit_opts_of opts token =
     \<lparr>so_fragment = Some (u token), so_max_resends = dv_max_resends opts, so_poll_s = dv_poll_s opts,
      so_appear_timeout_s = 5, so_idle_wait_s = dv_idle_wait_s opts, so_escape_before_enter = True,
      so_escape_settle_s = 1, so_proof_stable_s = 1, so_require_proof = True\<rparr>"

definition deliver_via_tui ::
    "nat \<Rightarrow> delivery_env \<Rightarrow> (int \<Rightarrow> bool) \<Rightarrow> deliver_opts \<Rightarrow> route \<Rightarrow> utext \<Rightarrow> string \<Rightarrow> delivery_state \<Rightarrow> history
      \<Rightarrow> (delivery_state \<times> history) option" where
  "deliver_via_tui fuel env word opts rt payload token st h =
     (let scr = dl_screen env;
          (pane_before, h1) = capture scr h;
          st1 = observe_pane_before word pane_before st;
          h2 = paste payload h1
      in case watch_for_arrival fuel scr token (dv_arrival_timeout_s opts) (dv_poll_s opts) h2 of
        None \<Rightarrow> None
      | Some ((arrived, why, pane_after), h3) \<Rightarrow>
          let st2 = with_signal Payload_Delivered arrived why [(''pane_after_paste'', Ev_Pane pane_after)] st1;
              tap1 = tap_of (since h2 h3)
          in case verify_submit_by_advancement fuel scr (submit_opts_of opts token) h3 of
            None \<Rightarrow> None
          | Some (submitted, h4) \<Rightarrow>
              let tap2 = tap_of (since h2 h4);
                  (v, reason) = submission_signal submitted
                    (ct_readable tap2 - ct_readable tap1) (ct_unreadable tap2 - ct_unreadable tap1)
                    (dv_max_resends opts) (rt_session rt)
              in Some (with_signal Payload_Submitted v reason
                         [(''pane_after_submit'', Ev_Pane (ct_last_readable tap2))] st2, h4))"

subsection \<open>The send\<close>

definition no_attempt :: "delivery_state \<Rightarrow> delivery_state" where
  "no_attempt st =
     with_signal Payload_Submitted No (Txt ''nothing was transmitted'') []
       (with_signal Payload_Delivered No (Txt ''nothing was transmitted'') [] st)"

definition finish_delivery :: "delivery_env \<Rightarrow> time \<Rightarrow> delivery_state \<Rightarrow> history \<Rightarrow> delivery_state \<times> history" where
  "finish_delivery env started st h =
     (let (t, h1) = clock (dl_screen env) h in (st\<lparr>ds_elapsed := Some (t - started)\<rparr>, h1))"

definition OBSERVER :: string where
  "OBSERVER = ''sac agents deliver''"

definition deliver ::
    "nat \<Rightarrow> delivery_env \<Rightarrow> (int \<Rightarrow> bool) \<Rightarrow> deliver_opts \<Rightarrow> string \<Rightarrow> utext \<Rightarrow> string \<Rightarrow> history
      \<Rightarrow> (delivery_state result \<times> history) option" where
  "deliver fuel env word opts agent message strategy h =
     (let (started, h1) = clock (dl_screen env) h;
          token = at_token env h1;
          payload = format_payload message token;
          st = (fresh_state agent)
                 \<lparr>ds_token := token, ds_observed_at := Some (at_wall_clock env h1), ds_observer := OBSERVER\<rparr>
      in case resolve_route env agent strategy h1 of
        (Inl e, h2) \<Rightarrow> Some (Inl e, h2)
      | (Inr rt, h2) \<Rightarrow>
          let st1 = (with_signal Route_Resolved (rt_resolved rt) (rt_reason rt)
                       [(''tmux_sessions'', Ev_Msg (rt_sessions_raw rt))] st)\<lparr>ds_strategy := rt_strategy rt\<rparr>
          in if rt_resolved rt \<noteq> Yes then
               (let (st2, h3) = finish_delivery env started (no_attempt st1) h2 in Some (Inr st2, h3))
             else if rt_strategy rt = STRATEGY_SDK then
               (let (st2, h3) = deliver_via_sdk env payload st1 h2;
                    (st3, h4) = finish_delivery env started st2 h3
                in Some (Inr st3, h4))
             else
               (case deliver_via_tui fuel env word opts rt payload token st1 h2 of
                  None \<Rightarrow> None
                | Some (st2, h3) \<Rightarrow>
                    let (st3, h4) = finish_delivery env started st2 h3 in Some (Inr st3, h4)))"

end
