(* ===== verification/Delivery_Facts.thy ===== *)
theory Delivery_Facts
  imports Delivery_Send
begin

text \<open>
  What one send guarantees: it returns, it transmits the payload at most once, a delivered verdict
  rests on what was seen, and a screen nobody could read never counts against the target.
\<close>

subsection \<open>Calls that transmit nothing\<close>

fun is_send :: "event \<Rightarrow> bool" where
  "is_send (Pasted t) = True"
| "is_send (Sent_Sdk t ok) = True"
| "is_send _ = False"

definition sends :: "history \<Rightarrow> nat" where
  "sends h = length (filter is_send h)"

text \<open>\<open>quiet h h'\<close>: between \<open>h\<close> and \<open>h'\<close> the history only grew, and nothing was transmitted.\<close>

definition quiet :: "history \<Rightarrow> history \<Rightarrow> bool" where
  "quiet h h' \<longleftrightarrow> suffix h h' \<and> sends h' = sends h"

named_theorems quiets \<comment> \<open>calls that transmit nothing\<close>

lemma quiet_refl [quiets]: "quiet h h"
  by (simp add: quiet_def)

lemma quiet_trans: "quiet h h1 \<Longrightarrow> quiet h1 h2 \<Longrightarrow> quiet h h2"
  by (auto simp: quiet_def intro: suffix_order.trans)

lemma quiet_event: "\<not> is_send e \<Longrightarrow> quiet h h1 \<Longrightarrow> quiet h (e # h1)"
  by (auto simp: quiet_def sends_def suffix_Cons)

lemma quiet_calls [quiets]:
  "quiet h h1 \<Longrightarrow> quiet h (ticked env h1)" "quiet h h1 \<Longrightarrow> quiet h (looked env h1)"
  "quiet h h1 \<Longrightarrow> quiet h (snd (capture env h1))" "quiet h h1 \<Longrightarrow> quiet h (press k h1)"
  "quiet h h1 \<Longrightarrow> quiet h (sleep d h1)" "quiet h h1 \<Longrightarrow> quiet h (nap d h1)"
  by (simp_all add: clock_def look_def capture_def press_def sleep_def nap_def quiet_event)

lemma quiet_loop:
  assumes "run_loop n body s = Some r" and "quiet h (hist s)"
    and "\<And>s s'. quiet h (hist s) \<Longrightarrow> body s = Inr s' \<Longrightarrow> quiet h (hist s')"
    and "\<And>s r. quiet h (hist s) \<Longrightarrow> body s = Inl r \<Longrightarrow> quiet h (snd r)"
  shows "quiet h (snd r)"
  using run_loop_invariant [OF assms(1), where P = "\<lambda>s. quiet h (hist s)" and Q = "\<lambda>r. quiet h (snd r)"] assms(2-4)
  by blast

lemma appear_quiet: "run_loop n (appear_body env opts d) s = Some r \<Longrightarrow> quiet (snd s) (snd r)"
  by (rule quiet_loop [where hist = snd]) (auto simp: appear_body_eq Let_def quiets split: if_splits)

lemma idle_quiet: "run_loop n (idle_body env opts d) h = Some r \<Longrightarrow> quiet h (snd r)"
  by (rule quiet_loop [where hist = "\<lambda>h. h"]) (auto simp: idle_body_eq Let_def quiets split: if_splits)

lemma proof_quiet: "run_loop n (proof_body env opts d pb) s = Some r \<Longrightarrow> quiet (snd (snd s)) (snd r)"
  by (rule quiet_loop [where hist = "\<lambda>s. snd (snd s)"]) (auto simp: proof_body_eq Let_def quiets split: if_splits)

lemma escape_quiet: "quiet h (snd (escape_step env opts pane h))"
  by (auto simp: escape_step_def Let_def split_beta quiets)

lemma attempt_quiet:
  assumes "attempt_submit fuel env opts i h = Some (q, h')"
  shows "quiet h h'"
proof -
  let ?idle = "idle_body env opts (at_clock env h + so_idle_wait_s opts)"
  obtain r h2 where r: "run_loop fuel ?idle (ticked env h) = Some (r, h2)"
    using assms by (auto simp: attempt_submit_def split_beta split: option.splits)
  have h2: "quiet h h2" using idle_quiet [OF r] quiet_calls(1) [OF quiet_refl] quiet_trans by fastforce
  show ?thesis
  proof (cases r)
    case (Idle_Pane pane)
    obtain pb h3 where e: "escape_step env opts pane h2 = (pb, h3)" by (cases "escape_step env opts pane h2")
    have h3: "quiet h h3" using escape_quiet [of h2 env opts pane] h2 quiet_trans e by fastforce
    show ?thesis
    proof (cases pb)
      case None
      with assms r Idle_Pane e h3 show ?thesis by (simp add: attempt_submit_def split_beta)
    next
      case (Some p)
      with assms r Idle_Pane e
      have "run_loop fuel (proof_body env opts (at_clock env (press ''Enter'' h3) + proof_window opts i) p)
          (None, 0, ticked env (press ''Enter'' h3)) = Some (q, h')"
        by (simp add: attempt_submit_def split_beta)
      from proof_quiet [OF this] have "quiet (ticked env (press ''Enter'' h3)) h'" by simp
      moreover have "quiet h (ticked env (press ''Enter'' h3))" using h3 by (intro quiets)
      ultimately show ?thesis by (rule quiet_trans [rotated])
    qed
  qed (use assms r h2 in \<open>auto simp: attempt_submit_def split_beta\<close>)
qed

lemma attempts_quiet: "attempts_submit fuel env opts ns h = Some (b, h') \<Longrightarrow> quiet h h'"
proof (induction ns arbitrary: h)
  case (Cons i ns)
  then obtain q h1 where a: "attempt_submit fuel env opts i h = Some (q, h1)"
    by (auto split: option.splits)
  with Cons attempt_quiet [OF a] show ?case
    by (cases q) (auto intro: quiet_trans)
qed (auto simp: quiets)

lemma verify_submit_quiet:
  assumes "verify_submit_by_advancement fuel env opts h = Some (b, h')"
  shows "quiet h h'"
proof -
  obtain q h2 where r: "run_loop fuel (appear_body env opts (at_clock env h + so_appear_timeout_s opts)) ([], ticked env h) = Some (q, h2)"
    using assms by (auto simp: verify_submit_by_advancement_def split_beta split: option.splits)
  have "quiet (ticked env h) h2" using appear_quiet [OF r] by simp
  then have h2: "quiet h h2" using quiet_calls(1) [OF quiet_refl] quiet_trans by blast
  show ?thesis
  proof (cases q)
    case App_Pending
    with assms r have "attempts_submit fuel env opts [0..<so_max_resends opts] h2 = Some (b, h')"
      by (simp add: verify_submit_by_advancement_def split_beta)
    from attempts_quiet [OF this] h2 show ?thesis by (rule quiet_trans [rotated])
  qed (use assms r h2 in \<open>auto simp: verify_submit_by_advancement_def split_beta\<close>)
qed

subsection \<open>Watching for the token\<close>

lemma arrival_body_eq:
  "arrival_body env token p d (prev, h) =
     (let pane = at_capture env h; h1 = snd (capture env h);
          latest = (case pane of None \<Rightarrow> prev | Some p \<Rightarrow> p)
      in if pane_contains_token pane token = Yes then Inl ((True, latest), h1)
      else if d \<le> at_clock env h1 then Inl ((False, latest), ticked env h1)
      else Inr (latest, nap p (ticked env h1)))"
  by (simp add: arrival_body_def Let_def split_beta capture_def cong: option.case_cong)

lemma arrival_body_Inr:
  assumes "clock_runs env" and "0 < p" and "arrival_body env token p d s = Inr s'"
  shows "at_clock env (snd s) < d" "at_clock env (snd s) + p \<le> at_clock env (snd s')"
proof -
  obtain prev h where s: "s = (prev, h)" by (cases s)
  let ?h1 = "snd (capture env h)"
  note t = ticking_steps [OF assms(1)]
  from assms(3) have d: "at_clock env ?h1 < d" and s': "snd s' = nap p (ticked env ?h1)"
    by (auto simp: s arrival_body_eq Let_def split: if_splits)
  have h1: "at_clock env h \<le> at_clock env ?h1" and h2: "at_clock env ?h1 \<le> at_clock env (ticked env ?h1)"
    by (rule t)+
  have h3: "at_clock env (ticked env ?h1) + p \<le> at_clock env (nap p (ticked env ?h1))"
    by (rule t) (rule assms(2))
  show "at_clock env (snd s) < d" using d h1 by (simp add: s)
  show "at_clock env (snd s) + p \<le> at_clock env (snd s')" using h1 h2 h3 by (simp add: s s')
qed

interpretation arrival: deadline_loop "\<lambda>_. clock_runs env \<and> 0 < p" "arrival_body env token p d"
    "\<lambda>s. at_clock env (snd s)" d p
  for env token p d
proof
  show "\<And>s s'. clock_runs env \<and> 0 < p \<Longrightarrow> arrival_body env token p d s = Inr s' \<Longrightarrow>
      (clock_runs env \<and> 0 < p) \<and> at_clock env (snd s) + p \<le> at_clock env (snd s')"
    using arrival_body_Inr(2) by blast
  show "\<And>s s'. clock_runs env \<and> 0 < p \<Longrightarrow> d \<le> at_clock env (snd s) \<Longrightarrow> arrival_body env token p d s \<noteq> Inr s'"
    using arrival_body_Inr(1) by (metis not_le)
qed simp

lemma watch_ends:
  assumes "clock_runs env" and "0 < p" and "rounds w p \<le> fuel"
  shows "\<exists>r. watch_for_arrival fuel env token w p h = Some r"
proof -
  let ?body = "arrival_body env token p (at_clock env h + w)"
  have "\<exists>r. run_loop fuel ?body ([], ticked env h) = Some r"
  proof (rule wait_ends [OF assms, where h = h])
    show "(at_clock env h + w - at_clock env (ticked env h)) / p \<le> of_nat n \<Longrightarrow>
        \<exists>r. run_loop (Suc n) ?body ([], ticked env h) = Some r" for n
      by (rule arrival.ends) (use assms in simp_all)
  qed
  then obtain q where "run_loop fuel ?body ([], ticked env h) = Some q" by blast
  then show ?thesis by (cases q) (simp add: watch_for_arrival_def Let_def split_beta del: split_paired_Ex)
qed

lemma watch_run:
  assumes "watch_for_arrival fuel env token w p h = Some ((v, why, pane), h')"
  obtains found where "run_loop fuel (arrival_body env token p (at_clock env h + w)) ([], ticked env h) = Some ((found, pane), h')"
    and "found \<longleftrightarrow> v = Yes" and "v = No \<Longrightarrow> ct_readable (tap_of (since h h')) \<noteq> 0"
    and "\<not> found \<Longrightarrow> ct_readable (tap_of (since h h')) = 0 \<Longrightarrow> v = Unknown"
  using assms
  by (auto simp: watch_for_arrival_def Let_def split_beta split: option.splits if_splits)

lemma watch_quiet:
  assumes "watch_for_arrival fuel env token w p h = Some ((v, why, pane), h')"
  shows "quiet h h'"
proof -
  obtain found where run: "run_loop fuel (arrival_body env token p (at_clock env h + w)) ([], ticked env h) = Some ((found, pane), h')"
    using watch_run [OF assms] by blast
  have "quiet (snd ([] :: utext, ticked env h)) (snd ((found, pane), h'))"
    by (rule quiet_loop [OF run, where hist = snd])
      (auto simp: arrival_body_eq Let_def quiets split: if_splits)
  then show ?thesis using quiet_calls(1) [OF quiet_refl] quiet_trans by fastforce
qed

text \<open>The token was on a capture taken while watching.\<close>

lemma watch_saw_token:
  assumes "watch_for_arrival fuel env token w p h = Some ((Yes, why, pane), h')"
  shows "\<exists>p h1. h' = Captured (Some p) # h1 \<and> quiet h h1 \<and> pane_contains_token (Some p) token = Yes"
proof -
  obtain found where run: "run_loop fuel (arrival_body env token p (at_clock env h + w)) ([], ticked env h) = Some ((found, pane), h')"
    and f: "found" using watch_run [OF assms] by blast
  have "fst (fst ((found, pane), h')) \<longrightarrow>
      (\<exists>p h1. snd ((found, pane), h') = Captured (Some p) # h1 \<and> quiet h h1 \<and> pane_contains_token (Some p) token = Yes)"
  proof (rule run_loop_invariant [OF run, where P = "\<lambda>s. quiet h (snd s)"])
    show "quiet h (snd ([], ticked env h))" by (simp add: quiets)
    show "quiet h (snd s) \<Longrightarrow> arrival_body env token p (at_clock env h + w) s = Inr s' \<Longrightarrow> quiet h (snd s')" for s s'
      by (cases s) (auto simp: arrival_body_eq Let_def quiets split: if_splits)
    show "quiet h (snd s) \<Longrightarrow> arrival_body env token p (at_clock env h + w) s = Inl r \<Longrightarrow>
        fst (fst r) \<longrightarrow> (\<exists>p h1. snd r = Captured (Some p) # h1 \<and> quiet h h1 \<and> pane_contains_token (Some p) token = Yes)" for s r
    proof (cases s)
      case (Pair prev h0)
      assume "quiet h (snd s)" and "arrival_body env token p (at_clock env h + w) s = Inl r"
      then show ?thesis
        by (cases "at_capture env h0")
          (auto simp: Pair arrival_body_eq Let_def capture_def pane_contains_token_def split: if_splits)
    qed
  qed
  with f show ?thesis by simp
qed

subsection \<open>Through the pane\<close>

declare signal_of.simps [simp del]

lemma submission_signal_cases:
  "fst (submission_signal sub r b m session) =
     (if r = 0 then Unknown else if sub then Yes else if b \<noteq> 0 then Unknown else No)"
  by (simp add: submission_signal_def)

lemma observe_signals:
  "signal_of (observe_pane_before word pane st) s = signal_of st s"
  if "s \<in> {Route_Resolved, Payload_Delivered, Payload_Submitted}"
  using that by (auto simp: observe_pane_before_def Let_def split: option.splits)

lemma observe_strategy: "ds_strategy (observe_pane_before word pane st) = ds_strategy st"
  by (auto simp: observe_pane_before_def Let_def split: option.splits)

text \<open>The history when the payload has been pasted.\<close>

definition pasted_at :: "screen_env \<Rightarrow> utext \<Rightarrow> history \<Rightarrow> history" where
  "pasted_at env payload h = Pasted payload # Captured (at_capture env h) # h"

lemma deliver_via_tui_run:
  assumes "deliver_via_tui fuel env word opts rt payload token st h = Some (st', h')"
  obtains v why pane_after h3 sub where
    "watch_for_arrival fuel (dl_screen env) token (dv_arrival_timeout_s opts) (dv_poll_s opts)
       (pasted_at (dl_screen env) payload h) = Some ((v, why, pane_after), h3)"
    and "verify_submit_by_advancement fuel (dl_screen env) (submit_opts_of opts token) h3 = Some (sub, h')"
    and "signal_of st' Payload_Delivered = v"
    and "signal_of st' Payload_Submitted = Yes \<Longrightarrow> sub"
    and "signal_of st' Route_Resolved = signal_of st Route_Resolved" and "ds_strategy st' = ds_strategy st"
proof -
  let ?h2 = "pasted_at (dl_screen env) payload h"
  have h2: "paste payload (snd (capture (dl_screen env) h)) = ?h2"
    by (simp add: pasted_at_def paste_def capture_def)
  from assms h2 obtain v why pane_after h3
    where w: "watch_for_arrival fuel (dl_screen env) token (dv_arrival_timeout_s opts) (dv_poll_s opts) ?h2
      = Some ((v, why, pane_after), h3)"
    by (auto simp: deliver_via_tui_def Let_def split_beta split: option.splits)
  with assms h2 obtain sub h4
    where ver: "verify_submit_by_advancement fuel (dl_screen env) (submit_opts_of opts token) h3 = Some (sub, h4)"
    by (auto simp: deliver_via_tui_def Let_def split_beta split: option.splits)
  let ?sig = "submission_signal sub
      (ct_readable (tap_of (since ?h2 h4)) - ct_readable (tap_of (since ?h2 h3)))
      (ct_unreadable (tap_of (since ?h2 h4)) - ct_unreadable (tap_of (since ?h2 h3)))
      (dv_max_resends opts) (rt_session rt)"
  from assms h2 w ver have st': "st' = with_signal Payload_Submitted (fst ?sig) (snd ?sig)
      [(''pane_after_submit'', Ev_Pane (ct_last_readable (tap_of (since ?h2 h4))))]
      (with_signal Payload_Delivered v why [(''pane_after_paste'', Ev_Pane pane_after)]
        (observe_pane_before word (fst (capture (dl_screen env) h)) st))" and h': "h' = h4"
    by (auto simp: deliver_via_tui_def Let_def split_beta)
  have "signal_of st' Payload_Submitted = fst ?sig" by (simp add: st')
  then have sub: "signal_of st' Payload_Submitted = Yes \<Longrightarrow> sub"
    by (auto simp: submission_signal_cases split: if_splits)
  show thesis
  proof (rule that [OF w ver [folded h']])
    show "signal_of st' Payload_Delivered = v" by (simp add: st')
    show "signal_of st' Payload_Submitted = Yes \<Longrightarrow> sub" by (rule sub)
    show "signal_of st' Route_Resolved = signal_of st Route_Resolved" by (simp add: st' observe_signals)
    show "ds_strategy st' = ds_strategy st" by (simp add: st' observe_strategy)
  qed
qed

text \<open>What a delivered verdict rests on when the send went through the pane.\<close>

definition saw_token :: "string \<Rightarrow> utext \<Rightarrow> history \<Rightarrow> bool" where
  "saw_token token payload h \<longleftrightarrow>
     (\<exists>later earlier p. h = later @ Captured (Some p) # earlier \<and> Pasted payload \<in> set earlier
        \<and> pane_contains_token (Some p) token = Yes)"

lemma saw_token_later: "saw_token token payload h \<Longrightarrow> suffix h h' \<Longrightarrow> saw_token token payload h'"
  unfolding saw_token_def by (metis append.assoc suffix_def)

text \<open>A pane nobody could read.\<close>

lemma blind_tap:
  assumes "\<And>h. at_capture env h = None" and "run_loop n (arrival_body env token p d) (prev, h1) = Some ((found, pane), h')"
    and "suffix h0 h1" and "ct_readable (tap_of (since h0 h1)) = 0"
  shows "\<not> found \<and> suffix h0 h' \<and> ct_readable (tap_of (since h0 h')) = 0"
proof -
  have cons: "suffix h0 h \<Longrightarrow> since h0 (e # h) = e # since h0 h" for e h
    by (auto simp: since_def suffix_def Suc_diff_le)
  let ?P = "\<lambda>h. suffix h0 h \<and> ct_readable (tap_of (since h0 h)) = 0"
  have step: "?P h \<Longrightarrow> (\<forall>q. e \<noteq> Captured (Some q)) \<Longrightarrow> ?P (e # h)" for e h
    by (cases e) (auto simp: cons suffix_Cons tap_read_def split: option.splits)
  have calls: "?P (snd (capture env h))" "?P (ticked env h)" "?P (nap q h)" if "?P h" for h q
    using step [OF that] that assms(1) by (auto simp: capture_def clock_def nap_def sleep_def)
  have "\<not> fst (fst ((found, pane), h')) \<and> ?P (snd ((found, pane), h'))"
    by (rule run_loop_invariant [OF assms(2), where P = "\<lambda>s. ?P (snd s)"])
      (use assms(3,4) calls assms(1) in \<open>auto simp: arrival_body_eq Let_def pane_contains_token_def split: if_splits\<close>)
  then show ?thesis by simp
qed

lemma blind_arrival:
  assumes "\<And>h. at_capture env h = None" and "watch_for_arrival fuel env token w p h = Some ((v, why, pane), h')"
  shows "v = Unknown"
proof -
  obtain found where run: "run_loop fuel (arrival_body env token p (at_clock env h + w)) ([], ticked env h) = Some ((found, pane), h')"
    and u: "\<not> found \<Longrightarrow> ct_readable (tap_of (since h h')) = 0 \<Longrightarrow> v = Unknown"
    using watch_run [OF assms(2)] by metis
  have "suffix h (ticked env h)" "ct_readable (tap_of (since h (ticked env h))) = 0"
    by (simp_all add: clock_def suffix_Cons since_def new_tap_def)
  from blind_tap [OF assms(1) run this] u show ?thesis by blast
qed

lemma deliver_via_tui_facts:
  assumes "deliver_via_tui fuel env word opts rt payload token st h = Some (st', h')"
  shows "sends h' = Suc (sends h)" "suffix h h'"
    "signal_of st' Payload_Delivered = Yes \<Longrightarrow> saw_token token payload h'"
    "signal_of st' Payload_Submitted = Yes \<Longrightarrow> submit_evidence (submit_opts_of opts token) h'"
    "signal_of st' Route_Resolved = signal_of st Route_Resolved" "ds_strategy st' = ds_strategy st"
    "(\<And>h. at_capture (dl_screen env) h = None) \<Longrightarrow> signal_of st' Payload_Delivered = Unknown"
proof -
  let ?h2 = "pasted_at (dl_screen env) payload h"
  obtain v why pane_after h3 sub where
    w: "watch_for_arrival fuel (dl_screen env) token (dv_arrival_timeout_s opts) (dv_poll_s opts) ?h2
        = Some ((v, why, pane_after), h3)"
    and ver: "verify_submit_by_advancement fuel (dl_screen env) (submit_opts_of opts token) h3 = Some (sub, h')"
    and v: "signal_of st' Payload_Delivered = v" and sub: "signal_of st' Payload_Submitted = Yes \<Longrightarrow> sub"
    and rest: "signal_of st' Route_Resolved = signal_of st Route_Resolved" "ds_strategy st' = ds_strategy st"
    using deliver_via_tui_run [OF assms] by blast
  show "signal_of st' Route_Resolved = signal_of st Route_Resolved" "ds_strategy st' = ds_strategy st"
    by (rule rest)+
  show "signal_of st' Payload_Delivered = Unknown" if "\<And>h. at_capture (dl_screen env) h = None"
    using blind_arrival [OF that w] v by simp
  have q: "quiet ?h2 h'" using watch_quiet [OF w] verify_submit_quiet [OF ver] by (rule quiet_trans)
  then show "sends h' = Suc (sends h)" by (simp add: quiet_def sends_def pasted_at_def)
  have "suffix h ?h2" by (simp add: pasted_at_def suffix_Cons)
  with q show "suffix h h'" unfolding quiet_def using suffix_order.trans by blast
  show "saw_token token payload h'" if "signal_of st' Payload_Delivered = Yes"
  proof -
    from that v w obtain p h1 where h3: "h3 = Captured (Some p) # h1" "quiet ?h2 h1"
      and p: "pane_contains_token (Some p) token = Yes"
      using watch_saw_token by metis
    have "Pasted payload \<in> set h1" using h3(2) by (auto simp: quiet_def pasted_at_def suffix_def)
    then have "saw_token token payload h3" using h3(1) p unfolding saw_token_def by (metis append_Nil)
    with verify_submit_quiet [OF ver] show ?thesis unfolding quiet_def by (blast intro: saw_token_later)
  qed
  show "submit_evidence (submit_opts_of opts token) h'" if "signal_of st' Payload_Submitted = Yes"
    using verify_submit_evidence [of fuel "dl_screen env" "submit_opts_of opts token" h3 h'] ver sub [OF that]
    by (simp add: submit_opts_of_def)
qed

subsection \<open>A send\<close>

lemma resolve_route_history:
  "sends (snd (resolve_route env agent strategy h)) = sends h" "suffix h (snd (resolve_route env agent strategy h))"
  by (auto simp: resolve_route_def ask_session_id_def ask_sessions_def Let_def sends_def suffix_Cons)

lemma resolve_route_sdk:
  assumes "fst (resolve_route env agent strategy h) = Inr rt" and "rt_strategy rt = STRATEGY_SDK"
  shows "strategy \<in> {''auto'', STRATEGY_SDK}" "rt_resolved rt \<noteq> Unknown"
proof -
  have tui: "tui_route agent ss \<noteq> Inr rt" for ss
    using assms(2) by (auto simp: tui_route_def bind_result_Inr_iff mk_route_def Let_def STRATEGY_SDK_def
        STRATEGY_TUI_def split: option.splits list.splits if_splits)
  with assms show "strategy \<in> {''auto'', STRATEGY_SDK}" "rt_resolved rt \<noteq> Unknown"
    by (auto simp: resolve_route_def ask_session_id_def ask_sessions_def Let_def mk_route_def split: if_splits)
qed

text \<open>The three ways a send goes: not at all, through the endpoint, through the pane.\<close>

lemma deliver_cases:
  assumes "deliver fuel env word opts agent message strategy h = Some (Inr st, h')"
  obtains (no_route) "ds_route_resolved st \<noteq> Yes" "ds_payload_delivered st = No" "ds_payload_submitted st = No"
      "sends h' = sends h"
    | (sdk) ok detail h2 where "ds_route_resolved st = Yes" "ds_strategy st = STRATEGY_SDK"
      "ds_payload_delivered st = ok" "ds_payload_submitted st = ok"
      "at_sdk env (format_payload message (at_token env (ticked (dl_screen env) h))) h2 = (ok, detail)"
      "sends h' = Suc (sends h)"
    | (tui) "ds_route_resolved st = Yes" "sends h' = Suc (sends h)" "ds_strategy st \<noteq> STRATEGY_SDK"
      "ds_payload_delivered st = Yes \<Longrightarrow>
         saw_token (at_token env (ticked (dl_screen env) h))
           (format_payload message (at_token env (ticked (dl_screen env) h))) h'"
      "ds_payload_submitted st = Yes \<Longrightarrow>
         submit_evidence (submit_opts_of opts (at_token env (ticked (dl_screen env) h))) h'"
      "(\<And>h. at_capture (dl_screen env) h = None) \<Longrightarrow> ds_payload_delivered st = Unknown"
proof -
  let ?h1 = "ticked (dl_screen env) h"
  let ?token = "at_token env ?h1"
  let ?payload = "format_payload message ?token"
  obtain q h2 where rr: "resolve_route env agent strategy ?h1 = (q, h2)" by fastforce
  from assms rr obtain rt where q: "q = Inr rt"
    by (cases q) (auto simp: deliver_def Let_def split_beta)
  have h2: "sends h2 = sends h" "suffix h h2"
  proof -
    have "quiet h ?h1" by (simp add: quiets)
    then show "sends h2 = sends h" "suffix h h2"
      using resolve_route_history [where env = env and agent = agent and strategy = strategy and h = ?h1] rr suffix_order.trans
      by (auto simp: quiet_def)
  qed
  let ?st1 = "(with_signal Route_Resolved (rt_resolved rt) (rt_reason rt)
      [(''tmux_sessions'', Ev_Msg (rt_sessions_raw rt))]
      ((fresh_state agent)\<lparr>ds_token := ?token, ds_observed_at := Some (at_wall_clock env ?h1), ds_observer := OBSERVER\<rparr>))
      \<lparr>ds_strategy := rt_strategy rt\<rparr>"
  have fields: "ds_route_resolved x = signal_of x Route_Resolved" "ds_payload_delivered x = signal_of x Payload_Delivered"
    "ds_payload_submitted x = signal_of x Payload_Submitted" for x by (simp_all add: signal_of.simps)
  have st1: "signal_of ?st1 Route_Resolved = rt_resolved rt" "ds_strategy ?st1 = rt_strategy rt" by simp_all
  have last: "sends (ticked (dl_screen env) h3) = sends h3" "suffix h3 (ticked (dl_screen env) h3)" for h3
  proof -
    have "quiet h3 (ticked (dl_screen env) h3)" by (simp add: quiets)
    then show "sends (ticked (dl_screen env) h3) = sends h3" "suffix h3 (ticked (dl_screen env) h3)"
      by (auto simp: quiet_def)
  qed
  show thesis
  proof (cases "rt_resolved rt = Yes")
    case False
    with assms rr q have "st = (no_attempt ?st1)\<lparr>ds_elapsed := ds_elapsed st\<rparr>" "h' = ticked (dl_screen env) h2"
      by (auto simp: deliver_def Let_def split_beta finish_delivery_def)
    moreover have "signal_of (no_attempt ?st1) Route_Resolved = rt_resolved rt"
      "signal_of (no_attempt ?st1) Payload_Delivered = No" "signal_of (no_attempt ?st1) Payload_Submitted = No"
      using st1 by (simp_all add: no_attempt_def)
    moreover have "signal_of st s = signal_of (no_attempt ?st1) s" for s
      using arg_cong [OF calculation(1), of "\<lambda>x. signal_of x s"] by simp
    ultimately show thesis
      using False h2 last by (intro no_route) (simp_all add: fields)
  next
    case True
    show thesis
    proof (cases "rt_strategy rt = STRATEGY_SDK")
      case sdk_route: True
      obtain ok detail where a: "at_sdk env ?payload h2 = (ok, detail)" by fastforce
      let ?st2 = "fst (deliver_via_sdk env ?payload ?st1 h2)"
      have st: "st = ?st2\<lparr>ds_elapsed := ds_elapsed st\<rparr>" and h': "h' = ticked (dl_screen env) (Sent_Sdk ?payload ok # h2)"
        using assms rr q True sdk_route a
        by (auto simp: deliver_def Let_def split_beta finish_delivery_def deliver_via_sdk_def)
      have st2: "signal_of ?st2 Route_Resolved = Yes" "signal_of ?st2 Payload_Delivered = ok"
        "signal_of ?st2 Payload_Submitted = ok" "ds_strategy ?st2 = STRATEGY_SDK"
        using True sdk_route a st1 by (simp_all add: deliver_via_sdk_def)
      have "ds_strategy st = ds_strategy ?st2" using arg_cong [OF st, of ds_strategy] by simp
      moreover have "sends h' = Suc (sends h)" using h2 last by (simp add: h') (simp add: sends_def)
      moreover have "signal_of st s = signal_of ?st2 s" for s
        using arg_cong [OF st, of "\<lambda>x. signal_of x s"] by simp
      ultimately show thesis using st2
        by (intro sdk [OF _ _ _ _ a]) (simp_all add: fields)
    next
      case False
      let ?tui = "deliver_via_tui fuel env word opts rt ?payload ?token ?st1 h2"
      from assms rr q True False obtain st2 h3 where t: "?tui = Some (st2, h3)"
        by (auto simp: deliver_def Let_def split_beta split: option.splits)
      with assms rr q True False have st: "st = st2\<lparr>ds_elapsed := ds_elapsed st\<rparr>" and h': "h' = ticked (dl_screen env) h3"
        by (auto simp: deliver_def Let_def split_beta finish_delivery_def)
      note f = deliver_via_tui_facts [OF t]
      have sig: "signal_of st s = signal_of st2 s" for s
        using arg_cong [OF st, of "\<lambda>x. signal_of x s"] by simp
      have "ds_strategy st = ds_strategy st2" using arg_cong [OF st, of ds_strategy] by simp
      then have strategy: "ds_strategy st \<noteq> STRATEGY_SDK" using f(6) st1(2) False by simp
      have evidence: "submit_evidence o1 (ticked (dl_screen env) h3) = submit_evidence o1 h3" for o1
        by (simp add: submit_evidence_def)
      show thesis
        by (rule tui) (use f h2 last strategy sig fields st1 True h' saw_token_later evidence in auto)
    qed
  qed
qed

subsection \<open>A send returns\<close>

definition deliver_fuel :: "deliver_opts \<Rightarrow> nat" where
  "deliver_fuel opts =
     max (rounds (dv_arrival_timeout_s opts) (dv_poll_s opts)) (submit_fuel (submit_opts_of opts []))"

lemma submit_fuel_token: "submit_fuel (submit_opts_of opts token) = submit_fuel (submit_opts_of opts [])"
  by (simp add: submit_fuel_def submit_opts_of_def proof_window_def settle_time_of_def)

lemma deliver_via_tui_ends:
  assumes "clock_runs (dl_screen env)" and "0 < dv_poll_s opts" and "deliver_fuel opts \<le> fuel"
  shows "\<exists>r. deliver_via_tui fuel env word opts rt payload token st h = Some r"
proof -
  let ?scr = "dl_screen env"
  let ?h2 = "paste payload (snd (capture ?scr h))"
  have fuel: "rounds (dv_arrival_timeout_s opts) (dv_poll_s opts) \<le> fuel"
    "submit_fuel (submit_opts_of opts token) \<le> fuel"
    using assms(3) submit_fuel_token [of opts token] by (auto simp: deliver_fuel_def)
  have "\<exists>q. watch_for_arrival fuel ?scr token (dv_arrival_timeout_s opts) (dv_poll_s opts) ?h2 = Some q"
    using watch_ends [OF assms(1,2) fuel(1)] by blast
  then obtain v why pane h3 where w: "watch_for_arrival fuel ?scr token (dv_arrival_timeout_s opts) (dv_poll_s opts) ?h2
      = Some ((v, why, pane), h3)" by (metis surj_pair)
  have "\<exists>q. verify_submit_by_advancement fuel ?scr (submit_opts_of opts token) h3 = Some q"
    by (rule verify_submit_ends) (use assms fuel(2) in \<open>simp_all add: submit_opts_of_def\<close>)
  then obtain sub h4 where "verify_submit_by_advancement fuel ?scr (submit_opts_of opts token) h3 = Some (sub, h4)"
    by (metis surj_pair)
  with w show ?thesis by (simp add: deliver_via_tui_def Let_def split_beta del: split_paired_Ex)
qed

lemma deliver_ends:
  assumes "clock_runs (dl_screen env)" and "0 < dv_poll_s opts" and "deliver_fuel opts \<le> fuel"
  shows "\<exists>r. deliver fuel env word opts agent message strategy h = Some r"
proof -
  let ?token = "at_token env (ticked (dl_screen env) h)"
  obtain q h2 where rr: "resolve_route env agent strategy (ticked (dl_screen env) h) = (q, h2)" by fastforce
  show ?thesis
  proof (cases q)
    case (Inl e)
    with rr show ?thesis by (simp add: deliver_def Let_def split_beta del: split_paired_Ex)
  next
    case (Inr rt)
    have tui: "deliver_via_tui fuel env word opts rt (format_payload message ?token) ?token st h2 = None \<longleftrightarrow> False" for st
      using deliver_via_tui_ends [OF assms] by (metis option.distinct(1))
    have "deliver fuel env word opts agent message strategy h \<noteq> None"
      using rr Inr by (auto simp: deliver_def Let_def split_beta tui split: option.splits)
    then show ?thesis by blast
  qed
qed

end
