(* ===== verification/Redeliver.thy ===== *)
theory Redeliver
  imports Delivery_Facts
begin

text \<open>
  Confirm, retry, switch the route, or stop: \<open>_delivery/_redeliver.py\<close>. The send is a function
  argument there and here; it takes a strategy and threads the history. The loop needs no fuel:
  a resend uses up a retry and a switch disarms the switch.
\<close>

definition DEFAULT_MAX_RETRIES :: int where
  "DEFAULT_MAX_RETRIES = 2"

record redelivery_policy =
  rp_max_retries :: int
  rp_switch_strategy :: string
  rp_sleep_between_s :: time

definition default_policy :: redelivery_policy where
  "default_policy = \<lparr>rp_max_retries = DEFAULT_MAX_RETRIES, rp_switch_strategy = [], rp_sleep_between_s = 0\<rparr>"

definition make_policy :: "int \<Rightarrow> string \<Rightarrow> time \<Rightarrow> redelivery_policy result" where
  "make_policy max_retries switch_strategy sleep_between_s =
     (if max_retries < 0 then Inl (ValueError ''max_retries must be >= 0'')
      else if sleep_between_s < 0 then Inl (ValueError ''sleep_between_s must be >= 0'')
      else Inr \<lparr>rp_max_retries = max_retries, rp_switch_strategy = switch_strategy,
                rp_sleep_between_s = sleep_between_s\<rparr>)"

record redelivery_attempt =
  ra_attempt :: nat
  ra_strategy :: string
  ra_exit_code :: int
  ra_verdict :: tri
  ra_state :: delivery_state

record redelivery_report =
  rr_agent :: string
  rr_delivered :: bool
  rr_attempts :: "redelivery_attempt list"
  rr_actions :: "string list"
  rr_remedy :: msg

definition attempts_made :: "redelivery_report \<Rightarrow> nat" where
  "attempts_made r = length (rr_attempts r)"

definition switch_action :: "string \<Rightarrow> string \<Rightarrow> string" where
  "switch_action from_strategy to_strategy = ''route-switched '' @ from_strategy @ ''->'' @ to_strategy"

definition send_once ::
    "(string \<Rightarrow> history \<Rightarrow> delivery_state \<times> history) \<Rightarrow> string \<Rightarrow> nat \<Rightarrow> history \<Rightarrow> redelivery_attempt \<times> history" where
  "send_once deliver_fn on_strategy so_far h =
     (let (st, h1) = deliver_fn on_strategy h; a = assess_delivery st in
      (\<lparr>ra_attempt = so_far + 1, ra_strategy = on_strategy, ra_exit_code = exit_code a,
        ra_verdict = as_verdict a, ra_state = st\<rparr>, h1))"

definition between :: "redelivery_policy \<Rightarrow> history \<Rightarrow> history" where
  "between policy h = (if rp_sleep_between_s policy \<noteq> 0 then sleep (rp_sleep_between_s policy) h else h)"

definition unresolved_msg :: "delivery_state \<Rightarrow> msg" where
  "unresolved_msg st =
     (case as_unresolved (assess_delivery st) of
        [] \<Rightarrow> Txt ''n/a''
      | ss \<Rightarrow> Fmt ''joined'' (map (\<lambda>s. Txt (signal_name s)) ss))"

text \<open>
  What the loop does after an attempt: it stops with an action and a remedy, sends again on the
  same strategy, or switches; the flag of a switch says whether it sleeps first.
\<close>

datatype next_step = Stop string msg | Resend | Switch_Route bool

definition after_attempt :: "string \<Rightarrow> nat \<Rightarrow> bool \<Rightarrow> bool \<Rightarrow> nat \<Rightarrow> redelivery_attempt \<Rightarrow> next_step" where
  "after_attempt agent retries_left switch_armed on_opening made r =
     (if ra_verdict r = Yes then Stop ''confirmed'' (Fmt ''delivered'' [Txt agent, Num (int (ra_attempt r))])
      else if ra_exit_code r = EXIT_NO_ROUTE then
        (if switch_armed then Switch_Route False
         else Stop ''escalated'' (Fmt ''no route: do NOT resend'' [Txt agent, Txt (ra_strategy r)]))
      else if ra_exit_code r = EXIT_UNSUBMITTED
      then Stop ''no-resend:payload-in-composer''
             (Fmt ''payload arrived but was never submitted: send a single Enter'' [Txt agent])
      else if ra_exit_code r = EXIT_UNKNOWN
      then Stop ''no-resend:unknown'' (Fmt ''could not determine'' [Txt agent, unresolved_msg (ra_state r)])
      else if ra_exit_code r = EXIT_REFUTED \<and> on_opening \<and> 0 < retries_left then Resend
      else if ra_exit_code r = EXIT_REFUTED \<and> switch_armed then Switch_Route True
      else Stop ''escalated'' (Fmt ''refuted'' [Txt agent, Num (int made), Num (ra_exit_code r)]))"

lemma after_attempt_Resend:
  "after_attempt agent n armed on_opening made r = Resend \<Longrightarrow>
     0 < n \<and> on_opening \<and> ra_verdict r \<noteq> Yes \<and> ra_exit_code r = EXIT_REFUTED"
  by (auto simp: after_attempt_def split: if_split_asm)

lemma after_attempt_Switch:
  "after_attempt agent n armed on_opening made r = Switch_Route b \<Longrightarrow>
     armed \<and> ra_verdict r \<noteq> Yes \<and> ra_exit_code r \<in> {EXIT_REFUTED, EXIT_NO_ROUTE}"
  by (auto simp: after_attempt_def split: if_split_asm)

text \<open>
  The loop: what is left of the budget, whether the opening strategy is still on, the strategy of
  the next send, the attempts and actions so far.
\<close>

function redeliver_loop ::
    "(string \<Rightarrow> history \<Rightarrow> delivery_state \<times> history) \<Rightarrow> string \<Rightarrow> redelivery_policy \<Rightarrow> string
      \<Rightarrow> nat \<Rightarrow> bool \<Rightarrow> bool \<Rightarrow> string \<Rightarrow> redelivery_attempt list \<Rightarrow> string list \<Rightarrow> history
      \<Rightarrow> redelivery_report \<times> history" where
  "redeliver_loop deliver_fn agent policy switch_to n armed on_opening current as acts h =
     (let (r, h1) = send_once deliver_fn current (length as) h in
      case after_attempt agent n armed on_opening (length as + 1) r of
        Stop act remedy \<Rightarrow>
          (\<lparr>rr_agent = agent, rr_delivered = (ra_verdict r = Yes), rr_attempts = as @ [r],
            rr_actions = acts @ [act], rr_remedy = remedy\<rparr>, h1)
      | Resend \<Rightarrow>
          redeliver_loop deliver_fn agent policy switch_to (n - 1) armed on_opening current (as @ [r])
            (acts @ [''retried'']) (between policy h1)
      | Switch_Route sleeps \<Rightarrow>
          redeliver_loop deliver_fn agent policy switch_to n False False switch_to (as @ [r])
            (acts @ [switch_action current switch_to]) (if sleeps then between policy h1 else h1))"
  by pat_completeness auto
termination
proof (relation "measure (\<lambda>(_, _, _, _, n, armed, _). n + (if armed then 1 else 0))", goal_cases)
  case 1
  show ?case by simp
next
  case (2 deliver_fn agent policy switch_to n armed on_opening current as acts h x r h1)
  then show ?case using after_attempt_Resend by (cases armed) force+
next
  case (3 deliver_fn agent policy switch_to n armed on_opening current as acts h x r h1 b)
  then show ?case using after_attempt_Switch [of agent n armed on_opening "length as + 1" r b] by simp
qed

declare redeliver_loop.simps [simp del]

definition redeliver ::
    "(string \<Rightarrow> history \<Rightarrow> delivery_state \<times> history) \<Rightarrow> string \<Rightarrow> string \<Rightarrow> redelivery_policy option \<Rightarrow> history
      \<Rightarrow> redelivery_report \<times> history" where
  "redeliver deliver_fn agent strategy policy h =
     (let active = (case policy of None \<Rightarrow> default_policy | Some p \<Rightarrow> p);
          switch_to = strip (rp_switch_strategy active)
      in redeliver_loop deliver_fn agent active switch_to (nat (rp_max_retries active))
           (switch_to \<noteq> [] \<and> switch_to \<noteq> strategy) True strategy [] [] h)"

subsection \<open>What the loop keeps\<close>

text \<open>Which attempt may be followed by which.\<close>

definition may_follow :: "redelivery_attempt \<Rightarrow> redelivery_attempt \<Rightarrow> bool" where
  "may_follow a b \<longleftrightarrow>
     ra_verdict a = No \<and>
     (ra_exit_code a = EXIT_REFUTED \<or> ra_exit_code a = EXIT_NO_ROUTE \<and> ra_strategy b \<noteq> ra_strategy a)"

definition consistent :: "redelivery_attempt \<Rightarrow> bool" where
  "consistent a \<longleftrightarrow>
     ra_exit_code a = exit_code (assess_delivery (ra_state a)) \<and> ra_verdict a = as_verdict (assess_delivery (ra_state a))"

lemma consistent_codes:
  assumes "consistent a"
  shows "ra_verdict a = Unknown \<longleftrightarrow> ra_exit_code a = EXIT_UNKNOWN" "ra_verdict a = Yes \<longleftrightarrow> ra_exit_code a = EXIT_DELIVERED"
    "ra_exit_code a = EXIT_REFUTED \<Longrightarrow> ra_verdict a = No" "ra_exit_code a = EXIT_NO_ROUTE \<Longrightarrow> ra_verdict a = No"
  using assms assess_delivery_exit [of "ra_state a"]
  by (auto simp: consistent_def EXIT_defs split: option.splits bool.splits if_splits)

lemma send_once_consistent: "send_once f strategy n h = (r, h1) \<Longrightarrow> consistent r \<and> ra_strategy r = strategy \<and> ra_attempt r = n + 1"
  by (auto simp: send_once_def consistent_def Let_def split_beta)

text \<open>How the loop continues.\<close>

lemma redeliver_loop_cases:
  assumes "redeliver_loop f agent policy sw n armed on_opening cur as acts h = (rep, h')"
  obtains (stop) r h1 act where "send_once f cur (length as) h = (r, h1)"
      "rr_attempts rep = as @ [r]" "rr_actions rep = acts @ [act]" "rr_delivered rep \<longleftrightarrow> ra_verdict r = Yes" "h' = h1"
    | (resend) r h1 where "send_once f cur (length as) h = (r, h1)"
      "0 < n" "ra_verdict r \<noteq> Yes" "ra_exit_code r = EXIT_REFUTED"
      "redeliver_loop f agent policy sw (n - 1) armed on_opening cur (as @ [r]) (acts @ [''retried'']) (between policy h1) = (rep, h')"
    | (switch) r h1 h2 where "send_once f cur (length as) h = (r, h1)" "h2 \<in> {h1, between policy h1}"
      "armed" "ra_verdict r \<noteq> Yes" "ra_exit_code r \<in> {EXIT_REFUTED, EXIT_NO_ROUTE}"
      "redeliver_loop f agent policy sw n False False sw (as @ [r]) (acts @ [switch_action cur sw]) h2 = (rep, h')"
proof -
  obtain r h1 where s: "send_once f cur (length as) h = (r, h1)" by fastforce
  note eq = assms [unfolded redeliver_loop.simps [of f agent policy sw n armed on_opening cur as acts h] s Let_def prod.case]
  show thesis
  proof (cases "after_attempt agent n armed on_opening (length as + 1) r")
    case (Stop act remedy)
    with eq s show thesis by (intro stop) auto
  next
    case Resend
    with eq s after_attempt_Resend [OF Resend] show thesis by (intro resend) auto
  next
    case (Switch_Route b)
    with eq s after_attempt_Switch [OF Switch_Route] show thesis
      by (intro switch [of r h1 "if b then between policy h1 else h1"]) auto
  qed
qed

text \<open>
  What is true whenever the loop sends: the attempts so far were all confirmed failures that may be
  followed by a send on the current strategy.
\<close>

definition loop_inv :: "string \<Rightarrow> bool \<Rightarrow> string \<Rightarrow> redelivery_attempt list \<Rightarrow> bool" where
  "loop_inv sw armed cur as \<longleftrightarrow>
     (armed \<longrightarrow> sw \<noteq> cur) \<and> successively may_follow as \<and> (\<forall>a \<in> set as. consistent a)
     \<and> (as \<noteq> [] \<longrightarrow> (\<forall>b. ra_strategy b = cur \<longrightarrow> may_follow (last as) b))"

lemma loop_inv_extend:
  assumes "loop_inv sw armed cur as" and "send_once f cur (length as) h = (r, h1)"
  shows "successively may_follow (as @ [r])" "\<forall>a \<in> set (as @ [r]). consistent a"
    "ra_exit_code r = EXIT_REFUTED \<Longrightarrow> loop_inv sw armed cur (as @ [r])"
    "armed \<Longrightarrow> ra_exit_code r \<in> {EXIT_REFUTED, EXIT_NO_ROUTE} \<Longrightarrow> loop_inv sw False sw (as @ [r])"
proof -
  note r = send_once_consistent [OF assms(2)]
  show s: "successively may_follow (as @ [r])"
    using assms(1) r by (auto simp: loop_inv_def successively_append_iff)
  show c: "\<forall>a \<in> set (as @ [r]). consistent a" using assms(1) r by (auto simp: loop_inv_def)
  have v: "ra_exit_code r \<in> {EXIT_REFUTED, EXIT_NO_ROUTE} \<Longrightarrow> ra_verdict r = No"
    using consistent_codes(3,4) [of r] r by auto
  show "ra_exit_code r = EXIT_REFUTED \<Longrightarrow> loop_inv sw armed cur (as @ [r])"
    using s c v assms(1) by (auto simp: loop_inv_def may_follow_def)
  show "armed \<Longrightarrow> ra_exit_code r \<in> {EXIT_REFUTED, EXIT_NO_ROUTE} \<Longrightarrow> loop_inv sw False sw (as @ [r])"
    using s c v r assms(1) by (auto simp: loop_inv_def may_follow_def)
qed

text \<open>The budget: one opening send, the retries, one send after a switch.\<close>

definition loop_result :: "nat \<Rightarrow> redelivery_attempt list \<Rightarrow> string list \<Rightarrow> redelivery_report \<Rightarrow> bool" where
  "loop_result m as acts rep \<longleftrightarrow>
     successively may_follow (rr_attempts rep) \<and> (\<forall>a \<in> set (rr_attempts rep). consistent a)
     \<and> rr_attempts rep \<noteq> [] \<and> (rr_delivered rep \<longleftrightarrow> ra_verdict (last (rr_attempts rep)) = Yes)
     \<and> length (rr_attempts rep) \<le> length as + m
     \<and> length (rr_actions rep) + length as = length acts + length (rr_attempts rep)"

lemma redeliver_loop_result:
  assumes "loop_inv sw armed cur as"
    and "redeliver_loop f agent policy sw n armed on_opening cur as acts h = (rep, h')"
  shows "loop_result (n + (if armed then 2 else 1)) as acts rep"
  using assms
proof (induction "n + (if armed then 1 else 0)" arbitrary: n armed on_opening cur as acts h rule: less_induct)
  case less
  from less.prems(2) show ?case
  proof (cases rule: redeliver_loop_cases)
    case (stop r h1 act)
    with loop_inv_extend(1,2) [OF less.prems(1) stop(1)] show ?thesis by (simp add: loop_result_def)
  next
    case (resend r h1)
    have inv: "loop_inv sw armed cur (as @ [r])"
      by (rule loop_inv_extend(3) [OF less.prems(1) resend(1) resend(4)])
    from less.hyps [OF _ inv resend(5)] resend(2) show ?thesis by (auto simp: loop_result_def)
  next
    case (switch r h1 h2)
    have inv: "loop_inv sw False sw (as @ [r])"
      by (rule loop_inv_extend(4) [OF less.prems(1) switch(1,3,5)])
    from less.hyps [OF _ inv switch(6)] switch(3) show ?thesis by (auto simp: loop_result_def)
  qed
qed

lemma redeliver_result:
  assumes "redeliver f agent strategy policy h = (rep, h')"
  shows "loop_result (nat (rp_max_retries (case policy of None \<Rightarrow> default_policy | Some p \<Rightarrow> p)) + 2) [] [] rep"
proof -
  let ?p = "case policy of None \<Rightarrow> default_policy | Some p \<Rightarrow> p"
  let ?sw = "strip (rp_switch_strategy ?p)"
  let ?armed = "?sw \<noteq> [] \<and> ?sw \<noteq> strategy"
  have inv: "loop_inv ?sw ?armed strategy []" by (auto simp: loop_inv_def)
  have "redeliver_loop f agent ?p ?sw (nat (rp_max_retries ?p)) ?armed True strategy [] [] h = (rep, h')"
    using assms by (simp add: redeliver_def Let_def)
  from redeliver_loop_result [OF inv this] show ?thesis by (auto simp: loop_result_def split: if_splits)
qed

text \<open>A send whose fold is never the generic refutation is made once per strategy.\<close>

lemma redeliver_loop_never_refuted:
  assumes "\<And>h. exit_code (assess_delivery (fst (f cur h))) \<notin> {EXIT_REFUTED, EXIT_NO_ROUTE}"
    and "redeliver_loop f agent policy sw n armed on_opening cur [] acts h = (rep, h')"
  shows "length (rr_attempts rep) = 1"
  using assms(2)
proof (cases rule: redeliver_loop_cases)
  case (stop r h1 act)
  then show ?thesis by simp
next
  case (resend r h1)
  with assms(1) [of h] show ?thesis by (auto simp: send_once_def Let_def split_beta)
next
  case (switch r h1 h2)
  with assms(1) [of h] show ?thesis by (auto simp: send_once_def Let_def split_beta)
qed

end
