(* ===== verification/Drain.thy ===== *)
theory Drain
  imports Prompt_Handlers Screen_Env
begin

text \<open>
  The loops that answer prompts while a session starts: \<open>wait_for_settle\<close>,
  \<open>drain_modals_until_ready\<close> and \<open>wait_until_input_ready\<close> of \<open>runtimes/_tui_drain.py\<close>, and
  \<open>_send_auto_accept_keystrokes\<close> of \<open>_runners/_tmux/claude_code.py\<close>. The log lines and the
  snapshots written with them are not modelled.
\<close>

definition READY_MARKER :: utext where
  "READY_MARKER = u ''? for shortcuts''"

definition shows_ready :: "utext \<Rightarrow> bool" where
  "shows_ready pane \<longleftrightarrow> holds READY_MARKER pane \<or> is_ready pane"

definition resolve_settle :: "time \<Rightarrow> time option \<Rightarrow> time option \<Rightarrow> time \<times> time" where
  "resolve_settle poll_s quiet_s max_s =
     ((case quiet_s of None \<Rightarrow> poll_s * 4 | Some q \<Rightarrow> q),
      (case max_s of None \<Rightarrow> poll_s * 16 | Some m \<Rightarrow> m))"

subsection \<open>Waiting for the screen to settle\<close>

type_synonym settle_state = "utext \<times> time \<times> history"

definition settle_body ::
    "screen_env \<Rightarrow> time \<Rightarrow> time \<Rightarrow> time \<Rightarrow> settle_state \<Rightarrow> (utext \<times> history) + settle_state" where
  "settle_body env quiet_s poll_s deadline s =
     (case s of (prev, stable_since, h) \<Rightarrow>
        let (t, h1) = clock env h in
        if \<not> t < deadline then Inl (prev, h1)
        else
          (let (current, h2) = look env (nap poll_s h1);
               (t2, h3) = clock env h2
           in if current = prev
              then (if quiet_s \<le> t2 - stable_since then Inl (current, h3) else Inr (prev, stable_since, h3))
              else Inr (current, t2, h3)))"

definition wait_for_settle ::
    "nat \<Rightarrow> screen_env \<Rightarrow> time \<Rightarrow> time \<Rightarrow> time \<Rightarrow> history \<Rightarrow> (utext \<times> history) option" where
  "wait_for_settle fuel env quiet_s max_wait_s poll_s h =
     (let (t, h1) = clock env h;
          (first, h2) = look env h1;
          (stable_since, h3) = clock env h2
      in run_loop fuel (settle_body env quiet_s poll_s (t + max_wait_s)) (first, stable_since, h3))"

subsection \<open>Draining the modals of a start\<close>

record drain_opts =
  do_timeout_s :: time
  do_poll_s :: time
  do_quiet_s :: "time option"
  do_max_wait_s :: "time option"
  do_max_resends :: nat

definition quiet_of :: "drain_opts \<Rightarrow> time" where
  "quiet_of opts = fst (resolve_settle (do_poll_s opts) (do_quiet_s opts) (do_max_wait_s opts))"

definition max_wait_of :: "drain_opts \<Rightarrow> time" where
  "max_wait_of opts = snd (resolve_settle (do_poll_s opts) (do_quiet_s opts) (do_max_wait_s opts))"

definition settle_with :: "nat \<Rightarrow> screen_env \<Rightarrow> drain_opts \<Rightarrow> history \<Rightarrow> (utext \<times> history) option" where
  "settle_with fuel env opts h =
     wait_for_settle fuel env (quiet_of opts) (max_wait_of opts) (do_poll_s opts) h"

definition answer :: "string \<Rightarrow> history \<Rightarrow> history" where
  "answer modal h = press_all (snd (respond_modal modal)) h"

type_synonym drain_state = "(string \<Rightarrow> nat) \<times> history"
type_synonym 'a outcome = "('a \<times> history) option"

text \<open>The pause after an answer.\<close>

definition after_answer :: "drain_opts \<Rightarrow> history \<Rightarrow> history" where
  "after_answer opts h =
     (if 0 < quiet_of opts
      then sleep (min (quiet_of opts) (if 0 < do_poll_s opts then do_poll_s opts else quiet_of opts)) h
      else h)"

definition drain_modal ::
    "nat \<Rightarrow> screen_env \<Rightarrow> drain_opts \<Rightarrow> (string \<Rightarrow> nat) \<Rightarrow> history \<Rightarrow> bool outcome + drain_state" where
  "drain_modal fuel env opts resends h =
     (case settle_with fuel env opts h of
        None \<Rightarrow> Inl None
      | Some (settled, h1) \<Rightarrow>
          if codex_blocking_modal settled \<noteq> None then Inl (Some (False, h1))
          else if shows_ready settled then Inl (Some (True, h1))
          else
            (case detect_prompt settled of
               None \<Rightarrow> Inr (resends, h1)
             | Some modal \<Rightarrow>
                 Inr (resends(modal := Suc (resends modal)), after_answer opts (answer modal h1))))"

definition drain_body ::
    "nat \<Rightarrow> screen_env \<Rightarrow> drain_opts \<Rightarrow> time \<Rightarrow> drain_state \<Rightarrow> bool outcome + drain_state" where
  "drain_body fuel env opts deadline s =
     (case s of (resends, h) \<Rightarrow>
        let (t, h1) = clock env h in
        if \<not> t < deadline
        then Inl (Some (False, snd (session_exists env (snd (look env h1)))))
        else
          (let (alive, h2) = session_exists env h1 in
           if \<not> alive then Inl (Some (False, h2))
           else
             (let (pane, h3) = look env h2 in
              if codex_blocking_modal pane \<noteq> None then Inl (Some (False, h3))
              else if shows_ready pane then Inl (Some (True, h3))
              else
                (case detect_prompt pane of
                   None \<Rightarrow> Inr (resends, nap (do_poll_s opts) h3)
                 | Some modal \<Rightarrow>
                     if do_max_resends opts \<le> resends modal then Inl (Some (False, h3))
                     else drain_modal fuel env opts resends h3))))"

definition flat :: "'a outcome option \<Rightarrow> 'a outcome" where
  "flat r = (case r of None \<Rightarrow> None | Some q \<Rightarrow> q)"

definition drain_modals_until_ready :: "nat \<Rightarrow> screen_env \<Rightarrow> drain_opts \<Rightarrow> history \<Rightarrow> bool outcome" where
  "drain_modals_until_ready fuel env opts h =
     (let (t, h1) = clock env h in
      flat (run_loop fuel (drain_body fuel env opts (t + do_timeout_s opts)) (\<lambda>_. 0, h1)))"

subsection \<open>Waiting for the input box\<close>

type_synonym ready_state = "string list \<times> history"

abbreviation NOT_READY :: "string \<Rightarrow> py_error" where
  "NOT_READY why \<equiv> OtherError (''TuiInputNotReadyError: '' @ why)"

definition ready_modal ::
    "nat \<Rightarrow> screen_env \<Rightarrow> drain_opts \<Rightarrow> string list \<Rightarrow> history \<Rightarrow> bool result outcome + ready_state" where
  "ready_modal fuel env opts accepted h =
     (case settle_with fuel env opts h of
        None \<Rightarrow> Inl None
      | Some (settled, h1) \<Rightarrow>
          if codex_blocking_modal settled \<noteq> None then Inl (Some (Inl (NOT_READY ''blocked while settling''), h1))
          else if shows_ready settled then Inl (Some (Inr True, h1))
          else
            (case detect_prompt settled of
               None \<Rightarrow> Inr (accepted, nap (do_poll_s opts) h1)
             | Some modal \<Rightarrow>
                 if modal \<in> set accepted then Inr (accepted, nap (do_poll_s opts) h1)
                 else Inr (accepted @ [modal], answer modal h1)))"

definition ready_body ::
    "nat \<Rightarrow> screen_env \<Rightarrow> drain_opts \<Rightarrow> time \<Rightarrow> ready_state \<Rightarrow> bool result outcome + ready_state" where
  "ready_body fuel env opts deadline s =
     (case s of (accepted, h) \<Rightarrow>
        let (t, h1) = clock env h in
        if \<not> t < deadline then Inl (Some (Inl (NOT_READY ''marker not seen''), h1))
        else
          (let (pane, h2) = look env h1 in
           if codex_blocking_modal pane \<noteq> None then Inl (Some (Inl (NOT_READY ''needs review''), h2))
           else if shows_ready pane then Inl (Some (Inr True, h2))
           else
             (case detect_prompt pane of
                None \<Rightarrow> Inr (accepted, nap (do_poll_s opts) h2)
              | Some modal \<Rightarrow>
                  if modal \<in> set accepted then Inr (accepted, nap (do_poll_s opts) h2)
                  else ready_modal fuel env opts accepted h2)))"

definition wait_until_input_ready ::
    "nat \<Rightarrow> screen_env \<Rightarrow> drain_opts \<Rightarrow> history \<Rightarrow> bool result outcome" where
  "wait_until_input_ready fuel env opts h =
     (let (alive, h1) = session_exists env h in
      if \<not> alive then Some (Inl (NOT_READY ''no session''), h1)
      else
        (let (t, h2) = clock env h1 in
         flat (run_loop fuel (ready_body fuel env opts (t + do_timeout_s opts)) ([], h2))))"

subsection \<open>The watchdog of the tmux runner\<close>

definition AUTO_ACCEPT_TIMEOUT_S :: time where
  "AUTO_ACCEPT_TIMEOUT_S = 90"

definition accept_body ::
    "screen_env \<Rightarrow> time \<Rightarrow> ready_state \<Rightarrow> (bool \<times> history) + ready_state" where
  "accept_body env start s =
     (case s of (accepted, h) \<Rightarrow>
        let (t, h1) = clock env h in
        if \<not> t - start < AUTO_ACCEPT_TIMEOUT_S then Inl (False, h1)
        else
          (let (elapsed_at, h2) = clock env h1;
               (alive, h3) = session_exists env h2
           in if \<not> alive then Inl (False, h3)
           else
             (let (content, h4) = look env h3 in
              if is_ready content then Inl (True, h4)
              else
                (let (matched, keys) = tmux_detect_and_respond content accepted in
                 Inr (case matched of None \<Rightarrow> accepted | Some m \<Rightarrow> accepted @ [m],
                      sleep 2 (press_all keys h4))))))"

definition needs_auto_accept :: "bool \<Rightarrow> string list \<Rightarrow> bool" where
  "needs_auto_accept auto_accept flags \<longleftrightarrow>
     auto_accept \<and>
     list_ex (\<lambda>f. holds ''--dangerously-skip-permissions'' f
                 \<or> holds ''--dangerously-load-development-channels'' f) flags"

definition send_auto_accept_keystrokes :: "nat \<Rightarrow> screen_env \<Rightarrow> bool \<Rightarrow> string list \<Rightarrow> history \<Rightarrow> bool outcome" where
  "send_auto_accept_keystrokes fuel env auto_accept flags h =
     (if \<not> needs_auto_accept auto_accept flags then Some (True, h)
      else (let (start, h1) = clock env h in run_loop fuel (accept_body env start) ([], h1)))"

end
