(* ===== verification/Drain_Facts.thy ===== *)
theory Drain_Facts
  imports Drain
begin

text \<open>
  What the prompt loops guarantee: each ends (an instance of \<open>deadline_loop\<close>), each presses a key
  only for a prompt the latest capture shows, and the watchdog's record of accepted prompts.
\<close>

subsection \<open>Settling\<close>

text \<open>The history after a round that did not find the deadline passed.\<close>

definition settle_round :: "screen_env \<Rightarrow> time \<Rightarrow> history \<Rightarrow> history" where
  "settle_round env p h = ticked env (looked env (nap p (ticked env h)))"

lemma settle_body_eq:
  "settle_body env q p d (prev, st, h) =
     (if \<not> at_clock env h < d then Inl (prev, ticked env h)
      else
        (let now = screen env (nap p (ticked env h));
             t = at_clock env (looked env (nap p (ticked env h)))
         in if now = prev
            then if q \<le> t - st then Inl (now, settle_round env p h) else Inr (prev, st, settle_round env p h)
            else Inr (now, t, settle_round env p h)))"
  by (simp add: settle_body_def Let_def split_beta settle_round_def)

lemma settle_round_later:
  assumes "clock_runs env"
  shows "at_clock env h \<le> at_clock env (settle_round env p h)"
    "0 < p \<Longrightarrow> at_clock env h + p \<le> at_clock env (settle_round env p h)"
proof -
  note t = ticking_steps [OF assms]
  have fin: "at_clock env (nap p (ticked env h)) \<le> at_clock env (settle_round env p h)"
    unfolding settle_round_def using t by (meson order_trans)
  moreover have "at_clock env h \<le> at_clock env (ticked env h)" by (rule t)
  moreover have "at_clock env (ticked env h) \<le> at_clock env (nap p (ticked env h))" by (rule t)
  ultimately show "at_clock env h \<le> at_clock env (settle_round env p h)" by linarith
  assume "0 < p"
  then have "at_clock env (ticked env h) + p \<le> at_clock env (nap p (ticked env h))" by (rule t)
  with fin \<open>at_clock env h \<le> at_clock env (ticked env h)\<close>
  show "at_clock env h + p \<le> at_clock env (settle_round env p h)" by linarith
qed

lemma settle_round_keeps [keyless]:
  "keys_ok P (settle_round env p h) = keys_ok P h" "presses k (settle_round env p h) = presses k h"
  "last_seen (settle_round env p h) = screen env (nap p (ticked env h))"
  by (simp_all add: settle_round_def keyless)

abbreviation settle_time :: "screen_env \<Rightarrow> settle_state \<Rightarrow> time" where
  "settle_time env s \<equiv> at_clock env (snd (snd s))"

lemma settle_body_Inr:
  assumes "clock_runs env" and "settle_body env q p d s = Inr s'"
  shows "settle_time env s < d" "0 < p \<Longrightarrow> settle_time env s + p \<le> settle_time env s'"
    "settle_time env s \<le> settle_time env s'"
proof -
  obtain prev st h where s: "s = (prev, st, h)" by (cases s)
  from assms(2) have "at_clock env h < d" and s': "snd (snd s') = settle_round env p h"
    by (auto simp: s settle_body_eq Let_def split: if_splits)
  then show "settle_time env s < d" by (simp add: s)
  show "settle_time env s \<le> settle_time env s'" "0 < p \<Longrightarrow> settle_time env s + p \<le> settle_time env s'"
    using settle_round_later [OF assms(1)] by (simp_all add: s s')
qed

interpretation settle: deadline_loop "\<lambda>_. clock_runs env \<and> 0 < p" "settle_body env q p d" "settle_time env" d p
  for env q p d
proof
  show "\<And>s s'. clock_runs env \<and> 0 < p \<Longrightarrow> settle_body env q p d s = Inr s' \<Longrightarrow>
      (clock_runs env \<and> 0 < p) \<and> settle_time env s + p \<le> settle_time env s'"
    using settle_body_Inr(2) by blast
  show "\<And>s s'. clock_runs env \<and> 0 < p \<Longrightarrow> d \<le> settle_time env s \<Longrightarrow> settle_body env q p d s \<noteq> Inr s'"
    using settle_body_Inr(1) by force
qed simp

lemma settle_body_Inl:
  assumes "clock_runs env" and "settle_body env q p d s = Inl r"
  shows "settle_time env s \<le> at_clock env (snd r)"
    "\<not> d \<le> settle_time env s \<Longrightarrow> 0 < p \<Longrightarrow> settle_time env s + p \<le> at_clock env (snd r)"
proof -
  obtain prev st h where s: "s = (prev, st, h)" by (cases s)
  have r: "snd r = (if at_clock env h < d then settle_round env p h else ticked env h)"
    using assms(2) by (auto simp: s settle_body_eq Let_def split: if_splits)
  show "settle_time env s \<le> at_clock env (snd r)"
    using settle_round_later(1) [OF assms(1)] ticking_steps(5) [OF assms(1)] by (simp add: s r)
  show "\<not> d \<le> settle_time env s \<Longrightarrow> 0 < p \<Longrightarrow> settle_time env s + p \<le> at_clock env (snd r)"
    using settle_round_later(2) [OF assms(1)] by (simp add: s r)
qed

lemma settle_loop_later:
  assumes "clock_runs env" and "run_loop n (settle_body env q p d) s = Some r"
  shows "settle_time env s \<le> at_clock env (snd r)"
proof (rule run_loop_invariant [OF assms(2), where P = "\<lambda>s'. settle_time env s \<le> settle_time env s'"])
  show "settle_time env s \<le> settle_time env s1 \<Longrightarrow> settle_body env q p d s1 = Inr s2 \<Longrightarrow>
      settle_time env s \<le> settle_time env s2" for s1 s2
    using settle_body_Inr(3) [OF assms(1), of q p d s1 s2] by linarith
  show "settle_time env s \<le> settle_time env s1 \<Longrightarrow> settle_body env q p d s1 = Inl r \<Longrightarrow>
      settle_time env s \<le> at_clock env (snd r)" for s1 r
    using settle_body_Inl(1) [OF assms(1), of q p d s1 r] by linarith
qed simp

text \<open>A settling wait takes a poll interval, or the whole window when that is shorter.\<close>

lemma wait_for_settle_takes:
  assumes "clock_runs env" and "wait_for_settle n env q m p h = Some (pane, h')" and "0 < p"
  shows "at_clock env h + min p m \<le> at_clock env h'" "at_clock env h \<le> at_clock env h'"
proof -
  let ?h1 = "snd (clock env h)"
  let ?h2 = "snd (look env ?h1)"
  let ?h3 = "snd (clock env ?h2)"
  let ?s = "(fst (look env ?h1), fst (clock env ?h2), ?h3)"
  let ?d = "at_clock env h + m"
  have run: "run_loop n (settle_body env q p ?d) ?s = Some (pane, h')"
    using assms(2) by (simp add: wait_for_settle_def Let_def split_beta)
  have h3: "at_clock env h \<le> at_clock env ?h3"
    using ticking_steps [OF assms(1)] by (meson order_trans)
  show "at_clock env h \<le> at_clock env h'"
    using settle_loop_later [OF assms(1) run] h3 by simp
  obtain k where n: "n = Suc k" using run by (cases n) auto
  show "at_clock env h + min p m \<le> at_clock env h'"
  proof (cases "?d \<le> at_clock env ?h3")
    case True
    with settle_loop_later [OF assms(1) run] show ?thesis by simp
  next
    case False
    show ?thesis
    proof (cases "settle_body env q p ?d ?s")
      case (Inl r)
      with run n have "r = (pane, h')" by simp
      with settle_body_Inl(2) [OF assms(1) Inl] False assms(3) h3 show ?thesis by simp
    next
      case (Inr s')
      with run n have "run_loop k (settle_body env q p ?d) s' = Some (pane, h')" by simp
      from settle_loop_later [OF assms(1) this] settle_body_Inr(2) [OF assms(1) Inr assms(3)] h3
      show ?thesis by simp
    qed
  qed
qed

lemma wait_for_settle_ends:
  assumes "clock_runs env" and "0 < p" and "rounds m p \<le> n"
  shows "\<exists>r. wait_for_settle n env q m p h = Some r"
proof -
  let ?h1 = "snd (clock env h)"
  let ?h2 = "snd (look env ?h1)"
  let ?h3 = "snd (clock env ?h2)"
  let ?s = "(fst (look env ?h1), fst (clock env ?h2), ?h3)"
  let ?d = "at_clock env h + m"
  have "at_clock env h \<le> at_clock env ?h3"
    using ticking_steps [OF assms(1)] by (meson order_trans)
  then have "(?d - at_clock env ?h3) / p \<le> m / p"
    using assms(2) by (intro divide_right_mono) auto
  then have "(?d - settle_time env ?s) / p \<le> of_nat (nat \<lceil>m / p\<rceil>)"
    using rounds_enough [of m p] by simp
  from settle.ends [OF _ this] assms(1,2)
  obtain r where "run_loop (rounds m p) (settle_body env q p ?d) ?s = Some r"
    unfolding rounds_def by blast
  from run_loop_more [OF this assms(3)] show ?thesis
    by (simp add: wait_for_settle_def Let_def split_beta)
qed

text \<open>What it returns is what the latest capture showed, and it presses nothing.\<close>

lemma settle_body_keeps:
  assumes "s = (prev, st, h)"
  shows "settle_body env q p d s = Inr s' \<Longrightarrow> prev = last_seen h \<Longrightarrow> fst s' = last_seen (snd (snd s'))"
    "settle_body env q p d s = Inl r \<Longrightarrow> prev = last_seen h \<Longrightarrow> fst r = last_seen (snd r)"
    "settle_body env q p d s = Inr s' \<Longrightarrow> keys_ok P (snd (snd s')) = keys_ok P h"
    "settle_body env q p d s = Inl r \<Longrightarrow> keys_ok P (snd r) = keys_ok P h"
    "settle_body env q p d s = Inr s' \<Longrightarrow> presses k (snd (snd s')) = presses k h"
    "settle_body env q p d s = Inl r \<Longrightarrow> presses k (snd r) = presses k h"
  by (auto simp: assms settle_body_eq Let_def keyless split: if_splits)

lemma wait_for_settle_keeps:
  assumes "wait_for_settle n env q m p h = Some (pane, h')"
  shows "pane = last_seen h'" "keys_ok P h' = keys_ok P h" "presses k h' = presses k h"
proof -
  let ?h1 = "snd (clock env h)"
  let ?h2 = "snd (look env ?h1)"
  let ?h3 = "snd (clock env ?h2)"
  let ?s = "(fst (look env ?h1), fst (clock env ?h2), ?h3)"
  have run: "run_loop n (settle_body env q p (at_clock env h + m)) ?s = Some (pane, h')"
    using assms by (simp add: wait_for_settle_def Let_def split_beta)
  show "pane = last_seen h'"
  proof -
    have "fst (pane, h') = last_seen (snd (pane, h'))"
    proof (rule run_loop_invariant [OF run, where P = "\<lambda>s. fst s = last_seen (snd (snd s))"])
      show "fst s = last_seen (snd (snd s)) \<Longrightarrow> settle_body env q p (at_clock env h + m) s = Inr s' \<Longrightarrow>
          fst s' = last_seen (snd (snd s'))" for s s'
        by (cases s) (use settle_body_keeps(1) in auto)
      show "fst s = last_seen (snd (snd s)) \<Longrightarrow> settle_body env q p (at_clock env h + m) s = Inl r \<Longrightarrow>
          fst r = last_seen (snd r)" for s r
        by (cases s) (use settle_body_keeps(2) in auto)
    qed simp
    then show ?thesis by simp
  qed
  have "keys_ok P (snd (pane, h')) = keys_ok P h"
  proof (rule run_loop_invariant [OF run, where P = "\<lambda>s. keys_ok P (snd (snd s)) = keys_ok P h"])
    show "keys_ok P (snd (snd s)) = keys_ok P h \<Longrightarrow> settle_body env q p (at_clock env h + m) s = Inr s' \<Longrightarrow>
        keys_ok P (snd (snd s')) = keys_ok P h" for s s'
      by (cases s) (simp add: settle_body_keeps(3))
    show "keys_ok P (snd (snd s)) = keys_ok P h \<Longrightarrow> settle_body env q p (at_clock env h + m) s = Inl r \<Longrightarrow>
        keys_ok P (snd r) = keys_ok P h" for s r
      by (cases s) (simp add: settle_body_keeps(4))
  qed (simp add: keyless)
  then show "keys_ok P h' = keys_ok P h" by simp
  have "presses k (snd (pane, h')) = presses k h"
  proof (rule run_loop_invariant [OF run, where P = "\<lambda>s. presses k (snd (snd s)) = presses k h"])
    show "presses k (snd (snd s)) = presses k h \<Longrightarrow> settle_body env q p (at_clock env h + m) s = Inr s' \<Longrightarrow>
        presses k (snd (snd s')) = presses k h" for s s'
      by (cases s) (simp add: settle_body_keeps(5))
    show "presses k (snd (snd s)) = presses k h \<Longrightarrow> settle_body env q p (at_clock env h + m) s = Inl r \<Longrightarrow>
        presses k (snd r) = presses k h" for s r
      by (cases s) (simp add: settle_body_keeps(6))
  qed (simp add: keyless)
  then show "presses k h' = presses k h" by simp
qed

subsection \<open>Which keys answer a prompt\<close>

text \<open>A key that may be pressed on a pane: one of the keys of the prompt the pane shows.\<close>

definition answers :: "string \<Rightarrow> utext \<Rightarrow> bool" where
  "answers key pane \<longleftrightarrow>
     codex_blocking_modal pane = None \<and>
     (\<exists>modal. detect_prompt pane = Some modal \<and> key \<in> set (snd (respond_modal modal)))"

lemma keys_ok_press_all:
  "keys_ok P (press_all keys h) \<longleftrightarrow> (\<forall>k \<in> set keys. P k (last_seen h)) \<and> keys_ok P h"
proof -
  have seen: "last_seen (map Pressed ks @ h) = last_seen h" for ks by (induction ks) auto
  have "keys_ok P (map Pressed ks @ h) \<longleftrightarrow> (\<forall>k \<in> set ks. P k (last_seen h)) \<and> keys_ok P h" for ks
    by (induction ks) (auto simp: seen)
  then show ?thesis by (simp add: press_all_def)
qed

lemma presses_press_all [keyless]: "presses k (press_all keys h) = count_list keys k + presses k h"
proof -
  have "presses k (map Pressed ks @ h) = count_list ks k + presses k h" for ks
    by (induction ks) auto
  then show ?thesis by (simp add: press_all_def)
qed

lemma clock_press_all: "clock_runs env \<Longrightarrow> at_clock env h \<le> at_clock env (press_all keys h)"
proof -
  assume c: "clock_runs env"
  have "at_clock env h \<le> at_clock env (map Pressed ks @ h)" for ks
  proof (induction ks)
    case (Cons k ks)
    then show ?case using clock_step [OF c, of "Pressed k" "map Pressed ks @ h"] by simp
  qed simp
  then show ?thesis by (simp add: press_all_def)
qed

lemma keys_ok_answer:
  "detect_prompt (last_seen h) = Some modal \<Longrightarrow> codex_blocking_modal (last_seen h) = None \<Longrightarrow>
   keys_ok answers h \<Longrightarrow> keys_ok answers (answer modal h)"
  by (auto simp: answer_def keys_ok_press_all answers_def)

lemma no_handler_escapes: "list_all (\<lambda>h. ''Escape'' \<notin> set (ph_keys h)) PROMPT_HANDLERS"
  by code_simp

lemma respond_modal_no_escape: "''Escape'' \<notin> set (snd (respond_modal modal))"
  using no_handler_escapes by (auto simp: respond_modal_def list_all_iff split: option.splits dest!: find_Some_in)

lemma answers_no_escape: "\<not> answers ''Escape'' pane"
  using respond_modal_no_escape by (auto simp: answers_def)

lemma keys_ok_never: "keys_ok P h \<Longrightarrow> (\<And>pane. \<not> P k pane) \<Longrightarrow> presses k h = 0"
  by (induction h) (auto split: event.splits)

subsection \<open>Draining\<close>

lemma drain_modal_keeps:
  assumes "drain_modal fuel env opts resends h = q" and "keys_ok answers h"
  shows "q = Inr (resends', h') \<Longrightarrow> keys_ok answers h'"
    "q = Inl (Some (r, h')) \<Longrightarrow> keys_ok answers h' \<and> (r \<longrightarrow> shows_ready (last_seen h'))"
proof -
  show "keys_ok answers h'" if "q = Inr (resends', h')"
  proof -
    from assms(1) that obtain settled h1 where w: "settle_with fuel env opts h = Some (settled, h1)"
      by (auto simp: drain_modal_def split: option.splits)
    note k = wait_for_settle_keeps [OF w [unfolded settle_with_def]]
    from k(2) [of answers] assms(2) have h1: "keys_ok answers h1" by simp
    from assms(1) that w h1 show ?thesis
      by (auto simp: drain_modal_def after_answer_def keyless k(1) intro: keys_ok_answer
          split: option.splits if_splits)
  qed
  show "keys_ok answers h' \<and> (r \<longrightarrow> shows_ready (last_seen h'))" if "q = Inl (Some (r, h'))"
  proof -
    from assms(1) that obtain settled h1 where w: "settle_with fuel env opts h = Some (settled, h1)"
      by (auto simp: drain_modal_def split: option.splits)
    note k = wait_for_settle_keeps [OF w [unfolded settle_with_def]]
    from k(2) [of answers] assms(2) have h1: "keys_ok answers h1" by simp
    from assms(1) that w h1 show ?thesis
      by (auto simp: drain_modal_def k(1) split: option.splits if_splits)
  qed
qed

lemma drain_body_eq:
  "drain_body fuel env opts deadline (resends, h) =
     (let h2 = snd (session_exists env (ticked env h)); pane = screen env h2; h3 = looked env h2 in
      if \<not> at_clock env h < deadline
      then Inl (Some (False, snd (session_exists env (looked env (ticked env h)))))
      else if \<not> at_exists env (ticked env h) then Inl (Some (False, h2))
      else if codex_blocking_modal pane \<noteq> None then Inl (Some (False, h3))
      else if shows_ready pane then Inl (Some (True, h3))
      else
        (case detect_prompt pane of
           None \<Rightarrow> Inr (resends, nap (do_poll_s opts) h3)
         | Some modal \<Rightarrow>
             if do_max_resends opts \<le> resends modal then Inl (Some (False, h3))
             else drain_modal fuel env opts resends h3))"
  by (cases "at_exists env (ticked env h)")
    (simp_all add: drain_body_def Let_def split_beta session_exists_def cong: if_cong option.case_cong)

lemma drain_body_keeps:
  assumes "keys_ok answers h"
  shows "drain_body fuel env opts deadline (resends, h) = Inr (resends', h') \<Longrightarrow> keys_ok answers h'"
    "drain_body fuel env opts deadline (resends, h) = Inl (Some (r, h')) \<Longrightarrow>
       keys_ok answers h' \<and> (r \<longrightarrow> shows_ready (last_seen h'))"
proof -
  let ?h2 = "snd (session_exists env (ticked env h))"
  have h3: "keys_ok answers (looked env ?h2)" using assms by (simp add: keyless)
  show "keys_ok answers h'" if "drain_body fuel env opts deadline (resends, h) = Inr (resends', h')"
    using that h3 drain_modal_keeps(1) [OF _ h3]
    by (auto simp: drain_body_eq Let_def keyless split: if_splits option.splits)
  show "keys_ok answers h' \<and> (r \<longrightarrow> shows_ready (last_seen h'))"
    if "drain_body fuel env opts deadline (resends, h) = Inl (Some (r, h'))"
    using that h3 assms drain_modal_keeps(2) [OF _ h3]
    by (auto simp: drain_body_eq Let_def keyless split: if_splits option.splits)
qed

lemma drain_keeps:
  assumes "drain_modals_until_ready fuel env opts h = Some (r, h')" and "keys_ok answers h"
  shows "keys_ok answers h' \<and> (r \<longrightarrow> shows_ready (last_seen h'))"
proof -
  let ?body = "drain_body fuel env opts (at_clock env h + do_timeout_s opts)"
  from assms(1) have run: "run_loop fuel ?body (\<lambda>_. 0, ticked env h) = Some (Some (r, h'))"
    by (simp add: drain_modals_until_ready_def flat_def split_beta split: option.splits)
  have "case Some (r, h') of None \<Rightarrow> True
      | Some (r, h') \<Rightarrow> keys_ok answers h' \<and> (r \<longrightarrow> shows_ready (last_seen h'))"
  proof (rule run_loop_invariant [OF run, where P = "\<lambda>s. keys_ok answers (snd s)"])
    show "keys_ok answers (snd s) \<Longrightarrow> ?body s = Inr s' \<Longrightarrow> keys_ok answers (snd s')" for s s'
      by (cases s; cases s') (simp add: drain_body_keeps(1))
    show "keys_ok answers (snd s) \<Longrightarrow> ?body s = Inl q \<Longrightarrow>
        (case q of None \<Rightarrow> True | Some (r, h') \<Rightarrow> keys_ok answers h' \<and> (r \<longrightarrow> shows_ready (last_seen h')))" for s q
      by (cases s) (auto dest: drain_body_keeps(2) split: option.splits)
  qed (use assms(2) in \<open>simp add: keyless\<close>)
  then show ?thesis by simp
qed

text \<open>Draining ends: every round that goes on lets a poll interval or a settling window pass.\<close>

definition drain_period :: "drain_opts \<Rightarrow> time" where
  "drain_period opts = min (do_poll_s opts) (max_wait_of opts)"

abbreviation drain_ok :: "nat \<Rightarrow> screen_env \<Rightarrow> drain_opts \<Rightarrow> bool" where
  "drain_ok fuel env opts \<equiv>
     clock_runs env \<and> 0 < do_poll_s opts \<and> 0 < max_wait_of opts
     \<and> rounds (max_wait_of opts) (do_poll_s opts) \<le> fuel"

lemma settle_with_result:
  assumes "drain_ok fuel env opts"
  obtains settled h1 where "settle_with fuel env opts h = Some (settled, h1)"
    and "at_clock env h + drain_period opts \<le> at_clock env h1"
proof -
  from assms wait_for_settle_ends obtain settled h1 where w: "settle_with fuel env opts h = Some (settled, h1)"
    unfolding settle_with_def by (metis surj_pair)
  moreover have "at_clock env h + drain_period opts \<le> at_clock env h1"
    using wait_for_settle_takes(1) [OF _ w [unfolded settle_with_def]] assms by (simp add: drain_period_def)
  ultimately show thesis by (rule that)
qed

lemma after_answer_later: "clock_runs env \<Longrightarrow> at_clock env h \<le> at_clock env (after_answer opts h)"
  if "0 < do_poll_s opts"
proof -
  assume c: "clock_runs env"
  show ?thesis
  proof (cases "0 < quiet_of opts")
    case True
    then show ?thesis
      using that ticking_steps(7) [OF c, of h "min (quiet_of opts) (do_poll_s opts)"]
      by (simp add: after_answer_def)
  qed (simp add: after_answer_def)
qed

lemma drain_modal_progress:
  assumes "drain_ok fuel env opts"
  shows "drain_modal fuel env opts resends h \<noteq> Inl None"
    "drain_modal fuel env opts resends h = Inr (resends', h') \<Longrightarrow>
       at_clock env h + drain_period opts \<le> at_clock env h'"
proof -
  obtain settled h1 where w: "settle_with fuel env opts h = Some (settled, h1)"
    and t: "at_clock env h + drain_period opts \<le> at_clock env h1"
    using assms by (rule settle_with_result)
  show "drain_modal fuel env opts resends h \<noteq> Inl None"
    by (auto simp: drain_modal_def w split: option.splits)
  have "at_clock env h1 \<le> at_clock env (after_answer opts (answer modal h1))" for modal
    using after_answer_later [of opts env "answer modal h1"] clock_press_all [of env h1] assms
    by (auto simp: answer_def intro: order_trans)
  with t show "drain_modal fuel env opts resends h = Inr (resends', h') \<Longrightarrow>
       at_clock env h + drain_period opts \<le> at_clock env h'"
    by (auto simp: drain_modal_def w split: option.splits if_splits intro: order_trans)
qed

lemma drain_body_progress:
  assumes "drain_ok fuel env opts"
  shows "drain_body fuel env opts deadline s \<noteq> Inl None"
    "drain_body fuel env opts deadline s = Inr s' \<Longrightarrow>
       at_clock env (snd s) < deadline \<and> at_clock env (snd s) + drain_period opts \<le> at_clock env (snd s')"
proof -
  obtain resends h where s: "s = (resends, h)" by (cases s)
  let ?h3 = "looked env (snd (session_exists env (ticked env h)))"
  have c: "clock_runs env" using assms by simp
  have h3: "at_clock env h \<le> at_clock env ?h3"
    using ticking_steps [OF c] by (meson order_trans)
  have napped: "at_clock env h + drain_period opts \<le> at_clock env (nap (do_poll_s opts) ?h3)"
    using h3 ticking_steps(8) [OF c, of "do_poll_s opts" ?h3] assms by (simp add: drain_period_def)
  note m = drain_modal_progress [OF assms, of resends ?h3]
  show "drain_body fuel env opts deadline s \<noteq> Inl None"
    using m(1) by (auto simp: s drain_body_eq Let_def split: option.splits)
  show "at_clock env (snd s) < deadline \<and> at_clock env (snd s) + drain_period opts \<le> at_clock env (snd s')"
    if b: "drain_body fuel env opts deadline s = Inr s'"
  proof
    show "at_clock env (snd s) < deadline"
      using b by (auto simp: s drain_body_eq Let_def split: if_splits)
    obtain resends' h' where s': "s' = (resends', h')" by (cases s')
    from b h3 napped m(2) [of resends' h']
    show "at_clock env (snd s) + drain_period opts \<le> at_clock env (snd s')"
      unfolding s s' drain_body_eq Let_def by (simp split: if_split_asm option.split_asm)
  qed
qed

interpretation drain: deadline_loop "\<lambda>_. drain_ok fuel env opts" "drain_body fuel env opts d"
    "\<lambda>s. at_clock env (snd s)" d "drain_period opts"
  for fuel env opts d
proof
  show "drain_ok fuel env opts \<Longrightarrow> 0 < drain_period opts" by (simp add: drain_period_def)
  show "\<And>s s'. drain_ok fuel env opts \<Longrightarrow> drain_body fuel env opts d s = Inr s' \<Longrightarrow>
      drain_ok fuel env opts \<and> at_clock env (snd s) + drain_period opts \<le> at_clock env (snd s')"
    using drain_body_progress(2) by blast
  show "\<And>s s'. drain_ok fuel env opts \<Longrightarrow> d \<le> at_clock env (snd s) \<Longrightarrow>
      drain_body fuel env opts d s \<noteq> Inr s'"
    using drain_body_progress(2) by (metis not_le)
qed

lemma start_within:
  fixes p :: rat
  assumes "clock_runs env" and "0 < p"
  shows "(at_clock env h + w - at_clock env (ticked env h)) / p \<le> of_nat (nat \<lceil>w / p\<rceil>)"
proof -
  have "(at_clock env h + w - at_clock env (ticked env h)) / p \<le> w / p"
    using ticking_steps(5) [OF assms(1), of h] assms(2) by (intro divide_right_mono) auto
  with rounds_enough [of w p] show ?thesis by linarith
qed

lemma drain_ends:
  assumes "drain_ok fuel env opts" and "rounds (do_timeout_s opts) (drain_period opts) \<le> fuel"
  shows "\<exists>r. drain_modals_until_ready fuel env opts h = Some r"
proof -
  let ?d = "at_clock env h + do_timeout_s opts"
  let ?s = "(\<lambda>_. 0, ticked env h)"
  have "0 < drain_period opts" using assms(1) by (simp add: drain_period_def)
  then have "(?d - at_clock env (snd ?s)) / drain_period opts
      \<le> of_nat (nat \<lceil>do_timeout_s opts / drain_period opts\<rceil>)"
    using start_within [of env "drain_period opts" h] assms(1) by simp
  from drain.ends [OF assms(1) this]
  obtain r where "run_loop (rounds (do_timeout_s opts) (drain_period opts)) (drain_body fuel env opts ?d) ?s = Some r"
    unfolding rounds_def by blast
  note r = run_loop_more [OF this assms(2)]
  have "r \<noteq> None"
    by (rule run_loop_invariant [OF r, where P = "\<lambda>_. True"])
      (metis drain_body_progress(1) [OF assms(1)])+
  with r show ?thesis by (auto simp: drain_modals_until_ready_def flat_def split_beta)
qed

subsection \<open>Waiting for the input box: each prompt is answered once\<close>

text \<open>\<open>answered ms h0 h\<close>: what was pressed since \<open>h0\<close> are the keys of the prompts \<open>ms\<close>.\<close>

definition answered :: "string list \<Rightarrow> history \<Rightarrow> history \<Rightarrow> bool" where
  "answered ms h0 h \<longleftrightarrow>
     distinct ms \<and>
     (\<forall>k. presses k h = (\<Sum>m \<leftarrow> ms. count_list (snd (respond_modal m)) k) + presses k h0)"

lemma answered_quiet:
  "answered ms h0 h \<Longrightarrow> (\<And>k. presses k h' = presses k h) \<Longrightarrow> answered ms h0 h'"
  by (simp add: answered_def)

lemma answered_more: "answered ms h0 h \<Longrightarrow> m \<notin> set ms \<Longrightarrow> answered (ms @ [m]) h0 (answer m h)"
  by (simp add: answered_def answer_def keyless)

lemma ready_modal_keeps:
  assumes "answered ms h0 h" and "q = ready_modal fuel env opts ms h"
  shows "q = Inr (ms', h') \<Longrightarrow> answered ms' h0 h'"
    "q = Inl (Some (r, h')) \<Longrightarrow> answered ms h0 h' \<and> (r = Inr True \<longrightarrow> shows_ready (last_seen h'))"
proof -
  have settled: "answered ms h0 h1 \<and> pane = last_seen h1"
    if "settle_with fuel env opts h = Some (pane, h1)" for pane h1
    using wait_for_settle_keeps [OF that [unfolded settle_with_def]] answered_quiet [OF assms(1)] by blast
  have nap: "answered ms h0 h1 \<Longrightarrow> answered ms h0 (nap p h1)" for h1 p
    by (rule answered_quiet) (auto simp: keyless)
  show "q = Inr (ms', h') \<Longrightarrow> answered ms' h0 h'"
    using settled nap answered_more
    by (auto simp: assms(2) ready_modal_def split: option.splits if_splits)
  show "q = Inl (Some (r, h')) \<Longrightarrow> answered ms h0 h' \<and> (r = Inr True \<longrightarrow> shows_ready (last_seen h'))"
    using settled by (auto simp: assms(2) ready_modal_def split: option.splits if_splits)
qed

lemma ready_body_eq:
  "ready_body fuel env opts deadline (accepted, h) =
     (let pane = screen env (ticked env h); h2 = looked env (ticked env h) in
      if \<not> at_clock env h < deadline then Inl (Some (Inl (NOT_READY ''marker not seen''), ticked env h))
      else if codex_blocking_modal pane \<noteq> None then Inl (Some (Inl (NOT_READY ''needs review''), h2))
      else if shows_ready pane then Inl (Some (Inr True, h2))
      else
        (case detect_prompt pane of
           None \<Rightarrow> Inr (accepted, nap (do_poll_s opts) h2)
         | Some modal \<Rightarrow>
             if modal \<in> set accepted then Inr (accepted, nap (do_poll_s opts) h2)
             else ready_modal fuel env opts accepted h2))"
  by (simp add: ready_body_def Let_def split_beta cong: option.case_cong if_cong)

lemma ready_body_keeps:
  assumes "answered ms h0 h"
  shows "ready_body fuel env opts d (ms, h) = Inr (ms', h') \<Longrightarrow> answered ms' h0 h'"
    "ready_body fuel env opts d (ms, h) = Inl (Some (r, h')) \<Longrightarrow>
       answered ms h0 h' \<and> (r = Inr True \<longrightarrow> shows_ready (last_seen h'))"
proof -
  have h2: "answered ms h0 (looked env (ticked env h))" "answered ms h0 (ticked env h)"
    "answered ms h0 (nap p (looked env (ticked env h)))" for p
    by (rule answered_quiet [OF assms], simp add: keyless)+
  note m = ready_modal_keeps [OF h2(1) refl]
  show "ready_body fuel env opts d (ms, h) = Inr (ms', h') \<Longrightarrow> answered ms' h0 h'"
    using h2 m(1) unfolding ready_body_eq Let_def by (auto split: if_split_asm option.split_asm)
  show "ready_body fuel env opts d (ms, h) = Inl (Some (r, h')) \<Longrightarrow>
       answered ms h0 h' \<and> (r = Inr True \<longrightarrow> shows_ready (last_seen h'))"
    using h2 m(2) unfolding ready_body_eq Let_def by (auto split: if_split_asm option.split_asm)
qed

lemma ready_keeps:
  assumes "wait_until_input_ready fuel env opts h = Some (r, h')"
  shows "\<exists>ms. answered ms h h' \<and> (r = Inr True \<longrightarrow> shows_ready (last_seen h'))"
proof (cases "at_exists env h")
  case False
  with assms have "h' = snd (session_exists env h)" "r \<noteq> Inr True"
    by (auto simp: wait_until_input_ready_def session_exists_def)
  then show ?thesis by (intro exI [of _ "[]"]) (simp add: answered_def keyless)
next
  case True
  let ?h1 = "snd (session_exists env h)"
  let ?body = "ready_body fuel env opts (at_clock env ?h1 + do_timeout_s opts)"
  from assms True have run: "run_loop fuel ?body ([], ticked env ?h1) = Some (Some (r, h'))"
    by (simp add: wait_until_input_ready_def session_exists_def flat_def split_beta split: option.splits)
  have "case Some (r, h') of None \<Rightarrow> True
      | Some (r, h') \<Rightarrow> \<exists>ms. answered ms h h' \<and> (r = Inr True \<longrightarrow> shows_ready (last_seen h'))"
  proof (rule run_loop_invariant [OF run, where P = "\<lambda>s. answered (fst s) h (snd s)"])
    show "answered (fst s) h (snd s) \<Longrightarrow> ?body s = Inr s' \<Longrightarrow> answered (fst s') h (snd s')" for s s'
      by (cases s; cases s') (simp add: ready_body_keeps(1))
    show "answered (fst s) h (snd s) \<Longrightarrow> ?body s = Inl q \<Longrightarrow>
        (case q of None \<Rightarrow> True
         | Some (r, h') \<Rightarrow> \<exists>ms. answered ms h h' \<and> (r = Inr True \<longrightarrow> shows_ready (last_seen h')))" for s q
      by (cases s) (auto dest: ready_body_keeps(2) split: option.splits)
  qed (simp add: answered_def keyless)
  then show ?thesis by simp
qed

text \<open>A round that goes on lets a poll, or the wait for a settled pane, pass.\<close>

lemma ready_modal_progress:
  assumes "drain_ok fuel env opts"
  shows "ready_modal fuel env opts ms h \<noteq> Inl None"
    "ready_modal fuel env opts ms h = Inr (ms', h') \<Longrightarrow> at_clock env h + drain_period opts \<le> at_clock env h'"
proof -
  obtain settled h1 where w: "settle_with fuel env opts h = Some (settled, h1)"
    and t: "at_clock env h + drain_period opts \<le> at_clock env h1"
    using assms by (rule settle_with_result)
  show "ready_modal fuel env opts ms h \<noteq> Inl None"
    by (auto simp: ready_modal_def w split: option.splits)
  have "at_clock env h1 \<le> at_clock env (nap (do_poll_s opts) h1)"
    using ticking_steps(8) [of env "do_poll_s opts" h1] assms by auto
  moreover have "at_clock env h1 \<le> at_clock env (answer modal h1)" for modal
    using clock_press_all [of env h1] assms by (simp add: answer_def)
  ultimately show "ready_modal fuel env opts ms h = Inr (ms', h') \<Longrightarrow>
      at_clock env h + drain_period opts \<le> at_clock env h'"
    using t by (auto simp: ready_modal_def w split: option.splits if_splits intro: order_trans)
qed

lemma ready_body_progress:
  assumes "drain_ok fuel env opts"
  shows "ready_body fuel env opts deadline s \<noteq> Inl None"
    "ready_body fuel env opts deadline s = Inr s' \<Longrightarrow>
       at_clock env (snd s) < deadline \<and> at_clock env (snd s) + drain_period opts \<le> at_clock env (snd s')"
proof -
  obtain ms h where s: "s = (ms, h)" by (cases s)
  let ?h2 = "looked env (ticked env h)"
  have c: "clock_runs env" using assms by simp
  have h2: "at_clock env h \<le> at_clock env ?h2"
    using ticking_steps [OF c] by (meson order_trans)
  have napped: "at_clock env h + drain_period opts \<le> at_clock env (nap (do_poll_s opts) ?h2)"
    using h2 ticking_steps(8) [OF c, of "do_poll_s opts" ?h2] assms by (simp add: drain_period_def)
  note m = ready_modal_progress [OF assms, of ms ?h2]
  show "ready_body fuel env opts deadline s \<noteq> Inl None"
    using m(1) by (auto simp: s ready_body_eq Let_def split: option.splits)
  show "at_clock env (snd s) < deadline \<and> at_clock env (snd s) + drain_period opts \<le> at_clock env (snd s')"
    if b: "ready_body fuel env opts deadline s = Inr s'"
  proof
    show "at_clock env (snd s) < deadline"
      using b by (auto simp: s ready_body_eq Let_def split: if_splits)
    obtain ms' h' where s': "s' = (ms', h')" by (cases s')
    from b h2 napped m(2) [of ms' h']
    show "at_clock env (snd s) + drain_period opts \<le> at_clock env (snd s')"
      unfolding s s' ready_body_eq Let_def by (simp split: if_split_asm option.split_asm)
  qed
qed

interpretation ready: deadline_loop "\<lambda>_. drain_ok fuel env opts" "ready_body fuel env opts d"
    "\<lambda>s. at_clock env (snd s)" d "drain_period opts"
  for fuel env opts d
proof
  show "drain_ok fuel env opts \<Longrightarrow> 0 < drain_period opts" by (simp add: drain_period_def)
  show "\<And>s s'. drain_ok fuel env opts \<Longrightarrow> ready_body fuel env opts d s = Inr s' \<Longrightarrow>
      drain_ok fuel env opts \<and> at_clock env (snd s) + drain_period opts \<le> at_clock env (snd s')"
    using ready_body_progress(2) by blast
  show "\<And>s s'. drain_ok fuel env opts \<Longrightarrow> d \<le> at_clock env (snd s) \<Longrightarrow>
      ready_body fuel env opts d s \<noteq> Inr s'"
    using ready_body_progress(2) by (metis not_le)
qed

lemma ready_ends:
  assumes "drain_ok fuel env opts" and "rounds (do_timeout_s opts) (drain_period opts) \<le> fuel"
  shows "\<exists>r. wait_until_input_ready fuel env opts h = Some r"
proof (cases "at_exists env h")
  case False
  then show ?thesis by (auto simp: wait_until_input_ready_def session_exists_def)
next
  case True
  let ?h = "snd (session_exists env h)"
  let ?d = "at_clock env ?h + do_timeout_s opts"
  let ?s = "([], ticked env ?h) :: ready_state"
  have "0 < drain_period opts" using assms(1) by (simp add: drain_period_def)
  then have "(?d - at_clock env (snd ?s)) / drain_period opts
      \<le> of_nat (nat \<lceil>do_timeout_s opts / drain_period opts\<rceil>)"
    using start_within [of env "drain_period opts" ?h] assms(1) by simp
  from ready.ends [OF assms(1) this]
  obtain r where "run_loop (rounds (do_timeout_s opts) (drain_period opts)) (ready_body fuel env opts ?d) ?s = Some r"
    unfolding rounds_def by blast
  note r = run_loop_more [OF this assms(2)]
  have "r \<noteq> None"
    by (rule run_loop_invariant [OF r, where P = "\<lambda>_. True"])
      (metis ready_body_progress(1) [OF assms(1)])+
  with r True show ?thesis by (auto simp: wait_until_input_ready_def session_exists_def flat_def split_beta)
qed

subsection \<open>The watchdog\<close>

lemma accept_body_eq:
  "accept_body env start (accepted, h) =
     (let h3 = snd (session_exists env (ticked env (ticked env h))); content = screen env h3 in
      if \<not> at_clock env h - start < AUTO_ACCEPT_TIMEOUT_S then Inl (False, ticked env h)
      else if \<not> at_exists env (ticked env (ticked env h)) then Inl (False, h3)
      else if is_ready content then Inl (True, looked env h3)
      else
        (let m = tmux_detect_and_respond content accepted in
         Inr (case fst m of None \<Rightarrow> accepted | Some n \<Rightarrow> accepted @ [n],
              sleep 2 (press_all (snd m) (looked env h3)))))"
  by (cases "at_exists env (ticked env (ticked env h))")
    (simp_all add: accept_body_def Let_def split_beta session_exists_def cong: option.case_cong if_cong)

lemma accept_body_progress:
  assumes "clock_runs env" and "accept_body env start s = Inr s'"
  shows "at_clock env (snd s) < start + AUTO_ACCEPT_TIMEOUT_S"
    "at_clock env (snd s) + 2 \<le> at_clock env (snd s')"
proof -
  obtain accepted h where s: "s = (accepted, h)" by (cases s)
  let ?h3 = "snd (session_exists env (ticked env (ticked env h)))"
  from assms(2) show "at_clock env (snd s) < start + AUTO_ACCEPT_TIMEOUT_S"
    by (auto simp: s accept_body_eq Let_def split: if_splits)
  obtain keys where s': "snd s' = sleep 2 (press_all keys (looked env ?h3))"
    using assms(2) by (auto simp: s accept_body_eq Let_def split: if_splits)
  have "at_clock env h \<le> at_clock env (press_all keys (looked env ?h3))"
    using ticking_steps [OF assms(1)] clock_press_all [OF assms(1)] by (meson order_trans)
  with ticking_steps(7) [OF assms(1), of "press_all keys (looked env ?h3)" 2]
  show "at_clock env (snd s) + 2 \<le> at_clock env (snd s')" by (simp add: s s')
qed

interpretation accept: deadline_loop "\<lambda>_. clock_runs env" "accept_body env start"
    "\<lambda>s. at_clock env (snd s)" "start + AUTO_ACCEPT_TIMEOUT_S" 2
  for env start
proof
  show "\<And>s s'. clock_runs env \<Longrightarrow> accept_body env start s = Inr s' \<Longrightarrow>
      clock_runs env \<and> at_clock env (snd s) + 2 \<le> at_clock env (snd s')"
    using accept_body_progress(2) by blast
  show "\<And>s s'. clock_runs env \<Longrightarrow> start + AUTO_ACCEPT_TIMEOUT_S \<le> at_clock env (snd s) \<Longrightarrow>
      accept_body env start s \<noteq> Inr s'"
    using accept_body_progress(1) by (metis not_le)
qed simp

lemma accept_ends:
  assumes "clock_runs env"
  shows "\<exists>r. send_auto_accept_keystrokes 46 env auto_accept flags h = Some r"
proof -
  let ?start = "at_clock env h"
  have "(?start + AUTO_ACCEPT_TIMEOUT_S - at_clock env (snd ([], ticked env h))) / 2 \<le> of_nat 45"
    using ticking_steps(5) [OF assms, of h] by (simp add: AUTO_ACCEPT_TIMEOUT_S_def)
  from accept.ends [OF assms this]
  obtain r where "run_loop (Suc 45) (accept_body env ?start) ([], ticked env h) = Some r" by blast
  moreover have "Suc 45 = 46" by simp
  ultimately have "run_loop 46 (accept_body env ?start) ([], ticked env h) = Some r" by (simp only:)
  then show ?thesis by (auto simp: send_auto_accept_keystrokes_def split_beta)
qed

text \<open>
  A round of the watchdog on a pane that needs an answer: what it recorded and which keys it
  pressed.
\<close>

lemma accept_round:
  assumes "accept_body env start (accepted, h) = Inr s'" and "\<forall>h. at_capture env h = Some c"
  shows "fst s' = (case fst (tmux_detect_and_respond c accepted) of None \<Rightarrow> accepted | Some n \<Rightarrow> accepted @ [n])"
    "presses k (snd s') = count_list (snd (tmux_detect_and_respond c accepted)) k + presses k h"
  using assms(1,2) by (auto simp: accept_body_eq Let_def pane_text_def keyless split: if_splits)

lemma question_is_first:
  assumes "detect_operator_question c" and "codex_blocking_modal c = None"
  shows "tmux_detect_and_respond c [] = (Some ''operator-question'', [])"
proof -
  obtain ph where m: "first_match TMUX_PROMPT_HANDLERS [] c = Some ph"
    using assms(1) operator_question_in first_match_None_iff [of TMUX_PROMPT_HANDLERS "[]" c]
    by (cases "first_match TMUX_PROMPT_HANDLERS [] c") (auto simp: mk_handler_def)
  from first_match_least [OF m operator_question_in] assms(1) have "ph_priority ph \<le> 0"
    by (simp add: mk_handler_def)
  moreover have "list_all (\<lambda>h. ph_priority h \<le> 0 \<longrightarrow> ph_name h = ''operator-question'') TMUX_PROMPT_HANDLERS"
    by code_simp
  ultimately have "ph_name ph = ''operator-question''" "ph_keys ph = []"
    using first_match_Some(1) [OF m] tmux_priority_zero by (auto simp: list_all_iff)
  with m assms(2) show ?thesis by (simp add: tmux_detect_and_respond_def)
qed

end
