(* ===== verification/Turn_Delivery.thy ===== *)
theory Turn_Delivery
  imports Drain_Facts Delivery_Facts
begin

text \<open>
  Handing a turn to a live pane: \<open>runtimes/_tui_delivery.py\<close>, which refuses a pane that would park
  the turn (\<open>runtimes/_pane_acceptance.py\<close>), and then pastes and submits it with the verifier of
  \<open>Compose\<close>. \<open>ensure_ready\<close>, the drain a caller may pass, is a function argument there and here.
\<close>

subsection \<open>Would the pane run it?\<close>

definition ACCEPT_BUSY_MARKERS :: "utext list" where
  "ACCEPT_BUSY_MARKERS = [u ''tokens)'', u ''without interrupting'', u ''esc to interrupt'']"

definition QUEUED_MARKER :: utext where
  "QUEUED_MARKER = u ''Press up to edit queued messages''"

definition accept_is_busy :: "utext \<Rightarrow> bool" where
  "accept_is_busy content \<longleftrightarrow> list_ex (\<lambda>m. holds m content) ACCEPT_BUSY_MARKERS"

definition has_queued_input :: "utext \<Rightarrow> bool" where
  "has_queued_input content \<longleftrightarrow> holds QUEUED_MARKER content"

definition is_accepting :: "utext \<Rightarrow> bool" where
  "is_accepting content \<longleftrightarrow> is_ready content \<and> \<not> accept_is_busy content \<and> \<not> has_queued_input content"

definition refusal_reason :: "utext \<Rightarrow> string option" where
  "refusal_reason content =
     (if \<not> is_ready content then Some ''a modal is blocking the input''
      else if accept_is_busy content then Some ''the agent is mid-turn''
      else if has_queued_input content then Some ''the pane is already holding queued input''
      else None)"

lemma refusal_iff: "refusal_reason content = None \<longleftrightarrow> is_accepting content"
  by (simp add: refusal_reason_def is_accepting_def)

subsection \<open>Handing it over\<close>

record turn_opts =
  tn_wait_ready :: bool
  tn_require_accepting :: bool
  tn_poll_s :: time
  tn_appear_timeout_s :: time
  tn_idle_wait_s :: time
  tn_proof_stable_s :: time
  tn_max_resends :: nat

definition default_turn_opts :: turn_opts where
  "default_turn_opts =
     \<lparr>tn_wait_ready = True, tn_require_accepting = True, tn_poll_s = 2 / 10, tn_appear_timeout_s = 2,
      tn_idle_wait_s = 3, tn_proof_stable_s = 6 / 10, tn_max_resends = 3\<rparr>"

definition turn_submit_opts :: "turn_opts \<Rightarrow> utext \<Rightarrow> submit_opts" where
  "turn_submit_opts opts text =
     \<lparr>so_fragment = Some text, so_max_resends = tn_max_resends opts, so_poll_s = tn_poll_s opts,
      so_appear_timeout_s = tn_appear_timeout_s opts, so_idle_wait_s = tn_idle_wait_s opts,
      so_escape_before_enter = True, so_escape_settle_s = 1, so_proof_stable_s = tn_proof_stable_s opts,
      so_require_proof = True\<rparr>"

definition paste_and_submit :: "nat \<Rightarrow> screen_env \<Rightarrow> turn_opts \<Rightarrow> utext \<Rightarrow> history \<Rightarrow> bool result outcome" where
  "paste_and_submit fuel env opts text h =
     (case verify_submit_by_advancement fuel env (turn_submit_opts opts text) (paste text h) of
        None \<Rightarrow> None
      | Some (b, h1) \<Rightarrow> Some (Inr b, h1))"

definition send_if_accepting :: "nat \<Rightarrow> screen_env \<Rightarrow> turn_opts \<Rightarrow> utext \<Rightarrow> history \<Rightarrow> bool result outcome" where
  "send_if_accepting fuel env opts text h =
     (if tn_require_accepting opts then
        (let (content, h1) = look env h in
         if \<not> is_accepting content then Some (Inr False, h1) else paste_and_submit fuel env opts text h1)
      else paste_and_submit fuel env opts text h)"

definition send_turn_to_pane ::
    "nat \<Rightarrow> screen_env \<Rightarrow> turn_opts \<Rightarrow> (history \<Rightarrow> bool result outcome) option \<Rightarrow> utext \<Rightarrow> history
      \<Rightarrow> bool result outcome" where
  "send_turn_to_pane fuel env opts ensure_ready text h =
     (let (alive, h1) = session_exists env h in
      if \<not> alive then Some (Inr False, h1)
      else
        (case (if tn_wait_ready opts then ensure_ready else None) of
           None \<Rightarrow> send_if_accepting fuel env opts text h1
         | Some drain \<Rightarrow>
             (case drain h1 of
                None \<Rightarrow> None
              | Some (Inl e, h2) \<Rightarrow> Some (Inl e, h2)
              | Some (Inr _, h2) \<Rightarrow> send_if_accepting fuel env opts text h2)))"

definition why_not_deliverable :: "screen_env \<Rightarrow> history \<Rightarrow> string option \<times> history" where
  "why_not_deliverable env h =
     (let (alive, h1) = session_exists env h in
      if \<not> alive then (Some ''no tmux session for this agent'', h1)
      else (let (content, h2) = look env h1 in (refusal_reason content, h2)))"

subsection \<open>What a handed turn went through\<close>

lemma turn_require_proof [simp]: "so_require_proof (turn_submit_opts opts text)"
  by (simp add: turn_submit_opts_def)

lemma paste_and_submit_facts:
  assumes "paste_and_submit fuel env opts text h = Some (r, h')"
  shows "\<exists>b. r = Inr b \<and> sends h' = Suc (sends h) \<and> (b \<longrightarrow> submit_evidence (turn_submit_opts opts text) h')"
proof -
  obtain b where v: "verify_submit_by_advancement fuel env (turn_submit_opts opts text) (paste text h) = Some (b, h')"
    and r: "r = Inr b"
    using assms by (auto simp: paste_and_submit_def split: option.splits)
  have "sends h' = Suc (sends h)"
    using verify_submit_quiet [OF v] by (simp add: quiet_def paste_def sends_def)
  moreover have "b \<longrightarrow> submit_evidence (turn_submit_opts opts text) h'"
    using verify_submit_evidence v by auto
  ultimately show ?thesis using r by blast
qed

lemma send_if_accepting_facts:
  assumes "send_if_accepting fuel env opts text h = Some (r, h')"
  shows "\<exists>b. r = Inr b \<and> sends h' \<le> Suc (sends h)
    \<and> (b \<longrightarrow> sends h' = Suc (sends h) \<and> submit_evidence (turn_submit_opts opts text) h')
    \<and> (tn_require_accepting opts \<longrightarrow> \<not> is_accepting (screen env h) \<longrightarrow> \<not> b \<and> sends h' = sends h)"
proof (cases "tn_require_accepting opts \<and> \<not> is_accepting (screen env h)")
  case True
  then have "send_if_accepting fuel env opts text h = Some (Inr False, looked env h)"
    by (simp add: send_if_accepting_def split_beta)
  with assms have "r = Inr False" "h' = looked env h" by simp_all
  moreover have "sends (looked env h) = sends h" by (simp add: look_def sends_def)
  ultimately show ?thesis by (intro exI [of _ False]) simp
next
  case False
  define h1 where "h1 = (if tn_require_accepting opts then looked env h else h)"
  have h1: "sends h1 = sends h" by (simp add: h1_def look_def sends_def)
  have "paste_and_submit fuel env opts text h1 = Some (r, h')"
    using False assms by (cases "tn_require_accepting opts") (simp_all add: send_if_accepting_def split_beta h1_def)
  from paste_and_submit_facts [OF this] obtain b where "r = Inr b" "sends h' = Suc (sends h)"
    "b \<longrightarrow> submit_evidence (turn_submit_opts opts text) h'" using h1 by auto
  with False show ?thesis by (intro exI [of _ b]) simp
qed

lemma send_turn_facts:
  assumes "send_turn_to_pane fuel env opts ensure text h = Some (Inr b, h')"
    and "\<And>drain h1 r h2. ensure = Some drain \<Longrightarrow> drain h1 = Some (r, h2) \<Longrightarrow> sends h2 = sends h1"
  shows "sends h' \<le> Suc (sends h)"
    and "b \<Longrightarrow> sends h' = Suc (sends h) \<and> submit_evidence (turn_submit_opts opts text) h'"
proof -
  have e: "sends (snd (session_exists env h)) = sends h" by (simp add: session_exists_def sends_def)
  have "sends h' \<le> Suc (sends h) \<and> (b \<longrightarrow> sends h' = Suc (sends h) \<and> submit_evidence (turn_submit_opts opts text) h')"
  proof (cases "at_exists env h")
    case False
    with assms(1) have "\<not> b" "h' = snd (session_exists env h)"
      by (auto simp: send_turn_to_pane_def session_exists_def)
    with e show ?thesis by simp
  next
    case alive: True
    obtain h2 where "send_if_accepting fuel env opts text h2 = Some (Inr b, h')" and "sends h2 = sends h"
    proof (cases "if tn_wait_ready opts then ensure else None")
      case None
      with assms(1) alive e that show thesis
        by (simp add: send_turn_to_pane_def split_beta session_exists_def)
    next
      case (Some drain)
      then have d: "ensure = Some drain" by (simp split: if_splits)
      from assms(1) alive Some obtain r h2 where "drain (snd (session_exists env h)) = Some (Inr r, h2)"
        and "send_if_accepting fuel env opts text h2 = Some (Inr b, h')"
        by (auto simp: send_turn_to_pane_def session_exists_def split_beta split: option.splits sum.splits)
      with assms(2) [OF d] e that show thesis by metis
    qed
    from send_if_accepting_facts [OF this(1)] this(2) show ?thesis by (elim exE) simp
  qed
  then show "sends h' \<le> Suc (sends h)"
    and "b \<Longrightarrow> sends h' = Suc (sends h) \<and> submit_evidence (turn_submit_opts opts text) h'" by blast+
qed

subsection \<open>With the wait the session passes\<close>

lemma quiet_more:
  "quiet h h1 \<Longrightarrow> quiet h (snd (session_exists env h1))" "quiet h h1 \<Longrightarrow> quiet h (press_all keys h1)"
  "quiet h h1 \<Longrightarrow> quiet h (settle_round env p h1)"
proof -
  show "quiet h h1 \<Longrightarrow> quiet h (snd (session_exists env h1))"
    by (simp add: session_exists_def quiet_event)
  have "quiet h h1 \<Longrightarrow> quiet h (map Pressed ks @ h1)" for ks
    by (induction ks) (simp_all add: quiet_event)
  then show "quiet h h1 \<Longrightarrow> quiet h (press_all keys h1)" by (simp add: press_all_def rev_map)
  show "quiet h h1 \<Longrightarrow> quiet h (settle_round env p h1)"
    unfolding settle_round_def by (intro quiets)
qed

lemma settle_quiet:
  assumes "settle_with fuel env opts h = Some (pane, h')"
  shows "quiet h h'"
proof -
  let ?h3 = "ticked env (looked env (ticked env h))"
  obtain q p d s0 where run: "run_loop fuel (settle_body env q p d) s0 = Some (pane, h')" and s0: "snd (snd s0) = ?h3"
    using assms by (simp add: settle_with_def wait_for_settle_def split_beta)
  have "quiet (snd (snd s0)) (snd (pane, h'))"
    by (rule quiet_loop [OF run, where hist = "\<lambda>s. snd (snd s)"])
      (auto simp: settle_body_eq Let_def quiets quiet_more split: if_splits)
  moreover have "quiet h ?h3" by (intro quiets)
  ultimately show ?thesis using s0 quiet_trans by simp
qed

lemma ready_modal_quiet:
  assumes "quiet h0 h"
  shows "ready_modal fuel env opts ms h = Inr (ms', h') \<Longrightarrow> quiet h0 h'"
    "ready_modal fuel env opts ms h = Inl (Some (r, h')) \<Longrightarrow> quiet h0 h'"
  using settle_quiet [of fuel env opts h] quiet_trans [OF assms]
  by (auto simp: ready_modal_def answer_def quiets quiet_more split: option.splits if_splits)

lemma ready_quiet:
  assumes "wait_until_input_ready fuel env opts h = Some (r, h')"
  shows "quiet h h'"
proof (cases "at_exists env h")
  case False
  with assms have "h' = snd (session_exists env h)"
    by (auto simp: wait_until_input_ready_def session_exists_def)
  then show ?thesis by (simp add: quiets quiet_more)
next
  case True
  let ?h1 = "snd (session_exists env h)"
  let ?body = "ready_body fuel env opts (at_clock env ?h1 + do_timeout_s opts)"
  from assms True have run: "run_loop fuel ?body ([], ticked env ?h1) = Some (Some (r, h'))"
    by (auto simp: wait_until_input_ready_def session_exists_def split_beta clock_def flat_def split: option.splits)
  have looked: "quiet h hs \<Longrightarrow> quiet h (looked env (ticked env hs))" for hs by (intro quiets)
  have "case Some (r, h') of None \<Rightarrow> True | Some (r, h') \<Rightarrow> quiet h h'"
  proof (rule run_loop_invariant [OF run, where P = "\<lambda>s. quiet h (snd s)"])
    show "quiet h (snd s) \<Longrightarrow> ?body s = Inr s' \<Longrightarrow> quiet h (snd s')" for s s'
      using ready_modal_quiet(1) [OF looked, of "snd s"]
      by (cases s; cases s') (auto simp: ready_body_eq Let_def quiets split: if_split_asm option.split_asm)
    show "quiet h (snd s) \<Longrightarrow> ?body s = Inl q \<Longrightarrow> case q of None \<Rightarrow> True | Some (r, h') \<Rightarrow> quiet h h'" for s q
      using ready_modal_quiet(2) [OF looked, of "snd s"]
      by (cases s) (auto simp: ready_body_eq Let_def quiets split: if_split_asm option.split_asm option.splits)
  qed (simp add: quiets quiet_more)
  then show ?thesis by simp
qed

text \<open>Handing over returns, by the deadlines of the wait and of the submit verifier.\<close>

lemma send_if_accepting_ends:
  assumes "clock_runs env" and "0 < tn_poll_s opts" and "submit_fuel (turn_submit_opts opts text) \<le> fuel"
  shows "\<exists>r. send_if_accepting fuel env opts text h = Some r"
proof -
  have "\<exists>r. paste_and_submit fuel env opts text h = Some r" for h
  proof -
    have "0 < so_poll_s (turn_submit_opts opts text)" using assms(2) by (simp add: turn_submit_opts_def)
    from verify_submit_ends [OF assms(1) this assms(3), of "paste text h"]
    show ?thesis by (auto simp: paste_and_submit_def split: option.splits)
  qed
  then show ?thesis by (auto simp: send_if_accepting_def split_beta Let_def)
qed

lemma send_turn_ends:
  assumes "drain_ok fuel env drain" and "rounds (do_timeout_s drain) (drain_period drain) \<le> fuel"
    and "0 < tn_poll_s opts" and "submit_fuel (turn_submit_opts opts text) \<le> fuel"
  shows "\<exists>r. send_turn_to_pane fuel env opts (Some (wait_until_input_ready fuel env drain)) text h = Some r"
proof -
  have c: "clock_runs env" using assms(1) by simp
  show ?thesis
    using ready_ends [OF assms(1,2), of "snd (session_exists env h)"] send_if_accepting_ends [OF c assms(3,4)]
    by (auto simp: send_turn_to_pane_def split_beta Let_def split: option.split sum.split)
qed

text \<open>A wait that raises leaves the turn unpasted.\<close>

lemma send_turn_raises:
  assumes "send_turn_to_pane fuel env opts (Some (wait_until_input_ready fuel env drain)) text h = Some (Inl err, h')"
  shows "sends h' = sends h"
proof -
  have e: "sends (snd (session_exists env h)) = sends h" by (simp add: session_exists_def sends_def)
  have accepting: "send_if_accepting fuel env opts text h1 \<noteq> Some (Inl err, h')" for h1
    using send_if_accepting_facts [of fuel env opts "text" h1 "Inl err" h'] by auto
  with assms have "wait_until_input_ready fuel env drain (snd (session_exists env h)) = Some (Inl err, h')"
    by (auto simp: send_turn_to_pane_def split_beta Let_def split: if_splits option.splits sum.splits)
  from ready_quiet [OF this] e show ?thesis by (simp add: quiet_def)
qed

lemma send_turn_with_wait:
  assumes "send_turn_to_pane fuel env opts (Some (wait_until_input_ready fuel env drain)) text h = Some (Inr b, h')"
  shows "sends h' \<le> Suc (sends h)"
    and "b \<Longrightarrow> sends h' = Suc (sends h) \<and> submit_evidence (turn_submit_opts opts text) h'"
proof -
  have q: "sends h2 = sends h1" if "wait_until_input_ready fuel env drain h1 = Some (r, h2)" for h1 h2 r
    using ready_quiet [OF that] by (simp add: quiet_def)
  show "sends h' \<le> Suc (sends h)"
    by (rule send_turn_facts(1) [OF assms]) (use q in auto)
  show "b \<Longrightarrow> sends h' = Suc (sends h) \<and> submit_evidence (turn_submit_opts opts text) h'"
    by (rule send_turn_facts(2) [OF assms]) (use q in auto)
qed

end
