(* ===== verification/Terminal_Claims.thy ===== *)
theory Terminal_Claims
  imports Turn_Delivery Auth_Banner
begin

text \<open>
  The properties of the components that drive a terminal: answering prompts, draining them at
  start, submitting and clearing the compose box, handing a turn over, and telling a stuck login.
  Each is about every environment. The witnesses run the code's model on small ones, whose clock is
  the time slept so far and whose screen changes with the keys pressed.
\<close>

subsection \<open>Environments\<close>

definition slept :: "history \<Rightarrow> time" where
  "slept h = sum_list (map (\<lambda>e. case e of Slept d \<Rightarrow> d | _ \<Rightarrow> 0) h)"

definition stays_up :: "history \<Rightarrow> bool" where
  "stays_up h = True"

definition pane_env :: "(history \<Rightarrow> utext option) \<Rightarrow> screen_env" where
  "pane_env pane = \<lparr>at_capture = pane, at_clock = slept, at_exists = stays_up\<rparr>"

lemma slept_clock: "clock_runs \<lparr>at_capture = p, at_clock = slept, at_exists = x\<rparr>"
  unfolding clock_runs_def
proof (intro allI)
  fix h e
  show "at_clock \<lparr>at_capture = p, at_clock = slept, at_exists = x\<rparr> h + (case e of Slept d \<Rightarrow> d | _ \<Rightarrow> 0)
      \<le> at_clock \<lparr>at_capture = p, at_clock = slept, at_exists = x\<rparr> (e # h)"
    by (cases e) (simp_all add: slept_def)
qed

lemma pane_env_clock: "clock_runs (pane_env pane)"
  by (simp add: pane_env_def slept_clock)

definition status_row :: utext where "status_row = u ''bypass permissions on''"

definition draft_text :: utext where "draft_text = u ''please run the nightly build''"

text \<open>The box at rest; a draft waiting in it until Enter; and a start dialog until it is answered.\<close>

definition idle_pane :: utext where
  "idle_pane = join_rows [[CLAUDE_MARKER], status_row]"

definition draft_pane :: "history \<Rightarrow> utext option" where
  "draft_pane h =
     Some (if presses ''Enter'' h = 0
       then join_rows [[CLAUDE_MARKER, 32] @ draft_text, status_row]
       else join_rows [u ''> '' @ draft_text, u ''ok'', [CLAUDE_MARKER], status_row])"

definition start_dialog :: utext where
  "start_dialog = join_rows [u ''Bypass Permissions'', u ''2. Yes, I accept'', u ''Enter to confirm'']"

definition start_pane :: "history \<Rightarrow> utext option" where
  "start_pane h = Some (if presses ''Enter'' h = 0 then start_dialog else idle_pane)"

definition stale_pane :: "history \<Rightarrow> utext option" where
  "stale_pane h =
     Some (if presses ''Escape'' h < 2 then join_rows [[CLAUDE_MARKER, 32] @ u ''left over'', status_row] else idle_pane)"

definition demo_drain_opts :: drain_opts where
  "demo_drain_opts = \<lparr>do_timeout_s = 20, do_poll_s = 1, do_quiet_s = Some 1, do_max_wait_s = Some 2, do_max_resends = 3\<rparr>"

definition demo_submit_opts :: submit_opts where
  "demo_submit_opts =
     \<lparr>so_fragment = Some draft_text, so_max_resends = 3, so_poll_s = 1, so_appear_timeout_s = 2, so_idle_wait_s = 3,
      so_escape_before_enter = True, so_escape_settle_s = 1, so_proof_stable_s = 1, so_require_proof = True\<rparr>"

definition outcome_of :: "'a outcome \<Rightarrow> 'a option" where
  "outcome_of r = map_option fst r"

lemma start_dialog_reads:
  "codex_blocking_modal start_dialog = None" "\<not> shows_ready start_dialog"
  "detect_prompt start_dialog = Some ''bypass-permissions''"
  "respond_modal ''bypass-permissions'' = (True, [''2'', ''Enter''])"
  "codex_blocking_modal idle_pane = None" "shows_ready idle_pane"
  by code_simp+

lemma outcome_ofD: "outcome_of r = Some x \<Longrightarrow> \<exists>h. r = Some (x, h)"
  by (auto simp: outcome_of_def)

subsection \<open>Start dialogs\<close>

text \<open>Draining the start dialogs presses nothing but the reviewed answer to the dialog that is on the
  last captured pane: no key while a codex modal is up, never Escape. The drain says it succeeded
  only when the last pane it read shows an input that is ready.
\<close>

theorem drain_presses_only_answers:
  assumes "drain_modals_until_ready fuel env opts h = Some (r, h')" and "keys_ok answers h"
  shows "keys_ok answers h' \<and> presses ''Escape'' h' = 0 \<and> (r \<longrightarrow> shows_ready (last_seen h'))"
  using drain_keeps [OF assms] keys_ok_never [of answers h' "''Escape''"] answers_no_escape by blast

definition after_the_dialog :: history where
  "after_the_dialog = [Pressed ''Enter'', Pressed ''2'', Captured (Some start_dialog)]"

theorem drain_presses_only_answers_witness:
  "\<exists>h'. drain_modals_until_ready (Suc 0) (pane_env start_pane) demo_drain_opts after_the_dialog = Some (True, h')
     \<and> keys_ok answers h' \<and> shows_ready (last_seen h')"
proof -
  let ?env = "pane_env start_pane" and ?h1 = "ticked (pane_env start_pane) after_the_dialog"
  let ?h2 = "snd (session_exists ?env (ticked ?env ?h1))"
  have "presses ''Enter'' ?h2 \<noteq> 0"
    by (simp add: after_the_dialog_def clock_def session_exists_def)
  then have pane: "screen ?env ?h2 = idle_pane" by (simp add: pane_env_def start_pane_def pane_text_def)
  have "at_clock ?env ?h1 < 20 \<and> at_exists ?env (ticked ?env ?h1) \<and> at_clock ?env after_the_dialog + do_timeout_s demo_drain_opts = 20"
    by (simp add: pane_env_def slept_def clock_def after_the_dialog_def demo_drain_opts_def stays_up_def)
  then have "drain_body (Suc 0) ?env demo_drain_opts 20 (\<lambda>_. 0, ?h1) = Inl (Some (True, looked ?env ?h2))"
    using start_dialog_reads(5,6) pane by (simp only: drain_body_eq Let_def) simp
  then have "drain_modals_until_ready (Suc 0) ?env demo_drain_opts after_the_dialog = Some (True, looked ?env ?h2)"
    using \<open>_ \<and> _ \<and> _ = 20\<close> by (simp add: drain_modals_until_ready_def flat_def split_beta clock_def)
  then obtain h' where run: "drain_modals_until_ready (Suc 0) ?env demo_drain_opts after_the_dialog = Some (True, h')" ..
  have "keys_ok answers after_the_dialog"
    by (simp add: after_the_dialog_def answers_def start_dialog_reads pane_text_def)
  from drain_presses_only_answers [OF run this] run show ?thesis by simp
qed

text \<open>Waiting for the input box answers no dialog twice: the keys it pressed are exactly the answers of
  a list of distinct dialogs. It reports ready only when the last pane it read shows it.
\<close>

theorem ready_wait_answers_each_once:
  assumes "wait_until_input_ready fuel env opts h = Some (r, h')"
  shows "\<exists>ms. distinct ms
    \<and> (\<forall>k. presses k h' = (\<Sum>m \<leftarrow> ms. count_list (snd (respond_modal m)) k) + presses k h)
    \<and> (r = Inr True \<longrightarrow> shows_ready (last_seen h'))"
  using ready_keeps [OF assms] by (auto simp: answered_def)

theorem ready_wait_answers_each_once_witness:
  "\<exists>h'. wait_until_input_ready 40 (pane_env start_pane) demo_drain_opts [] = Some (Inr True, h') \<and> shows_ready (last_seen h')"
proof -
  have "map_option (\<lambda>r. r = Inr True) (outcome_of (wait_until_input_ready 40 (pane_env start_pane) demo_drain_opts [])) = Some True"
    by code_simp
  then obtain h' where run: "wait_until_input_ready 40 (pane_env start_pane) demo_drain_opts [] = Some (Inr True, h')"
    by (auto dest: outcome_ofD)
  from ready_wait_answers_each_once [OF run] run show ?thesis by auto
qed

subsection \<open>The start watchdog\<close>

text \<open>The watchdog that answers start dialogs in tmux sends an operator's question no key when it first
  sees it. But it notes the question as accepted, so if the question is still up at the next
  poll, the next handler that recognises the pane presses its keys into the dialog.
\<close>

theorem watchdog_answers_question_on_second_look:
  assumes "\<And>h. at_capture env h = Some c" and "detect_operator_question c" and "codex_blocking_modal c = None"
    and "first_match TMUX_PROMPT_HANDLERS [''operator-question''] c = Some ph"
    and "accept_body env start ([], h) = Inr s1" and "accept_body env start s1 = Inr s2"
  shows "presses k (snd s1) = presses k h \<and> presses k (snd s2) = count_list (ph_keys ph) k + presses k h"
proof -
  note question = question_is_first [OF assms(2,3)]
  have c: "\<forall>h. at_capture env h = Some c" using assms(1) by simp
  from accept_round [OF assms(5) c] question have s1: "fst s1 = [''operator-question'']" "presses k (snd s1) = presses k h"
    by simp_all
  then have "accept_body env start ([''operator-question''], snd s1) = Inr s2" using assms(6) by (metis prod.collapse)
  from accept_round(2) [OF this c] assms(3,4) s1(2) show ?thesis by (simp add: tmux_detect_and_respond_def)
qed

definition question_pane :: utext where
  "question_pane =
     join_rows [u ''Which branch?'', [CLAUDE_MARKER, 32] @ u ''1. main'', u ''2. dev'',
       u ''Enter to select '' @ [0xB7] @ u '' to navigate '' @ [0xB7] @ u '' Esc to cancel'']"

definition still_question :: "history \<Rightarrow> utext option" where
  "still_question h = Some question_pane"

theorem watchdog_answers_question_on_second_look_witness:
  "\<exists>s1 s2. accept_body (pane_env still_question) 0 ([], []) = Inr s1
     \<and> accept_body (pane_env still_question) 0 s1 = Inr s2
     \<and> presses ''Enter'' (snd s1) = 0 \<and> presses ''Enter'' (snd s2) = 1"
proof -
  have ready: "\<not> is_ready question_pane" by code_simp
  have q: "detect_operator_question question_pane" by code_simp
  have m: "codex_blocking_modal question_pane = None" by code_simp
  have f: "map_option ph_keys (first_match TMUX_PROMPT_HANDLERS [''operator-question''] question_pane) = Some [''Enter'']"
    by code_simp
  then obtain ph where f1: "first_match TMUX_PROMPT_HANDLERS [''operator-question''] question_pane = Some ph"
    and keys: "ph_keys ph = [''Enter'']" by blast
  have still: "at_capture (pane_env still_question) h = Some question_pane" for h
    by (simp add: pane_env_def still_question_def)
  have env: "at_exists (pane_env still_question) h" "at_clock (pane_env still_question) h = slept h" for h
    by (simp_all add: pane_env_def stays_up_def)
  have round: "\<exists>s'. accept_body (pane_env still_question) 0 (accepted, h) = Inr s' \<and> slept (snd s') = slept h + 2"
    if "slept h < AUTO_ACCEPT_TIMEOUT_S" for accepted h
  proof -
    have "slept (press_all keys h0) = slept h0" for keys h0
      by (induction keys rule: rev_induct) (simp_all add: press_all_def slept_def)
    with that ready show ?thesis
      by (simp add: accept_body_eq still env Let_def pane_text_def)
        (simp add: slept_def sleep_def look_def session_exists_def clock_def)
  qed
  obtain s1 where r1: "accept_body (pane_env still_question) 0 ([], []) = Inr s1" "slept (snd s1) = 2"
    using round [of "[]" "[]"] by (auto simp: slept_def AUTO_ACCEPT_TIMEOUT_S_def)
  then obtain s2 where r2: "accept_body (pane_env still_question) 0 s1 = Inr s2"
    using round [of "snd s1" "fst s1"] by (auto simp: AUTO_ACCEPT_TIMEOUT_S_def)
  from watchdog_answers_question_on_second_look [OF still q m f1 r1(1) r2, of "''Enter''"] keys r1(1) r2 show ?thesis
    by (intro exI [of _ s1] exI [of _ s2]) simp
qed

subsection \<open>The compose box\<close>

text \<open>
  C16:
  The submit verifier presses Enter or Escape only on a pane it has just read as holding a draft
  with an idle input, Escape only into a live box with no dialog that Escape would cancel, and each
  at most \<open>max_resends\<close> times. When proof is required, as the delivery and the turn hand-over ask of it, it
  says submitted only on evidence: the fragment in the transcript, the agent at work, or two clear
  captures in a row. Without that option, the default of the function, it may say submitted with none.
\<close>

theorem submit_verifier_sound:
  assumes "verify_submit_by_advancement fuel env opts h = Some (submitted, h')"
  shows "keys_ok (submit_key opts) h' = keys_ok (submit_key opts) h
    \<and> presses ''Enter'' h' \<le> so_max_resends opts + presses ''Enter'' h
    \<and> presses ''Escape'' h' \<le> so_max_resends opts + presses ''Escape'' h
    \<and> (submitted \<longrightarrow> so_require_proof opts \<longrightarrow> submit_evidence opts h')"
  using verify_submit_keeps [OF assms] verify_submit_evidence [of fuel env opts h h'] assms by (cases submitted) simp_all

definition draft_env :: screen_env where "draft_env = pane_env draft_pane"

definition demo_submit :: "bool option" where
  "demo_submit =
     (case verify_submit_by_advancement 40 draft_env demo_submit_opts [] of None \<Rightarrow> None | Some (b, h) \<Rightarrow> Some b)"

theorem submit_verifier_sound_witness:
  "\<exists>h'. verify_submit_by_advancement 40 draft_env demo_submit_opts [] = Some (True, h')
     \<and> keys_ok (submit_key demo_submit_opts) h' \<and> submit_evidence demo_submit_opts h'"
proof -
  have "demo_submit = Some True"
    by code_simp
  then obtain h' where run: "verify_submit_by_advancement 40 draft_env demo_submit_opts [] = Some (True, h')"
    by (auto simp: demo_submit_def split: option.splits)
  from submit_verifier_sound [OF run] run show ?thesis by (simp add: demo_submit_opts_def)
qed

text \<open>Clearing a stale box presses Escape only into a pane with no modal and no welcome screen, where it
  would cancel something else, at most twice per attempt; it reports the box clear only when the
  last pane it read holds no draft.
\<close>

theorem clear_never_escapes_into_a_modal:
  assumes "clear_compose_buffer fuel env n p w h = Some (cleared, h')" and "keys_ok clear_key h"
  shows "keys_ok clear_key h' \<and> presses ''Escape'' h' \<le> 2 * n + presses ''Escape'' h
    \<and> (cleared \<longrightarrow> \<not> compose_pending_live (last_seen h'))"
  by (rule clear_compose_keeps [OF assms])

definition stale_env :: screen_env where "stale_env = pane_env stale_pane"

definition demo_clear :: "bool option" where
  "demo_clear = (case clear_compose_buffer 40 stale_env 3 1 5 [] of None \<Rightarrow> None | Some (b, h) \<Rightarrow> Some b)"

theorem clear_never_escapes_into_a_modal_witness:
  "\<exists>h'. clear_compose_buffer 40 stale_env 3 1 5 [] = Some (True, h')
     \<and> keys_ok clear_key h' \<and> presses ''Escape'' h' \<le> 6"
proof -
  have "demo_clear = Some True"
    by code_simp
  then obtain h' where run: "clear_compose_buffer 40 stale_env 3 1 5 [] = Some (True, h')"
    by (auto simp: demo_clear_def split: option.splits)
  from clear_never_escapes_into_a_modal [OF run] run show ?thesis by simp
qed

text \<open>The terminal loops return, each on its own deadline, for any clock that advances by at least what
  is slept: the drain, the start watchdog (46 rounds of two seconds cover its 90), the submit
  verifier and the clearing of the box.
\<close>

theorem terminal_loops_return:
  assumes "drain_ok fuel env opts" and "rounds (do_timeout_s opts) (drain_period opts) \<le> fuel"
    and "0 < so_poll_s submit" and "submit_fuel submit \<le> fuel" and "0 < p" and "rounds w p \<le> fuel"
  shows "(\<exists>r h'. drain_modals_until_ready fuel env opts h = Some (r, h'))
    \<and> (\<exists>r h'. send_auto_accept_keystrokes 46 env auto_accept flags h = Some (r, h'))
    \<and> (\<exists>r h'. verify_submit_by_advancement fuel env submit h = Some (r, h'))
    \<and> (\<exists>r h'. clear_compose_buffer fuel env n p w h = Some (r, h'))"
proof -
  have c: "clock_runs env" using assms(1) by simp
  show ?thesis
    using drain_ends [OF assms(1,2), of h] accept_ends [OF c, of auto_accept flags h]
      verify_submit_ends [OF c assms(3,4), of h] clear_compose_ends [OF c assms(5,6), of n h]
    by (metis surj_pair)
qed

theorem terminal_loops_return_witness:
  "\<exists>r h'. drain_modals_until_ready (rounds 20 1 + submit_fuel demo_submit_opts + rounds 5 1) (pane_env start_pane)
     demo_drain_opts [] = Some (r, h')"
  by (rule terminal_loops_return [where submit = demo_submit_opts and p = 1 and w = 5, THEN conjunct1])
    (simp_all add: pane_env_clock demo_drain_opts_def max_wait_of_def resolve_settle_def drain_period_def
      demo_submit_opts_def rounds_def)

subsection \<open>Handing a turn over\<close>

text \<open>C19:
  Handing a turn to a live session, with the wait for its input that the session passes, returns, by
  the deadlines of that wait and of the submit verifier and for any clock that advances by at least
  what is slept, given intervals above zero and fuel for the rounds these deadlines allow. It raises
  only with the turn not pasted. Otherwise the turn was pasted at most once, and it counts as delivered
  only if it was pasted and its submission left evidence on the pane.
\<close>

theorem turn_pasted_once_with_evidence:
  assumes "drain_ok fuel env drain" and "rounds (do_timeout_s drain) (drain_period drain) \<le> fuel"
    and "0 < tn_poll_s opts" and "submit_fuel (turn_submit_opts opts turn) \<le> fuel"
  shows "\<exists>r h'. send_turn_to_pane fuel env opts (Some (wait_until_input_ready fuel env drain)) turn h = Some (r, h')
    \<and> (case r of
        Inl err \<Rightarrow> sends h' = sends h
      | Inr delivered \<Rightarrow> sends h' \<le> Suc (sends h)
          \<and> (delivered \<longrightarrow> sends h' = Suc (sends h) \<and> submit_evidence (turn_submit_opts opts turn) h'))"
proof -
  from send_turn_ends [OF assms, of h] obtain r h' where
    run: "send_turn_to_pane fuel env opts (Some (wait_until_input_ready fuel env drain)) turn h = Some (r, h')" by auto
  show ?thesis
  proof (cases r)
    case (Inl err)
    with run send_turn_raises [of fuel env opts drain turn h err h'] show ?thesis by simp
  next
    case (Inr b)
    with run send_turn_with_wait [of fuel env opts drain turn h b h'] show ?thesis by simp
  qed
qed

definition turn_pane :: "history \<Rightarrow> utext option" where
  "turn_pane h = (if sends h = 0 then Some idle_pane else draft_pane h)"

definition turn_env :: screen_env where "turn_env = pane_env turn_pane"

definition demo_turn :: "bool option" where
  "demo_turn =
     (case send_turn_to_pane 40 turn_env default_turn_opts (Some (wait_until_input_ready 40 turn_env demo_drain_opts))
             draft_text [] of
        Some (Inr b, h) \<Rightarrow> Some b | _ \<Rightarrow> None)"

lemma turn_fuel:
  "drain_ok 40 turn_env demo_drain_opts" "rounds (do_timeout_s demo_drain_opts) (drain_period demo_drain_opts) \<le> 40"
  "0 < tn_poll_s default_turn_opts" "submit_fuel (turn_submit_opts default_turn_opts draft_text) \<le> 40"
  by (simp_all add: turn_env_def pane_env_clock demo_drain_opts_def max_wait_of_def resolve_settle_def drain_period_def
      default_turn_opts_def turn_submit_opts_def submit_fuel_def proof_window_def settle_time_of_def rounds_def)

theorem turn_pasted_once_with_evidence_witness:
  "\<exists>h'. send_turn_to_pane 40 turn_env default_turn_opts (Some (wait_until_input_ready 40 turn_env demo_drain_opts))
     draft_text [] = Some (Inr True, h') \<and> sends h' = 1 \<and> submit_evidence (turn_submit_opts default_turn_opts draft_text) h'"
proof -
  have "demo_turn = Some True" by code_simp
  then obtain h' where run: "send_turn_to_pane 40 turn_env default_turn_opts
      (Some (wait_until_input_ready 40 turn_env demo_drain_opts)) draft_text [] = Some (Inr True, h')"
    by (auto simp: demo_turn_def split: option.splits sum.splits)
  from turn_pasted_once_with_evidence [OF turn_fuel, of "[]"] run show ?thesis by (auto simp: sends_def)
qed

subsection \<open>A stuck login\<close>

text \<open>A pane counts as stuck on a login only if a row of its conversation, above the prompt row, reads
  as an authentication banner, and the previous probe saw the same banner at the same distance: one
  capture never decides it, and neither does a pane nobody could read.
\<close>

theorem stuck_login_needs_two_equal_probes:
  assumes "evaluate_pane word pane prev = (p, True)"
  shows "prev = Some (probe_to_state p)
    \<and> (\<exists>shown k i row. pane = Some shown \<and> prompt_line_index shown = Some k
        \<and> (i, row) \<in> set (conversation word k (pane_rows shown)) \<and> banner_kind word row \<noteq> None
        \<and> ap_banner p = banner_kind word row)"
proof -
  from assms obtain shown where s: "pane = Some shown" and p: "p = probe_pane word shown" and "is_stuck p prev"
    by (auto simp: evaluate_pane_def split: option.splits)
  then obtain m where m: "prev = Some m" "ap_present p" "m = probe_to_state p"
    using stuck_iff [of p] by (cases prev) (auto simp: is_stuck_def split: if_splits)
  from m(2) p obtain k i row where "prompt_line_index shown = Some k"
    "(i, row) \<in> set (conversation word k (pane_rows shown))" "banner_kind word row \<noteq> None"
    "ap_banner p = banner_kind word row"
    using probe_present [of word shown] by metis
  with s m show ?thesis by blast
qed

definition ascii_word :: "int \<Rightarrow> bool" where
  "ascii_word c \<longleftrightarrow> (48 \<le> c \<and> c \<le> 57) \<or> (65 \<le> c \<and> c \<le> 90) \<or> c = 95 \<or> (97 \<le> c \<and> c \<le> 122)"

definition expired_pane :: utext where
  "expired_pane = join_rows [u ''hello'', [0x23BF, 32] @ u ''Login expired'', u ''  '', [CLAUDE_MARKER]]"

definition demo_stuck :: bool where
  "demo_stuck = is_stuck (probe_pane ascii_word expired_pane) (Some (probe_to_state (probe_pane ascii_word expired_pane)))"

theorem stuck_login_needs_two_equal_probes_witness:
  "\<exists>k. prompt_line_index expired_pane = Some k"
proof -
  have "demo_stuck" by code_simp
  then have "evaluate_pane ascii_word (Some expired_pane) (Some (probe_to_state (probe_pane ascii_word expired_pane)))
      = (probe_pane ascii_word expired_pane, True)"
    by (simp add: evaluate_pane_def demo_stuck_def)
  from stuck_login_needs_two_equal_probes [OF this] show ?thesis by auto
qed

end
