(* ===== verification/Delivery_Claims.thy ===== *)
theory Delivery_Claims
  imports Redeliver Terminal_Claims
begin

text \<open>
  The properties of a verified send and of its redelivery. The witnesses run the code's model on an
  environment whose screen shows the payload in the box until Enter is pressed.
\<close>

subsection \<open>An environment\<close>

definition demo_token :: string where "demo_token = ''a1b2c3d4e5f6''"

definition demo_payload :: utext where "demo_payload = format_payload (u ''hi'') demo_token"

definition demo_pane :: "history \<Rightarrow> utext option" where
  "demo_pane h =
     Some (join_rows
       (if presses ''Enter'' h = 0
        then (if sends h = 0 then [[CLAUDE_MARKER], status_row] else [[CLAUDE_MARKER, 32] @ demo_payload, status_row])
        else [u ''> '' @ demo_payload, u ''ok'', [CLAUDE_MARKER], status_row]))"

definition demo_screen :: screen_env where
  "demo_screen = \<lparr>at_capture = demo_pane, at_clock = slept, at_exists = (\<lambda>_. True)\<rparr>"

definition demo_env :: "tri \<Rightarrow> string option \<Rightarrow> delivery_env" where
  "demo_env sdk_says session_id =
     \<lparr>dl_screen = demo_screen, at_sessions = (\<lambda>_. Some [''lead'', ''writer'']),
      at_session_id = (\<lambda>_. session_id), at_sdk = (\<lambda>_ _. (sdk_says, Txt ''detail'')),
      at_token = (\<lambda>_. demo_token), at_wall_clock = (\<lambda>_. 0)\<rparr>"

lemma demo_clock: "clock_runs demo_screen" "clock_runs (dl_screen (demo_env a s))"
  by (simp_all add: demo_screen_def demo_env_def slept_clock)

subsection \<open>A verified send\<close>

text \<open>C15:
  A delivered verdict rests on observation, and the payload was transmitted exactly once: either
  the agent's endpoint answered that the turn completed, or the token of this send was on a
  capture taken after the payload was pasted and, at the end, the pane showed the fragment in the
  transcript, the agent at work, or two captures in a row with nothing pending since the last key.
\<close>

theorem delivered_rests_on_observation:
  assumes "deliver fuel env word opts agent message strategy h = Some (Inr st, h')"
    and "as_verdict (assess_delivery st) = Yes"
    and "token = at_token env (ticked (dl_screen env) h)"
  shows "sends h' = Suc (sends h) \<and>
    (ds_strategy st = STRATEGY_SDK \<and> (\<exists>h2. fst (at_sdk env (format_payload message token) h2) = Yes)
     \<or> saw_token token (format_payload message token) h' \<and> submit_evidence (submit_opts_of opts token) h')"
proof -
  have all: "ds_route_resolved st = Yes" "ds_payload_delivered st = Yes" "ds_payload_submitted st = Yes"
    using assms(2) by (auto simp: assess_delivery_verdict split: if_splits)
  from assms(1) show ?thesis
  proof (cases rule: deliver_cases)
    case no_route
    with all show ?thesis by simp
  next
    case (sdk ok detail h2)
    with all assms(3) show ?thesis by (metis fst_conv)
  next
    case tui
    with all assms(3) show ?thesis by simp
  qed
qed

definition demo_run :: "(delivery_state result \<times> history) option" where
  "demo_run = deliver 101 (demo_env Unknown None) ascii_word default_deliver_opts ''writer'' (u ''hi'') ''auto'' []"

definition demo_verdict :: "tri option" where
  "demo_verdict = (case demo_run of Some (Inr st, h') \<Rightarrow> Some (as_verdict (assess_delivery st)) | _ \<Rightarrow> None)"

lemma demo_delivered: "demo_verdict = Some Yes"
  by code_simp

theorem delivered_rests_on_observation_witness:
  "\<exists>h'. sends h' = 1 \<and> saw_token demo_token demo_payload h'
    \<and> submit_evidence (submit_opts_of default_deliver_opts demo_token) h'"
proof -
  obtain st h' where run: "deliver 101 (demo_env Unknown None) ascii_word default_deliver_opts ''writer'' (u ''hi'') ''auto'' []
      = Some (Inr st, h')" and v: "as_verdict (assess_delivery st) = Yes"
    using demo_delivered by (auto simp: demo_verdict_def demo_run_def split: option.splits sum.splits)
  from delivered_rests_on_observation [OF run v refl] show ?thesis
    by (auto simp: demo_env_def demo_payload_def sends_def)
qed

text \<open>C18:
  A send returns. Its loops are the arrival watch and the submit verifier, each bounded by its
  own deadline, so \<open>deliver_fuel\<close> rounds per loop are enough on any clock that runs on at least by
  what was slept, whatever the pane shows.
\<close>

theorem send_returns:
  assumes "clock_runs (dl_screen env)" and "0 < dv_poll_s opts" and "deliver_fuel opts \<le> fuel"
  shows "\<exists>r h'. deliver fuel env word opts agent message strategy h = Some (r, h')"
  using deliver_ends [OF assms] by (metis surj_pair)

theorem send_returns_witness:
  "\<exists>r h'. deliver (deliver_fuel default_deliver_opts) (demo_env No (Some ''4f1c'')) ascii_word default_deliver_opts
     ''writer'' (u ''hi'') ''auto'' [] = Some (r, h')"
  by (rule send_returns) (simp_all add: demo_clock default_deliver_opts_def)

text \<open>Without a resolved route nothing is transmitted. An unreadable session list is reported as
  unknown (exit 2); only a route refuted by observation is reported as absent (exit 3).
\<close>

theorem no_route_sends_nothing:
  assumes "deliver fuel env word opts agent message strategy h = Some (Inr st, h')"
    and "ds_route_resolved st \<noteq> Yes"
  shows "sends h' = sends h
    \<and> exit_code (assess_delivery st) = (if ds_route_resolved st = Unknown then EXIT_UNKNOWN else EXIT_NO_ROUTE)"
  using assms(1)
proof (cases rule: deliver_cases)
  case no_route
  with signal_trichotomy [of st Route_Resolved] assms(2) show ?thesis
    by (auto simp: assess_delivery_exit assess_delivery_verdict signal_of.simps)
qed (use assms(2) in simp_all)

definition demo_nobody :: "(delivery_state result \<times> history) option" where
  "demo_nobody = deliver 1 (demo_env Unknown None) ascii_word default_deliver_opts ''nobody'' (u ''hi'') ''auto'' []"

lemma demo_nobody_route:
  "(case demo_nobody of Some (Inr st, h') \<Rightarrow> Some (ds_route_resolved st) | _ \<Rightarrow> None) = Some No"
  by code_simp

theorem no_route_sends_nothing_witness:
  "\<exists>st h'. demo_nobody = Some (Inr st, h') \<and> sends h' = 0 \<and> exit_code (assess_delivery st) = EXIT_NO_ROUTE"
proof -
  obtain st h' where run: "demo_nobody = Some (Inr st, h')" and r: "ds_route_resolved st = No"
    using demo_nobody_route by (auto split: option.splits sum.splits)
  from no_route_sends_nothing [OF run [unfolded demo_nobody_def]] r run show ?thesis
    by (auto simp: sends_def)
qed

text \<open>Absence of a route is concluded only from evidence of absence: the endpoint was asked for and
  has no recorded session, or a session list that does show other sessions does not show the
  agent's, under either of its names. An empty or unreadable list never counts as absence.
\<close>

theorem absence_needs_evidence:
  assumes "resolve_route env agent strategy h = (Inr rt, h')" and "rt_resolved rt = No"
  shows "strategy = STRATEGY_SDK \<and> \<not> truthy_opt (at_session_id env h)
    \<or> (\<exists>h1 s ss bare legacy. at_sessions env h1 = Some (s # ss)
         \<and> candidate_session_names agent = Inr (bare, legacy) \<and> bare \<notin> set (s # ss) \<and> legacy \<notin> set (s # ss))"
proof -
  have tui: "\<exists>s ss bare legacy. at_sessions env h1 = Some (s # ss)
      \<and> candidate_session_names agent = Inr (bare, legacy) \<and> bare \<notin> set (s # ss) \<and> legacy \<notin> set (s # ss)"
    if "tui_route agent (at_sessions env h1) = Inr rt" for h1
    by (rule tui_route_No [OF that assms(2)])
  have "strategy = STRATEGY_SDK \<and> \<not> truthy_opt (at_session_id env h)
      \<or> (\<exists>h1. tui_route agent (at_sessions env h1) = Inr rt)"
    using assms
    by (auto simp: resolve_route_def ask_session_id_def ask_sessions_def Let_def mk_route_def split: if_splits)
  with tui show ?thesis by blast
qed

theorem absence_needs_evidence_witness:
  "\<exists>s ss. at_sessions (demo_env Unknown None) [] = Some (s # ss) \<and> ''nobody'' \<notin> set (s # ss)"
proof -
  have names: "candidate_session_names ''nobody'' = Inr (''nobody'', ''tui-nobody'')" by code_simp
  obtain rt h' where r: "resolve_route (demo_env Unknown None) ''nobody'' ''auto'' [] = (Inr rt, h')" "rt_resolved rt = No"
    by (auto simp: resolve_route_def ask_session_id_def ask_sessions_def demo_env_def truthy_opt_def tui_route_def
        names mk_route_def wanted_session_def Let_def STRATEGY_SDK_def)
  from absence_needs_evidence [OF r] names show ?thesis
    by (auto simp: STRATEGY_SDK_def demo_env_def)
qed

text \<open>A send through a pane that could not be captured once is unknown (exit 2), never a refusal: not
  seeing is not evidence that nothing arrived.
\<close>

theorem blind_send_is_unknown:
  assumes "deliver fuel env word opts agent message strategy h = Some (Inr st, h')"
    and "\<And>h. at_capture (dl_screen env) h = None"
    and "ds_route_resolved st = Yes" and "ds_strategy st \<noteq> STRATEGY_SDK"
  shows "as_verdict (assess_delivery st) = Unknown \<and> exit_code (assess_delivery st) = EXIT_UNKNOWN
    \<and> Payload_Delivered \<in> set (as_unresolved (assess_delivery st)) \<and> sends h' = Suc (sends h)"
  using assms(1)
proof (cases rule: deliver_cases)
  case tui
  have "ds_payload_delivered st = Unknown" by (rule tui(6)) (rule assms(2))
  then have "as_verdict (assess_delivery st) = Unknown" "Payload_Delivered \<in> set (as_unresolved (assess_delivery st))"
    by (simp_all add: assess_delivery_verdict assess_delivery_unresolved signal_of.simps)
  with tui(2) show ?thesis by (simp add: assess_delivery_exit)
qed (use assms(3,4) in simp_all)

definition blind_env :: delivery_env where
  "blind_env =
     \<lparr>dl_screen = \<lparr>at_capture = (\<lambda>_. None), at_clock = slept, at_exists = stays_up\<rparr>,
      at_sessions = (\<lambda>_. Some [''writer'']), at_session_id = (\<lambda>_. None), at_sdk = (\<lambda>_ _. (Unknown, empty_msg)),
      at_token = (\<lambda>_. demo_token), at_wall_clock = (\<lambda>_. 0)\<rparr>"

definition quick_opts :: deliver_opts where
  "quick_opts = \<lparr>dv_arrival_timeout_s = 2, dv_idle_wait_s = 2, dv_max_resends = 1, dv_poll_s = 1\<rparr>"

definition demo_blind :: "(tri \<times> string) option" where
  "demo_blind =
     (case deliver 12 blind_env ascii_word quick_opts ''writer'' (u ''hi'') ''auto'' [] of
        Some (Inr st, h) \<Rightarrow> Some (ds_route_resolved st, ds_strategy st)
      | _ \<Rightarrow> None)"

theorem blind_send_is_unknown_witness:
  "\<exists>st h'. deliver 12 blind_env ascii_word quick_opts ''writer'' (u ''hi'') ''auto'' [] = Some (Inr st, h')
     \<and> exit_code (assess_delivery st) = EXIT_UNKNOWN \<and> sends h' = 1"
proof -
  have "demo_blind = Some (Yes, STRATEGY_TUI)" by code_simp
  then obtain st h' where run: "deliver 12 blind_env ascii_word quick_opts ''writer'' (u ''hi'') ''auto'' [] = Some (Inr st, h')"
    and r: "ds_route_resolved st = Yes" "ds_strategy st \<noteq> STRATEGY_SDK"
    by (auto simp: demo_blind_def STRATEGY_SDK_def STRATEGY_TUI_def split: option.splits sum.splits)
  have "at_capture (dl_screen blind_env) h = None" for h by (simp add: blind_env_def)
  from blind_send_is_unknown [OF run this r] run show ?thesis by (auto simp: sends_def)
qed

subsection \<open>Sending again\<close>

text \<open>C17:
  Redelivery sends at least once and at most \<open>max_retries + 2\<close> times: the opening send, the retries
  and one send on a switched route. It sends again only after a verdict that was confirmed negative:
  a refuted delivery, or a missing route when the next send takes another route. It never sends
  again after an unknown or an unsubmitted send, and reports delivered exactly when the last
  verdict is positive.
\<close>

theorem redelivery_only_after_refutation:
  assumes "redeliver deliver_fn agent strategy policy h = (report, h')"
    and "max_retries = rp_max_retries (case policy of None \<Rightarrow> default_policy | Some p \<Rightarrow> p)"
  shows "successively may_follow (rr_attempts report) \<and> rr_attempts report \<noteq> []
    \<and> length (rr_attempts report) \<le> nat max_retries + 2 \<and> length (rr_actions report) = length (rr_attempts report)
    \<and> (rr_delivered report \<longleftrightarrow> ra_verdict (last (rr_attempts report)) = Yes)"
  using redeliver_result [OF assms(1)] assms(2) by (simp add: loop_result_def)

definition demo_state :: "tri \<Rightarrow> delivery_state" where
  "demo_state v =
     (fresh_state ''writer'')\<lparr>ds_route_resolved := Yes, ds_payload_delivered := v, ds_payload_submitted := Yes\<rparr>"

definition second_time :: "string \<Rightarrow> history \<Rightarrow> delivery_state \<times> history" where
  "second_time strategy h = (demo_state (Some (sends h \<noteq> 0)), Pasted demo_payload # h)"

definition demo_redelivery :: "bool \<times> int list" where
  "demo_redelivery =
     (let r = fst (redeliver second_time ''writer'' ''auto'' None []) in (rr_delivered r, map ra_exit_code (rr_attempts r)))"

theorem redelivery_only_after_refutation_witness:
  "successively may_follow (rr_attempts (fst (redeliver second_time ''writer'' ''auto'' None [])))
   \<and> demo_redelivery = (True, [EXIT_REFUTED, EXIT_DELIVERED])"
proof
  show "demo_redelivery = (True, [EXIT_REFUTED, EXIT_DELIVERED])" by code_simp
  show "successively may_follow (rr_attempts (fst (redeliver second_time ''writer'' ''auto'' None [])))"
    by (rule redelivery_only_after_refutation [OF prod.collapse [symmetric] refl, THEN conjunct1])
qed

text \<open>A send the agent's endpoint refused is folded to the exit code of a payload that arrived but was
  not submitted: both signals are negative and submission is looked at first. Redelivery then stops
  with the remedy of pressing Enter, however many retries and routes it has left.
\<close>

theorem refused_endpoint_send_reads_as_unsubmitted:
  assumes "deliver fuel env word opts agent message strategy h = Some (Inr st, h')"
    and "ds_strategy st = STRATEGY_SDK" and "ds_route_resolved st = Yes" and "ds_payload_delivered st = No"
  shows "exit_code (assess_delivery st) = EXIT_UNSUBMITTED
    \<and> (\<exists>remedy. after_attempt agent retries_left switch_armed on_opening made
          (fst (send_once (\<lambda>_ _. (st, h')) strategy so_far h)) = Stop ''no-resend:payload-in-composer'' remedy)"
proof -
  have "ds_payload_submitted st = No"
    using assms(1) by (cases rule: deliver_cases) (use assms in simp_all)
  with assms have v: "as_verdict (assess_delivery st) = No" "exit_code (assess_delivery st) = EXIT_UNSUBMITTED"
    by (simp_all add: assess_delivery_verdict assess_delivery_exit)
  then show ?thesis by (simp add: after_attempt_def send_once_def EXIT_defs)
qed

definition refusing_env :: delivery_env where
  "refusing_env = blind_env\<lparr>at_session_id := (\<lambda>_. Some ''4f1c''), at_sdk := (\<lambda>_ _. (No, Txt ''HTTP 500''))\<rparr>"

definition demo_refused :: "(string \<times> tri \<times> tri) option" where
  "demo_refused =
     (case deliver 1 refusing_env ascii_word quick_opts ''writer'' (u ''hi'') ''auto'' [] of
        Some (Inr st, h) \<Rightarrow> Some (ds_strategy st, ds_route_resolved st, ds_payload_delivered st)
      | _ \<Rightarrow> None)"

theorem refused_endpoint_send_reads_as_unsubmitted_witness:
  "\<exists>st h'. deliver 1 refusing_env ascii_word quick_opts ''writer'' (u ''hi'') ''auto'' [] = Some (Inr st, h')
     \<and> exit_code (assess_delivery st) = EXIT_UNSUBMITTED"
proof -
  have "demo_refused = Some (STRATEGY_SDK, Yes, No)" by code_simp
  then obtain st h' where run: "deliver 1 refusing_env ascii_word quick_opts ''writer'' (u ''hi'') ''auto'' [] = Some (Inr st, h')"
    and f: "ds_strategy st = STRATEGY_SDK" "ds_route_resolved st = Yes" "ds_payload_delivered st = No"
    by (auto simp: demo_refused_def split: option.splits sum.splits)
  from refused_endpoint_send_reads_as_unsubmitted [OF run f] run show ?thesis by blast
qed

end
