(* ===== verification/Rate_Wall.thy ===== *)
theory Rate_Wall
  imports Compose Auth_Banner
begin

text \<open>
  Reading a provider's rate wall off a pane: \<open>_ratelimit/_banner.py\<close>.

  The patterns of the module are written as parsers. Each consumes runs of characters that the next
  part cannot start with, so what \<open>re\<close> finds by backtracking is what the longest run gives. \<open>ci\<close> is
  a literal under \<open>re.IGNORECASE\<close>, which also takes the three non-ASCII letters whose case folds
  to an ASCII one. A time zone is a parameter: the local time of an instant with its fold, and the
  instant of a local time; \<open>ZoneInfo\<close> is a function that gives a zone or raises (\<open>None\<close>).
\<close>

subsection \<open>Parsers\<close>

type_synonym 'a parser = "utext \<Rightarrow> ('a \<times> utext) option"

definition ci :: "int \<Rightarrow> int \<Rightarrow> bool" where
  "ci c x \<longleftrightarrow> x = c \<or> (97 \<le> c \<and> c \<le> 122 \<and> x = c - 32)
     \<or> (c = 105 \<and> (x = 0x130 \<or> x = 0x131)) \<or> (c = 115 \<and> x = 0x17F) \<or> (c = 107 \<and> x = 0x212A)"

fun p_ci :: "utext \<Rightarrow> utext \<Rightarrow> utext option" where
  "p_ci [] s = Some s"
| "p_ci (c # cs) [] = None"
| "p_ci (c # cs) (x # xs) = (if ci c x then p_ci cs xs else None)"

definition p_spaces :: "utext \<Rightarrow> utext option" where
  "p_spaces s = (case s of [] \<Rightarrow> None | x # xs \<Rightarrow> if t_space x then Some (dropWhile t_space xs) else None)"

fun p_digits :: "nat \<Rightarrow> utext \<Rightarrow> utext option" where
  "p_digits 0 s = Some s"
| "p_digits (Suc n) [] = None"
| "p_digits (Suc n) (x # xs) = (if t_digit x then p_digits n xs else None)"

definition p_one :: "(int \<Rightarrow> bool) \<Rightarrow> utext \<Rightarrow> utext option" where
  "p_one P s = (case s of [] \<Rightarrow> None | x # xs \<Rightarrow> if P x then Some xs else None)"

definition p_opt :: "(utext \<Rightarrow> utext option) \<Rightarrow> utext \<Rightarrow> utext option" where
  "p_opt p s = (case p s of None \<Rightarrow> Some s | Some t \<Rightarrow> Some t)"

definition p_seq :: "(utext \<Rightarrow> utext option) \<Rightarrow> (utext \<Rightarrow> utext option) \<Rightarrow> utext \<Rightarrow> utext option" where
  "p_seq p q s = (case p s of None \<Rightarrow> None | Some t \<Rightarrow> q t)"

definition p_or :: "(utext \<Rightarrow> utext option) \<Rightarrow> (utext \<Rightarrow> utext option) \<Rightarrow> utext \<Rightarrow> utext option" where
  "p_or p q s = (case p s of None \<Rightarrow> q s | Some t \<Rightarrow> Some t)"

definition number :: "utext \<Rightarrow> int" where
  "number ds = foldl (\<lambda>n c. 10 * n + digit_value c) 0 ds"

text \<open>What a parser consumed.\<close>

definition upto :: "utext \<Rightarrow> utext \<Rightarrow> utext" where
  "upto s rest = take (length s - length rest) s"

text \<open>\<open>re.search\<close> for a parser: the leftmost place where it succeeds.\<close>

fun p_search :: "(utext \<Rightarrow> 'a option) \<Rightarrow> utext \<Rightarrow> 'a option" where
  "p_search p [] = p []"
| "p_search p (x # xs) = (case p (x # xs) of None \<Rightarrow> p_search p xs | Some a \<Rightarrow> Some a)"

lemma p_search_Some: "p_search p s = Some a \<Longrightarrow> \<exists>w t. s = w @ t \<and> p t = Some a"
proof (induction p s rule: p_search.induct)
  case (2 p x xs)
  show ?case
  proof (cases "p (x # xs)")
    case None
    with 2 obtain w t where "xs = w @ t" "p t = Some a" by auto
    then show ?thesis by (intro exI [of _ "x # w"] exI [of _ t]) simp
  next
    case (Some b)
    with 2(2) show ?thesis by (intro exI [of _ "[]"] exI [of _ "x # xs"]) simp
  qed
qed auto

lemma p_search_None: "p_search p s = None \<longleftrightarrow> (\<forall>w t. s = w @ t \<longrightarrow> p t = None)"
proof (induction p s rule: p_search.induct)
  case (2 p x xs)
  show ?case
  proof (cases "p (x # xs)")
    case None
    with 2 show ?thesis by (auto simp: Cons_eq_append_conv)
  next
    case (Some b)
    then have "\<exists>w t. x # xs = w @ t \<and> p t \<noteq> None" by (intro exI [of _ "[]"] exI [of _ "x # xs"]) simp
    with Some show ?thesis by auto
  qed
qed auto

subsection \<open>The wall\<close>

definition apostrophe :: "int \<Rightarrow> bool" where
  "apostrophe c \<longleftrightarrow> c = 39 \<or> c = 0x2019"

text \<open>\<open>[a-z0-9-]\<close> under \<open>re.IGNORECASE\<close>.\<close>

definition window_char :: "int \<Rightarrow> bool" where
  "window_char c \<longleftrightarrow> (97 \<le> c \<and> c \<le> 122) \<or> (65 \<le> c \<and> c \<le> 90) \<or> (48 \<le> c \<and> c \<le> 57) \<or> c = 45
     \<or> c = 0x130 \<or> c = 0x131 \<or> c = 0x17F \<or> c = 0x212A"

text \<open>\<open>you've <verb> your <window> limit\<close>, with the window it names.\<close>

definition limit_sentence :: "(utext \<Rightarrow> utext option) \<Rightarrow> utext \<Rightarrow> utext option" where
  "limit_sentence verb s =
     (case p_seq (p_ci (u ''you'')) (p_seq (p_one apostrophe) (p_seq (p_ci (u ''ve'')) (p_seq p_spaces
        (p_seq verb (p_seq p_spaces (p_seq (p_ci (u ''your'')) p_spaces)))))) s of
        None \<Rightarrow> None
      | Some t \<Rightarrow>
          (let window = takeWhile window_char t in
           if window = [] then None
           else case p_seq p_spaces (p_ci (u ''limit'')) (dropWhile window_char t) of
             None \<Rightarrow> None | Some _ \<Rightarrow> Some window))"

definition limit_search :: "utext \<Rightarrow> utext option" where
  "limit_search s = p_search (limit_sentence (p_ci (u ''hit''))) s"

definition billing_exhausted :: "utext \<Rightarrow> bool" where
  "billing_exhausted s \<longleftrightarrow>
     p_search (\<lambda>t. if list_ex (\<lambda>w. p_ci (u w) t \<noteq> None)
         [''billing or credits exhausted'', ''insufficient credits'', ''insufficient balance'', ''purchase more credits'']
       then Some () else None) s \<noteq> None"

subsection \<open>When it lifts\<close>

definition two_digits :: "utext \<Rightarrow> utext option" where
  "two_digits = p_digits 2"

definition p_char :: "int \<Rightarrow> utext \<Rightarrow> utext option" where
  "p_char c = p_one (\<lambda>x. x = c)"

text \<open>The three clocks: an ISO instant, \<open>8am\<close> or \<open>7:10pm\<close>, \<open>23:00\<close>. The flag is for \<open>IGNORECASE\<close>.\<close>

definition p_iso :: "bool \<Rightarrow> utext \<Rightarrow> utext option" where
  "p_iso nocase =
     p_seq (p_digits 4) (p_seq (p_char 45) (p_seq two_digits (p_seq (p_char 45) (p_seq two_digits
       (p_seq (p_one (\<lambda>x. x = 32 \<or> x = 84 \<or> (nocase \<and> x = 116))) (p_seq two_digits (p_seq (p_char 58) (p_seq two_digits
         (p_seq (p_opt (p_seq (p_char 58) two_digits)) (p_opt (p_one (\<lambda>x. x = 90 \<or> (nocase \<and> x = 122)))))))))))))"

definition p_hour :: "utext \<Rightarrow> utext option" where
  "p_hour = p_or (p_digits 2) (p_digits 1)"

definition p_minute :: "utext \<Rightarrow> utext option" where
  "p_minute = p_seq (p_char 58) two_digits"

definition p_meridiem :: "utext \<Rightarrow> utext option" where
  "p_meridiem = p_or (p_ci (u ''am'')) (p_ci (u ''pm''))"

definition p_clock12 :: "utext \<Rightarrow> utext option" where
  "p_clock12 = p_seq p_hour (p_seq (p_opt p_minute) (p_seq (\<lambda>s. Some (dropWhile t_space s)) p_meridiem))"

definition p_clock24 :: "utext \<Rightarrow> utext option" where
  "p_clock24 = p_seq p_hour p_minute"

text \<open>\<open>\s*(?:\(([^)]{1,40})\))?\<close>: what it consumes up to, and the label.\<close>

definition p_zone_label :: "utext \<Rightarrow> utext option \<times> utext" where
  "p_zone_label s =
     (let t = dropWhile t_space s in
      case t of
        [] \<Rightarrow> (None, t)
      | x # xs \<Rightarrow>
          (let label = takeWhile (\<lambda>c. c \<noteq> 41) xs; rest = dropWhile (\<lambda>c. c \<noteq> 41) xs in
           if x = 40 \<and> label \<noteq> [] \<and> length label \<le> 40 \<and> rest \<noteq> [] then (Some label, tl rest) else (None, t)))"

text \<open>The whole clause: the matched text, the clock and the label.\<close>

definition reset_clause :: "utext \<Rightarrow> (utext \<times> utext \<times> utext option) option" where
  "reset_clause s =
     (case p_seq (p_ci (u ''reset'')) (p_seq (p_opt (p_ci (u ''s''))) (p_seq p_spaces (p_opt (p_seq (p_ci (u ''at'')) p_spaces)))) s of
        None \<Rightarrow> None
      | Some t \<Rightarrow>
          (case p_or (p_iso True) (p_or p_clock12 p_clock24) t of
             None \<Rightarrow> None
           | Some rest \<Rightarrow>
               (let (label, end_of) = p_zone_label rest in Some (upto s end_of, upto t rest, label))))"

definition reset_search :: "utext \<Rightarrow> (utext \<times> utext \<times> utext option) option" where
  "reset_search s = p_search reset_clause s"

subsection \<open>Dates\<close>

record zone =
  zn_local :: "time \<Rightarrow> time \<times> bool"
  zn_instant :: "time \<Rightarrow> bool \<Rightarrow> time"

definition UTC :: zone where
  "UTC = \<lparr>zn_local = (\<lambda>t. (t, False)), zn_instant = (\<lambda>t _. t)\<rparr>"

definition upper_ascii :: "utext \<Rightarrow> utext" where
  "upper_ascii s = map (\<lambda>c. if 97 \<le> c \<and> c \<le> 122 then c - 32 else c) s"

definition zone_named :: "(utext \<Rightarrow> zone option) \<Rightarrow> utext \<Rightarrow> zone option" where
  "zone_named zoneinfo name =
     (let label = t_strip name in
      if upper_ascii label \<in> {u ''UTC'', u ''GMT'', u ''Z''} then Some UTC else zoneinfo label)"

definition leap :: "int \<Rightarrow> bool" where
  "leap y \<longleftrightarrow> y mod 4 = 0 \<and> (y mod 100 \<noteq> 0 \<or> y mod 400 = 0)"

definition days_in :: "int \<Rightarrow> int \<Rightarrow> int" where
  "days_in y m =
     (if m = 2 then (if leap y then 29 else 28) else if m \<in> {4, 6, 9, 11} then 30 else 31)"

text \<open>Days since 1970-01-01, as \<open>datetime.toordinal\<close> counts them.\<close>

definition days_before_year :: "int \<Rightarrow> int" where
  "days_before_year y = (y - 1) * 365 + (y - 1) div 4 - (y - 1) div 100 + (y - 1) div 400"

definition civil_days :: "int \<Rightarrow> int \<Rightarrow> int \<Rightarrow> int" where
  "civil_days y m d = days_before_year y + (\<Sum>k \<leftarrow> [1..m - 1]. days_in y k) + d - 719163"

text \<open>\<open>datetime(...)\<close>, which raises \<open>ValueError\<close> for a field out of range: seconds of local time.\<close>

definition mk_datetime :: "int \<Rightarrow> int \<Rightarrow> int \<Rightarrow> int \<Rightarrow> int \<Rightarrow> int \<Rightarrow> time result" where
  "mk_datetime y mo d h mi sec =
     (if 1 \<le> y \<and> y \<le> 9999 \<and> 1 \<le> mo \<and> mo \<le> 12 \<and> 1 \<le> d \<and> d \<le> days_in y mo
         \<and> 0 \<le> h \<and> h \<le> 23 \<and> 0 \<le> mi \<and> mi \<le> 59 \<and> 0 \<le> sec \<and> sec \<le> 59
      then Inr (of_int (civil_days y mo d * 86400 + h * 3600 + mi * 60 + sec))
      else Inl (ValueError ''datetime field out of range''))"

definition DAY_S :: time where "DAY_S = 86400"

text \<open>\<open>min(candidates, key=...)\<close>: the first of the nearest.\<close>

fun nearest :: "time \<Rightarrow> time \<Rightarrow> time list \<Rightarrow> time" where
  "nearest anchor best [] = best"
| "nearest anchor best (c # cs) = nearest anchor (if \<bar>c - anchor\<bar> < \<bar>best - anchor\<bar> then c else best) cs"

text \<open>The instant of the wall-clock time nearest to now, among yesterday's, today's and tomorrow's.\<close>

definition clock_candidates :: "int \<Rightarrow> int \<Rightarrow> time \<Rightarrow> time list" where
  "clock_candidates hour minute anchor =
     (let same_day = of_int \<lfloor>anchor / DAY_S\<rfloor> * DAY_S + of_int (hour * 3600 + minute * 60)
      in [same_day - DAY_S, same_day, same_day + DAY_S])"

definition resolve_clock_near :: "int \<Rightarrow> int \<Rightarrow> time \<Rightarrow> zone \<Rightarrow> time" where
  "resolve_clock_near hour minute now tz =
     (let (anchor, folded) = zn_local tz now;
          cs = clock_candidates hour minute anchor;
          chosen = nearest anchor (hd cs) (tl cs)
      in zn_instant tz chosen (folded \<and> chosen = cs ! 1))"

text \<open>The fields of a clock the clause matched; \<open>_ISO_RE\<close> and \<open>_CLOCK_RE\<close> are anchored at both ends.\<close>

definition iso_fields :: "utext \<Rightarrow> (int list \<times> bool) option" where
  "iso_fields c =
     (if p_iso False c \<noteq> Some [] then None
      else
        (let two = (\<lambda>i. number (take 2 (drop i c)));
             has_seconds = (19 \<le> length c \<and> c ! 16 = 58)
         in Some ([number (take 4 c), two 5, two 8, two 11, two 14, if has_seconds then two 17 else 0],
                  c \<noteq> [] \<and> last c = 90)))"

definition clock_fields :: "utext \<Rightarrow> (int \<times> int \<times> bool option) option" where
  "clock_fields c =
     (case p_hour c of
        None \<Rightarrow> None
      | Some t \<Rightarrow>
          (let t1 = the (p_opt p_minute t);
               minute = (if t1 = t then 0 else number (take 2 (drop 1 t)));
               t2 = dropWhile t_space t1;
               hour = number (upto c t)
           in if t2 = [] then Some (hour, minute, None)
              else case p_ci (u ''am'') t2 of
                Some [] \<Rightarrow> Some (hour, minute, Some False)
              | _ \<Rightarrow> (case p_ci (u ''pm'') t2 of Some [] \<Rightarrow> Some (hour, minute, Some True) | _ \<Rightarrow> None)))"

definition parse_reset_at ::
    "(utext \<Rightarrow> zone option) \<Rightarrow> utext \<Rightarrow> time \<Rightarrow> zone \<Rightarrow> (time option \<times> utext) result" where
  "parse_reset_at zoneinfo text now default_tz =
     (case reset_search text of
        None \<Rightarrow> Inr (None, [])
      | Some (whole, stamp, label) \<Rightarrow>
          (let raw = t_strip whole;
               tz = (case label of None \<Rightarrow> Some default_tz | Some l \<Rightarrow> zone_named zoneinfo l)
           in case tz of
             None \<Rightarrow> Inr (None, raw)
           | Some z \<Rightarrow>
               (case iso_fields stamp of
                  Some (fs, zulu) \<Rightarrow>
                    bind_result (mk_datetime (fs ! 0) (fs ! 1) (fs ! 2) (fs ! 3) (fs ! 4) (fs ! 5))
                      (\<lambda>t. Inr (Some (zn_instant (if zulu then UTC else z) t False), raw))
                | None \<Rightarrow>
                    (case clock_fields stamp of
                       None \<Rightarrow> Inr (None, raw)
                     | Some (h, minute, meridiem) \<Rightarrow>
                         (let hour = (if meridiem = Some True \<and> h \<noteq> 12 then h + 12
                                      else if meridiem = Some False \<and> h = 12 then 0 else h)
                          in if \<not> (0 \<le> hour \<and> hour \<le> 23 \<and> 0 \<le> minute \<and> minute \<le> 59) then Inr (None, raw)
                             else Inr (Some (resolve_clock_near hour minute now z), raw))))))"

subsection \<open>A pane\<close>

record limit_observation =
  lo_readable :: bool
  lo_limited :: bool
  lo_window :: utext
  lo_reset_at :: "time option"
  lo_reset_text :: utext
  lo_line_index :: "nat option"

definition no_limit :: "bool \<Rightarrow> limit_observation" where
  "no_limit readable =
     \<lparr>lo_readable = readable, lo_limited = False, lo_window = [], lo_reset_at = None, lo_reset_text = [],
      lo_line_index = None\<rparr>"

definition at_wall :: "utext \<Rightarrow> time option \<Rightarrow> utext \<Rightarrow> nat \<Rightarrow> limit_observation" where
  "at_wall window reset_at raw i =
     \<lparr>lo_readable = True, lo_limited = True, lo_window = window, lo_reset_at = reset_at, lo_reset_text = raw,
      lo_line_index = Some i\<rparr>"

text \<open>The rows from the last to the first, with their indices.\<close>

fun observe_rows ::
    "(utext \<Rightarrow> zone option) \<Rightarrow> time \<Rightarrow> zone \<Rightarrow> (nat \<times> utext) list \<Rightarrow> limit_observation result" where
  "observe_rows zoneinfo now default_tz [] = Inr (no_limit True)"
| "observe_rows zoneinfo now default_tz ((i, row) # rows) =
     (let stripped = strip_markers row in
      case limit_search stripped of
        None \<Rightarrow>
          if billing_exhausted stripped then Inr (at_wall (u ''billing'') None [] i)
          else observe_rows zoneinfo now default_tz rows
      | Some window \<Rightarrow>
          bind_result (parse_reset_at zoneinfo stripped now default_tz) (\<lambda>(reset_at, raw).
            Inr (at_wall (lower window) reset_at raw i)))"

definition observe_pane ::
    "(utext \<Rightarrow> zone option) \<Rightarrow> utext option \<Rightarrow> time \<Rightarrow> zone \<Rightarrow> limit_observation result" where
  "observe_pane zoneinfo pane now default_tz =
     (case pane of
        None \<Rightarrow> Inr (no_limit False)
      | Some p \<Rightarrow> observe_rows zoneinfo now default_tz (rev (enumerate 0 (pane_rows p))))"

subsection \<open>What a reading rests on\<close>

lemma nearest_in: "nearest a b cs \<in> set (b # cs)"
  by (induction a b cs rule: nearest.induct) auto

lemma nearest_least: "c \<in> set (b # cs) \<Longrightarrow> \<bar>nearest a b cs - a\<bar> \<le> \<bar>c - a\<bar>"
proof (induction a b cs arbitrary: c rule: nearest.induct)
  case (2 a b d cs)
  let ?b = "if \<bar>d - a\<bar> < \<bar>b - a\<bar> then d else b"
  have least: "\<bar>nearest a ?b cs - a\<bar> \<le> \<bar>?b - a\<bar>" by (rule "2.IH") simp
  have "\<bar>?b - a\<bar> \<le> \<bar>b - a\<bar>" "\<bar>?b - a\<bar> \<le> \<bar>d - a\<bar>" by auto
  with least 2 show ?case by fastforce
qed simp

text \<open>A clock is taken as the one at most half a day away.\<close>

lemma clock_within_half_a_day:
  assumes "0 \<le> hour" "hour \<le> 23" "0 \<le> minute" "minute \<le> 59"
  shows "\<bar>nearest anchor (hd (clock_candidates hour minute anchor)) (tl (clock_candidates hour minute anchor)) - anchor\<bar> \<le> DAY_S / 2"
proof -
  define day where "day = of_int \<lfloor>anchor / DAY_S\<rfloor> * DAY_S"
  define off :: time where "off = of_int (hour * 3600 + minute * 60)"
  have cs: "clock_candidates hour minute anchor = [day + off - DAY_S, day + off, day + off + DAY_S]"
    by (simp add: clock_candidates_def Let_def day_def off_def)
  have off: "0 \<le> off" "off < DAY_S" unfolding off_def DAY_S_def using assms
    by (simp_all add: of_int_le_iff [symmetric] del: of_int_le_iff)
  have day: "day \<le> anchor" "anchor < day + DAY_S"
  proof -
    have "of_int \<lfloor>anchor / DAY_S\<rfloor> \<le> anchor / DAY_S" "anchor / DAY_S < of_int \<lfloor>anchor / DAY_S\<rfloor> + 1"
      by linarith+
    then show "day \<le> anchor" "anchor < day + DAY_S" unfolding day_def DAY_S_def
      by (simp_all add: field_simps)
  qed
  have "\<exists>c \<in> set (clock_candidates hour minute anchor). \<bar>c - anchor\<bar> \<le> DAY_S / 2"
  proof (cases "\<bar>day + off - anchor\<bar> \<le> DAY_S / 2")
    case True
    then show ?thesis by (simp add: cs)
  next
    case False
    with off day have "\<bar>day + off - DAY_S - anchor\<bar> \<le> DAY_S / 2 \<or> \<bar>day + off + DAY_S - anchor\<bar> \<le> DAY_S / 2"
      by (auto simp: abs_le_iff not_le DAY_S_def)
    then show ?thesis by (auto simp: cs)
  qed
  then obtain c where c: "c \<in> set (clock_candidates hour minute anchor)" "\<bar>c - anchor\<bar> \<le> DAY_S / 2" by blast
  have "clock_candidates hour minute anchor \<noteq> []" by (simp add: cs)
  then have "c \<in> set (hd (clock_candidates hour minute anchor) # tl (clock_candidates hour minute anchor))" using c by simp
  from nearest_least [OF this, of anchor] c(2) show ?thesis by linarith
qed

lemma clock_candidate_form:
  "t \<in> set (hd (clock_candidates hour minute anchor) # tl (clock_candidates hour minute anchor)) \<Longrightarrow>
     \<exists>k. t = of_int k * DAY_S + of_int (hour * 3600 + minute * 60)"
proof -
  let ?f = "\<lfloor>anchor / DAY_S\<rfloor>"
  let ?off = "of_int (hour * 3600 + minute * 60) :: time"
  assume "t \<in> set (hd (clock_candidates hour minute anchor) # tl (clock_candidates hour minute anchor))"
  then consider "t = of_int ?f * DAY_S + ?off - DAY_S" | "t = of_int ?f * DAY_S + ?off" | "t = of_int ?f * DAY_S + ?off + DAY_S"
    unfolding clock_candidates_def Let_def list.sel list.set insert_iff empty_iff by blast
  then show ?thesis
  proof cases
    case 1
    moreover have "of_int (?f - 1) * DAY_S = of_int ?f * DAY_S - DAY_S" by (simp add: left_diff_distrib)
    ultimately show ?thesis by (intro exI [of _ "?f - 1"]) linarith
  next
    case 2
    then show ?thesis by blast
  next
    case 3
    moreover have "of_int (?f + 1) * DAY_S = of_int ?f * DAY_S + DAY_S" by (simp add: distrib_right)
    ultimately show ?thesis by (intro exI [of _ "?f + 1"]) linarith
  qed
qed

lemma observe_rows_cases:
  assumes "observe_rows zoneinfo now tz rows = Inr obs"
  shows "lo_readable obs" "lo_limited obs \<longleftrightarrow> lo_line_index obs \<noteq> None"
    "lo_line_index obs = Some i \<Longrightarrow> \<exists>row. (i, row) \<in> set rows \<and>
       (limit_search (strip_markers row) = None \<and> billing_exhausted (strip_markers row) \<and> lo_window obs = u ''billing'' \<and> lo_reset_at obs = None
        \<or> (\<exists>window. limit_search (strip_markers row) = Some window \<and> lo_window obs = lower window))"
proof -
  have "lo_readable obs \<and> (lo_limited obs \<longleftrightarrow> lo_line_index obs \<noteq> None)
    \<and> (lo_line_index obs = Some i \<longrightarrow> (\<exists>row. (i, row) \<in> set rows \<and>
       (limit_search (strip_markers row) = None \<and> billing_exhausted (strip_markers row) \<and> lo_window obs = u ''billing'' \<and> lo_reset_at obs = None
        \<or> (\<exists>window. limit_search (strip_markers row) = Some window \<and> lo_window obs = lower window))))"
    using assms
  proof (induction zoneinfo now tz rows rule: observe_rows.induct)
    case (2 zoneinfo now tz j row rows)
    then show ?case
      by (auto simp: Let_def at_wall_def bind_result_Inr_iff split: option.splits if_splits)
  qed (auto simp: no_limit_def)
  then show "lo_readable obs" "lo_limited obs \<longleftrightarrow> lo_line_index obs \<noteq> None"
    "lo_line_index obs = Some i \<Longrightarrow> \<exists>row. (i, row) \<in> set rows \<and>
       (limit_search (strip_markers row) = None \<and> billing_exhausted (strip_markers row) \<and> lo_window obs = u ''billing'' \<and> lo_reset_at obs = None
        \<or> (\<exists>window. limit_search (strip_markers row) = Some window \<and> lo_window obs = lower window))"
    by blast+
qed

end
