(* ===== verification/Rate_Rule.thy ===== *)
theory Rate_Rule
  imports Rate_Wall Delivery
begin

text \<open>
  The decisions over two readings of a rate-limited pane: when to wake an agent
  (\<open>_ratelimit/_rule.py\<close>), what a model cap is and what proves that a switch took
  (\<open>_modelcap.py\<close>), and when to switch the model (\<open>_switch_rule.py\<close>).
\<close>

subsection \<open>Waking\<close>

datatype limit_fate =
    Not_Ours | No_Session | Unreadable_Pane | Not_Limited | Moving | Waiting | Reset_Unknown | Resume
  | Would_Resume | Resumed | Resume_Failed | Limit_Over_Budget | Limit_Cooling_Down | Limit_Capped
  | Limit_Budget_Unknown
  | Switch_Model | Already_On_Target | Would_Switch | Switched | Switch_Failed | Switch_Unverified

record limit_decision =
  ld_verdict :: limit_fate
  ld_reason :: string
  ld_detail :: msg

definition mk_limit :: "limit_fate \<Rightarrow> string \<Rightarrow> msg list \<Rightarrow> limit_decision" where
  "mk_limit v reason args = \<lparr>ld_verdict = v, ld_reason = reason, ld_detail = Fmt reason args\<rparr>"

definition index_msg :: "nat option \<Rightarrow> msg" where
  "index_msg i = (case i of None \<Rightarrow> Fmt ''None'' [] | Some n \<Rightarrow> Num (int n))"

definition decide_resume ::
    "string \<Rightarrow> string \<Rightarrow> tri \<Rightarrow> limit_observation \<Rightarrow> limit_observation \<Rightarrow> time \<Rightarrow> limit_decision" where
  "decide_resume name policy session_present fst_obs snd_obs now =
     (if policy \<notin> set MANAGED_POLICIES then mk_limit Not_Ours ''policy-never'' [Txt policy, Txt name]
      else if session_present = Unknown then mk_limit Unreadable_Pane ''sessions-unreadable'' [Txt name]
      else if session_present = No then mk_limit No_Session ''no-session'' [Txt name]
      else if \<not> (lo_readable fst_obs \<and> lo_readable snd_obs) then mk_limit Unreadable_Pane ''pane-unreadable'' [Txt name]
      else if \<not> lo_limited snd_obs then mk_limit Not_Limited ''no-wall'' [Txt name]
      else if \<not> lo_limited fst_obs \<or> lo_line_index fst_obs \<noteq> lo_line_index snd_obs
      then mk_limit Moving ''pane-advancing'' [Txt name, index_msg (lo_line_index fst_obs), index_msg (lo_line_index snd_obs)]
      else
        (case lo_reset_at snd_obs of
           None \<Rightarrow>
             if lo_window snd_obs = u ''billing'' then mk_limit Resume ''billing-exhausted'' [Txt name]
             else mk_limit Reset_Unknown ''reset-unreadable'' [Txt name]
         | Some reset_at \<Rightarrow>
             if now < reset_at then mk_limit Waiting ''wall-still-up'' [Txt name, Sec reset_at, Sec (reset_at - now)]
             else mk_limit Resume ''wall-lifted'' [Txt name, Sec reset_at]))"

text \<open>The whole rule for waking an agent.\<close>

lemma resume_iff:
  "ld_verdict (decide_resume name policy present a b now) = Resume \<longleftrightarrow>
     policy \<in> set MANAGED_POLICIES \<and> present = Yes \<and> lo_readable a \<and> lo_readable b \<and> lo_limited a \<and> lo_limited b
     \<and> lo_line_index a = lo_line_index b
     \<and> (case lo_reset_at b of None \<Rightarrow> lo_window b = u ''billing'' | Some t \<Rightarrow> t \<le> now)"
  by (cases present)
    (auto simp: decide_resume_def mk_limit_def not_less split: option.splits)

subsection \<open>A capped model\<close>

record cap_observation =
  co_readable :: bool
  co_capped :: bool
  co_subject :: utext
  co_remedy_offered :: bool
  co_reset_at :: "time option"
  co_reset_text :: utext
  co_line_index :: "nat option"

definition no_cap :: "bool \<Rightarrow> cap_observation" where
  "no_cap readable =
     \<lparr>co_readable = readable, co_capped = False, co_subject = [], co_remedy_offered = False, co_reset_at = None,
      co_reset_text = [], co_line_index = None\<rparr>"

definition model_cap_search :: "utext \<Rightarrow> utext option" where
  "model_cap_search s = p_search (limit_sentence (p_or (p_ci (u ''reached'')) (p_ci (u ''hit'')))) s"

definition remedy_offered :: "utext \<Rightarrow> bool" where
  "remedy_offered s \<longleftrightarrow>
     p_search (p_seq (p_ci (u ''switch'')) (p_seq p_spaces (p_seq (p_ci (u ''model'')) (p_seq (p_opt (p_ci (u ''s'')))
       (p_seq p_spaces (p_seq (p_ci (u ''with'')) (p_seq p_spaces (p_ci (u ''/model'')))))))) ) s \<noteq> None"

fun cap_rows ::
    "(utext \<Rightarrow> zone option) \<Rightarrow> time \<Rightarrow> zone \<Rightarrow> (nat \<times> utext) list \<Rightarrow> cap_observation result" where
  "cap_rows zoneinfo now default_tz [] = Inr (no_cap True)"
| "cap_rows zoneinfo now default_tz ((i, row) # rows) =
     (let stripped = strip_markers row in
      case model_cap_search stripped of
        None \<Rightarrow> cap_rows zoneinfo now default_tz rows
      | Some subject \<Rightarrow>
          bind_result (parse_reset_at zoneinfo stripped now default_tz) (\<lambda>(reset_at, raw).
            Inr \<lparr>co_readable = True, co_capped = True, co_subject = lower subject,
                 co_remedy_offered = remedy_offered stripped, co_reset_at = reset_at, co_reset_text = raw,
                 co_line_index = Some i\<rparr>))"

definition observe_model_cap ::
    "(utext \<Rightarrow> zone option) \<Rightarrow> utext option \<Rightarrow> time \<Rightarrow> zone \<Rightarrow> cap_observation result" where
  "observe_model_cap zoneinfo pane now default_tz =
     (case pane of
        None \<Rightarrow> Inr (no_cap False)
      | Some p \<Rightarrow> cap_rows zoneinfo now default_tz (rev (enumerate 0 (pane_rows p))))"

text \<open>\<open>verify_switch\<close>: did the switch take, by the pane and by whether the kick was submitted.\<close>

definition confirm_needle :: utext where
  "confirm_needle = flatten_pane (u ''Set model to'')"

text \<open>\<open>str.count\<close> of a non-empty needle is \<open>occurrences\<close>.\<close>

definition typed_by_us :: "utext \<Rightarrow> utext \<Rightarrow> utext list \<Rightarrow> nat" where
  "typed_by_us flat needle sent =
     (\<Sum>t \<leftarrow> sent. let f = flatten_pane t in if f \<noteq> [] \<and> holds f flat then occurrences needle f else 0)"

definition verify_switch ::
    "(utext \<Rightarrow> zone option) \<Rightarrow> utext option \<Rightarrow> utext \<Rightarrow> utext list \<Rightarrow> tri \<Rightarrow> time \<Rightarrow> zone \<Rightarrow> (tri \<times> string) result" where
  "verify_switch zoneinfo pane target sent kick_submitted now default_tz =
     (case pane of
        None \<Rightarrow> Inr (Unknown, ''pane could not be captured'')
      | Some p \<Rightarrow>
          bind_result (observe_model_cap zoneinfo (Some p) now default_tz) (\<lambda>still.
            let flat = flatten_pane p; needle = flatten_pane target in
            if co_capped still then Inr (No, ''cap banner still rendered'')
            else if confirm_needle \<noteq> [] \<and> holds confirm_needle flat \<and> needle \<noteq> [] \<and> holds needle flat
            then Inr (Yes, ''confirmation line'')
            else if needle \<noteq> [] \<and> typed_by_us flat needle sent < occurrences needle flat
            then Inr (Yes, ''named more often than typed'')
            else if kick_submitted = Yes then Inr (Yes, ''kick submitted'')
            else Inr (Unknown, ''nothing proved the switch'')))"

text \<open>What each answer rests on.\<close>

lemma verify_switch_cases:
  assumes "verify_switch zoneinfo pane target sent kick now tz = Inr (v, why)"
  shows "v = No \<longleftrightarrow> (\<exists>p obs. pane = Some p \<and> observe_model_cap zoneinfo (Some p) now tz = Inr obs \<and> co_capped obs)"
    "v = Yes \<Longrightarrow> \<exists>p obs. pane = Some p \<and> observe_model_cap zoneinfo (Some p) now tz = Inr obs \<and> \<not> co_capped obs
       \<and> (kick = Yes \<or> holds confirm_needle (flatten_pane p) \<and> holds (flatten_pane target) (flatten_pane p)
          \<or> typed_by_us (flatten_pane p) (flatten_pane target) sent < occurrences (flatten_pane target) (flatten_pane p))"
  using assms
  by (auto simp: verify_switch_def Let_def bind_result_Inr_iff split: option.splits if_splits)

subsection \<open>Switching\<close>

definition TARGET_MODEL :: utext where "TARGET_MODEL = u ''opus[1m]''"

definition CAPPED_FAMILIES :: "utext list" where "CAPPED_FAMILIES = [u ''fable'']"

definition MODEL_FAMILIES :: "utext list" where
  "MODEL_FAMILIES = [u ''opus'', u ''sonnet'', u ''haiku'', u ''fable'']"

text \<open>The first family name in the text, as the text spells it, in lower case.\<close>

definition model_family :: "utext \<Rightarrow> utext" where
  "model_family model =
     (case p_search (\<lambda>t. case find (\<lambda>w. p_ci w t \<noteq> None) MODEL_FAMILIES of
                           None \<Rightarrow> None | Some w \<Rightarrow> Some (take (length w) t)) model of
        None \<Rightarrow> [] | Some t \<Rightarrow> lower t)"

record switch_decision = limit_decision +
  ld_target :: utext

definition mk_switch :: "limit_fate \<Rightarrow> string \<Rightarrow> msg list \<Rightarrow> utext \<Rightarrow> switch_decision" where
  "mk_switch v reason args target =
     \<lparr>ld_verdict = v, ld_reason = reason, ld_detail = Fmt reason args, ld_target = target\<rparr>"

definition decide_switch ::
    "string \<Rightarrow> string \<Rightarrow> tri \<Rightarrow> utext \<Rightarrow> cap_observation \<Rightarrow> cap_observation \<Rightarrow> utext \<Rightarrow> bool \<Rightarrow> switch_decision" where
  "decide_switch name policy session_present spec_model fst_obs snd_obs target already_switched =
     (let family = model_family spec_model;
          banner_family = model_family (co_subject snd_obs)
      in if policy \<notin> set MANAGED_POLICIES then mk_switch Not_Ours ''policy-never'' [Txt policy, Txt name] []
      else if session_present = Unknown then mk_switch Unreadable_Pane ''sessions-unreadable'' [Txt name] []
      else if session_present = No then mk_switch No_Session ''no-session'' [Txt name] []
      else if \<not> (co_readable fst_obs \<and> co_readable snd_obs) then mk_switch Unreadable_Pane ''pane-unreadable'' [Txt name] []
      else if \<not> co_capped snd_obs then mk_switch Not_Limited ''no-model-cap'' [Txt name] []
      else if \<not> co_capped fst_obs \<or> co_line_index fst_obs \<noteq> co_line_index snd_obs
      then mk_switch Moving ''pane-advancing'' [Txt name, index_msg (co_line_index fst_obs), index_msg (co_line_index snd_obs)] []
      else if family \<noteq> [] \<and> family = model_family target then mk_switch Already_On_Target ''already-on-target'' [Txt name] []
      else if family = [] then mk_switch Not_Limited ''unknown-model-family'' [Txt name] []
      else if family \<notin> set CAPPED_FAMILIES \<and> banner_family \<notin> set CAPPED_FAMILIES
      then mk_switch Not_Limited ''not-a-capped-family'' [Txt name] []
      else if already_switched then mk_switch Limit_Cooling_Down ''already-switched'' [Txt name] []
      else mk_switch Switch_Model ''capped-on-a-switchable-model'' [Txt name] target)"

definition switch_fires :: "switch_decision \<Rightarrow> bool" where
  "switch_fires d \<longleftrightarrow> ld_verdict d = Switch_Model"

lemma switch_fires_iff:
  "switch_fires (decide_switch name policy present spec_model a b target already) \<longleftrightarrow>
     policy \<in> set MANAGED_POLICIES \<and> present = Yes \<and> co_readable a \<and> co_readable b \<and> co_capped a \<and> co_capped b
     \<and> co_line_index a = co_line_index b
     \<and> model_family spec_model \<noteq> [] \<and> model_family spec_model \<noteq> model_family target
     \<and> (model_family spec_model \<in> set CAPPED_FAMILIES \<or> model_family (co_subject b) \<in> set CAPPED_FAMILIES)
     \<and> \<not> already"
  by (cases present) (auto simp: switch_fires_def decide_switch_def mk_switch_def Let_def)

lemma switch_target:
  "switch_fires (decide_switch name policy present spec_model a b target already) \<Longrightarrow>
   ld_target (decide_switch name policy present spec_model a b target already) = target"
  by (auto simp: switch_fires_def decide_switch_def mk_switch_def Let_def split: if_splits)

end
