(* ===== verification/Rate_Pass.thy ===== *)
theory Rate_Pass
  imports Rate_Rule Reconcile_Pass
begin

text \<open>
  The sweep that wakes agents behind a lifted rate wall and moves agents off a capped model:
  \<open>_ratelimit/_pass.py\<close> with \<open>_switch_pass.py\<close> and the verdicts \<open>_alarm.py\<close> records.

  Two memories, one per remedy: the history of the node is that of the wakes, and the history of the
  switches is kept beside it with a budget of its own. \<open>re_restart\<close> of the environment is what
  wakes an agent (\<open>resume_fn\<close>), \<open>le_switch\<close> what switches its model (\<open>switch_fn\<close>); either may raise.
\<close>

subsection \<open>State and environment\<close>

record 'w limit_env = "'w restart_env" +
  le_switch :: "string \<Rightarrow> utext \<Rightarrow> ('w, tri) prog"

record 'w limit_state = "'w node" +
  ls_budget :: "budget option"
  ls_switch_history :: history_file
  ls_switch_budget :: "budget option"

definition le_disk :: "'w limit_env \<Rightarrow> 'w restart_env" where
  "le_disk e = \<lparr>re_write = re_write e, re_restart = re_restart e\<rparr>"

text \<open>A computation on the other history file.\<close>

definition on_switch_file :: "('w limit_state, 'a) prog \<Rightarrow> ('w limit_state, 'a) prog" where
  "on_switch_file m s =
     (case m (s\<lparr>nd_history := ls_switch_history s\<rparr>) of
        (r, s') \<Rightarrow> (r, s'\<lparr>nd_history := nd_history s, ls_switch_history := nd_history s'\<rparr>))"

definition call_switch :: "'w limit_env \<Rightarrow> string \<Rightarrow> utext \<Rightarrow> ('w limit_state, tri) prog" where
  "call_switch e name target s =
     (case le_switch e name target (nd_world s) of (r, w) \<Rightarrow> (r, s\<lparr>nd_world := w\<rparr>))"

record limit_report =
  lr_name :: string
  lr_verdict :: limit_fate
  lr_reason :: string
  lr_detail :: msg

definition report_of :: "string \<Rightarrow> limit_decision \<Rightarrow> limit_report" where
  "report_of name d = \<lparr>lr_name = name, lr_verdict = ld_verdict d, lr_reason = ld_reason d, lr_detail = ld_detail d\<rparr>"

definition budget_limit_verdict :: "string \<Rightarrow> limit_fate option" where
  "budget_limit_verdict reason =
     (if reason = ''debounce'' then Some Limit_Cooling_Down
      else if reason = ''over-budget'' then Some Limit_Over_Budget
      else if reason = ''pass-cap'' then Some Limit_Capped
      else None)"

definition RESUME_SPENT :: "limit_fate list" where
  "RESUME_SPENT = [Resumed, Resume_Failed]"

definition SWITCH_SPENT :: "limit_fate list" where
  "SWITCH_SPENT = [Switched, Switch_Failed, Switch_Unverified]"

subsection \<open>Waking one agent\<close>

definition resume_perform ::
    "'w limit_env \<Rightarrow> string \<Rightarrow> limit_decision \<Rightarrow> bool \<Rightarrow> time \<Rightarrow> ('w limit_state, limit_report) prog" where
  "resume_perform e name d apply_it now =
     seq get_state (\<lambda>s.
       case ls_budget s of
         None \<Rightarrow> ret (report_of name (mk_limit Limit_Budget_Unknown ''budget-unreadable'' [Txt name]))
       | Some b \<Rightarrow>
           (let check = budget_check b name now in
            if \<not> bc_allowed check then
              (case budget_limit_verdict (bc_reason check) of
                 None \<Rightarrow> raising (OtherError ''KeyError'')
               | Some v \<Rightarrow>
                   ret (report_of name (mk_limit v (bc_reason check) [ld_detail d, bc_detail check])))
            else if \<not> apply_it then
              ret (report_of name (d\<lparr>ld_verdict := Would_Resume\<rparr>))
            else
              seq (call_restart (le_disk e) name) (\<lambda>woke.
                ret (report_of name
                  \<lparr>ld_verdict = (if woke then Resumed else Resume_Failed), ld_reason = ld_reason d,
                   ld_detail = Fmt (if woke then ''resumed'' else ''not provably submitted'') [ld_detail d]\<rparr>))))"

text \<open>What was spent is recorded and saved; when it cannot be saved the pass is capped.\<close>

definition resume_record :: "'w limit_env \<Rightarrow> string \<Rightarrow> time \<Rightarrow> ('w limit_state, unit) prog" where
  "resume_record e name now s =
     (case ls_budget s of
        None \<Rightarrow> (Inr (), s)
      | Some b \<Rightarrow>
          (let b' = budget_record b name now in
           case save_history (le_disk e) (bu_history b') now (s\<lparr>ls_budget := Some b'\<rparr>) of
             (Inr _, s') \<Rightarrow> (Inr (), s')
           | (Inl _, s') \<Rightarrow> (Inr (), s'\<lparr>ls_budget := Some (halt_restarts b')\<rparr>)))"

subsection \<open>Switching one agent: \<open>_switch_pass.py\<close>\<close>

definition already_switched :: "budget option \<Rightarrow> string \<Rightarrow> time \<Rightarrow> bool" where
  "already_switched budget name now =
     (case budget of None \<Rightarrow> False | Some b \<Rightarrow> bc_reason (budget_check b name now) = ''debounce'')"

definition switch_report ::
    "'w limit_env \<Rightarrow> string \<Rightarrow> switch_decision \<Rightarrow> bool \<Rightarrow> time \<Rightarrow> ('w limit_state, limit_decision) prog" where
  "switch_report e name d apply_it now =
     seq get_state (\<lambda>s.
       case ls_switch_budget s of
         None \<Rightarrow> ret (mk_limit Limit_Budget_Unknown ''switch-budget-unreadable'' [Txt name])
       | Some b \<Rightarrow>
           (let check = budget_check b name now in
            if \<not> bc_allowed check then
              (case budget_limit_verdict (bc_reason check) of
                 None \<Rightarrow> raising (OtherError ''KeyError'')
               | Some v \<Rightarrow> ret (mk_limit v (bc_reason check) [ld_detail d, bc_detail check]))
            else if \<not> apply_it then
              ret \<lparr>ld_verdict = Would_Switch, ld_reason = ld_reason d, ld_detail = ld_detail d\<rparr>
            else
              seq (call_switch e name (ld_target d)) (\<lambda>switched.
                ret \<lparr>ld_verdict =
                       (if switched = Yes then Switched else if switched = No then Switch_Failed else Switch_Unverified),
                     ld_reason = ld_reason d, ld_detail = Fmt ''switch'' [ld_detail d, Tri switched]\<rparr>)))"

definition record_switch :: "'w limit_env \<Rightarrow> string \<Rightarrow> time \<Rightarrow> ('w limit_state, unit) prog" where
  "record_switch e name now s =
     (case ls_switch_budget s of
        None \<Rightarrow> (Inr (), s)
      | Some b \<Rightarrow>
          (let b' = budget_record b name now in
           case on_switch_file (save_history (le_disk e) (bu_history b') now) (s\<lparr>ls_switch_budget := Some b'\<rparr>) of
             (Inr _, s') \<Rightarrow> (Inr (), s')
           | (Inl _, s') \<Rightarrow> (Inr (), s'\<lparr>ls_switch_budget := Some (halt_restarts b')\<rparr>)))"

subsection \<open>The sweep\<close>

record limit_config =
  lc_name :: string
  lc_policy :: string
  lc_model :: utext

type_synonym pane_pair = "utext option \<times> utext option"

text \<open>
  What a pass is given: its options, the specs of the registry with the configuration each loads to,
  the two captures of every live pane, or the exception of the capture.
\<close>

record limit_input =
  li_apply :: bool
  li_limit :: int
  li_now :: time
  li_specs :: "(string \<times> limit_config result) list option"
  li_captures :: "(string \<times> pane_pair) list result"
  li_switch_model :: bool
  li_zoneinfo :: "utext \<Rightarrow> zone option"
  li_tz :: zone

definition pane_of :: "(string \<times> pane_pair) list \<Rightarrow> string \<Rightarrow> pane_pair" where
  "pane_of captures name = (case map_of captures name of None \<Rightarrow> (None, None) | Some p \<Rightarrow> p)"

definition wall_decision ::
    "limit_input \<Rightarrow> tri \<Rightarrow> pane_pair \<Rightarrow> limit_config \<Rightarrow> limit_decision result" where
  "wall_decision i present panes c =
     bind_result (observe_pane (li_zoneinfo i) (fst panes) (li_now i) (li_tz i)) (\<lambda>a.
     bind_result (observe_pane (li_zoneinfo i) (snd panes) (li_now i) (li_tz i)) (\<lambda>b.
       Inr (decide_resume (lc_name c) (lc_policy c) present a b (li_now i))))"

definition cap_decision ::
    "limit_input \<Rightarrow> tri \<Rightarrow> pane_pair \<Rightarrow> limit_config \<Rightarrow> bool \<Rightarrow> switch_decision result" where
  "cap_decision i present panes c already =
     bind_result (observe_model_cap (li_zoneinfo i) (fst panes) (li_now i) (li_tz i)) (\<lambda>a.
     bind_result (observe_model_cap (li_zoneinfo i) (snd panes) (li_now i) (li_tz i)) (\<lambda>b.
       Inr (decide_switch (lc_name c) (lc_policy c) present (lc_model c) a b TARGET_MODEL already)))"

definition wake_one :: "'w limit_env \<Rightarrow> limit_input \<Rightarrow> string \<Rightarrow> limit_decision \<Rightarrow> ('w limit_state, limit_report) prog" where
  "wake_one e i name d =
     (if ld_verdict d \<noteq> Resume then ret (report_of name d)
      else
        seq (resume_perform e name d (li_apply i) (li_now i)) (\<lambda>report.
          seq (if lr_verdict report \<in> set RESUME_SPENT then resume_record e name (li_now i) else ret ()) (\<lambda>_.
            ret report)))"

definition switch_one :: "'w limit_env \<Rightarrow> limit_input \<Rightarrow> string \<Rightarrow> switch_decision \<Rightarrow> ('w limit_state, limit_report) prog" where
  "switch_one e i name d =
     seq (switch_report e name d (li_apply i) (li_now i)) (\<lambda>outcome.
       seq (if ld_verdict outcome \<in> set SWITCH_SPENT then record_switch e name (li_now i) else ret ()) (\<lambda>_.
         ret (report_of name outcome)))"

definition sweep_one ::
    "'w limit_env \<Rightarrow> limit_input \<Rightarrow> (string \<times> pane_pair) list option \<Rightarrow> limit_config \<Rightarrow> ('w limit_state, limit_report) prog" where
  "sweep_one e i captures c =
     (let name = lc_name c;
          panes = (case captures of None \<Rightarrow> (None, None) | Some cs \<Rightarrow> pane_of cs name);
          present = (case captures of None \<Rightarrow> Unknown | Some cs \<Rightarrow> Some (map_of cs name \<noteq> None))
      in seq (lift (wall_decision i present panes c)) (\<lambda>d.
           if \<not> li_switch_model i then wake_one e i name d
           else
             seq get_state (\<lambda>s.
               seq (lift (cap_decision i present panes c (already_switched (ls_switch_budget s) name (li_now i)))) (\<lambda>sd.
                 if switch_fires sd then switch_one e i name sd
                 else if ld_verdict d = Not_Limited \<and> ld_verdict sd \<noteq> Not_Limited
                 then ret \<lparr>lr_name = name, lr_verdict = ld_verdict sd, lr_reason = ld_reason sd, lr_detail = ld_detail sd\<rparr>
                 else wake_one e i name d))))"

definition unreadable_spec :: "string \<Rightarrow> py_error \<Rightarrow> limit_report" where
  "unreadable_spec dir err =
     \<lparr>lr_name = dir, lr_verdict = Unreadable_Pane, lr_reason = ''spec-unreadable'',
      lr_detail = Fmt ''spec_unreadable'' [Txt dir, error_msg err]\<rparr>"

fun sweep_all ::
    "'w limit_env \<Rightarrow> limit_input \<Rightarrow> (string \<times> pane_pair) list option \<Rightarrow> (string \<times> limit_config result) list
      \<Rightarrow> ('w limit_state, limit_report list) prog" where
  "sweep_all e i captures [] = ret []"
| "sweep_all e i captures ((dir, Inl err) # rest) =
     (if is_exit err then raising err
      else seq (sweep_all e i captures rest) (\<lambda>reports. ret (unreadable_spec dir err # reports)))"
| "sweep_all e i captures ((dir, Inr c) # rest) =
     seq (sweep_one e i captures c) (\<lambda>report.
       seq (sweep_all e i captures rest) (\<lambda>reports. ret (report # reports)))"

definition limit_specs :: "limit_input \<Rightarrow> (string \<times> limit_config result) list" where
  "limit_specs i =
     (case li_specs i of
        None \<Rightarrow> []
      | Some ds \<Rightarrow> filter (\<lambda>d. \<not> starts_with (fst d) ''_'') (sort_key fst ds))"

definition budget_from :: "int \<Rightarrow> history_read \<Rightarrow> budget option" where
  "budget_from limit r =
     (if enforceable r then Some \<lparr>bu_history = hr_history r, bu_pass_cap = limit, bu_spent = 0\<rparr> else None)"

text \<open>The two memories, and then the captures.\<close>

definition open_limit_budgets :: "'w limit_env \<Rightarrow> limit_input \<Rightarrow> ('w limit_state, unit) prog" where
  "open_limit_budgets e i =
     seq (read_history (le_disk e)) (\<lambda>r.
     seq (put_state (\<lambda>s. s\<lparr>ls_budget := budget_from (li_limit i) r, ls_switch_budget := None\<rparr>)) (\<lambda>_.
       if \<not> li_switch_model i then ret ()
       else
         seq (on_switch_file (read_history (le_disk e))) (\<lambda>q.
           put_state (\<lambda>s. s\<lparr>ls_switch_budget := budget_from (li_limit i) q\<rparr>))))"

record limit_outcome =
  lt_reports :: "limit_report list"
  lt_applied :: bool

definition limit_of :: "limit_outcome \<Rightarrow> limit_fate list \<Rightarrow> limit_report list" where
  "limit_of out vs = filter (\<lambda>r. lr_verdict r \<in> set vs) (lt_reports out)"

definition limit_exit_code :: "limit_outcome \<Rightarrow> int" where
  "limit_exit_code out =
     (if limit_of out [Unreadable_Pane, Reset_Unknown, Limit_Budget_Unknown, Switch_Unverified] \<noteq> [] then 2
      else if limit_of out [Resume_Failed, Limit_Over_Budget, Limit_Cooling_Down, Limit_Capped, Would_Resume,
        Switch_Failed, Would_Switch] \<noteq> [] then 1
      else 0)"

definition read_captures :: "limit_input \<Rightarrow> ('w limit_state, (string \<times> pane_pair) list option) prog" where
  "read_captures i =
     seq (except_exception (lift (li_captures i))) (\<lambda>r.
       ret (case r of Inl _ \<Rightarrow> None | Inr cs \<Rightarrow> Some cs))"

definition resume_pass :: "'w limit_env \<Rightarrow> limit_input \<Rightarrow> ('w limit_state, limit_outcome) prog" where
  "resume_pass e i =
     seq (open_limit_budgets e i) (\<lambda>_.
     seq (read_captures i) (\<lambda>captures.
     seq (sweep_all e i captures (limit_specs i)) (\<lambda>reports.
       ret \<lparr>lt_reports = reports, lt_applied = li_apply i\<rparr>)))"

subsection \<open>What is recorded: \<open>_alarm.py\<close>\<close>

definition limit_verdict_for :: "limit_report \<Rightarrow> (string \<times> subject_state \<times> limit_fate \<times> msg) option" where
  "limit_verdict_for r =
     (if lr_verdict r \<in> {Resume_Failed, Limit_Over_Budget, Reset_Unknown, Switch_Failed, Switch_Unverified} then
        Some (lr_name r, Degraded, lr_verdict r, Fmt ''still parked'' [Txt (lr_name r), lr_detail r])
      else if lr_verdict r \<in> {Resumed, Switched} then
        Some (lr_name r, Healthy, lr_verdict r, Fmt ''working again'' [Txt (lr_name r), lr_detail r])
      else None)"

definition limit_recorded :: "limit_report list \<Rightarrow> (string \<times> subject_state \<times> limit_fate \<times> msg) list" where
  "limit_recorded reports = List.map_filter limit_verdict_for reports"

end
