(* ===== verification/Rate_Facts.thy ===== *)
theory Rate_Facts
  imports Rate_Pass Reconcile
begin

text \<open>
  What a sweep over rate-limited agents calls: the environment with every call written down before
  it is made, the calls of one agent's turn, and those of a pass.
\<close>

subsection \<open>Calls\<close>

datatype rate_call = Woke string | Switched_To string utext

definition call_log :: "'w limit_env \<Rightarrow> (rate_call list \<times> 'w) limit_env" where
  "call_log e =
     \<lparr>re_write = (\<lambda>(calls, w). case re_write e w of (ok, w') \<Rightarrow> (ok, (calls, w'))),
      re_restart = (\<lambda>name (calls, w). case re_restart e name w of (r, w') \<Rightarrow> (r, (calls @ [Woke name], w'))),
      le_switch = (\<lambda>name target (calls, w).
        case le_switch e name target w of (r, w') \<Rightarrow> (r, (calls @ [Switched_To name target], w')))\<rparr>"

abbreviation made :: "(rate_call list \<times> 'w, 'z) node_scheme \<Rightarrow> rate_call list" where
  "made s \<equiv> fst (nd_world s)"

definition left :: "budget option \<Rightarrow> int" where
  "left b = (case b of None \<Rightarrow> 0 | Some b \<Rightarrow> max 0 (bu_pass_cap b - bu_spent b))"

lemma log_write: "fst (snd (re_write (le_disk (call_log e)) w)) = fst w"
  by (cases w) (simp add: call_log_def le_disk_def split: prod.splits)

lemma limit_save_calls:
  assumes "save_history (le_disk (call_log e)) h now s = (r, s')"
  shows "made s' = made s \<and> (\<exists>f w. s' = s\<lparr>nd_history := f, nd_world := w\<rparr>)"
proof -
  obtain ok w where w: "re_write (le_disk (call_log e)) (nd_world s) = (ok, w)"
    by (metis surj_pair)
  with log_write [of e "nd_world s"] have "fst w = made s" by simp
  then have "made s' = made s"
    and s': "s' = s\<lparr>nd_history := (if ok then Holding (json_of_history (prune_history now h)) else nd_history s), nd_world := w\<rparr>"
    using w assms by (cases ok; auto simp: save_history_def write_history_def)+
  from s' have "\<exists>f w. s' = s\<lparr>nd_history := f, nd_world := w\<rparr>" by blast
  with \<open>made s' = made s\<close> show ?thesis ..
qed

lemma wake_call:
  assumes "call_restart (le_disk (call_log e)) name s = (r, s')"
  shows "made s' = made s @ [Woke name] \<and> (\<exists>w. s' = s\<lparr>nd_world := w\<rparr>)"
  using assms by (cases "nd_world s") (auto simp: call_restart_def le_disk_def call_log_def split: prod.splits)

lemma switch_call:
  assumes "call_switch (call_log e) name target s = (r, s')"
  shows "made s' = made s @ [Switched_To name target] \<and> (\<exists>w. s' = s\<lparr>nd_world := w\<rparr>)"
  using assms by (cases "nd_world s") (auto simp: call_switch_def call_log_def split: prod.splits)

subsection \<open>One agent\<close>

lemma limit_refusal:
  "\<not> bc_allowed (budget_check b name now) \<Longrightarrow>
     \<exists>v. budget_limit_verdict (bc_reason (budget_check b name now)) = Some v
       \<and> v \<in> {Limit_Cooling_Down, Limit_Over_Budget, Limit_Capped}"
  by (auto simp: budget_check_def budget_limit_verdict_def Let_def not_less split: if_splits)

lemma allowed_left: "bc_allowed (budget_check b name now) \<Longrightarrow> 0 < left (Some b)"
  by (simp add: allowed_iff left_def)

lemma left_record: "bu_spent b < bu_pass_cap b \<Longrightarrow> left (Some (budget_record b name now)) = left (Some b) - 1"
  by (simp add: left_def budget_record_def)

lemma left_halt: "left (Some (halt_restarts b)) = 0"
  by (simp add: left_def halt_restarts_def)

lemma resume_perform_calls:
  assumes "resume_perform (call_log e) name d apply_it now s = (r, s')"
  shows "(s' = s \<and> (\<exists>rep. r = Inr rep \<and> lr_verdict rep \<notin> set RESUME_SPENT))
    \<or> (apply_it \<and> (\<exists>b w. ls_budget s = Some b \<and> bc_allowed (budget_check b name now) \<and> s' = s\<lparr>nd_world := w\<rparr>)
       \<and> made s' = made s @ [Woke name] \<and> (\<forall>rep. r = Inr rep \<longrightarrow> lr_verdict rep \<in> set RESUME_SPENT))"
proof (cases "\<exists>b. ls_budget s = Some b \<and> bc_allowed (budget_check b name now) \<and> apply_it")
  case True
  then obtain b where b: "ls_budget s = Some b" "bc_allowed (budget_check b name now)" "apply_it" by blast
  obtain q s1 where q: "call_restart (le_disk (call_log e)) name s = (q, s1)"
    by (metis surj_pair)
  have r: "s' = s1 \<and> (\<forall>rep. r = Inr rep \<longrightarrow> lr_verdict rep \<in> set RESUME_SPENT)"
    using assms b q
    by (cases q) (auto simp: resume_perform_def seq_def get_state_def ret_def Let_def report_of_def RESUME_SPENT_def
        split: if_splits)
  with wake_call [OF q] b show ?thesis by auto
next
  case False
  show ?thesis
  proof (cases "ls_budget s")
    case None
    with assms show ?thesis
      by (auto simp: resume_perform_def prog report_of_def mk_limit_def RESUME_SPENT_def)
  next
    case (Some b)
    show ?thesis
    proof (cases "bc_allowed (budget_check b name now)")
      case True
      with Some False assms show ?thesis
        by (auto simp: resume_perform_def prog report_of_def RESUME_SPENT_def Let_def)
    next
      case refused: False
      from limit_refusal [OF this] obtain v where "budget_limit_verdict (bc_reason (budget_check b name now)) = Some v"
        "v \<in> {Limit_Cooling_Down, Limit_Over_Budget, Limit_Capped}" by blast
      with Some refused assms show ?thesis
        by (auto simp: resume_perform_def prog report_of_def mk_limit_def RESUME_SPENT_def Let_def)
    qed
  qed
qed

lemma resume_record_calls:
  assumes "resume_record (call_log e) name now s = (r, s')" and "ls_budget s = Some b"
    and "bu_spent b < bu_pass_cap b"
  shows "r = Inr () \<and> made s' = made s \<and> ls_switch_budget s' = ls_switch_budget s
    \<and> left (ls_budget s') \<le> left (ls_budget s) - 1"
proof -
  let ?b = "budget_record b name now"
  obtain q s1 where q: "save_history (le_disk (call_log e)) (bu_history ?b) now (s\<lparr>ls_budget := Some ?b\<rparr>) = (q, s1)"
    by (metis surj_pair)
  from limit_save_calls [OF q] obtain f w where s1: "made s1 = made s" "s1 = s\<lparr>ls_budget := Some ?b, nd_history := f, nd_world := w\<rparr>"
    by auto
  have "0 < left (Some b)" using assms(3) by (simp add: left_def)
  with assms q s1 show ?thesis
    by (cases q) (auto simp: resume_record_def Let_def left_record left_halt)
qed

lemma switch_report_calls:
  assumes "switch_report (call_log e) name d apply_it now s = (r, s')"
  shows "(s' = s \<and> (\<exists>out. r = Inr out \<and> ld_verdict out \<notin> set SWITCH_SPENT))
    \<or> (apply_it \<and> (\<exists>b w. ls_switch_budget s = Some b \<and> bc_allowed (budget_check b name now) \<and> s' = s\<lparr>nd_world := w\<rparr>)
       \<and> made s' = made s @ [Switched_To name (ld_target d)] \<and> (\<forall>out. r = Inr out \<longrightarrow> ld_verdict out \<in> set SWITCH_SPENT))"
proof (cases "\<exists>b. ls_switch_budget s = Some b \<and> bc_allowed (budget_check b name now) \<and> apply_it")
  case True
  then obtain b where b: "ls_switch_budget s = Some b" "bc_allowed (budget_check b name now)" "apply_it" by blast
  obtain q s1 where q: "call_switch (call_log e) name (ld_target d) s = (q, s1)"
    by (metis surj_pair)
  have r: "s' = s1 \<and> (\<forall>out. r = Inr out \<longrightarrow> ld_verdict out \<in> set SWITCH_SPENT)"
    using assms b q
    by (cases q) (auto simp: switch_report_def seq_def get_state_def ret_def Let_def SWITCH_SPENT_def split: if_splits)
  with switch_call [OF q] b show ?thesis by auto
next
  case False
  show ?thesis
  proof (cases "ls_switch_budget s")
    case None
    with assms show ?thesis by (auto simp: switch_report_def prog mk_limit_def SWITCH_SPENT_def)
  next
    case (Some b)
    show ?thesis
    proof (cases "bc_allowed (budget_check b name now)")
      case True
      with Some False assms show ?thesis by (auto simp: switch_report_def prog SWITCH_SPENT_def Let_def)
    next
      case refused: False
      from limit_refusal [OF this] obtain v where "budget_limit_verdict (bc_reason (budget_check b name now)) = Some v"
        "v \<in> {Limit_Cooling_Down, Limit_Over_Budget, Limit_Capped}" by blast
      with Some refused assms show ?thesis
        by (auto simp: switch_report_def prog mk_limit_def SWITCH_SPENT_def Let_def)
    qed
  qed
qed

lemma record_switch_calls:
  assumes "record_switch (call_log e) name now s = (r, s')" and "ls_switch_budget s = Some b"
    and "bu_spent b < bu_pass_cap b"
  shows "r = Inr () \<and> made s' = made s \<and> ls_budget s' = ls_budget s
    \<and> left (ls_switch_budget s') \<le> left (ls_switch_budget s) - 1"
proof -
  let ?b = "budget_record b name now"
  let ?s = "s\<lparr>ls_switch_budget := Some ?b\<rparr>"
  obtain q s1 where q: "save_history (le_disk (call_log e)) (bu_history ?b) now (?s\<lparr>nd_history := ls_switch_history ?s\<rparr>) = (q, s1)"
    by (metis surj_pair)
  from limit_save_calls [OF q] obtain f w where s1: "made s1 = made s"
    "s1 = s\<lparr>ls_switch_budget := Some ?b, nd_history := f, nd_world := w\<rparr>" by auto
  have "0 < left (Some b)" using assms(3) by (simp add: left_def)
  with assms q s1 show ?thesis
    by (cases q) (auto simp: record_switch_def on_switch_file_def Let_def left_record left_halt)
qed

subsection \<open>The turn of one agent\<close>

text \<open>What is left of the cap after a step: nothing is spent after one that raised.\<close>

definition left_after :: "py_error + 'a \<Rightarrow> budget option \<Rightarrow> int" where
  "left_after r b = (case r of Inl _ \<Rightarrow> 0 | Inr _ \<Rightarrow> left b)"

fun wakes :: "rate_call list \<Rightarrow> int" where
  "wakes [] = 0"
| "wakes (Woke _ # cs) = 1 + wakes cs"
| "wakes (Switched_To _ _ # cs) = wakes cs"

fun switches :: "rate_call list \<Rightarrow> int" where
  "switches [] = 0"
| "switches (Woke _ # cs) = switches cs"
| "switches (Switched_To _ _ # cs) = 1 + switches cs"

lemma wakes_append [simp]: "wakes (cs @ ds) = wakes cs + wakes ds"
  by (induction cs rule: wakes.induct) auto

lemma switches_append [simp]: "switches (cs @ ds) = switches cs + switches ds"
  by (induction cs rule: switches.induct) auto

lemma left_nonneg [simp]: "0 \<le> left b" "0 \<le> left_after r b"
  by (auto simp: left_def left_after_def split: option.split sum.split)

text \<open>
  What every step keeps: the calls it adds, each among those \<open>P\<close> allows, fit what was left of the two
  caps, and what is left afterwards is smaller by as many.
\<close>

definition spends ::
    "(rate_call \<Rightarrow> bool) \<Rightarrow> (rate_call list \<times> 'w) limit_state \<Rightarrow> py_error + 'a \<Rightarrow> (rate_call list \<times> 'w) limit_state \<Rightarrow> bool" where
  "spends P s r s' \<longleftrightarrow>
     (\<exists>cs. made s' = made s @ cs \<and> (\<forall>c \<in> set cs. P c)
        \<and> wakes cs + left_after r (ls_budget s') \<le> left (ls_budget s)
        \<and> switches cs + left_after r (ls_switch_budget s') \<le> left (ls_switch_budget s))"

lemma spends_nothing:
  "made s' = made s \<Longrightarrow> ls_budget s' = ls_budget s \<Longrightarrow> ls_switch_budget s' = ls_switch_budget s \<Longrightarrow> spends P s r s'"
  unfolding spends_def by (rule exI [of _ "[]"]) (simp add: left_after_def split: sum.split)

lemma spends_mono: "spends P s r s' \<Longrightarrow> (\<And>c. P c \<Longrightarrow> Q c) \<Longrightarrow> spends Q s r s'"
  unfolding spends_def by blast

lemma spends_seq:
  assumes "spends P s (Inr x :: py_error + 'x) s1" and "spends P s1 r s2"
  shows "spends P s r s2"
proof -
  from assms(1) obtain cs where cs: "made s1 = made s @ cs" "\<forall>c \<in> set cs. P c"
    "wakes cs + left (ls_budget s1) \<le> left (ls_budget s)"
    "switches cs + left (ls_switch_budget s1) \<le> left (ls_switch_budget s)"
    by (auto simp: spends_def left_after_def)
  from assms(2) obtain ds where ds: "made s2 = made s1 @ ds" "\<forall>c \<in> set ds. P c"
    "wakes ds + left_after r (ls_budget s2) \<le> left (ls_budget s1)"
    "switches ds + left_after r (ls_switch_budget s2) \<le> left (ls_switch_budget s1)"
    by (auto simp: spends_def)
  with cs have "made s2 = made s @ (cs @ ds) \<and> (\<forall>c \<in> set (cs @ ds). P c)
      \<and> wakes (cs @ ds) + left_after r (ls_budget s2) \<le> left (ls_budget s)
      \<and> switches (cs @ ds) + left_after r (ls_switch_budget s2) \<le> left (ls_switch_budget s)"
    by auto
  then show ?thesis unfolding spends_def by (rule exI)
qed

lemma spends_raised: "spends P s (Inl err :: py_error + 'x) s' \<Longrightarrow> spends P s (Inl err :: py_error + 'y) s'"
  by (simp add: spends_def left_after_def)

text \<open>The wake of one agent: the call is made, and the spending written down when it returns.\<close>

lemma wake_one_spends:
  assumes "wake_one (call_log e) i name d s = (r, s')"
  shows "spends (\<lambda>c. c = Woke name \<and> ld_verdict d = Resume \<and> li_apply i) s r s'"
proof (cases "ld_verdict d = Resume")
  case False
  with assms show ?thesis by (auto simp: wake_one_def ret_def intro: spends_nothing)
next
  case resume: True
  obtain q s1 where q: "resume_perform (call_log e) name d (li_apply i) (li_now i) s = (q, s1)"
    by (metis surj_pair)
  from resume_perform_calls [OF q] show ?thesis
  proof (elim disjE conjE exE)
    fix rep
    assume "s1 = s" "q = Inr rep" "lr_verdict rep \<notin> set RESUME_SPENT"
    with assms resume q have "s' = s" by (simp add: wake_one_def seq_def ret_def)
    then show ?thesis by (simp add: spends_nothing)
  next
    fix b w
    assume b: "li_apply i" "ls_budget s = Some b" "bc_allowed (budget_check b name (li_now i))" "s1 = s\<lparr>nd_world := w\<rparr>"
      "made s1 = made s @ [Woke name]" "\<forall>rep. q = Inr rep \<longrightarrow> lr_verdict rep \<in> set RESUME_SPENT"
    have room: "0 < left (Some b)" and cap: "bu_spent b < bu_pass_cap b"
      using b(3) by (simp_all add: left_def allowed_iff)
    show ?thesis
    proof (cases q)
      case (Inl err)
      with assms resume q have "s' = s1" "r = Inl err" by (auto simp: wake_one_def seq_def)
      with b room resume show ?thesis
        unfolding spends_def by (intro exI [of _ "[Woke name]"]) (simp add: left_after_def)
    next
      case (Inr rep)
      obtain t s2 where t: "resume_record (call_log e) name (li_now i) s1 = (t, s2)"
        by (metis surj_pair)
      from resume_record_calls [OF t _ cap] b have t': "t = Inr ()" "made s2 = made s1"
        "ls_switch_budget s2 = ls_switch_budget s1" "left (ls_budget s2) \<le> left (ls_budget s1) - 1"
        by simp_all
      with assms resume q t b Inr have "s' = s2" by (simp add: wake_one_def seq_def ret_def)
      with b t' room resume show ?thesis
        unfolding spends_def
        by (intro exI [of _ "[Woke name]"]) (simp add: left_after_def split: sum.split)
    qed
  qed
qed

lemma switch_one_spends:
  assumes "switch_one (call_log e) i name d s = (r, s')"
  shows "spends (\<lambda>c. c = Switched_To name (ld_target d) \<and> li_apply i) s r s'"
proof -
  obtain q s1 where q: "switch_report (call_log e) name d (li_apply i) (li_now i) s = (q, s1)"
    by (metis surj_pair)
  from switch_report_calls [OF q] show ?thesis
  proof (elim disjE conjE exE)
    fix out
    assume "s1 = s" "q = Inr out" "ld_verdict out \<notin> set SWITCH_SPENT"
    with assms q have "s' = s" by (simp add: switch_one_def seq_def ret_def)
    then show ?thesis by (simp add: spends_nothing)
  next
    fix b w
    assume b: "li_apply i" "ls_switch_budget s = Some b" "bc_allowed (budget_check b name (li_now i))"
      "s1 = s\<lparr>nd_world := w\<rparr>" "made s1 = made s @ [Switched_To name (ld_target d)]"
      "\<forall>out. q = Inr out \<longrightarrow> ld_verdict out \<in> set SWITCH_SPENT"
    have room: "0 < left (Some b)" and cap: "bu_spent b < bu_pass_cap b"
      using b(3) by (simp_all add: left_def allowed_iff)
    show ?thesis
    proof (cases q)
      case (Inl err)
      with assms q have "s' = s1" "r = Inl err" by (auto simp: switch_one_def seq_def)
      with b room show ?thesis
        unfolding spends_def by (intro exI [of _ "[Switched_To name (ld_target d)]"]) (simp add: left_after_def)
    next
      case (Inr out)
      obtain t s2 where t: "record_switch (call_log e) name (li_now i) s1 = (t, s2)"
        by (metis surj_pair)
      from record_switch_calls [OF t _ cap] b have t': "t = Inr ()" "made s2 = made s1"
        "ls_budget s2 = ls_budget s1" "left (ls_switch_budget s2) \<le> left (ls_switch_budget s1) - 1"
        by simp_all
      with assms q t b Inr have "s' = s2" by (simp add: switch_one_def seq_def ret_def)
      with b t' room show ?thesis
        unfolding spends_def
        by (intro exI [of _ "[Switched_To name (ld_target d)]"]) (simp add: left_after_def split: sum.split)
    qed
  qed
qed

text \<open>Which calls the two readings of an agent's pane ask for.\<close>

definition panes_of :: "(string \<times> pane_pair) list option \<Rightarrow> string \<Rightarrow> pane_pair" where
  "panes_of captures name = (case captures of None \<Rightarrow> (None, None) | Some cs \<Rightarrow> pane_of cs name)"

definition presence :: "(string \<times> pane_pair) list option \<Rightarrow> string \<Rightarrow> tri" where
  "presence captures name = (case captures of None \<Rightarrow> Unknown | Some cs \<Rightarrow> Some (map_of cs name \<noteq> None))"

fun asked_for :: "limit_input \<Rightarrow> (string \<times> pane_pair) list option \<Rightarrow> limit_config \<Rightarrow> rate_call \<Rightarrow> bool" where
  "asked_for i captures c (Woke name) \<longleftrightarrow>
     name = lc_name c
     \<and> (\<exists>d. wall_decision i (presence captures name) (panes_of captures name) c = Inr d \<and> ld_verdict d = Resume)"
| "asked_for i captures c (Switched_To name target) \<longleftrightarrow>
     name = lc_name c \<and> li_switch_model i \<and> target = TARGET_MODEL
     \<and> (\<exists>d. cap_decision i (presence captures name) (panes_of captures name) c False = Inr d \<and> switch_fires d)"

lemma cap_fires:
  assumes "cap_decision i present panes c already = Inr d" and "switch_fires d"
  shows "ld_target d = TARGET_MODEL \<and> (\<exists>d'. cap_decision i present panes c False = Inr d' \<and> switch_fires d')"
  using assms
  by (auto simp: cap_decision_def bind_result_Inr_iff switch_fires_iff switch_target)

lemma sweep_one_spends:
  assumes "sweep_one (call_log e) i captures c s = (r, s')"
  shows "spends (\<lambda>k. li_apply i \<and> asked_for i captures c k) s r s'"
proof -
  let ?name = "lc_name c"
  let ?wall = "wall_decision i (presence captures ?name) (panes_of captures ?name) c"
  let ?cap = "cap_decision i (presence captures ?name) (panes_of captures ?name) c
    (already_switched (ls_switch_budget s) ?name (li_now i))"
  have run: "sweep_one (call_log e) i captures c s =
      seq (lift ?wall) (\<lambda>d.
        if \<not> li_switch_model i then wake_one (call_log e) i ?name d
        else seq get_state (\<lambda>s.
          seq (lift (cap_decision i (presence captures ?name) (panes_of captures ?name) c
              (already_switched (ls_switch_budget s) ?name (li_now i)))) (\<lambda>sd.
            if switch_fires sd then switch_one (call_log e) i ?name sd
            else if ld_verdict d = Not_Limited \<and> ld_verdict sd \<noteq> Not_Limited
            then ret \<lparr>lr_name = ?name, lr_verdict = ld_verdict sd, lr_reason = ld_reason sd, lr_detail = ld_detail sd\<rparr>
            else wake_one (call_log e) i ?name d))) s"
    by (simp only: sweep_one_def Let_def panes_of_def presence_def)
  show ?thesis
  proof (cases ?wall)
    case (Inl err)
    with assms run show ?thesis by (auto simp: seq_def lift_def intro: spends_nothing)
  next
    case (Inr d)
    have wake: "spends (\<lambda>k. li_apply i \<and> asked_for i captures c k) s r s'"
      if "wake_one (call_log e) i ?name d s = (r, s')"
      using Inr by (intro spends_mono [OF wake_one_spends [OF that]]) auto
    show ?thesis
    proof (cases "li_switch_model i")
      case False
      with assms run Inr wake show ?thesis by (simp add: seq_def lift_def)
    next
      case True
      show ?thesis
      proof (cases ?cap)
        case (Inl err)
        with assms run Inr True show ?thesis
          by (auto simp: seq_def lift_def get_state_def intro: spends_nothing)
      next
        case (Inr sd)
        have switch: "spends (\<lambda>k. li_apply i \<and> asked_for i captures c k) s r s'"
          if "switch_one (call_log e) i ?name sd s = (r, s')" "switch_fires sd"
          using cap_fires [OF Inr that(2)] True
          by (intro spends_mono [OF switch_one_spends [OF that(1)]]) auto
        show ?thesis
          using assms run \<open>?wall = Inr d\<close> Inr True wake switch
          by (auto simp: seq_def lift_def get_state_def ret_def intro: spends_nothing split: if_splits)
      qed
    qed
  qed
qed

lemma sweep_all_spends:
  assumes "sweep_all (call_log e) i captures ds s = (r, s')"
  shows "spends (\<lambda>k. li_apply i \<and> (\<exists>dir c. (dir, Inr c) \<in> set ds \<and> asked_for i captures c k)) s r s'"
  using assms
proof (induction "call_log e" i captures ds arbitrary: s r s' rule: sweep_all.induct)
  case (1 i captures)
  then show ?case by (auto simp: ret_def intro: spends_nothing)
next
  case (2 i captures dir err rest)
  obtain t s1 where t: "sweep_all (call_log e) i captures rest s = (t, s1)"
    by (metis surj_pair)
  show ?case
  proof (cases "is_exit err")
    case True
    with 2 show ?thesis by (auto simp: raising_def intro: spends_nothing)
  next
    case False
    with 2(2) t have s': "s' = s1" and r: "(case t of Inl e' \<Rightarrow> r = Inl e' | Inr rs \<Rightarrow> r = Inr (unreadable_spec dir err # rs))"
      by (auto simp: seq_def ret_def split: sum.splits prod.splits)
    from 2(1) [OF False t] show ?thesis
      unfolding s' using r by (cases t) (auto simp: spends_def left_after_def)
  qed
next
  case (3 i captures dir c rest)
  obtain q s1 where q: "sweep_one (call_log e) i captures c s = (q, s1)"
    by (metis surj_pair)
  note one = spends_mono [OF sweep_one_spends [OF q], where Q = "\<lambda>k. li_apply i \<and> (\<exists>d c'. (d, Inr c') \<in> set ((dir, Inr c) # rest) \<and> asked_for i captures c' k)"]
  show ?case
  proof (cases q)
    case (Inl err)
    with 3(2) q have "s' = s1" "r = Inl err" by (auto simp: seq_def)
    with one Inl show ?thesis by (auto intro: spends_raised)
  next
    case (Inr rep)
    obtain t s2 where t: "sweep_all (call_log e) i captures rest s1 = (t, s2)"
      by (metis surj_pair)
    with 3(2) q Inr have s': "s' = s2" and r: "(case t of Inl e' \<Rightarrow> r = Inl e' | Inr rs \<Rightarrow> r = Inr (rep # rs))"
      by (auto simp: seq_def ret_def split: sum.splits prod.splits)
    from spends_mono [OF 3(1) [OF t], where Q = "\<lambda>k. li_apply i \<and> (\<exists>d c'. (d, Inr c') \<in> set ((dir, Inr c) # rest) \<and> asked_for i captures c' k)"]
    have two: "spends (\<lambda>k. li_apply i \<and> (\<exists>d c'. (d, Inr c') \<in> set ((dir, Inr c) # rest) \<and> asked_for i captures c' k)) s1 t s2"
      by auto
    have "spends (\<lambda>k. li_apply i \<and> (\<exists>d c'. (d, Inr c') \<in> set ((dir, Inr c) # rest) \<and> asked_for i captures c' k)) s t s2"
      using one two unfolding Inr by (auto intro: spends_seq)
    with r show ?thesis unfolding s' by (cases t) (auto simp: spends_def left_after_def)
  qed
qed

subsection \<open>A pass\<close>

lemma left_None [simp]: "left None = 0"
  by (simp add: left_def)

lemma left_budget_from: "left (budget_from limit r) \<le> max 0 limit"
  by (simp add: left_def budget_from_def)

lemma read_history_calls: "made (snd (read_history (le_disk (call_log e)) s)) = made s"
  using read_history_world [of "le_disk (call_log e)" s] log_write [of e "nd_world s"] by auto

lemma open_limit_budgets_calls:
  assumes "open_limit_budgets (call_log e) i s = (r, s')"
  shows "made s' = made s \<and> left_after r (ls_budget s') \<le> max 0 (li_limit i)
    \<and> left_after r (ls_switch_budget s') \<le> max 0 (li_limit i)"
proof -
  obtain q s1 where q: "read_history (le_disk (call_log e)) s = (q, s1)"
    by (metis surj_pair)
  have m1: "made s1 = made s" using read_history_calls [of e s] q by simp
  show ?thesis
  proof (cases q)
    case (Inl err)
    with assms q m1 show ?thesis by (auto simp: open_limit_budgets_def seq_def left_after_def)
  next
    case (Inr hr)
    let ?s = "s1\<lparr>ls_budget := budget_from (li_limit i) hr, ls_switch_budget := None\<rparr>"
    obtain t s2 where t: "read_history (le_disk (call_log e)) (?s\<lparr>nd_history := ls_switch_history ?s\<rparr>) = (t, s2)"
      by (metis surj_pair)
    have m2: "made s2 = made s1"
      using read_history_calls [of e "?s\<lparr>nd_history := ls_switch_history ?s\<rparr>"] t by simp
    show ?thesis
    proof (cases "li_switch_model i")
      case False
      with assms q Inr m1 show ?thesis
        by (auto simp: open_limit_budgets_def seq_def put_state_def ret_def left_after_def left_budget_from)
    next
      case True
      have b2: "ls_budget s2 = ls_budget ?s"
        using t by (auto simp: read_history_def prove_writable_def write_history_def
            split: history_file.splits json.splits prod.splits bool.splits)
      show ?thesis
        using assms q t Inr True m1 m2 b2 left_budget_from [of "li_limit i"]
        by (cases t) (auto simp: open_limit_budgets_def on_switch_file_def seq_def put_state_def left_after_def)
    qed
  qed
qed

definition captures_of :: "limit_input \<Rightarrow> (string \<times> pane_pair) list option" where
  "captures_of i = (case li_captures i of Inl _ \<Rightarrow> None | Inr cs \<Rightarrow> Some cs)"

lemma read_captures_run:
  "read_captures i s =
     (case li_captures i of
        Inl err \<Rightarrow> if is_exit err then (Inl err, s) else (Inr (captures_of i), s)
      | Inr cs \<Rightarrow> (Inr (captures_of i), s))"
  by (simp add: read_captures_def except_exception_def lift_def seq_def ret_def captures_of_def split: sum.split)

lemma resume_pass_calls:
  "\<exists>cs. made (snd (resume_pass (call_log e) i s)) = made s @ cs
     \<and> wakes cs \<le> max 0 (li_limit i) \<and> switches cs \<le> max 0 (li_limit i)
     \<and> (\<forall>k \<in> set cs. li_apply i \<and> (\<exists>dir c. (dir, Inr c) \<in> set (limit_specs i) \<and> asked_for i (captures_of i) c k))"
proof -
  obtain q s1 where q: "open_limit_budgets (call_log e) i s = (q, s1)"
    by (metis surj_pair)
  note opened = open_limit_budgets_calls [OF q]
  show ?thesis
  proof (cases q)
    case (Inl err)
    with q opened show ?thesis by (intro exI [of _ "[]"]) (simp add: resume_pass_def seq_def)
  next
    case (Inr x)
    show ?thesis
    proof (cases "\<exists>err. li_captures i = Inl err \<and> is_exit err")
      case True
      with q Inr opened show ?thesis
        by (intro exI [of _ "[]"]) (auto simp: resume_pass_def seq_def read_captures_run)
    next
      case False
      obtain t s2 where t: "sweep_all (call_log e) i (captures_of i) (limit_specs i) s1 = (t, s2)"
        by (metis surj_pair)
      have "snd (resume_pass (call_log e) i s) = s2"
        using False q Inr t
        by (auto simp: resume_pass_def seq_def read_captures_run ret_def split: sum.splits)
      moreover from sweep_all_spends [OF t] obtain cs where "made s2 = made s1 @ cs"
        "\<forall>k \<in> set cs. li_apply i \<and> (\<exists>dir c. (dir, Inr c) \<in> set (limit_specs i) \<and> asked_for i (captures_of i) c k)"
        "wakes cs + left_after t (ls_budget s2) \<le> left (ls_budget s1)"
        "switches cs + left_after t (ls_switch_budget s2) \<le> left (ls_switch_budget s1)"
        by (auto simp: spends_def)
      moreover have "left (ls_budget s1) \<le> max 0 (li_limit i)" "left (ls_switch_budget s1) \<le> max 0 (li_limit i)"
        "made s1 = made s"
        using opened Inr by (simp_all add: left_after_def)
      moreover note left_nonneg(2) [of t "ls_budget s2"] left_nonneg(2) [of t "ls_switch_budget s2"]
      ultimately have "made (snd (resume_pass (call_log e) i s)) = made s @ cs"
        "\<forall>k \<in> set cs. li_apply i \<and> (\<exists>dir c. (dir, Inr c) \<in> set (limit_specs i) \<and> asked_for i (captures_of i) c k)"
        and "wakes cs \<le> max 0 (li_limit i)" "switches cs \<le> max 0 (li_limit i)"
        by (simp, blast, linarith, linarith)
      then show ?thesis by blast
    qed
  qed
qed

text \<open>What a pass that returns has said: of every agent, by name, and only when its panes could be read.\<close>

lemma seq_returns_iff:
  "fst (seq m f s) = Inr y \<longleftrightarrow> (\<exists>x. fst (m s) = Inr x \<and> fst (f x (snd (m s))) = Inr y)"
  by (auto simp: seq_def split: prod.splits sum.splits)

lemma wake_one_name: "fst (wake_one e i name d s) = Inr rep \<Longrightarrow> lr_name rep = name"
proof (cases "ld_verdict d = Resume")
  case True
  have perform: "lr_name r = name" if "fst (resume_perform e name d a now s) = Inr r" for r a now s
    using that
    by (auto simp: resume_perform_def seq_returns_iff get_state_def report_of_def ret_def raising_def Let_def
        split: option.splits if_splits)
  assume "fst (wake_one e i name d s) = Inr rep"
  with True show ?thesis
    by (auto simp: wake_one_def seq_returns_iff ret_def dest: perform)
next
  case False
  assume "fst (wake_one e i name d s) = Inr rep"
  with False show ?thesis by (auto simp: wake_one_def ret_def report_of_def)
qed

lemma sweep_one_returns:
  assumes "fst (sweep_one e i captures c s) = Inr rep"
  shows "lr_name rep = lc_name c
    \<and> (\<exists>d. wall_decision i (presence captures (lc_name c)) (panes_of captures (lc_name c)) c = Inr d)"
proof -
  have "lr_name rep = lc_name c" "\<exists>d. wall_decision i (presence captures (lc_name c)) (panes_of captures (lc_name c)) c = Inr d"
    using assms
    by (auto simp: sweep_one_def Let_def seq_returns_iff lift_def get_state_def ret_def switch_one_def report_of_def
        panes_of_def presence_def dest: wake_one_name split: if_splits)
  then show ?thesis ..
qed

fun spoken_of :: "limit_input \<Rightarrow> (string \<times> pane_pair) list option \<Rightarrow> string \<times> limit_config result \<Rightarrow> limit_report \<Rightarrow> bool" where
  "spoken_of i captures (dir, Inl err) rep \<longleftrightarrow> lr_name rep = dir \<and> lr_verdict rep = Unreadable_Pane"
| "spoken_of i captures (dir, Inr c) rep \<longleftrightarrow>
     lr_name rep = lc_name c
     \<and> (\<exists>d. wall_decision i (presence captures (lc_name c)) (panes_of captures (lc_name c)) c = Inr d)"

lemma sweep_all_returns:
  "fst (sweep_all e i captures ds s) = Inr reports \<Longrightarrow> list_all2 (spoken_of i captures) ds reports"
proof (induction e i captures ds arbitrary: s reports rule: sweep_all.induct)
  case (2 e i captures dir err rest)
  then show ?case
    by (auto simp: seq_returns_iff ret_def raising_def unreadable_spec_def split: if_splits)
next
  case (3 e i captures dir c rest)
  from 3(2) obtain rep s1 reps where "fst (sweep_one e i captures c s) = Inr rep"
    "fst (sweep_all e i captures rest s1) = Inr reps" "reports = rep # reps"
    by (auto simp: seq_returns_iff ret_def)
  with 3(1) sweep_one_returns show ?case by fastforce
qed (simp add: ret_def)

lemma resume_pass_returns:
  assumes "fst (resume_pass e i s) = Inr out"
  shows "list_all2 (spoken_of i (captures_of i)) (limit_specs i) (lt_reports out) \<and> lt_applied out = li_apply i"
proof -
  let ?s1 = "snd (open_limit_budgets e i s)"
  from assms obtain captures s2 where "fst (read_captures i ?s1) = Inr captures"
    "fst (sweep_all e i captures (limit_specs i) s2) = Inr (lt_reports out)" "lt_applied out = li_apply i"
    by (auto simp: resume_pass_def seq_returns_iff ret_def)
  moreover have "captures = captures_of i"
    using calculation(1) by (auto simp: read_captures_run split: sum.splits if_splits)
  ultimately show ?thesis using sweep_all_returns by blast
qed

text \<open>What a decision to wake or to switch rests on.\<close>

lemma wall_resumes:
  assumes "wall_decision i (presence (captures_of i) name) (panes_of (captures_of i) name) c = Inr d"
    and "ld_verdict d = Resume"
  shows "lc_policy c \<in> set MANAGED_POLICIES \<and> (\<exists>cs p q a b. li_captures i = Inr cs \<and> map_of cs name = Some (p, q)
       \<and> observe_pane (li_zoneinfo i) p (li_now i) (li_tz i) = Inr a \<and> lo_readable a \<and> lo_limited a
       \<and> observe_pane (li_zoneinfo i) q (li_now i) (li_tz i) = Inr b \<and> lo_readable b \<and> lo_limited b
       \<and> lo_line_index a = lo_line_index b
       \<and> (case lo_reset_at b of None \<Rightarrow> lo_window b = u ''billing'' | Some t \<Rightarrow> t \<le> li_now i))"
proof -
  from assms obtain a b where ab:
    "observe_pane (li_zoneinfo i) (fst (panes_of (captures_of i) name)) (li_now i) (li_tz i) = Inr a"
    "observe_pane (li_zoneinfo i) (snd (panes_of (captures_of i) name)) (li_now i) (li_tz i) = Inr b"
    "d = decide_resume (lc_name c) (lc_policy c) (presence (captures_of i) name) a b (li_now i)"
    by (auto simp: wall_decision_def bind_result_Inr_iff)
  note rule = assms(2) [unfolded ab(3) resume_iff]
  then obtain cs p q where cs: "li_captures i = Inr cs" "map_of cs name = Some (p, q)"
    by (cases "li_captures i"; cases "map_of (projr (li_captures i)) name") (auto simp: presence_def captures_of_def)
  then have "panes_of (captures_of i) name = (p, q)" by (simp add: panes_of_def captures_of_def pane_of_def)
  with ab rule cs show ?thesis by (metis fst_conv snd_conv)
qed

lemma cap_switches:
  assumes "cap_decision i (presence (captures_of i) name) (panes_of (captures_of i) name) c already = Inr d"
    and "switch_fires d"
  shows "lc_policy c \<in> set MANAGED_POLICIES \<and> (\<exists>cs p q a b. li_captures i = Inr cs \<and> map_of cs name = Some (p, q)
       \<and> observe_model_cap (li_zoneinfo i) p (li_now i) (li_tz i) = Inr a \<and> co_readable a \<and> co_capped a
       \<and> observe_model_cap (li_zoneinfo i) q (li_now i) (li_tz i) = Inr b \<and> co_readable b \<and> co_capped b
       \<and> co_line_index a = co_line_index b
       \<and> model_family (lc_model c) \<noteq> model_family TARGET_MODEL
       \<and> (model_family (lc_model c) \<in> set CAPPED_FAMILIES \<or> model_family (co_subject b) \<in> set CAPPED_FAMILIES))"
proof -
  from assms obtain a b where ab:
    "observe_model_cap (li_zoneinfo i) (fst (panes_of (captures_of i) name)) (li_now i) (li_tz i) = Inr a"
    "observe_model_cap (li_zoneinfo i) (snd (panes_of (captures_of i) name)) (li_now i) (li_tz i) = Inr b"
    "d = decide_switch (lc_name c) (lc_policy c) (presence (captures_of i) name) (lc_model c) a b TARGET_MODEL already"
    by (auto simp: cap_decision_def bind_result_Inr_iff)
  note rule = assms(2) [unfolded ab(3) switch_fires_iff]
  then obtain cs p q where cs: "li_captures i = Inr cs" "map_of cs name = Some (p, q)"
    by (cases "li_captures i"; cases "map_of (projr (li_captures i)) name") (auto simp: presence_def captures_of_def)
  then have "panes_of (captures_of i) name = (p, q)" by (simp add: panes_of_def captures_of_def pane_of_def)
  with ab rule cs show ?thesis by (metis fst_conv snd_conv)
qed

end
