(* ===== verification/Auth_Heal.thy ===== *)
theory Auth_Heal
  imports Reconcile_Pass Auth_Banner
begin

text \<open>
  The report-only sweep over live agents that show an authentication banner: the positional and
  liveness auditors (\<open>_authheal/_positional.py\<close>, \<open>_liveness.py\<close>), their admission
  (\<open>_admission.py\<close>), the detection over two captures (\<open>_detect.py\<close> with \<open>evaluate_agents\<close> of
  \<open>cli_pkg/_auth_status.py\<close>), and the pass with its budgeted restart (\<open>_pass.py\<close>, \<open>_reports.py\<close>).
  The attempt and outcome records written to the event log around a restart are not modelled.
\<close>

subsection \<open>The two auditors\<close>

datatype positional_state = Pos_Alive | Pos_Dead | Pos_Unknown

definition STARTUP_MARKER :: utext where
  "STARTUP_MARKER = u ''Start or continue.''"

record positional =
  po_state :: positional_state
  po_marker_line :: "nat option"
  po_banner_lines :: "nat list"
  po_banners_below :: "nat list"

definition positional_may_restart :: "positional \<Rightarrow> bool" where
  "positional_may_restart v = False"

fun marker_from :: "nat \<Rightarrow> nat option \<Rightarrow> utext list \<Rightarrow> nat option" where
  "marker_from i found [] = found"
| "marker_from i found (row # rows) =
     marker_from (Suc i) (if holds STARTUP_MARKER row then Some i else found) rows"

definition marker_line :: "utext list \<Rightarrow> nat option" where
  "marker_line rows = marker_from 0 None rows"

definition classify_positional :: "(int \<Rightarrow> bool) \<Rightarrow> utext option \<Rightarrow> positional" where
  "classify_positional word pane =
     (case pane of
        None \<Rightarrow> \<lparr>po_state = Pos_Unknown, po_marker_line = None, po_banner_lines = [], po_banners_below = []\<rparr>
      | Some p \<Rightarrow>
          (let rows = pane_rows p;
               banners = map fst (filter (\<lambda>(i, row). banner_kind word row \<noteq> None) (enumerate 0 rows))
           in case marker_line rows of
             None \<Rightarrow> \<lparr>po_state = Pos_Unknown, po_marker_line = None, po_banner_lines = banners, po_banners_below = []\<rparr>
           | Some m \<Rightarrow>
               (let below = filter (\<lambda>i. m < i) banners in
                \<lparr>po_state = (if below = [] then Pos_Alive else Pos_Dead), po_marker_line = Some m,
                 po_banner_lines = banners, po_banners_below = below\<rparr>)))"

datatype liveness_state = Live | Idle_Candidate | Live_Unknown

definition MIN_OBSERVE_S :: time where "MIN_OBSERVE_S = 60"

record liveness =
  lv_state :: liveness_state
  lv_changed :: bool
  lv_observed_s :: time

definition liveness_may_restart :: "liveness \<Rightarrow> bool" where
  "liveness_may_restart v = False"

definition corroborate :: "utext option \<Rightarrow> utext option \<Rightarrow> time \<Rightarrow> liveness" where
  "corroborate pane_before pane_after observed_s =
     (let v = (\<lambda>s c. \<lparr>lv_state = s, lv_changed = c, lv_observed_s = observed_s\<rparr>) in
      if pane_before = None \<or> pane_after = None then v Live_Unknown False
      else if observed_s < MIN_OBSERVE_S then v Live_Unknown False
      else if pane_before \<noteq> pane_after then v Live True
      else v Idle_Candidate False)"

subsection \<open>Reports\<close>

record heal_report =
  he_name :: string
  he_verdict :: fate
  he_reason :: string
  he_detail :: msg

definition mk_heal :: "string \<Rightarrow> fate \<Rightarrow> string \<Rightarrow> msg \<Rightarrow> heal_report" where
  "mk_heal name v reason detail = \<lparr>he_name = name, he_verdict = v, he_reason = reason, he_detail = detail\<rparr>"

definition ROSTER_SUBJECT :: string where "ROSTER_SUBJECT = ''<fleet-roster>''"

definition unobserved_report :: "string \<Rightarrow> bool \<Rightarrow> heal_report" where
  "unobserved_report name live =
     (if live then mk_heal name Unobserved ''pane-unreadable'' (Fmt ''pane-unreadable'' [Txt name])
      else mk_heal name Unobserved ''no-session'' (Fmt ''no-session'' [Txt name]))"

definition roster_unreadable :: "msg \<Rightarrow> heal_report" where
  "roster_unreadable detail =
     mk_heal ROSTER_SUBJECT Unobserved ''roster-unreadable'' (Fmt ''roster-unreadable'' [detail])"

subsection \<open>Admission\<close>

definition banner_restart_admission ::
    "(int \<Rightarrow> bool) \<Rightarrow> string \<Rightarrow> utext option \<times> utext option \<Rightarrow> time \<Rightarrow> bool \<times> heal_report" where
  "banner_restart_admission word name panes observed_s =
     (let positional = classify_positional word (snd panes);
          live = corroborate (fst panes) (snd panes) observed_s;
          reason = (if po_banner_lines positional \<noteq> [] \<and> po_banners_below positional = []
                       \<and> po_marker_line positional \<noteq> None
                    then ''historical-auth-banner'' else ''auth-banner-unproven'')
      in (positional_may_restart positional \<and> liveness_may_restart live,
          mk_heal name Unobserved reason (Fmt ''report-only'' [Txt name])))"

subsection \<open>Detection\<close>

datatype auth_verdict = Auth_Ok | Auth_Failed | Auth_Unknown

text \<open>One row of \<open>evaluate_agents\<close>; \<open>verdict\<close> is what the detection reads of it.\<close>

record auth_row =
  ah_agent :: string
  ah_verdict :: auth_verdict
  ah_probe :: auth_probe
  ah_captured :: bool
  ah_note :: string

definition evaluate_agent :: "(int \<Rightarrow> bool) \<Rightarrow> string \<Rightarrow> utext option \<times> utext option \<Rightarrow> auth_row" where
  "evaluate_agent word name panes =
     (let (probe1, _) = evaluate_pane word (fst panes) None;
          (probe2, stuck) = evaluate_pane word (snd panes) (Some (probe_to_state probe1));
          present = ap_present probe2 \<or> ap_present probe1;
          captured = snd panes \<noteq> None;
          verdict = (if \<not> captured then Auth_Unknown else if stuck then Auth_Failed else Auth_Ok)
      in \<lparr>ah_agent = name, ah_verdict = verdict, ah_probe = probe2, ah_captured = captured,
          ah_note =
            (if \<not> captured then ''pane could not be read''
             else if verdict = Auth_Ok \<and> present then ''banner seen but moving (working/quoting)''
             else if \<not> ap_prompt_found probe2 then ''no prompt line found''
             else [])\<rparr>)"

type_synonym captures = "(string \<times> utext option \<times> utext option) list"

text \<open>A \<open>dict\<close> with distinct keys, in insertion order; the rows come out sorted by name.\<close>

definition evaluate_agents :: "(int \<Rightarrow> bool) \<Rightarrow> captures \<Rightarrow> auth_row list" where
  "evaluate_agents word captures =
     map (\<lambda>(name, panes). evaluate_agent word name panes) (sort_key fst captures)"

record detection_outcome =
  dt_auth_failed :: "string list"
  dt_ok :: "string list"
  dt_unknown :: "string list"

definition detect_login_expired :: "(int \<Rightarrow> bool) \<Rightarrow> captures \<Rightarrow> detection_outcome" where
  "detect_login_expired word captures =
     (let rows = evaluate_agents word captures;
          of_verdict = (\<lambda>v. map ah_agent (filter (\<lambda>r. ah_verdict r = v) rows))
      in \<lparr>dt_auth_failed = of_verdict Auth_Failed,
          dt_ok = map ah_agent (filter (\<lambda>r. ah_verdict r \<notin> {Auth_Failed, Auth_Unknown}) rows),
          dt_unknown = of_verdict Auth_Unknown\<rparr>)"

text \<open>What reading the registry gives: no directory, an \<open>OSError\<close>, or its directory names.\<close>

record roster =
  ro_names :: "string list"
  ro_readable :: bool
  ro_detail :: msg

definition registered_agents :: "string list option result \<Rightarrow> roster" where
  "registered_agents listing =
     (case listing of
        Inl err \<Rightarrow> \<lparr>ro_names = [], ro_readable = False, ro_detail = Fmt ''could not enumerate'' [error_msg err]\<rparr>
      | Inr None \<Rightarrow> \<lparr>ro_names = [], ro_readable = False, ro_detail = Fmt ''not a readable directory'' []\<rparr>
      | Inr (Some dirs) \<Rightarrow>
          (let names = filter (\<lambda>d. \<not> starts_with d ''_'') (sort dirs) in
           \<lparr>ro_names = names, ro_readable = True, ro_detail = Fmt ''registered'' [Num (int (length names))]\<rparr>))"

fun observe_registered :: "captures \<Rightarrow> string list \<Rightarrow> captures" where
  "observe_registered observed [] = observed"
| "observe_registered observed (agent # agents) =
     observe_registered
       (if agent \<in> fst ` set observed then observed else observed @ [(agent, None, None)]) agents"

subsection \<open>The pass\<close>

text \<open>The budgeted restart the pass has for an admitted candidate.\<close>

definition heal_base :: "string \<Rightarrow> msg" where
  "heal_base name = Fmt ''login-expired'' [Txt name]"

definition heal_perform :: "'w restart_env \<Rightarrow> string \<Rightarrow> bool \<Rightarrow> time \<Rightarrow> msg \<Rightarrow> ('w sweep, heal_report) prog" where
  "heal_perform e name apply_it now budget_detail =
     seq get_state (\<lambda>s.
       case sw_budget s of
         None \<Rightarrow> ret (mk_heal name Budget_Unknown ''budget-unreadable'' (Fmt ''not_restarted'' [heal_base name, budget_detail]))
       | Some b \<Rightarrow>
           (let check = budget_check b name now in
            if \<not> bc_allowed check then
              (case budget_verdict (bc_reason check) of
                 None \<Rightarrow> raising (OtherError ''KeyError'')
               | Some v \<Rightarrow> ret (mk_heal name v (bc_reason check) (Fmt ''not_restarted'' [heal_base name, bc_detail check])))
            else if \<not> apply_it then
              ret (mk_heal name Would_Restart ''login-expired'' (Fmt ''would_restart'' [heal_base name]))
            else
              seq (except_exception (call_restart e name)) (\<lambda>r.
                seq (record_restart name now) (\<lambda>_.
                  case r of
                    Inl err \<Rightarrow> ret (mk_heal name Failed ''restart-raised'' (Fmt ''restart_failed'' [heal_base name, error_msg err]))
                  | Inr ok \<Rightarrow>
                      if ok then ret (mk_heal name Restarted ''login-expired'' (Fmt ''restarted'' [heal_base name]))
                      else ret (mk_heal name Failed ''restart-returned-false'' (Fmt ''still_wedged'' [heal_base name])))))
       )"

text \<open>
  What a pass is given, and its loop over the candidates: the memory is read when the first
  candidate is admitted, and never otherwise.
\<close>

record heal_input =
  hi_apply :: bool
  hi_limit :: int
  hi_now :: time
  hi_interval :: time
  hi_captures :: captures
  hi_registry :: "string list option result"

definition heal_admitted ::
    "'w restart_env \<Rightarrow> heal_input \<Rightarrow> string \<Rightarrow> history_read \<Rightarrow> ('w sweep, heal_report) prog" where
  "heal_admitted e i name r =
     seq (heal_perform e name (hi_apply i) (hi_now i) (hr_detail r)) (\<lambda>report.
       seq (if hi_apply i \<and> he_verdict report \<in> set SPENT then persist_or_halt e (hi_now i) else ret ()) (\<lambda>_.
         ret report))"

fun heal_candidates ::
    "'w restart_env \<Rightarrow> (int \<Rightarrow> bool) \<Rightarrow> heal_input \<Rightarrow> captures \<Rightarrow> history_read option \<Rightarrow> string list
      \<Rightarrow> ('w sweep, history_read option \<times> heal_report list) prog" where
  "heal_candidates e word i observed r [] = ret (r, [])"
| "heal_candidates e word i observed r (name # names) =
     (case map_of observed name of
        None \<Rightarrow> raising (OtherError ''KeyError'')
      | Some panes \<Rightarrow>
          (let (allowed, report) = banner_restart_admission word name panes (hi_interval i) in
           if \<not> allowed then
             seq (heal_candidates e word i observed r names) (\<lambda>(r', reports). ret (r', report # reports))
           else
             seq (case r of Some q \<Rightarrow> ret q | None \<Rightarrow> open_budget e (hi_limit i)) (\<lambda>q.
               seq (heal_admitted e i name q) (\<lambda>report.
                 seq (heal_candidates e word i observed (Some q) names) (\<lambda>(r', reports).
                   ret (r', report # reports))))))"

record heal_outcome =
  ho_reports :: "heal_report list"
  ho_applied :: bool

definition heal_of :: "heal_outcome \<Rightarrow> fate list \<Rightarrow> heal_report list" where
  "heal_of out vs = filter (\<lambda>r. he_verdict r \<in> set vs) (ho_reports out)"

definition indeterminate :: "heal_outcome \<Rightarrow> heal_report list" where
  "indeterminate out = filter (\<lambda>r. he_reason r \<noteq> ''no-session'') (heal_of out [Unobserved])"

definition heal_exit_code :: "heal_outcome \<Rightarrow> int" where
  "heal_exit_code out =
     (if heal_of out [Budget_Unknown] \<noteq> [] \<or> indeterminate out \<noteq> [] then 2
      else if heal_of out [Failed, Over_Budget, Cooling_Down, Capped, Would_Restart] \<noteq> [] then 1
      else 0)"

text \<open>The captures, with every registered agent that has none.\<close>

definition heal_observed :: "heal_input \<Rightarrow> captures" where
  "heal_observed i = observe_registered (hi_captures i) (ro_names (registered_agents (hi_registry i)))"

definition auth_heal_pass ::
    "'w restart_env \<Rightarrow> (int \<Rightarrow> bool) \<Rightarrow> heal_input \<Rightarrow> ('w sweep, heal_outcome) prog" where
  "auth_heal_pass e word i =
     (let ros = registered_agents (hi_registry i);
          observed = heal_observed i;
          detection = detect_login_expired word observed
      in seq (heal_candidates e word i observed None (dt_auth_failed detection)) (\<lambda>(r, reports).
           seq (if hi_apply i \<and> r \<noteq> None then final_prune e (hi_now i) else ret ()) (\<lambda>_.
             ret \<lparr>ho_reports =
                    reports
                    @ (if ro_readable ros then [] else [roster_unreadable (ro_detail ros)])
                    @ map (\<lambda>name. unobserved_report name (name \<in> fst ` set (hi_captures i))) (dt_unknown detection),
                  ho_applied = hi_apply i\<rparr>)))"

subsection \<open>What a pass does\<close>

text \<open>No candidate is admitted: both auditors only report.\<close>

lemma nothing_admitted [simp]: "fst (banner_restart_admission word name panes observed_s) = False"
  by (simp add: banner_restart_admission_def Let_def positional_may_restart_def)

lemma candidates_report_only:
  assumes "set names \<subseteq> fst ` set observed"
  shows "heal_candidates e word i observed r names s =
    (Inr (r, map (\<lambda>name. snd (banner_restart_admission word name (the (map_of observed name)) (hi_interval i))) names), s)"
  using assms
proof (induction names)
  case (Cons name names)
  then obtain panes where p: "map_of observed name = Some panes"
    by (metis insert_subset list.simps(15) map_of_eq_None_iff not_None_eq)
  have "\<not> fst (banner_restart_admission word name panes (hi_interval i))" by simp
  with Cons p show ?case by (simp add: seq_def ret_def split_beta)
qed (simp add: ret_def)

lemma observed_set:
  "set (observe_registered c names) = set c \<union> (\<lambda>name. (name, None, None)) ` (set names - fst ` set c)"
  by (induction c names rule: observe_registered.induct) auto

lemma detected_names:
  "set (dt_auth_failed (detect_login_expired word c)) =
     {name. \<exists>panes. (name, panes) \<in> set c \<and> ah_verdict (evaluate_agent word name panes) = Auth_Failed}"
  "set (dt_unknown (detect_login_expired word c)) =
     {name. \<exists>panes. (name, panes) \<in> set c \<and> ah_verdict (evaluate_agent word name panes) = Auth_Unknown}"
proof -
  have a: "ah_agent (evaluate_agent word name panes) = name" for name panes
    by (simp add: evaluate_agent_def Let_def split_beta)
  show "set (dt_auth_failed (detect_login_expired word c)) =
      {name. \<exists>panes. (name, panes) \<in> set c \<and> ah_verdict (evaluate_agent word name panes) = Auth_Failed}"
    by (force simp: detect_login_expired_def evaluate_agents_def Let_def a)
  show "set (dt_unknown (detect_login_expired word c)) =
      {name. \<exists>panes. (name, panes) \<in> set c \<and> ah_verdict (evaluate_agent word name panes) = Auth_Unknown}"
    by (force simp: detect_login_expired_def evaluate_agents_def Let_def a)
qed

lemma evaluate_verdict:
  "ah_verdict (evaluate_agent word name panes) = Auth_Unknown \<longleftrightarrow> snd panes = None"
  "ah_verdict (evaluate_agent word name panes) = Auth_Failed \<longleftrightarrow>
     snd panes \<noteq> None \<and>
     snd (evaluate_pane word (snd panes) (Some (probe_to_state (fst (evaluate_pane word (fst panes) None)))))"
  by (auto simp: evaluate_agent_def Let_def split_beta)

text \<open>The whole pass: it never changes the state, and every report is an unobserved one.\<close>

definition heal_reports :: "(int \<Rightarrow> bool) \<Rightarrow> heal_input \<Rightarrow> heal_report list" where
  "heal_reports word i =
     (let ros = registered_agents (hi_registry i); detection = detect_login_expired word (heal_observed i) in
      map (\<lambda>name. snd (banner_restart_admission word name (the (map_of (heal_observed i) name)) (hi_interval i)))
        (dt_auth_failed detection)
      @ (if ro_readable ros then [] else [roster_unreadable (ro_detail ros)])
      @ map (\<lambda>name. unobserved_report name (name \<in> fst ` set (hi_captures i))) (dt_unknown detection))"

lemma auth_heal_runs:
  "auth_heal_pass e word i s = (Inr \<lparr>ho_reports = heal_reports word i, ho_applied = hi_apply i\<rparr>, s)"
proof -
  have "set (dt_auth_failed (detect_login_expired word c)) \<subseteq> fst ` set c" for c
    by (force simp: detected_names)
  note candidates_report_only [OF this, of e word i "heal_observed i" None s]
  then show ?thesis
    by (simp add: auth_heal_pass_def heal_reports_def Let_def seq_def ret_def)
qed

lemma report_unobserved [simp]:
  "he_verdict (snd (banner_restart_admission word name panes t)) = Unobserved"
  "he_verdict (unobserved_report name live) = Unobserved" "he_verdict (roster_unreadable d) = Unobserved"
  by (simp_all add: banner_restart_admission_def unobserved_report_def roster_unreadable_def Let_def mk_heal_def)

lemma report_reason [simp]:
  "he_reason (snd (banner_restart_admission word name panes t)) \<noteq> ''no-session''"
  "he_reason (roster_unreadable d) \<noteq> ''no-session''"
  "he_reason (unobserved_report name live) = ''no-session'' \<longleftrightarrow> \<not> live"
  by (simp_all add: banner_restart_admission_def unobserved_report_def roster_unreadable_def Let_def mk_heal_def)

lemma all_unobserved: "r \<in> set (heal_reports word i) \<Longrightarrow> he_verdict r = Unobserved"
  by (auto simp: heal_reports_def Let_def split: if_splits)

text \<open>When a pass exits with 2 rather than 0.\<close>

definition auth_suspect :: "(int \<Rightarrow> bool) \<Rightarrow> utext option \<times> utext option \<Rightarrow> bool" where
  "auth_suspect word panes \<longleftrightarrow>
     snd panes = None
     \<or> snd (evaluate_pane word (snd panes) (Some (probe_to_state (fst (evaluate_pane word (fst panes) None)))))"

lemma indeterminate_iff:
  "indeterminate \<lparr>ho_reports = heal_reports word i, ho_applied = a\<rparr> \<noteq> [] \<longleftrightarrow>
     (\<exists>name panes. (name, panes) \<in> set (hi_captures i) \<and> auth_suspect word panes) \<or> \<not> ro_readable (registered_agents (hi_registry i))"
  (is "?l \<longleftrightarrow> ?r")
proof -
  let ?obs = "set (heal_observed i)"
  have obs: "(name, panes) \<in> ?obs \<longleftrightarrow> (name, panes) \<in> set (hi_captures i)
      \<or> (panes = (None, None) \<and> name \<in> set (ro_names (registered_agents (hi_registry i)))
          \<and> name \<notin> fst ` set (hi_captures i))" for name panes
    by (auto simp: heal_observed_def observed_set)
  have "?l \<longleftrightarrow> (\<exists>r \<in> set (heal_reports word i). he_reason r \<noteq> ''no-session'')"
    using all_unobserved by (auto simp: indeterminate_def heal_of_def filter_empty_conv)
  also have "\<dots> \<longleftrightarrow> set (dt_auth_failed (detect_login_expired word (heal_observed i))) \<noteq> {}
      \<or> \<not> ro_readable (registered_agents (hi_registry i))
      \<or> (\<exists>name \<in> set (dt_unknown (detect_login_expired word (heal_observed i))). name \<in> fst ` set (hi_captures i))"
    by (auto simp: heal_reports_def Let_def bex_Un image_iff)
  also have "\<dots> \<longleftrightarrow> (\<exists>name panes. (name, panes) \<in> ?obs \<and> ah_verdict (evaluate_agent word name panes) = Auth_Failed)
      \<or> \<not> ro_readable (registered_agents (hi_registry i))
      \<or> (\<exists>name panes. (name, panes) \<in> ?obs \<and> ah_verdict (evaluate_agent word name panes) = Auth_Unknown
          \<and> name \<in> fst ` set (hi_captures i))"
    unfolding detected_names by blast
  also have "\<dots> \<longleftrightarrow> (\<exists>name panes. (name, panes) \<in> set (hi_captures i) \<and> ah_verdict (evaluate_agent word name panes) = Auth_Failed)
      \<or> \<not> ro_readable (registered_agents (hi_registry i))
      \<or> (\<exists>name panes. (name, panes) \<in> set (hi_captures i) \<and> ah_verdict (evaluate_agent word name panes) = Auth_Unknown)"
  proof -
    have failed: "(name, panes) \<in> ?obs \<and> ah_verdict (evaluate_agent word name panes) = Auth_Failed
        \<longleftrightarrow> (name, panes) \<in> set (hi_captures i) \<and> ah_verdict (evaluate_agent word name panes) = Auth_Failed" for name panes
      using obs [of name panes] evaluate_verdict(2) [of word name panes] by (cases panes) auto
    have unknown: "(name, panes) \<in> ?obs \<and> ah_verdict (evaluate_agent word name panes) = Auth_Unknown \<and> name \<in> fst ` set (hi_captures i)
        \<longleftrightarrow> (name, panes) \<in> set (hi_captures i) \<and> ah_verdict (evaluate_agent word name panes) = Auth_Unknown" for name panes
      using obs [of name panes] by force
    show ?thesis by (simp only: failed unknown)
  qed
  also have "\<dots> \<longleftrightarrow> ?r"
  proof -
    have "auth_suspect word panes \<longleftrightarrow> ah_verdict (evaluate_agent word name panes) = Auth_Unknown
        \<or> ah_verdict (evaluate_agent word name panes) = Auth_Failed" for name panes
      unfolding auth_suspect_def evaluate_verdict by blast
    then show ?thesis by blast
  qed
  finally show ?thesis .
qed

lemma heal_exit_iff:
  "heal_exit_code \<lparr>ho_reports = heal_reports word i, ho_applied = a\<rparr> =
     (if (\<exists>name panes. (name, panes) \<in> set (hi_captures i) \<and> auth_suspect word panes)
         \<or> \<not> ro_readable (registered_agents (hi_registry i)) then 2 else 0)"
proof -
  have "heal_of \<lparr>ho_reports = heal_reports word i, ho_applied = a\<rparr> vs = []" if "Unobserved \<notin> set vs" for vs
    using that all_unobserved [of _ word i] by (auto simp: heal_of_def filter_empty_conv)
  then show ?thesis unfolding heal_exit_code_def indeterminate_iff by simp
qed

end
