(* ===== verification/Rate_Claims.thy ===== *)
theory Rate_Claims
  imports Rate_Facts Auth_Heal
begin

text \<open>
  The properties of the sweeps over rate-limited and logged-out agents.
\<close>

subsection \<open>Two agents behind a wall\<close>

definition wall_pane :: "string \<Rightarrow> utext" where
  "wall_pane clause =
     join_rows [u ''> go on'', u ''You'' @ [0x2019] @ u ''ve hit your session limit'' @ [32, 0xB7, 32] @ u clause,
                [CLAUDE_MARKER], u ''  ? for shortcuts'']"

definition cap_pane :: utext where
  "cap_pane = join_rows [u ''> go on'', u ''You'' @ [0x2019] @ u ''ve reached your Fable limit'', [CLAUDE_MARKER]]"

definition rate_config :: "string \<Rightarrow> string \<Rightarrow> limit_config" where
  "rate_config name model = \<lparr>lc_name = name, lc_policy = ''always'', lc_model = u model\<rparr>"

definition demo_limits :: "utext \<Rightarrow> utext \<Rightarrow> bool \<Rightarrow> limit_input" where
  "demo_limits a b switch =
     \<lparr>li_apply = True, li_limit = 1, li_now = 4 * 3600,
      li_specs = Some [(''writer'', Inr (rate_config ''writer'' ''sonnet'')), (''lead'', Inr (rate_config ''lead'' ''fable''))],
      li_captures = Inr [(''lead'', (Some a, Some a)), (''writer'', (Some b, Some b))],
      li_switch_model = switch, li_zoneinfo = (\<lambda>_. None), li_tz = UTC\<rparr>"

definition calm_env :: "unit limit_env" where
  "calm_env = \<lparr>re_write = (\<lambda>_. (True, ())), re_restart = (\<lambda>_ _. (Inr True, ())), le_switch = (\<lambda>_ _ _. (Inr Yes, ()))\<rparr>"

definition parked_state :: "'w \<Rightarrow> 'w limit_state" where
  "parked_state w =
     \<lparr>nd_history = Holding (JObj []), nd_world = w, ls_budget = None, ls_switch_history = Holding (JObj []),
      ls_switch_budget = None\<rparr>"

definition rate_calls :: "limit_input \<Rightarrow> rate_call list" where
  "rate_calls i = made (snd (resume_pass (call_log calm_env) i (parked_state ([], ()))))"

definition lifted :: "limit_input" where
  "lifted = demo_limits (wall_pane ''resets 3am (UTC)'') (wall_pane ''resets 3am (UTC)'') False"

definition capped :: "limit_input" where
  "capped = demo_limits cap_pane cap_pane True"

definition malformed :: "limit_input" where
  "malformed = demo_limits (wall_pane ''resets 2026-17-18T08:30Z'') (wall_pane ''resets 3am (UTC)'') False"

lemma lifted_calls: "rate_calls lifted = [Woke ''lead'']"
  by code_simp

lemma capped_calls: "rate_calls capped = [Switched_To ''lead'' TARGET_MODEL]"
  by code_simp

subsection \<open>Waking and switching\<close>

text \<open>C20:
  A pass wakes an agent only when it applies, at most \<open>--limit\<close> times, and only an agent the fleet
  manages, whose session was found and whose two captures both show the wall at the same row with
  the moment it lifts behind us (or a billing wall, which carries none).
\<close>

theorem resume_wakes_only_lifted_walls:
  assumes "made s = []" and "Woke name \<in> set (made (snd (resume_pass (call_log e) i s)))"
  shows "li_apply i \<and> wakes (made (snd (resume_pass (call_log e) i s))) \<le> max 0 (li_limit i) \<and>
    (\<exists>dir c cs p q a b. (dir, Inr c) \<in> set (limit_specs i) \<and> lc_name c = name \<and> lc_policy c \<in> set MANAGED_POLICIES
       \<and> li_captures i = Inr cs \<and> map_of cs name = Some (p, q)
       \<and> observe_pane (li_zoneinfo i) p (li_now i) (li_tz i) = Inr a \<and> lo_readable a \<and> lo_limited a
       \<and> observe_pane (li_zoneinfo i) q (li_now i) (li_tz i) = Inr b \<and> lo_readable b \<and> lo_limited b
       \<and> lo_line_index a = lo_line_index b
       \<and> (case lo_reset_at b of None \<Rightarrow> lo_window b = u ''billing'' | Some t \<Rightarrow> t \<le> li_now i))"
proof -
  from resume_pass_calls [of e i s] assms(1) obtain cs where cs: "made (snd (resume_pass (call_log e) i s)) = cs"
    "wakes cs \<le> max 0 (li_limit i)"
    "\<forall>k \<in> set cs. li_apply i \<and> (\<exists>dir c. (dir, Inr c) \<in> set (limit_specs i) \<and> asked_for i (captures_of i) c k)" by auto
  with assms(2) obtain dir c d where c: "li_apply i" "(dir, Inr c) \<in> set (limit_specs i)" "lc_name c = name"
    "wall_decision i (presence (captures_of i) name) (panes_of (captures_of i) name) c = Inr d" "ld_verdict d = Resume"
    by fastforce
  from wall_resumes [OF c(4,5)] c cs show ?thesis by blast
qed

text \<open>A pass switches an agent's model only when it applies and was asked to, at most \<open>--limit\<close> times,
  to the one target model, and only an agent the fleet manages, whose session was found, whose two
  captures both show a model cap at the same row, and whose model, of a family other than the
  target's, or the model the banner names is one that can be capped.
\<close>

theorem switches_only_off_a_capped_model:
  assumes "made s = []" and "Switched_To name target \<in> set (made (snd (resume_pass (call_log e) i s)))"
  shows "li_apply i \<and> li_switch_model i \<and> target = TARGET_MODEL
    \<and> switches (made (snd (resume_pass (call_log e) i s))) \<le> max 0 (li_limit i) \<and>
    (\<exists>dir c cs p q a b. (dir, Inr c) \<in> set (limit_specs i) \<and> lc_name c = name \<and> lc_policy c \<in> set MANAGED_POLICIES
       \<and> li_captures i = Inr cs \<and> map_of cs name = Some (p, q)
       \<and> observe_model_cap (li_zoneinfo i) p (li_now i) (li_tz i) = Inr a \<and> co_readable a \<and> co_capped a
       \<and> observe_model_cap (li_zoneinfo i) q (li_now i) (li_tz i) = Inr b \<and> co_readable b \<and> co_capped b
       \<and> co_line_index a = co_line_index b
       \<and> model_family (lc_model c) \<noteq> model_family TARGET_MODEL
       \<and> (model_family (lc_model c) \<in> set CAPPED_FAMILIES \<or> model_family (co_subject b) \<in> set CAPPED_FAMILIES))"
proof -
  from resume_pass_calls [of e i s] assms(1) obtain cs where cs: "made (snd (resume_pass (call_log e) i s)) = cs"
    "switches cs \<le> max 0 (li_limit i)"
    "\<forall>k \<in> set cs. li_apply i \<and> (\<exists>dir c. (dir, Inr c) \<in> set (limit_specs i) \<and> asked_for i (captures_of i) c k)" by auto
  with assms(2) obtain dir c d where c: "li_apply i" "li_switch_model i" "target = TARGET_MODEL"
    "(dir, Inr c) \<in> set (limit_specs i)" "lc_name c = name"
    "cap_decision i (presence (captures_of i) name) (panes_of (captures_of i) name) c False = Inr d" "switch_fires d"
    by fastforce
  from cap_switches [OF c(6,7)] c cs show ?thesis by blast
qed

text \<open>A switch is reported as taken only when the cap is gone from the pane and one of three things was
  seen: the confirmation line with the target, the target named more often than it was typed, or a
  submitted kick. It is reported as failed exactly when the cap is still rendered.
\<close>

theorem switch_proof_is_seen:
  assumes "verify_switch zoneinfo pane target sent kick now tz = Inr (v, why)"
  shows "(v = No) = (\<exists>p obs. pane = Some p \<and> observe_model_cap zoneinfo (Some p) now tz = Inr obs \<and> co_capped obs)
    \<and> (v = Yes \<longrightarrow> (\<exists>p obs. pane = Some p \<and> observe_model_cap zoneinfo (Some p) now tz = Inr obs \<and> \<not> co_capped obs
       \<and> (kick = Yes \<or> Pane_Text.holds confirm_needle (flatten_pane p) \<and> Pane_Text.holds (flatten_pane target) (flatten_pane p)
          \<or> typed_by_us (flatten_pane p) (flatten_pane target) sent < occurrences (flatten_pane target) (flatten_pane p))))"
  using verify_switch_cases [OF assms] by blast

text \<open>A pass that returns has reported on every agent of the registry in its order, an unreadable spec
  under its directory's name.
\<close>

theorem sweep_reports_every_agent:
  assumes "fst (resume_pass e i s) = Inr out"
  shows "map lr_name (lt_reports out) = map (\<lambda>(dir, r). case r of Inl _ \<Rightarrow> dir | Inr c \<Rightarrow> lc_name c) (limit_specs i)"
proof -
  have "list_all2 (spoken_of i (captures_of i)) (limit_specs i) (lt_reports out)"
    using resume_pass_returns [OF assms] ..
  then show ?thesis
  proof (induction rule: list_all2_induct)
    case (Cons d ds rep reps)
    then show ?case by (cases d; cases "snd d") auto
  qed simp
qed

subsection \<open>What stops a pass\<close>

text \<open>The fields of a moment that exists: year, month, day, hour, minute, second.\<close>

definition date_exists :: "int list \<Rightarrow> bool" where
  "date_exists fs \<longleftrightarrow> 1 \<le> fs ! 0 \<and> fs ! 0 \<le> 9999 \<and> 1 \<le> fs ! 1 \<and> fs ! 1 \<le> 12 \<and> 1 \<le> fs ! 2 \<and>
     fs ! 2 \<le> days_in (fs ! 0) (fs ! 1) \<and> 0 \<le> fs ! 3 \<and> fs ! 3 \<le> 23 \<and> 0 \<le> fs ! 4 \<and> fs ! 4 \<le> 59 \<and>
     0 \<le> fs ! 5 \<and> fs ! 5 \<le> 59"

definition is_wall :: "utext \<Rightarrow> bool" where
  "is_wall row \<longleftrightarrow> limit_search (strip_markers row) \<noteq> None \<or> billing_exhausted (strip_markers row)"

text \<open>A row of a limit whose reset is written as a date, in a known zone if it names one, that does not exist.\<close>

definition names_no_date :: "(utext \<Rightarrow> zone option) \<Rightarrow> utext \<Rightarrow> bool" where
  "names_no_date zoneinfo row \<longleftrightarrow> limit_search (strip_markers row) \<noteq> None \<and>
     (case reset_search (strip_markers row) of
        None \<Rightarrow> False
      | Some (whole, stamp, label) \<Rightarrow>
          (case label of None \<Rightarrow> True | Some l \<Rightarrow> zone_named zoneinfo l \<noteq> None) \<and>
          (case iso_fields stamp of None \<Rightarrow> False | Some (fs, zulu) \<Rightarrow> \<not> date_exists fs))"

lemma no_date_raises:
  assumes "names_no_date zoneinfo row"
  shows "observe_rows zoneinfo now tz ((i, row) # rows) = Inl (ValueError ''datetime field out of range'')"
proof -
  let ?row = "strip_markers row"
  obtain wall found where r: "limit_search ?row = wall" "reset_search ?row = found" by blast
  from assms have rest: "wall \<noteq> None" "case found of None \<Rightarrow> False | Some (whole, stamp, label) \<Rightarrow>
      (case label of None \<Rightarrow> True | Some l \<Rightarrow> zone_named zoneinfo l \<noteq> None) \<and>
      (case iso_fields stamp of None \<Rightarrow> False | Some (fs, zulu) \<Rightarrow> \<not> date_exists fs)"
    unfolding names_no_date_def r by (rule conjunct1, rule conjunct2)
  obtain whole stamp label where f: "found = Some (whole, stamp, label)"
    using rest(2) by (cases found) (simp_all only: option.case, metis prod_cases3)
  with rest(2) have label: "case label of None \<Rightarrow> True | Some l \<Rightarrow> zone_named zoneinfo l \<noteq> None"
    and parts: "case iso_fields stamp of None \<Rightarrow> False | Some (fs, zulu) \<Rightarrow> \<not> date_exists fs" by simp_all
  obtain fields where i: "iso_fields stamp = fields" by blast
  from parts [unfolded i] obtain fs zulu where g: "fields = Some (fs, zulu)" "\<not> date_exists fs"
    by (cases fields) auto
  have row: "limit_search ?row \<noteq> None" "reset_search ?row = Some (whole, stamp, label)"
    and iso: "iso_fields stamp = Some (fs, zulu)" "\<not> date_exists fs"
    using r rest(1) f i g by (simp_all only: not_False_eq_True)
  from label obtain z where z: "(case label of None \<Rightarrow> Some tz | Some l \<Rightarrow> zone_named zoneinfo l) = Some z"
    by (cases label) auto
  have "mk_datetime (fs ! 0) (fs ! 1) (fs ! 2) (fs ! 3) (fs ! 4) (fs ! 5) = Inl (ValueError ''datetime field out of range'')"
    using iso(2) unfolding mk_datetime_def date_exists_def by (rule contrapos_np) (auto split: if_splits)
  then have "parse_reset_at zoneinfo ?row now tz = Inl (ValueError ''datetime field out of range'')"
    unfolding parse_reset_at_def by (simp only: row iso z option.case prod.case Let_def bind_result.simps)
  with rest(1) show ?thesis by (cases wall) (simp_all add: r(1))
qed

lemma no_wall_below:
  "\<forall>(i, r) \<in> set xs. \<not> is_wall r \<Longrightarrow> observe_rows zoneinfo now tz (xs @ rows) = observe_rows zoneinfo now tz rows"
  by (induction xs) (auto simp: is_wall_def Let_def)

lemma last_wall_decides:
  assumes "pane_rows pane = before @ row # below" and "\<forall>r \<in> set below. \<not> is_wall r" and "names_no_date zoneinfo row"
  shows "observe_pane zoneinfo (Some pane) now tz = Inl (ValueError ''datetime field out of range'')"
proof -
  have "rev (enumerate 0 (pane_rows pane)) = rev (enumerate (Suc (length before)) below) @
      (length before, row) # rev (enumerate 0 before)"
    by (simp add: assms(1) enumerate_append_eq)
  moreover have "\<forall>(i, r) \<in> set (rev (enumerate (Suc (length before)) below)). \<not> is_wall r"
    using assms(2) by (auto simp: in_set_enumerate_eq)
  ultimately show ?thesis
    using no_wall_below no_date_raises [OF assms(3)] by (simp add: observe_pane_def)
qed

text \<open>C21:
  One pane can stop the whole pass. If, of a readable agent of the registry, the first capture shows a
  limit whose reset is written as a date that does not exist, with no wall below it, then reading that
  pane raises the \<open>ValueError\<close> of \<open>datetime\<close> and the pass raises too: it reports on no agent.
\<close>

theorem one_bad_reset_stops_the_sweep:
  assumes "(dir, Inr c) \<in> set (limit_specs i)" and "li_captures i = Inr cs" and "map_of cs (lc_name c) = Some (Some pane, q)"
    and "pane_rows pane = before @ row # below" and "\<forall>r \<in> set below. \<not> is_wall r" and "names_no_date (li_zoneinfo i) row"
  shows "observe_pane (li_zoneinfo i) (Some pane) (li_now i) (li_tz i) = Inl (ValueError ''datetime field out of range'')
    \<and> (\<exists>err. fst (resume_pass e i s) = Inl err)"
proof -
  note bad = last_wall_decides [OF assms(4-6)]
  show ?thesis
  proof (cases "fst (resume_pass e i s)")
    case (Inr out)
    have "list_all2 (spoken_of i (captures_of i)) (limit_specs i) (lt_reports out)"
      using resume_pass_returns [OF Inr] ..
    with assms(1) obtain rep where "spoken_of i (captures_of i) (dir, Inr c) rep"
      by (metis in_set_conv_nth list_all2_conv_all_nth)
    then show ?thesis
      using assms(2,3) bad by (auto simp: wall_decision_def panes_of_def captures_of_def pane_of_def)
  qed (use bad in blast)
qed

text \<open>A wake that raises is not remembered: the exception leaves the pass, and neither the budget nor
  the history on disk knows of the attempt.
\<close>

theorem raised_wake_is_not_remembered:
  assumes "ld_verdict d = Resume" and "li_apply i" and "ls_budget s = Some b"
    and "bc_allowed (budget_check b name (li_now i))" and "re_restart e name (nd_world s) = (Inl err, w)"
  shows "wake_one e i name d s = (Inl err, s\<lparr>nd_world := w\<rparr>)"
  using assms
  by (simp add: wake_one_def resume_perform_def call_restart_def le_disk_def seq_def get_state_def Let_def)

subsection \<open>The clock of a wall\<close>

text \<open>A wall that names only a time of day is taken to lift at that time, at most half a day of local
  time from now.
\<close>

theorem clock_resolves_within_half_a_day:
  assumes "0 \<le> hour" "hour \<le> 23" "0 \<le> minute" "minute \<le> 59"
  shows "\<exists>local folded k. resolve_clock_near hour minute now tz = zn_instant tz local folded
    \<and> \<bar>local - fst (zn_local tz now)\<bar> \<le> DAY_S / 2 \<and> local = of_int k * DAY_S + of_int (hour * 3600 + minute * 60)"
proof -
  obtain anchor folded where a: "zn_local tz now = (anchor, folded)"
    by (metis surj_pair)
  let ?cs = "clock_candidates hour minute anchor"
  let ?t = "nearest anchor (hd ?cs) (tl ?cs)"
  have near: "\<bar>?t - anchor\<bar> \<le> DAY_S / 2"
    by (rule clock_within_half_a_day [OF assms])
  have "?t \<in> set (hd ?cs # tl ?cs)" by (rule nearest_in)
  then have "\<exists>k. ?t = of_int k * DAY_S + of_int (hour * 3600 + minute * 60)"
    by (rule clock_candidate_form)
  with near a show ?thesis
    unfolding resolve_clock_near_def Let_def by auto
qed

subsection \<open>Logged-out agents\<close>

text \<open>The sweep over logged-out agents only reports: whatever it sees and whether or not it applies, it
  returns with the state it was given, every verdict \<open>Unobserved\<close>, and exits with 2 exactly when an
  agent's captures leave a login in doubt or the registry could not be read, with 0 otherwise.
\<close>

theorem auth_heal_only_reports:
  "\<exists>out. auth_heal_pass e word i s = (Inr out, s) \<and> ho_applied out = hi_apply i
     \<and> list_all (\<lambda>r. he_verdict r = Unobserved) (ho_reports out)
     \<and> heal_exit_code out =
         (if list_ex (\<lambda>(name, panes). auth_suspect word panes) (hi_captures i) then 2
          else if ro_readable (registered_agents (hi_registry i)) then 0 else 2)"
  unfolding auth_heal_runs
  by (intro exI conjI, rule refl)
    (auto simp: list_all_iff list_ex_iff heal_exit_iff all_unobserved Bex_def)

subsection \<open>Witnesses\<close>

lemma demo_names:
  "limit_specs lifted = [(''lead'', Inr (rate_config ''lead'' ''fable'')), (''writer'', Inr (rate_config ''writer'' ''sonnet''))]"
  "limit_specs malformed = [(''lead'', Inr (rate_config ''lead'' ''fable'')), (''writer'', Inr (rate_config ''writer'' ''sonnet''))]"
  by code_simp+

lemma demo_fields:
  "li_limit lifted = 1" "li_now lifted = 4 * 3600" "li_zoneinfo lifted = (\<lambda>_. None)" "li_tz lifted = UTC"
  "li_limit capped = 1" "li_now capped = 4 * 3600" "li_zoneinfo capped = (\<lambda>_. None)" "li_tz capped = UTC"
  by (simp_all add: lifted_def capped_def demo_limits_def)

lemma demo_max: "max 0 (1::int) = 1"
  by simp

lemma demo_start: "made (parked_state ([], ())) = []"
  by (simp add: parked_state_def)

theorem resume_wakes_only_lifted_walls_witness:
  "wakes (rate_calls lifted) \<le> 1 \<and> (\<exists>(c :: limit_config) p a. lc_name c = ''lead'' \<and> lc_policy c \<in> set MANAGED_POLICIES
     \<and> observe_pane (\<lambda>_. None) p (4 * 3600) UTC = Inr a \<and> lo_limited a)"
proof -
  have "Woke ''lead'' \<in> set (made (snd (resume_pass (call_log calm_env) lifted (parked_state ([], ())))))"
    using lifted_calls unfolding rate_calls_def by simp
  from resume_wakes_only_lifted_walls [OF demo_start this] show ?thesis
    unfolding rate_calls_def [symmetric] demo_fields demo_max by blast
qed

theorem switches_only_off_a_capped_model_witness:
  "switches (rate_calls capped) \<le> 1 \<and> (\<exists>(c :: limit_config) p a. lc_name c = ''lead''
     \<and> observe_model_cap (\<lambda>_. None) p (4 * 3600) UTC = Inr a \<and> co_capped a)"
proof -
  have "Switched_To ''lead'' TARGET_MODEL \<in> set (made (snd (resume_pass (call_log calm_env) capped (parked_state ([], ())))))"
    using capped_calls unfolding rate_calls_def by simp
  from switches_only_off_a_capped_model [OF demo_start this] show ?thesis
    unfolding rate_calls_def [symmetric] demo_fields demo_max by blast
qed

definition confirmed_pane :: utext where
  "confirmed_pane = join_rows [u ''> /model opus[1m]'', u ''Set model to opus[1m]'', [CLAUDE_MARKER]]"

definition confirmed :: "(tri \<times> string) result" where
  "confirmed = verify_switch (\<lambda>_. None) (Some confirmed_pane) TARGET_MODEL [] No 0 UTC"

lemma confirmed_yes: "confirmed = Inr (Yes, ''confirmation line'')"
  by code_simp

theorem switch_proof_is_seen_witness:
  "\<exists>p obs. observe_model_cap (\<lambda>_. None) (Some p) 0 UTC = Inr obs \<and> \<not> co_capped obs \<and> p = confirmed_pane"
  using switch_proof_is_seen [OF confirmed_yes [unfolded confirmed_def]] by blast

definition pass_returns :: "limit_input \<Rightarrow> bool" where
  "pass_returns i = (case fst (resume_pass calm_env i (parked_state ())) of Inl _ \<Rightarrow> False | Inr _ \<Rightarrow> True)"

lemma lifted_returns: "pass_returns lifted"
  by code_simp

theorem sweep_reports_every_agent_witness:
  "\<exists>out. fst (resume_pass calm_env lifted (parked_state ())) = Inr out \<and> map lr_name (lt_reports out) = [''lead'', ''writer'']"
proof -
  obtain out where out: "fst (resume_pass calm_env lifted (parked_state ())) = Inr out"
    using lifted_returns by (auto simp: pass_returns_def split: sum.splits)
  from sweep_reports_every_agent [OF this] have "map lr_name (lt_reports out) = [''lead'', ''writer'']"
    unfolding demo_names by (simp add: rate_config_def)
  with out show ?thesis by (intro exI conjI)
qed

definition bad_pane :: utext where
  "bad_pane = wall_pane ''resets 2026-17-18T08:30Z''"

definition good_pane :: utext where
  "good_pane = wall_pane ''resets 3am (UTC)''"

definition bad_row :: nat where
  "bad_row = length (takeWhile (\<lambda>row. \<not> names_no_date (\<lambda>_. None) row) (pane_rows bad_pane))"

lemma bad_pane_reads:
  "bad_row < length (pane_rows bad_pane)" "names_no_date (\<lambda>_. None) (pane_rows bad_pane ! bad_row)"
  "list_all (\<lambda>r. \<not> is_wall r) (drop (Suc bad_row) (pane_rows bad_pane))"
  by code_simp+

theorem one_bad_reset_stops_the_sweep_witness:
  "\<exists>err. fst (resume_pass calm_env malformed (parked_state ())) = Inl err"
proof -
  have "(''lead'', Inr (rate_config ''lead'' ''fable'')) \<in> set (limit_specs malformed)"
    by (simp add: demo_names)
  moreover have "li_captures malformed = Inr [(''lead'', (Some bad_pane, Some bad_pane)), (''writer'', (Some good_pane, Some good_pane))]"
    "li_zoneinfo malformed = (\<lambda>_. None)"
    by (simp_all add: malformed_def demo_limits_def bad_pane_def good_pane_def)
  moreover have "map_of [(''lead'', (Some bad_pane, Some bad_pane)), (''writer'', (Some good_pane, Some good_pane))]
      (lc_name (rate_config ''lead'' ''fable'')) = Some (Some bad_pane, Some bad_pane)"
    by (simp add: rate_config_def)
  moreover have "pane_rows bad_pane = take bad_row (pane_rows bad_pane) @ pane_rows bad_pane ! bad_row
      # drop (Suc bad_row) (pane_rows bad_pane)"
    using bad_pane_reads(1) by (simp add: id_take_nth_drop)
  moreover have "\<forall>r \<in> set (drop (Suc bad_row) (pane_rows bad_pane)). \<not> is_wall r"
    using bad_pane_reads(3) by (simp add: list_all_iff)
  ultimately show ?thesis
    using one_bad_reset_stops_the_sweep [of "''lead''" "rate_config ''lead'' ''fable''" malformed] bad_pane_reads(2) by metis
qed

definition pasting_fails :: "unit limit_env" where
  "pasting_fails = calm_env\<lparr>re_restart := (\<lambda>_ _. (Inl (OtherError ''TmuxPasteError''), ()))\<rparr>"

definition first_budget :: budget where
  "first_budget = \<lparr>bu_history = [], bu_pass_cap = 1, bu_spent = 0\<rparr>"

definition budgeted_state :: "unit limit_state" where
  "budgeted_state = parked_state ()\<lparr>ls_budget := Some first_budget\<rparr>"

theorem raised_wake_is_not_remembered_witness:
  "wake_one pasting_fails lifted ''lead'' (mk_limit Resume ''wall-lifted'' []) budgeted_state
     = (Inl (OtherError ''TmuxPasteError''), budgeted_state)"
proof -
  have "bc_allowed (budget_check first_budget ''lead'' (li_now lifted))"
    by (simp add: first_budget_def allowed_iff stamps_of_def recent_stamps_def MAX_RESTARTS_PER_AGENT_PER_HOUR_def)
  moreover have "ld_verdict (mk_limit Resume ''wall-lifted'' []) = Resume" "li_apply lifted"
    "ls_budget budgeted_state = Some first_budget"
    by (simp_all add: mk_limit_def lifted_def demo_limits_def budgeted_state_def)
  moreover have "re_restart pasting_fails ''lead'' (nd_world budgeted_state) = (Inl (OtherError ''TmuxPasteError''), ())"
    by (simp add: pasting_fails_def)
  ultimately show ?thesis
    using raised_wake_is_not_remembered [of "mk_limit Resume ''wall-lifted'' []" lifted budgeted_state first_budget "''lead''" pasting_fails]
    by simp
qed

theorem clock_resolves_within_half_a_day_witness:
  "\<exists>local folded k. resolve_clock_near 3 0 (4 * 3600) UTC = zn_instant UTC local folded
    \<and> \<bar>local - 4 * 3600\<bar> \<le> DAY_S / 2 \<and> local = of_int k * DAY_S + of_int (3 * 3600)"
  using clock_resolves_within_half_a_day [of 3 0 "4 * 3600" UTC] by (simp add: UTC_def)

end
