(* ===== verification/Rate_Switch.thy ===== *)
theory Rate_Switch
  imports Rate_Rule Delivery_Send
begin

text \<open>
  The two acts of the resume pass on a pane: waking an agent (\<open>_ratelimit/_resume.py\<close>) and walking it
  off a capped model in three steps (\<open>_ratelimit/_switch.py\<close>), over the terminal and the delivery of
  \<open>Screen_Env\<close> and \<open>Delivery_Send\<close>.
\<close>

definition RESUME_MESSAGE :: utext where
  "RESUME_MESSAGE =
     u ''Your provider rate limit has reset and this turn was resumed automatically by sac.resume-rate-limited-agents (you were paused, not restarted ''
     @ [0x2014]
     @ u '' your context is intact). Re-read your own scitex-cards board and continue the work that was interrupted; if nothing is outstanding, say so and stop.''"

definition KICK_MESSAGE :: utext where
  "KICK_MESSAGE =
     u ''sac.resume-rate-limited-agents switched this session OFF the Fable model, which had run out of quota and was answering nothing, and ONTO the 1M-context Opus. You were paused, not restarted ''
     @ [0x2014]
     @ u '' your context is intact. Re-read your own scitex-cards board and continue the work that was interrupted; if nothing is outstanding, say so and stop.''"

text \<open>A send through the verified delivery, and what \<open>assess_delivery\<close> makes of it.\<close>

definition sent_verdict ::
    "nat \<Rightarrow> delivery_env \<Rightarrow> (int \<Rightarrow> bool) \<Rightarrow> deliver_opts \<Rightarrow> string \<Rightarrow> utext \<Rightarrow> history \<Rightarrow> (tri result \<times> history) option" where
  "sent_verdict fuel env word opts agent message h =
     (case deliver fuel env word opts agent message ''auto'' h of
        None \<Rightarrow> None
      | Some (Inl e, h') \<Rightarrow> Some (Inl e, h')
      | Some (Inr st, h') \<Rightarrow> Some (Inr (as_verdict (assess_delivery st)), h'))"

definition real_resume ::
    "nat \<Rightarrow> delivery_env \<Rightarrow> (int \<Rightarrow> bool) \<Rightarrow> deliver_opts \<Rightarrow> string \<Rightarrow> history \<Rightarrow> (bool result \<times> history) option" where
  "real_resume fuel env word opts agent h =
     (case sent_verdict fuel env word opts agent RESUME_MESSAGE h of
        None \<Rightarrow> None
      | Some (Inl e, h') \<Rightarrow> Some (Inl e, h')
      | Some (Inr v, h') \<Rightarrow> Some (Inr (v = Yes), h'))"

record switch_step =
  sp_name :: string
  sp_payload :: utext
  sp_at :: time

record switch_outcome =
  sw_switched :: tri
  sw_detail :: string
  sw_steps :: "switch_step list"
  sw_kick :: tri
  sw_target :: utext
  sw_sent :: "utext list"

record switch_opts =
  wo_target :: utext
  wo_delay :: time
  wo_kick :: utext
  wo_now :: time
  wo_tz :: zone

definition SWITCH_STEP_DELAY_S :: time where
  "SWITCH_STEP_DELAY_S = 3"

definition CONFIRM_KEY :: string where
  "CONFIRM_KEY = ''Enter''"

definition model_command :: "utext \<Rightarrow> utext" where
  "model_command target = u ''/model '' @ target"

text \<open>
  \<open>sessions\<close>: what the injected listing returned, \<open>None\<close> without one or when it raised. \<open>kick\<close> is the
  injected delivery of the third step.
\<close>

definition switch_model_now ::
    "(utext \<Rightarrow> zone option) \<Rightarrow> screen_env \<Rightarrow> (history \<Rightarrow> (tri result \<times> history) option) \<Rightarrow> switch_opts \<Rightarrow> string
      \<Rightarrow> string list option \<Rightarrow> history \<Rightarrow> (switch_outcome result \<times> history) option" where
  "switch_model_now zoneinfo scr kick opts agent sessions h =
     (case resolve_live_session agent sessions of
        Inl e \<Rightarrow> Some (Inl e, h)
      | Inr session \<Rightarrow>
          (let command = model_command (wo_target opts);
               (t1, h1) = clock scr h;
               (t2, h2) = clock scr (sleep (wo_delay opts) (paste command h1));
               (t3, h3) = clock scr (sleep (wo_delay opts) (press CONFIRM_KEY h2))
           in case kick h3 of
                None \<Rightarrow> None
              | Some (Inl e, h4) \<Rightarrow> Some (Inl e, h4)
              | Some (Inr submitted, h4) \<Rightarrow>
                  (let (t4, h5) = clock scr (sleep (wo_delay opts) h4);
                       (pane, h6) = capture scr h5
                   in Some
                     (bind_result
                        (verify_switch zoneinfo pane (wo_target opts) [command, wo_kick opts] submitted (wo_now opts) (wo_tz opts))
                        (\<lambda>(switched, detail). Inr
                          \<lparr>sw_switched = switched, sw_detail = detail,
                           sw_steps = [\<lparr>sp_name = ''model-command'', sp_payload = command, sp_at = t1\<rparr>,
                             \<lparr>sp_name = ''confirm'', sp_payload = u CONFIRM_KEY, sp_at = t2\<rparr>,
                             \<lparr>sp_name = ''kick'', sp_payload = wo_kick opts, sp_at = t3\<rparr>,
                             \<lparr>sp_name = ''verify'', sp_payload = u session, sp_at = t4\<rparr>],
                           sw_kick = submitted, sw_target = wo_target opts, sw_sent = [command, wo_kick opts]\<rparr>), h6))))"

definition real_switch_opts :: "utext \<Rightarrow> time \<Rightarrow> zone \<Rightarrow> switch_opts" where
  "real_switch_opts target now tz =
     \<lparr>wo_target = target, wo_delay = SWITCH_STEP_DELAY_S, wo_kick = KICK_MESSAGE, wo_now = now, wo_tz = tz\<rparr>"

definition real_switch ::
    "nat \<Rightarrow> delivery_env \<Rightarrow> (int \<Rightarrow> bool) \<Rightarrow> deliver_opts \<Rightarrow> (utext \<Rightarrow> zone option) \<Rightarrow> zone \<Rightarrow> string \<Rightarrow> utext \<Rightarrow> time \<Rightarrow> history
      \<Rightarrow> (tri result \<times> history) option" where
  "real_switch fuel env word opts zoneinfo tz agent target now h =
     (case switch_model_now zoneinfo (dl_screen env) (sent_verdict fuel env word opts agent KICK_MESSAGE)
             (real_switch_opts target now tz) agent None h of
        None \<Rightarrow> None
      | Some (Inl e, h') \<Rightarrow> Some (Inl e, h')
      | Some (Inr out, h') \<Rightarrow> Some (Inr (sw_switched out), h'))"

subsection \<open>What a switch does and claims\<close>

text \<open>
  C27: a switch that returns typed the model command once, then the one confirming Enter, then
  delivered the kick, each a whole delay after the one before on a clock that runs, and judged the
  pane of the one capture taken a delay after that: it says taken only when the cap is gone from
  that pane and a proof of the switch was seen, and failed exactly when the cap is still on it.
\<close>

theorem switch_types_three_steps_and_looks:
  assumes "switch_model_now zoneinfo scr kick opts agent sessions h = Some (Inr out, h')" and "clock_runs scr"
  shows "\<exists>t1 t2 t3 t4 h4 p.
     kick (Read_Clock t3 # Slept (wo_delay opts) # Pressed ''Enter'' # Read_Clock t2 # Slept (wo_delay opts)
           # Pasted (u ''/model '' @ wo_target opts) # Read_Clock t1 # h) = Some (Inr (sw_kick out), h4) \<and>
     h' = Captured p # Read_Clock t4 # Slept (wo_delay opts) # h4 \<and>
     map sp_at (sw_steps out) = [t1, t2, t3, t4] \<and> t1 + wo_delay opts \<le> t2 \<and> t2 + wo_delay opts \<le> t3 \<and>
     sw_switched out = (case verify_switch zoneinfo p (wo_target opts) (sw_sent out) (sw_kick out) (wo_now opts) (wo_tz opts) of
        Inr (v, _) \<Rightarrow> v | Inl _ \<Rightarrow> Unknown) \<and>
     (sw_switched out = No \<longleftrightarrow> (\<exists>q obs. p = Some q \<and> observe_model_cap zoneinfo (Some q) (wo_now opts) (wo_tz opts) = Inr obs \<and> co_capped obs))"
proof -
  let ?d = "wo_delay opts"
  let ?h1 = "Read_Clock (at_clock scr h) # h"
  let ?h2 = "Slept ?d # Pasted (model_command (wo_target opts)) # ?h1"
  let ?h3 = "Slept ?d # Pressed CONFIRM_KEY # Read_Clock (at_clock scr ?h2) # ?h2"
  let ?h3' = "Read_Clock (at_clock scr ?h3) # ?h3"
  have run: "switch_model_now zoneinfo scr kick opts agent sessions h = Some (Inr out, h')" by (rule assms(1))
  obtain session where session: "resolve_live_session agent sessions = Inr session"
    using run by (cases "resolve_live_session agent sessions") (auto simp: switch_model_now_def)
  obtain submitted h4 where kicked: "kick ?h3' = Some (Inr submitted, h4)"
    using run
    by (auto simp: switch_model_now_def session clock_def sleep_def paste_def press_def Let_def split: option.splits sum.splits)
  let ?h4 = "Slept ?d # h4"
  let ?h5 = "Read_Clock (at_clock scr ?h4) # ?h4"
  let ?p = "at_capture scr ?h5"
  let ?sent = "[model_command (wo_target opts), wo_kick opts]"
  obtain v why where verified: "verify_switch zoneinfo ?p (wo_target opts) ?sent submitted (wo_now opts) (wo_tz opts) = Inr (v, why)"
    and out: "sw_switched out = v" "sw_kick out = submitted" "sw_sent out = ?sent" "h' = Captured ?p # ?h5"
      "map sp_at (sw_steps out) = [at_clock scr h, at_clock scr ?h2, at_clock scr ?h3, at_clock scr ?h4]"
    using run
    by (auto simp: switch_model_now_def session clock_def sleep_def paste_def press_def capture_def Let_def kicked
        bind_result_Inr_iff)
  have "at_clock scr h + ?d \<le> at_clock scr ?h2" "at_clock scr ?h2 + ?d \<le> at_clock scr ?h3"
    using clock_runsD [OF assms(2), of h "Read_Clock (at_clock scr h)"]
      clock_runsD [OF assms(2), of ?h1 "Pasted (model_command (wo_target opts))"]
      clock_runsD [OF assms(2), of "Pasted (model_command (wo_target opts)) # ?h1" "Slept ?d"]
      clock_runsD [OF assms(2), of ?h2 "Read_Clock (at_clock scr ?h2)"]
      clock_runsD [OF assms(2), of "Read_Clock (at_clock scr ?h2) # ?h2" "Pressed CONFIRM_KEY"]
      clock_runsD [OF assms(2), of "Pressed CONFIRM_KEY # Read_Clock (at_clock scr ?h2) # ?h2" "Slept ?d"]
    by simp_all
  moreover note verify_switch_cases(1) [OF verified]
  ultimately show ?thesis
    using kicked out verified
    by (intro exI [of _ "at_clock scr h"] exI [of _ "at_clock scr ?h2"] exI [of _ "at_clock scr ?h3"]
        exI [of _ "at_clock scr ?h4"] exI [of _ h4] exI [of _ ?p]) (simp add: model_command_def CONFIRM_KEY_def)
qed

fun slept_in :: "history \<Rightarrow> time" where
  "slept_in [] = 0"
| "slept_in (e # h) = (case e of Slept d \<Rightarrow> d | _ \<Rightarrow> 0) + slept_in h"

definition switched_pane :: utext where
  "switched_pane = join_rows [u ''> /model opus[1m]'', u ''Set model to opus[1m]'']"

definition switch_screen :: screen_env where
  "switch_screen = \<lparr>at_capture = (\<lambda>_. Some switched_pane), at_clock = slept_in, at_exists = (\<lambda>_. True)\<rparr>"

definition switch_run :: "(switch_outcome result \<times> history) option" where
  "switch_run = switch_model_now (\<lambda>_. None) switch_screen (\<lambda>h. Some (Inr Unknown, h)) (real_switch_opts TARGET_MODEL 0 UTC) ''ada'' None []"

lemma switch_run_yes:
  "(case switch_run of Some (Inr out, _) \<Rightarrow> sw_switched out = Yes \<and> map sp_at (sw_steps out) = [0, 3, 6, 9] | _ \<Rightarrow> False) = True"
  by code_simp

theorem switch_types_three_steps_and_looks_witness:
  "\<exists>(out :: switch_outcome) p. sw_switched out = Yes \<and> map sp_at (sw_steps out) = [0, 3, 6, 9] \<and>
     (sw_switched out = No \<longleftrightarrow> (\<exists>q obs. p = Some q \<and> observe_model_cap (\<lambda>_. None) (Some q) 0 UTC = Inr obs \<and> co_capped obs))"
proof -
  from switch_run_yes obtain out h' where run: "switch_run = Some (Inr out, h')" and out: "sw_switched out = Yes"
    "map sp_at (sw_steps out) = [0, 3, 6, 9]"
    by (auto split: option.splits sum.splits prod.splits)
  have "clock_runs switch_screen"
    unfolding clock_runs_def switch_screen_def by simp
  from switch_types_three_steps_and_looks [OF run [unfolded switch_run_def] this] out
  obtain p where "sw_switched out = No \<longleftrightarrow> (\<exists>q obs. p = Some q \<and> observe_model_cap (\<lambda>_. None) (Some q) 0 UTC = Inr obs \<and> co_capped obs)"
    unfolding real_switch_opts_def switch_opts.simps by blast
  with out show ?thesis by (intro exI conjI)
qed

end
