(* ===== verification/Account_Files.thy ===== *)
theory Account_Files
  imports Reconcile_Budget
begin

text \<open>
  What is known of a stored account from its directory: the pause an operator wrote
  (\<open>_creds/_pause.py\<close>), the entitlement a probe recorded (\<open>_creds/_entitlement.py\<close>, without the probe),
  the expiry of its credentials (\<open>_account/creds_sync.py\<close>) and the health they add up to
  (\<open>_creds/_account_health.py\<close>). A file is a \<^typ>\<open>history_file\<close> of \<open>Reconcile_Budget\<close>; the keys of a
  parsed object are distinct. \<open>str(x)\<close> of a number, a list or an object is the argument \<open>shown\<close>.
\<close>

subsection \<open>Python strings\<close>

text \<open>The characters \<open>str.strip\<close> removes, in UTF-8.\<close>

definition space_codes :: "string list" where
  "space_codes =
     map (\<lambda>c. [c]) [CHR 0x20, CHR 0x09, CHR 0x0A, CHR 0x0B, CHR 0x0C, CHR 0x0D, CHR 0x1C, CHR 0x1D, CHR 0x1E, CHR 0x1F]
     @ [[CHR 0xC2, CHR 0x85], [CHR 0xC2, CHR 0xA0], [CHR 0xE1, CHR 0x9A, CHR 0x80]]
     @ map (\<lambda>c. [CHR 0xE2, CHR 0x80, c])
         [CHR 0x80, CHR 0x81, CHR 0x82, CHR 0x83, CHR 0x84, CHR 0x85, CHR 0x86, CHR 0x87, CHR 0x88, CHR 0x89, CHR 0x8A,
          CHR 0xA8, CHR 0xA9, CHR 0xAF]
     @ [[CHR 0xE2, CHR 0x81, CHR 0x9F], [CHR 0xE3, CHR 0x80, CHR 0x80]]"

function strip_front :: "string list \<Rightarrow> string \<Rightarrow> string" where
  "strip_front codes s =
     (case find (\<lambda>c. c \<noteq> [] \<and> s \<noteq> [] \<and> starts_with s c) codes of
        None \<Rightarrow> s
      | Some c \<Rightarrow> strip_front codes (drop (length c) s))"
  by pat_completeness auto
termination
  by (relation "measure (length \<circ> snd)") (auto simp: find_Some_iff)

declare strip_front.simps [simp del]

definition py_strip :: "string \<Rightarrow> string" where
  "py_strip s = rev (strip_front (map rev space_codes) (rev (strip_front space_codes s)))"

definition py_str :: "(json \<Rightarrow> string) \<Rightarrow> json \<Rightarrow> string" where
  "py_str shown j =
     (case j of
        JStr s \<Rightarrow> s | JNull \<Rightarrow> ''None'' | JBool b \<Rightarrow> if b then ''True'' else ''False''
      | _ \<Rightarrow> shown j)"

text \<open>\<open>d.get(key, default)\<close>.\<close>

definition get_or :: "json \<Rightarrow> (string \<times> json) list \<Rightarrow> string \<Rightarrow> json" where
  "get_or other es key = (case map_of es key of None \<Rightarrow> other | Some j \<Rightarrow> j)"

text \<open>\<open>float(x) if isinstance(x, (int, float)) else None\<close>.\<close>

definition float_or_none :: "json \<Rightarrow> time option result" where
  "float_or_none j = (if is_number j then bind_result (float_of j) (\<lambda>t. Inr (Some t)) else Inr None)"

subsection \<open>A pause\<close>

record pause =
  pa_name :: string
  pa_active :: bool
  pa_reason :: string
  pa_since :: "time option"
  pa_by :: string
  pa_problem :: msg

definition no_pause :: "string \<Rightarrow> msg \<Rightarrow> pause" where
  "no_pause name problem =
     \<lparr>pa_name = name, pa_active = False, pa_reason = [], pa_since = None, pa_by = [], pa_problem = problem\<rparr>"

definition pause_age :: "pause \<Rightarrow> time \<Rightarrow> time option" where
  "pause_age p now = map_option (\<lambda>since. now - since) (pa_since p)"

text \<open>\<open>f"{x:.0f}"\<close> rounds half to even.\<close>

definition half_even :: "time \<Rightarrow> int" where
  "half_even x =
     (let f = \<lfloor>x\<rfloor>; r = x - of_int f
      in if r < 1 / 2 then f else if 1 / 2 < r then f + 1 else if even f then f else f + 1)"

definition format_age :: "time option \<Rightarrow> msg" where
  "format_age seconds =
     (case seconds of
        None \<Rightarrow> Txt ''an unknown time''
      | Some t \<Rightarrow>
          (let s = max 0 t in
           if s < 3600 then Fmt ''m'' [Num \<lfloor>s / 60\<rfloor>]
           else if s < 86400 then Fmt ''h'' [Num (half_even (s / 3600))]
           else Fmt ''d'' [Num (half_even (s / 86400))]))"

definition read_pause :: "(json \<Rightarrow> string) \<Rightarrow> string \<Rightarrow> history_file \<Rightarrow> pause result" where
  "read_pause shown name f =
     (case f of
        Missing \<Rightarrow> Inr (no_pause name empty_msg)
      | Forbidden \<Rightarrow> Inr (no_pause name (Fmt ''unreadable'' [Txt ''PermissionError'']))
      | Unreachable_File \<Rightarrow> Inr (no_pause name (Fmt ''unreadable'' [Txt ''OSError'']))
      | Undecodable \<Rightarrow> Inr (no_pause name (Fmt ''unreadable'' [Txt ''UnicodeDecodeError'']))
      | Unparsable \<Rightarrow> Inr (no_pause name (Fmt ''unreadable'' [Txt ''JSONDecodeError'']))
      | Holding (JObj es) \<Rightarrow>
          (let reason = py_strip (py_str shown (get_or (JStr []) es ''reason'')) in
           if reason = [] then Inr (no_pause name (Fmt ''no reason'' []))
           else
             bind_result (float_or_none (get_or JNull es ''since'')) (\<lambda>since.
               Inr \<lparr>pa_name = name, pa_active = True, pa_reason = reason, pa_since = since,
                    pa_by = py_str shown (get_or (JStr []) es ''by''), pa_problem = empty_msg\<rparr>))
      | Holding _ \<Rightarrow> Inr (no_pause name (Fmt ''not an object'' [])))"

definition pause_json :: "pause \<Rightarrow> json" where
  "pause_json p =
     JObj [(''reason'', JStr (pa_reason p)),
           (''since'', case pa_since p of None \<Rightarrow> JNull | Some t \<Rightarrow> JFloat t),
           (''by'', JStr (pa_by p))]"

text \<open>Whether the directory, the temporary file and its rename went through is the argument \<open>ok\<close>.\<close>

definition write_pause :: "bool \<Rightarrow> pause \<Rightarrow> history_file \<Rightarrow> bool \<times> history_file" where
  "write_pause ok p f = (if ok then (True, Holding (pause_json p)) else (False, f))"

definition clear_pause :: "bool \<Rightarrow> history_file \<Rightarrow> bool result \<times> history_file" where
  "clear_pause ok f =
     (if f = Missing then (Inr False, f)
      else if ok then (Inr True, Missing)
      else (Inl (OtherError ''OSError''), f))"

subsection \<open>An entitlement\<close>

datatype entitlement_state = Entitled | Forbidden_Account | Entitlement_Unknown

record entitlement =
  en_name :: string
  en_state :: entitlement_state
  en_checked_at :: "time option"
  en_http_status :: "int option"
  en_detail :: msg

definition blocks_use :: "entitlement \<Rightarrow> bool" where
  "blocks_use v \<longleftrightarrow> en_state v = Forbidden_Account"

definition DEFAULT_MAX_AGE_S :: time where "DEFAULT_MAX_AGE_S = 24 * 3600"

definition unknown_entitlement :: "string \<Rightarrow> time option \<Rightarrow> msg \<Rightarrow> entitlement" where
  "unknown_entitlement name checked_at detail =
     \<lparr>en_name = name, en_state = Entitlement_Unknown, en_checked_at = checked_at, en_http_status = None,
      en_detail = detail\<rparr>"

definition state_of_json :: "json option \<Rightarrow> entitlement_state option" where
  "state_of_json j =
     (if j = Some (JStr ''ENTITLED'') then Some Entitled
      else if j = Some (JStr ''FORBIDDEN'') then Some Forbidden_Account
      else if j = Some (JStr ''UNKNOWN'') then Some Entitlement_Unknown
      else None)"

definition int_of_json :: "json \<Rightarrow> int option" where
  "int_of_json j = (case j of JInt i \<Rightarrow> Some i | JBool b \<Rightarrow> Some (if b then 1 else 0) | _ \<Rightarrow> None)"

definition entitlement_of_object ::
    "(json \<Rightarrow> string) \<Rightarrow> string \<Rightarrow> (string \<times> json) list \<Rightarrow> time \<Rightarrow> time \<Rightarrow> entitlement result" where
  "entitlement_of_object shown name es now max_age =
     (case state_of_json (map_of es ''state'') of
        None \<Rightarrow> Inr (unknown_entitlement name None (Fmt ''unrecognised state'' []))
      | Some state \<Rightarrow>
          bind_result (float_or_none (get_or JNull es ''checked_at'')) (\<lambda>checked.
            case checked of
              None \<Rightarrow> Inr (unknown_entitlement name None (Fmt ''no numeric checked_at'' []))
            | Some t \<Rightarrow>
                if max_age < now - t
                then Inr (unknown_entitlement name (Some t) (Fmt ''record is old'' [Sec (now - t), Sec max_age]))
                else Inr \<lparr>en_name = name, en_state = state, en_checked_at = Some t,
                          en_http_status = int_of_json (get_or JNull es ''http_status''),
                          en_detail = Txt (py_str shown (get_or (JStr []) es ''detail''))\<rparr>))"

definition read_entitlement ::
    "(json \<Rightarrow> string) \<Rightarrow> string \<Rightarrow> history_file \<Rightarrow> time \<Rightarrow> time \<Rightarrow> entitlement result" where
  "read_entitlement shown name f now max_age =
     (case f of
        Missing \<Rightarrow> Inr (unknown_entitlement name None (Txt ''never probed''))
      | Holding (JObj es) \<Rightarrow> entitlement_of_object shown name es now max_age
      | Holding _ \<Rightarrow> Inr (unknown_entitlement name None (Fmt ''not an object'' []))
      | _ \<Rightarrow> Inr (unknown_entitlement name None (Fmt ''unreadable record'' [])))"

subsection \<open>Credentials\<close>

text \<open>\<open>read_text\<close> raises \<open>UnicodeDecodeError\<close>, which neither \<open>OSError\<close> nor \<open>JSONDecodeError\<close> covers.\<close>

definition read_oauth_expiry_raw :: "history_file \<Rightarrow> time option result" where
  "read_oauth_expiry_raw f =
     (case f of
        Undecodable \<Rightarrow> Inl (ValueError ''UnicodeDecodeError'')
      | Holding (JObj es) \<Rightarrow>
          (case map_of es ''claudeAiOauth'' of
             Some (JObj os) \<Rightarrow>
               (case map_of os ''expiresAt'' of
                  Some (JInt i) \<Rightarrow> float_or_none (JInt i)
                | Some (JFloat x) \<Rightarrow> Inr (Some x)
                | _ \<Rightarrow> Inr None)
           | _ \<Rightarrow> Inr None)
      | _ \<Rightarrow> Inr None)"

definition oauth_expiry_to_seconds :: "time \<Rightarrow> time" where
  "oauth_expiry_to_seconds raw = (if 10 ^ 12 < raw then raw / 1000 else raw)"

subsection \<open>Health\<close>

datatype account_state = Account_Valid | Account_Expired | Account_Absent | Account_Forbidden | Account_Paused

record account_health =
  hl_name :: string
  hl_state :: account_state
  hl_hours_remaining :: "time option"
  hl_expires_at_raw :: "time option"
  hl_entitlement_detail :: msg
  hl_pause_reason :: string

definition is_healthy :: "account_health \<Rightarrow> bool" where
  "is_healthy h \<longleftrightarrow> hl_state h = Account_Valid"

text \<open>The three files of an account directory; \<open>is_file\<close> itself may raise on one that cannot be searched.\<close>

record account_dir =
  ad_is_file :: "bool result"
  ad_credentials :: history_file
  ad_pause :: history_file
  ad_entitlement :: history_file

definition hours_to :: "time \<Rightarrow> time \<Rightarrow> time" where
  "hours_to raw now = (oauth_expiry_to_seconds raw - now) / 3600"

definition read_snapshot :: "account_dir \<Rightarrow> time option result" where
  "read_snapshot d =
     bind_result (ad_is_file d) (\<lambda>there. if there then read_oauth_expiry_raw (ad_credentials d) else Inr None)"

definition account_health_of ::
    "(json \<Rightarrow> string) \<Rightarrow> string \<Rightarrow> account_dir \<Rightarrow> time \<Rightarrow> account_health result" where
  "account_health_of shown name d now =
     bind_result (read_snapshot d) (\<lambda>raw.
     bind_result (read_pause shown name (ad_pause d)) (\<lambda>p.
       if pa_active p then
         Inr \<lparr>hl_name = name, hl_state = Account_Paused, hl_hours_remaining = map_option (\<lambda>r. hours_to r now) raw,
              hl_expires_at_raw = raw, hl_entitlement_detail = empty_msg, hl_pause_reason = pa_reason p\<rparr>
       else
         (case raw of
            None \<Rightarrow>
              Inr \<lparr>hl_name = name, hl_state = Account_Absent, hl_hours_remaining = None, hl_expires_at_raw = None,
                   hl_entitlement_detail = empty_msg, hl_pause_reason = []\<rparr>
          | Some r \<Rightarrow>
              if oauth_expiry_to_seconds r \<le> now then
                Inr \<lparr>hl_name = name, hl_state = Account_Expired, hl_hours_remaining = Some (hours_to r now),
                     hl_expires_at_raw = Some r, hl_entitlement_detail = empty_msg, hl_pause_reason = []\<rparr>
              else
                bind_result (read_entitlement shown name (ad_entitlement d) now DEFAULT_MAX_AGE_S) (\<lambda>v.
                  Inr \<lparr>hl_name = name, hl_state = (if blocks_use v then Account_Forbidden else Account_Valid),
                       hl_hours_remaining = Some (hours_to r now), hl_expires_at_raw = Some r,
                       hl_entitlement_detail = (if blocks_use v then en_detail v else empty_msg), hl_pause_reason = []\<rparr>))))"

text \<open>What walking the store gives: not a directory, an \<open>OSError\<close>, or its children.\<close>

definition discover_candidates :: "(string \<times> bool) list option result \<Rightarrow> string list" where
  "discover_candidates listing =
     (case listing of
        Inr (Some children) \<Rightarrow>
          map fst (filter (\<lambda>(name, is_dir). is_dir \<and> \<not> starts_with name ''_'') (sort_key fst children))
      | _ \<Rightarrow> [])"

subsection \<open>Facts\<close>

lemma float_or_none_JFloat [simp]: "float_or_none (JFloat x) = Inr (Some x)" "float_or_none JNull = Inr None"
  by (simp_all add: float_or_none_def is_number_def float_of_def)

text \<open>A pause that was written is read back, its reason stripped; one that was cleared is gone.\<close>

lemma written_pause_reads_back:
  assumes "py_strip (pa_reason p) \<noteq> []"
  shows "read_pause shown name (snd (write_pause True p f)) =
    Inr \<lparr>pa_name = name, pa_active = True, pa_reason = py_strip (pa_reason p), pa_since = pa_since p, pa_by = pa_by p,
         pa_problem = empty_msg\<rparr>"
proof -
  let ?es = "[(''reason'', JStr (pa_reason p)), (''since'', case pa_since p of None \<Rightarrow> JNull | Some t \<Rightarrow> JFloat t),
    (''by'', JStr (pa_by p))]"
  have get: "py_str shown (get_or (JStr []) ?es ''reason'') = pa_reason p"
    "float_or_none (get_or JNull ?es ''since'') = Inr (pa_since p)"
    "py_str shown (get_or (JStr []) ?es ''by'') = pa_by p"
    by (simp_all add: get_or_def py_str_def split: option.split)
  show ?thesis
    using assms unfolding write_pause_def pause_json_def read_pause_def if_True snd_conv history_file.case json.case get Let_def
    by simp
qed

lemma cleared_pause_is_gone:
  "clear_pause ok f = (Inr b, f') \<Longrightarrow> read_pause shown name f' = Inr (no_pause name empty_msg)"
  by (simp add: clear_pause_def read_pause_def split: if_splits)

lemma read_entitlement_state:
  assumes "read_entitlement shown name f now max_age = Inr v" and "blocks_use v"
  shows "\<exists>es t. f = Holding (JObj es) \<and> map_of es ''state'' = Some (JStr ''FORBIDDEN'')
    \<and> float_or_none (get_or JNull es ''checked_at'') = Inr (Some t) \<and> now - t \<le> max_age"
proof -
  have unknown: "\<not> blocks_use (unknown_entitlement name c d)" for c d
    by (simp add: blocks_use_def unknown_entitlement_def)
  obtain es where es: "f = Holding (JObj es)" "entitlement_of_object shown name es now max_age = Inr v"
    using assms unknown unfolding read_entitlement_def
    by (cases f; (cases "case f of Holding j \<Rightarrow> j | _ \<Rightarrow> JNull")?) auto
  obtain state where state: "state_of_json (map_of es ''state'') = Some state"
    using es(2) assms(2) unknown unfolding entitlement_of_object_def
    by (cases "state_of_json (map_of es ''state'')") auto
  obtain t where t: "float_or_none (get_or JNull es ''checked_at'') = Inr (Some t)" "\<not> max_age < now - t" "en_state v = state"
    using es(2) assms(2) unknown state unfolding entitlement_of_object_def
    by (cases "float_or_none (get_or JNull es ''checked_at'')"; cases "projr (float_or_none (get_or JNull es ''checked_at''))")
      (auto split: if_splits)
  from assms(2) t(3) have "state = Forbidden_Account" by (simp add: blocks_use_def)
  with state have "map_of es ''state'' = Some (JStr ''FORBIDDEN'')"
    by (simp add: state_of_json_def split: if_splits)
  with es(1) t show ?thesis by force
qed

text \<open>When an account is healthy.\<close>

lemma healthy_iff:
  assumes "account_health_of shown name d now = Inr h"
  shows "is_healthy h \<longleftrightarrow>
    (\<exists>p r v. read_pause shown name (ad_pause d) = Inr p \<and> \<not> pa_active p
       \<and> read_snapshot d = Inr (Some r) \<and> now < oauth_expiry_to_seconds r
       \<and> read_entitlement shown name (ad_entitlement d) now DEFAULT_MAX_AGE_S = Inr v \<and> \<not> blocks_use v)"
proof -
  from assms obtain raw p where raw: "read_snapshot d = Inr raw" and p: "read_pause shown name (ad_pause d) = Inr p"
    unfolding account_health_of_def bind_result_Inr_iff by blast
  note run = assms [unfolded account_health_of_def raw p bind_result.simps]
  show ?thesis
  proof (cases "pa_active p")
    case True
    with run show ?thesis by (auto simp: is_healthy_def p)
  next
    case False
    show ?thesis
    proof (cases raw)
      case None
      with run False show ?thesis by (auto simp: is_healthy_def raw)
    next
      case (Some r)
      show ?thesis
      proof (cases "oauth_expiry_to_seconds r \<le> now")
        case True
        with run False Some show ?thesis by (auto simp: is_healthy_def raw)
      next
        case live: False
        with run False Some obtain v where v: "read_entitlement shown name (ad_entitlement d) now DEFAULT_MAX_AGE_S = Inr v"
          "hl_state h = (if blocks_use v then Account_Forbidden else Account_Valid)"
          by (auto simp: bind_result_Inr_iff)
        with live False Some show ?thesis by (simp add: is_healthy_def raw p)
      qed
    qed
  qed
qed

lemma health_name: "account_health_of shown name d now = Inr h \<Longrightarrow> hl_name h = name"
  unfolding account_health_of_def bind_result_Inr_iff
  by (elim exE conjE) (simp add: bind_result_Inr_iff split: if_splits option.splits; auto)

end
