(* ===== verification/Account_Rank.thy ===== *)
theory Account_Rank
  imports Account_Files Spec_Reads "HOL-Library.Product_Lexorder"
begin

text \<open>
  Which of several accounts to use: the quota cache (\<open>_account/quota_cache.py\<close>), the spend policy
  (\<open>_creds/_spend_policy.py\<close>), the ranking (\<open>_creds/_quota_rank.py\<close>) and its audit line
  (\<open>_creds/_pick_audit.py\<close>).

  Utilisations and resets of a ranking are functions of the account's name, \<open>None\<close> where the source's
  \<open>.get(name)\<close> gives none; its reset stamps are what \<open>coerce_epoch\<close> made of them, which is all the
  code reads of them. Three results of the standard library are arguments: \<open>stamp_of\<close>, the time stamp
  \<open>datetime.fromisoformat\<close> gives a text (none where it raises \<open>ValueError\<close>), \<open>digest\<close>, the first eight
  bytes of a SHA-256 as an integer \<open>n\<close>, and \<open>log\<close>, the float \<open>math.log((n + 0.5) / 2.0**64)\<close>, which is
  negative but for the last thousand values of \<open>n\<close>, whose fraction rounds to 1: there it is 0.
\<close>

subsection \<open>The quota cache\<close>

type_synonym entry = "(string \<times> json) list"

definition plain_number :: "json option \<Rightarrow> bool" where
  "plain_number j = (case j of Some (JInt _) \<Rightarrow> True | Some (JFloat _) \<Rightarrow> True | _ \<Rightarrow> False)"

definition cache_accounts :: "history_file \<Rightarrow> entry option result" where
  "cache_accounts f =
     (case f of
        Undecodable \<Rightarrow> Inl (ValueError ''UnicodeDecodeError'')
      | Holding (JObj es) \<Rightarrow> (case map_of es ''accounts'' of Some (JObj as) \<Rightarrow> Inr (Some as) | _ \<Rightarrow> Inr None)
      | _ \<Rightarrow> Inr None)"

definition usable_entry :: "string \<Rightarrow> json \<Rightarrow> bool" where
  "usable_entry short v =
     (case v of
        JObj e \<Rightarrow> map_of e ''short'' = Some (JStr short) \<and> plain_number (map_of e ''h5'')
          \<and> plain_number (map_of e ''d7'') \<and> plain_number (map_of e ''ttl_h'')
      | _ \<Rightarrow> False)"

definition short_of :: "string \<Rightarrow> string" where
  "short_of dirname = takeWhile (\<lambda>c. c \<noteq> CHR ''-'') dirname"

definition read_quota_entry :: "string \<Rightarrow> history_file \<Rightarrow> entry option result" where
  "read_quota_entry account f =
     (let short = short_of (py_strip account) in
      if short = [] then Inr None
      else
        bind_result (cache_accounts f) (\<lambda>accounts.
          case accounts of
            None \<Rightarrow> Inr None
          | Some as \<Rightarrow>
              (case find (usable_entry short) (map snd as) of
                 Some (JObj e) \<Rightarrow> Inr (Some e)
               | _ \<Rightarrow> Inr None)))"

datatype cache_state = Cache_Absent | Cache_Unreadable | Cache_Malformed | Cache_Empty | Cache_Populated

definition diagnose_quota_cache :: "history_file \<Rightarrow> (cache_state \<times> nat) result" where
  "diagnose_quota_cache f =
     (case f of
        Missing \<Rightarrow> Inr (Cache_Absent, 0)
      | Forbidden \<Rightarrow> Inr (Cache_Unreadable, 0)
      | Unreachable_File \<Rightarrow> Inr (Cache_Unreadable, 0)
      | Unparsable \<Rightarrow> Inr (Cache_Malformed, 0)
      | _ \<Rightarrow>
          bind_result (cache_accounts f) (\<lambda>accounts.
            case accounts of
              None \<Rightarrow> Inr (Cache_Malformed, 0)
            | Some as \<Rightarrow> Inr (if as = [] then Cache_Empty else Cache_Populated, length as)))"

definition blind_cache_remedy :: "history_file \<Rightarrow> msg result" where
  "blind_cache_remedy f =
     bind_result (diagnose_quota_cache f) (\<lambda>(state, entries).
       Inr (case state of
              Cache_Absent \<Rightarrow> Fmt ''no quota cache exists'' []
            | Cache_Unreadable \<Rightarrow> Fmt ''could not be read'' []
            | Cache_Malformed \<Rightarrow> Fmt ''not valid cache JSON'' []
            | Cache_Empty \<Rightarrow> Fmt ''holds zero account entries'' []
            | Cache_Populated \<Rightarrow> Fmt ''stale or for another account set'' [Num (int entries)]))"

subsection \<open>Numbers\<close>

text \<open>\<open>_coerce_pct\<close>: a \<open>bool\<close> is not a percentage.\<close>

definition coerce_pct :: "json option \<Rightarrow> time option result" where
  "coerce_pct j =
     (case j of
        Some (JInt i) \<Rightarrow> float_or_none (JInt i)
      | Some (JFloat x) \<Rightarrow> Inr (Some x)
      | _ \<Rightarrow> Inr None)"

text \<open>\<open>value.strip().replace("Z", "+00:00")\<close>.\<close>

definition with_offset :: "string \<Rightarrow> string" where
  "with_offset s = concat (map (\<lambda>c. if c = CHR ''Z'' then ''+00:00'' else [c]) (py_strip s))"

definition coerce_epoch :: "(string \<Rightarrow> time option) \<Rightarrow> json option \<Rightarrow> time option result" where
  "coerce_epoch stamp_of j =
     (case j of
        Some (JInt i) \<Rightarrow> float_or_none (JInt i)
      | Some (JFloat x) \<Rightarrow> Inr (Some x)
      | Some (JStr s) \<Rightarrow> Inr (if py_strip s = [] then None else stamp_of (with_offset s))
      | _ \<Rightarrow> Inr None)"

text \<open>An override of the utilisations, as tests inject it, or the cache.\<close>

record quota_source =
  qs_override_5h :: "(string \<Rightarrow> json option) option"
  qs_override_7d :: "(string \<Rightarrow> json option) option"
  qs_override_reset :: "(string \<Rightarrow> json option) option"
  qs_cache :: history_file
  qs_iso :: "string \<Rightarrow> time option"

definition account_usage_pct ::
    "quota_source \<Rightarrow> (string \<Rightarrow> json option) option \<Rightarrow> string \<Rightarrow> string \<Rightarrow> time option result" where
  "account_usage_pct q override key name =
     (case override of
        Some m \<Rightarrow> coerce_pct (m name)
      | None \<Rightarrow>
          bind_result (read_quota_entry name (qs_cache q)) (\<lambda>e.
            case e of None \<Rightarrow> Inr None | Some e \<Rightarrow> coerce_pct (map_of e key)))"

definition account_5h_usage :: "quota_source \<Rightarrow> string \<Rightarrow> time option result" where
  "account_5h_usage q name = account_usage_pct q (qs_override_5h q) ''h5'' name"

definition account_7d_usage :: "quota_source \<Rightarrow> string \<Rightarrow> time option result" where
  "account_7d_usage q name = account_usage_pct q (qs_override_7d q) ''d7'' name"

definition account_7d_reset_at :: "quota_source \<Rightarrow> string \<Rightarrow> time option result" where
  "account_7d_reset_at q name =
     (case qs_override_reset q of
        Some m \<Rightarrow> coerce_epoch (qs_iso q) (m name)
      | None \<Rightarrow>
          bind_result (read_quota_entry name (qs_cache q)) (\<lambda>e.
            case e of None \<Rightarrow> Inr None | Some e \<Rightarrow> coerce_epoch (qs_iso q) (map_of e ''reset_at_7d'')))"

subsection \<open>The spend policy\<close>

definition POLICY_SPREAD :: string where "POLICY_SPREAD = ''spread''"
definition POLICY_BURN :: string where "POLICY_BURN = ''burn''"

definition VALID_7D_POLICIES :: "string list" where
  "VALID_7D_POLICIES = [POLICY_SPREAD, POLICY_BURN]"

definition validate_7d_policy :: "string \<Rightarrow> unit result" where
  "validate_7d_policy policy =
     (if policy \<in> set VALID_7D_POLICIES then Inr () else Inl (ValueError ''invalid 7d spend policy''))"

text \<open>\<open>raw\<close> is the given text or, when there is none, that of the environment.\<close>

definition resolve_7d_policy :: "string option \<Rightarrow> string \<Rightarrow> string result" where
  "resolve_7d_policy raw env_value =
     (let value = lower (py_strip (case raw of None \<Rightarrow> env_value | Some r \<Rightarrow> r)) in
      if value = [] then Inr POLICY_SPREAD
      else if value \<notin> set VALID_7D_POLICIES then Inl (ValueError ''invalid 7d spend policy'')
      else Inr value)"

subsection \<open>The ranking\<close>

definition NEAR_CAP_7D_PCT :: time where "NEAR_CAP_7D_PCT = 90"
definition BLOCKED_5H_PCT :: time where "BLOCKED_5H_PCT = 95"
definition EXPIRING_7D_HORIZON_S :: time where "EXPIRING_7D_HORIZON_S = 2 * 3600"
definition EXPIRING_MIN_HEADROOM_PCT :: time where "EXPIRING_MIN_HEADROOM_PCT = 2"
definition EXPIRING_WEIGHT_BOOST :: time where "EXPIRING_WEIGHT_BOOST = 4"

record ranking =
  rk_5h :: "string \<Rightarrow> time option"
  rk_7d :: "string \<Rightarrow> time option"
  rk_reset :: "string \<Rightarrow> time option"
  rk_now :: time
  rk_spread_key :: string
  rk_near_cap :: time
  rk_blocked_5h :: time
  rk_horizon :: time
  rk_policy :: string
  rk_digest :: "string \<Rightarrow> string \<Rightarrow> int"
  rk_log :: "int \<Rightarrow> time"

definition is_expiring_7d :: "time option \<Rightarrow> time option \<Rightarrow> time \<Rightarrow> time \<Rightarrow> bool" where
  "is_expiring_7d d7 reset_at now horizon =
     (case (d7, reset_at) of
        (Some d, Some r) \<Rightarrow>
          (if r - now < 0 \<or> horizon < r - now then False else d \<le> 100 - EXPIRING_MIN_HEADROOM_PCT)
      | _ \<Rightarrow> False)"

definition expiring :: "ranking \<Rightarrow> string \<Rightarrow> bool" where
  "expiring k name = is_expiring_7d (rk_7d k name) (rk_reset k name) (rk_now k) (rk_horizon k)"

definition at_least :: "time \<Rightarrow> time option \<Rightarrow> bool" where
  "at_least cap v = (case v of None \<Rightarrow> False | Some x \<Rightarrow> cap \<le> x)"

definition blocked_now :: "ranking \<Rightarrow> string \<Rightarrow> bool" where
  "blocked_now k name = at_least (rk_blocked_5h k) (rk_5h k name)"

definition near_capped :: "ranking \<Rightarrow> string \<Rightarrow> bool" where
  "near_capped k name \<longleftrightarrow> at_least (rk_near_cap k) (rk_7d k name) \<and> \<not> expiring k name"

definition tier :: "ranking \<Rightarrow> string \<Rightarrow> bool \<times> bool \<times> bool" where
  "tier k name = (blocked_now k name, near_capped k name, rk_7d k name = None)"

text \<open>\<open>x if x is not None else math.inf\<close>, as a key.\<close>

definition or_inf :: "time option \<Rightarrow> bool \<times> time" where
  "or_inf v = (case v of None \<Rightarrow> (True, 0) | Some x \<Rightarrow> (False, x))"

text \<open>\<open>group = [n for n in names if tier(n) == min(tier(n) for n in names)]\<close>.\<close>

definition best_group :: "('a \<Rightarrow> 'k::linorder) \<Rightarrow> 'a list \<Rightarrow> 'a list" where
  "best_group key names = filter (\<lambda>n. key n = Min (key ` set names)) names"

definition hrw_log :: "ranking \<Rightarrow> string \<Rightarrow> time" where
  "hrw_log k name = rk_log k (rk_digest k (rk_spread_key k) name)"

definition hrw_score :: "ranking \<Rightarrow> string \<Rightarrow> time \<Rightarrow> time" where
  "hrw_score k name weight = - weight / hrw_log k name"

definition spread_weight :: "ranking \<Rightarrow> string \<Rightarrow> time" where
  "spread_weight k name =
     (let base = (case rk_7d k name of None \<Rightarrow> 1 | Some d \<Rightarrow> max 1 (100 - d))
      in if expiring k name then base * EXPIRING_WEIGHT_BOOST else base)"

definition spread_key_of :: "ranking \<Rightarrow> string \<Rightarrow> bool \<times> (bool \<times> time) \<times> (bool \<times> time)" where
  "spread_key_of k name = (\<not> expiring k name, or_inf (rk_7d k name), or_inf (rk_5h k name))"

definition burn_tier :: "ranking \<Rightarrow> string \<Rightarrow> bool \<times> bool" where
  "burn_tier k name = (blocked_now k name, rk_7d k name = None)"

definition burn_key_of :: "ranking \<Rightarrow> string \<Rightarrow> (bool \<times> time) \<times> (bool \<times> time)" where
  "burn_key_of k name = (or_inf (map_option uminus (rk_7d k name)), or_inf (rk_reset k name))"

text \<open>\<open>min(enumerate(group), key=...)\<close> takes the first of the least; so does \<^const>\<open>arg_min_list\<close>.\<close>

definition pick_burn :: "ranking \<Rightarrow> string list \<Rightarrow> string" where
  "pick_burn k names = arg_min_list (burn_key_of k) (best_group (burn_tier k) names)"

text \<open>Dividing by a logarithm that is 0 raises.\<close>

definition pick_spread :: "ranking \<Rightarrow> string list \<Rightarrow> string result" where
  "pick_spread k names =
     (let group = best_group (tier k) names in
      if length group = 1 then Inr (hd group)
      else if rk_spread_key k \<noteq> [] then
        (if list_ex (\<lambda>n. hrw_log k n = 0) group then Inl (OtherError ''ZeroDivisionError'')
         else Inr (arg_min_list (\<lambda>n. - hrw_score k n (spread_weight k n)) group))
      else Inr (arg_min_list (spread_key_of k) group))"

definition pick_ranked :: "ranking \<Rightarrow> string list \<Rightarrow> string result" where
  "pick_ranked k names =
     bind_result (validate_7d_policy (rk_policy k)) (\<lambda>_.
       if names = [] then Inl (ValueError ''min() arg is an empty sequence'')
       else if rk_policy k = POLICY_BURN then Inr (pick_burn k names)
       else pick_spread k names)"

subsection \<open>The audit line\<close>

record candidate_audit =
  ca_name :: string
  ca_5h :: "time option"
  ca_7d :: "time option"
  ca_reset_in :: "time option"
  ca_blocked_5h :: bool
  ca_near_capped_7d :: bool
  ca_expiring_7d :: bool

definition audit_one :: "ranking \<Rightarrow> string \<Rightarrow> candidate_audit" where
  "audit_one k name =
     \<lparr>ca_name = name, ca_5h = rk_5h k name, ca_7d = rk_7d k name,
      ca_reset_in = map_option (\<lambda>r. r - rk_now k) (rk_reset k name),
      ca_blocked_5h = at_least (rk_blocked_5h k) (rk_5h k name),
      ca_near_capped_7d = (at_least (rk_near_cap k) (rk_7d k name) \<and> \<not> expiring k name),
      ca_expiring_7d = expiring k name\<rparr>"

definition audit_candidates :: "ranking \<Rightarrow> string list \<Rightarrow> candidate_audit list" where
  "audit_candidates k names = map (audit_one k) names"

definition pick_audit_parts :: "candidate_audit list \<Rightarrow> msg list" where
  "pick_audit_parts records =
     map (\<lambda>r. Fmt ''audit''
       [Txt (ca_name r),
        (case ca_5h r of None \<Rightarrow> Txt ''?'' | Some x \<Rightarrow> Fmt ''pct'' [Num (half_even x)]),
        (case ca_7d r of None \<Rightarrow> Txt ''?'' | Some x \<Rightarrow> Fmt ''pct'' [Num (half_even x)]),
        (case ca_reset_in r of None \<Rightarrow> Txt ''?'' | Some s \<Rightarrow> Fmt ''hours'' [Sec (s / 3600)]),
        Txt ((if ca_blocked_5h r then '' 5h-blocked'' else [])
          @ (if ca_near_capped_7d r then '' 7d-near-cap'' else [])
          @ (if ca_expiring_7d r then '' 7d-expiring'' else []))]) records"

subsection \<open>Facts\<close>

lemma best_group_simps:
  assumes "names \<noteq> []"
  shows "best_group key names \<noteq> []" "set (best_group key names) \<subseteq> set names"
    "n \<in> set (best_group key names) \<Longrightarrow> m \<in> set names \<Longrightarrow> key n \<le> key m"
proof -
  have "Min (key ` set names) \<in> key ` set names" using assms by (intro Min_in) auto
  then obtain n where "n \<in> set names" "key n = Min (key ` set names)" by auto
  then show "best_group key names \<noteq> []" by (auto simp: best_group_def filter_empty_conv)
qed (auto simp: best_group_def)

text \<open>Leaving out what is not chosen changes neither the group's best nor the choice.\<close>

lemma best_group_filter:
  assumes "r \<in> set (best_group key names)" and "P r"
  shows "best_group key (filter P names) = filter P (best_group key names)"
proof -
  from assms have r: "r \<in> set names" "key r = Min (key ` set names)" by (auto simp: best_group_def)
  have "Min (key ` set (filter P names)) = key r"
  proof (rule Min_eqI)
    show "key r \<in> key ` set (filter P names)" using r(1) assms(2) by simp
    show "key r \<le> x" if "x \<in> key ` set (filter P names)" for x
      using that by (auto simp: r(2))
  qed simp
  with r show ?thesis by (simp add: best_group_def conj_commute)
qed

lemma arg_min_list_Cons:
  "ys \<noteq> [] \<Longrightarrow> arg_min_list key (y # ys) = (let m = arg_min_list key ys in if key y \<le> key m then y else m)"
  by (cases ys) simp_all

lemma arg_min_list_least: "x \<in> set xs \<Longrightarrow> key (arg_min_list key xs) \<le> key x"
  using f_arg_min_list_f [of xs key] by (cases "xs = []") auto

lemma arg_min_list_filter:
  "xs \<noteq> [] \<Longrightarrow> P (arg_min_list key xs) \<Longrightarrow> arg_min_list key (filter P xs) = arg_min_list key xs"
proof (induction xs)
  case (Cons x xs)
  show ?case
  proof (cases "xs = []")
    case True
    with Cons show ?thesis by simp
  next
    case False
    let ?m = "arg_min_list key xs"
    have all: "arg_min_list key (x # xs) = (if key x \<le> key ?m then x else ?m)"
      using False by (simp add: arg_min_list_Cons Let_def)
    show ?thesis
    proof (cases "key x \<le> key ?m")
      case True
      with Cons.prems all have x: "P x" "arg_min_list key (x # xs) = x" by simp_all
      show ?thesis
      proof (cases "filter P xs = []")
        case True
        with x show ?thesis by simp
      next
        case some: False
        have "arg_min_list key (filter P xs) \<in> set xs"
          using arg_min_list_in [OF some, of key] by auto
        then have "key ?m \<le> key (arg_min_list key (filter P xs))" by (rule arg_min_list_least)
        with True have "key x \<le> key (arg_min_list key (filter P xs))" by simp
        with x some show ?thesis by (simp add: arg_min_list_Cons Let_def)
      qed
    next
      case later: False
      with Cons.prems all have m: "P ?m" "arg_min_list key (x # xs) = ?m" by simp_all
      have IH: "arg_min_list key (filter P xs) = ?m" using Cons.IH False m(1) by simp
      have "filter P xs \<noteq> []" using arg_min_list_in [OF False, of key] m(1) by (auto simp: filter_empty_conv)
      with IH m later show ?thesis by (auto simp: arg_min_list_Cons Let_def)
    qed
  qed
qed simp

text \<open>What a choice is: a member of the best group, by either policy.\<close>

lemma pick_ranked_cases:
  assumes "pick_ranked k names = Inr r"
  obtains (burn) "rk_policy k = POLICY_BURN" "names \<noteq> []" "r = pick_burn k names"
    | (spread) "rk_policy k = POLICY_SPREAD" "names \<noteq> []" "pick_spread k names = Inr r"
  using assms
  by (auto simp: pick_ranked_def validate_7d_policy_def VALID_7D_POLICIES_def split: if_splits)

lemma pick_burn_in: "names \<noteq> [] \<Longrightarrow> pick_burn k names \<in> set (best_group (burn_tier k) names)"
  unfolding pick_burn_def by (intro arg_min_list_in best_group_simps)

lemma pick_spread_in:
  assumes "names \<noteq> []" and "pick_spread k names = Inr r"
  shows "r \<in> set (best_group (tier k) names)"
  using best_group_simps(1) [OF assms(1), of "tier k"] assms(2)
  by (auto simp: pick_spread_def Let_def intro: arg_min_list_in split: if_splits)

lemma pick_ranked_in: "pick_ranked k names = Inr r \<Longrightarrow> r \<in> set names"
  by (erule pick_ranked_cases) (use pick_burn_in pick_spread_in best_group_simps(2) in blast)+

text \<open>A blocked account is chosen only when every account is; under the spread policy a near-capped one
  only when every account that is not blocked is.\<close>

lemma pick_not_blocked:
  assumes "pick_ranked k names = Inr r" and "blocked_now k r" and "n \<in> set names"
  shows "blocked_now k n"
  using assms(1)
proof (cases rule: pick_ranked_cases)
  case burn
  then have "r \<in> set (best_group (burn_tier k) names)" using pick_burn_in by blast
  from best_group_simps(3) [OF burn(2) this assms(3)] assms(2) show ?thesis
    by (auto simp: burn_tier_def)
next
  case spread
  then have "r \<in> set (best_group (tier k) names)" using pick_spread_in by blast
  from best_group_simps(3) [OF spread(2) this assms(3)] assms(2) show ?thesis
    by (auto simp: tier_def)
qed

lemma pick_not_near_capped:
  assumes "pick_ranked k names = Inr r" and "rk_policy k = POLICY_SPREAD" and "near_capped k r"
    and "n \<in> set names" and "blocked_now k n \<longleftrightarrow> blocked_now k r"
  shows "near_capped k n"
proof -
  from assms(1,2) have r: "names \<noteq> []" "pick_spread k names = Inr r"
    by (auto elim!: pick_ranked_cases simp: POLICY_SPREAD_def POLICY_BURN_def)
  then have "r \<in> set (best_group (tier k) names)" using pick_spread_in by blast
  from best_group_simps(3) [OF r(1) this assms(4)] assms(3,5) show ?thesis
    by (auto simp: tier_def)
qed

lemma pick_spread_filter:
  assumes "names \<noteq> []" and "pick_spread k names = Inr r" and "P r"
  shows "pick_spread k (filter P names) = Inr r"
proof -
  let ?g = "best_group (tier k) names"
  have r: "r \<in> set ?g" by (rule pick_spread_in [OF assms(1,2)])
  have g: "best_group (tier k) (filter P names) = filter P ?g" using best_group_filter [where P = P, OF r] assms(3) by blast
  have ne: "?g \<noteq> []" and member: "r \<in> set (filter P ?g)" using r assms(3) by auto
  show ?thesis
  proof (cases "length (filter P ?g) = 1")
    case True
    then have "hd (filter P ?g) = r" using member by (cases "filter P ?g") auto
    with True g show ?thesis by (simp add: pick_spread_def Let_def)
  next
    case False
    have long: "length ?g \<noteq> 1"
    proof
      assume "length ?g = 1"
      moreover have "length (filter P ?g) \<le> length ?g" by (rule length_filter_le)
      ultimately show False using False member by (cases "filter P ?g") auto
    qed
    show ?thesis
    proof (cases "rk_spread_key k = []")
      case True
      then have "arg_min_list (spread_key_of k) ?g = r" using long assms(2) by (simp add: pick_spread_def Let_def)
      with arg_min_list_filter [OF ne, of P "spread_key_of k"] assms(3) True False g show ?thesis
        by (simp add: pick_spread_def Let_def)
    next
      case hashed: False
      let ?score = "\<lambda>n. - hrw_score k n (spread_weight k n)"
      have s: "\<not> list_ex (\<lambda>n. hrw_log k n = 0) ?g" "arg_min_list ?score ?g = r"
        using long hashed assms(2) by (simp_all add: pick_spread_def Let_def split: if_splits)
      then have "\<not> list_ex (\<lambda>n. hrw_log k n = 0) (filter P ?g)" by (auto simp: list_ex_iff)
      with arg_min_list_filter [OF ne, of P ?score] s assms(3) hashed False g show ?thesis
        by (simp add: pick_spread_def Let_def)
    qed
  qed
qed

lemma pick_burn_filter:
  assumes "names \<noteq> []" and "P (pick_burn k names)"
  shows "pick_burn k (filter P names) = pick_burn k names"
proof -
  let ?g = "best_group (burn_tier k) names"
  have r: "pick_burn k names \<in> set ?g" by (rule pick_burn_in [OF assms(1)])
  have "best_group (burn_tier k) (filter P names) = filter P ?g" using best_group_filter [where P = P, OF r] assms(2) by blast
  moreover have "?g \<noteq> []" using r by auto
  ultimately show ?thesis using arg_min_list_filter [of ?g P "burn_key_of k"] assms(2) by (simp add: pick_burn_def)
qed

lemma pick_ranked_filter:
  assumes "pick_ranked k names = Inr r" and "P r"
  shows "pick_ranked k (filter P names) = Inr r"
proof -
  have "filter P names \<noteq> []" using pick_ranked_in [OF assms(1)] assms(2) by (auto simp: filter_empty_conv)
  with assms show ?thesis
    by (cases rule: pick_ranked_cases [OF assms(1)])
      (simp_all add: pick_ranked_def validate_7d_policy_def VALID_7D_POLICIES_def pick_burn_filter pick_spread_filter
        POLICY_BURN_def POLICY_SPREAD_def)
qed

text \<open>The audit line says what the ranking used.\<close>

lemma audit_agrees:
  "r \<in> set (audit_candidates k names) \<Longrightarrow>
     tier k (ca_name r) = (ca_blocked_5h r, ca_near_capped_7d r, ca_7d r = None)"
  by (auto simp: audit_candidates_def audit_one_def tier_def blocked_now_def near_capped_def)

text \<open>Every weight is positive, and so is every score: boosting a weight raises the score.\<close>

lemma spread_weight_pos: "1 \<le> spread_weight k name"
proof -
  have "1 \<le> max 1 (100 - d)" "1 \<le> max 1 (100 - d) * EXPIRING_WEIGHT_BOOST" for d :: time
    unfolding EXPIRING_WEIGHT_BOOST_def by (simp_all add: max_def)
  then show ?thesis
    by (auto simp: spread_weight_def Let_def EXPIRING_WEIGHT_BOOST_def split: option.split)
qed

lemma hrw_score_mono: "hrw_log k name < 0 \<Longrightarrow> v < w \<Longrightarrow> hrw_score k name v < hrw_score k name w"
  unfolding hrw_score_def by (intro divide_strict_right_mono_neg) simp_all

end
