(* ===== verification/Account_Pick.thy ===== *)
theory Account_Pick
  imports Account_Rank
begin

text \<open>
  The account an agent boots on: \<open>pick_healthy_account\<close> of \<open>_creds/_pick_healthy.py\<close>, with the errors it
  raises as \<open>OtherError\<close> values named after their class; their texts are not kept.
\<close>

subsection \<open>The choice\<close>

record pick_input =
  pk_preferred :: "string option"
  pk_candidates :: "string list option"
  pk_listing :: "(string \<times> bool) list option result"
  pk_dirs :: "string \<Rightarrow> account_dir"
  pk_shown :: "json \<Rightarrow> string"
  pk_now :: time
  pk_quota :: quota_source
  pk_near_cap :: time
  pk_blocked_5h :: time
  pk_horizon :: time
  pk_spread_key :: string
  pk_policy :: string
  pk_digest :: "string \<Rightarrow> string \<Rightarrow> int"
  pk_log :: "int \<Rightarrow> time"
  pk_require_evidence :: bool

definition preferred_name :: "pick_input \<Rightarrow> string" where
  "preferred_name inp = py_strip (case pk_preferred inp of None \<Rightarrow> [] | Some p \<Rightarrow> p)"

definition candidate_list :: "pick_input \<Rightarrow> string list" where
  "candidate_list inp =
     (let found = (case pk_candidates inp of None \<Rightarrow> discover_candidates (pk_listing inp) | Some cs \<Rightarrow> cs);
          pref = preferred_name inp
      in if pref \<noteq> [] \<and> pref \<notin> set found then pref # found else found)"

definition health_in :: "pick_input \<Rightarrow> string \<Rightarrow> account_health result" where
  "health_in inp name = account_health_of (pk_shown inp) name (pk_dirs inp name) (pk_now inp)"

text \<open>\<open>datetime.fromtimestamp\<close> raises for a year outside 1 to 9999.\<close>

definition iso_utc :: "time \<Rightarrow> msg result" where
  "iso_utc t = (if -62135596800 \<le> t \<and> t < 253402300800 then Inr (Sec t) else Inl (ValueError ''year out of range''))"

definition format_state :: "account_health \<Rightarrow> msg result" where
  "format_state h =
     (case (hl_hours_remaining h, hl_expires_at_raw h) of
        (Some hours, Some raw) \<Rightarrow>
          bind_result (iso_utc (oauth_expiry_to_seconds raw)) (\<lambda>t.
            Inr (Fmt ''state'' [Txt (hl_name h), Sec hours, Sec raw, t, Txt (hl_pause_reason h)]))
      | _ \<Rightarrow> Inr (Fmt ''no numeric expiry'' [Txt (hl_name h), Txt (hl_pause_reason h)]))"

definition no_fresh_account :: "pick_input \<Rightarrow> account_health list \<Rightarrow> string result" where
  "no_fresh_account inp healths =
     bind_result (iso_utc (pk_now inp)) (\<lambda>_.
     bind_result (map_result format_state healths) (\<lambda>_.
       if list_all (\<lambda>h. hl_state h = Account_Paused) healths
       then Inl (OtherError ''NoHealthyAccountError: every stored account is PAUSED'')
       else Inl (OtherError ''NoHealthyAccountError: no healthy stored account'')))"

text \<open>\<open>{h.name: f(h.name) for h in fresh}\<close>, read with \<open>.get\<close>.\<close>

definition readings :: "(string \<Rightarrow> time option result) \<Rightarrow> string list \<Rightarrow> (string \<times> time option) list result" where
  "readings f names = map_result (\<lambda>n. bind_result (f n) (\<lambda>v. Inr (n, v))) names"

definition reading :: "(string \<times> time option) list \<Rightarrow> string \<Rightarrow> time option" where
  "reading m name = (case map_of m name of None \<Rightarrow> None | Some v \<Rightarrow> v)"

definition ranking_with ::
    "pick_input \<Rightarrow> (string \<times> time option) list \<Rightarrow> (string \<times> time option) list \<Rightarrow> (string \<times> time option) list \<Rightarrow> ranking" where
  "ranking_with inp u5 u7 r7 =
     \<lparr>rk_5h = reading u5, rk_7d = reading u7, rk_reset = reading r7, rk_now = pk_now inp,
      rk_spread_key = pk_spread_key inp, rk_near_cap = pk_near_cap inp, rk_blocked_5h = pk_blocked_5h inp,
      rk_horizon = pk_horizon inp, rk_policy = pk_policy inp, rk_digest = pk_digest inp,
      rk_log = pk_log inp\<rparr>"

definition blind :: "ranking \<Rightarrow> string \<Rightarrow> bool" where
  "blind k name \<longleftrightarrow> rk_5h k name = None \<and> rk_7d k name = None"

definition keeps_preferred :: "pick_input \<Rightarrow> account_health list \<Rightarrow> ranking \<Rightarrow> bool" where
  "keeps_preferred inp healths k =
     (let pref = preferred_name inp in
      if pref = [] then False
      else
        (case map_of (rev (map (\<lambda>h. (hl_name h, h)) healths)) pref of
           None \<Rightarrow> False
         | Some h \<Rightarrow>
             is_healthy h \<and> \<not> blocked_now k pref
             \<and> \<not> (pk_policy inp \<noteq> POLICY_BURN \<and> near_capped k pref)
             \<and> \<not> (pk_require_evidence inp \<and> blind k pref)))"

definition rank_pool :: "pick_input \<Rightarrow> ranking \<Rightarrow> string list \<Rightarrow> string list" where
  "rank_pool inp k names =
     (let sighted = filter (\<lambda>n. \<not> blind k n) names in
      if pk_require_evidence inp \<and> sighted \<noteq> [] then sighted else names)"

definition pick_fresh :: "pick_input \<Rightarrow> account_health list \<Rightarrow> ranking \<Rightarrow> string list \<Rightarrow> string result" where
  "pick_fresh inp healths k names =
     bind_result
       (if keeps_preferred inp healths k then Inr (preferred_name inp) else pick_ranked k (rank_pool inp k names))
       (\<lambda>picked.
         if pk_require_evidence inp \<and> blind k picked then
           bind_result (blind_cache_remedy (qs_cache (pk_quota inp))) (\<lambda>_. Inl (OtherError ''BlindQuotaCacheError''))
         else Inr picked)"

definition pick_among :: "pick_input \<Rightarrow> account_health list \<Rightarrow> string result" where
  "pick_among inp healths =
     (let fresh = map hl_name (filter is_healthy healths) in
      if fresh = [] then no_fresh_account inp healths
      else
        bind_result (readings (account_5h_usage (pk_quota inp)) fresh) (\<lambda>u5.
        bind_result (readings (account_7d_usage (pk_quota inp)) fresh) (\<lambda>u7.
        bind_result (readings (account_7d_reset_at (pk_quota inp)) fresh) (\<lambda>r7.
          pick_fresh inp healths (ranking_with inp u5 u7 r7) fresh))))"

definition pick_healthy_account :: "pick_input \<Rightarrow> string result" where
  "pick_healthy_account inp =
     bind_result (validate_7d_policy (pk_policy inp)) (\<lambda>_.
       if candidate_list inp = [] then Inl (OtherError ''NoHealthyAccountError: no stored accounts'')
       else bind_result (map_result (health_in inp) (candidate_list inp)) (pick_among inp))"

subsection \<open>What a choice rests on\<close>

lemma readings_get:
  assumes "readings f names = Inr m" and "n \<in> set names"
  shows "f n = Inr (reading m n)"
proof -
  have "list_all2 (\<lambda>n p. bind_result (f n) (\<lambda>v. Inr (n, v)) = Inr p) names m"
    using assms(1) by (simp add: readings_def map_result_Inr_iff)
  then have "list_all2 (\<lambda>n p. fst p = n \<and> f n = Inr (snd p)) names m"
    by (rule list_all2_mono) (auto simp: bind_result_Inr_iff)
  then show ?thesis using assms(2)
  proof (induction rule: list_all2_induct)
    case (Cons x xs p ps)
    then show ?case by (cases p) (auto simp: reading_def)
  qed simp
qed

lemma list_all2_left: "list_all2 P xs ys \<Longrightarrow> x \<in> set xs \<Longrightarrow> \<exists>y \<in> set ys. P x y"
  by (induction rule: list_all2_induct) auto

lemma list_all2_right: "list_all2 P xs ys \<Longrightarrow> y \<in> set ys \<Longrightarrow> \<exists>x \<in> set xs. P x y"
  by (induction rule: list_all2_induct) auto

lemma healths_rows:
  "map_result (health_in inp) cs = Inr healths \<Longrightarrow> list_all2 (\<lambda>c h. hl_name h = c \<and> health_in inp c = Inr h) cs healths"
  unfolding map_result_Inr_iff
  by (erule list_all2_mono) (simp add: health_in_def health_name)

lemma healths_of:
  "map_result (health_in inp) cs = Inr healths \<Longrightarrow> h \<in> set healths \<Longrightarrow>
     hl_name h \<in> set cs \<and> health_in inp (hl_name h) = Inr h"
  by (drule healths_rows, drule list_all2_right, assumption) auto

lemma healths_cover:
  "map_result (health_in inp) cs = Inr healths \<Longrightarrow> c \<in> set cs \<Longrightarrow>
     \<exists>h \<in> set healths. hl_name h = c \<and> health_in inp c = Inr h"
  by (drule healths_rows, drule list_all2_left, assumption)

text \<open>A choice is the kept preference or the ranking's among the fresh accounts, and what is behind it.\<close>

lemma pick_cases:
  assumes "pick_healthy_account inp = Inr r"
  obtains healths k where "map_result (health_in inp) (candidate_list inp) = Inr healths"
    and "\<And>n. n \<in> set (map hl_name (filter is_healthy healths)) \<Longrightarrow>
      account_5h_usage (pk_quota inp) n = Inr (rk_5h k n) \<and> account_7d_usage (pk_quota inp) n = Inr (rk_7d k n)"
    and "rk_blocked_5h k = pk_blocked_5h inp" and "rk_policy k = pk_policy inp"
    and "\<not> (pk_require_evidence inp \<and> blind k r)"
    and "keeps_preferred inp healths k \<and> r = preferred_name inp
      \<or> \<not> keeps_preferred inp healths k \<and> pick_ranked k (rank_pool inp k (map hl_name (filter is_healthy healths))) = Inr r"
proof -
  from assms obtain healths where h: "candidate_list inp \<noteq> []" "map_result (health_in inp) (candidate_list inp) = Inr healths"
    and run: "pick_among inp healths = Inr r"
    unfolding pick_healthy_account_def bind_result_Inr_iff
    by (cases "candidate_list inp = []") (auto simp: bind_result_Inr_iff)
  let ?fresh = "map hl_name (filter is_healthy healths)"
  have ne: "?fresh \<noteq> []"
  proof
    assume "?fresh = []"
    with run have "no_fresh_account inp healths = Inr r" unfolding pick_among_def Let_def by simp
    then show False unfolding no_fresh_account_def bind_result_Inr_iff by (auto split: if_splits)
  qed
  obtain u5 u7 r7 where u: "readings (account_5h_usage (pk_quota inp)) ?fresh = Inr u5"
    "readings (account_7d_usage (pk_quota inp)) ?fresh = Inr u7"
    and pick: "pick_fresh inp healths (ranking_with inp u5 u7 r7) ?fresh = Inr r"
    using run ne unfolding pick_among_def Let_def if_not_P [OF ne] bind_result_Inr_iff by blast
  let ?k = "ranking_with inp u5 u7 r7"
  have "account_5h_usage (pk_quota inp) n = Inr (rk_5h ?k n) \<and> account_7d_usage (pk_quota inp) n = Inr (rk_7d ?k n)"
    if "n \<in> set ?fresh" for n
    using readings_get [OF u(1) that] readings_get [OF u(2) that] by (simp add: ranking_with_def)
  moreover from pick obtain picked where "(if keeps_preferred inp healths ?k then Inr (preferred_name inp)
      else pick_ranked ?k (rank_pool inp ?k ?fresh)) = Inr picked" "\<not> (pk_require_evidence inp \<and> blind ?k picked)" "picked = r"
    unfolding pick_fresh_def bind_result_Inr_iff by (auto simp: bind_result_Inr_iff split: if_splits)
  then have "\<not> (pk_require_evidence inp \<and> blind ?k r)"
    "keeps_preferred inp healths ?k \<and> r = preferred_name inp
      \<or> \<not> keeps_preferred inp healths ?k \<and> pick_ranked ?k (rank_pool inp ?k ?fresh) = Inr r"
    by (auto split: if_splits)
  ultimately show ?thesis
    by (intro that [OF h(2), of ?k]) (simp_all add: ranking_with_def)
qed

lemma rank_pool_subset: "set (rank_pool inp k names) \<subseteq> set names"
  by (auto simp: rank_pool_def Let_def)

lemma kept_preferred:
  assumes "keeps_preferred inp healths k"
  shows "preferred_name inp \<in> set (map hl_name (filter is_healthy healths)) \<and> \<not> blocked_now k (preferred_name inp)"
proof -
  from assms obtain h where h: "map_of (rev (map (\<lambda>h. (hl_name h, h)) healths)) (preferred_name inp) = Some h"
    "is_healthy h" "\<not> blocked_now k (preferred_name inp)"
    by (auto simp: keeps_preferred_def Let_def split: if_splits option.splits)
  from map_of_SomeD [OF h(1)] have "h \<in> set healths" "hl_name h = preferred_name inp" by auto
  with h show ?thesis by force
qed

lemma picked_is_fresh:
  assumes "pick_healthy_account inp = Inr r"
  shows "r \<in> set (candidate_list inp) \<and> (\<exists>h. health_in inp r = Inr h \<and> is_healthy h)"
  using assms
proof (cases rule: pick_cases)
  case (1 healths k)
  have "r \<in> set (map hl_name (filter is_healthy healths))"
    using 1(6) kept_preferred pick_ranked_in rank_pool_subset by blast
  then obtain h where h: "h \<in> set healths" "is_healthy h" "hl_name h = r" by auto
  with healths_of [OF 1(1) h(1)] show ?thesis by auto
qed

end
