(* ===== verification/Account_Claims.thy ===== *)
theory Account_Claims
  imports Account_Pick
begin

text \<open>
  The properties of the choice of an account, and a store of three accounts to apply them to.
\<close>

subsection \<open>A store\<close>

definition good_credentials :: history_file where
  "good_credentials = Holding (JObj [(''claudeAiOauth'', JObj [(''expiresAt'', JInt 2000000000000)])])"

definition account_with :: "history_file \<Rightarrow> account_dir" where
  "account_with credentials =
     \<lparr>ad_is_file = Inr True, ad_credentials = credentials, ad_pause = Missing, ad_entitlement = Missing\<rparr>"

definition pct :: "(string \<times> int) list \<Rightarrow> string \<Rightarrow> json option" where
  "pct m name = map_option JInt (map_of m name)"

definition store_with :: "history_file \<Rightarrow> (string \<times> int) list \<Rightarrow> (string \<times> int) list \<Rightarrow> pick_input" where
  "store_with gamma h5 d7 =
     \<lparr>pk_preferred = None, pk_candidates = Some [''alpha'', ''beta'', ''gamma''], pk_listing = Inr None,
      pk_dirs = (\<lambda>name. account_with (if name = ''gamma'' then gamma else good_credentials)),
      pk_shown = (\<lambda>_. ''...''), pk_now = 1700000000,
      pk_quota = \<lparr>qs_override_5h = Some (pct h5), qs_override_7d = Some (pct d7), qs_override_reset = Some (\<lambda>_. None),
        qs_cache = Missing, qs_iso = (\<lambda>_. None)\<rparr>,
      pk_near_cap = NEAR_CAP_7D_PCT, pk_blocked_5h = BLOCKED_5H_PCT, pk_horizon = EXPIRING_7D_HORIZON_S,
      pk_spread_key = [], pk_policy = POLICY_SPREAD, pk_digest = (\<lambda>_ _. 0), pk_log = (\<lambda>_. -44), pk_require_evidence = True\<rparr>"

definition busy_store :: pick_input where
  "busy_store = store_with Missing [(''alpha'', 97), (''beta'', 99)] [(''alpha'', 40), (''beta'', 20)]"

definition torn_store :: pick_input where
  "torn_store = store_with Undecodable [(''alpha'', 10)] [(''alpha'', 40)]"

lemma busy_pick: "pick_healthy_account busy_store = Inr ''beta''"
  by code_simp

subsection \<open>Properties\<close>

text \<open>C22:
  An account that is picked is one of the candidates, is not paused, has credentials that have not
  expired, is not known to be forbidden, and, when evidence is required, has a known utilisation.
\<close>

theorem picked_account_is_usable:
  assumes "pick_healthy_account inp = Inr r"
  shows "r \<in> set (candidate_list inp) \<and>
    (\<exists>p e v. read_pause (pk_shown inp) r (ad_pause (pk_dirs inp r)) = Inr p \<and> \<not> pa_active p
       \<and> read_snapshot (pk_dirs inp r) = Inr (Some e) \<and> pk_now inp < oauth_expiry_to_seconds e
       \<and> read_entitlement (pk_shown inp) r (ad_entitlement (pk_dirs inp r)) (pk_now inp) DEFAULT_MAX_AGE_S = Inr v
       \<and> \<not> blocks_use v) \<and>
    (pk_require_evidence inp \<longrightarrow>
       (\<exists>a b. account_5h_usage (pk_quota inp) r = Inr a \<and> account_7d_usage (pk_quota inp) r = Inr b
          \<and> (a \<noteq> None \<or> b \<noteq> None)))"
proof -
  from picked_is_fresh [OF assms] obtain h where h: "r \<in> set (candidate_list inp)" "health_in inp r = Inr h" "is_healthy h"
    by blast
  have usable: "\<exists>p e v. read_pause (pk_shown inp) r (ad_pause (pk_dirs inp r)) = Inr p \<and> \<not> pa_active p
       \<and> read_snapshot (pk_dirs inp r) = Inr (Some e) \<and> pk_now inp < oauth_expiry_to_seconds e
       \<and> read_entitlement (pk_shown inp) r (ad_entitlement (pk_dirs inp r)) (pk_now inp) DEFAULT_MAX_AGE_S = Inr v
       \<and> \<not> blocks_use v"
    using healthy_iff [OF h(2) [unfolded health_in_def]] h(3) by blast
  from assms have "pk_require_evidence inp \<longrightarrow> (\<exists>a b. account_5h_usage (pk_quota inp) r = Inr a
      \<and> account_7d_usage (pk_quota inp) r = Inr b \<and> (a \<noteq> None \<or> b \<noteq> None))"
  proof (cases rule: pick_cases)
    case (1 healths k)
    have "r \<in> set (map hl_name (filter is_healthy healths))"
      using 1(6) kept_preferred pick_ranked_in rank_pool_subset by blast
    with 1(2,5) show ?thesis by (auto simp: blind_def)
  qed
  with h(1) usable show ?thesis by blast
qed

text \<open>C23:
  An account whose five-hour window is exhausted is picked only when that of every other healthy
  account is (of those with a known utilisation, when evidence is required).
\<close>

theorem blocked_pick_means_all_blocked:
  assumes "pick_healthy_account inp = Inr r" and "account_5h_usage (pk_quota inp) r = Inr (Some x)" and "pk_blocked_5h inp \<le> x"
    and "n \<in> set (candidate_list inp)" and "health_in inp n = Inr h" and "is_healthy h"
    and "account_5h_usage (pk_quota inp) n = Inr y" and "account_7d_usage (pk_quota inp) n = Inr z"
    and "pk_require_evidence inp \<Longrightarrow> y \<noteq> None \<or> z \<noteq> None"
  shows "\<exists>v. y = Some v \<and> pk_blocked_5h inp \<le> v"
  using assms(1)
proof (cases rule: pick_cases)
  case (1 healths k)
  let ?fresh = "map hl_name (filter is_healthy healths)"
  have r: "r \<in> set ?fresh" using 1(6) kept_preferred pick_ranked_in rank_pool_subset by blast
  from healths_cover [OF 1(1) assms(4)] assms(5,6) have n: "n \<in> set ?fresh" by force
  have "rk_5h k r = Some x" using 1(2) [OF r] assms(2) by simp
  then have "blocked_now k r" using 1(3) assms(3) by (simp add: blocked_now_def at_least_def)
  with 1(6) kept_preferred have pick: "pick_ranked k (rank_pool inp k ?fresh) = Inr r" by blast
  have known: "rk_5h k n = y" "rk_7d k n = z" using 1(2) [OF n] assms(7,8) by simp_all
  with n assms(9) have "n \<in> set (rank_pool inp k ?fresh)"
    by (auto simp: rank_pool_def Let_def blind_def)
  from pick_not_blocked [OF pick \<open>blocked_now k r\<close> this] known 1(3) show ?thesis
    by (auto simp: blocked_now_def at_least_def split: option.splits)
qed

text \<open>The ranking never moves because an account it did not choose goes away: dropping any of the
  others, under either policy and with or without a spread key, leaves the choice as it is.
\<close>

theorem choice_survives_losing_others:
  assumes "pick_ranked k names = Inr r" and "keep r"
  shows "pick_ranked k (filter keep names) = Inr r"
  using assms by (rule pick_ranked_filter)

text \<open>A pause that was written is read back with its reason stripped, and an account so paused is not
  picked, whatever its credentials and its quota.
\<close>

theorem written_pause_takes_out:
  assumes "py_strip (pa_reason p) \<noteq> []"
  shows "read_pause shown name (snd (write_pause True p f)) =
      Inr \<lparr>pa_name = name, pa_active = True, pa_reason = py_strip (pa_reason p), pa_since = pa_since p,
           pa_by = pa_by p, pa_problem = empty_msg\<rparr>
    \<and> pick_healthy_account
        (inp\<lparr>pk_dirs := (pk_dirs inp)(name := (pk_dirs inp name)\<lparr>ad_pause := snd (write_pause True p f)\<rparr>)\<rparr>) \<noteq> Inr name"
proof -
  note reads = written_pause_reads_back [OF assms]
  let ?inp = "inp\<lparr>pk_dirs := (pk_dirs inp)(name := (pk_dirs inp name)\<lparr>ad_pause := snd (write_pause True p f)\<rparr>)\<rparr>"
  have "pick_healthy_account ?inp \<noteq> Inr name"
  proof
    assume "pick_healthy_account ?inp = Inr name"
    from picked_is_fresh [OF this] obtain h where "health_in ?inp name = Inr h" "is_healthy h" by blast
    from healthy_iff [OF this(1) [unfolded health_in_def]] this(2) reads show False by auto
  qed
  with reads show ?thesis by blast
qed

text \<open>One account whose stored credentials are not UTF-8 stops every pick, however many of the other
  accounts are healthy.
\<close>

theorem torn_credentials_stop_every_pick:
  assumes "c \<in> set (candidate_list inp)" and "ad_is_file (pk_dirs inp c) = Inr True"
    and "ad_credentials (pk_dirs inp c) = Undecodable"
  shows "\<exists>err. pick_healthy_account inp = Inl err"
proof (cases "pick_healthy_account inp")
  case (Inr r)
  then show ?thesis
  proof (cases rule: pick_cases)
    case (1 healths k)
    from healths_cover [OF 1(1) assms(1)] obtain h where "health_in inp c = Inr h" by blast
    with assms(2,3) show ?thesis
      by (simp add: health_in_def account_health_of_def read_snapshot_def read_oauth_expiry_raw_def)
  qed
qed blast

subsection \<open>Two readings the documents do not expect\<close>

text \<open>A pause record whose reason is \<open>null\<close> is a pause, for the reason \<open>None\<close>.\<close>

theorem null_reason_pauses:
  "\<exists>p. read_pause shown name (Holding (JObj [(''reason'', JNull)])) = Inr p \<and> pa_active p \<and> pa_reason p = ''None''"
proof -
  have "py_strip ''None'' = ''None''" by code_simp
  then show ?thesis by (simp add: read_pause_def get_or_def py_str_def Let_def)
qed

text \<open>Two accounts with the same first segment read the same entry, the first of the cache.\<close>

definition shared_cache :: history_file where
  "shared_cache = Holding (JObj [(''accounts'', JObj
     [(''alpha-one-org'', JObj [(''short'', JStr ''alpha''), (''h5'', JInt 1), (''d7'', JInt 5), (''ttl_h'', JInt 3)]),
      (''alpha-two-org'', JObj [(''short'', JStr ''alpha''), (''h5'', JInt 99), (''d7'', JInt 100), (''ttl_h'', JInt 3)])])])"

theorem same_segment_shares_quota:
  "read_quota_entry ''alpha-two-org'' shared_cache = read_quota_entry ''alpha-one-org'' shared_cache"
  "read_quota_entry ''alpha-two-org'' shared_cache =
     Inr (Some [(''short'', JStr ''alpha''), (''h5'', JInt 1), (''d7'', JInt 5), (''ttl_h'', JInt 3)])"
  by code_simp+

subsection \<open>Witnesses\<close>

theorem picked_account_is_usable_witness:
  "''beta'' \<in> set (candidate_list busy_store) \<and>
    (\<exists>a b. account_5h_usage (pk_quota busy_store) ''beta'' = Inr a \<and> account_7d_usage (pk_quota busy_store) ''beta'' = Inr b)"
proof -
  have "pk_require_evidence busy_store" by (simp add: busy_store_def store_with_def)
  with picked_account_is_usable [OF busy_pick] show ?thesis by blast
qed

lemma busy_facts:
  "account_5h_usage (pk_quota busy_store) ''beta'' = Inr (Some 99)"
  "account_5h_usage (pk_quota busy_store) ''alpha'' = Inr (Some 97)"
  "account_7d_usage (pk_quota busy_store) ''alpha'' = Inr (Some 40)"
  "pk_blocked_5h busy_store = 95" "candidate_list busy_store = [''alpha'', ''beta'', ''gamma'']"
  by code_simp+

lemma busy_alpha: "\<exists>h. health_in busy_store ''alpha'' = Inr h \<and> is_healthy h"
proof -
  have "(case health_in busy_store ''alpha'' of Inl _ \<Rightarrow> False | Inr h \<Rightarrow> is_healthy h)" by code_simp
  then show ?thesis by (auto split: sum.splits)
qed

theorem blocked_pick_means_all_blocked_witness:
  "\<exists>v. account_5h_usage (pk_quota busy_store) ''alpha'' = Inr (Some v) \<and> 95 \<le> v"
proof -
  obtain h where h: "health_in busy_store ''alpha'' = Inr h" "is_healthy h" using busy_alpha by blast
  have "pk_blocked_5h busy_store \<le> 99" "''alpha'' \<in> set (candidate_list busy_store)" by (simp_all add: busy_facts)
  from blocked_pick_means_all_blocked [OF busy_pick busy_facts(1) this h busy_facts(2,3)] show ?thesis
    by (simp add: busy_facts)
qed

definition plain_ranking :: "(string \<times> time) list \<Rightarrow> ranking" where
  "plain_ranking d7 =
     \<lparr>rk_5h = (\<lambda>_. None), rk_7d = map_of d7, rk_reset = (\<lambda>_. None), rk_now = 0, rk_spread_key = [],
      rk_near_cap = NEAR_CAP_7D_PCT, rk_blocked_5h = BLOCKED_5H_PCT, rk_horizon = EXPIRING_7D_HORIZON_S,
      rk_policy = POLICY_SPREAD, rk_digest = (\<lambda>_ _. 0), rk_log = (\<lambda>_. -44)\<rparr>"

definition three_ranked :: ranking where
  "three_ranked = plain_ranking [(''a'', 95), (''b'', 30), (''c'', 20)]"

lemma three_pick: "pick_ranked three_ranked [''a'', ''b'', ''c''] = Inr ''c''"
  by code_simp

theorem choice_survives_losing_others_witness:
  "pick_ranked three_ranked [''a'', ''c''] = Inr ''c''"
  using choice_survives_losing_others [OF three_pick, of "\<lambda>n. n \<noteq> ''b''"] by simp

definition demo_pause :: pause where
  "demo_pause = \<lparr>pa_name = ''beta'', pa_active = True, pa_reason = '' billing '', pa_since = Some 5, pa_by = ''op'', pa_problem = empty_msg\<rparr>"

theorem written_pause_takes_out_witness:
  "pick_healthy_account (busy_store\<lparr>pk_dirs := (pk_dirs busy_store)
     (''beta'' := (pk_dirs busy_store ''beta'')\<lparr>ad_pause := snd (write_pause True demo_pause Missing)\<rparr>)\<rparr>) \<noteq> Inr ''beta''"
proof -
  have "py_strip (pa_reason demo_pause) = ''billing''" by code_simp
  then have "py_strip (pa_reason demo_pause) \<noteq> []" by simp
  from written_pause_takes_out [OF this] show ?thesis by blast
qed

theorem torn_credentials_stop_every_pick_witness:
  "\<exists>err. pick_healthy_account torn_store = Inl err"
proof (rule torn_credentials_stop_every_pick)
  show "''gamma'' \<in> set (candidate_list torn_store)"
    by (simp add: torn_store_def store_with_def candidate_list_def preferred_name_def Let_def)
qed (simp_all add: torn_store_def store_with_def account_with_def)

end
