(* ===== verification/Commands.thy ===== *)
theory Commands
  imports Prelude
begin

text \<open>
  What \<open>subprocess.run\<close> of a command gave: it could not be run (the exception is caught), or an exit
  code and an output.
\<close>

datatype ran = Not_Run string | Ran int string

end
