(* ===== verification/Agent_State.thy ===== *)
theory Agent_State
  imports Auth_Heal Delivery Commands
begin

text \<open>
  The state of an agent as nine three-valued signals, how they are observed, and the verdict they
  fold to: \<open>_agentstate/_spec.py\<close>, \<open>_state.py\<close>, \<open>_assess.py\<close>, \<open>_observe.py\<close>, \<open>_adapt.py\<close>, and the truncation of
  \<open>_journal.py\<close>. What a command printed is an argument (\<open>ran\<close>), and so are the captures of a pane.
\<close>

subsection \<open>The signals\<close>

datatype vital =
    Tmux_Live | Process_Alive | Login_Required | At_Idle_Prompt | Session_Advancing | Auth_Probe_Ok
  | Inbox_Reachable | Heartbeat_Fresh | Registry_Active

definition vital_name :: "vital \<Rightarrow> string" where
  "vital_name s =
     (case s of
        Tmux_Live \<Rightarrow> ''is_tmux_live'' | Process_Alive \<Rightarrow> ''is_process_alive'' | Login_Required \<Rightarrow> ''is_login_required''
      | At_Idle_Prompt \<Rightarrow> ''is_at_idle_prompt'' | Session_Advancing \<Rightarrow> ''is_session_advancing''
      | Auth_Probe_Ok \<Rightarrow> ''is_auth_probe_ok'' | Inbox_Reachable \<Rightarrow> ''is_inbox_reachable''
      | Heartbeat_Fresh \<Rightarrow> ''is_heartbeat_fresh'' | Registry_Active \<Rightarrow> ''is_registry_active'')"

record vital_spec =
  vs_signal :: vital
  vs_healthy :: bool
  vs_load_bearing :: bool
  vs_decisive :: bool
  vs_observation :: observation
  vs_evidence :: "string list"

definition vital_row :: "vital \<Rightarrow> bool \<Rightarrow> bool \<Rightarrow> bool \<Rightarrow> observation \<Rightarrow> string list \<Rightarrow> vital_spec" where
  "vital_row s healthy load_bearing decisive obs evidence =
     \<lparr>vs_signal = s, vs_healthy = healthy, vs_load_bearing = load_bearing, vs_decisive = decisive,
      vs_observation = obs, vs_evidence = evidence\<rparr>"

definition SIGNALS :: "vital_spec list" where
  "SIGNALS =
     [vital_row Tmux_Live True True False Direct [''tmux_sessions''],
      vital_row Process_Alive True True True Direct [''ps_line'', ''pane_pid''],
      vital_row Login_Required False True False Direct [''pane_run1'', ''pane_run2''],
      vital_row At_Idle_Prompt True False False Direct [''pane_run1'', ''pane_run2''],
      vital_row Session_Advancing True False False Direct [''session_path'', ''session_bytes''],
      vital_row Auth_Probe_Ok True False False Inferred [''auth_cache''],
      vital_row Inbox_Reachable True False False Inferred [''inbox_probe''],
      vital_row Heartbeat_Fresh True False False Inferred [''heartbeat''],
      vital_row Registry_Active True False False Inferred [''registry_row'']]"

fun validate_specs_from :: "string list \<Rightarrow> vital_spec list \<Rightarrow> unit result" where
  "validate_specs_from seen [] = Inr ()"
| "validate_specs_from seen (sp # sps) =
     (if vital_name (vs_signal sp) \<in> set seen then Inl (ValueError ''duplicate signal'')
      else if vs_decisive sp \<and> \<not> vs_load_bearing sp then Inl (ValueError ''decisive but not load-bearing'')
      else if vs_decisive sp \<and> vs_observation sp \<noteq> Direct then Inl (ValueError ''decisive requires direct observation'')
      else validate_specs_from (vital_name (vs_signal sp) # seen) sps)"

definition validate_specs :: "vital_spec list \<Rightarrow> unit result" where
  "validate_specs sps = validate_specs_from [] sps"

definition vitals_load_bearing :: "vital_spec list" where
  "vitals_load_bearing = filter vs_load_bearing SIGNALS"

definition vital_spec_for :: "string \<Rightarrow> vital_spec result" where
  "vital_spec_for name =
     (case find (\<lambda>sp. vital_name (vs_signal sp) = name) SIGNALS of
        Some sp \<Rightarrow> Inr sp
      | None \<Rightarrow> Inl (OtherError ''KeyError: unknown signal''))"

subsection \<open>The state\<close>

text \<open>The nine fields are a function of the signal.\<close>

record agent_state =
  st_agent :: string
  st_signal :: "vital \<Rightarrow> tri"
  st_reasons :: "vital \<Rightarrow> msg option"
  st_raw :: "string \<Rightarrow> evidence option"
  st_observed_at :: "time option"
  st_observer :: string

definition new_state :: "string \<Rightarrow> time option \<Rightarrow> string \<Rightarrow> agent_state" where
  "new_state agent observed_at observer =
     \<lparr>st_agent = agent, st_signal = (\<lambda>_. Unknown), st_reasons = (\<lambda>_. None), st_raw = (\<lambda>_. None),
      st_observed_at = observed_at, st_observer = observer\<rparr>"

definition all_unknown :: "string \<Rightarrow> msg \<Rightarrow> time option \<Rightarrow> string \<Rightarrow> agent_state" where
  "all_unknown agent reason observed_at observer =
     (new_state agent observed_at observer)\<lparr>st_reasons := (\<lambda>_. Some reason)\<rparr>"

definition with_vital :: "vital \<Rightarrow> tri \<Rightarrow> msg \<Rightarrow> (string \<times> evidence) list \<Rightarrow> agent_state \<Rightarrow> agent_state" where
  "with_vital s v reason raw st =
     st\<lparr>st_signal := (st_signal st)(s := v),
        st_reasons := (if truthy reason then (st_reasons st)(s := Some reason) else st_reasons st),
        st_raw := st_raw st ++ map_of (rev raw)\<rparr>"

definition vital_reason :: "agent_state \<Rightarrow> vital \<Rightarrow> msg" where
  "vital_reason st s = (case st_reasons st s of None \<Rightarrow> empty_msg | Some m \<Rightarrow> m)"

subsection \<open>The verdict\<close>

record vital_assessment =
  va_agent :: string
  va_verdict :: tri
  va_deciding :: "vital list"
  va_unresolved :: "vital list"
  va_decided_by :: "vital option"
  va_reason :: msg

definition vital_refutes :: "agent_state \<Rightarrow> vital_spec \<Rightarrow> bool" where
  "vital_refutes st sp =
     (case st_signal st (vs_signal sp) of None \<Rightarrow> False | Some v \<Rightarrow> v \<noteq> vs_healthy sp)"

definition vital_reason_or :: "agent_state \<Rightarrow> string \<Rightarrow> vital \<Rightarrow> msg" where
  "vital_reason_or st fallback s =
     Fmt ''signal: reason''
       [Txt (vital_name s), if truthy (vital_reason st s) then vital_reason st s else Txt fallback]"

definition assess_agent :: "agent_state \<Rightarrow> vital_assessment" where
  "assess_agent st =
     (let unresolved = map vs_signal (filter (\<lambda>sp. st_signal st (vs_signal sp) = None) vitals_load_bearing);
          refuting = map vs_signal (filter (vital_refutes st) vitals_load_bearing)
      in case find (\<lambda>sp. vs_decisive sp \<and> vital_refutes st sp) vitals_load_bearing of
           Some sp \<Rightarrow>
             \<lparr>va_agent = st_agent st, va_verdict = No, va_deciding = [vs_signal sp], va_unresolved = unresolved,
              va_decided_by = Some (vs_signal sp),
              va_reason = Fmt ''decisive''
                ([Txt (vital_name (vs_signal sp)), vital_reason st (vs_signal sp)] @ map (\<lambda>s. Txt (vital_name s)) unresolved)\<rparr>
         | None \<Rightarrow>
             if unresolved \<noteq> [] then
               \<lparr>va_agent = st_agent st, va_verdict = Unknown, va_deciding = unresolved, va_unresolved = unresolved,
                va_decided_by = None,
                va_reason = Fmt ''could not determine'' (map (vital_reason_or st ''no reason recorded'') unresolved)\<rparr>
             else if refuting \<noteq> [] then
               \<lparr>va_agent = st_agent st, va_verdict = No, va_deciding = refuting, va_unresolved = [], va_decided_by = None,
                va_reason = Fmt ''refuted'' (map (vital_reason_or st ''observed at its unhealthy value'') refuting)\<rparr>
             else
               \<lparr>va_agent = st_agent st, va_verdict = Yes, va_deciding = map vs_signal vitals_load_bearing,
                va_unresolved = [], va_decided_by = None,
                va_reason = Fmt ''observed and healthy'' (map (\<lambda>sp. Txt (vital_name (vs_signal sp))) vitals_load_bearing)\<rparr>)"

definition vital_exit_code :: "vital_assessment \<Rightarrow> int" where
  "vital_exit_code a = (if va_verdict a = Yes then 0 else if va_verdict a = No then 1 else 2)"

subsection \<open>Observing\<close>

definition list_tui_sessions :: "bool \<Rightarrow> ran \<Rightarrow> string list option" where
  "list_tui_sessions in_container out =
     (if in_container then None
      else case out of
        Not_Run _ \<Rightarrow> None
      | Ran rc stdout \<Rightarrow> if rc \<noteq> 0 then None else Some (sort (words_from [] stdout)))"

definition tui_pane_pid :: "ran \<Rightarrow> int option" where
  "tui_pane_pid out =
     (case out of
        Not_Run _ \<Rightarrow> None
      | Ran rc stdout \<Rightarrow>
          if rc \<noteq> 0 then None
          else if is_digits (strip stdout) then Some (int_of_digits (strip stdout)) else None)"

definition ps_line_for :: "int \<Rightarrow> ran \<Rightarrow> string option \<times> msg" where
  "ps_line_for pid out =
     (case out of
        Not_Run why \<Rightarrow> (None, Fmt ''could not run ps'' [Num pid, Txt why])
      | Ran rc stdout \<Rightarrow>
          if strip stdout \<noteq> [] then (Some (strip stdout), Fmt ''ps matched pid'' [Num pid])
          else if rc = 0 \<or> rc = 1 then (Some [], Fmt ''ps matched no process'' [Num pid])
          else (None, Fmt ''ps exited'' [Num rc, Num pid]))"

record agent_view =
  av_listed :: "string list option"
  av_in_container :: bool
  av_pid :: "string \<Rightarrow> ran"
  av_ps :: "int \<Rightarrow> ran"
  av_pane1 :: "string \<Rightarrow> utext option"
  av_pane2 :: "string \<Rightarrow> utext option"
  av_now :: time
  av_observer :: string

definition process_signal :: "agent_view \<Rightarrow> string \<Rightarrow> agent_state \<Rightarrow> agent_state" where
  "process_signal v session st =
     (if av_in_container v then with_vital Process_Alive Unknown (Fmt ''inside a container'' []) [] st
      else case tui_pane_pid (av_pid v session) of
        None \<Rightarrow>
          with_vital Process_Alive Unknown (Fmt ''no pane pid'' [Txt session]) [(''pane_pid'', Ev_Msg empty_msg)] st
      | Some pid \<Rightarrow>
          (let (line, detail) = ps_line_for pid (av_ps v pid) in
           case line of
             None \<Rightarrow>
               with_vital Process_Alive Unknown detail
                 [(''pane_pid'', Ev_Msg (Num pid)), (''ps_line'', Ev_Msg empty_msg)] st
           | Some l \<Rightarrow>
               if l = [] then
                 with_vital Process_Alive No (Fmt ''direct observation of absence'' [detail])
                   [(''pane_pid'', Ev_Msg (Num pid)), (''ps_line'', Ev_Msg empty_msg)] st
               else
                 with_vital Process_Alive Yes detail
                   [(''pane_pid'', Ev_Msg (Num pid)), (''ps_line'', Ev_Msg (Txt l))] st))"

definition pane_evidence :: "utext option \<Rightarrow> evidence" where
  "pane_evidence p = Ev_Pane (case p of None \<Rightarrow> [] | Some t \<Rightarrow> t)"

definition pane_signals :: "(int \<Rightarrow> bool) \<Rightarrow> agent_state \<Rightarrow> utext option \<Rightarrow> utext option \<Rightarrow> agent_state" where
  "pane_signals word st pane1 pane2 =
     (let st0 = with_vital Login_Required Unknown empty_msg
            [(''pane_run1'', pane_evidence pane1), (''pane_run2'', pane_evidence pane2)] st
      in case pane2 of
           None \<Rightarrow>
             with_vital At_Idle_Prompt Unknown (Txt ''the pane could not be captured'') []
               (with_vital Login_Required Unknown (Fmt ''the pane could not be captured'' []) [] st0)
         | Some _ \<Rightarrow>
             (let (probe1, _) = evaluate_pane word pane1 None;
                  (probe2, stuck) = evaluate_pane word pane2 (Some (probe_to_state probe1));
                  st1 = with_vital At_Idle_Prompt (Some (ap_prompt_found probe2))
                    (Fmt (if ap_prompt_found probe2 then ''prompt located'' else ''no prompt line'') []) [] st0
              in if pane1 = None then with_vital Login_Required Unknown (Fmt ''only one capture'' []) [] st1
                 else if stuck then with_vital Login_Required Yes (Fmt ''corroborated wedge'' []) [] st1
                 else with_vital Login_Required No
                   (Fmt (if ap_present probe2 then ''the banner moved'' else ''no banner'') []) [] st1))"

definition observe_agent :: "(int \<Rightarrow> bool) \<Rightarrow> agent_view \<Rightarrow> string \<Rightarrow> agent_state result" where
  "observe_agent word v name =
     bind_result (candidate_session_names name) (\<lambda>(bare, legacy).
       let st = new_state name (Some (av_now v)) (av_observer v);
           live = (case av_listed v of
                     None \<Rightarrow> None
                   | Some l \<Rightarrow> if bare \<in> set l then Some bare else if legacy \<in> set l then Some legacy else None);
           st1 = (case av_listed v of
                    None \<Rightarrow> with_vital Tmux_Live Unknown (Fmt ''the session list could not be read'' [])
                              [(''tmux_sessions'', Ev_Msg empty_msg)] st
                  | Some l \<Rightarrow>
                      with_vital Tmux_Live (Some (live \<noteq> None))
                        (case live of None \<Rightarrow> Fmt ''no session'' [Txt bare, Txt legacy, Num (int (length l))]
                                    | Some s \<Rightarrow> Fmt ''the tmux server lists'' [Txt s])
                        [(''tmux_sessions'', Ev_Msg (Fmt ''lines'' (map Txt l)))] st)
       in bind_result (case live of Some s \<Rightarrow> Inr s | None \<Rightarrow> resolve_live_session name (av_listed v)) (\<lambda>session.
            let st2 = process_signal v session st1 in
            Inr (if st_signal st2 Tmux_Live = No then pane_signals word st2 None None
                 else pane_signals word st2 (av_pane1 v session) (av_pane2 v session))))"

text \<open>The session list is read once for a fleet; each agent then has a view of its own.\<close>

definition observe_fleet ::
    "(int \<Rightarrow> bool) \<Rightarrow> string list option \<Rightarrow> (string \<Rightarrow> agent_view) \<Rightarrow> string list \<Rightarrow> agent_state list result" where
  "observe_fleet word listed views names =
     map_result (\<lambda>name. observe_agent word ((views name)\<lparr>av_listed := listed\<rparr>) name) names"

subsection \<open>From a detection\<close>

definition detected_state :: "captures \<Rightarrow> time option \<Rightarrow> string \<Rightarrow> tri \<Rightarrow> msg \<Rightarrow> string \<Rightarrow> agent_state" where
  "detected_state captures now observer v reason name =
     (let panes = (case map_of captures name of None \<Rightarrow> (None, None) | Some p \<Rightarrow> p) in
      with_vital Login_Required v reason
        [(''pane_run1'', pane_evidence (fst panes)), (''pane_run2'', pane_evidence (snd panes))]
        (new_state name now observer))"

definition states_from_detection ::
    "detection_outcome \<Rightarrow> string list \<Rightarrow> captures \<Rightarrow> string \<Rightarrow> time option \<Rightarrow> agent_state list" where
  "states_from_detection d roster captures observer now =
     (let seen = dt_auth_failed d @ dt_ok d @ dt_unknown d in
      sort_key st_agent
        (map (detected_state captures now observer Yes (Fmt ''corroborated wedge'' [])) (dt_auth_failed d)
         @ map (detected_state captures now observer No (Fmt ''no frozen banner'' [])) (dt_ok d)
         @ map (detected_state captures now observer Unknown (Fmt ''the pane could not be read'' [])) (dt_unknown d)
         @ map (\<lambda>name. all_unknown name (Fmt ''registered but absent'' []) now observer)
             (filter (\<lambda>name. name \<notin> set seen) roster)))"

subsection \<open>Cutting a capture for the journal\<close>

text \<open>\<open>text.encode("utf-8")\<close> raises on a surrogate.\<close>

definition utf8_size :: "int \<Rightarrow> nat" where
  "utf8_size c = (if c < 0x80 then 1 else if c < 0x800 then 2 else if c < 0x10000 then 3 else 4)"

definition surrogate :: "int \<Rightarrow> bool" where
  "surrogate c \<longleftrightarrow> 0xD800 \<le> c \<and> c \<le> 0xDFFF"

definition byte_size :: "utext \<Rightarrow> nat" where
  "byte_size t = sum_list (map utf8_size t)"

text \<open>
  \<open>encoded[:limit].decode("utf-8", errors="ignore")\<close>: the characters that fit whole; the bytes of one
  that was cut are dropped.
\<close>

fun fitting :: "nat \<Rightarrow> utext \<Rightarrow> utext" where
  "fitting limit [] = []"
| "fitting limit (c # t) = (if utf8_size c \<le> limit then c # fitting (limit - utf8_size c) t else [])"

datatype cut = Whole utext | Cut utext nat nat

definition mark_truncated :: "utext \<Rightarrow> nat \<Rightarrow> cut result" where
  "mark_truncated text limit =
     (if list_ex surrogate text then Inl (ValueError ''UnicodeEncodeError'')
      else if byte_size text \<le> limit then Inr (Whole text)
      else Inr (Cut (fitting limit text) (byte_size (fitting limit text)) (byte_size text)))"

subsection \<open>Facts\<close>

lemma with_vital_signal [simp]:
  "st_signal (with_vital s v reason raw st) s' = (if s' = s then v else st_signal st s')"
  by (simp add: with_vital_def)

lemma with_vital_agent [simp]: "st_agent (with_vital s v reason raw st) = st_agent st"
  by (simp add: with_vital_def)

lemma vitals_table:
  "vitals_load_bearing =
     [vital_row Tmux_Live True True False Direct [''tmux_sessions''],
      vital_row Process_Alive True True True Direct [''ps_line'', ''pane_pid''],
      vital_row Login_Required False True False Direct [''pane_run1'', ''pane_run2'']]"
  by (simp add: vitals_load_bearing_def SIGNALS_def vital_row_def)

text \<open>The verdict as a table over the three load-bearing signals.\<close>

lemma assess_agent_verdict:
  "va_verdict (assess_agent st) =
     (if st_signal st Process_Alive = No then No
      else if st_signal st Tmux_Live = Unknown \<or> st_signal st Process_Alive = Unknown \<or> st_signal st Login_Required = Unknown
      then Unknown
      else Some (st_signal st Tmux_Live = Yes \<and> st_signal st Login_Required = No))"
proof -
  have t: "x = Unknown \<or> x = No \<or> x = Yes" for x :: tri by (metis (full_types) not_None_eq)
  show ?thesis
    using t [of "st_signal st Tmux_Live"] t [of "st_signal st Process_Alive"] t [of "st_signal st Login_Required"]
    by (elim disjE) (simp_all add: assess_agent_def vitals_table vital_row_def vital_refutes_def Let_def)
qed

text \<open>Each step of an observation writes its own signals.\<close>

lemma process_signal_others: "s \<noteq> Process_Alive \<Longrightarrow> st_signal (process_signal v session st) s = st_signal st s"
  by (auto simp: process_signal_def split_beta Let_def split: option.split)

lemma pane_signals_others:
  "s \<noteq> Login_Required \<Longrightarrow> s \<noteq> At_Idle_Prompt \<Longrightarrow> st_signal (pane_signals word st a b) s = st_signal st s"
  by (auto simp: pane_signals_def split_beta Let_def split: option.split)

lemma process_gone_iff:
  "st_signal (process_signal v session st) Process_Alive = No \<longleftrightarrow>
     \<not> av_in_container v \<and>
     (\<exists>pid rc out. tui_pane_pid (av_pid v session) = Some pid \<and> av_ps v pid = Ran rc out \<and> strip out = [] \<and> (rc = 0 \<or> rc = 1))"
proof (cases "av_in_container v \<or> tui_pane_pid (av_pid v session) = None")
  case True
  then show ?thesis by (auto simp: process_signal_def)
next
  case False
  then obtain pid where pid: "\<not> av_in_container v" "tui_pane_pid (av_pid v session) = Some pid" by auto
  show ?thesis
    by (cases "av_ps v pid") (auto simp: process_signal_def pid ps_line_for_def)
qed

lemma login_required_iff:
  "st_signal (pane_signals word st a b) Login_Required = Yes \<longleftrightarrow>
     a \<noteq> None \<and> b \<noteq> None \<and> snd (evaluate_pane word b (Some (probe_to_state (fst (evaluate_pane word a None)))))"
  by (cases b) (auto simp: pane_signals_def Let_def split_beta)

lemma login_unread_iff: "st_signal (pane_signals word st a b) Login_Required = Unknown \<longleftrightarrow> a = None \<or> b = None"
  by (cases b) (auto simp: pane_signals_def Let_def split_beta)

lemma observe_agent_runs:
  assumes "observe_agent word v name = Inr st"
  obtains bare legacy session live st1 where "candidate_session_names name = Inr (bare, legacy)"
    and "live = (case av_listed v of None \<Rightarrow> None
      | Some l \<Rightarrow> if bare \<in> set l then Some bare else if legacy \<in> set l then Some legacy else None)"
    and "session = (case live of None \<Rightarrow> bare | Some s \<Rightarrow> s)"
    and "st_signal st1 Tmux_Live = (case av_listed v of None \<Rightarrow> Unknown | Some l \<Rightarrow> Some (live \<noteq> None))"
    and "st = (if st_signal st1 Tmux_Live = No then pane_signals word (process_signal v session st1) None None
      else pane_signals word (process_signal v session st1) (av_pane1 v session) (av_pane2 v session))"
proof -
  from assms obtain bare legacy where names: "candidate_session_names name = Inr (bare, legacy)"
    unfolding observe_agent_def bind_result_Inr_iff by auto
  define live where "live = (case av_listed v of None \<Rightarrow> None
      | Some l \<Rightarrow> if bare \<in> set l then Some bare else if legacy \<in> set l then Some legacy else None)"
  define st1 where "st1 = (case av_listed v of
                    None \<Rightarrow> with_vital Tmux_Live Unknown (Fmt ''the session list could not be read'' [])
                              [(''tmux_sessions'', Ev_Msg empty_msg)] (new_state name (Some (av_now v)) (av_observer v))
                  | Some l \<Rightarrow>
                      with_vital Tmux_Live (Some (live \<noteq> None))
                        (case live of None \<Rightarrow> Fmt ''no session'' [Txt bare, Txt legacy, Num (int (length l))]
                                    | Some s \<Rightarrow> Fmt ''the tmux server lists'' [Txt s])
                        [(''tmux_sessions'', Ev_Msg (Fmt ''lines'' (map Txt l)))] (new_state name (Some (av_now v)) (av_observer v)))"
  have session: "(case live of Some s \<Rightarrow> Inr s | None \<Rightarrow> resolve_live_session name (av_listed v))
      = Inr (case live of None \<Rightarrow> bare | Some s \<Rightarrow> s)"
    by (auto simp: live_def resolve_live_session_def names split: option.split)
  have run: "observe_agent word v name =
      bind_result (case live of Some s \<Rightarrow> Inr s | None \<Rightarrow> resolve_live_session name (av_listed v)) (\<lambda>session.
            let st2 = process_signal v session st1 in
            Inr (if st_signal st2 Tmux_Live = No then pane_signals word st2 None None
                 else pane_signals word st2 (av_pane1 v session) (av_pane2 v session)))"
    unfolding observe_agent_def names bind_result.simps prod.case Let_def live_def [symmetric] st1_def [symmetric] ..
  have tmux: "st_signal st1 Tmux_Live = (case av_listed v of None \<Rightarrow> Unknown | Some l \<Rightarrow> Some (live \<noteq> None))"
    by (simp add: st1_def split: option.split)
  have "st = (if st_signal st1 Tmux_Live = No then pane_signals word (process_signal v (case live of None \<Rightarrow> bare | Some s \<Rightarrow> s) st1) None None
      else pane_signals word (process_signal v (case live of None \<Rightarrow> bare | Some s \<Rightarrow> s) st1)
        (av_pane1 v (case live of None \<Rightarrow> bare | Some s \<Rightarrow> s)) (av_pane2 v (case live of None \<Rightarrow> bare | Some s \<Rightarrow> s)))"
    using assms unfolding run session bind_result.simps Let_def by (simp add: process_signal_others split: if_splits)
  from that [OF names live_def refl tmux this] show ?thesis .
qed

lemma fitting_prefix: "\<exists>rest. t = fitting n t @ rest"
  by (induction n t rule: fitting.induct) auto

lemma fitting_size: "byte_size (fitting n t) \<le> n"
  by (induction n t rule: fitting.induct) (auto simp: byte_size_def)

lemma fitting_longest:
  "\<not> byte_size t \<le> n \<Longrightarrow> \<exists>c rest. t = fitting n t @ c # rest \<and> n < byte_size (fitting n t @ [c])"
proof (induction n t rule: fitting.induct)
  case (2 limit c t)
  show ?case
  proof (cases "utf8_size c \<le> limit")
    case True
    with 2(2) have "\<not> byte_size t \<le> limit - utf8_size c" by (auto simp: byte_size_def)
    with 2(1) True obtain d rest where "t = fitting (limit - utf8_size c) t @ d # rest"
      "limit - utf8_size c < byte_size (fitting (limit - utf8_size c) t @ [d])" by blast
    with True show ?thesis by (intro exI [of _ d] exI [of _ rest]) (auto simp: byte_size_def)
  next
    case False
    then show ?thesis by (auto simp: byte_size_def)
  qed
qed (simp add: byte_size_def)

end
