(* ===== verification/Agent_Claims.thy ===== *)
theory Agent_Claims
  imports Agent_State
begin

text \<open>
  What the verdict on an agent promises: what it takes to convict, what an absent session is worth,
  and what the journal keeps of a capture that is too long.
\<close>

text \<open>A verdict of No has one of three grounds.\<close>

lemma assess_No:
  "va_verdict (assess_agent st) = No \<Longrightarrow>
     st_signal st Process_Alive = No \<or>
     st_signal st Tmux_Live \<noteq> Unknown \<and> st_signal st Login_Required \<noteq> Unknown \<and>
     (st_signal st Tmux_Live = No \<or> st_signal st Login_Required = Yes)"
  by (auto simp: assess_agent_verdict split: if_splits)

lemma observed_process:
  assumes "observe_agent word v name = Inr st"
  obtains bare legacy session live st1 where "candidate_session_names name = Inr (bare, legacy)"
    and "st_signal st Process_Alive = st_signal (process_signal v session st1) Process_Alive"
    and "session = (case live of None \<Rightarrow> bare | Some s \<Rightarrow> s)"
    and "live = (case av_listed v of None \<Rightarrow> None
      | Some l \<Rightarrow> if bare \<in> set l then Some bare else if legacy \<in> set l then Some legacy else None)"
    and "st_signal st Tmux_Live = (case av_listed v of None \<Rightarrow> Unknown | Some l \<Rightarrow> Some (live \<noteq> None))"
    and "st = (if st_signal st Tmux_Live = No then pane_signals word (process_signal v session st1) None None
      else pane_signals word (process_signal v session st1) (av_pane1 v session) (av_pane2 v session))"
proof -
  from assms obtain bare legacy session live st1 where r: "candidate_session_names name = Inr (bare, legacy)"
    "live = (case av_listed v of None \<Rightarrow> None
      | Some l \<Rightarrow> if bare \<in> set l then Some bare else if legacy \<in> set l then Some legacy else None)"
    "session = (case live of None \<Rightarrow> bare | Some s \<Rightarrow> s)"
    "st_signal st1 Tmux_Live = (case av_listed v of None \<Rightarrow> Unknown | Some l \<Rightarrow> Some (live \<noteq> None))"
    "st = (if st_signal st1 Tmux_Live = No then pane_signals word (process_signal v session st1) None None
      else pane_signals word (process_signal v session st1) (av_pane1 v session) (av_pane2 v session))"
    by (rule observe_agent_runs)
  have tmux: "st_signal st Tmux_Live = st_signal st1 Tmux_Live"
    by (subst r(5)) (simp add: pane_signals_others process_signal_others)
  have proc: "st_signal st Process_Alive = st_signal (process_signal v session st1) Process_Alive"
    by (subst r(5)) (simp add: pane_signals_others)
  from that [OF r(1) proc r(3) r(2)] r(4) r(5) tmux show thesis by simp
qed

text \<open>A concrete view: one session, a process that is gone.\<close>

definition demo_view :: "string list option \<Rightarrow> ran \<Rightarrow> agent_view" where
  "demo_view sessions ps =
     \<lparr>av_listed = sessions, av_in_container = False, av_pid = (\<lambda>_. Ran 0 ''41''), av_ps = (\<lambda>_. ps),
      av_pane1 = (\<lambda>_. Some []), av_pane2 = (\<lambda>_. Some []), av_now = 0, av_observer = ''state''\<rparr>"

definition demo_agent_verdict :: "agent_view \<Rightarrow> tri result" where
  "demo_agent_verdict v = bind_result (observe_agent (\<lambda>_. False) v ''ada'') (\<lambda>st. Inr (va_verdict (assess_agent st)))"

lemma demo_gone: "demo_agent_verdict (demo_view (Some [''ada'']) (Ran 1 [])) = Inr No"
  by code_simp

lemma demo_absent: "demo_agent_verdict (demo_view (Some [''eve'']) (Ran 0 ''41 S'')) = Inr Unknown"
  by code_simp

lemma demo_absent_signal:
  "bind_result (observe_agent (\<lambda>_. False) (demo_view (Some [''eve'']) (Ran 0 ''41 S'')) ''ada'')
     (\<lambda>st. Inr (st_signal st Tmux_Live)) = Inr No"
  by code_simp

subsection \<open>What it takes to convict\<close>

text \<open>The session an agent is looked for in: the one of its two names that is listed, the first if neither is.\<close>

definition own_session :: "string list option \<Rightarrow> string \<Rightarrow> string \<Rightarrow> string" where
  "own_session listed bare legacy =
     (case listed of None \<Rightarrow> bare
      | Some l \<Rightarrow> if bare \<in> set l then bare else if legacy \<in> set l then legacy else bare)"

text \<open>
  C24: an agent that was observed is convicted only on a first-hand reading of its own session, the one
  of its two candidate names that is listed (the first if neither is): outside a container \<open>ps\<close> ran for
  the pid of that session's pane and matched nothing, or that session is listed and both captures of its
  pane were read and show a login banner that did not move.
\<close>

theorem conviction_is_first_hand:
  assumes run: "observe_agent word v name = Inr st" and convicted: "va_verdict (assess_agent st) = No"
  shows "\<exists>bare legacy session. candidate_session_names name = Inr (bare, legacy) \<and>
     session = own_session (av_listed v) bare legacy \<and>
     ((\<not> av_in_container v \<and>
       (\<exists>pid rc out. tui_pane_pid (av_pid v session) = Some pid \<and> av_ps v pid = Ran rc out \<and> strip out = [] \<and>
          (rc = 0 \<or> rc = 1))) \<or>
     (\<exists>l pane1 pane2. av_listed v = Some l \<and> session \<in> set l \<and> av_pane1 v session = Some pane1 \<and>
        av_pane2 v session = Some pane2 \<and>
        snd (evaluate_pane word (Some pane2) (Some (probe_to_state (fst (evaluate_pane word (Some pane1) None)))))))"
proof -
  from run obtain bare legacy session live st1 where names: "candidate_session_names name = Inr (bare, legacy)"
    and proc: "st_signal st Process_Alive = st_signal (process_signal v session st1) Process_Alive"
    and session: "session = (case live of None \<Rightarrow> bare | Some s \<Rightarrow> s)"
    and live: "live = (case av_listed v of None \<Rightarrow> None
      | Some l \<Rightarrow> if bare \<in> set l then Some bare else if legacy \<in> set l then Some legacy else None)"
    and tmux: "st_signal st Tmux_Live = (case av_listed v of None \<Rightarrow> Unknown | Some l \<Rightarrow> Some (live \<noteq> None))"
    and st: "st = (if st_signal st Tmux_Live = No then pane_signals word (process_signal v session st1) None None
      else pane_signals word (process_signal v session st1) (av_pane1 v session) (av_pane2 v session))"
    by (rule observed_process)
  have own: "session = own_session (av_listed v) bare legacy"
    by (auto simp: session live own_session_def split: option.split)
  show ?thesis
  proof (cases "st_signal st Process_Alive = No")
    case True
    with names own show ?thesis unfolding proc process_gone_iff by blast
  next
    case False
    with assess_No [OF convicted] have known: "st_signal st Tmux_Live \<noteq> Unknown" "st_signal st Login_Required \<noteq> Unknown"
      "st_signal st Tmux_Live = No \<or> st_signal st Login_Required = Yes" by auto
    have up: "st_signal st Tmux_Live \<noteq> No"
    proof
      assume "st_signal st Tmux_Live = No"
      with st have "st = pane_signals word (process_signal v session st1) None None" by simp
      with known(2) show False by (simp add: login_unread_iff)
    qed
    with st have panes: "st = pane_signals word (process_signal v session st1) (av_pane1 v session) (av_pane2 v session)" by simp
    from known(3) up have "st_signal st Login_Required = Yes" by simp
    then have stuck: "av_pane1 v session \<noteq> None \<and> av_pane2 v session \<noteq> None \<and>
        snd (evaluate_pane word (av_pane2 v session) (Some (probe_to_state (fst (evaluate_pane word (av_pane1 v session) None)))))"
      using login_required_iff panes by metis
    from tmux known(1) up obtain l where l: "av_listed v = Some l" "live \<noteq> None" by (cases "av_listed v") auto
    then have "session \<in> set l" unfolding session live by (auto split: if_splits)
    with l(1) stuck names own show ?thesis by (intro exI [of _ bare] exI [of _ legacy] exI [of _ session]) auto
  qed
qed

lemma demo_candidates: "candidate_session_names ''ada'' = Inr (''ada'', ''tui-ada'')"
  by code_simp

theorem conviction_is_first_hand_witness:
  "tui_pane_pid (av_pid (demo_view (Some [''ada'']) (Ran 1 [])) ''ada'') = Some 41 \<and>
   (\<exists>pid rc. tui_pane_pid (av_pid (demo_view (Some [''ada'']) (Ran 1 [])) ''ada'') = Some pid \<and>
      av_ps (demo_view (Some [''ada'']) (Ran 1 [])) pid = Ran rc [] \<and> (rc = 0 \<or> rc = 1))"
proof -
  let ?v = "demo_view (Some [''ada'']) (Ran 1 [])"
  from demo_gone obtain st where "observe_agent (\<lambda>_. False) ?v ''ada'' = Inr st" "va_verdict (assess_agent st) = No"
    unfolding demo_agent_verdict_def bind_result_Inr_iff by auto
  from conviction_is_first_hand [OF this] obtain bare legacy session where
    own: "candidate_session_names ''ada'' = Inr (bare, legacy)" "session = own_session (av_listed ?v) bare legacy"
    and why: "(\<not> av_in_container ?v \<and>
       (\<exists>pid rc out. tui_pane_pid (av_pid ?v session) = Some pid \<and> av_ps ?v pid = Ran rc out \<and> strip out = [] \<and>
          (rc = 0 \<or> rc = 1))) \<or>
     (\<exists>l pane1 pane2. av_listed ?v = Some l \<and> session \<in> set l \<and> av_pane1 ?v session = Some pane1 \<and>
        av_pane2 ?v session = Some pane2 \<and>
        snd (evaluate_pane (\<lambda>_. False) (Some pane2)
          (Some (probe_to_state (fst (evaluate_pane (\<lambda>_. False) (Some pane1) None))))))" by blast
  from own have "session = ''ada''" by (simp add: demo_candidates own_session_def demo_view_def)
  moreover have "\<not> snd (evaluate_pane (\<lambda>_. False) (Some []) (Some (probe_to_state (fst (evaluate_pane (\<lambda>_. False) (Some []) None)))))"
    by code_simp
  moreover have "tui_pane_pid (Ran 0 ''41'') = Some 41" by code_simp
  ultimately show ?thesis using why by (auto simp: demo_view_def)
qed

subsection \<open>An absent session\<close>

text \<open>
  C25: an agent whose session is missing from a list that was read is never convicted for that: its
  pane is then not captured, \<open>is_login_required\<close> stays unknown, and unless \<open>ps\<close> shows that the process
  is gone the verdict is could-not-determine with exit code 2. So the load-bearing signal
  \<open>is_tmux_live\<close> refutes no agent that was observed.
\<close>

theorem absent_session_is_undecided:
  assumes "observe_agent word v name = Inr st" and "st_signal st Tmux_Live = No"
  shows "vital_exit_code (assess_agent st) = (if st_signal st Process_Alive = No then 1 else 2)
     \<and> Login_Required \<in> set (va_unresolved (assess_agent st))"
proof -
  from assms(1) obtain session st1 where "st = (if st_signal st Tmux_Live = No
      then pane_signals word (process_signal v session st1) None None
      else pane_signals word (process_signal v session st1) (av_pane1 v session) (av_pane2 v session))"
    by (rule observed_process)
  with assms(2) have "st = pane_signals word (process_signal v session st1) None None" by simp
  then have login: "st_signal st Login_Required = Unknown" by (metis login_unread_iff)
  then have "va_verdict (assess_agent st) = (if st_signal st Process_Alive = No then No else Unknown)"
    by (simp add: assess_agent_verdict)
  then have "vital_exit_code (assess_agent st) = (if st_signal st Process_Alive = No then 1 else 2)"
    by (simp add: vital_exit_code_def)
  moreover have "Login_Required \<in> set (va_unresolved (assess_agent st))"
    using login by (simp add: assess_agent_def vitals_table vital_row_def Let_def split: option.split)
  ultimately show ?thesis by blast
qed

theorem absent_session_is_undecided_witness:
  "\<exists>st :: agent_state. vital_exit_code (assess_agent st) = (if st_signal st Process_Alive = No then 1 else 2)
     \<and> Login_Required \<in> set (va_unresolved (assess_agent st))"
proof -
  from demo_absent_signal obtain st where
    "observe_agent (\<lambda>_. False) (demo_view (Some [''eve'']) (Ran 0 ''41 S'')) ''ada'' = Inr st" "st_signal st Tmux_Live = No"
    unfolding bind_result_Inr_iff by auto
  then have "vital_exit_code (assess_agent st) = (if st_signal st Process_Alive = No then 1 else 2)
     \<and> Login_Required \<in> set (va_unresolved (assess_agent st))" by (rule absent_session_is_undecided)
  then show ?thesis by blast
qed

subsection \<open>What the journal keeps\<close>

text \<open>
  C31: a capture that fits is kept whole; one that does not is cut before the first character that
  would pass the limit, so that whole characters of at most the limit in bytes are kept, never fewer
  than fit, and both sizes are recorded.
\<close>

theorem journal_keeps_what_fits:
  assumes "mark_truncated t0 limit = Inr kept"
  shows "case kept of
       Whole t \<Rightarrow> t = t0 \<and> byte_size t0 \<le> limit
     | Cut t n whole \<Rightarrow>
         \<exists>c rest. t0 = t @ c # rest \<and> n = byte_size t \<and> n \<le> limit \<and> limit < byte_size (t @ [c]) \<and>
           whole = byte_size t0"
proof (cases "byte_size t0 \<le> limit")
  case True
  with assms show ?thesis by (auto simp: mark_truncated_def split: if_splits)
next
  case False
  with assms have "kept = Cut (fitting limit t0) (byte_size (fitting limit t0)) (byte_size t0)"
    by (auto simp: mark_truncated_def split: if_splits)
  with fitting_longest [OF False] fitting_size [of limit t0] show ?thesis by auto
qed

theorem journal_keeps_what_fits_witness:
  "\<exists>c rest. [0x61, 0x20AC] = [0x61] @ (c :: int) # rest \<and> 1 = byte_size [0x61] \<and> (1::nat) \<le> 3 \<and>
     3 < byte_size ([0x61] @ [c]) \<and> 4 = byte_size [0x61, 0x20AC]"
proof -
  have "mark_truncated [0x61, 0x20AC] 3 = Inr (Cut [0x61] 1 4)" by code_simp
  from journal_keeps_what_fits [OF this] show ?thesis by simp
qed

end
