(* ===== verification/Stop_Env.thy ===== *)
theory Stop_Env
  imports Commands Reconcile_Rule Delivery
begin

text \<open>
  What stopping and restarting an agent asks of the world, as in \<open>Screen_Env\<close>: an environment
  answers each call from the history of the calls before it, and a computation is a function on that
  history. It may raise, and it may run out of the fuel of a loop (\<open>None\<close>).
\<close>

subsection \<open>Calls and answers\<close>

text \<open>\<open>ProcessIdentity\<close> of \<open>_runners/_tmux/_process_group.py\<close>.\<close>

record process_identity =
  pi_pid :: int
  pi_parent :: int
  pi_group :: int
  pi_session :: int
  pi_start :: int
  pi_uid :: int
  pi_state :: string
  pi_cgroup :: string

text \<open>\<open>line.split(":", 2)\<close> with all three parts, and \<open>_control_group\<close> on the lines of a file; \<open>None\<close> is a \<open>ValueError\<close>.\<close>

fun colon_part :: "string \<Rightarrow> (string \<times> string) option" where
  "colon_part [] = None"
| "colon_part (c # cs) =
     (if c = CHR '':'' then Some ([], cs)
      else case colon_part cs of None \<Rightarrow> None | Some (k, rest) \<Rightarrow> Some (c # k, rest))"

fun control_group :: "string list \<Rightarrow> string option" where
  "control_group [] = Some []"
| "control_group (line # lines) =
     (case colon_part line of
        None \<Rightarrow> None
      | Some (hierarchy, rest) \<Rightarrow>
          (case colon_part rest of
             None \<Rightarrow> None
           | Some (controllers, path) \<Rightarrow>
               if hierarchy = ''0'' \<and> controllers = [] then Some path else control_group lines))"

text \<open>\<open>stat[stat.rfind(")") + 2:].split()\<close>.\<close>

definition stat_words :: "string \<Rightarrow> string list" where
  "stat_words stat =
     (let tail = rev (takeWhile (\<lambda>c. c \<noteq> CHR '')'') (rev stat)) in
      words_from [] (drop 1 tail))"

text \<open>
  \<open>_identity\<close>: the texts of \<open>/proc/<pid>/stat\<close> and \<open>/proc/<pid>/cgroup\<close> and the owner of the directory, when
  all three could be read.
\<close>

definition proc_identity :: "int \<Rightarrow> (string \<times> int \<times> string) option \<Rightarrow> process_identity option" where
  "proc_identity pid files =
     (case files of
        None \<Rightarrow> None
      | Some (stat, uid, cgroup) \<Rightarrow>
          (let ws = stat_words stat in
           if length ws \<le> 19 then None
           else case (parse_int (ws ! 1), parse_int (ws ! 2), parse_int (ws ! 3), parse_int (ws ! 19), control_group (splitlines cgroup)) of
             (Some ppid, Some pgrp, Some sid, Some start, Some cg) \<Rightarrow>
               Some \<lparr>pi_pid = pid, pi_parent = ppid, pi_group = pgrp, pi_session = sid, pi_start = start,
                     pi_uid = uid, pi_state = ws ! 0, pi_cgroup = cg\<rparr>
           | _ \<Rightarrow> None))"

datatype kill_answer =
    Killed
  | No_Such_Process          \<comment> \<open>\<open>ProcessLookupError\<close>\<close>
  | Kill_Failed              \<comment> \<open>\<open>PermissionError\<close> or another \<open>OSError\<close>\<close>
  | Kill_Raises py_error     \<comment> \<open>anything else, which nobody catches\<close>

text \<open>\<open>runtime.agent_pid(config)\<close>: no such method, an exception, an \<open>int\<close>, or another value (a \<open>bool\<close>, \<open>None\<close>).\<close>

datatype pid_answer = No_Getter | Pid_Raises | Pid_Int int | Pid_Other

text \<open>\<open>observe_turn_activity\<close>: an idle session, an active one, or an exception.\<close>

datatype turn_answer = Turn_Idle string | Turn_Active string | Turn_Unread py_error

datatype stop_answer = Stop_Returns bool | Stop_Unverified | Stop_Raises py_error

text \<open>\<open>agent_start\<close>: its value, \<open>RestartPreflightAbort\<close> with its \<open>retryable\<close>, or another exception.\<close>

datatype start_answer = Start_Returns bool | Start_Aborts bool | Start_Raises py_error

datatype path_answer = Path_Found string | Path_Missing | Path_Raises py_error

text \<open>A row of the instances table: an absent column reads as \<open>Null\<close>.\<close>

datatype cell = Null | Int_Cell int | Text_Cell string

type_synonym incarnation_row = "string \<Rightarrow> cell"

record agent_config =
  cf_name :: string
  cf_harness :: string
  cf_runtime :: string

text \<open>Calls whose value nobody reads.\<close>

datatype stop_call =
    Audit string | Snapshot | Hooks string | Fire_Hook string | End_Instance | Release_Port | Remove_Row | Prune
  | Record_Outcome int | Auth_Check | Engine_Check | Native_Check | Workspace_Check | Source_Check

datatype stop_event =
    Asked_Identity int "process_identity option"
  | Asked_Entries "string list"
  | Asked_Own_Cgroup "string result"
  | Cgroup_Kill string bool
  | Asked_Empty string bool
  | Asked_Pids string "int list option"
  | Asked_Scope string "(string \<times> string) list option"
  | Scope_Stop string bool
  | Group_Kill int int kill_answer
  | Read_Time time
  | Waited time
  | Asked_Running bool
  | Asked_Pid "int option"
  | Kill_Sent int kill_answer
  | Asked_Turn turn_answer
  | Asked_Row "string option result"
  | Asked_Path path_answer
  | Loaded "agent_config result"
  | Made_Runtime "bool result"
  | Asked_Instance "incarnation_row option result"
  | Stop_Called stop_answer
  | Preflight_Run "bool result"
  | Start_Called start_answer
  | Called stop_call "unit result"

type_synonym stop_history = "stop_event list"

record stop_env =
  on_proc :: "int \<Rightarrow> stop_history \<Rightarrow> (string \<times> int \<times> string) option"
  on_entries :: "stop_history \<Rightarrow> string list"
  on_own_cgroup :: "stop_history \<Rightarrow> string result"
  on_cgroup_kill :: "string \<Rightarrow> stop_history \<Rightarrow> bool"
  on_cgroup_empty :: "string \<Rightarrow> stop_history \<Rightarrow> bool"
  on_pids :: "string \<Rightarrow> stop_history \<Rightarrow> int list option"
  on_show :: "string \<Rightarrow> stop_history \<Rightarrow> ran"
  on_scope_stop :: "string \<Rightarrow> stop_history \<Rightarrow> ran"
  on_group_kill :: "int \<Rightarrow> int \<Rightarrow> stop_history \<Rightarrow> kill_answer"
  on_time :: "stop_history \<Rightarrow> time"
  on_running :: "stop_history \<Rightarrow> bool"
  on_pid :: "stop_history \<Rightarrow> pid_answer"
  on_kill :: "int \<Rightarrow> stop_history \<Rightarrow> kill_answer"
  on_turn :: "stop_history \<Rightarrow> turn_answer"
  on_row :: "stop_history \<Rightarrow> string option result"
  on_path :: "stop_history \<Rightarrow> path_answer"
  on_load :: "string \<Rightarrow> stop_history \<Rightarrow> agent_config result"
  on_load_v3 :: "string \<Rightarrow> stop_history \<Rightarrow> agent_config result"
  on_runtime :: "agent_config \<Rightarrow> stop_history \<Rightarrow> bool result"
  on_instance :: "stop_history \<Rightarrow> incarnation_row option result"
  on_stop :: "stop_history \<Rightarrow> stop_answer"
  on_preflight :: "stop_history \<Rightarrow> bool result"
  on_start :: "stop_history \<Rightarrow> start_answer"
  on_call :: "stop_call \<Rightarrow> stop_history \<Rightarrow> unit result"
  own_uid :: int
  own_pid :: int
  own_group :: int

definition on_identity :: "stop_env \<Rightarrow> int \<Rightarrow> stop_history \<Rightarrow> process_identity option" where
  "on_identity env pid h = proc_identity pid (on_proc env pid h)"

subsection \<open>Computations\<close>

type_synonym 'a act = "stop_history \<Rightarrow> ('a result \<times> stop_history) option"

definition act_ret :: "'a \<Rightarrow> 'a act" where
  "act_ret x h = Some (Inr x, h)"

definition act_raise :: "py_error \<Rightarrow> 'a act" where
  "act_raise e h = Some (Inl e, h)"

definition act_then :: "'a act \<Rightarrow> ('a \<Rightarrow> 'b act) \<Rightarrow> 'b act" where
  "act_then m f h =
     (case m h of
        None \<Rightarrow> None
      | Some (Inl e, h') \<Rightarrow> Some (Inl e, h')
      | Some (Inr x, h') \<Rightarrow> f x h')"

text \<open>\<open>try: m except Exception as e: f e\<close>, with the value handed on.\<close>

definition act_catch :: "'a act \<Rightarrow> (py_error \<Rightarrow> 'a act) \<Rightarrow> 'a act" where
  "act_catch m f h =
     (case m h of None \<Rightarrow> None | Some (Inl e, h') \<Rightarrow> f e h' | Some (Inr x, h') \<Rightarrow> Some (Inr x, h'))"

text \<open>One call: its answer and its event; a call that may raise.\<close>

definition act_ask :: "(stop_history \<Rightarrow> 'a) \<Rightarrow> ('a \<Rightarrow> stop_event) \<Rightarrow> 'a act" where
  "act_ask f ev h = Some (Inr (f h), ev (f h) # h)"

definition act_try :: "(stop_history \<Rightarrow> 'a result) \<Rightarrow> ('a result \<Rightarrow> stop_event) \<Rightarrow> 'a act" where
  "act_try f ev h = Some (f h, ev (f h) # h)"

definition call :: "stop_env \<Rightarrow> stop_call \<Rightarrow> unit act" where
  "call env c = act_try (on_call env c) (Called c)"

definition now :: "stop_env \<Rightarrow> time act" where
  "now env = act_ask (on_time env) Read_Time"

definition wait :: "time \<Rightarrow> unit act" where
  "wait d h = Some (Inr (), Waited d # h)"

text \<open>A loop of at most \<open>n\<close> rounds; a round leaves it with a value, goes round again, or raises.\<close>

fun act_loop :: "nat \<Rightarrow> 'a option act \<Rightarrow> 'a act" where
  "act_loop 0 body h = None"
| "act_loop (Suc n) body h =
     (case body h of
        None \<Rightarrow> None
      | Some (Inl e, h') \<Rightarrow> Some (Inl e, h')
      | Some (Inr (Some x), h') \<Rightarrow> Some (Inr x, h')
      | Some (Inr None, h') \<Rightarrow> act_loop n body h')"

named_theorems act \<comment> \<open>running a computation\<close>

lemmas [act] = act_ret_def act_raise_def act_ask_def act_try_def wait_def

lemma act_then_Some:
  "act_then m f h = Some (r, h') \<longleftrightarrow>
     (\<exists>e. m h = Some (Inl e, h') \<and> r = Inl e) \<or> (\<exists>x h1. m h = Some (Inr x, h1) \<and> f x h1 = Some (r, h'))"
  by (auto simp: act_then_def split: option.splits prod.splits sum.splits)

lemma act_catch_Some:
  "act_catch m f h = Some (r, h') \<longleftrightarrow>
     (\<exists>x. m h = Some (Inr x, h') \<and> r = Inr x) \<or> (\<exists>e h1. m h = Some (Inl e, h1) \<and> f e h1 = Some (r, h'))"
  by (auto simp: act_catch_def split: option.splits prod.splits sum.splits)

subsection \<open>Triples\<close>

text \<open>
  \<open>triple P m Q E\<close>: from a history of \<open>P\<close>, \<open>m\<close> returns a value \<open>x\<close> in a history of \<open>Q x\<close> or raises
  in one of \<open>E\<close>, or runs out of fuel.
\<close>

definition triple ::
    "(stop_history \<Rightarrow> bool) \<Rightarrow> 'a act \<Rightarrow> ('a \<Rightarrow> stop_history \<Rightarrow> bool) \<Rightarrow> (stop_history \<Rightarrow> bool) \<Rightarrow> bool" where
  "triple P m Q E \<longleftrightarrow>
     (\<forall>h r h'. P h \<longrightarrow> m h = Some (r, h') \<longrightarrow> (case r of Inl e \<Rightarrow> E h' | Inr x \<Rightarrow> Q x h'))"

named_theorems triples

lemma tripleI:
  "(\<And>h r h'. P h \<Longrightarrow> m h = Some (r, h') \<Longrightarrow> (case r of Inl e \<Rightarrow> E h' | Inr x \<Rightarrow> Q x h')) \<Longrightarrow> triple P m Q E"
  by (simp add: triple_def)

lemma tripleD:
  "triple P m Q E \<Longrightarrow> P h \<Longrightarrow> m h = Some (Inr x, h') \<Longrightarrow> Q x h'"
  "triple P m Q E \<Longrightarrow> P h \<Longrightarrow> m h = Some (Inl e, h') \<Longrightarrow> E h'"
  by (fastforce simp: triple_def)+

lemma triple_weaken:
  assumes "triple P m Q E" and "\<And>h. P' h \<Longrightarrow> P h" and "\<And>x h. Q x h \<Longrightarrow> Q' x h" and "\<And>h. E h \<Longrightarrow> E' h"
  shows "triple P' m Q' E'"
  using assms by (fastforce simp: triple_def split: sum.splits)

lemma triple_pre: "triple P m Q E \<Longrightarrow> (\<And>h. P' h \<Longrightarrow> P h) \<Longrightarrow> triple P' m Q E"
  unfolding triple_def by blast

lemma triple_then:
  assumes "triple P m R E" and "\<And>x. triple (R x) (f x) Q E"
  shows "triple P (act_then m f) Q E"
  using assms by (fastforce simp: triple_def act_then_Some split: sum.splits)

lemma triple_catch:
  assumes "triple P m Q R" and "\<And>e. triple R (f e) Q E"
  shows "triple P (act_catch m f) Q E"
  using assms by (fastforce simp: triple_def act_catch_Some split: sum.splits)

lemma triple_simple:
  "(\<And>h. P h \<Longrightarrow> Q x h) \<Longrightarrow> triple P (act_ret x) Q E"
  "(\<And>h. P h \<Longrightarrow> E h) \<Longrightarrow> triple P (act_raise e) Q E"
  "(\<And>h. P h \<Longrightarrow> Q (f h) (ev (f h) # h)) \<Longrightarrow> triple P (act_ask f ev) Q E"
  "(\<And>h. P h \<Longrightarrow> Q () (Waited d # h)) \<Longrightarrow> triple P (wait d) Q E"
  by (auto simp: triple_def act)

lemma triple_try:
  "(\<And>h. P h \<Longrightarrow> (case f h of Inl e \<Rightarrow> E (ev (f h) # h) | Inr x \<Rightarrow> Q x (ev (f h) # h))) \<Longrightarrow> triple P (act_try f ev) Q E"
  by (auto simp: triple_def act)

lemma triple_cases:
  "(b \<Longrightarrow> triple P m Q E) \<Longrightarrow> (\<not> b \<Longrightarrow> triple P m' Q E) \<Longrightarrow> triple P (if b then m else m') Q E"
  by simp

lemma triple_option:
  "(opt = None \<Longrightarrow> triple P n Q E) \<Longrightarrow> (\<And>x. opt = Some x \<Longrightarrow> triple P (f x) Q E) \<Longrightarrow>
     triple P (case opt of None \<Rightarrow> n | Some x \<Rightarrow> f x) Q E"
  by (cases opt) simp_all

lemma triple_loop:
  assumes "triple P body (\<lambda>r h. case r of None \<Rightarrow> P h | Some x \<Rightarrow> Q x h) E"
  shows "triple P (act_loop n body) Q E"
proof (rule tripleI)
  fix h r h'
  assume "P h" "act_loop n body h = Some (r, h')"
  then show "case r of Inl e \<Rightarrow> E h' | Inr x \<Rightarrow> Q x h'"
  proof (induction n arbitrary: h)
    case (Suc n)
    note step = tripleD [OF assms Suc.prems(1)]
    from Suc.prems(2) show ?case
      using step Suc.IH by (auto split: option.splits prod.splits sum.splits)
  qed simp
qed

text \<open>\<open>keeps P m\<close>: \<open>P\<close> holds after \<open>m\<close> when it did before, whether \<open>m\<close> returns or raises.\<close>

abbreviation keeps :: "(stop_history \<Rightarrow> bool) \<Rightarrow> 'a act \<Rightarrow> bool" where
  "keeps P m \<equiv> triple P m (\<lambda>_. P) P"

lemma keepsD: "keeps P m \<Longrightarrow> P h \<Longrightarrow> m h = Some (r, h') \<Longrightarrow> P h'"
  by (cases r) (auto dest: tripleD)

lemma keeps_loop: "keeps P body \<Longrightarrow> keeps P (act_loop n body)"
  by (rule triple_loop, erule triple_weaken) (auto split: option.split)

subsection \<open>The clock\<close>

definition time_runs :: "stop_env \<Rightarrow> bool" where
  "time_runs env \<longleftrightarrow>
     (\<forall>h e. on_time env h + (case e of Waited d \<Rightarrow> d | _ \<Rightarrow> 0) \<le> on_time env (e # h))"

lemma time_runsD: "time_runs env \<Longrightarrow> on_time env h + (case e of Waited d \<Rightarrow> d | _ \<Rightarrow> 0) \<le> on_time env (e # h)"
  by (simp add: time_runs_def)

text \<open>
  A round that goes on either lets \<open>period\<close> pass or reaches the deadline, and a round that starts at
  the deadline is the last: such a loop ends.
\<close>

definition paced :: "stop_env \<Rightarrow> time \<Rightarrow> time \<Rightarrow> 'a option act \<Rightarrow> bool" where
  "paced env deadline period body \<longleftrightarrow>
     (\<forall>h. \<exists>r h'. body h = Some (r, h') \<and>
        (r = Inr None \<longrightarrow> on_time env h < deadline \<and>
           (on_time env h + period \<le> on_time env h' \<or> deadline \<le> on_time env h')))"

lemma paced_ends:
  assumes "paced env deadline period body" and "deadline \<le> on_time env h + of_nat n * period"
  shows "act_loop (Suc n) body h \<noteq> None"
  using assms(2)
proof (induction n arbitrary: h)
  case 0
  from assms(1) obtain r h' where "body h = Some (r, h')" "r \<noteq> Inr None" using 0
    unfolding paced_def by (metis of_nat_0 mult_zero_left add.right_neutral not_less)
  then show ?case by (auto split: sum.split option.split)
next
  case (Suc n)
  from assms(1) obtain r h' where body: "body h = Some (r, h')"
    "r = Inr None \<longrightarrow> on_time env h + period \<le> on_time env h' \<or> deadline \<le> on_time env h'"
    unfolding paced_def by blast
  show ?case
  proof (cases "r = Inr None")
    case True
    with body have "deadline \<le> on_time env h' + of_nat n * period \<or> deadline \<le> on_time env h'"
      using Suc.prems by (auto simp: algebra_simps)
    then have "act_loop (Suc n) body h' \<noteq> None"
    proof
      assume late: "deadline \<le> on_time env h'"
      from assms(1) obtain r' h2 where "body h' = Some (r', h2)" "r' \<noteq> Inr None"
        unfolding paced_def using late by (metis not_less)
      then show ?thesis by (auto split: sum.split option.split)
    qed (rule Suc.IH)
    with body(1) True show ?thesis by simp
  next
    case False
    with body(1) show ?thesis by (auto split: sum.split option.split)
  qed
qed

end
