(* ===== verification/Process_Scope.thy ===== *)
theory Process_Scope
  imports Stop_Env
begin

text \<open>
  The systemd scope an incarnation of an agent was started in (\<open>_runners/_scope_ownership.py\<close>): what is
  recorded of it at launch, and stopping exactly that scope later.
\<close>

record scope_ownership =
  so_pid :: int
  so_start :: int
  so_uid :: int
  so_cgroup :: string
  so_unit :: string
  so_invocation :: string

subsection \<open>What \<open>systemctl show\<close> prints\<close>

text \<open>\<open>line.partition("=")\<close>.\<close>

fun partition_eq :: "string \<Rightarrow> string \<times> bool \<times> string" where
  "partition_eq [] = ([], False, [])"
| "partition_eq (c # cs) =
     (if c = CHR ''='' then ([], True, cs) else let (k, found, v) = partition_eq cs in (c # k, found, v))"

definition shown_fields :: "string \<Rightarrow> (string \<times> string) list" where
  "shown_fields out =
     rev (concat (map (\<lambda>line. let (k, found, v) = partition_eq line in if found then [(k, v)] else []) (splitlines out)))"

definition show_scope :: "ran \<Rightarrow> (string \<times> string) list option" where
  "show_scope r =
     (case r of Not_Run _ \<Rightarrow> None | Ran rc out \<Rightarrow> if rc \<noteq> 0 then None else Some (shown_fields out))"

definition shown_or_empty :: "(string \<times> string) list \<Rightarrow> string \<Rightarrow> string" where
  "shown_or_empty props key = (case map_of props key of None \<Rightarrow> [] | Some v \<Rightarrow> v)"

definition stop_scope :: "ran \<Rightarrow> bool" where
  "stop_scope r = (case r of Not_Run _ \<Rightarrow> False | Ran rc _ \<Rightarrow> rc = 0)"

subsection \<open>Identities\<close>

definition hex_char :: "char \<Rightarrow> bool" where
  "hex_char c \<longleftrightarrow> digit_char c \<or> (CHR ''a'' \<le> c \<and> c \<le> CHR ''f'')"

text \<open>\<open>_INVOCATION_ID.fullmatch\<close>.\<close>

definition invocation_id :: "string \<Rightarrow> bool" where
  "invocation_id s \<longleftrightarrow> length s = 32 \<and> list_all hex_char s"

text \<open>\<open>PurePosixPath(p).name\<close>.\<close>

definition path_name :: "string \<Rightarrow> string" where
  "path_name p = (case rev (filter (\<lambda>c. c \<noteq> [] \<and> c \<noteq> ''.'') (split_on CHR ''/'' p)) of [] \<Rightarrow> [] | c # _ \<Rightarrow> c)"

definition capture_scope_ownership :: "stop_env \<Rightarrow> int \<Rightarrow> scope_ownership option act" where
  "capture_scope_ownership env pid =
     act_then (act_ask (on_identity env pid) (Asked_Identity pid)) (\<lambda>identity.
       case identity of
         None \<Rightarrow> act_ret None
       | Some i \<Rightarrow>
           if pi_uid i \<noteq> own_uid env then act_ret None
           else if pi_cgroup i = [] \<or> pi_cgroup i = ''/'' \<or> \<not> ends_with (path_name (pi_cgroup i)) ''.scope''
           then act_ret None
           else
             act_then (act_ask (\<lambda>h. show_scope (on_show env (path_name (pi_cgroup i)) h)) (Asked_Scope (path_name (pi_cgroup i))))
               (\<lambda>shown. case shown of
                  None \<Rightarrow> act_ret None
                | Some props \<Rightarrow>
                    if map_of props ''ControlGroup'' \<noteq> Some (pi_cgroup i) then act_ret None
                    else if \<not> invocation_id (map lower_char (shown_or_empty props ''InvocationID'')) then act_ret None
                    else act_ret (Some
                      \<lparr>so_pid = pi_pid i, so_start = pi_start i, so_uid = pi_uid i, so_cgroup = pi_cgroup i,
                       so_unit = path_name (pi_cgroup i),
                       so_invocation = map lower_char (shown_or_empty props ''InvocationID'')\<rparr>)))"

text \<open>\<open>int(x)\<close> and \<open>str(x)\<close> of a column; the decimal text of a number is an argument.\<close>

definition cell_int :: "cell \<Rightarrow> int option" where
  "cell_int c = (case c of Null \<Rightarrow> None | Int_Cell n \<Rightarrow> Some n | Text_Cell s \<Rightarrow> parse_int s)"

definition cell_str :: "(int \<Rightarrow> string) \<Rightarrow> cell \<Rightarrow> string" where
  "cell_str shown c = (case c of Null \<Rightarrow> ''None'' | Int_Cell n \<Rightarrow> shown n | Text_Cell s \<Rightarrow> s)"

definition ownership_from_record :: "(int \<Rightarrow> string) \<Rightarrow> int \<Rightarrow> incarnation_row \<Rightarrow> scope_ownership option" where
  "ownership_from_record shown uid row =
     (case (cell_int (row ''pid''), cell_int (row ''process_start_time''), cell_int (row ''process_uid'')) of
        (Some pid, Some start, Some owner) \<Rightarrow>
          (let cgroup = cell_str shown (row ''control_group'');
               unit = cell_str shown (row ''scope_unit'');
               invocation = map lower_char (cell_str shown (row ''scope_invocation_id''))
           in if pid \<le> 0 \<or> owner \<noteq> uid \<or> cgroup = ''/'' \<or> path_name cgroup \<noteq> unit \<or> \<not> ends_with unit ''.scope''
                 \<or> \<not> invocation_id invocation
              then None
              else Some \<lparr>so_pid = pid, so_start = start, so_uid = owner, so_cgroup = cgroup, so_unit = unit,
                         so_invocation = invocation\<rparr>)
      | _ \<Rightarrow> None)"

definition to_record_fields :: "scope_ownership \<Rightarrow> incarnation_row" where
  "to_record_fields so =
     (\<lambda>_. Null)(''pid'' := Int_Cell (so_pid so), ''process_start_time'' := Int_Cell (so_start so),
       ''process_uid'' := Int_Cell (so_uid so), ''control_group'' := Text_Cell (so_cgroup so),
       ''scope_unit'' := Text_Cell (so_unit so), ''scope_invocation_id'' := Text_Cell (so_invocation so))"

definition is_launch :: "scope_ownership \<Rightarrow> process_identity option \<Rightarrow> bool" where
  "is_launch so current \<longleftrightarrow>
     (case current of
        None \<Rightarrow> False
      | Some i \<Rightarrow> pi_state i \<noteq> ''Z'' \<and> pi_start i = so_start so \<and> pi_uid i = so_uid so \<and> pi_cgroup i = so_cgroup so)"

definition same_process :: "stop_env \<Rightarrow> scope_ownership \<Rightarrow> bool act" where
  "same_process env so =
     act_then (act_ask (on_identity env (so_pid so)) (Asked_Identity (so_pid so))) (\<lambda>i. act_ret (is_launch so i))"

subsection \<open>Stopping the scope of a record\<close>

definition group_pids :: "stop_env \<Rightarrow> scope_ownership \<Rightarrow> int list option act" where
  "group_pids env so = act_ask (on_pids env (so_cgroup so)) (Asked_Pids (so_cgroup so))"

text \<open>Whether a member of the group is not the record's: \<open>any(...)\<close> stops at the first.\<close>

fun any_foreign :: "stop_env \<Rightarrow> scope_ownership \<Rightarrow> int list \<Rightarrow> bool act" where
  "any_foreign env so [] = act_ret False"
| "any_foreign env so (pid # pids) =
     act_then (act_ask (on_identity env pid) (Asked_Identity pid)) (\<lambda>i.
       case i of
         None \<Rightarrow> act_ret True
       | Some x \<Rightarrow>
           if pi_uid x \<noteq> so_uid so \<or> pi_cgroup x \<noteq> so_cgroup so then act_ret True else any_foreign env so pids)"

definition scope_round :: "stop_env \<Rightarrow> scope_ownership \<Rightarrow> time \<Rightarrow> bool option act" where
  "scope_round env so deadline =
     act_then (group_pids env so) (\<lambda>pids.
     act_then (if pids = Some [] then same_process env so else act_ret True) (\<lambda>same.
       if pids = Some [] \<and> \<not> same then act_ret (Some True)
       else if pids = None then act_ret (Some False)
       else act_then (now env) (\<lambda>t.
         if deadline \<le> t then act_ret (Some False)
         else act_then (wait 0.05) (\<lambda>_. act_ret None))))"

definition ensure_owned_scope_down :: "stop_env \<Rightarrow> (int \<Rightarrow> string) \<Rightarrow> time \<Rightarrow> incarnation_row \<Rightarrow> bool act" where
  "ensure_owned_scope_down env shown timeout row =
     (case ownership_from_record shown (own_uid env) row of
        None \<Rightarrow> act_ret False
      | Some so \<Rightarrow>
          act_then (group_pids env so) (\<lambda>pids.
          act_then (same_process env so) (\<lambda>same.
            if pids = Some [] \<and> \<not> same then act_ret True
            else case pids of
              None \<Rightarrow> act_ret False
            | Some ps \<Rightarrow>
                act_then (act_ask (\<lambda>h. show_scope (on_show env (so_unit so) h)) (Asked_Scope (so_unit so))) (\<lambda>s.
                  case s of
                    None \<Rightarrow> act_ret False
                  | Some props \<Rightarrow>
                      if map_of props ''ControlGroup'' \<noteq> Some (so_cgroup so)
                         \<or> map lower_char (shown_or_empty props ''InvocationID'') \<noteq> so_invocation so
                      then act_ret False
                      else act_then (any_foreign env so ps) (\<lambda>foreign.
                        if foreign then act_ret False
                        else
                          act_then (act_ask (\<lambda>h. stop_scope (on_scope_stop env (so_unit so) h)) (Scope_Stop (so_unit so))) (\<lambda>asked.
                            if \<not> asked then act_ret False
                            else act_then (now env) (\<lambda>t.
                              act_loop (rounds timeout 0.05) (scope_round env so (t + timeout)))))))))"

text \<open>\<open>_DEFAULT_SCOPE_STOP_TIMEOUT_S\<close>.\<close>

definition scope_stop_timeout :: time where
  "scope_stop_timeout = 95"

end
