(* ===== verification/Agent_Stop.thy ===== *)
theory Agent_Stop
  imports Process_Scope
begin

text \<open>
  Stopping an agent: the wait for a live turn to end (\<open>_lifecycle/_managed_turn_drain.py\<close>), the proof
  that an incarnation is down (\<open>_stop_outcome.py\<close>) and \<open>agent_stop\<close>, \<open>agent_stop_all\<close> of \<open>_stop.py\<close>. The
  hooks, the handover snapshot, the registry and the outcome ledger are calls whose value nobody
  reads; any of them may raise.
\<close>

subsection \<open>The live turn\<close>

record turn_drain =
  td_status :: string
  td_waited :: time
  td_forced :: bool

definition is_hermes :: "agent_config \<Rightarrow> bool" where
  "is_hermes cfg \<longleftrightarrow> map lower_char (cf_harness cfg) = ''hermes''"

definition drain_refusal :: py_error where
  "drain_refusal = OtherError ''ManagedTurnDrainRefusal''"

definition drain_round :: "stop_env \<Rightarrow> time \<Rightarrow> time \<Rightarrow> turn_drain option act" where
  "drain_round env began deadline =
     act_then (act_ask (on_turn env) Asked_Turn) (\<lambda>activity.
       case activity of
         Turn_Unread _ \<Rightarrow> act_raise drain_refusal
       | Turn_Idle status \<Rightarrow>
           act_then (now env) (\<lambda>t. act_ret (Some \<lparr>td_status = status, td_waited = max 0 (t - began), td_forced = False\<rparr>))
       | Turn_Active _ \<Rightarrow>
           act_then (now env) (\<lambda>t.
             if deadline \<le> t then act_raise drain_refusal
             else act_then (wait (min 0.5 (max 0 (deadline - t)))) (\<lambda>_. act_ret None)))"

definition guard_managed_turn :: "stop_env \<Rightarrow> agent_config \<Rightarrow> bool \<Rightarrow> time \<Rightarrow> turn_drain option act" where
  "guard_managed_turn env cfg allow timeout =
     (if \<not> is_hermes cfg then act_ret None
      else if timeout < 0 then act_raise (ValueError ''timeout_s must be a finite non-negative number'')
      else act_then (now env) (\<lambda>began.
        if allow then act_ret (Some \<lparr>td_status = ''force-bypassed'', td_waited = 0, td_forced = True\<rparr>)
        else act_then (act_loop (rounds timeout 0.5) (drain_round env began (began + timeout))) (\<lambda>r. act_ret (Some r))))"

subsection \<open>The proof that it stopped\<close>

definition ownership_columns :: "string list" where
  "ownership_columns = [''process_start_time'', ''process_uid'', ''control_group'', ''scope_unit'', ''scope_invocation_id'']"

definition has_complete_scope_ownership :: "incarnation_row option \<Rightarrow> bool" where
  "has_complete_scope_ownership inst \<longleftrightarrow>
     (case inst of
        None \<Rightarrow> False
      | Some row \<Rightarrow> list_all (\<lambda>c. row c \<noteq> Null \<and> row c \<noteq> Text_Cell []) ownership_columns)"

definition stop_unverified :: py_error where
  "stop_unverified = OtherError ''StopVerificationError''"

definition verify_tui_incarnation_stopped :: "stop_env \<Rightarrow> (int \<Rightarrow> string) \<Rightarrow> incarnation_row option \<Rightarrow> unit act" where
  "verify_tui_incarnation_stopped env shown inst =
     (case inst of
        None \<Rightarrow> act_raise stop_unverified
      | Some row \<Rightarrow>
          if \<not> has_complete_scope_ownership inst then
            act_then (call env (Record_Outcome 3)) (\<lambda>_. act_raise stop_unverified)
          else
            act_then (ensure_owned_scope_down env shown scope_stop_timeout row) (\<lambda>stopped.
              if stopped then call env (Record_Outcome 0)
              else act_then (call env (Record_Outcome 3)) (\<lambda>_. act_raise stop_unverified)))"

subsection \<open>One stop\<close>

record stop_request =
  rq_name :: string
  rq_force :: bool
  rq_prune :: bool
  rq_drain :: time
  rq_allow :: "bool option"

text \<open>The spec path of the registry row, or of the spec found by name; \<open>None\<close>: forced, and there is none.\<close>

definition entry_path :: "stop_env \<Rightarrow> bool \<Rightarrow> string option act" where
  "entry_path env force =
     act_then (act_try (on_row env) Asked_Row) (\<lambda>row.
       case row of
         Some path \<Rightarrow> act_ret (Some path)
       | None \<Rightarrow>
           act_then (act_ask (on_path env) Asked_Path) (\<lambda>found.
             case found of
               Path_Found path \<Rightarrow> act_ret (Some path)
             | Path_Missing \<Rightarrow> if force then act_ret None else act_raise (OtherError ''RuntimeError'')
             | Path_Raises e \<Rightarrow> act_raise e))"

definition load_config_for_teardown :: "stop_env \<Rightarrow> string \<Rightarrow> string \<Rightarrow> agent_config act" where
  "load_config_for_teardown env path name =
     act_then (act_try (on_load_v3 env path) Loaded) (\<lambda>cfg.
       if cf_name cfg \<noteq> name then act_raise (ValueError ''Registry entry resolves to another spec'') else act_ret cfg)"

text \<open>The spec as the current validator reads it, else as it was registered; \<open>None\<close>: forced, row released.\<close>

definition config_for_stop :: "stop_env \<Rightarrow> stop_request \<Rightarrow> string \<Rightarrow> agent_config option act" where
  "config_for_stop env rq path =
     act_catch (act_then (act_try (on_load env path) Loaded) (\<lambda>cfg. act_ret (Some cfg)))
       (\<lambda>invalid.
          act_then
            (act_catch (act_then (load_config_for_teardown env path (rq_name rq)) (\<lambda>cfg. act_ret (Some cfg)))
              (\<lambda>_. if rq_force rq then act_ret None else act_raise invalid))
            (\<lambda>found. case found of
               Some cfg \<Rightarrow> act_ret (Some cfg)
             | None \<Rightarrow> act_then (call env Remove_Row) (\<lambda>_. act_ret None)))"

definition unless_forced :: "bool \<Rightarrow> unit act \<Rightarrow> unit act" where
  "unless_forced force m = act_catch m (\<lambda>e. if force then act_ret () else act_raise e)"

definition best_effort :: "unit act \<Rightarrow> unit act" where
  "best_effort m = act_catch m (\<lambda>_. act_ret ())"

definition stop_runtime :: "stop_env \<Rightarrow> bool \<Rightarrow> bool \<Rightarrow> bool act" where
  "stop_runtime env is_tui force =
     act_then (act_ask (on_stop env) Stop_Called) (\<lambda>r.
       case r of
         Stop_Returns b \<Rightarrow> act_ret b
       | Stop_Unverified \<Rightarrow> if is_tui then act_ret False else act_raise (OtherError ''TuiStopVerificationError'')
       | Stop_Raises e \<Rightarrow> if force then act_ret False else act_raise e)"

definition wait_for_turn :: "stop_env \<Rightarrow> stop_request \<Rightarrow> agent_config \<Rightarrow> bool \<Rightarrow> unit act" where
  "wait_for_turn env rq cfg is_tui =
     (if is_tui \<and> is_hermes cfg then
        act_then (act_ask (on_running env) Asked_Running) (\<lambda>up.
          if up then
            act_then
              (guard_managed_turn env cfg (case rq_allow rq of None \<Rightarrow> rq_force rq | Some b \<Rightarrow> b) (rq_drain rq))
              (\<lambda>_. act_ret ())
          else act_ret ())
      else act_ret ())"

definition leave_registry :: "stop_env \<Rightarrow> stop_request \<Rightarrow> bool act" where
  "leave_registry env rq =
     act_then (unless_forced (rq_force rq) (call env (Hooks ''post_stop''))) (\<lambda>_.
     act_then (call env (Fire_Hook ''post_stop'')) (\<lambda>_.
     act_then (call env End_Instance) (\<lambda>_.
     act_then (call env Release_Port) (\<lambda>_.
     act_then (call env Remove_Row) (\<lambda>_.
     act_then (if rq_prune rq then best_effort (call env Prune) else act_ret ()) (\<lambda>_. act_ret True))))))"

definition stop_with :: "stop_env \<Rightarrow> (int \<Rightarrow> string) \<Rightarrow> stop_request \<Rightarrow> agent_config \<Rightarrow> bool act" where
  "stop_with env shown rq cfg =
     act_then (act_try (on_runtime env cfg) Made_Runtime) (\<lambda>is_tui.
     act_then (if is_tui then act_try (on_instance env) Asked_Instance else act_ret None) (\<lambda>inst.
     act_then (if is_tui \<and> inst \<noteq> None \<and> \<not> has_complete_scope_ownership inst
               then verify_tui_incarnation_stopped env shown inst else act_ret ()) (\<lambda>_.
     act_then (wait_for_turn env rq cfg is_tui) (\<lambda>_.
     act_then (best_effort (call env Snapshot)) (\<lambda>_.
     act_then (unless_forced (rq_force rq) (call env (Hooks ''pre_stop''))) (\<lambda>_.
     act_then (call env (Fire_Hook ''pre_stop'')) (\<lambda>_.
     act_then (stop_runtime env is_tui (rq_force rq)) (\<lambda>_.
     act_then (if is_tui then verify_tui_incarnation_stopped env shown inst else act_ret ()) (\<lambda>_.
       leave_registry env rq)))))))))"

definition agent_stop :: "stop_env \<Rightarrow> (int \<Rightarrow> string) \<Rightarrow> stop_request \<Rightarrow> bool act" where
  "agent_stop env shown rq =
     act_then (call env (Audit ''agent-stop'')) (\<lambda>_.
     act_then (entry_path env (rq_force rq)) (\<lambda>entry.
       case entry of
         None \<Rightarrow> act_ret True
       | Some path \<Rightarrow>
           act_then (config_for_stop env rq path) (\<lambda>config.
             case config of None \<Rightarrow> act_ret True | Some cfg \<Rightarrow> stop_with env shown rq cfg)))"

text \<open>Every agent of the registry, in its order; without force the first failure is the last.\<close>

fun agent_stop_all :: "(string \<Rightarrow> bool act) \<Rightarrow> bool \<Rightarrow> string list \<Rightarrow> (string \<times> bool) list act" where
  "agent_stop_all stopper force [] = act_ret []"
| "agent_stop_all stopper force (name # names) =
     act_then (act_catch (act_then (stopper name) (\<lambda>_. act_ret True)) (\<lambda>_. act_ret False)) (\<lambda>ok.
       if ok \<or> force then
         act_then (agent_stop_all stopper force names) (\<lambda>rest. act_ret ((name, ok) # rest))
       else act_ret [(name, False)])"

end
