(* ===== verification/Agent_Restart.thy ===== *)
theory Agent_Restart
  imports Agent_Stop
begin

text \<open>
  Replacing an agent's process: the gate that makes sure the old one is down
  (\<open>_lifecycle/_stop_escalate.py\<close>: TERM, grace, KILL, settle) and \<open>agent_restart\<close> of \<open>_stop.py\<close>.
\<close>

subsection \<open>The gate\<close>

definition sigkill_settle :: time where
  "sigkill_settle = 5"

definition safe_pid :: "int \<Rightarrow> pid_answer \<Rightarrow> int option" where
  "safe_pid own a =
     (case a of Pid_Int n \<Rightarrow> if n \<le> 0 then None else if n = own then None else Some n | _ \<Rightarrow> None)"

definition long_lived_pid :: "stop_env \<Rightarrow> int option act" where
  "long_lived_pid env = act_ask (\<lambda>h. safe_pid (own_pid env) (on_pid env h)) Asked_Pid"

definition send_sigkill :: "stop_env \<Rightarrow> int \<Rightarrow> bool act" where
  "send_sigkill env pid =
     act_then (act_ask (on_kill env pid) (Kill_Sent pid)) (\<lambda>r.
       case r of
         Killed \<Rightarrow> act_ret True
       | No_Such_Process \<Rightarrow> act_ret True
       | Kill_Failed \<Rightarrow> act_ret False
       | Kill_Raises e \<Rightarrow> act_raise e)"

definition runs_now :: "stop_env \<Rightarrow> bool act" where
  "runs_now env = act_ask (on_running env) Asked_Running"

definition poll_round :: "stop_env \<Rightarrow> time \<Rightarrow> bool option act" where
  "poll_round env deadline =
     act_then (runs_now env) (\<lambda>up.
       if \<not> up then act_ret (Some True)
       else act_then (now env) (\<lambda>t.
         if deadline \<le> t then act_ret (Some False)
         else act_then (wait 0.25) (\<lambda>_. act_ret None)))"

definition poll_until_stopped :: "stop_env \<Rightarrow> time \<Rightarrow> bool act" where
  "poll_until_stopped env timeout =
     act_then (now env) (\<lambda>t. act_loop (rounds timeout 0.25) (poll_round env (t + timeout)))"

definition escalate_to_sigkill :: "stop_env \<Rightarrow> time \<Rightarrow> (bool \<times> int option) act" where
  "escalate_to_sigkill env settle =
     act_then (long_lived_pid env) (\<lambda>pid.
       case pid of
         None \<Rightarrow> act_then (runs_now env) (\<lambda>up. act_ret (\<not> up, None))
       | Some n \<Rightarrow>
           act_then (send_sigkill env n) (\<lambda>sent.
             if \<not> sent then act_ret (False, Some n)
             else act_then (poll_until_stopped env settle) (\<lambda>stopped. act_ret (stopped, Some n))))"

definition stop_escalation_error :: py_error where
  "stop_escalation_error = OtherError ''StopEscalationError''"

text \<open>\<open>load_config\<close> in a \<open>try\<close>: \<open>None\<close> is a spec that cannot be loaded.\<close>

definition load_or_none :: "stop_env \<Rightarrow> string \<Rightarrow> agent_config option act" where
  "load_or_none env path =
     act_catch (act_then (act_try (on_load env path) Loaded) (\<lambda>cfg. act_ret (Some cfg))) (\<lambda>_. act_ret None)"

definition ensure_previous_runtime_down :: "stop_env \<Rightarrow> string \<Rightarrow> time \<Rightarrow> time \<Rightarrow> unit act" where
  "ensure_previous_runtime_down env path timeout settle =
     (if timeout \<le> 0 then wait 2
      else act_then (load_or_none env path) (\<lambda>config.
        case config of
          None \<Rightarrow> wait 2
        | Some cfg \<Rightarrow>
            act_then (act_try (on_runtime env cfg) Made_Runtime) (\<lambda>_.
            act_then (poll_until_stopped env timeout) (\<lambda>down.
              if down then act_ret ()
              else act_then (escalate_to_sigkill env settle) (\<lambda>(stopped, pid).
                if stopped then act_ret () else act_raise stop_escalation_error)))))"

subsection \<open>One restart\<close>

record restart_request =
  rs_name :: string
  rs_own_auth :: bool          \<comment> \<open>\<open>successor_auth_check\<close> is given\<close>
  rs_own_factory :: bool       \<comment> \<open>\<open>runtime_factory\<close> is given\<close>
  rs_drain :: time
  rs_wait :: time

definition start_retry_delays :: "time list" where
  "start_retry_delays = [5, 15]"

fun start_attempts :: "stop_env \<Rightarrow> time list \<Rightarrow> bool act" where
  "start_attempts env [] =
     act_then (act_ask (on_start env) Start_Called) (\<lambda>r.
       case r of
         Start_Returns b \<Rightarrow> act_ret b
       | Start_Aborts _ \<Rightarrow> act_raise (OtherError ''RestartPreflightAbort'')
       | Start_Raises e \<Rightarrow> act_raise e)"
| "start_attempts env (d # ds) =
     act_then (act_ask (on_start env) Start_Called) (\<lambda>r.
       case r of
         Start_Returns b \<Rightarrow> act_ret b
       | Start_Aborts retryable \<Rightarrow>
           if \<not> retryable then act_raise (OtherError ''RestartPreflightAbort'')
           else act_then (wait d) (\<lambda>_. start_attempts env ds)
       | Start_Raises e \<Rightarrow> act_raise e)"

text \<open>Everything that is checked while the old process still runs; whether a Hermes route was prepared.\<close>

definition restart_checks :: "stop_env \<Rightarrow> restart_request \<Rightarrow> unit act" where
  "restart_checks env rs =
     act_then (if rs_own_auth rs then act_then (call env Auth_Check) (\<lambda>_. act_ret False)
               else act_try (on_preflight env) Preflight_Run) (\<lambda>prepared.
     act_then (call env Engine_Check) (\<lambda>_.
     act_then (if rs_own_factory rs then act_ret ()
               else act_then (call env Native_Check) (\<lambda>_. call env Workspace_Check)) (\<lambda>_.
       if prepared then call env Source_Check else act_ret ())))"

definition agent_restart :: "stop_env \<Rightarrow> (int \<Rightarrow> string) \<Rightarrow> restart_request \<Rightarrow> bool act" where
  "agent_restart env shown rs =
     act_then (call env (Audit ''agent-restart'')) (\<lambda>_.
     act_then (entry_path env False) (\<lambda>entry.
       case entry of
         None \<Rightarrow> act_raise (OtherError ''RuntimeError'')
       | Some path \<Rightarrow>
           act_then (restart_checks env rs) (\<lambda>_.
           act_then (agent_stop env shown
                      \<lparr>rq_name = rs_name rs, rq_force = True, rq_prune = False, rq_drain = rs_drain rs,
                       rq_allow = Some False\<rparr>) (\<lambda>_.
           act_then (ensure_previous_runtime_down env path (rs_wait rs) sigkill_settle) (\<lambda>_.
             start_attempts env start_retry_delays)))))"

end
