(* ===== verification/Stop_Facts.thy ===== *)
theory Stop_Facts
  imports Agent_Restart
begin

text \<open>
  What the histories of a stop and a restart show: which events may stand where, what was last read
  before them, and that every loop ends.
\<close>

subsection \<open>Events and what preceded them\<close>

text \<open>\<open>each V h\<close>: every event of \<open>h\<close> stands in relation \<open>V\<close> to the history before it.\<close>

fun each :: "(stop_event \<Rightarrow> stop_history \<Rightarrow> bool) \<Rightarrow> stop_history \<Rightarrow> bool" where
  "each V [] \<longleftrightarrow> True"
| "each V (e # h) \<longleftrightarrow> V e h \<and> each V h"

lemma each_conj: "each (\<lambda>e h. V e h \<and> W e h) h \<longleftrightarrow> each V h \<and> each W h"
  by (induction h) auto

lemma each_append: "each V (h2 @ e # h1) \<Longrightarrow> V e h1"
  by (induction h2) auto

fun last_running :: "stop_history \<Rightarrow> bool option" where
  "last_running [] = None"
| "last_running (e # h) = (case e of Asked_Running b \<Rightarrow> Some b | _ \<Rightarrow> last_running h)"

fun last_load :: "stop_history \<Rightarrow> agent_config result option" where
  "last_load [] = None"
| "last_load (e # h) = (case e of Loaded c \<Rightarrow> Some c | _ \<Rightarrow> last_load h)"

fun last_pid :: "stop_history \<Rightarrow> int option option" where
  "last_pid [] = None"
| "last_pid (e # h) = (case e of Asked_Pid p \<Rightarrow> Some p | _ \<Rightarrow> last_pid h)"

fun last_pids :: "stop_history \<Rightarrow> (string \<times> int list option) option" where
  "last_pids [] = None"
| "last_pids (e # h) = (case e of Asked_Pids g ps \<Rightarrow> Some (g, ps) | _ \<Rightarrow> last_pids h)"

fun last_identity :: "stop_history \<Rightarrow> (int \<times> process_identity option) option" where
  "last_identity [] = None"
| "last_identity (e # h) = (case e of Asked_Identity p i \<Rightarrow> Some (p, i) | _ \<Rightarrow> last_identity h)"

fun last_scope :: "stop_history \<Rightarrow> (string \<times> (string \<times> string) list option) option" where
  "last_scope [] = None"
| "last_scope (e # h) = (case e of Asked_Scope s ps \<Rightarrow> Some (s, ps) | _ \<Rightarrow> last_scope h)"

fun times_read :: "stop_history \<Rightarrow> time list" where
  "times_read [] = []"
| "times_read (e # h) = (case e of Read_Time t \<Rightarrow> t # times_read h | _ \<Rightarrow> times_read h)"

text \<open>A computation all of whose events are in order keeps every history in order.\<close>

lemma keeps_simple:
  "keeps P (act_ret x)" "keeps P (act_raise e)"
  "(\<And>h. P h \<Longrightarrow> P (ev (f h) # h)) \<Longrightarrow> keeps P (act_ask f ev)"
  "(\<And>h. P h \<Longrightarrow> P (tv (g h) # h)) \<Longrightarrow> keeps P (act_try g tv)"
  "(\<And>h. P h \<Longrightarrow> P (Waited d # h)) \<Longrightarrow> keeps P (wait d)"
  "(\<And>h. P h \<Longrightarrow> P (Read_Time (on_time env h) # h)) \<Longrightarrow> keeps P (now env)"
  "(\<And>h. P h \<Longrightarrow> P (Called c (on_call env c h) # h)) \<Longrightarrow> keeps P (call env c)"
  by (auto simp: triple_def act now_def call_def split: sum.split)

lemma keeps_then: "keeps P m \<Longrightarrow> (\<And>x. keeps P (f x)) \<Longrightarrow> keeps P (act_then m f)"
  by (rule triple_then)

lemma keeps_catch: "keeps P m \<Longrightarrow> (\<And>e. keeps P (f e)) \<Longrightarrow> keeps P (act_catch m f)"
  by (rule triple_catch)

lemma keeps_cases:
  "keeps P m \<Longrightarrow> keeps P m' \<Longrightarrow> keeps P (if b then m else m')"
  "keeps P n \<Longrightarrow> (\<And>x. keeps P (f x)) \<Longrightarrow> keeps P (case opt of None \<Rightarrow> n | Some x \<Rightarrow> f x)"
  "(\<And>x y. keeps P (g x y)) \<Longrightarrow> keeps P (case pair of (x, y) \<Rightarrow> g x y)"
  "(\<And>e. keeps P (tu e)) \<Longrightarrow> (\<And>s. keeps P (ti s)) \<Longrightarrow> (\<And>s. keeps P (ta s)) \<Longrightarrow>
     keeps P (case t of Turn_Idle s \<Rightarrow> ti s | Turn_Active s \<Rightarrow> ta s | Turn_Unread e \<Rightarrow> tu e)"
  "(\<And>p. keeps P (pf p)) \<Longrightarrow> keeps P pm \<Longrightarrow> (\<And>e. keeps P (pr e)) \<Longrightarrow>
     keeps P (case path of Path_Found p \<Rightarrow> pf p | Path_Missing \<Rightarrow> pm | Path_Raises e \<Rightarrow> pr e)"
  "(\<And>b. keeps P (sr b)) \<Longrightarrow> keeps P su \<Longrightarrow> (\<And>e. keeps P (se e)) \<Longrightarrow>
     keeps P (case s of Stop_Returns b \<Rightarrow> sr b | Stop_Unverified \<Rightarrow> su | Stop_Raises e \<Rightarrow> se e)"
  "keeps P ka \<Longrightarrow> keeps P kn \<Longrightarrow> keeps P kf \<Longrightarrow> (\<And>e. keeps P (kr e)) \<Longrightarrow>
     keeps P (case k of Killed \<Rightarrow> ka | No_Such_Process \<Rightarrow> kn | Kill_Failed \<Rightarrow> kf | Kill_Raises e \<Rightarrow> kr e)"
  "(\<And>b. keeps P (ar b)) \<Longrightarrow> (\<And>b. keeps P (aa b)) \<Longrightarrow> (\<And>e. keeps P (ae e)) \<Longrightarrow>
     keeps P (case a of Start_Returns b \<Rightarrow> ar b | Start_Aborts b \<Rightarrow> aa b | Start_Raises e \<Rightarrow> ae e)"
  by (simp_all split: option.split prod.split turn_answer.split path_answer.split stop_answer.split kill_answer.split
        start_answer.split)

lemmas keeps_rules = keeps_then keeps_catch keeps_cases keeps_loop keeps_simple

lemma any_foreign_keeps:
  "(\<And>h pid. P h \<Longrightarrow> P (Asked_Identity pid (on_identity env pid h) # h)) \<Longrightarrow> keeps P (any_foreign env so pids)"
  by (induction pids) (auto intro!: keeps_rules)

text \<open>What looking at an incarnation and stopping its scope writes, and everything \<open>agent_stop\<close> may write.\<close>

definition probe_events :: "stop_event \<Rightarrow> bool" where
  "probe_events e \<longleftrightarrow>
     (case e of
        Asked_Identity _ _ \<Rightarrow> True | Asked_Pids _ _ \<Rightarrow> True | Asked_Scope _ _ \<Rightarrow> True | Scope_Stop _ _ \<Rightarrow> True
      | Read_Time _ \<Rightarrow> True | Waited _ \<Rightarrow> True | Asked_Turn _ \<Rightarrow> True | Asked_Running _ \<Rightarrow> True
      | Called (Record_Outcome _) _ \<Rightarrow> True
      | _ \<Rightarrow> False)"

definition stop_events :: "stop_event \<Rightarrow> bool" where
  "stop_events e \<longleftrightarrow>
     (case e of
        Kill_Sent _ _ \<Rightarrow> False | Start_Called _ \<Rightarrow> False | Group_Kill _ _ _ \<Rightarrow> False | Preflight_Run _ \<Rightarrow> False
      | Asked_Pid _ \<Rightarrow> False | _ \<Rightarrow> True)"

lemma probe_stop: "probe_events e \<Longrightarrow> stop_events e"
  by (cases e) (simp_all add: probe_events_def stop_events_def)

lemma scope_down_keeps:
  assumes "\<And>e h. P h \<Longrightarrow> probe_events e \<Longrightarrow> P (e # h)"
  shows "keeps P (ensure_owned_scope_down env shown timeout row)"
  unfolding ensure_owned_scope_down_def scope_round_def same_process_def group_pids_def
  by (intro keeps_rules any_foreign_keeps assms) (simp_all add: probe_events_def)

lemma verify_keeps:
  assumes "\<And>e h. P h \<Longrightarrow> probe_events e \<Longrightarrow> P (e # h)"
  shows "keeps P (verify_tui_incarnation_stopped env shown inst)"
  unfolding verify_tui_incarnation_stopped_def
  by (intro keeps_rules scope_down_keeps assms) (simp_all add: probe_events_def)

lemma guard_keeps:
  assumes "\<And>e h. P h \<Longrightarrow> probe_events e \<Longrightarrow> P (e # h)"
  shows "keeps P (guard_managed_turn env cfg allow timeout)"
  unfolding guard_managed_turn_def drain_round_def
  by (intro keeps_rules assms) (simp_all add: probe_events_def)

lemma stop_with_keeps:
  assumes "\<And>e h. P h \<Longrightarrow> stop_events e \<Longrightarrow> P (e # h)"
  shows "keeps P (stop_with env shown rq cfg)"
  unfolding stop_with_def wait_for_turn_def stop_runtime_def leave_registry_def unless_forced_def best_effort_def
  by (intro keeps_rules verify_keeps guard_keeps assms) (simp_all add: probe_stop, simp_all add: stop_events_def)

lemma entry_path_keeps:
  assumes "\<And>e h. P h \<Longrightarrow> stop_events e \<Longrightarrow> P (e # h)"
  shows "keeps P (entry_path env force)"
  unfolding entry_path_def by (intro keeps_rules assms) (simp_all add: stop_events_def)

lemma config_for_stop_keeps:
  assumes "\<And>e h. P h \<Longrightarrow> stop_events e \<Longrightarrow> P (e # h)"
  shows "keeps P (config_for_stop env rq path)"
  unfolding config_for_stop_def load_config_for_teardown_def
  by (intro keeps_rules assms) (simp_all add: stop_events_def)

lemma agent_stop_keeps:
  assumes "\<And>e h. P h \<Longrightarrow> stop_events e \<Longrightarrow> P (e # h)"
  shows "keeps P (agent_stop env shown rq)"
  unfolding agent_stop_def
  by (intro keeps_rules stop_with_keeps entry_path_keeps config_for_stop_keeps assms) (simp_all add: stop_events_def)

subsection \<open>The gate\<close>

text \<open>What the gate writes besides the one signal.\<close>

definition gate_events :: "stop_event \<Rightarrow> bool" where
  "gate_events e \<longleftrightarrow>
     (case e of
        Loaded _ \<Rightarrow> True | Made_Runtime _ \<Rightarrow> True | Read_Time _ \<Rightarrow> True | Asked_Running _ \<Rightarrow> True | Waited _ \<Rightarrow> True
      | Asked_Pid _ \<Rightarrow> True | _ \<Rightarrow> False)"

text \<open>
  \<open>P d\<close> is kept by what a wait until \<open>d\<close> reads. The wait says yes only on a reading of not running,
  and no only on a reading of running, then of a clock at or past \<open>d\<close>.
\<close>

definition gave_up_at :: "time \<Rightarrow> stop_history \<Rightarrow> bool" where
  "gave_up_at d h \<longleftrightarrow> (\<exists>t h'. h = Read_Time t # Asked_Running True # h' \<and> d \<le> t)"

lemma poll_round_triple:
  assumes "\<And>e h. P h \<Longrightarrow> gate_events e \<Longrightarrow> P (e # h)"
  shows "triple P (poll_round env d)
     (\<lambda>r h. P h \<and> (case r of None \<Rightarrow> True | Some True \<Rightarrow> last_running h = Some False | Some False \<Rightarrow> gave_up_at d h)) P"
  using assms by (auto simp: triple_def poll_round_def runs_now_def now_def act_then_Some act gate_events_def gave_up_at_def
      split: if_splits)

lemma poll_triple:
  assumes P: "\<And>e h. P h \<Longrightarrow> gate_events e \<Longrightarrow> P (e # h)" and start: "\<And>h. B h \<Longrightarrow> P h"
  shows "triple B (poll_until_stopped env timeout)
     (\<lambda>b h. P h \<and> (if b then last_running h = Some False
        else \<exists>h0 h1 t0. B h0 \<and> h = h1 @ Read_Time t0 # h0 \<and> gave_up_at (t0 + timeout) h)) P"
proof -
  define I where "I = (\<lambda>t h. P h \<and> (\<exists>h0 h1. B h0 \<and> h = h1 @ Read_Time t # h0))"
  have closed: "I t (e # h)" if "I t h" "gate_events e" for t e h
    using that P unfolding I_def by (metis append_Cons)
  have loop: "triple (I t) (act_loop n (poll_round env d))
      (\<lambda>b h. I t h \<and> (if b then last_running h = Some False else gave_up_at d h)) (I t)" for n d t
    by (rule triple_loop, rule triple_weaken [OF poll_round_triple [where P = "I t"]])
      (use closed in \<open>auto split: option.splits bool.splits\<close>)
  show ?thesis
    unfolding poll_until_stopped_def
  proof (rule triple_then)
    show "triple B (now env) (\<lambda>t. I t) P"
      using P start by (fastforce simp: triple_def now_def act gate_events_def I_def)
  next
    fix t
    show "triple (I t) (act_loop (rounds timeout 0.25) (poll_round env (t + timeout)))
        (\<lambda>b h. P h \<and> (if b then last_running h = Some False
          else \<exists>h0 h1 t0. B h0 \<and> h = h1 @ Read_Time t0 # h0 \<and> gave_up_at (t0 + timeout) h)) P"
      by (rule triple_weaken [OF loop]) (auto simp: I_def split: if_splits)
  qed
qed

text \<open>A wait keeps what its readings keep, and yes is not running.\<close>

lemma poll_plain:
  assumes "\<And>e h. P h \<Longrightarrow> gate_events e \<Longrightarrow> P (e # h)"
  shows "triple P (poll_until_stopped env timeout) (\<lambda>b h. P h \<and> (b \<longrightarrow> last_running h = Some False)) P"
  by (rule triple_weaken [OF poll_triple [where P = P and B = P]]) (use assms in \<open>auto split: if_splits\<close>)

lemma escalate_triple:
  assumes gate: "\<And>e h. P h \<Longrightarrow> gate_events e \<Longrightarrow> P (e # h)"
    and ask: "\<And>n h. B h \<Longrightarrow> P (Asked_Pid n # h)"
    and kill: "\<And>n r h. B h \<Longrightarrow> 0 < n \<Longrightarrow> n \<noteq> own_pid env \<Longrightarrow> P (Kill_Sent n r # Asked_Pid (Some n) # h)"
  shows "triple B (escalate_to_sigkill env settle) (\<lambda>r h. P h \<and> (fst r \<longrightarrow> last_running h = Some False)) P"
  unfolding escalate_to_sigkill_def
proof (rule triple_then [where R = "\<lambda>p h. \<exists>h0. h = Asked_Pid p # h0 \<and> B h0 \<and> (\<forall>n. p = Some n \<longrightarrow> 0 < n \<and> n \<noteq> own_pid env)"])
  show "triple B (long_lived_pid env)
      (\<lambda>p h. \<exists>h0. h = Asked_Pid p # h0 \<and> B h0 \<and> (\<forall>n. p = Some n \<longrightarrow> 0 < n \<and> n \<noteq> own_pid env)) P"
    by (auto simp: triple_def long_lived_pid_def act safe_pid_def split: pid_answer.split)
next
  fix p
  show "triple (\<lambda>h. \<exists>h0. h = Asked_Pid p # h0 \<and> B h0 \<and> (\<forall>n. p = Some n \<longrightarrow> 0 < n \<and> n \<noteq> own_pid env))
      (case p of None \<Rightarrow> act_then (runs_now env) (\<lambda>up. act_ret (\<not> up, None))
       | Some n \<Rightarrow> act_then (send_sigkill env n) (\<lambda>sent. if \<not> sent then act_ret (False, Some n)
           else act_then (poll_until_stopped env settle) (\<lambda>stopped. act_ret (stopped, Some n))))
      (\<lambda>r h. P h \<and> (fst r \<longrightarrow> last_running h = Some False)) P"
  proof (cases p)
    case None
    then show ?thesis
      using gate ask by (auto simp: triple_def runs_now_def act_then_Some act gate_events_def)
  next
    case (Some n)
    have sent: "triple (\<lambda>h. \<exists>h0. h = Asked_Pid (Some n) # h0 \<and> B h0 \<and> 0 < n \<and> n \<noteq> own_pid env) (send_sigkill env n) (\<lambda>_. P) P"
      using kill by (auto simp: triple_def send_sigkill_def act_then_Some act split: kill_answer.splits)
    have settled: "triple P (act_then (poll_until_stopped env settle) (\<lambda>stopped. act_ret (stopped, Some n)))
        (\<lambda>r h. P h \<and> (fst r \<longrightarrow> last_running h = Some False)) P"
      by (rule triple_then [OF poll_plain [where P = P]]) (use gate in \<open>auto simp: triple_def act\<close>)
    show ?thesis
      unfolding Some option.case
    proof (rule triple_then)
      show "triple (\<lambda>h. \<exists>h0. h = Asked_Pid (Some n) # h0 \<and> B h0 \<and> (\<forall>na. Some n = Some na \<longrightarrow> 0 < na \<and> na \<noteq> own_pid env))
          (send_sigkill env n) (\<lambda>_. P) P"
        by (rule triple_weaken [OF sent]) auto
      show "triple P (if \<not> x then act_ret (False, Some n)
            else act_then (poll_until_stopped env settle) (\<lambda>stopped. act_ret (stopped, Some n)))
          (\<lambda>r h. P h \<and> (fst r \<longrightarrow> last_running h = Some False)) P" for x
        by (rule triple_cases, simp add: triple_def act_ret_def, rule settled)
    qed
  qed
qed

subsection \<open>A scope that is down\<close>

definition seen_down :: "scope_ownership \<Rightarrow> stop_history \<Rightarrow> bool" where
  "seen_down so h \<longleftrightarrow>
     last_pids h = Some (so_cgroup so, Some []) \<and>
     (case last_identity h of None \<Rightarrow> False | Some (pid, i) \<Rightarrow> pid = so_pid so \<and> \<not> is_launch so i)"

definition owned_in :: "scope_ownership \<Rightarrow> stop_history \<Rightarrow> int \<Rightarrow> bool" where
  "owned_in so h pid \<longleftrightarrow>
     list_ex (\<lambda>e. case e of Asked_Identity p (Some i) \<Rightarrow> p = pid \<and> pi_uid i = so_uid so \<and> pi_cgroup i = so_cgroup so | _ \<Rightarrow> False) h"

lemma owned_stays: "owned_in so h pid \<Longrightarrow> owned_in so (e # h) pid"
  by (simp add: owned_in_def)

lemma any_foreign_triple:
  assumes "\<And>h pid. P h \<Longrightarrow> P (Asked_Identity pid (on_identity env pid h) # h)"
  shows "triple (\<lambda>h. P h \<and> list_all (owned_in so h) qs) (any_foreign env so ps)
     (\<lambda>f h. P h \<and> (\<not> f \<longrightarrow> list_all (owned_in so h) (qs @ ps))) P"
proof (induction ps arbitrary: qs)
  case Nil
  show ?case by (auto simp: triple_def act)
next
  case (Cons p ps)
  have step: "list_all (owned_in so (e # h)) qs" if "list_all (owned_in so h) qs" for e h qs
    using that by (auto simp: list_all_iff owned_stays)
  show ?case
    unfolding any_foreign.simps
  proof (rule triple_then)
    show "triple (\<lambda>h. P h \<and> list_all (owned_in so h) qs) (act_ask (on_identity env p) (Asked_Identity p))
        (\<lambda>i h. P h \<and> list_all (owned_in so h) qs \<and>
           (\<forall>x. i = Some x \<and> pi_uid x = so_uid so \<and> pi_cgroup x = so_cgroup so \<longrightarrow> owned_in so h p)) P"
      using assms step by (auto simp: triple_def act) (simp add: owned_in_def)
    show "triple (\<lambda>h. P h \<and> list_all (owned_in so h) qs \<and>
           (\<forall>x. i = Some x \<and> pi_uid x = so_uid so \<and> pi_cgroup x = so_cgroup so \<longrightarrow> owned_in so h p))
        (case i of None \<Rightarrow> act_ret True
         | Some x \<Rightarrow> if pi_uid x \<noteq> so_uid so \<or> pi_cgroup x \<noteq> so_cgroup so then act_ret True else any_foreign env so ps)
        (\<lambda>f h. P h \<and> (\<not> f \<longrightarrow> list_all (owned_in so h) (qs @ p # ps))) P" for i
    proof (rule triple_option, simp add: triple_def act, rule triple_cases, simp add: triple_def act)
      fix x
      assume "i = Some x" "\<not> (pi_uid x \<noteq> so_uid so \<or> pi_cgroup x \<noteq> so_cgroup so)"
      then show "triple (\<lambda>h. P h \<and> list_all (owned_in so h) qs \<and>
           (\<forall>x. i = Some x \<and> pi_uid x = so_uid so \<and> pi_cgroup x = so_cgroup so \<longrightarrow> owned_in so h p))
          (any_foreign env so ps) (\<lambda>f h. P h \<and> (\<not> f \<longrightarrow> list_all (owned_in so h) (qs @ p # ps))) P"
        by (intro triple_weaken [OF Cons.IH [of "qs @ [p]"]]) auto
    qed
  qed
qed

definition look_events :: "stop_event \<Rightarrow> bool" where
  "look_events e \<longleftrightarrow> probe_events e \<and> (case e of Scope_Stop _ _ \<Rightarrow> False | _ \<Rightarrow> True)"

lemma scope_round_triple:
  assumes "\<And>e h. P h \<Longrightarrow> look_events e \<Longrightarrow> P (e # h)"
  shows "triple P (scope_round env so d) (\<lambda>r h. P h \<and> (r = Some True \<longrightarrow> seen_down so h)) P"
  using assms
  by (auto simp: triple_def scope_round_def group_pids_def same_process_def now_def act_then_Some act probe_events_def
      look_events_def seen_down_def split: if_splits)

text \<open>What stands before the request to stop a scope.\<close>

definition vouched :: "scope_ownership \<Rightarrow> stop_history \<Rightarrow> bool" where
  "vouched so h \<longleftrightarrow>
     (case last_scope h of
        Some (unit, Some kvs) \<Rightarrow>
          unit = so_unit so \<and> map_of kvs ''ControlGroup'' = Some (so_cgroup so) \<and>
          map lower_char (shown_or_empty kvs ''InvocationID'') = so_invocation so
      | _ \<Rightarrow> False) \<and>
     (case last_pids h of
        Some (g, Some ps) \<Rightarrow> g = so_cgroup so \<and> list_all (owned_in so h) ps
      | _ \<Rightarrow> False)"

lemma scope_stop_triple:
  assumes look: "\<And>e h. P h \<Longrightarrow> look_events e \<Longrightarrow> P (e # h)"
    and stop: "\<And>b h. B h \<Longrightarrow> vouched so h \<Longrightarrow> P (Scope_Stop (so_unit so) b # h)"
  shows "triple (\<lambda>h. B h \<and> vouched so h)
     (act_then (act_ask (\<lambda>h. stop_scope (on_scope_stop env (so_unit so) h)) (Scope_Stop (so_unit so))) (\<lambda>asked.
        if \<not> asked then act_ret False
        else act_then (now env) (\<lambda>t. act_loop (rounds timeout 0.05) (scope_round env so (t + timeout)))))
     (\<lambda>b h. P h \<and> (b \<longrightarrow> seen_down so h)) P"
proof (rule triple_then [where R = "\<lambda>_. P"], simp add: triple_def act stop, rule triple_cases, simp add: triple_def act,
    rule triple_then [where R = "\<lambda>_. P"], simp add: triple_def act now_def look look_events_def probe_events_def, rule triple_loop)
  show "triple P (scope_round env so d) (\<lambda>r h. case r of None \<Rightarrow> P h | Some x \<Rightarrow> P h \<and> (x \<longrightarrow> seen_down so h)) P" for d
    by (rule triple_weaken [OF scope_round_triple [where P = P]]) (auto intro: look split: option.split)
qed

lemma scope_down_triple:
  assumes own: "ownership_from_record shown (own_uid env) row = Some so"
    and look: "\<And>e h. P h \<Longrightarrow> look_events e \<Longrightarrow> P (e # h)" "\<And>e h. B h \<Longrightarrow> look_events e \<Longrightarrow> B (e # h)"
    and start: "\<And>h. B h \<Longrightarrow> P h"
    and stop: "\<And>b h. B h \<Longrightarrow> vouched so h \<Longrightarrow> P (Scope_Stop (so_unit so) b # h)"
  shows "triple B (ensure_owned_scope_down env shown timeout row) (\<lambda>b h. P h \<and> (b \<longrightarrow> seen_down so h)) P"
proof -
  note stopped = scope_stop_triple [where P = P and B = B, OF look(1) stop]
  have looked: "triple B (group_pids env so) (\<lambda>ps h. B h \<and> last_pids h = Some (so_cgroup so, ps)) P"
    "triple (\<lambda>h. B h \<and> last_pids h = Some (so_cgroup so, ps)) (same_process env so)
       (\<lambda>s h. B h \<and> last_pids h = Some (so_cgroup so, ps) \<and> (\<not> s \<and> ps = Some [] \<longrightarrow> seen_down so h)) P" for ps
    using look(2) by (auto simp: triple_def group_pids_def same_process_def act_then_Some act look_events_def probe_events_def
        seen_down_def)
  have shown: "triple (\<lambda>h. B h \<and> last_pids h = Some (so_cgroup so, Some ps))
      (act_ask (\<lambda>h. show_scope (on_show env (so_unit so) h)) (Asked_Scope (so_unit so)))
      (\<lambda>s h. B h \<and> last_pids h = Some (so_cgroup so, Some ps) \<and> last_scope h = Some (so_unit so, s)) P" for ps
    using look(2) by (auto simp: triple_def act look_events_def probe_events_def)
  have foreign: "triple (\<lambda>h. B h \<and> last_pids h = Some (so_cgroup so, Some ps) \<and> last_scope h = Some (so_unit so, Some kvs))
      (any_foreign env so ps) (\<lambda>f h. (B h \<and> last_pids h = Some (so_cgroup so, Some ps) \<and> last_scope h = Some (so_unit so, Some kvs))
         \<and> (\<not> f \<longrightarrow> list_all (owned_in so h) ps)) P" for ps kvs
    by (rule triple_weaken [OF any_foreign_triple [where qs = "[]" and
          P = "\<lambda>h. B h \<and> last_pids h = Some (so_cgroup so, Some ps) \<and> last_scope h = Some (so_unit so, Some kvs)"]])
      (auto intro: look(2) start simp: look_events_def probe_events_def)
  show ?thesis
    unfolding ensure_owned_scope_down_def own option.case
    apply (rule triple_then [OF looked(1)])
    apply (rule triple_then [OF looked(2)])
    apply (rule triple_cases, force simp: triple_def act start)
    apply (rule triple_option, simp add: triple_def act start)
    apply (rule triple_then, rule triple_pre [OF shown], force)
    apply (rule triple_option, simp add: triple_def act start)
    apply (rule triple_cases, simp add: triple_def act start)
    apply (rule triple_then, rule triple_pre [OF foreign], force)
    apply (rule triple_cases, simp add: triple_def act start)
    apply (rule triple_pre [OF stopped])
    apply (auto simp: vouched_def)
    done
qed

end
