(* ===== verification/Stop_Claims.thy ===== *)
theory Stop_Claims
  imports Stop_Facts
begin

text \<open>
  What stopping and restarting an agent guarantees: nothing is torn down before the checks have
  passed, the replacement is started only over a process that was read as down, a process is killed
  only when it may be, a scope is stopped only when it is the recorded one, and a restart returns.
\<close>

subsection \<open>A host\<close>

text \<open>A runtime that ignores the stop and dies of the kill, in a scope that is already empty.\<close>

fun waited :: "stop_history \<Rightarrow> time" where
  "waited [] = 0"
| "waited (e # h) = (case e of Waited d \<Rightarrow> d | _ \<Rightarrow> 0) + waited h"

definition killed_yet :: "stop_history \<Rightarrow> bool" where
  "killed_yet h = list_ex (\<lambda>e. case e of Kill_Sent _ _ \<Rightarrow> True | _ \<Rightarrow> False) h"

definition demo_row :: incarnation_row where
  "demo_row =
     (\<lambda>_. Null)(''pid'' := Int_Cell 41, ''process_start_time'' := Int_Cell 5, ''process_uid'' := Int_Cell 1000,
       ''control_group'' := Text_Cell ''/user/ada.scope'', ''scope_unit'' := Text_Cell ''ada.scope'',
       ''scope_invocation_id'' := Text_Cell (replicate 32 CHR ''a''))"

definition demo_host :: "bool \<Rightarrow> incarnation_row option \<Rightarrow> stop_env" where
  "demo_host tui row =
     \<lparr>on_proc = (\<lambda>_ _. None), on_entries = (\<lambda>_. []), on_own_cgroup = (\<lambda>_. Inr ''/''), on_cgroup_kill = (\<lambda>_ _. False),
      on_cgroup_empty = (\<lambda>_ _. True), on_pids = (\<lambda>_ _. Some []), on_show = (\<lambda>_ _. Not_Run []), on_scope_stop = (\<lambda>_ _. Not_Run []),
      on_group_kill = (\<lambda>_ _ _. Kill_Failed), on_time = waited, on_running = (\<lambda>h. \<not> killed_yet h), on_pid = (\<lambda>_. Pid_Int 77),
      on_kill = (\<lambda>_ _. Killed), on_turn = (\<lambda>_. Turn_Idle ''idle''), on_row = (\<lambda>_. Inr (Some ''spec.yaml'')),
      on_path = (\<lambda>_. Path_Missing), on_load = (\<lambda>_ _. Inr \<lparr>cf_name = ''ada'', cf_harness = ''claude'', cf_runtime = []\<rparr>),
      on_load_v3 = (\<lambda>_ _. Inl (ValueError ''v3'')), on_runtime = (\<lambda>_ _. Inr tui), on_instance = (\<lambda>_. Inr row),
      on_stop = (\<lambda>_. Stop_Returns True), on_preflight = (\<lambda>_. Inr False), on_start = (\<lambda>_. Start_Returns True),
      on_call = (\<lambda>_ _. Inr ()), own_uid = 1000, own_pid = 1, own_group = 1\<rparr>"

definition demo_restart :: restart_request where
  "demo_restart = \<lparr>rs_name = ''ada'', rs_own_auth = False, rs_own_factory = False, rs_drain = 0, rs_wait = 1\<rparr>"

definition demo_result :: "(bool result \<times> bool) option" where
  "demo_result =
     map_option (\<lambda>(r, h). (r, killed_yet h)) (agent_restart (demo_host True (Some demo_row)) (\<lambda>_. []) demo_restart [])"

lemma demo_result: "demo_result = Some (Inr True, True)"
  by code_simp

subsection \<open>The order of a restart\<close>

text \<open>Everything that is checked while the old process still runs has passed.\<close>

definition checks_passed :: "restart_request \<Rightarrow> stop_history \<Rightarrow> bool" where
  "checks_passed rs h \<longleftrightarrow>
     (if rs_own_auth rs then Called Auth_Check (Inr ()) \<in> set h
      else Preflight_Run (Inr False) \<in> set h \<or> Preflight_Run (Inr True) \<in> set h \<and> Called Source_Check (Inr ()) \<in> set h) \<and>
     Called Engine_Check (Inr ()) \<in> set h \<and>
     (rs_own_factory rs \<or> Called Native_Check (Inr ()) \<in> set h \<and> Called Workspace_Check (Inr ()) \<in> set h)"

text \<open>The old process is down, unless the gate was switched off or the spec could not be loaded.\<close>

definition way_clear :: "restart_request \<Rightarrow> stop_history \<Rightarrow> bool" where
  "way_clear rs h \<longleftrightarrow>
     rs_wait rs \<le> 0 \<or> last_running h = Some False \<or> (case last_load h of Some (Inl _) \<Rightarrow> True | _ \<Rightarrow> False)"

definition tears_down :: "stop_event \<Rightarrow> bool" where
  "tears_down e \<longleftrightarrow>
     (case e of
        Stop_Called _ \<Rightarrow> True | Scope_Stop _ _ \<Rightarrow> True | Kill_Sent _ _ \<Rightarrow> True
      | Called c _ \<Rightarrow> c \<in> {Snapshot, End_Instance, Release_Port, Remove_Row, Prune} \<or> (\<exists>k. c = Hooks k \<or> c = Fire_Hook k)
      | _ \<Rightarrow> False)"

definition restart_rule :: "restart_request \<Rightarrow> stop_event \<Rightarrow> stop_history \<Rightarrow> bool" where
  "restart_rule rs e h \<longleftrightarrow>
     (if tears_down e then checks_passed rs h
      else case e of Start_Called _ \<Rightarrow> checks_passed rs h \<and> way_clear rs h | _ \<Rightarrow> True)"

lemma checks_stay: "checks_passed rs h \<Longrightarrow> checks_passed rs (e # h)"
  by (auto simp: checks_passed_def)

abbreviation in_order :: "restart_request \<Rightarrow> stop_history \<Rightarrow> bool" where
  "in_order rs h \<equiv> checks_passed rs h \<and> each (restart_rule rs) h"

lemma in_order_stop: "in_order rs h \<Longrightarrow> stop_events e \<Longrightarrow> in_order rs (e # h)"
  by (cases e) (auto simp: checks_stay restart_rule_def stop_events_def)

lemma in_order_gate: "in_order rs h \<Longrightarrow> gate_events e \<Longrightarrow> in_order rs (e # h)"
  by (cases e) (auto simp: checks_stay restart_rule_def gate_events_def tears_down_def)

lemma checks_triple:
  "triple (each (restart_rule rs)) (restart_checks env rs) (\<lambda>_. in_order rs) (each (restart_rule rs))"
  by (auto simp: triple_def restart_checks_def act_then_Some act call_def restart_rule_def tears_down_def checks_passed_def
      split: if_splits sum.splits)

lemma gate_triple:
  "triple (in_order rs) (ensure_previous_runtime_down env path (rs_wait rs) settle)
     (\<lambda>_ h. in_order rs h \<and> way_clear rs h) (in_order rs)"
proof -
  have load: "triple (in_order rs) (load_or_none env path)
      (\<lambda>c h. in_order rs h \<and> (c = None \<longrightarrow> way_clear rs h)) (in_order rs)"
    by (auto simp: triple_def load_or_none_def act_catch_Some act_then_Some act checks_stay restart_rule_def tears_down_def
        way_clear_def split: sum.splits)
  have made: "triple (in_order rs) (act_try (on_runtime env c) Made_Runtime) (\<lambda>_. in_order rs) (in_order rs)" for c
    by (rule keeps_simple) (auto simp: checks_stay restart_rule_def tears_down_def)
  have kill: "triple (in_order rs) (act_then (escalate_to_sigkill env settle)
        (\<lambda>(stopped, pid). if stopped then act_ret () else act_raise stop_escalation_error))
      (\<lambda>_ h. in_order rs h \<and> way_clear rs h) (in_order rs)"
    by (rule triple_then [OF escalate_triple [where P = "in_order rs" and B = "in_order rs"]])
      (auto simp: checks_stay restart_rule_def tears_down_def gate_events_def way_clear_def triple_def act
        split: stop_event.splits if_splits)
  have poll: "triple (in_order rs) (act_then (poll_until_stopped env (rs_wait rs)) (\<lambda>down. if down then act_ret ()
        else act_then (escalate_to_sigkill env settle)
          (\<lambda>(stopped, pid). if stopped then act_ret () else act_raise stop_escalation_error)))
      (\<lambda>_ h. in_order rs h \<and> way_clear rs h) (in_order rs)"
    by (rule triple_then, rule poll_plain, rule in_order_gate, assumption, assumption)
      (rule triple_cases, simp add: triple_def act way_clear_def, rule triple_weaken [OF kill], auto)
  show ?thesis
    unfolding ensure_previous_runtime_down_def
  proof (rule triple_cases)
    assume "rs_wait rs \<le> 0"
    then show "triple (in_order rs) (wait 2) (\<lambda>_ h. in_order rs h \<and> way_clear rs h) (in_order rs)"
      by (auto simp: triple_def act checks_stay restart_rule_def tears_down_def way_clear_def)
  next
    show "triple (in_order rs) (act_then (load_or_none env path) (\<lambda>config. case config of None \<Rightarrow> wait 2
         | Some cfg \<Rightarrow> act_then (act_try (on_runtime env cfg) Made_Runtime) (\<lambda>_.
            act_then (poll_until_stopped env (rs_wait rs)) (\<lambda>down. if down then act_ret ()
              else act_then (escalate_to_sigkill env settle)
                (\<lambda>(stopped, pid). if stopped then act_ret () else act_raise stop_escalation_error)))))
        (\<lambda>_ h. in_order rs h \<and> way_clear rs h) (in_order rs)"
    proof (rule triple_then [OF load], rule triple_option, goal_cases)
      case (1 x)
      then show ?case
        by (auto simp: triple_def act checks_stay restart_rule_def tears_down_def way_clear_def)
    next
      case (2 x cfg)
      show ?case by (rule triple_then [OF triple_weaken [OF made] poll]) auto
    qed
  qed
qed

lemma starts_triple: "triple (\<lambda>h. in_order rs h \<and> way_clear rs h) (start_attempts env ds) (\<lambda>_. in_order rs) (in_order rs)"
proof -
  define Q where "Q = (\<lambda>h. in_order rs h \<and> way_clear rs h)"
  have start: "Q (Start_Called a # h)" and waited: "Q (Waited d # h)" if "Q h" for a d h
    using that by (auto simp: Q_def checks_stay restart_rule_def tears_down_def way_clear_def)
  have "keeps Q (start_attempts env ds)"
    by (induction ds) (auto intro!: keeps_rules start waited)
  then show ?thesis by (rule triple_weaken) (auto simp: Q_def)
qed

text \<open>
  C7: however a restart ends, nothing of the agent was torn down (hooks, runtime, scope, process,
  registry) before its credentials, engine, runtime and workspace had been checked, and a
  replacement was started only after those checks, over a runtime whose last reading was not
  running. The two exceptions of the code are a gate that was switched off and a spec that could not
  be loaded.
\<close>

theorem restart_is_ordered:
  assumes "agent_restart env shown rs [] = Some (r, h)"
  shows "each (restart_rule rs) h"
proof -
  let ?V = "each (restart_rule rs)"
  have stop: "keeps (in_order rs) (agent_stop env shown rq)" for rq
    by (rule agent_stop_keeps) (use in_order_stop in blast)
  have rest: "triple (in_order rs)
      (act_then (agent_stop env shown rq) (\<lambda>_. act_then (ensure_previous_runtime_down env path (rs_wait rs) sigkill_settle)
        (\<lambda>_. start_attempts env start_retry_delays))) (\<lambda>_. ?V) ?V" for rq path
    by (rule triple_weaken [OF triple_then [OF stop triple_then [OF gate_triple starts_triple]]]) auto
  have checked: "triple ?V (act_then (restart_checks env rs) (\<lambda>_. act_then (agent_stop env shown rq)
      (\<lambda>_. act_then (ensure_previous_runtime_down env path (rs_wait rs) sigkill_settle)
        (\<lambda>_. start_attempts env start_retry_delays)))) (\<lambda>_. ?V) ?V" for rq path
    by (rule triple_then [OF checks_triple rest])
  have entry: "keeps ?V (entry_path env False)"
    unfolding entry_path_def by (intro keeps_rules) (auto simp: restart_rule_def tears_down_def)
  have "keeps ?V (agent_restart env shown rs)"
    unfolding agent_restart_def
    by (rule keeps_then, rule keeps_simple, simp add: restart_rule_def tears_down_def,
        rule keeps_then [OF entry], rule keeps_cases(2), rule keeps_simple, rule checked)
  from keepsD [OF this _ assms] show ?thesis by simp
qed

theorem restart_is_ordered_witness:
  "\<exists>h. agent_restart (demo_host True (Some demo_row)) (\<lambda>_. []) demo_restart [] = Some (Inr True, h) \<and>
     killed_yet h \<and> each (restart_rule demo_restart) h"
proof -
  from demo_result obtain h where run:
    "agent_restart (demo_host True (Some demo_row)) (\<lambda>_. []) demo_restart [] = Some (Inr True, h)" "killed_yet h"
    unfolding demo_result_def by auto
  from restart_is_ordered [OF run(1)] run show ?thesis by blast
qed

subsection \<open>Killing\<close>

definition kills :: "stop_history \<Rightarrow> nat" where
  "kills h = length (filter (\<lambda>e. case e of Kill_Sent _ _ \<Rightarrow> True | _ \<Rightarrow> False) h)"

definition kill_rule :: "stop_env \<Rightarrow> time \<Rightarrow> stop_event \<Rightarrow> stop_history \<Rightarrow> bool" where
  "kill_rule env grace e h \<longleftrightarrow>
     (case e of
        Kill_Sent pid _ \<Rightarrow>
          0 < pid \<and> pid \<noteq> own_pid env \<and> last_pid h = Some (Some pid) \<and> last_running h = Some True \<and> kills h = 0 \<and>
          times_read h \<noteq> [] \<and> last (times_read h) + grace \<le> hd (times_read h)
      | _ \<Rightarrow> True)"

lemma times_read_append: "times_read (h2 @ h1) = times_read h2 @ times_read h1"
  by (induction h2) (auto split: stop_event.split)

lemma kills_simps [simp]:
  "kills [] = 0" "gate_events e \<Longrightarrow> kills (e # h) = kills h" "kills (Kill_Sent p r # h) = Suc (kills h)"
  "kills (Asked_Pid q # h) = kills h"
  by (auto simp: kills_def gate_events_def split: stop_event.splits)

lemma kill_rule_gate [simp]: "gate_events e \<Longrightarrow> kill_rule env grace e h"
  by (auto simp: kill_rule_def gate_events_def split: stop_event.splits)

definition before_kill :: "stop_env \<Rightarrow> time \<Rightarrow> stop_history \<Rightarrow> bool" where
  "before_kill env grace h \<longleftrightarrow>
     each (kill_rule env grace) h \<and> kills h = 0 \<and>
     (\<exists>h0 h1 t0. times_read h0 = [] \<and> h = h1 @ Read_Time t0 # h0 \<and> gave_up_at (t0 + grace) h)"

lemma before_kill_kills:
  assumes "before_kill env grace h" "0 < n" "n \<noteq> own_pid env"
  shows "kill_rule env grace (Kill_Sent n r) (Asked_Pid (Some n) # h)"
proof -
  from assms(1) obtain h0 h1 t0 t h' where h: "times_read h0 = []" "h = h1 @ Read_Time t0 # h0"
    "h = Read_Time t # Asked_Running True # h'" "t0 + grace \<le> t" and none: "kills h = 0"
    unfolding before_kill_def gave_up_at_def by blast
  have "last (times_read h) = t0" unfolding h(2) by (simp add: times_read_append h(1))
  then show ?thesis using assms(2,3) none h(3,4) by (simp add: kill_rule_def)
qed

text \<open>
  C8: the gate before a new start kills at most one process, and only the one the runtime names at
  that moment, which is neither sac itself nor a process group (a positive pid), after the runtime
  was read as still running once the whole grace had passed. It returns only on a reading of not
  running, unless it was switched off or the spec could not be loaded.
\<close>

theorem gate_kills_only_the_survivor:
  assumes "ensure_previous_runtime_down env path grace settle [] = Some (r, h)"
  shows "each (kill_rule env grace) h \<and> kills h \<le> 1 \<and>
     (r = Inr () \<longrightarrow> grace \<le> 0 \<or> last_running h = Some False \<or> (\<exists>e. last_load h = Some (Inl e)))"
proof -
  let ?V = "each (kill_rule env grace)"
  let ?F = "\<lambda>h. ?V h \<and> kills h \<le> 1"
  let ?B = "\<lambda>h. ?V h \<and> kills h = 0 \<and> times_read h = []"
  have F: "?F (e # h)" if "?F h" "gate_events e" for e h using that by simp
  have poll: "triple ?B (poll_until_stopped env grace)
      (\<lambda>b h. if b then ?F h \<and> last_running h = Some False else before_kill env grace h) ?F"
    by (rule triple_weaken [OF poll_triple [where P = "\<lambda>h. ?V h \<and> kills h = 0" and B = ?B]])
      (auto simp: before_kill_def split: if_splits)
  have kill: "triple (before_kill env grace) (escalate_to_sigkill env settle)
      (\<lambda>r h. ?F h \<and> (fst r \<longrightarrow> last_running h = Some False)) ?F"
  proof (rule escalate_triple [where P = ?F])
    show "?F (e # h)" if "?F h" "gate_events e" for e h using that by (rule F)
    show "?F (Asked_Pid n # h)" if "before_kill env grace h" for n h
      using that by (auto simp: before_kill_def kill_rule_def)
    show "?F (Kill_Sent n q # Asked_Pid (Some n) # h)" if "before_kill env grace h" "0 < n" "n \<noteq> own_pid env" for n q h
      using before_kill_kills [OF that] that(1) by (auto simp: before_kill_def, simp add: kill_rule_def)
  qed
  let ?Q = "\<lambda>_ h. ?F h \<and> (grace \<le> 0 \<or> last_running h = Some False \<or> (\<exists>e. last_load h = Some (Inl e)))"
  have tail: "triple ?B (act_then (poll_until_stopped env grace) (\<lambda>down. if down then act_ret ()
        else act_then (escalate_to_sigkill env settle)
          (\<lambda>(stopped, pid). if stopped then act_ret () else act_raise stop_escalation_error))) ?Q ?F"
  proof (rule triple_then [OF poll], rule triple_cases)
    fix down
    show "triple (\<lambda>h. if down then ?F h \<and> last_running h = Some False else before_kill env grace h) (act_ret ()) ?Q ?F"
      if down using that by (simp add: triple_def act_ret_def)
    show "triple (\<lambda>h. if down then ?F h \<and> last_running h = Some False else before_kill env grace h)
        (act_then (escalate_to_sigkill env settle)
          (\<lambda>(stopped, pid). if stopped then act_ret () else act_raise stop_escalation_error)) ?Q ?F" if "\<not> down"
      using that by (intro triple_then [OF triple_pre [OF kill]]) (auto simp: triple_def act split: if_splits)
  qed
  have made: "triple ?B (act_try (on_runtime env c) Made_Runtime) (\<lambda>_. ?B) ?F" for c
    by (auto simp: triple_def act gate_events_def split: sum.split)
  have load: "triple ?B (load_or_none env path) (\<lambda>c h. ?B h \<and> (c = None \<longrightarrow> (\<exists>e. last_load h = Some (Inl e)))) ?F"
    by (auto simp: triple_def load_or_none_def act_catch_Some act_then_Some act gate_events_def split: sum.splits)
  have gate: "triple ?B (ensure_previous_runtime_down env path grace settle) ?Q ?F"
    unfolding ensure_previous_runtime_down_def
  proof (rule triple_cases, simp add: triple_def act gate_events_def, rule triple_then [OF load], rule triple_option, goal_cases)
    case (1 c)
    then show ?case by (auto simp: triple_def act gate_events_def)
  next
    case (2 c cfg)
    show ?case by (rule triple_then [OF triple_pre [OF made] tail]) simp
  qed
  have "?B []" by simp
  from gate [unfolded triple_def, rule_format, OF this assms] show ?thesis by (cases r) auto
qed

definition demo_gate :: "(unit result \<times> nat) option" where
  "demo_gate =
     map_option (\<lambda>(r, h). (r, kills h)) (ensure_previous_runtime_down (demo_host True (Some demo_row)) ''spec.yaml'' 1 5 [])"

lemma demo_gate: "demo_gate = Some (Inr (), 1)"
  by code_simp

theorem gate_kills_only_the_survivor_witness:
  "\<exists>h. kills h = 1 \<and> each (kill_rule (demo_host True (Some demo_row)) 1) h \<and> kills h \<le> 1 \<and>
     (Inr () = (Inr () :: unit result) \<longrightarrow> (1 :: time) \<le> 0 \<or> last_running h = Some False \<or> (\<exists>e. last_load h = Some (Inl e)))"
proof -
  from demo_gate obtain h where run:
    "ensure_previous_runtime_down (demo_host True (Some demo_row)) ''spec.yaml'' 1 5 [] = Some (Inr (), h)" "kills h = 1"
    unfolding demo_gate_def by auto
  from gate_kills_only_the_survivor [OF run(1)] run(2) show ?thesis by blast
qed

subsection \<open>Stopping the recorded scope\<close>

definition scope_rule :: "scope_ownership \<Rightarrow> stop_event \<Rightarrow> stop_history \<Rightarrow> bool" where
  "scope_rule so e h \<longleftrightarrow>
     (case e of
        Scope_Stop unit _ \<Rightarrow>
          unit = so_unit so \<and> vouched so h \<and> list_all (\<lambda>e. case e of Scope_Stop _ _ \<Rightarrow> False | _ \<Rightarrow> True) h
      | _ \<Rightarrow> True)"

text \<open>
  C10: systemd is asked to stop a scope at most once, only the unit recorded at launch, and only after
  the live unit showed the recorded control group and invocation and every process of the group was
  read as belonging to the recorded user and group. The scope counts as down only when the last
  reading of its group was empty and the last identity of the launch pid was not the launched
  process.
\<close>

theorem only_the_recorded_scope_is_stopped:
  assumes "ensure_owned_scope_down env shown timeout row [] = Some (r, h)"
  shows "case ownership_from_record shown (own_uid env) row of
      None \<Rightarrow> r = Inr False \<and> h = []
    | Some so \<Rightarrow> each (scope_rule so) h \<and> (r = Inr True \<longrightarrow> seen_down so h)"
proof (cases "ownership_from_record shown (own_uid env) row")
  case None
  with assms show ?thesis by (simp add: ensure_owned_scope_down_def act_ret_def)
next
  case (Some so)
  let ?V = "each (scope_rule so)"
  let ?B = "\<lambda>h. ?V h \<and> list_all (\<lambda>e. case e of Scope_Stop _ _ \<Rightarrow> False | _ \<Rightarrow> True) h"
  have look: "scope_rule so e h" "case e of Scope_Stop _ _ \<Rightarrow> False | _ \<Rightarrow> True" if "look_events e" for e h
    using that by (auto simp: look_events_def scope_rule_def split: stop_event.splits)
  have down: "triple ?B (ensure_owned_scope_down env shown timeout row) (\<lambda>b h. ?V h \<and> (b \<longrightarrow> seen_down so h)) ?V"
    by (rule scope_down_triple [where P = ?V and B = ?B, OF Some]) (simp_all add: look, simp add: scope_rule_def)
  have "?B []" by simp
  from down [unfolded triple_def, rule_format, OF this assms] Some show ?thesis by (cases r) auto
qed

theorem only_the_recorded_scope_is_stopped_witness:
  "\<exists>h so. ownership_from_record (\<lambda>_. []) 1000 demo_row = Some so \<and> each (scope_rule so) h \<and> seen_down so h"
proof -
  have so: "ownership_from_record (\<lambda>_. []) 1000 demo_row =
      Some \<lparr>so_pid = 41, so_start = 5, so_uid = 1000, so_cgroup = ''/user/ada.scope'', so_unit = ''ada.scope'',
        so_invocation = replicate 32 CHR ''a''\<rparr>"
    by code_simp
  have "map_option fst (ensure_owned_scope_down (demo_host True (Some demo_row)) (\<lambda>_. []) 95 demo_row []) = Some (Inr True)"
    by code_simp
  then obtain h where "ensure_owned_scope_down (demo_host True (Some demo_row)) (\<lambda>_. []) 95 demo_row [] = Some (Inr True, h)"
    by auto
  from only_the_recorded_scope_is_stopped [OF this] so show ?thesis by (auto simp: demo_host_def)
qed

end
