(* ===== verification/Stop_Exit.thy ===== *)
theory Stop_Exit
  imports Stop_Claims
begin

text \<open>
  The end of a stop: an agent leaves the registry only when it was proved down; every stop and
  restart returns; and what is recorded of a scope at launch is what a later stop reads.
\<close>

subsection \<open>Leaving the registry\<close>

text \<open>The incarnation of a terminal agent was proved down, on its recorded ownership.\<close>

definition proved_down :: "stop_env \<Rightarrow> (int \<Rightarrow> string) \<Rightarrow> stop_history \<Rightarrow> bool" where
  "proved_down env shown h \<longleftrightarrow>
     Called (Record_Outcome 0) (Inr ()) \<in> set h \<and>
     (\<exists>row so. Asked_Instance (Inr (Some row)) \<in> set h \<and> ownership_from_record shown (own_uid env) row = Some so \<and>
        seen_down so h)"

text \<open>
  When the registry row may go: a terminal agent was proved down, the runtime of the agent is no
  terminal, or no runtime was ever made, the stop being forced and the spec not loadable.
\<close>

definition row_rule :: "stop_env \<Rightarrow> (int \<Rightarrow> string) \<Rightarrow> bool \<Rightarrow> stop_event \<Rightarrow> stop_history \<Rightarrow> bool" where
  "row_rule env shown force e h \<longleftrightarrow>
     (case e of
        Called Remove_Row _ \<Rightarrow>
          if Made_Runtime (Inr True) \<in> set h then proved_down env shown h
          else Made_Runtime (Inr False) \<in> set h \<or> force \<and> (\<exists>e. Loaded (Inl e) \<in> set h)
      | _ \<Rightarrow> True)"

lemma row_rule_other [simp]: "(\<And>q. e \<noteq> Called Remove_Row q) \<Longrightarrow> row_rule env shown force e h"
  unfolding row_rule_def by (cases e) (auto split: stop_call.split)

lemma proved_down_stays:
  "proved_down env shown h \<Longrightarrow> case e of Called _ _ \<Rightarrow> True | _ \<Rightarrow> False \<Longrightarrow> proved_down env shown (e # h)"
  by (cases e) (auto simp: proved_down_def seen_down_def)

definition on_the_way :: "stop_env \<Rightarrow> (int \<Rightarrow> string) \<Rightarrow> bool \<Rightarrow> bool \<Rightarrow> incarnation_row option \<Rightarrow> stop_history \<Rightarrow> bool" where
  "on_the_way env shown force tui inst h \<longleftrightarrow>
     each (row_rule env shown force) h \<and> (Made_Runtime (Inr True) \<in> set h \<longrightarrow> tui) \<and> Made_Runtime (Inr tui) \<in> set h \<and>
     (\<forall>row. inst = Some row \<longrightarrow> Asked_Instance (Inr (Some row)) \<in> set h)"

lemma on_the_way_step:
  "on_the_way env shown force tui inst h \<Longrightarrow> (\<And>q. e \<noteq> Called Remove_Row q) \<Longrightarrow> e \<noteq> Made_Runtime (Inr True) \<Longrightarrow>
     on_the_way env shown force tui inst (e # h)"
  by (auto simp: on_the_way_def)

lemma on_the_way_probe: "on_the_way env shown force tui inst h \<Longrightarrow> probe_events e \<Longrightarrow> on_the_way env shown force tui inst (e # h)"
  by (rule on_the_way_step) (auto simp: probe_events_def)

lemma verified_down:
  "triple (on_the_way env shown force True inst) (verify_tui_incarnation_stopped env shown inst)
     (\<lambda>_ h. on_the_way env shown force True inst h \<and> proved_down env shown h) (on_the_way env shown force True inst)"
proof (cases inst)
  case None
  then show ?thesis by (simp add: verify_tui_incarnation_stopped_def triple_def act)
next
  case (Some row)
  let ?I = "on_the_way env shown force True inst"
  have look: "?I (e # h)" if "?I h" "look_events e" for e h
    using on_the_way_probe [OF that(1)] that(2) by (simp add: look_events_def)
  have down: "triple ?I (ensure_owned_scope_down env shown scope_stop_timeout row)
      (\<lambda>b h. ?I h \<and> (b \<longrightarrow> (\<exists>so. ownership_from_record shown (own_uid env) row = Some so \<and> seen_down so h))) ?I"
  proof (cases "ownership_from_record shown (own_uid env) row")
    case None
    then show ?thesis by (simp add: ensure_owned_scope_down_def triple_def act)
  next
    case (Some so)
    show ?thesis
      by (rule triple_weaken [OF scope_down_triple [where P = ?I and B = ?I, OF Some]])
        (auto intro: look on_the_way_step simp: Some)
  qed
  have ok: "triple (\<lambda>h. ?I h \<and> (\<exists>so. ownership_from_record shown (own_uid env) row = Some so \<and> seen_down so h))
      (call env (Record_Outcome 0)) (\<lambda>_ h. ?I h \<and> proved_down env shown h) ?I"
    using Some by (auto simp: triple_def call_def act proved_down_def seen_down_def on_the_way_def split: sum.split)
  have bad: "triple ?I (act_then (call env (Record_Outcome 3)) (\<lambda>_. act_raise stop_unverified))
      (\<lambda>_ h. ?I h \<and> proved_down env shown h) ?I"
    by (auto simp: triple_def act_then_Some call_def act intro: on_the_way_step split: sum.split)
  show ?thesis
    unfolding verify_tui_incarnation_stopped_def Some option.case
    by (rule triple_cases, rule bad [unfolded Some], rule triple_then [OF down [unfolded Some]], rule triple_cases,
        rule triple_pre [OF ok [unfolded Some]], simp, rule triple_pre [OF bad [unfolded Some]], simp)
qed

lemma leaves_when_down:
  "triple (\<lambda>h. on_the_way env shown (rq_force rq) tui inst h \<and> (tui \<longrightarrow> proved_down env shown h)) (leave_registry env rq)
     (\<lambda>_. each (row_rule env shown (rq_force rq))) (each (row_rule env shown (rq_force rq)))"
proof -
  let ?I = "\<lambda>h. on_the_way env shown (rq_force rq) tui inst h \<and> (tui \<longrightarrow> proved_down env shown h)"
  have step: "?I (Called c q # h)" if "?I h" "c \<noteq> Remove_Row" for c q h
    using that by (auto intro: on_the_way_step proved_down_stays)
  have remove: "?I (Called Remove_Row q # h)" if "?I h" for q h
    using that by (cases tui) (auto intro: proved_down_stays simp: on_the_way_def row_rule_def)
  have "keeps ?I (leave_registry env rq)"
    unfolding leave_registry_def unless_forced_def best_effort_def
    by (intro keeps_rules step remove) simp_all
  then show ?thesis by (rule triple_weaken) (auto simp: on_the_way_def)
qed

lemma stop_with_leaves:
  "triple (\<lambda>h. each (row_rule env shown (rq_force rq)) h \<and> (\<forall>b. Made_Runtime (Inr b) \<notin> set h)) (stop_with env shown rq cfg)
     (\<lambda>_. each (row_rule env shown (rq_force rq))) (each (row_rule env shown (rq_force rq)))"
proof -
  let ?V = "each (row_rule env shown (rq_force rq))"
  have made: "triple (\<lambda>h. ?V h \<and> (\<forall>b. Made_Runtime (Inr b) \<notin> set h)) (act_try (on_runtime env cfg) Made_Runtime)
      (\<lambda>tui. on_the_way env shown (rq_force rq) tui None) ?V"
    by (auto simp: triple_def act on_the_way_def split: sum.split)
  have inst: "triple (on_the_way env shown (rq_force rq) tui None)
      (if tui then act_try (on_instance env) Asked_Instance else act_ret None) (\<lambda>inst. on_the_way env shown (rq_force rq) tui inst) ?V" for tui
    by (auto simp: triple_def act on_the_way_def split: sum.split)
  have V: "triple (on_the_way env shown (rq_force rq) tui inst) m Q (on_the_way env shown (rq_force rq) tui inst) \<Longrightarrow>
      triple (on_the_way env shown (rq_force rq) tui inst) m Q ?V" for tui inst and m :: "'x act" and Q
    by (erule triple_weaken) (auto simp: on_the_way_def)
  note keep = on_the_way_step [of env shown "rq_force rq" tui inst for tui inst] on_the_way_probe [of env shown "rq_force rq" tui inst for tui inst]
  have early: "keeps (on_the_way env shown (rq_force rq) tui inst)
      (if tui \<and> inst \<noteq> None \<and> \<not> has_complete_scope_ownership inst
       then verify_tui_incarnation_stopped env shown inst else act_ret ())" for tui inst
    by (intro keeps_rules verify_keeps keep(2))
  have turn: "keeps (on_the_way env shown (rq_force rq) tui inst) (wait_for_turn env rq cfg tui)" for tui inst
    unfolding wait_for_turn_def by (intro keeps_rules guard_keeps keep(2)) (auto simp: probe_events_def)
  have hooks: "keeps (on_the_way env shown (rq_force rq) tui inst) (best_effort (call env Snapshot))"
    "keeps (on_the_way env shown (rq_force rq) tui inst) (unless_forced (rq_force rq) (call env (Hooks ''pre_stop'')))"
    "keeps (on_the_way env shown (rq_force rq) tui inst) (call env (Fire_Hook ''pre_stop''))"
    "keeps (on_the_way env shown (rq_force rq) tui inst) (stop_runtime env tui (rq_force rq))" for tui inst
    unfolding best_effort_def unless_forced_def stop_runtime_def
    by (intro keeps_rules; auto intro: keep(1))+
  have late: "triple (on_the_way env shown (rq_force rq) tui inst)
      (if tui then verify_tui_incarnation_stopped env shown inst else act_ret ())
      (\<lambda>_ h. on_the_way env shown (rq_force rq) tui inst h \<and> (tui \<longrightarrow> proved_down env shown h)) (on_the_way env shown (rq_force rq) tui inst)" for tui inst
    by (cases tui) (simp_all add: verified_down, simp add: triple_def act)
  show ?thesis
    unfolding stop_with_def
    by (rule triple_then [OF made triple_then [OF inst triple_then [OF V [OF early] triple_then [OF V [OF turn]
        triple_then [OF V [OF hooks(1)] triple_then [OF V [OF hooks(2)] triple_then [OF V [OF hooks(3)]
        triple_then [OF V [OF hooks(4)] triple_then [OF V [OF late] leaves_when_down]]]]]]]]])
qed

lemma config_leaves:
  fixes rq :: stop_request and env :: stop_env and shown :: "int \<Rightarrow> string"
  defines "P \<equiv> \<lambda>h. each (row_rule env shown (rq_force rq)) h \<and> (\<forall>b. Made_Runtime (Inr b) \<notin> set h)"
  shows "keeps P (config_for_stop env rq path)"
proof -
  let ?R = "\<lambda>h. P h \<and> (\<exists>e. Loaded (Inl e) \<in> set h)"
  have load: "triple P (act_then (act_try (on_load env path) Loaded) (\<lambda>cfg. act_ret (Some cfg))) (\<lambda>_. P) ?R"
    by (auto simp: triple_def act_then_Some act P_def split: sum.splits)
  have again: "keeps ?R (load_config_for_teardown env path (rq_name rq))"
    unfolding load_config_for_teardown_def by (intro keeps_rules) (auto simp: P_def)
  have read: "triple ?R (act_then (load_config_for_teardown env path (rq_name rq)) (\<lambda>cfg. act_ret (Some cfg)))
      (\<lambda>found h. ?R h \<and> (found = None \<longrightarrow> rq_force rq)) ?R"
    by (rule triple_then [OF again]) (simp add: triple_def act)
  have unread: "triple ?R (if rq_force rq then act_ret None else act_raise e)
      (\<lambda>found h. ?R h \<and> ((found :: agent_config option) = None \<longrightarrow> rq_force rq)) P" for e
    by (simp add: triple_def act)
  note found = triple_catch [OF read unread]
  have gone: "triple (\<lambda>h. ?R h \<and> (found = None \<longrightarrow> rq_force rq))
      (case found of Some cfg \<Rightarrow> act_ret (Some cfg) | None \<Rightarrow> act_then (call env Remove_Row) (\<lambda>_. act_ret None))
      (\<lambda>_. P) P" for found :: "agent_config option"
    by (cases found) (auto simp: triple_def act_then_Some call_def act P_def row_rule_def split: sum.splits)
  show ?thesis
    unfolding config_for_stop_def by (rule triple_catch [OF load triple_then [OF found gone]])
qed

text \<open>
  C9: however a stop ends, the registry row of an agent is removed only in one of three cases. Its
  runtime is a terminal, and then the instance read for it carries a complete ownership, its cgroup
  was last read empty, the process it was launched as was last read gone, and the outcome was
  recorded; or its runtime is no terminal; or no runtime was made at all, because the stop is forced and
  the spec could not be loaded, in which case nothing was looked at.
\<close>

theorem row_goes_only_when_down:
  assumes "agent_stop env shown rq [] = Some (r, h)"
  shows "each (row_rule env shown (rq_force rq)) h"
proof -
  let ?V = "each (row_rule env shown (rq_force rq))"
  let ?P = "\<lambda>h. ?V h \<and> (\<forall>b. Made_Runtime (Inr b) \<notin> set h)"
  have entry: "keeps ?P (entry_path env (rq_force rq))"
    unfolding entry_path_def by (intro keeps_rules) auto
  have V: "keeps ?P m \<Longrightarrow> triple ?P m (\<lambda>_. ?P) ?V" for m :: "'x act"
    by (erule triple_weaken) auto
  have "triple ?P (agent_stop env shown rq) (\<lambda>_. ?V) ?V"
    unfolding agent_stop_def
    by (rule triple_then [OF V], rule keeps_simple, force, rule triple_then [OF V [OF entry]], rule triple_option,
        simp add: triple_def act, rule triple_then [OF V [OF config_leaves]], rule triple_option, simp add: triple_def act,
        rule stop_with_leaves)
  moreover have "?P []" by simp
  ultimately show ?thesis using assms unfolding triple_def by (cases r) fastforce+
qed

lemma demo_stopped:
  "map_option (\<lambda>(r, h). (r, list_ex (\<lambda>e. case e of Called Remove_Row _ \<Rightarrow> True | _ \<Rightarrow> False) h))
     (agent_stop (demo_host True (Some demo_row)) (\<lambda>_. [])
       \<lparr>rq_name = ''ada'', rq_force = False, rq_prune = True, rq_drain = 0, rq_allow = None\<rparr> []) = Some (Inr True, True)"
  by code_simp

theorem row_goes_only_when_down_witness:
  "\<exists>h. list_ex (\<lambda>e. case e of Called Remove_Row _ \<Rightarrow> True | _ \<Rightarrow> False) h \<and>
     each (row_rule (demo_host True (Some demo_row)) (\<lambda>_. []) False) h"
proof -
  from demo_stopped obtain h where "agent_stop (demo_host True (Some demo_row)) (\<lambda>_. [])
       \<lparr>rq_name = ''ada'', rq_force = False, rq_prune = True, rq_drain = 0, rq_allow = None\<rparr> [] = Some (Inr True, h)"
    "list_ex (\<lambda>e. case e of Called Remove_Row _ \<Rightarrow> True | _ \<Rightarrow> False) h" by auto
  moreover from row_goes_only_when_down [OF this(1)]
  have "each (row_rule (demo_host True (Some demo_row)) (\<lambda>_. []) False) h" by (simp only: stop_request.simps)
  ultimately show ?thesis by blast
qed

text \<open>
  A terminal agent whose instance row cannot be found: the hooks run and the runtime is stopped,
  and then the stop is refused because nothing is known of the process.
\<close>

lemma unrecorded_is_stopped_then_refused:
  "map_option (\<lambda>(r, h). (r, list_ex (\<lambda>e. case e of Stop_Called _ \<Rightarrow> True | _ \<Rightarrow> False) h))
     (agent_stop (demo_host True None) (\<lambda>_. [])
       \<lparr>rq_name = ''ada'', rq_force = True, rq_prune = False, rq_drain = 0, rq_allow = None\<rparr> []) = Some (Inl stop_unverified, True)"
  by code_simp

subsection \<open>Every stop returns\<close>

definition ends :: "'a act \<Rightarrow> bool" where
  "ends m \<longleftrightarrow> (\<forall>h. m h \<noteq> None)"

lemma ends_simple: "ends (act_ret x)" "ends (act_raise e)" "ends (act_ask f ev)" "ends (act_try g tv)" "ends (wait d)"
    "ends (now env)" "ends (call env c)" "ends (runs_now env)" "ends (long_lived_pid env)" "ends (group_pids env so)"
  by (simp_all add: ends_def act now_def call_def runs_now_def long_lived_pid_def group_pids_def)

lemma ends_then: "ends m \<Longrightarrow> (\<And>x. ends (f x)) \<Longrightarrow> ends (act_then m f)"
  by (auto simp: ends_def act_then_def split: option.split prod.split sum.split)

lemma ends_catch: "ends m \<Longrightarrow> (\<And>e. ends (f e)) \<Longrightarrow> ends (act_catch m f)"
  by (auto simp: ends_def act_catch_def split: option.split prod.split sum.split)

lemma ends_cases:
  "ends m \<Longrightarrow> ends m' \<Longrightarrow> ends (if b then m else m')"
  "ends n \<Longrightarrow> (\<And>x. ends (f x)) \<Longrightarrow> ends (case opt of None \<Rightarrow> n | Some x \<Rightarrow> f x)"
  "(\<And>x y. ends (g x y)) \<Longrightarrow> ends (case pair of (x, y) \<Rightarrow> g x y)"
  "(\<And>p. ends (pf p)) \<Longrightarrow> ends pm \<Longrightarrow> (\<And>e. ends (pr e)) \<Longrightarrow>
     ends (case path of Path_Found p \<Rightarrow> pf p | Path_Missing \<Rightarrow> pm | Path_Raises e \<Rightarrow> pr e)"
  "(\<And>b. ends (sr b)) \<Longrightarrow> ends su \<Longrightarrow> (\<And>e. ends (se e)) \<Longrightarrow>
     ends (case s of Stop_Returns b \<Rightarrow> sr b | Stop_Unverified \<Rightarrow> su | Stop_Raises e \<Rightarrow> se e)"
  "ends ka \<Longrightarrow> ends kn \<Longrightarrow> ends kf \<Longrightarrow> (\<And>e. ends (kr e)) \<Longrightarrow>
     ends (case k of Killed \<Rightarrow> ka | No_Such_Process \<Rightarrow> kn | Kill_Failed \<Rightarrow> kf | Kill_Raises e \<Rightarrow> kr e)"
  "(\<And>b. ends (ar b)) \<Longrightarrow> (\<And>b. ends (aa b)) \<Longrightarrow> (\<And>e. ends (ae e)) \<Longrightarrow>
     ends (case a of Start_Returns b \<Rightarrow> ar b | Start_Aborts b \<Rightarrow> aa b | Start_Raises e \<Rightarrow> ae e)"
  by (simp_all split: option.split prod.split path_answer.split stop_answer.split kill_answer.split start_answer.split)

lemmas ends_rules = ends_then ends_catch ends_cases ends_simple

lemma ends_now: "time_runs env \<Longrightarrow> (\<And>t h. t \<le> on_time env h \<Longrightarrow> f t h \<noteq> None) \<Longrightarrow> ends (act_then (now env) f)"
  using time_runsD [of env _ "Read_Time _"] by (fastforce simp: ends_def act_then_def now_def act)

lemma paced_loop:
  assumes "paced env d p body" "d \<le> on_time env h + w" "0 < p"
  shows "act_loop (rounds w p) body h \<noteq> None"
proof -
  have "w \<le> of_nat (nat \<lceil>w / p\<rceil>) * p" using rounds_enough [of w p] assms(3) by (simp add: pos_divide_le_eq)
  with assms(2) have "d \<le> on_time env h + of_nat (nat \<lceil>w / p\<rceil>) * p" by simp
  from paced_ends [OF assms(1) this] show ?thesis unfolding rounds_def .
qed

lemma timed_loop:
  assumes "time_runs env" "\<And>d. paced env d p (body d)" "0 < p"
  shows "ends (act_then (now env) (\<lambda>t. act_loop (rounds w p) (body (t + w))))"
  by (rule ends_now [OF assms(1)], rule paced_loop [OF assms(2)]) (use assms(3) in simp_all)

text \<open>The time of a history and of one with more events.\<close>

lemma later:
  assumes "time_runs env"
  shows "on_time env h \<le> on_time env (Asked_Running b # h)" "on_time env h \<le> on_time env (Read_Time t # h)"
    "on_time env h + d \<le> on_time env (Waited d # h)" "on_time env h \<le> on_time env (Asked_Pids g ps # h)"
    "on_time env h \<le> on_time env (Asked_Identity p i # h)" "on_time env h \<le> on_time env (Asked_Turn a # h)"
  using time_runsD [OF assms, of h "Asked_Running b"] time_runsD [OF assms, of h "Read_Time t"]
    time_runsD [OF assms, of h "Waited d"] time_runsD [OF assms, of h "Asked_Pids g ps"]
    time_runsD [OF assms, of h "Asked_Identity p i"] time_runsD [OF assms, of h "Asked_Turn a"] by simp_all

lemma poll_paced: "time_runs env \<Longrightarrow> paced env d 0.25 (poll_round env d)"
  unfolding paced_def
proof
  fix h
  assume env: "time_runs env"
  let ?h1 = "Asked_Running True # h"
  let ?h2 = "Read_Time (on_time env ?h1) # ?h1"
  have "on_time env h + 0.25 \<le> on_time env (Waited 0.25 # ?h2)"
    using later(1) [OF env, of h True] later(2) [OF env, of ?h1 "on_time env ?h1"] later(3) [OF env, of ?h2 "0.25"] by simp
  then show "\<exists>r h'. poll_round env d h = Some (r, h') \<and>
      (r = Inr None \<longrightarrow> on_time env h < d \<and> (on_time env h + 0.25 \<le> on_time env h' \<or> d \<le> on_time env h'))"
    using later(1) [OF env, of h True]
    by (auto simp: poll_round_def runs_now_def now_def act_then_def act split: if_splits)
qed

lemma drain_paced: "time_runs env \<Longrightarrow> paced env d 0.5 (drain_round env began d)"
  unfolding paced_def
proof
  fix h
  assume env: "time_runs env"
  let ?h1 = "Asked_Turn (on_turn env h) # h"
  let ?h2 = "Read_Time (on_time env ?h1) # ?h1"
  let ?w = "min 0.5 (max 0 (d - on_time env ?h1))"
  have "on_time env h \<le> on_time env ?h1" "on_time env ?h1 \<le> on_time env ?h2" "on_time env ?h2 + ?w \<le> on_time env (Waited ?w # ?h2)"
    using later(6) [OF env] later(2) [OF env] later(3) [OF env] by blast+
  then show "\<exists>r h'. drain_round env began d h = Some (r, h') \<and>
      (r = Inr None \<longrightarrow> on_time env h < d \<and> (on_time env h + 0.5 \<le> on_time env h' \<or> d \<le> on_time env h'))"
    by (cases "on_turn env h") (auto simp: drain_round_def now_def act_then_def act split: if_splits)
qed

lemma scope_paced: "time_runs env \<Longrightarrow> paced env d 0.05 (scope_round env so d)"
  unfolding paced_def
proof
  fix h
  assume env: "time_runs env"
  let ?h1 = "Asked_Pids (so_cgroup so) (on_pids env (so_cgroup so) h) # h"
  let ?i = "Asked_Identity (so_pid so) (on_identity env (so_pid so) ?h1)"
  have 1: "on_time env h \<le> on_time env ?h1" "on_time env h \<le> on_time env (?i # ?h1)"
    using later(4) [OF env] later(5) [OF env] by (blast, meson order_trans)
  have 2: "on_time env h + 0.05 \<le> on_time env (Waited 0.05 # Read_Time t # g)" if "on_time env h \<le> on_time env g" for t g
    using that later(2) [OF env, of g t] later(3) [OF env, of "Read_Time t # g" "0.05"] by linarith
  show "\<exists>r h'. scope_round env so d h = Some (r, h') \<and>
      (r = Inr None \<longrightarrow> on_time env h < d \<and> (on_time env h + 0.05 \<le> on_time env h' \<or> d \<le> on_time env h'))"
    using 1 2 [OF 1(1)] 2 [OF 1(2)]
    by (auto simp: scope_round_def group_pids_def same_process_def now_def act_then_def act split: if_splits)
qed

lemma any_foreign_ends: "ends (any_foreign env so ps)"
  by (induction ps) (auto intro!: ends_rules)

lemma start_attempts_ends: "ends (start_attempts env ds)"
  by (induction ds) (auto intro!: ends_rules)

lemma scope_down_ends: "time_runs env \<Longrightarrow> ends (ensure_owned_scope_down env shown timeout row)"
  unfolding ensure_owned_scope_down_def same_process_def
  by (intro ends_rules any_foreign_ends timed_loop scope_paced) simp_all

lemma verify_ends: "time_runs env \<Longrightarrow> ends (verify_tui_incarnation_stopped env shown inst)"
  unfolding verify_tui_incarnation_stopped_def by (intro ends_rules scope_down_ends)

lemma drain_guard_ends:
  assumes "time_runs env"
  shows "ends (guard_managed_turn env cfg allow timeout)"
proof -
  have "act_then (act_loop (rounds timeout 0.5) (drain_round env t (t + timeout))) (\<lambda>r. act_ret (Some r)) h \<noteq> None"
    if "t \<le> on_time env h" for t h
    using paced_loop [OF drain_paced [OF assms], of "t + timeout" h timeout] that
    by (auto simp: act_then_def act split: option.split sum.split)
  then show ?thesis
    unfolding guard_managed_turn_def
    by (intro ends_cases ends_simple ends_now [OF assms]) (simp add: act)
qed

lemma stop_ends: "time_runs env \<Longrightarrow> ends (agent_stop env shown rq)"
  unfolding agent_stop_def entry_path_def config_for_stop_def load_config_for_teardown_def stop_with_def wait_for_turn_def
    stop_runtime_def leave_registry_def unless_forced_def best_effort_def
  by (intro ends_rules verify_ends drain_guard_ends)

lemma poll_ends: "time_runs env \<Longrightarrow> ends (poll_until_stopped env timeout)"
  unfolding poll_until_stopped_def by (intro timed_loop poll_paced) simp_all

text \<open>
  C29: on a clock that never goes back and advances by what is slept, every restart returns or raises:
  no loop of the stop, the scope's end, the gate or the start attempts runs for ever.
\<close>

theorem restart_returns:
  assumes "time_runs env"
  shows "\<exists>r h'. agent_restart env shown rs h = Some (r, h')"
proof -
  have "ends (agent_restart env shown rs)"
    unfolding agent_restart_def restart_checks_def entry_path_def ensure_previous_runtime_down_def escalate_to_sigkill_def
      send_sigkill_def load_or_none_def
    using assms by (intro ends_rules stop_ends poll_ends start_attempts_ends)
  then show ?thesis by (auto simp: ends_def)
qed

lemma demo_host_clock: "time_runs (demo_host tui row)"
  by (simp add: time_runs_def demo_host_def)

theorem restart_returns_witness:
  "\<exists>r h'. agent_restart (demo_host True (Some demo_row)) (\<lambda>_. []) demo_restart [] = Some (r, h')"
  by (rule restart_returns [OF demo_host_clock])

subsection \<open>The record of a launch\<close>

lemma hex_lower:
  assumes "hex_char c"
  shows "lower_char c = c"
proof -
  have order: "CHR ''9'' < CHR ''A''" "CHR ''Z'' < CHR ''a''" by (simp_all add: less_char_def)
  have "c < CHR ''A'' \<or> CHR ''Z'' < c"
    using assms le_less_trans [OF _ order(1), of c] less_le_trans [OF order(2), of c]
    unfolding hex_char_def digit_char_def by blast
  then have "\<not> (CHR ''A'' \<le> c \<and> c \<le> CHR ''Z'')" by (simp only: not_le de_Morgan_conj)
  then show ?thesis unfolding lower_char_def by (simp only: if_False)
qed

lemma invocation_lower: "invocation_id s \<Longrightarrow> map lower_char s = s"
  by (rule map_idI) (auto simp: invocation_id_def list_all_iff hex_lower)

text \<open>
  C30: the ownership captured from a live launch, written to the columns of its instance row, is
  complete and reads back as it was, so that a later stop acts on exactly the captured scope.
\<close>

theorem captured_scope_reads_back:
  assumes "capture_scope_ownership env pid [] = Some (Inr (Some so), h)" and "0 < so_pid so"
  shows "ownership_from_record shown (own_uid env) (to_record_fields so) = Some so \<and>
     has_complete_scope_ownership (Some (to_record_fields so))"
proof -
  from assms(1) have so: "so_uid so = own_uid env" "so_cgroup so \<noteq> []" "so_cgroup so \<noteq> ''/''"
    "so_unit so = path_name (so_cgroup so)" "ends_with (so_unit so) ''.scope''" "invocation_id (so_invocation so)"
    by (auto simp: capture_scope_ownership_def act_then_Some act split: option.splits if_splits)
  then have "so_unit so \<noteq> []" "so_invocation so \<noteq> []" by (auto simp: ends_with_def invocation_id_def)
  with so assms(2) show ?thesis
    by (simp add: ownership_from_record_def to_record_fields_def cell_int_def cell_str_def Let_def invocation_lower
        has_complete_scope_ownership_def ownership_columns_def)
qed

definition demo_launch :: "string \<times> int \<times> string" where
  "demo_launch =
     (''41 (claude) S 1 41 41 0 -1 0 0 0 0 0 0 0 0 0 20 0 1 0 5 0'', 1000,
      ''1:cpu:/x'' @ [CHR 0x0A] @ ''0::/user/ada.scope'' @ [CHR 0x0A])"

definition demo_show :: string where
  "demo_show = ''ControlGroup=/user/ada.scope'' @ [CHR 0x0A] @ ''InvocationID='' @ replicate 32 CHR ''A'' @ [CHR 0x0A]"

definition demo_capture :: "scope_ownership option result option" where
  "demo_capture =
     map_option fst (capture_scope_ownership
       ((demo_host True None)\<lparr>on_proc := \<lambda>_ _. Some demo_launch, on_show := \<lambda>_ _. Ran 0 demo_show\<rparr>) 41 [])"

lemma demo_capture:
  "demo_capture = Some (Inr (Some \<lparr>so_pid = 41, so_start = 5, so_uid = 1000, so_cgroup = ''/user/ada.scope'',
     so_unit = ''ada.scope'', so_invocation = replicate 32 CHR ''a''\<rparr>))"
  by code_simp

theorem captured_scope_reads_back_witness:
  "\<exists>so. so_unit so = ''ada.scope'' \<and> ownership_from_record (\<lambda>_. []) 1000 (to_record_fields so) = Some so \<and>
     has_complete_scope_ownership (Some (to_record_fields so))"
proof -
  let ?so = "\<lparr>so_pid = 41, so_start = 5, so_uid = 1000, so_cgroup = ''/user/ada.scope'',
     so_unit = ''ada.scope'', so_invocation = replicate 32 CHR ''a''\<rparr>"
  from demo_capture obtain z where "capture_scope_ownership
       ((demo_host True None)\<lparr>on_proc := \<lambda>_ _. Some demo_launch, on_show := \<lambda>_ _. Ran 0 demo_show\<rparr>) 41 [] = Some z"
    and "fst z = Inr (Some ?so)"
    unfolding demo_capture_def map_option_eq_Some by blast
  then have "capture_scope_ownership
       ((demo_host True None)\<lparr>on_proc := \<lambda>_ _. Some demo_launch, on_show := \<lambda>_ _. Ran 0 demo_show\<rparr>) 41 []
      = Some (Inr (Some ?so), snd z)"
    by (simp only: prod.collapse flip: \<open>fst z = _\<close>)
  from captured_scope_reads_back [OF this, of "\<lambda>_. []"] show ?thesis
    by (intro exI [of _ ?so]) (simp add: demo_host_def)
qed

end
