(* ===== verification/Process_Group.thy ===== *)
theory Process_Group
  imports Stop_Exit
begin

text \<open>
  Ending the processes behind a pane (\<open>_runners/_tmux/_process_group.py\<close>): the snapshot of what the
  pane owns, and TERM, grace, KILL sent only to groups that still are what the snapshot recorded.
\<close>

definition look_at :: "stop_env \<Rightarrow> int \<Rightarrow> process_identity option act" where
  "look_at env pid = act_ask (on_identity env pid) (Asked_Identity pid)"

definition entries :: "stop_env \<Rightarrow> string list act" where
  "entries env = act_ask (on_entries env) Asked_Entries"

subsection \<open>Snapshots\<close>

text \<open>One pass over \<open>/proc\<close>; \<open>None\<close>: a member of the group belongs to someone else.\<close>

fun group_members :: "stop_env \<Rightarrow> process_identity \<Rightarrow> string list \<Rightarrow> process_identity list option act" where
  "group_members env pane [] = act_ret (Some [])"
| "group_members env pane (name # names) =
     (if \<not> is_digits name then group_members env pane names
      else act_then (look_at env (int_of_digits name)) (\<lambda>member.
        case member of
          None \<Rightarrow> group_members env pane names
        | Some m \<Rightarrow>
            if pi_group m \<noteq> pi_group pane then group_members env pane names
            else if pi_uid m \<noteq> pi_uid pane \<or> pi_session m \<noteq> pi_session pane then act_ret None
            else act_then (group_members env pane names) (\<lambda>rest.
              act_ret (case rest of None \<Rightarrow> None | Some ms \<Rightarrow> Some (m # ms)))))"

definition capture_group :: "stop_env \<Rightarrow> int \<Rightarrow> process_identity list act" where
  "capture_group env pid =
     act_then (look_at env pid) (\<lambda>pane.
       case pane of
         None \<Rightarrow> act_ret []
       | Some p \<Rightarrow>
           if pi_uid p \<noteq> own_uid env \<or> pi_group p \<le> 1 \<or> pi_group p = own_group env then act_ret []
           else act_then (entries env) (\<lambda>names.
             act_then (group_members env p names) (\<lambda>ms.
               act_ret (case ms of None \<Rightarrow> [] | Some l \<Rightarrow> sort_key pi_pid l))))"

fun user_processes :: "stop_env \<Rightarrow> int \<Rightarrow> string list \<Rightarrow> process_identity list act" where
  "user_processes env uid [] = act_ret []"
| "user_processes env uid (name # names) =
     (if \<not> is_digits name then user_processes env uid names
      else act_then (look_at env (int_of_digits name)) (\<lambda>i.
        act_then (user_processes env uid names) (\<lambda>rest.
          act_ret (case i of None \<Rightarrow> rest | Some p \<Rightarrow> if pi_uid p = uid then p # rest else rest))))"

text \<open>The pids reached from \<open>owned\<close> over parents: the loop adds children until nothing changes.\<close>

function close_owned :: "process_identity list \<Rightarrow> int list \<Rightarrow> int list" where
  "close_owned ps owned =
     (let new = filter (\<lambda>p. pi_parent p \<in> set owned \<and> pi_pid p \<notin> set owned) ps in
      if new = [] then owned else close_owned ps (owned @ map pi_pid new))"
  by pat_completeness auto
termination
proof (relation "measure (\<lambda>(ps, owned). length (filter (\<lambda>p. pi_pid p \<notin> set owned) ps))")
  show "wf (measure (\<lambda>(ps :: process_identity list, owned :: int list). length (filter (\<lambda>p. pi_pid p \<notin> set owned) ps)))"
    by simp
next
  fix ps :: "process_identity list" and owned new
  assume new: "new = filter (\<lambda>p. pi_parent p \<in> set owned \<and> pi_pid p \<notin> set owned) ps" "new \<noteq> []"
  from new(2) obtain p where "p \<in> set new" by (cases new) auto
  with new(1) have p: "p \<in> set ps" "pi_pid p \<notin> set owned" "p \<in> set new" by auto
  have split: "filter (\<lambda>p. pi_pid p \<notin> set (owned @ map pi_pid new)) ps
      = filter (\<lambda>p. pi_pid p \<notin> pi_pid ` set new) (filter (\<lambda>p. pi_pid p \<notin> set owned) ps)"
    by (simp add: conj_commute)
  have "length (filter (\<lambda>p. pi_pid p \<notin> pi_pid ` set new) (filter (\<lambda>p. pi_pid p \<notin> set owned) ps))
      < length (filter (\<lambda>p. pi_pid p \<notin> set owned) ps)"
    by (rule length_filter_less [of p]) (use p in auto)
  then show "((ps, owned @ map pi_pid new), ps, owned)
      \<in> measure (\<lambda>(ps, owned). length (filter (\<lambda>p. pi_pid p \<notin> set owned) ps))"
    unfolding in_measure prod.case split .
qed

declare close_owned.simps [simp del]

definition owned_snapshot :: "int \<Rightarrow> int \<Rightarrow> process_identity list \<Rightarrow> process_identity list" where
  "owned_snapshot own pid ps =
     (let owned = close_owned ps [pid];
          snapshot = sort_key pi_pid (filter (\<lambda>p. pi_pid p \<in> set owned) ps)
      in if list_ex (\<lambda>p. pi_group p \<le> 1 \<or> pi_group p = own) snapshot then [] else snapshot)"

definition capture_tree :: "stop_env \<Rightarrow> int \<Rightarrow> process_identity list act" where
  "capture_tree env pid =
     act_then (look_at env pid) (\<lambda>pane.
       case pane of
         None \<Rightarrow> act_ret []
       | Some p \<Rightarrow>
           if pi_uid p \<noteq> own_uid env then act_ret []
           else act_then (entries env) (\<lambda>names.
             act_then (user_processes env (pi_uid p) names) (\<lambda>ps.
               act_ret (owned_snapshot (own_group env) (pi_pid p) ps))))"

subsection \<open>What became of a snapshot\<close>

definition still_same :: "process_identity \<Rightarrow> process_identity option \<Rightarrow> bool" where
  "still_same i current \<longleftrightarrow>
     (case current of
        None \<Rightarrow> False
      | Some c \<Rightarrow>
          pi_start c = pi_start i \<and> pi_group c = pi_group i \<and> pi_session c = pi_session i \<and> pi_uid c = pi_uid i \<and>
          pi_cgroup c = pi_cgroup i \<and> pi_state c \<noteq> ''Z'')"

fun survivors :: "stop_env \<Rightarrow> process_identity list \<Rightarrow> process_identity list act" where
  "survivors env [] = act_ret []"
| "survivors env (i # is) =
     act_then (look_at env (pi_pid i)) (\<lambda>current.
       act_then (survivors env is) (\<lambda>rest. act_ret (if still_same i current then i # rest else rest)))"

definition group_still_safe :: "stop_env \<Rightarrow> process_identity list \<Rightarrow> bool act" where
  "group_still_safe env snapshot =
     (case snapshot of
        [] \<Rightarrow> act_ret False
      | i # _ \<Rightarrow>
          act_then (capture_group env (pi_pid i)) (\<lambda>first.
          act_then
            (if first \<noteq> [] then act_ret first
             else act_then (survivors env snapshot) (\<lambda>alive.
               case alive of [] \<Rightarrow> act_ret [] | s # _ \<Rightarrow> capture_group env (pi_pid s)))
            (\<lambda>current. act_ret
               (current \<noteq> [] \<and>
                list_all (\<lambda>c. (pi_pid c, pi_start c) \<in> set (map (\<lambda>x. (pi_pid x, pi_start x)) snapshot)) current))))"

definition group_still_owned :: "stop_env \<Rightarrow> process_identity list \<Rightarrow> string \<Rightarrow> bool act" where
  "group_still_owned env snapshot cgroup =
     (if snapshot = [] then act_ret False
      else act_then (survivors env snapshot) (\<lambda>alive.
        case alive of
          [] \<Rightarrow> act_ret True
        | s # _ \<Rightarrow>
            act_then (capture_group env (pi_pid s)) (\<lambda>current.
              act_ret (current \<noteq> [] \<and> list_all (\<lambda>c. pi_cgroup c = cgroup) current))))"

definition death_round :: "stop_env \<Rightarrow> process_identity list \<Rightarrow> time \<Rightarrow> bool option act" where
  "death_round env snapshot deadline =
     act_then (survivors env snapshot) (\<lambda>alive.
       if alive = [] then act_ret (Some True)
       else act_then (now env) (\<lambda>t.
         if deadline \<le> t then act_ret (Some False) else act_then (wait 0.05) (\<lambda>_. act_ret None)))"

definition wait_for_group_death :: "stop_env \<Rightarrow> process_identity list \<Rightarrow> time \<Rightarrow> bool act" where
  "wait_for_group_death env snapshot timeout =
     act_then (now env) (\<lambda>t. act_loop (rounds timeout 0.05) (death_round env snapshot (t + timeout)))"

subsection \<open>Signals\<close>

definition SIGTERM :: int where "SIGTERM = 15"
definition SIGKILL :: int where "SIGKILL = 9"

definition killpg :: "stop_env \<Rightarrow> int \<Rightarrow> int \<Rightarrow> kill_answer act" where
  "killpg env pgid sig = act_ask (on_group_kill env pgid sig) (Group_Kill pgid sig)"

text \<open>A signal to a group: \<open>gone\<close> when there is none, \<open>False\<close> when it was refused, else on with \<open>next\<close>.\<close>

definition signalled :: "stop_env \<Rightarrow> int \<Rightarrow> int \<Rightarrow> bool act \<Rightarrow> bool act \<Rightarrow> bool act" where
  "signalled env pgid sig gone next =
     act_then (killpg env pgid sig) (\<lambda>r.
       case r of
         Killed \<Rightarrow> next
       | No_Such_Process \<Rightarrow> gone
       | Kill_Failed \<Rightarrow> act_ret False
       | Kill_Raises e \<Rightarrow> act_raise e)"

definition nobody_left :: "stop_env \<Rightarrow> process_identity list \<Rightarrow> bool act" where
  "nobody_left env snapshot = act_then (survivors env snapshot) (\<lambda>alive. act_ret (alive = []))"

definition terminate_group :: "stop_env \<Rightarrow> process_identity list \<Rightarrow> time \<Rightarrow> time \<Rightarrow> bool act" where
  "terminate_group env snapshot term_timeout kill_timeout =
     (case snapshot of
        [] \<Rightarrow> act_ret False
      | i # _ \<Rightarrow>
          act_then (group_still_safe env snapshot) (\<lambda>safe.
            if \<not> safe then act_ret False
            else signalled env (pi_group i) SIGTERM (nobody_left env snapshot)
              (act_then (wait_for_group_death env snapshot term_timeout) (\<lambda>dead.
                if dead then act_ret True
                else act_then (group_still_safe env snapshot) (\<lambda>safe.
                  if \<not> safe then act_ret False
                  else signalled env (pi_group i) SIGKILL (nobody_left env snapshot)
                    (wait_for_group_death env snapshot kill_timeout))))))"

fun term_groups :: "stop_env \<Rightarrow> process_identity list \<Rightarrow> string \<Rightarrow> int list \<Rightarrow> bool act" where
  "term_groups env snapshot cgroup [] = act_ret True"
| "term_groups env snapshot cgroup (pgid # pgids) =
     act_then (group_still_owned env (filter (\<lambda>i. pi_group i = pgid) snapshot) cgroup) (\<lambda>ours.
       if \<not> ours then act_ret False
       else signalled env pgid SIGTERM (term_groups env snapshot cgroup pgids) (term_groups env snapshot cgroup pgids))"

definition empty_round :: "stop_env \<Rightarrow> string \<Rightarrow> time \<Rightarrow> bool option act" where
  "empty_round env cgroup deadline =
     act_then (act_ask (on_cgroup_empty env cgroup) (Asked_Empty cgroup)) (\<lambda>empty.
       if empty then act_ret (Some True)
       else act_then (now env) (\<lambda>t.
         if deadline \<le> t then act_ret (Some False) else act_then (wait 0.05) (\<lambda>_. act_ret None)))"

definition kill_cgroup :: "stop_env \<Rightarrow> string \<Rightarrow> time \<Rightarrow> bool act" where
  "kill_cgroup env cgroup kill_timeout =
     act_then (act_ask (on_cgroup_kill env cgroup) (Cgroup_Kill cgroup)) (\<lambda>sent.
       if \<not> sent then act_ret False
       else act_then (now env) (\<lambda>t. act_loop (rounds kill_timeout 0.05) (empty_round env cgroup (t + kill_timeout))))"

text \<open>
  \<open>control_group == _control_group(os.getpid())\<close> is read only for a group that is named. The groups are
  signalled from the highest down.
\<close>

definition shares_cgroup :: "stop_env \<Rightarrow> string \<Rightarrow> bool act" where
  "shares_cgroup env cgroup =
     (if cgroup = [] then act_ret True
      else act_then (act_try (on_own_cgroup env) Asked_Own_Cgroup) (\<lambda>own. act_ret (cgroup = own)))"

definition terminate_tree :: "stop_env \<Rightarrow> process_identity list \<Rightarrow> time \<Rightarrow> time \<Rightarrow> bool act" where
  "terminate_tree env snapshot term_timeout kill_timeout =
     (case snapshot of
        [] \<Rightarrow> act_ret False
      | i # _ \<Rightarrow>
          act_then (shares_cgroup env (pi_cgroup i)) (\<lambda>shared.
            if shared \<or> pi_cgroup i = ''/'' \<or> list_ex (\<lambda>x. pi_cgroup x \<noteq> pi_cgroup i) snapshot then
              (if length (remdups (map pi_group snapshot)) \<noteq> 1 then act_ret False
               else terminate_group env snapshot term_timeout kill_timeout)
            else
              act_then (term_groups env snapshot (pi_cgroup i) (rev (sort (remdups (map pi_group snapshot))))) (\<lambda>sent.
                if \<not> sent then act_ret False
                else act_then (wait_for_group_death env snapshot term_timeout) (\<lambda>_.
                act_then (act_ask (on_cgroup_empty env (pi_cgroup i)) (Asked_Empty (pi_cgroup i))) (\<lambda>empty.
                  if empty then act_ret True else kill_cgroup env (pi_cgroup i) kill_timeout)))))"

subsection \<open>The owned tree\<close>

definition child_of :: "process_identity list \<Rightarrow> (int \<times> int) set" where
  "child_of ps = {(pi_parent p, pi_pid p) | p. p \<in> set ps}"

lemma close_owned_mono: "set owned \<subseteq> set (close_owned ps owned)"
proof (induction ps owned rule: close_owned.induct)
  case (1 ps owned)
  then show ?case by (subst close_owned.simps) (auto simp: Let_def)
qed

lemma close_owned_closed: "(x, y) \<in> child_of ps \<Longrightarrow> x \<in> set (close_owned ps owned) \<Longrightarrow> y \<in> set (close_owned ps owned)"
proof (induction ps owned rule: close_owned.induct)
  case (1 ps owned)
  let ?new = "filter (\<lambda>p. pi_parent p \<in> set owned \<and> pi_pid p \<notin> set owned) ps"
  show ?case
  proof (cases "?new = []")
    case True
    then have "close_owned ps owned = owned" by (subst close_owned.simps) simp
    with True 1(2,3) show ?thesis by (auto simp: child_of_def filter_empty_conv)
  next
    case False
    then have "close_owned ps owned = close_owned ps (owned @ map pi_pid ?new)" by (subst close_owned.simps) (simp add: Let_def)
    with 1 False show ?thesis by (metis (no_types, lifting))
  qed
qed

lemma close_owned_reached:
  "set owned \<subseteq> {q. (pid, q) \<in> (child_of ps)\<^sup>*} \<Longrightarrow> set (close_owned ps owned) \<subseteq> {q. (pid, q) \<in> (child_of ps)\<^sup>*}"
proof (induction ps owned rule: close_owned.induct)
  case (1 ps owned)
  let ?new = "filter (\<lambda>p. pi_parent p \<in> set owned \<and> pi_pid p \<notin> set owned) ps"
  have "(pid, pi_pid p) \<in> (child_of ps)\<^sup>*" if "p \<in> set ?new" for p
    using that 1(2) by (auto intro: rtrancl_into_rtrancl simp: child_of_def)
  with 1(2) have "set (owned @ map pi_pid ?new) \<subseteq> {q. (pid, q) \<in> (child_of ps)\<^sup>*}" by auto
  with 1 show ?case by (subst close_owned.simps) (simp add: Let_def)
qed

lemma close_owned_descendants: "set (close_owned ps [pid]) = {q. (pid, q) \<in> (child_of ps)\<^sup>*}"
proof
  show "set (close_owned ps [pid]) \<subseteq> {q. (pid, q) \<in> (child_of ps)\<^sup>*}" by (rule close_owned_reached) simp
  have "q \<in> set (close_owned ps [pid])" if "(pid, q) \<in> (child_of ps)\<^sup>*" for q
    using that
  proof (induction rule: rtrancl_induct)
    case base
    show ?case using close_owned_mono [of "[pid]" ps] by auto
  qed (rule close_owned_closed)
  then show "{q. (pid, q) \<in> (child_of ps)\<^sup>*} \<subseteq> set (close_owned ps [pid])" by blast
qed

text \<open>
  C28: the processes to be ended with a pane are exactly those of the user's processes that descend
  from it, in order of pid; and when one of them is in a group that must not be signalled (group 0
  or 1, or sac's own) the snapshot is empty, so that nothing is signalled at all.
\<close>

theorem owned_tree_is_the_descendants:
  "let mine = {p \<in> set ps. (pid, pi_pid p) \<in> (child_of ps)\<^sup>*} in
   if Bex mine (\<lambda>p. pi_group p \<le> 1 \<or> pi_group p = own) then owned_snapshot own pid ps = []
   else set (owned_snapshot own pid ps) = mine \<and> sorted (map pi_pid (owned_snapshot own pid ps))"
  by (auto simp: owned_snapshot_def close_owned_descendants Let_def list_ex_iff)

subsection \<open>The signals\<close>

fun signals :: "stop_history \<Rightarrow> (int \<times> int) list" where
  "signals [] = []"
| "signals (e # h) = (case e of Group_Kill g s _ \<Rightarrow> (g, s) # signals h | _ \<Rightarrow> signals h)"

fun last_look :: "int \<Rightarrow> stop_history \<Rightarrow> process_identity option option" where
  "last_look pid [] = None"
| "last_look pid (e # h) = (case e of Asked_Identity p i \<Rightarrow> if p = pid then Some i else last_look pid h | _ \<Rightarrow> last_look pid h)"

definition seen_gone :: "process_identity list \<Rightarrow> stop_history \<Rightarrow> bool" where
  "seen_gone snapshot h \<longleftrightarrow>
     list_all (\<lambda>i. case last_look (pi_pid i) h of None \<Rightarrow> False | Some c \<Rightarrow> \<not> still_same i c) snapshot"

text \<open>What looking at processes writes.\<close>

definition proc_events :: "stop_event \<Rightarrow> bool" where
  "proc_events e \<longleftrightarrow>
     (case e of
        Asked_Identity _ _ \<Rightarrow> True | Asked_Entries _ \<Rightarrow> True | Read_Time _ \<Rightarrow> True | Waited _ \<Rightarrow> True | _ \<Rightarrow> False)"

lemma signals_proc [simp]: "proc_events e \<Longrightarrow> signals (e # h) = signals h"
  by (auto simp: proc_events_def split: stop_event.splits)

lemma group_members_keeps: "(\<And>e h. P h \<Longrightarrow> proc_events e \<Longrightarrow> P (e # h)) \<Longrightarrow> keeps P (group_members env pane names)"
  by (induction names) (auto intro!: keeps_rules simp: look_at_def proc_events_def)

lemma survivors_keeps: "(\<And>e h. P h \<Longrightarrow> proc_events e \<Longrightarrow> P (e # h)) \<Longrightarrow> keeps P (survivors env is)"
  by (induction "is") (auto intro!: keeps_rules simp: look_at_def proc_events_def)

lemma capture_group_keeps:
  assumes "\<And>e h. P h \<Longrightarrow> proc_events e \<Longrightarrow> P (e # h)"
  shows "keeps P (capture_group env pid)"
  unfolding capture_group_def look_at_def entries_def
  by (intro keeps_rules group_members_keeps assms) (simp_all add: proc_events_def)

lemma keeps_list: "keeps P n \<Longrightarrow> (\<And>x xs. keeps P (f x xs)) \<Longrightarrow> keeps P (case l of [] \<Rightarrow> n | x # xs \<Rightarrow> f x xs)"
  by (cases l) simp_all

lemma safe_keeps:
  assumes "\<And>e h. P h \<Longrightarrow> proc_events e \<Longrightarrow> P (e # h)"
  shows "keeps P (group_still_safe env snapshot)"
  unfolding group_still_safe_def
  by (intro keeps_list keeps_rules capture_group_keeps survivors_keeps assms)

lemma death_keeps:
  assumes "\<And>e h. P h \<Longrightarrow> proc_events e \<Longrightarrow> P (e # h)"
  shows "keeps P (death_round env snapshot d)"
  unfolding death_round_def
  by (intro keeps_rules survivors_keeps assms) (simp_all add: proc_events_def)

text \<open>Looking at a snapshot never raises, and finds nobody only when each was last seen gone.\<close>

lemma survivors_run:
  "\<exists>alive h'. survivors env is h = Some (Inr alive, h') \<and> (\<forall>p. p \<notin> pi_pid ` set is \<longrightarrow> last_look p h' = last_look p h) \<and>
     (distinct (map pi_pid is) \<and> alive = [] \<longrightarrow> seen_gone is h')"
proof (induction "is" arbitrary: h)
  case Nil
  show ?case by (simp add: act seen_gone_def)
next
  case (Cons i "is")
  let ?h1 = "Asked_Identity (pi_pid i) (on_identity env (pi_pid i) h) # h"
  from Cons.IH [of ?h1] obtain alive h' where run: "survivors env is ?h1 = Some (Inr alive, h')"
    and others: "\<forall>p. p \<notin> pi_pid ` set is \<longrightarrow> last_look p h' = last_look p ?h1"
    and gone: "distinct (map pi_pid is) \<and> alive = [] \<longrightarrow> seen_gone is h'" by blast
  have here: "survivors env (i # is) h
      = Some (Inr (if still_same i (on_identity env (pi_pid i) h) then i # alive else alive), h')"
    by (simp add: act_then_def look_at_def act run)
  have "seen_gone (i # is) h'" if "distinct (map pi_pid (i # is))" "alive = []" "\<not> still_same i (on_identity env (pi_pid i) h)"
    using that gone others by (auto simp: seen_gone_def)
  with here others show ?case by (auto split: if_splits)
qed

lemma survivors_triple:
  assumes "distinct (map pi_pid is)" and "\<And>e h. P h \<Longrightarrow> proc_events e \<Longrightarrow> P (e # h)"
  shows "triple P (survivors env is) (\<lambda>alive h. P h \<and> (alive = [] \<longrightarrow> seen_gone is h)) P"
proof (rule tripleI)
  fix h r h'
  assume h: "P h" "survivors env is h = Some (r, h')"
  have "P h'" by (rule keepsD [where P = P, OF survivors_keeps h]) (rule assms(2))
  moreover have "alive = [] \<Longrightarrow> seen_gone is h'" if "r = Inr alive" for alive
    using survivors_run [of env "is" h] h(2) that assms(1) by auto
  ultimately show "case r of Inl e \<Rightarrow> P h' | Inr alive \<Rightarrow> P h' \<and> (alive = [] \<longrightarrow> seen_gone is h')"
    by (auto split: sum.split)
qed

lemma wait_death_triple:
  assumes "distinct (map pi_pid snapshot)" and closed: "\<And>e h. P h \<Longrightarrow> proc_events e \<Longrightarrow> P (e # h)"
  shows "triple P (wait_for_group_death env snapshot timeout) (\<lambda>b h. P h \<and> (b \<longrightarrow> seen_gone snapshot h)) P"
proof -
  have round: "triple P (death_round env snapshot d) (\<lambda>r h. P h \<and> (r = Some True \<longrightarrow> seen_gone snapshot h)) P" for d
    unfolding death_round_def
    by (rule triple_then [OF survivors_triple [where P = P, OF assms(1)]])
      (use closed in \<open>auto simp: triple_def act_then_Some act now_def proc_events_def split: if_splits\<close>)
  have loop: "triple P (act_loop n (death_round env snapshot d)) (\<lambda>b h. P h \<and> (b \<longrightarrow> seen_gone snapshot h)) P" for n d
    by (rule triple_loop, rule triple_weaken [OF round]) (auto split: option.split)
  have "keeps P (now env)" using closed by (auto intro!: keeps_simple simp: proc_events_def)
  then show ?thesis unfolding wait_for_group_death_def by (rule triple_then) (rule loop)
qed

lemma signalled_triple:
  assumes "\<And>q. triple (\<lambda>h. \<exists>h0. h = Group_Kill pgid sig q # h0 \<and> P h0) next Q E"
    and "\<And>q. triple (\<lambda>h. \<exists>h0. h = Group_Kill pgid sig q # h0 \<and> P h0) gone Q E"
    and "\<And>q h. P h \<Longrightarrow> E (Group_Kill pgid sig q # h) \<and> Q False (Group_Kill pgid sig q # h)"
  shows "triple P (signalled env pgid sig gone next) Q E"
  unfolding signalled_def killpg_def
proof (rule triple_then)
  show "triple P (act_ask (on_group_kill env pgid sig) (Group_Kill pgid sig))
      (\<lambda>q h. \<exists>h0. h = Group_Kill pgid sig q # h0 \<and> P h0) E" by (auto simp: triple_def act)
  show "triple (\<lambda>h. \<exists>h0. h = Group_Kill pgid sig q # h0 \<and> P h0)
      (case q of Killed \<Rightarrow> next | No_Such_Process \<Rightarrow> gone | Kill_Failed \<Rightarrow> act_ret False | Kill_Raises e \<Rightarrow> act_raise e) Q E" for q
    using assms by (cases q) (auto simp: triple_def act)
qed

text \<open>
  C11: ending a process group sends to the recorded group at most one TERM and then at most one KILL,
  nothing else, and says yes only when every recorded process was last looked at and was then gone,
  a zombie or another process.
\<close>

theorem group_is_signalled_and_seen_gone:
  assumes "distinct (map pi_pid snapshot)"
    and "terminate_group env snapshot term_timeout kill_timeout [] = Some (r, h)"
  shows "signals h \<in> {[], [(pi_group (hd snapshot), SIGTERM)],
       [(pi_group (hd snapshot), SIGKILL), (pi_group (hd snapshot), SIGTERM)]} \<and>
     (r = Inr True \<longrightarrow> seen_gone snapshot h)"
proof (cases snapshot)
  case Nil
  with assms(2) show ?thesis by (auto simp: terminate_group_def act seen_gone_def)
next
  case (Cons i "is")
  let ?g = "pi_group i"
  define N where "N = (\<lambda>l h. signals h = l)"
  define F where "F = (\<lambda>h. signals h \<in> {[], [(?g, SIGTERM)], [(?g, SIGKILL), (?g, SIGTERM)]})"
  let ?Q = "\<lambda>b h. F h \<and> (b \<longrightarrow> seen_gone snapshot h)"
  have N: "N l (e # h)" if "N l h" "proc_events e" for l e h
    using that signals_proc [OF that(2)] unfolding N_def by (simp only:)
  have F: "N [] h \<Longrightarrow> F h" "N [(?g, SIGTERM)] h \<Longrightarrow> F h" "N [(?g, SIGKILL), (?g, SIGTERM)] h \<Longrightarrow> F h" for h
    by (simp_all add: N_def F_def)
  have sent: "\<exists>h0. h = Group_Kill ?g s q # h0 \<and> N l h0 \<Longrightarrow> N ((?g, s) # l) h" for h s q l by (auto simp: N_def)
  have alive: "triple (N l) (survivors env snapshot) (\<lambda>a h. N l h \<and> (a = [] \<longrightarrow> seen_gone snapshot h)) F"
    if "\<And>h. N l h \<Longrightarrow> F h" for l
    by (rule triple_weaken [OF survivors_triple [where P = "N l", OF assms(1) N]]) (use that in auto)
  have gone: "triple (N l) (nobody_left env snapshot) ?Q F" if "\<And>h. N l h \<Longrightarrow> F h" for l
    unfolding nobody_left_def
    by (rule triple_then [OF alive]) (use that in \<open>auto simp: triple_def act\<close>)
  have wait: "triple (N l) (wait_for_group_death env snapshot w) (\<lambda>b h. N l h \<and> (b \<longrightarrow> seen_gone snapshot h)) F"
    if "\<And>h. N l h \<Longrightarrow> F h" for l w
    by (rule triple_weaken [OF wait_death_triple [where P = "N l", OF assms(1) N]]) (use that in auto)
  have last_wait: "triple (N l) (wait_for_group_death env snapshot w) ?Q F" if "\<And>h. N l h \<Longrightarrow> F h" for l w
    by (rule triple_weaken [OF wait [OF that]]) (use that in auto)
  have safe: "triple (N l) (group_still_safe env snapshot) (\<lambda>_. N l) F" if "\<And>h. N l h \<Longrightarrow> F h" for l
    by (rule triple_weaken [OF safe_keeps [where P = "N l", OF N]]) (use that in auto)
  have kill: "triple (N [(?g, SIGTERM)]) (signalled env ?g SIGKILL (nobody_left env snapshot)
      (wait_for_group_death env snapshot kill_timeout)) ?Q F"
    by (rule signalled_triple, rule triple_pre [OF last_wait [OF F(3)]], assumption, erule sent,
        rule triple_pre [OF gone [OF F(3)]], assumption, erule sent) (simp add: F_def N_def)
  have after: "triple (N [(?g, SIGTERM)]) (act_then (wait_for_group_death env snapshot term_timeout) (\<lambda>dead.
      if dead then act_ret True
      else act_then (group_still_safe env snapshot) (\<lambda>safe.
        if \<not> safe then act_ret False
        else signalled env ?g SIGKILL (nobody_left env snapshot) (wait_for_group_death env snapshot kill_timeout)))) ?Q F"
  proof (rule triple_then [OF wait [OF F(2)]], assumption, rule triple_cases, goal_cases)
    case (1 dead)
    then show ?case by (auto simp: triple_def act F)
  next
    case (2 dead)
    have "triple (N [(?g, SIGTERM)]) (act_then (group_still_safe env snapshot) (\<lambda>safe.
        if \<not> safe then act_ret False
        else signalled env ?g SIGKILL (nobody_left env snapshot) (wait_for_group_death env snapshot kill_timeout))) ?Q F"
      by (rule triple_then [OF safe [OF F(2)]], assumption, rule triple_cases, simp add: triple_def act F, rule kill)
    then show ?case by (rule triple_pre) simp
  qed
  have split: "terminate_group env snapshot term_timeout kill_timeout = act_then (group_still_safe env snapshot) (\<lambda>safe.
      if \<not> safe then act_ret False
      else signalled env ?g SIGTERM (nobody_left env snapshot) (act_then (wait_for_group_death env snapshot term_timeout) (\<lambda>dead.
        if dead then act_ret True
        else act_then (group_still_safe env snapshot) (\<lambda>safe.
          if \<not> safe then act_ret False
          else signalled env ?g SIGKILL (nobody_left env snapshot) (wait_for_group_death env snapshot kill_timeout)))))"
    unfolding terminate_group_def Cons list.case ..
  have first: "triple (N []) (signalled env ?g SIGTERM (nobody_left env snapshot)
      (act_then (wait_for_group_death env snapshot term_timeout) (\<lambda>dead.
        if dead then act_ret True
        else act_then (group_still_safe env snapshot) (\<lambda>safe.
          if \<not> safe then act_ret False
          else signalled env ?g SIGKILL (nobody_left env snapshot) (wait_for_group_death env snapshot kill_timeout))))) ?Q F"
    by (rule signalled_triple, rule triple_pre [OF after], erule sent,
        rule triple_pre [OF gone [OF F(2)]], assumption, erule sent) (simp add: F_def N_def)
  have "triple (N []) (terminate_group env snapshot term_timeout kill_timeout) ?Q F"
    unfolding split
    by (rule triple_then [OF safe [OF F(1)]], assumption, rule triple_cases, simp add: triple_def act F, rule first)
  moreover have "N [] []" by (simp add: N_def)
  ultimately have "case r of Inl e \<Rightarrow> F h | Inr x \<Rightarrow> ?Q x h" using assms(2) unfolding triple_def by blast
  then show ?thesis using Cons by (cases r) (auto simp: F_def)
qed

subsection \<open>Ending a pane returns\<close>

lemma survivors_time:
  "time_runs env \<Longrightarrow> survivors env is h = Some (r, h') \<Longrightarrow> on_time env h \<le> on_time env h'"
proof (induction "is" arbitrary: h r)
  case (Cons i "is")
  let ?h1 = "Asked_Identity (pi_pid i) (on_identity env (pi_pid i) h) # h"
  from Cons.prems(2) obtain q where "survivors env is ?h1 = Some (q, h')"
    by (auto simp: act_then_Some look_at_def act)
  from Cons.IH [OF Cons.prems(1) this] later(5) [OF Cons.prems(1), of h] show ?case by (meson order_trans)
qed (simp add: act)

lemma death_paced:
  assumes "time_runs env"
  shows "paced env d 0.05 (death_round env snapshot d)"
  unfolding paced_def
proof
  fix h
  from survivors_run [of env snapshot h] obtain alive h1 where run: "survivors env snapshot h = Some (Inr alive, h1)" by blast
  let ?h2 = "Read_Time (on_time env h1) # h1"
  have "on_time env h \<le> on_time env h1" "on_time env h + 0.05 \<le> on_time env (Waited 0.05 # ?h2)"
    using survivors_time [OF assms run] later(2) [OF assms, of h1 "on_time env h1"] later(3) [OF assms, of ?h2 "0.05"] by simp_all
  then show "\<exists>r h'. death_round env snapshot d h = Some (r, h') \<and>
      (r = Inr None \<longrightarrow> on_time env h < d \<and> (on_time env h + 0.05 \<le> on_time env h' \<or> d \<le> on_time env h'))"
    by (auto simp: death_round_def now_def act_then_def act run)
qed

lemma empty_paced:
  assumes "time_runs env"
  shows "paced env d 0.05 (empty_round env g d)"
  unfolding paced_def
proof
  fix h
  let ?h1 = "Asked_Empty g (on_cgroup_empty env g h) # h"
  let ?h2 = "Read_Time (on_time env ?h1) # ?h1"
  have "on_time env h \<le> on_time env ?h1" using time_runsD [OF assms, of h "Asked_Empty g (on_cgroup_empty env g h)"] by simp
  moreover have "on_time env h + 0.05 \<le> on_time env (Waited 0.05 # ?h2)"
    using calculation later(2) [OF assms, of ?h1 "on_time env ?h1"] later(3) [OF assms, of ?h2 "0.05"] by simp
  ultimately show "\<exists>r h'. empty_round env g d h = Some (r, h') \<and>
      (r = Inr None \<longrightarrow> on_time env h < d \<and> (on_time env h + 0.05 \<le> on_time env h' \<or> d \<le> on_time env h'))"
    by (auto simp: empty_round_def now_def act_then_def act)
qed

lemma survivors_ends: "ends (survivors env is)"
  using survivors_run unfolding ends_def by (metis option.distinct(1))

lemma members_ends: "ends (group_members env pane names)" "ends (look_at env pid)" "ends (entries env)" "ends (killpg env g s)"
  by (induction names) (auto intro!: ends_rules simp: look_at_def entries_def killpg_def)

lemma ends_list: "ends n \<Longrightarrow> (\<And>x xs. ends (f x xs)) \<Longrightarrow> ends (case l of [] \<Rightarrow> n | x # xs \<Rightarrow> f x xs)"
  by (cases l) simp_all

lemma group_checks_end: "ends (capture_group env pid)" "ends (group_still_safe env snapshot)" "ends (group_still_owned env snapshot g)"
  unfolding capture_group_def group_still_safe_def group_still_owned_def
  by (intro ends_list ends_rules survivors_ends members_ends)+

lemma wait_death_ends: "time_runs env \<Longrightarrow> ends (wait_for_group_death env snapshot timeout)"
  unfolding wait_for_group_death_def by (intro timed_loop death_paced) simp_all

lemma terminate_group_ends: "time_runs env \<Longrightarrow> ends (terminate_group env snapshot a b)"
  unfolding terminate_group_def signalled_def nobody_left_def
  by (intro ends_list ends_rules group_checks_end survivors_ends members_ends wait_death_ends)

lemma term_groups_ends: "ends (term_groups env snapshot g pgids)"
  by (induction pgids) (auto intro!: ends_rules group_checks_end members_ends simp: signalled_def)

lemma terminate_tree_ends: "time_runs env \<Longrightarrow> ends (terminate_tree env snapshot a b)"
  unfolding terminate_tree_def shares_cgroup_def kill_cgroup_def
  by (intro ends_list ends_rules terminate_group_ends term_groups_ends wait_death_ends timed_loop empty_paced) simp_all

subsection \<open>A pane with one process\<close>

definition pane_process :: process_identity where
  "pane_process =
     \<lparr>pi_pid = 41, pi_parent = 1, pi_group = 41, pi_session = 41, pi_start = 5, pi_uid = 1000, pi_state = ''S'',
      pi_cgroup = ''/ada.scope''\<rparr>"

definition stat_text :: "string \<Rightarrow> string" where
  "stat_text start = ''41 (claude) S 1 41 41 0 -1 0 0 0 0 0 0 0 0 0 20 0 1 0 '' @ start @ '' 0''"

text \<open>The pid 41 is the recorded process until a signal of \<open>dies\<close>, and what \<open>after\<close> says from then on.\<close>

definition pane_host :: "int \<Rightarrow> (string \<times> int \<times> string) option \<Rightarrow> stop_env" where
  "pane_host dies after =
     \<lparr>on_proc = (\<lambda>p h. if list_ex (\<lambda>e. case e of Group_Kill _ s _ \<Rightarrow> s = dies | _ \<Rightarrow> dies = 0) h \<or> dies = 0 then after
        else Some (stat_text ''5'', 1000, ''0::/ada.scope'')),
      on_entries = (\<lambda>_. [''self'', ''41'']), on_own_cgroup = (\<lambda>_. Inr ''/sac''), on_cgroup_kill = (\<lambda>_ _. True),
      on_cgroup_empty = (\<lambda>_ _. True), on_pids = (\<lambda>_ _. None), on_show = (\<lambda>_ _. Not_Run []),
      on_scope_stop = (\<lambda>_ _. Not_Run []), on_group_kill = (\<lambda>_ _ _. Killed),
      on_time = (\<lambda>h. of_nat (length h)), on_running = (\<lambda>_. False), on_pid = (\<lambda>_. No_Getter),
      on_kill = (\<lambda>_ _. Kill_Failed), on_turn = (\<lambda>_. Turn_Idle []), on_row = (\<lambda>_. Inr None), on_path = (\<lambda>_. Path_Missing),
      on_load = (\<lambda>_ _. Inl (ValueError [])), on_load_v3 = (\<lambda>_ _. Inl (ValueError [])), on_runtime = (\<lambda>_ _. Inr True),
      on_instance = (\<lambda>_. Inr None), on_stop = (\<lambda>_. Stop_Unverified), on_preflight = (\<lambda>_. Inr False),
      on_start = (\<lambda>_. Start_Returns False), on_call = (\<lambda>_ _. Inr ()), own_uid = 1000, own_pid = 7, own_group = 7\<rparr>"

lemma killed_pane:
  "map_option (\<lambda>(r, h). (r, signals h)) (terminate_group (pane_host 9 None) [pane_process] 2 2 [])
     = Some (Inr True, [(41, SIGKILL), (41, SIGTERM)])"
  by code_simp

theorem group_is_signalled_and_seen_gone_witness:
  "\<exists>h. signals h = [(41, SIGKILL), (41, SIGTERM)] \<and> seen_gone [pane_process] h"
proof -
  from killed_pane obtain h where run: "terminate_group (pane_host 9 None) [pane_process] 2 2 [] = Some (Inr True, h)"
    and sent: "signals h = [(41, SIGKILL), (41, SIGTERM)]" by auto
  from group_is_signalled_and_seen_gone [OF _ run] sent show ?thesis by auto
qed

text \<open>
  In a scope of its own the check before a TERM passes when none of the recorded processes is left.
  Here the pid was taken over by a process of another scope, and its group is sent the TERM.
\<close>

lemma stranger_gets_the_term:
  "map_option (\<lambda>(r, h). signals h)
     (terminate_tree (pane_host 0 (Some (stat_text ''99'', 1000, ''0::/other.scope''))) [pane_process] 2 2 []) = Some [(41, SIGTERM)]"
  by code_simp

end
