(* ===== verification/Event_Log.thy ===== *)
theory Event_Log
  imports Account_Files
begin

text \<open>
  The event log the passes write (\<open>_events/_log.py\<close>) and the routing of a pass's verdicts into it
  (\<open>_events/_verdicts.py\<close>). A log is a list of records, the latest first; whether an append succeeds and
  whether the memory file can be written are arguments.
\<close>

subsection \<open>Records\<close>

record sac_event =
  se_event :: string
  se_subsystem :: string
  se_subject :: "string option"
  se_kind :: "string option"
  se_verdict :: "string option"
  se_detail :: msg
  se_known :: bool
  se_extra :: "(string \<times> json) list"

definition PASS_COMPLETED :: string where "PASS_COMPLETED = ''pass-completed''"
definition SUBJECT_DEGRADED :: string where "SUBJECT_DEGRADED = ''subject-degraded''"
definition SUBJECT_RECOVERED :: string where "SUBJECT_RECOVERED = ''subject-recovered''"
definition SUBJECT_UNKNOWN :: string where "SUBJECT_UNKNOWN = ''subject-unknown''"
definition SELF_IMPAIRED :: string where "SELF_IMPAIRED = ''self-impaired''"
definition SELF_RECOVERED :: string where "SELF_RECOVERED = ''self-recovered''"

lemmas event_names = PASS_COMPLETED_def SUBJECT_DEGRADED_def SUBJECT_RECOVERED_def SUBJECT_UNKNOWN_def SELF_IMPAIRED_def
  SELF_RECOVERED_def

definition KNOWN_EVENTS :: "string list" where
  "KNOWN_EVENTS = [PASS_COMPLETED, SUBJECT_DEGRADED, SUBJECT_RECOVERED, SUBJECT_UNKNOWN, SELF_IMPAIRED, SELF_RECOVERED]"

text \<open>The keys a record has of its own; an extra value never replaces one of them.\<close>

definition own_keys :: "bool \<Rightarrow> string list" where
  "own_keys known =
     [''timestamp_utc'', ''event'', ''subsystem'', ''subject'', ''subject_kind'', ''verdict'', ''detail'', ''host'', ''pid'']
     @ (if known then [] else [''event_known''])"

definition event_record ::
    "string \<Rightarrow> string \<Rightarrow> msg \<Rightarrow> string option \<Rightarrow> string option \<Rightarrow> string option \<Rightarrow> (string \<times> json) list \<Rightarrow> sac_event" where
  "event_record event subsystem detail subject kind verdict extra =
     (let known = event \<in> set KNOWN_EVENTS in
      \<lparr>se_event = event, se_subsystem = subsystem, se_subject = subject, se_kind = kind, se_verdict = verdict,
       se_detail = detail, se_known = known, se_extra = filter (\<lambda>(k, _). k \<notin> set (own_keys known)) extra\<rparr>)"

type_synonym event_log = "sac_event list"

definition log_event :: "(sac_event \<Rightarrow> event_log \<Rightarrow> bool) \<Rightarrow> sac_event \<Rightarrow> event_log \<Rightarrow> bool \<times> event_log" where
  "log_event writes e rows = (if writes e rows then (True, e # rows) else (False, rows))"

definition log_pass_completed ::
    "(sac_event \<Rightarrow> event_log \<Rightarrow> bool) \<Rightarrow> string \<Rightarrow> string \<Rightarrow> (string \<times> json) list \<Rightarrow> msg \<Rightarrow> event_log \<Rightarrow> bool \<times> event_log" where
  "log_pass_completed writes subsystem mode counts detail =
     log_event writes
       (event_record PASS_COMPLETED subsystem
         (if truthy detail then detail else Fmt ''pass completed'' [Txt subsystem, Txt mode])
         None None (Some mode) [(''mode'', JStr mode), (''counts'', JObj counts)])"

text \<open>A line of the file: a record, or one that does not parse to an object.\<close>

definition read_events :: "sac_event option list \<Rightarrow> string option \<Rightarrow> string option \<Rightarrow> sac_event list" where
  "read_events lines subsystem event =
     filter (\<lambda>e. (case subsystem of None \<Rightarrow> True | Some s \<Rightarrow> se_subsystem e = s) \<and>
                 (case event of None \<Rightarrow> True | Some v \<Rightarrow> se_event e = v))
       (concat (map (\<lambda>l. case l of None \<Rightarrow> [] | Some e \<Rightarrow> [e]) lines))"

subsection \<open>The memory\<close>

datatype memory_file = No_File | Bad_File | Memory_File json

definition load_degraded :: "(json \<Rightarrow> string) \<Rightarrow> memory_file \<Rightarrow> string list" where
  "load_degraded shown f =
     (case f of
        No_File \<Rightarrow> []
      | Bad_File \<Rightarrow> []
      | Memory_File j \<Rightarrow> (case j of JList items \<Rightarrow> remdups (map (py_str shown) items) | _ \<Rightarrow> []))"

definition save_degraded :: "bool \<Rightarrow> string list \<Rightarrow> memory_file \<Rightarrow> memory_file" where
  "save_degraded ok subjects old = (if ok then Memory_File (JList (map JStr (sort (remdups subjects)))) else old)"

subsection \<open>Routing verdicts\<close>

datatype verdict_state = Degraded | Unread | Healthy

record subject_verdict =
  sv_subject :: string
  sv_state :: verdict_state
  sv_verdict :: string
  sv_detail :: msg
  sv_kind :: string
  sv_extra :: "(string \<times> json) list"

record emit_outcome =
  eo_degraded :: "string list"
  eo_unknown :: "string list"
  eo_recovered :: "string list"
  eo_failed :: "string list"

definition no_outcome :: emit_outcome where
  "no_outcome = \<lparr>eo_degraded = [], eo_unknown = [], eo_recovered = [], eo_failed = []\<rparr>"

definition verdict_event :: "string \<Rightarrow> subject_verdict \<Rightarrow> sac_event" where
  "verdict_event subsystem v =
     event_record
       (case sv_state v of Healthy \<Rightarrow> SUBJECT_RECOVERED | Degraded \<Rightarrow> SUBJECT_DEGRADED | Unread \<Rightarrow> SUBJECT_UNKNOWN)
       subsystem (sv_detail v) (Some (sv_subject v)) (Some (sv_kind v)) (Some (sv_verdict v)) (sv_extra v)"

record emit_state =
  em_memory :: "string list"
  em_log :: event_log
  em_outcome :: emit_outcome

definition emit_verdict ::
    "(sac_event \<Rightarrow> event_log \<Rightarrow> bool) \<Rightarrow> string \<Rightarrow> emit_state \<Rightarrow> subject_verdict \<Rightarrow> emit_state" where
  "emit_verdict writes subsystem s v =
     (if sv_state v = Healthy \<and> sv_subject v \<notin> set (em_memory s) then s
      else
        (let (written, rows) = log_event writes (verdict_event subsystem v) (em_log s);
             name = sv_subject v; out = em_outcome s
         in if \<not> written then s\<lparr>em_log := rows, em_outcome := out\<lparr>eo_failed := eo_failed out @ [name]\<rparr>\<rparr>
            else case sv_state v of
              Healthy \<Rightarrow>
                s\<lparr>em_memory := removeAll name (em_memory s), em_log := rows,
                  em_outcome := out\<lparr>eo_recovered := eo_recovered out @ [name]\<rparr>\<rparr>
            | Degraded \<Rightarrow>
                s\<lparr>em_memory := List.insert name (em_memory s), em_log := rows,
                  em_outcome := out\<lparr>eo_degraded := eo_degraded out @ [name]\<rparr>\<rparr>
            | Unread \<Rightarrow>
                s\<lparr>em_memory := List.insert name (em_memory s), em_log := rows,
                  em_outcome := out\<lparr>eo_unknown := eo_unknown out @ [name]\<rparr>\<rparr>))"

definition emit_subject_verdicts ::
    "(sac_event \<Rightarrow> event_log \<Rightarrow> bool) \<Rightarrow> (json \<Rightarrow> string) \<Rightarrow> bool \<Rightarrow> string \<Rightarrow> subject_verdict list \<Rightarrow> memory_file \<Rightarrow> event_log
      \<Rightarrow> emit_outcome \<times> memory_file \<times> event_log" where
  "emit_subject_verdicts writes shown saves subsystem verdicts file rows =
     (let s = foldl (emit_verdict writes subsystem)
           \<lparr>em_memory = load_degraded shown file, em_log = rows, em_outcome = no_outcome\<rparr> verdicts
      in (em_outcome s, save_degraded saves (em_memory s) file, em_log s))"

definition absent_verdict :: "msg \<Rightarrow> string \<Rightarrow> string \<Rightarrow> string \<Rightarrow> subject_verdict" where
  "absent_verdict detail verdict kind name =
     \<lparr>sv_subject = name, sv_state = Healthy, sv_verdict = verdict, sv_detail = detail, sv_kind = kind, sv_extra = []\<rparr>"

text \<open>Recovery of the remembered subjects that were not observed, in order of name.\<close>

definition recover_absent_subjects ::
    "(sac_event \<Rightarrow> event_log \<Rightarrow> bool) \<Rightarrow> (json \<Rightarrow> string) \<Rightarrow> bool \<Rightarrow> string \<Rightarrow> string list \<Rightarrow> msg \<Rightarrow> string \<Rightarrow> string \<Rightarrow> memory_file
      \<Rightarrow> event_log \<Rightarrow> emit_outcome \<times> memory_file \<times> event_log" where
  "recover_absent_subjects writes shown saves subsystem observed detail verdict kind file rows =
     (let memory = load_degraded shown file;
          absent = sort (filter (\<lambda>n. n \<notin> set observed) memory);
          s = foldl (emit_verdict writes subsystem) \<lparr>em_memory = memory, em_log = rows, em_outcome = no_outcome\<rparr>
            (map (absent_verdict detail verdict kind) absent)
      in (em_outcome s, save_degraded saves (em_memory s) file, em_log s))"

definition emit_self_state ::
    "(sac_event \<Rightarrow> event_log \<Rightarrow> bool) \<Rightarrow> (json \<Rightarrow> string) \<Rightarrow> bool \<Rightarrow> string \<Rightarrow> bool \<Rightarrow> msg \<Rightarrow> string option \<Rightarrow> (string \<times> json) list
      \<Rightarrow> memory_file \<Rightarrow> event_log \<Rightarrow> bool \<times> memory_file \<times> event_log" where
  "emit_self_state writes shown saves subsystem impaired detail verdict extra file rows =
     (if \<not> impaired \<and> subsystem \<notin> set (load_degraded shown file) then (False, file, rows)
      else
        (let (written, rows') = log_event writes
               (event_record (if impaired then SELF_IMPAIRED else SELF_RECOVERED) subsystem detail None None verdict extra) rows
         in if \<not> written then (False, file, rows')
            else (True, save_degraded saves (if impaired then [subsystem] else []) file, rows')))"

subsection \<open>The last word on a subject\<close>

text \<open>Whether the latest record of a subsystem on a subject is a bad one.\<close>

fun bad_last :: "string \<Rightarrow> string \<Rightarrow> event_log \<Rightarrow> bool" where
  "bad_last sub name [] \<longleftrightarrow> False"
| "bad_last sub name (e # rows) \<longleftrightarrow>
     (if se_subsystem e = sub \<and> se_subject e = Some name \<and> se_event e \<in> {SUBJECT_DEGRADED, SUBJECT_UNKNOWN, SUBJECT_RECOVERED}
      then se_event e \<noteq> SUBJECT_RECOVERED else bad_last sub name rows)"

text \<open>Every recovery on record follows a bad record of the same subject.\<close>

fun recoveries_real :: "string \<Rightarrow> event_log \<Rightarrow> bool" where
  "recoveries_real sub [] \<longleftrightarrow> True"
| "recoveries_real sub (e # rows) \<longleftrightarrow>
     (case se_subject e of
        Some name \<Rightarrow> se_subsystem e = sub \<and> se_event e = SUBJECT_RECOVERED \<longrightarrow> bad_last sub name rows
      | None \<Rightarrow> True) \<and> recoveries_real sub rows"

definition remembers :: "string \<Rightarrow> string list \<Rightarrow> event_log \<Rightarrow> bool" where
  "remembers sub memory rows \<longleftrightarrow> (\<forall>name. name \<in> set memory \<longleftrightarrow> bad_last sub name rows) \<and> recoveries_real sub rows"

lemma verdict_event_fields:
  "se_subsystem (verdict_event sub v) = sub" "se_subject (verdict_event sub v) = Some (sv_subject v)"
  "se_event (verdict_event sub v) =
     (case sv_state v of Healthy \<Rightarrow> SUBJECT_RECOVERED | Degraded \<Rightarrow> SUBJECT_DEGRADED | Unread \<Rightarrow> SUBJECT_UNKNOWN)"
  by (simp_all add: verdict_event_def event_record_def Let_def)

lemma event_names_differ:
  "SUBJECT_DEGRADED \<noteq> SUBJECT_RECOVERED" "SUBJECT_UNKNOWN \<noteq> SUBJECT_RECOVERED"
  by (simp_all add: event_names)

lemma emit_verdict_remembers:
  assumes "remembers sub (em_memory s) (em_log s)"
  shows "remembers sub (em_memory (emit_verdict writes sub s v)) (em_log (emit_verdict writes sub s v))"
  using assms
  by (cases "sv_state v")
    (auto simp: emit_verdict_def log_event_def remembers_def verdict_event_fields event_names_differ Let_def)

lemma emit_all_remembers:
  "remembers sub (em_memory s) (em_log s) \<Longrightarrow>
     remembers sub (em_memory (foldl (emit_verdict writes sub) s vs)) (em_log (foldl (emit_verdict writes sub) s vs))"
  by (induction vs arbitrary: s) (simp_all add: emit_verdict_remembers)

lemma save_loads: "set (load_degraded shown (save_degraded True memory old)) = set memory"
  by (auto simp: load_degraded_def save_degraded_def py_str_def)

subsection \<open>Passes\<close>

text \<open>
  A sequence of routings of one subsystem. The \<open>bool\<close> of each says whether the memory could be saved.
\<close>

datatype routing =
    Emit "sac_event \<Rightarrow> event_log \<Rightarrow> bool" bool "subject_verdict list"
  | Recover_Absent "sac_event \<Rightarrow> event_log \<Rightarrow> bool" bool "string list" msg string string

fun route_verdicts :: "(json \<Rightarrow> string) \<Rightarrow> string \<Rightarrow> routing \<Rightarrow> memory_file \<times> event_log \<Rightarrow> memory_file \<times> event_log" where
  "route_verdicts shown sub (Emit writes saves vs) (file, rows) = snd (emit_subject_verdicts writes shown saves sub vs file rows)"
| "route_verdicts shown sub (Recover_Absent writes saves observed detail verdict kind) (file, rows) =
     snd (recover_absent_subjects writes shown saves sub observed detail verdict kind file rows)"

fun saved :: "routing \<Rightarrow> bool" where
  "saved (Emit _ saves _) = saves"
| "saved (Recover_Absent _ saves _ _ _ _) = saves"

lemma route_remembers:
  assumes "remembers sub (load_degraded shown file) rows" and "saved r" and "route_verdicts shown sub r (file, rows) = (file', rows')"
  shows "remembers sub (load_degraded shown file') rows'"
proof -
  have same: "remembers sub m' l" if "remembers sub m l" "set m' = set m" for m m' l
    using that by (simp add: remembers_def)
  show ?thesis
    using assms
    by (cases r) (auto simp: emit_subject_verdicts_def recover_absent_subjects_def Let_def
        intro!: same [OF emit_all_remembers] save_loads)
qed

text \<open>
  C26: over any sequence of passes of a subsystem whose memory could be saved, from a fresh start and
  whatever appends to the log fail, the memory holds exactly the subjects whose latest record is a
  degraded or unknown one, and every recovery on record ends such a state of its subject.
\<close>

theorem memory_is_the_last_word:
  assumes "list_all saved rs" and "foldl (\<lambda>s r. route_verdicts shown sub r s) (No_File, []) rs = (file, rows)"
  shows "(\<forall>name. name \<in> set (load_degraded shown file) \<longleftrightarrow> bad_last sub name rows) \<and> recoveries_real sub rows"
proof -
  have "remembers sub (load_degraded shown file') rows'"
    if "list_all saved rs" "foldl (\<lambda>s r. route_verdicts shown sub r s) (f, l) rs = (file', rows')" "remembers sub (load_degraded shown f) l"
    for f l file' rows'
    using that
  proof (induction rs arbitrary: f l)
    case (Cons r rs)
    obtain f' l' where step: "route_verdicts shown sub r (f, l) = (f', l')" by fastforce
    from route_remembers [OF Cons.prems(3) _ step] Cons.prems(1) have "remembers sub (load_degraded shown f') l'" by simp
    with Cons step show ?case by simp
  qed simp
  from this [OF assms] show ?thesis by (simp add: remembers_def load_degraded_def)
qed

definition demo_verdict_of :: "verdict_state \<Rightarrow> subject_verdict" where
  "demo_verdict_of s =
     \<lparr>sv_subject = ''ada'', sv_state = s, sv_verdict = ''v'', sv_detail = empty_msg, sv_kind = ''agent'', sv_extra = []\<rparr>"

definition demo_passes :: "bool \<Rightarrow> routing list" where
  "demo_passes ok =
     [Emit (\<lambda>_ _. True) True [demo_verdict_of Degraded], Emit (\<lambda>_ _. True) ok [demo_verdict_of Healthy],
      Emit (\<lambda>_ _. True) True [demo_verdict_of Healthy]]"

theorem memory_is_the_last_word_witness:
  "\<exists>file rows. list_ex (\<lambda>e. se_event e = SUBJECT_RECOVERED) rows \<and>
     (\<forall>name. name \<in> set (load_degraded (\<lambda>_. []) file) \<longleftrightarrow> bad_last ''reconcile'' name rows) \<and> recoveries_real ''reconcile'' rows"
proof -
  obtain mem rows where run: "foldl (\<lambda>s r. route_verdicts (\<lambda>_. []) ''reconcile'' r s) (No_File, []) (demo_passes True) = (mem, rows)"
    by fastforce
  have "list_ex (\<lambda>e. se_event e = SUBJECT_RECOVERED)
      (snd (foldl (\<lambda>s r. route_verdicts (\<lambda>_. []) ''reconcile'' r s) (No_File, []) (demo_passes True)))" by code_simp
  moreover have "list_all saved (demo_passes True)" by (simp add: demo_passes_def)
  ultimately show ?thesis using memory_is_the_last_word [OF _ run] run by auto
qed

text \<open>A memory that could not be saved after a recovery makes the next pass record the recovery again.\<close>

lemma unsaved_recovery_is_repeated:
  "map se_event (snd (foldl (\<lambda>s r. route_verdicts (\<lambda>_. []) ''reconcile'' r s) (No_File, []) (demo_passes False)))
     = [SUBJECT_RECOVERED, SUBJECT_RECOVERED, SUBJECT_DEGRADED]"
  by code_simp

end
