(* ===== verification/Spec2Isabelle.thy ===== *)
theory Spec2Isabelle
  imports Preflight Residency Run_Demo Reconcile_Demo Delivery_Claims Rate_Claims Rate_Switch Account_Claims Agent_Claims
    Process_Group Event_Log
begin

text \<open>
  A verification library for scitex-agent-container (\<open>src/scitex_agent_container\<close>): the relocation
  of an agent from one host to another, the placement of an agent on a host, the reconciler that
  restarts the agents of a host that died, the verified delivery of a message to an agent through
  its terminal, the observation of an agent's state, and stopping and restarting it. File names below are relative to that directory.

  \<^bold>\<open>The program.\<close> An agent is a tmux session on one host, named after it, with a spec
  (\<open>spec.yaml\<close>), a transcript directory, a runtime state directory and rows in a record store
  shared by the hosts. A relocation moves all of it: six phases, each an effect on the two hosts,
  recorded in a journal before the next begins, with the handover of a fenced write lease as the
  point of no return. The reconciler is a short-lived pass that a timer starts every few minutes:
  it decides each agent's fate from its spec, the host's tmux and its last row, and restarts
  corpses within a budget kept in one file. Both ask the placement code which machine a host name
  is. A message reaches an agent through its HTTP endpoint or by pasting it into its pane, pressing
  Enter when the compose box is idle and reading the pane for evidence; start dialogs are answered
  the same way, from a registry of reviewed prompts.

  \<^bold>\<open>Conventions.\<close>
  \<^item> Time stamps and durations are rationals; the rounding of floats is not modelled. A three-valued
    answer is a \<^typ>\<open>bool option\<close>. Strings are lists of bytes (UTF-8).
  \<^item> A text the code builds is a \<^typ>\<open>msg\<close>: a template name with the values it interpolates.
  \<^item> A function that may raise returns \<^typ>\<open>py_error\<close> \<open>+ 'a\<close>; a computation on a state that may raise
    is a \<open>('s, 'a) prog\<close>, whose state keeps what was done before the raise.
  \<^item> The \<open>__post_init__\<close> of a value that the code only builds itself is a predicate \<open>*_ok\<close>, proved of
    every value built; where it can fail on data from outside it is a constructor \<open>mk_*\<close> that raises.
  \<^item> What is not under \<open>src/\<close> is an argument: the command broker, ssh and the shell of both hosts, the
    record store (\<open>scitex_dev.store\<close>), the clock, random tokens, the registry of peers (record \<open>env\<close>
    of \<open>Hosts\<close>), a restart and the disk of the reconciler (record \<open>restart_env\<close>). A shell script is a
    value of a datatype with one constructor per script; its output is read as the code reads it.
  \<^item> The code that drives a terminal is a function on the \<^typ>\<open>history\<close> of what it did and saw: captures,
    keys, pastes, clock readings and sleeps (\<open>Screen_Env\<close>). What a capture or the clock answers is
    any function of that history (record \<open>screen_env\<close>). Its loops run until a deadline of that clock:
    they take fuel, and the locale \<open>deadline_loop\<close> bounds the rounds by window and poll interval.
    Pane text is a list of code points.
  \<^item> Lines printed or logged are not modelled, except the log a run returns.

  \<^bold>\<open>The relocation\<close> (\<open>_lifecycle/_relocate_*.py\<close>), decisions first:
  \<^item> \<open>Lease\<close> (\<open>lease.py\<close>): claim, renew, handoff and write check of a fenced lease; \<open>Lease_Readiness\<close>
    (\<open>lease_readiness.py\<close>, \<open>lease_facts.py\<close>): whether a handover could happen. The locale
    \<open>fenced_authority\<close> of \<open>Prelude\<close> is the service's contract; \<open>Lease\<close> interprets it, and its client lemmas
    give that two writers hold increasing fences and a superseded credential never writes again.
  \<^item> \<open>Phases\<close> (\<open>phases.py\<close>): the journal as an inductive step relation, the shape of every reachable
    journal, and the irrevocable handover (locale \<open>one_way_journal\<close>). \<open>Execute\<close> (\<open>execute.py\<close>): the loop
    over the phases for arbitrary effects; it ends, makes only legal moves, and raises only what an
    effect raised or before the first effect.
  \<^item> \<open>Handshake\<close> (\<open>handshake.py\<close>, \<open>reply.py\<close>, \<open>arrival.py\<close>): the gate, the brief that is written into the
    transcript, the reply that is looked for in it: the reply asked for reads back from its JSON record
    (not from raw text), the brief never reads as one while its values hold no equals sign.
  \<^item> \<open>Transport\<close> (\<open>transport*.py\<close>, \<open>move_aside.py\<close>, \<open>transcript.py\<close>): what is carried, the plan, and
    arrival confirmed exactly by equal measures. \<open>Session_Choice\<close>, \<open>Binds\<close>, \<open>Source_Work\<close>: which
    conversation is live, what travels, what is left behind.
  \<^item> \<open>Checks\<close>, \<open>Preflight\<close> (\<open>checks*.py\<close>, \<open>preflight*.py\<close>, \<open>plan.py\<close>): seventeen checks over observed
    facts and the report that lets a relocation through exactly when none of them fails or is open.
  \<^item> \<open>Residency\<close> (\<open>_lifecycle/_residency.py\<close>): where an agent lived when. \<open>Store\<close>
    (\<open>_state/relocation_pg.py\<close>, \<open>records.py\<close>): leases, stays and journals over the record store; its
    hypotheses are the documented behaviour of the three tables, met by the in-memory store there.
  \<^item> \<open>Spec_Reads\<close>, \<open>Hosts\<close>, \<open>Quiescence\<close>: reading the spec text and the hosts. The wait for a silent
    transcript has 15 rounds of fuel: the code leaves it after 30 seconds of a clock that its own
    sleep of 2 seconds a round advances. The wait for a reply looks at most 30 times, as the code does.
  \<^item> \<open>Adapters\<close>, \<open>Adapters_Transport\<close>, \<open>Adapters_Target\<close>, \<open>Adapters_Handover\<close> (\<open>effects*.py\<close>): the six
    effects on the state of one run. \<open>Evidence\<close>: what a step that says yes has seen and done, as
    a trail of observations, each in a world reached by the calls after the one before; a whole run that
    completes is a story of four such trails.
    \<open>Run\<close> (\<open>cli_pkg/_relocate_run.py\<close>): opening or resuming a journal, the run, its exit code; what exit
    code 0 proves and what a stopped run left alone. \<open>Run_Demo\<close>: two hosts, and a whole relocation
    evaluated in the kernel.

  \<^bold>\<open>Placement and the reconciler:\<close>
  \<^item> \<open>Placement\<close> (\<open>cli_pkg/lifecycle/_host_identity.py\<close>, \<open>_host_chain.py\<close>, \<open>_host_routing.py\<close>, the singleton
    guard of \<open>_common.py\<close>): the chain walk equals a reference that judges every name on its own.
  \<^item> \<open>Reconcile_Rule\<close> (\<open>_reconcile/_rule.py\<close>, with \<open>_lifecycle/_verdict_tmux.py\<close>,
    \<open>runtimes/_tui_session_names.py\<close> and the probe's reading of tmux): the fate of one agent.
  \<^item> \<open>Reconcile_Budget\<close> (\<open>_budget.py\<close>): the history file, its JSON, the budget. The locale
    \<open>spacing_limiter\<close> is the contract of a memory that keeps attempts apart; the budget interprets it.
  \<^item> \<open>Reconcile_Pass\<close> (\<open>_blackout.py\<close>, \<open>_perform.py\<close>, \<open>_pass.py\<close>, \<open>_alarm.py\<close>, \<open>_autostart.py\<close>): one pass and
    the autostart on a message. \<open>Reconcile\<close>: the calls a pass makes and runs of passes.
    \<open>Reconcile_Claims\<close>: only corpses are restarted, every one that may be is, half an hour apart.
    \<open>Reconcile_Demo\<close>: a small fleet evaluated in the kernel.

  \<^bold>\<open>Terminals and delivery:\<close>
  \<^item> \<open>Pane_Text\<close>: the string and pattern functions of Python the detectors use. \<open>Prompts\<close>,
    \<open>Prompt_Handlers\<close> (\<open>runtimes/prompts.py\<close>, \<open>_runners/_tmux/prompts.py\<close>,
    \<open>_lifecycle/liveness_probe.py\<close>): what a pane shows, and the registries of dialogs with their keys.
  \<^item> \<open>Drain\<close> (\<open>runtimes/_tui_drain.py\<close> and the start watchdog of \<open>_runners/_tmux/claude_code.py\<close>),
    \<open>Compose\<close> (\<open>runtimes/_tui_compose.py\<close>): answering start dialogs, submitting a pasted draft with
    proof, clearing a stale box. \<open>Drain_Facts\<close>, \<open>Compose_Facts\<close>: each loop interprets \<open>deadline_loop\<close>,
    presses only the keys it may on the pane it last read, and says yes only on what it saw. The
    watchdog has 46 rounds of fuel: two seconds a round, for 90 seconds.
  \<^item> \<open>Auth_Banner\<close> (\<open>_runners/_tmux/auth_status.py\<close>): a login banner stuck above the prompt; its pattern
    class of word characters is an argument. \<open>Turn_Delivery\<close> (\<open>runtimes/_pane_acceptance.py\<close>,
    \<open>_tui_delivery.py\<close>): handing a turn to a live pane, which ends with the input wait it passes.
    \<open>Terminal_Claims\<close>: their properties.
  \<^item> \<open>Delivery\<close> (\<open>_delivery/_spec.py\<close>, \<open>_state.py\<close>, \<open>_assess.py\<close>, \<open>_route.py\<close>, \<open>_token.py\<close>), \<open>Delivery_Send\<close>
    (\<open>_sdk_strategy.py\<close>, \<open>_tui_strategy.py\<close>, \<open>_deliver.py\<close>), \<open>Delivery_Facts\<close>: one send, its three-valued
    signals and their fold; \<open>deliver_fuel\<close> rounds per loop are enough. \<open>Redeliver\<close> (\<open>_redeliver.py\<close>):
    sending again. \<open>Delivery_Claims\<close>: a delivered verdict rests on observation, blindness is never a
    refusal, and only a confirmed refusal is sent again.

  \<^bold>\<open>The other sweeps:\<close>
  \<^item> \<open>Auth_Heal\<close> (\<open>_authheal/_positional.py\<close>, \<open>_liveness.py\<close>, \<open>_admission.py\<close>, \<open>_detect.py\<close>, \<open>_reports.py\<close>,
    \<open>_pass.py\<close>, \<open>evaluate_agents\<close> of \<open>cli_pkg/_auth_status.py\<close>): the sweep over logged-out agents, which
    by its admission rule only reports.
  \<^item> \<open>Rate_Wall\<close> (\<open>_ratelimit/_banner.py\<close>): the wall of a rate limit on a pane and the moment it lifts;
    regular expressions are parsers, a time zone is a pair of functions. \<open>Rate_Rule\<close> (\<open>_rule.py\<close>,
    \<open>_modelcap.py\<close>, \<open>_switch_rule.py\<close>): when to wake an agent, when to switch its model, what proves that
    the switch took. \<open>Rate_Pass\<close> (\<open>_pass.py\<close>, \<open>_switch_pass.py\<close>, \<open>_alarm.py\<close>): the sweep with one budget per
    remedy. \<open>Rate_Facts\<close>: which calls a sweep makes and that they fit its caps. \<open>Rate_Claims\<close>: the
    properties, and the two exceptions that end a sweep early. \<open>Rate_Switch\<close> (\<open>_switch.py\<close>, \<open>_resume.py\<close>): the
    keys that switch the model of a live session and the reading that says whether it took.
  \<^item> \<open>Event_Log\<close> (\<open>_events/_log.py\<close>, \<open>_verdicts.py\<close>): the log the sweeps write, newest row first here, and
    the memory of degraded subjects that decides which recovery is worth a row. Whether an append
    succeeds is an argument; a failed append leaves no part of its row.

  \<^bold>\<open>The choice of an account:\<close>
  \<^item> \<open>Account_Files\<close> (\<open>_creds/_pause.py\<close>, \<open>_entitlement.py\<close>, \<open>_account_health.py\<close>, \<open>_account/creds_sync.py\<close>):
    what the files of an account say of it. \<open>Account_Rank\<close> (\<open>_account/quota_cache.py\<close>,
    \<open>_creds/_spend_policy.py\<close>, \<open>_quota_rank.py\<close>, \<open>_pick_audit.py\<close>): tiers, the two policies, the rendezvous
    hash, whose digest and logarithm are arguments. \<open>Account_Pick\<close> (\<open>_pick_healthy.py\<close>): the account an
    agent boots on. \<open>Account_Claims\<close>: what a pick guarantees and what stops it. Numbers of a JSON file are
    finite; the cache is taken not to change during one pick.

  \<^bold>\<open>The state of an agent\<close> (\<open>_agentstate\<close>):
  \<^item> \<open>Commands\<close>: what a subprocess answered. \<open>Agent_State\<close>: the signals of process, session and pane, the
    verdict folded from them, its exit code and the journal of verdicts. \<open>Agent_Claims\<close>: a process
    counts as dead only on the word of its own host, a missing session alone decides nothing, and a
    capture too long for the journal is cut to as many whole characters as fit.

  \<^bold>\<open>Stopping and restarting\<close> (\<open>_lifecycle/_stop.py\<close> and the modules it calls):
  \<^item> \<open>Stop_Env\<close>: the host as the record \<open>stop_env\<close> of answers to a history of calls, the computations
    \<open>act\<close> over it with exceptions and fuel, and their triples. A signal, a row removed, an archive and
    every question that decides something is an event of the history; starting an agent, the hooks, the
    registry and the ledger are calls that are answered. A waiting loop has \<open>rounds timeout period\<close> rounds;
    a body that ends or lets a period of the clock pass in every round (\<open>paced\<close>) makes them enough.
  \<^item> \<open>Process_Scope\<close> (\<open>_runners/_scope_ownership.py\<close>): capturing the systemd scope of a launch, reading
    it back and stopping exactly that scope. \<open>Agent_Stop\<close> (\<open>_managed_turn_drain.py\<close>, \<open>_stop_outcome.py\<close>,
    \<open>_stop.py\<close>): the stop and its guard on a running turn. \<open>Agent_Restart\<close> (\<open>_stop_escalate.py\<close> and
    \<open>agent_restart\<close>): the restart and the gate that kills a survivor.
  \<^item> \<open>Stop_Facts\<close>, \<open>Stop_Claims\<close>, \<open>Stop_Exit\<close>: the order of a restart, whom its gate may kill, when a row
    leaves the registry, which scope is stopped, that a restart returns and what it leaves.
  \<^item> \<open>Process_Group\<close> (\<open>_runners/_tmux/_process_group.py\<close>): the process tree of a pane as a snapshot of
    identities, and ending its group with TERM and KILL.

  \<^bold>\<open>Not modelled.\<close> The probe that gathers the preflight's facts and the rendering of its report
  (\<open>_relocate_probe*.py\<close>, \<open>_relocate_render.py\<close>, \<open>cli_pkg/_relocate_cmd.py\<close>); the HTTP status kept with a
  transport error; the rotation and rendering of the journals; the three registries that name this
  machine; starting an agent; probing, refreshing and switching accounts, the daemon, the rest of the runtimes and
  runners, configuration loading, the web and
  MCP front ends and the rest of the command line, which are mostly process, network and file
  traffic. Of the delivery, the rendering of its reports is left out. A paste that
  raises (\<open>TmuxPasteError\<close>) leaves \<open>deliver\<close> in the code; the pane of a send never does here.
\<close>

end
